(* ===== verification/Prelude.thy ===== *)
theory Prelude
  imports Complex_Main "HOL-Library.Word" "HOL-Library.Char_ord"
begin

text \<open>
  Shared material of the development: the exceptions of the Python code as values, a result
  type for code that may raise, and the generic lemmas on lists, maps and results that the
  component theories use.  Nothing here models a line of the program.
\<close>

declare Let_def [simp]

section \<open>Exceptions as values\<close>

text \<open>
  A Python function that may raise is a function into \<open>py_error + 'a\<close>: \<open>Inl e\<close> is the
  raised exception, \<open>Inr x\<close> the returned value.  The constructors are the exception
  classes the modelled code raises or lets escape; the message texts are dropped, since no
  modelled code reads them.
\<close>

datatype py_error =
    ValueError
  | KeyError
  | IndexError
  | TypeError
  | OverflowError
  | ZeroDivisionError
  | OSError
  | FileNotFoundError
  | IntegrityError
  | UnicodeError
  | AttributeError
  | RuntimeError
  | StructError
  | VFSPathError
  | ModError
  | RecursionError

type_synonym byte = "8 word"

type_synonym 'a result = "py_error + 'a"

definition ok :: "'a result \<Rightarrow> bool" where
  "ok r = (case r of Inl _ \<Rightarrow> False | Inr _ \<Rightarrow> True)"

lemma ok_simps [simp]: "\<not> ok (Inl e)" "ok (Inr x)"
  by (simp_all add: ok_def)

definition bind_result :: "'a result \<Rightarrow> ('a \<Rightarrow> 'b result) \<Rightarrow> 'b result" where
  "bind_result r f = (case r of Inl e \<Rightarrow> Inl e | Inr x \<Rightarrow> f x)"

lemma bind_result_simps [simp]:
  "bind_result (Inl e) f = Inl e" "bind_result (Inr x) f = f x"
  by (simp_all add: bind_result_def)

lemma bind_result_Inr_conv:
  "bind_result r f = Inr y \<longleftrightarrow> (\<exists>x. r = Inr x \<and> f x = Inr y)"
  by (cases r) auto

text \<open>Mapping a raising function over a list stops at the first exception.\<close>

fun map_result :: "('a \<Rightarrow> 'b result) \<Rightarrow> 'a list \<Rightarrow> 'b list result" where
  "map_result f [] = Inr []"
| "map_result f (x # xs) =
     (case f x of
        Inl e \<Rightarrow> Inl e
      | Inr y \<Rightarrow> (case map_result f xs of Inl e \<Rightarrow> Inl e | Inr ys \<Rightarrow> Inr (y # ys)))"

lemma map_result_Inr: "(\<And>x. x \<in> set xs \<Longrightarrow> f x = Inr (g x)) \<Longrightarrow> map_result f xs = Inr (map g xs)"
  by (induction xs) auto

lemma length_map_result: "map_result f xs = Inr ys \<Longrightarrow> length ys = length xs"
  by (induction xs arbitrary: ys) (auto split: sum.splits)

section \<open>Removing the first match from a list\<close>

text \<open>The loop \<open>for i, x in enumerate(xs): if P(x): ... xs.pop(i) ...; return\<close>.\<close>

fun pop_first :: "('a \<Rightarrow> bool) \<Rightarrow> 'a list \<Rightarrow> ('a \<times> 'a list) option" where
  "pop_first P [] = None"
| "pop_first P (x # xs) =
     (if P x then Some (x, xs)
      else (case pop_first P xs of None \<Rightarrow> None | Some (y, ys) \<Rightarrow> Some (y, x # ys)))"

lemma pop_first_None: "pop_first P xs = None \<longleftrightarrow> (\<forall>x\<in>set xs. \<not> P x)"
  by (induction xs) (auto split: option.splits)

lemma pop_first_split:
  "pop_first P xs = Some (y, ys) \<Longrightarrow>
     \<exists>us vs. xs = us @ y # vs \<and> ys = us @ vs \<and> P y \<and> (\<forall>u\<in>set us. \<not> P u)"
proof (induction xs arbitrary: y ys)
  case Nil
  then show ?case by simp
next
  case (Cons x xs)
  show ?case
  proof (cases "P x")
    case True
    with Cons.prems have "x # xs = [] @ y # ys \<and> ys = [] @ ys \<and> P y \<and> (\<forall>u\<in>set []. \<not> P u)"
      by simp
    then show ?thesis by blast
  next
    case False
    with Cons.prems obtain zs where zs: "pop_first P xs = Some (y, zs)" "ys = x # zs"
      by (auto split: option.splits)
    then obtain us vs where "xs = us @ y # vs" "zs = us @ vs" "P y" "\<forall>u\<in>set us. \<not> P u"
      using Cons.IH by blast
    with False zs have "x # xs = (x # us) @ y # vs \<and> ys = (x # us) @ vs \<and> P y \<and> (\<forall>u\<in>set (x # us). \<not> P u)"
      by simp
    then show ?thesis by blast
  qed
qed

lemma pop_first_append:
  "(\<forall>u\<in>set us. \<not> P u) \<Longrightarrow> P y \<Longrightarrow> pop_first P (us @ y # vs) = Some (y, us @ vs)"
  by (induction us) auto

lemma distinct_map_split:
  "distinct (map f (us @ y # vs)) \<Longrightarrow> \<forall>u\<in>set (us @ vs). f u \<noteq> f y"
  by (auto simp: image_iff)

end
