(* ===== verification/AtomicJournal.thy ===== *)
theory AtomicJournal
  imports Prelude
begin

text \<open>
  The journal of \<open>SCRIPTS/SERVERS/mc-server-runner/engine/atomic.py\<close>: \<open>AtomicOperation\<close>,
  \<open>AtomicJournal\<close> (begin, commit, rollback, rollback_all, the context manager), the module
  singleton and the \<open>atomic_write\<close> helper.  A snapshot (a Python dict) is a value of the
  type parameter \<open>'s\<close>; \<open>copy.deepcopy\<close> is the identity on values.  Every public method
  holds the journal's lock for its whole body, so one method call is one step.  The database
  adaptor, when there is one, is the list of calls made to it.  The wall clock
  is an argument (\<open>now\<close>).
\<close>

section \<open>Operations and the journal\<close>

datatype op_status = Pending | Committed | RolledBack

record 's atomic_operation =
  op_id :: int
  op_type :: string
  op_key :: string
  before_state :: 's
  after_state :: "'s option"
  op_status :: op_status
  timestamp :: string

definition new_operation ::
  "int \<Rightarrow> string \<Rightarrow> string \<Rightarrow> 's \<Rightarrow> string \<Rightarrow> 's atomic_operation" where
  "new_operation i ty key before now =
     \<lparr>op_id = i, op_type = ty, op_key = key, before_state = before, after_state = None,
      op_status = Pending, timestamp = now\<rparr>"

text \<open>\<open>to_dict\<close> lists the seven slots; the dict is the record itself.\<close>

definition op_to_dict :: "'s atomic_operation \<Rightarrow> 's atomic_operation" where
  "op_to_dict op =
     \<lparr>op_id = op_id op, op_type = op_type op, op_key = op_key op,
      before_state = before_state op, after_state = after_state op,
      op_status = op_status op, timestamp = timestamp op\<rparr>"

datatype 's db_call =
    InsertOperation "'s atomic_operation"
  | UpdateOperation "'s atomic_operation"

record 's journal =
  j_db :: "'s db_call list option"
  j_pending :: "'s atomic_operation list"
  j_committed :: "'s atomic_operation list"
  j_next_id :: int

definition new_journal :: "'s db_call list option \<Rightarrow> 's journal" where
  "new_journal db = \<lparr>j_db = db, j_pending = [], j_committed = [], j_next_id = 1\<rparr>"

definition db_send :: "'s db_call \<Rightarrow> 's journal \<Rightarrow> 's journal" where
  "db_send c j = j\<lparr>j_db := map_option (\<lambda>calls. calls @ [c]) (j_db j)\<rparr>"

definition journal_begin ::
  "string \<Rightarrow> string \<Rightarrow> 's \<Rightarrow> string \<Rightarrow> 's journal \<Rightarrow> int \<times> 's journal" where
  "journal_begin ty key before now j =
     (let i = j_next_id j;
          operation = new_operation i ty key before now;
          j1 = j\<lparr>j_next_id := i + 1, j_pending := j_pending j @ [operation]\<rparr>
      in (i, db_send (InsertOperation (op_to_dict operation)) j1))"

definition journal_commit ::
  "int \<Rightarrow> 's option \<Rightarrow> 's journal \<Rightarrow> bool \<times> 's journal" where
  "journal_commit i after j =
     (case pop_first (\<lambda>op. op_id op = i) (j_pending j) of
        None \<Rightarrow> (False, j)
      | Some (op, rest) \<Rightarrow>
          let op' = op\<lparr>after_state := Some (case after of Some s \<Rightarrow> s | None \<Rightarrow> before_state op),
                       op_status := Committed\<rparr>;
              j1 = j\<lparr>j_committed := j_committed j @ [op'], j_pending := rest\<rparr>
          in (True, db_send (UpdateOperation (op_to_dict op')) j1))"

definition rollback_unlocked ::
  "int option \<Rightarrow> 's journal \<Rightarrow> ('s \<times> 's journal) result" where
  "rollback_unlocked oid j =
     (let popped =
        (case oid of
           None \<Rightarrow> (if j_pending j = [] then None
                    else Some (last (j_pending j), butlast (j_pending j)))
         | Some i \<Rightarrow> pop_first (\<lambda>op. op_id op = i) (j_pending j))
      in case popped of
           None \<Rightarrow> Inl ValueError
         | Some (operation, rest) \<Rightarrow>
             let operation' = operation\<lparr>op_status := RolledBack\<rparr>
             in Inr (before_state operation',
                     db_send (UpdateOperation (op_to_dict operation')) (j\<lparr>j_pending := rest\<rparr>)))"

definition journal_rollback ::
  "int option \<Rightarrow> 's journal \<Rightarrow> ('s \<times> 's journal) result" where
  "journal_rollback oid j = rollback_unlocked oid j"

text \<open>
  \<open>while self._pending: restored.append(self._rollback_unlocked())\<close>.  Each turn pops one
  pending operation, which is the measure.
\<close>

lemma rollback_unlocked_shrinks:
  "rollback_unlocked None j = Inr (s, j') \<Longrightarrow> length (j_pending j') < length (j_pending j)"
  by (auto simp: rollback_unlocked_def db_send_def Let_def split: if_splits)

function rollback_all_loop :: "'s list \<Rightarrow> 's journal \<Rightarrow> 's list \<times> 's journal" where
  "rollback_all_loop restored j =
     (if j_pending j = [] then (restored, j)
      else (case rollback_unlocked None j of
              Inl e \<Rightarrow> (restored, j)
            | Inr (s, j') \<Rightarrow> rollback_all_loop (restored @ [s]) j'))"
  by pat_completeness auto
termination
  by (relation "measure (\<lambda>(restored, j). length (j_pending j))")
     (auto intro: rollback_unlocked_shrinks)

declare rollback_all_loop.simps [simp del]

definition rollback_all :: "'s journal \<Rightarrow> 's list \<times> 's journal" where
  "rollback_all j = rollback_all_loop [] j"

definition get_pending :: "'s journal \<Rightarrow> 's atomic_operation list" where
  "get_pending j = map op_to_dict (j_pending j)"

definition get_committed :: "'s journal \<Rightarrow> 's atomic_operation list" where
  "get_committed j = map op_to_dict (j_committed j)"

definition clear_committed :: "'s journal \<Rightarrow> nat \<times> 's journal" where
  "clear_committed j = (length (j_committed j), j\<lparr>j_committed := []\<rparr>)"

definition pending_count :: "'s journal \<Rightarrow> nat" where
  "pending_count j = length (j_pending j)"

definition committed_count :: "'s journal \<Rightarrow> nat" where
  "committed_count j = length (j_committed j)"

text \<open>
  \<open>__exit__\<close> as it is indented in the source: the loop that commits the pending operations
  stands after \<open>return False\<close> inside the \<open>if exc_type is not None\<close> block, so it is
  unreachable; without an exception the method falls off its end and returns \<open>None\<close>.
\<close>

definition journal_exit :: "bool \<Rightarrow> 's journal \<Rightarrow> bool option \<times> 's journal" where
  "journal_exit exc j =
     (if exc then (Some False, snd (rollback_all j)) else (None, j))"

section \<open>The module singleton and atomic writes\<close>

text \<open>
  \<open>get_journal\<close> and \<open>reset_journal\<close> on the module variable \<open>_journal\<close>.  A database
  given after the first call is ignored.
\<close>

definition get_journal ::
  "'s db_call list option \<Rightarrow> 's journal option \<Rightarrow> 's journal \<times> 's journal option" where
  "get_journal db g =
     (case g of
        None \<Rightarrow> (let j = new_journal db in (j, Some j))
      | Some j \<Rightarrow> (j, Some j))"

definition reset_journal :: "'s journal option \<Rightarrow> 's journal option" where
  "reset_journal g = None"

record file_state =
  fs_path :: string
  fs_exists :: bool
  fs_size :: nat

record write_context =
  wc_op_id :: int
  wc_file_path :: string
  wc_new_content :: "byte list option"

definition set_new_content :: "byte list \<Rightarrow> write_context \<Rightarrow> write_context" where
  "set_new_content content ctx = ctx\<lparr>wc_new_content := Some content\<rparr>"

definition context_commit ::
  "write_context \<Rightarrow> file_state journal \<Rightarrow> bool \<times> file_state journal" where
  "context_commit ctx j =
     (let after = \<lparr>fs_path = wc_file_path ctx,
                   fs_exists = (wc_new_content ctx \<noteq> None),
                   fs_size = (case wc_new_content ctx of None \<Rightarrow> 0 | Some c \<Rightarrow> length c)\<rparr>
      in journal_commit (wc_op_id ctx) (Some after) j)"

definition context_rollback ::
  "write_context \<Rightarrow> file_state journal \<Rightarrow> (file_state \<times> file_state journal) result" where
  "context_rollback ctx j = journal_rollback (Some (wc_op_id ctx)) j"

text \<open>
  \<open>atomic_write\<close>: \<open>vfs.read\<close> is the function \<open>read\<close>; \<open>FileNotFoundError\<close> is caught,
  any other exception leaves the function before the journal is touched.  The journal
  argument is the one \<open>get_journal(db)\<close> returns.
\<close>

definition atomic_write ::
  "string \<Rightarrow> (string \<Rightarrow> byte list result) \<Rightarrow> string \<Rightarrow> file_state journal
     \<Rightarrow> (write_context \<times> file_state journal) result" where
  "atomic_write path read now j =
     (let begun = (\<lambda>before.
        (let (i, j') = journal_begin ''vfs_write'' path before now j
         in Inr (\<lparr>wc_op_id = i, wc_file_path = path, wc_new_content = None\<rparr>, j')))
      in case read path of
           Inr data \<Rightarrow> begun \<lparr>fs_path = path, fs_exists = True, fs_size = length data\<rparr>
         | Inl FileNotFoundError \<Rightarrow> begun \<lparr>fs_path = path, fs_exists = False, fs_size = 0\<rparr>
         | Inl e \<Rightarrow> Inl e)"

section \<open>Well-formed journals\<close>

text \<open>
  Identifiers are unique over the pending and the committed list and lie below the counter;
  a pending operation is \<open>Pending\<close> with no after-state, a committed one is \<open>Committed\<close>
  and has one.
\<close>

definition journal_wf :: "'s journal \<Rightarrow> bool" where
  "journal_wf j \<longleftrightarrow>
     distinct (map op_id (j_pending j @ j_committed j)) \<and>
     (\<forall>op\<in>set (j_pending j @ j_committed j). 1 \<le> op_id op \<and> op_id op < j_next_id j) \<and>
     (\<forall>op\<in>set (j_pending j). op_status op = Pending \<and> after_state op = None) \<and>
     (\<forall>op\<in>set (j_committed j). op_status op = Committed \<and> after_state op \<noteq> None) \<and>
     1 \<le> j_next_id j"

text \<open>The calls sent to the database, replayed: the last record written under each id.\<close>

fun db_view :: "'s db_call list \<Rightarrow> int \<Rightarrow> 's atomic_operation option" where
  "db_view [] i = None"
| "db_view (InsertOperation d # cs) i =
     (case db_view cs i of None \<Rightarrow> (if op_id d = i then Some d else None) | Some d' \<Rightarrow> Some d')"
| "db_view (UpdateOperation d # cs) i =
     (case db_view cs i of None \<Rightarrow> (if op_id d = i then Some d else None) | Some d' \<Rightarrow> Some d')"

definition db_mirrors :: "'s journal \<Rightarrow> bool" where
  "db_mirrors j \<longleftrightarrow>
     (case j_db j of
        None \<Rightarrow> True
      | Some calls \<Rightarrow> \<forall>op\<in>set (j_pending j @ j_committed j). db_view calls (op_id op) = Some op)"

text \<open>The steps a program can make with a journal; queries do not change it.\<close>

inductive journal_step :: "'s journal \<Rightarrow> 's journal \<Rightarrow> bool" where
  step_begin: "journal_step j (snd (journal_begin ty key before now j))"
| step_commit: "journal_step j (snd (journal_commit i after j))"
| step_rollback: "journal_rollback oid j = Inr (s, j') \<Longrightarrow> journal_step j j'"
| step_rollback_all: "journal_step j (snd (rollback_all j))"
| step_clear: "journal_step j (snd (clear_committed j))"
| step_exit: "journal_step j (snd (journal_exit exc j))"

inductive journal_reachable :: "'s journal \<Rightarrow> bool" where
  reach_new: "db = None \<or> db = Some [] \<Longrightarrow> journal_reachable (new_journal db)"
| reach_step: "journal_reachable j \<Longrightarrow> journal_step j j' \<Longrightarrow> journal_reachable j'"

lemma op_to_dict_id [simp]: "op_to_dict op = op"
  by (simp add: op_to_dict_def)

lemma db_view_append:
  "db_view (cs @ ds) i = (case db_view ds i of None \<Rightarrow> db_view cs i | Some d \<Rightarrow> Some d)"
  by (induction cs i rule: db_view.induct) (auto split: option.splits)

lemma db_send_simps [simp]:
  "j_pending (db_send c j) = j_pending j" "j_committed (db_send c j) = j_committed j"
  "j_next_id (db_send c j) = j_next_id j"
  "j_db (db_send c j) = map_option (\<lambda>calls. calls @ [c]) (j_db j)"
  by (simp_all add: db_send_def)

lemma journal_wf_begin:
  assumes "journal_wf j" shows "journal_wf (snd (journal_begin ty key before now j))"
proof -
  have "j_next_id j \<notin> set (map op_id (j_pending j @ j_committed j))"
    using assms by (force simp: journal_wf_def)
  then show ?thesis using assms
    by (auto simp: journal_wf_def journal_begin_def Let_def new_operation_def less_imp_le)
qed

definition committed_form :: "'s option \<Rightarrow> 's atomic_operation \<Rightarrow> 's atomic_operation" where
  "committed_form after op =
     op\<lparr>after_state := Some (case after of Some s \<Rightarrow> s | None \<Rightarrow> before_state op),
        op_status := Committed\<rparr>"

lemma journal_wf_commit:
  assumes "journal_wf j" shows "journal_wf (snd (journal_commit i after j))"
proof (cases "pop_first (\<lambda>op. op_id op = i) (j_pending j)")
  case None
  then show ?thesis using assms by (simp add: journal_commit_def)
next
  case (Some p)
  obtain op rest where p: "p = (op, rest)" by (cases p)
  obtain us vs where split: "j_pending j = us @ op # vs" "rest = us @ vs" "op_id op = i"
    using pop_first_split [OF Some [unfolded p]] by blast
  have "snd (journal_commit i after j) = db_send (UpdateOperation (committed_form after op))
      (j\<lparr>j_committed := j_committed j @ [committed_form after op], j_pending := us @ vs\<rparr>)"
    using Some p split by (simp add: journal_commit_def committed_form_def)
  then show ?thesis using assms split(1)
    by (simp add: journal_wf_def committed_form_def)
qed

lemma rollback_unlocked_cases:
  assumes "rollback_unlocked oid j = Inr (s, j')"
  obtains us op vs where "j_pending j = us @ op # vs" "s = before_state op"
    "j' = db_send (UpdateOperation (op\<lparr>op_status := RolledBack\<rparr>)) (j\<lparr>j_pending := us @ vs\<rparr>)"
    "oid = None \<Longrightarrow> vs = []" "\<And>i. oid = Some i \<Longrightarrow> op_id op = i"
proof (cases oid)
  case None
  then have ne: "j_pending j \<noteq> []" using assms
    by (auto simp: rollback_unlocked_def split: if_splits)
  then have split: "j_pending j = butlast (j_pending j) @ last (j_pending j) # []" by simp
  have "s = before_state (last (j_pending j))"
    "j' = db_send (UpdateOperation ((last (j_pending j))\<lparr>op_status := RolledBack\<rparr>))
            (j\<lparr>j_pending := butlast (j_pending j) @ []\<rparr>)"
    using assms None ne by (simp_all add: rollback_unlocked_def)
  from that [OF split this] show ?thesis using None by simp
next
  case (Some i)
  then obtain op rest where r: "pop_first (\<lambda>op. op_id op = i) (j_pending j) = Some (op, rest)"
    using assms by (auto simp: rollback_unlocked_def split: option.splits)
  then obtain us vs where split: "j_pending j = us @ op # vs" "rest = us @ vs" "op_id op = i"
    using pop_first_split [OF r] by blast
  have "s = before_state op"
    "j' = db_send (UpdateOperation (op\<lparr>op_status := RolledBack\<rparr>)) (j\<lparr>j_pending := us @ vs\<rparr>)"
    using assms Some r split(2) by (simp_all add: rollback_unlocked_def)
  from that [OF split(1) this] show ?thesis using Some split(3) by simp
qed

lemma journal_wf_rollback:
  assumes "journal_wf j" "rollback_unlocked oid j = Inr (s, j')" shows "journal_wf j'"
  using assms(2)
proof (rule rollback_unlocked_cases)
  fix us op vs
  assume "j_pending j = us @ op # vs"
    "j' = db_send (UpdateOperation (op\<lparr>op_status := RolledBack\<rparr>)) (j\<lparr>j_pending := us @ vs\<rparr>)"
  then show ?thesis using assms(1) by (simp add: journal_wf_def)
qed

lemma rollback_unlocked_None_ok:
  "j_pending j \<noteq> [] \<Longrightarrow> rollback_unlocked None j =
     Inr (before_state (last (j_pending j)),
          db_send (UpdateOperation ((last (j_pending j))\<lparr>op_status := RolledBack\<rparr>))
            (j\<lparr>j_pending := butlast (j_pending j)\<rparr>))"
  by (simp add: rollback_unlocked_def)

text \<open>A property kept by each single rollback is kept by the loop.\<close>

lemma rollback_all_loop_keeps:
  assumes "\<And>j s j'. P j \<Longrightarrow> rollback_unlocked None j = Inr (s, j') \<Longrightarrow> P j'"
  shows "P j \<Longrightarrow> P (snd (rollback_all_loop restored j))"
proof (induction restored j rule: rollback_all_loop.induct)
  case (1 restored j)
  show ?case
  proof (cases "j_pending j = []")
    case True
    with 1 show ?thesis by (subst rollback_all_loop.simps) simp
  next
    case False
    let ?s = "before_state (last (j_pending j))"
    let ?j = "db_send (UpdateOperation ((last (j_pending j))\<lparr>op_status := RolledBack\<rparr>))
            (j\<lparr>j_pending := butlast (j_pending j)\<rparr>)"
    have eq: "rollback_unlocked None j = Inr (?s, ?j)" by (rule rollback_unlocked_None_ok [OF False])
    have "P ?j" using assms 1(2) eq by blast
    then have "P (snd (rollback_all_loop (restored @ [?s]) ?j))"
      using 1(1) [OF False eq] by simp
    then show ?thesis using False eq by (subst rollback_all_loop.simps) simp
  qed
qed

lemma rollback_all_loop_result:
  "fst (rollback_all_loop restored j) = restored @ map before_state (rev (j_pending j)) \<and>
   j_pending (snd (rollback_all_loop restored j)) = [] \<and>
   j_committed (snd (rollback_all_loop restored j)) = j_committed j \<and>
   j_next_id (snd (rollback_all_loop restored j)) = j_next_id j"
proof (induction restored j rule: rollback_all_loop.induct)
  case (1 restored j)
  show ?case
  proof (cases "j_pending j = []")
    case True
    then show ?thesis by (subst (1 2 3 4) rollback_all_loop.simps) simp
  next
    case False
    note eq = rollback_unlocked_None_ok [OF False]
    have "map before_state (rev (j_pending j)) =
        before_state (last (j_pending j)) # map before_state (rev (butlast (j_pending j)))"
      using False by (metis append_butlast_last_id list.simps(9) rev_eq_Cons_iff rev_rev_ident)
    then show ?thesis using 1 [OF False eq] False eq
      by (subst (1 2 3 4) rollback_all_loop.simps) simp
  qed
qed

lemma journal_wf_step: "journal_step j j' \<Longrightarrow> journal_wf j \<Longrightarrow> journal_wf j'"
proof (induction rule: journal_step.induct)
  case (step_rollback oid j s j')
  then show ?case by (auto simp: journal_rollback_def intro: journal_wf_rollback)
next
  case (step_clear j)
  then show ?case by (auto simp: clear_committed_def journal_wf_def)
next
  case (step_exit j exc)
  then show ?case unfolding journal_exit_def rollback_all_def
    using rollback_all_loop_keeps [of journal_wf, OF journal_wf_rollback] by auto
qed (auto simp: rollback_all_def
       intro: journal_wf_begin journal_wf_commit rollback_all_loop_keeps journal_wf_rollback)

lemma journal_reachable_wf: "journal_reachable j \<Longrightarrow> journal_wf j"
  by (induction rule: journal_reachable.induct)
     (auto simp: new_journal_def journal_wf_def [of "\<lparr>j_db = _, j_pending = _, j_committed = _, j_next_id = _\<rparr>"]
       intro: journal_wf_step)

section \<open>The database copy of the journal\<close>

lemma db_mirrors_begin:
  assumes "journal_wf j" "db_mirrors j"
  shows "db_mirrors (snd (journal_begin ty key before now j))"
proof -
  have "\<forall>op\<in>set (j_pending j @ j_committed j). op_id op \<noteq> j_next_id j"
    using assms(1) by (force simp: journal_wf_def)
  then show ?thesis using assms(2)
    by (auto simp: db_mirrors_def journal_begin_def new_operation_def db_view_append split: option.splits)
qed

lemma db_mirrors_update:
  assumes wf: "journal_wf j" and m: "db_mirrors j" and split: "j_pending j = us @ op # vs"
    and "op_id op' = op_id op" and "j_pending j' = us @ vs"
    and "j_committed j' = j_committed j \<or> j_committed j' = j_committed j @ [op']"
    and "j_db j' = map_option (\<lambda>calls. calls @ [UpdateOperation op']) (j_db j)"
  shows "db_mirrors j'"
proof (cases "j_db j")
  case None
  with assms show ?thesis by (simp add: db_mirrors_def)
next
  case (Some calls)
  have others: "\<forall>x\<in>set (us @ vs @ j_committed j). op_id x \<noteq> op_id op \<and> db_view calls (op_id x) = Some x"
    using wf m split Some by (auto simp: journal_wf_def db_mirrors_def image_iff)
  show ?thesis
    using assms(4-7) Some others by (auto simp: db_mirrors_def db_view_append)
qed

lemma db_mirrors_commit:
  assumes "journal_wf j" "db_mirrors j"
  shows "db_mirrors (snd (journal_commit i after j))"
proof (cases "pop_first (\<lambda>op. op_id op = i) (j_pending j)")
  case None
  then show ?thesis using assms by (simp add: journal_commit_def)
next
  case (Some p)
  obtain op rest where p: "p = (op, rest)" by (cases p)
  obtain us vs where split: "j_pending j = us @ op # vs" "rest = us @ vs" "op_id op = i"
    using pop_first_split [OF Some [unfolded p]] by blast
  show ?thesis
    by (rule db_mirrors_update [OF assms split(1), of "committed_form after op"])
       (use Some p split in \<open>simp_all add: journal_commit_def committed_form_def\<close>)
qed

lemma db_mirrors_rollback:
  assumes "journal_wf j" "db_mirrors j" "rollback_unlocked oid j = Inr (s, j')"
  shows "db_mirrors j'"
  using assms(3)
proof (rule rollback_unlocked_cases)
  fix us op vs
  assume split: "j_pending j = us @ op # vs"
    and j': "j' = db_send (UpdateOperation (op\<lparr>op_status := RolledBack\<rparr>)) (j\<lparr>j_pending := us @ vs\<rparr>)"
  show ?thesis
    by (rule db_mirrors_update [OF assms(1,2) split, of "op\<lparr>op_status := RolledBack\<rparr>"]) (simp_all add: j')
qed

lemma journal_step_mirrors:
  "journal_step j j' \<Longrightarrow> journal_wf j \<and> db_mirrors j \<Longrightarrow> journal_wf j' \<and> db_mirrors j'"
proof (induction rule: journal_step.induct)
  case (step_rollback oid j s j')
  then show ?case
    by (auto simp: journal_rollback_def intro: journal_wf_rollback db_mirrors_rollback)
next
  case (step_clear j)
  then show ?case
    by (auto simp: clear_committed_def journal_wf_def db_mirrors_def split: option.splits)
next
  case (step_rollback_all j)
  then show ?case unfolding rollback_all_def
    by (rule rollback_all_loop_keeps [of "\<lambda>j. journal_wf j \<and> db_mirrors j", rotated])
       (auto intro: journal_wf_rollback db_mirrors_rollback)
next
  case (step_exit j exc)
  then have "journal_wf (snd (rollback_all j)) \<and> db_mirrors (snd (rollback_all j))"
    unfolding rollback_all_def
    by (rule rollback_all_loop_keeps [of "\<lambda>j. journal_wf j \<and> db_mirrors j", rotated])
       (auto intro: journal_wf_rollback db_mirrors_rollback)
  then show ?case using step_exit by (simp add: journal_exit_def)
qed (auto intro: journal_wf_begin journal_wf_commit db_mirrors_begin db_mirrors_commit)

lemma journal_reachable_mirrors: "journal_reachable j \<Longrightarrow> journal_wf j \<and> db_mirrors j"
proof (induction rule: journal_reachable.induct)
  case (reach_new db)
  then show ?case
    by (auto simp: new_journal_def journal_wf_def db_mirrors_def split: option.splits)
next
  case (reach_step j j')
  then show ?case using journal_step_mirrors [of j j'] by simp
qed

section \<open>The journal as an undo log\<close>

text \<open>
  What a caller relies on: a begun operation is appended to the snapshots, a commit removes
  the snapshot of its id, and rolling everything back returns the snapshots newest first.
\<close>

locale undo_log =
  fixes log_begin :: "'s \<Rightarrow> 'j \<Rightarrow> int \<times> 'j"
    and log_commit :: "int \<Rightarrow> 'j \<Rightarrow> bool \<times> 'j"
    and log_rollback_all :: "'j \<Rightarrow> 's list \<times> 'j"
    and snapshots :: "'j \<Rightarrow> (int \<times> 's) list"
    and log_inv :: "'j \<Rightarrow> bool"
  assumes begin_inv: "log_inv j \<Longrightarrow> log_inv (snd (log_begin s j))"
    and commit_inv: "log_inv j \<Longrightarrow> log_inv (snd (log_commit i j))"
    and rollback_inv: "log_inv j \<Longrightarrow> log_inv (snd (log_rollback_all j))"
    and begin_snapshots:
      "log_inv j \<Longrightarrow> snapshots (snd (log_begin s j)) = snapshots j @ [(fst (log_begin s j), s)]"
    and begin_fresh: "log_inv j \<Longrightarrow> fst (log_begin s j) \<notin> fst ` set (snapshots j)"
    and commit_snapshots:
      "log_inv j \<Longrightarrow> snapshots (snd (log_commit i j)) = filter (\<lambda>p. fst p \<noteq> i) (snapshots j)"
    and commit_result: "log_inv j \<Longrightarrow> fst (log_commit i j) \<longleftrightarrow> i \<in> fst ` set (snapshots j)"
    and rollback_result: "log_inv j \<Longrightarrow> fst (log_rollback_all j) = map snd (rev (snapshots j))"
    and rollback_snapshots: "log_inv j \<Longrightarrow> snapshots (snd (log_rollback_all j)) = []"

text \<open>
  The documented use: record the old value of a key, then overwrite it; to undo, apply the
  returned states in the order given.
\<close>

definition apply_snapshot :: "('k \<rightharpoonup> 'v) \<Rightarrow> 'k \<times> 'v option \<Rightarrow> ('k \<rightharpoonup> 'v)" where
  "apply_snapshot m s = m(fst s := snd s)"

lemma apply_snapshot_undo [simp]: "apply_snapshot (m(k := v)) (k, m k) = m"
  by (simp add: apply_snapshot_def)

fun journaled_writes ::
  "('k \<times> 'v option \<Rightarrow> 'j \<Rightarrow> int \<times> 'j) \<Rightarrow> ('k \<times> 'v option) list \<Rightarrow> ('k \<rightharpoonup> 'v) \<Rightarrow> 'j
     \<Rightarrow> ('k \<rightharpoonup> 'v) \<times> 'j" where
  "journaled_writes lb [] m j = (m, j)"
| "journaled_writes lb (w # ws) m j =
     journaled_writes lb ws (m(fst w := snd w)) (snd (lb (fst w, m (fst w)) j))"

context undo_log
begin

lemma begin_then_commit:
  assumes "log_inv j"
  shows "fst (log_commit (fst (log_begin s j)) (snd (log_begin s j)))"
    and "snapshots (snd (log_commit (fst (log_begin s j)) (snd (log_begin s j)))) = snapshots j"
proof -
  have "filter (\<lambda>p. fst p \<noteq> fst (log_begin s j)) (snapshots j) = snapshots j"
    using begin_fresh [OF assms, of s] by (intro filter_True) force
  then show "snapshots (snd (log_commit (fst (log_begin s j)) (snd (log_begin s j)))) = snapshots j"
    by (simp add: commit_snapshots [OF begin_inv [OF assms]] begin_snapshots [OF assms])
  show "fst (log_commit (fst (log_begin s j)) (snd (log_begin s j)))"
    by (simp add: commit_result [OF begin_inv [OF assms]] begin_snapshots [OF assms])
qed

end

text \<open>The same laws for the journal whose snapshots are old values of keys.\<close>

locale undo_store = undo_log log_begin log_commit log_rollback_all snapshots log_inv
  for log_begin :: "'k \<times> 'v option \<Rightarrow> 'j \<Rightarrow> int \<times> 'j"
    and log_commit log_rollback_all snapshots log_inv
begin

lemma journaled_writes_undone:
  assumes "log_inv j"
  shows "foldl apply_snapshot (fst (journaled_writes log_begin ws m j))
           (fst (log_rollback_all (snd (journaled_writes log_begin ws m j))))
         = foldl apply_snapshot m (fst (log_rollback_all j))"
  using assms
proof (induction ws arbitrary: m j)
  case Nil
  then show ?case by simp
next
  case (Cons w ws)
  let ?j = "snd (log_begin (fst w, m (fst w)) j)"
  have "log_inv ?j" using Cons.prems by (rule begin_inv)
  then have "fst (log_rollback_all ?j) = (fst w, m (fst w)) # fst (log_rollback_all j)"
    by (simp add: rollback_result begin_snapshots Cons.prems)
  then have "foldl apply_snapshot (m(fst w := snd w)) (fst (log_rollback_all ?j))
      = foldl apply_snapshot m (fst (log_rollback_all j))"
    by (simp only: foldl.simps apply_snapshot_undo)
  then show ?case
    using Cons.IH [OF \<open>log_inv ?j\<close>, of "m(fst w := snd w)"]
    by (simp only: journaled_writes.simps)
qed

lemma empty_log_rollback:
  "log_inv j \<Longrightarrow> snapshots j = [] \<Longrightarrow> fst (log_rollback_all j) = []"
  by (simp add: rollback_result)

end

definition pending_snapshots :: "'s journal \<Rightarrow> (int \<times> 's) list" where
  "pending_snapshots j = map (\<lambda>op. (op_id op, before_state op)) (j_pending j)"

lemma pending_snapshots_commit:
  assumes "journal_wf j"
  shows "pending_snapshots (snd (journal_commit i after j)) = filter (\<lambda>p. fst p \<noteq> i) (pending_snapshots j)"
    and "fst (journal_commit i after j) \<longleftrightarrow> i \<in> fst ` set (pending_snapshots j)"
proof -
  show "pending_snapshots (snd (journal_commit i after j)) = filter (\<lambda>p. fst p \<noteq> i) (pending_snapshots j)"
  proof (cases "pop_first (\<lambda>op. op_id op = i) (j_pending j)")
    case None
    then have "\<forall>p\<in>set (pending_snapshots j). fst p \<noteq> i"
      by (auto simp: pop_first_None pending_snapshots_def)
    with None show ?thesis by (simp add: journal_commit_def filter_True)
  next
    case (Some p)
    obtain op rest where p: "p = (op, rest)" by (cases p)
    obtain us vs where split: "j_pending j = us @ op # vs" "rest = us @ vs" "op_id op = i"
      using pop_first_split [OF Some [unfolded p]] by blast
    have "\<forall>x\<in>set (us @ vs). op_id x \<noteq> i"
      using assms split by (auto simp: journal_wf_def image_iff)
    then show ?thesis using Some p split
      by (simp add: journal_commit_def pending_snapshots_def filter_map o_def filter_True)
  qed
  show "fst (journal_commit i after j) \<longleftrightarrow> i \<in> fst ` set (pending_snapshots j)"
    using pop_first_None [of "\<lambda>op. op_id op = i" "j_pending j"]
    by (auto simp: journal_commit_def pending_snapshots_def image_iff split: option.splits)
qed

interpretation jl: undo_store
  "\<lambda>s. journal_begin ty (fst s) s now" "\<lambda>i. journal_commit i None" rollback_all pending_snapshots journal_wf
  for ty now :: string
proof (unfold_locales, goal_cases)
  case (1 j s)
  then show ?case by (rule journal_wf_begin)
next
  case (3 j)
  then show ?case unfolding rollback_all_def
    by (rule rollback_all_loop_keeps [rotated]) (rule journal_wf_rollback)
next
  case (5 j s)
  then show ?case
    by (force simp: journal_wf_def journal_begin_def pending_snapshots_def)
next
  case (6 j i)
  then show ?case by (rule pending_snapshots_commit)
qed (auto simp: rollback_all_def rollback_all_loop_result journal_wf_commit
      pending_snapshots_commit journal_begin_def new_operation_def pending_snapshots_def rev_map)

lemma begin_commit_eq:
  assumes "journal_wf j"
  shows "journal_commit (j_next_id j) (Some a) (snd (journal_begin ty key b now j)) =
    (let op = new_operation (j_next_id j) ty key b now; op' = committed_form (Some a) op
     in (True, \<lparr>j_db = map_option (\<lambda>calls. calls @ [InsertOperation op, UpdateOperation op']) (j_db j),
               j_pending = j_pending j, j_committed = j_committed j @ [op'],
               j_next_id = j_next_id j + 1\<rparr>))"
proof -
  have "\<forall>op\<in>set (j_pending j). op_id op \<noteq> j_next_id j"
    using assms by (force simp: journal_wf_def)
  then have "pop_first (\<lambda>op. op_id op = j_next_id j)
      (j_pending j @ [new_operation (j_next_id j) ty key b now])
     = Some (new_operation (j_next_id j) ty key b now, j_pending j)"
    using pop_first_append [of "j_pending j" _ _ "[]"] by (simp add: new_operation_def)
  then show ?thesis
    by (cases "j_db j") (simp_all add: journal_commit_def journal_begin_def committed_form_def db_send_def)
qed

section \<open>Properties\<close>

text \<open>In every journal a program can reach, operation ids are unique and below the
  counter, pending operations are pending without an after-state, committed ones are committed
  with one.\<close>

theorem journal_reachable_invariant: "journal_reachable j \<Longrightarrow> journal_wf j"
  by (simp add: journal_reachable_mirrors)

theorem journal_reachable_invariant_witness:
  "journal_wf (snd (journal_begin ''vfs_write'' ''/a'' (7::nat) ''t'' (new_journal None)))"
  by (rule journal_reachable_invariant) (blast intro: journal_reachable.intros journal_step.intros)

text \<open>When a database is attached from the start, replaying the calls sent to it gives,
  for every operation in memory, exactly that operation (whatever begin, commit, rollback,
  clear and context exits ran).\<close>

theorem journal_db_mirrors_memory:
  assumes "journal_reachable j" and "j_db j = Some calls" and "op \<in> set (j_pending j @ j_committed j)"
  shows "db_view calls (op_id op) = Some op"
  using journal_reachable_mirrors [OF assms(1)] assms(2,3) by (auto simp: db_mirrors_def)

theorem journal_db_mirrors_memory_witness:
  "db_view [InsertOperation (new_operation 1 ''w'' ''/a'' (7::nat) ''t'')] 1
     = Some (new_operation 1 ''w'' ''/a'' 7 ''t'')"
proof -
  let ?j = "snd (journal_begin ''w'' ''/a'' (7::nat) ''t'' (new_journal (Some [])))"
  have "journal_reachable ?j" by (blast intro: journal_reachable.intros journal_step.intros)
  then show ?thesis
    using journal_db_mirrors_memory [of ?j "[InsertOperation (new_operation 1 ''w'' ''/a'' (7::nat) ''t'')]"
        "new_operation 1 ''w'' ''/a'' 7 ''t''"]
    by (simp add: journal_begin_def new_journal_def new_operation_def)
qed

text \<open>Rolling back a log of overwritten keys restores the store: after any sequence of
  writes, each journalled with the old value of its key, applying the states that
  \<open>rollback_all\<close> returns, in the order it returns them, gives the store before the first
  write, and no operation is left pending.\<close>

theorem rollback_all_restores_store:
  fixes m :: "string \<rightharpoonup> 'v"
  defines "run \<equiv> \<lambda>db ty now ws. journaled_writes (\<lambda>s. journal_begin ty (fst s) s now) ws m (new_journal db)"
  shows "foldl apply_snapshot (fst (run db ty now ws)) (fst (rollback_all (snd (run db ty now ws)))) = m
     \<and> j_pending (snd (rollback_all (snd (run db ty now ws)))) = []"
proof
  have wf: "journal_wf (new_journal db)" by (simp add: journal_wf_def new_journal_def)
  have "fst (rollback_all (new_journal db)) = []"
    by (rule jl.empty_log_rollback [OF wf]) (simp add: pending_snapshots_def new_journal_def)
  then show "foldl apply_snapshot (fst (run db ty now ws)) (fst (rollback_all (snd (run db ty now ws)))) = m"
    unfolding run_def by (simp add: jl.journaled_writes_undone [OF wf])
  show "j_pending (snd (rollback_all (snd (run db ty now ws)))) = []"
    by (simp add: rollback_all_def rollback_all_loop_result)
qed

text \<open>An \<open>atomic_write\<close> that is committed leaves the journal with the operations it had
  pending, plus one committed record whose before-state tells whether the file existed and
  whose after-state has the size of the new content; only an error of \<open>read\<close> other than
  a missing file escapes, and then the journal is untouched.\<close>

theorem atomic_write_commit:
  assumes wf: "journal_wf j"
  shows "(case atomic_write path read now j of
       Inl e \<Rightarrow> read path = Inl e \<and> e \<noteq> FileNotFoundError
     | Inr (ctx, j1) \<Rightarrow>
         let (b, j2) = context_commit (set_new_content c ctx) j1;
             op = last (j_committed j2)
         in b \<and> j_pending j2 = j_pending j \<and> butlast (j_committed j2) = j_committed j \<and>
            op_id op = j_next_id j \<and> op_key op = path \<and> op_status op = Committed \<and>
            (fs_exists (before_state op) \<longleftrightarrow> ok (read path)) \<and>
            after_state op = Some \<lparr>fs_path = path, fs_exists = True, fs_size = length c\<rparr>)"
proof -
  note eq = begin_commit_eq [OF wf, of _ "''vfs_write''" path _ now]
  have id: "fst (journal_begin ty path b now j) = j_next_id j" for ty and b :: file_state
    by (simp add: journal_begin_def)
  show ?thesis
    by (auto simp: atomic_write_def context_commit_def set_new_content_def eq id split_beta
        committed_form_def new_operation_def split: sum.splits py_error.splits)
qed

theorem atomic_write_commit_witness:
  "case atomic_write ''/f'' (\<lambda>_. Inl FileNotFoundError) ''t'' (new_journal None) of
       Inl e \<Rightarrow> False | Inr (ctx, j1) \<Rightarrow> fst (context_commit (set_new_content [1, 2] ctx) j1)"
proof -
  have "journal_wf (new_journal None :: file_state journal)"
    by (simp add: journal_wf_def new_journal_def)
  from atomic_write_commit [OF this, where path = "''/f''" and read = "\<lambda>_. Inl FileNotFoundError"
      and now = "''t''" and c = "[1, 2]"]
  show ?thesis by (auto split: sum.splits)
qed

text \<open>
  The context manager, by contrast with its documentation, commits nothing: an operation
  begun inside a \<open>with\<close> block that ends normally is still pending afterwards.
\<close>

lemma exit_without_exception_commits_nothing:
  "let j' = snd (journal_exit False (snd (journal_begin ty key before now j)))
   in j_committed j' = j_committed j \<and> pending_count j' = pending_count j + 1"
  by (simp add: journal_exit_def journal_begin_def pending_count_def)

text \<open>
  The snapshot \<open>atomic_write\<close> takes holds the size of the old content and not the content:
  two files of one size give the same journal.
\<close>

lemma atomic_write_forgets_content:
  "length c = length d \<Longrightarrow>
     atomic_write path (\<lambda>_. Inr c) now j = atomic_write path (\<lambda>_. Inr d) now j"
  by (simp add: atomic_write_def)

end
