(* ===== verification/PluginRegistry.thy ===== *)
theory PluginRegistry
  imports Prelude "HOL-Library.AList" "HOL-Library.Multiset"
begin

text \<open>
  The plugin registry of
  \<open>SCRIPTS/SERVICES/multi-server-manager/engine/plugin_registry.py\<close>: registration, the
  dependency order (Kahn's algorithm), and the per-server instances with their life cycle.

  Python dicts are association lists in insertion order (\<open>AList.update\<close> replaces a value in
  place or appends, as \<open>d[k] = v\<close> does; \<open>map_of\<close> is the lookup).  A plugin object is the
  record of its class attributes; its hooks are code of the plugin, so a method that awaits a
  hook takes the hook's outcome as an argument.  A coroutine is split where it
  awaits: each critical section under the registry's lock is one function, and the sequential
  composition is the coroutine run without interleaving.
\<close>

section \<open>Data\<close>

datatype plugin_error =
    PluginError
  | PluginNotFoundError
  | PluginDependencyError
  | PluginStateError
  | PluginConfigError
  | PluginKeyError  \<comment> \<open>a \<open>KeyError\<close> of a dict access, which nothing would catch\<close>

datatype plugin_state =
    UNINITIALIZED | INITIALIZING | RUNNING | DEGRADED | SHUTTING_DOWN | SHUTDOWN | ERROR

datatype plugin_health = HEALTHY | HEALTH_DEGRADED | UNHEALTHY | UNKNOWN

datatype hook_outcome = HookReturns | HookRaises string

type_synonym datetime = int

record plugin_manifest =
  pm_name :: string
  pm_version :: string
  pm_description :: string
  pm_dependencies :: "string list"
  pm_optional_dependencies :: "string list"
  pm_author :: string
  pm_homepage :: string
  pm_tags :: "string list"

text \<open>A \<open>SubsystemPlugin\<close> subclass (and its only instance): its class identity and attributes.\<close>

record plugin =
  pl_class :: string
  pl_is_subsystem :: bool
  pl_name :: string
  pl_version :: string
  pl_description :: string
  pl_dependencies :: "string list"
  pl_optional_dependencies :: "string list"
  pl_author :: string
  pl_homepage :: string
  pl_tags :: "string list"

definition init_subclass :: "plugin \<Rightarrow> plugin_error + plugin" where
  "init_subclass cls =
     (if pl_name cls = [] then Inl PluginConfigError
      else if pl_version cls = [] then Inl PluginConfigError
      else if pl_description cls = [] then Inl PluginConfigError
      else Inr cls)"

definition manifest :: "plugin \<Rightarrow> plugin_manifest" where
  "manifest p =
     \<lparr>pm_name = pl_name p, pm_version = pl_version p, pm_description = pl_description p,
      pm_dependencies = pl_dependencies p, pm_optional_dependencies = pl_optional_dependencies p,
      pm_author = pl_author p, pm_homepage = pl_homepage p, pm_tags = pl_tags p\<rparr>"

record 'v instance_info =
  ii_plugin_name :: string
  ii_server_id :: string
  ii_state :: plugin_state
  ii_health :: plugin_health
  ii_config :: "(string \<times> 'v) list"
  ii_started_at :: "datetime option"
  ii_last_health_check :: "datetime option"
  ii_error_count :: int
  ii_last_error :: "string option"
  ii_metadata :: "(string \<times> 'v) list"

text \<open>The part of the configuration that is read: \<open>config["servers"][sid]["enabled_subsystems"]\<close>.\<close>

record server_section =
  enabled_subsystems :: "string list option"

record registry_config =
  rc_servers :: "(string \<times> server_section) list"

record 'v registry =
  pr_plugins :: "(string \<times> plugin) list"
  pr_instances :: "((string \<times> string) \<times> 'v instance_info) list"
  pr_config :: registry_config

definition new_registry :: "'v registry" where
  "new_registry = \<lparr>pr_plugins = [], pr_instances = [], pr_config = \<lparr>rc_servers = []\<rparr>\<rparr>"

definition get_instance :: "'v registry option \<Rightarrow> 'v registry \<times> 'v registry option" where
  "get_instance g = (case g of None \<Rightarrow> (new_registry, Some new_registry) | Some r \<Rightarrow> (r, Some r))"

definition reset_instance :: "'v registry option \<Rightarrow> 'v registry option" where
  "reset_instance g = None"

section \<open>Registration\<close>

definition register ::
  "plugin \<Rightarrow> 'v registry \<Rightarrow> (plugin_error + plugin) \<times> 'v registry" where
  "register cls r =
     (if \<not> pl_is_subsystem cls then (Inl PluginConfigError, r)
      else (case map_of (pr_plugins r) (pl_name cls) of
              Some existing \<Rightarrow>
                (if pl_class existing \<noteq> pl_class cls then (Inl PluginError, r)
                 else (Inr existing, r))
            | None \<Rightarrow> (Inr cls, r\<lparr>pr_plugins := AList.update (pl_name cls) cls (pr_plugins r)\<rparr>)))"

definition active_instances :: "string \<Rightarrow> 'v registry \<Rightarrow> (string \<times> string) list" where
  "active_instances name r =
     map fst (filter (\<lambda>(key, info). fst key = name \<and> ii_state info \<notin> {UNINITIALIZED, SHUTDOWN})
       (pr_instances r))"

definition unregister ::
  "string \<Rightarrow> 'v registry \<Rightarrow> (plugin_error + unit) \<times> 'v registry" where
  "unregister name r =
     (case map_of (pr_plugins r) name of
        None \<Rightarrow> (Inl PluginNotFoundError, r)
      | Some _ \<Rightarrow>
          (if active_instances name r \<noteq> [] then (Inl PluginStateError, r)
           else (Inr (), r\<lparr>pr_plugins := AList.delete name (pr_plugins r)\<rparr>)))"

definition get_plugin :: "string \<Rightarrow> 'v registry \<Rightarrow> plugin_error + plugin" where
  "get_plugin name r =
     (case map_of (pr_plugins r) name of None \<Rightarrow> Inl PluginNotFoundError | Some p \<Rightarrow> Inr p)"

definition list_plugins :: "'v registry \<Rightarrow> plugin_manifest list" where
  "list_plugins r = map (\<lambda>(k, p). manifest p) (pr_plugins r)"

definition has_plugin :: "string \<Rightarrow> 'v registry \<Rightarrow> bool" where
  "has_plugin name r = (map_of (pr_plugins r) name \<noteq> None)"

definition plugin_count :: "'v registry \<Rightarrow> nat" where
  "plugin_count r = length (pr_plugins r)"

section \<open>Startup order\<close>

text \<open>
  The keys of a dict built by assigning to each name in turn: the names without their
  repetitions, in order of first occurrence.
\<close>

definition first_occurrences :: "'a list \<Rightarrow> 'a list" where
  "first_occurrences xs = rev (remdups (rev xs))"

text \<open>\<open>graph[name] = set(d for d in plugin.dependencies if d in names)\<close>.\<close>

definition dep_graph :: "'v registry \<Rightarrow> string list \<Rightarrow> string \<Rightarrow> string list" where
  "dep_graph r names n =
     (case map_of (pr_plugins r) n of
        None \<Rightarrow> []
      | Some p \<Rightarrow> remdups (filter (\<lambda>d. d \<in> set names) (pl_dependencies p)))"

text \<open>\<open>dependents\<close>: every node of the graph that has \<open>n\<close> among its dependencies.\<close>

definition dependents :: "string list \<Rightarrow> (string \<Rightarrow> string list) \<Rightarrow> string \<Rightarrow> string list" where
  "dependents keys graph n = filter (\<lambda>m. n \<in> set (graph m)) keys"

text \<open>
  The inner loop over \<open>dependents.get(node, set())\<close>: decrement, and enqueue at zero.  A
  missing key would raise \<open>KeyError\<close>; the result carries it.
\<close>

fun relax ::
  "string list \<Rightarrow> (string \<times> int) list \<Rightarrow> string list \<Rightarrow> ((string \<times> int) list \<times> string list) result" where
  "relax [] deg queue = Inr (deg, queue)"
| "relax (d # ds) deg queue =
     (case map_of deg d of
        None \<Rightarrow> Inl KeyError
      | Some k \<Rightarrow>
          (let deg' = AList.update d (k - 1) deg
           in relax ds deg' (if k - 1 = 0 then queue @ [d] else queue)))"

definition deg_weight :: "(string \<times> int) list \<Rightarrow> nat" where
  "deg_weight deg = sum_list (map (\<lambda>(n, d). nat d) deg)"

lemma deg_weight_update:
  "map_of deg d = Some k \<Longrightarrow>
     deg_weight (AList.update d (k - 1) deg) + (if 0 < k then 1 else 0) = deg_weight deg"
  by (induction deg) (auto simp: deg_weight_def)

lemma relax_weight:
  "relax ds deg queue = Inr (deg', queue') \<Longrightarrow>
     length queue' + 2 * deg_weight deg' \<le> length queue + 2 * deg_weight deg"
proof (induction ds deg queue rule: relax.induct)
  case (2 d ds deg queue)
  then obtain k where k: "map_of deg d = Some k" by (auto split: option.splits)
  then show ?case using 2 deg_weight_update [OF k]
    by (fastforce split: if_splits)
qed simp

text \<open>
  The main loop.  \<open>it\<close> is the order in which Python iterates over a node's set of
  dependents, which depends on string hashes: a reordering, different for each node.
  The measure counts the queue and twice the positive in-degrees.
\<close>

function kahn_loop ::
  "(string \<Rightarrow> string list) \<Rightarrow> string list \<Rightarrow> (string \<times> int) list \<Rightarrow> string list
     \<Rightarrow> string list result" where
  "kahn_loop deps_of [] deg acc = Inr acc"
| "kahn_loop deps_of (node # queue) deg acc =
     (case relax (deps_of node) deg queue of
        Inl e \<Rightarrow> Inl e
      | Inr (deg', queue') \<Rightarrow> kahn_loop deps_of queue' deg' (acc @ [node]))"
  by pat_completeness auto
termination
  by (relation "measure (\<lambda>(deps_of, queue, deg, acc). length queue + 2 * deg_weight deg)")
     (auto dest: relax_weight)

definition get_startup_order ::
  "(string \<Rightarrow> string list \<Rightarrow> string list) \<Rightarrow> string list option \<Rightarrow> 'v registry
     \<Rightarrow> plugin_error + string list" where
  "get_startup_order it plugin_names r =
     (let names = (case plugin_names of
                     Some (n # ns) \<Rightarrow> n # ns
                   | _ \<Rightarrow> map fst (pr_plugins r))
      in if \<exists>n\<in>set names. map_of (pr_plugins r) n = None then Inl PluginNotFoundError
         else
           let keys = first_occurrences names;
               graph = dep_graph r names;
               in_degree = map (\<lambda>n. (n, int (length (graph n)))) keys;
               queue = map fst (filter (\<lambda>(n, d). d = 0) in_degree)
           in (case kahn_loop (\<lambda>n. it n (dependents keys graph n)) queue in_degree [] of
                 Inl e \<Rightarrow> Inl PluginKeyError
               | Inr order \<Rightarrow>
                   (if length order \<noteq> length names then Inl PluginDependencyError
                    else Inr order)))"

definition get_shutdown_order ::
  "(string \<Rightarrow> string list \<Rightarrow> string list) \<Rightarrow> string list option \<Rightarrow> 'v registry
     \<Rightarrow> plugin_error + string list" where
  "get_shutdown_order it plugin_names r =
     (case get_startup_order it plugin_names r of Inl e \<Rightarrow> Inl e | Inr order \<Rightarrow> Inr (rev order))"

subsection \<open>Kahn's algorithm is a topological sort\<close>

definition iterates :: "(string \<Rightarrow> string list \<Rightarrow> string list) \<Rightarrow> bool" where
  "iterates it \<longleftrightarrow> (\<forall>n xs. mset (it n xs) = mset xs)"

lemma first_occurrences_simps [simp]:
  "set (first_occurrences xs) = set xs" "distinct (first_occurrences xs)"
  "length (first_occurrences xs) = card (set xs)"
  by (simp_all add: first_occurrences_def length_remdups_card_conv)

lemma map_fst_update_member: "k \<in> fst ` set al \<Longrightarrow> map fst (AList.update k v al) = map fst al"
  by (induction al) auto

lemma relax_closed_form:
  "distinct ds \<Longrightarrow> set ds \<subseteq> fst ` set deg \<Longrightarrow>
   \<exists>deg'. relax ds deg queue = Inr (deg', queue @ filter (\<lambda>d. map_of deg d = Some 1) ds) \<and>
     map fst deg' = map fst deg \<and>
     (\<forall>n. map_of deg' n = (if n \<in> set ds then map_option (\<lambda>k. k - 1) (map_of deg n) else map_of deg n))"
proof (induction ds arbitrary: deg queue)
  case Nil
  then show ?case by simp
next
  case (Cons d ds)
  then obtain k where k: "map_of deg d = Some k"
    by (cases "map_of deg d") (auto simp: map_of_eq_None_iff)
  let ?deg = "AList.update d (k - 1) deg"
  let ?queue = "if k - 1 = 0 then queue @ [d] else queue"
  have keys: "map fst ?deg = map fst deg" using Cons.prems by (intro map_fst_update_member) auto
  then have "fst ` set ?deg = fst ` set deg" by (metis list.set_map)
  with Cons.prems have "distinct ds" "set ds \<subseteq> fst ` set ?deg" by auto
  from Cons.IH [OF this, of ?queue] obtain deg' where
    deg': "relax ds ?deg ?queue = Inr (deg', ?queue @ filter (\<lambda>d. map_of ?deg d = Some 1) ds)"
      "map fst deg' = map fst ?deg"
      "\<forall>n. map_of deg' n = (if n \<in> set ds then map_option (\<lambda>k. k - 1) (map_of ?deg n) else map_of ?deg n)"
    by blast
  have "filter (\<lambda>d. map_of ?deg d = Some 1) ds = filter (\<lambda>d. map_of deg d = Some 1) ds"
    using Cons.prems by (intro filter_cong) (auto simp: update_conv)
  then show ?case using Cons.prems k keys deg'
    by (intro exI [of _ deg']) (auto simp: update_conv)
qed

definition kahn_inv ::
  "string list \<Rightarrow> (string \<Rightarrow> string list) \<Rightarrow> string list \<Rightarrow> (string \<times> int) list \<Rightarrow> string list \<Rightarrow> bool" where
  "kahn_inv keys graph queue deg acc \<longleftrightarrow>
     distinct (acc @ queue) \<and> set (acc @ queue) \<subseteq> set keys \<and> map fst deg = keys \<and>
     (\<forall>n\<in>set keys. map_of deg n = Some (int (card (set (graph n) - set acc)))) \<and>
     (\<forall>n\<in>set keys. n \<in> set (acc @ queue) \<longleftrightarrow> set (graph n) \<subseteq> set acc) \<and>
     (\<forall>us n vs. acc = us @ n # vs \<longrightarrow> set (graph n) \<subseteq> set us)"

lemma card_minus_insert_int:
  assumes "finite A" "x \<notin> B"
  shows "int (card (A - insert x B)) = int (card (A - B)) - (if x \<in> A then 1 else 0)"
proof (cases "x \<in> A")
  case True
  then have "A - B = insert x (A - insert x B)" using assms by auto
  then have "card (A - B) = Suc (card (A - insert x B))"
    using assms by (metis Diff_iff card_insert_disjoint finite_Diff insertI1)
  then show ?thesis using True by simp
next
  case False
  then have "A - insert x B = A - B" by auto
  then show ?thesis using False by simp
qed

lemma card_one_iff: "x \<in> A \<Longrightarrow> card A = 1 \<longleftrightarrow> A = {x}"
  by (metis card_1_singletonE is_singletonI is_singleton_altdef singletonD)

lemma kahn_inv_step:
  assumes inv: "kahn_inv keys graph (x # queue) deg acc"
    and ds: "distinct ds" "set ds = {m \<in> set keys. x \<in> set (graph m)}"
  shows "\<exists>deg' queue'. relax ds deg queue = Inr (deg', queue') \<and> kahn_inv keys graph queue' deg' (acc @ [x])"
proof -
  have keys: "map fst deg = keys" and x: "x \<notin> set acc" "x \<in> set keys" "set (graph x) \<subseteq> set acc"
    and deg: "\<And>n. n \<in> set keys \<Longrightarrow> map_of deg n = Some (int (card (set (graph n) - set acc)))"
    and mem: "\<And>n. n \<in> set keys \<Longrightarrow> n \<in> set (acc @ x # queue) \<longleftrightarrow> set (graph n) \<subseteq> set acc"
    using inv by (auto simp: kahn_inv_def)
  have "set ds \<subseteq> fst ` set deg" using ds keys by (metis (no_types, lifting) list.set_map mem_Collect_eq subsetI)
  from relax_closed_form [OF ds(1) this, of queue] obtain deg' where
    r: "relax ds deg queue = Inr (deg', queue @ filter (\<lambda>d. map_of deg d = Some 1) ds)"
      "map fst deg' = map fst deg"
      "\<And>n. map_of deg' n = (if n \<in> set ds then map_option (\<lambda>k. k - 1) (map_of deg n) else map_of deg n)"
    by blast
  let ?new = "filter (\<lambda>d. map_of deg d = Some 1) ds"
  have new: "n \<in> set ?new \<longleftrightarrow> n \<in> set keys \<and> set (graph n) \<subseteq> insert x (set acc) \<and> \<not> set (graph n) \<subseteq> set acc" for n
  proof (cases "n \<in> set keys \<and> x \<in> set (graph n)")
    case True
    then have "n \<in> set ?new \<longleftrightarrow> card (set (graph n) - set acc) = 1"
      using deg ds by simp
    also have "\<dots> \<longleftrightarrow> set (graph n) - set acc = {x}"
      using True x by (intro card_one_iff) simp
    finally show ?thesis using True x by auto
  next
    case False
    then show ?thesis using ds by auto
  qed
  have "kahn_inv keys graph (queue @ ?new) deg' (acc @ [x])"
    unfolding kahn_inv_def
  proof (intro conjI ballI allI impI)
    show "distinct ((acc @ [x]) @ queue @ ?new)"
      using inv ds(1) new mem by (auto simp: kahn_inv_def)
    show "set ((acc @ [x]) @ queue @ ?new) \<subseteq> set keys"
      using inv ds by (auto simp: kahn_inv_def)
    show "map fst deg' = keys" using r keys by simp
    show "map_of deg' n = Some (int (card (set (graph n) - set (acc @ [x]))))" if "n \<in> set keys" for n
      using that deg [OF that] r(3) ds x(1) card_minus_insert_int [of "set (graph n)" x "set acc"]
      by (auto simp: r(3))
    show "n \<in> set ((acc @ [x]) @ queue @ ?new) \<longleftrightarrow> set (graph n) \<subseteq> set (acc @ [x])" if "n \<in> set keys" for n
      using new [of n] mem [OF that] that by auto
    show "set (graph n) \<subseteq> set us" if "acc @ [x] = us @ n # vs" for us n vs
    proof (cases vs rule: rev_cases)
      case Nil
      then show ?thesis using that x by simp
    next
      case (snoc ws z)
      then show ?thesis using that inv by (auto simp: kahn_inv_def)
    qed
  qed
  then show ?thesis using r(1) by blast
qed

lemma kahn_loop_result:
  "\<forall>n. distinct (deps_of n) \<and> set (deps_of n) = {m \<in> set keys. n \<in> set (graph m)} \<Longrightarrow>
   kahn_inv keys graph queue deg acc \<Longrightarrow>
    \<exists>order deg'. kahn_loop deps_of queue deg acc = Inr order \<and> kahn_inv keys graph [] deg' order"
proof (induction deps_of queue deg acc rule: kahn_loop.induct)
  case (1 deps_of deg acc)
  then show ?case by auto
next
  case (2 deps_of node queue deg acc)
  from 2(2,3) obtain deg' queue' where
    "relax (deps_of node) deg queue = Inr (deg', queue')"
    "kahn_inv keys graph queue' deg' (acc @ [node])"
    using kahn_inv_step [of keys graph node queue deg acc "deps_of node"] by blast
  then show ?case using 2(1) [of "(deg', queue')" deg' queue'] 2(2) by simp
qed

lemma set_dep_graph:
  "map_of (pr_plugins r) n = Some p \<Longrightarrow> set (dep_graph r names n) = set (pl_dependencies p) \<inter> set names"
  by (auto simp: dep_graph_def)

lemma dep_graph_subset: "set (dep_graph r names n) \<subseteq> set names"
  by (auto simp: dep_graph_def split: option.splits)

lemma kahn_inv_initial:
  fixes names :: "string list" and r :: "'v registry"
  defines "keys \<equiv> first_occurrences names" and "graph \<equiv> dep_graph r names"
  defines "deg \<equiv> map (\<lambda>n. (n, int (length (graph n)))) keys"
  shows "kahn_inv keys graph (map fst (filter (\<lambda>(n, d). d = 0) deg)) deg []"
proof -
  have distinct_graph: "distinct (graph n)" for n
    by (simp add: graph_def dep_graph_def split: option.splits)
  have queue: "map fst (filter (\<lambda>(n, d). d = 0) deg) = filter (\<lambda>n. graph n = []) keys"
    by (simp add: deg_def filter_map o_def)
  have deg: "map_of deg n = Some (int (card (set (graph n))))" if "n \<in> set keys" for n
    using that distinct_graph by (simp add: deg_def map_of_map_restrict distinct_card)
  show ?thesis unfolding kahn_inv_def queue
    using deg by (auto simp: keys_def deg_def o_def)
qed

lemma kahn_result:
  fixes names :: "string list" and r :: "'v registry"
  assumes "iterates it"
  defines "keys \<equiv> first_occurrences names" and "graph \<equiv> dep_graph r names"
  defines "deg \<equiv> map (\<lambda>n. (n, int (length (graph n)))) keys"
  shows "\<exists>order deg'. kahn_loop (\<lambda>n. it n (dependents keys graph n))
            (map fst (filter (\<lambda>(n, d). d = 0) deg)) deg [] = Inr order \<and> kahn_inv keys graph [] deg' order"
proof (rule kahn_loop_result)
  show "kahn_inv keys graph (map fst (filter (\<lambda>(n, d). d = 0) deg)) deg []"
    unfolding deg_def keys_def graph_def by (rule kahn_inv_initial)
  show "\<forall>n. distinct (it n (dependents keys graph n)) \<and>
      set (it n (dependents keys graph n)) = {m \<in> set keys. n \<in> set (graph m)}"
  proof
    fix n
    have m: "mset (it n (dependents keys graph n)) = mset (dependents keys graph n)"
      using assms(1) by (simp add: iterates_def)
    have "distinct (dependents keys graph n)" "set (dependents keys graph n) = {m \<in> set keys. n \<in> set (graph m)}"
      by (auto simp: dependents_def keys_def)
    with mset_eq_imp_distinct_iff [OF m] mset_eq_setD [OF m]
    show "distinct (it n (dependents keys graph n)) \<and>
      set (it n (dependents keys graph n)) = {m \<in> set keys. n \<in> set (graph m)}"
      by simp
  qed
qed

text \<open>The names that a call orders: a non-empty list, or else every registered plugin.\<close>

definition names_to_order :: "string list option \<Rightarrow> 'v registry \<Rightarrow> string list" where
  "names_to_order plugin_names r =
     (case plugin_names of Some (n # ns) \<Rightarrow> n # ns | _ \<Rightarrow> map fst (pr_plugins r))"

lemma startup_order_cases:
  fixes r :: "'v registry"
  assumes "iterates it" and "\<forall>n\<in>set (names_to_order pn r). map_of (pr_plugins r) n \<noteq> None"
  defines "names \<equiv> names_to_order pn r"
  obtains order deg where
    "kahn_inv (first_occurrences names) (dep_graph r names) [] deg order"
    "get_startup_order it pn r = (if length order \<noteq> length names then Inl PluginDependencyError else Inr order)"
proof -
  from kahn_result [OF assms(1), of names r] obtain order deg where
    "kahn_loop (\<lambda>n. it n (dependents (first_occurrences names) (dep_graph r names) n))
       (map fst (filter (\<lambda>(n, d). d = 0) (map (\<lambda>n. (n, int (length (dep_graph r names n)))) (first_occurrences names))))
       (map (\<lambda>n. (n, int (length (dep_graph r names n)))) (first_occurrences names)) [] = Inr order"
    "kahn_inv (first_occurrences names) (dep_graph r names) [] deg order" by blast
  moreover have "\<not> (\<exists>n\<in>set names. map_of (pr_plugins r) n = None)"
    using assms(2) by (simp add: names_def)
  ultimately show ?thesis using that [of deg order]
    unfolding get_startup_order_def names_to_order_def [symmetric] names_def [symmetric] by simp
qed

lemma startup_order_sound:
  assumes "iterates it" and ok: "get_startup_order it pn r = Inr order"
  shows "distinct order" "set order = set (names_to_order pn r)" "distinct (names_to_order pn r)"
    and "order = us @ n # vs \<Longrightarrow> map_of (pr_plugins r) n = Some p \<Longrightarrow>
           set (pl_dependencies p) \<inter> set order \<subseteq> set us"
proof -
  let ?names = "names_to_order pn r"
  have reg: "\<forall>n\<in>set ?names. map_of (pr_plugins r) n \<noteq> None"
    using ok unfolding get_startup_order_def names_to_order_def [symmetric]
    by (auto split: if_splits)
  from assms(1) reg obtain order' deg where
    inv: "kahn_inv (first_occurrences ?names) (dep_graph r ?names) [] deg order'"
    and eq: "get_startup_order it pn r = (if length order' \<noteq> length ?names then Inl PluginDependencyError else Inr order')"
    by (rule startup_order_cases)
  have o: "order' = order" "length order = length ?names" using eq ok by (simp_all split: if_splits)
  have d: "distinct order" and sub: "set order \<subseteq> set ?names"
    using inv o by (auto simp: kahn_inv_def)
  then have "length order \<le> card (set ?names)" by (metis card_mono distinct_card finite_set)
  then have dn: "distinct ?names" using o card_length [of ?names] by (simp add: card_distinct)
  then show "distinct order" "set order = set ?names" "distinct ?names"
    using d sub o by (simp_all add: card_subset_eq distinct_card)
  show "set (pl_dependencies p) \<inter> set order \<subseteq> set us"
    if "order = us @ n # vs" "map_of (pr_plugins r) n = Some p"
  proof -
    have "set (dep_graph r ?names n) \<subseteq> set us" using inv o that(1) by (simp add: kahn_inv_def)
    then show ?thesis using set_dep_graph [OF that(2)] \<open>set order = set ?names\<close> by simp
  qed
qed

text \<open>A set of plugins each of which depends on another of the set: no order can exist.\<close>

definition cyclic_set :: "'v registry \<Rightarrow> string set \<Rightarrow> bool" where
  "cyclic_set r C \<longleftrightarrow> C \<noteq> {} \<and>
     (\<forall>n\<in>C. \<exists>p. map_of (pr_plugins r) n = Some p \<and> set (pl_dependencies p) \<inter> C \<noteq> {})"

lemma topological_no_cycle:
  assumes "\<And>us n vs. order = us @ n # vs \<Longrightarrow> set (graph n) \<subseteq> set us"
    and "\<forall>n\<in>C. set (graph n) \<inter> C \<noteq> {}"
  shows "set order \<inter> C = {}"
  using assms(1)
proof (induction order rule: rev_induct)
  case Nil
  then show ?case by simp
next
  case (snoc x xs)
  have "set xs \<inter> C = {}" using snoc.IH snoc.prems by fastforce
  moreover have "set (graph x) \<subseteq> set xs" using snoc.prems [of xs x "[]"] by simp
  ultimately show ?case using assms(2) by fastforce
qed

lemma startup_order_complete:
  assumes "iterates it" and reg: "\<forall>n\<in>set (names_to_order pn r). map_of (pr_plugins r) n \<noteq> None"
  shows "get_startup_order it pn r = Inl PluginDependencyError \<longleftrightarrow>
     \<not> distinct (names_to_order pn r) \<or> (\<exists>C. C \<subseteq> set (names_to_order pn r) \<and> cyclic_set r C)"
proof -
  let ?names = "names_to_order pn r"
  let ?graph = "dep_graph r ?names"
  from assms obtain order deg where
    inv: "kahn_inv (first_occurrences ?names) ?graph [] deg order"
    and eq: "get_startup_order it pn r = (if length order \<noteq> length ?names then Inl PluginDependencyError else Inr order)"
    by (rule startup_order_cases)
  have d: "distinct order" and sub: "set order \<subseteq> set ?names"
    and topo: "\<And>us n vs. order = us @ n # vs \<Longrightarrow> set (?graph n) \<subseteq> set us"
    and closed: "\<And>n. n \<in> set ?names \<Longrightarrow> n \<in> set order \<longleftrightarrow> set (?graph n) \<subseteq> set order"
    using inv by (auto simp: kahn_inv_def)
  have graph_in: "set (?graph n) \<inter> C \<noteq> {} \<longleftrightarrow> (\<exists>p. map_of (pr_plugins r) n = Some p \<and> set (pl_dependencies p) \<inter> C \<noteq> {})"
    if "n \<in> set ?names" "C \<subseteq> set ?names" for n C
    using reg that set_dep_graph [of r n _ ?names] by fastforce
  have cyc: "(\<exists>C. C \<subseteq> set ?names \<and> cyclic_set r C) \<longleftrightarrow> set order \<noteq> set ?names"
  proof
    assume "\<exists>C. C \<subseteq> set ?names \<and> cyclic_set r C"
    then obtain C where C: "C \<subseteq> set ?names" "C \<noteq> {}" "\<forall>n\<in>C. set (?graph n) \<inter> C \<noteq> {}"
      using graph_in by (auto simp: cyclic_set_def subset_iff)
    have "set order \<inter> C = {}" using topo C(3) by (rule topological_no_cycle)
    with C show "set order \<noteq> set ?names" by auto
  next
    assume "set order \<noteq> set ?names"
    then have "set ?names - set order \<noteq> {}" using sub by auto
    moreover have "\<forall>n\<in>set ?names - set order. set (?graph n) \<inter> (set ?names - set order) \<noteq> {}"
      using closed dep_graph_subset [of r ?names] by fastforce
    ultimately have "cyclic_set r (set ?names - set order)"
      unfolding cyclic_set_def using graph_in by (metis DiffD1 Diff_subset)
    then show "\<exists>C. C \<subseteq> set ?names \<and> cyclic_set r C" by blast
  qed
  have "length order = length ?names \<longleftrightarrow> distinct ?names \<and> set order = set ?names"
    using d sub by (metis card_distinct card_length card_mono card_subset_eq distinct_card finite_set le_antisym)
  then show ?thesis using eq cyc by simp
qed

section \<open>A schedule that respects dependencies\<close>

text \<open>
  What the lifecycle manager relies on when it starts subsystems one after another.
\<close>

locale startup_schedule =
  fixes schedule :: "'a list \<Rightarrow> 'e + 'a list"
    and requires :: "'a \<Rightarrow> 'a set"
  assumes schedule_set: "schedule ns = Inr order \<Longrightarrow> set order = set ns"
    and schedule_distinct: "schedule ns = Inr order \<Longrightarrow> distinct order"
    and schedule_before:
      "schedule ns = Inr (us @ n # vs) \<Longrightarrow> requires n \<inter> set ns \<subseteq> set us"
begin

text \<open>Starting in order finds every dependency of the set already started.\<close>

lemma started_before:
  assumes "schedule ns = Inr order" "i < length order" "d \<in> requires (order ! i)" "d \<in> set ns"
  shows "\<exists>j<i. order ! j = d"
proof -
  have "schedule ns = Inr (take i order @ order ! i # drop (Suc i) order)"
    using assms by (simp add: id_take_nth_drop [symmetric])
  from schedule_before [OF this] have "d \<in> set (take i order)" using assms by auto
  then show ?thesis by (auto simp: in_set_conv_nth)
qed

text \<open>Stopping in the reverse order finds every dependent of the set already stopped.\<close>

lemma stopped_after:
  assumes "schedule ns = Inr order" "i < length order" "rev order ! i \<in> requires n" "n \<in> set ns"
  shows "\<exists>j<i. rev order ! j = n"
proof -
  obtain k where k: "k < length order" "order ! k = n"
    using assms(4) schedule_set [OF assms(1)] by (metis in_set_conv_nth)
  have "rev order ! i \<in> set ns"
    using assms(2) schedule_set [OF assms(1)] by (metis length_rev nth_mem set_rev)
  with started_before [OF assms(1) k(1)] assms(3) k(2) obtain j where
    j: "j < k" "order ! j = rev order ! i" by blast
  have "order ! (length order - Suc i) = order ! j" using assms(2) j(2) by (simp add: rev_nth)
  then have "length order - Suc i = j"
    using schedule_distinct [OF assms(1)] assms(2) j(1) k(1) by (simp add: nth_eq_iff_index_eq)
  then have "length order - Suc k < i" "rev order ! (length order - Suc k) = n"
    using j(1) k assms(2) by (simp_all add: rev_nth)
  then show ?thesis by blast
qed

end

definition plugin_requires :: "'v registry \<Rightarrow> string \<Rightarrow> string set" where
  "plugin_requires r n = (case map_of (pr_plugins r) n of None \<Rightarrow> {} | Some p \<Rightarrow> set (pl_dependencies p))"

text \<open>The iteration order is fixed to an arbitrary one; a list is ordered in the form given.\<close>

definition schedule_with ::
  "(string \<Rightarrow> string list \<Rightarrow> string list) \<Rightarrow> 'v registry \<Rightarrow> string list \<Rightarrow> plugin_error + string list" where
  "schedule_with it r ns = (if ns = [] \<or> \<not> iterates it then Inl PluginStateError else get_startup_order it (Some ns) r)"

lemma names_to_order_Some: "ns \<noteq> [] \<Longrightarrow> names_to_order (Some ns) r = ns"
  by (cases ns) (simp_all add: names_to_order_def)

interpretation kahn: startup_schedule "schedule_with it r" "plugin_requires r"
  for it :: "string \<Rightarrow> string list \<Rightarrow> string list" and r :: "'v registry"
proof (unfold_locales, goal_cases)
  case (1 ns order)
  then show ?case using startup_order_sound(2) [of it "Some ns" r order]
    by (auto simp: schedule_with_def names_to_order_Some split: if_splits)
next
  case (2 ns order)
  then show ?case using startup_order_sound(1) [of it "Some ns" r order]
    by (auto simp: schedule_with_def split: if_splits)
next
  case (3 ns us n vs)
  then have a: "ns \<noteq> []" "iterates it" and o: "get_startup_order it (Some ns) r = Inr (us @ n # vs)"
    by (auto simp: schedule_with_def split: if_splits)
  show ?case
  proof (cases "map_of (pr_plugins r) n")
    case (Some p)
    from startup_order_sound(4) [OF a(2) o refl Some] startup_order_sound(2) [OF a(2) o] Some
    show ?thesis by (auto simp: plugin_requires_def names_to_order_Some [OF a(1)])
  qed (simp add: plugin_requires_def)
qed

section \<open>Instances\<close>

type_synonym instance_key = "string \<times> string"

definition set_instance :: "instance_key \<Rightarrow> 'v instance_info \<Rightarrow> 'v registry \<Rightarrow> 'v registry" where
  "set_instance key info r = r\<lparr>pr_instances := AList.update key info (pr_instances r)\<rparr>"

definition find_instance :: "instance_key \<Rightarrow> 'v registry \<Rightarrow> 'v instance_info option" where
  "find_instance key r = map_of (pr_instances r) key"

text \<open>\<open>if key in self._instances: self._instances[key].field = ...\<close>\<close>

definition modify_instance ::
  "instance_key \<Rightarrow> ('v instance_info \<Rightarrow> 'v instance_info) \<Rightarrow> 'v registry \<Rightarrow> 'v registry" where
  "modify_instance key f r =
     (case find_instance key r of None \<Rightarrow> r | Some info \<Rightarrow> set_instance key (f info) r)"

definition new_instance_info ::
  "string \<Rightarrow> string \<Rightarrow> plugin_state \<Rightarrow> (string \<times> 'v) list \<Rightarrow> 'v instance_info" where
  "new_instance_info name sid st config =
     \<lparr>ii_plugin_name = name, ii_server_id = sid, ii_state = st, ii_health = UNKNOWN,
      ii_config = config, ii_started_at = None, ii_last_health_check = None,
      ii_error_count = 0, ii_last_error = None, ii_metadata = []\<rparr>"

text \<open>The first critical section of \<open>init_subsystem\<close>, after \<open>get_plugin\<close>.\<close>

definition init_enter ::
  "string \<Rightarrow> string \<Rightarrow> (string \<times> 'v) list option \<Rightarrow> 'v registry \<Rightarrow> plugin_error + 'v registry" where
  "init_enter name sid config r =
     (let key = (name, sid);
          cfg = (case config of None \<Rightarrow> [] | Some c \<Rightarrow> c);
          created = set_instance key (new_instance_info name sid INITIALIZING cfg) r
      in case find_instance key r of
           Some existing \<Rightarrow>
             (if ii_state existing \<in> {RUNNING, DEGRADED} then Inl PluginStateError else Inr created)
         | None \<Rightarrow> Inr created)"

text \<open>The second one, after the hook returned or raised.\<close>

definition init_leave ::
  "string \<Rightarrow> string \<Rightarrow> hook_outcome \<Rightarrow> datetime \<Rightarrow> 'v registry \<Rightarrow> 'v registry" where
  "init_leave name sid outcome now r =
     (case outcome of
        HookReturns \<Rightarrow>
          modify_instance (name, sid)
            (\<lambda>info. info\<lparr>ii_state := RUNNING, ii_started_at := Some now,
                        ii_last_health_check := Some now, ii_health := HEALTHY\<rparr>) r
      | HookRaises msg \<Rightarrow>
          modify_instance (name, sid)
            (\<lambda>info. info\<lparr>ii_state := ERROR, ii_last_error := Some msg,
                        ii_error_count := ii_error_count info + 1\<rparr>) r)"

definition init_subsystem ::
  "string \<Rightarrow> string \<Rightarrow> (string \<times> 'v) list option \<Rightarrow> hook_outcome \<Rightarrow> datetime \<Rightarrow> 'v registry
     \<Rightarrow> (plugin_error + 'v instance_info) \<times> 'v registry" where
  "init_subsystem name sid config outcome now r =
     (case get_plugin name r of
        Inl e \<Rightarrow> (Inl e, r)
      | Inr _ \<Rightarrow>
          (case init_enter name sid config r of
             Inl e \<Rightarrow> (Inl e, r)
           | Inr r1 \<Rightarrow>
               (let r2 = init_leave name sid outcome now r1
                in (case outcome of
                      HookRaises _ \<Rightarrow> (Inl PluginError, r2)
                    | HookReturns \<Rightarrow>
                        (case find_instance (name, sid) r2 of
                           Some info \<Rightarrow> (Inr info, r2)
                         | None \<Rightarrow> (Inr (new_instance_info name sid INITIALIZING
                                     (case config of None \<Rightarrow> [] | Some c \<Rightarrow> c)), r2))))))"

definition shutdown_enter :: "string \<Rightarrow> string \<Rightarrow> 'v registry \<Rightarrow> plugin_error + 'v registry" where
  "shutdown_enter name sid r =
     (case find_instance (name, sid) r of
        None \<Rightarrow> Inl PluginStateError
      | Some info \<Rightarrow> Inr (set_instance (name, sid) (info\<lparr>ii_state := SHUTTING_DOWN\<rparr>) r))"

text \<open>An exception of \<open>on_shutdown\<close> is logged and dropped, so the outcome does not matter.\<close>

definition shutdown_leave :: "string \<Rightarrow> string \<Rightarrow> 'v registry \<Rightarrow> 'v registry" where
  "shutdown_leave name sid r = modify_instance (name, sid) (\<lambda>info. info\<lparr>ii_state := SHUTDOWN\<rparr>) r"

definition shutdown_subsystem ::
  "string \<Rightarrow> string \<Rightarrow> hook_outcome \<Rightarrow> 'v registry \<Rightarrow> (plugin_error + unit) \<times> 'v registry" where
  "shutdown_subsystem name sid outcome r =
     (case get_plugin name r of
        Inl e \<Rightarrow> (Inl e, r)
      | Inr _ \<Rightarrow>
          (case shutdown_enter name sid r of
             Inl e \<Rightarrow> (Inl e, r)
           | Inr r1 \<Rightarrow> (Inr (), shutdown_leave name sid r1)))"

definition health_leave ::
  "string \<Rightarrow> string \<Rightarrow> plugin_health \<Rightarrow> datetime \<Rightarrow> 'v registry \<Rightarrow> 'v registry" where
  "health_leave name sid health now r =
     modify_instance (name, sid)
       (\<lambda>info.
          let i1 = info\<lparr>ii_health := health, ii_last_health_check := Some now\<rparr>
          in if health = UNHEALTHY
             then (let i2 = i1\<lparr>ii_error_count := ii_error_count i1 + 1\<rparr>
                   in if ii_state i2 = RUNNING then i2\<lparr>ii_state := DEGRADED\<rparr> else i2)
             else i1) r"

text \<open>The hook's answer is \<open>None\<close> when it raised.\<close>

definition check_health ::
  "string \<Rightarrow> string \<Rightarrow> plugin_health option \<Rightarrow> datetime \<Rightarrow> 'v registry
     \<Rightarrow> (plugin_error + plugin_health) \<times> 'v registry" where
  "check_health name sid answer now r =
     (case get_plugin name r of
        Inl e \<Rightarrow> (Inl e, r)
      | Inr _ \<Rightarrow>
          (if find_instance (name, sid) r = None then (Inr UNKNOWN, r)
           else (let health = (case answer of Some h \<Rightarrow> h | None \<Rightarrow> UNHEALTHY)
                 in (Inr health, health_leave name sid health now r))))"

definition get_instance_info :: "string \<Rightarrow> string \<Rightarrow> 'v registry \<Rightarrow> 'v instance_info option" where
  "get_instance_info name sid r = find_instance (name, sid) r"

definition get_server_instances :: "string \<Rightarrow> 'v registry \<Rightarrow> 'v instance_info list" where
  "get_server_instances sid r = map snd (filter (\<lambda>(key, info). snd key = sid) (pr_instances r))"

definition list_instances :: "'v registry \<Rightarrow> 'v instance_info list" where
  "list_instances r = map snd (pr_instances r)"

definition set_config :: "registry_config \<Rightarrow> 'v registry \<Rightarrow> 'v registry" where
  "set_config c r = r\<lparr>pr_config := c\<rparr>"

definition get_config :: "'v registry \<Rightarrow> registry_config" where
  "get_config r = pr_config r"

definition get_enabled_plugins_for_server :: "string \<Rightarrow> 'v registry \<Rightarrow> string list" where
  "get_enabled_plugins_for_server sid r =
     (let server_config = (case map_of (rc_servers (pr_config r)) sid of
                             None \<Rightarrow> \<lparr>enabled_subsystems = None\<rparr> | Some c \<Rightarrow> c)
      in case enabled_subsystems server_config of
           Some enabled \<Rightarrow> filter (\<lambda>e. map_of (pr_plugins r) e \<noteq> None) enabled
         | None \<Rightarrow> map fst (pr_plugins r))"

text \<open>
  \<open>load_config_from_file\<close>: \<open>file\<close> is \<open>None\<close> when the path does not exist, \<open>Some None\<close>
  when opening or parsing fails, \<open>Some (Some c)\<close> when it holds the configuration \<open>c\<close>.
\<close>

definition load_config_from_file ::
  "registry_config option option \<Rightarrow> 'v registry \<Rightarrow> (plugin_error + registry_config) \<times> 'v registry" where
  "load_config_from_file file r =
     (case file of
        None \<Rightarrow> (Inr \<lparr>rc_servers = []\<rparr>, r)
      | Some None \<Rightarrow> (Inl PluginConfigError, r)
      | Some (Some c) \<Rightarrow> (Inr c, set_config c r))"

section \<open>Interleaved calls\<close>

text \<open>
  Coroutines in flight, each at an await: after \<open>get_plugin\<close> and before the lock, or
  waiting for the hook.  Any of them may go next.
\<close>

datatype 'v reg_call =
    InitCalled string string "(string \<times> 'v) list option"
  | InitAwaiting string string
  | ShutdownCalled string string
  | ShutdownAwaiting string string
  | HealthAwaiting string string

inductive reg_step :: "'v registry \<times> 'v reg_call multiset \<Rightarrow> 'v registry \<times> 'v reg_call multiset \<Rightarrow> bool" where
  rs_register: "reg_step (r, cs) (snd (register cls r), cs)"
| rs_unregister: "reg_step (r, cs) (snd (unregister name r), cs)"
| rs_set_config: "reg_step (r, cs) (set_config c r, cs)"
| rs_call_init: "has_plugin name r \<Longrightarrow> reg_step (r, cs) (r, add_mset (InitCalled name sid cfg) cs)"
| rs_init_refused: "init_enter name sid cfg r = Inl e \<Longrightarrow>
     reg_step (r, add_mset (InitCalled name sid cfg) cs) (r, cs)"
| rs_init_enter: "init_enter name sid cfg r = Inr r' \<Longrightarrow>
     reg_step (r, add_mset (InitCalled name sid cfg) cs) (r', add_mset (InitAwaiting name sid) cs)"
| rs_init_leave: "reg_step (r, add_mset (InitAwaiting name sid) cs) (init_leave name sid out now r, cs)"
| rs_call_shutdown: "has_plugin name r \<Longrightarrow> reg_step (r, cs) (r, add_mset (ShutdownCalled name sid) cs)"
| rs_shutdown_refused: "shutdown_enter name sid r = Inl e \<Longrightarrow>
     reg_step (r, add_mset (ShutdownCalled name sid) cs) (r, cs)"
| rs_shutdown_enter: "shutdown_enter name sid r = Inr r' \<Longrightarrow>
     reg_step (r, add_mset (ShutdownCalled name sid) cs) (r', add_mset (ShutdownAwaiting name sid) cs)"
| rs_shutdown_leave: "reg_step (r, add_mset (ShutdownAwaiting name sid) cs) (shutdown_leave name sid r, cs)"
| rs_call_health: "has_plugin name r \<Longrightarrow> find_instance (name, sid) r \<noteq> None \<Longrightarrow>
     reg_step (r, cs) (r, add_mset (HealthAwaiting name sid) cs)"
| rs_health_leave: "reg_step (r, add_mset (HealthAwaiting name sid) cs) (health_leave name sid h now r, cs)"

inductive reg_reachable :: "'v registry \<times> 'v reg_call multiset \<Rightarrow> bool" where
  rr_start: "reg_reachable (new_registry, {#})"
| rr_step: "reg_reachable s \<Longrightarrow> reg_step s s' \<Longrightarrow> reg_reachable s'"

text \<open>
  What holds between the instances and the calls in flight: keys and records agree, no
  instance is ever \<open>UNINITIALIZED\<close>, one that is starting or stopping has a call in flight
  that will move it on, one that runs has a start time, and error counts are not negative.
\<close>

definition instance_ok :: "'v reg_call multiset \<Rightarrow> instance_key \<Rightarrow> 'v instance_info \<Rightarrow> bool" where
  "instance_ok cs key info \<longleftrightarrow>
     ii_plugin_name info = fst key \<and> ii_server_id info = snd key \<and>
     ii_state info \<noteq> UNINITIALIZED \<and>
     (ii_state info = INITIALIZING \<longrightarrow> InitAwaiting (fst key) (snd key) \<in># cs) \<and>
     (ii_state info = SHUTTING_DOWN \<longrightarrow> ShutdownAwaiting (fst key) (snd key) \<in># cs) \<and>
     (ii_state info \<in> {RUNNING, DEGRADED} \<longrightarrow> ii_started_at info \<noteq> None) \<and>
     0 \<le> ii_error_count info"

definition registry_wf :: "'v registry \<times> 'v reg_call multiset \<Rightarrow> bool" where
  "registry_wf s \<longleftrightarrow>
     distinct (map fst (pr_plugins (fst s))) \<and>
     (\<forall>(name, p)\<in>set (pr_plugins (fst s)). pl_name p = name \<and> pl_is_subsystem p) \<and>
     distinct (map fst (pr_instances (fst s))) \<and>
     (\<forall>key info. find_instance key (fst s) = Some info \<longrightarrow> instance_ok (snd s) key info)"

lemma find_set_instance [simp]:
  "find_instance k (set_instance key info r) = (if k = key then Some info else find_instance k r)"
  by (simp add: find_instance_def set_instance_def update_conv)

lemma find_modify_instance [simp]:
  "find_instance k (modify_instance key f r) =
     (if k = key then map_option f (find_instance key r) else find_instance k r)"
  by (auto simp: modify_instance_def split: option.splits)

lemma pr_plugins_instance_ops [simp]:
  "pr_plugins (set_instance key info r) = pr_plugins r"
  "pr_plugins (modify_instance key f r) = pr_plugins r"
  "pr_config (set_instance key info r) = pr_config r"
  "pr_config (modify_instance key f r) = pr_config r"
  by (simp_all add: set_instance_def modify_instance_def split: option.splits)

lemma distinct_instance_ops [simp]:
  "distinct (map fst (pr_instances r)) \<Longrightarrow> distinct (map fst (pr_instances (set_instance key info r)))"
  "distinct (map fst (pr_instances r)) \<Longrightarrow> distinct (map fst (pr_instances (modify_instance key f r)))"
  by (simp_all add: set_instance_def modify_instance_def distinct_update split: option.splits)

lemma find_instance_frame [simp]:
  "find_instance key (r\<lparr>pr_plugins := ps\<rparr>) = find_instance key r"
  "find_instance key (set_config c r) = find_instance key r"
  by (simp_all add: find_instance_def set_config_def)

lemma init_enter_Inr:
  "init_enter name sid cfg r = Inr r' \<Longrightarrow>
     \<exists>c. r' = set_instance (name, sid) (new_instance_info name sid INITIALIZING c) r"
  by (auto simp: init_enter_def split: option.splits if_splits)

lemma shutdown_enter_Inr:
  "shutdown_enter name sid r = Inr r' \<Longrightarrow>
     \<exists>info. find_instance (name, sid) r = Some info \<and>
       r' = set_instance (name, sid) (info\<lparr>ii_state := SHUTTING_DOWN\<rparr>) r"
  by (auto simp: shutdown_enter_def split: option.splits)

lemmas leave_defs = init_leave_def shutdown_leave_def health_leave_def

lemma instance_ok_other_call:
  "instance_ok cs key info \<Longrightarrow> instance_ok (add_mset c cs) key info"
  by (auto simp: instance_ok_def)

text \<open>
  Replacing the record of one key: the other records need their calls, which are those of
  other keys or untouched.
\<close>

lemma registry_wf_set:
  assumes "registry_wf (r, cs)"
    and "\<And>k i. k \<noteq> key \<Longrightarrow> instance_ok cs k i \<Longrightarrow> instance_ok cs' k i"
    and "instance_ok cs' key info"
  shows "registry_wf (set_instance key info r, cs')"
  using assms by (auto simp: registry_wf_def)

lemma registry_wf_modify:
  assumes "registry_wf (r, cs)"
    and "\<And>k i. k \<noteq> key \<Longrightarrow> instance_ok cs k i \<Longrightarrow> instance_ok cs' k i"
    and "\<And>info. instance_ok cs key info \<Longrightarrow> instance_ok cs' key (f info)"
  shows "registry_wf (modify_instance key f r, cs')"
  using assms by (auto simp: registry_wf_def)

lemma registry_wf_calls:
  assumes "registry_wf (r, cs)" "\<And>k i. instance_ok cs k i \<Longrightarrow> instance_ok cs' k i"
  shows "registry_wf (r, cs')"
  using assms by (auto simp: registry_wf_def)

lemma set_update_subset: "set (AList.update k v al) \<subseteq> insert (k, v) (set al)"
  by (induction al) auto

lemma registry_wf_register: "registry_wf (r, cs) \<Longrightarrow> registry_wf (snd (register cls r), cs)"
  using set_update_subset [of "pl_name cls" cls "pr_plugins r"]
  by (fastforce simp: registry_wf_def register_def distinct_update split: option.splits)

lemma registry_wf_unregister: "registry_wf (r, cs) \<Longrightarrow> registry_wf (snd (unregister name r), cs)"
  by (auto simp: registry_wf_def unregister_def distinct_map_filter AList.delete_eq split: option.splits)

lemma registry_wf_step: "reg_step s s' \<Longrightarrow> registry_wf s \<Longrightarrow> registry_wf s'"
proof (induction rule: reg_step.induct)
  case (rs_register r cs cls)
  then show ?case by (rule registry_wf_register)
next
  case (rs_unregister r cs name)
  then show ?case by (rule registry_wf_unregister)
next
  case (rs_set_config r cs c)
  then show ?case by (simp add: registry_wf_def set_config_def find_instance_def)
next
  case (rs_init_enter name sid cfg r r' cs)
  from init_enter_Inr [OF rs_init_enter(1)] obtain c where
    r': "r' = set_instance (name, sid) (new_instance_info name sid INITIALIZING c) r" by blast
  show ?case unfolding r'
    by (rule registry_wf_set [OF rs_init_enter(2)])
       (auto simp: instance_ok_def new_instance_info_def)
next
  case (rs_shutdown_enter name sid r r' cs)
  from shutdown_enter_Inr [OF rs_shutdown_enter(1)] obtain info where
    i: "find_instance (name, sid) r = Some info"
    and r': "r' = set_instance (name, sid) (info\<lparr>ii_state := SHUTTING_DOWN\<rparr>) r" by blast
  have "instance_ok (add_mset (ShutdownCalled name sid) cs) (name, sid) info"
    using i rs_shutdown_enter(2) by (simp add: registry_wf_def)
  then show ?case unfolding r'
    by (intro registry_wf_set [OF rs_shutdown_enter(2)]) (auto simp: instance_ok_def)
next
  case (rs_init_leave r name sid cs out now)
  show ?case unfolding init_leave_def
    by (cases out; simp; rule registry_wf_modify [OF rs_init_leave]; auto simp: instance_ok_def)
next
  case (rs_shutdown_leave r name sid cs)
  show ?case unfolding shutdown_leave_def
    by (rule registry_wf_modify [OF rs_shutdown_leave]) (auto simp: instance_ok_def)
next
  case (rs_health_leave r name sid cs h now)
  show ?case unfolding health_leave_def
    by (rule registry_wf_modify [OF rs_health_leave]) (auto simp: instance_ok_def)
qed (erule registry_wf_calls, auto simp: instance_ok_def)+

lemma reg_reachable_wf: "reg_reachable s \<Longrightarrow> registry_wf s"
proof (induction rule: reg_reachable.induct)
  case rr_start
  show ?case by (simp add: registry_wf_def new_registry_def find_instance_def)
next
  case (rr_step s s')
  then show ?case using registry_wf_step by blast
qed

section \<open>Properties\<close>

text \<open>C5: a startup order, when one is returned, lists each requested plugin exactly once and
  every plugin after all its dependencies within the request, for whatever order Python
  iterates its sets in.\<close>

theorem startup_order_topological:
  assumes "iterates it" and "names \<noteq> []" and "get_startup_order it (Some names) r = Inr order"
  shows "mset order = mset names \<and>
    (\<forall>i<length order. \<forall>p. map_of (pr_plugins r) (order ! i) = Some p \<longrightarrow>
       set (pl_dependencies p) \<inter> set names \<subseteq> set (take i order))"
proof
  note sound = startup_order_sound [OF assms(1,3), unfolded names_to_order_Some [OF assms(2)]]
  show "mset order = mset names" using sound(1-3) by (simp add: set_eq_iff_mset_eq_distinct)
  show "\<forall>i<length order. \<forall>p. map_of (pr_plugins r) (order ! i) = Some p \<longrightarrow>
           set (pl_dependencies p) \<inter> set names \<subseteq> set (take i order)"
    using sound(2) sound(4) [OF id_take_nth_drop] by blast
qed

text \<open>A registry for the witnesses: \<open>app\<close> needs \<open>db\<close> and \<open>log\<close>, \<open>db\<close> needs \<open>log\<close>.\<close>

definition sample_plugin :: "string \<Rightarrow> string list \<Rightarrow> plugin" where
  "sample_plugin name deps =
     \<lparr>pl_class = name, pl_is_subsystem = True, pl_name = name, pl_version = ''1'',
      pl_description = name, pl_dependencies = deps, pl_optional_dependencies = [],
      pl_author = [], pl_homepage = [], pl_tags = []\<rparr>"

definition sample_registry :: "int registry" where
  "sample_registry = new_registry\<lparr>pr_plugins :=
     [(''app'', sample_plugin ''app'' [''db'', ''log'']), (''db'', sample_plugin ''db'' [''log'']),
      (''log'', sample_plugin ''log'' []), (''a'', sample_plugin ''a'' [''b'']),
      (''b'', sample_plugin ''b'' [''a''])]\<rparr>"

lemma sample_order:
  "get_startup_order (\<lambda>_ xs. xs) (Some [''app'', ''db'', ''log'']) sample_registry
     = Inr [''log'', ''db'', ''app'']"
  by code_simp

lemma iterates_id: "iterates (\<lambda>_ xs. xs)"
  by (simp add: iterates_def)

theorem startup_order_topological_witness:
  "mset [''log'', ''db'', ''app''] = mset [''app'', ''db'', ''log'']"
  using startup_order_topological [OF iterates_id _ sample_order] by blast

text \<open>When all requested plugins are registered, the dependency error is raised exactly
  when the request repeats a name or contains a set of plugins each of which depends on another
  of the set; a duplicate in the request is thus reported as a cycle.\<close>

theorem startup_order_error_iff:
  assumes "iterates it" and "names \<noteq> []" and "\<forall>n\<in>set names. has_plugin n r"
  shows "get_startup_order it (Some names) r = Inl PluginDependencyError \<longleftrightarrow>
     \<not> distinct names \<or> (\<exists>C. C \<subseteq> set names \<and> cyclic_set r C)"
  using startup_order_complete [of it "Some names" r] assms
  by (simp add: names_to_order_Some has_plugin_def)

theorem startup_order_error_iff_witness:
  "get_startup_order (\<lambda>_ xs. xs) (Some [''a'', ''b'']) sample_registry = Inl PluginDependencyError"
proof -
  have "cyclic_set sample_registry {''a'', ''b''}"
    by (simp add: cyclic_set_def sample_registry_def sample_plugin_def)
  moreover have "\<forall>n\<in>set [''a'', ''b'']. has_plugin n sample_registry"
    by (simp add: has_plugin_def sample_registry_def)
  ultimately show ?thesis
    using startup_order_error_iff [OF iterates_id, of "[''a'', ''b'']" sample_registry]
    by (metis list.distinct(1) list.set(1) list.simps(15) order_refl)
qed

text \<open>In a shutdown order, when a plugin's turn comes, every requested plugin that depends
  on it has had its turn before.\<close>

theorem shutdown_order_dependents_first:
  assumes "iterates it" and "names \<noteq> []" and "get_shutdown_order it (Some names) r = Inr order"
    and "i < length order" and "n \<in> set names" and "order ! i \<in> plugin_requires r n"
  shows "\<exists>j<i. order ! j = n"
proof -
  obtain up where up: "get_startup_order it (Some names) r = Inr up" "order = rev up"
    using assms(3) by (auto simp: get_shutdown_order_def split: sum.splits)
  have "schedule_with it r names = Inr up" using assms(1,2) up(1) by (simp add: schedule_with_def)
  from kahn.stopped_after [OF this _ _ assms(5), of i] show ?thesis
    using assms(4,6) up(2) by simp
qed

theorem shutdown_order_dependents_first_witness:
  "\<exists>j<2. [''app'', ''db'', ''log''] ! j = ''db''"
proof -
  have "get_shutdown_order (\<lambda>_ xs. xs) (Some [''app'', ''db'', ''log'']) sample_registry
      = Inr [''app'', ''db'', ''log'']"
    by (simp add: get_shutdown_order_def sample_order)
  from shutdown_order_dependents_first [OF iterates_id _ this, of 2 "''db''"] show ?thesis
    by (simp add: plugin_requires_def sample_registry_def sample_plugin_def)
qed

text \<open>Under any interleaving of registry calls, keys and records agree, no record is
  uninitialised, and as soon as no coroutine is in flight no instance is left starting or
  stopping, and every running or degraded one has a start time.\<close>

theorem quiescent_registry_settled:
  assumes "reg_reachable (r, cs)" and "find_instance (name, sid) r = Some info"
  shows "ii_plugin_name info = name \<and> ii_server_id info = sid \<and> ii_state info \<noteq> UNINITIALIZED \<and>
    (cs = {#} \<longrightarrow> ii_state info \<in> {RUNNING, DEGRADED, SHUTDOWN, ERROR}) \<and>
    (ii_state info \<in> {RUNNING, DEGRADED} \<longrightarrow> ii_started_at info \<noteq> None)"
proof -
  have "instance_ok cs (name, sid) info"
    using reg_reachable_wf [OF assms(1)] assms(2) by (simp add: registry_wf_def)
  then show ?thesis by (cases "ii_state info") (auto simp: instance_ok_def)
qed

definition race_registry :: "int registry" where
  "race_registry = snd (register (sample_plugin ''db'' []) new_registry)"

lemma race_start: "reg_reachable (race_registry, {#})"
  unfolding race_registry_def by (rule rr_step [OF rr_start rs_register])

lemma race_enter:
  assumes "reg_reachable (r, cs)" "has_plugin name r" "init_enter name sid None r = Inr r'"
  shows "reg_reachable (r', add_mset (InitAwaiting name sid) cs)"
proof -
  have "reg_reachable (r, add_mset (InitCalled name sid None) cs)"
    by (rule rr_step [OF assms(1) rs_call_init [OF assms(2)]])
  then show ?thesis by (rule rr_step) (rule rs_init_enter [OF assms(3)])
qed

definition raced :: "int registry" where
  "raced = set_instance (''db'', ''s1'') (new_instance_info ''db'' ''s1'' INITIALIZING []) race_registry"

lemma raced_reachable: "reg_reachable (raced, {#InitAwaiting ''db'' ''s1''#})"
proof (rule race_enter [OF race_start])
  show "has_plugin ''db'' race_registry"
    by (simp add: race_registry_def register_def sample_plugin_def new_registry_def has_plugin_def)
  show "init_enter ''db'' ''s1'' None race_registry = Inr raced"
    by (simp add: init_enter_def raced_def race_registry_def register_def find_instance_def
        sample_plugin_def new_registry_def)
qed

theorem quiescent_registry_settled_witness:
  "\<exists>info. find_instance (''db'', ''s1'') (init_leave ''db'' ''s1'' HookReturns 5 raced) = Some info
     \<and> ii_state info = RUNNING \<and> ii_started_at info \<noteq> None"
proof -
  let ?r = "init_leave ''db'' ''s1'' HookReturns 5 raced"
  have "reg_reachable (?r, {#})"
    by (rule rr_step [OF raced_reachable rs_init_leave])
  moreover obtain info where i: "find_instance (''db'', ''s1'') ?r = Some info" "ii_state info = RUNNING"
    by (simp add: init_leave_def raced_def)
  ultimately show ?thesis using quiescent_registry_settled [of ?r "{#}" "''db''" "''s1''" info] by auto
qed

text \<open>
  The guard of \<open>init_subsystem\<close> refuses a running or degraded instance, but not one whose
  initialisation is still waiting for its hook: two initialisations of one plugin on one
  server can run at once.
\<close>

lemma concurrent_double_init:
  "\<exists>r. reg_reachable (r :: int registry, {#InitAwaiting ''db'' ''s1'', InitAwaiting ''db'' ''s1''#})"
proof (rule exI [of _ raced], rule race_enter [OF raced_reachable])
  show "has_plugin ''db'' raced"
    by (simp add: raced_def race_registry_def register_def sample_plugin_def new_registry_def has_plugin_def)
  show "init_enter ''db'' ''s1'' None raced = Inr raced"
    by code_simp
qed

text \<open>\<open>init_subsystem\<close> run alone: an unregistered plugin or a running or degraded instance
  is refused and nothing changes; a hook that returns leaves the instance running, healthy, with
  a start time and a zero error count; a hook that raises leaves it in error with one error and
  the message; no other instance is touched.\<close>

theorem init_subsystem_outcomes:
  "case init_subsystem name sid config outcome now r of (res, r') \<Rightarrow>
     (\<forall>key. key = (name, sid) \<or> find_instance key r' = find_instance key r) \<and>
     pr_plugins r' = pr_plugins r \<and>
     (if \<not> has_plugin name r then res = Inl PluginNotFoundError \<and> r' = r
      else if \<exists>info. find_instance (name, sid) r = Some info \<and> ii_state info \<in> {RUNNING, DEGRADED}
      then res = Inl PluginStateError \<and> r' = r
      else case outcome of
          HookReturns \<Rightarrow> (\<exists>info. res = Inr info \<and> find_instance (name, sid) r' = Some info \<and>
             ii_state info = RUNNING \<and> ii_health info = HEALTHY \<and> ii_started_at info = Some now \<and>
             ii_error_count info = 0)
        | HookRaises msg \<Rightarrow> res = Inl PluginError \<and> (\<exists>info. find_instance (name, sid) r' = Some info \<and>
             ii_state info = ERROR \<and> ii_last_error info = Some msg \<and> ii_error_count info = 1))"
  by (cases "find_instance (name, sid) r"; cases outcome; cases "map_of (pr_plugins r) name")
     (auto simp: init_subsystem_def get_plugin_def has_plugin_def init_enter_def init_leave_def
       new_instance_info_def)

end
