(* ===== verification/VfsDatabases.thy ===== *)
theory VfsDatabases
  imports Prelude "HOL-Library.AList"
begin

text \<open>
  Database isolation of \<open>SCRIPTS/SERVICES/multi-server-manager/engine/vfs_db_isolation.py\<close>:
  the reference-counted connection of \<open>VFSDatabase\<close> and the table of databases of
  \<open>VFSDatabaseManager\<close>, one per subsystem and server.  The connection itself and the SQL
  run over it are SQLite's; whether opening succeeds is an argument.  A \<open>Path\<close> is the list
  of its components: joining drops empty components and \<open>''.''\<close>, and keeps \<open>''..''\<close>.
\<close>

section \<open>Names and paths\<close>

definition name_char :: "char \<Rightarrow> bool" where
  "name_char c \<longleftrightarrow>
     (CHR ''a'' \<le> c \<and> c \<le> CHR ''z'') \<or> (CHR ''A'' \<le> c \<and> c \<le> CHR ''Z'') \<or>
     (CHR ''0'' \<le> c \<and> c \<le> CHR ''9'') \<or> c = CHR ''_'' \<or> c = CHR ''-'' \<or> c = CHR ''.''"

definition sanitize_name :: "string \<Rightarrow> string" where
  "sanitize_name name =
     (let s1 = map (\<lambda>c. if name_char c then c else CHR ''_'') name;
          s2 = (if length s1 > 100 then take 100 s1 else s1)
      in if s2 = [] then ''unnamed'' else s2)"

type_synonym path = "string list"

definition path_join :: "path \<Rightarrow> string \<Rightarrow> path" where
  "path_join p component = (if component = [] \<or> component = ''.'' then p else p @ [component])"

definition get_db_path :: "path \<Rightarrow> string \<Rightarrow> string \<Rightarrow> path" where
  "get_db_path base subsystem server =
     path_join (path_join (path_join base (sanitize_name subsystem)) (sanitize_name server)) ''data.db''"

section \<open>One database\<close>

datatype open_outcome = OpenOk | ConnectFails | PragmaFails

datatype vfs_error = VFSDBConfigError | VFSDBConnectionError

record vfs_database =
  vd_subsystem :: string
  vd_server_id :: string
  vd_path :: path
  vd_connected :: bool
  vd_open_count :: int

definition new_vfs_database :: "string \<Rightarrow> string \<Rightarrow> path \<Rightarrow> vfs_database" where
  "new_vfs_database sub sid p =
     \<lparr>vd_subsystem = sub, vd_server_id = sid, vd_path = p, vd_connected = False, vd_open_count = 0\<rparr>"

text \<open>
  \<open>sqlite3.connect\<close> assigns \<open>self._conn\<close> before the pragmas run, so a failing pragma
  leaves the connection set and the count untouched.
\<close>

definition vfs_open :: "open_outcome \<Rightarrow> vfs_database \<Rightarrow> (vfs_error + unit) \<times> vfs_database" where
  "vfs_open out db =
     (if vd_connected db then (Inr (), db\<lparr>vd_open_count := vd_open_count db + 1\<rparr>)
      else (case out of
              OpenOk \<Rightarrow> (Inr (), db\<lparr>vd_connected := True, vd_open_count := vd_open_count db + 1\<rparr>)
            | ConnectFails \<Rightarrow> (Inl VFSDBConnectionError, db)
            | PragmaFails \<Rightarrow> (Inl VFSDBConnectionError, db\<lparr>vd_connected := True\<rparr>)))"

definition vfs_close :: "vfs_database \<Rightarrow> vfs_database" where
  "vfs_close db =
     (if \<not> vd_connected db then db
      else (let db1 = db\<lparr>vd_open_count := vd_open_count db - 1\<rparr>
            in if vd_open_count db1 > 0 then db1 else db1\<lparr>vd_connected := False\<rparr>))"

section \<open>The manager\<close>

type_synonym vfs_key = "string \<times> string"

record vfs_manager =
  vm_root :: path
  vm_databases :: "(vfs_key \<times> vfs_database) list"

definition new_vfs_manager :: "path \<Rightarrow> vfs_manager" where
  "new_vfs_manager base = \<lparr>vm_root = base, vm_databases = []\<rparr>"

definition get_database ::
  "string \<Rightarrow> string \<Rightarrow> bool \<Rightarrow> open_outcome \<Rightarrow> vfs_manager \<Rightarrow> (vfs_error + vfs_database) \<times> vfs_manager" where
  "get_database sub sid auto_open out m =
     (if sub = [] then (Inl VFSDBConfigError, m)
      else if sid = [] then (Inl VFSDBConfigError, m)
      else
        let key = (sub, sid) in
        (case map_of (vm_databases m) key of
           Some db \<Rightarrow> (Inr db, m)
         | None \<Rightarrow>
             (let db = new_vfs_database sub sid (get_db_path (vm_root m) sub sid);
                  (res, db') = (if auto_open then vfs_open out db else (Inr (), db));
                  m' = m\<lparr>vm_databases := AList.update key db' (vm_databases m)\<rparr>
              in (case res of Inl e \<Rightarrow> (Inl e, m') | Inr _ \<Rightarrow> (Inr db', m')))))"

text \<open>Deleting the file is left out: it touches the file system only.\<close>

definition remove_database :: "string \<Rightarrow> string \<Rightarrow> vfs_manager \<Rightarrow> bool \<times> vfs_manager" where
  "remove_database sub sid m =
     (case map_of (vm_databases m) (sub, sid) of
        None \<Rightarrow> (False, m)
      | Some db \<Rightarrow> (True, m\<lparr>vm_databases := AList.delete (sub, sid) (vm_databases m)\<rparr>))"

definition list_databases :: "vfs_manager \<Rightarrow> vfs_database list" where
  "list_databases m = map snd (vm_databases m)"

definition get_databases_for_subsystem :: "string \<Rightarrow> vfs_manager \<Rightarrow> vfs_database list" where
  "get_databases_for_subsystem sub m = map snd (filter (\<lambda>(key, db). fst key = sub) (vm_databases m))"

definition get_databases_for_server :: "string \<Rightarrow> vfs_manager \<Rightarrow> vfs_database list" where
  "get_databases_for_server sid m = map snd (filter (\<lambda>(key, db). snd key = sid) (vm_databases m))"

definition close_all :: "vfs_manager \<Rightarrow> vfs_manager" where
  "close_all m = m\<lparr>vm_databases := map (\<lambda>(key, db). (key, vfs_close db)) (vm_databases m)\<rparr>"

definition database_count :: "vfs_manager \<Rightarrow> nat" where
  "database_count m = length (vm_databases m)"

section \<open>Lemmas\<close>

lemma sanitize_name_chars: "\<forall>c\<in>set (sanitize_name name). name_char c"
proof -
  have 1: "\<forall>c\<in>set ''unnamed''. name_char c" and 2: "name_char CHR ''_''" by code_simp+
  have "\<forall>c\<in>set (map (\<lambda>c. if name_char c then c else CHR ''_'') name). name_char c"
    using 2 by auto
  then show ?thesis using 1 by (auto simp only: sanitize_name_def Let_def split: if_splits dest: in_set_takeD)
qed

lemma sanitize_name_length: "0 < length (sanitize_name name) \<and> length (sanitize_name name) \<le> 100"
  by (auto simp: sanitize_name_def)

text \<open>Names the sanitiser leaves alone and that are no directory reference.\<close>

definition plain_name :: "string \<Rightarrow> bool" where
  "plain_name name \<longleftrightarrow>
     name \<noteq> [] \<and> length name \<le> 100 \<and> (\<forall>c\<in>set name. name_char c) \<and> name \<noteq> ''.'' \<and> name \<noteq> ''..''"

lemma sanitize_plain [simp]: "plain_name name \<Longrightarrow> sanitize_name name = name"
  by (auto simp: plain_name_def sanitize_name_def map_idI)

lemma sanitize_name_idem: "sanitize_name (sanitize_name name) = sanitize_name name"
proof -
  have "map (\<lambda>c. if name_char c then c else CHR ''_'') (sanitize_name name) = sanitize_name name"
    using sanitize_name_chars by (intro map_idI) auto
  then show ?thesis using sanitize_name_length [of name]
    by (auto simp: sanitize_name_def [of "sanitize_name name"])
qed

lemma plain_name_component: "plain_name name \<Longrightarrow> name \<noteq> [] \<and> name \<noteq> ''.''"
  by (simp add: plain_name_def)

lemma get_db_path_plain:
  "plain_name sub \<Longrightarrow> plain_name sid \<Longrightarrow> get_db_path base sub sid = base @ [sub, sid, ''data.db'']"
  using plain_name_component [of sub] plain_name_component [of sid]
  by (simp add: get_db_path_def path_join_def)

definition manager_wf :: "vfs_manager \<Rightarrow> bool" where
  "manager_wf m \<longleftrightarrow> distinct (map fst (vm_databases m)) \<and>
     (\<forall>(key, db)\<in>set (vm_databases m). vd_subsystem db = fst key \<and> vd_server_id db = snd key \<and>
        vd_path db = get_db_path (vm_root m) (fst key) (snd key))"

lemma vfs_open_frame:
  "vd_subsystem (snd (vfs_open out db)) = vd_subsystem db \<and>
   vd_server_id (snd (vfs_open out db)) = vd_server_id db \<and> vd_path (snd (vfs_open out db)) = vd_path db"
  by (simp add: vfs_open_def split: open_outcome.split)

lemma set_update_alist: "set (AList.update k v al) \<subseteq> insert (k, v) (set al)"
  by (induction al) auto

lemma manager_wf_get:
  assumes "manager_wf m"
  shows "manager_wf (snd (get_database sub sid auto_open out m))"
proof (cases "sub = [] \<or> sid = [] \<or> map_of (vm_databases m) (sub, sid) \<noteq> None")
  case True
  then show ?thesis using assms by (auto simp: get_database_def)
next
  case False
  define db where "db = snd (if auto_open then vfs_open out (new_vfs_database sub sid (get_db_path (vm_root m) sub sid))
      else (Inr (), new_vfs_database sub sid (get_db_path (vm_root m) sub sid)))"
  have "snd (get_database sub sid auto_open out m) =
      m\<lparr>vm_databases := AList.update (sub, sid) db (vm_databases m)\<rparr>"
    using False by (auto simp: get_database_def db_def split_beta split: sum.splits)
  moreover have "vd_subsystem db = sub" "vd_server_id db = sid" "vd_path db = get_db_path (vm_root m) sub sid"
    by (auto simp: db_def vfs_open_frame new_vfs_database_def)
  ultimately show ?thesis
    using assms set_update_alist [of "(sub, sid)" db "vm_databases m"]
    by (fastforce simp: manager_wf_def distinct_update)
qed

lemma manager_wf_remove: "manager_wf m \<Longrightarrow> manager_wf (snd (remove_database sub sid m))"
  by (auto simp: manager_wf_def remove_database_def AList.delete_eq distinct_map_filter split: option.splits)

section \<open>Properties\<close>

text \<open>Two databases of plain names (allowed characters only, at most 100 of them, no
  \<open>.\<close> or \<open>..\<close>) of different subsystem or server lie in different files, all below the data
  base.\<close>

theorem plain_names_isolated:
  assumes "manager_wf m"
    and "(k1, d1) \<in> set (vm_databases m)" and "(k2, d2) \<in> set (vm_databases m)"
    and "\<forall>n\<in>{fst k1, snd k1, fst k2, snd k2}. plain_name n"
  shows "(vd_path d1 = vd_path d2 \<longleftrightarrow> k1 = k2) \<and> take (length (vm_root m)) (vd_path d1) = vm_root m"
proof -
  have "vd_path d1 = vm_root m @ [fst k1, snd k1, ''data.db'']"
    "vd_path d2 = vm_root m @ [fst k2, snd k2, ''data.db'']"
    using assms by (auto simp: manager_wf_def get_db_path_plain)
  then show ?thesis by (auto simp: prod_eq_iff)
qed

definition two_databases :: vfs_manager where
  "two_databases =
     snd (get_database ''ah'' ''s2'' True OpenOk
       (snd (get_database ''ah'' ''s1'' True OpenOk (new_vfs_manager [''vfs'']))))"

theorem plain_names_isolated_witness:
  "(the (map_of (vm_databases two_databases) (''ah'', ''s1''))) \<noteq>
   (the (map_of (vm_databases two_databases) (''ah'', ''s2'')))"
proof -
  have wf: "manager_wf two_databases"
    unfolding two_databases_def by (intro manager_wf_get) (simp add: manager_wf_def new_vfs_manager_def)
  have "map_of (vm_databases two_databases) (''ah'', ''s1'') \<noteq> None"
    "map_of (vm_databases two_databases) (''ah'', ''s2'') \<noteq> None" by code_simp+
  then obtain d1 d2 where m: "map_of (vm_databases two_databases) (''ah'', ''s1'') = Some d1"
    "map_of (vm_databases two_databases) (''ah'', ''s2'') = Some d2" by blast
  have p: "\<forall>n\<in>{''ah'', ''s1'', ''ah'', ''s2''}. plain_name n" by code_simp
  show ?thesis
    using plain_names_isolated [OF wf map_of_SomeD [OF m(1)] map_of_SomeD [OF m(2)]] p m by auto
qed

text \<open>
  The sanitiser does not keep names apart, and lets \<open>..\<close> through: two servers can share
  one file, and a subsystem named \<open>..\<close> has its file outside the data root.
\<close>

lemma sanitized_names_collide:
  "get_db_path base ''ah'' ''s 1'' = get_db_path base ''ah'' ''s_1''"
  by (simp add: get_db_path_def sanitize_name_def name_char_def)

lemma dotdot_escapes_root:
  "get_db_path base ''..'' ''s1'' = base @ [''..'', ''s1'', ''data.db'']"
  by (simp add: get_db_path_def path_join_def sanitize_name_def name_char_def)

text \<open>Opening is reference counted: after \<open>Suc n\<close> successful opens of a closed database,
  \<open>n\<close> closes keep the connection and one more drops it.\<close>

theorem open_close_counted:
  fixes n :: nat
  assumes "\<not> vd_connected db" and "vd_open_count db = 0"
  defines "opened \<equiv> ((\<lambda>d. snd (vfs_open OpenOk d)) ^^ Suc n) db"
  shows "vd_connected ((vfs_close ^^ n) opened) \<and> \<not> vd_connected ((vfs_close ^^ Suc n) opened)"
proof -
  have o: "vd_connected (((\<lambda>d. snd (vfs_open OpenOk d)) ^^ Suc k) db) \<and>
      vd_open_count (((\<lambda>d. snd (vfs_open OpenOk d)) ^^ Suc k) db) = int (Suc k)" for k
    using assms(1,2) by (induction k) (auto simp: vfs_open_def)
  have c: "k \<le> n \<Longrightarrow> vd_connected ((vfs_close ^^ k) opened) \<and>
      vd_open_count ((vfs_close ^^ k) opened) = int (Suc n - k)" for k
  proof (induction k)
    case 0
    then show ?case using o [of n] by (simp add: opened_def)
  next
    case (Suc k)
    then show ?case by (auto simp: vfs_close_def)
  qed
  show ?thesis using c [of n] by (simp add: vfs_close_def)
qed

theorem open_close_counted_witness:
  "\<not> vd_connected (vfs_close (vfs_close (snd (vfs_open OpenOk (snd (vfs_open OpenOk
      (new_vfs_database ''ah'' ''s1'' [''f''])))))))"
  using open_close_counted [of "new_vfs_database ''ah'' ''s1'' [''f'']" 1]
  by (simp add: new_vfs_database_def)

end
