(* ===== verification/Lifecycle.thy ===== *)
theory Lifecycle
  imports PluginRegistry VfsDatabases
begin

text \<open>
  The lifecycle manager of
  \<open>SCRIPTS/SERVICES/multi-server-manager/engine/lifecycle_manager.py\<close>: servers, ordered
  startup and shutdown, health checks with automatic restart.  Each coroutine is run without
  interleaving (the interleavings of the registry underneath are in
  \<open>PluginRegistry\<close>).  What plugin hooks, SQLite and the clock answer during one
  operation is the record \<open>env\<close>; every operation calls a hook at most once per plugin and
  server, so a function of the two is general.  Event handlers only observe, so emitted events
  are recorded in a list, without their message texts.
\<close>

section \<open>Data\<close>

datatype lifecycle_error =
    LifecycleError
  | ServerNotFoundError
  | ServerStateError
  | FromRegistry plugin_error
  | FromVfs vfs_error

datatype server_state = SrvStopped | SrvStarting | SrvRunning | SrvDegraded | SrvError | SrvStopping

text \<open>\<open>se_healthy\<close> is \<open>None\<close> until a health check stores the key; reading it defaults to \<open>True\<close>.\<close>

record 'v server_entry =
  se_display_name :: string
  se_config :: "(string \<times> (string \<times> 'v) list) list"
  se_state :: server_state
  se_started_at :: "datetime option"
  se_error_count :: int
  se_healthy :: "bool option"

record server_info =
  si_server_id :: string
  si_display_name :: string
  si_state :: server_state
  si_enabled_subsystems :: "string list"
  si_started_at :: "datetime option"
  si_healthy :: bool
  si_error_count :: int
  si_plugin_count :: nat

datatype event_type = EvStart | EvStop | EvError | EvRestart

record lifecycle_event =
  ev_type :: event_type
  ev_server_id :: string
  ev_plugin_name :: "string option"
  ev_success :: bool

record 'v lifecycle =
  lm_registry :: "'v registry"
  lm_vfs :: vfs_manager
  lm_health_check_interval :: rat
  lm_auto_restart :: bool
  lm_max_restart_attempts :: int
  lm_servers :: "(string \<times> 'v server_entry) list"
  lm_health_tasks :: "string list"
  lm_restart_counts :: "((string \<times> string) \<times> int) list"
  lm_events :: "lifecycle_event list"

text \<open>\<open>wait_for\<close> may also cancel a shutdown hook that does not return in time.\<close>

datatype stop_outcome = StopReturns | StopRaises | StopTimesOut

record env =
  e_init :: "string \<Rightarrow> string \<Rightarrow> hook_outcome"
  e_stop :: "string \<Rightarrow> string \<Rightarrow> stop_outcome"
  e_health :: "string \<Rightarrow> string \<Rightarrow> plugin_health option"
  e_open :: "string \<Rightarrow> string \<Rightarrow> open_outcome"
  e_now :: datetime
  e_it :: "string \<Rightarrow> string list \<Rightarrow> string list"

definition new_lifecycle :: "'v registry \<Rightarrow> vfs_manager \<Rightarrow> rat \<Rightarrow> bool \<Rightarrow> int \<Rightarrow> 'v lifecycle" where
  "new_lifecycle reg vfs interval auto most =
     \<lparr>lm_registry = reg, lm_vfs = vfs, lm_health_check_interval = interval, lm_auto_restart = auto,
      lm_max_restart_attempts = most, lm_servers = [], lm_health_tasks = [],
      lm_restart_counts = [], lm_events = []\<rparr>"

definition emit_event ::
  "event_type \<Rightarrow> string \<Rightarrow> string option \<Rightarrow> bool \<Rightarrow> 'v lifecycle \<Rightarrow> 'v lifecycle" where
  "emit_event ty sid pl success L =
     L\<lparr>lm_events := lm_events L @
       [\<lparr>ev_type = ty, ev_server_id = sid, ev_plugin_name = pl, ev_success = success\<rparr>]\<rparr>"

section \<open>Servers\<close>

definition find_server :: "string \<Rightarrow> 'v lifecycle \<Rightarrow> 'v server_entry option" where
  "find_server sid L = map_of (lm_servers L) sid"

text \<open>\<open>self._servers[sid][key] = value\<close> for a server known to be present.\<close>

definition modify_server ::
  "string \<Rightarrow> ('v server_entry \<Rightarrow> 'v server_entry) \<Rightarrow> 'v lifecycle \<Rightarrow> 'v lifecycle" where
  "modify_server sid f L =
     (case find_server sid L of
        None \<Rightarrow> L
      | Some s \<Rightarrow> L\<lparr>lm_servers := AList.update sid (f s) (lm_servers L)\<rparr>)"

definition set_state :: "string \<Rightarrow> server_state \<Rightarrow> 'v lifecycle \<Rightarrow> 'v lifecycle" where
  "set_state sid st L = modify_server sid (\<lambda>s. s\<lparr>se_state := st\<rparr>) L"

definition register_server ::
  "string \<Rightarrow> string \<Rightarrow> (string \<times> (string \<times> 'v) list) list option \<Rightarrow> 'v lifecycle
     \<Rightarrow> (lifecycle_error + unit) \<times> 'v lifecycle" where
  "register_server sid display_name config L =
     (case find_server sid L of
        Some _ \<Rightarrow> (Inl LifecycleError, L)
      | None \<Rightarrow>
          (Inr (), L\<lparr>lm_servers := AList.update sid
             \<lparr>se_display_name = (if display_name = [] then sid else display_name),
              se_config = (case config of None \<Rightarrow> [] | Some c \<Rightarrow> c),
              se_state = SrvStopped, se_started_at = None, se_error_count = 0,
              se_healthy = None\<rparr> (lm_servers L)\<rparr>))"

definition unregister_server ::
  "string \<Rightarrow> 'v lifecycle \<Rightarrow> (lifecycle_error + unit) \<times> 'v lifecycle" where
  "unregister_server sid L =
     (case find_server sid L of
        None \<Rightarrow> (Inl ServerNotFoundError, L)
      | Some s \<Rightarrow>
          (if se_state s \<noteq> SrvStopped then (Inl ServerStateError, L)
           else (Inr (), L\<lparr>lm_servers := AList.delete sid (lm_servers L)\<rparr>)))"

definition server_info_of :: "string \<Rightarrow> 'v server_entry \<Rightarrow> 'v lifecycle \<Rightarrow> server_info" where
  "server_info_of sid s L =
     \<lparr>si_server_id = sid, si_display_name = se_display_name s, si_state = se_state s,
      si_enabled_subsystems = get_enabled_plugins_for_server sid (lm_registry L),
      si_started_at = se_started_at s,
      si_healthy = (case se_healthy s of None \<Rightarrow> True | Some h \<Rightarrow> h),
      si_error_count = se_error_count s,
      si_plugin_count = length (get_server_instances sid (lm_registry L))\<rparr>"

definition list_servers :: "'v lifecycle \<Rightarrow> server_info list" where
  "list_servers L = map (\<lambda>(sid, s). server_info_of sid s L) (lm_servers L)"

definition get_server_info :: "string \<Rightarrow> 'v lifecycle \<Rightarrow> lifecycle_error + server_info" where
  "get_server_info sid L =
     (case find_server sid L of
        None \<Rightarrow> Inl ServerNotFoundError
      | Some s \<Rightarrow> Inr (server_info_of sid s L))"

definition get_server_config :: "string \<Rightarrow> 'v lifecycle \<Rightarrow> (string \<times> (string \<times> 'v) list) list" where
  "get_server_config sid L = (case find_server sid L of None \<Rightarrow> [] | Some s \<Rightarrow> se_config s)"

definition update_server_config ::
  "string \<Rightarrow> (string \<times> (string \<times> 'v) list) list \<Rightarrow> 'v lifecycle
     \<Rightarrow> (lifecycle_error + unit) \<times> 'v lifecycle" where
  "update_server_config sid config L =
     (case find_server sid L of
        None \<Rightarrow> (Inl ServerNotFoundError, L)
      | Some _ \<Rightarrow> (Inr (), modify_server sid (\<lambda>s. s\<lparr>se_config := config\<rparr>) L))"

section \<open>Startup\<close>

definition start_subsystem ::
  "env \<Rightarrow> string \<Rightarrow> string \<Rightarrow> 'v lifecycle \<Rightarrow> (lifecycle_error + unit) \<times> 'v lifecycle" where
  "start_subsystem e sid name L =
     (case get_plugin name (lm_registry L) of
        Inl err \<Rightarrow> (Inl (FromRegistry err), L)
      | Inr _ \<Rightarrow>
          (case get_database name sid True (e_open e name sid) (lm_vfs L) of
             (Inl err, vfs) \<Rightarrow> (Inl (FromVfs err), L\<lparr>lm_vfs := vfs\<rparr>)
           | (Inr _, vfs) \<Rightarrow>
               (let config = (case map_of (get_server_config sid L) name of None \<Rightarrow> [] | Some c \<Rightarrow> c);
                    (res, reg) = init_subsystem name sid (Some config) (e_init e name sid) (e_now e)
                                   (lm_registry L);
                    L' = L\<lparr>lm_vfs := vfs, lm_registry := reg\<rparr>
                in (case res of Inl err \<Rightarrow> (Inl (FromRegistry err), L') | Inr _ \<Rightarrow> (Inr (), L')))))"

text \<open>The loop over the startup order: a failure is counted and the loop goes on.\<close>

fun start_all :: "env \<Rightarrow> string \<Rightarrow> string list \<Rightarrow> 'v lifecycle \<Rightarrow> bool \<times> 'v lifecycle" where
  "start_all e sid [] L = (True, L)"
| "start_all e sid (name # names) L =
     (case start_subsystem e sid name L of
        (Inr _, L1) \<Rightarrow> start_all e sid names L1
      | (Inl _, L1) \<Rightarrow>
          (let L2 = modify_server sid (\<lambda>s. s\<lparr>se_error_count := se_error_count s + 1\<rparr>) L1
           in (False, snd (start_all e sid names L2))))"

definition start_server ::
  "env \<Rightarrow> string \<Rightarrow> 'v lifecycle \<Rightarrow> (lifecycle_error + bool) \<times> 'v lifecycle" where
  "start_server e sid L =
     (case find_server sid L of
        None \<Rightarrow> (Inl ServerNotFoundError, L)
      | Some _ \<Rightarrow>
          (let L1 = set_state sid SrvStarting L;
               enabled = get_enabled_plugins_for_server sid (lm_registry L1);
               up = (\<lambda>st. modify_server sid (\<lambda>s. s\<lparr>se_state := st, se_started_at := Some (e_now e)\<rparr>))
           in if enabled = [] then (Inr True, up SrvRunning L1)
              else (case get_startup_order (e_it e) (Some enabled) (lm_registry L1) of
                 Inl PluginDependencyError \<Rightarrow>
                   (Inl LifecycleError, emit_event EvError sid None False (set_state sid SrvError L1))
               | Inl err \<Rightarrow> (Inl (FromRegistry err), L1)
               | Inr startup_order \<Rightarrow>
                   (let (all_success, L2) = start_all e sid startup_order L1;
                        L3 = up (if all_success then SrvRunning else SrvDegraded) L2;
                        L4 = (if sid \<in> set (lm_health_tasks L3) then L3
                              else L3\<lparr>lm_health_tasks := lm_health_tasks L3 @ [sid]\<rparr>)
                    in (Inr all_success, emit_event EvStart sid None all_success L4)))))"

section \<open>Shutdown\<close>

text \<open>
  \<open>wait_for(shutdown_subsystem(...), timeout)\<close>: a cancelled call stays in the state its
  first critical section left, because \<open>CancelledError\<close> is no \<open>Exception\<close> and the last
  section is skipped.
\<close>

definition stop_subsystem :: "stop_outcome \<Rightarrow> string \<Rightarrow> string \<Rightarrow> 'v registry \<Rightarrow> bool \<times> 'v registry" where
  "stop_subsystem out name sid r =
     (case out of
        StopTimesOut \<Rightarrow>
          (case get_plugin name r of
             Inl _ \<Rightarrow> (False, r)
           | Inr _ \<Rightarrow> (case shutdown_enter name sid r of Inl _ \<Rightarrow> (False, r) | Inr r1 \<Rightarrow> (False, r1)))
      | _ \<Rightarrow>
          (case shutdown_subsystem name sid HookReturns r of
             (Inl _, r1) \<Rightarrow> (False, r1)
           | (Inr _, r1) \<Rightarrow> (True, r1)))"

fun stop_all :: "env \<Rightarrow> string \<Rightarrow> string list \<Rightarrow> 'v registry \<Rightarrow> bool \<times> 'v registry" where
  "stop_all e sid [] r = (True, r)"
| "stop_all e sid (name # names) r =
     (let (ok1, r1) = stop_subsystem (e_stop e name sid) name sid r;
          (ok2, r2) = stop_all e sid names r1
      in (ok1 \<and> ok2, r2))"

fun remove_databases :: "string \<Rightarrow> string list \<Rightarrow> vfs_manager \<Rightarrow> vfs_manager" where
  "remove_databases sid [] m = m"
| "remove_databases sid (name # names) m = remove_databases sid names (snd (remove_database name sid m))"

definition shutdown_server ::
  "env \<Rightarrow> string \<Rightarrow> 'v lifecycle \<Rightarrow> (lifecycle_error + bool) \<times> 'v lifecycle" where
  "shutdown_server e sid L =
     (case find_server sid L of
        None \<Rightarrow> (Inl ServerNotFoundError, L)
      | Some _ \<Rightarrow>
          (let L1 = set_state sid SrvStopping L;
               L2 = L1\<lparr>lm_health_tasks := removeAll sid (lm_health_tasks L1)\<rparr>;
               plugin_names = map ii_plugin_name (get_server_instances sid (lm_registry L2));
               finish = (\<lambda>order.
                 let (all_success, reg) = stop_all e sid order (lm_registry L2);
                     L3 = L2\<lparr>lm_registry := reg,
                             lm_vfs := remove_databases sid plugin_names (lm_vfs L2)\<rparr>
                 in (Inr all_success,
                     emit_event EvStop sid None all_success (set_state sid SrvStopped L3)))
           in if plugin_names = [] then
                (Inr True, emit_event EvStop sid None True (set_state sid SrvStopped L2))
              else (case get_shutdown_order (e_it e) (Some plugin_names) (lm_registry L2) of
                 Inr shutdown_order \<Rightarrow> finish shutdown_order
               | Inl PluginDependencyError \<Rightarrow> finish (rev plugin_names)
               | Inl err \<Rightarrow> (Inl (FromRegistry err), L2))))"

section \<open>Restart and health\<close>

text \<open>The environments of the two halves of a restart are separate arguments.\<close>

definition restart_server ::
  "env \<Rightarrow> env \<Rightarrow> string \<Rightarrow> 'v lifecycle \<Rightarrow> (lifecycle_error + bool) \<times> 'v lifecycle" where
  "restart_server e1 e2 sid L =
     (case shutdown_server e1 sid (emit_event EvRestart sid None True L) of
        (Inl err, L1) \<Rightarrow> (Inl err, L1)
      | (Inr _, L1) \<Rightarrow> start_server e2 sid L1)"

definition restart_subsystem ::
  "env \<Rightarrow> string \<Rightarrow> string \<Rightarrow> 'v lifecycle \<Rightarrow> bool \<times> 'v lifecycle" where
  "restart_subsystem e sid name L =
     (case shutdown_subsystem name sid HookReturns (lm_registry L) of
        (Inl _, r1) \<Rightarrow> (False, L\<lparr>lm_registry := r1\<rparr>)
      | (Inr _, r1) \<Rightarrow>
          (case start_subsystem e sid name (L\<lparr>lm_registry := r1\<rparr>) of
             (Inl _, L2) \<Rightarrow> (False, L2)
           | (Inr _, L2) \<Rightarrow> (True, L2)))"

definition restart_count :: "string \<Rightarrow> string \<Rightarrow> 'v lifecycle \<Rightarrow> int" where
  "restart_count sid name L =
     (case map_of (lm_restart_counts L) (sid, name) of None \<Rightarrow> 0 | Some n \<Rightarrow> n)"

definition set_restart_count :: "string \<Rightarrow> string \<Rightarrow> int \<Rightarrow> 'v lifecycle \<Rightarrow> 'v lifecycle" where
  "set_restart_count sid name n L =
     L\<lparr>lm_restart_counts := AList.update (sid, name) n (lm_restart_counts L)\<rparr>"

definition auto_restart :: "env \<Rightarrow> string \<Rightarrow> string \<Rightarrow> 'v lifecycle \<Rightarrow> 'v lifecycle" where
  "auto_restart e sid name L =
     (let count = restart_count sid name L + 1;
          L1 = set_restart_count sid name count L
      in if count > lm_max_restart_attempts L1 then emit_event EvError sid (Some name) False L1
         else
           (let (success, L2) = restart_subsystem e sid name L1;
                L3 = (if success then set_restart_count sid name 0 L2 else L2)
            in emit_event EvRestart sid (Some name) success L3))"

text \<open>
  The loop of \<open>_check_server_health\<close> over the instances listed at its start.  Each turn
  changes the instance of its own plugin only, so the state it reads is the listed one.
\<close>

fun check_instances ::
  "env \<Rightarrow> string \<Rightarrow> 'v instance_info list \<Rightarrow> 'v lifecycle \<Rightarrow> bool \<times> 'v lifecycle" where
  "check_instances e sid [] L = (True, L)"
| "check_instances e sid (info # infos) L =
     (if ii_state info \<notin> {RUNNING, DEGRADED} then check_instances e sid infos L
      else
        (let name = ii_plugin_name info in
         (case check_health name sid (e_health e name sid) (e_now e) (lm_registry L) of
            (Inl _, r1) \<Rightarrow> (False, snd (check_instances e sid infos (L\<lparr>lm_registry := r1\<rparr>)))
          | (Inr health, r1) \<Rightarrow>
              (let L1 = L\<lparr>lm_registry := r1\<rparr> in
               if health = UNHEALTHY
               then (False, snd (check_instances e sid infos
                       (if lm_auto_restart L1 then auto_restart e sid name L1 else L1)))
               else check_instances e sid infos L1))))"

definition check_server_health :: "env \<Rightarrow> string \<Rightarrow> 'v lifecycle \<Rightarrow> 'v lifecycle" where
  "check_server_health e sid L =
     (let (all_healthy, L1) = check_instances e sid (get_server_instances sid (lm_registry L)) L
      in modify_server sid (\<lambda>s. s\<lparr>se_healthy := Some all_healthy\<rparr>) L1)"

section \<open>Status\<close>

record global_status =
  gs_servers_total :: nat
  gs_running :: nat
  gs_stopped :: nat
  gs_degraded :: nat
  gs_error :: nat
  gs_plugins :: "string list"
  gs_instances_total :: nat
  gs_by_state :: "(plugin_state \<times> nat) list"
  gs_vfs_total :: nat
  gs_health_check_interval :: rat
  gs_auto_restart :: bool

definition all_plugin_states :: "plugin_state list" where
  "all_plugin_states = [UNINITIALIZED, INITIALIZING, RUNNING, DEGRADED, SHUTTING_DOWN, SHUTDOWN, ERROR]"

definition get_global_status :: "'v lifecycle \<Rightarrow> global_status" where
  "get_global_status L =
     (let servers = list_servers L;
          instances = list_instances (lm_registry L);
          in_state = (\<lambda>st. length (filter (\<lambda>s. si_state s = st) servers));
          by_state = filter (\<lambda>(st, n). n > 0)
            (map (\<lambda>st. (st, length (filter (\<lambda>i. ii_state i = st) instances))) all_plugin_states)
      in \<lparr>gs_servers_total = length servers, gs_running = in_state SrvRunning,
          gs_stopped = in_state SrvStopped, gs_degraded = in_state SrvDegraded,
          gs_error = in_state SrvError,
          gs_plugins = map pm_name (list_plugins (lm_registry L)),
          gs_instances_total = length instances, gs_by_state = by_state,
          gs_vfs_total = length (list_databases (lm_vfs L)),
          gs_health_check_interval = lm_health_check_interval L,
          gs_auto_restart = lm_auto_restart L\<rparr>)"

section \<open>Lemmas on the building blocks\<close>

lemma find_modify_server [simp]:
  "find_server k (modify_server sid f L) = (if k = sid then map_option f (find_server sid L) else find_server k L)"
  by (auto simp: modify_server_def find_server_def update_conv split: option.splits)

lemma modify_server_frame [simp]:
  "lm_registry (modify_server sid f L) = lm_registry L"
  "lm_vfs (modify_server sid f L) = lm_vfs L"
  "lm_health_tasks (modify_server sid f L) = lm_health_tasks L"
  "lm_restart_counts (modify_server sid f L) = lm_restart_counts L"
  "lm_auto_restart (modify_server sid f L) = lm_auto_restart L"
  "lm_max_restart_attempts (modify_server sid f L) = lm_max_restart_attempts L"
  "lm_events (modify_server sid f L) = lm_events L"
  by (simp_all add: modify_server_def split: option.splits)

lemma set_state_simps [simp]:
  "find_server k (set_state sid st L) =
     (if k = sid then map_option (\<lambda>s. s\<lparr>se_state := st\<rparr>) (find_server sid L) else find_server k L)"
  "lm_registry (set_state sid st L) = lm_registry L"
  "lm_vfs (set_state sid st L) = lm_vfs L"
  "lm_health_tasks (set_state sid st L) = lm_health_tasks L"
  "lm_restart_counts (set_state sid st L) = lm_restart_counts L"
  by (simp_all add: set_state_def)

lemma emit_event_simps [simp]:
  "find_server k (emit_event ty sid pl b L) = find_server k L"
  "lm_registry (emit_event ty sid pl b L) = lm_registry L"
  "lm_vfs (emit_event ty sid pl b L) = lm_vfs L"
  "lm_health_tasks (emit_event ty sid pl b L) = lm_health_tasks L"
  "lm_restart_counts (emit_event ty sid pl b L) = lm_restart_counts L"
  "lm_auto_restart (emit_event ty sid pl b L) = lm_auto_restart L"
  "lm_max_restart_attempts (emit_event ty sid pl b L) = lm_max_restart_attempts L"
  by (simp_all add: emit_event_def find_server_def)

lemma find_server_frame [simp]:
  "find_server k (L\<lparr>lm_registry := r\<rparr>) = find_server k L"
  "find_server k (L\<lparr>lm_vfs := m\<rparr>) = find_server k L"
  "find_server k (L\<lparr>lm_health_tasks := ts\<rparr>) = find_server k L"
  by (simp_all add: find_server_def)

lemma get_plugin_cases: "get_plugin name r = (if has_plugin name r then Inr (the (map_of (pr_plugins r) name)) else Inl PluginNotFoundError)"
  by (auto simp: get_plugin_def has_plugin_def)

text \<open>Starting one subsystem: which fields move, and the instance it leaves.\<close>

lemma start_subsystem_frame:
  assumes "start_subsystem e sid name L = (res, L')"
  shows "lm_servers L' = lm_servers L" "lm_health_tasks L' = lm_health_tasks L"
    "lm_restart_counts L' = lm_restart_counts L" "lm_auto_restart L' = lm_auto_restart L"
    "lm_max_restart_attempts L' = lm_max_restart_attempts L" "lm_events L' = lm_events L"
    "pr_plugins (lm_registry L') = pr_plugins (lm_registry L)"
    "pr_config (lm_registry L') = pr_config (lm_registry L)"
  using assms
  by (auto simp: start_subsystem_def init_subsystem_def get_plugin_cases init_enter_def init_leave_def
      split: prod.splits sum.splits if_splits option.splits hook_outcome.splits)

lemma start_subsystem_instances:
  assumes "start_subsystem e sid name L = (res, L')"
  shows "key \<noteq> (name, sid) \<Longrightarrow> find_instance key (lm_registry L') = find_instance key (lm_registry L)"
    and "res = Inr () \<Longrightarrow> \<exists>i. find_instance (name, sid) (lm_registry L') = Some i \<and> ii_state i = RUNNING"
    and "res = Inl err \<Longrightarrow> find_instance (name, sid) (lm_registry L) = Some i \<Longrightarrow> ii_state i = SHUTDOWN \<Longrightarrow>
           \<exists>i'. find_instance (name, sid) (lm_registry L') = Some i' \<and> ii_state i' \<in> {SHUTDOWN, ERROR}"
  using assms
  by (auto simp: start_subsystem_def init_subsystem_def get_plugin_cases init_enter_def init_leave_def
      split: prod.splits sum.splits if_splits option.splits hook_outcome.splits)

lemma start_all_frame:
  "(k \<noteq> sid \<longrightarrow> find_server k (snd (start_all e sid names L)) = find_server k L) \<and>
   lm_health_tasks (snd (start_all e sid names L)) = lm_health_tasks L"
proof (induction names arbitrary: L)
  case Nil
  then show ?case by simp
next
  case (Cons name names)
  obtain res L1 where s: "start_subsystem e sid name L = (res, L1)" by (cases "start_subsystem e sid name L")
  note fr = start_subsystem_frame(1,2) [OF s]
  have "find_server k L1 = find_server k L" using fr by (simp add: find_server_def)
  then show ?case using Cons.IH [of L1] s fr
      Cons.IH [of "modify_server sid (\<lambda>s. s\<lparr>se_error_count := se_error_count s + 1\<rparr>) L1"]
    by (cases res) auto
qed

lemma start_all_instances:
  "(key \<notin> (\<lambda>n. (n, sid)) ` set names \<longrightarrow>
      find_instance key (lm_registry (snd (start_all e sid names L))) = find_instance key (lm_registry L)) \<and>
   (distinct names \<and> fst (start_all e sid names L) \<longrightarrow>
      (\<forall>n\<in>set names. \<exists>i. find_instance (n, sid) (lm_registry (snd (start_all e sid names L))) = Some i \<and> ii_state i = RUNNING))"
proof (induction names arbitrary: L key)
  case Nil
  then show ?case by simp
next
  case (Cons name names)
  obtain res L1 where s: "start_subsystem e sid name L = (res, L1)" by (cases "start_subsystem e sid name L")
  note inst = start_subsystem_instances [OF s]
  show ?case
  proof (cases res)
    case (Inl err)
    then show ?thesis using s inst(1) Cons.IH by simp
  next
    case (Inr u)
    then show ?thesis using s inst(1,2) Cons.IH [of key L1] Cons.IH [of "(name, sid)" L1]
      by (auto split: prod.splits)
  qed
qed

text \<open>A loop that reports success has counted no error; one that fails has.\<close>

lemma start_all_errors:
  assumes "find_server sid L = Some s"
  shows "\<exists>s' k. find_server sid (snd (start_all e sid names L)) = Some s' \<and>
     se_error_count s' = se_error_count s + int k \<and> (k = 0 \<longleftrightarrow> fst (start_all e sid names L)) \<and> k \<le> length names"
  using assms
proof (induction names arbitrary: L s)
  case Nil
  then show ?case by auto
next
  case (Cons name names)
  obtain res L1 where st: "start_subsystem e sid name L = (res, L1)" by (cases "start_subsystem e sid name L")
  have f: "find_server sid L1 = Some s"
    using Cons.prems start_subsystem_frame(1) [OF st] by (simp add: find_server_def)
  show ?case
  proof (cases res)
    case (Inr u)
    obtain s' k where "find_server sid (snd (start_all e sid names L1)) = Some s'"
      "se_error_count s' = se_error_count s + int k" "k = 0 \<longleftrightarrow> fst (start_all e sid names L1)" "k \<le> length names"
      using Cons.IH [OF f] by blast
    then show ?thesis using st Inr by (intro exI [of _ s'] exI [of _ k]) simp
  next
    case (Inl err)
    let ?s = "s\<lparr>se_error_count := se_error_count s + 1\<rparr>"
    let ?L = "modify_server sid (\<lambda>s. s\<lparr>se_error_count := se_error_count s + 1\<rparr>) L1"
    have "find_server sid ?L = Some ?s" using f by simp
    from Cons.IH [OF this] obtain s' k where "find_server sid (snd (start_all e sid names ?L)) = Some s'"
      "se_error_count s' = se_error_count s + 1 + int k" "k \<le> length names" by auto
    then show ?thesis using st Inl by (intro exI [of _ s'] exI [of _ "Suc k"]) simp
  qed
qed

section \<open>Shutdown lemmas\<close>

text \<open>Records filed under their own names, as every reachable registry has them.\<close>

definition instances_keyed :: "'v registry \<Rightarrow> bool" where
  "instances_keyed r \<longleftrightarrow> distinct (map fst (pr_instances r)) \<and>
     (\<forall>(key, info)\<in>set (pr_instances r). ii_plugin_name info = fst key \<and> ii_server_id info = snd key)"

lemma registry_wf_keyed:
  assumes "registry_wf (r, cs)" shows "instances_keyed r"
proof -
  have d: "distinct (map fst (pr_instances r))" using assms by (simp add: registry_wf_def)
  have "ii_plugin_name info = fst key \<and> ii_server_id info = snd key" if "(key, info) \<in> set (pr_instances r)" for key info
    using assms that d by (cases key) (simp add: registry_wf_def instance_ok_def find_instance_def)
  then show ?thesis using d by (auto simp: instances_keyed_def)
qed

lemma server_instance_listed:
  assumes "instances_keyed r" "info \<in> set (get_server_instances sid r)"
  shows "find_instance (ii_plugin_name info, sid) r = Some info"
proof -
  obtain key where i: "(key, info) \<in> set (pr_instances r)" "snd key = sid"
    using assms(2) by (auto simp: get_server_instances_def)
  then have "key = (ii_plugin_name info, sid)" using assms(1) by (auto simp: instances_keyed_def)
  then show ?thesis using i assms(1) by (simp add: find_instance_def instances_keyed_def)
qed

lemma server_instances_distinct:
  assumes "instances_keyed r"
  shows "distinct (map ii_plugin_name (get_server_instances sid r))"
proof -
  let ?here = "filter (\<lambda>(key, info). snd key = sid) (pr_instances r)"
  have "map ii_plugin_name (get_server_instances sid r) = map (\<lambda>(key, info). fst key) ?here"
    using assms by (auto simp: instances_keyed_def get_server_instances_def)
  moreover have "distinct (map fst ?here)"
    using assms by (simp add: instances_keyed_def distinct_map_filter)
  then have "distinct (map (\<lambda>(key, info). fst key) ?here)"
    by (auto simp: distinct_map inj_on_def)
  ultimately show ?thesis by simp
qed

lemma find_instance_name:
  assumes "instances_keyed r" "find_instance (n, sid) r = Some info"
  shows "n \<in> set (map ii_plugin_name (get_server_instances sid r))"
proof -
  have i: "((n, sid), info) \<in> set (pr_instances r)"
    using assms(2) by (simp add: find_instance_def map_of_SomeD)
  then have "info \<in> set (get_server_instances sid r)"
    by (force simp: get_server_instances_def)
  moreover have "ii_plugin_name info = n" using assms(1) i by (auto simp: instances_keyed_def)
  ultimately show ?thesis by force
qed

definition stop_target :: "stop_outcome \<Rightarrow> plugin_state" where
  "stop_target out = (if out = StopTimesOut then SHUTTING_DOWN else SHUTDOWN)"

lemma stop_subsystem_effect:
  assumes "has_plugin name r" "find_instance (name, sid) r = Some info"
  shows "fst (stop_subsystem out name sid r) = (out \<noteq> StopTimesOut)"
    and "find_instance key (snd (stop_subsystem out name sid r)) =
      (if key = (name, sid) then Some (info\<lparr>ii_state := stop_target out\<rparr>) else find_instance key r)"
    and "pr_plugins (snd (stop_subsystem out name sid r)) = pr_plugins r"
  using assms
  by (auto simp: stop_subsystem_def shutdown_subsystem_def get_plugin_cases shutdown_enter_def
      shutdown_leave_def stop_target_def split: stop_outcome.split)

lemma stop_all_effect:
  "distinct names \<Longrightarrow> \<forall>n\<in>set names. has_plugin n r \<and> find_instance (n, sid) r \<noteq> None \<Longrightarrow>
   fst (stop_all e sid names r) = (\<forall>n\<in>set names. e_stop e n sid \<noteq> StopTimesOut) \<and>
   (\<forall>key. find_instance key (snd (stop_all e sid names r)) =
      (if key \<in> (\<lambda>n. (n, sid)) ` set names
       then map_option (\<lambda>i. i\<lparr>ii_state := stop_target (e_stop e (fst key) sid)\<rparr>) (find_instance key r)
       else find_instance key r))"
proof (induction names arbitrary: r)
  case Nil
  then show ?case by simp
next
  case (Cons name names)
  then obtain info where i: "find_instance (name, sid) r = Some info" "has_plugin name r" by auto
  let ?r = "snd (stop_subsystem (e_stop e name sid) name sid r)"
  note eff = stop_subsystem_effect [OF i(2,1), where out = "e_stop e name sid"]
  have "\<forall>n\<in>set names. has_plugin n ?r \<and> find_instance (n, sid) ?r \<noteq> None"
    using Cons.prems eff(2,3) by (auto simp: has_plugin_def)
  with Cons.IH [of ?r] Cons.prems have IH:
    "fst (stop_all e sid names ?r) = (\<forall>n\<in>set names. e_stop e n sid \<noteq> StopTimesOut)"
    "\<And>key. find_instance key (snd (stop_all e sid names ?r)) =
      (if key \<in> (\<lambda>n. (n, sid)) ` set names
       then map_option (\<lambda>i. i\<lparr>ii_state := stop_target (e_stop e (fst key) sid)\<rparr>) (find_instance key ?r)
       else find_instance key ?r)" by auto
  show ?case using IH eff(1,2) i Cons.prems(1) by (auto simp: split_beta)
qed

lemma remove_databases_effect:
  "map_of (vm_databases (remove_databases sid names m)) key =
     (if snd key = sid \<and> fst key \<in> set names then None else map_of (vm_databases m) key)"
proof (induction names arbitrary: m)
  case Nil
  then show ?case by simp
next
  case (Cons n names)
  have "map_of (vm_databases (snd (remove_database n sid m))) key =
      (if key = (n, sid) then None else map_of (vm_databases m) key)"
    by (auto simp: remove_database_def delete_conv split: option.splits)
  then show ?case using Cons.IH by (cases key) auto
qed

lemma shutdown_order_set:
  assumes "iterates it" "ns \<noteq> []" "distinct ns"
  shows "get_shutdown_order it (Some ns) r = Inr order \<Longrightarrow> distinct order \<and> set order = set ns"
    and "get_shutdown_order it (Some ns) r = Inr order \<or> get_shutdown_order it (Some ns) r = Inl PluginDependencyError
      \<Longrightarrow> \<forall>n\<in>set ns. has_plugin n r"
    and "(\<exists>n\<in>set ns. \<not> has_plugin n r) \<Longrightarrow> get_shutdown_order it (Some ns) r = Inl PluginNotFoundError"
proof -
  show "distinct order \<and> set order = set ns" if so: "get_shutdown_order it (Some ns) r = Inr order"
  proof -
    obtain up where "get_startup_order it (Some ns) r = Inr up" "order = rev up"
      using so by (auto simp: get_shutdown_order_def split: sum.splits)
    then show ?thesis using startup_order_sound(1,2) [OF assms(1), of "Some ns" r up]
      by (simp add: names_to_order_Some [OF assms(2)])
  qed
  show nf: "get_shutdown_order it (Some ns) r = Inl PluginNotFoundError" if "\<exists>n\<in>set ns. \<not> has_plugin n r"
    using that assms(2) unfolding get_shutdown_order_def get_startup_order_def
      names_to_order_def [symmetric] has_plugin_def by (simp add: names_to_order_Some)
  show "\<forall>n\<in>set ns. has_plugin n r"
    if "get_shutdown_order it (Some ns) r = Inr order \<or> get_shutdown_order it (Some ns) r = Inl PluginDependencyError"
  proof (rule ccontr)
    assume "\<not> ?thesis"
    then have "get_shutdown_order it (Some ns) r = Inl PluginNotFoundError" by (intro nf) blast
    with that show False by simp
  qed
qed

lemma shutdown_server_effect:
  assumes k: "instances_keyed (lm_registry L)" and it: "iterates (e_it e)"
    and res: "shutdown_server e sid L = (Inr b, L')"
    and inst: "find_instance (n, sid) (lm_registry L) = Some info"
  shows "find_instance (n, sid) (lm_registry L') = Some (info\<lparr>ii_state := stop_target (e_stop e n sid)\<rparr>)"
    and "map_of (vm_databases (lm_vfs L')) (n, sid) = None"
    and "b \<Longrightarrow> e_stop e n sid \<noteq> StopTimesOut"
proof -
  let ?ns = "map ii_plugin_name (get_server_instances sid (lm_registry L))"
  have n: "n \<in> set ?ns" using find_instance_name [OF k inst] .
  then have ne: "?ns \<noteq> []" by auto
  have d: "distinct ?ns" by (rule server_instances_distinct [OF k])
  note so = shutdown_order_set [OF it ne d, of "lm_registry L"]
  have fi: "\<forall>m\<in>set ?ns. find_instance (m, sid) (lm_registry L) \<noteq> None"
    using server_instance_listed [OF k] by force
  obtain s where s: "find_server sid L = Some s" using res
    by (auto simp: shutdown_server_def split: option.splits)
  obtain order where o: "distinct order" "set order = set ?ns" "\<forall>m\<in>set ?ns. has_plugin m (lm_registry L)"
    and b: "b = fst (stop_all e sid order (lm_registry L))"
    and L': "lm_registry L' = snd (stop_all e sid order (lm_registry L))"
      "lm_vfs L' = remove_databases sid ?ns (lm_vfs L)"
  proof (cases "get_shutdown_order (e_it e) (Some ?ns) (lm_registry L)")
    case (Inl err)
    then have "err = PluginDependencyError" using res s ne
      by (auto simp: shutdown_server_def split: plugin_error.splits)
    with Inl show ?thesis using res s ne d so(2)
      by (intro that [of "rev ?ns"]) (auto simp: shutdown_server_def split: prod.splits)
  next
    case (Inr order)
    then show ?thesis using res s ne so(1,2)
      by (intro that [of order]) (auto simp: shutdown_server_def split: prod.splits)
  qed
  from stop_all_effect [OF o(1), of "lm_registry L" sid e] o(2,3) fi
  have eff: "fst (stop_all e sid order (lm_registry L)) = (\<forall>n\<in>set order. e_stop e n sid \<noteq> StopTimesOut)"
    "find_instance (n, sid) (snd (stop_all e sid order (lm_registry L))) =
       Some (info\<lparr>ii_state := stop_target (e_stop e n sid)\<rparr>)"
    using n inst by auto
  show "find_instance (n, sid) (lm_registry L') = Some (info\<lparr>ii_state := stop_target (e_stop e n sid)\<rparr>)"
    using eff(2) L'(1) by simp
  show "map_of (vm_databases (lm_vfs L')) (n, sid) = None"
    using L'(2) n by (simp add: remove_databases_effect del: set_map)
  show "b \<Longrightarrow> e_stop e n sid \<noteq> StopTimesOut" using b eff(1) o(2) n by (simp del: set_map)
qed

section \<open>Automatic restart\<close>

definition active :: "string \<Rightarrow> string \<Rightarrow> 'v lifecycle \<Rightarrow> bool" where
  "active sid name L =
     (case find_instance (name, sid) (lm_registry L) of
        None \<Rightarrow> False | Some i \<Rightarrow> ii_state i \<in> {RUNNING, DEGRADED})"

text \<open>
  A plugin's restart count is at most one, and one only when its instance no longer runs.
\<close>

definition restarts_settled :: "string \<Rightarrow> 'v lifecycle \<Rightarrow> bool" where
  "restarts_settled sid L \<longleftrightarrow>
     (\<forall>name. restart_count sid name L \<in> {0, 1} \<and> (restart_count sid name L = 1 \<longrightarrow> \<not> active sid name L))"

lemma restart_count_simps [simp]:
  "restart_count sid name (set_restart_count sid' name' n L) =
     (if (sid, name) = (sid', name') then n else restart_count sid name L)"
  "restart_count sid name (L\<lparr>lm_registry := r\<rparr>) = restart_count sid name L"
  "restart_count sid name (emit_event ty sid' pl b L) = restart_count sid name L"
  "restart_count sid name (modify_server sid' f L) = restart_count sid name L"
  by (auto simp: restart_count_def set_restart_count_def update_conv)

lemma set_restart_count_frame [simp]:
  "lm_registry (set_restart_count sid name n L) = lm_registry L"
  "lm_max_restart_attempts (set_restart_count sid name n L) = lm_max_restart_attempts L"
  "lm_auto_restart (set_restart_count sid name n L) = lm_auto_restart L"
  "lm_events (set_restart_count sid name n L) = lm_events L"
  by (simp_all add: set_restart_count_def)

lemma restart_subsystem_effect:
  assumes "has_plugin name (lm_registry L)" "find_instance (name, sid) (lm_registry L) \<noteq> None"
    and "restart_subsystem e sid name L = (b, L')"
  shows "lm_restart_counts L' = lm_restart_counts L" "lm_max_restart_attempts L' = lm_max_restart_attempts L"
    "lm_events L' = lm_events L"
    and "key \<noteq> (name, sid) \<Longrightarrow> find_instance key (lm_registry L') = find_instance key (lm_registry L)"
    and "\<not> b \<Longrightarrow> \<not> active sid name L'"
proof -
  obtain info where i: "find_instance (name, sid) (lm_registry L) = Some info" using assms(2) by blast
  let ?r = "shutdown_leave name sid (set_instance (name, sid) (info\<lparr>ii_state := SHUTTING_DOWN\<rparr>) (lm_registry L))"
  have sh: "shutdown_subsystem name sid HookReturns (lm_registry L) = (Inr (), ?r)"
    using assms(1) i by (simp add: shutdown_subsystem_def get_plugin_cases shutdown_enter_def)
  obtain res L2 where st: "start_subsystem e sid name (L\<lparr>lm_registry := ?r\<rparr>) = (res, L2)"
    by (cases "start_subsystem e sid name (L\<lparr>lm_registry := ?r\<rparr>)")
  have bl: "b = (\<exists>u. res = Inr u)" "L' = L2" using assms(3) sh st
    by (auto simp: restart_subsystem_def split: sum.splits)
  note fr = start_subsystem_frame [OF st] and ins = start_subsystem_instances [OF st]
  show "lm_restart_counts L' = lm_restart_counts L" "lm_max_restart_attempts L' = lm_max_restart_attempts L"
    "lm_events L' = lm_events L"
    using fr(3,5,6) bl(2) by simp_all
  show "key \<noteq> (name, sid) \<Longrightarrow> find_instance key (lm_registry L') = find_instance key (lm_registry L)"
    using ins(1) [of key] bl(2) by (simp add: shutdown_leave_def)
  show "\<not> b \<Longrightarrow> \<not> active sid name L'"
  proof -
    assume "\<not> b"
    then obtain err where "res = Inl err" using bl by (cases res) auto
    moreover have "find_instance (name, sid) ?r = Some (info\<lparr>ii_state := SHUTDOWN\<rparr>)"
      by (simp add: shutdown_leave_def)
    ultimately show ?thesis using ins(3) [of err "info\<lparr>ii_state := SHUTDOWN\<rparr>"] bl(2)
      by (auto simp: active_def)
  qed
qed

text \<open>One automatic restart of an active instance whose count is zero.\<close>

lemma auto_restart_effect:
  assumes "has_plugin name (lm_registry L)" "find_instance (name, sid) (lm_registry L) \<noteq> None"
    and "restart_count sid name L = 0" "1 \<le> lm_max_restart_attempts L"
  shows "lm_max_restart_attempts (auto_restart e sid name L) = lm_max_restart_attempts L"
    and "key \<noteq> (name, sid) \<Longrightarrow>
      find_instance key (lm_registry (auto_restart e sid name L)) = find_instance key (lm_registry L)"
    and "n \<noteq> name \<Longrightarrow> restart_count sid n (auto_restart e sid name L) = restart_count sid n L"
    and "restart_count sid name (auto_restart e sid name L) \<in> {0, 1}"
    and "restart_count sid name (auto_restart e sid name L) = 1 \<longrightarrow> \<not> active sid name (auto_restart e sid name L)"
    and "\<exists>b. lm_events (auto_restart e sid name L) = lm_events L @
      [\<lparr>ev_type = EvRestart, ev_server_id = sid, ev_plugin_name = Some name, ev_success = b\<rparr>]"
proof -
  let ?L1 = "set_restart_count sid name 1 L"
  obtain b L2 where r: "restart_subsystem e sid name ?L1 = (b, L2)" by (cases "restart_subsystem e sid name ?L1")
  have p: "has_plugin name (lm_registry ?L1)" "find_instance (name, sid) (lm_registry ?L1) \<noteq> None"
    using assms(1,2) by simp_all
  note eff = restart_subsystem_effect [OF p r]
  have eq: "auto_restart e sid name L =
      emit_event EvRestart sid (Some name) b (if b then set_restart_count sid name 0 L2 else L2)"
    using assms(3,4) r by (simp add: auto_restart_def)
  have c2: "restart_count sid n L2 = (if n = name then 1 else restart_count sid n L)" for n
    using eff(1) by (simp add: restart_count_def set_restart_count_def update_conv)
  show "lm_max_restart_attempts (auto_restart e sid name L) = lm_max_restart_attempts L"
    using eq eff(2) by simp
  show "key \<noteq> (name, sid) \<Longrightarrow>
      find_instance key (lm_registry (auto_restart e sid name L)) = find_instance key (lm_registry L)"
    using eq eff(4) [of key] by simp
  show "n \<noteq> name \<Longrightarrow> restart_count sid n (auto_restart e sid name L) = restart_count sid n L"
    using eq c2 by simp
  show "restart_count sid name (auto_restart e sid name L) \<in> {0, 1}" using eq c2 by simp
  show "restart_count sid name (auto_restart e sid name L) = 1 \<longrightarrow> \<not> active sid name (auto_restart e sid name L)"
    using eq c2 eff(5) by (auto simp: active_def)
  show "\<exists>b. lm_events (auto_restart e sid name L) = lm_events L @
      [\<lparr>ev_type = EvRestart, ev_server_id = sid, ev_plugin_name = Some name, ev_success = b\<rparr>]"
    using eq eff(3) by (auto simp: emit_event_def)
qed

definition no_give_up :: "lifecycle_event list \<Rightarrow> bool" where
  "no_give_up evs \<longleftrightarrow> (\<forall>ev\<in>set evs. ev_type ev \<noteq> EvError)"

text \<open>The instances still to be checked are as listed.\<close>

definition listed_now :: "string \<Rightarrow> 'v instance_info list \<Rightarrow> 'v lifecycle \<Rightarrow> bool" where
  "listed_now sid infos L \<longleftrightarrow> distinct (map ii_plugin_name infos) \<and>
     (\<forall>i\<in>set infos. find_instance (ii_plugin_name i, sid) (lm_registry L) = Some i)"

lemma health_leave_effect:
  assumes "find_instance (name, sid) r = Some info" "ii_state info \<in> {RUNNING, DEGRADED}"
  shows "\<exists>i. find_instance (name, sid) (health_leave name sid h now r) = Some i \<and> ii_state i \<in> {RUNNING, DEGRADED}"
    and "key \<noteq> (name, sid) \<Longrightarrow> find_instance key (health_leave name sid h now r) = find_instance key r"
    and "has_plugin n (health_leave name sid h now r) = has_plugin n r"
  using assms by (auto simp: health_leave_def has_plugin_def)

lemma check_instances_settled:
  "listed_now sid infos L \<Longrightarrow> restarts_settled sid L \<Longrightarrow> 1 \<le> lm_max_restart_attempts L \<Longrightarrow>
   no_give_up (lm_events L) \<Longrightarrow>
   restarts_settled sid (snd (check_instances e sid infos L)) \<and>
   lm_max_restart_attempts (snd (check_instances e sid infos L)) = lm_max_restart_attempts L \<and>
   no_give_up (lm_events (snd (check_instances e sid infos L)))"
proof (induction infos arbitrary: L)
  case Nil
  then show ?case by simp
next
  case (Cons info infos)
  let ?name = "ii_plugin_name info"
  have i: "find_instance (?name, sid) (lm_registry L) = Some info"
    and rest: "listed_now sid infos L" "?name \<notin> ii_plugin_name ` set infos"
    using Cons.prems(1) by (auto simp: listed_now_def)
  have keep: "listed_now sid infos L'"
    if "\<And>key. key \<noteq> (?name, sid) \<Longrightarrow> find_instance key (lm_registry L') = find_instance key (lm_registry L)" for L'
  proof -
    have "(ii_plugin_name j, sid) \<noteq> (?name, sid)" if "j \<in> set infos" for j using rest(2) that
      by (metis image_eqI prod.inject)
    then show ?thesis using rest(1) that by (simp add: listed_now_def)
  qed
  consider "ii_state info \<notin> {RUNNING, DEGRADED}" | "\<not> has_plugin ?name (lm_registry L)" "ii_state info \<in> {RUNNING, DEGRADED}"
    | "has_plugin ?name (lm_registry L)" "ii_state info \<in> {RUNNING, DEGRADED}" by blast
  then show ?case
  proof cases
    case 1
    then show ?thesis using Cons rest(1) by simp
  next
    case 2
    then show ?thesis using Cons rest(1) by (simp add: check_health_def get_plugin_cases)
  next
    case 3
    let ?h = "case e_health e ?name sid of Some h \<Rightarrow> h | None \<Rightarrow> UNHEALTHY"
    let ?r = "health_leave ?name sid ?h (e_now e) (lm_registry L)"
    let ?L1 = "L\<lparr>lm_registry := ?r\<rparr>"
    have ch: "check_health ?name sid (e_health e ?name sid) (e_now e) (lm_registry L) = (Inr ?h, ?r)"
      using 3(1) i by (simp add: check_health_def get_plugin_cases)
    note hl = health_leave_effect [OF i 3(2), where h = ?h and now = "e_now e"]
    have zero: "restart_count sid ?name L = 0"
      using Cons.prems(2) 3(2) i by (auto simp: restarts_settled_def active_def)
    have act: "active sid n ?L1 = active sid n L" if "n \<noteq> ?name" for n
      using hl(2) [of "(n, sid)"] that by (simp add: active_def)
    have s1: "restarts_settled sid ?L1"
      unfolding restarts_settled_def
    proof
      fix n
      show "restart_count sid n ?L1 \<in> {0, 1} \<and> (restart_count sid n ?L1 = 1 \<longrightarrow> \<not> active sid n ?L1)"
        using Cons.prems(2) zero act [of n] by (cases "n = ?name") (auto simp: restarts_settled_def)
    qed
    have l1: "listed_now sid infos ?L1" by (rule keep) (simp add: hl(2))
    let ?L2 = "if ?h = UNHEALTHY \<and> lm_auto_restart L then auto_restart e sid ?name ?L1 else ?L1"
    have L2: "restarts_settled sid ?L2 \<and> listed_now sid infos ?L2 \<and>
        lm_max_restart_attempts ?L2 = lm_max_restart_attempts L \<and> no_give_up (lm_events ?L2)"
    proof (cases "?h = UNHEALTHY \<and> lm_auto_restart L")
      case False
      then show ?thesis using s1 l1 Cons.prems(4) by auto
    next
      case True
      have pre: "has_plugin ?name (lm_registry ?L1)" "find_instance (?name, sid) (lm_registry ?L1) \<noteq> None"
        "restart_count sid ?name ?L1 = 0" "1 \<le> lm_max_restart_attempts ?L1"
        using hl(1,3) 3(1) zero Cons.prems(3) by auto
      note ar = auto_restart_effect [OF pre, where e = e]
      have "restarts_settled sid (auto_restart e sid ?name ?L1)"
        unfolding restarts_settled_def
      proof
        fix n
        show "restart_count sid n (auto_restart e sid ?name ?L1) \<in> {0, 1} \<and>
            (restart_count sid n (auto_restart e sid ?name ?L1) = 1 \<longrightarrow> \<not> active sid n (auto_restart e sid ?name ?L1))"
        proof (cases "n = ?name")
          case True
          then show ?thesis using ar(4,5) by simp
        next
          case False
          then have "active sid n (auto_restart e sid ?name ?L1) = active sid n ?L1"
            using ar(2) [of "(n, sid)"] by (simp add: active_def)
          then show ?thesis using False ar(3) [of n] s1 by (simp add: restarts_settled_def)
        qed
      qed
      moreover have "listed_now sid infos (auto_restart e sid ?name ?L1)"
        using ar(2) hl(2) by (intro keep) simp
      moreover have "no_give_up (lm_events (auto_restart e sid ?name ?L1))"
        using ar(6) Cons.prems(4) by (auto simp: no_give_up_def)
      ultimately show ?thesis using True ar(1) by simp
    qed
    have "snd (check_instances e sid (info # infos) L) = snd (check_instances e sid infos ?L2)"
      using 3(2) ch by simp
    then show ?thesis using Cons.IH [of ?L2] L2 Cons.prems(3) by simp
  qed
qed


section \<open>Records stay filed under their names\<close>

lemma keyed_set_instance:
  assumes "instances_keyed r" "ii_plugin_name i = fst key" "ii_server_id i = snd key"
  shows "instances_keyed (set_instance key i r)"
  using assms set_update_subset [of key i "pr_instances r"]
  by (auto simp: instances_keyed_def set_instance_def distinct_update)

lemma keyed_found:
  "instances_keyed r \<Longrightarrow> find_instance key r = Some i \<Longrightarrow> ii_plugin_name i = fst key \<and> ii_server_id i = snd key"
  by (auto simp: instances_keyed_def find_instance_def dest: map_of_SomeD)

lemma keyed_modify_instance:
  assumes "instances_keyed r" "\<And>i. ii_plugin_name (f i) = ii_plugin_name i \<and> ii_server_id (f i) = ii_server_id i"
  shows "instances_keyed (modify_instance key f r)"
  using assms keyed_found [OF assms(1), of key]
  by (auto simp: modify_instance_def intro!: keyed_set_instance split: option.splits)

lemma keyed_critical_sections:
  assumes "instances_keyed r"
  shows "init_enter name sid cfg r = Inr r1 \<Longrightarrow> instances_keyed r1"
    and "instances_keyed (init_leave name sid out now r)"
    and "shutdown_enter name sid r = Inr r1 \<Longrightarrow> instances_keyed r1"
    and "instances_keyed (shutdown_leave name sid r)"
    and "instances_keyed (health_leave name sid h now r)"
proof -
  show "instances_keyed r1" if "init_enter name sid cfg r = Inr r1"
  proof -
    have "r1 = set_instance (name, sid) (new_instance_info name sid INITIALIZING (case cfg of None \<Rightarrow> [] | Some c \<Rightarrow> c)) r"
      using that by (auto simp: init_enter_def split: option.splits if_splits)
    then show ?thesis using assms by (simp add: keyed_set_instance new_instance_info_def)
  qed
  show "instances_keyed (init_leave name sid out now r)"
    using assms by (auto simp: init_leave_def intro!: keyed_modify_instance split: hook_outcome.splits)
  show "instances_keyed r1" if "shutdown_enter name sid r = Inr r1"
    using that assms keyed_found [OF assms]
    by (auto simp: shutdown_enter_def intro!: keyed_set_instance split: option.splits)
  show "instances_keyed (shutdown_leave name sid r)"
    using assms by (auto simp: shutdown_leave_def intro!: keyed_modify_instance)
  show "instances_keyed (health_leave name sid h now r)"
    using assms by (auto simp: health_leave_def intro!: keyed_modify_instance)
qed

lemma keyed_registry_ops:
  assumes "instances_keyed r"
  shows "instances_keyed (snd (init_subsystem name sid cfg out now r))"
    and "instances_keyed (snd (shutdown_subsystem name sid out r))"
    and "instances_keyed (snd (check_health name sid ans now r))"
    and "instances_keyed (snd (stop_subsystem stop name sid r))"
proof -
  note cs = keyed_critical_sections
  show "instances_keyed (snd (init_subsystem name sid cfg out now r))"
  proof (cases "has_plugin name r \<and> (\<exists>r1. init_enter name sid cfg r = Inr r1)")
    case True
    then obtain r1 where r1: "init_enter name sid cfg r = Inr r1" by blast
    then have "snd (init_subsystem name sid cfg out now r) = init_leave name sid out now r1"
      using True by (simp add: init_subsystem_def get_plugin_cases split: option.split hook_outcome.split)
    then show ?thesis using cs(2) [OF cs(1) [OF assms r1]] by simp
  next
    case False
    then have "snd (init_subsystem name sid cfg out now r) = r"
      by (cases "init_enter name sid cfg r") (auto simp: init_subsystem_def get_plugin_cases)
    then show ?thesis using assms by simp
  qed
  show sh: "instances_keyed (snd (shutdown_subsystem name sid out r))" for out
    using assms cs(3) [OF assms, of name sid]
    by (cases "shutdown_enter name sid r") (simp_all add: shutdown_subsystem_def get_plugin_cases cs(4))
  show "instances_keyed (snd (check_health name sid ans now r))"
    using assms by (simp add: check_health_def get_plugin_cases cs(5))
  show "instances_keyed (snd (stop_subsystem stop name sid r))"
  proof (cases "stop = StopTimesOut")
    case True
    then show ?thesis using assms
      by (cases "shutdown_enter name sid r") (simp_all add: stop_subsystem_def get_plugin_cases cs(3))
  next
    case False
    then have "snd (stop_subsystem stop name sid r) = snd (shutdown_subsystem name sid HookReturns r)"
      by (cases stop) (simp_all add: stop_subsystem_def split: prod.split sum.split)
    then show ?thesis using sh by simp
  qed
qed

lemma keyed_stop_all: "instances_keyed r \<Longrightarrow> instances_keyed (snd (stop_all e sid names r))"
  by (induction names arbitrary: r) (auto simp: split_beta keyed_registry_ops)

lemma keyed_start_subsystem:
  assumes "instances_keyed (lm_registry L)"
  shows "instances_keyed (lm_registry (snd (start_subsystem e sid name L)))"
proof -
  have "instances_keyed (snd (init_subsystem name sid cfg (e_init e name sid) (e_now e) (lm_registry L)))" for cfg
    using keyed_registry_ops(1) [OF assms] .
  then show ?thesis using assms
    by (auto simp: start_subsystem_def get_plugin_cases split: prod.splits sum.splits)
       (metis snd_conv)+
qed

lemma keyed_start_all:
  "instances_keyed (lm_registry L) \<Longrightarrow> instances_keyed (lm_registry (snd (start_all e sid names L)))"
proof (induction names arbitrary: L)
  case Nil
  then show ?case by simp
next
  case (Cons name names)
  then show ?case using keyed_start_subsystem [OF Cons.prems, of e sid name]
    by (auto split: prod.splits sum.splits)
qed

lemma keyed_start_server:
  "instances_keyed (lm_registry L) \<Longrightarrow> instances_keyed (lm_registry (snd (start_server e sid L)))"
  using keyed_start_all [of "set_state sid SrvStarting L" e sid]
  by (auto simp: start_server_def split: option.splits prod.splits sum.splits plugin_error.splits) (metis snd_conv)+

lemma keyed_shutdown_server:
  "instances_keyed (lm_registry L) \<Longrightarrow> instances_keyed (lm_registry (snd (shutdown_server e sid L)))"
  using keyed_stop_all [of "lm_registry L" e sid]
  by (auto simp: shutdown_server_def split: option.splits prod.splits sum.splits plugin_error.splits) (metis snd_conv)+

lemma keyed_auto_restart:
  assumes "instances_keyed (lm_registry L)"
  shows "instances_keyed (lm_registry (auto_restart e sid name L))"
proof -
  have "instances_keyed (lm_registry (snd (restart_subsystem e sid name (set_restart_count sid name n L))))" for n
  proof -
    let ?sh = "shutdown_subsystem name sid HookReturns (lm_registry L)"
    have r1: "instances_keyed (snd ?sh)" by (rule keyed_registry_ops(2) [OF assms])
    have "instances_keyed (lm_registry (snd (start_subsystem e sid name ((set_restart_count sid name n L)\<lparr>lm_registry := snd ?sh\<rparr>))))"
      by (rule keyed_start_subsystem) (simp add: r1)
    then show ?thesis using r1 by (auto simp: restart_subsystem_def split: prod.splits sum.splits)
  qed
  then show ?thesis using assms by (auto simp: auto_restart_def split: prod.splits) (metis snd_conv)+
qed

lemma keyed_check_instances:
  "instances_keyed (lm_registry L) \<Longrightarrow> instances_keyed (lm_registry (snd (check_instances e sid infos L)))"
proof (induction infos arbitrary: L)
  case Nil
  then show ?case by simp
next
  case (Cons info infos)
  let ?n = "ii_plugin_name info"
  let ?c = "check_health ?n sid (e_health e ?n sid) (e_now e) (lm_registry L)"
  let ?L1 = "L\<lparr>lm_registry := snd ?c\<rparr>"
  have "instances_keyed (snd ?c)" by (rule keyed_registry_ops(3) [OF Cons.prems])
  then have k: "instances_keyed (lm_registry ?L1)" by simp
  note ar = keyed_auto_restart [OF k, of e sid ?n]
  obtain res r1 where c: "?c = (res, r1)" by (cases ?c)
  show ?case
  proof (cases "ii_state info \<in> {RUNNING, DEGRADED}")
    case False
    then show ?thesis using Cons by simp
  next
    case True
    show ?thesis
    proof (cases res)
      case (Inl err)
      then show ?thesis using True c k Cons.IH by simp
    next
      case (Inr health)
      show ?thesis
      proof (cases "health = UNHEALTHY")
        case True
        then show ?thesis using \<open>ii_state info \<in> {RUNNING, DEGRADED}\<close> Inr c k ar Cons.IH by simp
      next
        case False
        then show ?thesis using \<open>ii_state info \<in> {RUNNING, DEGRADED}\<close> Inr c k Cons.IH [of ?L1] by simp
      qed
    qed
  qed
qed


section \<open>The manager as a step relation\<close>

text \<open>
  One completed call of the manager, one round of a live health task, or a change of the
  registry's plugins from outside.
\<close>

inductive lm_step :: "'v lifecycle \<Rightarrow> 'v lifecycle \<Rightarrow> bool" where
  ls_register: "lm_step L (snd (register_server sid dn config L))"
| ls_unregister: "lm_step L (snd (unregister_server sid L))"
| ls_config: "lm_step L (snd (update_server_config sid cfg L))"
| ls_start: "lm_step L (snd (start_server e sid L))"
| ls_shutdown: "lm_step L (snd (shutdown_server e sid L))"
| ls_restart: "lm_step L (snd (restart_server e1 e2 sid L))"
| ls_restart_subsystem: "lm_step L (snd (restart_subsystem e sid name L))"
| ls_health: "sid \<in> set (lm_health_tasks L) \<Longrightarrow> lm_step L (check_server_health e sid L)"
| ls_plugin: "lm_step L (L\<lparr>lm_registry := snd (register cls (lm_registry L))\<rparr>)"
| ls_unplug: "lm_step L (L\<lparr>lm_registry := snd (unregister name (lm_registry L))\<rparr>)"

inductive lm_reachable :: "'v lifecycle \<Rightarrow> bool" where
  lr_new: "lm_reachable (new_lifecycle new_registry vfs interval auto most)"
| lr_step: "lm_reachable L \<Longrightarrow> lm_step L L' \<Longrightarrow> lm_reachable L'"

definition polled_servers_up :: "'v lifecycle \<Rightarrow> bool" where
  "polled_servers_up L \<longleftrightarrow>
     (\<forall>sid\<in>set (lm_health_tasks L). \<exists>s. find_server sid L = Some s \<and> se_state s \<notin> {SrvStopped, SrvStopping})"

lemma polled_servers_up_frame:
  assumes "polled_servers_up L" "lm_health_tasks L' = lm_health_tasks L"
    and "\<And>sid. map_option se_state (find_server sid L') = map_option se_state (find_server sid L)"
  shows "polled_servers_up L'"
  unfolding polled_servers_up_def assms(2)
proof
  fix sid assume "sid \<in> set (lm_health_tasks L)"
  then obtain s where "find_server sid L = Some s" "se_state s \<notin> {SrvStopped, SrvStopping}"
    using assms(1) by (auto simp: polled_servers_up_def)
  then show "\<exists>s. find_server sid L' = Some s \<and> se_state s \<notin> {SrvStopped, SrvStopping}"
    using assms(3) [of sid] by (auto simp: map_option_case split: option.splits)
qed

lemma polled_servers_up_registry [simp]: "polled_servers_up (L\<lparr>lm_registry := r\<rparr>) = polled_servers_up L"
  by (simp add: polled_servers_up_def)

lemma restart_subsystem_frame:
  "lm_servers (snd (restart_subsystem e sid name L)) = lm_servers L \<and>
   lm_health_tasks (snd (restart_subsystem e sid name L)) = lm_health_tasks L"
proof -
  obtain x r where sh: "shutdown_subsystem name sid HookReturns (lm_registry L) = (x, r)"
    by (cases "shutdown_subsystem name sid HookReturns (lm_registry L)")
  obtain y L2 where st: "start_subsystem e sid name (L\<lparr>lm_registry := r\<rparr>) = (y, L2)"
    by (cases "start_subsystem e sid name (L\<lparr>lm_registry := r\<rparr>)")
  show ?thesis using sh st start_subsystem_frame(1,2) [OF st]
    by (cases x; cases y) (simp_all add: restart_subsystem_def)
qed

lemma check_instances_frame:
  "lm_servers (snd (check_instances e sid infos L)) = lm_servers L \<and>
   lm_health_tasks (snd (check_instances e sid infos L)) = lm_health_tasks L"
proof (induction infos arbitrary: L)
  case Nil
  then show ?case by simp
next
  case (Cons info infos)
  let ?n = "ii_plugin_name info"
  obtain res r1 where c: "check_health ?n sid (e_health e ?n sid) (e_now e) (lm_registry L) = (res, r1)"
    by (cases "check_health ?n sid (e_health e ?n sid) (e_now e) (lm_registry L)")
  let ?L1 = "L\<lparr>lm_registry := r1\<rparr>"
  have ar: "lm_servers (auto_restart e sid ?n ?L1) = lm_servers L \<and>
      lm_health_tasks (auto_restart e sid ?n ?L1) = lm_health_tasks L"
    using restart_subsystem_frame [of e sid ?n "set_restart_count sid ?n (restart_count sid ?n ?L1 + 1) ?L1"]
    by (simp add: auto_restart_def emit_event_def set_restart_count_def split_beta)
  show ?case
    using Cons.IH [of L] Cons.IH [of ?L1] Cons.IH [of "auto_restart e sid ?n ?L1"] c ar
    by (cases res) simp_all
qed

lemma find_server_ext: "lm_servers L' = lm_servers L \<Longrightarrow> find_server sid L' = find_server sid L"
  by (simp add: find_server_def)

lemma polled_start_server:
  assumes "polled_servers_up L" shows "polled_servers_up (snd (start_server e sid L))"
proof (cases "find_server sid L")
  case None
  then show ?thesis using assms by (simp add: start_server_def)
next
  case (Some s)
  let ?L1 = "set_state sid SrvStarting L"
  let ?out = "snd (start_server e sid L)"
  have other: "k \<noteq> sid \<Longrightarrow> find_server k ?out = find_server k L" for k
    using Some start_all_frame [of k sid e _ ?L1]
    by (auto simp: start_server_def split_beta split: sum.split plugin_error.split)
  have tasks: "set (lm_health_tasks ?out) \<subseteq> insert sid (set (lm_health_tasks L))"
    using Some start_all_frame [of sid sid e _ ?L1]
    by (auto simp: start_server_def split_beta split: sum.split plugin_error.split)
  have "\<exists>s. find_server sid (snd (start_all e sid names ?L1)) = Some s" for names
    using start_all_errors [of sid ?L1 "s\<lparr>se_state := SrvStarting\<rparr>" e names] Some by auto
  then obtain f where "\<And>names. find_server sid (snd (start_all e sid names ?L1)) = Some (f names)" by metis
  then have own: "\<exists>s. find_server sid ?out = Some s \<and> se_state s \<notin> {SrvStopped, SrvStopping}"
    using Some by (auto simp: start_server_def split_beta split: sum.split plugin_error.split)
  show ?thesis unfolding polled_servers_up_def
  proof
    fix k assume "k \<in> set (lm_health_tasks ?out)"
    then show "\<exists>s. find_server k ?out = Some s \<and> se_state s \<notin> {SrvStopped, SrvStopping}"
      using own other [of k] tasks assms by (cases "k = sid") (auto simp: polled_servers_up_def)
  qed
qed

lemma polled_shutdown_server:
  assumes "polled_servers_up L" shows "polled_servers_up (snd (shutdown_server e sid L))"
proof (cases "find_server sid L")
  case None
  then show ?thesis using assms by (simp add: shutdown_server_def)
next
  case (Some s)
  let ?out = "snd (shutdown_server e sid L)"
  have "lm_health_tasks ?out = removeAll sid (lm_health_tasks L)"
    using Some by (simp add: shutdown_server_def split_beta split: sum.split plugin_error.split)
  moreover have "k \<noteq> sid \<Longrightarrow> find_server k ?out = find_server k L" for k
    using Some by (simp add: shutdown_server_def split_beta split: sum.split plugin_error.split)
  ultimately show ?thesis using assms by (auto simp: polled_servers_up_def)
qed


definition lm_invariant :: "'v lifecycle \<Rightarrow> bool" where
  "lm_invariant L \<longleftrightarrow> polled_servers_up L \<and> instances_keyed (lm_registry L)"

lemma keyed_plugin_changes:
  assumes "instances_keyed r"
  shows "instances_keyed (snd (register cls r))" "instances_keyed (snd (unregister name r))"
  using assms by (auto simp: instances_keyed_def register_def unregister_def split: option.splits sum.splits)

lemma keyed_check_server_health:
  "instances_keyed (lm_registry L) \<Longrightarrow> instances_keyed (lm_registry (check_server_health e sid L))"
  using keyed_check_instances [of L e sid] by (simp add: check_server_health_def split_beta)

lemma keyed_restart_subsystem:
  assumes "instances_keyed (lm_registry L)"
  shows "instances_keyed (lm_registry (snd (restart_subsystem e sid name L)))"
proof -
  obtain x r where sh: "shutdown_subsystem name sid HookReturns (lm_registry L) = (x, r)"
    by (cases "shutdown_subsystem name sid HookReturns (lm_registry L)")
  have r: "instances_keyed r" using keyed_registry_ops(2) [OF assms, of name sid HookReturns] sh by simp
  obtain y L2 where st: "start_subsystem e sid name (L\<lparr>lm_registry := r\<rparr>) = (y, L2)"
    by (cases "start_subsystem e sid name (L\<lparr>lm_registry := r\<rparr>)")
  have "instances_keyed (lm_registry L2)"
    using keyed_start_subsystem [of "L\<lparr>lm_registry := r\<rparr>" e sid name] r st by simp
  then show ?thesis using sh st r by (cases x; cases y) (simp_all add: restart_subsystem_def)
qed

lemma lm_invariant_step: "lm_step L L' \<Longrightarrow> lm_invariant L \<Longrightarrow> lm_invariant L'"
proof (induction rule: lm_step.induct)
  case (ls_register L sid dn config)
  then show ?case
    by (auto simp: lm_invariant_def register_server_def polled_servers_up_def find_server_def update_conv split: option.splits)
next
  case (ls_unregister L sid)
  then show ?case
    by (force simp: lm_invariant_def unregister_server_def polled_servers_up_def find_server_def delete_conv
        split: option.splits)
next
  case (ls_config L sid cfg)
  have "polled_servers_up (snd (update_server_config sid cfg L))"
    by (rule polled_servers_up_frame [of L]) (use ls_config in \<open>auto simp: lm_invariant_def update_server_config_def split: option.splits\<close>)
  then show ?case using ls_config by (simp add: lm_invariant_def update_server_config_def split: option.splits)
next
  case (ls_start L e sid)
  then show ?case by (simp add: lm_invariant_def polled_start_server keyed_start_server)
next
  case (ls_shutdown L e sid)
  then show ?case by (simp add: lm_invariant_def polled_shutdown_server keyed_shutdown_server)
next
  case (ls_restart L e1 e2 sid)
  let ?L0 = "emit_event EvRestart sid None True L"
  have L0: "lm_invariant ?L0" using ls_restart polled_servers_up_frame [of L ?L0] by (simp add: lm_invariant_def)
  then have "lm_invariant (snd (shutdown_server e1 sid ?L0))"
    by (simp add: lm_invariant_def polled_shutdown_server keyed_shutdown_server)
  moreover from this have "lm_invariant (snd (start_server e2 sid (snd (shutdown_server e1 sid ?L0))))"
    by (simp add: lm_invariant_def polled_start_server keyed_start_server)
  ultimately show ?case by (simp add: restart_server_def split_beta split: sum.split)
next
  case (ls_restart_subsystem L e sid name)
  have "polled_servers_up (snd (restart_subsystem e sid name L))"
    by (rule polled_servers_up_frame [of L])
      (use ls_restart_subsystem restart_subsystem_frame [of e sid name L] in \<open>auto simp: lm_invariant_def find_server_def\<close>)
  then show ?case using ls_restart_subsystem by (simp add: lm_invariant_def keyed_restart_subsystem)
next
  case (ls_health sid L e)
  let ?infos = "get_server_instances sid (lm_registry L)"
  have f: "find_server k (snd (check_instances e sid ?infos L)) = find_server k L" for k
    using check_instances_frame [of e sid ?infos L] by (simp add: find_server_def)
  have "polled_servers_up (check_server_health e sid L)"
  proof (rule polled_servers_up_frame [of L])
    show "polled_servers_up L" using ls_health by (simp add: lm_invariant_def)
    show "lm_health_tasks (check_server_health e sid L) = lm_health_tasks L"
      using check_instances_frame [of e sid ?infos L] by (simp add: check_server_health_def split_beta)
    show "map_option se_state (find_server k (check_server_health e sid L)) = map_option se_state (find_server k L)" for k
      using f by (simp add: check_server_health_def split_beta option.map_comp comp_def)
  qed
  then show ?case using ls_health by (simp add: lm_invariant_def keyed_check_server_health)
next
  case (ls_plugin L cls)
  then show ?case using polled_servers_up_frame [of L] by (simp add: lm_invariant_def keyed_plugin_changes)
next
  case (ls_unplug L name)
  then show ?case using polled_servers_up_frame [of L] by (simp add: lm_invariant_def keyed_plugin_changes)
qed

lemma lm_reachable_invariant: "lm_reachable L \<Longrightarrow> lm_invariant L"
proof (induction rule: lm_reachable.induct)
  case (lr_new vfs interval auto most)
  show ?case by (simp add: lm_invariant_def polled_servers_up_def instances_keyed_def new_lifecycle_def new_registry_def)
next
  case (lr_step L L')
  then show ?case by (blast intro: lm_invariant_step)
qed


section \<open>Properties\<close>

text \<open>When a server has been started, it is running exactly when every subsystem came up, its
  error count tells the two cases apart, every enabled plugin then has a running instance, and no
  other server is touched.\<close>

theorem start_server_outcome:
  assumes "iterates (e_it e)" and "find_server sid L = Some s" and "start_server e sid L = (Inr b, L')"
  shows "(\<exists>s'. find_server sid L' = Some s' \<and> se_state s' = (if b then SrvRunning else SrvDegraded) \<and>
           se_started_at s' = Some (e_now e) \<and> se_error_count s \<le> se_error_count s' \<and>
           (b \<longleftrightarrow> se_error_count s' = se_error_count s)) \<and>
    (b \<longrightarrow> (\<forall>n\<in>set (get_enabled_plugins_for_server sid (lm_registry L)).
       \<exists>i. find_instance (n, sid) (lm_registry L') = Some i \<and> ii_state i = RUNNING)) \<and>
    (\<forall>k. k \<noteq> sid \<longrightarrow> find_server k L' = find_server k L)"
proof -
  let ?L1 = "set_state sid SrvStarting L"
  let ?enabled = "get_enabled_plugins_for_server sid (lm_registry L)"
  show ?thesis
  proof (cases "?enabled = []")
    case True
    then show ?thesis using assms(2,3) by (auto simp: start_server_def)
  next
    case False
    then obtain order where o: "get_startup_order (e_it e) (Some ?enabled) (lm_registry L) = Inr order"
      using assms(2,3) by (auto simp: start_server_def split: sum.splits plugin_error.splits)
    note so = startup_order_sound(1,2) [OF assms(1) o, unfolded names_to_order_Some [OF False]]
    let ?run = "start_all e sid order ?L1"
    have b: "b = fst ?run" and reg: "lm_registry L' = lm_registry (snd ?run)"
      using assms(2,3) False o by (auto simp: start_server_def split_beta)
    have srv: "find_server k L' = (if k = sid
        then map_option (\<lambda>s. s\<lparr>se_state := (if b then SrvRunning else SrvDegraded), se_started_at := Some (e_now e)\<rparr>)
               (find_server sid (snd ?run))
        else find_server k (snd ?run))" for k
      using assms(2,3) False o by (auto simp: start_server_def split_beta)
    have "find_server sid ?L1 = Some (s\<lparr>se_state := SrvStarting\<rparr>)" using assms(2) by simp
    from start_all_errors [OF this, of e order] obtain s' k where s': "find_server sid (snd ?run) = Some s'"
      "se_error_count s' = se_error_count s + int k" "k = 0 \<longleftrightarrow> fst ?run" by auto
    have "\<forall>k. k \<noteq> sid \<longrightarrow> find_server k L' = find_server k L" using srv start_all_frame [of _ sid e order ?L1] by simp
    moreover have "b \<longrightarrow> (\<forall>n\<in>set ?enabled. \<exists>i. find_instance (n, sid) (lm_registry L') = Some i \<and> ii_state i = RUNNING)"
      using start_all_instances [of _ sid order e ?L1] so b reg by simp
    ultimately show ?thesis using srv [of sid] s' b by auto
  qed
qed

text \<open>A server \<open>s1\<close> with the plugins of \<open>sample_registry\<close> that have a startup order.\<close>

definition sample_env :: env where
  "sample_env = \<lparr>e_init = (\<lambda>n _. if n = ''app'' then HookRaises ''boom'' else HookReturns),
     e_stop = (\<lambda>n _. if n = ''db'' then StopTimesOut else StopReturns),
     e_health = (\<lambda>n _. if n = ''db'' then None else Some HEALTHY),
     e_open = (\<lambda>_ _. OpenOk), e_now = 7, e_it = (\<lambda>_ xs. xs)\<rparr>"

definition sample_lifecycle :: "int lifecycle" where
  "sample_lifecycle = snd (register_server ''s1'' [] None
     (new_lifecycle (new_registry\<lparr>pr_plugins := take 3 (pr_plugins sample_registry)\<rparr>)
        (new_vfs_manager [''f'']) 30 True 3))"

lemma sample_iterates: "iterates (e_it sample_env)"
  by (simp add: sample_env_def iterates_def)

theorem start_server_outcome_witness:
  "\<exists>s'. find_server ''s1'' (snd (start_server sample_env ''s1'' sample_lifecycle)) = Some s' \<and>
     se_state s' = SrvDegraded"
proof -
  have "fst (start_server sample_env ''s1'' sample_lifecycle) = Inr False" by code_simp
  then have "start_server sample_env ''s1'' sample_lifecycle =
      (Inr False, snd (start_server sample_env ''s1'' sample_lifecycle))" by (simp add: prod_eq_iff)
  moreover have "find_server ''s1'' sample_lifecycle \<noteq> None" by code_simp
  ultimately show ?thesis using start_server_outcome [OF sample_iterates] by fastforce
qed


text \<open>When a shutdown returns, the server is stopped and no longer polled, every instance it
  had is in state \<open>SHUTDOWN\<close> (but stays \<open>SHUTTING_DOWN\<close> when its hook timed out), its databases
  are gone from the manager, and success is reported exactly when no hook timed out.\<close>

theorem shutdown_server_outcome:
  assumes "lm_reachable L" and "iterates (e_it e)" and "shutdown_server e sid L = (Inr b, L')"
  shows "(\<exists>s. find_server sid L' = Some s \<and> se_state s = SrvStopped) \<and> sid \<notin> set (lm_health_tasks L') \<and>
    (\<forall>n info. find_instance (n, sid) (lm_registry L) = Some info \<longrightarrow>
       find_instance (n, sid) (lm_registry L') = Some (info\<lparr>ii_state :=
         if e_stop e n sid = StopTimesOut then SHUTTING_DOWN else SHUTDOWN\<rparr>) \<and>
       map_of (vm_databases (lm_vfs L')) (n, sid) = None \<and>
       (b \<longrightarrow> e_stop e n sid \<noteq> StopTimesOut))"
proof -
  have k: "instances_keyed (lm_registry L)" using lm_reachable_invariant [OF assms(1)] by (simp add: lm_invariant_def)
  note eff = shutdown_server_effect [OF k assms(2,3), unfolded stop_target_def]
  obtain s where "find_server sid L = Some s"
    using assms(3) by (auto simp: shutdown_server_def split: option.splits)
  then have "\<exists>s. find_server sid L' = Some s \<and> se_state s = SrvStopped" and "sid \<notin> set (lm_health_tasks L')"
    using assms(3) by (auto simp: shutdown_server_def split_beta split: if_splits sum.splits plugin_error.splits)
  then show ?thesis using eff by blast
qed

definition sample_registered :: "int lifecycle" where
  "sample_registered =
     (let L0 = new_lifecycle new_registry (new_vfs_manager [''f'']) 30 True 3;
          L1 = L0\<lparr>lm_registry := snd (register (sample_plugin ''db'' []) (lm_registry L0))\<rparr>
      in snd (register_server ''s1'' [] None L1))"

definition sample_running :: "int lifecycle" where
  "sample_running = snd (start_server sample_env ''s1'' sample_registered)"

lemma sample_registered_reachable: "lm_reachable sample_registered"
  unfolding sample_registered_def Let_def by (intro lr_step [OF _ ls_register] lr_step [OF _ ls_plugin] lr_new)

lemma sample_running_reachable: "lm_reachable sample_running"
  unfolding sample_running_def by (rule lr_step [OF sample_registered_reachable ls_start])

theorem shutdown_server_outcome_witness:
  "map_option ii_state (find_instance (''db'', ''s1'')
     (lm_registry (snd (shutdown_server sample_env ''s1'' sample_running)))) = Some SHUTTING_DOWN"
proof -
  have "fst (shutdown_server sample_env ''s1'' sample_running) = Inr False" by code_simp
  then have r: "shutdown_server sample_env ''s1'' sample_running =
      (Inr False, snd (shutdown_server sample_env ''s1'' sample_running))" by (simp add: prod_eq_iff)
  have "find_instance (''db'', ''s1'') (lm_registry sample_running) \<noteq> None" by code_simp
  then obtain info where "find_instance (''db'', ''s1'') (lm_registry sample_running) = Some info" by blast
  moreover have "e_stop sample_env ''db'' ''s1'' = StopTimesOut" by (simp add: sample_env_def)
  ultimately show ?thesis using shutdown_server_outcome [OF sample_running_reachable sample_iterates r] by simp
qed

text \<open>A server with an instance whose plugin has been unregistered (which the registry allows
  once the instance is shut down, keeping its record) cannot be shut down any more: the shutdown
  raises, the server stays in state stopping, and unregistering it is refused.\<close>

theorem shutdown_stuck_on_unregistered_plugin:
  assumes "lm_reachable L" and "iterates (e_it e)" and "find_server sid L \<noteq> None"
    and "find_instance (n, sid) (lm_registry L) \<noteq> None" and "\<not> has_plugin n (lm_registry L)"
  shows "\<exists>L'. shutdown_server e sid L = (Inl (FromRegistry PluginNotFoundError), L') \<and>
    map_option se_state (find_server sid L') = Some SrvStopping \<and>
    unregister_server sid L' = (Inl ServerStateError, L')"
proof -
  let ?ns = "map ii_plugin_name (get_server_instances sid (lm_registry L))"
  obtain s where s: "find_server sid L = Some s" using assms(3) by blast
  have k: "instances_keyed (lm_registry L)" using lm_reachable_invariant [OF assms(1)] by (simp add: lm_invariant_def)
  obtain info where "find_instance (n, sid) (lm_registry L) = Some info" using assms(4) by blast
  from find_instance_name [OF k this] have n: "n \<in> set ?ns" .
  then have ne: "?ns \<noteq> []" by auto
  have nf: "get_shutdown_order (e_it e) (Some ?ns) (lm_registry L) = Inl PluginNotFoundError"
    using n assms(5) by (intro shutdown_order_set(3) [OF assms(2) ne server_instances_distinct [OF k]]) blast
  let ?L' = "(set_state sid SrvStopping L)\<lparr>lm_health_tasks := removeAll sid (lm_health_tasks L)\<rparr>"
  have "shutdown_server e sid L = (Inl (FromRegistry PluginNotFoundError), ?L')"
    using s ne nf by (simp add: shutdown_server_def)
  moreover have "find_server sid ?L' = Some (s\<lparr>se_state := SrvStopping\<rparr>)" using s by simp
  ultimately show ?thesis using s by (intro exI [of _ ?L']) (simp add: unregister_server_def)
qed

definition sample_unplugged :: "int lifecycle" where
  "sample_unplugged =
     (let L = snd (shutdown_server (sample_env\<lparr>e_stop := \<lambda>_ _. StopReturns\<rparr>) ''s1'' sample_running)
      in L\<lparr>lm_registry := snd (unregister ''db'' (lm_registry L))\<rparr>)"

theorem shutdown_stuck_on_unregistered_plugin_witness:
  "\<exists>L'. shutdown_server sample_env ''s1'' sample_unplugged = (Inl (FromRegistry PluginNotFoundError), L') \<and>
    map_option se_state (find_server ''s1'' L') = Some SrvStopping \<and>
    unregister_server ''s1'' L' = (Inl ServerStateError, L')"
proof (rule shutdown_stuck_on_unregistered_plugin [OF _ sample_iterates])
  show "lm_reachable sample_unplugged" unfolding sample_unplugged_def Let_def
    by (intro lr_step [OF _ ls_unplug] lr_step [OF _ ls_shutdown] sample_running_reachable)
  show "find_server ''s1'' sample_unplugged \<noteq> None" by code_simp
  show "find_instance (''db'', ''s1'') (lm_registry sample_unplugged) \<noteq> None" by code_simp
  show "\<not> has_plugin ''db'' (lm_registry sample_unplugged)" by code_simp
qed


text \<open>From a manager that has counted no restart, any number of health rounds of a server
  leaves each restart count at 0 or 1, at 1 only for an instance that no longer runs (and so is
  never tried again), and never emits the event that gives a plugin up, as long as at least one
  attempt is allowed.\<close>

theorem health_rounds_never_give_up:
  assumes "lm_reachable L" and "lm_restart_counts L = []" and "1 \<le> lm_max_restart_attempts L"
    and "no_give_up (lm_events L)"
  shows "case fold (\<lambda>e. check_server_health e sid) es L of L' \<Rightarrow>
    no_give_up (lm_events L') \<and>
    (\<forall>name. restart_count sid name L' \<in> {0, 1} \<and> (restart_count sid name L' = 1 \<longrightarrow> \<not> active sid name L'))"
proof -
  have round: "restarts_settled sid (check_server_health e sid M) \<and> no_give_up (lm_events (check_server_health e sid M)) \<and>
      1 \<le> lm_max_restart_attempts (check_server_health e sid M) \<and>
      instances_keyed (lm_registry (check_server_health e sid M))"
    if m: "restarts_settled sid M" "no_give_up (lm_events M)" "1 \<le> lm_max_restart_attempts M"
      "instances_keyed (lm_registry M)" for e and M :: "'a lifecycle"
  proof -
    let ?infos = "get_server_instances sid (lm_registry M)"
    have "listed_now sid ?infos M"
      using server_instances_distinct [OF m(4)] server_instance_listed [OF m(4)] by (simp add: listed_now_def)
    from check_instances_settled [OF this m(1,3,2), of e] show ?thesis
      using m(3) keyed_check_server_health [OF m(4), of e sid]
      by (simp add: check_server_health_def split_beta restarts_settled_def active_def)
  qed
  have "restarts_settled sid L" using assms(2) by (simp add: restarts_settled_def restart_count_def)
  moreover have "instances_keyed (lm_registry L)" using lm_reachable_invariant [OF assms(1)] by (simp add: lm_invariant_def)
  ultimately have "restarts_settled sid (fold (\<lambda>e. check_server_health e sid) es L) \<and>
      no_give_up (lm_events (fold (\<lambda>e. check_server_health e sid) es L))"
    using assms(3,4) by (induction es arbitrary: L) (simp_all add: round)
  then show ?thesis by (simp add: restarts_settled_def)
qed

theorem health_rounds_never_give_up_witness:
  "no_give_up (lm_events (fold (\<lambda>e. check_server_health e ''s1'') [sample_env, sample_env] sample_running))"
proof -
  have "lm_restart_counts sample_running = []" by code_simp
  moreover have "1 \<le> lm_max_restart_attempts sample_running" by code_simp
  moreover have "no_give_up (lm_events sample_running)"
    unfolding no_give_up_def by code_simp
  ultimately show ?thesis
    using health_rounds_never_give_up [OF sample_running_reachable, of "''s1''" "[sample_env, sample_env]"] by simp
qed

text \<open>In every reachable manager, a server with a live health task is registered and neither
  stopped nor stopping, so no health round runs for a server that has been taken down.\<close>

theorem health_tasks_only_for_live_servers:
  assumes "lm_reachable L" and "sid \<in> set (lm_health_tasks L)"
  shows "\<exists>s. find_server sid L = Some s \<and> se_state s \<in> {SrvStarting, SrvRunning, SrvDegraded, SrvError}"
proof -
  obtain s where "find_server sid L = Some s" "se_state s \<notin> {SrvStopped, SrvStopping}"
    using lm_reachable_invariant [OF assms(1)] assms(2) by (auto simp: lm_invariant_def polled_servers_up_def)
  then show ?thesis by (cases "se_state s") auto
qed

theorem health_tasks_only_for_live_servers_witness:
  "find_server ''s1'' sample_running \<noteq> None"
proof -
  have "''s1'' \<in> set (lm_health_tasks sample_running)" by code_simp
  with health_tasks_only_for_live_servers [OF sample_running_reachable] show ?thesis by blast
qed

lemma filter_partition_sum:
  "distinct states \<Longrightarrow> \<forall>x\<in>set xs. f x \<in> set states \<Longrightarrow>
   sum_list (map (\<lambda>st. length (filter (\<lambda>x. f x = st) xs)) states) = length xs"
proof (induction xs)
  case Nil
  then show ?case by (simp add: sum_list_0)
next
  case (Cons x xs)
  have "sum_list (map (\<lambda>st. length (filter (\<lambda>x. f x = st) (x # xs))) states) =
      sum_list (map (\<lambda>st. (if st = f x then 1 else 0) + length (filter (\<lambda>x. f x = st) xs)) states)"
    by (rule arg_cong [where f = sum_list]) auto
  also have "\<dots> = sum_list (map (\<lambda>st. if st = f x then 1 else 0) states) + length xs"
    using Cons by (simp add: sum_list_addf)
  also have "sum_list (map (\<lambda>st. if st = f x then 1 else 0) states) = (1 :: nat)"
    using Cons.prems by (simp add: sum_list_distinct_conv_sum_set)
  finally show ?case by simp
qed

lemma sum_list_nonzero: "sum_list (map snd (filter (\<lambda>(st, n). n > 0) xs)) = sum_list (map snd (xs :: ('b \<times> nat) list))"
  by (induction xs) auto

text \<open>In the status report, the counts per instance state are positive and add up to the number
  of instances, and the four server counts add up to all servers but the starting and stopping ones.\<close>

theorem global_status_counts:
  "case get_global_status L of st \<Rightarrow>
     sum_list (map snd (gs_by_state st)) = gs_instances_total st \<and> 0 \<notin> set (map snd (gs_by_state st)) \<and>
     gs_servers_total st = gs_running st + gs_stopped st + gs_degraded st + gs_error st +
       length (filter (\<lambda>s. si_state s \<in> {SrvStarting, SrvStopping}) (list_servers L))"
proof -
  let ?instances = "list_instances (lm_registry L)"
  have "distinct all_plugin_states" by (simp add: all_plugin_states_def)
  moreover have "st \<in> set all_plugin_states" for st by (cases st) (simp_all add: all_plugin_states_def)
  ultimately have "sum_list (map (\<lambda>st. length (filter (\<lambda>i. ii_state i = st) ?instances)) all_plugin_states) = length ?instances"
    by (intro filter_partition_sum) simp_all
  then have total: "sum_list (map snd (gs_by_state (get_global_status L))) = gs_instances_total (get_global_status L)"
    by (simp add: get_global_status_def sum_list_nonzero comp_def)
  have "length xs = length (filter (\<lambda>s. si_state s = SrvRunning) xs) + length (filter (\<lambda>s. si_state s = SrvStopped) xs)
      + length (filter (\<lambda>s. si_state s = SrvDegraded) xs) + length (filter (\<lambda>s. si_state s = SrvError) xs)
      + length (filter (\<lambda>s. si_state s \<in> {SrvStarting, SrvStopping}) xs)" for xs :: "server_info list"
  proof (induction xs)
    case (Cons x xs)
    then show ?case by (cases "si_state x") simp_all
  qed simp
  from this [of "list_servers L"] have "gs_servers_total (get_global_status L) =
      gs_running (get_global_status L) + gs_stopped (get_global_status L) + gs_degraded (get_global_status L)
      + gs_error (get_global_status L) + length (filter (\<lambda>s. si_state s \<in> {SrvStarting, SrvStopping}) (list_servers L))"
    by (simp add: get_global_status_def)
  moreover have "0 \<notin> set (map snd (gs_by_state (get_global_status L)))"
    by (auto simp: get_global_status_def)
  ultimately show ?thesis using total by simp
qed

end
