(* ===== verification/Crypto.thy ===== *)
theory Crypto
  imports Prelude
begin

text \<open>
  The pure Python AES-256-GCM of
  \<open>SCRIPTS/SERVICES/item-signing-bridge/FUNCTIONS/crypto_fallback.py\<close> (copies of the file are
  in \<open>minescript/HELPERS\<close> and \<open>GAMES/minecraft_manager\<close>).  \<open>bytes\<close> are lists of
  8-bit words; the integers of GHASH never exceed 128 bits and are 128-bit words; the counter is
  an unbounded integer.  Keys and nonces of any length are accepted, as in the code, and the
  exceptions they lead to are values.
\<close>

unbundle bit_operations_syntax

section \<open>The block cipher\<close>

definition SBOX :: "byte list" where
  "SBOX =
   [0x63, 0x7c, 0x77, 0x7b, 0xf2, 0x6b, 0x6f, 0xc5, 0x30, 0x01, 0x67, 0x2b, 0xfe, 0xd7, 0xab, 0x76,
    0xca, 0x82, 0xc9, 0x7d, 0xfa, 0x59, 0x47, 0xf0, 0xad, 0xd4, 0xa2, 0xaf, 0x9c, 0xa4, 0x72, 0xc0,
    0xb7, 0xfd, 0x93, 0x26, 0x36, 0x3f, 0xf7, 0xcc, 0x34, 0xa5, 0xe5, 0xf1, 0x71, 0xd8, 0x31, 0x15,
    0x04, 0xc7, 0x23, 0xc3, 0x18, 0x96, 0x05, 0x9a, 0x07, 0x12, 0x80, 0xe2, 0xeb, 0x27, 0xb2, 0x75,
    0x09, 0x83, 0x2c, 0x1a, 0x1b, 0x6e, 0x5a, 0xa0, 0x52, 0x3b, 0xd6, 0xb3, 0x29, 0xe3, 0x2f, 0x84,
    0x53, 0xd1, 0x00, 0xed, 0x20, 0xfc, 0xb1, 0x5b, 0x6a, 0xcb, 0xbe, 0x39, 0x4a, 0x4c, 0x58, 0xcf,
    0xd0, 0xef, 0xaa, 0xfb, 0x43, 0x4d, 0x33, 0x85, 0x45, 0xf9, 0x02, 0x7f, 0x50, 0x3c, 0x9f, 0xa8,
    0x51, 0xa3, 0x40, 0x8f, 0x92, 0x9d, 0x38, 0xf5, 0xbc, 0xb6, 0xda, 0x21, 0x10, 0xff, 0xf3, 0xd2,
    0xcd, 0x0c, 0x13, 0xec, 0x5f, 0x97, 0x44, 0x17, 0xc4, 0xa7, 0x7e, 0x3d, 0x64, 0x5d, 0x19, 0x73,
    0x60, 0x81, 0x4f, 0xdc, 0x22, 0x2a, 0x90, 0x88, 0x46, 0xee, 0xb8, 0x14, 0xde, 0x5e, 0x0b, 0xdb,
    0xe0, 0x32, 0x3a, 0x0a, 0x49, 0x06, 0x24, 0x5c, 0xc2, 0xd3, 0xac, 0x62, 0x91, 0x95, 0xe4, 0x79,
    0xe7, 0xc8, 0x37, 0x6d, 0x8d, 0xd5, 0x4e, 0xa9, 0x6c, 0x56, 0xf4, 0xea, 0x65, 0x7a, 0xae, 0x08,
    0xba, 0x78, 0x25, 0x2e, 0x1c, 0xa6, 0xb4, 0xc6, 0xe8, 0xdd, 0x74, 0x1f, 0x4b, 0xbd, 0x8b, 0x8a,
    0x70, 0x3e, 0xb5, 0x66, 0x48, 0x03, 0xf6, 0x0e, 0x61, 0x35, 0x57, 0xb9, 0x86, 0xc1, 0x1d, 0x9e,
    0xe1, 0xf8, 0x98, 0x11, 0x69, 0xd9, 0x8e, 0x94, 0x9b, 0x1e, 0x87, 0xe9, 0xce, 0x55, 0x28, 0xdf,
    0x8c, 0xa1, 0x89, 0x0d, 0xbf, 0xe6, 0x42, 0x68, 0x41, 0x99, 0x2d, 0x0f, 0xb0, 0x54, 0xbb, 0x16]"

definition RCON :: "byte list" where
  "RCON = [0x01, 0x02, 0x04, 0x08, 0x10, 0x20, 0x40, 0x80, 0x1b, 0x36]"

text \<open>\<open>SBOX[b]\<close> and \<open>[a ^ b for a, b in zip(x, y)]\<close>, which stops with the shorter list.\<close>

definition sub_byte :: "byte \<Rightarrow> byte" where
  "sub_byte b = SBOX ! unat b"

definition xor_bytes :: "byte list \<Rightarrow> byte list \<Rightarrow> byte list" where
  "xor_bytes xs ys = map (\<lambda>(a, b). a XOR b) (zip xs ys)"

text \<open>One turn of the key schedule loop; \<open>temp[0]\<close> of an empty word raises.\<close>

definition expand_step :: "nat \<Rightarrow> byte list list \<Rightarrow> byte list list result" where
  "expand_step i w =
     (let temp = w ! (i - 1)
      in if i mod 8 = 0 then
           (case map sub_byte (drop 1 temp @ take 1 temp) of
              [] \<Rightarrow> Inl IndexError
            | t # ts \<Rightarrow> Inr (w @ [xor_bytes (w ! (i - 8)) ((t XOR RCON ! (i div 8 - 1)) # ts)]))
         else if i mod 8 = 4 then Inr (w @ [xor_bytes (w ! (i - 8)) (map sub_byte temp)])
         else Inr (w @ [xor_bytes (w ! (i - 8)) temp]))"

fun expand_loop :: "nat list \<Rightarrow> byte list list \<Rightarrow> byte list list result" where
  "expand_loop [] w = Inr w"
| "expand_loop (i # is) w = bind_result (expand_step i w) (expand_loop is)"

definition key_expansion :: "byte list \<Rightarrow> byte list list result" where
  "key_expansion key =
     bind_result (expand_loop [8..<60] (map (\<lambda>i. take 4 (drop (4 * i) key)) [0..<8]))
       (\<lambda>w. Inr (map (\<lambda>j. concat (take 4 (drop (4 * j) w))) [0..<15]))"

definition xtime :: "byte \<Rightarrow> byte" where
  "xtime a = (if a AND 0x80 \<noteq> 0 then push_bit 1 a XOR 0x1b else push_bit 1 a)"

definition mix_column :: "byte \<times> byte \<times> byte \<times> byte \<Rightarrow> byte \<times> byte \<times> byte \<times> byte" where
  "mix_column = (\<lambda>(s0, s1, s2, s3).
     let t = s0 XOR s1 XOR s2 XOR s3
     in (s0 XOR (t XOR xtime (s0 XOR s1)), s1 XOR (t XOR xtime (s1 XOR s2)),
         s2 XOR (t XOR xtime (s2 XOR s3)), s3 XOR (t XOR xtime (s3 XOR s0))))"

definition mix_columns :: "byte list \<Rightarrow> byte list" where
  "mix_columns s =
     concat (map (\<lambda>c. case mix_column (s ! (4 * c), s ! (4 * c + 1), s ! (4 * c + 2), s ! (4 * c + 3)) of
                        (s0, s1, s2, s3) \<Rightarrow> [s0, s1, s2, s3]) [0..<4])"

definition shift_order :: "nat list" where
  "shift_order = [0, 5, 10, 15, 4, 9, 14, 3, 8, 13, 2, 7, 12, 1, 6, 11]"

text \<open>Indexing a state of fewer than 16 bytes raises.\<close>

definition shift_rows :: "byte list \<Rightarrow> byte list result" where
  "shift_rows s = (if length s < 16 then Inl IndexError else Inr (map (\<lambda>i. s ! i) shift_order))"

fun aes_rounds :: "byte list list \<Rightarrow> nat list \<Rightarrow> byte list \<Rightarrow> byte list result" where
  "aes_rounds rks [] s = Inr s"
| "aes_rounds rks (r # rs) s =
     bind_result (shift_rows (map sub_byte s))
       (\<lambda>s1. aes_rounds rks rs (xor_bytes (mix_columns s1) (rks ! r)))"

definition aes_encrypt_block :: "byte list \<Rightarrow> byte list list \<Rightarrow> byte list result" where
  "aes_encrypt_block block rks =
     bind_result (aes_rounds rks [1..<14] (xor_bytes block (rks ! 0)))
       (\<lambda>s. bind_result (shift_rows (map sub_byte s)) (\<lambda>s1. Inr (xor_bytes s1 (rks ! 14))))"

section \<open>GHASH\<close>

text \<open>\<open>int.from_bytes(b, 'big')\<close> and \<open>n.to_bytes(k, 'big')\<close> for a number that fits.\<close>

definition from_bytes :: "byte list \<Rightarrow> int" where
  "from_bytes bs = foldl (\<lambda>a b. a * 256 + uint b) 0 bs"

definition be_bytes :: "nat \<Rightarrow> int \<Rightarrow> byte list" where
  "be_bytes k n = map (\<lambda>i. word_of_int (n div 256 ^ (k - 1 - i))) [0..<k]"

definition to_bytes :: "nat \<Rightarrow> int \<Rightarrow> byte list result" where
  "to_bytes k n = (if 0 \<le> n \<and> n < 256 ^ k then Inr (be_bytes k n) else Inl OverflowError)"

definition gf_R :: "128 word" where
  "gf_R = 0xe1000000000000000000000000000000"

definition gf_step :: "128 word \<Rightarrow> nat \<Rightarrow> 128 word \<times> 128 word \<Rightarrow> 128 word \<times> 128 word" where
  "gf_step x i = (\<lambda>(z, v).
     (if bit x (127 - i) then z XOR v else z,
      if bit v 0 then drop_bit 1 v XOR gf_R else drop_bit 1 v))"

definition gf_mult :: "128 word \<Rightarrow> 128 word \<Rightarrow> 128 word" where
  "gf_mult x y = fst (fold (gf_step x) [0..<128] (0, y))"

definition pad16 :: "byte list \<Rightarrow> byte list" where
  "pad16 bs = bs @ replicate ((16 - length bs mod 16) mod 16) 0"

function blocks16 :: "byte list \<Rightarrow> byte list list" where
  "blocks16 bs = (if bs = [] then [] else take 16 bs # blocks16 (drop 16 bs))"
  by auto
termination by (relation "measure length") auto

declare blocks16.simps [simp del]

definition ghash_blocks :: "128 word \<Rightarrow> byte list list \<Rightarrow> 128 word \<Rightarrow> 128 word" where
  "ghash_blocks h bs y = foldl (\<lambda>y b. gf_mult (y XOR word_of_int (from_bytes b)) h) y bs"

text \<open>\<open>struct.pack('>QQ', a, b)\<close>.\<close>

definition pack_QQ :: "int \<Rightarrow> int \<Rightarrow> byte list result" where
  "pack_QQ a b =
     (if 0 \<le> a \<and> a < 2 ^ 64 \<and> 0 \<le> b \<and> b < 2 ^ 64 then Inr (be_bytes 8 a @ be_bytes 8 b)
      else Inl StructError)"

definition ghash :: "byte list \<Rightarrow> byte list \<Rightarrow> byte list \<Rightarrow> byte list result" where
  "ghash h aad ct =
     (let h_int = word_of_int (from_bytes h);
          y1 = ghash_blocks h_int (blocks16 (pad16 aad)) 0;
          y2 = ghash_blocks h_int (blocks16 (pad16 ct)) y1
      in bind_result (pack_QQ (int (length aad) * 8) (int (length ct) * 8))
           (\<lambda>len_block. to_bytes 16 (uint (ghash_blocks h_int [len_block] y2))))"

section \<open>Counter mode\<close>

text \<open>
  The loop that both \<open>encrypt_and_digest\<close> and \<open>decrypt_and_verify\<close> run over the
  16-byte chunks, for a block function \<open>E\<close>; the counter is the object's, so its value is
  returned whether or not the loop raises.
\<close>

function ctr_loop :: "(byte list \<Rightarrow> byte list result) \<Rightarrow> int \<Rightarrow> byte list \<Rightarrow> byte list result \<times> int" where
  "ctr_loop E c data =
     (if data = [] then (Inr [], c)
      else (case to_bytes 16 c of
              Inl err \<Rightarrow> (Inl err, c)
            | Inr ctr \<Rightarrow>
                (case E ctr of
                   Inl err \<Rightarrow> (Inl err, c + 1)
                 | Inr ctr_block \<Rightarrow>
                     (let chunk = take 16 data;
                          (rest, c') = ctr_loop E (c + 1) (drop 16 data)
                      in (bind_result rest (\<lambda>r. Inr (xor_bytes chunk (take (length chunk) ctr_block) @ r)), c')))))"
  by auto
termination by (relation "measure (\<lambda>(E, c, data). length data)") auto

declare ctr_loop.simps [simp del]

record gcm_mode =
  gcm_key :: "byte list"
  gcm_nonce :: "byte list"
  gcm_round_keys :: "byte list list"
  gcm_H :: "byte list"
  gcm_J0 :: "byte list"
  gcm_counter :: int

definition new_gcm :: "byte list \<Rightarrow> byte list \<Rightarrow> gcm_mode result" where
  "new_gcm key nonce =
     bind_result (key_expansion key) (\<lambda>rks.
     bind_result (aes_encrypt_block (replicate 16 0) rks) (\<lambda>h.
       if length nonce = 12 then
         (let j0 = nonce @ [0, 0, 0, 1]
          in Inr \<lparr>gcm_key = key, gcm_nonce = nonce, gcm_round_keys = rks, gcm_H = h,
                 gcm_J0 = j0, gcm_counter = from_bytes j0\<rparr>)
       else Inl ValueError))"

definition MODE_GCM :: int where
  "MODE_GCM = 0"

definition aes_new :: "byte list \<Rightarrow> int \<Rightarrow> byte list \<Rightarrow> gcm_mode result" where
  "aes_new key mode nonce = (if mode = MODE_GCM then new_gcm key nonce else Inl ValueError)"

definition gcm_tag :: "gcm_mode \<Rightarrow> byte list \<Rightarrow> byte list \<Rightarrow> byte list result" where
  "gcm_tag g aad ct =
     bind_result (ghash (gcm_H g) aad ct) (\<lambda>s.
     bind_result (aes_encrypt_block (gcm_J0 g) (gcm_round_keys g)) (\<lambda>mask. Inr (xor_bytes s mask)))"

definition encrypt_and_digest ::
  "byte list \<Rightarrow> byte list \<Rightarrow> gcm_mode \<Rightarrow> (byte list \<times> byte list) result \<times> gcm_mode" where
  "encrypt_and_digest pt aad g =
     (let (ct, c) = ctr_loop (\<lambda>b. aes_encrypt_block b (gcm_round_keys g)) (gcm_counter g) pt
      in (bind_result ct (\<lambda>ct. bind_result (gcm_tag g aad ct) (\<lambda>tag. Inr (ct, tag))),
          g\<lparr>gcm_counter := c\<rparr>))"

definition decrypt_and_verify ::
  "byte list \<Rightarrow> byte list \<Rightarrow> byte list \<Rightarrow> gcm_mode \<Rightarrow> byte list result \<times> gcm_mode" where
  "decrypt_and_verify ct tag aad g =
     (case gcm_tag g aad ct of
        Inl err \<Rightarrow> (Inl err, g)
      | Inr expected \<Rightarrow>
          (if tag \<noteq> expected then (Inl ValueError, g)
           else (let (pt, c) = ctr_loop (\<lambda>b. aes_encrypt_block b (gcm_round_keys g)) (gcm_counter g) ct
                 in (pt, g\<lparr>gcm_counter := c\<rparr>))))"

definition gcm_encrypt :: "byte list \<Rightarrow> byte list \<Rightarrow> byte list \<Rightarrow> (byte list \<times> byte list) result" where
  "gcm_encrypt key pt nonce =
     bind_result (aes_new key MODE_GCM nonce) (\<lambda>g. fst (encrypt_and_digest pt [] g))"

definition gcm_decrypt :: "byte list \<Rightarrow> byte list \<Rightarrow> byte list \<Rightarrow> byte list \<Rightarrow> byte list result" where
  "gcm_decrypt key nonce ct tag =
     bind_result (aes_new key MODE_GCM nonce) (\<lambda>g. fst (decrypt_and_verify ct tag [] g))"


section \<open>Bytes and xor\<close>

lemma length_xor_bytes [simp]: "length (xor_bytes xs ys) = min (length xs) (length ys)"
  by (simp add: xor_bytes_def)

lemma nth_xor_bytes [simp]:
  "i < length xs \<Longrightarrow> i < length ys \<Longrightarrow> xor_bytes xs ys ! i = xs ! i XOR ys ! i"
  by (simp add: xor_bytes_def)

lemma xor_cancel [simp]: "(a XOR b) XOR b = a" "b XOR (b XOR a) = a" for a b :: "'a::len word"
  by (rule bit_word_eqI; auto simp: bit_xor_iff)+

lemma xor_bytes_twice: "length xs \<le> length ks \<Longrightarrow> xor_bytes (xor_bytes xs ks) ks = xs"
  by (rule nth_equalityI) simp_all

lemma xor_bytes_inj:
  assumes "xor_bytes xs ks = xor_bytes ys ks" "length xs \<le> length ks" "length ys \<le> length ks"
  shows "xs = ys"
  using assms xor_bytes_twice by metis

lemma xor_bytes_cancel: "length xs = length ks \<Longrightarrow> xor_bytes xs (xor_bytes xs ks) = ks"
  by (rule nth_equalityI) simp_all

lemma xor_bytes_comm: "xor_bytes xs ys = xor_bytes ys xs"
  by (rule nth_equalityI) (simp_all add: xor.commute)

lemma length_be_bytes [simp]: "length (be_bytes k n) = k"
  by (simp add: be_bytes_def)

lemma from_bytes_append: "from_bytes (bs @ [b]) = from_bytes bs * 256 + uint b"
  by (simp add: from_bytes_def)

lemma be_bytes_Suc: "be_bytes (Suc k) n = be_bytes k (n div 256) @ [word_of_int n]"
proof -
  have "n div 256 ^ (k - i) = n div 256 div 256 ^ (k - 1 - i)" if "i < k" for i
  proof -
    have "k - i = Suc (k - 1 - i)" using that by simp
    then show ?thesis by (simp add: zdiv_zmult2_eq)
  qed
  then show ?thesis by (simp add: be_bytes_def)
qed

lemma from_be_bytes: "0 \<le> n \<Longrightarrow> n < 256 ^ k \<Longrightarrow> from_bytes (be_bytes k n) = n"
proof (induction k arbitrary: n)
  case 0
  then show ?case by (simp add: be_bytes_def from_bytes_def)
next
  case (Suc k)
  then have "n div 256 < 256 ^ k" by (simp add: div_less_iff_less_mult mult.commute)
  with Suc have "from_bytes (be_bytes k (n div 256)) = n div 256" by simp
  moreover have "uint (word_of_int n :: byte) = n mod 256" by (simp add: uint_word_of_int)
  ultimately show ?case by (simp add: be_bytes_Suc from_bytes_append)
qed

lemma be_from_bytes: "be_bytes (length bs) (from_bytes bs) = bs"
proof (induction bs rule: rev_induct)
  case Nil
  then show ?case by (simp add: be_bytes_def)
next
  case (snoc b bs)
  have "0 \<le> uint b \<and> uint b < 256" using uint_lt2p [of b] by simp
  then have "(from_bytes bs * 256 + uint b) div 256 = from_bytes bs" by simp
  moreover have "(256 :: byte) = 0" by (rule word_uint_eqI) simp
  then have "word_of_int (from_bytes bs * 256 + uint b) = b"
    by (simp only: of_int_add of_int_mult of_int_numeral mult_zero_right add_0_left word_of_int_uint)
  ultimately show ?case using snoc by (simp add: be_bytes_Suc from_bytes_append)
qed

lemma from_bytes_bounds: "0 \<le> from_bytes bs \<and> from_bytes bs < 256 ^ length bs"
proof (induction bs rule: rev_induct)
  case Nil
  then show ?case by (simp add: from_bytes_def)
next
  case (snoc b bs)
  have "0 \<le> uint b \<and> uint b < 256" using uint_lt2p [of b] by simp
  with snoc show ?case by (simp add: from_bytes_append)
qed

lemma to_bytes_Inr: "0 \<le> n \<Longrightarrow> n < 256 ^ k \<Longrightarrow> to_bytes k n = Inr (be_bytes k n)"
  by (simp add: to_bytes_def)

lemma to_bytes_inj: "to_bytes k m = Inr bs \<Longrightarrow> to_bytes k n = Inr bs \<Longrightarrow> m = n"
  using from_be_bytes by (auto simp: to_bytes_def split: if_splits) metis

section \<open>The cipher is total and injective\<close>

definition good_keys :: "byte list list \<Rightarrow> bool" where
  "good_keys rks \<longleftrightarrow> (\<forall>r<15. length (rks ! r) = 16)"

lemma length_shift_order [simp]: "length shift_order = 16"
  by (simp add: shift_order_def)

lemma length_mix_columns [simp]: "length (mix_columns s) = 16"
  by (simp add: mix_columns_def upt_rec split_beta)

lemma shift_rows_Inr: "length s = 16 \<Longrightarrow> shift_rows s = Inr (map (\<lambda>i. s ! i) shift_order)"
  by (simp add: shift_rows_def)

lemma aes_rounds_total:
  "good_keys rks \<Longrightarrow> \<forall>r\<in>set rs. r < 15 \<Longrightarrow> length s = 16 \<Longrightarrow> \<exists>t. aes_rounds rks rs s = Inr t \<and> length t = 16"
  by (induction rs arbitrary: s) (auto simp: shift_rows_Inr good_keys_def)

lemma aes_encrypt_block_total:
  assumes "good_keys rks" "length b = 16"
  shows "\<exists>c. aes_encrypt_block b rks = Inr c \<and> length c = 16"
proof -
  have "length (xor_bytes b (rks ! 0)) = 16" "length (rks ! 14) = 16" using assms by (simp_all add: good_keys_def)
  moreover from this(1) obtain t where "aes_rounds rks [1..<14] (xor_bytes b (rks ! 0)) = Inr t" "length t = 16"
    using aes_rounds_total [OF assms(1), of "[1..<14]"] by fastforce
  ultimately show ?thesis by (simp add: aes_encrypt_block_def shift_rows_Inr)
qed

lemma expand_step_total:
  assumes "8 \<le> i" "length w = i" "\<forall>x\<in>set w. length x = 4"
  shows "\<exists>x. expand_step i w = Inr (w @ [x]) \<and> length x = 4"
proof -
  have l: "length (w ! (i - 1)) = 4" "length (w ! (i - 8)) = 4" using assms by simp_all
  let ?rot = "map sub_byte (drop 1 (w ! (i - 1)) @ take 1 (w ! (i - 1)))"
  have len: "length ?rot = 4" using l(1) by simp
  obtain t ts where rot: "?rot = t # ts" using len by (metis length_0_conv neq_Nil_conv zero_neq_numeral)
  moreover have "length ts = 3" using len unfolding rot by simp
  ultimately show ?thesis using l unfolding expand_step_def by simp
qed

lemma expand_loop_total:
  "8 \<le> i \<Longrightarrow> length w = i \<Longrightarrow> \<forall>x\<in>set w. length x = 4 \<Longrightarrow>
   \<exists>w'. expand_loop [i..<i + n] w = Inr w' \<and> length w' = i + n \<and> (\<forall>x\<in>set w'. length x = 4)"
proof (induction n arbitrary: i w)
  case 0
  then show ?case by simp
next
  case (Suc n)
  obtain x where x: "expand_step i w = Inr (w @ [x])" "length x = 4"
    using expand_step_total [OF Suc.prems] by blast
  have "\<exists>w'. expand_loop [Suc i..<Suc i + n] (w @ [x]) = Inr w' \<and> length w' = Suc i + n \<and> (\<forall>x\<in>set w'. length x = 4)"
    using Suc.prems x(2) by (intro Suc.IH) auto
  moreover have "[i..<i + Suc n] = i # [Suc i..<Suc i + n]" by (simp add: upt_rec)
  ultimately show ?case using x(1) by simp
qed

lemma length_concat_const: "\<forall>x\<in>set xs. length x = k \<Longrightarrow> length (concat xs) = k * length xs"
  by (induction xs) auto

lemma key_expansion_total:
  assumes "32 \<le> length key"
  shows "\<exists>rks. key_expansion key = Inr rks \<and> good_keys rks"
proof -
  define w0 where "w0 = map (\<lambda>i. take 4 (drop (4 * i) key)) [0..<8]"
  have "\<forall>x\<in>set w0. length x = 4" "length w0 = 8" using assms by (auto simp: w0_def)
  from expand_loop_total [OF order_refl this(2,1), of 52]
  obtain w where w: "expand_loop [8..<60] w0 = Inr w" "length w = 60" "\<forall>x\<in>set w. length x = 4" by auto
  have "length (concat (take 4 (drop (4 * j) w))) = 16" if "j < 15" for j
  proof -
    let ?xs = "take 4 (drop (4 * j) w)"
    have "\<forall>x\<in>set ?xs. length x = 4" using w(3) by (auto dest!: in_set_takeD in_set_dropD)
    moreover have "length ?xs = 4" using that w(2) by simp
    ultimately show ?thesis using length_concat_const [of ?xs 4] by simp
  qed
  then show ?thesis using w(1) unfolding key_expansion_def w0_def [symmetric] by (simp add: good_keys_def del: upt_rec_numeral)
qed


text \<open>Every step of a round is injective on 16-byte states.\<close>

lemma SBOX_sorted: "sort (map uint SBOX) = [0..255]"
  by code_simp

lemma sub_byte_inj: "sub_byte a = sub_byte b \<Longrightarrow> a = b"
proof -
  have "distinct (sort (map uint SBOX))" unfolding SBOX_sorted by (rule distinct_upto)
  then have d: "distinct SBOX" by (simp add: distinct_map)
  have l: "length SBOX = 256" by (simp add: SBOX_def)
  have "unat x < length SBOX" for x :: byte using l unsigned_less [of x, where ?'a = nat] by simp
  from nth_eq_iff_index_eq [OF d this this] show "sub_byte a = sub_byte b \<Longrightarrow> a = b"
    by (metis sub_byte_def unsigned_word_eqI)
qed

lemma xtime_xor: "xtime (a XOR b) = xtime a XOR xtime b"
proof -
  have x: "xtime a = push_bit 1 a XOR (if bit a 7 then 0x1b else 0)" for a
  proof -
    have "a AND 0x80 \<noteq> 0 \<longleftrightarrow> bit a 7" using bit_iff_and_push_bit_not_eq_0 [of a 7] by simp
    then show ?thesis by (simp add: xtime_def)
  qed
  show ?thesis unfolding x by (rule bit_word_eqI) (auto simp: bit_simps)
qed

lemma mix_column_twice:
  "mix_column (mix_column (a, b, c, d)) =
     (a XOR xtime (xtime (a XOR c)), b XOR xtime (xtime (b XOR d)),
      c XOR xtime (xtime (c XOR a)), d XOR xtime (xtime (d XOR b)))"
  by (simp add: mix_column_def xtime_xor ac_simps)


lemma mix_column_inj: "mix_column x = mix_column y \<Longrightarrow> x = y"
proof -
  have four: "mix_column (mix_column (mix_column (mix_column s))) = s" for s
    by (cases s) (simp add: mix_column_twice xtime_xor ac_simps)
  show "mix_column x = mix_column y \<Longrightarrow> x = y" by (metis four)
qed

lemma list16_eqI:
  assumes "length s = 16" "length t = 16"
    and "\<And>c. c < 4 \<Longrightarrow> (s ! (4*c), s ! (4*c+1), s ! (4*c+2), s ! (4*c+3)) = (t ! (4*c), t ! (4*c+1), t ! (4*c+2), t ! (4*c+3))"
  shows "s = t"
proof (rule nth_equalityI)
  show "length s = length t" using assms(1,2) by simp
  fix i assume "i < length s"
  then have "i div 4 < 4" using assms(1) by (simp add: div_less_iff_less_mult)
  note q = assms(3) [OF this]
  have "i mod 4 < 4" by simp
  then consider "i mod 4 = 0" | "i mod 4 = 1" | "i mod 4 = 2" | "i mod 4 = 3" by linarith
  moreover have "i = 4 * (i div 4) + i mod 4" by simp
  ultimately show "s ! i = t ! i" using q by cases (metis add_0_right prod.inject)+
qed

lemma mix_columns_inj:
  assumes "length s = 16" "length t = 16" "mix_columns s = mix_columns t"
  shows "s = t"
proof (rule list16_eqI [OF assms(1,2)])
  fix c :: nat assume "c < 4"
  then have "c \<in> {0, 1, 2, 3}" by auto
  then have "mix_column (s ! (4*c), s ! (4*c+1), s ! (4*c+2), s ! (4*c+3)) =
      mix_column (t ! (4*c), t ! (4*c+1), t ! (4*c+2), t ! (4*c+3))"
    using assms(3) by (auto simp: mix_columns_def upt_rec split: prod.splits)
  then show "(s ! (4*c), s ! (4*c+1), s ! (4*c+2), s ! (4*c+3)) = (t ! (4*c), t ! (4*c+1), t ! (4*c+2), t ! (4*c+3))"
    by (rule mix_column_inj)
qed

lemma set_shift_order: "set shift_order = set [0..<16]"
  by code_simp

lemma shift_rows_inj:
  assumes "length s = 16" "length t = 16" "map (\<lambda>i. s ! i) shift_order = map (\<lambda>i. t ! i) shift_order"
  shows "s = t"
proof (rule nth_equalityI)
  show "length s = length t" using assms by simp
  fix i assume "i < length s"
  then have "i \<in> set shift_order" using assms(1) by (simp add: set_shift_order del: upt_rec_numeral)
  then show "s ! i = t ! i" using assms(3) by simp
qed

lemma sub_bytes_inj: "map sub_byte s = map sub_byte t \<Longrightarrow> s = t"
  using sub_byte_inj by (simp add: inj_map_eq_map inj_on_def)

lemma aes_rounds_inj:
  "good_keys rks \<Longrightarrow> \<forall>r\<in>set rs. r < 15 \<Longrightarrow> length s = 16 \<Longrightarrow> length t = 16 \<Longrightarrow>
   aes_rounds rks rs s = aes_rounds rks rs t \<Longrightarrow> s = t"
proof (induction rs arbitrary: s t)
  case Nil
  then show ?case by simp
next
  case (Cons r rs)
  let ?sh = "\<lambda>x. map (\<lambda>i. map sub_byte x ! i) shift_order"
  have k: "length (rks ! r) = 16" using Cons.prems(1,2) by (simp add: good_keys_def)
  have "aes_rounds rks rs (xor_bytes (mix_columns (?sh s)) (rks ! r)) = aes_rounds rks rs (xor_bytes (mix_columns (?sh t)) (rks ! r))"
    using Cons.prems by (simp add: shift_rows_Inr)
  then have "xor_bytes (mix_columns (?sh s)) (rks ! r) = xor_bytes (mix_columns (?sh t)) (rks ! r)"
    using Cons.prems k by (intro Cons.IH) simp_all
  then have "mix_columns (?sh s) = mix_columns (?sh t)" by (rule xor_bytes_inj) (use k in simp_all)
  then have "?sh s = ?sh t" by (rule mix_columns_inj [rotated 2]) simp_all
  then have "map sub_byte s = map sub_byte t"
    by (rule shift_rows_inj [rotated 2]) (use Cons.prems(3,4) in simp_all)
  then show ?case by (rule sub_bytes_inj)
qed

lemma aes_encrypt_block_inj:
  assumes "good_keys rks" "length b = 16" "length b' = 16" "aes_encrypt_block b rks = aes_encrypt_block b' rks"
  shows "b = b'"
proof -
  let ?x = "\<lambda>b. xor_bytes b (rks ! 0)"
  have k: "length (rks ! 0) = 16" "length (rks ! 14) = 16" using assms(1) by (simp_all add: good_keys_def)
  have r: "\<forall>r\<in>set [1..<14]. r < 15" by simp
  obtain s where s: "aes_rounds rks [1..<14] (?x b) = Inr s" "length s = 16"
    using aes_rounds_total [OF assms(1) r, of "?x b"] assms(2) k by auto
  obtain t where t: "aes_rounds rks [1..<14] (?x b') = Inr t" "length t = 16"
    using aes_rounds_total [OF assms(1) r, of "?x b'"] assms(3) k by auto
  let ?sh = "\<lambda>x. map (\<lambda>i. map sub_byte x ! i) shift_order"
  have "xor_bytes (?sh s) (rks ! 14) = xor_bytes (?sh t) (rks ! 14)"
    using assms(4) s t by (simp add: aes_encrypt_block_def shift_rows_Inr del: upt_rec_numeral)
  then have "?sh s = ?sh t" by (rule xor_bytes_inj) (use k in simp_all)
  then have "map sub_byte s = map sub_byte t" by (rule shift_rows_inj [rotated 2]) (use s t in simp_all)
  then have "s = t" by (rule sub_bytes_inj)
  then have "?x b = ?x b'" by (intro aes_rounds_inj [OF assms(1) r]) (use s t assms k in simp_all)
  then show ?thesis by (rule xor_bytes_inj) (use assms k in simp_all)
qed


section \<open>Counter mode over any block cipher\<close>

locale block_cipher =
  fixes enc :: "'k \<Rightarrow> byte list \<Rightarrow> byte list result" and good :: "'k \<Rightarrow> bool"
  assumes enc_total: "good k \<Longrightarrow> length b = 16 \<Longrightarrow> \<exists>c. enc k b = Inr c \<and> length c = 16"
begin

lemma ctr_loop_step:
  assumes "good k" "0 \<le> c" "c < 2 ^ 128" "data \<noteq> []" "ctr_loop (enc k) (c + 1) (drop 16 data) = (Inr rest, c')"
  shows "\<exists>ks. enc k (be_bytes 16 c) = Inr ks \<and> length ks = 16 \<and>
    ctr_loop (enc k) c data = (Inr (xor_bytes (take 16 data) ks @ rest), c')"
proof -
  obtain ks where ks: "enc k (be_bytes 16 c) = Inr ks" "length ks = 16" using enc_total [OF assms(1), of "be_bytes 16 c"] by auto
  have "to_bytes 16 c = Inr (be_bytes 16 c)" using assms(2,3) by (simp add: to_bytes_Inr)
  moreover have "xor_bytes (take 16 data) (take (length (take 16 data)) ks) = xor_bytes (take 16 data) ks"
    by (rule nth_equalityI) (simp_all add: ks(2))
  ultimately show ?thesis using assms ks by (simp add: ctr_loop.simps [of _ _ data])
qed

lemma ctr_loop_inverse:
  "good k \<Longrightarrow> 0 \<le> c \<Longrightarrow> c + int ((length data + 15) div 16) \<le> 2 ^ 128 \<Longrightarrow>
   \<exists>out c'. ctr_loop (enc k) c data = (Inr out, c') \<and> length out = length data \<and>
     ctr_loop (enc k) c out = (Inr data, c')"
proof (induction "length data" arbitrary: data c rule: less_induct)
  case less
  show ?case
  proof (cases "data = []")
    case True
    then show ?thesis by (simp add: ctr_loop.simps)
  next
    case False
    have n: "(length data + 15) div 16 = Suc ((length (drop 16 data) + 15) div 16)"
      using False by (cases "length data \<le> 16") (auto simp: div_if Suc_le_eq)
    obtain out c' where o: "ctr_loop (enc k) (c + 1) (drop 16 data) = (Inr out, c')" "length out = length (drop 16 data)"
      "ctr_loop (enc k) (c + 1) out = (Inr (drop 16 data), c')"
      using less.hyps [of "drop 16 data" "c + 1"] less.prems False n by auto
    have c: "c < 2 ^ 128" using less.prems(3) n by simp
    obtain ks where ks: "enc k (be_bytes 16 c) = Inr ks" "length ks = 16"
      and l: "ctr_loop (enc k) c data = (Inr (xor_bytes (take 16 data) ks @ out), c')"
      using ctr_loop_step [OF less.prems(1,2) c False o(1)] by blast
    let ?data = "xor_bytes (take 16 data) ks @ out"
    have ne: "?data \<noteq> []" using False ks(2) by (cases data) (auto simp flip: length_greater_0_conv)
    have tk: "take 16 ?data = xor_bytes (take 16 data) ks \<and> drop 16 ?data = out"
      using o(2) ks(2) by (cases "length data \<le> 16") auto
    with o(3) have "ctr_loop (enc k) (c + 1) (drop 16 ?data) = (Inr (drop 16 data), c')" by simp
    from ctr_loop_step [OF less.prems(1,2) c ne this] ks(1) tk
    have "ctr_loop (enc k) c ?data = (Inr (xor_bytes (xor_bytes (take 16 data) ks) ks @ drop 16 data), c')" by auto
    then show ?thesis using l o(2) ks(2) by (simp add: xor_bytes_twice)
  qed
qed

end

locale block_permutation = block_cipher +
  assumes enc_inj: "good k \<Longrightarrow> length b = 16 \<Longrightarrow> length b' = 16 \<Longrightarrow> enc k b = enc k b' \<Longrightarrow> b = b'"
begin

lemma enc_bij: "good k \<Longrightarrow> bij_betw (enc k) {b. length b = 16} (Inr ` {b. length b = 16})"
proof -
  assume k: "good k"
  let ?B = "{b :: byte list. length b = 16}"
  have fin: "finite ?B" using finite_lists_length_eq [of "UNIV :: byte set" 16] by simp
  have inj: "inj_on (enc k) ?B" using enc_inj [OF k] by (auto simp: inj_on_def)
  have sub: "enc k ` ?B \<subseteq> Inr ` ?B" using enc_total [OF k] by fastforce
  have "card (Inr ` ?B :: byte list result set) = card (enc k ` ?B)" using inj by (simp add: card_image)
  then have "enc k ` ?B = Inr ` ?B" using sub fin by (intro card_subset_eq) simp_all
  with inj show ?thesis by (simp add: bij_betw_def)
qed

lemma keystream_distinct:
  assumes "good k" "0 \<le> c" "c + int n \<le> 2 ^ 128"
  shows "distinct (map (\<lambda>i. enc k (be_bytes 16 (c + int i))) [0..<n])"
proof -
  have "c + int i = c + int j" if "i < n" "j < n" "enc k (be_bytes 16 (c + int i)) = enc k (be_bytes 16 (c + int j))" for i j
  proof -
    have "be_bytes 16 (c + int i) = be_bytes 16 (c + int j)" using enc_inj [OF assms(1) _ _ that(3)] by simp
    moreover have "from_bytes (be_bytes 16 (c + int m)) = c + int m" if "m < n" for m
      by (rule from_be_bytes) (use assms(2,3) that in simp_all)
    ultimately show ?thesis using that(1,2) by metis
  qed
  then show ?thesis by (auto simp: distinct_map inj_on_def)
qed

end

interpretation aes: block_permutation "\<lambda>rks b. aes_encrypt_block b rks" good_keys
  by unfold_locales (auto intro: aes_encrypt_block_total aes_encrypt_block_inj)


section \<open>Authenticated encryption\<close>

text \<open>A key of at least 32 bytes, a nonce of 12, and a message the counter has room for.\<close>

definition gcm_args :: "byte list \<Rightarrow> byte list \<Rightarrow> byte list \<Rightarrow> bool" where
  "gcm_args key nonce msg \<longleftrightarrow> 32 \<le> length key \<and> length nonce = 12 \<and> length msg \<le> 16 * (2 ^ 32 - 1)"

definition gcm_ready :: "byte list \<Rightarrow> gcm_mode \<Rightarrow> bool" where
  "gcm_ready nonce g \<longleftrightarrow> good_keys (gcm_round_keys g) \<and> gcm_J0 g = nonce @ [0, 0, 0, 1] \<and>
     gcm_counter g = from_bytes (gcm_J0 g) \<and> length nonce = 12"

lemma new_gcm_total:
  assumes "32 \<le> length key" "length nonce = 12"
  shows "\<exists>g. aes_new key MODE_GCM nonce = Inr g \<and> gcm_ready nonce g \<and>
    key_expansion key = Inr (gcm_round_keys g) \<and>
    aes_encrypt_block (replicate 16 0) (gcm_round_keys g) = Inr (gcm_H g)"
proof -
  obtain rks where r: "key_expansion key = Inr rks" "good_keys rks" using key_expansion_total [OF assms(1)] by blast
  moreover obtain h where "aes_encrypt_block (replicate 16 0) rks = Inr h"
    using aes_encrypt_block_total [OF r(2), of "replicate 16 0"] by auto
  ultimately show ?thesis using assms(2) by (simp add: aes_new_def new_gcm_def gcm_ready_def)
qed

lemma counter_room:
  assumes "gcm_ready nonce g" "length msg \<le> 16 * (2 ^ 32 - 1)"
  shows "0 \<le> gcm_counter g" "gcm_counter g + int ((length msg + 15) div 16) \<le> 2 ^ 128"
proof -
  have "nonce @ [0, 0, 0, 1] = (((nonce @ [0]) @ [0]) @ [0]) @ [1]" by simp
  then have c: "gcm_counter g = ((from_bytes nonce * 256 * 256) * 256) * 256 + 1"
    using assms(1) by (simp only: gcm_ready_def from_bytes_append) simp
  have "0 \<le> from_bytes nonce \<and> from_bytes nonce \<le> 256 ^ 12 - 1"
    using from_bytes_bounds [of nonce] assms(1) by (simp add: gcm_ready_def)
  moreover have "(length msg + 15) div 16 \<le> 2 ^ 32 - 1" using assms(2) by (simp add: div_le_mono)
  then have "int ((length msg + 15) div 16) \<le> 2 ^ 32 - 1" by simp
  ultimately show "0 \<le> gcm_counter g" "gcm_counter g + int ((length msg + 15) div 16) \<le> 2 ^ 128"
    unfolding c by simp_all
qed

lemma to_bytes_word: "\<exists>bs. to_bytes 16 (uint (x :: 128 word)) = Inr bs \<and> length bs = 16"
  using uint_lt2p [of x] by (simp add: to_bytes_def)

lemma ghash_total:
  assumes "length aad \<le> 16 * (2 ^ 32 - 1)" "length ct \<le> 16 * (2 ^ 32 - 1)"
  shows "\<exists>s. ghash h aad ct = Inr s \<and> length s = 16"
proof -
  have "\<exists>b. pack_QQ (int (length aad) * 8) (int (length ct) * 8) = Inr b" using assms by (simp add: pack_QQ_def)
  then show ?thesis using to_bytes_word by (auto simp: ghash_def)
qed

lemma gcm_tag_total:
  assumes "gcm_ready nonce g" "length ct \<le> 16 * (2 ^ 32 - 1)"
  shows "\<exists>s mask. ghash (gcm_H g) [] ct = Inr s \<and> length s = 16 \<and>
    aes_encrypt_block (gcm_J0 g) (gcm_round_keys g) = Inr mask \<and> length mask = 16 \<and>
    gcm_tag g [] ct = Inr (xor_bytes s mask)"
proof -
  obtain s where "ghash (gcm_H g) [] ct = Inr s" "length s = 16" using ghash_total [of "[]" ct] assms(2) by auto
  moreover obtain mask where "aes_encrypt_block (gcm_J0 g) (gcm_round_keys g) = Inr mask" "length mask = 16"
    using aes_encrypt_block_total [of "gcm_round_keys g" "gcm_J0 g"] assms(1) by (auto simp: gcm_ready_def)
  ultimately show ?thesis by (simp add: gcm_tag_def)
qed

text \<open>What encryption returns, and that the counter loop run on its output gives the input back.\<close>

lemma gcm_encrypt_total:
  assumes "gcm_args key nonce pt"
  obtains g ct c' tag where "aes_new key MODE_GCM nonce = Inr g" "gcm_ready nonce g"
    "ctr_loop (\<lambda>b. aes_encrypt_block b (gcm_round_keys g)) (gcm_counter g) pt = (Inr ct, c')"
    "ctr_loop (\<lambda>b. aes_encrypt_block b (gcm_round_keys g)) (gcm_counter g) ct = (Inr pt, c')"
    "length ct = length pt" "gcm_tag g [] ct = Inr tag" "length tag = 16" "gcm_encrypt key pt nonce = Inr (ct, tag)"
proof -
  obtain g where g: "aes_new key MODE_GCM nonce = Inr g" "gcm_ready nonce g"
    using new_gcm_total [of key nonce] assms by (auto simp: gcm_args_def)
  have len: "length pt \<le> 16 * (2 ^ 32 - 1)" and k: "good_keys (gcm_round_keys g)"
    using assms g(2) by (simp_all add: gcm_args_def gcm_ready_def)
  obtain ct c' where ct: "ctr_loop (\<lambda>b. aes_encrypt_block b (gcm_round_keys g)) (gcm_counter g) pt = (Inr ct, c')"
    "ctr_loop (\<lambda>b. aes_encrypt_block b (gcm_round_keys g)) (gcm_counter g) ct = (Inr pt, c')" "length ct = length pt"
    using aes.ctr_loop_inverse [OF k counter_room [OF g(2) len]] by blast
  then obtain tag where t: "gcm_tag g [] ct = Inr tag" "length tag = 16"
    using gcm_tag_total [OF g(2), of ct] len by auto
  have "gcm_encrypt key pt nonce = Inr (ct, tag)"
    using g(1) ct(1) t(1) by (simp add: gcm_encrypt_def encrypt_and_digest_def)
  then show ?thesis using that g ct t by blast
qed

lemma gcm_decrypt_eq:
  "aes_new key MODE_GCM nonce = Inr g \<Longrightarrow> gcm_tag g [] ct = Inr expected \<Longrightarrow>
   gcm_decrypt key nonce ct tag =
     (if tag \<noteq> expected then Inl ValueError
      else fst (ctr_loop (\<lambda>b. aes_encrypt_block b (gcm_round_keys g)) (gcm_counter g) ct))"
  by (simp add: gcm_decrypt_def decrypt_and_verify_def split_beta)

section \<open>Properties\<close>

text \<open>C38: with a key of at least 32 bytes, a 12-byte nonce and at most \<open>2^32 - 1\<close> blocks,
  encryption returns a ciphertext as long as the plaintext and a 16-byte tag, and decrypting
  them returns the plaintext.\<close>

theorem gcm_roundtrip:
  assumes "gcm_args key nonce pt"
  shows "\<exists>ct tag. gcm_encrypt key pt nonce = Inr (ct, tag) \<and> length ct = length pt \<and> length tag = 16 \<and>
    gcm_decrypt key nonce ct tag = Inr pt"
proof -
  obtain g ct c' tag where g: "aes_new key MODE_GCM nonce = Inr g"
    "ctr_loop (\<lambda>b. aes_encrypt_block b (gcm_round_keys g)) (gcm_counter g) ct = (Inr pt, c')"
    "length ct = length pt" "gcm_tag g [] ct = Inr tag" "length tag = 16" "gcm_encrypt key pt nonce = Inr (ct, tag)"
    using gcm_encrypt_total [OF assms] .
  then show ?thesis by (auto simp: gcm_decrypt_eq)
qed

theorem gcm_roundtrip_witness:
  "\<exists>ct tag. gcm_encrypt (replicate 32 7) [1, 2, 3] (replicate 12 9) = Inr (ct, tag) \<and> length ct = 3 \<and>
    gcm_decrypt (replicate 32 7) (replicate 12 9) ct tag = Inr [1, 2, 3]"
  using gcm_roundtrip [of "replicate 32 7" "replicate 12 9" "[1, 2, 3]"] by (auto simp: gcm_args_def)

text \<open>C39: decryption accepts exactly what encryption with the same key and nonce produces: for any
  ciphertext and tag it either returns the plaintext whose encryption is that pair, or there is
  none and it raises \<open>ValueError\<close>.\<close>

theorem gcm_decrypt_sound:
  assumes "gcm_args key nonce ct"
  shows "(\<exists>pt. gcm_decrypt key nonce ct tag = Inr pt \<and> gcm_encrypt key pt nonce = Inr (ct, tag)) \<or>
    (gcm_decrypt key nonce ct tag = Inl ValueError \<and> (\<nexists>pt. gcm_encrypt key pt nonce = Inr (ct, tag)))"
proof -
  obtain g where g: "aes_new key MODE_GCM nonce = Inr g" "gcm_ready nonce g"
    using new_gcm_total [of key nonce] assms by (auto simp: gcm_args_def)
  have len: "length ct \<le> 16 * (2 ^ 32 - 1)" and k: "good_keys (gcm_round_keys g)"
    using assms g(2) by (simp_all add: gcm_args_def gcm_ready_def)
  obtain expected where t: "gcm_tag g [] ct = Inr expected" using gcm_tag_total [OF g(2) len] by auto
  obtain pt c' where pt: "ctr_loop (\<lambda>b. aes_encrypt_block b (gcm_round_keys g)) (gcm_counter g) ct = (Inr pt, c')"
    "ctr_loop (\<lambda>b. aes_encrypt_block b (gcm_round_keys g)) (gcm_counter g) pt = (Inr ct, c')"
    using aes.ctr_loop_inverse [OF k counter_room [OF g(2) len]] by blast
  have enc: "gcm_encrypt key p nonce = Inr (ct, tag) \<Longrightarrow> tag = expected" for p
    using g(1) t by (auto simp: gcm_encrypt_def encrypt_and_digest_def split_beta bind_result_Inr_conv)
  show ?thesis
  proof (cases "tag = expected")
    case True
    then have "gcm_encrypt key pt nonce = Inr (ct, tag)"
      using g(1) pt(2) t by (simp add: gcm_encrypt_def encrypt_and_digest_def)
    then show ?thesis using True pt(1) by (simp add: gcm_decrypt_eq [OF g(1) t])
  next
    case False
    then show ?thesis using enc by (auto simp: gcm_decrypt_eq [OF g(1) t])
  qed
qed

theorem gcm_decrypt_sound_witness:
  "gcm_decrypt (replicate 32 7) (replicate 12 9) [] [] = Inl ValueError"
proof -
  obtain g where g: "aes_new (replicate 32 7) MODE_GCM (replicate 12 9) = Inr g" "gcm_ready (replicate 12 9) g"
    using new_gcm_total [of "replicate 32 7" "replicate 12 9"] by auto
  obtain s mask where "length s = 16" "length mask = 16" "gcm_tag g [] [] = Inr (xor_bytes s mask)"
    using gcm_tag_total [OF g(2), of "[]"] by auto
  then have "gcm_encrypt (replicate 32 7) pt (replicate 12 9) \<noteq> Inr ([], [])" for pt
    using g(1) by (auto simp: gcm_encrypt_def encrypt_and_digest_def split_beta bind_result_Inr_conv dest!: arg_cong [of _ _ length])
  with gcm_decrypt_sound [of "replicate 32 7" "replicate 12 9" "[]" "[]"] show ?thesis by (auto simp: gcm_args_def)
qed

text \<open>For any key of at least 32 bytes the key schedule succeeds and the block function it gives
  permutes the 16-byte blocks.\<close>

theorem aes_block_permutation:
  assumes "32 \<le> length key"
  shows "\<exists>rks. key_expansion key = Inr rks \<and>
    bij_betw (\<lambda>b. aes_encrypt_block b rks) {b. length b = 16} (Inr ` {b. length b = 16})"
  using key_expansion_total [OF assms] aes.enc_bij by blast

theorem aes_block_permutation_witness:
  "\<exists>rks. key_expansion (replicate 32 0) = Inr rks \<and>
    inj_on (\<lambda>b. aes_encrypt_block b rks) {b. length b = 16}"
  using aes_block_permutation [of "replicate 32 0"] by (auto simp: bij_betw_def)

text \<open>The first keystream block is the mask of the tag: the first plaintext block is known as
  soon as the GHASH value is, since its xor with the ciphertext equals the xor of tag and GHASH.
  (In GCM the keystream starts one counter later.)\<close>

theorem tag_mask_is_first_keystream_block:
  assumes "gcm_args key nonce pt" and "16 \<le> length pt" and "gcm_encrypt key pt nonce = Inr (ct, tag)"
  shows "\<exists>rks h s. key_expansion key = Inr rks \<and> aes_encrypt_block (replicate 16 0) rks = Inr h \<and>
    ghash h [] ct = Inr s \<and> xor_bytes (take 16 pt) (take 16 ct) = xor_bytes tag s"
proof -
  obtain g where g: "aes_new key MODE_GCM nonce = Inr g" "gcm_ready nonce g"
      "key_expansion key = Inr (gcm_round_keys g)" "aes_encrypt_block (replicate 16 0) (gcm_round_keys g) = Inr (gcm_H g)"
    using new_gcm_total [of key nonce] assms(1) by (auto simp: gcm_args_def)
  have len: "length pt \<le> 16 * (2 ^ 32 - 1)" and k: "good_keys (gcm_round_keys g)"
    using assms(1) g(2) by (simp_all add: gcm_args_def gcm_ready_def)
  let ?E = "\<lambda>b. aes_encrypt_block b (gcm_round_keys g)" and ?c = "gcm_counter g"
  note room = counter_room [OF g(2) len]
  obtain c' where ct: "ctr_loop ?E ?c pt = (Inr ct, c')" and lct: "length ct = length pt"
    using aes.ctr_loop_inverse [OF k room] assms(3) g(1)
    by (auto simp: gcm_encrypt_def encrypt_and_digest_def bind_result_Inr_conv)
  have ne: "pt \<noteq> []" using assms(2) by (cases pt) simp_all
  then have n: "(length pt + 15) div 16 = Suc ((length (drop 16 pt) + 15) div 16)"
    using assms(2) by (simp add: div_if)
  then have c1: "?c < 2 ^ 128" "?c + 1 + int ((length (drop 16 pt) + 15) div 16) \<le> 2 ^ 128" using room(2) by simp_all
  obtain rest c'' where "ctr_loop ?E (?c + 1) (drop 16 pt) = (Inr rest, c'')"
    using aes.ctr_loop_inverse [OF k _ c1(2)] room(1) by auto
  with ne obtain ks where ks: "?E (be_bytes 16 ?c) = Inr ks" "length ks = 16" "ct = xor_bytes (take 16 pt) ks @ rest"
    using aes.ctr_loop_step [OF k room(1) c1(1)] ct by (metis Inr_inject prod.inject)
  have "be_bytes 16 ?c = gcm_J0 g"
    using g(2) be_from_bytes [of "gcm_J0 g"] by (simp add: gcm_ready_def)
  obtain s mask where m: "ghash (gcm_H g) [] ct = Inr s" "length s = 16" "?E (gcm_J0 g) = Inr mask" "length mask = 16"
      "gcm_tag g [] ct = Inr (xor_bytes s mask)"
    using gcm_tag_total [OF g(2), of ct] len lct by auto
  have "take 16 ct = xor_bytes (take 16 pt) mask"
    using ks m(3) \<open>be_bytes 16 ?c = gcm_J0 g\<close> assms(2) by simp
  then have "xor_bytes (take 16 pt) (take 16 ct) = mask" using assms(2) m(4) by (simp add: xor_bytes_cancel)
  moreover have "tag = xor_bytes s mask"
    using assms(3) g(1) ct m(5) by (simp add: gcm_encrypt_def encrypt_and_digest_def)
  then have "xor_bytes tag s = mask" using m(2,4) by (simp add: xor_bytes_comm [of "xor_bytes s mask"] xor_bytes_cancel)
  ultimately show ?thesis using g(3,4) m(1) by auto
qed

theorem tag_mask_is_first_keystream_block_witness:
  "\<exists>ct tag rks h s. gcm_encrypt (replicate 32 7) (replicate 16 5) (replicate 12 9) = Inr (ct, tag) \<and>
     key_expansion (replicate 32 7) = Inr rks \<and> aes_encrypt_block (replicate 16 0) rks = Inr h \<and>
     ghash h [] ct = Inr s \<and> xor_bytes (replicate 16 5) (take 16 ct) = xor_bytes tag s"
proof -
  have a: "gcm_args (replicate 32 7) (replicate 12 9) (replicate 16 5)" by (simp add: gcm_args_def)
  obtain ct tag where e: "gcm_encrypt (replicate 32 7) (replicate 16 5) (replicate 12 9) = Inr (ct, tag)"
    using gcm_encrypt_total [OF a] .
  have "16 \<le> length (replicate 16 (5 :: byte))" "take 16 (replicate 16 (5 :: byte)) = replicate 16 5" by simp_all
  with tag_mask_is_first_keystream_block [OF a _ e] e show ?thesis by metis
qed

end
