(* ===== verification/PyText.thy ===== *)
theory PyText
  imports Prelude Complex_Main
begin

text \<open>
  The Python string and bytes operations the components share.  A \<open>str\<close> is an Isabelle
  string, so its code points are below 256; CPython's limit of 4300 digits on conversions
  between \<open>int\<close> and \<open>str\<close> is left out.
\<close>

section \<open>Stripping and splitting\<close>

text \<open>\<open>str.isspace\<close> and the line boundaries of \<open>str.splitlines\<close>.\<close>

definition py_space :: "char \<Rightarrow> bool" where
  "py_space c = (let n = of_char c :: nat in 9 \<le> n \<and> n \<le> 13 \<or> 28 \<le> n \<and> n \<le> 32 \<or> n = 133 \<or> n = 160)"

definition line_break :: "char \<Rightarrow> bool" where
  "line_break c = (let n = of_char c :: nat in 10 \<le> n \<and> n \<le> 13 \<or> 28 \<le> n \<and> n \<le> 30 \<or> n = 133)"

definition strip_if :: "(char \<Rightarrow> bool) \<Rightarrow> string \<Rightarrow> string" where
  "strip_if P s = rev (dropWhile P (rev (dropWhile P s)))"

definition str_strip :: "string \<Rightarrow> string" where
  "str_strip s = strip_if py_space s"

definition strip_chars :: "string \<Rightarrow> string \<Rightarrow> string" where
  "strip_chars cs s = strip_if (\<lambda>c. c \<in> set cs) s"

text \<open>\<open>s.splitlines()\<close>, with the current line reversed as accumulator.\<close>

fun split_lines :: "string \<Rightarrow> string \<Rightarrow> string list" where
  "split_lines cur [] = (if cur = [] then [] else [rev cur])"
| "split_lines cur (c # cs) =
     (if line_break c
      then rev cur # split_lines [] (if of_char c = (13 :: nat) \<and> cs \<noteq> [] \<and> of_char (hd cs) = (10 :: nat) then tl cs else cs)
      else split_lines (c # cur) cs)"

definition splitlines :: "string \<Rightarrow> string list" where
  "splitlines s = split_lines [] s"

fun split_on :: "char \<Rightarrow> string \<Rightarrow> string list" where
  "split_on d [] = [[]]"
| "split_on d (c # cs) =
     (if c = d then [] # split_on d cs
      else (case split_on d cs of [] \<Rightarrow> [[c]] | p # ps \<Rightarrow> (c # p) # ps))"

fun join :: "string \<Rightarrow> string list \<Rightarrow> string" where
  "join sep [] = []"
| "join sep [s] = s"
| "join sep (s # ss) = s @ sep @ join sep ss"

section \<open>Numbers\<close>

definition digit_char :: "nat \<Rightarrow> char" where
  "digit_char d = char_of (48 + d)"

definition is_digit :: "char \<Rightarrow> bool" where
  "is_digit c = (let n = of_char c :: nat in 48 \<le> n \<and> n \<le> 57)"

fun nat_digits :: "nat \<Rightarrow> string" where
  "nat_digits n = (if n < 10 then [digit_char n] else nat_digits (n div 10) @ [digit_char (n mod 10)])"

declare nat_digits.simps [simp del]

definition str_int :: "int \<Rightarrow> string" where
  "str_int i = (if i < 0 then CHR ''-'' # nat_digits (nat (- i)) else nat_digits (nat i))"

definition digits_value :: "string \<Rightarrow> nat" where
  "digits_value s = foldl (\<lambda>a c. a * 10 + (of_char c - 48)) 0 s"

text \<open>\<open>int(s)\<close>: an optional sign, then digits with single underscores between them.\<close>

definition py_int :: "string \<Rightarrow> int result" where
  "py_int s =
     (let t = str_strip s;
          (neg, body) = (case t of [] \<Rightarrow> (False, []) | c # cs \<Rightarrow>
             if c = CHR ''-'' then (True, cs) else if c = CHR ''+'' then (False, cs) else (False, c # cs));
          parts = split_on CHR ''_'' body
      in if list_all (\<lambda>p. p \<noteq> [] \<and> list_all is_digit p) parts
         then Inr (if neg then - int (digits_value (concat parts)) else int (digits_value (concat parts)))
         else Inl ValueError)"

text \<open>What \<open>int(x)\<close> is applied to when a value comes from outside (floats are rationals): a float
  is truncated, a string parsed.\<close>

definition py_trunc :: "rat \<Rightarrow> int" where
  "py_trunc x = (if 0 \<le> x then floor x else - floor (- x))"

datatype py_arg = ArgInt int | ArgFloat rat | ArgStr string | ArgOther

definition int_of_arg :: "py_arg \<Rightarrow> int result" where
  "int_of_arg x = (case x of ArgInt i \<Rightarrow> Inr i | ArgFloat f \<Rightarrow> Inr (py_trunc f) | ArgStr s \<Rightarrow> py_int s | ArgOther \<Rightarrow> Inl TypeError)"

lemma py_trunc_ge: "of_int n \<le> x \<Longrightarrow> 0 \<le> n \<Longrightarrow> n \<le> py_trunc x"
  by (auto simp: py_trunc_def le_floor_iff)

section \<open>UTF-8\<close>

text \<open>
  \<open>str.encode\<close> and \<open>bytes.decode\<close> with UTF-8, on code points below 256 (a longer
  sequence is outside the strings of the model and is not decoded).
\<close>

fun utf8_char :: "char \<Rightarrow> byte list" where
  "utf8_char c = (let n = of_char c :: nat in
     if n < 128 then [word_of_nat n] else [word_of_nat (192 + n div 64), word_of_nat (128 + n mod 64)])"

definition utf8_encode :: "string \<Rightarrow> byte list" where
  "utf8_encode s = concat (map utf8_char s)"

fun utf8_decode :: "byte list \<Rightarrow> string result" where
  "utf8_decode [] = Inr []"
| "utf8_decode (b # bs) =
     (if b < 128 then bind_result (utf8_decode bs) (\<lambda>s. Inr (char_of (unat b) # s))
      else (case bs of
              [] \<Rightarrow> Inl UnicodeError
            | b2 # bs2 \<Rightarrow>
                if 194 \<le> b \<and> b \<le> 195 \<and> 128 \<le> b2 \<and> b2 < 192
                then bind_result (utf8_decode bs2) (\<lambda>s. Inr (char_of ((unat b - 192) * 64 + (unat b2 - 128)) # s))
                else Inl UnicodeError))"

section \<open>Lemmas\<close>

lemma dropWhile_none: "\<forall>x\<in>set xs. \<not> P x \<Longrightarrow> dropWhile P xs = xs"
  by (cases xs) simp_all

lemma strip_if_none: "\<forall>c\<in>set s. \<not> P c \<Longrightarrow> strip_if P s = s"
  by (simp add: strip_if_def dropWhile_none)

text \<open>Stripping changes nothing when neither end is stripped.\<close>

definition unstripped :: "(char \<Rightarrow> bool) \<Rightarrow> string \<Rightarrow> bool" where
  "unstripped P s \<longleftrightarrow> s = [] \<or> \<not> P (hd s) \<and> \<not> P (last s)"

lemma strip_if_unstripped: "unstripped P s \<Longrightarrow> strip_if P s = s"
proof -
  assume u: "unstripped P s"
  then have "dropWhile P s = s" "dropWhile P (rev s) = rev s"
    by (auto simp: unstripped_def dropWhile_eq_self_iff hd_rev)
  then show ?thesis by (simp add: strip_if_def)
qed

lemma strip_if_is_unstripped: "unstripped P (strip_if P s)"
proof -
  let ?t = "dropWhile P s"
  have t: "?t = [] \<or> \<not> P (hd ?t)" using hd_dropWhile by blast
  show ?thesis
  proof (cases "strip_if P s = []")
    case True
    then show ?thesis by (simp add: unstripped_def)
  next
    case False
    let ?r = "dropWhile P (rev ?t)"
    have r: "strip_if P s = rev ?r" "?r \<noteq> []" using False by (simp_all add: strip_if_def)
    have "\<not> P (hd ?r)" using r(2) hd_dropWhile by blast
    then have last: "\<not> P (last (strip_if P s))" using r by (simp add: last_rev)
    obtain us where "rev ?t = us @ ?r" by (metis takeWhile_dropWhile_id)
    then have "?t = rev ?r @ rev us" by (metis rev_append rev_rev_ident)
    then have "hd (rev ?r) = hd ?t" using r(2) by (metis hd_append2 rev_is_Nil_conv)
    moreover have "?t \<noteq> []" using r(2) by (metis dropWhile.simps(1) rev.simps(1))
    ultimately have "\<not> P (hd (strip_if P s))" using t r(1) by metis
    with last show ?thesis by (simp add: unstripped_def)
  qed
qed

lemma split_lines_plain:
  "\<forall>c\<in>set s. \<not> line_break c \<Longrightarrow> split_lines cur (s @ CHR 0x0A # rest) = (rev cur @ s) # split_lines [] rest"
  by (induction s arbitrary: cur) (auto simp: line_break_def)

lemma splitlines_lines:
  "\<forall>l\<in>set ls. \<forall>c\<in>set l. \<not> line_break c \<Longrightarrow> splitlines (concat (map (\<lambda>l. l @ [CHR 0x0A]) ls)) = ls"
proof (induction ls)
  case Nil
  then show ?case by (simp add: splitlines_def)
next
  case (Cons l ls)
  then show ?case
    using split_lines_plain [of l "[]" "concat (map (\<lambda>l. l @ [CHR 0x0A]) ls)"] by (simp add: splitlines_def)
qed

lemma split_on_plain: "d \<notin> set s \<Longrightarrow> split_on d s = [s]"
  by (induction s) auto

lemma split_on_append: "d \<notin> set s \<Longrightarrow> split_on d (s @ d # t) = s # split_on d t"
  by (induction s) auto

lemma split_on_nonempty [simp]: "split_on d s \<noteq> []"
  by (induction s) (auto split: list.splits)

lemma of_digit_char: "d < 10 \<Longrightarrow> of_char (digit_char d) = 48 + d"
  by (simp add: digit_char_def)

lemma nat_digits_props:
  "nat_digits n \<noteq> [] \<and> list_all is_digit (nat_digits n) \<and> digits_value (nat_digits n) = n"
proof (induction n rule: nat_digits.induct)
  case (1 n)
  show ?case
  proof (cases "n < 10")
    case True
    then show ?thesis by (simp add: nat_digits.simps [of n] digits_value_def is_digit_def of_digit_char)
  next
    case False
    have "n mod 10 < 10" by simp
    then show ?thesis using 1 False
      by (simp add: nat_digits.simps [of n] digits_value_def is_digit_def of_digit_char)
  qed
qed

lemma digit_not_special: "is_digit c \<Longrightarrow> \<not> py_space c \<and> c \<noteq> CHR ''_'' \<and> c \<noteq> CHR ''-'' \<and> c \<noteq> CHR ''+'' \<and> c \<noteq> CHR ''.'' \<and> \<not> line_break c"
  by (auto simp: is_digit_def py_space_def line_break_def)

lemma str_int_chars: "c \<in> set (str_int i) \<Longrightarrow> c = CHR ''-'' \<or> is_digit c"
  using nat_digits_props [of "nat i"] nat_digits_props [of "nat (- i)"]
  by (auto simp: str_int_def list_all_iff split: if_splits)

lemma str_int_no_space: "c \<in> set (str_int i) \<Longrightarrow> \<not> py_space c \<and> c \<noteq> CHR ''.'' \<and> \<not> line_break c"
  using str_int_chars [of c i] digit_not_special [of c] by (auto simp: py_space_def line_break_def)

lemma py_int_str_int: "py_int (str_int i) = Inr i"
proof -
  have st: "str_strip (str_int i) = str_int i"
    using str_int_no_space by (simp add: str_strip_def strip_if_none)
  have d: "nat_digits n \<noteq> []" "list_all is_digit (nat_digits n)" "digits_value (nat_digits n) = n" for n
    using nat_digits_props [of n] by auto
  have sp: "split_on CHR ''_'' (nat_digits n) = [nat_digits n]" for n
    using d(2) [of n] digit_not_special by (intro split_on_plain) (auto simp: list_all_iff)
  have "\<exists>c cs. nat_digits n = c # cs \<and> c \<noteq> CHR ''-'' \<and> c \<noteq> CHR ''+''" for n
    using d(1,2) [of n] digit_not_special by (cases "nat_digits n") auto
  then obtain c cs where "nat_digits (nat i) = c # cs" "c \<noteq> CHR ''-''" "c \<noteq> CHR ''+''" by blast
  then show ?thesis
    using st d(2) [of "nat i"] sp [of "nat i"] d(3) [of "nat i"] sp [of "nat (- i)"] d [of "nat (- i)"]
    by (cases "i < 0") (auto simp: py_int_def str_int_def)
qed


lemma utf8_decode_char: "utf8_decode (utf8_char c @ bs) = bind_result (utf8_decode bs) (\<lambda>s. Inr (c # s))"
proof -
  let ?n = "of_char c :: nat"
  have n: "?n < 256" by simp
  show ?thesis
  proof (cases "?n < 128")
    case True
    then show ?thesis by (simp add: word_less_nat_alt unat_of_nat)
  next
    case False
    let ?a = "192 + ?n div 64" and ?b = "128 + ?n mod 64"
    have "2 \<le> ?n div 64" using False by (simp add: less_eq_div_iff_mult_less_eq)
    moreover have "?n div 64 < 4" using n by (simp add: div_less_iff_less_mult)
    ultimately have d: "?n div 64 \<in> {2, 3}" by auto
    have small: "unat (word_of_nat x :: byte) = x" if "x < 256" for x
      using that by (simp add: unat_of_nat)
    have u: "unat (word_of_nat ?a :: byte) = ?a" "unat (word_of_nat ?b :: byte) = ?b"
      by (rule small; use d in auto)+
    have "\<not> (word_of_nat ?a :: byte) < 128" "194 \<le> (word_of_nat ?a :: byte)" "(word_of_nat ?a :: byte) \<le> 195"
      "128 \<le> (word_of_nat ?b :: byte)" "(word_of_nat ?b :: byte) < 192"
      using d unfolding word_less_nat_alt word_le_nat_alt u by auto
    moreover have "(unat (word_of_nat ?a :: byte) - 192) * 64 + (unat (word_of_nat ?b :: byte) - 128) = ?n"
      unfolding u by simp
    ultimately show ?thesis using False by simp
  qed
qed

declare utf8_char.simps [simp del]

lemma utf8_roundtrip: "utf8_decode (utf8_encode s) = Inr s"
  by (induction s) (simp_all add: utf8_encode_def utf8_decode_char)

lemma line_break_space: "line_break c \<Longrightarrow> py_space c"
  by (auto simp: line_break_def py_space_def)

end
