(* ===== verification/Base64.thy ===== *)
theory Base64
  imports PyText
begin

text \<open>
  The pure Python base64 of
  \<open>SCRIPTS/SERVICES/item-signing-bridge/FUNCTIONS/base64_fallback.py\<close>.  The bytes object
  that encoding returns and decoding takes is the string of its characters; the bit buffers are
  24-bit words, wide enough for every shift the code makes.
\<close>

unbundle bit_operations_syntax

definition ENCODE_TABLE :: string where
  "ENCODE_TABLE = ''ABCDEFGHIJKLMNOPQRSTUVWXYZabcdefghijklmnopqrstuvwxyz0123456789+/''"

definition encode_char :: "24 word \<Rightarrow> char" where
  "encode_char i = ENCODE_TABLE ! unat (i AND 0x3F)"

text \<open>The dictionary from the characters of the table to their positions.\<close>

definition DECODE_TABLE :: "(char \<times> 24 word) list" where
  "DECODE_TABLE = zip ENCODE_TABLE (map word_of_nat [0..<length ENCODE_TABLE])"

definition encode_chunk :: "byte list \<Rightarrow> string" where
  "encode_chunk chunk =
     (let b0 = (if length chunk \<ge> 1 then push_bit 16 (ucast (chunk ! 0)) else 0 :: 24 word);
          b1 = (if length chunk \<ge> 2 then b0 OR push_bit 8 (ucast (chunk ! 1)) else b0);
          bits = (if length chunk = 3 then b1 OR ucast (chunk ! 2) else b1)
      in [encode_char (drop_bit 18 bits), encode_char (drop_bit 12 bits),
          if length chunk \<ge> 2 then encode_char (drop_bit 6 bits) else CHR ''='',
          if length chunk = 3 then encode_char bits else CHR ''=''])"

function b64encode :: "byte list \<Rightarrow> string" where
  "b64encode bs = (if bs = [] then [] else encode_chunk (take 3 bs) @ b64encode (drop 3 bs))"
  by auto
termination by (relation "measure length") auto

declare b64encode.simps [simp del]

definition rstrip_char :: "char \<Rightarrow> string \<Rightarrow> string" where
  "rstrip_char c s = rev (dropWhile (\<lambda>x. x = c) (rev s))"

definition decode_char :: "char \<Rightarrow> 24 word" where
  "decode_char c = (case map_of DECODE_TABLE c of Some i \<Rightarrow> i | None \<Rightarrow> 0)"

definition decode_chunk :: "string \<Rightarrow> byte list" where
  "decode_chunk cs =
     (let chars = cs @ replicate (4 - length cs) CHR ''A'';
          bits = push_bit 18 (decode_char (chars ! 0)) OR push_bit 12 (decode_char (chars ! 1))
                 OR push_bit 6 (decode_char (chars ! 2)) OR decode_char (chars ! 3)
      in [ucast (drop_bit 16 bits AND 0xFF), ucast (drop_bit 8 bits AND 0xFF), ucast (bits AND 0xFF)])"

function decode_groups :: "string \<Rightarrow> byte list" where
  "decode_groups s = (if s = [] then [] else decode_chunk (take 4 s) @ decode_groups (drop 4 s))"
  by auto
termination by (relation "measure length") auto

declare decode_groups.simps [simp del]

definition b64decode :: "string \<Rightarrow> byte list result" where
  "b64decode data =
     (if \<not> list_all (\<lambda>c. of_char c < (128 :: nat)) data then Inl UnicodeError
      else (let s = rstrip_char CHR ''='' (str_strip data)
            in if \<not> list_all (\<lambda>c. map_of DECODE_TABLE c \<noteq> None) s then Inl ValueError
               else Inr (take (length s * 6 div 8) (decode_groups s))))"

section \<open>The table\<close>

lemma length_ENCODE_TABLE: "length ENCODE_TABLE = 64"
  by (simp add: ENCODE_TABLE_def)

lemma encode_char_in: "encode_char i \<in> set ENCODE_TABLE"
proof -
  have "unat (i AND 0x3F) \<le> unat (0x3F :: 24 word)" using word_and_le1 [of i "0x3F"] by (simp only: word_le_nat_alt)
  then show ?thesis by (simp add: encode_char_def length_ENCODE_TABLE)
qed

lemma table_chars: "c \<in> set ENCODE_TABLE \<Longrightarrow> \<not> py_space c \<and> c \<noteq> CHR ''='' \<and> of_char c < (128 :: nat)"
proof -
  have "list_all (\<lambda>c. \<not> py_space c \<and> c \<noteq> CHR ''='' \<and> of_char c < (128 :: nat)) ENCODE_TABLE" by code_simp
  then show "c \<in> set ENCODE_TABLE \<Longrightarrow> ?thesis" by (auto simp: list_all_iff)
qed

lemma decode_encode_char: "decode_char (encode_char i) = i AND 0x3F"
proof -
  have d: "distinct ENCODE_TABLE" by code_simp
  have "unat (i AND 0x3F) \<le> unat (0x3F :: 24 word)" using word_and_le1 [of i "0x3F"] by (simp only: word_le_nat_alt)
  then have "unat (i AND 0x3F) < length ENCODE_TABLE" by (simp add: length_ENCODE_TABLE)
  then have "map_of DECODE_TABLE (encode_char i) = Some (i AND 0x3F)"
    using d by (simp add: DECODE_TABLE_def encode_char_def map_of_zip_nth)
  then show ?thesis by (simp add: decode_char_def)
qed

lemma table_known: "c \<in> set ENCODE_TABLE \<Longrightarrow> map_of DECODE_TABLE c \<noteq> None"
  by (simp add: DECODE_TABLE_def map_of_zip_is_None)


section \<open>Chunks\<close>

lemma and_3F: "x AND 0x3F = take_bit 6 x" for x :: "24 word"
  by (simp add: take_bit_eq_mask mask_eq_exp_minus_1)

lemma and_FF: "x AND 0xFF = take_bit 8 x" for x :: "24 word"
  by (simp add: take_bit_eq_mask mask_eq_exp_minus_1)

lemma decode_A: "decode_char CHR ''A'' = 0"
  by code_simp

lemmas chunk_defs = encode_chunk_def decode_chunk_def decode_encode_char decode_A

lemma chunk_bits:
  fixes bits :: "24 word"
  shows "push_bit 18 (take_bit 6 (drop_bit 18 bits)) OR push_bit 12 (take_bit 6 (drop_bit 12 bits))
     OR push_bit 6 (take_bit 6 (drop_bit 6 bits)) OR take_bit 6 bits = bits"
proof (rule bit_word_eqI)
  fix n assume "n < LENGTH(24)"
  then have "n < 24" by simp
  then consider "n < 6" | "6 \<le> n" "n < 12" | "12 \<le> n" "n < 18" | "18 \<le> n" "n < 24" by linarith
  then show "bit (push_bit 18 (take_bit 6 (drop_bit 18 bits)) OR push_bit 12 (take_bit 6 (drop_bit 12 bits))
     OR push_bit 6 (take_bit 6 (drop_bit 6 bits)) OR take_bit 6 bits) n = bit bits n"
    by cases (auto simp: bit_simps)
qed

lemma byte_bits:
  fixes a b c :: byte
  shows "ucast (take_bit 8 (drop_bit 16 (push_bit 16 (ucast a) OR push_bit 8 (ucast b) OR ucast c :: 24 word))) = a"
    "ucast (take_bit 8 (drop_bit 8 (push_bit 16 (ucast a) OR push_bit 8 (ucast b) OR ucast c :: 24 word))) = b"
    "ucast (take_bit 8 (push_bit 16 (ucast a) OR push_bit 8 (ucast b) OR ucast c :: 24 word)) = c"
  by (rule bit_word_eqI, auto simp: bit_simps dest: bit_imp_le_length)+

lemma low_zero:
  fixes a b :: byte
  shows "take_bit 6 (push_bit 16 (ucast a) OR push_bit 8 (ucast b) :: 24 word) = 0"
    "take_bit 6 (push_bit 16 (ucast a) :: 24 word) = 0"
    "take_bit 6 (drop_bit 6 (push_bit 16 (ucast a) :: 24 word)) = 0"
  by (rule bit_word_eqI, auto simp: bit_simps)+

lemma decode_sextets:
  "decode_chunk [encode_char (drop_bit 18 bits), encode_char (drop_bit 12 bits), encode_char (drop_bit 6 bits), encode_char bits]
     = [ucast (take_bit 8 (drop_bit 16 bits)), ucast (take_bit 8 (drop_bit 8 bits)), ucast (take_bit 8 bits)]"
  unfolding decode_chunk_def Let_def
  by (simp add: decode_encode_char and_3F and_FF chunk_bits del: drop_bit_or take_bit_or)

lemma encode_zero: "take_bit 6 i = 0 \<Longrightarrow> encode_char i = CHR ''A''"
  by (simp add: encode_char_def and_3F ENCODE_TABLE_def)

lemma decode_padded:
  "decode_chunk [x, y, z] = decode_chunk [x, y, z, CHR ''A'']"
  "decode_chunk [x, y] = decode_chunk [x, y, CHR ''A'', CHR ''A'']"
  by (simp_all add: decode_chunk_def numeral_eq_Suc)

lemma decode_chunk_encode:
  "decode_chunk (encode_chunk [a, b, c]) = [a, b, c]"
  "decode_chunk (take 3 (encode_chunk [a, b])) = [a, b, 0]"
  "decode_chunk (take 2 (encode_chunk [a])) = [a, 0, 0]"
proof -
  let ?abc = "push_bit 16 (ucast a) OR push_bit 8 (ucast b) OR ucast c :: 24 word"
  let ?ab = "push_bit 16 (ucast a) OR push_bit 8 (ucast b) :: 24 word" and ?a = "push_bit 16 (ucast a) :: 24 word"
  have "encode_chunk [a, b, c] = [encode_char (drop_bit 18 ?abc), encode_char (drop_bit 12 ?abc), encode_char (drop_bit 6 ?abc), encode_char ?abc]"
    by (simp only: encode_chunk_def Let_def) (simp add: or.assoc)
  then show "decode_chunk (encode_chunk [a, b, c]) = [a, b, c]" by (simp only: decode_sextets byte_bits)
  have z: "push_bit 8 (ucast (0 :: byte)) = (0 :: 24 word)" "ucast (0 :: byte) = (0 :: 24 word)" by simp_all
  have "take 3 (encode_chunk [a, b]) = [encode_char (drop_bit 18 ?ab), encode_char (drop_bit 12 ?ab), encode_char (drop_bit 6 ?ab)]"
    by (simp only: encode_chunk_def Let_def) (simp add: numeral_eq_Suc)
  then have "decode_chunk (take 3 (encode_chunk [a, b])) =
      decode_chunk [encode_char (drop_bit 18 ?ab), encode_char (drop_bit 12 ?ab), encode_char (drop_bit 6 ?ab), encode_char ?ab]"
    by (simp only: decode_padded encode_zero [OF low_zero(1)])
  also have "\<dots> = [a, b, 0]" unfolding decode_sextets using byte_bits [of a b 0] by (simp only: z push_bit_of_0 or.right_neutral)
  finally show "decode_chunk (take 3 (encode_chunk [a, b])) = [a, b, 0]" .
  have "take 2 (encode_chunk [a]) = [encode_char (drop_bit 18 ?a), encode_char (drop_bit 12 ?a)]"
    by (simp only: encode_chunk_def Let_def) (simp add: numeral_eq_Suc)
  then have "decode_chunk (take 2 (encode_chunk [a])) =
      decode_chunk [encode_char (drop_bit 18 ?a), encode_char (drop_bit 12 ?a), encode_char (drop_bit 6 ?a), encode_char ?a]"
    by (simp only: decode_padded encode_zero [OF low_zero(2)] encode_zero [OF low_zero(3)])
  also have "\<dots> = [a, 0, 0]" unfolding decode_sextets using byte_bits [of a 0 0] by (simp only: z push_bit_of_0 or.right_neutral)
  finally show "decode_chunk (take 2 (encode_chunk [a])) = [a, 0, 0]" .
qed

section \<open>The round trip\<close>

text \<open>Encoded data are characters of the table followed by the padding.\<close>

lemma b64encode_shape:
  "\<exists>body k junk. b64encode bs = body @ replicate k CHR ''='' \<and> set body \<subseteq> set ENCODE_TABLE \<and>
     length body * 6 div 8 = length bs \<and> decode_groups body = bs @ junk"
proof (induction "length bs" arbitrary: bs rule: less_induct)
  case less
  consider "bs = []" | a where "bs = [a]" | a b where "bs = [a, b]" | a b c rest where "bs = a # b # c # rest"
    by (metis list.exhaust)
  then show ?case
  proof cases
    case 1
    then show ?thesis by (simp add: b64encode.simps decode_groups.simps)
  next
    case 2
    let ?body = "take 2 (encode_chunk [a])"
    have "b64encode bs = ?body @ replicate 2 CHR ''=''" "length ?body = 2" "set ?body \<subseteq> set ENCODE_TABLE"
      by (simp_all add: 2 b64encode.simps [of "[a]"] b64encode.simps [of "[]"] encode_chunk_def numeral_eq_Suc encode_char_in)
    moreover from this(2) have "decode_groups ?body = decode_chunk ?body"
      by (cases ?body) (simp_all add: decode_groups.simps)
    ultimately show ?thesis using 2
      by (intro exI [of _ ?body] exI [of _ 2] exI [of _ "[0, 0]"]) (simp add: decode_chunk_encode)
  next
    case 3
    let ?body = "take 3 (encode_chunk [a, b])"
    have "b64encode bs = ?body @ replicate 1 CHR ''=''" "length ?body = 3" "set ?body \<subseteq> set ENCODE_TABLE"
      by (simp_all add: 3 b64encode.simps [of "[a, b]"] b64encode.simps [of "[]"] encode_chunk_def numeral_eq_Suc encode_char_in)
    moreover from this(2) have "decode_groups ?body = decode_chunk ?body"
      by (cases ?body) (simp_all add: decode_groups.simps)
    ultimately show ?thesis using 3
      by (intro exI [of _ ?body] exI [of _ 1] exI [of _ "[0]"]) (simp add: decode_chunk_encode)
  next
    case 4
    obtain body k junk where ih: "b64encode rest = body @ replicate k CHR ''=''" "set body \<subseteq> set ENCODE_TABLE"
      "length body * 6 div 8 = length rest" "decode_groups body = rest @ junk"
      using less.hyps [of rest] 4 by auto
    let ?head = "encode_chunk [a, b, c]"
    have h: "length ?head = 4" "set ?head \<subseteq> set ENCODE_TABLE" by (simp_all add: encode_chunk_def encode_char_in)
    have "decode_groups (?head @ body) = decode_chunk ?head @ decode_groups body"
      using h(1) by (subst decode_groups.simps) auto
    then have dec: "decode_groups (?head @ body) = bs @ junk" using ih(4) 4 by (simp add: decode_chunk_encode)
    have "length (?head @ body) * 6 div 8 = 3 + length body * 6 div 8" using h(1) by simp
    then have len: "length (?head @ body) * 6 div 8 = length bs" using ih(3) 4 by simp
    have enc: "b64encode bs = (?head @ body) @ replicate k CHR ''=''"
      using ih(1) by (simp add: 4 b64encode.simps [of "a # b # c # rest"] numeral_3_eq_3)
    have "set (?head @ body) \<subseteq> set ENCODE_TABLE" using ih(2) h(2) by simp
    with enc len dec show ?thesis by blast
  qed
qed

lemma rstrip_padding: "c \<notin> set s \<Longrightarrow> rstrip_char c (s @ replicate k c) = s"
proof -
  assume "c \<notin> set s"
  then have "dropWhile (\<lambda>x. x = c) (replicate k c @ rev s) = rev s"
    by (induction k) (auto intro: dropWhile_none)
  then show ?thesis by (simp add: rstrip_char_def)
qed

text \<open>Decoding what encoding returns gives the data back.\<close>

theorem b64_roundtrip: "b64decode (b64encode bs) = Inr bs"
proof -
  obtain body k junk where b: "b64encode bs = body @ replicate k CHR ''=''" "set body \<subseteq> set ENCODE_TABLE"
    "length body * 6 div 8 = length bs" "decode_groups body = bs @ junk"
    using b64encode_shape by blast
  have "\<forall>c\<in>set (b64encode bs). \<not> py_space c \<and> of_char c < (128 :: nat)"
    using b(1,2) table_chars by (auto simp: py_space_def)
  then have "list_all (\<lambda>c. of_char c < (128 :: nat)) (b64encode bs)" "str_strip (b64encode bs) = b64encode bs"
    by (auto simp: list_all_iff str_strip_def intro: strip_if_none)
  moreover have "CHR ''='' \<notin> set body" using b(2) table_chars by blast
  moreover have "list_all (\<lambda>c. map_of DECODE_TABLE c \<noteq> None) body"
    using b(2) table_known unfolding list_all_iff by blast
  ultimately show ?thesis using b by (simp add: b64decode_def rstrip_padding)
qed

end
