(* ===== verification/DatagramTypes.thy ===== *)
theory DatagramTypes
  imports PyText
begin

text \<open>
  The type system of \<open>SCRIPTS/SERVICES/datagram-engine/engine/datagram_types.py\<close>: versions,
  content hashes, metadata with its two INI forms, functions and the root object.  The digests of
  \<open>hashlib\<close> are a parameter \<open>H\<close>, UUIDs are arguments of the constructors; typed values
  (\<open>DatagramValue\<close>) and database records are not modelled.
\<close>

section \<open>Enumerations\<close>

datatype hash_algorithm = SHAKE256_1024 | SHAKE256_512 | SHA3_256 | SHA3_512 | SHA256

fun algorithm_value :: "hash_algorithm \<Rightarrow> int" where
  "algorithm_value SHAKE256_1024 = 1"
| "algorithm_value SHAKE256_512 = 2"
| "algorithm_value SHA3_256 = 3"
| "algorithm_value SHA3_512 = 4"
| "algorithm_value SHA256 = 5"

text \<open>The call \<open>HashAlgorithm(value)\<close>.\<close>

definition algorithm_of :: "int \<Rightarrow> hash_algorithm result" where
  "algorithm_of n =
     (if n = 1 then Inr SHAKE256_1024 else if n = 2 then Inr SHAKE256_512 else if n = 3 then Inr SHA3_256
      else if n = 4 then Inr SHA3_512 else if n = 5 then Inr SHA256 else Inl ValueError)"

definition upper_char :: "char \<Rightarrow> char" where
  "upper_char c = (let n = of_char c :: nat in if 97 \<le> n \<and> n \<le> 122 then char_of (n - 32) else c)"

text \<open>
  \<open>upper\<close> is that of ASCII: the upper case of any other letter contains no letter of the
  table's names, so it cannot change the lookup.
\<close>

definition algorithm_from_name :: "string \<Rightarrow> hash_algorithm" where
  "algorithm_from_name name =
     (let normalized = map (\<lambda>c. if c = CHR ''_'' then CHR ''-'' else c) (map upper_char (str_strip name));
          mapping = [(''SHAKE256-1024'', SHAKE256_1024), (''SHAKE256'', SHAKE256_512),
                     (''SHA3-256'', SHA3_256), (''SHA3-512'', SHA3_512), (''SHA256'', SHA256)]
      in case map_of mapping normalized of Some v \<Rightarrow> v | None \<Rightarrow> SHA256)"

fun algorithm_display_name :: "hash_algorithm \<Rightarrow> string" where
  "algorithm_display_name SHAKE256_1024 = ''SHAKE256-1024''"
| "algorithm_display_name SHAKE256_512 = ''SHAKE256-512''"
| "algorithm_display_name SHA3_256 = ''SHA3-256''"
| "algorithm_display_name SHA3_512 = ''SHA3-512''"
| "algorithm_display_name SHA256 = ''SHA256''"

fun digest_size :: "hash_algorithm \<Rightarrow> nat" where
  "digest_size SHAKE256_1024 = 128"
| "digest_size SHAKE256_512 = 64"
| "digest_size SHA3_256 = 32"
| "digest_size SHA3_512 = 64"
| "digest_size SHA256 = 32"

datatype encryption_mode = NO_ENCRYPTION | PUBLIC_KEY | SYMMETRIC

fun encryption_value :: "encryption_mode \<Rightarrow> int" where
  "encryption_value NO_ENCRYPTION = 0"
| "encryption_value PUBLIC_KEY = 1"
| "encryption_value SYMMETRIC = 2"

definition encryption_of :: "int \<Rightarrow> encryption_mode result" where
  "encryption_of n =
     (if n = 0 then Inr NO_ENCRYPTION else if n = 1 then Inr PUBLIC_KEY else if n = 2 then Inr SYMMETRIC
      else Inl ValueError)"

datatype database_type = DB_SQLITE | DB_JSON | DB_XML

definition database_from_name :: "string \<Rightarrow> database_type" where
  "database_from_name name =
     (case map_of [(''SQLite'', DB_SQLITE), (''JSON'', DB_JSON), (''XML'', DB_XML)] name of
        Some t \<Rightarrow> t | None \<Rightarrow> DB_JSON)"

datatype datagram_status = ST_CREATED | ST_VALIDATED | ST_HASHED | ST_LOADED | ST_MODIFIED | ST_ARCHIVED | ST_CORRUPTED

fun status_value :: "datagram_status \<Rightarrow> string" where
  "status_value ST_CREATED = ''created''"
| "status_value ST_VALIDATED = ''validated''"
| "status_value ST_HASHED = ''hashed''"
| "status_value ST_LOADED = ''loaded''"
| "status_value ST_MODIFIED = ''modified''"
| "status_value ST_ARCHIVED = ''archived''"
| "status_value ST_CORRUPTED = ''corrupted''"

section \<open>Versions\<close>

datatype version = Version (major: int) (minor: int) (patch: int)

definition version_parse :: "string \<Rightarrow> version result" where
  "version_parse s =
     (if str_strip s = [] then Inr (Version 0 0 0)
      else (let parts = split_on CHR ''.'' (str_strip s);
                component = (\<lambda>i. if i < length parts then py_int (parts ! i) else Inr 0)
            in bind_result (component 0) (\<lambda>a. bind_result (component 1) (\<lambda>b.
               bind_result (component 2) (\<lambda>c. Inr (Version a b c))))))"

definition is_compatible_with :: "version \<Rightarrow> version \<Rightarrow> bool" where
  "is_compatible_with v req =
     (if major v > major req then True
      else if major v < major req then False
      else if minor v > minor req then True
      else if minor v < minor req then False
      else patch v \<ge> patch req)"

definition version_str :: "version \<Rightarrow> string" where
  "version_str v = str_int (major v) @ ''.'' @ str_int (minor v) @ ''.'' @ str_int (patch v)"

definition version_eq :: "version \<Rightarrow> version \<Rightarrow> bool" where
  "version_eq v w = (major v = major w \<and> minor v = minor w \<and> patch v = patch w)"

definition version_lt :: "version \<Rightarrow> version \<Rightarrow> bool" where
  "version_lt v w =
     (if major v \<noteq> major w then major v < major w
      else if minor v \<noteq> minor w then minor v < minor w
      else patch v < patch w)"

definition version_le :: "version \<Rightarrow> version \<Rightarrow> bool" where
  "version_le v w = (version_lt v w \<or> version_eq v w)"

definition version_gt :: "version \<Rightarrow> version \<Rightarrow> bool" where
  "version_gt v w =
     (if major v \<noteq> major w then major v > major w
      else if minor v \<noteq> minor w then minor v > minor w
      else patch v > patch w)"

definition version_ge :: "version \<Rightarrow> version \<Rightarrow> bool" where
  "version_ge v w = (version_gt v w \<or> version_eq v w)"

definition version_to_dict :: "version \<Rightarrow> (string \<times> int) list" where
  "version_to_dict v = [(''major'', major v), (''minor'', minor v), (''patch'', patch v)]"

definition version_from_dict :: "(string \<times> int) list \<Rightarrow> version" where
  "version_from_dict d =
     (let get = (\<lambda>k. case map_of d k of Some n \<Rightarrow> n | None \<Rightarrow> 0)
      in Version (get ''major'') (get ''minor'') (get ''patch''))"

section \<open>Hashes\<close>

definition hex_digit :: "nat \<Rightarrow> char" where
  "hex_digit d = (if d < 10 then char_of (48 + d) else char_of (87 + d))"

definition to_hex :: "byte list \<Rightarrow> string" where
  "to_hex bs = concat (map (\<lambda>b. [hex_digit (unat b div 16), hex_digit (unat b mod 16)]) bs)"

definition hex_value :: "char \<Rightarrow> nat option" where
  "hex_value c = (let n = of_char c :: nat in
     if 48 \<le> n \<and> n \<le> 57 then Some (n - 48) else if 97 \<le> n \<and> n \<le> 102 then Some (n - 87)
     else if 65 \<le> n \<and> n \<le> 70 then Some (n - 55) else None)"

text \<open>\<open>bytes.fromhex\<close>: pairs of digits, ASCII whitespace allowed between the pairs.\<close>

fun from_hex :: "string \<Rightarrow> byte list result" where
  "from_hex [] = Inr []"
| "from_hex (c # cs) =
     (let n = of_char c :: nat in
      if 9 \<le> n \<and> n \<le> 13 \<or> n = 32 then from_hex cs
      else (case cs of
              [] \<Rightarrow> Inl ValueError
            | d # ds \<Rightarrow>
                (case (hex_value c, hex_value d) of
                   (Some x, Some y) \<Rightarrow> bind_result (from_hex ds) (\<lambda>bs. Inr (word_of_nat (16 * x + y) # bs))
                 | _ \<Rightarrow> Inl ValueError)))"

record datagram_hash =
  dh_algorithm :: hash_algorithm
  dh_hex_value :: string
  dh_digest :: "byte list"

definition new_hash :: "hash_algorithm \<Rightarrow> string \<Rightarrow> datagram_hash result" where
  "new_hash algo hex =
     (if hex = [] then Inr \<lparr>dh_algorithm = algo, dh_hex_value = hex, dh_digest = []\<rparr>
      else bind_result (from_hex hex) (\<lambda>d. Inr \<lparr>dh_algorithm = algo, dh_hex_value = hex, dh_digest = d\<rparr>))"

type_synonym digest_fun = "hash_algorithm \<Rightarrow> byte list \<Rightarrow> byte list"

definition compute_hash :: "digest_fun \<Rightarrow> hash_algorithm \<Rightarrow> byte list \<Rightarrow> datagram_hash result" where
  "compute_hash H algo data = new_hash algo (to_hex (H algo data))"

definition hash_verify :: "digest_fun \<Rightarrow> datagram_hash \<Rightarrow> byte list \<Rightarrow> bool result" where
  "hash_verify H h data =
     bind_result (compute_hash H (dh_algorithm h) data) (\<lambda>c. Inr (dh_hex_value c = dh_hex_value h))"

definition to_ini_value :: "datagram_hash \<Rightarrow> string" where
  "to_ini_value h = ''{'' @ dh_hex_value h @ ''}''"

definition hash_from_ini_value :: "hash_algorithm \<Rightarrow> string \<Rightarrow> datagram_hash result" where
  "hash_from_ini_value algo v = new_hash algo (str_strip (strip_chars ''{}'' (str_strip v)))"

definition hash_truth :: "datagram_hash \<Rightarrow> bool" where
  "hash_truth h = (dh_hex_value h \<noteq> [])"

definition hash_str :: "datagram_hash \<Rightarrow> string" where
  "hash_str h = algorithm_display_name (dh_algorithm h) @ '':'' @ take 16 (dh_hex_value h) @ ''...''"

section \<open>Metadata\<close>

text \<open>The values of the dictionaries made for event transport.\<close>

datatype json = JBool bool | JInt int | JStr string | JList "json list" | JObj "(string \<times> json) list"

record datagram_meta =
  dm_version :: version
  dm_name :: string
  dm_author :: string
  dm_hash_algorithm :: hash_algorithm
  dm_hash :: datagram_hash
  dm_encryption :: encryption_mode
  dm_encryption_key :: string
  dm_server_url :: string
  dm_description :: string
  dm_creation_date :: string
  dm_tags :: "string list"
  dm_license :: string
  dm_status :: datagram_status
  dm_uuid :: string
  dm_custom_fields :: "(string \<times> string) list"

definition empty_hash :: datagram_hash where
  "empty_hash = \<lparr>dh_algorithm = SHA256, dh_hex_value = [], dh_digest = []\<rparr>"

definition new_meta :: "string \<Rightarrow> datagram_meta" where
  "new_meta uuid =
     \<lparr>dm_version = Version 1 0 0, dm_name = ''Untitled Datagram'', dm_author = ''Unknown'',
      dm_hash_algorithm = SHA256, dm_hash = empty_hash, dm_encryption = NO_ENCRYPTION,
      dm_encryption_key = [], dm_server_url = [], dm_description = [], dm_creation_date = [],
      dm_tags = [], dm_license = [], dm_status = ST_CREATED, dm_uuid = uuid, dm_custom_fields = []\<rparr>"

type_synonym ini = "(string \<times> string) list"

definition to_ini_dict :: "bool \<Rightarrow> datagram_meta \<Rightarrow> ini" where
  "to_ini_dict include_hash m =
     [(''Datagram Version'', version_str (dm_version m)),
      (''Datagram NAME ID'', dm_name m),
      (''Datagram Author'', dm_author m),
      (''Datagram Hashing Algo'', str_int (algorithm_value (dm_hash_algorithm m))),
      (''Encryption'', str_int (encryption_value (dm_encryption m)))]
     @ (if include_hash \<and> hash_truth (dm_hash m) then [(''Datagram Hash UQID'', to_ini_value (dm_hash m))] else [])
     @ (if dm_encryption_key m \<noteq> [] then [(''Encryption Public Key'', ''{'' @ dm_encryption_key m @ ''}'')] else [])
     @ (if dm_server_url m \<noteq> [] then [(''Encryption Server URL'', ''{'' @ dm_server_url m @ ''}'')] else [])"

definition to_meta_dict :: "datagram_meta \<Rightarrow> ini" where
  "to_meta_dict m =
     [(''Description'', ''{'' @ dm_description m @ ''}''),
      (''Creation Date'', ''{'' @ dm_creation_date m @ ''}''),
      (''Tags'', ''{'' @ join '', '' (dm_tags m) @ ''}''),
      (''License'', ''{'' @ dm_license m @ ''}'')]"

text \<open>\<open>d["..."].strip("{}").strip()\<close>.\<close>

definition unbrace :: "string \<Rightarrow> string" where
  "unbrace s = str_strip (strip_chars ''{}'' s)"

definition from_ini_dict :: "string \<Rightarrow> ini \<Rightarrow> datagram_meta result" where
  "from_ini_dict uuid d =
     (let m0 = new_meta uuid in
      bind_result (case map_of d ''Datagram Version'' of None \<Rightarrow> Inr (dm_version m0) | Some s \<Rightarrow> version_parse s) (\<lambda>v.
      let m1 = m0\<lparr>dm_version := v\<rparr>;
          m2 = (case map_of d ''Datagram NAME ID'' of None \<Rightarrow> m1 | Some s \<Rightarrow> m1\<lparr>dm_name := s\<rparr>);
          m3 = (case map_of d ''Datagram Author'' of None \<Rightarrow> m2 | Some s \<Rightarrow> m2\<lparr>dm_author := s\<rparr>);
          m4 = (case map_of d ''Datagram Hashing Algo'' of None \<Rightarrow> m3
                | Some s \<Rightarrow> (case bind_result (py_int s) algorithm_of of Inl _ \<Rightarrow> m3 | Inr a \<Rightarrow> m3\<lparr>dm_hash_algorithm := a\<rparr>))
      in bind_result (case map_of d ''Datagram Hash UQID'' of None \<Rightarrow> Inr (dm_hash m4)
                      | Some s \<Rightarrow> hash_from_ini_value (dm_hash_algorithm m4) s) (\<lambda>h.
      let m5 = m4\<lparr>dm_hash := h\<rparr>;
          m6 = (case map_of d ''Encryption'' of None \<Rightarrow> m5
                | Some s \<Rightarrow> (case bind_result (py_int s) encryption_of of Inl _ \<Rightarrow> m5 | Inr e \<Rightarrow> m5\<lparr>dm_encryption := e\<rparr>));
          m7 = (case map_of d ''Encryption Public Key'' of None \<Rightarrow> m6 | Some s \<Rightarrow> m6\<lparr>dm_encryption_key := unbrace s\<rparr>)
      in Inr (case map_of d ''Encryption Server URL'' of None \<Rightarrow> m7 | Some s \<Rightarrow> m7\<lparr>dm_server_url := unbrace s\<rparr>))))"

text \<open>\<open>from_meta_dict\<close>; the base is a new metadata record when none is given.\<close>

definition from_meta_dict :: "ini \<Rightarrow> datagram_meta \<Rightarrow> datagram_meta" where
  "from_meta_dict d base =
     (let m1 = (case map_of d ''Description'' of None \<Rightarrow> base | Some s \<Rightarrow> base\<lparr>dm_description := unbrace s\<rparr>);
          m2 = (case map_of d ''Creation Date'' of None \<Rightarrow> m1 | Some s \<Rightarrow> m1\<lparr>dm_creation_date := unbrace s\<rparr>);
          m3 = (case map_of d ''Tags'' of None \<Rightarrow> m2
                | Some s \<Rightarrow> m2\<lparr>dm_tags := filter (\<lambda>t. t \<noteq> []) (map str_strip (split_on CHR '','' (unbrace s)))\<rparr>)
      in case map_of d ''License'' of None \<Rightarrow> m3 | Some s \<Rightarrow> m3\<lparr>dm_license := unbrace s\<rparr>)"

definition meta_to_dict :: "datagram_meta \<Rightarrow> (string \<times> json) list" where
  "meta_to_dict m =
     [(''version'', JStr (version_str (dm_version m))), (''name'', JStr (dm_name m)),
      (''author'', JStr (dm_author m)), (''hash_algorithm'', JInt (algorithm_value (dm_hash_algorithm m))),
      (''hash'', JStr (if hash_truth (dm_hash m) then dh_hex_value (dm_hash m) else [])),
      (''encryption'', JInt (encryption_value (dm_encryption m))), (''uuid'', JStr (dm_uuid m)),
      (''status'', JStr (status_value (dm_status m))), (''created'', JStr (dm_creation_date m)),
      (''tags'', JList (map JStr (dm_tags m)))]"

section \<open>Functions and the root object\<close>

record datagram_function =
  df_name :: string
  df_version :: version
  df_language :: string
  df_source :: string
  df_entry_point :: string
  df_required :: bool
  df_description :: string

definition function_to_dict :: "datagram_function \<Rightarrow> (string \<times> json) list" where
  "function_to_dict f =
     [(''name'', JStr (df_name f)), (''version'', JStr (version_str (df_version f))),
      (''language'', JStr (df_language f)), (''source_length'', JInt (int (length (df_source f)))),
      (''entry_point'', JStr (df_entry_point f)), (''required'', JBool (df_required f)),
      (''description'', JStr (df_description f))]"

text \<open>Database connections are opaque; only their number is read.\<close>

record 'db datagram =
  dg_root_path :: string
  dg_meta :: datagram_meta
  dg_databases :: "(string \<times> 'db) list"
  dg_functions :: "(string \<times> datagram_function) list"
  dg_assets :: "(string \<times> string) list"
  dg_loaded :: bool
  dg_hash_valid :: bool

definition new_datagram :: "string \<Rightarrow> datagram_meta \<Rightarrow> 'db datagram" where
  "new_datagram path m =
     \<lparr>dg_root_path = path, dg_meta = m, dg_databases = [], dg_functions = [], dg_assets = [],
      dg_loaded = False, dg_hash_valid = False\<rparr>"

definition mark_loaded :: "'db datagram \<Rightarrow> 'db datagram" where
  "mark_loaded d = d\<lparr>dg_loaded := True, dg_meta := (dg_meta d)\<lparr>dm_status := ST_LOADED\<rparr>\<rparr>"

definition mark_hash_valid :: "bool \<Rightarrow> 'db datagram \<Rightarrow> 'db datagram" where
  "mark_hash_valid b d = d\<lparr>dg_hash_valid := b\<rparr>"

definition datagram_to_dict :: "'db datagram \<Rightarrow> (string \<times> json) list" where
  "datagram_to_dict d =
     [(''meta'', JObj (meta_to_dict (dg_meta d))), (''root_path'', JStr (dg_root_path d)),
      (''loaded'', JBool (dg_loaded d)), (''hash_valid'', JBool (dg_hash_valid d)),
      (''database_count'', JInt (int (length (dg_databases d)))),
      (''function_count'', JInt (int (length (dg_functions d)))),
      (''asset_count'', JInt (int (length (dg_assets d)))), (''datagram_uuid'', JStr (dm_uuid (dg_meta d)))]"

datatype schema_error = NameRequired | UuidRequired | MajorTooSmall

text \<open>The two membership tests on the enumerations never fail on values of those types.\<close>

definition validate_schema :: "'db datagram \<Rightarrow> bool \<times> schema_error list" where
  "validate_schema d =
     (let m = dg_meta d;
          errors = (if dm_name m = [] then [NameRequired] else [])
                 @ (if dm_uuid m = [] then [UuidRequired] else [])
                 @ (if major (dm_version m) < 1 then [MajorTooSmall] else [])
      in (errors = [], errors))"


section \<open>Orders and round trips\<close>

instantiation version :: linorder
begin

definition less_version :: "version \<Rightarrow> version \<Rightarrow> bool" where
  "less_version v w = version_lt v w"

definition less_eq_version :: "version \<Rightarrow> version \<Rightarrow> bool" where
  "less_eq_version v w = version_le v w"

instance
proof
  fix x y z :: version
  show "x < y \<longleftrightarrow> x \<le> y \<and> \<not> y \<le> x" "x \<le> x" "x \<le> y \<or> y \<le> x" "x \<le> y \<Longrightarrow> y \<le> x \<Longrightarrow> x = y"
    by (cases x; cases y; auto simp: less_version_def less_eq_version_def version_le_def version_lt_def version_eq_def
        split: if_splits)+
  show "x \<le> y \<Longrightarrow> y \<le> z \<Longrightarrow> x \<le> z"
    by (cases x; cases y; cases z) (auto simp: less_eq_version_def version_le_def version_lt_def version_eq_def
        split: if_splits)
qed

end

lemma py_int_component: "py_int (str_int i) = Inr i" "CHR ''.'' \<notin> set (str_int i)"
  using py_int_str_int str_int_no_space by auto

lemma str_strip_version: "str_strip (version_str v) = version_str v \<and> version_str v \<noteq> []"
proof
  have "\<not> py_space c" if "c \<in> set (version_str v)" for c
    using that str_int_no_space by (auto simp: version_str_def py_space_def)
  then show "str_strip (version_str v) = version_str v" by (simp add: str_strip_def strip_if_none)
  show "version_str v \<noteq> []" by (simp add: version_str_def)
qed

lemma version_parse_str: "version_parse (version_str v) = Inr v"
proof -
  have "split_on CHR ''.'' (version_str v) = [str_int (major v), str_int (minor v), str_int (patch v)]"
    using py_int_component(2) by (simp add: version_str_def split_on_append split_on_plain)
  then show ?thesis by (simp add: version_parse_def str_strip_version py_int_component(1))
qed

lemma algorithm_of_value: "algorithm_of (algorithm_value a) = Inr a"
  by (cases a) (simp_all add: algorithm_of_def)

lemma encryption_of_value: "encryption_of (encryption_value e) = Inr e"
  by (cases e) (simp_all add: encryption_of_def)

lemma hex_digit_props:
  assumes "d < 16"
  shows "hex_value (hex_digit d) = Some d" "\<not> py_space (hex_digit d)" "\<not> line_break (hex_digit d)"
    "hex_digit d \<noteq> CHR ''{''" "hex_digit d \<noteq> CHR ''}''" "of_char (hex_digit d) \<ge> (48 :: nat)"
proof -
  have o: "of_char (hex_digit d) = (if d < 10 then 48 + d else 87 + d)"
    using assms by (simp add: hex_digit_def)
  show "hex_value (hex_digit d) = Some d" "\<not> py_space (hex_digit d)" "\<not> line_break (hex_digit d)"
    "of_char (hex_digit d) \<ge> (48 :: nat)"
    using assms o by (auto simp: hex_value_def py_space_def line_break_def)
  show "hex_digit d \<noteq> CHR ''{''" "hex_digit d \<noteq> CHR ''}''" using assms o by (auto split: if_splits)
qed

lemma to_hex_chars:
  assumes "c \<in> set (to_hex bs)" shows "\<not> py_space c \<and> \<not> line_break c \<and> c \<noteq> CHR ''{'' \<and> c \<noteq> CHR ''}''"
proof -
  obtain b :: byte where "c \<in> {hex_digit (unat b div 16), hex_digit (unat b mod 16)}"
    using assms by (fastforce simp: to_hex_def)
  moreover have "unat b div 16 < 16" "unat b mod 16 < 16" for b :: byte
    using unsigned_less [of b, where ?'a = nat] by (simp_all add: div_less_iff_less_mult)
  ultimately show ?thesis using hex_digit_props by auto
qed

lemma from_to_hex: "from_hex (to_hex bs) = Inr bs"
proof (induction bs)
  case Nil
  then show ?case by (simp add: to_hex_def)
next
  case (Cons b bs)
  have d: "unat b div 16 < 16" "unat b mod 16 < 16"
    using unsigned_less [of b, where ?'a = nat] by (simp_all add: div_less_iff_less_mult)
  note x = hex_digit_props [OF d(1)] and y = hex_digit_props [OF d(2)]
  have "to_hex (b # bs) = hex_digit (unat b div 16) # hex_digit (unat b mod 16) # to_hex bs" by (simp add: to_hex_def)
  then show ?case using Cons x(1,6) y(1) by simp
qed

lemma to_hex_empty: "to_hex bs = [] \<longleftrightarrow> bs = []"
  by (cases bs) (simp_all add: to_hex_def)

lemma compute_hash_eq:
  "compute_hash H a data = Inr \<lparr>dh_algorithm = a, dh_hex_value = to_hex (H a data), dh_digest = H a data\<rparr>"
  by (simp add: compute_hash_def new_hash_def from_to_hex to_hex_empty)

end
