(* ===== verification/DatagramStore.thy ===== *)
theory DatagramStore
  imports DatagramTypes "HOL-Library.AList" "HOL-Library.List_Lexorder"
begin

text \<open>
  Reading, writing and hashing of datagrams:
  \<open>SCRIPTS/SERVICES/datagram-engine/engine/datagram_io.py\<close> and \<open>datagram_hash.py\<close>.
  The part of the file system under the datagram's root is a value \<open>disk\<close>: the files by
  relative path with their bytes, the directories, and the files that cannot be read.  Writing
  and making directories fail only where a file is in the way; symbolic links are left out.
  Newline translation of text files does not show, since parsing splits at every line boundary.
\<close>

section \<open>The INI format\<close>

text \<open>The pattern \<open>^\[([^\]]+)\]=(.*)$\<close> on one stripped line.\<close>

definition parse_ini_line :: "string \<Rightarrow> (string \<times> string) option" where
  "parse_ini_line s =
     (case s of
        [] \<Rightarrow> None
      | c # rest \<Rightarrow>
          if c \<noteq> CHR ''['' then None
          else (let key = takeWhile (\<lambda>c. c \<noteq> CHR '']'') rest; after = dropWhile (\<lambda>c. c \<noteq> CHR '']'') rest
                in if key \<noteq> [] \<and> take 2 after = '']='' then Some (str_strip key, drop 2 after) else None))"

definition parse_ini_content :: "string \<Rightarrow> ini" where
  "parse_ini_content content =
     fold (\<lambda>line d.
       let trimmed = str_strip line
       in if trimmed = [] \<or> take 1 trimmed = ''#'' then d
          else (case parse_ini_line trimmed of None \<Rightarrow> d | Some (k, v) \<Rightarrow> AList.update k v d))
     (splitlines content) []"

definition ini_line :: "string \<Rightarrow> string \<Rightarrow> string" where
  "ini_line k v = ''['' @ k @ '']='' @ v"

definition serialize_ini :: "ini \<Rightarrow> string" where
  "serialize_ini d = join [CHR 0x0A] (map (\<lambda>(k, v). ini_line k v) d) @ [CHR 0x0A]"

definition serialize_ini_braced :: "ini \<Rightarrow> string" where
  "serialize_ini_braced d =
     join [CHR 0x0A] (map (\<lambda>(k, v).
       if v \<noteq> [] \<and> hd v = CHR ''{'' \<and> last v = CHR ''}'' then ini_line k v else ini_line k (''{'' @ v @ ''}'')) d)
     @ [CHR 0x0A]"

section \<open>The disk\<close>

type_synonym rel_path = "string list"

record tree =
  tr_files :: "(rel_path \<times> byte list) list"
  tr_dirs :: "rel_path list"
  tr_unreadable :: "rel_path list"

datatype disk = NoPath | PlainFile | Directory tree

definition path_exists :: "tree \<Rightarrow> rel_path \<Rightarrow> bool" where
  "path_exists t p = (p = [] \<or> p \<in> set (tr_dirs t) \<or> map_of (tr_files t) p \<noteq> None)"

definition is_dir :: "tree \<Rightarrow> rel_path \<Rightarrow> bool" where
  "is_dir t p = (p = [] \<or> p \<in> set (tr_dirs t))"

text \<open>\<open>path.mkdir(parents=True, exist_ok=True)\<close>.\<close>

definition mkdir :: "rel_path \<Rightarrow> tree \<Rightarrow> tree result" where
  "mkdir p t =
     (let steps = map (\<lambda>n. take (Suc n) p) [0..<length p]
      in if list_ex (\<lambda>q. map_of (tr_files t) q \<noteq> None) steps then Inl OSError
         else Inr (t\<lparr>tr_dirs := tr_dirs t @ filter (\<lambda>q. q \<notin> set (tr_dirs t)) steps\<rparr>))"

definition write_file :: "rel_path \<Rightarrow> byte list \<Rightarrow> tree \<Rightarrow> tree result" where
  "write_file p bs t =
     (if is_dir t p then Inl OSError else Inr (t\<lparr>tr_files := AList.update p bs (tr_files t)\<rparr>))"

text \<open>A missing file gives \<open>None\<close>; a directory or unreadable or undecodable file raises.\<close>

definition read_ini_file :: "rel_path \<Rightarrow> tree \<Rightarrow> ini option result" where
  "read_ini_file p t =
     (if \<not> path_exists t p then Inr None
      else (case map_of (tr_files t) p of
              None \<Rightarrow> Inl OSError
            | Some bs \<Rightarrow>
                if p \<in> set (tr_unreadable t) then Inl OSError
                else (case utf8_decode bs of
                        Inl _ \<Rightarrow> Inl OSError
                      | Inr content \<Rightarrow> Inr (Some (parse_ini_content content)))))"

definition write_ini_file :: "rel_path \<Rightarrow> ini \<Rightarrow> bool \<Rightarrow> tree \<Rightarrow> tree result" where
  "write_ini_file p d braced t =
     bind_result (mkdir (butlast p) t)
       (write_file p (utf8_encode (if braced then serialize_ini_braced d else serialize_ini d)))"

section \<open>Collecting the content to hash\<close>

definition base_ini :: rel_path where
  "base_ini = [''Meta'', ''Base.ini'']"

definition meta_ini :: rel_path where
  "meta_ini = [''Meta'', ''DatagramMeta.ini'']"

definition excluded :: "rel_path \<Rightarrow> bool" where
  "excluded p =
     (p = base_ini \<or> ''__pycache__'' \<in> set p \<or>
      (let fn = last p in 4 \<le> length fn \<and> drop (length fn - 4) fn = ''.pyc''))"

definition rel_str :: "rel_path \<Rightarrow> string" where
  "rel_str p = join ''/'' p"

definition hashed_files :: "tree \<Rightarrow> (rel_path \<times> byte list) list" where
  "hashed_files t =
     filter (\<lambda>(p, bs). p \<notin> set (tr_unreadable t))
       (sort_key (\<lambda>(p, bs). rel_str p) (filter (\<lambda>(p, bs). \<not> excluded p) (tr_files t)))"

definition collect_content_for_hashing :: "disk \<Rightarrow> byte list \<times> string list" where
  "collect_content_for_hashing disk =
     (case disk of
        Directory t \<Rightarrow>
          (concat (map (\<lambda>(p, bs). utf8_encode (rel_str p) @ [0] @ bs @ [0]) (hashed_files t)),
           map (\<lambda>(p, bs). rel_str p) (hashed_files t))
      | _ \<Rightarrow> ([], []))"

section \<open>Loading, creating, updating\<close>

definition load_datagram :: "string \<Rightarrow> string \<Rightarrow> disk \<Rightarrow> 'db datagram result" where
  "load_datagram root_path uuid disk =
     (case disk of
        NoPath \<Rightarrow> Inl OSError
      | PlainFile \<Rightarrow> Inl OSError
      | Directory t \<Rightarrow>
          if \<not> path_exists t base_ini then Inl OSError
          else bind_result (read_ini_file base_ini t) (\<lambda>base_data.
            (case base_data of
               None \<Rightarrow> Inl OSError
             | Some d \<Rightarrow>
                 bind_result (from_ini_dict uuid d) (\<lambda>meta.
                 bind_result (if path_exists t meta_ini then read_ini_file meta_ini t else Inr None) (\<lambda>meta_data.
                   let meta' = (case meta_data of None \<Rightarrow> meta | Some md \<Rightarrow> if md = [] then meta else from_meta_dict md meta)
                   in Inr (mark_loaded (new_datagram root_path meta')))))))"

definition datagram_dirs :: "rel_path list" where
  "datagram_dirs =
     [[''Meta''], [''Databases'', ''Default'', ''Data''], [''LargeAssets''], [''PreLoad'', ''Gui''],
      [''PreLoad'', ''Intil''], [''Functions'']]"

fun mkdirs :: "rel_path list \<Rightarrow> tree \<Rightarrow> tree result" where
  "mkdirs [] t = Inr t"
| "mkdirs (p # ps) t = bind_result (mkdir p t) (mkdirs ps)"

text \<open>Created with the UUID and the date the environment supplies.\<close>

definition create_datagram ::
  "string \<Rightarrow> string \<Rightarrow> string \<Rightarrow> version option \<Rightarrow> string \<Rightarrow> string \<Rightarrow> string \<Rightarrow> disk
     \<Rightarrow> ('db datagram \<times> tree) result" where
  "create_datagram root_path name author ver description uuid today disk =
     bind_result (case disk of NoPath \<Rightarrow> Inr \<lparr>tr_files = [], tr_dirs = [], tr_unreadable = []\<rparr>
                  | PlainFile \<Rightarrow> Inl OSError | Directory t \<Rightarrow> Inr t) (\<lambda>t0.
     bind_result (mkdirs datagram_dirs t0) (\<lambda>t1.
       let m = (new_meta uuid)\<lparr>dm_name := name, dm_author := author,
                  dm_version := (case ver of None \<Rightarrow> Version 1 0 0 | Some v \<Rightarrow> v),
                  dm_description := description, dm_creation_date := today, dm_status := ST_CREATED\<rparr>
       in bind_result (write_ini_file base_ini (to_ini_dict False m) False t1) (\<lambda>t2.
          bind_result (write_ini_file meta_ini (to_meta_dict m) True t2) (\<lambda>t3.
            Inr (new_datagram root_path m, t3)))))"

text \<open>On a datagram whose root is the directory \<open>t\<close>.\<close>

definition update_base_ini :: "'db datagram \<Rightarrow> tree \<Rightarrow> ('db datagram \<times> tree) result" where
  "update_base_ini d t =
     bind_result (write_ini_file base_ini (to_ini_dict (hash_truth (dm_hash (dg_meta d))) (dg_meta d)) False t)
       (\<lambda>t'. Inr (d\<lparr>dg_meta := (dg_meta d)\<lparr>dm_status := ST_MODIFIED\<rparr>\<rparr>, t'))"

definition update_meta_ini :: "'db datagram \<Rightarrow> tree \<Rightarrow> tree result" where
  "update_meta_ini d t = write_ini_file meta_ini (to_meta_dict (dg_meta d)) True t"

section \<open>Validation\<close>

datatype structure_problem = PathMissing | NotADirectory | MissingBaseIni | MissingDirectory rel_path | FileInTheWay rel_path

definition expected_dirs :: "(rel_path \<times> bool) list" where
  "expected_dirs =
     [([''Meta''], True), ([''Databases''], False), ([''Databases'', ''Default'', ''Data''], False),
      ([''LargeAssets''], False), ([''PreLoad''], False), ([''PreLoad'', ''Gui''], False),
      ([''PreLoad'', ''Intil''], False), ([''Functions''], False)]"

definition validate_datagram_structure :: "disk \<Rightarrow> bool \<times> structure_problem list" where
  "validate_datagram_structure disk =
     (case disk of
        NoPath \<Rightarrow> (False, [PathMissing])
      | PlainFile \<Rightarrow> (False, [NotADirectory])
      | Directory t \<Rightarrow>
          (let errors0 = (if path_exists t base_ini then [] else [MissingBaseIni]);
               (errors, warnings) = fold (\<lambda>(p, required) (es, ws).
                  if \<not> path_exists t p
                  then (if required then (es @ [MissingDirectory p], ws) else (es, ws @ [MissingDirectory p]))
                  else if \<not> is_dir t p then (es @ [FileInTheWay p], ws) else (es, ws)) expected_dirs (errors0, [])
           in (errors = [], errors @ warnings)))"

section \<open>Hashes of datagrams\<close>

definition compute_datagram_hash ::
  "digest_fun \<Rightarrow> disk \<Rightarrow> 'db datagram \<Rightarrow> hash_algorithm option \<Rightarrow> datagram_hash result" where
  "compute_datagram_hash H disk d algo =
     compute_hash H (case algo of None \<Rightarrow> dm_hash_algorithm (dg_meta d) | Some a \<Rightarrow> a)
       (fst (collect_content_for_hashing disk))"

definition verify_datagram_hash ::
  "digest_fun \<Rightarrow> disk \<Rightarrow> 'db datagram \<Rightarrow> (bool \<times> datagram_hash option) result \<times> 'db datagram" where
  "verify_datagram_hash H disk d =
     (let stored = dm_hash (dg_meta d) in
      if \<not> hash_truth stored then (Inr (False, None), mark_hash_valid False d)
      else (case compute_datagram_hash H disk d (Some (dh_algorithm stored)) of
              Inl err \<Rightarrow> (Inl err, d)
            | Inr computed \<Rightarrow>
                (let is_valid = (dh_hex_value computed = dh_hex_value stored)
                 in (Inr (is_valid, Some computed), mark_hash_valid is_valid d))))"

text \<open>When writing fails, the object in memory has changed already.\<close>

definition update_datagram_hash ::
  "digest_fun \<Rightarrow> 'db datagram \<Rightarrow> tree \<Rightarrow> datagram_hash result \<times> 'db datagram \<times> tree" where
  "update_datagram_hash H d t =
     (case compute_datagram_hash H (Directory t) d None of
        Inl err \<Rightarrow> (Inl err, d, t)
      | Inr computed \<Rightarrow>
          (let d1 = d\<lparr>dg_meta := (dg_meta d)\<lparr>dm_hash := computed, dm_status := ST_HASHED\<rparr>\<rparr>;
               d2 = mark_hash_valid True d1
           in (case update_base_ini d2 t of
                 Inl err \<Rightarrow> (Inl err, d2, t)
               | Inr (d3, t') \<Rightarrow> (Inr computed, d3, t'))))"

section \<open>The INI round trip\<close>

text \<open>Values a line can carry, and values a braced line can carry.\<close>

definition one_line :: "string \<Rightarrow> bool" where
  "one_line s \<longleftrightarrow> (\<forall>c\<in>set s. \<not> line_break c)"

definition storable :: "string \<Rightarrow> bool" where
  "storable s \<longleftrightarrow> one_line s \<and> (s = [] \<or> \<not> py_space (last s))"

definition storable_braced :: "string \<Rightarrow> bool" where
  "storable_braced s \<longleftrightarrow> one_line s \<and> unstripped py_space s \<and> unstripped (\<lambda>c. c \<in> {CHR ''{'', CHR ''}''}) s"

definition storable_ini :: "ini \<Rightarrow> bool" where
  "storable_ini d \<longleftrightarrow> distinct (map fst d) \<and>
     (\<forall>(k, v)\<in>set d. k \<noteq> [] \<and> CHR '']'' \<notin> set k \<and> one_line k \<and> unstripped py_space k \<and> storable v)"

lemma update_new: "k \<notin> fst ` set al \<Longrightarrow> AList.update k v al = al @ [(k, v)]"
  by (induction al) auto

lemma bracket_split:
  "c \<notin> set k \<Longrightarrow> takeWhile (\<lambda>x. x \<noteq> c) (k @ c # r) = k \<and> dropWhile (\<lambda>x. x \<noteq> c) (k @ c # r) = c # r"
  by (induction k) auto

lemma parse_ini_line_line:
  "k \<noteq> [] \<Longrightarrow> CHR '']'' \<notin> set k \<Longrightarrow> unstripped py_space k \<Longrightarrow> parse_ini_line (ini_line k v) = Some (k, v)"
  using bracket_split [of "CHR '']''" k "CHR ''='' # v"]
  by (simp add: parse_ini_line_def ini_line_def str_strip_def strip_if_unstripped numeral_2_eq_2)

lemma ini_line_unstripped:
  assumes "storable v" shows "str_strip (ini_line k v) = ini_line k v"
proof -
  have "unstripped py_space (ini_line k v)"
    using assms by (cases v rule: rev_cases) (auto simp: unstripped_def ini_line_def storable_def py_space_def)
  then show ?thesis by (simp add: str_strip_def strip_if_unstripped)
qed

lemma parse_ini_lines:
  "\<forall>(k, v)\<in>set d. k \<noteq> [] \<and> CHR '']'' \<notin> set k \<and> unstripped py_space k \<and> storable v \<Longrightarrow> distinct (map fst (acc @ d)) \<Longrightarrow>
   fold (\<lambda>line d. let trimmed = str_strip line
       in if trimmed = [] \<or> take 1 trimmed = ''#'' then d
          else (case parse_ini_line trimmed of None \<Rightarrow> d | Some (k, v) \<Rightarrow> AList.update k v d))
     (map (\<lambda>(k, v). ini_line k v) d) acc = acc @ d"
proof (induction d arbitrary: acc)
  case Nil
  then show ?case by simp
next
  case (Cons kv d)
  obtain k v where kv: "kv = (k, v)" by (cases kv)
  have "ini_line k v \<noteq> [] \<and> take 1 (ini_line k v) \<noteq> ''#''" by (simp add: ini_line_def)
  moreover have "AList.update k v acc = acc @ [(k, v)]" using Cons.prems(2) kv by (intro update_new) auto
  moreover have "parse_ini_line (ini_line k v) = Some (k, v)" "str_strip (ini_line k v) = ini_line k v"
    using Cons.prems(1) kv parse_ini_line_line ini_line_unstripped by auto
  ultimately show ?case using Cons kv by simp
qed

lemma join_lines: "ls \<noteq> [] \<Longrightarrow> join [c] ls @ [c] = concat (map (\<lambda>l. l @ [c]) ls)"
proof (induction "[c]" ls rule: join.induct)
  case (3 s v va)
  then show ?case by simp
qed simp_all


lemma one_line_ini: "one_line k \<Longrightarrow> one_line v \<Longrightarrow> one_line (ini_line k v)"
  by (auto simp: one_line_def ini_line_def line_break_def)

lemma parse_serialized:
  assumes "storable_ini d"
  shows "parse_ini_content (serialize_ini d) = d"
proof (cases "d = []")
  case True
  have "splitlines (serialize_ini []) = [[]]" by (simp add: serialize_ini_def splitlines_def line_break_def)
  then show ?thesis using True by (simp add: parse_ini_content_def str_strip_def strip_if_def)
next
  case False
  let ?ls = "map (\<lambda>(k, v). ini_line k v) d"
  have "one_line (ini_line k v)" if "(k, v) \<in> set d" for k v
    using assms that by (intro one_line_ini) (auto simp: storable_ini_def storable_def)
  then have "\<forall>l\<in>set ?ls. \<forall>c\<in>set l. \<not> line_break c" by (auto simp: one_line_def)
  note lines = splitlines_lines [OF this]
  have ne: "?ls \<noteq> []" using False by simp
  have "splitlines (serialize_ini d) = ?ls" by (simp only: serialize_ini_def join_lines [OF ne] lines)
  moreover have "\<forall>(k, v)\<in>set d. k \<noteq> [] \<and> CHR '']'' \<notin> set k \<and> unstripped py_space k \<and> storable v"
    "distinct (map fst ([] @ d))" using assms by (auto simp: storable_ini_def)
  note parse_ini_lines [OF this]
  ultimately show ?thesis by (simp only: parse_ini_content_def append_Nil)
qed

text \<open>Braced values that have their braces already are written as they are.\<close>

lemma serialize_braced:
  "\<forall>(k, v)\<in>set d. \<exists>s. v = ''{'' @ s @ ''}'' \<Longrightarrow> serialize_ini_braced d = serialize_ini d"
proof -
  assume a: "\<forall>(k, v)\<in>set d. \<exists>s. v = ''{'' @ s @ ''}''"
  have "map (\<lambda>(k, v). if v \<noteq> [] \<and> hd v = CHR ''{'' \<and> last v = CHR ''}'' then ini_line k v else ini_line k (''{'' @ v @ ''}'')) d
      = map (\<lambda>(k, v). ini_line k v) d"
    using a by (intro map_cong) auto
  then show ?thesis by (simp only: serialize_ini_braced_def serialize_ini_def)
qed

section \<open>Stored metadata\<close>

lemma unbrace_braced: "storable_braced s \<Longrightarrow> unbrace (CHR ''{'' # s @ ''}'') = s"
proof -
  assume s: "storable_braced s"
  let ?P = "\<lambda>c. c \<in> set ''{}''"
  have P: "?P = (\<lambda>c. c \<in> {CHR ''{'', CHR ''}''})" by auto
  have "strip_if ?P (CHR ''{'' # s @ ''}'') = strip_if ?P s"
  proof (cases "s = []")
    case True
    then show ?thesis by (simp add: strip_if_def)
  next
    case False
    have u: "\<not> ?P (hd s)" "\<not> ?P (last s)" using s False unfolding P by (auto simp: storable_braced_def unstripped_def)
    have "dropWhile ?P (CHR ''{'' # s @ ''}'') = s @ ''}''" using u(1) False by (cases s) auto
    moreover have "dropWhile ?P (rev (s @ ''}'')) = rev s" using u(2) False by (cases s rule: rev_cases) auto
    moreover have "strip_if ?P s = s" using u False by (intro strip_if_unstripped) (simp add: unstripped_def)
    ultimately show ?thesis by (simp only: strip_if_def rev_rev_ident)
  qed
  moreover have "strip_if ?P s = s" using s unfolding P storable_braced_def by (blast intro: strip_if_unstripped)
  ultimately show "unbrace (CHR ''{'' # s @ ''}'') = s"
    using s unfolding unbrace_def strip_chars_def str_strip_def by (simp only: storable_braced_def strip_if_unstripped)
qed

definition hash_ok :: "datagram_meta \<Rightarrow> bool" where
  "hash_ok m \<longleftrightarrow> (if hash_truth (dm_hash m)
     then dm_hash m = \<lparr>dh_algorithm = dm_hash_algorithm m, dh_hex_value = to_hex (dh_digest (dm_hash m)),
                       dh_digest = dh_digest (dm_hash m)\<rparr>
     else dm_hash m = empty_hash)"

definition storable_meta :: "datagram_meta \<Rightarrow> bool" where
  "storable_meta m \<longleftrightarrow> storable (dm_name m) \<and> storable (dm_author m) \<and> storable_braced (dm_encryption_key m)
     \<and> storable_braced (dm_server_url m)"

lemma storable_braced_value: "storable_braced s \<Longrightarrow> storable (CHR ''{'' # s @ ''}'')"
  by (auto simp: storable_braced_def storable_def one_line_def line_break_def py_space_def)

lemma str_int_storable: "storable (str_int i)"
  using str_int_no_space last_in_set by (auto simp: storable_def one_line_def)

lemma version_str_storable: "storable (version_str v)"
proof -
  have "\<not> py_space c \<and> \<not> line_break c" if "c \<in> set (version_str v)" for c
    using that str_int_no_space by (auto simp: version_str_def py_space_def line_break_def)
  then show ?thesis using last_in_set by (auto simp: storable_def one_line_def)
qed

lemma to_hex_storable_braced: "storable_braced (to_hex bs)"
  using to_hex_chars [of _ bs] hd_in_set last_in_set by (auto simp: storable_braced_def one_line_def unstripped_def)

lemma storable_ini_to_ini:
  assumes "storable_meta m" "hash_ok m"
  shows "storable_ini (to_ini_dict b m)"
proof -
  have keys: "\<forall>k\<in>set [''Datagram Version'', ''Datagram NAME ID'', ''Datagram Author'', ''Datagram Hashing Algo'',
      ''Encryption'', ''Datagram Hash UQID'', ''Encryption Public Key'', ''Encryption Server URL''].
      k \<noteq> [] \<and> CHR '']'' \<notin> set k \<and> one_line k \<and> unstripped py_space k"
    by (simp add: one_line_def unstripped_def line_break_def py_space_def)
  have "hash_truth (dm_hash m) \<Longrightarrow> storable (to_ini_value (dm_hash m))"
  proof -
    assume "hash_truth (dm_hash m)"
    then have "dh_hex_value (dm_hash m) = to_hex (dh_digest (dm_hash m))"
      using assms(2) unfolding hash_ok_def by (metis datagram_hash.select_convs(2))
    then show ?thesis using storable_braced_value [OF to_hex_storable_braced] by (simp add: to_ini_value_def)
  qed
  then show ?thesis using assms(1) keys storable_braced_value str_int_storable version_str_storable
    by (auto simp: storable_ini_def to_ini_dict_def storable_meta_def)
qed


text \<open>The part of the metadata that \<open>Base.ini\<close> keeps.\<close>

definition base_part :: "string \<Rightarrow> datagram_meta \<Rightarrow> datagram_meta" where
  "base_part uuid m =
     (new_meta uuid)\<lparr>dm_version := dm_version m, dm_name := dm_name m, dm_author := dm_author m,
       dm_hash_algorithm := dm_hash_algorithm m, dm_hash := dm_hash m, dm_encryption := dm_encryption m,
       dm_encryption_key := dm_encryption_key m, dm_server_url := dm_server_url m\<rparr>"

lemma hash_ini_roundtrip:
  assumes "hash_ok m" "hash_truth (dm_hash m)"
  shows "hash_from_ini_value (dm_hash_algorithm m) (to_ini_value (dm_hash m)) = Inr (dm_hash m)"
proof -
  let ?hex = "to_hex (dh_digest (dm_hash m))"
  have h: "dm_hash m = \<lparr>dh_algorithm = dm_hash_algorithm m, dh_hex_value = ?hex, dh_digest = dh_digest (dm_hash m)\<rparr>"
    using assms by (simp add: hash_ok_def)
  have v: "to_ini_value (dm_hash m) = CHR ''{'' # ?hex @ ''}''"
    unfolding to_ini_value_def by (subst h) simp
  have "str_strip (CHR ''{'' # ?hex @ ''}'') = CHR ''{'' # ?hex @ ''}''"
    unfolding str_strip_def by (rule strip_if_unstripped) (simp add: unstripped_def py_space_def)
  moreover have "str_strip (strip_chars ''{}'' (CHR ''{'' # ?hex @ ''}'')) = ?hex"
    using unbrace_braced [OF to_hex_storable_braced] by (simp only: unbrace_def)
  ultimately have "hash_from_ini_value (dm_hash_algorithm m) (to_ini_value (dm_hash m)) = new_hash (dm_hash_algorithm m) ?hex"
    by (simp only: hash_from_ini_value_def v)
  also have "\<dots> = Inr \<lparr>dh_algorithm = dm_hash_algorithm m, dh_hex_value = ?hex, dh_digest = dh_digest (dm_hash m)\<rparr>"
    by (simp add: new_hash_def from_to_hex to_hex_empty)
  also have "\<dots> = Inr (dm_hash m)" using h by simp
  finally show ?thesis .
qed

lemma ini_dict_lookup:
  "map_of (to_ini_dict b m) ''Datagram Version'' = Some (version_str (dm_version m))"
  "map_of (to_ini_dict b m) ''Datagram NAME ID'' = Some (dm_name m)"
  "map_of (to_ini_dict b m) ''Datagram Author'' = Some (dm_author m)"
  "map_of (to_ini_dict b m) ''Datagram Hashing Algo'' = Some (str_int (algorithm_value (dm_hash_algorithm m)))"
  "map_of (to_ini_dict b m) ''Encryption'' = Some (str_int (encryption_value (dm_encryption m)))"
  "map_of (to_ini_dict b m) ''Datagram Hash UQID'' =
     (if b \<and> hash_truth (dm_hash m) then Some (to_ini_value (dm_hash m)) else None)"
  "map_of (to_ini_dict b m) ''Encryption Public Key'' =
     (if dm_encryption_key m \<noteq> [] then Some (CHR ''{'' # dm_encryption_key m @ ''}'') else None)"
  "map_of (to_ini_dict b m) ''Encryption Server URL'' =
     (if dm_server_url m \<noteq> [] then Some (CHR ''{'' # dm_server_url m @ ''}'') else None)"
  by (simp_all add: to_ini_dict_def)

lemma from_to_ini:
  assumes "storable_meta m" "hash_ok m"
  shows "from_ini_dict uuid (to_ini_dict (hash_truth (dm_hash m)) m) = Inr (base_part uuid m)"
proof -
  have k: "unbrace (CHR ''{'' # dm_encryption_key m @ ''}'') = dm_encryption_key m"
    "unbrace (CHR ''{'' # dm_server_url m @ ''}'') = dm_server_url m"
    using assms(1) unbrace_braced by (simp_all add: storable_meta_def)
  have e: "\<not> hash_truth (dm_hash m) \<Longrightarrow> empty_hash = dm_hash m" using assms(2) by (simp add: hash_ok_def)
  show ?thesis
    unfolding from_ini_dict_def Let_def ini_dict_lookup
    using hash_ini_roundtrip [OF assms(2)] e
    by (simp add: version_parse_str py_int_str_int algorithm_of_value encryption_of_value k base_part_def new_meta_def)
qed

section \<open>Collected content ignores the base file\<close>

lemma filter_update: "\<not> Q k \<Longrightarrow> filter (\<lambda>(p, b). Q p) (AList.update k v al) = filter (\<lambda>(p, b). Q p) al"
  by (induction al) auto

lemma base_ini_excluded: "excluded base_ini"
  by (simp add: excluded_def)

lemma hashed_files_base:
  "hashed_files (t\<lparr>tr_dirs := ds, tr_files := AList.update base_ini bs (tr_files t)\<rparr>) = hashed_files t"
  using filter_update [of "\<lambda>p. \<not> excluded p" base_ini bs "tr_files t"] base_ini_excluded
  by (simp add: hashed_files_def)

lemma mkdir_frame:
  assumes "mkdir p t = Inr t'"
  shows "tr_files t' = tr_files t \<and> tr_unreadable t' = tr_unreadable t \<and> set (tr_dirs t) \<subseteq> set (tr_dirs t') \<and>
    set (tr_dirs t') \<subseteq> set (tr_dirs t) \<union> (\<lambda>n. take (Suc n) p) ` {..<length p}"
proof -
  let ?steps = "map (\<lambda>n. take (Suc n) p) [0..<length p]"
  have "t' = t\<lparr>tr_dirs := tr_dirs t @ filter (\<lambda>q. q \<notin> set (tr_dirs t)) ?steps\<rparr>"
    using assms by (simp add: mkdir_def split: if_splits)
  moreover have "set ?steps = (\<lambda>n. take (Suc n) p) ` {..<length p}" by (simp add: atLeast0LessThan)
  ultimately show ?thesis by auto
qed

lemma mkdirs_frame: "mkdirs ps t = Inr t' \<Longrightarrow> tr_files t' = tr_files t \<and> tr_unreadable t' = tr_unreadable t"
proof (induction ps arbitrary: t)
  case (Cons p ps)
  then obtain t1 where "mkdir p t = Inr t1" "mkdirs ps t1 = Inr t'" by (auto simp: bind_result_Inr_conv)
  then show ?case using Cons.IH mkdir_frame [of p t t1] by simp
qed simp

lemma write_ini_effect:
  assumes "write_ini_file p d b t = Inr t'"
  shows "tr_files t' = AList.update p (utf8_encode (if b then serialize_ini_braced d else serialize_ini d)) (tr_files t)
      \<and> tr_unreadable t' = tr_unreadable t"
    and "q \<notin> (\<lambda>n. take (Suc n) (butlast p)) ` {..<length (butlast p)} \<Longrightarrow> is_dir t' q = is_dir t q"
proof -
  obtain t1 where t1: "mkdir (butlast p) t = Inr t1"
    "write_file p (utf8_encode (if b then serialize_ini_braced d else serialize_ini d)) t1 = Inr t'"
    using assms by (auto simp: write_ini_file_def bind_result_Inr_conv)
  note m = mkdir_frame [OF t1(1)]
  have t': "t' = t1\<lparr>tr_files := AList.update p (utf8_encode (if b then serialize_ini_braced d else serialize_ini d)) (tr_files t1)\<rparr>"
    using t1(2) by (auto simp: write_file_def split: if_splits)
  show "tr_files t' = AList.update p (utf8_encode (if b then serialize_ini_braced d else serialize_ini d)) (tr_files t)
      \<and> tr_unreadable t' = tr_unreadable t" using m t' by simp
  show "q \<notin> (\<lambda>n. take (Suc n) (butlast p)) ` {..<length (butlast p)} \<Longrightarrow> is_dir t' q = is_dir t q"
    using m t' by (auto simp: is_dir_def)
qed

lemma hashed_files_ext:
  "tr_files t' = AList.update base_ini bs (tr_files t) \<Longrightarrow> tr_unreadable t' = tr_unreadable t \<Longrightarrow> hashed_files t' = hashed_files t"
  using filter_update [of "\<lambda>p. \<not> excluded p" base_ini bs "tr_files t"] base_ini_excluded
  by (simp add: hashed_files_def)

lemma read_written:
  assumes "map_of (tr_files t) p = Some (utf8_encode s)" "p \<notin> set (tr_unreadable t)"
  shows "read_ini_file p t = Inr (Some (parse_ini_content s))" "path_exists t p"
  using assms by (simp_all add: read_ini_file_def path_exists_def utf8_roundtrip)

lemma read_elsewhere:
  assumes "write_ini_file base_ini d b t = Inr t'"
  shows "path_exists t' meta_ini = path_exists t meta_ini" "read_ini_file meta_ini t' = read_ini_file meta_ini t"
proof -
  note w = write_ini_effect(1) [OF assms]
  have "is_dir t' meta_ini = is_dir t meta_ini"
    by (rule write_ini_effect(2) [OF assms]) (auto simp: base_ini_def meta_ini_def)
  moreover have ne: "meta_ini \<noteq> base_ini" by (simp add: base_ini_def meta_ini_def)
  ultimately show ex: "path_exists t' meta_ini = path_exists t meta_ini"
    using w by (auto simp: path_exists_def is_dir_def update_conv)
  show "read_ini_file meta_ini t' = read_ini_file meta_ini t"
    using w ne ex by (auto simp: read_ini_file_def update_conv split: option.split)
qed

lemma from_meta_dict_base:
  "dm_version (from_meta_dict d m) = dm_version m" "dm_name (from_meta_dict d m) = dm_name m"
  "dm_author (from_meta_dict d m) = dm_author m" "dm_hash (from_meta_dict d m) = dm_hash m"
  "dm_hash_algorithm (from_meta_dict d m) = dm_hash_algorithm m"
  "dm_encryption (from_meta_dict d m) = dm_encryption m"
  by (simp_all add: from_meta_dict_def split: option.split)

section \<open>Properties\<close>

text \<open>What is serialized as INI, with keys and values that fit on a line, is parsed back as it was.\<close>

theorem ini_roundtrip:
  assumes "storable_ini d" shows "parse_ini_content (serialize_ini d) = d"
  using assms by (rule parse_serialized)

theorem ini_roundtrip_witness:
  "parse_ini_content (serialize_ini [(''a b'', ''x=1''), (''c'', []), (''#d'', '' [y]=2'')])
     = [(''a b'', ''x=1''), (''c'', []), (''#d'', '' [y]=2'')]"
  by (rule ini_roundtrip)
    (simp add: storable_ini_def storable_def one_line_def unstripped_def line_break_def py_space_def)

text \<open>After \<open>update_datagram_hash\<close> has written the new hash into \<open>Base.ini\<close>, the
  datagram loaded from disk has that hash and the same version, name, author and algorithms, and
  verifying it succeeds: writing the hash does not invalidate it.\<close>

theorem updated_hash_verifies:
  assumes "storable_meta (dg_meta d)" and "\<forall>data. H (dm_hash_algorithm (dg_meta d)) data \<noteq> []"
    and "base_ini \<notin> set (tr_unreadable t)"
    and "path_exists t meta_ini \<longrightarrow> (\<exists>x. read_ini_file meta_ini t = Inr x)"
    and "update_datagram_hash H d t = (Inr h, d', t')"
  shows "\<exists>d2 :: 'db datagram. load_datagram path uuid (Directory t') = Inr d2 \<and> dm_hash (dg_meta d2) = h \<and>
    dm_version (dg_meta d2) = dm_version (dg_meta d) \<and> dm_name (dg_meta d2) = dm_name (dg_meta d) \<and>
    dm_author (dg_meta d2) = dm_author (dg_meta d) \<and> dm_encryption (dg_meta d2) = dm_encryption (dg_meta d) \<and>
    dm_hash_algorithm (dg_meta d2) = dm_hash_algorithm (dg_meta d) \<and>
    verify_datagram_hash H (Directory t') d2 = (Inr (True, Some h), mark_hash_valid True d2)"
proof -
  let ?a = "dm_hash_algorithm (dg_meta d)" and ?data = "fst (collect_content_for_hashing (Directory t))"
  let ?h = "\<lparr>dh_algorithm = ?a, dh_hex_value = to_hex (H ?a ?data), dh_digest = H ?a ?data\<rparr>"
  let ?m = "(dg_meta d)\<lparr>dm_hash := ?h, dm_status := ST_HASHED\<rparr>"
  have truth: "hash_truth ?h" using assms(2) by (simp add: hash_truth_def to_hex_empty)
  have upd: "h = ?h" "write_ini_file base_ini (to_ini_dict True ?m) False t = Inr t'"
    using assms(5) truth
    by (auto simp: update_datagram_hash_def compute_datagram_hash_def compute_hash_eq update_base_ini_def
        mark_hash_valid_def bind_result_Inr_conv split: sum.splits)
  note w = write_ini_effect(1) [OF upd(2)]
  have m: "storable_meta ?m" "hash_ok ?m" using assms(1) truth by (simp_all add: storable_meta_def hash_ok_def)
  have "read_ini_file base_ini t' = Inr (Some (parse_ini_content (serialize_ini (to_ini_dict True ?m))))"
    and ex: "path_exists t' base_ini"
    using read_written [of t' base_ini "serialize_ini (to_ini_dict True ?m)"] w assms(3) by (simp_all add: update_conv)
  then have rd: "read_ini_file base_ini t' = Inr (Some (to_ini_dict True ?m))"
    by (simp add: parse_serialized storable_ini_to_ini [OF m])
  have base: "from_ini_dict uuid (to_ini_dict True ?m) = Inr (base_part uuid ?m)" using from_to_ini [OF m] truth by simp
  obtain md where md: "(if path_exists t' meta_ini then read_ini_file meta_ini t' else Inr None) = Inr md"
    using assms(4) read_elsewhere [OF upd(2)] by (cases "path_exists t meta_ini") auto
  let ?meta = "case md of None \<Rightarrow> base_part uuid ?m | Some d \<Rightarrow> if d = [] then base_part uuid ?m else from_meta_dict d (base_part uuid ?m)"
  let ?d2 = "mark_loaded (new_datagram path ?meta) :: 'db datagram"
  have load: "load_datagram path uuid (Directory t') = Inr ?d2"
    using ex rd base md by (simp add: load_datagram_def)
  have f: "dm_hash ?meta = ?h" "dm_version ?meta = dm_version (dg_meta d)" "dm_name ?meta = dm_name (dg_meta d)"
    "dm_author ?meta = dm_author (dg_meta d)" "dm_encryption ?meta = dm_encryption (dg_meta d)" "dm_hash_algorithm ?meta = ?a"
    by (simp_all add: base_part_def from_meta_dict_base split: option.split)
  have "hashed_files t' = hashed_files t" using w by (intro hashed_files_ext) simp_all
  then have "collect_content_for_hashing (Directory t') = collect_content_for_hashing (Directory t)"
    by (simp add: collect_content_for_hashing_def)
  then have "verify_datagram_hash H (Directory t') ?d2 = (Inr (True, Some ?h), mark_hash_valid True ?d2)"
    using truth f(1) by (simp add: verify_datagram_hash_def compute_datagram_hash_def compute_hash_eq mark_loaded_def new_datagram_def)
  then show ?thesis using load f upd(1) by (intro exI [of _ ?d2]) (simp add: mark_loaded_def new_datagram_def)
qed

definition sample_datagram :: "nat datagram" where
  "sample_datagram = new_datagram ''/d'' (new_meta ''u'')"

definition sample_tree :: tree where
  "sample_tree = \<lparr>tr_files = [([''a.txt''], [1, 2])], tr_dirs = [], tr_unreadable = []\<rparr>"

theorem updated_hash_verifies_witness:
  "\<exists>h d' t' (d2 :: nat datagram). update_datagram_hash (\<lambda>_ _. [7]) sample_datagram sample_tree = (Inr h, d', t') \<and>
     load_datagram ''/d'' ''v'' (Directory t') = Inr d2 \<and>
     verify_datagram_hash (\<lambda>_ _. [7]) (Directory t') d2 = (Inr (True, Some h), mark_hash_valid True d2)"
proof -
  let ?r = "update_datagram_hash (\<lambda>_ _. [7]) sample_datagram sample_tree"
  obtain x d' t' where r: "?r = (x, d', t')" by (cases ?r) auto
  have "case fst ?r of Inr h \<Rightarrow> True | Inl err \<Rightarrow> False" by code_simp
  then obtain h where h: "x = Inr h" using r by (cases x) auto
  have "storable_meta (dg_meta sample_datagram)"
    by (simp add: sample_datagram_def new_datagram_def new_meta_def storable_meta_def storable_def storable_braced_def
        one_line_def unstripped_def line_break_def py_space_def)
  moreover have "base_ini \<notin> set (tr_unreadable sample_tree)" by (simp add: sample_tree_def)
  moreover have "\<not> path_exists sample_tree meta_ini" by (simp add: path_exists_def sample_tree_def meta_ini_def)
  ultimately obtain d2 :: "nat datagram" where "load_datagram ''/d'' ''v'' (Directory t') = Inr d2"
    "verify_datagram_hash (\<lambda>_ _. [7]) (Directory t') d2 = (Inr (True, Some h), mark_hash_valid True d2)"
    using updated_hash_verifies [of sample_datagram "\<lambda>_ _. [7]" sample_tree h d' t' "''/d''" "''v''"] r h by blast
  then show ?thesis using r h by blast
qed

text \<open>A datagram created on disk and loaded again has the metadata it was created with, no
  stored hash, and is marked loaded, when name, author, description and date fit on a line.\<close>

theorem created_datagram_loads:
  assumes "storable name" and "storable author" and "storable_braced description" and "storable_braced today"
    and "case disk of Directory t0 \<Rightarrow> base_ini \<notin> set (tr_unreadable t0) \<and> meta_ini \<notin> set (tr_unreadable t0) | _ \<Rightarrow> True"
    and "create_datagram path name author (Some v) description uuid today disk = Inr (d :: 'db datagram, t)"
  shows "load_datagram path uuid (Directory t) = Inr (mark_loaded d)"
proof -
  let ?m = "(new_meta uuid)\<lparr>dm_name := name, dm_author := author, dm_version := v,
      dm_description := description, dm_creation_date := today, dm_status := ST_CREATED\<rparr>"
  obtain t0 t1 t2 where c: "mkdirs datagram_dirs t0 = Inr t1" "write_ini_file base_ini (to_ini_dict False ?m) False t1 = Inr t2"
      "write_ini_file meta_ini (to_meta_dict ?m) True t2 = Inr t" "d = new_datagram path ?m"
      "disk = Directory t0 \<or> tr_unreadable t0 = []"
    using assms(6) by (auto simp: create_datagram_def bind_result_Inr_conv split: disk.splits)
  have un: "base_ini \<notin> set (tr_unreadable t0)" "meta_ini \<notin> set (tr_unreadable t0)" using assms(5) c(5) by auto
  note w1 = write_ini_effect(1) [OF c(2)] and w2 = write_ini_effect(1) [OF c(3)] and m0 = mkdirs_frame [OF c(1)]
  have ne: "meta_ini \<noteq> base_ini" by (simp add: base_ini_def meta_ini_def)
  have m: "storable_meta ?m" "hash_ok ?m" "\<not> hash_truth (dm_hash ?m)"
    using assms(1,2)
    by (simp_all add: storable_meta_def storable_braced_def one_line_def unstripped_def hash_ok_def hash_truth_def new_meta_def empty_hash_def)
  have u: "base_ini \<notin> set (tr_unreadable t)" "meta_ini \<notin> set (tr_unreadable t)" using un w1 w2 m0 by simp_all
  have "map_of (tr_files t) base_ini = Some (utf8_encode (serialize_ini (to_ini_dict False ?m)))"
    using w1 w2 ne by (simp add: update_conv)
  from read_written [OF this u(1)] storable_ini_to_ini [OF m(1,2)]
  have b: "read_ini_file base_ini t = Inr (Some (to_ini_dict False ?m))" "path_exists t base_ini"
    by (simp_all add: parse_serialized)
  have "serialize_ini_braced (to_meta_dict ?m) = serialize_ini (to_meta_dict ?m)"
    by (rule serialize_braced) (simp add: to_meta_dict_def)
  then have "map_of (tr_files t) meta_ini = Some (utf8_encode (serialize_ini (to_meta_dict ?m)))"
    using w2 by (simp add: update_conv)
  from read_written [OF this u(2)]
  have "read_ini_file meta_ini t = Inr (Some (parse_ini_content (serialize_ini (to_meta_dict ?m))))" "path_exists t meta_ini" .
  moreover have empty: "storable_braced []" by (simp add: storable_braced_def one_line_def unstripped_def)
  have "storable_ini (to_meta_dict ?m)"
    using storable_braced_value [OF assms(3)] storable_braced_value [OF assms(4)] storable_braced_value [OF empty]
    by (simp add: storable_ini_def to_meta_dict_def new_meta_def one_line_def unstripped_def line_break_def py_space_def)
  ultimately have md: "read_ini_file meta_ini t = Inr (Some (to_meta_dict ?m))" "path_exists t meta_ini"
    by (simp_all add: parse_serialized)
  have base: "from_ini_dict uuid (to_ini_dict False ?m) = Inr (base_part uuid ?m)"
    using from_to_ini [OF m(1,2), of uuid] m(3) by simp
  have "from_meta_dict (to_meta_dict ?m) (base_part uuid ?m) = ?m"
    using unbrace_braced [OF assms(3)] unbrace_braced [OF assms(4)] unbrace_braced [OF empty]
    by (simp add: from_meta_dict_def to_meta_dict_def base_part_def new_meta_def str_strip_def strip_if_def)
  moreover have "to_meta_dict ?m \<noteq> []" by (simp add: to_meta_dict_def)
  ultimately show ?thesis using b md base c(4) by (simp add: load_datagram_def)
qed

theorem created_datagram_loads_witness:
  "\<exists>(d :: nat datagram) t. create_datagram ''/d'' ''My Data'' ''me'' (Some (Version 2 1 0)) ''text'' ''u'' ''2024-01-01'' NoPath = Inr (d, t)
     \<and> load_datagram ''/d'' ''u'' (Directory t) = Inr (mark_loaded d)"
proof -
  let ?r = "create_datagram ''/d'' ''My Data'' ''me'' (Some (Version 2 1 0)) ''text'' ''u'' ''2024-01-01'' NoPath :: (nat datagram \<times> tree) result"
  have "case ?r of Inr h \<Rightarrow> True | Inl err \<Rightarrow> False" by code_simp
  then obtain d t where r: "?r = Inr (d, t)" by (cases ?r) auto
  have "load_datagram ''/d'' ''u'' (Directory t) = Inr (mark_loaded d)"
    by (rule created_datagram_loads [OF _ _ _ _ _ r])
      (simp_all add: storable_def storable_braced_def one_line_def unstripped_def line_break_def py_space_def)
  with r show ?thesis by blast
qed

text \<open>
  A name with a line break adds a line of its own: here it sets the author of the datagram that
  is loaded back.
\<close>

lemma line_break_injects_field:
  "map_of (parse_ini_content (serialize_ini (to_ini_dict False ((new_meta [])\<lparr>dm_name := ''x'' @ [CHR 0x0A] @ ''[Encryption]=2''\<rparr>))))
     ''Datagram NAME ID'' = Some ''x''"
  by code_simp

text \<open>Segments that hold no separator can be read back from their concatenation.\<close>

lemma separated_injective:
  "\<forall>s\<in>set ss \<union> set ts. x \<notin> set s \<Longrightarrow> concat (map (\<lambda>s. s @ [x]) ss) = concat (map (\<lambda>s. s @ [x]) ts) \<Longrightarrow> ss = ts"
proof (induction ss arbitrary: ts)
  case Nil
  then show ?case by (cases ts) auto
next
  case (Cons s ss)
  then obtain t ts' where ts: "ts = t # ts'" by (cases ts) auto
  have eq: "s @ x # concat (map (\<lambda>s. s @ [x]) ss) = t @ x # concat (map (\<lambda>s. s @ [x]) ts')"
    using Cons.prems(2) ts by simp
  have "s = takeWhile (\<lambda>y. y \<noteq> x) (s @ x # r)" if "x \<notin> set s" for s r
    using that by (induction s) auto
  then have "s = t" using eq Cons.prems(1) ts by (metis UnI1 UnI2 list.set_intros(1))
  moreover have "ss = ts'" using Cons eq \<open>s = t\<close> ts by auto
  ultimately show ?case using ts by simp
qed

lemma utf8_inj: "utf8_encode s = utf8_encode t \<Longrightarrow> s = t"
  by (metis Inr_inject utf8_roundtrip)

definition no_zero_bytes :: "tree \<Rightarrow> bool" where
  "no_zero_bytes t \<longleftrightarrow> (\<forall>(p, bs)\<in>set (hashed_files t). 0 \<notin> set bs \<and> 0 \<notin> set (utf8_encode (rel_str p)))"

text \<open>When neither file names nor hashed contents hold zero bytes, the collected bytes determine
  the hashed files, their paths and contents; so a digest without collisions detects every change.\<close>

theorem collected_content_injective:
  assumes "no_zero_bytes t" and "no_zero_bytes t'"
    and "collect_content_for_hashing (Directory t) = (content, paths)"
    and "collect_content_for_hashing (Directory t') = (content, paths')"
  shows "map (\<lambda>(p, bs). (rel_str p, bs)) (hashed_files t) = map (\<lambda>(p, bs). (rel_str p, bs)) (hashed_files t')"
proof -
  let ?segs = "\<lambda>fs. concat (map (\<lambda>(p, bs). [utf8_encode (rel_str p), bs]) fs)"
  have segs: "concat (map (\<lambda>(p, bs). utf8_encode (rel_str p) @ [0] @ bs @ [0]) fs) = concat (map (\<lambda>s. s @ [0]) (?segs fs))"
    for fs :: "(rel_path \<times> byte list) list"
    by (induction fs) auto
  have z: "\<forall>s\<in>set (?segs (hashed_files t)) \<union> set (?segs (hashed_files t')). 0 \<notin> set s"
    using assms(1,2) by (auto simp: no_zero_bytes_def)
  have "?segs (hashed_files t) = ?segs (hashed_files t')"
    by (rule separated_injective [OF z]) (use assms(3,4) segs in \<open>auto simp: collect_content_for_hashing_def\<close>)
  moreover have "?segs fs = ?segs gs \<Longrightarrow> map (\<lambda>(p, bs). (rel_str p, bs)) fs = map (\<lambda>(p, bs). (rel_str p, bs)) gs"
    for fs gs :: "(rel_path \<times> byte list) list"
  proof (induction fs arbitrary: gs)
    case Nil
    then show ?case by (cases gs) auto
  next
    case (Cons f fs)
    obtain p bs where f: "f = (p, bs)" by (cases f)
    with Cons.prems obtain q cs gs' where g: "gs = (q, cs) # gs'" by (cases gs) auto
    then have "rel_str p = rel_str q" "bs = cs" "?segs fs = ?segs gs'" using Cons.prems f utf8_inj by simp_all
    then show ?case using Cons.IH [of gs'] f g by simp
  qed
  ultimately show ?thesis by blast
qed

theorem collected_content_injective_witness:
  "\<not> (\<exists>paths paths'. collect_content_for_hashing (Directory sample_tree) = ([97, 0, 1, 0], paths) \<and>
     collect_content_for_hashing (Directory (sample_tree\<lparr>tr_files := [([''a''], [1])]\<rparr>)) = ([97, 0, 1, 0], paths'))"
proof -
  have "no_zero_bytes sample_tree" "no_zero_bytes (sample_tree\<lparr>tr_files := [([''a''], [1])]\<rparr>)"
    unfolding no_zero_bytes_def by code_simp+
  moreover have "map (\<lambda>(p, bs). (rel_str p, bs)) (hashed_files sample_tree) = [(''a.txt'', [1, 2])]"
    "map (\<lambda>(p, bs). (rel_str p, bs)) (hashed_files (sample_tree\<lparr>tr_files := [([''a''], [1])]\<rparr>)) = [(''a'', [1])]"
    by code_simp+
  ultimately show ?thesis using collected_content_injective [of sample_tree "sample_tree\<lparr>tr_files := [([''a''], [1])]\<rparr>"] by auto
qed

text \<open>With zero bytes it does not: one file can have the bytes of two.\<close>

lemma collected_content_ambiguous:
  "collect_content_for_hashing (Directory (sample_tree\<lparr>tr_files := [([''a''], [1, 0, 98, 0, 2])]\<rparr>)) = ([97, 0, 1, 0, 98, 0, 2, 0], [''a''])"
  "collect_content_for_hashing (Directory (sample_tree\<lparr>tr_files := [([''b''], [2]), ([''a''], [1])]\<rparr>)) = ([97, 0, 1, 0, 98, 0, 2, 0], [''a'', ''b''])"
  by code_simp+

text \<open>Versions compare by major, minor and patch number in turn: the operators agree with one
  total order, compatibility is that order, and a version written as text is read back.\<close>

theorem version_order_consistent:
  "(is_compatible_with v w \<longleftrightarrow> w \<le> v) \<and> (version_ge v w \<longleftrightarrow> w \<le> v) \<and> (version_gt v w \<longleftrightarrow> w < v) \<and>
   (version_le v w \<longleftrightarrow> v \<le> w) \<and> (version_eq v w \<longleftrightarrow> v = w) \<and>
   (v \<le> w \<longleftrightarrow> major v < major w \<or>
      major v = major w \<and> (minor v < minor w \<or> minor v = minor w \<and> patch v \<le> patch w)) \<and>
   version_parse (version_str v) = Inr v"
proof -
  have eq: "version_eq v w \<longleftrightarrow> v = w" by (cases v; cases w) (simp add: version_eq_def)
  have "version_gt v w \<longleftrightarrow> w < v" by (auto simp: less_version_def version_lt_def version_gt_def)
  moreover have "version_ge v w \<longleftrightarrow> w \<le> v" using calculation eq by (auto simp: version_ge_def)
  moreover have "is_compatible_with v w \<longleftrightarrow> w \<le> v"
    using eq by (auto simp: is_compatible_with_def less_eq_version_def version_le_def version_lt_def version_eq_def)
  moreover have "v \<le> w \<longleftrightarrow> major v < major w \<or>
      major v = major w \<and> (minor v < minor w \<or> minor v = minor w \<and> patch v \<le> patch w)"
    by (auto simp: less_eq_version_def version_le_def version_lt_def version_eq_def)
  moreover have "version_le v w \<longleftrightarrow> v \<le> w" by (simp add: less_eq_version_def)
  ultimately show ?thesis using eq by (simp only: version_parse_str simp_thms)
qed

end
