(* ===== verification/DatagramRuntime.thy ===== *)
theory DatagramRuntime
  imports DatagramTypes "HOL-Library.AList"
begin

text \<open>
  Version negotiation and the function registry of a datagram:
  \<open>datagram_compat.py\<close> and \<open>datagram_functions.py\<close> of
  \<open>SCRIPTS/SERVICES/datagram-engine/engine\<close>.  Running Python source is a parameter: what a
  module defines after its execution, or that the execution raised.
\<close>

section \<open>Compatibility checks\<close>

record compatibility_result =
  cr_compatible :: bool
  cr_required :: version
  cr_available :: version
  cr_component :: string
  cr_message :: string

definition result_to_dict :: "compatibility_result \<Rightarrow> (string \<times> json) list" where
  "result_to_dict r =
     [(''compatible'', JBool (cr_compatible r)), (''required'', JStr (version_str (cr_required r))),
      (''available'', JStr (version_str (cr_available r))), (''component'', JStr (cr_component r)),
      (''message'', JStr (cr_message r))]"

record checker =
  ck_engine_version :: version
  ck_components :: "(string \<times> version) list"
  ck_results :: "compatibility_result list"

definition new_checker :: "version option \<Rightarrow> checker" where
  "new_checker engine =
     \<lparr>ck_engine_version = (case engine of None \<Rightarrow> Version 1 0 0 | Some v \<Rightarrow> v),
      ck_components = [], ck_results = []\<rparr>"

definition register_component :: "string \<Rightarrow> version \<Rightarrow> checker \<Rightarrow> checker" where
  "register_component name v c = c\<lparr>ck_components := AList.update name v (ck_components c)\<rparr>"

definition check_required_version ::
  "string \<Rightarrow> version \<Rightarrow> version option \<Rightarrow> checker \<Rightarrow> compatibility_result \<times> checker" where
  "check_required_version component req avail c =
     (let available = (case avail of Some v \<Rightarrow> v
            | None \<Rightarrow> (case map_of (ck_components c) component of Some v \<Rightarrow> v | None \<Rightarrow> Version 0 0 0));
          compatible = is_compatible_with available req;
          msg = (if \<not> compatible
                 then ''Component '' @ [CHR 0x27] @ component @ [CHR 0x27] @ '' requires v'' @ version_str req
                      @ '' but has v'' @ version_str available
                 else []);
          result = \<lparr>cr_compatible = compatible, cr_required = req, cr_available = available,
                    cr_component = component, cr_message = msg\<rparr>
      in (result, c\<lparr>ck_results := ck_results c @ [result]\<rparr>))"

definition check_datagram_compatibility :: "version \<Rightarrow> checker \<Rightarrow> compatibility_result \<times> checker" where
  "check_datagram_compatibility v c =
     check_required_version ''datagram_format'' (ck_engine_version c) (Some v) c"

fun check_function_requirements ::
  "datagram_function list \<Rightarrow> checker \<Rightarrow> compatibility_result list \<times> checker" where
  "check_function_requirements [] c = ([], c)"
| "check_function_requirements (f # fs) c =
     (let available = (case map_of (ck_components c) (''func_'' @ df_name f) of
            Some v \<Rightarrow> v
          | None \<Rightarrow> if df_source f \<noteq> [] then df_version f else Version 0 0 0);
          (r, c1) = check_required_version (''function:'' @ df_name f) (df_version f) (Some available) c;
          (rs, c2) = check_function_requirements fs c1
      in (r # rs, c2))"

definition all_compatible :: "checker \<Rightarrow> bool" where
  "all_compatible c = list_all cr_compatible (ck_results c)"

definition compat_failures :: "checker \<Rightarrow> compatibility_result list" where
  "compat_failures c = filter (\<lambda>r. \<not> cr_compatible r) (ck_results c)"

definition clear_results :: "checker \<Rightarrow> checker" where
  "clear_results c = c\<lparr>ck_results := []\<rparr>"

section \<open>The function registry\<close>

text \<open>What a name of an executed module is bound to: a callable with its \<open>__name__\<close>, or another
  object with its truth value.\<close>

datatype 'c attr = Callable 'c string | Other bool

record 'c py_module =
  md_attrs :: "string \<Rightarrow> 'c attr option"
  md_version :: "string option"
  md_doc :: string

datatype load_error = FunctionLoadError | OtherError py_error

record 'c function_registry =
  fr_functions :: "(string \<times> datagram_function) list"
  fr_loaded :: "(string \<times> 'c) list"

definition new_function_registry :: "'c function_registry" where
  "new_function_registry = \<lparr>fr_functions = [], fr_loaded = []\<rparr>"

definition register_function ::
  "datagram_function \<Rightarrow> 'c option \<Rightarrow> 'c function_registry \<Rightarrow> 'c function_registry" where
  "register_function f callable r =
     (let r1 = r\<lparr>fr_functions := AList.update (df_name f) f (fr_functions r)\<rparr>
      in case callable of None \<Rightarrow> r1 | Some c \<Rightarrow> r1\<lparr>fr_loaded := AList.update (df_name f) c (fr_loaded r1)\<rparr>)"

definition get_function :: "string \<Rightarrow> 'c function_registry \<Rightarrow> datagram_function option" where
  "get_function name r = map_of (fr_functions r) name"

definition get_callable :: "string \<Rightarrow> 'c function_registry \<Rightarrow> 'c option" where
  "get_callable name r = map_of (fr_loaded r) name"

definition has_function :: "string \<Rightarrow> 'c function_registry \<Rightarrow> bool" where
  "has_function name r = (map_of (fr_functions r) name \<noteq> None)"

definition has_callable :: "string \<Rightarrow> 'c function_registry \<Rightarrow> bool" where
  "has_callable name r = (map_of (fr_loaded r) name \<noteq> None)"

text \<open>\<open>run source\<close> is \<open>None\<close> when compiling or executing the source raises.\<close>

definition load_embedded ::
  "(string \<Rightarrow> 'c py_module option) \<Rightarrow> datagram_function \<Rightarrow> 'c function_registry
     \<Rightarrow> (load_error + 'c) \<times> 'c function_registry" where
  "load_embedded run f r =
     (case map_of (fr_loaded r) (df_name f) of
        Some c \<Rightarrow> (Inr c, r)
      | None \<Rightarrow>
          if df_source f = [] then (Inl FunctionLoadError, r)
          else (case run (df_source f) of
                  None \<Rightarrow> (Inl FunctionLoadError, r)
                | Some m \<Rightarrow>
                    (case md_attrs m (df_entry_point f) of
                       Some (Callable c _) \<Rightarrow> (Inr c, r\<lparr>fr_loaded := AList.update (df_name f) c (fr_loaded r)\<rparr>)
                     | _ \<Rightarrow> (Inl FunctionLoadError, r))))"

record 'c function_file =
  ff_exists :: bool
  ff_stem :: string
  ff_module :: "'c py_module option"
  ff_text :: "string result"

text \<open>\<open>getattr(module, "main", None) or getattr(module, name, None)\<close>.\<close>

definition entry_attr :: "'c py_module \<Rightarrow> string \<Rightarrow> 'c attr option" where
  "entry_attr m name =
     (case md_attrs m ''main'' of
        Some (Callable c n) \<Rightarrow> Some (Callable c n)
      | Some (Other True) \<Rightarrow> Some (Other True)
      | _ \<Rightarrow> md_attrs m name)"

definition load_from_file ::
  "'c function_file \<Rightarrow> 'c function_registry \<Rightarrow> (load_error + datagram_function) \<times> 'c function_registry" where
  "load_from_file file r =
     (if \<not> ff_exists file then (Inl FunctionLoadError, r)
      else (case ff_module file of
              None \<Rightarrow> (Inl FunctionLoadError, r)
            | Some m \<Rightarrow>
                (case entry_attr m (ff_stem file) of
                   Some (Callable c n) \<Rightarrow>
                     (case version_parse (case md_version m of None \<Rightarrow> ''1.0.0'' | Some s \<Rightarrow> s) of
                        Inl err \<Rightarrow> (Inl (OtherError err), r)
                      | Inr v \<Rightarrow>
                          (case ff_text file of
                             Inl err \<Rightarrow> (Inl (OtherError err), r)
                           | Inr text \<Rightarrow>
                               (let f = \<lparr>df_name = ff_stem file, df_version = v, df_language = ''python'',
                                         df_source = text, df_entry_point = n, df_required = True,
                                         df_description = md_doc m\<rparr>
                                in (Inr f, r\<lparr>fr_functions := AList.update (ff_stem file) f (fr_functions r),
                                             fr_loaded := AList.update (ff_stem file) c (fr_loaded r)\<rparr>))))
                 | _ \<Rightarrow> (Inl FunctionLoadError, r))))"

text \<open>The loop over the sorted files; only \<open>FunctionLoadError\<close> is caught.\<close>

fun load_files ::
  "'c function_file list \<Rightarrow> 'c function_registry \<Rightarrow> (load_error + datagram_function list) \<times> 'c function_registry" where
  "load_files [] r = (Inr [], r)"
| "load_files (file # files) r =
     (case load_from_file file r of
        (Inl FunctionLoadError, r1) \<Rightarrow> load_files files r1
      | (Inl (OtherError err), r1) \<Rightarrow> (Inl (OtherError err), r1)
      | (Inr f, r1) \<Rightarrow>
          (case load_files files r1 of
             (Inl err, r2) \<Rightarrow> (Inl err, r2)
           | (Inr fs, r2) \<Rightarrow> (Inr (f # fs), r2)))"

text \<open>\<open>files\<close> is \<open>None\<close> when the directory does not exist, else its sorted Python files.\<close>

definition load_all_from_directory ::
  "'c function_file list option \<Rightarrow> 'c function_registry \<Rightarrow> (load_error + datagram_function list) \<times> 'c function_registry" where
  "load_all_from_directory files r = (case files of None \<Rightarrow> (Inr [], r) | Some fs \<Rightarrow> load_files fs r)"

text \<open>\<open>execute\<close> up to the call itself.\<close>

definition execute_function :: "string \<Rightarrow> 'c function_registry \<Rightarrow> load_error + 'c" where
  "execute_function name r = (case map_of (fr_loaded r) name of None \<Rightarrow> Inl FunctionLoadError | Some c \<Rightarrow> Inr c)"

definition function_count :: "'c function_registry \<Rightarrow> nat" where
  "function_count r = length (fr_functions r)"

definition function_names :: "'c function_registry \<Rightarrow> string list" where
  "function_names r = map fst (fr_functions r)"

section \<open>Properties\<close>

lemma check_required_components: "ck_components (snd (check_required_version n req a c)) = ck_components c"
  by (simp add: check_required_version_def)

lemma function_requirement_results:
  "fst (check_function_requirements fs c) = map (\<lambda>f. fst (check_required_version (''function:'' @ df_name f) (df_version f)
       (Some (case map_of (ck_components c) (''func_'' @ df_name f) of Some v \<Rightarrow> v
          | None \<Rightarrow> if df_source f \<noteq> [] then df_version f else Version 0 0 0)) c)) fs \<and>
   ck_results (snd (check_function_requirements fs c)) = ck_results c @ fst (check_function_requirements fs c) \<and>
   ck_components (snd (check_function_requirements fs c)) = ck_components c"
proof (induction fs arbitrary: c)
  case Nil
  then show ?case by simp
next
  case (Cons f fs)
  have same: "fst (check_required_version n v (Some a) (snd (check_required_version n' v' (Some a') c))) = fst (check_required_version n v (Some a) c)"
    for n v a n' v' a' by (simp add: check_required_version_def)
  show ?case using Cons.IH by (simp add: split_beta same check_required_components) (simp add: check_required_version_def)
qed

text \<open>A checker with no results so far accepts a set of function requirements exactly when each
  function is registered with a version at least the required one, or is not registered and
  carries its source, or is not registered and requires at most version 0.0.0.\<close>

theorem function_requirements_accepted:
  assumes "ck_results c = []" and "check_function_requirements fs c = (rs, c')"
  shows "length rs = length fs \<and> ck_results c' = rs \<and>
    (all_compatible c' \<longleftrightarrow> (\<forall>f\<in>set fs. case map_of (ck_components c) (''func_'' @ df_name f) of
        Some v \<Rightarrow> df_version f \<le> v
      | None \<Rightarrow> df_source f \<noteq> [] \<or> df_version f \<le> Version 0 0 0)) \<and>
    (all_compatible c' \<longleftrightarrow> compat_failures c' = [])"
proof -
  have compat: "is_compatible_with v w \<longleftrightarrow> w \<le> v" for v w
    by (auto simp: is_compatible_with_def less_eq_version_def version_le_def version_lt_def version_eq_def)
  note res = function_requirement_results [of fs c, unfolded assms(2) fst_conv snd_conv]
  have "all_compatible c' \<longleftrightarrow> (\<forall>f\<in>set fs. case map_of (ck_components c) (''func_'' @ df_name f) of
        Some v \<Rightarrow> df_version f \<le> v
      | None \<Rightarrow> df_source f \<noteq> [] \<or> df_version f \<le> Version 0 0 0)"
    using res assms(1)
    by (auto simp: all_compatible_def list_all_iff check_required_version_def compat split: option.splits)
  moreover have "all_compatible c' \<longleftrightarrow> compat_failures c' = []"
    by (simp add: all_compatible_def compat_failures_def list_all_iff filter_empty_conv)
  ultimately show ?thesis using res assms(1) by simp
qed

definition sample_function :: "string \<Rightarrow> version \<Rightarrow> string \<Rightarrow> datagram_function" where
  "sample_function name v src =
     \<lparr>df_name = name, df_version = v, df_language = ''python'', df_source = src, df_entry_point = ''main'',
      df_required = True, df_description = []\<rparr>"

theorem function_requirements_accepted_witness:
  "\<not> all_compatible (snd (check_function_requirements
      [sample_function ''f'' (Version 2 0 0) [], sample_function ''g'' (Version 3 1 0) ''x'']
      (register_component ''func_f'' (Version 1 9 9) (new_checker None))))"
  using function_requirements_accepted [of "register_component ''func_f'' (Version 1 9 9) (new_checker None)"
      "[sample_function ''f'' (Version 2 0 0) [], sample_function ''g'' (Version 3 1 0) ''x'']"]
  by (simp add: register_component_def new_checker_def sample_function_def less_eq_version_def version_le_def version_lt_def
      version_eq_def split_beta)

text \<open>\<open>load_embedded\<close> keeps the first callable loaded under a name: once loading a function
  has succeeded, loading any function of that name, with other source or version, runs nothing
  and returns the first callable.\<close>

theorem load_embedded_first_wins:
  assumes "load_embedded run f r = (Inr c, r')" and "df_name g = df_name f"
  shows "load_embedded run' g r' = (Inr c, r') \<and> execute_function (df_name f) r' = Inr c"
  using assms
  by (auto simp: load_embedded_def execute_function_def update_conv split: option.splits if_splits attr.splits)

theorem load_embedded_first_wins_witness:
  "fst (load_embedded (\<lambda>_. None) (sample_function ''f'' (Version 2 0 0) ''new'')
     (snd (load_embedded (\<lambda>_. Some \<lparr>md_attrs = (\<lambda>_. Some (Callable (5 :: int) ''main'')), md_version = None, md_doc = []\<rparr>)
        (sample_function ''f'' (Version 1 0 0) ''old'') new_function_registry))) = Inr 5"
  using load_embedded_first_wins
    [of "\<lambda>_. Some \<lparr>md_attrs = (\<lambda>_. Some (Callable (5 :: int) ''main'')), md_version = None, md_doc = []\<rparr>"
      "sample_function ''f'' (Version 1 0 0) ''old''" new_function_registry 5 _ "sample_function ''f'' (Version 2 0 0) ''new''"
      "\<lambda>_. None"]
  by (simp add: load_embedded_def sample_function_def new_function_registry_def)

text \<open>A file with an odd version string ends the loading of a whole directory.\<close>

lemma bad_version_aborts_directory:
  "fst (load_all_from_directory (Some
     [\<lparr>ff_exists = True, ff_stem = ''a'', ff_module = Some \<lparr>md_attrs = (\<lambda>_. Some (Callable (5 :: int) ''main'')),
          md_version = Some ''1.0b'', md_doc = []\<rparr>, ff_text = Inr ''x''\<rparr>]) new_function_registry)
   = Inl (OtherError ValueError)"
  by code_simp

end
