(* ===== verification/SqlTables.thy ===== *)
theory SqlTables
  imports Prelude
begin

text \<open>
  Tables of a SQLite database as values: the list of rows under their primary keys in insertion
  order, the four statements the services run on a keyed table, and the contract those services
  rely on as a locale.
\<close>

section \<open>Keyed tables\<close>

type_synonym ('k, 'r) table = "('k \<times> 'r) list"

text \<open>\<open>SELECT ... WHERE key\<close>, \<open>UPDATE ... WHERE key\<close>, \<open>INSERT\<close>, \<open>DELETE ... WHERE key\<close>.\<close>

definition row_at :: "'k \<Rightarrow> ('k, 'r) table \<Rightarrow> 'r option" where
  "row_at k t = map_of t k"

definition update_row :: "'k \<Rightarrow> ('r \<Rightarrow> 'r) \<Rightarrow> ('k, 'r) table \<Rightarrow> ('k, 'r) table" where
  "update_row k f t = map (\<lambda>(k', r). if k' = k then (k', f r) else (k', r)) t"

definition insert_row :: "'k \<Rightarrow> 'r \<Rightarrow> ('k, 'r) table \<Rightarrow> ('k, 'r) table result" where
  "insert_row k r t = (if row_at k t = None then Inr (t @ [(k, r)]) else Inl IntegrityError)"

definition delete_row :: "'k \<Rightarrow> ('k, 'r) table \<Rightarrow> ('k, 'r) table" where
  "delete_row k t = filter (\<lambda>(k', r). k' \<noteq> k) t"

text \<open>\<open>SELECT SUM(w) ... WHERE P(key)\<close>.\<close>

definition sum_rows :: "('k \<Rightarrow> bool) \<Rightarrow> ('r \<Rightarrow> int) \<Rightarrow> ('k, 'r) table \<Rightarrow> int" where
  "sum_rows P w t = sum_list (map (\<lambda>(k, r). w r) (filter (\<lambda>(k, r). P k) t))"

definition keys_unique :: "('k, 'r) table \<Rightarrow> bool" where
  "keys_unique t = distinct (map fst t)"

section \<open>What the services rely on\<close>

text \<open>
  The contract of a table: reading back what was written, and how a sum over rows moves with
  each statement.  The services' lemmas are proved from it.
\<close>

locale ledger =
  fixes read :: "'k \<Rightarrow> 't \<Rightarrow> 'r option" and upd :: "'k \<Rightarrow> ('r \<Rightarrow> 'r) \<Rightarrow> 't \<Rightarrow> 't"
    and ins :: "'k \<Rightarrow> 'r \<Rightarrow> 't \<Rightarrow> 't result" and del :: "'k \<Rightarrow> 't \<Rightarrow> 't"
    and total :: "('k \<Rightarrow> bool) \<Rightarrow> ('r \<Rightarrow> int) \<Rightarrow> 't \<Rightarrow> int" and wf :: "'t \<Rightarrow> bool"
  assumes read_upd: "read k' (upd k f t) = (if k' = k then map_option f (read k t) else read k' t)"
    and read_ins: "ins k r t = Inr t' \<Longrightarrow> read k' t' = (if k' = k then Some r else read k' t)"
    and ins_ok: "(\<exists>t'. ins k r t = Inr t') \<longleftrightarrow> read k t = None"
    and read_del: "wf t \<Longrightarrow> read k' (del k t) = (if k' = k then None else read k' t)"
    and wf_upd: "wf t \<Longrightarrow> wf (upd k f t)" and wf_ins: "wf t \<Longrightarrow> ins k r t = Inr t' \<Longrightarrow> wf t'"
    and wf_del: "wf t \<Longrightarrow> wf (del k t)"
    and total_upd: "wf t \<Longrightarrow> total P w (upd k f t) = total P w t +
          (case read k t of None \<Rightarrow> 0 | Some r \<Rightarrow> if P k then w (f r) - w r else 0)"
    and total_ins: "ins k r t = Inr t' \<Longrightarrow> total P w t' = total P w t + (if P k then w r else 0)"
    and total_del: "wf t \<Longrightarrow> total P w (del k t) = total P w t -
          (case read k t of None \<Rightarrow> 0 | Some r \<Rightarrow> if P k then w r else 0)"
begin

lemma total_upd_missing: "wf t \<Longrightarrow> read k t = None \<Longrightarrow> total P w (upd k f t) = total P w t"
  by (simp add: total_upd)

lemma total_upd_other: "wf t \<Longrightarrow> \<not> P k \<Longrightarrow> total P w (upd k f t) = total P w t"
  by (simp add: total_upd split: option.split)

text \<open>Adding \<open>n\<close> to a row that is there or is inserted with \<open>n\<close>.\<close>

lemma total_credit:
  assumes "wf t" and "\<And>r. w (f r) = w r + n" and "w r0 = n"
    and "t' = (if read k t \<noteq> None then upd k f t else case ins k r0 t of Inl _ \<Rightarrow> t | Inr u \<Rightarrow> u)"
  shows "total P w t' = total P w t + (if P k then n else 0)" and "wf t'" and "read k t' \<noteq> None"
    and "read k' t \<noteq> None \<Longrightarrow> read k' t' \<noteq> None"
proof -
  have "total P w t' = total P w t + (if P k then n else 0) \<and> wf t' \<and> read k t' \<noteq> None \<and>
      (read k' t \<noteq> None \<longrightarrow> read k' t' \<noteq> None)"
  proof (cases "read k t")
    case None
    then obtain u where u: "ins k r0 t = Inr u" using ins_ok by blast
    then show ?thesis using assms None total_ins [OF u] read_ins [OF u] wf_ins [OF assms(1) u] by simp
  next
    case (Some r)
    then show ?thesis using assms total_upd [OF assms(1)] wf_upd [OF assms(1)] by (simp add: read_upd)
  qed
  then show "total P w t' = total P w t + (if P k then n else 0)" and "wf t'" and "read k t' \<noteq> None"
    and "read k' t \<noteq> None \<Longrightarrow> read k' t' \<noteq> None" by simp_all
qed

end

lemma sum_rows_Cons: "sum_rows P w ((k, r) # t) = (if P k then w r else 0) + sum_rows P w t"
  by (simp add: sum_rows_def)

lemma sum_rows_absent_update: "k \<notin> fst ` set t \<Longrightarrow> update_row k f t = t"
  by (induction t) (auto simp: update_row_def)

lemma sum_rows_absent_delete: "k \<notin> fst ` set t \<Longrightarrow> delete_row k t = t"
  by (induction t) (auto simp: delete_row_def)

lemma sum_rows_update:
  "keys_unique t \<Longrightarrow> sum_rows P w (update_row k f t) = sum_rows P w t +
     (case row_at k t of None \<Rightarrow> 0 | Some r \<Rightarrow> if P k then w (f r) - w r else 0)"
proof (induction t)
  case Nil
  then show ?case by (simp add: update_row_def row_at_def)
next
  case (Cons kr t)
  obtain k' r where kr: "kr = (k', r)" by (cases kr)
  have step: "update_row k f (kr # t) = (if k' = k then (k', f r) else (k', r)) # update_row k f t"
    by (simp add: update_row_def kr)
  show ?case
  proof (cases "k' = k")
    case True
    then have "update_row k f t = t" using Cons.prems kr by (intro sum_rows_absent_update) (simp add: keys_unique_def)
    then show ?thesis using True kr step by (simp add: sum_rows_Cons row_at_def)
  next
    case False
    then show ?thesis using Cons kr step by (simp add: sum_rows_Cons row_at_def keys_unique_def)
  qed
qed

lemma sum_rows_delete:
  "keys_unique t \<Longrightarrow> sum_rows P w (delete_row k t) = sum_rows P w t -
     (case row_at k t of None \<Rightarrow> 0 | Some r \<Rightarrow> if P k then w r else 0)"
proof (induction t)
  case Nil
  then show ?case by (simp add: delete_row_def row_at_def)
next
  case (Cons kr t)
  obtain k' r where kr: "kr = (k', r)" by (cases kr)
  have step: "delete_row k (kr # t) = (if k' = k then delete_row k t else (k', r) # delete_row k t)"
    by (simp add: delete_row_def kr)
  show ?case
  proof (cases "k' = k")
    case True
    then have "delete_row k t = t" using Cons.prems kr by (intro sum_rows_absent_delete) (simp add: keys_unique_def)
    then show ?thesis using True kr step by (simp add: sum_rows_Cons row_at_def)
  next
    case False
    then show ?thesis using Cons kr step by (simp add: sum_rows_Cons row_at_def keys_unique_def)
  qed
qed

lemma row_at_update: "row_at k' (update_row k f t) = (if k' = k then map_option f (row_at k t) else row_at k' t)"
  by (induction t) (auto simp: update_row_def row_at_def)

lemma row_at_delete: "row_at k' (delete_row k t) = (if k' = k then None else row_at k' t)"
  by (induction t) (auto simp: delete_row_def row_at_def)

lemma keys_unique_ops:
  "keys_unique t \<Longrightarrow> keys_unique (update_row k f t)" "keys_unique t \<Longrightarrow> keys_unique (delete_row k t)"
proof -
  have "map fst (update_row k f t) = map fst t" by (induction t) (auto simp: update_row_def)
  then show "keys_unique t \<Longrightarrow> keys_unique (update_row k f t)" by (simp add: keys_unique_def)
  show "keys_unique t \<Longrightarrow> keys_unique (delete_row k t)" by (simp add: keys_unique_def delete_row_def distinct_map_filter)
qed

lemma sum_rows_append: "sum_rows P w (t @ [(k, r)]) = sum_rows P w t + (if P k then w r else 0)"
  by (simp add: sum_rows_def)

lemma row_at_append: "row_at k (t @ [(k, r)]) = (case row_at k t of None \<Rightarrow> Some r | Some x \<Rightarrow> Some x)"
  by (induction t) (auto simp: row_at_def)

lemma row_at_other: "k' \<noteq> k \<Longrightarrow> row_at k' (t @ [(k, r)]) = row_at k' t"
  by (induction t) (auto simp: row_at_def)

interpretation sql: ledger row_at update_row insert_row delete_row sum_rows keys_unique
proof
  fix k k' :: 'k and r :: 'r and t t' :: "('k, 'r) table" and f and P and w
  show "row_at k' (update_row k f t) = (if k' = k then map_option f (row_at k t) else row_at k' t)" by (rule row_at_update)
  show "insert_row k r t = Inr t' \<Longrightarrow> row_at k' t' = (if k' = k then Some r else row_at k' t)"
    by (auto simp: insert_row_def row_at_def map_add_def split: if_splits option.splits)
  show "(\<exists>t'. insert_row k r t = Inr t') \<longleftrightarrow> row_at k t = None" by (simp add: insert_row_def)
  show "row_at k' (delete_row k t) = (if k' = k then None else row_at k' t)" by (rule row_at_delete)
  show "keys_unique t \<Longrightarrow> keys_unique (update_row k f t)" "keys_unique t \<Longrightarrow> keys_unique (delete_row k t)"
    by (rule keys_unique_ops, assumption)+
  show "keys_unique t \<Longrightarrow> insert_row k r t = Inr t' \<Longrightarrow> keys_unique t'"
    by (auto simp: insert_row_def keys_unique_def row_at_def map_of_eq_None_iff split: if_splits)
  show "keys_unique t \<Longrightarrow> sum_rows P w (update_row k f t) = sum_rows P w t +
     (case row_at k t of None \<Rightarrow> 0 | Some r \<Rightarrow> if P k then w (f r) - w r else 0)" by (rule sum_rows_update)
  show "insert_row k r t = Inr t' \<Longrightarrow> sum_rows P w t' = sum_rows P w t + (if P k then w r else 0)"
    by (auto simp: insert_row_def sum_rows_def split: if_splits)
  show "keys_unique t \<Longrightarrow> sum_rows P w (delete_row k t) = sum_rows P w t -
     (case row_at k t of None \<Rightarrow> 0 | Some r \<Rightarrow> if P k then w r else 0)" by (rule sum_rows_delete)
qed

section \<open>Text comparison\<close>

text \<open>\<open>LOWER\<close> of SQLite folds ASCII letters only.\<close>

definition ascii_lower :: "string \<Rightarrow> string" where
  "ascii_lower s = map (\<lambda>c. let n = of_char c :: nat in if 65 \<le> n \<and> n \<le> 90 then char_of (n + 32) else c) s"

text \<open>\<open>LIKE\<close> of SQLite: any text for \<open>%\<close>, one character for \<open>_\<close>, ASCII case ignored.\<close>

function like :: "string \<Rightarrow> string \<Rightarrow> bool" where
  "like [] s = (s = [])"
| "like (p # ps) s =
     (if p = CHR ''%'' then like ps s \<or> (if s = [] then False else like (p # ps) (tl s))
      else s \<noteq> [] \<and> (p = CHR ''_'' \<or> ascii_lower [p] = ascii_lower [hd s]) \<and> like ps (tl s))"
  by pat_completeness auto
termination by (relation "measure (\<lambda>(p, s). length p + length s)") auto

end
