(* ===== verification/LootTables.thy ===== *)
theory LootTables
  imports SqlTables
begin

text \<open>
  The database of the LootPower game, \<open>SCRIPTS/GAMES/lootpower\<close>: the tables of the schema in
  \<open>lp_database.py\<close> as keyed tables.  REAL columns and clock times are rationals (the arithmetic of
  the code is on doubles).  \<open>DRY_RUN\<close> is off.
\<close>

section \<open>The schema\<close>

record user_row =
  us_name :: string
  us_password :: string
  us_turns :: int
  us_boost :: rat
  us_turn_time :: rat
  us_active :: bool

record loot_item =
  li_loot :: string
  li_chance :: rat
  li_chance_raise :: rat
  li_chance_lower :: rat
  li_lore :: string

text \<open>The nine rarity columns \<open>common\<close> to \<open>mythic\<close> are the list \<open>ul_counts\<close>.\<close>

record user_loot =
  ul_loot :: "string option"
  ul_amount :: int
  ul_counts :: "int list"

record craft_recipe =
  cr_item_one :: int
  cr_item_two :: int
  cr_rep_item :: string

record user_craft =
  uc_amount :: int
  uc_rarity :: string

datatype ore = PowerCoin | BagOfDirt | LootOre

record mining_area =
  ar_user :: string
  ar_ore :: ore

record user_ore =
  uo_power_coin :: int
  uo_bag_of_dirt :: int
  uo_loot_ore :: int

record auction =
  au_seller :: string
  au_loot_id :: int
  au_amount :: int
  au_payment_type :: int
  au_payment_id :: int
  au_payment_amount :: int

record watcher_row =
  wa_label :: string
  wa_filters :: string
  wa_active :: bool
  wa_created_at :: rat

record loot_stat =
  ls_user :: string
  ls_loot :: string
  ls_rarity :: string
  ls_date :: "nat list"

record loot_db =
  t_users :: "(string, user_row) table"
  t_loot :: "(int, loot_item) table"
  t_users_loot :: "(string \<times> int, user_loot) table"
  t_lootpower :: "(string, rat) table"
  t_craft_rep :: "(int, craft_recipe) table"
  t_user_craft :: "(string \<times> int, user_craft) table"
  t_areas :: "(int \<times> int, mining_area) table"
  t_user_ore :: "(string, user_ore) table"
  t_stories :: "string list"
  t_adventures :: int
  t_loot_stats :: "loot_stat list"
  t_auction :: "(int, auction) table"
  t_next_auction :: int
  t_watchers :: "(string, watcher_row) table"

definition empty_loot_db :: loot_db where
  "empty_loot_db =
     \<lparr>t_users = [], t_loot = [], t_users_loot = [], t_lootpower = [], t_craft_rep = [], t_user_craft = [],
      t_areas = [], t_user_ore = [], t_stories = [], t_adventures = 0, t_loot_stats = [], t_auction = [],
      t_next_auction = 1, t_watchers = []\<rparr>"

definition RARITY_NAMES :: "string list" where
  "RARITY_NAMES = [''common'', ''uncommon'', ''rare'', ''great'', ''amazing'', ''legendary'', ''epic'', ''godly'', ''mythic'']"

definition RARITY_ROLL_VALUES :: "int list" where
  "RARITY_ROLL_VALUES = [2, 10, 25, 50, 100, 250, 500, 1000, 1000000]"

definition MAX_TURNS :: int where
  "MAX_TURNS = 20"

definition TURN_COOLDOWN :: rat where
  "TURN_COOLDOWN = 5"

text \<open>\<open>xs[i]\<close> of a Python list: a negative index counts from the end.\<close>

definition py_index :: "'a list \<Rightarrow> int \<Rightarrow> nat option" where
  "py_index xs i =
     (if 0 \<le> i \<and> i < int (length xs) then Some (nat i)
      else if i < 0 \<and> - i \<le> int (length xs) then Some (nat (int (length xs) + i)) else None)"

lemma py_index_less: "py_index xs i = Some n \<Longrightarrow> n < length xs"
  by (auto simp: py_index_def split: if_splits)

end
