(* ===== verification/LootPlayers.thy ===== *)
theory LootPlayers
  imports LootTables "HOL-Library.Multiset"
begin

text \<open>
  \<open>SCRIPTS/GAMES/lootpower/lp_player.py\<close>, \<open>lp_leaderboard.py\<close> and
  \<open>lp_watcher.py\<close>: accounts, turns with their cooldown, profiles, rankings and the sessions
  of observers.  The clock is an argument.
\<close>

section \<open>Accounts\<close>

definition user_by_name :: "string \<Rightarrow> loot_db \<Rightarrow> (string \<times> user_row) option" where
  "user_by_name name db = find (\<lambda>(uid, u). us_name u = name) (t_users db)"

definition authenticate :: "string \<Rightarrow> string \<Rightarrow> loot_db \<Rightarrow> string option" where
  "authenticate username hash db =
     (case user_by_name username db of
        Some (uid, u) \<Rightarrow> if us_password u = hash then Some uid else None
      | None \<Rightarrow> None)"

definition get_password_hash :: "string \<Rightarrow> loot_db \<Rightarrow> string option" where
  "get_password_hash username db = map_option (\<lambda>(uid, u). us_password u) (user_by_name username db)"

definition user_exists :: "string \<Rightarrow> loot_db \<Rightarrow> bool" where
  "user_exists username db = (user_by_name username db \<noteq> None)"

text \<open>The unique columns are the id and the name; \<open>INSERT OR IGNORE\<close> keeps an existing score.\<close>

definition create_user :: "string \<Rightarrow> string \<Rightarrow> string \<Rightarrow> rat \<Rightarrow> loot_db \<Rightarrow> bool \<times> loot_db" where
  "create_user uid username hash now db =
     (if user_exists username db then (False, db)
      else (case insert_row uid \<lparr>us_name = username, us_password = hash, us_turns = MAX_TURNS, us_boost = 0,
                                 us_turn_time = now, us_active = True\<rparr> (t_users db) of
              Inl _ \<Rightarrow> (False, db)
            | Inr users \<Rightarrow>
                (True, db\<lparr>t_users := users,
                          t_lootpower := (case insert_row uid 0 (t_lootpower db) of Inl _ \<Rightarrow> t_lootpower db | Inr t \<Rightarrow> t)\<rparr>)))"

section \<open>Turns\<close>

text \<open>The result is the number of turns before the one taken, or 0.\<close>

definition validate_turn :: "string \<Rightarrow> rat \<Rightarrow> loot_db \<Rightarrow> int \<times> loot_db" where
  "validate_turn uid now db =
     (case row_at uid (t_users db) of
        None \<Rightarrow> (0, db)
      | Some u \<Rightarrow>
          if us_turns u \<le> 0 then (0, db)
          else if us_turn_time u \<ge> now
          then (0, db\<lparr>t_users := update_row uid (\<lambda>u. u\<lparr>us_turn_time := now + TURN_COOLDOWN\<rparr>) (t_users db)\<rparr>)
          else (us_turns u, db\<lparr>t_users := update_row uid (\<lambda>u. u\<lparr>us_turns := us_turns u - 1,
                                              us_turn_time := now + TURN_COOLDOWN\<rparr>) (t_users db)\<rparr>))"

definition get_remaining_turns :: "string \<Rightarrow> loot_db \<Rightarrow> int" where
  "get_remaining_turns uid db = (case row_at uid (t_users db) of None \<Rightarrow> 0 | Some u \<Rightarrow> us_turns u)"

definition get_turn_cooldown :: "string \<Rightarrow> rat \<Rightarrow> loot_db \<Rightarrow> rat" where
  "get_turn_cooldown uid now db =
     (case row_at uid (t_users db) of None \<Rightarrow> 0 | Some u \<Rightarrow> max 0 (us_turn_time u - now))"

definition replenish_turns :: "loot_db \<Rightarrow> nat \<times> loot_db" where
  "replenish_turns db =
     (length (filter (\<lambda>(uid, u). us_turns u < MAX_TURNS) (t_users db)),
      db\<lparr>t_users := map (\<lambda>(uid, u). (uid, if us_turns u < MAX_TURNS then u\<lparr>us_turns := us_turns u + 1\<rparr> else u)) (t_users db)\<rparr>)"

section \<open>Profiles\<close>

definition get_item_count :: "string \<Rightarrow> loot_db \<Rightarrow> int" where
  "get_item_count uid db = sum_rows (\<lambda>key. fst key = uid) ul_amount (t_users_loot db)"

definition lootpower_of :: "string \<Rightarrow> loot_db \<Rightarrow> rat" where
  "lootpower_of uid db = (case row_at uid (t_lootpower db) of None \<Rightarrow> 0 | Some p \<Rightarrow> p)"

record profile =
  pf_user :: user_row
  pf_lootpower :: rat
  pf_total_items :: int

definition get_profile :: "string \<Rightarrow> loot_db \<Rightarrow> profile option" where
  "get_profile uid db =
     (case row_at uid (t_users db) of
        None \<Rightarrow> None
      | Some u \<Rightarrow> Some \<lparr>pf_user = u, pf_lootpower = lootpower_of uid db, pf_total_items = get_item_count uid db\<rparr>)"

definition get_inventory :: "string \<Rightarrow> loot_db \<Rightarrow> ((string \<times> int) \<times> user_loot) list" where
  "get_inventory uid db = filter (\<lambda>(key, r). fst key = uid) (t_users_loot db)"

section \<open>Leaderboard\<close>

text \<open>\<open>round(x, 2)\<close>: to the nearest hundredth, ties to the even one.\<close>

definition round2 :: "rat \<Rightarrow> rat" where
  "round2 x =
     (let y = 100 * x; lo = floor y; d = y - of_int lo
      in (if d < 1 / 2 then of_int lo else if d > 1 / 2 then of_int (lo + 1)
          else if even lo then of_int lo else of_int (lo + 1)) / 100)"

record ranking =
  rk_name :: string
  rk_score :: rat
  rk_lootpower :: rat
  rk_item_count :: int
  rk_rank :: nat

definition ranking_of :: "loot_db \<Rightarrow> string \<Rightarrow> user_row \<Rightarrow> ranking" where
  "ranking_of db uid u =
     (let loot_count = get_item_count uid db; lootpower = lootpower_of uid db
      in \<lparr>rk_name = us_name u, rk_score = round2 (us_boost u * of_int loot_count + lootpower),
          rk_lootpower = lootpower, rk_item_count = loot_count, rk_rank = 0\<rparr>)"

text \<open>\<open>sort(key=..., reverse=True)\<close> keeps the order of equal scores; \<open>[:limit]\<close> of a
  negative limit drops from the end.\<close>

definition get_rankings :: "int \<Rightarrow> loot_db \<Rightarrow> ranking list" where
  "get_rankings limit db =
     (let users = filter (\<lambda>(uid, u). us_active u) (t_users db);
          sorted_rows = sort_key (\<lambda>r. - rk_score r) (map (\<lambda>(uid, u). ranking_of db uid u) users);
          ranked = map (\<lambda>(i, r). r\<lparr>rk_rank := i + 1\<rparr>) (enumerate 0 sorted_rows)
      in take (nat (if limit < 0 then int (length ranked) + limit else limit)) ranked)"

definition get_player_rank :: "string \<Rightarrow> loot_db \<Rightarrow> ranking option" where
  "get_player_rank uid db =
     find (\<lambda>r. case user_by_name (rk_name r) db of None \<Rightarrow> False | Some (uid', u) \<Rightarrow> uid' = uid) (get_rankings 9999 db)"

section \<open>Watchers\<close>

text \<open>\<open>INSERT OR REPLACE\<close> moves the row to the end.\<close>

definition register_watcher :: "string \<Rightarrow> string \<Rightarrow> string \<Rightarrow> rat \<Rightarrow> loot_db \<Rightarrow> bool \<times> loot_db" where
  "register_watcher wid label filters now db =
     (True, db\<lparr>t_watchers := delete_row wid (t_watchers db) @
        [(wid, \<lparr>wa_label = label, wa_filters = filters, wa_active = True, wa_created_at = now\<rparr>)]\<rparr>)"

definition unregister_watcher :: "string \<Rightarrow> loot_db \<Rightarrow> bool \<times> loot_db" where
  "unregister_watcher wid db =
     (True, db\<lparr>t_watchers := update_row wid (\<lambda>w. w\<lparr>wa_active := False\<rparr>) (t_watchers db)\<rparr>)"

definition is_watcher_active :: "string \<Rightarrow> loot_db \<Rightarrow> bool" where
  "is_watcher_active wid db = (case row_at wid (t_watchers db) of None \<Rightarrow> False | Some w \<Rightarrow> wa_active w)"

definition get_loot_table :: "loot_db \<Rightarrow> (int \<times> loot_item) list" where
  "get_loot_table db = sort_key fst (t_loot db)"

definition get_loot_stats :: "nat \<Rightarrow> loot_db \<Rightarrow> loot_stat list" where
  "get_loot_stats limit db = take limit (rev (t_loot_stats db))"

definition get_recent_drops :: "nat \<Rightarrow> loot_db \<Rightarrow> (loot_stat \<times> string) list" where
  "get_recent_drops limit db =
     take limit (concat (map (\<lambda>s. case row_at (ls_user s) (t_users db) of None \<Rightarrow> [] | Some u \<Rightarrow> [(s, us_name u)])
       (rev (t_loot_stats db))))"

record system_stats =
  ss_players :: nat
  ss_adventures :: int
  ss_drops :: nat
  ss_watchers :: nat

definition get_system_stats :: "loot_db \<Rightarrow> system_stats" where
  "get_system_stats db =
     \<lparr>ss_players = length (filter (\<lambda>(uid, u). us_active u) (t_users db)), ss_adventures = t_adventures db,
      ss_drops = length (t_loot_stats db),
      ss_watchers = length (filter (\<lambda>(wid, w). wa_active w) (t_watchers db))\<rparr>"

section \<open>Properties\<close>

text \<open>Polls of \<open>validate_turn\<close> at the times of a list.\<close>

fun poll_turns :: "string \<Rightarrow> rat list \<Rightarrow> loot_db \<Rightarrow> int list \<times> loot_db" where
  "poll_turns uid [] db = ([], db)"
| "poll_turns uid (now # later) db =
     (let (n, db1) = validate_turn uid now db; (ns, db2) = poll_turns uid later db1 in (n # ns, db2))"

text \<open>Each poll comes at most the cooldown after the one before (or after \<open>t\<close>).\<close>

fun within_cooldown :: "rat \<Rightarrow> rat list \<Rightarrow> bool" where
  "within_cooldown t [] = True"
| "within_cooldown t (now # later) = (now \<le> t + TURN_COOLDOWN \<and> within_cooldown now later)"

lemma poll_in_cooldown:
  "row_at uid (t_users db) = Some u \<Longrightarrow> us_turn_time u = t + TURN_COOLDOWN \<Longrightarrow> within_cooldown t polls \<Longrightarrow>
   (\<forall>n\<in>set (fst (poll_turns uid polls db)). n = 0) \<and>
   (\<exists>u'. row_at uid (t_users (snd (poll_turns uid polls db))) = Some u' \<and> us_turns u' = us_turns u)"
proof (induction polls arbitrary: db u t)
  case Nil
  then show ?case by simp
next
  case (Cons now later)
  show ?case
  proof (cases "us_turns u \<le> 0")
    case True
    have zero: "us_turns u \<le> 0 \<Longrightarrow> row_at uid (t_users db) = Some u \<Longrightarrow>
        (\<forall>n\<in>set (fst (poll_turns uid polls db)). n = 0) \<and> snd (poll_turns uid polls db) = db" for polls
      by (induction polls) (auto simp: validate_turn_def split_beta)
    show ?thesis using zero [OF True Cons.prems(1), of "now # later"] Cons.prems(1) by auto
  next
    case False
    let ?u = "u\<lparr>us_turn_time := now + TURN_COOLDOWN\<rparr>"
    let ?db = "db\<lparr>t_users := update_row uid (\<lambda>u. u\<lparr>us_turn_time := now + TURN_COOLDOWN\<rparr>) (t_users db)\<rparr>"
    have v: "validate_turn uid now db = (0, ?db)" using False Cons.prems by (simp add: validate_turn_def)
    have "row_at uid (t_users ?db) = Some ?u" using Cons.prems(1) by (simp add: sql.read_upd)
    from Cons.IH [OF this, of now] Cons.prems(3) show ?thesis using v by (simp add: split_beta)
  qed
qed

definition turns_in_range :: "loot_db \<Rightarrow> bool" where
  "turns_in_range db = list_all (\<lambda>(k, u). 0 \<le> us_turns u \<and> us_turns u \<le> MAX_TURNS) (t_users db)"

lemma replenish_turns_range: "turns_in_range db \<Longrightarrow> turns_in_range (snd (replenish_turns db))"
  by (auto simp: turns_in_range_def replenish_turns_def list_all_iff)

lemma validate_turn_range:
  assumes "keys_unique (t_users db)" and "turns_in_range db"
  shows "turns_in_range (snd (validate_turn uid now db))"
proof -
  have one: "r = u" if "row_at uid (t_users db) = Some u" "(uid, r) \<in> set (t_users db)" for r u
    using that assms(1) by (simp add: row_at_def keys_unique_def)
  show ?thesis
  proof (cases "row_at uid (t_users db)")
    case None
    then show ?thesis using assms(2) by (simp add: validate_turn_def)
  next
    case (Some u)
    have "turns_in_range (db\<lparr>t_users := update_row uid f (t_users db)\<rparr>)"
      if "0 \<le> us_turns (f u) \<and> us_turns (f u) \<le> MAX_TURNS" for f
      using assms(2) that unfolding turns_in_range_def list_all_iff update_row_def by (auto dest: one [OF Some] split: if_splits)
    moreover have "0 \<le> us_turns u \<and> us_turns u \<le> MAX_TURNS"
      using assms(2) Some by (auto simp: turns_in_range_def list_all_iff row_at_def dest: map_of_SomeD)
    ultimately show ?thesis using Some assms(2) by (simp add: validate_turn_def)
  qed
qed

text \<open>After a turn has been taken, a player who keeps asking with pauses of at most the cooldown
  never gets another: every refused poll starts the cooldown again.\<close>

theorem polling_starves:
  assumes "validate_turn uid t db = (n, db')" and "n > 0" and "within_cooldown t polls"
  shows "(\<forall>k\<in>set (fst (poll_turns uid polls db')). k = 0) \<and>
    get_remaining_turns uid (snd (poll_turns uid polls db')) = n - 1"
proof -
  obtain u where u: "row_at uid (t_users db) = Some u" "n = us_turns u"
    "db' = db\<lparr>t_users := update_row uid (\<lambda>u. u\<lparr>us_turns := us_turns u - 1, us_turn_time := t + TURN_COOLDOWN\<rparr>) (t_users db)\<rparr>"
    using assms(1,2) by (auto simp: validate_turn_def split: option.splits if_splits)
  then have "row_at uid (t_users db') = Some (u\<lparr>us_turns := us_turns u - 1, us_turn_time := t + TURN_COOLDOWN\<rparr>)"
    by (simp add: sql.read_upd)
  from poll_in_cooldown [OF this _ assms(3)] u(2) show ?thesis by (auto simp: get_remaining_turns_def)
qed

definition one_player :: loot_db where
  "one_player = snd (create_user ''u'' ''ann'' ''h'' 0 empty_loot_db)"

theorem polling_starves_witness:
  "list_all (\<lambda>k. k = 0) (fst (poll_turns ''u'' [5, 10, 14, 19] (snd (validate_turn ''u'' 1 one_player))))"
proof -
  have "validate_turn ''u'' 1 one_player = (20, snd (validate_turn ''u'' 1 one_player))" by code_simp
  from polling_starves [OF this, of "[5, 10, 14, 19]"] show ?thesis by (simp add: TURN_COOLDOWN_def list_all_iff)
qed

text \<open>Taking a turn: it succeeds exactly for a known player with turns left whose cooldown has
  passed, then costs one turn and returns the number before it; nobody else's row changes, and
  turn counts that lie between 0 and the maximum stay there, also when turns are replenished.\<close>

theorem turn_accounting:
  assumes "validate_turn uid now db = (n, db')" and "keys_unique (t_users db)"
    and "turns_in_range db"
  shows "(n > 0 \<longleftrightarrow> (\<exists>u. row_at uid (t_users db) = Some u \<and> us_turns u > 0 \<and> us_turn_time u < now)) \<and>
    get_remaining_turns uid db' = get_remaining_turns uid db - (if n > 0 then 1 else 0) \<and>
    n = (if n > 0 then get_remaining_turns uid db else 0) \<and>
    (\<forall>k. k \<noteq> uid \<longrightarrow> row_at k (t_users db') = row_at k (t_users db)) \<and>
    turns_in_range db' \<and> turns_in_range (snd (replenish_turns db'))"
proof -
  have *: "turns_in_range db'" using validate_turn_range [OF assms(2,3), of uid now] assms(1) by simp
  show ?thesis using assms(1) * replenish_turns_range [OF *]
    by (auto simp: validate_turn_def get_remaining_turns_def sql.read_upd split: option.splits if_splits)
qed

theorem turn_accounting_witness:
  "turns_in_range (snd (replenish_turns (snd (validate_turn ''u'' 1 one_player)))) \<and>
   get_remaining_turns ''u'' (snd (validate_turn ''u'' 1 one_player)) = 19"
proof -
  have v: "validate_turn ''u'' 1 one_player = (20, snd (validate_turn ''u'' 1 one_player))" by code_simp
  have wf: "keys_unique (t_users one_player)" "turns_in_range one_player" by code_simp+
  have r: "get_remaining_turns ''u'' one_player = 20" by code_simp
  show ?thesis using turn_accounting [OF v wf] r by simp
qed

text \<open>All active players, unranked and in table order.\<close>

definition active_rankings :: "loot_db \<Rightarrow> ranking list" where
  "active_rankings db = map (\<lambda>(uid, u). ranking_of db uid u) (filter (\<lambda>(uid, u). us_active u) (t_users db))"

lemma ranked_nth: "k < length rs \<Longrightarrow> map (\<lambda>(i, r). r\<lparr>rk_rank := i + 1\<rparr>) (enumerate 0 rs) ! k = (rs ! k)\<lparr>rk_rank := k + 1\<rparr>"
  by (simp add: nth_enumerate_eq)

lemma get_rankings_nat:
  "get_rankings (int n) db =
     map (\<lambda>(i, r). r\<lparr>rk_rank := i + 1\<rparr>) (enumerate 0 (take n (sort_key (\<lambda>r. - rk_score r) (active_rankings db))))"
  by (intro nth_equalityI) (simp_all add: get_rankings_def active_rankings_def nth_enumerate_eq)

lemma active_unranked: "r \<in> set (active_rankings db) \<Longrightarrow> r\<lparr>rk_rank := 0\<rparr> = r"
  by (auto simp: active_rankings_def ranking_of_def)

text \<open>The leaderboard of size \<open>n\<close> lists, with ranks 1, 2, ..., active players in order of
  decreasing score, and nobody left out scores more than somebody on it.\<close>

theorem leaderboard_top:
  "\<exists>out. let top = get_rankings (int n) db in
     length top = min n (length (active_rankings db)) \<and>
     map rk_rank top = [1..<Suc (length top)] \<and> sorted_wrt (\<lambda>r s. rk_score r \<ge> rk_score s) top \<and>
     image_mset (\<lambda>r. r\<lparr>rk_rank := 0\<rparr>) (mset top) + mset out = mset (active_rankings db) \<and>
     list_all (\<lambda>r. list_all (\<lambda>s. rk_score s \<le> rk_score r) out) top"
proof -
  define all where "all = sort_key (\<lambda>r. - rk_score r) (active_rankings db)"
  have top: "get_rankings (int n) db = map (\<lambda>(i, r). r\<lparr>rk_rank := i + 1\<rparr>) (enumerate 0 (take n all))"
    by (simp add: get_rankings_nat all_def)
  let ?top = "get_rankings (int n) db"
  have len: "length ?top = length (take n all)" by (simp add: top)
  have nth: "?top ! k = (take n all ! k)\<lparr>rk_rank := k + 1\<rparr>" if "k < length (take n all)" for k
    unfolding top by (rule ranked_nth [OF that])
  have sorted: "sorted_wrt (\<lambda>r s. rk_score r \<ge> rk_score s) all"
  proof -
    have "sorted (map (\<lambda>r. - rk_score r) all)" by (simp add: all_def)
    then show ?thesis by (simp add: sorted_wrt_map)
  qed
  have unranked: "map (\<lambda>r. r\<lparr>rk_rank := 0\<rparr>) ?top = take n all"
  proof (rule nth_equalityI)
    fix k assume "k < length (map (\<lambda>r. r\<lparr>rk_rank := 0\<rparr>) ?top)"
    then have k: "k < length (take n all)" by (simp add: len)
    then have "all ! k \<in> set (active_rankings db)" by (metis all_def length_take min_less_iff_conj nth_mem set_sort)
    then show "map (\<lambda>r. r\<lparr>rk_rank := 0\<rparr>) ?top ! k = take n all ! k"
      using k nth [OF k] active_unranked by (simp add: len)
  qed (simp add: len)
  have "length ?top = min n (length (active_rankings db))" by (simp add: len all_def)
  moreover have "map rk_rank ?top = [1..<Suc (length ?top)]"
    by (rule nth_equalityI) (simp_all add: nth len del: upt_Suc)
  moreover have "sorted_wrt (\<lambda>r s. rk_score r \<ge> rk_score s) ?top"
    using sorted_wrt_take [OF sorted, of n] by (simp add: sorted_wrt_iff_nth_less nth len)
  moreover have "image_mset (\<lambda>r. r\<lparr>rk_rank := 0\<rparr>) (mset ?top) + mset (drop n all) = mset (active_rankings db)"
    using unranked by (metis all_def append_take_drop_id mset_append mset_map mset_sort)
  moreover have "rk_score s \<le> rk_score r" if "r \<in> set ?top" "s \<in> set (drop n all)" for r s
  proof -
    have "r\<lparr>rk_rank := 0\<rparr> \<in> set (take n all)" using that(1) unranked by (metis image_eqI list.set_map)
    then show ?thesis
      using sorted_wrt_append [of "\<lambda>r s. rk_score r \<ge> rk_score s" "take n all" "drop n all"] sorted that(2) by fastforce
  qed
  ultimately show ?thesis by (intro exI [of _ "drop n all"]) (simp add: list_all_iff)
qed

end
