(* ===== verification/LootMarket.thy ===== *)
theory LootMarket
  imports LootTables PyText
begin

text \<open>
  \<open>lp_auction.py\<close>, \<open>lp_crafting.py\<close> and \<open>lp_mining.py\<close> of the LootPower game: what moves
  loot between players, turns it into crafted items, and claims the zones of the map.  The
  replies the services return as text are constructors.
\<close>

section \<open>Auctions\<close>

datatype market_reply = ListingNotFound | OwnListing | Purchased int | NotYourListing | Cancelled int

definition create_listing :: "string \<Rightarrow> int \<Rightarrow> int \<Rightarrow> int \<Rightarrow> int \<Rightarrow> int \<Rightarrow> loot_db \<Rightarrow> int option \<times> loot_db" where
  "create_listing seller loot_id amount payment_type payment_id payment_amount db =
     (case row_at (seller, loot_id) (t_users_loot db) of
        None \<Rightarrow> (None, db)
      | Some row \<Rightarrow>
          if ul_amount row < amount then (None, db)
          else (Some (t_next_auction db),
                db\<lparr>t_users_loot := update_row (seller, loot_id) (\<lambda>r. r\<lparr>ul_amount := ul_amount r - amount\<rparr>) (t_users_loot db),
                   t_auction := t_auction db @ [(t_next_auction db,
                     \<lparr>au_seller = seller, au_loot_id = loot_id, au_amount = amount, au_payment_type = payment_type,
                      au_payment_id = payment_id, au_payment_amount = payment_amount\<rparr>)],
                   t_next_auction := t_next_auction db + 1\<rparr>))"

definition get_active_listings :: "loot_db \<Rightarrow> (int \<times> auction) list" where
  "get_active_listings db = rev (sort_key fst (t_auction db))"

definition no_rarities :: "int list" where
  "no_rarities = map (\<lambda>_. 0) RARITY_NAMES"

definition buy_listing :: "int \<Rightarrow> string \<Rightarrow> loot_db \<Rightarrow> market_reply \<times> loot_db" where
  "buy_listing auction_id buyer db =
     (case row_at auction_id (t_auction db) of
        None \<Rightarrow> (ListingNotFound, db)
      | Some row \<Rightarrow>
          if au_seller row = buyer then (OwnListing, db)
          else let key = (buyer, au_loot_id row);
                   db1 = db\<lparr>t_auction := delete_row auction_id (t_auction db)\<rparr>;
                   loot = t_users_loot db1
               in (Purchased auction_id, db1\<lparr>t_users_loot :=
                    (if row_at key loot \<noteq> None
                     then update_row key (\<lambda>r. r\<lparr>ul_amount := ul_amount r + au_amount row\<rparr>) loot
                     else case insert_row key \<lparr>ul_loot = map_option li_loot (row_at (au_loot_id row) (t_loot db1)),
                                               ul_amount = au_amount row, ul_counts = no_rarities\<rparr> loot of
                            Inl _ \<Rightarrow> loot
                          | Inr loot' \<Rightarrow> loot')\<rparr>))"

definition cancel_listing :: "int \<Rightarrow> string \<Rightarrow> loot_db \<Rightarrow> market_reply \<times> loot_db" where
  "cancel_listing auction_id uid db =
     (case row_at auction_id (t_auction db) of
        None \<Rightarrow> (ListingNotFound, db)
      | Some row \<Rightarrow>
          if au_seller row \<noteq> uid then (NotYourListing, db)
          else (Cancelled auction_id,
                db\<lparr>t_users_loot := update_row (uid, au_loot_id row) (\<lambda>r. r\<lparr>ul_amount := ul_amount r + au_amount row\<rparr>) (t_users_loot db),
                   t_auction := delete_row auction_id (t_auction db)\<rparr>))"

section \<open>Crafting\<close>

datatype craft_reply = NotInt | NoSuchRarity | ItemMissing | RarityMismatch | NoRecipe | Crafted string string

definition find_recipe :: "int \<Rightarrow> int \<Rightarrow> loot_db \<Rightarrow> (int \<times> craft_recipe) option" where
  "find_recipe one two db =
     find (\<lambda>(rid, c). cr_item_one c = one \<and> cr_item_two c = two \<or> cr_item_one c = two \<and> cr_item_two c = one)
       (t_craft_rep db)"

text \<open>\<open>SELECT * FROM users_loot\<close> of an item that must have the rarity in stock.\<close>

definition holds_rarity :: "string \<Rightarrow> int \<Rightarrow> nat \<Rightarrow> loot_db \<Rightarrow> bool" where
  "holds_rarity uid item rarity db =
     (case row_at (uid, item) (t_users_loot db) of None \<Rightarrow> False | Some row \<Rightarrow> ul_counts row ! rarity > 0)"

definition consume :: "nat \<Rightarrow> user_loot \<Rightarrow> user_loot" where
  "consume rarity r = r\<lparr>ul_amount := ul_amount r - 1, ul_counts := (ul_counts r)[rarity := ul_counts r ! rarity - 1]\<rparr>"

definition add_craft :: "string \<Rightarrow> int \<Rightarrow> string \<Rightarrow> loot_db \<Rightarrow> loot_db" where
  "add_craft uid craft_id rarity db =
     db\<lparr>t_user_craft :=
       (if row_at (uid, craft_id) (t_user_craft db) \<noteq> None
        then update_row (uid, craft_id) (\<lambda>r. r\<lparr>uc_amount := uc_amount r + 1\<rparr>) (t_user_craft db)
        else case insert_row (uid, craft_id) \<lparr>uc_amount = 1, uc_rarity = rarity\<rparr> (t_user_craft db) of
               Inl _ \<Rightarrow> t_user_craft db
             | Inr t \<Rightarrow> t)\<rparr>"

definition craft_checked :: "string \<Rightarrow> int \<Rightarrow> nat \<Rightarrow> int \<Rightarrow> nat \<Rightarrow> loot_db \<Rightarrow> craft_reply \<times> loot_db" where
  "craft_checked uid one rarity_one two rarity_two db =
     (if \<not> holds_rarity uid one rarity_one db then (ItemMissing, db)
      else if \<not> holds_rarity uid two rarity_two db then (ItemMissing, db)
      else if RARITY_NAMES ! rarity_one \<noteq> RARITY_NAMES ! rarity_two then (RarityMismatch, db)
      else (case find_recipe one two db of
              None \<Rightarrow> (NoRecipe, db)
            | Some (rid, recipe) \<Rightarrow>
                let db1 = add_craft uid rid (RARITY_NAMES ! rarity_one) db;
                    db2 = db1\<lparr>t_users_loot := update_row (uid, one) (consume rarity_one) (t_users_loot db1)\<rparr>;
                    db3 = db2\<lparr>t_users_loot := update_row (uid, two) (consume rarity_two) (t_users_loot db2)\<rparr>
                in (Crafted (RARITY_NAMES ! rarity_one) (cr_rep_item recipe), db3)))"

definition craft :: "string \<Rightarrow> py_arg \<Rightarrow> py_arg \<Rightarrow> py_arg \<Rightarrow> py_arg \<Rightarrow> loot_db \<Rightarrow> craft_reply \<times> loot_db" where
  "craft uid one rarity_one two rarity_two db =
     (case (int_of_arg one, int_of_arg rarity_one, int_of_arg two, int_of_arg rarity_two) of
        (Inr i, Inr ri, Inr j, Inr rj) \<Rightarrow>
          (case (py_index RARITY_NAMES ri, py_index RARITY_NAMES rj) of
             (Some ni, Some nj) \<Rightarrow> craft_checked uid i ni j nj db
           | _ \<Rightarrow> (NoSuchRarity, db))
      | _ \<Rightarrow> (NotInt, db))"

definition get_recipes :: "loot_db \<Rightarrow> (int \<times> craft_recipe) list" where
  "get_recipes db = t_craft_rep db"

definition get_user_crafts :: "string \<Rightarrow> loot_db \<Rightarrow> ((string \<times> int) \<times> user_craft) list" where
  "get_user_crafts uid db = filter (\<lambda>(key, r). fst key = uid) (t_user_craft db)"

section \<open>Mining\<close>

datatype mine_reply = AlreadyMined ore | Mined ore

definition mine_check :: "int \<Rightarrow> int \<Rightarrow> loot_db \<Rightarrow> ore option" where
  "mine_check x y db = map_option ar_ore (row_at (x, y) (t_areas db))"

definition ore_of_roll :: "int \<Rightarrow> ore" where
  "ore_of_roll n = (if n = 1 then PowerCoin else if n = 2 then BagOfDirt else LootOre)"

definition bump_ore :: "ore \<Rightarrow> user_ore \<Rightarrow> user_ore" where
  "bump_ore x r =
     (case x of
        PowerCoin \<Rightarrow> r\<lparr>uo_power_coin := uo_power_coin r + 1\<rparr>
      | BagOfDirt \<Rightarrow> r\<lparr>uo_bag_of_dirt := uo_bag_of_dirt r + 1\<rparr>
      | LootOre \<Rightarrow> r\<lparr>uo_loot_ore := uo_loot_ore r + 1\<rparr>)"

text \<open>\<open>roll\<close> is the value of \<open>random.randint(1, 3)\<close>.\<close>

definition mine :: "string \<Rightarrow> int \<Rightarrow> int \<Rightarrow> int \<Rightarrow> loot_db \<Rightarrow> mine_reply \<times> loot_db" where
  "mine uid x y roll db =
     (case mine_check x y db of
        Some existing \<Rightarrow> (AlreadyMined existing, db)
      | None \<Rightarrow>
          let found = ore_of_roll roll;
              db1 = db\<lparr>t_areas := (case insert_row (x, y) \<lparr>ar_user = uid, ar_ore = found\<rparr> (t_areas db) of
                                     Inl _ \<Rightarrow> t_areas db | Inr t \<Rightarrow> t)\<rparr>;
              ores = (case insert_row uid \<lparr>uo_power_coin = 0, uo_bag_of_dirt = 0, uo_loot_ore = 0\<rparr> (t_user_ore db1) of
                        Inl _ \<Rightarrow> t_user_ore db1 | Inr t \<Rightarrow> t)
          in (Mined found, db1\<lparr>t_user_ore := update_row uid (bump_ore found) ores\<rparr>))"

definition get_ore_inventory :: "string \<Rightarrow> loot_db \<Rightarrow> user_ore" where
  "get_ore_inventory uid db =
     (case row_at uid (t_user_ore db) of
        None \<Rightarrow> \<lparr>uo_power_coin = 0, uo_bag_of_dirt = 0, uo_loot_ore = 0\<rparr>
      | Some row \<Rightarrow> row)"

section \<open>The market conserves loot\<close>

text \<open>The amount of item \<open>i\<close> in inventories and in open listings.\<close>

definition listed :: "int \<Rightarrow> auction \<Rightarrow> int" where
  "listed i a = (if au_loot_id a = i then au_amount a else 0)"

definition loot_total :: "int \<Rightarrow> loot_db \<Rightarrow> int" where
  "loot_total i db = sum_rows (\<lambda>key. snd key = i) ul_amount (t_users_loot db) + sum_rows (\<lambda>_. True) (listed i) (t_auction db)"

definition market_wf :: "loot_db \<Rightarrow> bool" where
  "market_wf db \<longleftrightarrow> keys_unique (t_users_loot db) \<and> keys_unique (t_auction db) \<and>
     list_all (\<lambda>(aid, a). aid < t_next_auction db \<and> row_at (au_seller a, au_loot_id a) (t_users_loot db) \<noteq> None) (t_auction db)"

datatype market_op =
    Create string int int int int int
  | Buy int string
  | Cancel int string

definition market_step :: "market_op \<Rightarrow> loot_db \<Rightarrow> loot_db" where
  "market_step op db =
     (case op of
        Create seller i n pt pid pa \<Rightarrow> snd (create_listing seller i n pt pid pa db)
      | Buy aid buyer \<Rightarrow> snd (buy_listing aid buyer db)
      | Cancel aid uid \<Rightarrow> snd (cancel_listing aid uid db))"

lemma listing_row:
  "market_wf db \<Longrightarrow> row_at aid (t_auction db) = Some a \<Longrightarrow> row_at (au_seller a, au_loot_id a) (t_users_loot db) \<noteq> None"
  by (auto simp: market_wf_def list_all_iff row_at_def dest!: map_of_SomeD)

lemma listings_kept:
  assumes "market_wf db" and "keys_unique t" and "\<And>k. row_at k (t_users_loot db) \<noteq> None \<Longrightarrow> row_at k t \<noteq> None"
  shows "market_wf (db\<lparr>t_users_loot := t, t_auction := delete_row aid (t_auction db)\<rparr>)"
  using assms by (auto simp: market_wf_def list_all_iff delete_row_def sql.wf_del [unfolded delete_row_def])

lemma create_conserves:
  assumes "market_wf db"
  shows "market_wf (snd (create_listing s i n pt pid pa db)) \<and>
    loot_total j (snd (create_listing s i n pt pid pa db)) = loot_total j db"
proof -
  have wf: "keys_unique (t_users_loot db)" using assms by (simp add: market_wf_def)
  have fresh: "keys_unique (t_auction db @ [(t_next_auction db, a)])" for a
    using assms by (auto simp: market_wf_def keys_unique_def list_all_iff)
  show ?thesis
  proof (cases "row_at (s, i) (t_users_loot db)")
    case None
    then show ?thesis using assms by (simp add: create_listing_def)
  next
    case (Some r)
    then show ?thesis using assms fresh wf
      by (auto simp: create_listing_def loot_total_def sum_rows_append sql.total_upd listed_def
          market_wf_def list_all_iff sql.wf_upd sql.read_upd)
  qed
qed

lemma cancel_conserves:
  assumes "market_wf db"
  shows "market_wf (snd (cancel_listing aid uid db)) \<and> loot_total j (snd (cancel_listing aid uid db)) = loot_total j db"
proof -
  have wf: "keys_unique (t_users_loot db)" "keys_unique (t_auction db)" using assms by (simp_all add: market_wf_def)
  show ?thesis
  proof (cases "row_at aid (t_auction db)")
    case None
    then show ?thesis using assms by (simp add: cancel_listing_def)
  next
    case (Some a)
    let ?t = "update_row (au_seller a, au_loot_id a) (\<lambda>r. r\<lparr>ul_amount := ul_amount r + au_amount a\<rparr>) (t_users_loot db)"
    obtain r where r: "row_at (au_seller a, au_loot_id a) (t_users_loot db) = Some r"
      using listing_row [OF assms Some] by blast
    have "market_wf (db\<lparr>t_users_loot := ?t, t_auction := delete_row aid (t_auction db)\<rparr>)"
      by (rule listings_kept [OF assms]) (auto simp: wf sql.wf_upd sql.read_upd r)
    then show ?thesis using Some r wf assms
      by (auto simp: cancel_listing_def loot_total_def sql.total_upd sql.total_del listed_def)
  qed
qed

lemma buy_conserves:
  assumes "market_wf db"
  shows "market_wf (snd (buy_listing aid buyer db)) \<and> loot_total j (snd (buy_listing aid buyer db)) = loot_total j db"
proof -
  have wf: "keys_unique (t_users_loot db)" "keys_unique (t_auction db)" using assms by (simp_all add: market_wf_def)
  show ?thesis
  proof (cases "row_at aid (t_auction db)")
    case None
    then show ?thesis using assms by (simp add: buy_listing_def)
  next
    case (Some a)
    show ?thesis
    proof (cases "au_seller a = buyer")
      case True
      then show ?thesis using Some assms by (simp add: buy_listing_def)
    next
      case False
      define t where "t = t_users_loot (snd (buy_listing aid buyer db))"
      have db': "snd (buy_listing aid buyer db) = db\<lparr>t_users_loot := t, t_auction := delete_row aid (t_auction db)\<rparr>"
        using Some False by (simp add: buy_listing_def t_def)
      have t: "t = (if row_at (buyer, au_loot_id a) (t_users_loot db) \<noteq> None
          then update_row (buyer, au_loot_id a) (\<lambda>r. r\<lparr>ul_amount := ul_amount r + au_amount a\<rparr>) (t_users_loot db)
          else case insert_row (buyer, au_loot_id a) \<lparr>ul_loot = map_option li_loot (row_at (au_loot_id a) (t_loot db)),
            ul_amount = au_amount a, ul_counts = no_rarities\<rparr> (t_users_loot db) of Inl _ \<Rightarrow> t_users_loot db | Inr u \<Rightarrow> u)"
        using Some False by (simp add: t_def buy_listing_def split: sum.split)
      note credit = sql.total_credit [OF wf(1) _ _ t, where w = ul_amount and n = "au_amount a", simplified]
      have "market_wf (db\<lparr>t_users_loot := t, t_auction := delete_row aid (t_auction db)\<rparr>)"
        using listings_kept [OF assms credit(2)] credit(4) by blast
      then show ?thesis unfolding db' using credit(1) [of "\<lambda>key. snd key = j"] wf Some
        by (simp add: loot_total_def sql.total_del listed_def)
    qed
  qed
qed

lemma market_run:
  "market_wf db \<Longrightarrow> market_wf (fold market_step ops db) \<and> loot_total j (fold market_step ops db) = loot_total j db"
proof (induction ops arbitrary: db)
  case Nil
  then show ?case by simp
next
  case (Cons op ops)
  have "market_wf (market_step op db) \<and> loot_total j (market_step op db) = loot_total j db"
    using Cons.prems create_conserves buy_conserves cancel_conserves
    by (cases op) (simp_all add: market_step_def)
  with Cons.IH [of "market_step op db"] show ?case by simp
qed

definition market_example :: loot_db where
  "market_example = empty_loot_db\<lparr>t_users_loot :=
     [((''ann'', 1), \<lparr>ul_loot = Some ''Gem'', ul_amount = 3, ul_counts = [3, 0, 0, 0, 0, 0, 0, 0, 0]\<rparr>)]\<rparr>"

text \<open>C40: however listings are created, bought and cancelled, and in whatever order, the amount of
  each loot item in inventories and open listings together stays what it was.\<close>

theorem market_conserves:
  assumes "market_wf db"
  shows "loot_total i (fold market_step ops db) = loot_total i db \<and> market_wf (fold market_step ops db)"
  using market_run [OF assms] by simp

theorem market_conserves_witness:
  "loot_total 1 (fold market_step [Create ''ann'' 1 2 0 0 0, Buy 1 ''bob'', Create ''bob'' 1 1 0 0 0, Cancel 2 ''bob''] market_example) = 3"
proof -
  have "market_wf market_example" by code_simp
  from market_conserves [OF this] have "loot_total 1 (fold market_step ops market_example) = loot_total 1 market_example" for ops
    by blast
  moreover have "loot_total 1 market_example = 3" by code_simp
  ultimately have all: "loot_total 1 (fold market_step ops market_example) = 3" for ops by (simp only:)
  show ?thesis by (rule all)
qed

text \<open>The amount of a listing is not checked to be positive: offering a negative amount credits
  the seller at once.\<close>

lemma negative_listing_credits:
  assumes "row_at (s, i) (t_users_loot db) = Some r" and "n < 0" and "0 \<le> ul_amount r"
  shows "map_option ul_amount (row_at (s, i) (t_users_loot (snd (create_listing s i n pt pid pa db)))) = Some (ul_amount r - n)"
  using assms by (simp add: create_listing_def sql.read_upd)

section \<open>Crafting\<close>

text \<open>The rows the game's own steps produce: nine rarity counts that add up to the amount.\<close>

definition row_consistent :: "user_loot \<Rightarrow> bool" where
  "row_consistent r \<longleftrightarrow> length (ul_counts r) = length RARITY_NAMES \<and> ul_amount r = sum_list (ul_counts r)"

definition loot_consistent :: "loot_db \<Rightarrow> bool" where
  "loot_consistent db = list_all (\<lambda>(key, r). row_consistent r) (t_users_loot db)"

lemma sum_list_bump: "n < length xs \<Longrightarrow> sum_list (xs[n := xs ! n + d]) = sum_list xs + (d :: int)"
  by (induction xs arbitrary: n) (auto split: nat.split)

lemma consume_consistent: "row_consistent r \<Longrightarrow> n < length RARITY_NAMES \<Longrightarrow> row_consistent (consume n r)"
  using sum_list_bump [of n "ul_counts r" "- 1"] by (simp add: row_consistent_def consume_def)

lemma update_consistent:
  "list_all (\<lambda>(key, r). row_consistent r) t \<Longrightarrow> (\<And>r. row_consistent r \<Longrightarrow> row_consistent (f r)) \<Longrightarrow>
   list_all (\<lambda>(key, r). row_consistent r) (update_row k f t)"
  by (induction t) (auto simp: update_row_def split: if_splits)

lemma craft_cases:
  assumes "craft uid one rone two rtwo db = (reply, db')"
  obtains "db' = db" and "\<And>r x. reply \<noteq> Crafted r x"
  | i j n rid rec where "int_of_arg one = Inr i" and "int_of_arg two = Inr j" and "n < length RARITY_NAMES"
      and "holds_rarity uid i n db" and "holds_rarity uid j n db" and "find_recipe i j db = Some (rid, rec)"
      and "reply = Crafted (RARITY_NAMES ! n) (cr_rep_item rec)"
      and "db' = (add_craft uid rid (RARITY_NAMES ! n) db)\<lparr>t_users_loot :=
             update_row (uid, j) (consume n) (update_row (uid, i) (consume n) (t_users_loot db))\<rparr>"
proof -
  have names: "distinct RARITY_NAMES" by code_simp
  show ?thesis
  proof (cases "\<exists>r x. reply = Crafted r x")
    case False
    have *: "y = db" if "craft_checked uid i ni j nj db = (reply, y)" for i ni j nj y
      using that False by (auto simp: craft_checked_def split: if_splits option.splits)
    have "db' = db" using assms by (auto simp: craft_def dest: * split: sum.splits option.splits)
    then show ?thesis using that(1) False by blast
  next
    case True
    then obtain i ri j rj ni nj where a: "int_of_arg one = Inr i" "int_of_arg rone = Inr ri" "int_of_arg two = Inr j"
        "int_of_arg rtwo = Inr rj" "py_index RARITY_NAMES ri = Some ni" "py_index RARITY_NAMES rj = Some nj"
        "craft_checked uid i ni j nj db = (reply, db')"
      using assms by (auto simp: craft_def split: sum.splits option.splits)
    have b: "holds_rarity uid i ni db" "holds_rarity uid j nj db" "RARITY_NAMES ! ni = RARITY_NAMES ! nj"
      using a(7) True by (auto simp: craft_checked_def split: if_splits)
    have n: "ni < length RARITY_NAMES" "nj < length RARITY_NAMES" using a(5,6) by (auto dest: py_index_less)
    then have eq: "nj = ni" using b(3) names by (simp add: nth_eq_iff_index_eq)
    obtain rid rec where c: "find_recipe i j db = Some (rid, rec)"
      using a(7) True b by (cases "find_recipe i j db") (auto simp: craft_checked_def)
    have d: "t_users_loot (add_craft uid rid z db) = t_users_loot db" for z by (simp add: add_craft_def)
    have e: "craft_checked uid i ni j ni db = (reply, db')" using a(7) unfolding eq .
    have b2: "holds_rarity uid j ni db" using b(2) unfolding eq .
    have "reply = Crafted (RARITY_NAMES ! ni) (cr_rep_item rec) \<and>
        db' = (add_craft uid rid (RARITY_NAMES ! ni) db)\<lparr>t_users_loot :=
             update_row (uid, j) (consume ni) (update_row (uid, i) (consume ni) (t_users_loot db))\<rparr>"
      using e unfolding craft_checked_def by (simp add: b(1) b2 c d eq_commute [of reply] eq_commute [of db'])
    then show ?thesis using that(2) [OF a(1,3) n(1) b(1) b2 c] by blast
  qed
qed

definition used :: "int \<Rightarrow> int \<Rightarrow> int \<Rightarrow> nat" where
  "used one two item = (if item = one then 1 else 0) + (if item = two then 1 else 0)"

text \<open>Crafting either changes nothing, or the player held both ingredients of a recipe in one
  rarity and gets one of its product while each ingredient's amount and count in that rarity
  drop by one, two for an ingredient named twice; all other inventory rows stay.\<close>

theorem craft_outcome:
  assumes "craft uid one rone two rtwo db = (reply, db')"
  shows "db' = db \<or>
    (\<exists>i j n rid rec. int_of_arg one = Inr i \<and> int_of_arg two = Inr j \<and>
       find_recipe i j db = Some (rid, rec) \<and> reply = Crafted (RARITY_NAMES ! n) (cr_rep_item rec) \<and>
       holds_rarity uid i n db \<and> holds_rarity uid j n db \<and>
       map_option uc_amount (row_at (uid, rid) (t_user_craft db')) =
         Some (1 + (case row_at (uid, rid) (t_user_craft db) of None \<Rightarrow> 0 | Some c \<Rightarrow> uc_amount c)) \<and>
       (\<forall>user item. row_at (user, item) (t_users_loot db') =
          map_option (consume n ^^ (if user = uid then used i j item else 0)) (row_at (user, item) (t_users_loot db))))"
proof (rule craft_cases [OF assms])
  assume "db' = db"
  then show ?thesis by simp
next
  fix i j n rid rec
  assume h: "int_of_arg one = Inr i" "int_of_arg two = Inr j" "holds_rarity uid i n db" "holds_rarity uid j n db"
    "find_recipe i j db = Some (rid, rec)" "reply = Crafted (RARITY_NAMES ! n) (cr_rep_item rec)"
    and db': "db' = (add_craft uid rid (RARITY_NAMES ! n) db)\<lparr>t_users_loot :=
             update_row (uid, j) (consume n) (update_row (uid, i) (consume n) (t_users_loot db))\<rparr>"
  have "map_option uc_amount (row_at (uid, rid) (t_user_craft db')) =
      Some (1 + (case row_at (uid, rid) (t_user_craft db) of None \<Rightarrow> 0 | Some c \<Rightarrow> uc_amount c))"
    by (cases "row_at (uid, rid) (t_user_craft db)")
      (auto simp: db' add_craft_def sql.read_upd insert_row_def row_at_append)
  moreover have "row_at (user, item) (t_users_loot db') =
      map_option (consume n ^^ (if user = uid then used i j item else 0)) (row_at (user, item) (t_users_loot db))" for user item
    by (simp add: db' sql.read_upd used_def option.map_comp o_def option.map_id numeral_2_eq_2)
  ultimately show ?thesis using h by blast
qed

lemma craft_keeps_consistent:
  assumes "craft uid one rone two rtwo db = (reply, db')" and "loot_consistent db"
  shows "loot_consistent db'"
  by (rule craft_cases [OF assms(1)])
    (use assms(2) in \<open>auto simp: loot_consistent_def intro!: update_consistent consume_consistent\<close>)

definition craft_example :: loot_db where
  "craft_example = empty_loot_db\<lparr>t_craft_rep := [(1, \<lparr>cr_item_one = 1, cr_item_two = 1, cr_rep_item = ''Orb''\<rparr>)],
     t_users_loot := [((''ann'', 1), \<lparr>ul_loot = Some ''Gem'', ul_amount = 1, ul_counts = [1, 0, 0, 0, 0, 0, 0, 0, 0]\<rparr>)]\<rparr>"

text \<open>A recipe that uses an item twice needs only one of it and leaves minus one.\<close>

lemma craft_pair_from_one:
  "craft ''ann'' (ArgInt 1) (ArgInt 0) (ArgInt 1) (ArgInt (- 9)) craft_example =
     (Crafted ''common'' ''Orb'',
      craft_example\<lparr>t_user_craft := [((''ann'', 1), \<lparr>uc_amount = 1, uc_rarity = ''common''\<rparr>)],
        t_users_loot := [((''ann'', 1), \<lparr>ul_loot = Some ''Gem'', ul_amount = - 1, ul_counts = [- 1, 0, 0, 0, 0, 0, 0, 0, 0]\<rparr>)]\<rparr>)"
  by code_simp

theorem craft_outcome_witness:
  "\<exists>n. row_at (''ann'', 1) (t_users_loot (snd (craft ''ann'' (ArgInt 1) (ArgInt 0) (ArgInt 1) (ArgInt (- 9)) craft_example))) =
     map_option (consume n ^^ 2) (row_at (''ann'', 1) (t_users_loot craft_example))"
proof -
  let ?db = "snd (craft ''ann'' (ArgInt 1) (ArgInt 0) (ArgInt 1) (ArgInt (- 9)) craft_example)"
  have ne: "?db \<noteq> craft_example" unfolding craft_pair_from_one by (simp add: craft_example_def empty_loot_db_def)
  have eq: "craft ''ann'' (ArgInt 1) (ArgInt 0) (ArgInt 1) (ArgInt (- 9)) craft_example = (Crafted ''common'' ''Orb'', ?db)"
    unfolding craft_pair_from_one by simp
  from craft_outcome [OF eq] ne obtain i j n where "int_of_arg (ArgInt 1) = Inr i" "int_of_arg (ArgInt 1) = Inr j"
    "\<forall>user item. row_at (user, item) (t_users_loot ?db) =
        map_option (consume n ^^ (if user = ''ann'' then used i j item else 0)) (row_at (user, item) (t_users_loot craft_example))"
    by blast
  then show ?thesis by (intro exI [of _ n]) (simp add: int_of_arg_def used_def numeral_2_eq_2)
qed

section \<open>Mining\<close>

datatype mine_op = Mine string int int int

primrec mine_step :: "mine_op \<Rightarrow> loot_db \<Rightarrow> loot_db" where
  "mine_step (Mine uid x y roll) db = snd (mine uid x y roll db)"

text \<open>The zones a player has claimed for an ore, and what the inventory says.\<close>

definition claimed :: "string \<Rightarrow> ore \<Rightarrow> loot_db \<Rightarrow> int" where
  "claimed uid x db = sum_rows (\<lambda>_. True) (\<lambda>a. if ar_user a = uid \<and> ar_ore a = x then 1 else 0) (t_areas db)"

definition ore_amount :: "ore \<Rightarrow> user_ore \<Rightarrow> int" where
  "ore_amount x r = (case x of PowerCoin \<Rightarrow> uo_power_coin r | BagOfDirt \<Rightarrow> uo_bag_of_dirt r | LootOre \<Rightarrow> uo_loot_ore r)"

lemma ore_amount_bump: "ore_amount x (bump_ore y r) = ore_amount x r + (if x = y then 1 else 0)"
  by (cases x; cases y) (simp_all add: ore_amount_def bump_ore_def)

lemma mine_known: "row_at (x, y) (t_areas db) = Some a \<Longrightarrow> mine uid x y roll db = (AlreadyMined (ar_ore a), db)"
  by (simp add: mine_def mine_check_def)

lemma mine_free:
  assumes "row_at (x, y) (t_areas db) = None"
  shows "t_areas (snd (mine uid x y roll db)) = t_areas db @ [((x, y), \<lparr>ar_user = uid, ar_ore = ore_of_roll roll\<rparr>)]"
    and "get_ore_inventory k (snd (mine uid x y roll db)) =
      (if k = uid then bump_ore (ore_of_roll roll) (get_ore_inventory uid db) else get_ore_inventory k db)"
  using assms
  by (auto simp: mine_def mine_check_def insert_row_def get_ore_inventory_def sql.read_upd row_at_append row_at_other
      split: option.split)

lemma mine_keeps_books:
  assumes "\<forall>uid x. ore_amount x (get_ore_inventory uid db) = claimed uid x db"
  shows "\<forall>uid x. ore_amount x (get_ore_inventory uid (mine_step op db)) = claimed uid x (mine_step op db)"
proof (cases op)
  case (Mine uid x y roll)
  show ?thesis
  proof (cases "row_at (x, y) (t_areas db)")
    case None
    then show ?thesis using assms
      by (simp add: Mine mine_free claimed_def sum_rows_append ore_amount_bump)
  next
    case (Some a)
    then show ?thesis using assms by (simp add: Mine mine_known)
  qed
qed

lemma mine_step_zone: "row_at z (t_areas db) = Some a \<Longrightarrow> row_at z (t_areas (mine_step op db)) = Some a"
proof (cases op)
  case (Mine uid x y roll)
  assume "row_at z (t_areas db) = Some a"
  then show ?thesis
    by (cases "row_at (x, y) (t_areas db)")
      (auto simp: Mine mine_known mine_free row_at_def map_add_def)
qed

lemma mine_run_zone: "row_at z (t_areas db) = Some a \<Longrightarrow> row_at z (t_areas (fold mine_step ops db)) = Some a"
  by (induction ops arbitrary: db) (simp_all add: mine_step_zone)

lemma mine_run_books:
  "\<forall>uid x. ore_amount x (get_ore_inventory uid db) = claimed uid x db \<Longrightarrow>
   ore_amount x (get_ore_inventory uid (fold mine_step ops db)) = claimed uid x (fold mine_step ops db)"
proof (induction ops arbitrary: db)
  case Nil
  then show ?case by simp
next
  case (Cons op ops)
  from Cons.IH [OF mine_keeps_books [OF Cons.prems]] show ?case by simp
qed

text \<open>After any sequence of mining attempts on an empty map, each player's count of an ore is the
  number of zones that player was first to mine with that result, and a mined zone keeps its
  owner and ore whatever follows.\<close>

theorem mining_claims:
  "ore_amount x (get_ore_inventory uid (fold mine_step ops empty_loot_db)) = claimed uid x (fold mine_step ops empty_loot_db) \<and>
   (row_at z (t_areas (fold mine_step ops empty_loot_db)) = None \<or>
    row_at z (t_areas (fold mine_step (ops @ later) empty_loot_db)) = row_at z (t_areas (fold mine_step ops empty_loot_db)))"
proof
  show "ore_amount x (get_ore_inventory uid (fold mine_step ops empty_loot_db)) = claimed uid x (fold mine_step ops empty_loot_db)"
    by (rule mine_run_books)
      (simp add: empty_loot_db_def get_ore_inventory_def claimed_def sum_rows_def row_at_def ore_amount_def split: ore.split)
  show "row_at z (t_areas (fold mine_step ops empty_loot_db)) = None \<or>
    row_at z (t_areas (fold mine_step (ops @ later) empty_loot_db)) = row_at z (t_areas (fold mine_step ops empty_loot_db))"
    by (cases "row_at z (t_areas (fold mine_step ops empty_loot_db))") (simp_all add: mine_run_zone)
qed

end
