(* ===== verification/LootDrops.thy ===== *)
theory LootDrops
  imports LootPlayers LootMarket
begin

text \<open>
  \<open>lp_chance.py\<close> and \<open>lp_adventure.py\<close> of the LootPower game: the chance of an item, the search
  through the loot table, the rarity of what was found, and the adventure that spends a turn on
  it.  Every call of \<open>random\<close> and of the clock is an argument; doubles and decimals are exact
  rationals with the code's roundings.
\<close>

section \<open>Roundings\<close>

text \<open>\<open>quantize\<close> with \<open>ROUND_HALF_UP\<close> rounds ties away from zero; six
  decimals are formatted with ties to even.\<close>

definition round_half_up :: "rat \<Rightarrow> int" where
  "round_half_up x = (if 0 \<le> x then floor (x + 1 / 2) else - floor (- x + 1 / 2))"

definition round6 :: "rat \<Rightarrow> rat" where
  "round6 x =
     (let y = 1000000 * x; lo = floor y; d = y - of_int lo
      in (if d < 1 / 2 then of_int lo else if d > 1 / 2 then of_int (lo + 1)
          else if even lo then of_int lo else of_int (lo + 1)) / 1000000)"

section \<open>The chance of one item\<close>

definition find_loot_drop_chance :: "rat \<Rightarrow> rat \<Rightarrow> rat \<Rightarrow> int \<Rightarrow> string \<Rightarrow> string \<Rightarrow> rat \<Rightarrow> loot_db \<Rightarrow> rat" where
  "find_loot_drop_chance global_chance boosted_chance self_lower item_id loot_name uid sub_zero db =
     (let (lower, added) =
            (case row_at (uid, item_id) (t_users_loot db) of
               None \<Rightarrow> (0, 0)
             | Some row \<Rightarrow> (of_int (round_half_up (self_lower * of_int (ul_amount row))), of_int (round_half_up boosted_chance)));
          work = global_chance - added;
          work2 = work - of_int (py_trunc work) + 1;
          finale = (if sub_zero \<ge> work2 then global_chance - 1 - added + lower else global_chance - added + lower)
      in if finale < 10 then (if loot_name = ''rock'' then 2 else 10) else finale)"

section \<open>Rarity\<close>

text \<open>The draws of the loop: a level of \<open>randrange(0, 7)\<close> and a roll of \<open>randint(1, value)\<close>.
  \<open>None\<close> stands for a loop that has not ended with the draws given.\<close>

fun find_rarity :: "(nat \<times> int) list \<Rightarrow> nat option" where
  "find_rarity [] = None"
| "find_rarity ((level, dropped) # draws) =
     (if dropped = RARITY_ROLL_VALUES ! level then Some level else find_rarity draws)"

definition valid_draws :: "(nat \<times> int) list \<Rightarrow> bool" where
  "valid_draws = list_all (\<lambda>(level, dropped). level < 7 \<and> 1 \<le> dropped \<and> dropped \<le> RARITY_ROLL_VALUES ! level)"

section \<open>Finding loot\<close>

record rolls =
  ro_sub_zero :: "int \<Rightarrow> rat"
  ro_gen :: "int \<Rightarrow> int"
  ro_rarity :: "(nat \<times> int) list"
  ro_point :: int
  ro_story :: nat
  ro_date :: "nat list"

text \<open>What the player reads: the text around the rarity, name and new chance.\<close>

datatype story_text = DynamicStory string | StoryAndNote string | NoteOnly

datatype loot_reply = FoundNothing | Found string string rat story_text

text \<open>\<open>s.replace(old, new)\<close> for a non-empty \<open>old\<close>.\<close>

function replace_text :: "string \<Rightarrow> string \<Rightarrow> string \<Rightarrow> string" where
  "replace_text old new s =
     (if old = [] \<or> s = [] then s
      else if take (length old) s = old then new @ replace_text old new (drop (length old) s)
      else hd s # replace_text old new (tl s))"
  by pat_completeness auto
termination by (relation "measure (\<lambda>(old, new, s). length s)") auto

declare replace_text.simps [simp del]

definition stat_of_drop :: "string \<Rightarrow> string \<Rightarrow> string \<Rightarrow> nat list \<Rightarrow> loot_stat" where
  "stat_of_drop uid rarity name date = \<lparr>ls_user = uid, ls_loot = name, ls_rarity = rarity, ls_date = date\<rparr>"

definition loot_stats :: "string \<Rightarrow> string \<Rightarrow> string \<Rightarrow> nat list \<Rightarrow> loot_db \<Rightarrow> bool \<times> loot_db" where
  "loot_stats uid rarity name date db = (True, db\<lparr>t_loot_stats := t_loot_stats db @ [stat_of_drop uid rarity name date]\<rparr>)"

text \<open>The roll for one item of the table.\<close>

definition item_drops :: "string \<Rightarrow> rat \<Rightarrow> rolls \<Rightarrow> loot_db \<Rightarrow> int \<times> loot_item \<Rightarrow> bool" where
  "item_drops uid boost ro db = (\<lambda>(lid, item).
     ro_gen ro lid = py_trunc (find_loot_drop_chance (li_chance item) boost (li_chance_lower item) lid (li_loot item) uid
                                 (ro_sub_zero ro lid) db))"

definition gain :: "nat \<Rightarrow> user_loot \<Rightarrow> user_loot" where
  "gain ri r = r\<lparr>ul_amount := ul_amount r + 1, ul_counts := (ul_counts r)[ri := ul_counts r ! ri + 1]\<rparr>"

definition give_loot :: "string \<Rightarrow> int \<Rightarrow> loot_item \<Rightarrow> nat \<Rightarrow> loot_db \<Rightarrow> loot_db" where
  "give_loot uid lid item ri db =
     db\<lparr>t_users_loot :=
       (if row_at (uid, lid) (t_users_loot db) \<noteq> None then update_row (uid, lid) (gain ri) (t_users_loot db)
        else case insert_row (uid, lid) \<lparr>ul_loot = Some (li_loot item), ul_amount = 1,
                                         ul_counts = (replicate 9 0)[ri := 1]\<rparr> (t_users_loot db) of
               Inl _ \<Rightarrow> t_users_loot db
             | Inr t \<Rightarrow> t)\<rparr>"

definition new_chance :: "rat \<Rightarrow> int \<Rightarrow> nat \<Rightarrow> loot_item \<Rightarrow> rat" where
  "new_chance boost point ri item =
     round6 (boost + (of_int point / 1000000 * of_int (RARITY_ROLL_VALUES ! ri) + li_chance_raise item))"

definition story_of :: "string list \<Rightarrow> nat \<Rightarrow> string" where
  "story_of stories k = (if stories = [] then ''Your adventure was boring, and you '' else stories ! (k mod length stories))"

definition drop_info :: "string \<Rightarrow> string \<Rightarrow> bool \<Rightarrow> string \<Rightarrow> story_text" where
  "drop_info rarity name show_story story =
     (let dyna = replace_text ''[[loot]]'' (rarity @ '' '' @ name) story
      in if dyna \<noteq> story then DynamicStory dyna else if show_story then StoryAndNote story else NoteOnly)"

definition find_loot :: "string \<Rightarrow> bool \<Rightarrow> rolls \<Rightarrow> loot_db \<Rightarrow> (loot_reply \<times> loot_db) option" where
  "find_loot uid show_story ro db =
     (case row_at uid (t_users db) of
        None \<Rightarrow> Some (FoundNothing, db)
      | Some user \<Rightarrow>
          (case find (item_drops uid (us_boost user) ro db) (rev (sort_key fst (t_loot db))) of
             None \<Rightarrow> Some (FoundNothing, db)
           | Some (lid, item) \<Rightarrow>
               (case find_rarity (ro_rarity ro) of
                  None \<Rightarrow> None
                | Some ri \<Rightarrow>
                    let name = RARITY_NAMES ! ri;
                        db1 = give_loot uid lid item ri db;
                        chance = new_chance (us_boost user) (ro_point ro) ri item;
                        db2 = db1\<lparr>t_users := update_row uid (\<lambda>u. u\<lparr>us_boost := chance\<rparr>) (t_users db1)\<rparr>;
                        info = drop_info name (li_loot item) show_story (story_of (t_stories db2) (ro_story ro));
                        db3 = snd (loot_stats uid name (li_loot item) (ro_date ro) db2);
                        db4 = db3\<lparr>t_adventures := t_adventures db3 + 1\<rparr>
                    in Some (Found name (li_loot item) chance info, db4))))"

definition get_player_loot_count :: "string \<Rightarrow> loot_db \<Rightarrow> int" where
  "get_player_loot_count uid db = sum_rows (\<lambda>key. fst key = uid) ul_amount (t_users_loot db)"

definition get_all_loot_items :: "loot_db \<Rightarrow> (int \<times> loot_item) list" where
  "get_all_loot_items db = sort_key fst (t_loot db)"

section \<open>Adventures\<close>

datatype adventure_reply = TooTired | Adventured loot_reply int

text \<open>The first search and, when it finds nothing, a second one with its own rolls.\<close>

definition adventure :: "string \<Rightarrow> bool \<Rightarrow> rat \<Rightarrow> rolls \<Rightarrow> rolls \<Rightarrow> loot_db \<Rightarrow> (adventure_reply \<times> loot_db) option" where
  "adventure uid show_story now ro1 ro2 db =
     (let (turns, db1) = validate_turn uid now db
      in if turns < 1 then Some (TooTired, db1)
         else (case find_loot uid show_story ro1 db1 of
                 None \<Rightarrow> None
               | Some (FoundNothing, db2) \<Rightarrow>
                   map_option (\<lambda>(reply, db3). (Adventured reply turns, db3)) (find_loot uid show_story ro2 db2)
               | Some (reply, db2) \<Rightarrow> Some (Adventured reply turns, db2)))"

section \<open>Properties\<close>

text \<open>The drop chance of an item is at least 10, or exactly 2 for a cheap rock, so the roll
  \<open>randint(1, int(chance))\<close> always has a range; and it never exceeds the larger of 10
  and the listed chance raised by what the player owns less the rounded boost.\<close>

theorem drop_chance_bounds:
  "let c = find_loot_drop_chance g b low lid name uid z db;
       owned = (case row_at (uid, lid) (t_users_loot db) of None \<Rightarrow> 0
                | Some r \<Rightarrow> of_int (round_half_up (low * of_int (ul_amount r))) - of_int (round_half_up b))
   in 2 \<le> py_trunc c \<and> (c = 2 \<and> name = ''rock'' \<or> 10 \<le> c) \<and> c \<le> max 10 (g + owned)"
proof -
  have "2 \<le> c \<and> 2 \<le> py_trunc c" if "c = 2 \<or> 10 \<le> c" for c :: rat
    using that py_trunc_ge [of 2 c] by auto
  then show ?thesis
    by (auto simp: find_loot_drop_chance_def split: option.split)
qed

lemma find_rarity_hit:
  "find_rarity draws = Some ri \<Longrightarrow> (ri, RARITY_ROLL_VALUES ! ri) \<in> set draws"
  by (induction draws rule: find_rarity.induct) (auto split: if_splits)

lemma find_rarity_None: "find_rarity draws = None \<longleftrightarrow> (\<forall>(level, dropped)\<in>set draws. dropped \<noteq> RARITY_ROLL_VALUES ! level)"
  by (induction draws rule: find_rarity.induct) auto

lemma find_rarity_level: "valid_draws draws \<Longrightarrow> find_rarity draws = Some ri \<Longrightarrow> ri < 7"
  by (drule find_rarity_hit) (auto simp: valid_draws_def list_all_iff)

lemma find_loot_cases:
  assumes "find_loot uid show_story ro db = Some (reply, db')"
  obtains "reply = FoundNothing" and "db' = db"
  | user lid item ri where "row_at uid (t_users db) = Some user" and "(lid, item) \<in> set (t_loot db)"
      and "item_drops uid (us_boost user) ro db (lid, item)" and "find_rarity (ro_rarity ro) = Some ri"
      and "\<exists>info. reply = Found (RARITY_NAMES ! ri) (li_loot item) (new_chance (us_boost user) (ro_point ro) ri item) info"
      and "db' = (give_loot uid lid item ri db)\<lparr>
             t_users := update_row uid (\<lambda>u. u\<lparr>us_boost := new_chance (us_boost user) (ro_point ro) ri item\<rparr>) (t_users db),
             t_loot_stats := t_loot_stats db @ [stat_of_drop uid (RARITY_NAMES ! ri) (li_loot item) (ro_date ro)],
             t_adventures := t_adventures db + 1\<rparr>"
proof (cases "row_at uid (t_users db)")
  case None
  then show ?thesis using assms that(1) by (simp add: find_loot_def)
next
  case (Some user)
  have g: "t_users (give_loot uid lid item ri db) = t_users db" "t_loot_stats (give_loot uid lid item ri db) = t_loot_stats db"
    "t_adventures (give_loot uid lid item ri db) = t_adventures db" for lid item ri by (simp_all add: give_loot_def)
  show ?thesis
  proof (cases "find (item_drops uid (us_boost user) ro db) (rev (sort_key fst (t_loot db)))")
    case None
    then show ?thesis using assms that(1) Some by (simp add: find_loot_def)
  next
    case found: (Some d)
    obtain lid item where d: "d = (lid, item)" by (cases d)
    have in_table: "(lid, item) \<in> set (t_loot db)" "item_drops uid (us_boost user) ro db (lid, item)"
      using found d by (auto simp: find_Some_iff) (metis nth_mem length_rev length_sort set_rev set_sort)
    obtain ri where ri: "find_rarity (ro_rarity ro) = Some ri"
      using assms Some found d by (cases "find_rarity (ro_rarity ro)") (simp_all add: find_loot_def)
    show ?thesis
      by (rule that(2) [OF Some in_table ri]) (use assms Some found d ri in \<open>auto simp: find_loot_def loot_stats_def g\<close>)
  qed
qed

lemma give_loot_total:
  assumes "keys_unique (t_users_loot db)" and "ri < 9"
  shows "get_item_count k (give_loot uid lid item ri db) = get_item_count k db + (if k = uid then 1 else 0)"
proof -
  define t where "t = t_users_loot (give_loot uid lid item ri db)"
  have t: "t = (if row_at (uid, lid) (t_users_loot db) \<noteq> None then update_row (uid, lid) (gain ri) (t_users_loot db)
      else case insert_row (uid, lid) \<lparr>ul_loot = Some (li_loot item), ul_amount = 1, ul_counts = (replicate 9 0)[ri := 1]\<rparr>
        (t_users_loot db) of Inl _ \<Rightarrow> t_users_loot db | Inr u \<Rightarrow> u)" by (simp add: t_def give_loot_def)
  have "get_item_count k (give_loot uid lid item ri db) = sum_rows (\<lambda>key. fst key = k) ul_amount t"
    by (simp add: get_item_count_def t_def)
  then show ?thesis
    using sql.total_credit(1) [OF assms(1) _ _ t, where w = ul_amount and n = 1 and P = "\<lambda>key. fst key = k"]
    by (simp add: gain_def get_item_count_def eq_commute [of uid])
qed

lemma give_loot_consistent:
  assumes "loot_consistent db" and "ri < 9"
  shows "loot_consistent (give_loot uid lid item ri db)"
proof -
  have nine: "length RARITY_NAMES = 9" by code_simp
  have "row_consistent (gain ri r)" if "row_consistent r" for r
    using that sum_list_bump [of ri "ul_counts r" 1] assms(2) by (simp add: row_consistent_def gain_def nine)
  moreover have "row_consistent \<lparr>ul_loot = n, ul_amount = 1, ul_counts = (replicate 9 0)[ri := 1]\<rparr>" for n
    using sum_list_bump [of ri "replicate 9 0" 1] assms(2) by (simp add: row_consistent_def nine sum_list_replicate)
  ultimately show ?thesis using assms(1)
    by (auto simp: loot_consistent_def give_loot_def insert_row_def intro!: update_consistent)
qed

text \<open>A search for loot changes nothing, or adds exactly one item to the player's inventory and
  none to anybody else's, keeps amounts equal to the sum of their rarity counts, logs the drop,
  counts the adventure, and never yields a godly or mythic item.\<close>

theorem find_loot_accounting:
  assumes "find_loot uid show_story ro db = Some (reply, db')"
    and "keys_unique (t_users_loot db)" and "loot_consistent db" and "valid_draws (ro_rarity ro)"
  shows "loot_consistent db' \<and>
    (reply = FoundNothing \<and> db' = db \<or>
     (\<exists>ri name chance info. reply = Found (RARITY_NAMES ! ri) name chance info \<and> ri < 7 \<and>
        (\<forall>k. get_item_count k db' = get_item_count k db + (if k = uid then 1 else 0)) \<and>
        t_loot_stats db' = t_loot_stats db @ [stat_of_drop uid (RARITY_NAMES ! ri) name (ro_date ro)] \<and>
        t_adventures db' = t_adventures db + 1 \<and>
        map_option us_boost (row_at uid (t_users db')) = Some chance \<and>
        t_auction db' = t_auction db \<and> t_user_craft db' = t_user_craft db))"
proof (rule find_loot_cases [OF assms(1)])
  assume "reply = FoundNothing" and "db' = db"
  then show ?thesis using assms(3) by simp
next
  fix user lid item ri
  assume user: "row_at uid (t_users db) = Some user" and ri: "find_rarity (ro_rarity ro) = Some ri"
    and reply: "\<exists>info. reply = Found (RARITY_NAMES ! ri) (li_loot item) (new_chance (us_boost user) (ro_point ro) ri item) info"
    and db': "db' = (give_loot uid lid item ri db)\<lparr>
             t_users := update_row uid (\<lambda>u. u\<lparr>us_boost := new_chance (us_boost user) (ro_point ro) ri item\<rparr>) (t_users db),
             t_loot_stats := t_loot_stats db @ [stat_of_drop uid (RARITY_NAMES ! ri) (li_loot item) (ro_date ro)],
             t_adventures := t_adventures db + 1\<rparr>"
  have level: "ri < 7" by (rule find_rarity_level [OF assms(4) ri])
  then have nine: "ri < 9" by simp
  have "loot_consistent db'" using give_loot_consistent [OF assms(3) nine, of uid lid item] by (simp add: db' loot_consistent_def)
  moreover have "get_item_count k db' = get_item_count k db + (if k = uid then 1 else 0)" for k
    using give_loot_total [OF assms(2) nine, of k uid lid item] by (simp add: db' get_item_count_def)
  moreover have "t_auction db' = t_auction db" "t_user_craft db' = t_user_craft db" by (simp_all add: db' give_loot_def)
  ultimately show ?thesis using reply level user by (auto simp: db' sql.read_upd)
qed

definition drop_example :: loot_db where
  "drop_example = one_player\<lparr>t_loot :=
     [(1, \<lparr>li_loot = ''rock'', li_chance = 4, li_chance_raise = 0, li_chance_lower = 0, li_lore = []\<rparr>)]\<rparr>"

definition roll_example :: rolls where
  "roll_example = \<lparr>ro_sub_zero = (\<lambda>_. 1), ro_gen = (\<lambda>_. 2), ro_rarity = [(1, 3), (0, 2)], ro_point = 5, ro_story = 0, ro_date = []\<rparr>"

theorem find_loot_accounting_witness:
  "loot_consistent (snd (the (find_loot ''u'' True roll_example drop_example)))"
proof -
  let ?r = "the (find_loot ''u'' True roll_example drop_example)"
  have "find_loot ''u'' True roll_example drop_example \<noteq> None" by code_simp
  then have r: "find_loot ''u'' True roll_example drop_example = Some (fst ?r, snd ?r)" by simp
  have "keys_unique (t_users_loot drop_example)" "loot_consistent drop_example" "valid_draws (ro_rarity roll_example)"
    by code_simp+
  from find_loot_accounting [OF r this] show ?thesis by blast
qed

lemma drop_example_found: "\<exists>x y z. fst (the (find_loot ''u'' True roll_example drop_example)) = Found ''common'' x y z"
proof -
  have "case fst (the (find_loot ''u'' True roll_example drop_example)) of FoundNothing \<Rightarrow> False | Found r x y z \<Rightarrow> r = ''common''"
    by code_simp
  then show ?thesis by (cases "fst (the (find_loot ''u'' True roll_example drop_example))") auto
qed

text \<open>The searches end once the rarity loop does.\<close>

lemma find_loot_returns:
  "\<exists>(level, dropped)\<in>set (ro_rarity ro). dropped = RARITY_ROLL_VALUES ! level \<Longrightarrow> find_loot uid show_story ro db \<noteq> None"
  using find_rarity_None [of "ro_rarity ro"] by (auto simp: find_loot_def split: option.split)

lemma loot_reply_split:
  "find_loot uid s ro db \<noteq> None \<Longrightarrow> \<exists>reply db'. find_loot uid s ro db = Some (reply, db')"
  by auto

text \<open>An adventure returns as soon as one rarity draw of each search can hit; it costs exactly
  one turn if it is not refused, and a refused one leaves the inventory alone.\<close>

theorem adventure_returns:
  assumes "\<exists>(level, dropped)\<in>set (ro_rarity ro1). dropped = RARITY_ROLL_VALUES ! level"
    and "\<exists>(level, dropped)\<in>set (ro_rarity ro2). dropped = RARITY_ROLL_VALUES ! level"
  shows "\<exists>reply db'. adventure uid show_story now ro1 ro2 db = Some (reply, db') \<and>
    get_remaining_turns uid db' = get_remaining_turns uid db - (if reply = TooTired then 0 else 1) \<and>
    (reply = TooTired \<longrightarrow> t_users_loot db' = t_users_loot db)"
proof -
  have keep: "get_remaining_turns uid d' = get_remaining_turns uid d" if "find_loot uid show_story ro d = Some (r, d')" for ro d r d'
    by (rule find_loot_cases [OF that]) (auto simp: get_remaining_turns_def sql.read_upd split: option.split)
  obtain n db1 where v: "validate_turn uid now db = (n, db1)" by force
  then have turn: "get_remaining_turns uid db1 = get_remaining_turns uid db - (if n < 1 then 0 else 1)"
    "n < 1 \<Longrightarrow> t_users_loot db1 = t_users_loot db"
    by (auto simp: validate_turn_def get_remaining_turns_def sql.read_upd split: option.splits if_splits)
  obtain r2 db2 where f1: "find_loot uid show_story ro1 db1 = Some (r2, db2)"
    using loot_reply_split [OF find_loot_returns [OF assms(1)]] by blast
  obtain r3 db3 where f2: "find_loot uid show_story ro2 db2 = Some (r3, db3)"
    using loot_reply_split [OF find_loot_returns [OF assms(2)]] by blast
  show ?thesis using v turn f1 f2 keep [OF f1] keep [OF f2]
    by (cases "n < 1"; cases r2) (auto simp: adventure_def)
qed

theorem adventure_returns_witness:
  "\<exists>reply db'. adventure ''u'' True 1 roll_example roll_example drop_example = Some (reply, db')"
proof -
  have hit: "\<exists>(level, dropped)\<in>set (ro_rarity roll_example). dropped = RARITY_ROLL_VALUES ! level"
    by (simp add: roll_example_def RARITY_ROLL_VALUES_def)
  from adventure_returns [OF hit hit] show ?thesis by blast
qed

end
