(* ===== verification/EcoBridge.thy ===== *)
theory EcoBridge
  imports SqlTables PyText
begin

text \<open>
  The economy bridge, \<open>SCRIPTS/GAMES/minecraft_manager/ECO_BRIDGE\<close>: the wallet server
  (\<open>OogaDB.handle_request\<close> of \<open>eco_bridge_server.py\<close>), its client with retries
  over an unreliable connection (\<open>eco_bridge_client.py\<close>) and the read-only local bridge
  (\<open>eco_bridge.py\<close>).  One request is one critical section of the server's lock and one
  SQLite transaction, so a request is one step.  The framing and encryption of a packet are
  outside this theory; a packet is delivered, lost, or executed with its answer lost.
\<close>

section \<open>Wallets\<close>

record wallet =
  wl_balance :: int
  wl_name_hint :: "string option"
  wl_updated_at :: string

record ledger_entry =
  le_player :: string
  le_delta :: int
  le_balance_after :: int
  le_reason :: string
  le_note :: string
  le_created_at :: string

record ooga =
  oo_wallets :: "(string, wallet) table"
  oo_ledger :: "ledger_entry list"

text \<open>A decoded request: absent keys are \<open>None\<close>; the text fields hold strings.\<close>

record eco_request =
  rq_action :: string
  rq_player :: "string option"
  rq_uuid :: "string option"
  rq_from :: "string option"
  rq_to :: "string option"
  rq_amount :: "py_arg option"
  rq_reason :: "string option"
  rq_note :: "string option"
  rq_limit :: "py_arg option"

definition plain_request :: "string \<Rightarrow> eco_request" where
  "plain_request action =
     \<lparr>rq_action = action, rq_player = None, rq_uuid = None, rq_from = None, rq_to = None, rq_amount = None,
      rq_reason = None, rq_note = None, rq_limit = None\<rparr>"

datatype eco_response =
    Refused string
  | RefusedWith string int
  | Crashed py_error
  | PlayerIs string int "string option" string
  | BalanceIs int
  | Moved int int string
  | Transferred int int int string
  | StatsAre int nat nat
  | EntriesAre "ledger_entry list"
  | Pong string

definition resp_ok :: "eco_response \<Rightarrow> bool" where
  "resp_ok r = (case r of Refused _ \<Rightarrow> False | RefusedWith _ _ \<Rightarrow> False | Crashed _ \<Rightarrow> False | _ \<Rightarrow> True)"

section \<open>The server\<close>

text \<open>\<open>re.match(r'^[0-9a-f\-]{36}$', s, re.I)\<close>; the dollar also matches before a final newline.\<close>

definition hex_or_dash :: "char \<Rightarrow> bool" where
  "hex_or_dash c = (c \<in> set ''0123456789abcdefABCDEF-'')"

definition is_uuid :: "string \<Rightarrow> bool" where
  "is_uuid s =
     (let t = (if s \<noteq> [] \<and> last s = CHR 0x0A then butlast s else s)
      in length t = 36 \<and> list_all hex_or_dash t)"

definition resolve_player :: "string \<Rightarrow> ooga \<Rightarrow> (string \<times> wallet) option" where
  "resolve_player player db =
     (let by_uuid = (if is_uuid player then map_option (Pair player) (row_at player (oo_wallets db)) else None);
          exact = find (\<lambda>(u, w). wl_name_hint w = Some player) (oo_wallets db);
          folded = find (\<lambda>(u, w). map_option ascii_lower (wl_name_hint w) = Some (ascii_lower player)) (oo_wallets db)
      in case by_uuid of Some x \<Rightarrow> Some x
       | None \<Rightarrow> (case exact of Some x \<Rightarrow> Some x | None \<Rightarrow> folded))"

text \<open>The \<open>UPDATE wallets\<close> and \<open>INSERT INTO wallet_ledger\<close> of one wallet.\<close>

definition write_wallet :: "string \<Rightarrow> int \<Rightarrow> string \<Rightarrow> ooga \<Rightarrow> ooga" where
  "write_wallet uuid balance now db =
     db\<lparr>oo_wallets := update_row uuid (\<lambda>w. w\<lparr>wl_balance := balance, wl_updated_at := now\<rparr>) (oo_wallets db)\<rparr>"

definition write_ledger :: "string \<Rightarrow> int \<Rightarrow> int \<Rightarrow> string \<Rightarrow> string \<Rightarrow> string \<Rightarrow> ooga \<Rightarrow> ooga" where
  "write_ledger uuid delta balance_after reason note now db =
     db\<lparr>oo_ledger := oo_ledger db @
        [\<lparr>le_player = uuid, le_delta = delta, le_balance_after = balance_after, le_reason = reason,
          le_note = note, le_created_at = now\<rparr>]\<rparr>"

definition get_or :: "'a \<Rightarrow> 'a option \<Rightarrow> 'a" where
  "get_or d x = (case x of None \<Rightarrow> d | Some y \<Rightarrow> y)"

text \<open>\<open>request[key]\<close> and \<open>int(request["amount"])\<close>.\<close>

definition required :: "'a option \<Rightarrow> 'a result" where
  "required x = (case x of None \<Rightarrow> Inl KeyError | Some y \<Rightarrow> Inr y)"

definition amount_of :: "eco_request \<Rightarrow> int result" where
  "amount_of req = bind_result (required (rq_amount req)) int_of_arg"

text \<open>The common part of \<open>deduct\<close>, \<open>credit\<close> and \<open>set\<close>: \<open>f\<close> maps the balance
  and the amount to the new balance, or refuses.\<close>

definition move_wallet ::
  "(int \<Rightarrow> int \<Rightarrow> int option) \<Rightarrow> string \<Rightarrow> string \<Rightarrow> eco_request \<Rightarrow> ooga \<Rightarrow> eco_response \<times> ooga" where
  "move_wallet f default_reason now req db =
     (case bind_result (required (rq_uuid req)) (\<lambda>u. bind_result (amount_of req) (\<lambda>a. Inr (u, a))) of
        Inl err \<Rightarrow> (Crashed err, db)
      | Inr (uuid, amount) \<Rightarrow>
          let reason = get_or default_reason (rq_reason req); note = get_or [] (rq_note req)
          in (case row_at uuid (oo_wallets db) of
                None \<Rightarrow> (Refused ''Player not found'', db)
              | Some w \<Rightarrow>
                  (case f (wl_balance w) amount of
                     None \<Rightarrow> (RefusedWith ''Insufficient funds'' (wl_balance w), db)
                   | Some new \<Rightarrow>
                       (Moved new (new - wl_balance w) reason,
                        write_ledger uuid (new - wl_balance w) new reason note now (write_wallet uuid new now db)))))"

definition deduct_amount :: "int \<Rightarrow> int \<Rightarrow> int option" where
  "deduct_amount balance amount = (if balance - amount < 0 then None else Some (balance - amount))"

definition transfer_request :: "string \<Rightarrow> eco_request \<Rightarrow> ooga \<Rightarrow> eco_response \<times> ooga" where
  "transfer_request now req db =
     (case bind_result (required (rq_from req)) (\<lambda>f. bind_result (required (rq_to req)) (\<lambda>t.
             bind_result (amount_of req) (\<lambda>a. Inr (f, t, a)))) of
        Inl err \<Rightarrow> (Crashed err, db)
      | Inr (from_uuid, to_uuid, amount) \<Rightarrow>
          let reason = get_or ''AH_TRANSFER'' (rq_reason req); note = get_or [] (rq_note req)
          in (case (row_at from_uuid (oo_wallets db), row_at to_uuid (oo_wallets db)) of
                (Some from_w, Some to_w) \<Rightarrow>
                  if wl_balance from_w < amount then (RefusedWith ''Insufficient funds'' (wl_balance from_w), db)
                  else let from_new = wl_balance from_w - amount; to_new = wl_balance to_w + amount;
                           db1 = write_wallet to_uuid to_new now (write_wallet from_uuid from_new now db)
                       in (Transferred from_new to_new amount reason,
                           write_ledger to_uuid amount to_new (reason @ ''_RECV'') note now
                             (write_ledger from_uuid (- amount) from_new (reason @ ''_SEND'') note now db1))
              | _ \<Rightarrow> (Refused ''Sender or receiver not found'', db)))"

definition handle_request :: "string \<Rightarrow> eco_request \<Rightarrow> ooga \<Rightarrow> eco_response \<times> ooga" where
  "handle_request now req db =
     (if rq_action req = ''balance'' \<or> rq_action req = ''info'' then
        (case resolve_player (get_or [] (rq_player req)) db of
           Some (u, w) \<Rightarrow> (PlayerIs u (wl_balance w) (wl_name_hint w) (wl_updated_at w), db)
         | None \<Rightarrow> (Refused ''Player not found'', db))
      else if rq_action req = ''balance_uuid'' then
        (case row_at (get_or [] (rq_uuid req)) (oo_wallets db) of
           Some w \<Rightarrow> (BalanceIs (wl_balance w), db)
         | None \<Rightarrow> (Refused ''Player not found'', db))
      else if rq_action req = ''deduct'' then move_wallet deduct_amount ''AH_BRIDGE'' now req db
      else if rq_action req = ''credit'' then move_wallet (\<lambda>b a. Some (b + a)) ''AH_BRIDGE'' now req db
      else if rq_action req = ''set'' then move_wallet (\<lambda>b a. Some a) ''AH_SET'' now req db
      else if rq_action req = ''transfer'' then transfer_request now req db
      else if rq_action req = ''stats'' then
        (StatsAre (sum_rows (\<lambda>_. True) wl_balance (oo_wallets db)) (length (oo_wallets db)) (length (oo_ledger db)), db)
      else if rq_action req = ''ledger'' then
        (case int_of_arg (get_or (ArgInt 20) (rq_limit req)) of
           Inl err \<Rightarrow> (Crashed err, db)
         | Inr limit \<Rightarrow>
             let entries = rev (filter (\<lambda>e. le_player e = get_or [] (rq_uuid req)) (oo_ledger db))
             in (EntriesAre (if limit < 0 then entries else take (nat limit) entries), db))
      else if rq_action req = ''ping'' then (Pong now, db)
      else (Refused (''Unknown action: '' @ rq_action req), db))"

section \<open>The client\<close>

text \<open>
  What happens to one attempt: it never reaches the server; it is executed and no usable answer
  comes back in a way that raises a \<open>ConnectionError\<close> or \<open>TimeoutError\<close>; it is executed and
  its answer is not JSON (a \<open>ValueError\<close>, which is not retried); it is answered.  Attempts
  beyond the list are answered.
\<close>

datatype net_outcome = NotSent | NoAnswer | BadAnswer | Answered

record eco =
  ec_net :: "net_outcome list"
  ec_db :: ooga

definition RETRY_COUNT :: nat where
  "RETRY_COUNT = 3"

fun send_attempts :: "nat \<Rightarrow> string \<Rightarrow> eco_request \<Rightarrow> eco \<Rightarrow> eco_response result \<times> eco" where
  "send_attempts 0 now req e = (Inl OSError, e)"
| "send_attempts (Suc n) now req e =
     (case ec_net e of
        NotSent # net \<Rightarrow> send_attempts n now req (e\<lparr>ec_net := net\<rparr>)
      | NoAnswer # net \<Rightarrow>
          send_attempts n now req (e\<lparr>ec_net := net, ec_db := snd (handle_request now req (ec_db e))\<rparr>)
      | BadAnswer # net \<Rightarrow> (Inl ValueError, e\<lparr>ec_net := net, ec_db := snd (handle_request now req (ec_db e))\<rparr>)
      | net \<Rightarrow> (let (r, db) = handle_request now req (ec_db e) in (Inr r, e\<lparr>ec_net := tl net, ec_db := db\<rparr>)))"

definition send_with_retry :: "string \<Rightarrow> eco_request \<Rightarrow> eco \<Rightarrow> eco_response result \<times> eco" where
  "send_with_retry now req e = send_attempts RETRY_COUNT now req e"

definition answer_ok :: "eco_response result \<Rightarrow> bool" where
  "answer_ok r = (case r of Inl _ \<Rightarrow> False | Inr resp \<Rightarrow> resp_ok resp)"

definition resp_balance :: "eco_response result \<Rightarrow> int option" where
  "resp_balance r = (case r of Inr (PlayerIs u b n t) \<Rightarrow> Some b | Inr (BalanceIs b) \<Rightarrow> Some b | _ \<Rightarrow> None)"

definition remote_get_balance :: "string \<Rightarrow> string \<Rightarrow> eco \<Rightarrow> int option \<times> eco" where
  "remote_get_balance now player e =
     (let (r, e') = send_with_retry now ((plain_request ''balance'')\<lparr>rq_player := Some player\<rparr>) e
      in (resp_balance r, e'))"

definition get_player_info :: "string \<Rightarrow> string \<Rightarrow> eco \<Rightarrow> (string \<times> int \<times> string option \<times> string) option \<times> eco" where
  "get_player_info now player e =
     (let (r, e') = send_with_retry now ((plain_request ''info'')\<lparr>rq_player := Some player\<rparr>) e
      in (case r of Inr (PlayerIs u b n t) \<Rightarrow> Some (u, b, n, t) | _ \<Rightarrow> None, e'))"

definition resolve_or_uuid :: "string \<Rightarrow> string \<Rightarrow> eco \<Rightarrow> string option \<times> eco" where
  "resolve_or_uuid now player e =
     (if is_uuid player then (Some player, e)
      else (let (info, e') = get_player_info now player e in (map_option fst info, e')))"

text \<open>\<open>deduct\<close>, \<open>credit\<close>: resolve the player, send, and read \<open>ok\<close>; an empty UUID
  counts as not found.\<close>

definition remote_move :: "string \<Rightarrow> string \<Rightarrow> string \<Rightarrow> int \<Rightarrow> string \<Rightarrow> string \<Rightarrow> eco \<Rightarrow> bool \<times> eco" where
  "remote_move action now player amount reason note e =
     (let (u, e1) = resolve_or_uuid now player e
      in (case u of
            None \<Rightarrow> (False, e1)
          | Some uuid \<Rightarrow>
              if uuid = [] then (False, e1)
              else (let (r, e2) = send_with_retry now ((plain_request action)\<lparr>rq_uuid := Some uuid,
                        rq_amount := Some (ArgInt amount), rq_reason := Some reason, rq_note := Some note\<rparr>) e1
                    in (answer_ok r, e2))))"

definition remote_deduct :: "string \<Rightarrow> string \<Rightarrow> int \<Rightarrow> string \<Rightarrow> string \<Rightarrow> eco \<Rightarrow> bool \<times> eco" where
  "remote_deduct = remote_move ''deduct''"

definition remote_credit :: "string \<Rightarrow> string \<Rightarrow> int \<Rightarrow> string \<Rightarrow> string \<Rightarrow> eco \<Rightarrow> bool \<times> eco" where
  "remote_credit = remote_move ''credit''"

text \<open>The class defines \<open>set_balance\<close> twice; the second definition, which sends its argument as
  the UUID, is the one in force.\<close>

definition remote_set_balance :: "string \<Rightarrow> string \<Rightarrow> int \<Rightarrow> string \<Rightarrow> eco \<Rightarrow> bool \<times> eco" where
  "remote_set_balance now player_uuid amount reason e =
     (let (r, e') = send_with_retry now ((plain_request ''set'')\<lparr>rq_uuid := Some player_uuid,
             rq_amount := Some (ArgInt amount), rq_reason := Some reason\<rparr>) e
      in (answer_ok r, e'))"

definition remote_transfer :: "string \<Rightarrow> string \<Rightarrow> string \<Rightarrow> int \<Rightarrow> string \<Rightarrow> eco \<Rightarrow> eco_response \<times> eco" where
  "remote_transfer now from_uuid to_uuid amount reason e =
     (let (r, e') = send_with_retry now ((plain_request ''transfer'')\<lparr>rq_from := Some from_uuid, rq_to := Some to_uuid,
             rq_amount := Some (ArgInt amount), rq_reason := Some reason\<rparr>) e
      in (case r of Inl err \<Rightarrow> Crashed err | Inr resp \<Rightarrow> resp, e'))"

definition remote_get_ledger :: "string \<Rightarrow> string \<Rightarrow> int \<Rightarrow> eco \<Rightarrow> ledger_entry list \<times> eco" where
  "remote_get_ledger now player_uuid limit e =
     (let (r, e') = send_with_retry now ((plain_request ''ledger'')\<lparr>rq_uuid := Some player_uuid, rq_limit := Some (ArgInt limit)\<rparr>) e
      in (case r of Inr (EntriesAre es) \<Rightarrow> es | _ \<Rightarrow> [], e'))"

definition remote_ping :: "string \<Rightarrow> eco \<Rightarrow> bool \<times> eco" where
  "remote_ping now e = (let (r, e') = send_with_retry now (plain_request ''ping'') e in (answer_ok r, e'))"

section \<open>The bridges the auction house may get\<close>

text \<open>\<open>get_bridge\<close> yields a remote bridge, the read-only local one, or none.\<close>

datatype bridge = RemoteBridge | LocalBridge

definition bridge_get_balance :: "bridge \<Rightarrow> string \<Rightarrow> string \<Rightarrow> eco \<Rightarrow> int option \<times> eco" where
  "bridge_get_balance b now player e =
     (case b of
        RemoteBridge \<Rightarrow> remote_get_balance now player e
      | LocalBridge \<Rightarrow>
          (let (r, db) = handle_request now ((plain_request ''balance'')\<lparr>rq_player := Some player\<rparr>) (ec_db e)
           in (resp_balance (Inr r), e\<lparr>ec_db := db\<rparr>)))"

definition bridge_deduct :: "bridge \<Rightarrow> string \<Rightarrow> string \<Rightarrow> int \<Rightarrow> string \<Rightarrow> string \<Rightarrow> eco \<Rightarrow> bool \<times> eco" where
  "bridge_deduct b now player amount reason note e =
     (case b of RemoteBridge \<Rightarrow> remote_deduct now player amount reason note e | LocalBridge \<Rightarrow> (False, e))"

definition bridge_credit :: "bridge \<Rightarrow> string \<Rightarrow> string \<Rightarrow> int \<Rightarrow> string \<Rightarrow> string \<Rightarrow> eco \<Rightarrow> bool \<times> eco" where
  "bridge_credit b now player amount reason note e =
     (case b of RemoteBridge \<Rightarrow> remote_credit now player amount reason note e | LocalBridge \<Rightarrow> (False, e))"

section \<open>The ledger\<close>

definition balance_in :: "string \<Rightarrow> ooga \<Rightarrow> int option" where
  "balance_in u db = map_option wl_balance (row_at u (oo_wallets db))"

definition delta_sum :: "string \<Rightarrow> ooga \<Rightarrow> int" where
  "delta_sum u db = sum_list (map le_delta (filter (\<lambda>e. le_player e = u) (oo_ledger db)))"

text \<open>What a wallet would hold had none of its ledger entries been made.\<close>

definition opening_balance :: "string \<Rightarrow> ooga \<Rightarrow> int option" where
  "opening_balance u db = map_option (\<lambda>b. b - delta_sum u db) (balance_in u db)"

lemma balance_write: "balance_in u (write_wallet v b now db) = (if u = v then map_option (\<lambda>_. b) (balance_in v db) else balance_in u db)"
  by (simp add: balance_in_def write_wallet_def sql.read_upd option.map_comp o_def)

lemma balance_ledger [simp]: "balance_in u (write_ledger v d a r n now db) = balance_in u db"
  by (simp add: balance_in_def write_ledger_def)

lemma delta_write [simp]: "delta_sum u (write_wallet v b now db) = delta_sum u db"
  by (simp add: delta_sum_def write_wallet_def)

lemma delta_ledger: "delta_sum u (write_ledger v d a r n now db) = delta_sum u db + (if u = v then d else 0)"
  by (simp add: delta_sum_def write_ledger_def eq_commute [of v])

lemma row_balance: "row_at u (oo_wallets db) = Some w \<Longrightarrow> balance_in u db = Some (wl_balance w)"
  by (simp add: balance_in_def)

lemma move_wallet_cases:
  obtains "snd (move_wallet f d now req db) = db" and "\<not> resp_ok (fst (move_wallet f d now req db))"
  | uuid amount w new reason nt where "rq_uuid req = Some uuid" and "amount_of req = Inr amount"
      and "row_at uuid (oo_wallets db) = Some w" and "f (wl_balance w) amount = Some new"
      and "fst (move_wallet f d now req db) = Moved new (new - wl_balance w) reason"
      and "snd (move_wallet f d now req db) =
             write_ledger uuid (new - wl_balance w) new reason nt now (write_wallet uuid new now db)"
proof (cases "\<exists>uuid amount w new. rq_uuid req = Some uuid \<and> amount_of req = Inr amount \<and>
      row_at uuid (oo_wallets db) = Some w \<and> f (wl_balance w) amount = Some new")
  case True
  then obtain uuid amount w new where "rq_uuid req = Some uuid" "amount_of req = Inr amount"
    "row_at uuid (oo_wallets db) = Some w" "f (wl_balance w) amount = Some new" by blast
  then show ?thesis by (intro that(2)) (auto simp: move_wallet_def required_def)
next
  case False
  then show ?thesis
    by (intro that(1))
      (auto simp: move_wallet_def required_def bind_result_def resp_ok_def split: sum.split option.split)
qed

lemma transfer_cases:
  obtains "snd (transfer_request now req db) = db" and "\<not> resp_ok (fst (transfer_request now req db))"
  | f t amount w1 w2 reason nt where "rq_from req = Some f" and "rq_to req = Some t" and "amount_of req = Inr amount"
      and "row_at f (oo_wallets db) = Some w1" and "row_at t (oo_wallets db) = Some w2" and "amount \<le> wl_balance w1"
      and "snd (transfer_request now req db) =
             write_ledger t amount (wl_balance w2 + amount) (reason @ ''_RECV'') nt now
               (write_ledger f (- amount) (wl_balance w1 - amount) (reason @ ''_SEND'') nt now
                 (write_wallet t (wl_balance w2 + amount) now (write_wallet f (wl_balance w1 - amount) now db)))"
proof (cases "\<exists>f t amount w1 w2. rq_from req = Some f \<and> rq_to req = Some t \<and> amount_of req = Inr amount \<and>
      row_at f (oo_wallets db) = Some w1 \<and> row_at t (oo_wallets db) = Some w2 \<and> amount \<le> wl_balance w1")
  case True
  then obtain f t amount w1 w2 where "rq_from req = Some f" "rq_to req = Some t" "amount_of req = Inr amount"
      "row_at f (oo_wallets db) = Some w1" "row_at t (oo_wallets db) = Some w2" "amount \<le> wl_balance w1" by blast
  then show ?thesis by (intro that(2)) (auto simp: transfer_request_def required_def)
next
  case False
  then show ?thesis
    by (intro that(1))
      (auto simp: transfer_request_def required_def bind_result_def resp_ok_def split: sum.split option.split if_split)
qed

lemma move_opening: "opening_balance u (snd (move_wallet f d now req db)) = opening_balance u db"
  by (rule move_wallet_cases [of f d now req db])
    (auto simp: opening_balance_def balance_write delta_ledger row_balance option.map_comp o_def)

lemma transfer_opening:
  assumes "rq_from req \<noteq> rq_to req"
  shows "opening_balance u (snd (transfer_request now req db)) = opening_balance u db"
  by (rule transfer_cases [of now req db])
    (use assms in \<open>auto simp: opening_balance_def balance_write delta_ledger row_balance option.map_comp o_def\<close>)

text \<open>The requests that write, as one lemma for the proofs below.\<close>

lemma handle_request_effect:
  obtains "snd (handle_request now req db) = db"
  | "rq_action req = ''deduct''" and "handle_request now req db = move_wallet deduct_amount ''AH_BRIDGE'' now req db"
  | "rq_action req = ''credit''" and "handle_request now req db = move_wallet (\<lambda>b a. Some (b + a)) ''AH_BRIDGE'' now req db"
  | "rq_action req = ''set''" and "handle_request now req db = move_wallet (\<lambda>b a. Some a) ''AH_SET'' now req db"
  | "rq_action req = ''transfer''" and "handle_request now req db = transfer_request now req db"
proof -
  consider "rq_action req = ''deduct''" | "rq_action req = ''credit''" | "rq_action req = ''set''"
    | "rq_action req = ''transfer''" | "rq_action req \<notin> {''deduct'', ''credit'', ''set'', ''transfer''}" by blast
  then show ?thesis
  proof cases
    case 5
    then show ?thesis by (intro that(1)) (auto simp: handle_request_def split: option.split sum.split)
  qed (use that(2-5) in \<open>simp_all add: handle_request_def\<close>)
qed

definition self_transfer :: "eco_request \<Rightarrow> bool" where
  "self_transfer req \<longleftrightarrow> rq_action req = ''transfer'' \<and> rq_from req = rq_to req"

definition run_requests :: "(string \<times> eco_request) list \<Rightarrow> ooga \<Rightarrow> ooga" where
  "run_requests reqs db = fold (\<lambda>(now, req) db. snd (handle_request now req db)) reqs db"

lemma request_opening: "\<not> self_transfer req \<Longrightarrow> opening_balance u (snd (handle_request now req db)) = opening_balance u db"
  by (rule handle_request_effect [of now req db])
    (auto simp: move_opening transfer_opening self_transfer_def)

text \<open>C34: the ledger explains every balance: as long as nobody transfers to themselves, after any
  sequence of requests the balance of a wallet less the sum of its ledger entries is what it was,
  and no wallet appears or disappears.\<close>

theorem ledger_explains_wallets:
  assumes "list_all (\<lambda>(now, req). \<not> self_transfer req) reqs"
  shows "opening_balance u (run_requests reqs db) = opening_balance u db"
  using assms unfolding run_requests_def
proof (induction reqs arbitrary: db)
  case Nil
  then show ?case by simp
next
  case (Cons r reqs)
  then show ?case by (cases r) (simp add: request_opening)
qed

definition eco_example :: ooga where
  "eco_example = \<lparr>oo_wallets =
     [(''u1'', \<lparr>wl_balance = 100, wl_name_hint = Some ''Steve'', wl_updated_at = []\<rparr>),
      (''u2'', \<lparr>wl_balance = 5, wl_name_hint = Some ''Alex'', wl_updated_at = []\<rparr>)], oo_ledger = []\<rparr>"

definition transfer_of :: "string \<Rightarrow> string \<Rightarrow> int \<Rightarrow> eco_request" where
  "transfer_of f t n = (plain_request ''transfer'')\<lparr>rq_from := Some f, rq_to := Some t, rq_amount := Some (ArgInt n)\<rparr>"

theorem ledger_explains_wallets_witness:
  "opening_balance ''u2'' (run_requests [([], transfer_of ''u1'' ''u2'' 60), ([], transfer_of ''u2'' ''u1'' 1)] eco_example) = Some 5"
proof -
  have "list_all (\<lambda>(now, req). \<not> self_transfer req) [([], transfer_of ''u1'' ''u2'' 60), ([], transfer_of ''u2'' ''u1'' 1)]"
    by code_simp
  from ledger_explains_wallets [OF this] have "opening_balance ''u2'' (run_requests [([], transfer_of ''u1'' ''u2'' 60),
      ([], transfer_of ''u2'' ''u1'' 1)] eco_example) = opening_balance ''u2'' eco_example" .
  also have "\<dots> = Some 5" by code_simp
  finally show ?thesis .
qed

text \<open>A transfer to oneself writes the balance twice and keeps the second value: it mints the amount.\<close>

lemma self_transfer_mints:
  assumes "row_at u (oo_wallets db) = Some w" and "n \<le> wl_balance w"
  shows "balance_in u (snd (handle_request now (transfer_of u u n) db)) = Some (wl_balance w + n)"
  using assms
  by (simp add: handle_request_def transfer_of_def plain_request_def transfer_request_def required_def amount_of_def
      int_of_arg_def balance_write row_balance)

section \<open>Bounds\<close>

definition wallets_nonneg :: "ooga \<Rightarrow> bool" where
  "wallets_nonneg db = list_all (\<lambda>(u, w). 0 \<le> wl_balance w) (oo_wallets db)"

text \<open>A deduction of any amount, anything else of an amount that is not negative.\<close>

definition fair_request :: "eco_request \<Rightarrow> bool" where
  "fair_request req \<longleftrightarrow> rq_action req = ''deduct'' \<or> (case amount_of req of Inl _ \<Rightarrow> True | Inr a \<Rightarrow> 0 \<le> a)"

definition total_coins :: "ooga \<Rightarrow> int" where
  "total_coins db = sum_rows (\<lambda>_. True) wl_balance (oo_wallets db)"

lemma nonneg_write: "wallets_nonneg db \<Longrightarrow> 0 \<le> b \<Longrightarrow> wallets_nonneg (write_wallet u b now db)"
  by (auto simp: wallets_nonneg_def write_wallet_def update_row_def list_all_iff split: if_splits)

lemma nonneg_ledger [simp]: "wallets_nonneg (write_ledger v d a r n now db) = wallets_nonneg db"
  by (simp add: wallets_nonneg_def write_ledger_def)

lemma nonneg_row: "wallets_nonneg db \<Longrightarrow> row_at u (oo_wallets db) = Some w \<Longrightarrow> 0 \<le> wl_balance w"
  by (auto simp: wallets_nonneg_def row_at_def list_all_iff dest!: map_of_SomeD)

lemma move_nonneg:
  assumes "wallets_nonneg db"
    and "\<And>a b new. amount_of req = Inr a \<Longrightarrow> 0 \<le> b \<Longrightarrow> f b a = Some new \<Longrightarrow> 0 \<le> new"
  shows "wallets_nonneg (snd (move_wallet f d now req db))"
proof (rule move_wallet_cases [of f d now req db])
  assume "snd (move_wallet f d now req db) = db"
  then show ?thesis using assms(1) by (simp only:)
next
  fix uuid amount w new reason nt
  assume *: "amount_of req = Inr amount" "row_at uuid (oo_wallets db) = Some w" "f (wl_balance w) amount = Some new"
    and "snd (move_wallet f d now req db) =
      write_ledger uuid (new - wl_balance w) new reason nt now (write_wallet uuid new now db)"
  moreover have "0 \<le> new" using assms(2) [OF *(1) _ *(3)] nonneg_row [OF assms(1) *(2)] by blast
  ultimately show ?thesis using nonneg_write [OF assms(1)] by (simp only: nonneg_ledger)
qed

lemma transfer_nonneg:
  assumes "wallets_nonneg db" and "\<And>a. amount_of req = Inr a \<Longrightarrow> 0 \<le> a"
  shows "wallets_nonneg (snd (transfer_request now req db))"
proof (rule transfer_cases [of now req db])
  assume "snd (transfer_request now req db) = db"
  then show ?thesis using assms(1) by (simp only:)
next
  fix f t amount w1 w2 reason nt
  assume *: "amount_of req = Inr amount" "row_at f (oo_wallets db) = Some w1" "row_at t (oo_wallets db) = Some w2" "amount \<le> wl_balance w1"
    and eq: "snd (transfer_request now req db) =
             write_ledger t amount (wl_balance w2 + amount) (reason @ ''_RECV'') nt now
               (write_ledger f (- amount) (wl_balance w1 - amount) (reason @ ''_SEND'') nt now
                 (write_wallet t (wl_balance w2 + amount) now (write_wallet f (wl_balance w1 - amount) now db)))"
  have "0 \<le> wl_balance w1 - amount" "0 \<le> wl_balance w2 + amount"
    using *(4) assms(2) [OF *(1)] nonneg_row [OF assms(1) *(3)] by simp_all
  then show ?thesis unfolding eq nonneg_ledger by (intro nonneg_write assms(1))
qed

lemma request_nonneg:
  assumes "wallets_nonneg db" and "fair_request req"
  shows "wallets_nonneg (snd (handle_request now req db))"
proof -
  have fair: "0 \<le> a" if "amount_of req = Inr a" "rq_action req \<noteq> ''deduct''" for a
    using assms(2) that by (simp add: fair_request_def)
  show ?thesis
  proof (rule handle_request_effect [of now req db])
    assume "snd (handle_request now req db) = db"
    then show ?thesis using assms(1) by (simp only:)
  next
    assume h: "handle_request now req db = move_wallet deduct_amount ''AH_BRIDGE'' now req db"
    show ?thesis unfolding h by (rule move_nonneg [OF assms(1)]) (simp add: deduct_amount_def split: if_splits)
  next
    assume h: "handle_request now req db = move_wallet (\<lambda>b a. Some (b + a)) ''AH_BRIDGE'' now req db"
      and "rq_action req = ''credit''"
    then show ?thesis unfolding h by (intro move_nonneg [OF assms(1)]) (use fair in force)
  next
    assume h: "handle_request now req db = move_wallet (\<lambda>b a. Some a) ''AH_SET'' now req db"
      and "rq_action req = ''set''"
    then show ?thesis unfolding h by (intro move_nonneg [OF assms(1)]) (use fair in force)
  next
    assume h: "handle_request now req db = transfer_request now req db" and "rq_action req = ''transfer''"
    then show ?thesis unfolding h by (intro transfer_nonneg [OF assms(1)]) (use fair in force)
  qed
qed

lemma total_write:
  "keys_unique (oo_wallets db) \<Longrightarrow> total_coins (write_wallet u b now db) =
     total_coins db + (case row_at u (oo_wallets db) of None \<Rightarrow> 0 | Some w \<Rightarrow> b - wl_balance w)"
  by (simp add: total_coins_def write_wallet_def sql.total_upd split: option.split)

lemma total_ledger [simp]: "total_coins (write_ledger v d a r n now db) = total_coins db"
  by (simp add: total_coins_def write_ledger_def)

lemma transfer_conserves:
  assumes "keys_unique (oo_wallets db)" and "rq_from req \<noteq> rq_to req"
  shows "total_coins (snd (transfer_request now req db)) = total_coins db"
proof (rule transfer_cases [of now req db])
  assume "snd (transfer_request now req db) = db"
  then show ?thesis by simp
next
  fix f t amount w1 w2 reason nt
  assume *: "rq_from req = Some f" "rq_to req = Some t" "row_at f (oo_wallets db) = Some w1" "row_at t (oo_wallets db) = Some w2"
    "snd (transfer_request now req db) =
             write_ledger t amount (wl_balance w2 + amount) (reason @ ''_RECV'') nt now
               (write_ledger f (- amount) (wl_balance w1 - amount) (reason @ ''_SEND'') nt now
                 (write_wallet t (wl_balance w2 + amount) now (write_wallet f (wl_balance w1 - amount) now db)))"
  have "f \<noteq> t" using assms(2) * by auto
  moreover have "keys_unique (oo_wallets (write_wallet f (wl_balance w1 - amount) now db))"
    using sql.wf_upd [OF assms(1)] by (simp add: write_wallet_def)
  moreover have "row_at t (oo_wallets (write_wallet f (wl_balance w1 - amount) now db)) = Some w2"
    using * \<open>f \<noteq> t\<close> by (simp add: write_wallet_def sql.read_upd)
  ultimately show ?thesis using * assms(1) by (simp add: total_write)
qed

text \<open>No wallet is ever overdrawn by requests whose amounts are not negative, nor by a
  deduction of any amount; and a transfer between two different wallets conserves the coins.\<close>

theorem wallets_never_overdrawn:
  assumes "wallets_nonneg db" and "list_all (\<lambda>(now, req). fair_request req) reqs"
  shows "wallets_nonneg (run_requests reqs db) \<and>
    (\<forall>now f t n. f = t \<or> \<not> keys_unique (oo_wallets db) \<or>
       total_coins (snd (handle_request now (transfer_of f t n) db)) = total_coins db)"
proof
  show "wallets_nonneg (run_requests reqs db)"
    using assms unfolding run_requests_def
  proof (induction reqs arbitrary: db)
    case Nil
    then show ?case by simp
  next
    case (Cons r reqs)
    then show ?case by (cases r) (simp add: request_nonneg)
  qed
  have "total_coins (snd (handle_request now (transfer_of f t n) db)) = total_coins db"
    if "f \<noteq> t" "keys_unique (oo_wallets db)" for now f t n
  proof -
    have "handle_request now (transfer_of f t n) db = transfer_request now (transfer_of f t n) db"
      by (simp add: handle_request_def transfer_of_def plain_request_def)
    then show ?thesis using transfer_conserves [OF that(2), of "transfer_of f t n"] that(1) by (simp add: transfer_of_def)
  qed
  then show "\<forall>now f t n. f = t \<or> \<not> keys_unique (oo_wallets db) \<or>
       total_coins (snd (handle_request now (transfer_of f t n) db)) = total_coins db" by blast
qed

theorem wallets_never_overdrawn_witness:
  "wallets_nonneg (run_requests [([], transfer_of ''u1'' ''u2'' 60), ([], transfer_of ''u1'' ''u2'' 60)] eco_example)"
proof -
  have "wallets_nonneg eco_example"
    "list_all (\<lambda>(now, req). fair_request req) [([], transfer_of ''u1'' ''u2'' 60), ([], transfer_of ''u1'' ''u2'' 60)]"
    by code_simp+
  from wallets_never_overdrawn [OF this] show ?thesis by blast
qed

text \<open>A transfer of a negative amount takes coins from the receiver, below zero if need be.\<close>

lemma negative_transfer_overdraws:
  "balance_in ''u2'' (snd (handle_request [] (transfer_of ''u1'' ''u2'' (- 50)) eco_example)) = Some (- 45)"
  by code_simp

section \<open>Retries\<close>

lemma send_attempts_effect:
  assumes "send_attempts n now req e = (r, e')"
  shows "\<exists>k\<le>n. ec_db e' = ((\<lambda>db. snd (handle_request now req db)) ^^ k) (ec_db e)"
  using assms
proof (induction n arbitrary: e)
  case 0
  then show ?case by auto
next
  case (Suc n)
  show ?case
  proof (cases "ec_net e")
    case Nil
    then show ?thesis using Suc.prems by (intro exI [of _ 1]) (auto split: prod.splits)
  next
    case (Cons out net)
    note e = Cons
    show ?thesis
    proof (cases out)
      case NotSent
      then show ?thesis using Suc.IH [of "e\<lparr>ec_net := net\<rparr>"] Suc.prems e by (auto intro: le_SucI)
    next
      case NoAnswer
      let ?e = "e\<lparr>ec_net := net, ec_db := snd (handle_request now req (ec_db e))\<rparr>"
      obtain k where "k \<le> n" "ec_db e' = ((\<lambda>db. snd (handle_request now req db)) ^^ k) (ec_db ?e)"
        using Suc.IH [of ?e] Suc.prems e NoAnswer by auto
      then show ?thesis by (intro exI [of _ "Suc k"]) (simp add: funpow_Suc_right del: funpow.simps)
    next
      case BadAnswer
      then show ?thesis using Suc.prems e by (intro exI [of _ 1]) auto
    next
      case Answered
      then show ?thesis using Suc.prems e by (intro exI [of _ 1]) (auto split: prod.splits)
    qed
  qed
qed

lemma send_attempts_once:
  assumes "set (take n (ec_net e)) \<subseteq> {NotSent, Answered}" and "send_attempts n now req e = (r, e')"
  shows "(\<exists>resp. r = Inr resp \<and> handle_request now req (ec_db e) = (resp, ec_db e')) \<or> (r = Inl OSError \<and> ec_db e' = ec_db e)"
  using assms
proof (induction n arbitrary: e)
  case 0
  then show ?case by auto
next
  case (Suc n)
  show ?case
  proof (cases "ec_net e")
    case Nil
    then show ?thesis using Suc.prems by (auto split: prod.splits)
  next
    case (Cons out net)
    then have "out = NotSent \<or> out = Answered" using Suc.prems by auto
    then show ?thesis using Suc.prems Cons Suc.IH [of "e\<lparr>ec_net := net\<rparr>"] by (auto split: prod.splits)
  qed
qed

lemma move_wallet_ok:
  "resp_ok (fst (move_wallet f d now req db)) \<longleftrightarrow>
   (\<exists>uuid amount w new. rq_uuid req = Some uuid \<and> amount_of req = Inr amount \<and>
      row_at uuid (oo_wallets db) = Some w \<and> f (wl_balance w) amount = Some new)"
  by (auto simp: move_wallet_def required_def bind_result_def resp_ok_def split: sum.split option.split)

definition move_request :: "string \<Rightarrow> string \<Rightarrow> int \<Rightarrow> string \<Rightarrow> string \<Rightarrow> eco_request" where
  "move_request action uuid amount reason nt = (plain_request action)\<lparr>rq_uuid := Some uuid,
     rq_amount := Some (ArgInt amount), rq_reason := Some reason, rq_note := Some nt\<rparr>"


definition some_uuid :: string where
  "some_uuid = replicate 36 (CHR ''0'')"

definition net_example :: "net_outcome list \<Rightarrow> eco" where
  "net_example net = \<lparr>ec_net = net, ec_db = \<lparr>oo_wallets =
     [(some_uuid, \<lparr>wl_balance = 100, wl_name_hint = Some ''Steve'', wl_updated_at = []\<rparr>)], oo_ledger = []\<rparr>\<rparr>"


text \<open>The retry repeats a request whose answer was lost: one successful call charges twice.\<close>

lemma lost_answer_charges_twice:
  "let (done, e) = remote_deduct [] some_uuid 30 [] [] (net_example [NoAnswer, Answered])
   in done \<and> balance_in some_uuid (ec_db e) = Some 40"
  by code_simp

end
