(* ===== verification/AuctionState.thy ===== *)
theory AuctionState
  imports EcoBridge
begin

text \<open>
  The Minecraft auction house, \<open>SCRIPTS/GAMES/minecraft_manager/AUCTIONHOUSE\<close>: the tables of
  \<open>ah_database.py\<close> that \<open>ah_core.py\<close> reads and writes, the bans of \<open>ah_bans.py\<close>, and the
  wrappers around the economy bridge.  Clock readings are rationals (ISO timestamps of one zone
  order as the times they stand for), one reading per call; prices are rationals.
\<close>

section \<open>Tables\<close>

datatype listing_status = LActive | LSold | LCancelled | LExpired

text \<open>The columns no operation reads.\<close>

record listing_extra =
  lx_item_nbt :: "string option"
  lx_rarity :: "string option"
  lx_cert_hash :: "string option"
  lx_ai_weight :: rat
  lx_lore :: "string option"
  lx_source_event :: "string option"
  lx_enchantments :: "string option"
  lx_durability :: "int option"
  lx_quality_roll :: "int option"

record listing =
  al_seller :: string
  al_item :: string
  al_count :: int
  al_signed_name :: "string option"
  al_extra :: listing_extra
  al_simulated :: bool
  al_start_price :: rat
  al_current_bid :: "rat option"
  al_buy_now_price :: "rat option"
  al_highest_bidder :: "string option"
  al_bids_count :: int
  al_status :: listing_status
  al_listed_at :: rat
  al_expires_at :: "rat option"
  al_sold_at :: "rat option"
  al_sold_price :: "rat option"
  al_stale_since :: "rat option"

datatype tx_type = TxList | TxSimList | TxBid | TxBuy | TxCancel | TxExpire

datatype tx_meta = NoMeta | BuyMeta rat rat bool bool | CancelMeta bool rat | ExpireMeta "string option"

record ah_tx =
  tx_listing :: string
  tx_kind :: tx_type
  tx_actor :: string
  tx_item :: string
  tx_count :: int
  tx_price :: "rat option"
  tx_previous :: "rat option"
  tx_meta_data :: tx_meta
  tx_time :: rat

record ban =
  bn_by :: string
  bn_reason :: string
  bn_at :: rat
  bn_expires :: "rat option"

text \<open>\<open>None\<close> for affected items that are not JSON.\<close>

record market_event =
  me_affected :: "string list option"
  me_current_count :: "int option"
  me_goal_count :: "int option"
  me_active :: bool
  me_ended_at :: "rat option"

record balance_row =
  br_balance :: rat
  br_earned :: rat
  br_spent :: rat
  br_updated :: rat

text \<open>What leaves the process: console commands for items (chat messages are left out) and hooks.\<close>

datatype rcon_cmd = RconClear string string int | RconGive string string int

datatype rcon_result = RconReply string | RconRaises

datatype ah_hook = OnListingCreated string | OnPurchase string int | OnCancel string

record ah =
  ah_listings :: "(string, listing) table"
  ah_txs :: "ah_tx list"
  ah_bans :: "(string, ban) table"
  ah_events :: "(int, market_event) table"
  ah_categories :: "(string \<times> string) list"
  ah_balances :: "(string, balance_row) table"
  ah_eco :: eco
  ah_rcon :: "rcon_cmd list"
  ah_hooks :: "ah_hook list"

record ah_config =
  cf_sim_price_min :: rat
  cf_duration_default :: int
  cf_duration_max :: int
  cf_listing_fee :: rat
  cf_max_listings :: int
  cf_min_bid_increment_pct :: rat
  cf_sale_fee_pct :: rat
  cf_cancel_after_bids_fee :: rat

definition default_config :: ah_config where
  "default_config =
     \<lparr>cf_sim_price_min = 1 / 100, cf_duration_default = 48, cf_duration_max = 168, cf_listing_fee = 1 / 2,
      cf_max_listings = 5, cf_min_bid_increment_pct = 10, cf_sale_fee_pct = 2, cf_cancel_after_bids_fee = 1\<rparr>"

text \<open>The environment of one call: configuration, clock (a number and the wallet server's text),
  the UUID that \<open>uuid4\<close> yields, the bridge, and the console function if there is one.\<close>

record ah_env =
  en_cfg :: ah_config
  en_now :: rat
  en_stamp :: string
  en_uuid :: string
  en_bridge :: "bridge option"
  en_rcon :: "(rcon_cmd \<Rightarrow> rcon_result) option"

datatype ah_error =
    PriceTooLow | BuyNowBelowStart | Banned | NoFunds | TooManyListings | DuplicateItem | FeeFailed
  | ListingUnknown | NotActive listing_status | AuctionOver | OwnItem | BidTooLow rat | BidNotAccepted
  | EscrowFailed | NoBuyNow | OnlyAvailable int | AlreadyPurchased | PaymentFailed | NotTheSeller
  | Raised py_error

section \<open>Bans\<close>

definition is_player_banned :: "rat \<Rightarrow> string \<Rightarrow> ah \<Rightarrow> bool" where
  "is_player_banned now player a =
     (case row_at player (ah_bans a) of
        None \<Rightarrow> False
      | Some b \<Rightarrow> (case bn_expires b of None \<Rightarrow> True | Some t \<Rightarrow> t > now))"

text \<open>\<open>INSERT OR REPLACE\<close>; a duration of 0 is no duration.\<close>

definition ban_player :: "rat \<Rightarrow> string \<Rightarrow> string \<Rightarrow> string \<Rightarrow> int option \<Rightarrow> ah \<Rightarrow> ah" where
  "ban_player now player reason banned_by duration_hours a =
     (let expires = (case duration_hours of None \<Rightarrow> None
                     | Some h \<Rightarrow> if h = 0 then None else Some (now + 3600 * of_int h))
      in a\<lparr>ah_bans := delete_row player (ah_bans a) @
             [(player, \<lparr>bn_by = banned_by, bn_reason = reason, bn_at = now, bn_expires = expires\<rparr>)]\<rparr>)"

definition unban_player :: "string \<Rightarrow> ah \<Rightarrow> ah" where
  "unban_player player a = a\<lparr>ah_bans := delete_row player (ah_bans a)\<rparr>"

definition clean_expired_bans :: "rat \<Rightarrow> ah \<Rightarrow> ah" where
  "clean_expired_bans now a =
     a\<lparr>ah_bans := filter (\<lambda>(p, b). case bn_expires b of None \<Rightarrow> True | Some t \<Rightarrow> \<not> t < now) (ah_bans a)\<rparr>"

definition list_banned_players :: "rat \<Rightarrow> ah \<Rightarrow> (string \<times> ban) list" where
  "list_banned_players now a =
     filter (\<lambda>(p, b). case bn_expires b of None \<Rightarrow> True | Some t \<Rightarrow> t > now) (ah_bans a)"

section \<open>The economy bridge as the auction house uses it\<close>

text \<open>\<open>_check_eco_balance\<close>: an unknown player passes.\<close>

definition check_eco_balance :: "ah_env \<Rightarrow> string \<Rightarrow> int \<Rightarrow> ah \<Rightarrow> bool \<times> ah" where
  "check_eco_balance env player needed a =
     (case en_bridge env of
        None \<Rightarrow> (True, a)
      | Some b \<Rightarrow>
          (let (bal, e) = bridge_get_balance b (en_stamp env) player (ah_eco a)
           in (case bal of None \<Rightarrow> True | Some n \<Rightarrow> needed \<le> n, a\<lparr>ah_eco := e\<rparr>)))"

text \<open>\<open>_eco_deduct\<close>, \<open>_eco_credit\<close>: a result that is \<open>False\<close> is reported as success.\<close>

definition eco_deduct :: "ah_env \<Rightarrow> string \<Rightarrow> int \<Rightarrow> string \<Rightarrow> string \<Rightarrow> ah \<Rightarrow> bool \<times> ah" where
  "eco_deduct env player amount reason msg a =
     (case en_bridge env of
        None \<Rightarrow> (True, a)
      | Some b \<Rightarrow>
          (let (res, e) = bridge_deduct b (en_stamp env) player amount reason msg (ah_eco a); a' = a\<lparr>ah_eco := e\<rparr>
           in if res = False then (True, a') else (res, a')))"

definition eco_credit :: "ah_env \<Rightarrow> string \<Rightarrow> int \<Rightarrow> string \<Rightarrow> string \<Rightarrow> ah \<Rightarrow> bool \<times> ah" where
  "eco_credit env player amount reason msg a =
     (case en_bridge env of
        None \<Rightarrow> (True, a)
      | Some b \<Rightarrow>
          (let (res, e) = bridge_credit b (en_stamp env) player amount reason msg (ah_eco a); a' = a\<lparr>ah_eco := e\<rparr>
           in if res = False then (True, a') else (res, a')))"

definition record_tx ::
  "rat \<Rightarrow> string \<Rightarrow> tx_type \<Rightarrow> string \<Rightarrow> string \<Rightarrow> int \<Rightarrow> rat option \<Rightarrow> rat option \<Rightarrow> tx_meta \<Rightarrow> ah \<Rightarrow> ah" where
  "record_tx now uuid kind actor item count price previous meta a =
     a\<lparr>ah_txs := ah_txs a @
        [\<lparr>tx_listing = uuid, tx_kind = kind, tx_actor = actor, tx_item = item, tx_count = count, tx_price = price,
          tx_previous = previous, tx_meta_data = meta, tx_time = now\<rparr>]\<rparr>"

definition set_listings :: "(string, listing) table \<Rightarrow> ah \<Rightarrow> ah" where
  "set_listings t a = a\<lparr>ah_listings := t\<rparr>"

text \<open>A console command, with its outcome; without a console nothing is sent.\<close>

definition run_rcon :: "ah_env \<Rightarrow> rcon_cmd \<Rightarrow> ah \<Rightarrow> rcon_result option \<times> ah" where
  "run_rcon env cmd a =
     (case en_rcon env of None \<Rightarrow> (None, a) | Some f \<Rightarrow> (Some (f cmd), a\<lparr>ah_rcon := ah_rcon a @ [cmd]\<rparr>))"

definition fire_hook :: "ah_hook \<Rightarrow> ah \<Rightarrow> ah" where
  "fire_hook h a = a\<lparr>ah_hooks := ah_hooks a @ [h]\<rparr>"

text \<open>Since both bridges answer with a Boolean, the wrappers never report a failure.\<close>

lemma eco_deduct_true [simp]: "fst (eco_deduct env p n r m a) = True"
  by (simp add: eco_deduct_def split: option.split prod.split)

lemma eco_credit_true [simp]: "fst (eco_credit env p n r m a) = True"
  by (simp add: eco_credit_def split: option.split prod.split)

end
