(* ===== verification/AuctionHouse.thy ===== *)
theory AuctionHouse
  imports AuctionState
begin

text \<open>
  The operations of \<open>ah_core.py\<close>: listing, bidding, buying, cancelling, expiry, queries and the
  internal balances.  A bid or a purchase reads its listing first and writes in a later
  statement; the two phases are separate definitions, so that calls can be interleaved.
\<close>

definition has_text :: "string \<Rightarrow> string \<Rightarrow> bool" where
  "has_text pat s = list_ex (\<lambda>k. take (length pat) (drop k s) = pat) [0..<Suc (length s)]"

section \<open>Listing\<close>

definition active_of :: "string \<Rightarrow> ah \<Rightarrow> (string \<times> listing) list" where
  "active_of seller a = filter (\<lambda>(u, l). al_seller l = seller \<and> al_status l = LActive) (ah_listings a)"

text \<open>\<open>if x and ...\<close> on an optional price: absent and zero both count as false.\<close>

definition truthy :: "rat option \<Rightarrow> bool" where
  "truthy x = (case x of None \<Rightarrow> False | Some p \<Rightarrow> p \<noteq> 0)"

definition list_fee :: "ah_env \<Rightarrow> bool \<Rightarrow> bool" where
  "list_fee env simulated = (\<not> simulated \<and> cf_listing_fee (en_cfg env) > 0)"

text \<open>The item is taken from the player; an answer that says so, or an error, is only noted.\<close>

definition take_item :: "ah_env \<Rightarrow> bool \<Rightarrow> string \<Rightarrow> string \<Rightarrow> int \<Rightarrow> ah \<Rightarrow> bool \<times> ah" where
  "take_item env simulated seller item count a =
     (if simulated then (True, a)
      else (let (out, a') = run_rcon env (RconClear seller item count) a
            in (case out of
                  None \<Rightarrow> True
                | Some RconRaises \<Rightarrow> False
                | Some (RconReply s) \<Rightarrow> \<not> (has_text ''No items'' s \<or> has_text ''nothing'' (ascii_lower s)), a')))"

definition insert_listing :: "ah_env \<Rightarrow> listing \<Rightarrow> ah \<Rightarrow> ah result" where
  "insert_listing env l a = bind_result (insert_row (en_uuid env) l (ah_listings a)) (\<lambda>t. Inr (set_listings t a))"

text \<open>The checks before the fee, in order; the duration in hours comes with them.\<close>

definition list_checks ::
  "ah_env \<Rightarrow> string \<Rightarrow> string \<Rightarrow> rat \<Rightarrow> rat option \<Rightarrow> bool \<Rightarrow> ah \<Rightarrow> ah_error option \<times> ah" where
  "list_checks env seller item start_price buy_now_price simulated a =
     (let cfg = en_cfg env in
      if start_price < cf_sim_price_min cfg then (Some PriceTooLow, a)
      else if truthy buy_now_price \<and> the buy_now_price < start_price then (Some BuyNowBelowStart, a)
      else if \<not> simulated \<and> is_player_banned (en_now env) seller a then (Some Banned, a)
      else (let (funds, a1) = (if list_fee env simulated
                then check_eco_balance env seller (py_trunc (cf_listing_fee cfg)) a else (True, a))
            in if \<not> funds then (Some NoFunds, a1)
               else if \<not> simulated \<and> int (length (active_of seller a1)) \<ge> cf_max_listings cfg then (Some TooManyListings, a1)
               else if \<not> simulated \<and> list_ex (\<lambda>(u, l). al_item l = item) (active_of seller a1) then (Some DuplicateItem, a1)
               else (None, a1)))"

definition pay_listing_fee :: "ah_env \<Rightarrow> string \<Rightarrow> bool \<Rightarrow> ah \<Rightarrow> (ah_error + bool) \<times> ah" where
  "pay_listing_fee env seller simulated a =
     (if \<not> list_fee env simulated then (Inr False, a)
      else (let fee = py_trunc (cf_listing_fee (en_cfg env));
                (funds, a1) = check_eco_balance env seller fee a
            in if \<not> funds then (Inl NoFunds, a1)
               else (let (paid, a2) = eco_deduct env seller fee ''AH_LISTING_FEE'' ''Listing fee for new listing'' a1
                     in if paid then (Inr True, a2) else (Inl FeeFailed, a2))))"

definition new_listing ::
  "ah_env \<Rightarrow> string \<Rightarrow> string \<Rightarrow> int \<Rightarrow> rat \<Rightarrow> rat option \<Rightarrow> int option \<Rightarrow> string option \<Rightarrow> listing_extra \<Rightarrow> bool \<Rightarrow> listing" where
  "new_listing env seller item count start_price buy_now_price duration_hours signed_name extra simulated =
     (let cfg = en_cfg env;
          hours0 = (case duration_hours of None \<Rightarrow> cf_duration_default cfg | Some h \<Rightarrow> h);
          hours = (if hours0 > cf_duration_max cfg then cf_duration_max cfg else hours0)
      in \<lparr>al_seller = seller, al_item = item, al_count = count, al_signed_name = signed_name, al_extra = extra,
          al_simulated = simulated, al_start_price = start_price, al_current_bid = None,
          al_buy_now_price = buy_now_price, al_highest_bidder = None, al_bids_count = 0, al_status = LActive,
          al_listed_at = en_now env, al_expires_at = Some (en_now env + 3600 * of_int hours),
          al_sold_at = None, al_sold_price = None, al_stale_since = None\<rparr>)"

text \<open>The result is the UUID, whether the item was taken, and whether a fee was deducted.\<close>

definition list_item ::
  "ah_env \<Rightarrow> string \<Rightarrow> string \<Rightarrow> int \<Rightarrow> rat \<Rightarrow> rat option \<Rightarrow> int option \<Rightarrow> string option \<Rightarrow> listing_extra \<Rightarrow> bool \<Rightarrow> ah
     \<Rightarrow> (ah_error + string \<times> bool \<times> bool) \<times> ah" where
  "list_item env seller item count start_price buy_now_price duration_hours signed_name extra simulated a =
     (case list_checks env seller item start_price buy_now_price simulated a of
        (Some err, a1) \<Rightarrow> (Inl err, a1)
      | (None, a1) \<Rightarrow>
          (case pay_listing_fee env seller simulated a1 of
             (Inl err, a2) \<Rightarrow> (Inl err, a2)
           | (Inr fee_deducted, a2) \<Rightarrow>
               (case insert_listing env (new_listing env seller item count start_price buy_now_price duration_hours
                                           signed_name extra simulated) a2 of
                  Inl err \<Rightarrow> (Inl (Raised err), a2)
                | Inr a3 \<Rightarrow>
                    (let a4 = record_tx (en_now env) (en_uuid env) (if simulated then TxSimList else TxList) seller item
                                count (Some start_price) None NoMeta a3;
                         (clear_ok, a5) = take_item env simulated seller item count a4
                     in (Inr (en_uuid env, clear_ok, fee_deducted), fire_hook (OnListingCreated (en_uuid env)) a5)))))"

section \<open>Bidding\<close>

definition base_price :: "listing \<Rightarrow> rat" where
  "base_price l = (if truthy (al_current_bid l) then the (al_current_bid l) else al_start_price l)"

definition min_bid :: "ah_env \<Rightarrow> listing \<Rightarrow> rat" where
  "min_bid env l = base_price l + base_price l * (cf_min_bid_increment_pct (en_cfg env) / 100)"

text \<open>The reading phase yields the listing the rest of the call works with.\<close>

definition bid_read :: "ah_env \<Rightarrow> string \<Rightarrow> string \<Rightarrow> rat \<Rightarrow> ah \<Rightarrow> (ah_error + listing) \<times> ah" where
  "bid_read env bidder uuid amount a =
     (if is_player_banned (en_now env) bidder a then (Inl Banned, a)
      else (let (funds, a1) = check_eco_balance env bidder (py_trunc amount) a
            in if \<not> funds then (Inl NoFunds, a1)
               else (case row_at uuid (ah_listings a1) of
                       None \<Rightarrow> (Inl ListingUnknown, a1)
                     | Some l \<Rightarrow>
                         if al_status l \<noteq> LActive then (Inl (NotActive (al_status l)), a1)
                         else if (case al_expires_at l of None \<Rightarrow> False | Some t \<Rightarrow> en_now env > t) then (Inl AuctionOver, a1)
                         else if al_seller l = bidder then (Inl OwnItem, a1)
                         else if amount < min_bid env l then (Inl (BidTooLow (min_bid env l)), a1)
                         else (Inr l, a1))))"

text \<open>The condition of the atomic update.\<close>

definition bid_accepted :: "rat \<Rightarrow> listing \<Rightarrow> bool" where
  "bid_accepted amount l = (al_status l = LActive \<and> (case al_current_bid l of None \<Rightarrow> True | Some c \<Rightarrow> c < amount))"

definition update_listing :: "string \<Rightarrow> (listing \<Rightarrow> listing) \<Rightarrow> ah \<Rightarrow> ah" where
  "update_listing uuid f a = set_listings (update_row uuid f (ah_listings a)) a"

definition raise_bid :: "string \<Rightarrow> rat \<Rightarrow> listing \<Rightarrow> listing" where
  "raise_bid bidder amount l =
     l\<lparr>al_current_bid := Some amount, al_highest_bidder := Some bidder, al_bids_count := al_bids_count l + 1,
       al_stale_since := None\<rparr>"

text \<open>Undoing a bid whose escrow failed, in the terms of the listing \<open>l0\<close> read before it.\<close>

definition revert_bid :: "rat \<Rightarrow> string \<Rightarrow> listing \<Rightarrow> listing \<Rightarrow> listing" where
  "revert_bid now bidder l0 l =
     (if al_highest_bidder l \<noteq> Some bidder then l
      else l\<lparr>al_current_bid := Some (base_price l0), al_highest_bidder := al_highest_bidder l0,
             al_bids_count := al_bids_count l - 1,
             al_stale_since := (case al_highest_bidder l0 of None \<Rightarrow> None | Some b \<Rightarrow> if b = [] then None else Some now)\<rparr>)"

definition refund_previous :: "ah_env \<Rightarrow> listing \<Rightarrow> ah \<Rightarrow> ah" where
  "refund_previous env l0 a =
     (case al_highest_bidder l0 of
        Some p \<Rightarrow>
          if p \<noteq> [] \<and> truthy (al_current_bid l0)
          then snd (eco_credit env p (py_trunc (the (al_current_bid l0))) ''AH_BID_REFUND'' ''Outbid refund'' a)
          else a
      | None \<Rightarrow> a)"

definition bid_commit ::
  "ah_env \<Rightarrow> string \<Rightarrow> string \<Rightarrow> rat \<Rightarrow> listing \<Rightarrow> ah \<Rightarrow> (ah_error + rat \<times> string option) \<times> ah" where
  "bid_commit env bidder uuid amount l0 a =
     (case row_at uuid (ah_listings a) of
        None \<Rightarrow> (Inl BidNotAccepted, a)
      | Some l \<Rightarrow>
          if \<not> bid_accepted amount l
          then (Inl (if al_status l \<noteq> LActive then NotActive (al_status l) else BidNotAccepted), a)
          else (let a1 = update_listing uuid (raise_bid bidder amount) a;
                    (escrowed, a2) = eco_deduct env bidder (py_trunc amount) ''AH_BID_ESCROW'' ''Bid escrow'' a1
                in if \<not> escrowed then (Inl EscrowFailed, update_listing uuid (revert_bid (en_now env) bidder l0) a2)
                   else (let a3 = refund_previous env l0 a2
                         in (Inr (amount, al_highest_bidder l0),
                             record_tx (en_now env) uuid TxBid bidder (al_item l0) (al_count l0) (Some amount)
                               (Some (base_price l0)) NoMeta a3))))"

definition place_bid :: "ah_env \<Rightarrow> string \<Rightarrow> string \<Rightarrow> rat \<Rightarrow> ah \<Rightarrow> (ah_error + rat \<times> string option) \<times> ah" where
  "place_bid env bidder uuid amount a =
     (case bid_read env bidder uuid amount a of
        (Inl err, a1) \<Rightarrow> (Inl err, a1)
      | (Inr l0, a1) \<Rightarrow> bid_commit env bidder uuid amount l0 a1)"

section \<open>Buying\<close>

definition buy_read :: "ah_env \<Rightarrow> string \<Rightarrow> string \<Rightarrow> int \<Rightarrow> ah \<Rightarrow> (ah_error + listing) \<times> ah" where
  "buy_read env buyer uuid quantity a =
     (if is_player_banned (en_now env) buyer a then (Inl Banned, a)
      else (case row_at uuid (ah_listings a) of
              None \<Rightarrow> (Inl ListingUnknown, a)
            | Some l \<Rightarrow>
                (let (funds, a1) = (if truthy (al_buy_now_price l)
                       then check_eco_balance env buyer (py_trunc (the (al_buy_now_price l) * of_int quantity)) a
                       else (True, a))
                 in if \<not> funds then (Inl NoFunds, a1)
                    else if al_status l \<noteq> LActive then (Inl (NotActive (al_status l)), a1)
                    else if \<not> truthy (al_buy_now_price l) then (Inl NoBuyNow, a1)
                    else if al_seller l = buyer then (Inl OwnItem, a1)
                    else if quantity > al_count l then (Inl (OnlyAvailable (al_count l)), a1)
                    else (Inr l, a1))))"

definition sale_price :: "listing \<Rightarrow> int \<Rightarrow> rat" where
  "sale_price l quantity = the (al_buy_now_price l) * of_int quantity"

definition sale_fee :: "ah_env \<Rightarrow> listing \<Rightarrow> int \<Rightarrow> rat" where
  "sale_fee env l quantity = sale_price l quantity * (cf_sale_fee_pct (en_cfg env) / 100)"

definition close_sale :: "rat \<Rightarrow> string \<Rightarrow> rat \<Rightarrow> listing \<Rightarrow> listing" where
  "close_sale now buyer price l =
     l\<lparr>al_status := LSold, al_sold_at := Some now, al_sold_price := Some price, al_highest_bidder := Some buyer,
       al_current_bid := Some price\<rparr>"

definition reopen_sale :: "listing \<Rightarrow> listing \<Rightarrow> listing" where
  "reopen_sale l0 l =
     l\<lparr>al_status := LActive, al_sold_at := None, al_sold_price := None, al_highest_bidder := None,
       al_current_bid := Some (base_price l0)\<rparr>"

text \<open>A part of the stack only lowers the count; the whole stack is claimed by the atomic update.\<close>

definition buy_claim :: "ah_env \<Rightarrow> string \<Rightarrow> string \<Rightarrow> int \<Rightarrow> listing \<Rightarrow> ah \<Rightarrow> ah option" where
  "buy_claim env buyer uuid quantity l0 a =
     (if quantity < al_count l0 then Some (update_listing uuid (\<lambda>l. l\<lparr>al_count := al_count l0 - quantity\<rparr>) a)
      else (case row_at uuid (ah_listings a) of
              None \<Rightarrow> None
            | Some l \<Rightarrow>
                if al_status l = LActive \<and> al_buy_now_price l \<noteq> None
                then Some (update_listing uuid (close_sale (en_now env) buyer (sale_price l0 quantity)) a)
                else None))"

definition count_event :: "rat \<Rightarrow> string \<Rightarrow> int \<Rightarrow> market_event \<Rightarrow> market_event" where
  "count_event now item quantity e =
     (case me_affected e of
        None \<Rightarrow> e
      | Some items \<Rightarrow>
          if \<not> me_active e \<or> item \<notin> set items then e
          else (let n = (case me_current_count e of None \<Rightarrow> 0 | Some k \<Rightarrow> k) + quantity;
                    e1 = e\<lparr>me_current_count := Some n\<rparr>
                in case me_goal_count e of
                     None \<Rightarrow> e1
                   | Some g \<Rightarrow> if g \<noteq> 0 \<and> n \<ge> g then e1\<lparr>me_active := False, me_ended_at := Some now\<rparr> else e1))"

definition update_event_progress :: "rat \<Rightarrow> string \<Rightarrow> int \<Rightarrow> ah \<Rightarrow> ah" where
  "update_event_progress now item quantity a =
     a\<lparr>ah_events := map (\<lambda>(k, e). (k, count_event now item quantity e)) (ah_events a)\<rparr>"

text \<open>The sale price, the seller's payout and the fee.\<close>

definition buy_commit ::
  "ah_env \<Rightarrow> string \<Rightarrow> string \<Rightarrow> int \<Rightarrow> listing \<Rightarrow> ah \<Rightarrow> (ah_error + rat \<times> rat \<times> rat) \<times> ah" where
  "buy_commit env buyer uuid quantity l0 a =
     (case buy_claim env buyer uuid quantity l0 a of
        None \<Rightarrow> (Inl AlreadyPurchased, a)
      | Some a1 \<Rightarrow>
          (let price = sale_price l0 quantity; fee = sale_fee env l0 quantity; payout = price - fee;
               (paid, a2) = eco_deduct env buyer (py_trunc price) ''AH_BIN_PURCHASE'' ''Purchase'' a1
           in if \<not> paid then (Inl PaymentFailed, update_listing uuid (reopen_sale l0) a2)
              else (let (credited, a3) = eco_credit env (al_seller l0) (py_trunc payout) ''AH_SALE_CREDIT'' ''Sale'' a2;
                        a4 = record_tx (en_now env) uuid TxBuy buyer (al_item l0) quantity (Some price) None
                               (BuyMeta payout fee paid credited) a3;
                        a5 = (if al_simulated l0 then update_event_progress (en_now env) (al_item l0) quantity a4 else a4);
                        a6 = snd (run_rcon env (RconGive buyer (al_item l0) quantity) a5)
                    in (Inr (price, payout, fee), fire_hook (OnPurchase uuid quantity) a6))))"

definition buy_now :: "ah_env \<Rightarrow> string \<Rightarrow> string \<Rightarrow> int \<Rightarrow> ah \<Rightarrow> (ah_error + rat \<times> rat \<times> rat) \<times> ah" where
  "buy_now env buyer uuid quantity a =
     (case buy_read env buyer uuid quantity a of
        (Inl err, a1) \<Rightarrow> (Inl err, a1)
      | (Inr l0, a1) \<Rightarrow> buy_commit env buyer uuid quantity l0 a1)"

section \<open>Cancelling\<close>

record cancelled =
  ca_item :: string
  ca_count :: int
  ca_had_bids :: bool
  ca_fee :: rat
  ca_fee_charged :: bool

definition cancel_ah_listing :: "ah_env \<Rightarrow> string \<Rightarrow> string \<Rightarrow> ah \<Rightarrow> (ah_error + cancelled) \<times> ah" where
  "cancel_ah_listing env player uuid a =
     (case row_at uuid (ah_listings a) of
        None \<Rightarrow> (Inl ListingUnknown, a)
      | Some l \<Rightarrow>
          if al_seller l \<noteq> player then (Inl NotTheSeller, a)
          else if al_status l \<noteq> LActive then (Inl (NotActive (al_status l)), a)
          else (let a1 = update_listing uuid (\<lambda>l. l\<lparr>al_status := LCancelled\<rparr>) a;
                    had_bids = al_bids_count l > 0;
                    fee = (if had_bids then cf_cancel_after_bids_fee (en_cfg env) else 0);
                    a2 = record_tx (en_now env) uuid TxCancel player (al_item l) (al_count l) (Some (base_price l)) None
                           (CancelMeta had_bids fee) a1;
                    a3 = snd (run_rcon env (RconGive player (al_item l) (al_count l)) a2);
                    (charged, a4) = (if had_bids \<and> cf_cancel_after_bids_fee (en_cfg env) > 0
                       then eco_deduct env player (py_trunc (cf_cancel_after_bids_fee (en_cfg env))) ''AH_CANCEL_FEE'' ''Cancel fee'' a3
                       else (False, a3))
                in (Inr \<lparr>ca_item = al_item l, ca_count = al_count l, ca_had_bids = had_bids, ca_fee = fee, ca_fee_charged = charged\<rparr>,
                    fire_hook (OnCancel uuid) a4)))"

section \<open>Expiry\<close>

datatype outcome = SoldTo string "rat option" | NoBids

definition is_due :: "rat \<Rightarrow> listing \<Rightarrow> bool" where
  "is_due now l = (al_status l = LActive \<and> (case al_expires_at l of None \<Rightarrow> False | Some t \<Rightarrow> t < now))"

definition winner_of :: "listing \<Rightarrow> string option" where
  "winner_of l =
     (if al_bids_count l > 0 then (case al_highest_bidder l of None \<Rightarrow> None | Some w \<Rightarrow> if w = [] then None else Some w) else None)"

definition expire_one :: "rat \<Rightarrow> string \<times> listing \<Rightarrow> ah \<Rightarrow> (string \<times> outcome) option \<times> ah" where
  "expire_one now = (\<lambda>(uuid, l0) a.
     (case row_at uuid (ah_listings a) of
        None \<Rightarrow> (None, a)
      | Some l \<Rightarrow>
          if al_status l \<noteq> LActive then (None, a)
          else (case winner_of l0 of
                  Some w \<Rightarrow>
                    (Some (uuid, SoldTo w (al_current_bid l0)),
                     record_tx now uuid TxExpire ''system'' (al_item l0) (al_count l0) (al_current_bid l0) None (ExpireMeta (Some w))
                       (update_listing uuid (\<lambda>l. l\<lparr>al_status := LSold, al_sold_at := Some now, al_sold_price := al_current_bid l0\<rparr>) a))
                | None \<Rightarrow>
                    (Some (uuid, NoBids),
                     record_tx now uuid TxExpire ''system'' (al_item l0) (al_count l0) None None (ExpireMeta None)
                       (update_listing uuid (\<lambda>l. l\<lparr>al_status := LExpired\<rparr>) a)))))"

fun expire_each :: "rat \<Rightarrow> (string \<times> listing) list \<Rightarrow> ah \<Rightarrow> (string \<times> outcome) list \<times> ah" where
  "expire_each now [] a = ([], a)"
| "expire_each now (d # ds) a =
     (let (r, a1) = expire_one now d a; (rs, a2) = expire_each now ds a1
      in (case r of None \<Rightarrow> rs | Some x \<Rightarrow> x # rs, a2))"

definition expire_listings :: "rat \<Rightarrow> ah \<Rightarrow> (string \<times> outcome) list \<times> ah" where
  "expire_listings now a = expire_each now (filter (\<lambda>(u, l). is_due now l) (ah_listings a)) a"

section \<open>Queries\<close>

definition contains_like :: "string \<Rightarrow> string \<Rightarrow> bool" where
  "contains_like v s = like (CHR ''%'' # v @ ''%'') s"

definition starts_with :: "string \<Rightarrow> string \<Rightarrow> bool" where
  "starts_with p s = (take (length p) s = p)"

definition query_filter :: "string \<Rightarrow> string \<Rightarrow> ah \<Rightarrow> listing \<Rightarrow> bool" where
  "query_filter ftype v a l =
     (if ftype = ''my'' \<and> v \<noteq> [] then al_seller l = v
      else if starts_with ''item:'' ftype \<or> (ftype = ''item'' \<and> v \<noteq> []) then contains_like v (al_item l)
      else if starts_with ''player:'' ftype \<or> (ftype = ''player'' \<and> v \<noteq> []) then contains_like v (al_seller l)
      else if starts_with ''category:'' ftype \<or> (ftype = ''category'' \<and> v \<noteq> []) then
        (let items = map fst (filter (\<lambda>(i, c). c = v) (ah_categories a)) in items = [] \<or> al_item l \<in> set items)
      else if ftype = ''simulated'' then al_simulated l
      else if ftype = ''player'' then \<not> al_simulated l
      else True)"

text \<open>\<open>_format_time_remaining\<close>.\<close>

definition format_time_remaining :: "rat \<Rightarrow> rat option \<Rightarrow> string option" where
  "format_time_remaining now expires_at =
     (case expires_at of
        None \<Rightarrow> None
      | Some t \<Rightarrow>
          Some (if now \<ge> t then ''Ended''
                else (let secs = py_trunc (t - now); hours = secs div 3600; minutes = (secs mod 3600) div 60
                      in if secs < 60 then ''<1m''
                         else if hours > 0 then str_int hours @ ''h '' @ str_int minutes @ ''m''
                         else str_int minutes @ ''m'')))"

definition time_remaining :: "rat \<Rightarrow> listing \<Rightarrow> string option" where
  "time_remaining now l = (if al_status l = LActive then format_time_remaining now (al_expires_at l) else None)"

record page =
  pg_listings :: "((string \<times> listing) \<times> string option) list"
  pg_total :: nat
  pg_page :: int
  pg_per_page :: int
  pg_total_pages :: int

text \<open>\<open>LIMIT\<close> and \<open>OFFSET\<close>: a negative limit is none, a negative offset is 0.  The newest listing
  comes first; the order among equal times is the table's.\<close>

definition limited :: "int \<Rightarrow> int \<Rightarrow> 'a list \<Rightarrow> 'a list" where
  "limited limit offset xs = (let ys = drop (nat offset) xs in if limit < 0 then ys else take (nat limit) ys)"

definition newest_first :: "(string \<times> listing) list \<Rightarrow> (string \<times> listing) list" where
  "newest_first t = sort_key (\<lambda>(u, l). - al_listed_at l) t"

definition query_listings :: "rat \<Rightarrow> string \<Rightarrow> string \<Rightarrow> int \<Rightarrow> int \<Rightarrow> bool \<Rightarrow> ah \<Rightarrow> page" where
  "query_listings now ftype v page_no per_page include_inactive a =
     (let per = min per_page 50; offset = (page_no - 1) * per;
          hits = filter (\<lambda>(u, l). (include_inactive \<or> al_status l = LActive) \<and> query_filter ftype v a l) (ah_listings a)
      in \<lparr>pg_listings = map (\<lambda>(u, l). ((u, l), time_remaining now l)) (limited per offset (newest_first hits)),
          pg_total = length hits, pg_page = page_no, pg_per_page = per,
          pg_total_pages = (if per > 0 then - ((- int (length hits)) div per) else 0)\<rparr>)"

definition get_listing :: "string \<Rightarrow> ah \<Rightarrow> listing option" where
  "get_listing uuid a = row_at uuid (ah_listings a)"

definition get_player_listings :: "rat \<Rightarrow> string \<Rightarrow> bool \<Rightarrow> ah \<Rightarrow> ((string \<times> listing) \<times> string option) list" where
  "get_player_listings now player active_only a =
     map (\<lambda>(u, l). ((u, l), time_remaining now l))
       (newest_first (filter (\<lambda>(u, l). al_seller l = player \<and> (\<not> active_only \<or> al_status l = LActive)) (ah_listings a)))"

definition newest_txs :: "int \<Rightarrow> ah_tx list \<Rightarrow> ah_tx list" where
  "newest_txs limit txs = limited limit 0 (sort_key (\<lambda>t. - tx_time t) txs)"

text \<open>The left join adds seller and item of the listing.\<close>

definition get_player_purchases :: "string \<Rightarrow> int \<Rightarrow> ah \<Rightarrow> (ah_tx \<times> (string \<times> string) option) list" where
  "get_player_purchases player limit a =
     map (\<lambda>t. (t, map_option (\<lambda>l. (al_seller l, al_item l)) (row_at (tx_listing t) (ah_listings a))))
       (newest_txs limit (filter (\<lambda>t. tx_actor t = player \<and> tx_kind t = TxBuy) (ah_txs a)))"

text \<open>\<open>NULL\<close> sorts lowest, so last in descending order; a sold listing has a time.\<close>

definition get_player_sales :: "string \<Rightarrow> int \<Rightarrow> ah \<Rightarrow> (string \<times> listing) list" where
  "get_player_sales player limit a =
     (let hits = filter (\<lambda>(u, l). al_seller l = player \<and> al_status l = LSold) (ah_listings a);
          dated = sort_key (\<lambda>(u, l). - the (al_sold_at l)) (filter (\<lambda>(u, l). al_sold_at l \<noteq> None) hits)
      in limited limit 0 (dated @ filter (\<lambda>(u, l). al_sold_at l = None) hits))"

definition get_bid_history :: "string \<Rightarrow> int \<Rightarrow> ah \<Rightarrow> ah_tx list" where
  "get_bid_history uuid limit a = newest_txs limit (filter (\<lambda>t. tx_listing t = uuid \<and> tx_kind t = TxBid) (ah_txs a))"

definition get_recent_prices :: "rat \<Rightarrow> string \<Rightarrow> int \<Rightarrow> ah \<Rightarrow> (rat option \<times> rat \<times> int) list" where
  "get_recent_prices now item days a =
     map (\<lambda>t. (tx_price t, tx_time t, tx_count t))
       (newest_txs 50 (filter (\<lambda>t. tx_item t = item \<and> tx_kind t = TxBuy \<and> tx_time t > now - 86400 * of_int days) (ah_txs a)))"

section \<open>Balances\<close>

definition get_balance :: "ah_env \<Rightarrow> string \<Rightarrow> bool \<Rightarrow> ah \<Rightarrow> int option \<times> ah" where
  "get_balance env player use_bridge a =
     (let (from_bridge, a1) =
            (case en_bridge env of
               Some b \<Rightarrow>
                 if use_bridge
                 then (let (bal, e) = bridge_get_balance b (en_stamp env) player (ah_eco a) in (bal, a\<lparr>ah_eco := e\<rparr>))
                 else (None, a)
             | None \<Rightarrow> (None, a))
      in case from_bridge of
           Some n \<Rightarrow> (Some n, a1)
         | None \<Rightarrow> (map_option (\<lambda>r. py_trunc (br_balance r)) (row_at player (ah_balances a1)), a1))"

text \<open>The wallet is moved first; the internal row then follows the wallet if that succeeded.\<close>

definition update_balance :: "ah_env \<Rightarrow> string \<Rightarrow> int \<Rightarrow> string \<Rightarrow> ah \<Rightarrow> int \<times> ah" where
  "update_balance env player delta reason a =
     (let (moved, e1) =
            (case en_bridge env of
               None \<Rightarrow> (False, ah_eco a)
             | Some b \<Rightarrow>
                 if delta < 0 then bridge_deduct b (en_stamp env) player (- delta) (reason @ ''_DEDUCT'') (''Auction House '' @ reason) (ah_eco a)
                 else if delta > 0 then bridge_credit b (en_stamp env) player delta (reason @ ''_CREDIT'') (''Auction House '' @ reason) (ah_eco a)
                 else (False, ah_eco a));
          a1 = a\<lparr>ah_eco := e1\<rparr>
      in case row_at player (ah_balances a1) of
           Some r \<Rightarrow>
             (let own = py_trunc (br_balance r) + delta;
                  (new_balance, e2) =
                    (case en_bridge env of
                       Some b \<Rightarrow>
                         if moved then (let (bal, e) = bridge_get_balance b (en_stamp env) player e1
                                        in (case bal of Some n \<Rightarrow> if n = 0 then own else n | None \<Rightarrow> own, e))
                         else (own, e1)
                     | None \<Rightarrow> (own, e1));
                  earned = py_trunc (br_earned r) + (if delta > 0 then delta else 0);
                  spent = py_trunc (br_spent r) + (if delta > 0 then 0 else abs delta)
              in (new_balance, a1\<lparr>ah_eco := e2, ah_balances := update_row player (\<lambda>_. \<lparr>br_balance = of_int new_balance,
                    br_earned = of_int earned, br_spent = of_int spent, br_updated = en_now env\<rparr>) (ah_balances a1)\<rparr>))
         | None \<Rightarrow>
             (delta, a1\<lparr>ah_balances := ah_balances a1 @ [(player, \<lparr>br_balance = of_int delta,
                br_earned = of_int (if delta > 0 then delta else 0), br_spent = of_int (if delta < 0 then abs delta else 0),
                br_updated = en_now env\<rparr>)]\<rparr>))"

record sync_result =
  sy_checked :: nat
  sy_mismatches :: "(string \<times> int \<times> int) list"
  sy_fixed :: nat

fun sync_each :: "ah_env \<Rightarrow> bridge \<Rightarrow> bool \<Rightarrow> (string \<times> balance_row) list \<Rightarrow> sync_result \<Rightarrow> ah \<Rightarrow> sync_result \<times> ah" where
  "sync_each env b force [] res a = (res, a)"
| "sync_each env b force ((player, r) # rows) res a =
     (let (bal, e) = bridge_get_balance b (en_stamp env) player (ah_eco a); a1 = a\<lparr>ah_eco := e\<rparr>
      in (case bal of
            None \<Rightarrow> sync_each env b force rows res a1
          | Some n \<Rightarrow>
              (let own = py_trunc (br_balance r); res1 = res\<lparr>sy_checked := sy_checked res + 1\<rparr>
               in if own = n then sync_each env b force rows res1 a1
                  else (let res2 = res1\<lparr>sy_mismatches := sy_mismatches res1 @ [(player, own, n)]\<rparr>
                        in if force
                           then sync_each env b force rows (res2\<lparr>sy_fixed := sy_fixed res2 + 1\<rparr>)
                                  (a1\<lparr>ah_balances := update_row player (\<lambda>r. r\<lparr>br_balance := of_int n, br_updated := en_now env\<rparr>) (ah_balances a1)\<rparr>)
                           else sync_each env b force rows res2 a1))))"

text \<open>The statistics query that follows a forced synchronisation only feeds a counter.\<close>

definition sync_balances :: "ah_env \<Rightarrow> bool \<Rightarrow> ah \<Rightarrow> sync_result option \<times> ah" where
  "sync_balances env force a =
     (case en_bridge env of
        None \<Rightarrow> (None, a)
      | Some b \<Rightarrow>
          (let (res, a1) = sync_each env b force (ah_balances a) \<lparr>sy_checked = 0, sy_mismatches = [], sy_fixed = 0\<rparr> a
           in (Some res, a1)))"

end
