(* ===== verification/AuctionSafety.thy ===== *)
theory AuctionSafety
  imports AuctionHouse
begin

text \<open>
  What the auction house guarantees: how a listing may develop under any interleaving of the
  phases of its calls, where every listed unit ends up, and what a bid does to the coins.
\<close>

section \<open>What leaves the listings and the history alone\<close>

named_theorems keeps_listings

lemma check_keeps [keeps_listings]: "ah_listings (snd (check_eco_balance env p n a)) = ah_listings a"
  by (simp add: check_eco_balance_def split: option.split prod.split)

lemma deduct_keeps [keeps_listings]: "ah_listings (snd (eco_deduct env p n r m a)) = ah_listings a"
  by (simp add: eco_deduct_def split: option.split prod.split)

lemma credit_keeps [keeps_listings]: "ah_listings (snd (eco_credit env p n r m a)) = ah_listings a"
  by (simp add: eco_credit_def split: option.split prod.split)

lemma record_keeps [keeps_listings]: "ah_listings (record_tx now u k ac it n p q m a) = ah_listings a"
  by (simp add: record_tx_def)

lemma rcon_keeps [keeps_listings]: "ah_listings (snd (run_rcon env c a)) = ah_listings a"
  by (simp add: run_rcon_def split: option.split)

lemma hook_keeps [keeps_listings]: "ah_listings (fire_hook h a) = ah_listings a"
  by (simp add: fire_hook_def)

lemma refund_keeps [keeps_listings]: "ah_listings (refund_previous env l a) = ah_listings a"
  by (simp add: refund_previous_def keeps_listings split: option.split)

lemma events_keep [keeps_listings]: "ah_listings (update_event_progress now it n a) = ah_listings a"
  by (simp add: update_event_progress_def)

lemma take_keeps [keeps_listings]: "ah_listings (snd (take_item env sim s it n a)) = ah_listings a"
  by (simp add: take_item_def split_beta keeps_listings)

lemma set_listings_eq [keeps_listings]: "ah_listings (set_listings t a) = t"
  by (simp add: set_listings_def)

lemma update_listing_eq [keeps_listings]: "ah_listings (update_listing u f a) = update_row u f (ah_listings a)"
  by (simp add: update_listing_def keeps_listings)

lemma checks_keep [keeps_listings]: "ah_listings (snd (list_checks env s it p b sim a)) = ah_listings a"
  by (simp add: list_checks_def split_beta keeps_listings)

lemma fee_keeps [keeps_listings]: "ah_listings (snd (pay_listing_fee env s sim a)) = ah_listings a"
  by (simp add: pay_listing_fee_def split_beta keeps_listings)

lemma bid_read_keeps [keeps_listings]: "ah_listings (snd (bid_read env b u n a)) = ah_listings a"
  by (simp add: bid_read_def split_beta keeps_listings split: option.split)

lemma buy_read_keeps [keeps_listings]: "ah_listings (snd (buy_read env b u n a)) = ah_listings a"
  by (simp add: buy_read_def split_beta keeps_listings split: option.split)

named_theorems keeps_txs

lemma check_txs [keeps_txs]: "ah_txs (snd (check_eco_balance env p n a)) = ah_txs a"
  by (simp add: check_eco_balance_def split: option.split prod.split)

lemma deduct_txs [keeps_txs]: "ah_txs (snd (eco_deduct env p n r m a)) = ah_txs a"
  by (simp add: eco_deduct_def split: option.split prod.split)

lemma credit_txs [keeps_txs]: "ah_txs (snd (eco_credit env p n r m a)) = ah_txs a"
  by (simp add: eco_credit_def split: option.split prod.split)

lemma rcon_txs [keeps_txs]: "ah_txs (snd (run_rcon env c a)) = ah_txs a"
  by (simp add: run_rcon_def split: option.split)

lemma other_txs [keeps_txs]:
  "ah_txs (fire_hook h a) = ah_txs a" "ah_txs (update_event_progress now it n a) = ah_txs a"
  "ah_txs (set_listings t a) = ah_txs a" "ah_txs (update_listing u f a) = ah_txs a"
  by (simp_all add: fire_hook_def update_event_progress_def set_listings_def update_listing_def)

lemma refund_txs [keeps_txs]: "ah_txs (refund_previous env l a) = ah_txs a"
  by (simp add: refund_previous_def keeps_txs split: option.split)

lemma take_txs [keeps_txs]: "ah_txs (snd (take_item env sim s it n a)) = ah_txs a"
  by (simp add: take_item_def split_beta keeps_txs)

lemma list_checks_txs [keeps_txs]: "ah_txs (snd (list_checks env s it p b sim a)) = ah_txs a"
  by (simp add: list_checks_def split_beta keeps_txs)

lemma fee_txs [keeps_txs]: "ah_txs (snd (pay_listing_fee env s sim a)) = ah_txs a"
  by (simp add: pay_listing_fee_def split_beta keeps_txs)

lemma read_txs [keeps_txs]: "ah_txs (snd (bid_read env b u n a)) = ah_txs a" "ah_txs (snd (buy_read env b u q a)) = ah_txs a"
  by (simp_all add: bid_read_def buy_read_def split_beta keeps_txs split: option.split)

section \<open>What each operation does to the listings\<close>

lemma list_item_listings:
  obtains "ah_listings (snd (list_item env s it n p b d sg x sim a)) = ah_listings a"
    and "ah_txs (snd (list_item env s it n p b d sg x sim a)) = ah_txs a"
  | l t where "row_at (en_uuid env) (ah_listings a) = None" and "al_status l = LActive" and "al_count l = n"
    and "ah_listings (snd (list_item env s it n p b d sg x sim a)) = ah_listings a @ [(en_uuid env, l)]"
    and "ah_txs (snd (list_item env s it n p b d sg x sim a)) = ah_txs a @ [t]"
    and "tx_kind t = TxList \<or> tx_kind t = TxSimList" and "tx_count t = n" and "tx_listing t = en_uuid env"
proof -
  let ?l = "new_listing env s it n p b d sg x sim"
  obtain e1 a1 where c: "list_checks env s it p b sim a = (e1, a1)" by force
  obtain e2 a2 where f: "pay_listing_fee env s sim a1 = (e2, a2)" by force
  have k: "ah_listings a1 = ah_listings a" "ah_listings a2 = ah_listings a" "ah_txs a1 = ah_txs a" "ah_txs a2 = ah_txs a"
    using checks_keep [of env s it p b sim a] fee_keeps [of env s sim a1]
      list_checks_txs [of env s it p b sim a] fee_txs [of env s sim a1] c f by simp_all
  have l: "al_status ?l = LActive" "al_count ?l = n" by (simp_all add: new_listing_def)
  show ?thesis
  proof (cases "e1 = None \<and> (\<exists>fee. e2 = Inr fee) \<and> row_at (en_uuid env) (ah_listings a) = None")
    case True
    let ?t = "\<lparr>tx_listing = en_uuid env, tx_kind = (if sim then TxSimList else TxList), tx_actor = s, tx_item = it,
      tx_count = n, tx_price = Some p, tx_previous = None, tx_meta_data = NoMeta, tx_time = en_now env\<rparr>"
    show ?thesis using c f k True
      by (intro that(2) [of ?l ?t, OF _ l])
        (auto simp: list_item_def insert_listing_def insert_row_def record_tx_def split_beta keeps_listings keeps_txs)
  next
    case False
    then show ?thesis using c f k
      by (intro that(1))
        (auto simp: list_item_def insert_listing_def insert_row_def split: option.split sum.split)
  qed
qed

lemma bid_commit_listings:
  "ah_listings (snd (bid_commit env b u n l0 a)) =
   (case row_at u (ah_listings a) of
      None \<Rightarrow> ah_listings a
    | Some l \<Rightarrow> if bid_accepted n l then update_row u (raise_bid b n) (ah_listings a) else ah_listings a)"
  by (simp add: bid_commit_def split_beta keeps_listings split: option.split)

lemma buy_commit_listings:
  "ah_listings (snd (buy_commit env b u q l0 a)) =
   (case buy_claim env b u q l0 a of None \<Rightarrow> ah_listings a | Some a1 \<Rightarrow> ah_listings a1)"
  by (simp add: buy_commit_def split_beta keeps_listings split: option.split)

lemma cancel_listings:
  "ah_listings (snd (cancel_ah_listing env p u a)) =
   (case row_at u (ah_listings a) of
      None \<Rightarrow> ah_listings a
    | Some l \<Rightarrow> if al_seller l = p \<and> al_status l = LActive
        then update_row u (\<lambda>l. l\<lparr>al_status := LCancelled\<rparr>) (ah_listings a) else ah_listings a)"
  by (simp add: cancel_ah_listing_def split_beta keeps_listings split: option.split)

lemma expire_one_listings:
  "ah_listings (snd (expire_one now (u, l0) a)) =
   (case row_at u (ah_listings a) of
      None \<Rightarrow> ah_listings a
    | Some l \<Rightarrow> if al_status l \<noteq> LActive then ah_listings a
        else update_row u (\<lambda>l. if winner_of l0 = None then l\<lparr>al_status := LExpired\<rparr>
          else l\<lparr>al_status := LSold, al_sold_at := Some now, al_sold_price := al_current_bid l0\<rparr>) (ah_listings a))"
  by (simp add: expire_one_def keeps_listings split: option.split)
section \<open>Interleaved calls\<close>

text \<open>Calls that have read their listing and not yet written; an expiry run has a due listing each.\<close>

datatype pending =
    PendBid ah_env string string rat listing
  | PendBuy ah_env string string int listing
  | PendExpire rat string listing

inductive ah_step :: "ah \<times> pending list \<Rightarrow> ah \<times> pending list \<Rightarrow> bool" where
  do_list: "ah_step (a, ps) (snd (list_item env s it n p b d sg x sim a), ps)"
| start_bid: "bid_read env b u n a = (Inr l, a') \<Longrightarrow> ah_step (a, ps) (a', PendBid env b u n l # ps)"
| refuse_bid: "bid_read env b u n a = (Inl err, a') \<Longrightarrow> ah_step (a, ps) (a', ps)"
| end_bid: "PendBid env b u n l \<in> set ps \<Longrightarrow>
    ah_step (a, ps) (snd (bid_commit env b u n l a), remove1 (PendBid env b u n l) ps)"
| start_buy: "buy_read env b u q a = (Inr l, a') \<Longrightarrow> ah_step (a, ps) (a', PendBuy env b u q l # ps)"
| refuse_buy: "buy_read env b u q a = (Inl err, a') \<Longrightarrow> ah_step (a, ps) (a', ps)"
| end_buy: "PendBuy env b u q l \<in> set ps \<Longrightarrow>
    ah_step (a, ps) (snd (buy_commit env b u q l a), remove1 (PendBuy env b u q l) ps)"
| do_cancel: "ah_step (a, ps) (snd (cancel_ah_listing env p u a), ps)"
| start_expire: "ah_step (a, ps) (a, map (\<lambda>(u, l). PendExpire now u l) (filter (\<lambda>(u, l). is_due now l) (ah_listings a)) @ ps)"
| end_expire: "PendExpire now u l \<in> set ps \<Longrightarrow>
    ah_step (a, ps) (snd (expire_one now (u, l) a), remove1 (PendExpire now u l) ps)"
| do_ban: "ah_step (a, ps) (ban_player now p r by d a, ps)"
| do_unban: "ah_step (a, ps) (unban_player p a, ps)"
| do_balance: "ah_step (a, ps) (snd (update_balance env p n r a), ps)"

inductive_cases ah_stepE: "ah_step (a, ps) (a', ps')"

text \<open>How a listing may develop: its seller, item and prices are fixed; while it is on offer bids only
  rise; once it is closed its status, buyer, price and bids never change again.\<close>

definition advances :: "listing \<Rightarrow> listing \<Rightarrow> bool" where
  "advances l l' \<longleftrightarrow> al_seller l' = al_seller l \<and> al_item l' = al_item l \<and> al_start_price l' = al_start_price l \<and>
     al_buy_now_price l' = al_buy_now_price l \<and> al_bids_count l \<le> al_bids_count l' \<and>
     (if al_status l = LActive
      then al_status l' = LActive \<longrightarrow> (case al_current_bid l of None \<Rightarrow> True | Some c \<Rightarrow> \<exists>c'\<ge>c. al_current_bid l' = Some c')
      else al_status l' = al_status l \<and> al_highest_bidder l' = al_highest_bidder l \<and> al_current_bid l' = al_current_bid l \<and>
           al_sold_at l' = al_sold_at l \<and> al_sold_price l' = al_sold_price l \<and> al_bids_count l' = al_bids_count l)"

lemma advances_refl [simp]: "advances l l"
  by (simp add: advances_def split: option.split)

lemma advances_trans: "advances l l' \<Longrightarrow> advances l' l'' \<Longrightarrow> advances l l''"
  unfolding advances_def by (auto split: if_splits option.splits)

lemma advances_update:
  assumes "row_at u t = Some l" and "\<And>x. row_at u' t = Some x \<Longrightarrow> advances x (f x)"
  shows "\<exists>l'. row_at u (update_row u' f t) = Some l' \<and> advances l l'"
  using assms by (auto simp: sql.read_upd)

lemma listings_advance:
  assumes "row_at u (ah_listings a) = Some l"
  shows "\<exists>l'. row_at u (ah_listings (snd (list_item env s it n p bn d sg x sim a))) = Some l' \<and> advances l l'"
    and "\<exists>l'. row_at u (ah_listings (snd (bid_commit env b v m l0 a))) = Some l' \<and> advances l l'"
    and "\<exists>l'. row_at u (ah_listings (snd (buy_commit env b v q l0 a))) = Some l' \<and> advances l l'"
    and "\<exists>l'. row_at u (ah_listings (snd (cancel_ah_listing env p' v a))) = Some l' \<and> advances l l'"
    and "\<exists>l'. row_at u (ah_listings (snd (expire_one now (v, l0) a))) = Some l' \<and> advances l l'"
proof -
  show "\<exists>l'. row_at u (ah_listings (snd (list_item env s it n p bn d sg x sim a))) = Some l' \<and> advances l l'"
    by (rule list_item_listings [of env s it n p bn d sg x sim a], use assms in simp,
        cases "u = en_uuid env") (use assms in \<open>simp_all add: row_at_other\<close>)
  show "\<exists>l'. row_at u (ah_listings (snd (bid_commit env b v m l0 a))) = Some l' \<and> advances l l'"
    unfolding bid_commit_listings using assms
    by (auto split: option.split intro!: advances_update)
      (auto simp: advances_def raise_bid_def bid_accepted_def split: option.splits intro: less_imp_le)
  show "\<exists>l'. row_at u (ah_listings (snd (buy_commit env b v q l0 a))) = Some l' \<and> advances l l'"
    unfolding buy_commit_listings using assms
    by (auto simp: buy_claim_def keeps_listings split: option.split intro!: advances_update)
      (auto simp: advances_def close_sale_def split: option.splits)
  show "\<exists>l'. row_at u (ah_listings (snd (cancel_ah_listing env p' v a))) = Some l' \<and> advances l l'"
    unfolding cancel_listings using assms
    by (auto split: option.split intro!: advances_update) (auto simp: advances_def)
  show "\<exists>l'. row_at u (ah_listings (snd (expire_one now (v, l0) a))) = Some l' \<and> advances l l'"
    unfolding expire_one_listings using assms
    by (auto split: option.split intro!: advances_update) (auto simp: advances_def)
qed

lemma balance_keeps [keeps_listings]: "ah_listings (snd (update_balance env p n r a)) = ah_listings a"
  by (simp add: update_balance_def split_beta split: option.split)

lemma read_same:
  "bid_read env b u n a = (r, a') \<Longrightarrow> ah_listings a' = ah_listings a"
  "buy_read env b u q a = (r, a') \<Longrightarrow> ah_listings a' = ah_listings a"
  using bid_read_keeps [of env b u n a] buy_read_keeps [of env b u q a] by simp_all

lemma bans_keep [keeps_listings]:
  "ah_listings (ban_player now p r b d a) = ah_listings a" "ah_listings (unban_player p a) = ah_listings a"
  by (simp_all add: ban_player_def unban_player_def)

lemma step_advances:
  assumes "ah_step (a, ps) (a', ps')" and "row_at u (ah_listings a) = Some l"
  shows "\<exists>l'. row_at u (ah_listings a') = Some l' \<and> advances l l'"
proof -
  note adv = listings_advance [OF assms(2)]
  have same: ?thesis if "a = a'" using that assms(2) by auto
  from assms(1) show ?thesis
    by (elim ah_stepE) ((rule same, assumption)?, simp add: adv keeps_listings read_same assms(2))+
qed

text \<open>C30: under any interleaving of calls, also when bids, purchases and expiry runs act on listings
  they read long before, a listing never disappears, its terms never change, bids on it only rise
  while it is on offer, and once it is sold, cancelled or expired it stays so with the same buyer
  and price: no listing is sold twice.\<close>

theorem listings_only_advance:
  assumes "ah_step\<^sup>*\<^sup>* (a, ps) (a', ps')" and "row_at u (ah_listings a) = Some l"
  shows "\<exists>l'. row_at u (ah_listings a') = Some l' \<and> advances l l'"
  using assms
proof (induction "(a', ps')" arbitrary: a' ps' rule: rtranclp_induct)
  case base
  then show ?case by auto
next
  case (step y)
  obtain a1 ps1 where y: "y = (a1, ps1)" by force
  from step.hyps(3) [OF y step.prems] obtain l1 where l1: "row_at u (ah_listings a1) = Some l1" "advances l l1" by blast
  from step_advances [OF _ l1(1)] step.hyps(2) y obtain l2 where "row_at u (ah_listings a') = Some l2" "advances l1 l2" by blast
  then show ?case using advances_trans l1(2) by blast
qed

definition no_extra :: listing_extra where
  "no_extra = \<lparr>lx_item_nbt = None, lx_rarity = None, lx_cert_hash = None, lx_ai_weight = 1, lx_lore = None,
     lx_source_event = None, lx_enchantments = None, lx_durability = None, lx_quality_roll = None\<rparr>"

definition ah_example :: ah where
  "ah_example = \<lparr>ah_listings = [], ah_txs = [], ah_bans = [], ah_events = [], ah_categories = [], ah_balances = [],
     ah_eco = \<lparr>ec_net = [], ec_db = \<lparr>oo_wallets = [], oo_ledger = []\<rparr>\<rparr>, ah_rcon = [], ah_hooks = []\<rparr>"

definition env_example :: "rat \<Rightarrow> string \<Rightarrow> ah_env" where
  "env_example now u = \<lparr>en_cfg = default_config, en_now = now, en_stamp = [], en_uuid = u, en_bridge = None, en_rcon = None\<rparr>"

definition listed_example :: ah where
  "listed_example = snd (list_item (env_example 0 ''L1'') ''ann'' ''gem'' 5 2 (Some 4) None None no_extra False ah_example)"

theorem listings_only_advance_witness:
  "\<exists>l'. row_at ''L1'' (ah_listings (snd (cancel_ah_listing (env_example 1 []) ''ann'' ''L1'' listed_example))) = Some l' \<and>
     advances (the (row_at ''L1'' (ah_listings listed_example))) l'"
proof -
  have "ah_step\<^sup>*\<^sup>* (listed_example, []) (snd (cancel_ah_listing (env_example 1 []) ''ann'' ''L1'' listed_example), [])"
    by (intro r_into_rtranclp do_cancel)
  moreover have "row_at ''L1'' (ah_listings listed_example) \<noteq> None" by code_simp
  then have "row_at ''L1'' (ah_listings listed_example) = Some (the (row_at ''L1'' (ah_listings listed_example)))" by simp
  ultimately show ?thesis by (rule listings_only_advance)
qed

section \<open>Where the units go\<close>

text \<open>Units of a listing put up, and units that left it, by the transaction history; what is on offer.\<close>

definition tx_units :: "(tx_type \<Rightarrow> bool) \<Rightarrow> string \<Rightarrow> ah \<Rightarrow> int" where
  "tx_units P u a = sum_list (map tx_count (filter (\<lambda>t. P (tx_kind t) \<and> tx_listing t = u) (ah_txs a)))"

definition put_up :: "string \<Rightarrow> ah \<Rightarrow> int" where
  "put_up = tx_units (\<lambda>k. k = TxList \<or> k = TxSimList)"

definition gone :: "string \<Rightarrow> ah \<Rightarrow> int" where
  "gone = tx_units (\<lambda>k. k = TxBuy \<or> k = TxCancel \<or> k = TxExpire)"

definition on_offer :: "string \<Rightarrow> ah \<Rightarrow> int" where
  "on_offer u a = (case row_at u (ah_listings a) of None \<Rightarrow> 0 | Some l \<Rightarrow> if al_status l = LActive then al_count l else 0)"

definition units_balance :: "ah \<Rightarrow> bool" where
  "units_balance a \<longleftrightarrow> (\<forall>u. put_up u a = gone u a + on_offer u a)"

lemma units_balance_cong:
  "ah_txs a' = ah_txs a \<Longrightarrow> ah_listings a' = ah_listings a \<Longrightarrow> units_balance a' = units_balance a"
  by (simp add: units_balance_def put_up_def gone_def tx_units_def on_offer_def)

text \<open>A change of one listing that is matched by one transaction.\<close>

lemma units_one:
  assumes "units_balance a" and "ah_txs a' = ah_txs a @ [t]" and "tx_listing t = u"
    and "\<And>v. v \<noteq> u \<Longrightarrow> row_at v (ah_listings a') = row_at v (ah_listings a)"
    and "on_offer u a' = on_offer u a + (if tx_kind t = TxList \<or> tx_kind t = TxSimList then tx_count t else 0)
           - (if tx_kind t = TxBuy \<or> tx_kind t = TxCancel \<or> tx_kind t = TxExpire then tx_count t else 0)"
  shows "units_balance a'"
  unfolding units_balance_def
proof
  fix v
  have "put_up v a = gone v a + on_offer v a" using assms(1) by (simp add: units_balance_def)
  moreover have "on_offer v a' = on_offer v a" if "v \<noteq> u" using assms(4) [OF that] by (simp add: on_offer_def)
  ultimately show "put_up v a' = gone v a' + on_offer v a'"
    using assms(2,3,5) by (cases "v = u") (auto simp: put_up_def gone_def tx_units_def)
qed

lemma units_list_item: "units_balance a \<Longrightarrow> units_balance (snd (list_item env s it n p b d sg x sim a))"
proof (rule list_item_listings [of env s it n p b d sg x sim a])
  let ?a' = "snd (list_item env s it n p b d sg x sim a)"
  assume "units_balance a" and "ah_listings ?a' = ah_listings a" and "ah_txs ?a' = ah_txs a"
  then show "units_balance ?a'" using units_balance_cong by blast
next
  let ?a' = "snd (list_item env s it n p b d sg x sim a)"
  fix l t
  assume a: "units_balance a" and *: "row_at (en_uuid env) (ah_listings a) = None" "al_status l = LActive" "al_count l = n"
    "ah_listings ?a' = ah_listings a @ [(en_uuid env, l)]" "ah_txs ?a' = ah_txs a @ [t]"
    "tx_kind t = TxList \<or> tx_kind t = TxSimList" "tx_count t = n" "tx_listing t = en_uuid env"
  show "units_balance ?a'"
    by (rule units_one [OF a *(5,8)]) (use * in \<open>auto simp: on_offer_def row_at_other row_at_append\<close>)
qed

lemma units_bid_commit:
  assumes "units_balance a"
  shows "units_balance (snd (bid_commit env b u n l0 a))"
proof (cases "\<exists>l. row_at u (ah_listings a) = Some l \<and> bid_accepted n l")
  case False
  then have "snd (bid_commit env b u n l0 a) = a" by (auto simp: bid_commit_def split: option.split)
  then show ?thesis using assms by simp
next
  case True
  then obtain l where l: "row_at u (ah_listings a) = Some l" "bid_accepted n l" by blast
  let ?a' = "snd (bid_commit env b u n l0 a)"
  have "\<exists>t. ah_txs ?a' = ah_txs a @ [t] \<and> tx_kind t = TxBid \<and> tx_listing t = u"
    using l by (auto simp: bid_commit_def record_tx_def split_beta keeps_txs)
  then obtain t where t: "ah_txs ?a' = ah_txs a @ [t]" "tx_listing t = u" "tx_kind t = TxBid" by blast
  show ?thesis
    by (rule units_one [OF assms t(1,2)])
      (use l t in \<open>auto simp: bid_commit_listings sql.read_upd on_offer_def raise_bid_def bid_accepted_def\<close>)
qed

lemma bid_read_row:
  assumes "bid_read env b u n a = (Inr l, a')"
  shows "row_at u (ah_listings a) = Some l" and "al_status l = LActive" and "al_seller l \<noteq> b" and "min_bid env l \<le> n"
    and "ah_listings a' = ah_listings a" and "ah_txs a' = ah_txs a" and "\<not> is_player_banned (en_now env) b a"
proof -
  obtain f a1 where c: "check_eco_balance env b (py_trunc n) a = (f, a1)" by force
  then have k: "ah_listings a1 = ah_listings a" "ah_txs a1 = ah_txs a"
    using check_keeps [of env b "py_trunc n" a] check_txs [of env b "py_trunc n" a] by simp_all
  show "row_at u (ah_listings a) = Some l" and "al_status l = LActive" and "al_seller l \<noteq> b" and "min_bid env l \<le> n"
    and "ah_listings a' = ah_listings a" and "ah_txs a' = ah_txs a" and "\<not> is_player_banned (en_now env) b a"
    using assms c k by (auto simp: bid_read_def split: if_splits option.splits)
qed

lemma buy_read_row:
  assumes "buy_read env b u q a = (Inr l, a')"
  shows "row_at u (ah_listings a) = Some l" and "al_status l = LActive" and "al_seller l \<noteq> b" and "q \<le> al_count l"
    and "truthy (al_buy_now_price l)" and "ah_listings a' = ah_listings a" and "ah_txs a' = ah_txs a"
proof -
  have "row_at u (ah_listings a) = Some l \<and> al_status l = LActive \<and> al_seller l \<noteq> b \<and> q \<le> al_count l \<and> truthy (al_buy_now_price l)"
    using assms by (auto simp: buy_read_def split_beta split: if_splits option.splits)
  then show "row_at u (ah_listings a) = Some l" and "al_status l = LActive" and "al_seller l \<noteq> b" and "q \<le> al_count l"
    and "truthy (al_buy_now_price l)" by simp_all
  show "ah_listings a' = ah_listings a" and "ah_txs a' = ah_txs a"
    using buy_read_keeps [of env b u q a] read_txs(2) [of env b u q a] assms by simp_all
qed

lemma units_buy_commit:
  assumes "units_balance a" and l: "row_at u (ah_listings a) = Some l" "al_status l = LActive" "q \<le> al_count l" "truthy (al_buy_now_price l)"
  shows "units_balance (snd (buy_commit env b u q l a))"
proof -
  let ?a' = "snd (buy_commit env b u q l a)"
  have claim: "buy_claim env b u q l a = Some (update_listing u (if q < al_count l then (\<lambda>x. x\<lparr>al_count := al_count l - q\<rparr>)
      else close_sale (en_now env) b (sale_price l q)) a)"
    using l by (auto simp: buy_claim_def truthy_def)
  have "\<exists>t. ah_txs ?a' = ah_txs a @ [t] \<and> tx_kind t = TxBuy \<and> tx_listing t = u \<and> tx_count t = q"
    by (auto simp: buy_commit_def claim record_tx_def split_beta keeps_txs)
  then obtain t where t: "ah_txs ?a' = ah_txs a @ [t]" "tx_listing t = u" "tx_kind t = TxBuy" "tx_count t = q" by blast
  show ?thesis
    by (rule units_one [OF assms(1) t(1,2)])
      (use l t in \<open>auto simp: buy_commit_listings claim keeps_listings sql.read_upd on_offer_def close_sale_def\<close>)
qed

lemma units_cancel:
  assumes "units_balance a"
  shows "units_balance (snd (cancel_ah_listing env p u a))"
proof (cases "\<exists>l. row_at u (ah_listings a) = Some l \<and> al_seller l = p \<and> al_status l = LActive")
  case False
  then have "snd (cancel_ah_listing env p u a) = a" by (auto simp: cancel_ah_listing_def split: option.split)
  then show ?thesis using assms by simp
next
  case True
  then obtain l where l: "row_at u (ah_listings a) = Some l" "al_seller l = p" "al_status l = LActive" by blast
  let ?a' = "snd (cancel_ah_listing env p u a)"
  have "\<exists>t. ah_txs ?a' = ah_txs a @ [t] \<and> tx_kind t = TxCancel \<and> tx_listing t = u \<and> tx_count t = al_count l"
    using l by (auto simp: cancel_ah_listing_def record_tx_def split_beta keeps_txs)
  then obtain t where t: "ah_txs ?a' = ah_txs a @ [t]" "tx_listing t = u" "tx_kind t = TxCancel" "tx_count t = al_count l" by blast
  show ?thesis
    by (rule units_one [OF assms t(1,2)]) (use l t in \<open>auto simp: cancel_listings sql.read_upd on_offer_def\<close>)
qed

lemma units_expire_one:
  assumes "units_balance a" and "row_at u (ah_listings a) = Some l" and "l = l0 \<or> al_status l \<noteq> LActive"
  shows "units_balance (snd (expire_one now (u, l0) a))"
proof (cases "al_status l = LActive")
  case False
  then have "snd (expire_one now (u, l0) a) = a" using assms(2) by (simp add: expire_one_def)
  then show ?thesis using assms(1) by simp
next
  case True
  let ?a' = "snd (expire_one now (u, l0) a)"
  have "\<exists>t. ah_txs ?a' = ah_txs a @ [t] \<and> tx_kind t = TxExpire \<and> tx_listing t = u \<and> tx_count t = al_count l0"
    using assms(2) True by (auto simp: expire_one_def record_tx_def keeps_txs split: option.split)
  then obtain t where t: "ah_txs ?a' = ah_txs a @ [t]" "tx_listing t = u" "tx_kind t = TxExpire" "tx_count t = al_count l0" by blast
  show ?thesis
    by (rule units_one [OF assms(1) t(1,2)])
      (use assms(2,3) True t in \<open>auto simp: expire_one_listings sql.read_upd on_offer_def\<close>)
qed

text \<open>Whole calls, one after the other.\<close>

datatype ah_op =
    OpList ah_env string string int rat "rat option" "int option" "string option" listing_extra bool
  | OpBid ah_env string string rat
  | OpBuy ah_env string string int
  | OpCancel ah_env string string
  | OpExpire rat
  | OpBan rat string string string "int option"
  | OpUnban string
  | OpBalance ah_env string int string

definition ah_exec :: "ah_op \<Rightarrow> ah \<Rightarrow> ah" where
  "ah_exec op a =
     (case op of
        OpList env s it n p b d sg x sim \<Rightarrow> snd (list_item env s it n p b d sg x sim a)
      | OpBid env b u n \<Rightarrow> snd (place_bid env b u n a)
      | OpBuy env b u q \<Rightarrow> snd (buy_now env b u q a)
      | OpCancel env p u \<Rightarrow> snd (cancel_ah_listing env p u a)
      | OpExpire now \<Rightarrow> snd (expire_listings now a)
      | OpBan now p r by d \<Rightarrow> ban_player now p r by d a
      | OpUnban p \<Rightarrow> unban_player p a
      | OpBalance env p n r \<Rightarrow> snd (update_balance env p n r a))"

definition ah_inv :: "ah \<Rightarrow> bool" where
  "ah_inv a \<longleftrightarrow> keys_unique (ah_listings a) \<and> units_balance a"

lemma inv_cong: "ah_listings a' = ah_listings a \<Longrightarrow> ah_txs a' = ah_txs a \<Longrightarrow> ah_inv a' = ah_inv a"
  using units_balance_cong [of a' a] by (simp add: ah_inv_def)

lemma inv_list: "ah_inv a \<Longrightarrow> ah_inv (snd (list_item env s it n p b d sg x sim a))"
proof -
  assume inv: "ah_inv a"
  have "keys_unique (ah_listings (snd (list_item env s it n p b d sg x sim a)))"
    by (rule list_item_listings [of env s it n p b d sg x sim a])
      (use inv in \<open>auto simp: ah_inv_def keys_unique_def row_at_def map_of_eq_None_iff\<close>)
  then show ?thesis using inv units_list_item [of a] by (simp add: ah_inv_def)
qed

lemma inv_bid_commit: "ah_inv a \<Longrightarrow> ah_inv (snd (bid_commit env b u n l0 a))"
  using units_bid_commit [of a env b u n l0]
  by (auto simp: ah_inv_def bid_commit_listings sql.wf_upd split: option.split)

lemma inv_bid: "ah_inv a \<Longrightarrow> ah_inv (snd (place_bid env b u n a))"
proof -
  assume inv: "ah_inv a"
  obtain r a1 where r: "bid_read env b u n a = (r, a1)" by force
  have same: "ah_listings a1 = ah_listings a" "ah_txs a1 = ah_txs a"
    using bid_read_keeps [of env b u n a] read_txs(1) [of env b u n a] r by simp_all
  then have "ah_inv a1" using inv inv_cong by blast
  then show ?thesis using inv_bid_commit [of a1] r by (cases r) (simp_all add: place_bid_def)
qed

lemma inv_buy: "ah_inv a \<Longrightarrow> ah_inv (snd (buy_now env b u q a))"
proof -
  assume inv: "ah_inv a"
  obtain r a1 where r: "buy_read env b u q a = (r, a1)" by force
  have same: "ah_listings a1 = ah_listings a" "ah_txs a1 = ah_txs a"
    using buy_read_keeps [of env b u q a] read_txs(2) [of env b u q a] r by simp_all
  then have inv1: "ah_inv a1" using inv inv_cong by blast
  show ?thesis
  proof (cases r)
    case (Inl err)
    then show ?thesis using inv1 r by (simp add: buy_now_def)
  next
    case (Inr l)
    have row: "row_at u (ah_listings a1) = Some l" "al_status l = LActive" "q \<le> al_count l" "truthy (al_buy_now_price l)"
      using buy_read_row [OF r [unfolded Inr]] same by simp_all
    have u: "units_balance a1" "keys_unique (ah_listings a1)" using inv1 by (simp_all add: ah_inv_def)
    have "keys_unique (ah_listings (snd (buy_commit env b u q l a1)))"
      using u(2) by (auto simp: buy_commit_listings buy_claim_def keeps_listings sql.wf_upd split: option.split)
    then show ?thesis using units_buy_commit [OF u(1) row] r Inr by (simp add: buy_now_def ah_inv_def)
  qed
qed

lemma inv_cancel: "ah_inv a \<Longrightarrow> ah_inv (snd (cancel_ah_listing env p u a))"
  using units_cancel [of a env p u] by (auto simp: ah_inv_def cancel_listings sql.wf_upd split: option.split)

lemma inv_expire_each:
  "ah_inv a \<Longrightarrow> \<forall>(u, l0)\<in>set ds. \<exists>l. row_at u (ah_listings a) = Some l \<and> (l = l0 \<or> al_status l \<noteq> LActive) \<Longrightarrow>
   ah_inv (snd (expire_each now ds a))"
proof (induction ds arbitrary: a)
  case Nil
  then show ?case by simp
next
  case (Cons d ds)
  obtain u l0 where d: "d = (u, l0)" by (cases d)
  obtain l where l: "row_at u (ah_listings a) = Some l" "l = l0 \<or> al_status l \<noteq> LActive" using Cons.prems(2) d by auto
  let ?a1 = "snd (expire_one now (u, l0) a)"
  have "units_balance ?a1" using units_expire_one [OF _ l] Cons.prems(1) by (simp add: ah_inv_def)
  moreover have "keys_unique (ah_listings ?a1)"
    using Cons.prems(1) l by (auto simp: ah_inv_def expire_one_listings sql.wf_upd)
  ultimately have inv: "ah_inv ?a1" by (simp add: ah_inv_def)
  have rest: "\<exists>l. row_at v (ah_listings ?a1) = Some l \<and> (l = l1 \<or> al_status l \<noteq> LActive)" if "(v, l1) \<in> set ds" for v l1
    using Cons.prems(2) that l by (auto simp: expire_one_listings sql.read_upd)
  then show ?case using Cons.IH [OF inv] d by (auto simp: split_beta)
qed

lemma inv_expire: "ah_inv a \<Longrightarrow> ah_inv (snd (expire_listings now a))"
  unfolding expire_listings_def
  by (rule inv_expire_each) (auto simp: ah_inv_def keys_unique_def row_at_def)

lemma balance_txs: "ah_txs (snd (update_balance env p n r a)) = ah_txs a"
  by (simp add: update_balance_def split_beta split: option.split)

lemma inv_exec: "ah_inv a \<Longrightarrow> ah_inv (ah_exec op a)"
  by (cases op)
    (auto simp: ah_exec_def inv_list inv_bid inv_buy inv_cancel inv_expire ban_player_def unban_player_def
      balance_txs balance_keeps intro: inv_cong [THEN iffD2])

text \<open>C35: after any sequence of calls on an empty house, whatever the wallets, every unit of every
  listing is accounted for: the units put up are those bought, returned on cancellation or closed
  at expiry, and those still on offer.\<close>

theorem units_accounted:
  assumes "ah_listings a = []" and "ah_txs a = []"
  shows "put_up u (fold ah_exec ops a) = gone u (fold ah_exec ops a) + on_offer u (fold ah_exec ops a)"
proof -
  have "ah_inv (fold ah_exec ops a)" if "ah_inv a" for a
    using that by (induction ops arbitrary: a) (simp_all add: inv_exec)
  moreover have "ah_inv a"
    using assms by (simp add: ah_inv_def units_balance_def put_up_def gone_def tx_units_def on_offer_def keys_unique_def row_at_def)
  ultimately show ?thesis by (simp add: ah_inv_def units_balance_def)
qed

definition deal_example :: "ah_op list" where
  "deal_example = [OpList (env_example 0 ''L1'') ''ann'' ''gem'' 5 2 (Some 4) None None no_extra False,
     OpBuy (env_example 1 []) ''bob'' ''L1'' 2]"

theorem units_accounted_witness: "put_up ''L1'' (fold ah_exec deal_example ah_example) = 2 + on_offer ''L1'' (fold ah_exec deal_example ah_example)"
proof -
  have "gone ''L1'' (fold ah_exec deal_example ah_example) = 2" by code_simp
  moreover have "ah_listings ah_example = []" "ah_txs ah_example = []" by (simp_all add: ah_example_def)
  ultimately show ?thesis using units_accounted [of ah_example "''L1''" deal_example] by simp
qed

text \<open>Two purchases of 3 that both read a stack of 5 hand out 6: the count is written, not lowered.\<close>

definition stale_buys :: ah where
  "stale_buys =
     (let l0 = the (row_at ''L1'' (ah_listings listed_example));
          a1 = snd (buy_commit (env_example 1 []) ''bob'' ''L1'' 3 l0 listed_example)
      in snd (buy_commit (env_example 1 []) ''cid'' ''L1'' 3 l0 a1))"

lemma stale_buys_duplicate:
  "gone ''L1'' stale_buys = 6 \<and> on_offer ''L1'' stale_buys = 2 \<and> put_up ''L1'' stale_buys = 5"
  by code_simp

text \<open>A purchase of minus three adds three units to the stack.\<close>

lemma negative_purchase:
  "on_offer ''L1'' (snd (buy_now (env_example 1 []) ''bob'' ''L1'' (- 3) listed_example)) = 8"
  by code_simp

section \<open>Bids\<close>

text \<open>A bid is accepted only from a player who is neither banned nor the seller, on a listing that
  is on offer, and at least the increment above the price so far; then exactly that listing records
  it; a refused bid leaves all listings as they were.\<close>

theorem bid_outcome:
  assumes "place_bid env b u n a = (r, a')"
  shows "(case r of
      Inl err \<Rightarrow> ah_listings a' = ah_listings a
    | Inr (amount, previous) \<Rightarrow>
        (\<exists>l. row_at u (ah_listings a) = Some l \<and> al_status l = LActive \<and> al_seller l \<noteq> b \<and>
           \<not> is_player_banned (en_now env) b a \<and> min_bid env l \<le> n \<and> amount = n \<and> previous = al_highest_bidder l \<and>
           ah_listings a' = update_row u (raise_bid b n) (ah_listings a)))"
proof -
  obtain r0 a1 where r0: "bid_read env b u n a = (r0, a1)" by force
  show ?thesis
  proof (cases r0)
    case (Inl err)
    then show ?thesis using assms r0 bid_read_keeps [of env b u n a] by (auto simp: place_bid_def)
  next
    case (Inr l)
    note row = bid_read_row [OF r0 [unfolded Inr]]
    have c: "bid_commit env b u n l a1 = (r, a')" using assms r0 Inr by (simp add: place_bid_def)
    show ?thesis
    proof (cases "bid_accepted n l")
      case True
      then have "r = Inr (n, al_highest_bidder l)" using c row by (auto simp: bid_commit_def split_beta)
      moreover have "ah_listings a' = update_row u (raise_bid b n) (ah_listings a)"
        using bid_commit_listings [of env b u n l a1] c row True by simp
      ultimately show ?thesis using row by auto
    next
      case False
      then show ?thesis using c row by (auto simp: bid_commit_def)
    qed
  qed
qed

theorem bid_outcome_witness:
  "row_at ''L1'' (ah_listings (snd (place_bid (env_example 1 []) ''bob'' ''L1'' 3 listed_example))) =
     map_option (raise_bid ''bob'' 3) (row_at ''L1'' (ah_listings listed_example))"
proof -
  let ?r = "place_bid (env_example 1 []) ''bob'' ''L1'' 3 listed_example"
  have ok: "case fst ?r of Inl _ \<Rightarrow> False | Inr _ \<Rightarrow> True" by code_simp
  have "?r = (fst ?r, snd ?r)" by simp
  from bid_outcome [OF this] ok show ?thesis by (cases "fst ?r") (auto simp: sql.read_upd)
qed

end
