(* ===== verification/AuctionMoney.thy ===== *)
theory AuctionMoney
  imports AuctionSafety
begin

text \<open>
  The coins of the auction house's players: a bid moves coins from the bidder's wallet into
  escrow and returns the previous bidder's.  The bridge is the remote one over a connection that
  answers, and players have wallets.
\<close>

section \<open>Accounts\<close>

definition wallet_names :: "ooga \<Rightarrow> (string \<times> string option) list" where
  "wallet_names db = map (\<lambda>(u, w). (u, wl_name_hint w)) (oo_wallets db)"

text \<open>The wallet a client's \<open>deduct\<close> or \<open>credit\<close> addresses for a player.\<close>

definition account :: "string \<Rightarrow> ooga \<Rightarrow> string option" where
  "account p db =
     (if is_uuid p then (if p \<in> fst ` set (oo_wallets db) then Some p else None)
      else map_option fst (resolve_player p db))"

definition has_account :: "string \<Rightarrow> ooga \<Rightarrow> bool" where
  "has_account p db = (p \<noteq> [] \<and> (case account p db of None \<Rightarrow> False | Some u \<Rightarrow> u \<noteq> []))"

lemma has_account_iff: "has_account p db \<longleftrightarrow> p \<noteq> [] \<and> (\<exists>u. account p db = Some u \<and> u \<noteq> [])"
  by (simp add: has_account_def split: option.split)

lemma find_names:
  "map_option fst (find (\<lambda>(u, w). P (wl_name_hint w)) t) =
   map_option fst (find (\<lambda>(u, h). P h) (map (\<lambda>(u, w). (u, wl_name_hint w)) t))"
  by (induction t) auto

lemma option_choice: "map_option f (case x of Some y \<Rightarrow> Some y | None \<Rightarrow> z) = (case map_option f x of Some y \<Rightarrow> Some y | None \<Rightarrow> map_option f z)"
  by (cases x) simp_all

lemma account_names:
  "account p db =
     (if is_uuid p then (if p \<in> fst ` set (wallet_names db) then Some p else None)
      else (case map_option fst (find (\<lambda>(u, h). h = Some p) (wallet_names db)) of
              Some y \<Rightarrow> Some y
            | None \<Rightarrow> map_option fst (find (\<lambda>(u, h). map_option ascii_lower h = Some (ascii_lower p)) (wallet_names db))))"
proof -
  have "fst ` set (oo_wallets db) = fst ` set (wallet_names db)" by (force simp: wallet_names_def)
  moreover have "map_option fst (resolve_player p db) =
      (case map_option fst (find (\<lambda>(u, h). h = Some p) (wallet_names db)) of
         Some y \<Rightarrow> Some y
       | None \<Rightarrow> map_option fst (find (\<lambda>(u, h). map_option ascii_lower h = Some (ascii_lower p)) (wallet_names db)))"
    if "\<not> is_uuid p"
    unfolding resolve_player_def wallet_names_def Let_def if_not_P [OF that] option.map(1) option.case(1) option_choice
      find_names [of "\<lambda>h. h = Some p"] find_names [of "\<lambda>h. map_option ascii_lower h = Some (ascii_lower p)"]
    by (rule refl)
  ultimately show ?thesis unfolding account_def by presburger
qed

lemma account_cong: "wallet_names db' = wallet_names db \<Longrightarrow> account p db' = account p db"
  by (simp only: account_names)

lemma has_account_cong:
  assumes "wallet_names db' = wallet_names db"
  shows "has_account p db' = has_account p db"
  by (simp add: has_account_iff account_cong [OF assms])

lemma names_write [simp]: "wallet_names (write_wallet u b now db) = wallet_names db"
  by (auto simp: wallet_names_def write_wallet_def update_row_def)

lemma names_ledger [simp]: "wallet_names (write_ledger u d n r t now db) = wallet_names db"
  by (simp add: wallet_names_def write_ledger_def)

lemma account_row:
  assumes "account p db = Some u"
  shows "\<exists>w. (u, w) \<in> set (oo_wallets db)"
proof (cases "is_uuid p")
  case True
  then show ?thesis using assms by (force simp: account_def split: if_splits)
next
  case False
  then obtain w where "resolve_player p db = Some (u, w)" using assms by (auto simp: account_def)
  then show ?thesis using False
    by (auto simp: resolve_player_def find_Some_iff split: option.splits) (metis nth_mem)+
qed

lemma account_wallet: "account p db = Some u \<Longrightarrow> keys_unique (oo_wallets db) \<Longrightarrow> \<exists>w. row_at u (oo_wallets db) = Some w"
  using account_row by (auto simp: keys_unique_def row_at_def map_of_eq_None_iff)

lemma resolved_wallet:
  assumes "account p db = Some u" and "keys_unique (oo_wallets db)"
  shows "\<exists>w. resolve_player p db = Some (u, w) \<and> row_at u (oo_wallets db) = Some w"
proof (cases "is_uuid p")
  case True
  then show ?thesis using assms account_wallet [OF assms] by (auto simp: account_def resolve_player_def split: if_splits)
next
  case False
  then obtain w where w: "resolve_player p db = Some (u, w)" using assms(1) by (auto simp: account_def)
  have "(u, w) \<in> set (oo_wallets db)"
    using w False by (auto simp: resolve_player_def find_Some_iff split: option.splits) (metis nth_mem)+
  then show ?thesis using w assms(2) by (auto simp: keys_unique_def row_at_def)
qed

section \<open>A connection that answers\<close>

lemma send_reliable: "ec_net e = [] \<Longrightarrow> send_with_retry now req e =
    (Inr (fst (handle_request now req (ec_db e))), e\<lparr>ec_db := snd (handle_request now req (ec_db e))\<rparr>)"
  by (simp add: send_with_retry_def RETRY_COUNT_def numeral_3_eq_3 split_beta)

lemma move_reliable:
  assumes "ec_net e = []" and "account p (ec_db e) = Some u" and "u \<noteq> []" and "keys_unique (oo_wallets (ec_db e))"
  shows "remote_move action now p n r t e =
    (resp_ok (fst (handle_request now (move_request action u n r t) (ec_db e))),
     e\<lparr>ec_db := snd (handle_request now (move_request action u n r t) (ec_db e))\<rparr>)"
proof -
  obtain w where "resolve_player p (ec_db e) = Some (u, w)" using resolved_wallet [OF assms(2,4)] by blast
  then have "resolve_or_uuid now p e = (Some u, e)"
    using assms(1,2)
    by (auto simp: resolve_or_uuid_def get_player_info_def send_reliable handle_request_def plain_request_def get_or_def
        account_def split: if_splits)
  then show ?thesis using assms(1,3) by (simp add: remote_move_def send_reliable answer_ok_def move_request_def)
qed

lemma deduct_reliable:
  assumes "en_bridge env = Some RemoteBridge" and "ec_net (ah_eco a) = []" and "account p (ec_db (ah_eco a)) = Some u" and "u \<noteq> []"
    and "keys_unique (oo_wallets (ec_db (ah_eco a)))" and "balance_in u (ec_db (ah_eco a)) = Some b" and "n \<le> b"
  shows "\<exists>x y z. ah_eco (snd (eco_deduct env p n r t a)) = (ah_eco a)\<lparr>ec_db :=
     write_ledger u (- n) (b - n) x y z (write_wallet u (b - n) z (ec_db (ah_eco a)))\<rparr>"
proof -
  obtain w where w: "row_at u (oo_wallets (ec_db (ah_eco a))) = Some w" "wl_balance w = b"
    using assms(6) by (auto simp: balance_in_def)
  then show ?thesis using assms
    by (auto simp: eco_deduct_def bridge_deduct_def remote_deduct_def move_reliable handle_request_def move_request_def
        plain_request_def move_wallet_def required_def amount_of_def int_of_arg_def deduct_amount_def resp_ok_def get_or_def)
qed

lemma credit_reliable:
  assumes "en_bridge env = Some RemoteBridge" and "ec_net (ah_eco a) = []" and "account p (ec_db (ah_eco a)) = Some u" and "u \<noteq> []"
    and "keys_unique (oo_wallets (ec_db (ah_eco a)))" and "balance_in u (ec_db (ah_eco a)) = Some b"
  shows "\<exists>x y z. ah_eco (snd (eco_credit env p n r t a)) = (ah_eco a)\<lparr>ec_db :=
     write_ledger u n (b + n) x y z (write_wallet u (b + n) z (ec_db (ah_eco a)))\<rparr>"
proof -
  obtain w where w: "row_at u (oo_wallets (ec_db (ah_eco a))) = Some w" "wl_balance w = b"
    using assms(6) by (auto simp: balance_in_def)
  then show ?thesis using assms
    by (auto simp: eco_credit_def bridge_credit_def remote_credit_def move_reliable handle_request_def move_request_def
        plain_request_def move_wallet_def required_def amount_of_def int_of_arg_def resp_ok_def get_or_def)
qed

lemma check_reliable:
  assumes "en_bridge env = Some RemoteBridge" and "ec_net (ah_eco a) = []" and "account p (ec_db (ah_eco a)) = Some u"
    and "keys_unique (oo_wallets (ec_db (ah_eco a)))"
  shows "ah_eco (snd (check_eco_balance env p n a)) = ah_eco a"
    and "fst (check_eco_balance env p n a) \<Longrightarrow> \<exists>b\<ge>n. balance_in u (ec_db (ah_eco a)) = Some b"
proof -
  obtain w where w: "resolve_player p (ec_db (ah_eco a)) = Some (u, w)" "row_at u (oo_wallets (ec_db (ah_eco a))) = Some w"
    using resolved_wallet [OF assms(3,4)] by blast
  then show "ah_eco (snd (check_eco_balance env p n a)) = ah_eco a"
    and "fst (check_eco_balance env p n a) \<Longrightarrow> \<exists>b\<ge>n. balance_in u (ec_db (ah_eco a)) = Some b"
    using assms
    by (auto simp: check_eco_balance_def bridge_get_balance_def remote_get_balance_def send_reliable handle_request_def
        plain_request_def get_or_def resp_balance_def balance_in_def)
qed

section \<open>Escrow\<close>

definition escrow_of :: "listing \<Rightarrow> int" where
  "escrow_of l =
     (if al_status l = LActive
      then (case al_highest_bidder l of
              Some p \<Rightarrow> if p \<noteq> [] \<and> truthy (al_current_bid l) then py_trunc (the (al_current_bid l)) else 0
            | None \<Rightarrow> 0)
      else 0)"

definition escrow :: "ah \<Rightarrow> int" where
  "escrow a = sum_rows (\<lambda>_. True) escrow_of (ah_listings a)"

definition coins :: "ah \<Rightarrow> int" where
  "coins a = total_coins (ec_db (ah_eco a))"

text \<open>A house whose high bidders all have wallets.\<close>

definition money_inv :: "ah \<Rightarrow> bool" where
  "money_inv a \<longleftrightarrow> keys_unique (ah_listings a) \<and> keys_unique (oo_wallets (ec_db (ah_eco a))) \<and> ec_net (ah_eco a) = [] \<and>
     list_all (\<lambda>(u, l). case al_highest_bidder l of None \<Rightarrow> True | Some p \<Rightarrow> has_account p (ec_db (ah_eco a))) (ah_listings a)"

text \<open>One wallet moved by \<open>d\<close>.\<close>

lemma moved_wallet:
  assumes "keys_unique (oo_wallets db)" and "balance_in u db = Some b"
    and "db' = write_ledger u d (b + d) x y z (write_wallet u (b + d) z db)"
  shows "total_coins db' = total_coins db + d" and "keys_unique (oo_wallets db')" and "wallet_names db' = wallet_names db"
proof -
  obtain w where w: "row_at u (oo_wallets db) = Some w" "wl_balance w = b" using assms(2) by (auto simp: balance_in_def)
  show "total_coins db' = total_coins db + d" using w assms(1,3) by (simp add: total_write)
  show "keys_unique (oo_wallets db')" using sql.wf_upd [OF assms(1)] assms(3) by (simp add: write_ledger_def write_wallet_def)
  show "wallet_names db' = wallet_names db" using assms(3) by simp
qed

lemma deduct_coins:
  assumes "en_bridge env = Some RemoteBridge" and "ec_net (ah_eco a) = []" and "has_account p (ec_db (ah_eco a))"
    and "keys_unique (oo_wallets (ec_db (ah_eco a)))"
    and "\<And>u. account p (ec_db (ah_eco a)) = Some u \<Longrightarrow> \<exists>b\<ge>n. balance_in u (ec_db (ah_eco a)) = Some b"
  shows "coins (snd (eco_deduct env p n r t a)) = coins a - n"
    and "keys_unique (oo_wallets (ec_db (ah_eco (snd (eco_deduct env p n r t a)))))"
    and "wallet_names (ec_db (ah_eco (snd (eco_deduct env p n r t a)))) = wallet_names (ec_db (ah_eco a))"
    and "ec_net (ah_eco (snd (eco_deduct env p n r t a))) = []"
proof -
  obtain u where u: "account p (ec_db (ah_eco a)) = Some u" "u \<noteq> []" using assms(3) by (auto simp: has_account_iff)
  obtain b where b: "n \<le> b" "balance_in u (ec_db (ah_eco a)) = Some b" using assms(5) [OF u(1)] by blast
  obtain x y z where e: "ah_eco (snd (eco_deduct env p n r t a)) = (ah_eco a)\<lparr>ec_db :=
     write_ledger u (- n) (b - n) x y z (write_wallet u (b - n) z (ec_db (ah_eco a)))\<rparr>"
    using deduct_reliable [OF assms(1,2) u assms(4) b(2,1), of r t] by (elim exE)
  have db: "ec_db (ah_eco (snd (eco_deduct env p n r t a))) =
     write_ledger u (- n) (b + - n) x y z (write_wallet u (b + - n) z (ec_db (ah_eco a)))" using e by simp
  note m = moved_wallet [OF assms(4) b(2) db]
  show "coins (snd (eco_deduct env p n r t a)) = coins a - n" using m(1) unfolding coins_def by linarith
  show "keys_unique (oo_wallets (ec_db (ah_eco (snd (eco_deduct env p n r t a)))))" by (rule m(2))
  show "wallet_names (ec_db (ah_eco (snd (eco_deduct env p n r t a)))) = wallet_names (ec_db (ah_eco a))" by (rule m(3))
  show "ec_net (ah_eco (snd (eco_deduct env p n r t a))) = []" using e assms(2) by simp
qed

lemma credit_coins:
  assumes "en_bridge env = Some RemoteBridge" and "ec_net (ah_eco a) = []" and "has_account p (ec_db (ah_eco a))"
    and "keys_unique (oo_wallets (ec_db (ah_eco a)))"
  shows "coins (snd (eco_credit env p n r t a)) = coins a + n"
    and "keys_unique (oo_wallets (ec_db (ah_eco (snd (eco_credit env p n r t a)))))"
    and "wallet_names (ec_db (ah_eco (snd (eco_credit env p n r t a)))) = wallet_names (ec_db (ah_eco a))"
    and "ec_net (ah_eco (snd (eco_credit env p n r t a))) = []"
proof -
  obtain u where u: "account p (ec_db (ah_eco a)) = Some u" "u \<noteq> []" using assms(3) by (auto simp: has_account_iff)
  obtain w where "row_at u (oo_wallets (ec_db (ah_eco a))) = Some w" using account_wallet [OF u(1) assms(4)] by blast
  then have b: "balance_in u (ec_db (ah_eco a)) = Some (wl_balance w)" by (rule row_balance)
  obtain x y z where e: "ah_eco (snd (eco_credit env p n r t a)) = (ah_eco a)\<lparr>ec_db :=
     write_ledger u n (wl_balance w + n) x y z (write_wallet u (wl_balance w + n) z (ec_db (ah_eco a)))\<rparr>"
    using credit_reliable [OF assms(1,2) u assms(4) b, of n r t] by (elim exE)
  have db: "ec_db (ah_eco (snd (eco_credit env p n r t a))) =
     write_ledger u n (wl_balance w + n) x y z (write_wallet u (wl_balance w + n) z (ec_db (ah_eco a)))" using e by simp
  note m = moved_wallet [OF assms(4) b db]
  show "coins (snd (eco_credit env p n r t a)) = coins a + n" using m(1) unfolding coins_def .
  show "keys_unique (oo_wallets (ec_db (ah_eco (snd (eco_credit env p n r t a)))))" by (rule m(2))
  show "wallet_names (ec_db (ah_eco (snd (eco_credit env p n r t a)))) = wallet_names (ec_db (ah_eco a))" by (rule m(3))
  show "ec_net (ah_eco (snd (eco_credit env p n r t a))) = []" using e assms(2) by simp
qed

lemma eco_of_updates [simp]:
  "ah_eco (update_listing u f a) = ah_eco a" "ah_eco (record_tx now u k ac it n p q m a) = ah_eco a"
  by (simp_all add: update_listing_def set_listings_def record_tx_def)

text \<open>Refunding gives back what the listing held.\<close>

lemma refund_coins:
  assumes "en_bridge env = Some RemoteBridge" and "ec_net (ah_eco a) = []" and "keys_unique (oo_wallets (ec_db (ah_eco a)))"
    and "\<And>p. al_highest_bidder l = Some p \<Longrightarrow> has_account p (ec_db (ah_eco a))" and "al_status l = LActive"
  shows "coins (refund_previous env l a) = coins a + escrow_of l"
    and "keys_unique (oo_wallets (ec_db (ah_eco (refund_previous env l a))))"
    and "wallet_names (ec_db (ah_eco (refund_previous env l a))) = wallet_names (ec_db (ah_eco a))"
    and "ec_net (ah_eco (refund_previous env l a)) = []"
proof -
  have "coins (refund_previous env l a) = coins a + escrow_of l \<and>
    keys_unique (oo_wallets (ec_db (ah_eco (refund_previous env l a)))) \<and>
    wallet_names (ec_db (ah_eco (refund_previous env l a))) = wallet_names (ec_db (ah_eco a)) \<and>
    ec_net (ah_eco (refund_previous env l a)) = []"
  proof (cases "al_highest_bidder l")
    case None
    then show ?thesis using assms by (simp add: refund_previous_def escrow_of_def)
  next
    case (Some p)
    then show ?thesis using assms(2,3,5) credit_coins [OF assms(1,2) assms(4) [OF Some] assms(3)]
      by (simp add: refund_previous_def escrow_of_def)
  qed
  then show "coins (refund_previous env l a) = coins a + escrow_of l"
    and "keys_unique (oo_wallets (ec_db (ah_eco (refund_previous env l a))))"
    and "wallet_names (ec_db (ah_eco (refund_previous env l a))) = wallet_names (ec_db (ah_eco a))"
    and "ec_net (ah_eco (refund_previous env l a)) = []" by simp_all
qed

lemma escrow_raise: "b \<noteq> [] \<Longrightarrow> al_status l = LActive \<Longrightarrow> escrow_of (raise_bid b n l) = py_trunc n"
  by (simp add: escrow_of_def raise_bid_def truthy_def py_trunc_def)

lemma bid_read_eco:
  assumes "money_inv a" and "en_bridge env = Some RemoteBridge" and "has_account b (ec_db (ah_eco a))"
    and "bid_read env b u n a = (r, a1)"
  shows "ah_eco a1 = ah_eco a"
    and "r = Inr l \<Longrightarrow> account b (ec_db (ah_eco a)) = Some v \<Longrightarrow> \<exists>c\<ge>py_trunc n. balance_in v (ec_db (ah_eco a)) = Some c"
proof -
  obtain w where w: "account b (ec_db (ah_eco a)) = Some w" using assms(3) by (auto simp: has_account_iff)
  have inv: "ec_net (ah_eco a) = []" "keys_unique (oo_wallets (ec_db (ah_eco a)))" using assms(1) by (simp_all add: money_inv_def)
  note chk = check_reliable [OF assms(2) inv(1) w inv(2), of "py_trunc n"]
  obtain f a2 where c: "check_eco_balance env b (py_trunc n) a = (f, a2)" by force
  have e: "ah_eco a2 = ah_eco a" using chk(1) c by simp
  show "ah_eco a1 = ah_eco a" using assms(4) c e by (auto simp: bid_read_def split: if_splits option.splits)
  assume "r = Inr l" "account b (ec_db (ah_eco a)) = Some v"
  then have "f" "v = w" using assms(4) c w by (auto simp: bid_read_def split: if_splits option.splits)
  then show "\<exists>c\<ge>py_trunc n. balance_in v (ec_db (ah_eco a)) = Some c" using chk(2) c by simp
qed

lemma money_cong:
  assumes "ah_eco a' = ah_eco a" and "ah_listings a' = ah_listings a"
  shows "money_inv a' = money_inv a" and "coins a' + escrow a' = coins a + escrow a"
  unfolding money_inv_def coins_def escrow_def assms by (rule refl)+

lemma accounts_after:
  assumes "list_all (\<lambda>(u, l). case al_highest_bidder l of None \<Rightarrow> True | Some p \<Rightarrow> has_account p db) t"
    and "wallet_names db' = wallet_names db" and "has_account b db"
  shows "list_all (\<lambda>(u, l). case al_highest_bidder l of None \<Rightarrow> True | Some p \<Rightarrow> has_account p db') (update_row u (raise_bid b n) t)"
  using assms(1) assms(3) unfolding has_account_cong [OF assms(2)] list_all_iff update_row_def
  by (auto simp: raise_bid_def split: if_splits)

lemma bid_money:
  assumes inv: "money_inv a" and env: "en_bridge env = Some RemoteBridge" and acc: "has_account b (ec_db (ah_eco a))"
  shows "money_inv (snd (place_bid env b u n a)) \<and>
    coins (snd (place_bid env b u n a)) + escrow (snd (place_bid env b u n a)) = coins a + escrow a \<and>
    wallet_names (ec_db (ah_eco (snd (place_bid env b u n a)))) = wallet_names (ec_db (ah_eco a))"
proof -
  obtain r a1 where r: "bid_read env b u n a = (r, a1)" by force
  have e1: "ah_eco a1 = ah_eco a" using bid_read_eco(1) [OF inv env acc r] .
  have l1: "ah_listings a1 = ah_listings a" using bid_read_keeps [of env b u n a] r by simp
  have inv1: "money_inv a1" and sum1: "coins a1 + escrow a1 = coins a + escrow a" using money_cong [OF e1 l1] inv by simp_all
  show ?thesis
  proof (cases "\<exists>l. r = Inr l \<and> bid_accepted n l")
    case False
    have "snd (place_bid env b u n a) = a1"
    proof (cases r)
      case (Inr l)
      then show ?thesis using False r bid_read_row(1) [OF r [unfolded Inr]] l1 by (simp add: place_bid_def bid_commit_def)
    qed (simp add: place_bid_def r)
    then show ?thesis using inv1 sum1 e1 by simp
  next
    case True
    then obtain l where l: "r = Inr l" "bid_accepted n l" by blast
    note row = bid_read_row [OF r [unfolded l(1)]]
    let ?a2 = "update_listing u (raise_bid b n) a1"
    let ?a3 = "snd (eco_deduct env b (py_trunc n) ''AH_BID_ESCROW'' ''Bid escrow'' ?a2)"
    let ?a4 = "refund_previous env l ?a3"
    have "snd (place_bid env b u n a) = record_tx (en_now env) u TxBid b (al_item l) (al_count l) (Some n) (Some (base_price l)) NoMeta ?a4"
      using r l row l1 by (simp add: place_bid_def bid_commit_def split_beta)
    then have res: "ah_eco (snd (place_bid env b u n a)) = ah_eco ?a4"
      "ah_listings (snd (place_bid env b u n a)) = update_row u (raise_bid b n) (ah_listings a)"
      using l1 by (simp_all add: keeps_listings)
    have funds: "\<exists>c\<ge>py_trunc n. balance_in v (ec_db (ah_eco a)) = Some c" if "account b (ec_db (ah_eco a)) = Some v" for v
      using bid_read_eco(2) [OF inv env acc r l(1) that] .
    have e2: "ah_eco ?a2 = ah_eco a" using e1 by simp
    have d: "coins ?a3 = coins ?a2 - py_trunc n" "keys_unique (oo_wallets (ec_db (ah_eco ?a3)))"
      "wallet_names (ec_db (ah_eco ?a3)) = wallet_names (ec_db (ah_eco a))" "ec_net (ah_eco ?a3) = []"
      using deduct_coins [OF env, of ?a2 b "py_trunc n" "''AH_BID_ESCROW''" "''Bid escrow''"] inv acc funds unfolding e2
      by (simp_all add: money_inv_def)
    have held: "has_account p (ec_db (ah_eco ?a3))" if "al_highest_bidder l = Some p" for p
      using inv row(1) that unfolding has_account_cong [OF d(3)]
      by (auto simp: money_inv_def list_all_iff row_at_def dest!: map_of_SomeD)
    note ref = refund_coins [OF env d(4,2) _ row(2), OF held]
    have unique: "keys_unique (ah_listings a)" using inv by (simp add: money_inv_def)
    have "b \<noteq> []" using acc by (simp add: has_account_iff)
    then have "escrow (snd (place_bid env b u n a)) = escrow a + (py_trunc n - escrow_of l)"
      unfolding escrow_def res(2) using sql.total_upd [OF unique] row(1,2) by (simp add: escrow_raise)
    moreover have "coins (snd (place_bid env b u n a)) = coins a - py_trunc n + escrow_of l"
      using ref(1) d(1) e2 unfolding coins_def res(1) by simp
    moreover have names: "wallet_names (ec_db (ah_eco ?a4)) = wallet_names (ec_db (ah_eco a))" using ref(3) d(3) by simp
    moreover have "money_inv (snd (place_bid env b u n a))"
      unfolding money_inv_def res
    proof (intro conjI)
      show "keys_unique (update_row u (raise_bid b n) (ah_listings a))" by (rule sql.wf_upd [OF unique])
      show "keys_unique (oo_wallets (ec_db (ah_eco ?a4)))" by (rule ref(2))
      show "ec_net (ah_eco ?a4) = []" by (rule ref(4))
      show "list_all (\<lambda>(u, l). case al_highest_bidder l of None \<Rightarrow> True | Some p \<Rightarrow> has_account p (ec_db (ah_eco ?a4)))
          (update_row u (raise_bid b n) (ah_listings a))"
        by (rule accounts_after [OF _ names acc]) (use inv [unfolded money_inv_def] in blast)
    qed
    ultimately show ?thesis by (simp add: res)
  qed
qed


definition bank_example :: ah where
  "bank_example = listed_example\<lparr>ah_eco := \<lparr>ec_net = [], ec_db = eco_example\<rparr>\<rparr>"

definition bids_example :: "(ah_env \<times> string \<times> string \<times> rat) list" where
  "bids_example = (let env = (env_example 1 [])\<lparr>en_bridge := Some RemoteBridge\<rparr>
     in [(env, ''Alex'', ''L1'', 4), (env, ''Steve'', ''L1'', 30), (env, ''Alex'', ''L1'', 60)])"


text \<open>Where escrow is lost: cancelling a listing that has a bid gives the item back and keeps the coins,
  a purchase over a standing bid and an expiry with a winner do too, and two bids that read the same
  listing both refund the player they outbid.\<close>

definition bid_example :: ah where
  "bid_example = snd (place_bid ((env_example 1 [])\<lparr>en_bridge := Some RemoteBridge\<rparr>) ''Alex'' ''L1'' 4 bank_example)"

lemma cancelled_bids_not_refunded:
  "coins bid_example + escrow bid_example = 105 \<and>
   (let a = snd (cancel_ah_listing ((env_example 2 [])\<lparr>en_bridge := Some RemoteBridge\<rparr>) ''ann'' ''L1'' bid_example)
    in coins a + escrow a) = 101"
  by code_simp

lemma expired_winner_pays_nobody:
  "(let a = snd (expire_listings 1000000 bid_example) in (coins a + escrow a, ah_rcon a)) = (101, [])"
  by code_simp

lemma stale_bids_refund_twice:
  "(let env = (env_example 2 [])\<lparr>en_bridge := Some RemoteBridge\<rparr>; l0 = the (row_at ''L1'' (ah_listings bid_example));
        a1 = snd (bid_commit env ''Steve'' ''L1'' 10 l0 bid_example); a2 = snd (bid_commit env ''Steve'' ''L1'' 20 l0 a1)
    in coins a2 + escrow a2) = 99"
  by code_simp

end
