(* ===== verification/FsPaths.thy ===== *)
theory FsPaths
  imports PyText "HOL-Library.Sublist"
begin

text \<open>
  Paths of the in-memory file system, \<open>SCRIPTS/SERVICES/fastmcp_server/tools/virtual_fs.py\<close>, on
  a POSIX host: canonical paths, the subpath test and the check every operation makes first.
\<close>

section \<open>Exceptions\<close>

text \<open>\<open>VFSError\<close> and its subclasses, and those that handlers for it let through: \<open>re.error\<close>, and
  errors of the disk.\<close>

datatype fs_error = VFSError | VFSPermissionError | VFSBigFileError | PatternError | DiskError py_error

definition is_vfs_error :: "fs_error \<Rightarrow> bool" where
  "is_vfs_error e = (e = VFSError \<or> e = VFSPermissionError \<or> e = VFSBigFileError)"

section \<open>Canonical paths\<close>

datatype path_type = POSIX | WINDOWS

abbreviation (input) slash :: char where "slash \<equiv> CHR ''/''"

abbreviation (input) backslash :: char where "backslash \<equiv> CHR 0x5C"

definition detect_path_type :: "string \<Rightarrow> path_type" where
  "detect_path_type p =
     (if take 2 p = [backslash, backslash] \<or> (length p > 1 \<and> p ! 1 = CHR '':'') then WINDOWS else POSIX)"

definition replace_char :: "char \<Rightarrow> char \<Rightarrow> string \<Rightarrow> string" where
  "replace_char a b s = map (\<lambda>c. if c = a then b else c) s"

text \<open>\<open>s.replace("//", "/")\<close>, and the loop that repeats it.\<close>

fun halve_slashes :: "string \<Rightarrow> string" where
  "halve_slashes (c # d # cs) =
     (if c = slash \<and> d = slash then slash # halve_slashes cs else c # halve_slashes (d # cs))"
| "halve_slashes s = s"

fun has_double_slash :: "string \<Rightarrow> bool" where
  "has_double_slash (c # d # cs) = ((c = slash \<and> d = slash) \<or> has_double_slash (d # cs))"
| "has_double_slash s = False"

lemma halve_length: "length (halve_slashes s) \<le> length s"
  by (induction s rule: halve_slashes.induct) auto

lemma halve_shorter: "has_double_slash s \<Longrightarrow> length (halve_slashes s) < length s"
proof (induction s rule: halve_slashes.induct)
  case (1 c d cs)
  then show ?case using halve_length [of cs] by auto
qed simp_all

function squeeze_slashes :: "string \<Rightarrow> string" where
  "squeeze_slashes s = (if has_double_slash s then squeeze_slashes (halve_slashes s) else s)"
  by auto
termination by (relation "measure length") (auto intro: halve_shorter)

declare squeeze_slashes.simps [simp del]

text \<open>The loop over the parts of a path, for parts a test drops (\<open>.\<close>, and \<open>""\<close> on POSIX).\<close>

fun resolve_parts :: "(string \<Rightarrow> bool) \<Rightarrow> string list \<Rightarrow> string list \<Rightarrow> fs_error + string list" where
  "resolve_parts skip parts [] = Inr parts"
| "resolve_parts skip parts (p # ps) =
     (if skip p then resolve_parts skip parts ps
      else if p = ''..''
      then (if parts \<noteq> [] \<and> last parts \<noteq> ''..'' then resolve_parts skip (butlast parts) ps
            else if parts = [] then Inl VFSError
            else resolve_parts skip parts ps)
      else resolve_parts skip (parts @ [p]) ps)"

definition ends_slash :: "string \<Rightarrow> bool" where
  "ends_slash s = (s \<noteq> [] \<and> last s = slash)"

text \<open>The replacement text of \<open>re.sub\<close> is a lone backslash, which \<open>re\<close> rejects: a path with a drive
  letter never passes.\<close>

definition canonicalize :: "string \<Rightarrow> fs_error + string" where
  "canonicalize path =
     (if path = [] then Inl VFSError
      else if CHR 0x00 \<in> set path then Inl VFSError
      else (case detect_path_type path of
         WINDOWS \<Rightarrow>
           (let p = replace_char slash backslash path
            in if take 2 p \<noteq> [backslash, backslash] then Inl PatternError
               else (case resolve_parts (\<lambda>q. q = ''.'') [] (split_on backslash p) of
                       Inl e \<Rightarrow> Inl e
                     | Inr parts \<Rightarrow> Inr (join [backslash] parts)))
       | POSIX \<Rightarrow>
           (let p = squeeze_slashes path
            in case resolve_parts (\<lambda>q. q = ''.'' \<or> q = []) [] (split_on slash p) of
                 Inl e \<Rightarrow> Inl e
               | Inr parts \<Rightarrow>
                   (let r = slash # join [slash] parts
                    in Inr (if ends_slash p \<and> \<not> ends_slash r then r @ [slash] else r)))))"

definition rstrip_seps :: "string \<Rightarrow> string" where
  "rstrip_seps s = rev (dropWhile (\<lambda>c. c = slash \<or> c = backslash) (rev s))"

definition is_subpath :: "string \<Rightarrow> string \<Rightarrow> fs_error + bool" where
  "is_subpath parent child =
     (case canonicalize parent of
        Inl e \<Rightarrow> Inl e
      | Inr p \<Rightarrow>
          (case canonicalize child of
             Inl e \<Rightarrow> Inl e
           | Inr c \<Rightarrow> Inr (prefix (rstrip_seps p @ [slash]) (rstrip_seps c @ [slash]))))"

section \<open>The check of every operation\<close>

definition FORBIDDEN_PATHS :: "string list" where
  "FORBIDDEN_PATHS = [''/etc'', ''/sys'', ''/proc'', ''/dev'', ''/boot'', ''/root'', ''/var/log'', ''/var/lib'',
     ''/bin'', ''/sbin'', ''/usr/bin'', ''/usr/sbin'']"

definition ROOT_ONLY_PATHS :: "string list" where
  "ROOT_ONLY_PATHS = [''/etc/shadow'', ''/etc/sudoers'', ''/etc/passwd'', ''/etc/gshadow'', ''/etc/ssh'']"

fun refuse_forbidden :: "string \<Rightarrow> string list \<Rightarrow> fs_error + unit" where
  "refuse_forbidden q [] = Inr ()"
| "refuse_forbidden q (f # fs) =
     (case is_subpath f q of
        Inl e \<Rightarrow> Inl e
      | Inr b \<Rightarrow> if b \<or> q = f then Inl VFSPermissionError else refuse_forbidden q fs)"

definition root_only :: "string \<Rightarrow> bool" where
  "root_only q = list_ex (\<lambda>r. q = r \<or> prefix (r @ [slash]) q) ROOT_ONLY_PATHS"

definition check_sandbox :: "string option \<Rightarrow> string \<Rightarrow> fs_error + unit" where
  "check_sandbox sandbox q =
     (case sandbox of
        None \<Rightarrow> Inr ()
      | Some base \<Rightarrow> if base = [] then Inr () else (case is_subpath base q of
          Inl e \<Rightarrow> Inl e
        | Inr b \<Rightarrow> if b then Inr () else Inl VFSPermissionError))"

definition safe_path :: "string option \<Rightarrow> string \<Rightarrow> fs_error + string" where
  "safe_path sandbox path =
     (case canonicalize path of
        Inl e \<Rightarrow> Inl e
      | Inr q \<Rightarrow>
          (case check_sandbox sandbox q of
             Inl e \<Rightarrow> Inl e
           | Inr _ \<Rightarrow>
               (case refuse_forbidden q FORBIDDEN_PATHS of
                  Inl e \<Rightarrow> Inl e
                | Inr _ \<Rightarrow> if root_only q then Inl VFSPermissionError
                    else if length q > 4096 then Inl VFSError else Inr q)))"

text \<open>\<open>str(Path(p).parent)\<close> and the names of a path as \<open>pathlib\<close> sees them.\<close>

definition names_of :: "string \<Rightarrow> string list" where
  "names_of s = filter (\<lambda>n. n \<noteq> [] \<and> n \<noteq> ''.'') (split_on slash s)"

definition absolute :: "string \<Rightarrow> bool" where
  "absolute s = (s \<noteq> [] \<and> hd s = slash)"

definition py_parent :: "string \<Rightarrow> string" where
  "py_parent s =
     (if absolute s then slash # join [slash] (butlast (names_of s))
      else if length (names_of s) \<le> 1 then ''.'' else join [slash] (butlast (names_of s)))"

section \<open>POSIX paths\<close>

lemma split_on_Cons: "split_on d (c # cs) = (if c = d then [] # split_on d cs else (c # hd (split_on d cs)) # tl (split_on d cs))"
  by (cases "split_on d cs") (use split_on_nonempty [of d cs] in auto)

lemma halve_parts:
  "hd (split_on slash (halve_slashes s)) = hd (split_on slash s) \<and>
   filter ((\<noteq>) []) (tl (split_on slash (halve_slashes s))) = filter ((\<noteq>) []) (tl (split_on slash s))"
proof (induction s rule: halve_slashes.induct)
  case (1 c d cs)
  have whole: "filter ((\<noteq>) []) (split_on slash t) = (if hd (split_on slash t) = [] then [] else [hd (split_on slash t)]) @
      filter ((\<noteq>) []) (tl (split_on slash t))" for t
    by (cases "split_on slash t") (use split_on_nonempty [of slash t] in auto)
  show ?case
  proof (cases "c = slash \<and> d = slash")
    case True
    then show ?thesis using 1(1) [OF True] whole [of "halve_slashes cs"] whole [of cs] by simp
  next
    case False
    have ih: "hd (split_on slash (halve_slashes (d # cs))) = hd (split_on slash (d # cs))"
      "filter ((\<noteq>) []) (tl (split_on slash (halve_slashes (d # cs)))) = filter ((\<noteq>) []) (tl (split_on slash (d # cs)))"
      using 1(2) [OF False] by simp_all
    have h: "halve_slashes (c # d # cs) = c # halve_slashes (d # cs)" using False by auto
    show ?thesis
      unfolding h split_on_Cons [of slash c] using ih whole [of "halve_slashes (d # cs)"] whole [of "d # cs"]
      by (simp del: split_on.simps)
  qed
qed simp_all

lemma filter_hd_tl: "xs \<noteq> [] \<Longrightarrow> filter P xs = (if P (hd xs) then [hd xs] else []) @ filter P (tl xs)"
  by (cases xs) simp_all

lemma halve_names: "filter ((\<noteq>) []) (split_on slash (halve_slashes s)) = filter ((\<noteq>) []) (split_on slash s)"
  unfolding filter_hd_tl [OF split_on_nonempty, of _ slash "halve_slashes s"] filter_hd_tl [OF split_on_nonempty, of _ slash s]
  using halve_parts [of s] by simp

lemma halve_last: "s \<noteq> [] \<Longrightarrow> halve_slashes s \<noteq> [] \<and> last (halve_slashes s) = last s"
  by (induction s rule: halve_slashes.induct) auto

lemma squeeze_names: "filter ((\<noteq>) []) (split_on slash (squeeze_slashes s)) = filter ((\<noteq>) []) (split_on slash s)"
proof (induction s rule: squeeze_slashes.induct)
  case (1 s)
  then show ?case using halve_names [of s] by (subst squeeze_slashes.simps) simp
qed

lemma squeeze_ends: "ends_slash (squeeze_slashes s) = ends_slash s"
proof (induction s rule: squeeze_slashes.induct)
  case (1 s)
  then show ?case using halve_last [of s] by (cases "s = []") (auto simp: ends_slash_def squeeze_slashes.simps [of s] squeeze_slashes.simps [of "[]"])
qed

lemma names_filter: "filter (\<lambda>n. n \<noteq> ''.'') (filter ((\<noteq>) []) (split_on slash s)) = names_of s"
  by (auto simp: names_of_def intro: filter_cong)

lemma squeeze_names_of: "names_of (squeeze_slashes s) = names_of s"
  by (simp only: names_filter [symmetric] squeeze_names)

lemma resolve_skip: "resolve_parts skip parts ps = resolve_parts (\<lambda>_. False) parts (filter (\<lambda>p. \<not> skip p) ps)"
  by (induction ps arbitrary: parts) auto

definition resolve :: "string list \<Rightarrow> fs_error + string list" where
  "resolve ps = resolve_parts (\<lambda>_. False) [] ps"

lemma canonicalize_posix:
  assumes "path \<noteq> []" and "CHR 0x00 \<notin> set path" and "detect_path_type path = POSIX"
  shows "canonicalize path =
    (case resolve (names_of path) of
       Inl e \<Rightarrow> Inl e
     | Inr ns \<Rightarrow> (let r = slash # join [slash] ns in Inr (if ends_slash path \<and> \<not> ends_slash r then r @ [slash] else r)))"
proof -
  have "resolve_parts (\<lambda>q. q = ''.'' \<or> q = []) [] (split_on slash (squeeze_slashes path)) = resolve (names_of path)"
    unfolding resolve_def squeeze_names_of [of path, symmetric]
    by (subst resolve_skip) (simp add: names_of_def conj_commute)
  then show ?thesis using assms by (cases "resolve (names_of path)") (simp_all add: canonicalize_def squeeze_ends)
qed

text \<open>A name as a path can hold it.\<close>

definition proper_name :: "string \<Rightarrow> bool" where
  "proper_name n = (n \<noteq> [] \<and> n \<noteq> ''.'' \<and> n \<noteq> ''..'' \<and> slash \<notin> set n)"

lemma split_on_chars: "p \<in> set (split_on d s) \<Longrightarrow> d \<notin> set p \<and> set p \<subseteq> set s"
proof (induction d s arbitrary: p rule: split_on.induct)
  case (2 d c cs)
  show ?case
  proof (cases "c = d")
    case True
    then show ?thesis using "2.IH"(1) "2.prems" by auto
  next
    case False
    obtain q qs where q: "split_on d cs = q # qs" using split_on_nonempty [of d cs] by (cases "split_on d cs") auto
    then have "p = c # q \<or> p \<in> set qs" using "2.prems" False by simp
    then show ?thesis using "2.IH"(2) [OF False, of q] "2.IH"(2) [OF False, of p] q False by auto
  qed
qed simp

lemma names_proper: "n \<in> set (names_of s) \<Longrightarrow> n = ''..'' \<or> proper_name n"
  using split_on_chars [of n slash s] by (auto simp: names_of_def proper_name_def)

lemma resolve_parts_proper:
  "resolve_parts (\<lambda>_. False) parts ps = Inr ns \<Longrightarrow> set parts \<subseteq> {n. proper_name n} \<Longrightarrow>
   set ps \<subseteq> {n. n = ''..'' \<or> proper_name n} \<Longrightarrow> set ns \<subseteq> {n. proper_name n} \<and> set ns \<subseteq> set parts \<union> set ps"
proof (induction ps arbitrary: parts)
  case Nil
  then show ?case by simp
next
  case (Cons p ps)
  have b: "set (butlast parts) \<subseteq> set parts" by (auto dest: in_set_butlastD)
  show ?case
  proof (cases "p = ''..''")
    case True
    then show ?thesis
      using Cons.prems Cons.IH [of "butlast parts"] Cons.IH [of parts] b by (auto split: if_splits) blast+
  next
    case False
    then show ?thesis using Cons.prems Cons.IH [of "parts @ [p]"] by auto
  qed
qed

lemma resolve_proper: "resolve (names_of s) = Inr ns \<Longrightarrow> list_all proper_name ns \<and> set ns \<subseteq> set (names_of s)"
  using resolve_parts_proper [of "[]" "names_of s" ns] names_proper [of _ s] by (auto simp: resolve_def list_all_iff)

lemma split_on_join:
  "list_all (\<lambda>n. d \<notin> set n) ns \<Longrightarrow> ns \<noteq> [] \<Longrightarrow> split_on d (join [d] ns) = ns"
proof (induction "[d]" ns rule: join.induct)
  case (2 s)
  then show ?case by (simp add: split_on_plain)
next
  case (3 s t ss)
  then show ?case using split_on_append [of d s "join [d] (t # ss)"] by simp
qed simp

lemma split_on_join_slash:
  "list_all (\<lambda>n. d \<notin> set n) ns \<Longrightarrow> ns \<noteq> [] \<Longrightarrow> split_on d (join [d] ns @ [d]) = ns @ [[]]"
proof (induction "[d]" ns rule: join.induct)
  case (2 s)
  then show ?case using split_on_append [of d s "[]"] by simp
next
  case (3 s t ss)
  then show ?case using split_on_append [of d s "join [d] (t # ss) @ [d]"] by simp
qed simp

text \<open>The canonical text of a list of names.\<close>

definition path_text :: "string list \<Rightarrow> bool \<Rightarrow> string" where
  "path_text ns trailing = slash # join [slash] ns @ (if trailing \<and> ns \<noteq> [] then [slash] else [])"

lemma join_last: "list_all proper_name ns \<Longrightarrow> ns \<noteq> [] \<Longrightarrow> join [d] ns \<noteq> [] \<and> last (join [d] ns) \<noteq> slash"
proof (induction "[d]" ns rule: join.induct)
  case (2 s)
  then show ?case by (simp add: proper_name_def) (metis last_in_set)
qed simp_all

lemma names_path_text: "list_all proper_name ns \<Longrightarrow> names_of (path_text ns t) = ns"
proof -
  assume p: "list_all proper_name ns"
  then have s: "list_all (\<lambda>n. slash \<notin> set n) ns" by (simp add: list_all_iff proper_name_def)
  have f: "filter (\<lambda>n. n \<noteq> [] \<and> n \<noteq> ''.'') ns = ns" using p by (auto simp: list_all_iff proper_name_def filter_id_conv)
  show ?thesis
    using split_on_join [OF s] split_on_join_slash [OF s] f by (cases "ns = []") (auto simp: names_of_def path_text_def)
qed

lemma ends_path_text: "list_all proper_name ns \<Longrightarrow> ends_slash (path_text ns t) = (t \<or> ns = [])"
  using join_last [of ns slash] by (auto simp: ends_slash_def path_text_def)

lemma canonicalize_text:
  assumes "path \<noteq> []" and "CHR 0x00 \<notin> set path" and "detect_path_type path = POSIX" and "resolve (names_of path) = Inr ns"
  shows "canonicalize path = Inr (path_text ns (ends_slash path))"
proof -
  have "list_all proper_name ns" using resolve_proper [OF assms(4)] by simp
  then show ?thesis
    using join_last [of ns slash] by (cases "ns = []") (auto simp: canonicalize_posix [OF assms(1-3)] assms(4) path_text_def ends_slash_def)
qed

lemma resolve_parts_plain: "''..'' \<notin> set ps \<Longrightarrow> resolve_parts (\<lambda>_. False) parts ps = Inr (parts @ ps)"
  by (induction ps arbitrary: parts) auto

lemma resolve_plain: "list_all proper_name ns \<Longrightarrow> resolve ns = Inr ns"
  using resolve_parts_plain [of ns "[]"] by (auto simp: resolve_def list_all_iff proper_name_def)

section \<open>What canonical paths mean\<close>

text \<open>How far a list of names climbs: \<open>..\<close> goes one up, any other name one down.\<close>

definition depth :: "string list \<Rightarrow> int" where
  "depth ps = sum_list (map (\<lambda>p. if p = ''..'' then - 1 else 1) ps)"

lemma depth_simps [simp]: "depth [] = 0" "depth (p # ps) = (if p = ''..'' then - 1 else 1) + depth ps"
  by (simp_all add: depth_def)

lemma take_Cons_ex: "(\<exists>k. P (take k (p # ps))) \<longleftrightarrow> P [] \<or> (\<exists>k. P (p # take k ps))"
  by (metis take_0 take_Suc_Cons not0_implies_Suc)

lemma take_Cons_all: "(\<forall>k. P (take k (p # ps))) \<longleftrightarrow> P [] \<and> (\<forall>k. P (p # take k ps))"
  by (metis take_0 take_Suc_Cons not0_implies_Suc)

lemma resolve_parts_outcome:
  "''..'' \<notin> set parts \<Longrightarrow>
   (case resolve_parts (\<lambda>_. False) parts ps of
      Inl e \<Rightarrow> e = VFSError \<and> (\<exists>k. int (length parts) + depth (take k ps) < 0)
    | Inr ns \<Rightarrow> (\<forall>k. 0 \<le> int (length parts) + depth (take k ps)) \<and> int (length ns) = int (length parts) + depth ps)"
proof (induction ps arbitrary: parts)
  case Nil
  then show ?case by simp
next
  case (Cons p ps)
  show ?case
  proof (cases "p = ''..''")
    case True
    show ?thesis
    proof (cases "parts = []")
      case True
      have "depth (take 1 (p # ps)) < 0" using \<open>p = ''..''\<close> by simp
      then show ?thesis using True \<open>p = ''..''\<close> by (auto intro: exI [of _ 1])
    next
      case False
      have nd: "''..'' \<notin> set (butlast parts)" "last parts \<noteq> ''..''"
        using Cons.prems False last_in_set [OF False] by (metis in_set_butlastD, metis)
      have len: "int (length (butlast parts)) + d = int (length parts) + (- 1 + d)" for d
        using False by (cases parts) auto
      show ?thesis
        using Cons.IH [OF nd(1)] False nd(2) True
        unfolding len take_Cons_ex [of "\<lambda>t. int (length parts) + depth t < 0"]
          take_Cons_all [of "\<lambda>t. 0 \<le> int (length parts) + depth t"]
        by (auto split: sum.splits)
    qed
  next
    case False
    have nd: "''..'' \<notin> set (parts @ [p])" using Cons.prems False by simp
    have len: "int (length (parts @ [p])) + d = int (length parts) + (1 + d)" for d by simp
    show ?thesis
      using Cons.IH [OF nd] False
      unfolding len take_Cons_ex [of "\<lambda>t. int (length parts) + depth t < 0"]
        take_Cons_all [of "\<lambda>t. 0 \<le> int (length parts) + depth t"]
      by (auto split: sum.splits)
  qed
qed

lemma resolve_outcome:
  "case resolve ps of
     Inl e \<Rightarrow> e = VFSError \<and> (\<exists>k. depth (take k ps) < 0)
   | Inr ns \<Rightarrow> (\<forall>k. 0 \<le> depth (take k ps)) \<and> int (length ns) = depth ps"
  using resolve_parts_outcome [of "[]" ps] by (auto simp: resolve_def split: sum.splits)

lemma join_chars: "c \<in> set (join [d] ns) \<Longrightarrow> c = d \<or> (\<exists>n\<in>set ns. c \<in> set n)"
  by (induction "[d]" ns rule: join.induct) auto

lemma path_text_chars: "c \<in> set (path_text ns t) \<Longrightarrow> c = slash \<or> (\<exists>n\<in>set ns. c \<in> set n)"
  using join_chars [of c slash ns] by (auto simp: path_text_def split: if_splits)

lemma name_chars: "n \<in> set (names_of s) \<Longrightarrow> set n \<subseteq> set s"
  using split_on_chars [of n slash s] by (auto simp: names_of_def)

lemma absolute_text [simp]: "absolute (path_text ns t)"
  by (simp add: absolute_def path_text_def)

lemma type_text: "detect_path_type (path_text ns t) = (if length (path_text ns t) > 1 \<and> path_text ns t ! 1 = CHR '':'' then WINDOWS else POSIX)"
  by (simp add: detect_path_type_def path_text_def)

text \<open>On a path that is read as a POSIX path, canonicalisation fails exactly when some beginning of it
  climbs above the root, and otherwise yields an absolute path of proper names, none of them \<open>.\<close> or
  \<open>..\<close>, as many as the path's depth, which canonicalisation leaves alone (unless its first name
  begins with a colon, which would make it a Windows path).\<close>

theorem canonicalize_outcome:
  assumes "path \<noteq> []" and "CHR 0x00 \<notin> set path" and "detect_path_type path = POSIX"
  shows "case canonicalize path of
      Inl e \<Rightarrow> e = VFSError \<and> (\<exists>k. depth (take k (names_of path)) < 0)
    | Inr q \<Rightarrow> (\<forall>k. 0 \<le> depth (take k (names_of path))) \<and> absolute q \<and> list_all proper_name (names_of q) \<and>
        int (length (names_of q)) = depth (names_of path) \<and> (detect_path_type q = POSIX \<longrightarrow> canonicalize q = Inr q)"
proof (cases "resolve (names_of path)")
  case (Inl e)
  then show ?thesis using resolve_outcome [of "names_of path"] by (simp add: canonicalize_posix [OF assms])
next
  case (Inr ns)
  let ?q = "path_text ns (ends_slash path)"
  have c: "canonicalize path = Inr ?q" by (rule canonicalize_text [OF assms Inr])
  have p: "list_all proper_name ns" "set ns \<subseteq> set (names_of path)" using resolve_proper [OF Inr] by simp_all
  have "CHR 0x00 \<notin> set ?q" using p(2) assms(2) name_chars [of _ path] path_text_chars [of "CHR 0x00" ns] by fastforce
  moreover have "?q \<noteq> []" by (simp add: path_text_def)
  moreover have "resolve (names_of ?q) = Inr ns" using p(1) by (simp add: names_path_text resolve_plain)
  ultimately have "detect_path_type ?q = POSIX \<longrightarrow> canonicalize ?q = Inr (path_text ns (ends_slash ?q))"
    using canonicalize_text [of ?q ns] by blast
  moreover have "path_text ns (ends_slash ?q) = ?q" using ends_path_text [OF p(1)] by (auto simp: path_text_def)
  ultimately show ?thesis
    using resolve_outcome [of "names_of path"] Inr p(1) c by (simp add: names_path_text)
qed

theorem canonicalize_outcome_witness:
  "canonicalize ''/a//b/../c/'' = Inr ''/a/c/'' \<and> canonicalize ''/a/c/'' = Inr ''/a/c/'' \<and> canonicalize ''/a/../..'' = Inl VFSError"
proof -
  have "detect_path_type ''/a//b/../c/'' = POSIX" "detect_path_type ''/a/c/'' = POSIX" "detect_path_type ''/a/../..'' = POSIX"
    by code_simp+
  moreover have "canonicalize ''/a//b/../c/'' = Inr ''/a/c/''" by code_simp
  moreover have "depth (take 3 (names_of ''/a/../..'')) = - 1" by code_simp
  then have "\<not> 0 \<le> depth (take 3 (names_of ''/a/../..''))" by simp
  then have "\<not> (\<forall>k. 0 \<le> depth (take k (names_of ''/a/../..'')))" by blast
  ultimately show ?thesis
    using canonicalize_outcome [of "''/a//b/../c/''"] canonicalize_outcome [of "''/a/../..''"]
    by (simp split: sum.splits)
qed

section \<open>Subpaths\<close>

lemma canonical_text:
  assumes "canonicalize s = Inr q" and "backslash \<notin> set s"
  shows "\<exists>ns. q = path_text ns (ends_slash s) \<and> list_all proper_name ns \<and> list_all (\<lambda>n. backslash \<notin> set n) ns \<and> backslash \<notin> set q"
proof -
  have ne: "s \<noteq> []" "CHR 0x00 \<notin> set s" using assms(1) by (auto simp: canonicalize_def split: if_splits)
  have posix: "detect_path_type s = POSIX"
  proof (rule ccontr)
    assume w: "detect_path_type s \<noteq> POSIX"
    have "take 2 s \<noteq> [backslash, backslash]" using assms(2) by (metis in_set_takeD list.set_intros(1))
    then have "length s > 1 \<and> s ! 1 = CHR '':''" using w by (auto simp: detect_path_type_def split: if_splits)
    then have "take 2 (replace_char slash backslash s) \<noteq> [backslash, backslash]"
      by (cases s rule: list.exhaust [case_names Nil Cons]; cases "tl s") (auto simp: replace_char_def split: if_splits)
    then show False using assms(1) ne w by (cases "detect_path_type s") (auto simp: canonicalize_def)
  qed
  obtain ns where r: "resolve (names_of s) = Inr ns"
    using assms(1) by (cases "resolve (names_of s)") (auto simp: canonicalize_posix [OF ne posix])
  have p: "list_all proper_name ns" "set ns \<subseteq> set (names_of s)" using resolve_proper [OF r] by simp_all
  have n: "list_all (\<lambda>n. backslash \<notin> set n) ns" using p(2) name_chars [of _ s] assms(2) by (fastforce simp: list_all_iff)
  have q: "q = path_text ns (ends_slash s)" using canonicalize_text [OF ne posix r] assms(1) by simp
  have "backslash \<notin> set q" using n path_text_chars [of backslash ns] by (auto simp: q list_all_iff)
  then show ?thesis using p(1) n q by blast
qed

text \<open>The text that \<open>_is_subpath\<close> compares.\<close>

definition dir_text :: "string list \<Rightarrow> string" where
  "dir_text ns = concat (map (\<lambda>n. slash # n) ns) @ [slash]"

lemma dir_text_Cons: "dir_text (n # ns) = slash # n @ dir_text ns"
  by (simp add: dir_text_def)

lemma dir_text_join: "ns \<noteq> [] \<Longrightarrow> slash # join [slash] ns = concat (map (\<lambda>n. slash # n) ns)"
  by (induction "[slash]" ns rule: join.induct) auto

lemma rstrip_text:
  assumes "list_all proper_name ns" and "list_all (\<lambda>n. backslash \<notin> set n) ns"
  shows "rstrip_seps (path_text ns t) @ [slash] = dir_text ns"
proof (cases "ns = []")
  case True
  then show ?thesis by (simp add: rstrip_seps_def path_text_def dir_text_def)
next
  case False
  let ?P = "\<lambda>c. c = slash \<or> c = backslash" and ?j = "slash # join [slash] ns"
  have "last ?j \<noteq> slash" "?j \<noteq> []" using join_last [OF assms(1) False, of slash] by simp_all
  moreover have "last ?j \<noteq> backslash"
    using calculation join_chars [of backslash slash ns] assms(2) last_in_set [of ?j] by (auto simp: list_all_iff)
  ultimately have d: "dropWhile ?P (rev ?j) = rev ?j" unfolding dropWhile_eq_self_iff hd_rev by blast
  then have "rstrip_seps (path_text ns t) = ?j" using False by (simp add: rstrip_seps_def path_text_def)
  then show ?thesis using dir_text_join [OF False] by (simp add: dir_text_def)
qed

lemma prefix_at_slash:
  "slash \<notin> set x \<Longrightarrow> slash \<notin> set y \<Longrightarrow> prefix (x @ slash # u) (y @ slash # v) \<longleftrightarrow> x = y \<and> prefix u v"
proof (induction x arbitrary: y)
  case Nil
  then show ?case by (cases y) auto
next
  case (Cons c x)
  then show ?case by (cases y) auto
qed

lemma dir_text_slash: "\<exists>v. dir_text ns = slash # v"
  by (cases ns) (simp_all add: dir_text_def)

lemma dir_text_prefix:
  "list_all proper_name xs \<Longrightarrow> list_all proper_name ys \<Longrightarrow> prefix (dir_text xs) (dir_text ys) \<longleftrightarrow> prefix xs ys"
proof (induction xs arbitrary: ys)
  case Nil
  then show ?case using dir_text_slash [of ys] by (auto simp: dir_text_def [of "[]"])
next
  case (Cons x xs)
  show ?case
  proof (cases ys)
    case Nil
    then show ?thesis using Cons.prems by (auto simp: dir_text_def proper_name_def)
  next
    case (Cons y zs)
    obtain u v where uv: "dir_text xs = slash # u" "dir_text zs = slash # v" using dir_text_slash by metis
    have p: "slash \<notin> set x" "slash \<notin> set y" "list_all proper_name xs" "list_all proper_name zs"
      using Cons.prems Cons by (auto simp: proper_name_def [of x] proper_name_def [of y])
    have "prefix (dir_text (x # xs)) (dir_text ys) \<longleftrightarrow> x = y \<and> prefix u v"
      using prefix_at_slash [OF p(1,2)] by (simp add: Cons dir_text_Cons uv)
    also have "prefix u v \<longleftrightarrow> prefix (dir_text xs) (dir_text zs)" by (simp add: uv)
    also have "\<dots> \<longleftrightarrow> prefix xs zs" by (rule Cons.IH [OF p(3,4)])
    finally show ?thesis by (simp add: Cons)
  qed
qed

lemma subpath_names:
  assumes "is_subpath base q = Inr r" and "backslash \<notin> set base" and "backslash \<notin> set q"
  shows "\<exists>b c. canonicalize base = Inr b \<and> canonicalize q = Inr c \<and> r = prefix (names_of b) (names_of c)"
proof -
  obtain b c where bc: "canonicalize base = Inr b" "canonicalize q = Inr c"
    using assms(1) by (auto simp: is_subpath_def split: sum.splits)
  obtain bs where bs: "b = path_text bs (ends_slash base)" "list_all proper_name bs" "list_all (\<lambda>n. backslash \<notin> set n) bs"
    using canonical_text [OF bc(1) assms(2)] by blast
  obtain cs where cs: "c = path_text cs (ends_slash q)" "list_all proper_name cs" "list_all (\<lambda>n. backslash \<notin> set n) cs"
    using canonical_text [OF bc(2) assms(3)] by blast
  have "r = prefix (rstrip_seps b @ [slash]) (rstrip_seps c @ [slash])" using assms(1) bc by (simp add: is_subpath_def)
  also have "\<dots> = prefix bs cs" unfolding bs(1) cs(1) rstrip_text [OF bs(2,3)] rstrip_text [OF cs(2,3)] by (rule dir_text_prefix [OF bs(2) cs(2)])
  finally show ?thesis using bc bs cs by (auto simp: names_path_text)
qed

text \<open>A canonical path is its own canonical path, if \<open>_is_subpath\<close> accepts to read it at all.\<close>

lemma canonical_again:
  assumes "canonicalize s = Inr q" and "backslash \<notin> set s" and "canonicalize q = Inr c"
  shows "c = q"
proof -
  obtain ns where ns: "q = path_text ns (ends_slash s)" "list_all proper_name ns" "backslash \<notin> set q"
    using canonical_text [OF assms(1,2)] by blast
  have ne: "q \<noteq> []" "CHR 0x00 \<notin> set q" using assms(3) by (auto simp: canonicalize_def split: if_splits)
  have "detect_path_type q = POSIX"
  proof (rule ccontr)
    assume w: "detect_path_type q \<noteq> POSIX"
    then have "q ! 1 = CHR '':''" "length q > 1" using ns(1) by (auto simp: type_text split: if_splits)
    then have "take 2 (replace_char slash backslash q) \<noteq> [backslash, backslash]"
      by (cases q; cases "tl q") (auto simp: replace_char_def split: if_splits)
    then show False using assms(3) ne w by (cases "detect_path_type q") (auto simp: canonicalize_def)
  qed
  moreover have "resolve (names_of q) = Inr ns" using ns by (simp add: names_path_text resolve_plain)
  ultimately have "c = path_text ns (ends_slash q)" using canonicalize_text [OF ne] assms(3) by simp
  also have "\<dots> = q" using ns ends_path_text [OF ns(2)] by (auto simp: path_text_def)
  finally show ?thesis .
qed

section \<open>What the check lets through\<close>

lemma refuse_ok: "refuse_forbidden q fs = Inr u \<Longrightarrow> list_all (\<lambda>f. is_subpath f q = Inr False) fs"
  by (induction fs) (auto split: sum.splits if_splits)

lemma safe_path_Inr:
  assumes "safe_path sandbox path = Inr q"
  shows "canonicalize path = Inr q" and "check_sandbox sandbox q = Inr ()"
    and "list_all (\<lambda>f. is_subpath f q = Inr False) FORBIDDEN_PATHS" and "\<not> root_only q" and "length q \<le> 4096"
  using assms refuse_ok [of q FORBIDDEN_PATHS] by (auto simp: safe_path_def split: sum.splits if_splits)

text \<open>A path at or below a directory, in the names \<open>pathlib\<close> sees.\<close>

definition lies_under :: "string \<Rightarrow> string \<Rightarrow> bool" where
  "lies_under dir q = prefix (names_of dir) (names_of q)"

lemma no_backslash_result: "canonicalize s = Inr q \<Longrightarrow> backslash \<notin> set s \<Longrightarrow> backslash \<notin> set q"
  using canonical_text by blast

lemma subpath_lies_under:
  assumes "canonicalize s = Inr q" and "backslash \<notin> set s" and "is_subpath base q = Inr r" and "backslash \<notin> set base"
  shows "\<exists>b. canonicalize base = Inr b \<and> r = lies_under b q"
proof -
  obtain b c where "canonicalize base = Inr b" "canonicalize q = Inr c" "r = prefix (names_of b) (names_of c)"
    using subpath_names [OF assms(3,4) no_backslash_result [OF assms(1,2)]] by blast
  then show ?thesis using canonical_again [OF assms(1,2)] by (auto simp: lies_under_def)
qed

lemma forbidden_canonical: "list_all (\<lambda>f. canonicalize f = Inr f \<and> backslash \<notin> set f) FORBIDDEN_PATHS"
  by code_simp

text \<open>A path without backslashes that passes the check is absolute, made of proper names, lies in the
  sandbox and in none of the forbidden directories.\<close>

theorem safe_path_confined:
  assumes "safe_path (Some base) path = Inr q" and "backslash \<notin> set path" and "backslash \<notin> set base" and "canonicalize base = Inr b"
  shows "absolute q \<and> list_all proper_name (names_of q) \<and> lies_under b q \<and> list_all (\<lambda>f. \<not> lies_under f q) FORBIDDEN_PATHS"
proof -
  note s = safe_path_Inr [OF assms(1)]
  obtain ns where ns: "q = path_text ns (ends_slash path)" "list_all proper_name ns" using canonical_text [OF s(1) assms(2)] by blast
  have "base \<noteq> []" using assms(4) by (auto simp: canonicalize_def)
  then have "is_subpath base q = Inr True" using s(2) by (auto simp: check_sandbox_def split: sum.splits if_splits)
  from subpath_lies_under [OF s(1) assms(2) this assms(3)] have "lies_under b q" using assms(4) by simp
  moreover have "\<not> lies_under f q" if "f \<in> set FORBIDDEN_PATHS" for f
    using subpath_lies_under [OF s(1) assms(2), of f False] s(3) that forbidden_canonical by (auto simp: list_all_iff)
  ultimately show ?thesis using ns by (simp add: names_path_text list_all_iff)
qed

theorem safe_path_confined_witness:
  "\<exists>q. safe_path (Some ''/safe/zone'') ''/safe/zone/../zone/./a/b'' = Inr q \<and> lies_under ''/safe/zone'' q \<and> \<not> lies_under ''/etc'' q"
proof -
  have "safe_path (Some ''/safe/zone'') ''/safe/zone/../zone/./a/b'' = Inr ''/safe/zone/a/b''" by code_simp
  moreover have "backslash \<notin> set ''/safe/zone/../zone/./a/b''" "backslash \<notin> set ''/safe/zone''" by code_simp+
  moreover have "canonicalize ''/safe/zone'' = Inr ''/safe/zone''" by code_simp
  moreover have "''/etc'' \<in> set FORBIDDEN_PATHS" by code_simp
  ultimately show ?thesis using safe_path_confined [of "''/safe/zone''" "''/safe/zone/../zone/./a/b''"] by (auto simp: list_all_iff)
qed

text \<open>With backslashes the sandbox leaks: a sibling whose name ends in one passes for the sandbox itself, and
  a UNC path can leave the root behind.  A path with a drive letter raises \<open>re.error\<close>, which is
  not a \<open>VFSError\<close>.  A trailing slash makes another path.\<close>

lemma backslash_sibling_passes: "safe_path (Some ''/safe/zone'') (''/safe/zone'' @ [backslash]) = Inr (''/safe/zone'' @ [backslash])"
  by code_simp

lemma unc_path_becomes_relative:
  "safe_path (Some ''/safe'') ([backslash, backslash] @ ''..'' @ [backslash] @ ''..'' @ [backslash] @ ''safe'') = Inr ''safe''"
  by code_simp

lemma drive_letter_raises: "safe_path None ''C:/x'' = Inl PatternError \<and> \<not> is_vfs_error PatternError"
  by code_simp

lemma trailing_slash_differs: "safe_path None ''/a/b/'' = Inr ''/a/b/'' \<and> safe_path None ''/a/b'' = Inr ''/a/b''"
  by code_simp

text \<open>The directories above a forbidden one pass.\<close>

lemma parents_of_forbidden_pass: "safe_path None ''/usr'' = Inr ''/usr'' \<and> safe_path None ''/'' = Inr ''/''"
  by code_simp

end
