(* ===== verification/PyDict.thy ===== *)
theory PyDict
  imports SqlTables
begin

text \<open>
  Python dictionaries, which keep the order of insertion, as keyed tables: assignment replaces a
  value in place or appends it, \<open>pop\<close> removes it.
\<close>

definition dict_set :: "'k \<Rightarrow> 'v \<Rightarrow> ('k, 'v) table \<Rightarrow> ('k, 'v) table" where
  "dict_set k v d = (if row_at k d = None then d @ [(k, v)] else update_row k (\<lambda>_. v) d)"

text \<open>What the clients rely on, and what loops of assignments and pops come to.\<close>

locale dictionary =
  fixes get :: "'k \<Rightarrow> 'd \<Rightarrow> 'v option" and put :: "'k \<Rightarrow> 'v \<Rightarrow> 'd \<Rightarrow> 'd" and del :: "'k \<Rightarrow> 'd \<Rightarrow> 'd"
  assumes get_put: "get k' (put k v d) = (if k' = k then Some v else get k' d)"
    and get_del: "get k' (del k d) = (if k' = k then None else get k' d)"
begin

lemma get_put_same [simp]: "get k (put k v d) = Some v"
  by (simp add: get_put)

lemma get_put_mono: "get k' d \<noteq> None \<Longrightarrow> get k' (put k v d) \<noteq> None"
  by (simp add: get_put)

lemma get_dels: "get k (fold del ks d) = (if k \<in> set ks then None else get k d)"
  by (induction ks arbitrary: d) (simp_all add: get_del)

lemma get_puts: "get k (fold (\<lambda>(k, v). put k v) kvs d) = (case map_of (rev kvs) k of None \<Rightarrow> get k d | Some v \<Rightarrow> Some v)"
  by (induction kvs arbitrary: d) (auto simp: get_put split: option.split)

end

interpretation dict: dictionary row_at dict_set delete_row
  by unfold_locales (auto simp: dict_set_def sql.read_upd row_at_append row_at_other row_at_delete split: option.split)

lemma dict_set_keys: "fst ` set (dict_set k v d) = insert k (fst ` set d)"
proof -
  have "fst ` set (update_row k f d) = fst ` set d" for f
    by (force simp: update_row_def)
  moreover have "k \<in> fst ` set d \<longleftrightarrow> row_at k d \<noteq> None" by (simp add: row_at_def map_of_eq_None_iff)
  ultimately show ?thesis by (auto simp: dict_set_def)
qed

lemma dict_set_unique: "keys_unique d \<Longrightarrow> keys_unique (dict_set k v d)"
  by (auto simp: dict_set_def sql.wf_upd) (auto simp: keys_unique_def row_at_def map_of_eq_None_iff)

lemma row_at_keys: "row_at k d \<noteq> None \<longleftrightarrow> k \<in> fst ` set d"
  by (simp add: row_at_def map_of_eq_None_iff)

end
