(* ===== verification/FsStore.thy ===== *)
theory FsStore
  imports FsPaths PyDict "HOL-Library.List_Lexorder"
begin

text \<open>
  The store of the in-memory file system (\<open>VirtualFileSystem\<close> of \<open>virtual_fs.py\<close>) and the
  operations that work on it at once; \<open>H\<close> is SHA-256 as a hexadecimal string, \<open>now\<close> the clock.
\<close>

section \<open>State\<close>

text \<open>Text decoded from bytes: bytes that are not the UTF-8 of a string of the model are kept as
  they are, for the text with replacement characters.\<close>

datatype fs_text = Plain string | Replaced "byte list"

datatype fs_content = TextContent string | BytesContent "byte list" | OtherContent

datatype fs_kind = FILE | DIR

record fs_entry =
  ve_type :: fs_kind
  ve_content :: "fs_text option"
  ve_bytes :: "byte list option"
  ve_mode :: int
  ve_created :: rat
  ve_modified :: rat
  ve_owner :: string
  ve_metadata :: "(string \<times> string) list"
  ve_hash :: "string option"

datatype staging_type = OpWrite | OpMkdir | OpDelete | OpMove | OpChmod

record staging_op =
  so_type :: staging_type
  so_path :: string
  so_new_path :: "string option"
  so_content :: "fs_content option"
  so_mode :: "int option"

type_synonym store = "(string, fs_entry) table"

record vfs =
  vf_store :: store
  vf_staging :: "(string, staging_op) table"
  vf_sandbox :: "string option"
  vf_backups :: nat
  vf_op_count :: nat
  vf_total_staged :: nat
  vf_total_applied :: nat
  vf_total_rolled_back :: nat

definition new_entry :: "rat \<Rightarrow> fs_kind \<Rightarrow> int \<Rightarrow> string \<Rightarrow> (string \<times> string) list \<Rightarrow> fs_entry" where
  "new_entry now kind mode owner metadata =
     \<lparr>ve_type = kind, ve_content = None, ve_bytes = None, ve_mode = mode, ve_created = now, ve_modified = now,
      ve_owner = owner, ve_metadata = metadata, ve_hash = None\<rparr>"

definition decode_text :: "byte list \<Rightarrow> fs_text" where
  "decode_text bs = (case utf8_decode bs of Inr s \<Rightarrow> Plain s | Inl _ \<Rightarrow> Replaced bs)"

definition update_content :: "(byte list \<Rightarrow> string) \<Rightarrow> rat \<Rightarrow> fs_content \<Rightarrow> fs_entry \<Rightarrow> fs_entry" where
  "update_content H now content en =
     (let en1 = (case content of
            TextContent s \<Rightarrow> en\<lparr>ve_content := Some (Plain s), ve_bytes := Some (utf8_encode s)\<rparr>
          | BytesContent bs \<Rightarrow> en\<lparr>ve_content := Some (decode_text bs), ve_bytes := Some bs\<rparr>
          | OtherContent \<Rightarrow> en\<lparr>ve_content := None, ve_bytes := None\<rparr>)
      in en1\<lparr>ve_hash := (case ve_bytes en1 of None \<Rightarrow> None | Some bs \<Rightarrow> if bs = [] then None else Some (H bs)),
             ve_modified := now\<rparr>)"

text \<open>An entry has bytes whenever it has content.\<close>

definition entry_size :: "fs_entry \<Rightarrow> nat" where
  "entry_size en = (case ve_bytes en of Some bs \<Rightarrow> length bs
     | None \<Rightarrow> (case ve_content en of Some (Plain s) \<Rightarrow> length (utf8_encode s) | _ \<Rightarrow> 0))"

definition new_vfs :: "rat \<Rightarrow> string option \<Rightarrow> fs_error + vfs" where
  "new_vfs now sandbox_root =
     (let v = \<lparr>vf_store = [(''/'', new_entry now DIR 493 ''vfs'' [])], vf_staging = [], vf_sandbox = None, vf_backups = 0,
               vf_op_count = 0, vf_total_staged = 0, vf_total_applied = 0, vf_total_rolled_back = 0\<rparr>
      in case sandbox_root of
           None \<Rightarrow> Inr v
         | Some base \<Rightarrow> if base = [] then Inr v
             else (case canonicalize base of Inl e \<Rightarrow> Inl e | Inr b \<Rightarrow> Inr (v\<lparr>vf_sandbox := Some b\<rparr>)))"

section \<open>Reading\<close>

definition safe :: "vfs \<Rightarrow> string \<Rightarrow> fs_error + string" where
  "safe v path = safe_path (vf_sandbox v) path"

definition entry_at :: "string \<Rightarrow> vfs \<Rightarrow> fs_error + fs_entry option" where
  "entry_at path v = (case safe v path of Inl e \<Rightarrow> Inl e | Inr q \<Rightarrow> Inr (row_at q (vf_store v)))"

definition test_entry :: "(fs_entry \<Rightarrow> bool) \<Rightarrow> string \<Rightarrow> vfs \<Rightarrow> fs_error + bool" where
  "test_entry P path v =
     (case entry_at path v of
        Inl e \<Rightarrow> if is_vfs_error e then Inr False else Inl e
      | Inr None \<Rightarrow> Inr False
      | Inr (Some en) \<Rightarrow> Inr (P en))"

definition vfs_exists :: "string \<Rightarrow> vfs \<Rightarrow> fs_error + bool" where
  "vfs_exists = test_entry (\<lambda>_. True)"

definition vfs_is_dir :: "string \<Rightarrow> vfs \<Rightarrow> fs_error + bool" where
  "vfs_is_dir = test_entry (\<lambda>en. ve_type en = DIR)"

definition vfs_is_file :: "string \<Rightarrow> vfs \<Rightarrow> fs_error + bool" where
  "vfs_is_file = test_entry (\<lambda>en. ve_type en = FILE)"

definition file_at :: "string \<Rightarrow> vfs \<Rightarrow> fs_error + fs_entry" where
  "file_at path v =
     (case entry_at path v of
        Inl e \<Rightarrow> Inl e
      | Inr None \<Rightarrow> Inl VFSError
      | Inr (Some en) \<Rightarrow> if ve_type en \<noteq> FILE then Inl VFSError else Inr en)"

definition vfs_read :: "string \<Rightarrow> vfs \<Rightarrow> fs_error + fs_text option" where
  "vfs_read path v = (case file_at path v of Inl e \<Rightarrow> Inl e | Inr en \<Rightarrow> Inr (ve_content en))"

definition vfs_read_bytes :: "string \<Rightarrow> vfs \<Rightarrow> fs_error + byte list option" where
  "vfs_read_bytes path v = (case file_at path v of Inl e \<Rightarrow> Inl e | Inr en \<Rightarrow> Inr (ve_bytes en))"

definition rstrip_slash :: "string \<Rightarrow> string" where
  "rstrip_slash s = rev (dropWhile (\<lambda>c. c = slash) (rev s))"

definition dir_prefix :: "string \<Rightarrow> string" where
  "dir_prefix q = rstrip_slash q @ [slash]"

definition is_child :: "string \<Rightarrow> string \<Rightarrow> bool" where
  "is_child q p = (prefix (dir_prefix q) p \<and> p \<noteq> q \<and> slash \<notin> set (rstrip_slash (drop (length (dir_prefix q)) p)))"

definition list_dir :: "string \<Rightarrow> vfs \<Rightarrow> fs_error + string list" where
  "list_dir path v =
     (case safe v path of
        Inl e \<Rightarrow> Inl e
      | Inr q \<Rightarrow>
          (case row_at q (vf_store v) of
             None \<Rightarrow> Inl VFSError
           | Some en \<Rightarrow> if ve_type en \<noteq> DIR then Inl VFSError
               else Inr (sort (filter (is_child q) (map fst (vf_store v))))))"

text \<open>\<open>get_info\<close> adds the canonical path and the size to the entry.\<close>

definition get_info :: "string \<Rightarrow> vfs \<Rightarrow> fs_error + string \<times> nat \<times> fs_entry" where
  "get_info path v =
     (case safe v path of
        Inl e \<Rightarrow> Inl e
      | Inr q \<Rightarrow> (case row_at q (vf_store v) of None \<Rightarrow> Inl VFSError | Some en \<Rightarrow> Inr (q, entry_size en, en)))"

section \<open>Writing\<close>

lemma resolve_parts_subset: "resolve_parts skip parts ps = Inr ns \<Longrightarrow> set ns \<subseteq> set parts \<union> set ps"
proof (induction ps arbitrary: parts)
  case (Cons p ps)
  have "set (butlast parts) \<subseteq> set parts" by (auto dest: in_set_butlastD)
  then show ?case
    using Cons.IH [of parts] Cons.IH [of "butlast parts"] Cons.IH [of "parts @ [p]"] Cons.prems
    by (auto split: if_splits)
qed simp

text \<open>On a Windows path, the parent is \<open>.\<close>: the canonical form has no slash.\<close>

lemma windows_parent:
  assumes "canonicalize path = Inr q" and "detect_path_type path = WINDOWS"
  shows "names_of (py_parent q) = []" and "names_of path \<noteq> []"
proof -
  let ?p = "replace_char slash backslash path"
  have ne: "path \<noteq> []" "CHR 0x00 \<notin> set path" using assms(1) by (auto simp: canonicalize_def split: if_splits)
  have two: "take 2 ?p = [backslash, backslash]" using assms ne by (auto simp: canonicalize_def split: if_splits)
  obtain parts where parts: "resolve_parts (\<lambda>q. q = ''.'') [] (split_on backslash ?p) = Inr parts" "q = join [backslash] parts"
    using assms ne two by (auto simp: canonicalize_def split: sum.splits)
  have "slash \<notin> set n" if "n \<in> set parts" for n
    using resolve_parts_subset [OF parts(1)] split_on_chars [of n backslash ?p] that by (auto simp: replace_char_def split: if_splits)
  then have noslash: "slash \<notin> set q" using join_chars [of slash backslash parts] by (auto simp: parts(2))
  have "length (names_of q) \<le> 1" using noslash by (simp add: names_of_def split_on_plain)
  moreover have "\<not> absolute q" using noslash by (cases q) (auto simp: absolute_def)
  ultimately have "py_parent q = ''.''" by (simp add: py_parent_def)
  then show "names_of (py_parent q) = []" by (simp add: names_of_def)
  obtain c d cs where path: "path = c # d # cs" using two by (cases path; cases "tl path") (auto simp: replace_char_def)
  then have "d \<noteq> CHR '':''" using two by (auto simp: replace_char_def split: if_splits)
  then have "c = backslash" using assms(2) path by (auto simp: detect_path_type_def split: if_splits)
  then have "(backslash # hd (split_on slash (d # cs))) \<in> set (names_of path)"
    unfolding path \<open>c = backslash\<close> names_of_def split_on_Cons [of slash backslash] by simp
  then show "names_of path \<noteq> []" by auto
qed

lemma names_of_parent:
  assumes "canonicalize path = Inr q" and "q \<noteq> ''/''"
  shows "length (names_of (py_parent q)) < length (names_of path)"
proof (cases "detect_path_type path")
  case POSIX
  have ne: "path \<noteq> []" "CHR 0x00 \<notin> set path" using assms(1) by (auto simp: canonicalize_def split: if_splits)
  obtain ns where r: "resolve (names_of path) = Inr ns"
    using assms(1) by (cases "resolve (names_of path)") (auto simp: canonicalize_posix [OF ne POSIX])
  have q: "q = path_text ns (ends_slash path)" using canonicalize_text [OF ne POSIX r] assms(1) by simp
  have p: "list_all proper_name ns" using resolve_proper [OF r] by simp
  then have bl: "list_all proper_name (butlast ns)" by (auto simp: list_all_iff dest: in_set_butlastD)
  have "ns \<noteq> []" using assms(2) q by (auto simp: path_text_def)
  moreover have "py_parent q = path_text (butlast ns) False" using p by (simp add: q py_parent_def names_path_text) (simp add: path_text_def)
  ultimately have "length (names_of (py_parent q)) < length ns" using bl by (simp add: names_path_text)
  moreover have "depth ps \<le> int (length ps)" for ps by (induction ps) auto
  then have "length ns \<le> length (names_of path)" using resolve_outcome [of "names_of path"] r by (simp add: ) (metis of_nat_le_iff)
  ultimately show ?thesis by simp
next
  case WINDOWS
  then show ?thesis using windows_parent [OF assms(1)] by simp
qed

text \<open>\<open>_mkdir_p\<close> adds the directories above without checking them.\<close>

function mkdir_p :: "rat \<Rightarrow> string \<Rightarrow> store \<Rightarrow> fs_error + store" where
  "mkdir_p now path t =
     (case canonicalize path of
        Inl e \<Rightarrow> Inl e
      | Inr q \<Rightarrow>
          if q = ''/'' \<or> row_at q t \<noteq> None then Inr t
          else (case (if py_parent q \<noteq> q then mkdir_p now (py_parent q) t else Inr t) of
                  Inl e \<Rightarrow> Inl e
                | Inr t' \<Rightarrow> Inr (dict_set q (new_entry now DIR 493 ''vfs'' []) t')))"
  by pat_completeness auto
termination by (relation "measure (\<lambda>(now, path, t). length (names_of path))") (use names_of_parent in auto)

declare mkdir_p.simps [simp del]

definition ensure_parent :: "rat \<Rightarrow> string \<Rightarrow> store \<Rightarrow> fs_error + store" where
  "ensure_parent now q t = (if py_parent q \<noteq> q then mkdir_p now (py_parent q) t else Inr t)"

definition count_op :: "store \<Rightarrow> vfs \<Rightarrow> vfs" where
  "count_op t v = v\<lparr>vf_store := t, vf_op_count := vf_op_count v + 1\<rparr>"

definition write_immediate ::
  "(byte list \<Rightarrow> string) \<Rightarrow> rat \<Rightarrow> string \<Rightarrow> fs_content \<Rightarrow> int \<Rightarrow> string \<Rightarrow> (string \<times> string) list \<Rightarrow> vfs
     \<Rightarrow> fs_error + fs_entry \<times> vfs" where
  "write_immediate H now path content mode owner metadata v =
     (case safe v path of
        Inl e \<Rightarrow> Inl e
      | Inr q \<Rightarrow>
          (case ensure_parent now q (vf_store v) of
             Inl e \<Rightarrow> Inl e
           | Inr t \<Rightarrow>
               (let en = update_content H now content (new_entry now FILE mode owner metadata)
                in Inr (en, count_op (dict_set q en t) v))))"

definition mkdir_immediate :: "rat \<Rightarrow> string \<Rightarrow> int \<Rightarrow> string \<Rightarrow> vfs \<Rightarrow> fs_error + fs_entry \<times> vfs" where
  "mkdir_immediate now path mode owner v =
     (case safe v path of
        Inl e \<Rightarrow> Inl e
      | Inr q \<Rightarrow>
          (case row_at q (vf_store v) of
             Some en \<Rightarrow> if ve_type en = DIR then Inr (en, v) else Inl VFSError
           | None \<Rightarrow>
               (case ensure_parent now q (vf_store v) of
                  Inl e \<Rightarrow> Inl e
                | Inr t \<Rightarrow> (let en = new_entry now DIR mode owner [] in Inr (en, count_op (dict_set q en t) v)))))"

definition delete_immediate :: "string \<Rightarrow> vfs \<Rightarrow> fs_error + vfs" where
  "delete_immediate path v =
     (case safe v path of
        Inl e \<Rightarrow> Inl e
      | Inr q \<Rightarrow>
          (case row_at q (vf_store v) of
             None \<Rightarrow> Inl VFSError
           | Some en \<Rightarrow>
               (let below = (if ve_type en = DIR then filter (prefix (dir_prefix q)) (map fst (vf_store v)) else [])
                in Inr (count_op (delete_row q (fold delete_row below (vf_store v))) v))))"

text \<open>\<open>s.replace(src, dst, 1)\<close> on a path that begins with \<open>src\<close>.\<close>

definition relocate :: "string \<Rightarrow> string \<Rightarrow> string \<Rightarrow> string" where
  "relocate src dst p = dst @ drop (length src) p"

definition move_entry :: "string \<Rightarrow> string \<Rightarrow> string \<Rightarrow> store \<Rightarrow> store" where
  "move_entry src dst p t =
     (case row_at p t of None \<Rightarrow> t | Some en \<Rightarrow> dict_set (relocate src dst p) en (delete_row p t))"

definition move_immediate :: "string \<Rightarrow> string \<Rightarrow> vfs \<Rightarrow> fs_error + vfs" where
  "move_immediate src dst v =
     (case safe v src of
        Inl e \<Rightarrow> Inl e
      | Inr s \<Rightarrow>
          (case safe v dst of
             Inl e \<Rightarrow> Inl e
           | Inr d \<Rightarrow>
               (case row_at s (vf_store v) of
                  None \<Rightarrow> Inl VFSError
                | Some en \<Rightarrow>
                    if row_at d (vf_store v) \<noteq> None then Inl VFSError
                    else if ve_type en = DIR
                    then Inr (count_op (fold (move_entry s d)
                           (filter (\<lambda>p. prefix (dir_prefix s) p \<or> p = s) (map fst (vf_store v))) (vf_store v)) v)
                    else Inr (count_op (dict_set d en (delete_row s (vf_store v))) v))))"

section \<open>Big files\<close>

record big_write =
  bw_path :: string
  bw_size :: nat
  bw_hash :: "string option"
  bw_warning :: bool

definition write_big_file ::
  "(byte list \<Rightarrow> string) \<Rightarrow> rat \<Rightarrow> string \<Rightarrow> fs_content \<Rightarrow> int \<Rightarrow> string \<Rightarrow> (string \<times> string) list \<Rightarrow> int \<Rightarrow> vfs
     \<Rightarrow> fs_error + big_write \<times> vfs" where
  "write_big_file H now path content mode owner metadata max_size v =
     (case (case content of TextContent s \<Rightarrow> Inr (utf8_encode s) | BytesContent bs \<Rightarrow> Inr bs | OtherContent \<Rightarrow> Inl VFSBigFileError) of
        Inl e \<Rightarrow> Inl e
      | Inr data \<Rightarrow>
          if int (length data) > max_size then Inl VFSBigFileError
          else (case write_immediate H now path (BytesContent data) mode owner metadata v of
                  Inl e \<Rightarrow> Inl e
                | Inr (en, v') \<Rightarrow>
                    Inr (\<lparr>bw_path = (case safe v path of Inr q \<Rightarrow> q | Inl _ \<Rightarrow> path), bw_size = length data,
                          bw_hash = ve_hash en, bw_warning = length data > 100 * 1024 * 1024\<rparr>, v')))"

record big_read =
  br_content :: "byte list"
  br_total :: int
  br_offset :: int
  br_count :: int
  br_hash :: "string option"
  br_truncated :: bool
  br_remaining :: int

definition read_big_file :: "string \<Rightarrow> int \<Rightarrow> int option \<Rightarrow> vfs \<Rightarrow> fs_error + big_read" where
  "read_big_file path offset limit v =
     (case file_at path v of
        Inl e \<Rightarrow> Inl e
      | Inr en \<Rightarrow>
          (let data = (case ve_bytes en of None \<Rightarrow> [] | Some bs \<Rightarrow> bs); total = int (length data)
           in if offset < 0 then Inl VFSError
              else if offset > total
              then Inr \<lparr>br_content = [], br_total = total, br_offset = offset, br_count = 0, br_hash = ve_hash en,
                        br_truncated = False, br_remaining = 0\<rparr>
              else if (case limit of None \<Rightarrow> False | Some n \<Rightarrow> n < 0) then Inl VFSError
              else (let rest = drop (nat offset) data; chunk = (case limit of None \<Rightarrow> rest | Some n \<Rightarrow> take (nat n) rest);
                        end = offset + int (length chunk)
                    in Inr \<lparr>br_content = chunk, br_total = total, br_offset = offset, br_count = int (length chunk),
                            br_hash = ve_hash en, br_truncated = end < total, br_remaining = total - end\<rparr>)))"

section \<open>What the operations do to the store\<close>

text \<open>\<open>_mkdir_p\<close> keeps what is there and adds only empty directories, the one asked for among them.\<close>

definition new_dir :: "rat \<Rightarrow> fs_entry" where
  "new_dir now = new_entry now DIR 493 ''vfs'' []"

lemma mkdir_p_effect:
  "mkdir_p now path t = Inr t' \<Longrightarrow> ''/'' \<in> fst ` set t \<Longrightarrow>
   row_at p t' = (case row_at p t of Some en \<Rightarrow> Some en | None \<Rightarrow> row_at p t') \<and>
   (row_at p t = None \<longrightarrow> row_at p t' = None \<or> row_at p t' = Some (new_dir now)) \<and>
   (\<forall>q. canonicalize path = Inr q \<longrightarrow> row_at q t' \<noteq> None)"
proof (induction now path t arbitrary: t' rule: mkdir_p.induct)
  case (1 now path t)
  obtain q where q: "canonicalize path = Inr q" using "1.prems"(1) by (auto simp: mkdir_p.simps [of now path] split: sum.splits)
  show ?case
  proof (cases "q = ''/'' \<or> row_at q t \<noteq> None")
    case True
    have "row_at ''/'' t \<noteq> None" using "1.prems"(2) by (simp only: row_at_keys)
    then show ?thesis using True "1.prems"(1) q by (auto simp: mkdir_p.simps [of now path] split: option.split)
  next
    case False
    obtain t1 where t1: "(if py_parent q \<noteq> q then mkdir_p now (py_parent q) t else Inr t) = Inr t1" "t' = dict_set q (new_dir now) t1"
      using "1.prems"(1) False q by (auto simp: mkdir_p.simps [of now path] new_dir_def split: sum.splits if_splits)
    have "row_at p t1 = (case row_at p t of Some en \<Rightarrow> Some en | None \<Rightarrow> row_at p t1) \<and>
      (row_at p t = None \<longrightarrow> row_at p t1 = None \<or> row_at p t1 = Some (new_dir now))"
      using "1.IH" [OF q False, of t1] "1.prems"(2) t1(1) by (cases "py_parent q = q") (auto split: option.splits)
    then show ?thesis using t1(2) False q by (auto simp: dict.get_put split: option.splits)
  qed
qed

definition has_root :: "vfs \<Rightarrow> bool" where
  "has_root v = (row_at ''/'' (vf_store v) \<noteq> None)"

lemma ensure_parent_effect:
  assumes "ensure_parent now q t = Inr t'" and "row_at ''/'' t \<noteq> None"
  shows "row_at p t \<noteq> None \<Longrightarrow> row_at p t' = row_at p t"
    and "row_at p t = None \<Longrightarrow> row_at p t' = None \<or> row_at p t' = Some (new_dir now)"
proof -
  have "''/'' \<in> fst ` set t" using assms(2) by (simp only: row_at_keys)
  then have e: "row_at p t' = (case row_at p t of Some en \<Rightarrow> Some en | None \<Rightarrow> row_at p t') \<and>
      (row_at p t = None \<longrightarrow> row_at p t' = None \<or> row_at p t' = Some (new_dir now))"
    using assms(1) mkdir_p_effect [of now "py_parent q" t t' p] by (auto simp: ensure_parent_def split: if_splits option.splits)
  show "row_at p t \<noteq> None \<Longrightarrow> row_at p t' = row_at p t" using e by (auto split: option.splits)
  show "row_at p t = None \<Longrightarrow> row_at p t' = None \<or> row_at p t' = Some (new_dir now)" using e by blast
qed

text \<open>After a write, reading the path yields the text and the bytes written, every other entry that was
  there is unchanged, and what was added besides are empty directories.\<close>

theorem write_then_read:
  assumes "write_immediate H now path content mode owner md v = Inr (en, v')" and "has_root v" and "safe v path = Inr q"
  shows "vfs_read_bytes path v' = Inr (case content of TextContent s \<Rightarrow> Some (utf8_encode s) | BytesContent bs \<Rightarrow> Some bs | OtherContent \<Rightarrow> None) \<and>
    row_at q (vf_store v') = Some en \<and> has_root v' \<and> vf_staging v' = vf_staging v \<and>
    (p \<noteq> q \<longrightarrow> (case row_at p (vf_store v) of
        Some x \<Rightarrow> row_at p (vf_store v') = Some x
      | None \<Rightarrow> row_at p (vf_store v') = None \<or> row_at p (vf_store v') = Some (new_dir now)))"
proof -
  obtain t where t: "ensure_parent now q (vf_store v) = Inr t"
    and en: "en = update_content H now content (new_entry now FILE mode owner md)"
    and v': "v' = count_op (dict_set q en t) v"
    using assms(1,3) by (auto simp: write_immediate_def split: sum.splits)
  have root: "row_at ''/'' (vf_store v) \<noteq> None" using assms(2) by (simp add: has_root_def)
  note e = ensure_parent_effect [OF t root, of p] and r = ensure_parent_effect(1) [OF t root, of "''/''"]
  have s: "safe v' path = Inr q" using assms(3) by (simp add: safe_def v' count_op_def)
  have "ve_type en = FILE" "ve_bytes en = (case content of TextContent s \<Rightarrow> Some (utf8_encode s) | BytesContent bs \<Rightarrow> Some bs | OtherContent \<Rightarrow> None)"
    by (simp_all add: en update_content_def new_entry_def split: fs_content.split)
  then have "vfs_read_bytes path v' = Inr (case content of TextContent s \<Rightarrow> Some (utf8_encode s) | BytesContent bs \<Rightarrow> Some bs | OtherContent \<Rightarrow> None)"
    using s by (simp add: vfs_read_bytes_def file_at_def entry_at_def v' count_op_def)
  moreover have "row_at q (vf_store v') = Some en" by (simp add: v' count_op_def)
  moreover have "has_root v'" "vf_staging v' = vf_staging v"
    using r root by (auto simp: has_root_def v' count_op_def dict.get_put)
  moreover have "p \<noteq> q \<longrightarrow> (case row_at p (vf_store v) of
        Some x \<Rightarrow> row_at p (vf_store v') = Some x
      | None \<Rightarrow> row_at p (vf_store v') = None \<or> row_at p (vf_store v') = Some (new_dir now))"
    using e by (auto simp: v' count_op_def dict.get_put split: option.split)
  ultimately show ?thesis by blast
qed

definition vfs_example :: vfs where
  "vfs_example = (case new_vfs 0 (Some ''/safe/zone'') of Inr v \<Rightarrow> v | Inl _ \<Rightarrow> undefined)"

theorem write_then_read_witness:
  "\<exists>en v'. write_immediate (\<lambda>bs. ''h'') 1 ''/safe/zone/a/../b/f'' (TextContent ''hi'') 420 ''vfs'' [] vfs_example = Inr (en, v') \<and>
     vfs_read_bytes ''/safe/zone/a/../b/f'' v' = Inr (Some (utf8_encode ''hi'')) \<and> row_at ''/safe/zone/b/f'' (vf_store v') = Some en"
proof -
  let ?w = "write_immediate (\<lambda>bs. ''h'') 1 ''/safe/zone/a/../b/f'' (TextContent ''hi'') 420 ''vfs'' [] vfs_example"
  have "case ?w of Inl _ \<Rightarrow> False | Inr _ \<Rightarrow> True" by code_simp
  then obtain en v' where w: "?w = Inr (en, v')" by (cases ?w) (auto simp: split: prod.splits)
  have root: "has_root vfs_example" by code_simp
  have s: "safe vfs_example ''/safe/zone/a/../b/f'' = Inr ''/safe/zone/b/f''" by code_simp
  show ?thesis using write_then_read [OF w root s] w by auto
qed

text \<open>A file read page by page.\<close>

lemma read_page:
  assumes "file_at path v = Inr en" and "ve_bytes en = Some data" and "0 \<le> n" and "0 \<le> off" and "off \<le> int (length data)"
  shows "\<exists>r. read_big_file path off (Some n) v = Inr r \<and> br_content r = take (nat n) (drop (nat off) data) \<and>
    br_remaining r = int (length data) - off - int (length (br_content r)) \<and> br_truncated r = (br_remaining r > 0) \<and>
    br_count r = int (length (br_content r)) \<and> 0 \<le> br_remaining r"
  using assms by (auto simp: read_big_file_def)

fun pages :: "nat \<Rightarrow> string \<Rightarrow> int \<Rightarrow> int \<Rightarrow> vfs \<Rightarrow> byte list" where
  "pages 0 path off n v = []"
| "pages (Suc k) path off n v =
     (case read_big_file path off (Some n) v of
        Inl e \<Rightarrow> []
      | Inr r \<Rightarrow> br_content r @ (if br_truncated r then pages k path (off + br_count r) n v else []))"

text \<open>Reading a file page by page, each page from where the last one ended, until a page is not marked
  truncated, yields the file; as many pages as bytes are enough.\<close>

theorem pages_cover:
  assumes "file_at path v = Inr en" and "ve_bytes en = Some data" and "0 < n" and "length data \<le> k"
  shows "pages (Suc k) path 0 n v = data"
proof -
  have "pages (Suc k) path (int off) n v = drop off data" if "off \<le> length data" "length data - off \<le> k" for off k
    using that
  proof (induction k arbitrary: off)
    case 0
    then show ?case using read_page [OF assms(1,2), of n "int off"] assms(3) by fastforce
  next
    case (Suc k)
    obtain r where r: "read_big_file path (int off) (Some n) v = Inr r" "br_content r = take (nat n) (drop off data)"
      "br_remaining r = int (length data) - int off - int (length (br_content r))" "br_truncated r = (br_remaining r > 0)"
      "br_count r = int (length (br_content r))" "0 \<le> br_remaining r"
      using read_page [OF assms(1,2), of n "int off"] assms(3) Suc.prems by auto
    show ?case
    proof (cases "br_truncated r")
      case True
      have len: "length (br_content r) = nat n" using True r(2-4) by (auto simp: min_def split: if_splits)
      then have "0 < length (br_content r)" using assms(3) by simp
      then have ih: "pages (Suc k) path (int (off + nat n)) n v = drop (off + nat n) data"
        using True r(3,4) Suc.prems len by (intro Suc.IH) linarith+
      have next_off: "int off + br_count r = int (off + nat n)" using r(5) len by simp
      have "pages (Suc (Suc k)) path (int off) n v = br_content r @ pages (Suc k) path (int off + br_count r) n v"
        using True r(1) by simp
      also have "\<dots> = take (nat n) (drop off data) @ drop (nat n) (drop off data)"
        unfolding next_off ih r(2) by (simp add: add.commute)
      also have "\<dots> = drop off data" by (rule append_take_drop_id)
      finally show ?thesis .
    next
      case False
      then have "length (drop off data) \<le> nat n" using r(2-4,6) by (auto simp: min_def split: if_splits)
      then show ?thesis using False r(1,2) by simp
    qed
  qed
  from this [of 0 k] show ?thesis using assms(4) by simp
qed

end
