(* ===== verification/FsApply.thy ===== *)
theory FsApply
  imports FsStore
begin

text \<open>
  Staging, validation and application to the real file system (\<open>virtual_fs.py\<close>).  The disk is
  a table of files and directories under their names from the root, without links and with all
  permissions granted; a path that is not absolute is taken from the working directory, and texts
  are written as UTF-8.
\<close>

section \<open>The disk\<close>

type_synonym real_path = "string list"

datatype node = FileNode "byte list" int | DirNode int

type_synonym real_fs = "(real_path, node) table"

text \<open>Working directory, the modes new files and directories get, and the file name a backup gets.\<close>

record host =
  ho_cwd :: real_path
  ho_dir_mode :: int
  ho_file_mode :: int
  ho_backup_name :: "real_path \<Rightarrow> string"

definition locate :: "host \<Rightarrow> string \<Rightarrow> real_path" where
  "locate h s = (if absolute s then names_of s else ho_cwd h @ names_of s)"

text \<open>A step on the disk may raise after it has changed something.\<close>

type_synonym step = "py_error option \<times> real_fs"

definition and_then :: "step \<Rightarrow> (real_fs \<Rightarrow> step) \<Rightarrow> step" where
  "and_then s f = (case s of (Some e, d) \<Rightarrow> (Some e, d) | (None, d) \<Rightarrow> f d)"

text \<open>\<open>mkdir(parents=True, exist_ok=True)\<close>: an ancestor that is a file makes it fail before anything
  is created.\<close>

function make_dirs :: "host \<Rightarrow> real_path \<Rightarrow> real_fs \<Rightarrow> step" where
  "make_dirs h p d =
     (case row_at p d of
        Some (DirNode m) \<Rightarrow> (None, d)
      | Some (FileNode c m) \<Rightarrow> (Some OSError, d)
      | None \<Rightarrow> if p = [] then (Some FileNotFoundError, d)
          else and_then (make_dirs h (butlast p) d) (\<lambda>d'. (None, dict_set p (DirNode (ho_dir_mode h)) d')))"
  by pat_completeness auto
termination by (relation "measure (\<lambda>(h, p, d). length p)") auto

declare make_dirs.simps [simp del]

definition set_mode :: "int \<Rightarrow> node \<Rightarrow> node" where
  "set_mode m n = (case n of FileNode c _ \<Rightarrow> FileNode c m | DirNode _ \<Rightarrow> DirNode m)"

definition change_mode :: "real_path \<Rightarrow> int \<Rightarrow> real_fs \<Rightarrow> step" where
  "change_mode p m d =
     (case row_at p d of None \<Rightarrow> (Some FileNotFoundError, d) | Some n \<Rightarrow> (None, dict_set p (set_mode m n) d))"

text \<open>\<open>write_bytes\<close> and \<open>touch\<close>, into a directory that is there.\<close>

definition write_node :: "host \<Rightarrow> real_path \<Rightarrow> byte list \<Rightarrow> real_fs \<Rightarrow> step" where
  "write_node h p bs d =
     (case row_at p d of
        None \<Rightarrow> (None, dict_set p (FileNode bs (ho_file_mode h)) d)
      | Some (FileNode _ m) \<Rightarrow> (None, dict_set p (FileNode bs m) d)
      | Some (DirNode _) \<Rightarrow> (Some OSError, d))"

definition touch_node :: "host \<Rightarrow> real_path \<Rightarrow> real_fs \<Rightarrow> step" where
  "touch_node h p d = (if row_at p d = None then (None, dict_set p (FileNode [] (ho_file_mode h)) d) else (None, d))"

text \<open>\<open>shutil.rmtree\<close>; the root itself cannot be removed.\<close>

definition remove_tree :: "real_path \<Rightarrow> real_fs \<Rightarrow> step" where
  "remove_tree p d =
     (if p = [] then (Some OSError, filter (\<lambda>(q, n). q = []) d) else (None, filter (\<lambda>(q, n). \<not> prefix p q) d))"

definition move_tree :: "real_path \<Rightarrow> real_path \<Rightarrow> real_fs \<Rightarrow> real_fs" where
  "move_tree src dst d =
     map (\<lambda>(q, n). if prefix src q then (dst @ drop (length src) q, n) else (q, n)) (delete_row dst d)"

definition has_children :: "real_path \<Rightarrow> real_fs \<Rightarrow> bool" where
  "has_children p d = list_ex (\<lambda>(q, n). strict_prefix p q) d"

text \<open>\<open>os.rename\<close>.\<close>

definition rename_node :: "real_path \<Rightarrow> real_path \<Rightarrow> real_fs \<Rightarrow> step" where
  "rename_node src dst d =
     (case row_at src d of
        None \<Rightarrow> (Some FileNotFoundError, d)
      | Some n \<Rightarrow>
          if src = [] \<or> dst = [] then (Some OSError, d)
          else if src = dst then (None, d)
          else (case n of
             FileNode _ _ \<Rightarrow>
               (case row_at dst d of
                  Some (DirNode _) \<Rightarrow> (Some OSError, d)
                | _ \<Rightarrow> (None, move_tree src dst d))
           | DirNode _ \<Rightarrow>
               if strict_prefix src dst then (Some OSError, d)
               else (case row_at dst d of
                  None \<Rightarrow> (None, move_tree src dst d)
                | Some (FileNode _ _) \<Rightarrow> (Some OSError, d)
                | Some (DirNode _) \<Rightarrow> if has_children dst d then (Some OSError, d) else (None, move_tree src dst d))))"

section \<open>Staging\<close>

definition stage :: "staging_op \<Rightarrow> vfs \<Rightarrow> vfs" where
  "stage op v = v\<lparr>vf_staging := dict_set (so_path op) op (vf_staging v), vf_total_staged := vf_total_staged v + 1\<rparr>"

definition stage_with :: "string \<Rightarrow> (string \<Rightarrow> staging_op) \<Rightarrow> vfs \<Rightarrow> fs_error + staging_op \<times> vfs" where
  "stage_with path f v = (case safe v path of Inl e \<Rightarrow> Inl e | Inr q \<Rightarrow> Inr (f q, stage (f q) v))"

definition stage_write :: "string \<Rightarrow> fs_content option \<Rightarrow> int \<Rightarrow> vfs \<Rightarrow> fs_error + staging_op \<times> vfs" where
  "stage_write path content mode =
     stage_with path (\<lambda>q. \<lparr>so_type = OpWrite, so_path = q, so_new_path = None, so_content = content, so_mode = Some mode\<rparr>)"

definition mkdir_op :: "string \<Rightarrow> int \<Rightarrow> staging_op" where
  "mkdir_op q mode = \<lparr>so_type = OpMkdir, so_path = q, so_new_path = None, so_content = None, so_mode = Some mode\<rparr>"

definition stage_mkdir :: "string \<Rightarrow> int \<Rightarrow> vfs \<Rightarrow> fs_error + staging_op \<times> vfs" where
  "stage_mkdir path mode = stage_with path (\<lambda>q. mkdir_op q mode)"

definition stage_delete :: "string \<Rightarrow> vfs \<Rightarrow> fs_error + staging_op \<times> vfs" where
  "stage_delete path =
     stage_with path (\<lambda>q. \<lparr>so_type = OpDelete, so_path = q, so_new_path = None, so_content = None, so_mode = None\<rparr>)"

definition stage_move :: "string \<Rightarrow> string \<Rightarrow> vfs \<Rightarrow> fs_error + staging_op \<times> vfs" where
  "stage_move src dst v =
     (case safe v src of
        Inl e \<Rightarrow> Inl e
      | Inr s \<Rightarrow> (case safe v dst of
          Inl e \<Rightarrow> Inl e
        | Inr t \<Rightarrow> (let op = \<lparr>so_type = OpMove, so_path = s, so_new_path = Some t, so_content = None, so_mode = None\<rparr>
                    in Inr (op, stage op v))))"

definition vfs_rollback :: "vfs \<Rightarrow> nat \<times> vfs" where
  "vfs_rollback v = (length (vf_staging v), v\<lparr>vf_staging := [], vf_total_rolled_back := vf_total_rolled_back v + 1\<rparr>)"

definition clear_staging :: "vfs \<Rightarrow> nat \<times> vfs" where
  "clear_staging v = (length (vf_staging v), v\<lparr>vf_staging := []\<rparr>)"

definition count_type :: "staging_type \<Rightarrow> vfs \<Rightarrow> nat" where
  "count_type ty v = length (filter (\<lambda>(k, op). so_type op = ty) (vf_staging v))"

text \<open>Number of operations, the types that occur with their counts, and the operations.\<close>

definition get_staging_summary :: "vfs \<Rightarrow> nat \<times> (staging_type \<times> nat) list \<times> (staging_type \<times> string \<times> string option) list" where
  "get_staging_summary v =
     (length (vf_staging v),
      map (\<lambda>ty. (ty, count_type ty v)) (rev (remdups (rev (map (\<lambda>(k, op). so_type op) (vf_staging v))))),
      map (\<lambda>(k, op). (so_type op, so_path op, so_new_path op)) (vf_staging v))"

definition get_stats :: "vfs \<Rightarrow> nat list \<times> string option" where
  "get_stats v =
     ([length (vf_store v), length (vf_staging v), vf_backups v, vf_op_count v, vf_total_staged v, vf_total_applied v,
       vf_total_rolled_back v], vf_sandbox v)"

section \<open>Validation\<close>

datatype validation_stage = SchemaStage | PreflightStage | SafetyStage | IntegrationStage

datatype fault =
    InvalidPath string | BadContent string | MissingDestination string | OutsideSandbox | ForbiddenPath string
  | RequiresRoot | PathTooLong | NullByte | PathError fs_error | CircularMove string
  | ParentMissing string string | WrittenAndDeleted string

record validation =
  vr_stage :: validation_stage
  vr_passed :: bool
  vr_errors :: "fault list"
  vr_warnings :: "fault list"

definition verdict :: "validation_stage \<Rightarrow> fault list \<Rightarrow> fault list \<Rightarrow> validation" where
  "verdict st errors warnings = \<lparr>vr_stage = st, vr_passed = (errors = []), vr_errors = errors, vr_warnings = warnings\<rparr>"

definition schema_errors :: "string \<times> staging_op \<Rightarrow> fault list" where
  "schema_errors e = (case e of (k, op) \<Rightarrow>
     (if so_path op = [] then [InvalidPath k] else []) @
     (if so_type op = OpWrite \<and> so_content op = Some OtherContent then [BadContent k] else []) @
     (if so_type op = OpMove \<and> (so_new_path op = None \<or> so_new_path op = Some []) then [MissingDestination k] else []))"

definition validate_schema_stage :: "vfs \<Rightarrow> validation" where
  "validate_schema_stage v = verdict SchemaStage (concat (map schema_errors (vf_staging v))) []"

text \<open>One operation of the snapshot: the staging table may gain the parent directory.\<close>

definition preflight_one ::
  "vfs \<Rightarrow> string \<times> staging_op \<Rightarrow> fault list \<times> (string, staging_op) table \<Rightarrow> fault list \<times> (string, staging_op) table" where
  "preflight_one v e acc = (case e of (k, op) \<Rightarrow> (case acc of (ws, staged) \<Rightarrow>
     (let parent = py_parent k;
          known = (row_at parent (vf_store v) \<noteq> None \<or>
             (row_at parent (vf_staging v) \<noteq> None \<and> map_option so_type (row_at parent staged) = Some OpMkdir));
          missing = ((so_type op = OpWrite \<or> so_type op = OpMkdir) \<and> parent \<noteq> k \<and> parent \<noteq> ''/'' \<and> \<not> known);
          staged' = (if missing \<and> row_at parent staged = None then dict_set parent (mkdir_op parent 493) staged else staged);
          clash = filter (\<lambda>(k2, op2). k2 \<noteq> k \<and> so_type op = OpWrite \<and> so_type op2 = OpDelete \<and> so_path op2 = k) staged'
      in (ws @ (if missing then [ParentMissing parent k] else []) @ map (\<lambda>_. WrittenAndDeleted k) clash, staged'))))"

definition validate_preflight :: "vfs \<Rightarrow> validation \<times> vfs" where
  "validate_preflight v =
     (let (ws, staged) = fold (preflight_one v) (vf_staging v) ([], vf_staging v)
      in (verdict PreflightStage [] ws, v\<lparr>vf_staging := staged\<rparr>))"

text \<open>The forbidden directories a path is in; testing may raise.\<close>

fun forbidden_errors :: "string \<Rightarrow> string list \<Rightarrow> fs_error + fault list" where
  "forbidden_errors q [] = Inr []"
| "forbidden_errors q (f # fs) =
     (case is_subpath f q of
        Inl e \<Rightarrow> Inl e
      | Inr b \<Rightarrow> (case forbidden_errors q fs of
          Inl e \<Rightarrow> Inl e
        | Inr es \<Rightarrow> Inr ((if b \<or> q = f then [ForbiddenPath q] else []) @ es)))"

definition caught :: "fault list \<Rightarrow> fs_error \<Rightarrow> fs_error + fault list" where
  "caught before e = (if is_vfs_error e then Inr (before @ [PathError e]) else Inl e)"

definition safety_errors :: "string option \<Rightarrow> string \<Rightarrow> fs_error + fault list" where
  "safety_errors sandbox path =
     (case canonicalize path of
        Inl e \<Rightarrow> caught [] e
      | Inr q \<Rightarrow>
          (case (case sandbox of
                   None \<Rightarrow> Inr []
                 | Some b \<Rightarrow> if b = [] then Inr []
                     else (case is_subpath b q of
                       Inl e \<Rightarrow> Inl e | Inr inside \<Rightarrow> Inr (if \<not> inside \<and> q \<noteq> b then [OutsideSandbox] else []))) of
             Inl e \<Rightarrow> caught [] e
           | Inr es \<Rightarrow>
               (case forbidden_errors q FORBIDDEN_PATHS of
                  Inl e \<Rightarrow> caught es e
                | Inr fs \<Rightarrow> Inr (es @ fs @ map (\<lambda>_. RequiresRoot) (filter (\<lambda>r. q = r \<or> prefix (r @ [slash]) q) ROOT_ONLY_PATHS) @
                      (if length q > 4096 then [PathTooLong] else []) @ (if CHR 0x00 \<in> set q then [NullByte] else [])))))"

fun all_safety_errors :: "string option \<Rightarrow> string list \<Rightarrow> fs_error + fault list" where
  "all_safety_errors sandbox [] = Inr []"
| "all_safety_errors sandbox (p # ps) =
     (case safety_errors sandbox p of
        Inl e \<Rightarrow> Inl e
      | Inr es \<Rightarrow> (case all_safety_errors sandbox ps of Inl e \<Rightarrow> Inl e | Inr rest \<Rightarrow> Inr (es @ rest)))"

definition validate_safety :: "vfs \<Rightarrow> fs_error + validation" where
  "validate_safety v =
     (case all_safety_errors (vf_sandbox v) (map fst (vf_staging v)) of
        Inl e \<Rightarrow> Inl e
      | Inr es \<Rightarrow> Inr (verdict SafetyStage es []))"

text \<open>Following the moves from a source until one is not moved or was visited before.\<close>

function move_cycle :: "(string, string) table \<Rightarrow> string list \<Rightarrow> string \<Rightarrow> bool" where
  "move_cycle m visited cur =
     (case row_at cur m of
        None \<Rightarrow> False
      | Some dst \<Rightarrow> if cur \<in> set visited then True else move_cycle m (cur # visited) dst)"
  by pat_completeness auto
termination
proof (relation "measure (\<lambda>(m, visited, cur). card (fst ` set m - set visited))")
  fix m :: "(string, string) table" and visited :: "string list" and cur dst
  assume a: "row_at cur m = Some dst" "\<not> cur \<in> set visited"
  then have "cur \<in> fst ` set m" by (metis row_at_keys option.distinct(1))
  then have "fst ` set m - set (cur # visited) \<subset> fst ` set m - set visited" using a(2) by auto
  then show "((m, cur # visited, dst), m, visited, cur) \<in> measure (\<lambda>(m, visited, cur). card (fst ` set m - set visited))"
    by (simp add: psubset_card_mono)
qed simp

declare move_cycle.simps [simp del]

definition move_map :: "vfs \<Rightarrow> (string, string) table" where
  "move_map v = fold (\<lambda>(k, op) m. case so_new_path op of
       Some dst \<Rightarrow> if so_type op = OpMove then dict_set (so_path op) dst m else m | None \<Rightarrow> m) (vf_staging v) []"

definition validate_integration :: "vfs \<Rightarrow> validation" where
  "validate_integration v =
     verdict IntegrationStage (map (\<lambda>(s, d). CircularMove s) (filter (\<lambda>(s, d). move_cycle (move_map v) [] s) (move_map v))) []"

definition validate_all :: "vfs \<Rightarrow> (fs_error + validation list) \<times> vfs" where
  "validate_all v =
     (let s = validate_schema_stage v
      in if \<not> vr_passed s then (Inr [s], v)
         else (let (p, v1) = validate_preflight v
               in if \<not> vr_passed p then (Inr [s, p], v1)
                  else (case validate_safety v1 of
                     Inl e \<Rightarrow> (Inl e, v1)
                   | Inr f \<Rightarrow> if \<not> vr_passed f then (Inr [s, p, f], v1) else (Inr [s, p, f, validate_integration v1], v1))))"

section \<open>Applying\<close>

text \<open>Content that is neither text nor bytes does not pass the first stage.\<close>

definition chmod_to :: "real_path \<Rightarrow> int option \<Rightarrow> real_fs \<Rightarrow> step" where
  "chmod_to p m d = (case m of None \<Rightarrow> (None, d) | Some x \<Rightarrow> change_mode p x d)"

text \<open>A move without a destination and a change of mode without one raise before they act.\<close>

definition apply_single_op :: "host \<Rightarrow> staging_op \<Rightarrow> real_fs \<Rightarrow> step" where
  "apply_single_op h op d =
     (let p = locate h (so_path op)
      in case so_type op of
           OpMkdir \<Rightarrow> and_then (make_dirs h p d) (chmod_to p (so_mode op))
         | OpWrite \<Rightarrow> and_then (and_then (make_dirs h (butlast p) d)
               (\<lambda>d. case so_content op of
                      Some (BytesContent bs) \<Rightarrow> write_node h p bs d
                    | Some (TextContent s) \<Rightarrow> write_node h p (utf8_encode s) d
                    | Some OtherContent \<Rightarrow> (Some TypeError, d)
                    | None \<Rightarrow> touch_node h p d)) (chmod_to p (so_mode op))
         | OpDelete \<Rightarrow> (case row_at p d of
               Some (DirNode m) \<Rightarrow> remove_tree p d
             | Some (FileNode c m) \<Rightarrow> (None, delete_row p d)
             | None \<Rightarrow> (None, d))
         | OpMove \<Rightarrow> (case so_new_path op of
               None \<Rightarrow> (Some TypeError, d)
             | Some t \<Rightarrow> and_then (make_dirs h (butlast (locate h t)) d) (rename_node p (locate h t)))
         | OpChmod \<Rightarrow> if row_at p d = None then (None, d)
             else (case so_mode op of None \<Rightarrow> (Some TypeError, d) | Some m \<Rightarrow> change_mode p m d))"

text \<open>What is saved of a path that exists: a copy of a file, or that it was a directory.\<close>

record backup =
  bk_path :: real_path
  bk_node :: node

definition backups_of :: "host \<Rightarrow> staging_op list \<Rightarrow> real_fs \<Rightarrow> backup list" where
  "backups_of h ops d =
     concat (map (\<lambda>op. case row_at (locate h (so_path op)) d of
        None \<Rightarrow> [] | Some n \<Rightarrow> [\<lparr>bk_path = locate h (so_path op), bk_node = n\<rparr>]) ops)"

text \<open>\<open>shutil.copy2\<close> into a directory puts the copy inside, under the backup's name.\<close>

definition restore_backup :: "host \<Rightarrow> backup \<Rightarrow> real_fs \<Rightarrow> step" where
  "restore_backup h b d =
     (let p = bk_path b
      in case bk_node b of
           DirNode _ \<Rightarrow> if row_at p d = None then make_dirs h p d else (None, d)
         | FileNode bs m \<Rightarrow>
             and_then (and_then (make_dirs h (butlast p) d)
               (\<lambda>d. let q = (case row_at p d of Some (DirNode _) \<Rightarrow> p @ [ho_backup_name h p] | _ \<Rightarrow> p)
                    in and_then (write_node h q bs d) (change_mode q m))) (change_mode p m))"

datatype apply_status = ApplyFailed | DryRun | Applied

datatype apply_message = StageFault validation_stage fault | ValidationAborted | OpFailed staging_type string py_error
  | RollingBack | RollbackFailed real_path py_error

record apply_result =
  ap_status :: apply_status
  ap_total :: nat
  ap_applied :: nat
  ap_failed :: nat
  ap_backups :: nat
  ap_errors :: "apply_message list"
  ap_warnings :: "apply_message list"
  ap_op_results :: "(staging_type \<times> string \<times> bool) list"

definition op_priority :: "staging_type \<Rightarrow> nat" where
  "op_priority ty = (case ty of OpMkdir \<Rightarrow> 0 | OpWrite \<Rightarrow> 1 | OpMove \<Rightarrow> 2 | OpChmod \<Rightarrow> 3 | OpDelete \<Rightarrow> 4)"

text \<open>The loop stops at the first operation that fails.\<close>

fun apply_ops :: "host \<Rightarrow> staging_op list \<Rightarrow> real_fs \<Rightarrow> (staging_op list \<times> (staging_op \<times> py_error) option) \<times> real_fs" where
  "apply_ops h [] d = (([], None), d)"
| "apply_ops h (op # ops) d =
     (case apply_single_op h op d of
        (Some e, d') \<Rightarrow> (([], Some (op, e)), d')
      | (None, d') \<Rightarrow> (case apply_ops h ops d' of ((done_ops, failed), d'') \<Rightarrow> ((op # done_ops, failed), d'')))"

fun restore_all :: "host \<Rightarrow> backup list \<Rightarrow> real_fs \<Rightarrow> apply_message list \<times> real_fs" where
  "restore_all h [] d = ([], d)"
| "restore_all h (b # bs) d =
     (case restore_backup h b d of (r, d') \<Rightarrow> (case restore_all h bs d' of (ms, d'') \<Rightarrow>
        ((case r of None \<Rightarrow> [] | Some e \<Rightarrow> [RollbackFailed (bk_path b) e]) @ ms, d'')))"

definition sorted_ops :: "vfs \<Rightarrow> staging_op list" where
  "sorted_ops v = sort_key (\<lambda>op. op_priority (so_type op)) (map snd (vf_staging v))"

text \<open>Application after validation has passed: result, staging and disk.\<close>

definition apply_staged :: "host \<Rightarrow> apply_result \<Rightarrow> vfs \<Rightarrow> real_fs \<Rightarrow> (apply_result \<times> vfs) \<times> real_fs" where
  "apply_staged h r v d =
     (let bks = backups_of h (map snd (vf_staging v)) d;
          v1 = v\<lparr>vf_backups := vf_backups v + length bks\<rparr>;
          ((done_ops, failed), d1) = apply_ops h (sorted_ops v) d;
          r1 = r\<lparr>ap_backups := length bks, ap_applied := length done_ops,
                 ap_op_results := map (\<lambda>op. (so_type op, so_path op, True)) done_ops\<rparr>
      in case failed of
           None \<Rightarrow> ((r1\<lparr>ap_status := Applied\<rparr>, v1\<lparr>vf_staging := [], vf_total_applied := vf_total_applied v + 1\<rparr>), d1)
         | Some (op, e) \<Rightarrow>
             (let (ms, d2) = restore_all h (rev bks) d1
              in ((r1\<lparr>ap_status := ApplyFailed, ap_failed := 1,
                      ap_op_results := ap_op_results r1 @ [(so_type op, so_path op, False)],
                      ap_errors := ap_errors r @ [OpFailed (so_type op) (so_path op) e, RollingBack] @ ms\<rparr>,
                   v1\<lparr>vf_total_rolled_back := vf_total_rolled_back v + 1\<rparr>), d2)))"

definition apply_changes :: "host \<Rightarrow> bool \<Rightarrow> vfs \<Rightarrow> real_fs \<Rightarrow> ((fs_error + apply_result) \<times> vfs) \<times> real_fs" where
  "apply_changes h dry_run v d =
     (case validate_all v of
        (Inl e, v1) \<Rightarrow> ((Inl e, v1), d)
      | (Inr vs, v1) \<Rightarrow>
          (let r = \<lparr>ap_status = ApplyFailed, ap_total = length (vf_staging v), ap_applied = 0, ap_failed = 0, ap_backups = 0,
                    ap_errors = concat (map (\<lambda>x. map (StageFault (vr_stage x)) (vr_errors x)) vs),
                    ap_warnings = concat (map (\<lambda>x. map (StageFault (vr_stage x)) (vr_warnings x)) vs), ap_op_results = []\<rparr>
           in if \<not> list_all vr_passed vs then ((Inr (r\<lparr>ap_errors := ValidationAborted # ap_errors r\<rparr>), v1), d)
              else if dry_run
              then ((Inr (r\<lparr>ap_status := DryRun, ap_op_results := map (\<lambda>(k, op). (so_type op, so_path op, True)) (vf_staging v1)\<rparr>), v1), d)
              else (case apply_staged h r v1 d of ((r', v2), d') \<Rightarrow> ((Inr r', v2), d'))))"

section \<open>The reading tool\<close>

text \<open>The path a file name leads to, without links.\<close>

fun os_walk :: "real_fs \<Rightarrow> real_path \<Rightarrow> string list \<Rightarrow> real_path option" where
  "os_walk d cur [] = Some cur"
| "os_walk d cur (n # ns) =
     (case row_at cur d of
        Some (DirNode m) \<Rightarrow> os_walk d (if n = ''..'' then butlast cur else cur @ [n]) ns
      | _ \<Rightarrow> None)"

text \<open>The tool \<open>vfs_read\<close> answers with the stored text, the text of a file on disk (given by its bytes), or
  that there is none.\<close>

datatype tool_answer = VirtualText fs_text | DiskText "byte list" | NoSuchFile

definition vfs_read_tool :: "host \<Rightarrow> string \<Rightarrow> vfs \<Rightarrow> real_fs \<Rightarrow> fs_error + tool_answer" where
  "vfs_read_tool h path v d =
     (case vfs_read path v of
        Inr (Some t) \<Rightarrow> Inr (VirtualText t)
      | Inr None \<Rightarrow> Inl (DiskError TypeError)
      | Inl e \<Rightarrow>
          if \<not> is_vfs_error e then Inl e
          else if CHR 0x00 \<in> set path then Inr NoSuchFile
          else (case os_walk d (if absolute path then [] else ho_cwd h) (names_of path) of
                  None \<Rightarrow> Inr NoSuchFile
                | Some p \<Rightarrow> (case row_at p d of Some (FileNode bs m) \<Rightarrow> Inr (DiskText bs) | _ \<Rightarrow> Inr NoSuchFile)))"

end
