(* ===== verification/FsSafety.thy ===== *)
theory FsSafety
  imports FsApply
begin

text \<open>
  What applying staged operations can do to the disk: with a sandbox, nothing outside it.
\<close>

section \<open>Relations that every step keeps\<close>

text \<open>A relation between an earlier and a later disk that composes holds across any sequence of steps
  each of which keeps it.\<close>

locale disk_relation =
  fixes R :: "real_fs \<Rightarrow> real_fs \<Rightarrow> bool"
  assumes R_refl: "R d d" and R_trans: "R d d1 \<Longrightarrow> R d1 d2 \<Longrightarrow> R d d2"
begin

lemma and_then_R: "R d (snd s) \<Longrightarrow> (\<And>d'. d' = snd s \<Longrightarrow> R d' (snd (f d'))) \<Longrightarrow> R d (snd (and_then s f))"
  by (cases s; cases "fst s") (auto simp: and_then_def intro: R_trans)

lemma apply_ops_R:
  assumes "\<And>op d. op \<in> set ops \<Longrightarrow> R d (snd (apply_single_op h op d))"
  shows "R d (snd (apply_ops h ops d))"
  using assms
proof (induction ops arbitrary: d)
  case Nil
  then show ?case by (simp add: R_refl)
next
  case (Cons op ops)
  obtain r d1 where s: "apply_single_op h op d = (r, d1)" by force
  have first: "R d d1" using Cons.prems [of op d] s by simp
  obtain x d2 where x: "apply_ops h ops d1 = (x, d2)" by (metis prod.exhaust)
  have "R d1 d2" using Cons.IH [of d1] Cons.prems x by simp
  then show ?case using s x first by (cases r; cases x) (auto intro: R_trans)
qed

lemma restore_all_R:
  assumes "\<And>b d. b \<in> set bs \<Longrightarrow> R d (snd (restore_backup h b d))"
  shows "R d (snd (restore_all h bs d))"
  using assms
proof (induction bs arbitrary: d)
  case Nil
  then show ?case by (simp add: R_refl)
next
  case (Cons b bs)
  obtain r d1 where s: "restore_backup h b d = (r, d1)" by force
  have first: "R d d1" using Cons.prems [of b d] s by simp
  obtain ms d2 where x: "restore_all h bs d1 = (ms, d2)" by force
  have "R d1 d2" using Cons.IH [of d1] Cons.prems x by simp
  then show ?case using s x first by (auto intro: R_trans)
qed

lemma apply_staged_R:
  assumes "\<And>k op d. (k, op) \<in> set (vf_staging v) \<Longrightarrow> R d (snd (apply_single_op h op d))"
    and "\<And>b d. b \<in> set (backups_of h (map snd (vf_staging v)) d0) \<Longrightarrow> R d (snd (restore_backup h b d))"
  shows "R d0 (snd (apply_staged h r v d0))"
proof -
  have ops: "R d0 (snd (apply_ops h (sorted_ops v) d0))"
    by (rule apply_ops_R) (use assms(1) in \<open>auto simp: sorted_ops_def\<close>)
  obtain a b d1 where d1: "apply_ops h (sorted_ops v) d0 = ((a, b), d1)" by (metis prod.exhaust)
  have "R d1 (snd (restore_all h (rev (backups_of h (map snd (vf_staging v)) d0)) d1))"
    by (rule restore_all_R) (use assms(2) in auto)
  then show ?thesis using ops d1 by (auto simp: apply_staged_def split_beta split: option.split intro: R_trans)
qed

end

section \<open>Rows the disk operations touch\<close>

lemma make_dirs_rows:
  "row_at r (snd (make_dirs h p d)) = row_at r d \<or>
   (row_at r d = None \<and> prefix r p \<and> row_at r (snd (make_dirs h p d)) = Some (DirNode (ho_dir_mode h)))"
proof (induction h p d rule: make_dirs.induct)
  case (1 h p d)
  show ?case
  proof (cases "row_at p d = None \<and> p \<noteq> []")
    case False
    then show ?thesis by (auto simp: make_dirs.simps [of h p d] split: option.split node.split)
  next
    case True
    obtain e d1 where m: "make_dirs h (butlast p) d = (e, d1)" by force
    have b: "prefix (butlast p) p" by (rule prefixeq_butlast)
    have "row_at r d1 = row_at r d \<or> (row_at r d = None \<and> prefix r p \<and> row_at r d1 = Some (DirNode (ho_dir_mode h)))"
      using "1" [of] True m b by (auto intro: prefix_order.trans)
    then show ?thesis using True m by (cases e) (auto simp: make_dirs.simps [of h p d] and_then_def dict.get_put)
  qed
qed

lemma row_at_moved:
  "\<not> P r \<Longrightarrow> (\<And>q. P q \<Longrightarrow> g q \<noteq> r) \<Longrightarrow> row_at r (map (\<lambda>(q, n). if P q then (g q, n) else (q, n)) t) = row_at r t"
  by (induction t) (auto simp: row_at_def, metis)

lemma row_at_filter: "P r \<Longrightarrow> row_at r (filter (\<lambda>(q, n). P q) t) = row_at r t"
  by (induction t) (auto simp: row_at_def)

lemma remove_tree_rows: "\<not> prefix p r \<Longrightarrow> row_at r (snd (remove_tree p d)) = row_at r d"
  using row_at_filter [of "\<lambda>q. \<not> prefix p q" r d] by (auto simp: remove_tree_def)

lemma move_tree_rows: "\<not> prefix src r \<Longrightarrow> \<not> prefix dst r \<Longrightarrow> row_at r (move_tree src dst d) = row_at r d"
proof -
  assume a: "\<not> prefix src r" "\<not> prefix dst r"
  then have "row_at r (move_tree src dst d) = row_at r (delete_row dst d)"
    unfolding move_tree_def by (intro row_at_moved) auto
  then show ?thesis using a by (auto simp: row_at_delete)
qed

lemma rename_rows: "\<not> prefix src r \<Longrightarrow> \<not> prefix dst r \<Longrightarrow> row_at r (snd (rename_node src dst d)) = row_at r d"
  using move_tree_rows [of src r dst d] by (auto simp: rename_node_def split: option.split node.split)

lemma write_rows: "r \<noteq> p \<Longrightarrow> row_at r (snd (write_node h p bs d)) = row_at r d"
  by (auto simp: write_node_def dict.get_put split: option.split node.split)

lemma touch_rows: "r \<noteq> p \<Longrightarrow> row_at r (snd (touch_node h p d)) = row_at r d"
  by (auto simp: touch_node_def dict.get_put)

lemma chmod_rows: "r \<noteq> p \<Longrightarrow> row_at r (snd (change_mode p m d)) = row_at r d"
  by (auto simp: change_mode_def dict.get_put split: option.split)

section \<open>Confinement\<close>

text \<open>Below the sandbox \<open>B\<close> anything may happen; outside it only missing directories above \<open>B\<close> may
  be created.\<close>

definition confined :: "real_path \<Rightarrow> real_fs \<Rightarrow> real_fs \<Rightarrow> bool" where
  "confined B d d' \<longleftrightarrow> (\<forall>r. \<not> prefix B r \<longrightarrow> row_at r d' = row_at r d \<or>
     (row_at r d = None \<and> strict_prefix r B \<and> (\<exists>m. row_at r d' = Some (DirNode m))))"

interpretation inside: disk_relation "confined B"
proof
  fix d d1 d2
  show "confined B d d" by (simp add: confined_def)
  assume a: "confined B d d1" "confined B d1 d2"
  show "confined B d d2"
    unfolding confined_def
  proof (intro allI impI)
    fix r
    assume "\<not> prefix B r"
    then show "row_at r d2 = row_at r d \<or> (row_at r d = None \<and> strict_prefix r B \<and> (\<exists>m. row_at r d2 = Some (DirNode m)))"
      using a [unfolded confined_def, rule_format, of r] by (metis option.distinct(1))
  qed
qed

lemma confined_rows: "(\<And>r. \<not> prefix B r \<Longrightarrow> row_at r d' = row_at r d) \<Longrightarrow> confined B d d'"
  by (simp add: confined_def)

lemma confined_make_dirs: "prefix B q \<Longrightarrow> prefix p q \<Longrightarrow> confined B d (snd (make_dirs h p d))"
  unfolding confined_def
proof (intro allI impI)
  fix r
  assume a: "prefix B q" "prefix p q" "\<not> prefix B r"
  show "row_at r (snd (make_dirs h p d)) = row_at r d \<or>
    (row_at r d = None \<and> strict_prefix r B \<and> (\<exists>m. row_at r (snd (make_dirs h p d)) = Some (DirNode m)))"
  proof (cases "prefix r p")
    case True
    then have "prefix r B" using a prefix_same_cases [of r q B] by (metis prefix_order.trans)
    then have "strict_prefix r B" using a(3) by auto
    then show ?thesis using make_dirs_rows [of r h p d] by auto
  next
    case False
    then show ?thesis using make_dirs_rows [of r h p d] by auto
  qed
qed

lemma confined_apply:
  assumes p: "prefix B (locate h (so_path op))" and t: "\<And>t. so_new_path op = Some t \<Longrightarrow> prefix B (locate h t)"
  shows "confined B d (snd (apply_single_op h op d))"
proof -
  let ?p = "locate h (so_path op)"
  have own: "confined B d (snd (make_dirs h ?p d))" "confined B d (snd (make_dirs h (butlast ?p) d))" for d
    using confined_make_dirs [OF p] prefixeq_butlast [of ?p] by auto
  have at: "confined B d (snd (chmod_to ?p m d))" "confined B d (snd (change_mode ?p m2 d))"
    "confined B d (snd (write_node h ?p bs d))" "confined B d (snd (touch_node h ?p d))" for d m m2 bs
    using p by (auto intro!: confined_rows simp: chmod_to_def write_rows touch_rows chmod_rows split: option.split)
  have gone: "confined B d (snd (remove_tree ?p d))" for d
    using p by (intro confined_rows remove_tree_rows) (metis prefix_order.trans)
  have del: "confined B d (delete_row ?p d)" for d
    using p by (intro confined_rows) (auto simp: row_at_delete)
  have mv: "confined B d (snd (and_then (make_dirs h (butlast (locate h t)) d) (rename_node ?p (locate h t))))"
    if "so_new_path op = Some t" for t d
  proof (rule inside.and_then_R)
    show "confined B d (snd (make_dirs h (butlast (locate h t)) d))"
      by (rule confined_make_dirs [OF t [OF that]]) (rule prefixeq_butlast)
    show "confined B d' (snd (rename_node ?p (locate h t) d'))" for d'
      using p t [OF that] by (intro confined_rows rename_rows) (metis prefix_order.trans)+
  qed
  show ?thesis
    using own at gone del mv inside.R_refl
    by (cases "so_type op")
      (auto simp: apply_single_op_def intro!: inside.and_then_R split: option.split node.split fs_content.split)
qed

lemma confined_restore:
  assumes "prefix B (bk_path b)"
  shows "confined B d (snd (restore_backup h b d))"
proof -
  let ?p = "bk_path b"
  have dirs: "confined B d (snd (make_dirs h ?p d))" "confined B d (snd (make_dirs h (butlast ?p) d))" for d
    using confined_make_dirs [OF assms] prefixeq_butlast [of ?p] by auto
  have sub: "prefix B (?p @ [x])" for x using assms by simp
  have at: "confined B d (snd (write_node h q bs d))" "confined B d (snd (change_mode q m d))" if "prefix B q" for q bs m d
    using that by (auto intro!: confined_rows write_rows chmod_rows)
  show ?thesis
    using dirs at sub assms inside.R_refl
    by (auto simp: restore_backup_def intro!: inside.and_then_R split: option.split node.split)
qed
section \<open>Sandboxed file systems\<close>

text \<open>An absolute path of proper names without backslashes, as the checks yield them for clean arguments.\<close>

definition plain_path :: "string \<Rightarrow> bool" where
  "plain_path q \<longleftrightarrow> (\<exists>ns t. q = path_text ns t \<and> list_all proper_name ns \<and> backslash \<notin> set q)"

lemma locate_plain: "plain_path q \<Longrightarrow> locate h q = names_of q"
  by (auto simp: plain_path_def locate_def)

lemma plain_again: "plain_path q \<Longrightarrow> canonicalize q = Inr c \<Longrightarrow> c = q"
proof -
  assume "plain_path q" and c: "canonicalize q = Inr c"
  then obtain ns t where q: "q = path_text ns t" "list_all proper_name ns" "backslash \<notin> set q" by (auto simp: plain_path_def)
  obtain ms where ms: "c = path_text ms (ends_slash q)" "list_all proper_name ms" using canonical_text [OF c q(3)] by blast
  have ne: "q \<noteq> []" "CHR 0x00 \<notin> set q" using c by (auto simp: canonicalize_def split: if_splits)
  have "detect_path_type q = POSIX"
  proof (rule ccontr)
    assume w: "detect_path_type q \<noteq> POSIX"
    then have "q ! 1 = CHR '':''" "length q > 1" using q(1) by (auto simp: type_text split: if_splits)
    then have "take 2 (replace_char slash backslash q) \<noteq> [backslash, backslash]"
      by (cases q; cases "tl q") (auto simp: replace_char_def split: if_splits)
    then show False using c ne w by (cases "detect_path_type q") (auto simp: canonicalize_def)
  qed
  moreover have "resolve (names_of q) = Inr ns" using q by (simp add: names_path_text resolve_plain)
  ultimately have "c = path_text ns (ends_slash q)" using canonicalize_text [OF ne] c by simp
  then show "c = q" using q ends_path_text [OF q(2)] by (auto simp: path_text_def)
qed

lemma safe_plain: "safe v path = Inr q \<Longrightarrow> backslash \<notin> set path \<Longrightarrow> plain_path q"
  using canonical_text [OF safe_path_Inr(1)] by (fastforce simp: plain_path_def safe_def)

lemma path_text_butlast: "plain_path q \<Longrightarrow> plain_path (py_parent q)"
proof -
  assume "plain_path q"
  then obtain ns t where q: "q = path_text ns t" "list_all proper_name ns" "backslash \<notin> set q" by (auto simp: plain_path_def)
  have par: "py_parent q = path_text (butlast ns) False" using q by (simp add: py_parent_def names_path_text) (simp add: path_text_def)
  have "backslash \<notin> set n" if "n \<in> set ns" for n using that q name_chars [of n q] by (auto simp: names_path_text)
  then have "backslash \<notin> set (path_text (butlast ns) False)"
    using path_text_chars [of backslash "butlast ns" False] by (auto dest: in_set_butlastD)
  then show ?thesis using q par by (auto simp: plain_path_def list_all_iff dest: in_set_butlastD intro!: exI [of _ "butlast ns"])
qed

text \<open>A file system whose sandbox is \<open>b\<close> and whose staged operations came from clean arguments: their
  paths are clean, and move destinations, which validation does not look at again, are inside.\<close>

definition op_clean :: "string \<Rightarrow> string \<times> staging_op \<Rightarrow> bool" where
  "op_clean b e = (case e of (k, op) \<Rightarrow> k = so_path op \<and> plain_path k \<and>
     (case so_new_path op of None \<Rightarrow> True | Some t \<Rightarrow> plain_path t \<and> lies_under b t))"

definition vfs_clean :: "string \<Rightarrow> vfs \<Rightarrow> bool" where
  "vfs_clean b v \<longleftrightarrow> vf_sandbox v = Some b \<and> (\<forall>e\<in>set (vf_staging v). op_clean b e)"

lemma dict_set_elems: "e \<in> set (dict_set k x t) \<Longrightarrow> e = (k, x) \<or> e \<in> set t"
  by (auto simp: dict_set_def update_row_def split: if_splits)

lemma clean_stage: "vfs_clean b v \<Longrightarrow> op_clean b (so_path op, op) \<Longrightarrow> vfs_clean b (stage op v)"
  by (auto simp: vfs_clean_def stage_def dest!: dict_set_elems)

lemma clean_preflight_one:
  assumes "op_clean b e" and "\<forall>e\<in>set staged. op_clean b e"
  shows "\<forall>e\<in>set (snd (preflight_one v e (ws, staged))). op_clean b e"
proof -
  obtain k op where e: "e = (k, op)" by (cases e)
  have "op_clean b (py_parent k, mkdir_op (py_parent k) 493)"
    using assms(1) path_text_butlast by (auto simp: op_clean_def mkdir_op_def e)
  then show ?thesis using assms(2) by (auto simp: preflight_one_def e dest!: dict_set_elems)
qed

lemma clean_preflight: "vfs_clean b v \<Longrightarrow> vfs_clean b (snd (validate_preflight v))"
proof -
  assume c: "vfs_clean b v"
  have "\<forall>e\<in>set (snd (fold (preflight_one v) es (ws, staged))). op_clean b e"
    if "\<forall>e\<in>set es. op_clean b e" "\<forall>e\<in>set staged. op_clean b e" for es ws staged
    using that
  proof (induction es arbitrary: ws staged)
    case Nil
    then show ?case by simp
  next
    case (Cons e es)
    obtain ws1 staged1 where s: "preflight_one v e (ws, staged) = (ws1, staged1)" by force
    have "\<forall>e\<in>set staged1. op_clean b e" using clean_preflight_one [of b e staged v ws] Cons.prems s by simp
    then show ?case using Cons.IH [of staged1 ws1] Cons.prems s by simp
  qed
  from this [of "vf_staging v" "vf_staging v" "[]"] show ?thesis
    using c by (auto simp: vfs_clean_def validate_preflight_def split_beta)
qed

lemma clean_validate: "vfs_clean b v \<Longrightarrow> vfs_clean b (snd (validate_all v))"
  using clean_preflight [of b v] by (auto simp: validate_all_def split_beta split: sum.split)

text \<open>What the third stage establishes for the staged paths.\<close>

lemma safety_passed:
  assumes "safety_errors (Some b) k = Inr []" and "plain_path k" and "plain_path b"
  shows "lies_under b k"
proof -
  have "b \<noteq> []" using assms(3) by (auto simp: plain_path_def path_text_def)
  moreover obtain q where q: "canonicalize k = Inr q"
    using assms(1) by (cases "canonicalize k") (auto simp: safety_errors_def caught_def split: if_splits)
  then have "q = k" using plain_again [OF assms(2)] by simp
  ultimately obtain r where r: "is_subpath b k = Inr r" "r \<or> k = b"
    using assms(1) q by (auto simp: safety_errors_def caught_def split: sum.splits if_splits)
  obtain c d where cd: "canonicalize b = Inr c" "canonicalize k = Inr d" "r = prefix (names_of c) (names_of d)"
    using subpath_names [OF r(1)] assms(2,3) by (auto simp: plain_path_def)
  then have "c = b" "d = k" using plain_again assms(2,3) by blast+
  then show ?thesis using cd r(2) by (auto simp: lies_under_def)
qed

lemma all_safety_passed: "all_safety_errors sandbox ks = Inr [] \<Longrightarrow> list_all (\<lambda>k. safety_errors sandbox k = Inr []) ks"
  by (induction ks) (auto split: sum.splits)

lemma validated_under:
  assumes "validate_all v = (Inr vs, v1)" and "list_all vr_passed vs" and "vfs_clean b v" and "plain_path b"
  shows "\<forall>(k, op)\<in>set (vf_staging v1). lies_under b (so_path op)"
proof -
  obtain p v2 where p: "validate_preflight v = (p, v2)" by force
  have clean: "vfs_clean b v2" using clean_preflight [OF assms(3)] p by simp
  have "vr_passed p" using p by (auto simp: validate_preflight_def verdict_def split: prod.splits)
  then obtain f where f: "validate_safety v2 = Inr f" "vr_passed f" "v1 = v2"
    using assms(1,2) p by (auto simp: validate_all_def split: sum.splits if_splits)
  then have "all_safety_errors (Some b) (map fst (vf_staging v2)) = Inr []"
    using clean by (auto simp: validate_safety_def verdict_def vfs_clean_def split: sum.splits)
  then have each: "safety_errors (Some b) k = Inr []" if "(k, op) \<in> set (vf_staging v2)" for k op
    using all_safety_passed that by (fastforce simp: list_all_iff)
  show ?thesis
  proof
    fix e
    assume e: "e \<in> set (vf_staging v1)"
    obtain k op where k: "e = (k, op)" by (cases e)
    have "op_clean b (k, op)" using clean e k f(3) by (auto simp: vfs_clean_def)
    then show "case e of (k, op) \<Rightarrow> lies_under b (so_path op)"
      using safety_passed [OF each _ assms(4)] e k f(3) by (auto simp: op_clean_def)
  qed
qed

lemma apply_confined:
  assumes "vfs_clean b v" and "plain_path b"
  shows "confined (names_of b) d (snd (apply_changes h dry v d))"
proof -
  obtain r v1 where val: "validate_all v = (r, v1)" by force
  show ?thesis
  proof (cases "\<exists>vs. r = Inr vs \<and> list_all vr_passed vs \<and> \<not> dry")
    case False
    then have "snd (apply_changes h dry v d) = d"
      using val by (cases r) (auto simp: apply_changes_def split: prod.splits)
    then show ?thesis using inside.R_refl by simp
  next
    case True
    then obtain vs where vs: "r = Inr vs" "list_all vr_passed vs" "\<not> dry" by blast
    have un: "lies_under b (so_path op)" if "(k, op) \<in> set (vf_staging v1)" for k op
      using validated_under [OF val [unfolded vs(1)] vs(2) assms] that by auto
    have cl: "op_clean b (k, op)" if "(k, op) \<in> set (vf_staging v1)" for k op
      using clean_validate [OF assms(1)] val that by (auto simp: vfs_clean_def)
    have loc: "prefix (names_of b) (locate h (so_path op))" if "(k, op) \<in> set (vf_staging v1)" for k op
      using un [OF that] cl [OF that] by (auto simp: op_clean_def locate_plain lies_under_def)
    have dst: "prefix (names_of b) (locate h t)" if "(k, op) \<in> set (vf_staging v1)" "so_new_path op = Some t" for k op t
      using cl [OF that(1)] that(2) by (simp add: op_clean_def locate_plain lies_under_def)
    have "confined (names_of b) d (snd (apply_staged h rr v1 d))" for rr
    proof (rule inside.apply_staged_R)
      show "confined (names_of b) d' (snd (apply_single_op h op d'))" if "(k, op) \<in> set (vf_staging v1)" for k op d'
        by (rule confined_apply) (use loc dst that in blast)+
      show "confined (names_of b) d' (snd (restore_backup h bk d'))"
        if "bk \<in> set (backups_of h (map snd (vf_staging v1)) d)" for bk d'
        by (rule confined_restore) (use that loc in \<open>auto simp: backups_of_def split: option.splits\<close>)
    qed
    then show ?thesis using val vs by (auto simp: apply_changes_def split_beta)
  qed
qed

section \<open>Any sequence of calls\<close>

datatype vfs_call =
    CallStageWrite string "fs_content option" int
  | CallStageMkdir string int
  | CallStageDelete string
  | CallStageMove string string
  | CallWrite rat string fs_content int string
  | CallMkdir rat string int string
  | CallDelete string
  | CallMove string string
  | CallValidate
  | CallApply bool
  | CallRollback
  | CallClear

definition keep_state :: "fs_error + 'a \<Rightarrow> ('a \<Rightarrow> vfs) \<Rightarrow> vfs \<Rightarrow> vfs" where
  "keep_state r f v = (case r of Inl e \<Rightarrow> v | Inr x \<Rightarrow> f x)"

definition vfs_exec :: "host \<Rightarrow> (byte list \<Rightarrow> string) \<Rightarrow> vfs_call \<Rightarrow> vfs \<times> real_fs \<Rightarrow> vfs \<times> real_fs" where
  "vfs_exec h H call s = (case s of (v, d) \<Rightarrow>
     (case call of
        CallStageWrite p c m \<Rightarrow> (keep_state (stage_write p c m v) snd v, d)
      | CallStageMkdir p m \<Rightarrow> (keep_state (stage_mkdir p m v) snd v, d)
      | CallStageDelete p \<Rightarrow> (keep_state (stage_delete p v) snd v, d)
      | CallStageMove p q \<Rightarrow> (keep_state (stage_move p q v) snd v, d)
      | CallWrite now p c m w \<Rightarrow> (keep_state (write_immediate H now p c m w [] v) snd v, d)
      | CallMkdir now p m w \<Rightarrow> (keep_state (mkdir_immediate now p m w v) snd v, d)
      | CallDelete p \<Rightarrow> (keep_state (delete_immediate p v) id v, d)
      | CallMove p q \<Rightarrow> (keep_state (move_immediate p q v) id v, d)
      | CallValidate \<Rightarrow> (snd (validate_all v), d)
      | CallApply dry \<Rightarrow> (case apply_changes h dry v d of ((r, v'), d') \<Rightarrow> (v', d'))
      | CallRollback \<Rightarrow> (snd (vfs_rollback v), d)
      | CallClear \<Rightarrow> (snd (clear_staging v), d)))"

text \<open>The paths of a staging call have no backslash.\<close>

definition clean_call :: "vfs_call \<Rightarrow> bool" where
  "clean_call c = (case c of
     CallStageWrite p _ _ \<Rightarrow> backslash \<notin> set p | CallStageMkdir p _ \<Rightarrow> backslash \<notin> set p
   | CallStageDelete p \<Rightarrow> backslash \<notin> set p | CallStageMove p q \<Rightarrow> backslash \<notin> set p \<and> backslash \<notin> set q
   | _ \<Rightarrow> True)"

lemma clean_stage_with:
  assumes "vfs_clean b v" and "backslash \<notin> set path" and "\<And>q. so_path (f q) = q \<and> so_new_path (f q) = None"
  shows "vfs_clean b (keep_state (stage_with path f v) snd v)"
  using assms safe_plain [of v path]
  by (auto simp: keep_state_def stage_with_def op_clean_def split: sum.split intro!: clean_stage)

lemma safe_under:
  assumes "vfs_clean b v" and "plain_path b" and "safe v path = Inr q" and "backslash \<notin> set path"
  shows "lies_under b q"
proof -
  have c: "canonicalize path = Inr q" "check_sandbox (Some b) q = Inr ()"
    using safe_path_Inr [of "Some b" path q] assms(1,3) by (simp_all add: safe_def vfs_clean_def)
  have "b \<noteq> []" "backslash \<notin> set b" using assms(2) by (auto simp: plain_path_def path_text_def)
  then have "is_subpath b q = Inr True" using c(2) by (auto simp: check_sandbox_def split: sum.splits if_splits)
  from subpath_lies_under [OF c(1) assms(4) this \<open>backslash \<notin> set b\<close>] obtain b' where "canonicalize b = Inr b'" "lies_under b' q"
    by auto
  then show ?thesis using plain_again [OF assms(2)] by simp
qed

lemma clean_stage_move:
  assumes "vfs_clean b v" and "plain_path b" and "backslash \<notin> set p" and "backslash \<notin> set q"
  shows "vfs_clean b (keep_state (stage_move p q v) snd v)"
  using assms safe_plain [of v p] safe_plain [of v q] safe_under [OF assms(1,2), of q]
  by (auto simp: keep_state_def stage_move_def op_clean_def split: sum.split intro!: clean_stage)

lemma clean_immediate:
  "vfs_clean b v \<Longrightarrow> vfs_clean b (keep_state (write_immediate H now p c m w md v) snd v)"
  "vfs_clean b v \<Longrightarrow> vfs_clean b (keep_state (mkdir_immediate now p m w v) snd v)"
  "vfs_clean b v \<Longrightarrow> vfs_clean b (keep_state (delete_immediate p v) id v)"
  "vfs_clean b v \<Longrightarrow> vfs_clean b (keep_state (move_immediate p q v) id v)"
  by (auto simp: vfs_clean_def keep_state_def write_immediate_def mkdir_immediate_def delete_immediate_def move_immediate_def
      count_op_def split: sum.split option.split)

lemma clean_apply_staged: "vfs_clean b v \<Longrightarrow> vfs_clean b (snd (fst (apply_staged h r v d)))"
  by (auto simp: vfs_clean_def apply_staged_def split_beta split: option.split)

lemma clean_apply: "vfs_clean b v \<Longrightarrow> vfs_clean b (snd (fst (apply_changes h dry v d)))"
proof -
  assume c: "vfs_clean b v"
  obtain r v1 where val: "validate_all v = (r, v1)" by force
  have "vfs_clean b v1" using clean_validate [OF c] val by simp
  then show ?thesis using val clean_apply_staged [of b v1 h] by (cases r) (auto simp: apply_changes_def split_beta)
qed

lemma clean_unstage: "vfs_clean b v \<Longrightarrow> vfs_clean b (snd (vfs_rollback v)) \<and> vfs_clean b (snd (clear_staging v))"
  by (simp add: vfs_clean_def vfs_rollback_def clear_staging_def)

lemma clean_stage_one:
  assumes "vfs_clean b v" and "backslash \<notin> set p"
  shows "vfs_clean b (keep_state (stage_write p c m v) snd v)" and "vfs_clean b (keep_state (stage_mkdir p m v) snd v)"
    and "vfs_clean b (keep_state (stage_delete p v) snd v)"
  unfolding stage_write_def stage_mkdir_def stage_delete_def
  by (rule clean_stage_with [OF assms]; simp add: mkdir_op_def)+

lemma clean_exec:
  assumes "vfs_clean b v" and "plain_path b" and "clean_call c"
  shows "vfs_clean b (fst (vfs_exec h H c (v, d)))"
  using assms(3) clean_stage_one [OF assms(1)] clean_stage_move [OF assms(1,2)] clean_immediate [OF assms(1)]
    clean_apply [OF assms(1)] clean_validate [OF assms(1)] clean_unstage [OF assms(1)]
  by (cases c) (simp_all add: vfs_exec_def clean_call_def split_beta)

lemma new_vfs_clean:
  assumes "new_vfs now (Some base) = Inr v" and "base \<noteq> []" and "backslash \<notin> set base"
  shows "\<exists>b. vf_sandbox v = Some b \<and> vfs_clean b v \<and> plain_path b"
proof -
  obtain b where b: "canonicalize base = Inr b" "v = (case new_vfs now None of Inr w \<Rightarrow> w | Inl _ \<Rightarrow> v)\<lparr>vf_sandbox := Some b\<rparr>"
    using assms(1,2) by (auto simp: new_vfs_def split: sum.splits)
  then have "plain_path b" using canonical_text [OF b(1) assms(3)] by (auto simp: plain_path_def)
  moreover have "vf_staging v = []" "vf_sandbox v = Some b" using b(2) by (simp_all add: new_vfs_def)
  ultimately show ?thesis by (auto simp: vfs_clean_def)
qed


definition host_example :: host where
  "host_example = \<lparr>ho_cwd = [''cwd''], ho_dir_mode = 493, ho_file_mode = 420, ho_backup_name = (\<lambda>p. ''bak'')\<rparr>"

definition disk_example :: real_fs where
  "disk_example = [([], DirNode 493), ([''safe''], DirNode 493), ([''safe'', ''zone''], DirNode 493),
     ([''safe'', ''zone'', ''old''], FileNode [1, 2] 420), ([''safe'', ''key''], FileNode [7] 384),
     ([''usr''], DirNode 493), ([''usr'', ''bin''], DirNode 493), ([''usr'', ''bin'', ''sh''], FileNode [3] 493)]"

definition calls_example :: "vfs_call list" where
  "calls_example = [CallStageDelete ''/safe/zone/old'', CallStageWrite ''/safe/zone/new'' (Some (TextContent ''x'')) 420, CallApply False]"


text \<open>Without a sandbox, deleting a directory above a forbidden one passes validation and removes it.\<close>

lemma delete_reaches_forbidden:
  "(case new_vfs 0 None of Inl _ \<Rightarrow> True | Inr v \<Rightarrow>
      row_at [''usr'', ''bin'', ''sh''] (snd (fold (vfs_exec host_example (\<lambda>_. [])) [CallStageDelete ''/usr'', CallApply False] (v, disk_example))) = None)"
  by code_simp


text \<open>The reading tool falls back to the disk on any error, a refused path included: it reads files outside
  the sandbox and in forbidden directories.\<close>

lemma refused_paths_are_read:
  "safe vfs_example ''/usr/bin/sh'' = Inl VFSPermissionError \<and>
   vfs_read_tool host_example ''/usr/bin/sh'' vfs_example disk_example = Inr (DiskText [3])"
  by code_simp

end
