(* ===== verification/FsRollback.thy ===== *)
theory FsRollback
  imports FsSafety
begin

text \<open>
  What the rollback of a failed application restores.
\<close>

section \<open>Trees\<close>

definition is_dir_at :: "real_path \<Rightarrow> real_fs \<Rightarrow> bool" where
  "is_dir_at p d = (case row_at p d of Some (DirNode _) \<Rightarrow> True | _ \<Rightarrow> False)"

definition fs_tree :: "real_fs \<Rightarrow> bool" where
  "fs_tree d = (is_dir_at [] d \<and> list_all (\<lambda>(p, n). p = [] \<or> is_dir_at (butlast p) d) d)"

lemma is_dir_at_iff: "is_dir_at p d \<longleftrightarrow> (\<exists>m. row_at p d = Some (DirNode m))"
  by (auto simp: is_dir_at_def split: option.splits node.splits)

lemma tree_parent: "fs_tree d \<Longrightarrow> row_at p d \<noteq> None \<Longrightarrow> p \<noteq> [] \<Longrightarrow> is_dir_at (butlast p) d"
  by (auto simp: fs_tree_def list_all_iff row_at_def dest!: map_of_SomeD)

lemma tree_ancestor:
  assumes "fs_tree d" and "row_at p d \<noteq> None"
  shows "strict_prefix r p \<Longrightarrow> is_dir_at r d"
  using assms
proof (induction p rule: rev_induct)
  case Nil
  then show ?case by simp
next
  case (snoc x xs)
  have dir: "is_dir_at xs d" using tree_parent [of d "xs @ [x]"] snoc.prems by simp
  have "r = xs \<or> strict_prefix r xs" using snoc.prems(1) by (auto simp: strict_prefix_def)
  then show ?case using snoc.IH snoc.prems(2) dir by (auto simp: is_dir_at_def split: option.splits)
qed

section \<open>Kinds\<close>

definition same_kind :: "node \<Rightarrow> node \<Rightarrow> bool" where
  "same_kind n n' = (case n of DirNode _ \<Rightarrow> (case n' of DirNode _ \<Rightarrow> True | _ \<Rightarrow> False)
     | FileNode _ _ \<Rightarrow> (case n' of FileNode _ _ \<Rightarrow> True | _ \<Rightarrow> False))"

lemma same_kind_iff:
  "same_kind (DirNode m) n \<longleftrightarrow> (\<exists>m'. n = DirNode m')" "same_kind (FileNode c m) n \<longleftrightarrow> (\<exists>c' m'. n = FileNode c' m')"
  by (simp_all add: same_kind_def split: node.split)

lemma same_kind_refl [simp]: "same_kind n n"
  by (simp add: same_kind_def split: node.split)

lemma same_kind_trans: "same_kind a b \<Longrightarrow> same_kind b c \<Longrightarrow> same_kind a c"
  by (auto simp: same_kind_def split: node.splits)

lemma same_kind_mode [simp]: "same_kind n (set_mode m n)"
  by (auto simp: same_kind_def set_mode_def split: node.split)

text \<open>Creating, writing and changing modes keep what exists and its kind, and only the paths in \<open>P\<close>
  change at all.\<close>

definition kept :: "real_path set \<Rightarrow> real_fs \<Rightarrow> real_fs \<Rightarrow> bool" where
  "kept P d d' \<longleftrightarrow> (\<forall>r n. row_at r d = Some n \<longrightarrow>
     (\<exists>n'. row_at r d' = Some n' \<and> same_kind n n' \<and> (r \<notin> P \<longrightarrow> n' = n)))"

interpretation kept: disk_relation "kept P"
proof
  fix d d1 d2
  show "kept P d d" by (simp add: kept_def)
  assume a: "kept P d d1" "kept P d1 d2"
  show "kept P d d2"
    unfolding kept_def
  proof (intro allI impI)
    fix r n
    assume "row_at r d = Some n"
    then obtain n1 where n1: "row_at r d1 = Some n1" "same_kind n n1" "r \<notin> P \<longrightarrow> n1 = n" using a(1) by (auto simp: kept_def)
    then obtain n2 where "row_at r d2 = Some n2" "same_kind n1 n2" "r \<notin> P \<longrightarrow> n2 = n1" using a(2) by (auto simp: kept_def)
    then show "\<exists>n'. row_at r d2 = Some n' \<and> same_kind n n' \<and> (r \<notin> P \<longrightarrow> n' = n)"
      using n1 same_kind_trans by blast
  qed
qed

lemma kept_dir: "kept P d d' \<Longrightarrow> is_dir_at r d \<Longrightarrow> is_dir_at r d'"
  unfolding kept_def is_dir_at_iff by (metis same_kind_iff(1))

lemma kept_make_dirs: "kept P d (snd (make_dirs h p d))"
proof -
  have "row_at r (snd (make_dirs h p d)) = Some n" if "row_at r d = Some n" for r n
    using make_dirs_rows [of r h p d] that by auto
  then show ?thesis by (simp add: kept_def)
qed

lemma kept_set: "p \<in> P \<Longrightarrow> (case row_at p d of None \<Rightarrow> True | Some n \<Rightarrow> same_kind n n') \<Longrightarrow> kept P d (dict_set p n' d)"
  by (auto simp: kept_def dict.get_put)

lemma kept_write: "p \<in> P \<Longrightarrow> kept P d (snd (write_node h p bs d))"
  by (auto simp: write_node_def kept.R_refl same_kind_def split: option.split node.split intro!: kept_set)

lemma kept_touch: "p \<in> P \<Longrightarrow> kept P d (snd (touch_node h p d))"
  by (auto simp: touch_node_def kept.R_refl intro!: kept_set)

lemma kept_chmod: "p \<in> P \<Longrightarrow> kept P d (snd (change_mode p m d))"
  by (auto simp: change_mode_def kept.R_refl split: option.split intro!: kept_set)

lemma kept_op:
  assumes "so_type op \<noteq> OpDelete" and "so_type op \<noteq> OpMove" and "locate h (so_path op) \<in> P"
  shows "kept P d (snd (apply_single_op h op d))"
  using assms kept_make_dirs kept_write [OF assms(3)] kept_touch [OF assms(3)] kept_chmod [OF assms(3)] kept.R_refl
  by (cases "so_type op")
    (auto simp: apply_single_op_def chmod_to_def intro!: kept.and_then_R split: option.split fs_content.split)

text \<open>Deleting only removes: what is below one of the paths \<open>P\<close>, and never the root.\<close>

definition thinned :: "real_path set \<Rightarrow> real_fs \<Rightarrow> real_fs \<Rightarrow> bool" where
  "thinned P d d' \<longleftrightarrow> (\<forall>r. row_at r d' = row_at r d \<or> (r \<noteq> [] \<and> row_at r d' = None \<and> (\<exists>p\<in>P. prefix p r)))"

interpretation thinned: disk_relation "thinned P"
proof
  fix d d1 d2
  show "thinned P d d" by (simp add: thinned_def)
  assume a: "thinned P d d1" "thinned P d1 d2"
  show "thinned P d d2" unfolding thinned_def
  proof
    fix r
    show "row_at r d2 = row_at r d \<or> (r \<noteq> [] \<and> row_at r d2 = None \<and> (\<exists>p\<in>P. prefix p r))"
      using a(1) [unfolded thinned_def, rule_format, of r] a(2) [unfolded thinned_def, rule_format, of r] by metis
  qed
qed

lemma row_at_filter_out: "\<not> P r \<Longrightarrow> row_at r (filter (\<lambda>(q, n). P q) t) = None"
  by (induction t) (auto simp: row_at_def)

lemma thinned_op:
  assumes "so_type op = OpDelete" and "locate h (so_path op) \<in> P" and "is_dir_at [] d"
  shows "thinned P d (snd (apply_single_op h op d))"
proof -
  let ?p = "locate h (so_path op)"
  have tree: "thinned P d (snd (remove_tree ?p d))"
    unfolding thinned_def
  proof
    fix r
    show "row_at r (snd (remove_tree ?p d)) = row_at r d \<or> (r \<noteq> [] \<and> row_at r (snd (remove_tree ?p d)) = None \<and> (\<exists>p\<in>P. prefix p r))"
    proof (cases "?p = []")
      case True
      then have "\<exists>p\<in>P. prefix p r" using assms(2) by (intro bexI [of _ "[]"]) simp_all
      then show ?thesis
        using True row_at_filter [of "\<lambda>q. q = []" "[]" d] row_at_filter_out [of "\<lambda>q. q = []" r d]
        by (cases "r = []") (simp_all add: remove_tree_def)
    next
      case False
      then show ?thesis
        using assms(2) row_at_filter [of "\<lambda>q. \<not> prefix ?p q" r d] row_at_filter_out [of "\<lambda>q. \<not> prefix ?p q" r d]
        by (cases "prefix ?p r") (auto simp: remove_tree_def)
    qed
  qed
  have "thinned P d (delete_row ?p d)" if "row_at ?p d = Some (FileNode c m)" for c m
    using that assms(2,3) by (auto simp: thinned_def row_at_delete is_dir_at_def)
  then show ?thesis using tree thinned.R_refl assms(1) by (auto simp: apply_single_op_def split: option.split node.split)
qed

section \<open>The disk when an operation has failed\<close>

lemma sorted_split: "sorted (map f zs) \<Longrightarrow> zs = filter (\<lambda>z. f z < c) zs @ filter (\<lambda>z. \<not> f z < (c :: nat)) zs"
proof (induction zs)
  case (Cons z zs)
  show ?case
  proof (cases "f z < c")
    case True
    then show ?thesis using Cons by simp
  next
    case False
    then have "\<forall>x\<in>set zs. \<not> f x < c" using Cons.prems by (auto simp: not_less intro: order_trans)
    then show ?thesis using False by (simp add: filter_id_conv filter_empty_conv)
  qed
qed simp

lemma apply_ops_append:
  "snd (apply_ops h (xs @ ys) d) = (if snd (fst (apply_ops h xs d)) = None then snd (apply_ops h ys (snd (apply_ops h xs d))) else snd (apply_ops h xs d))"
proof (induction xs arbitrary: d)
  case (Cons x xs)
  obtain r d1 where s: "apply_single_op h x d = (r, d1)" by force
  show ?case using Cons.IH [of d1] s by (cases r) (auto simp: split_beta)
qed simp

lemma thinned_ops:
  "(\<And>op. op \<in> set ops \<Longrightarrow> so_type op = OpDelete \<and> locate h (so_path op) \<in> P) \<Longrightarrow> is_dir_at [] d \<Longrightarrow>
   thinned P d (snd (apply_ops h ops d))"
proof (induction ops arbitrary: d)
  case Nil
  then show ?case by (simp add: thinned.R_refl)
next
  case (Cons op ops)
  obtain r d1 where s: "apply_single_op h op d = (r, d1)" by force
  have first: "thinned P d d1" using thinned_op [of op h P d] Cons.prems s by simp
  then have "row_at [] d1 = row_at [] d" by (auto simp: thinned_def)
  then have "is_dir_at [] d1" using Cons.prems(2) by (simp add: is_dir_at_def)
  then have "thinned P d1 (snd (apply_ops h ops d1))" using Cons by simp
  then show ?case using s first thinned.R_trans by (cases r) (auto simp: split_beta)
qed

definition deleted_paths :: "host \<Rightarrow> vfs \<Rightarrow> real_path set" where
  "deleted_paths h v = {locate h (so_path op) | k op. (k, op) \<in> set (vf_staging v) \<and> so_type op = OpDelete}"

definition staged_paths :: "host \<Rightarrow> vfs \<Rightarrow> real_path set" where
  "staged_paths h v = {locate h (so_path op) | k op. (k, op) \<in> set (vf_staging v)}"

definition no_moves :: "vfs \<Rightarrow> bool" where
  "no_moves v = list_all (\<lambda>(k, op). so_type op \<noteq> OpMove) (vf_staging v)"

lemma after_ops:
  assumes "no_moves v" and "is_dir_at [] d"
  shows "\<exists>d1. kept (staged_paths h v) d d1 \<and> thinned (deleted_paths h v) d1 (snd (apply_ops h (sorted_ops v) d))"
proof -
  let ?f = "\<lambda>op. op_priority (so_type op)"
  let ?xs = "filter (\<lambda>op. ?f op < 4) (sorted_ops v)" and ?ys = "filter (\<lambda>op. \<not> ?f op < 4) (sorted_ops v)"
  have split: "sorted_ops v = ?xs @ ?ys" by (rule sorted_split) (simp add: sorted_ops_def)
  have mem: "op \<in> set (sorted_ops v) \<longleftrightarrow> (\<exists>k. (k, op) \<in> set (vf_staging v))" for op
    by (force simp: sorted_ops_def)
  have moves: "so_type op \<noteq> OpMove" if "op \<in> set (sorted_ops v)" for op
    using assms(1) that by (auto simp: mem no_moves_def list_all_iff)
  have kept: "kept (staged_paths h v) d (snd (apply_ops h ?xs d))" for d
  proof (rule kept.apply_ops_R)
    fix op d
    assume "op \<in> set ?xs"
    then have "so_type op \<noteq> OpDelete" "so_type op \<noteq> OpMove" "op \<in> set (sorted_ops v)"
      using moves by (auto simp: op_priority_def)
    then show "kept (staged_paths h v) d (snd (apply_single_op h op d))"
      by (intro kept_op) (auto simp: mem staged_paths_def)
  qed
  let ?d1 = "snd (apply_ops h ?xs d)"
  have root: "is_dir_at [] ?d1" using kept_dir [OF kept assms(2)] .
  have "thinned (deleted_paths h v) ?d1 (snd (apply_ops h ?ys ?d1))"
  proof (rule thinned_ops [OF _ root])
    fix op
    assume "op \<in> set ?ys"
    then have "so_type op = OpDelete" "op \<in> set (sorted_ops v)"
      by (cases "so_type op"; auto simp: op_priority_def)+
    then show "so_type op = OpDelete \<and> locate h (so_path op) \<in> deleted_paths h v" by (auto simp: mem deleted_paths_def)
  qed
  then have "thinned (deleted_paths h v) ?d1 (snd (apply_ops h (sorted_ops v) d))"
    by (subst split) (auto simp: apply_ops_append thinned.R_refl)
  then show ?thesis using kept by blast
qed

section \<open>Restoring\<close>

text \<open>Each path that existed is as it was in kind, or gone; the root is there.\<close>

definition alike :: "real_fs \<Rightarrow> real_fs \<Rightarrow> bool" where
  "alike d e \<longleftrightarrow> is_dir_at [] e \<and> (\<forall>r n n'. row_at r d = Some n \<longrightarrow> row_at r e = Some n' \<longrightarrow> same_kind n n')"

lemma alike_after:
  assumes "kept P d d1" and "thinned Q d1 e" and "is_dir_at [] d"
  shows "alike d e"
proof -
  have "is_dir_at [] d1" using kept_dir [OF assms(1,3)] .
  moreover have "row_at [] e = row_at [] d1" using assms(2) by (auto simp: thinned_def)
  ultimately have "is_dir_at [] e" by (simp add: is_dir_at_iff)
  moreover have "same_kind n n'" if "row_at r d = Some n" "row_at r e = Some n'" for r n n'
    using assms(1) [unfolded kept_def, rule_format, OF that(1)] assms(2) [unfolded thinned_def, rule_format, of r] that(2) by auto
  ultimately show ?thesis by (auto simp: alike_def)
qed

lemma make_dirs_ok:
  "is_dir_at [] e \<Longrightarrow> (\<And>r. prefix r p \<Longrightarrow> row_at r e \<noteq> None \<Longrightarrow> is_dir_at r e) \<Longrightarrow> fst (make_dirs h p e) = None \<and> is_dir_at p (snd (make_dirs h p e))"
proof (induction h p e rule: make_dirs.induct)
  case (1 h p e)
  show ?case
  proof (cases "row_at p e")
    case (Some n)
    then have "is_dir_at p e" using "1.prems"(2) [of p] by simp
    then show ?thesis using Some by (auto simp: make_dirs.simps [of h p e] is_dir_at_def split: node.splits)
  next
    case None
    then have ne: "p \<noteq> []" using "1.prems"(1) by (auto simp: is_dir_at_def)
    have "fst (make_dirs h (butlast p) e) = None"
      using "1.IH" [OF None ne "1.prems"(1)] "1.prems"(2) prefix_order.trans [OF _ prefixeq_butlast [of p]] by blast
    then show ?thesis
      using None ne by (cases "make_dirs h (butlast p) e") (auto simp: make_dirs.simps [of h p e] and_then_def is_dir_at_def)
  qed
qed

lemma restore_dirs:
  assumes "alike d e" and "fs_tree d" and "row_at p d \<noteq> None" and "prefix q p" and "is_dir_at q d"
  shows "fst (make_dirs h q e) = None" and "is_dir_at q (snd (make_dirs h q e))" and "alike d (snd (make_dirs h q e))"
    and "row_at r e \<noteq> None \<Longrightarrow> row_at r (snd (make_dirs h q e)) = row_at r e"
proof -
  have anc: "is_dir_at r d" if "prefix r q" for r
    using tree_ancestor [OF assms(2,3), of r] assms(4,5) that prefix_order.trans [OF that assms(4)]
    by (metis prefix_order.le_imp_less_or_eq prefix_order.antisym)
  have ok: "is_dir_at r e" if "prefix r q" "row_at r e \<noteq> None" for r
    using anc [OF that(1)] that(2) assms(1) unfolding alike_def is_dir_at_iff by (metis option.exhaust same_kind_iff(1))
  have root: "is_dir_at [] e" using assms(1) by (simp add: alike_def)
  show "fst (make_dirs h q e) = None" and "is_dir_at q (snd (make_dirs h q e))" using make_dirs_ok [OF root ok] by blast+
  show "row_at r e \<noteq> None \<Longrightarrow> row_at r (snd (make_dirs h q e)) = row_at r e" for r using make_dirs_rows [of r h q e] by auto
  then have "is_dir_at [] (snd (make_dirs h q e))" using root by (auto simp: is_dir_at_iff)
  moreover have "same_kind n n'" if "row_at r d = Some n" "row_at r (snd (make_dirs h q e)) = Some n'" for r n n'
    using make_dirs_rows [of r h q e] that assms(1) anc [of r] by (auto simp: alike_def is_dir_at_iff same_kind_iff)
  ultimately show "alike d (snd (make_dirs h q e))" by (auto simp: alike_def)
qed

text \<open>Restoring the copy of a file brings it back, leaves everything else that exists, and does not fail.\<close>

lemma restore_file:
  assumes "alike d e" and "fs_tree d" and "row_at p d = Some (FileNode c m)"
  shows "fst (restore_backup h \<lparr>bk_path = p, bk_node = FileNode c m\<rparr> e) = None"
    and "row_at p (snd (restore_backup h \<lparr>bk_path = p, bk_node = FileNode c m\<rparr> e)) = Some (FileNode c m)"
    and "alike d (snd (restore_backup h \<lparr>bk_path = p, bk_node = FileNode c m\<rparr> e))"
    and "\<And>r. r \<noteq> p \<Longrightarrow> row_at r e \<noteq> None \<Longrightarrow> row_at r (snd (restore_backup h \<lparr>bk_path = p, bk_node = FileNode c m\<rparr> e)) = row_at r e"
proof -
  have ne: "p \<noteq> []" using assms(2,3) by (auto simp: fs_tree_def is_dir_at_iff)
  have ex: "row_at p d \<noteq> None" using assms(3) by simp
  note dirs = restore_dirs [where h = h, OF assms(1,2) ex prefixeq_butlast tree_parent [OF assms(2) ex ne]]
  obtain e1 where e1: "make_dirs h (butlast p) e = (None, e1)" using dirs(1) by (cases "make_dirs h (butlast p) e") simp
  note dirs = dirs [unfolded e1 snd_conv]
  have here: "row_at p e1 = None \<or> (\<exists>c' m'. row_at p e1 = Some (FileNode c' m'))"
  proof (cases "row_at p e1")
    case (Some n)
    then have "same_kind (FileNode c m) n" using dirs(3) assms(3) by (simp add: alike_def)
    then show ?thesis using Some by (auto simp: same_kind_iff)
  qed simp
  then obtain x where x: "restore_backup h \<lparr>bk_path = p, bk_node = FileNode c m\<rparr> e =
      (None, dict_set p (FileNode c m) (dict_set p (FileNode c m) (dict_set p (FileNode c x) e1)))"
    by (auto simp: restore_backup_def e1 and_then_def write_node_def change_mode_def set_mode_def dict.get_put)
  show "fst (restore_backup h \<lparr>bk_path = p, bk_node = FileNode c m\<rparr> e) = None"
    and "row_at p (snd (restore_backup h \<lparr>bk_path = p, bk_node = FileNode c m\<rparr> e)) = Some (FileNode c m)"
    by (simp_all add: x)
  show "\<And>r. r \<noteq> p \<Longrightarrow> row_at r e \<noteq> None \<Longrightarrow> row_at r (snd (restore_backup h \<lparr>bk_path = p, bk_node = FileNode c m\<rparr> e)) = row_at r e"
    using dirs(4) by (simp add: x dict.get_put)
  have "is_dir_at [] e1" using dirs(3) by (simp add: alike_def)
  then show "alike d (snd (restore_backup h \<lparr>bk_path = p, bk_node = FileNode c m\<rparr> e))"
    using dirs(3) assms(3) ne by (auto simp: x alike_def is_dir_at_iff dict.get_put)
qed

lemma restore_dir:
  assumes "alike d e" and "fs_tree d" and "row_at p d = Some (DirNode m)"
  shows "fst (restore_backup h \<lparr>bk_path = p, bk_node = DirNode m\<rparr> e) = None"
    and "alike d (snd (restore_backup h \<lparr>bk_path = p, bk_node = DirNode m\<rparr> e))"
    and "\<And>r. row_at r e \<noteq> None \<Longrightarrow> row_at r (snd (restore_backup h \<lparr>bk_path = p, bk_node = DirNode m\<rparr> e)) = row_at r e"
  using restore_dirs [where h = h, OF assms(1,2), of p p] assms(1,3) by (auto simp: restore_backup_def is_dir_at_iff)

lemma restore_all_files:
  assumes "alike d e" and "fs_tree d" and "\<forall>b\<in>set bs. row_at (bk_path b) d = Some (bk_node b)"
  shows "fst (restore_all h bs e) = [] \<and>
    (\<forall>p c m. row_at p d = Some (FileNode c m) \<longrightarrow>
       (\<lparr>bk_path = p, bk_node = FileNode c m\<rparr> \<in> set bs \<or> row_at p e = Some (FileNode c m)) \<longrightarrow>
       row_at p (snd (restore_all h bs e)) = Some (FileNode c m))"
  using assms
proof (induction bs arbitrary: e)
  case Nil
  then show ?case by simp
next
  case (Cons b bs)
  obtain p n where b: "b = \<lparr>bk_path = p, bk_node = n\<rparr>" by (cases b) simp
  have pn: "row_at p d = Some n" using Cons.prems(3) b by simp
  let ?e1 = "snd (restore_backup h b e)"
  have step: "fst (restore_backup h b e) = None \<and> alike d ?e1 \<and>
     (\<forall>q c m. row_at q d = Some (FileNode c m) \<longrightarrow> (b = \<lparr>bk_path = q, bk_node = FileNode c m\<rparr> \<or> row_at q e = Some (FileNode c m)) \<longrightarrow>
        row_at q ?e1 = Some (FileNode c m))"
  proof (cases n)
    case (FileNode c m)
    note f = restore_file [where h = h, OF Cons.prems(1,2) pn [unfolded FileNode]]
    have "row_at q ?e1 = Some (FileNode c' m')" if "row_at q d = Some (FileNode c' m')"
      "b = \<lparr>bk_path = q, bk_node = FileNode c' m'\<rparr> \<or> row_at q e = Some (FileNode c' m')" for q c' m'
      using f(2,4) that pn by (cases "q = p") (auto simp: b FileNode)
    then show ?thesis using f(1,3) by (simp add: b FileNode)
  next
    case (DirNode m)
    note g = restore_dir [where h = h, OF Cons.prems(1,2) pn [unfolded DirNode]]
    then show ?thesis by (auto simp: b DirNode)
  qed
  have "fst (restore_all h bs ?e1) = [] \<and>
    (\<forall>p c m. row_at p d = Some (FileNode c m) \<longrightarrow>
       (\<lparr>bk_path = p, bk_node = FileNode c m\<rparr> \<in> set bs \<or> row_at p ?e1 = Some (FileNode c m)) \<longrightarrow>
       row_at p (snd (restore_all h bs ?e1)) = Some (FileNode c m))"
    by (rule Cons.IH) (use step Cons.prems in auto)
  then show ?case using step by (auto simp: split_beta)
qed

section \<open>Failed applications\<close>

lemma preflight_only_adds:
  "\<exists>added. vf_staging (snd (validate_preflight v)) = vf_staging v @ added \<and> list_all (\<lambda>(k, op). so_type op = OpMkdir) added"
proof -
  have "\<exists>added. snd (fold (preflight_one v) es (ws, staged)) = staged @ added \<and> list_all (\<lambda>(k, op). so_type op = OpMkdir) added" for es ws staged
  proof (induction es arbitrary: ws staged)
    case Nil
    then show ?case by simp
  next
    case (Cons e es)
    obtain ws1 staged1 where s: "preflight_one v e (ws, staged) = (ws1, staged1)" by force
    then have "staged1 = staged \<or> (\<exists>k. staged1 = staged @ [(k, mkdir_op k 493)])"
      by (auto simp: preflight_one_def dict_set_def split: prod.splits if_splits)
    then obtain a1 where a1: "staged1 = staged @ a1" "list_all (\<lambda>(k, op). so_type op = OpMkdir) a1"
      by (auto simp: mkdir_op_def)
    obtain a2 where "snd (fold (preflight_one v) es (ws1, staged1)) = staged1 @ a2" "list_all (\<lambda>(k, op). so_type op = OpMkdir) a2"
      using Cons.IH [of ws1 staged1] by blast
    then have "snd (fold (preflight_one v) (e # es) (ws, staged)) = staged @ (a1 @ a2)" using s a1 by simp
    then show ?case using a1 \<open>list_all _ a2\<close> by (metis list_all_append)
  qed
  from this [of "vf_staging v" "[]" "vf_staging v"] show ?thesis by (auto simp: validate_preflight_def split_beta)
qed

lemma validation_keeps:
  assumes "validate_all v = (r, v1)"
  shows "deleted_paths h v1 = deleted_paths h v" and "staged_paths h v \<subseteq> staged_paths h v1" and "no_moves v \<Longrightarrow> no_moves v1"
proof -
  obtain p v2 where p: "validate_preflight v = (p, v2)" by force
  obtain added where a: "vf_staging v2 = vf_staging v @ added" "list_all (\<lambda>(k, op). so_type op = OpMkdir) added"
    using preflight_only_adds [of v] p by auto
  have "v1 = v \<or> v1 = v2" using assms p by (auto simp: validate_all_def split: if_splits sum.splits)
  then have "\<exists>added. vf_staging v1 = vf_staging v @ added \<and> list_all (\<lambda>(k, op). so_type op = OpMkdir) added"
    using a by (auto intro: exI [of _ "[]"])
  then obtain ad where ad: "vf_staging v1 = vf_staging v @ ad" "list_all (\<lambda>(k, op). so_type op = OpMkdir) ad" by blast
  show "deleted_paths h v1 = deleted_paths h v" using ad by (fastforce simp: deleted_paths_def list_all_iff)
  show "staged_paths h v \<subseteq> staged_paths h v1" using ad(1) by (auto simp: staged_paths_def)
  show "no_moves v \<Longrightarrow> no_moves v1" using ad by (auto simp: no_moves_def list_all_iff)
qed

lemma backed_up:
  "(k, op) \<in> set (vf_staging v) \<Longrightarrow> row_at p d = Some n \<Longrightarrow> p = locate h (so_path op) \<Longrightarrow>
   \<lparr>bk_path = p, bk_node = n\<rparr> \<in> set (backups_of h (map snd (vf_staging v)) d)"
  by (auto simp: backups_of_def intro!: bexI [of _ "(k, op)"])

lemma apply_staged_done:
  "apply_ops h (sorted_ops v) d = ((a, None), e) \<Longrightarrow> ap_status (fst (fst (apply_staged h r v d))) = Applied"
  by (simp add: apply_staged_def)

lemma apply_staged_failed:
  "apply_ops h (sorted_ops v) d = ((a, Some (op, x)), e) \<Longrightarrow>
   snd (apply_staged h r v d) = snd (restore_all h (rev (backups_of h (map snd (vf_staging v)) d)) e) \<and>
   ap_errors (fst (fst (apply_staged h r v d))) = ap_errors r @ [OpFailed (so_type op) (so_path op) x, RollingBack] @
     fst (restore_all h (rev (backups_of h (map snd (vf_staging v)) d)) e)"
  by (simp add: apply_staged_def split_beta)


text \<open>A write below a file fails after that file has been overwritten.\<close>

definition failing_stage :: vfs where
  "failing_stage = fst (fold (vfs_exec host_example (\<lambda>_. []))
     [CallStageWrite ''/safe/zone/old'' (Some (TextContent ''new'')) 420,
      CallStageWrite ''/safe/zone/made'' (Some (TextContent ''x'')) 420,
      CallStageWrite ''/safe/zone/old/x'' None 420] (vfs_example, disk_example))"


text \<open>What a rollback does not undo: the files a failed application has created stay, and the contents of a
  directory it has deleted do not come back.\<close>

lemma created_files_stay:
  "row_at [''safe'', ''zone'', ''made''] (snd (apply_changes host_example False failing_stage disk_example)) = Some (FileNode (utf8_encode ''x'') 420)"
  by code_simp

lemma deleted_trees_stay_deleted:
  "(case new_vfs 0 None of Inl _ \<Rightarrow> True | Inr v \<Rightarrow>
      (case fold (vfs_exec host_example (\<lambda>_. [])) [CallStageDelete ''/usr'', CallStageDelete ''/'', CallApply False] (v, disk_example) of
         (v', d') \<Rightarrow> vf_total_rolled_back v' = 1 \<and> row_at [''usr''] d' \<noteq> None \<and> row_at [''usr'', ''bin'', ''sh''] d' = None))"
  by code_simp

end
