(* ===== verification/PyValues.thy ===== *)
theory PyValues
  imports PyDict PyText "HOL-Library.Sublist"
begin

text \<open>
  Python values where the code takes them from JSON or lets their types vary: truth, iteration,
  membership, indexing, and the keys of dictionaries, with the exceptions these raise.  Floats are
  rationals.
\<close>

datatype pyval =
    PNone
  | PBool bool
  | PInt int
  | PFloat rat
  | PStr string
  | PList "pyval list"
  | PDict "(string \<times> pyval) list"

text \<open>\<open>bool(x)\<close>\<close>

definition py_true :: "pyval \<Rightarrow> bool" where
  "py_true x = (case x of PNone \<Rightarrow> False | PBool b \<Rightarrow> b | PInt i \<Rightarrow> i \<noteq> 0 | PFloat f \<Rightarrow> f \<noteq> 0 | PStr s \<Rightarrow> s \<noteq> []
     | PList xs \<Rightarrow> xs \<noteq> [] | PDict d \<Rightarrow> d \<noteq> [])"

text \<open>What a value is as a dictionary key: numbers that are equal are one key, lists and dictionaries
  are not hashable.\<close>

definition py_key :: "pyval \<Rightarrow> pyval result" where
  "py_key x = (case x of
     PBool b \<Rightarrow> Inr (PInt (if b then 1 else 0))
   | PFloat f \<Rightarrow> Inr (if of_int \<lfloor>f\<rfloor> = f then PInt \<lfloor>f\<rfloor> else PFloat f)
   | PList _ \<Rightarrow> Inl TypeError
   | PDict _ \<Rightarrow> Inl TypeError
   | _ \<Rightarrow> Inr x)"

text \<open>\<open>for y in x\<close>\<close>

definition py_iter :: "pyval \<Rightarrow> pyval list result" where
  "py_iter x = (case x of
     PList xs \<Rightarrow> Inr xs
   | PStr s \<Rightarrow> Inr (map (\<lambda>c. PStr [c]) s)
   | PDict d \<Rightarrow> Inr (map (\<lambda>(k, v). PStr k) d)
   | _ \<Rightarrow> Inl TypeError)"

text \<open>\<open>k in x\<close> and \<open>x[k]\<close> for a string \<open>k\<close>\<close>

definition py_has :: "string \<Rightarrow> pyval \<Rightarrow> bool result" where
  "py_has k x = (case x of
     PDict d \<Rightarrow> Inr (row_at k d \<noteq> None)
   | PList xs \<Rightarrow> Inr (PStr k \<in> set xs)
   | PStr s \<Rightarrow> Inr (sublist k s)
   | _ \<Rightarrow> Inl TypeError)"

definition py_item :: "string \<Rightarrow> pyval \<Rightarrow> pyval result" where
  "py_item k x = (case x of
     PDict d \<Rightarrow> (case row_at k d of None \<Rightarrow> Inl KeyError | Some v \<Rightarrow> Inr v)
   | _ \<Rightarrow> Inl TypeError)"

text \<open>\<open>x.get(k, default)\<close>\<close>

definition py_get :: "string \<Rightarrow> pyval \<Rightarrow> pyval \<Rightarrow> pyval result" where
  "py_get k fallback x = (case x of
     PDict d \<Rightarrow> Inr (case row_at k d of None \<Rightarrow> fallback | Some v \<Rightarrow> v)
   | _ \<Rightarrow> Inl AttributeError)"

text \<open>The string operations of these components beside those of \<open>PyText\<close>: \<open>lower\<close>,
  \<open>replace\<close> of single characters, and \<open>split()\<close> at white space.\<close>

definition lower_char :: "char \<Rightarrow> char" where
  "lower_char c = (let n = of_char c :: nat in
     if 65 \<le> n \<and> n \<le> 90 \<or> 192 \<le> n \<and> n \<le> 222 \<and> n \<noteq> 215 then char_of (n + 32) else c)"

definition str_lower :: "string \<Rightarrow> string" where
  "str_lower s = map lower_char s"

definition replace_with :: "(char \<Rightarrow> bool) \<Rightarrow> char \<Rightarrow> string \<Rightarrow> string" where
  "replace_with P d s = map (\<lambda>c. if P c then d else c) s"

fun split_words :: "string \<Rightarrow> string \<Rightarrow> string list" where
  "split_words acc [] = (if acc = [] then [] else [rev acc])"
| "split_words acc (c # cs) =
     (if py_space c then (if acc = [] then split_words [] cs else rev acc # split_words [] cs)
      else split_words (c # acc) cs)"

definition str_words :: "string \<Rightarrow> string list" where
  "str_words s = split_words [] s"

lemma split_words_solid:
  "w \<noteq> [] \<or> acc \<noteq> [] \<Longrightarrow> list_all (\<lambda>c. \<not> py_space c) w \<Longrightarrow> split_words acc w = [rev acc @ w]"
  by (induction w arbitrary: acc) auto

lemma split_words_append:
  "list_all (\<lambda>c. \<not> py_space c) w \<Longrightarrow> w \<noteq> [] \<or> acc \<noteq> [] \<Longrightarrow> py_space c \<Longrightarrow>
     split_words acc (w @ c # s) = (rev acc @ w) # split_words [] s"
  by (induction w arbitrary: acc) auto

text \<open>A command is read back as the words it was written with.\<close>

lemma str_words_two:
  "list_all (\<lambda>c. \<not> py_space c) v \<Longrightarrow> v \<noteq> [] \<Longrightarrow> list_all (\<lambda>c. \<not> py_space c) w \<Longrightarrow> w \<noteq> [] \<Longrightarrow>
     str_words (v @ CHR '' '' # w) = [v, w]"
  by (simp add: str_words_def split_words_append split_words_solid py_space_def)

end
