(* ===== verification/EngineScripts.thy ===== *)
theory EngineScripts
  imports PyValues
begin

text \<open>
  The engine's scripts: \<open>engine/metadata.py\<close> (a script's metadata from \<open>meta.info\<close> or
  \<open>meta.json\<close>), \<open>engine/manager.py\<close> (discovery, overrides, port conflicts),
  \<open>engine/hooks.py\<close> and \<open>engine/debug_utils.py\<close>.  Metadata are Python values, since
  \<open>meta.json\<close> may put any type anywhere.  The parsed files are arguments: a configparser section
  as its options with the outcome of reading each, a JSON file as its value.
\<close>

section \<open>Metadata\<close>

type_synonym meta = "(string, pyval) table"

definition default_meta :: meta where
  "default_meta =
     [(''name'', PStr ''Unnamed Script''), (''version'', PStr ''0.0.0''), (''description'', PStr []),
      (''category'', PStr ''uncategorized''), (''entry_point'', PStr ''main.py''), (''enabled'', PBool True),
      (''restart_policy'', PStr ''always''), (''server_type'', PStr ''normal''), (''shutdown_timeout'', PFloat 5),
      (''watch_patterns'', PList [PStr ''*.py'']), (''dependencies'', PList []),
      (''python_path'', PStr ''/usr/bin/python3''), (''args'', PList []), (''debug'', PBool False),
      (''requirements_file'', PStr ''requirements.txt''), (''ports'', PList [])]"

definition split_list :: "string \<Rightarrow> string list" where
  "split_list raw = (if str_strip raw = [] then [] else filter (\<lambda>i. i \<noteq> []) (map str_strip (split_on CHR '','' raw)))"

text \<open>One part of a port list: a range when it has a dash, split at the first one; what does not
  parse is reported and dropped.\<close>

definition part_ports :: "string \<Rightarrow> int list" where
  "part_ports p =
     (let part = str_strip p in
      if part = [] then []
      else if CHR ''-'' \<in> set part then
        (case (py_int (takeWhile (\<lambda>c. c \<noteq> CHR ''-'') part), py_int (tl (dropWhile (\<lambda>c. c \<noteq> CHR ''-'') part))) of
           (Inr start, Inr end') \<Rightarrow> [start..end']
         | _ \<Rightarrow> [])
      else (case py_int part of Inr n \<Rightarrow> [n] | Inl _ \<Rightarrow> []))"

definition parse_ports :: "string \<Rightarrow> int list" where
  "parse_ports raw = concat (map part_ports (split_on CHR '','' raw))"

type_synonym ini_section = "(string, string result) table"

definition sec_get :: "ini_section \<Rightarrow> string \<Rightarrow> string \<Rightarrow> string result" where
  "sec_get s k fallback = (case row_at k s of None \<Rightarrow> Inr fallback | Some r \<Rightarrow> r)"

definition str_result :: "string result \<Rightarrow> pyval result" where
  "str_result r = bind_result r (\<lambda>x. Inr (PStr x))"

definition sec_boolean :: "ini_section \<Rightarrow> string \<Rightarrow> bool \<Rightarrow> pyval result" where
  "sec_boolean s k fallback =
     (case row_at k s of
        None \<Rightarrow> Inr (PBool fallback)
      | Some r \<Rightarrow> bind_result r (\<lambda>x.
          if str_lower x \<in> {''1'', ''yes'', ''true'', ''on''} then Inr (PBool True)
          else if str_lower x \<in> {''0'', ''no'', ''false'', ''off''} then Inr (PBool False)
          else Inl ValueError))"

definition sec_float :: "(string \<Rightarrow> rat result) \<Rightarrow> ini_section \<Rightarrow> string \<Rightarrow> rat \<Rightarrow> pyval result" where
  "sec_float float_of s k fallback =
     (case row_at k s of None \<Rightarrow> Inr (PFloat fallback) | Some r \<Rightarrow> bind_result (bind_result r float_of) (\<lambda>x. Inr (PFloat x)))"

definition str_list :: "string list \<Rightarrow> pyval" where
  "str_list xs = PList (map PStr xs)"

text \<open>\<open>{**meta, k: v, ...}\<close> with the values computed in order.\<close>

fun with_fields :: "meta \<Rightarrow> (string \<times> pyval result) list \<Rightarrow> meta result" where
  "with_fields m [] = Inr m"
| "with_fields m ((k, r) # fs) = (case r of Inl e \<Rightarrow> Inl e | Inr v \<Rightarrow> with_fields (dict_set k v m) fs)"

definition parse_meta_info :: "(string \<Rightarrow> rat result) \<Rightarrow> ini_section option \<Rightarrow> meta result" where
  "parse_meta_info float_of config =
     (case config of
        None \<Rightarrow> Inr default_meta
      | Some s \<Rightarrow> bind_result (sec_get s ''ports'' []) (\<lambda>ports_raw. with_fields default_meta
          [(''name'', str_result (sec_get s ''name'' ''Unnamed Script'')),
           (''version'', str_result (sec_get s ''version'' ''0.0.0'')),
           (''description'', str_result (sec_get s ''description'' [])),
           (''category'', str_result (sec_get s ''category'' ''uncategorized'')),
           (''entry_point'', str_result (sec_get s ''entry_point'' ''main.py'')),
           (''enabled'', sec_boolean s ''enabled'' True),
           (''restart_policy'', str_result (sec_get s ''restart_policy'' ''always'')),
           (''server_type'', str_result (sec_get s ''server_type'' ''normal'')),
           (''shutdown_timeout'', sec_float float_of s ''shutdown_timeout'' 5),
           (''watch_patterns'', bind_result (sec_get s ''watch_patterns'' []) (\<lambda>r.
              Inr (if split_list r = [] then PList [PStr ''*.py''] else str_list (split_list r)))),
           (''dependencies'', bind_result (sec_get s ''dependencies'' []) (\<lambda>r. Inr (str_list (split_list r)))),
           (''python_path'', str_result (sec_get s ''python_path'' ''/usr/bin/python3'')),
           (''args'', bind_result (sec_get s ''args'' []) (\<lambda>r. Inr (str_list (split_list r)))),
           (''debug'', sec_boolean s ''debug'' False),
           (''requirements_file'', str_result (sec_get s ''requirements_file'' ''requirements.txt'')),
           (''ports'', Inr (PList (map PInt (parse_ports ports_raw))))]))"

definition parse_meta_json :: "pyval result \<Rightarrow> meta result" where
  "parse_meta_json data = bind_result data (\<lambda>x. with_fields default_meta (map (\<lambda>(k, v). (k, py_get k v x)) default_meta))"

section \<open>Discovery\<close>

text \<open>What loading \<open>Phooks.py\<close> comes to: an exception, or the two event lists if the module has
  them.\<close>

datatype phooks_module = PhooksFails | PhooksModule (listens: "pyval option") (emits: "pyval option")

record dir_info =
  di_path :: "string list"
  di_has_main :: bool
  di_main_text :: "string result"
  di_has_hooks :: bool
  di_phooks :: "phooks_module option"
  di_has_api :: bool
  di_meta_info :: "ini_section option result option"
  di_meta_json :: "pyval result option"

datatype 'a escape = Exits | Raises py_error | Fine 'a

definition is_list :: "pyval option \<Rightarrow> bool" where
  "is_list v = (case v of Some (PList _) \<Rightarrow> True | _ \<Rightarrow> False)"

definition validate_hooks :: "dir_info \<Rightarrow> unit escape" where
  "validate_hooks d =
     (if di_has_hooks d then Fine ()
      else if di_has_main d then
        (case di_main_text d of
           Inl e \<Rightarrow> Raises e
         | Inr content \<Rightarrow> if sublist ''register_hooks'' content then Fine () else Exits)
      else Exits)"

definition validate_phooks :: "dir_info \<Rightarrow> unit escape" where
  "validate_phooks d =
     (case di_phooks d of
        None \<Rightarrow> Exits
      | Some PhooksFails \<Rightarrow> Exits
      | Some (PhooksModule l e) \<Rightarrow> if is_list l \<and> is_list e then Fine () else Exits)"

definition validate_script :: "dir_info \<Rightarrow> unit escape" where
  "validate_script d =
     (case validate_hooks d of
        Fine _ \<Rightarrow> (case validate_phooks d of Fine _ \<Rightarrow> if di_has_api d then Fine () else Exits | r \<Rightarrow> r)
      | r \<Rightarrow> r)"

definition load_meta :: "(string \<Rightarrow> rat result) \<Rightarrow> dir_info \<Rightarrow> meta option result" where
  "load_meta float_of d =
     (case di_meta_info d of
        Some r \<Rightarrow> bind_result (bind_result r (parse_meta_info float_of)) (\<lambda>m. Inr (Some m))
      | None \<Rightarrow> (case di_meta_json d of
          Some r \<Rightarrow> bind_result (parse_meta_json r) (\<lambda>m. Inr (Some m))
        | None \<Rightarrow> Inr None))"

record script =
  sc_id :: string
  sc_path :: "string list"
  sc_meta :: meta
  sc_venv :: "string option"

type_synonym registry = "(string, script) table"

definition script_id :: "string list \<Rightarrow> string" where
  "script_id path = join ''/'' path"

definition is_script :: "dir_info \<Rightarrow> bool" where
  "is_script d = (di_has_main d \<and> (di_meta_info d \<noteq> None \<or> di_meta_json d \<noteq> None))"

text \<open>The loop over \<open>rglob\<close>'s directories.\<close>

fun scan_scripts :: "(string \<Rightarrow> rat result) \<Rightarrow> dir_info list \<Rightarrow> registry \<Rightarrow> registry escape" where
  "scan_scripts float_of [] reg = Fine reg"
| "scan_scripts float_of (d # ds) reg =
     (if \<not> is_script d then scan_scripts float_of ds reg
      else (case validate_script d of
         Exits \<Rightarrow> Exits
       | Raises e \<Rightarrow> Raises e
       | Fine _ \<Rightarrow> (case load_meta float_of d of
           Inl e \<Rightarrow> Raises e
         | Inr None \<Rightarrow> scan_scripts float_of ds reg
         | Inr (Some m) \<Rightarrow>
             let sid = script_id (di_path d)
             in scan_scripts float_of ds (dict_set sid \<lparr>sc_id = sid, sc_path = di_path d, sc_meta = m, sc_venv = None\<rparr> reg))))"

text \<open>\<open>except Exception\<close> does not catch the exit of a failed validation.\<close>

definition discover_scripts :: "(string \<Rightarrow> rat result) \<Rightarrow> dir_info list \<Rightarrow> registry escape" where
  "discover_scripts float_of ds =
     (case scan_scripts float_of ds [] of Raises _ \<Rightarrow> Fine [] | r \<Rightarrow> r)"

section \<open>Overrides\<close>

definition OVERRIDE_KEYS :: "string list" where
  "OVERRIDE_KEYS = [''enabled'', ''args'', ''restart_policy'', ''watch_patterns'', ''debug'', ''ports'']"

fun override_meta :: "pyval \<Rightarrow> string list \<Rightarrow> meta \<Rightarrow> meta result" where
  "override_meta settings [] m = Inr m"
| "override_meta settings (k # ks) m =
     (case py_has k settings of
        Inl e \<Rightarrow> Inl e
      | Inr has \<Rightarrow>
          if has then (case py_item k settings of Inl e \<Rightarrow> Inl e | Inr v \<Rightarrow> override_meta settings ks (dict_set k v m))
          else override_meta settings ks m)"

definition override_script :: "pyval \<Rightarrow> string \<times> script \<Rightarrow> (string \<times> script) result" where
  "override_script overrides entry =
     (case entry of (sid, inst) \<Rightarrow>
        bind_result (py_has sid overrides) (\<lambda>has.
          if has then bind_result (py_item sid overrides) (\<lambda>settings.
            bind_result (override_meta settings OVERRIDE_KEYS (sc_meta inst)) (\<lambda>m.
              Inr (sid, \<lparr>sc_id = sc_id inst, sc_path = sc_path inst, sc_meta = m, sc_venv = None\<rparr>)))
          else Inr (sid, inst)))"

text \<open>\<open>None\<close>: there is no overrides file.  Any exception loses the whole registry.\<close>

definition apply_overrides :: "pyval result option \<Rightarrow> registry \<Rightarrow> registry" where
  "apply_overrides file reg =
     (case file of
        None \<Rightarrow> reg
      | Some r \<Rightarrow> (case bind_result r (\<lambda>overrides. map_result (override_script overrides) reg) of Inl _ \<Rightarrow> [] | Inr reg' \<Rightarrow> reg'))"

section \<open>Enabled scripts and their ports\<close>

definition meta_item :: "string \<Rightarrow> meta \<Rightarrow> pyval result" where
  "meta_item k m = (case row_at k m of None \<Rightarrow> Inl KeyError | Some v \<Rightarrow> Inr v)"

definition script_enabled :: "script \<Rightarrow> bool result" where
  "script_enabled inst = bind_result (meta_item ''enabled'' (sc_meta inst)) (\<lambda>v. Inr (py_true v))"

fun get_enabled_scripts :: "registry \<Rightarrow> string list result" where
  "get_enabled_scripts [] = Inr []"
| "get_enabled_scripts ((sid, inst) # reg) =
     bind_result (script_enabled inst) (\<lambda>b. bind_result (get_enabled_scripts reg) (\<lambda>rest.
       Inr (if b then sid # rest else rest)))"

datatype port_check = PortConflict string string pyval | PortsVerified nat | PortCheckFailed

type_synonym used_ports = "(pyval, string) table"

fun claim_ports :: "string \<Rightarrow> pyval list \<Rightarrow> used_ports \<Rightarrow> port_check + used_ports" where
  "claim_ports sid [] used = Inr used"
| "claim_ports sid (p # ps) used =
     (case py_key p of
        Inl _ \<Rightarrow> Inl PortCheckFailed
      | Inr k \<Rightarrow> (case row_at k used of
          Some other \<Rightarrow> Inl (PortConflict sid other p)
        | None \<Rightarrow> claim_ports sid ps (dict_set k sid used)))"

fun claim_all :: "registry \<Rightarrow> used_ports \<Rightarrow> port_check + used_ports" where
  "claim_all [] used = Inr used"
| "claim_all ((sid, inst) # reg) used =
     (case script_enabled inst of
        Inl _ \<Rightarrow> Inl PortCheckFailed
      | Inr b \<Rightarrow>
          if \<not> b then claim_all reg used
          else (case py_iter (case row_at ''ports'' (sc_meta inst) of None \<Rightarrow> PList [] | Some v \<Rightarrow> v) of
             Inl _ \<Rightarrow> Inl PortCheckFailed
           | Inr ports \<Rightarrow> (case claim_ports sid ports used of Inl r \<Rightarrow> Inl r | Inr used' \<Rightarrow> claim_all reg used')))"

text \<open>A conflict ends the process.\<close>

definition check_port_conflicts :: "registry \<Rightarrow> port_check" where
  "check_port_conflicts reg = (case claim_all reg [] of Inl r \<Rightarrow> r | Inr used \<Rightarrow> PortsVerified (length used))"

section \<open>Hooks and debugging\<close>

type_synonym 's hook_registry = "(string, ('s \<Rightarrow> 's result) list) table"

definition hooks_at :: "string \<Rightarrow> 's hook_registry \<Rightarrow> ('s \<Rightarrow> 's result) list" where
  "hooks_at name reg = (case row_at name reg of None \<Rightarrow> [] | Some cbs \<Rightarrow> cbs)"

definition register_engine_hook :: "'s hook_registry \<Rightarrow> string \<Rightarrow> ('s \<Rightarrow> 's result) \<Rightarrow> 's hook_registry" where
  "register_engine_hook reg name callback = dict_set name (hooks_at name reg @ [callback]) reg"

definition call_hooks :: "'s hook_registry \<Rightarrow> string \<Rightarrow> 's \<Rightarrow> 's result" where
  "call_hooks reg name st = foldl bind_result (Inr st) (hooks_at name reg)"

text \<open>\<open>debug_utils.inject_debug_args\<close>; adding a list to a value that is no list raises.\<close>

definition inject_debug_args :: "script \<Rightarrow> int \<Rightarrow> script result" where
  "inject_debug_args inst port =
     (if \<not> py_true (case row_at ''debug'' (sc_meta inst) of None \<Rightarrow> PBool False | Some v \<Rightarrow> v) then Inr inst
      else (case (case row_at ''args'' (sc_meta inst) of None \<Rightarrow> PList [] | Some v \<Rightarrow> v) of
          PList args \<Rightarrow> Inr (inst\<lparr>sc_meta := dict_set ''args''
            (PList ([PStr ''-m'', PStr ''debugpy'', PStr ''--listen'', PStr (str_int port), PStr ''--wait-for-client''] @ args)) (sc_meta inst)\<rparr>)
        | _ \<Rightarrow> Inl TypeError))"

section \<open>The port check\<close>

text \<open>The ports the enabled scripts ask for, as dictionary keys.\<close>

definition script_ports :: "script \<Rightarrow> pyval list result" where
  "script_ports inst =
     bind_result (py_iter (case row_at ''ports'' (sc_meta inst) of None \<Rightarrow> PList [] | Some v \<Rightarrow> v)) (map_result py_key)"

fun enabled_ports :: "registry \<Rightarrow> pyval list result" where
  "enabled_ports [] = Inr []"
| "enabled_ports ((sid, inst) # reg) =
     bind_result (script_enabled inst) (\<lambda>b.
       if b then bind_result (script_ports inst) (\<lambda>ks. bind_result (enabled_ports reg) (\<lambda>rest. Inr (ks @ rest)))
       else enabled_ports reg)"

lemma dict_set_new_keys: "row_at k d = None \<Longrightarrow> map fst (dict_set k v d) = map fst d @ [k]"
  by (simp add: dict_set_def)

lemma claim_ports_outcome:
  assumes "map_result py_key ps = Inr ks" and "keys_unique used"
  shows "case claim_ports sid ps used of
      Inr used' \<Rightarrow> distinct (map fst used @ ks) \<and> map fst used' = map fst used @ ks
    | Inl r \<Rightarrow> \<not> distinct (map fst used @ ks) \<and> (\<exists>other p. r = PortConflict sid other p)"
  using assms
proof (induction ps arbitrary: used ks)
  case Nil
  then show ?case by (simp add: keys_unique_def)
next
  case (Cons p ps)
  then obtain k ks' where k: "py_key p = Inr k" "map_result py_key ps = Inr ks'" "ks = k # ks'"
    by (auto split: sum.splits)
  show ?case
  proof (cases "row_at k used")
    case None
    have u: "keys_unique (dict_set k sid used)" by (rule dict_set_unique [OF Cons.prems(2)])
    show ?thesis using Cons.IH [OF k(2) u] None k dict_set_new_keys [OF None] by (simp split: sum.splits)
  next
    case (Some other)
    then have "k \<in> set (map fst used)" using row_at_keys [of k used] by simp
    then show ?thesis using Some k by simp
  qed
qed

lemma claim_all_outcome:
  assumes "enabled_ports reg = Inr ks" and "keys_unique used"
  shows "case claim_all reg used of
      Inr used' \<Rightarrow> distinct (map fst used @ ks) \<and> map fst used' = map fst used @ ks
    | Inl r \<Rightarrow> \<not> distinct (map fst used @ ks) \<and> (\<exists>sid other p. r = PortConflict sid other p)"
  using assms
proof (induction reg arbitrary: used ks)
  case Nil
  then show ?case by (simp add: keys_unique_def)
next
  case (Cons e reg)
  obtain sid inst where e: "e = (sid, inst)" by force
  obtain b where b: "script_enabled inst = Inr b" using Cons.prems(1) e by (cases "script_enabled inst") auto
  show ?case
  proof (cases b)
    case False
    then show ?thesis using Cons b e by simp
  next
    case True
    then obtain ps as rest where r: "py_iter (case row_at ''ports'' (sc_meta inst) of None \<Rightarrow> PList [] | Some v \<Rightarrow> v) = Inr ps"
      "map_result py_key ps = Inr as" "enabled_ports reg = Inr rest" "ks = as @ rest"
      using Cons.prems(1) b e by (auto simp: bind_result_Inr_conv script_ports_def)
    note c = claim_ports_outcome [OF r(2) Cons.prems(2), of sid]
    show ?thesis
    proof (cases "claim_ports sid ps used")
      case (Inl x)
      then show ?thesis using c r b e True by auto
    next
      case (Inr used')
      then have u: "distinct (map fst used @ as)" "map fst used' = map fst used @ as" using c by simp_all
      then have "keys_unique used'" by (simp add: keys_unique_def)
      from Cons.IH [OF r(3) this] show ?thesis using u r b e True Inr by (simp split: sum.splits)
    qed
  qed
qed

text \<open>The port check passes exactly when no two of the ports the enabled scripts list are equal, and
  counts them; otherwise it reports a conflict (and the engine exits).  Here the ports can be read:
  \<open>enabled\<close> is present, \<open>ports\<close> can be iterated and holds no list or dictionary.\<close>

theorem port_check_outcome:
  assumes "enabled_ports reg = Inr ks"
  shows "if distinct ks then check_port_conflicts reg = PortsVerified (length ks)
    else \<exists>sid other p. check_port_conflicts reg = PortConflict sid other p"
proof -
  have "keys_unique ([] :: used_ports)" by (simp add: keys_unique_def)
  note c = claim_all_outcome [OF assms this]
  show ?thesis
  proof (cases "claim_all reg []")
    case (Inl r)
    then show ?thesis using c by (auto simp: check_port_conflicts_def)
  next
    case (Inr used')
    then have "distinct ks" "map fst used' = ks" using c by simp_all
    moreover from this(2) have "length used' = length ks" using length_map by metis
    ultimately show ?thesis using Inr by (simp add: check_port_conflicts_def)
  qed
qed

definition script_example :: "string \<Rightarrow> string \<Rightarrow> string \<Rightarrow> script" where
  "script_example sid restart ports = \<lparr>sc_id = sid, sc_path = [sid],
     sc_meta = dict_set ''restart_policy'' (PStr restart) (dict_set ''ports'' (PList (map PInt (parse_ports ports))) default_meta),
     sc_venv = None\<rparr>"

theorem port_check_outcome_witness:
  "check_port_conflicts [(''a'', script_example ''a'' ''always'' ''8000-8002''), (''b'', script_example ''b'' ''never'' ''80, 8003'')] = PortsVerified 5"
proof -
  have "enabled_ports [(''a'', script_example ''a'' ''always'' ''8000-8002''), (''b'', script_example ''b'' ''never'' ''80, 8003'')] =
      Inr [PInt 8000, PInt 8001, PInt 8002, PInt 80, PInt 8003]" by code_simp
  from port_check_outcome [OF this] show ?thesis by simp
qed

text \<open>Overlapping entries of one script are a conflict of the script with itself.\<close>

lemma port_conflict_with_itself:
  "check_port_conflicts [(''a'', script_example ''a'' ''always'' ''8000-8002,8001'')] = PortConflict ''a'' ''a'' (PInt 8001)"
  by code_simp

section \<open>Reading ports back\<close>

lemma digits_no_sep: "list_all is_digit s \<Longrightarrow> CHR '','' \<notin> set s \<and> CHR ''-'' \<notin> set s"
  by (auto simp: list_all_iff is_digit_def)

lemma str_int_nonneg_digits: "0 \<le> i \<Longrightarrow> list_all is_digit (str_int i) \<and> str_int i \<noteq> []"
  using nat_digits_props [of "nat i"] by (simp add: str_int_def)

lemma part_ports_str_int: "0 \<le> i \<Longrightarrow> part_ports (str_int i) = [i]"
proof -
  assume i: "0 \<le> i"
  have "str_strip (str_int i) = str_int i" using str_int_no_space by (simp add: str_strip_def strip_if_none)
  then show ?thesis using str_int_nonneg_digits [OF i] digits_no_sep [of "str_int i"] py_int_str_int [of i]
    by (simp add: part_ports_def)
qed

lemma parse_ports_roundtrip:
  "list_all (\<lambda>i. 0 \<le> i) ps \<Longrightarrow> ps \<noteq> [] \<Longrightarrow> parse_ports (join '','' (map str_int ps)) = ps"
proof (induction ps)
  case Nil
  then show ?case by simp
next
  case (Cons p ps)
  have p: "CHR '','' \<notin> set (str_int p)" "part_ports (str_int p) = [p]"
    using Cons.prems str_int_nonneg_digits [of p] digits_no_sep part_ports_str_int by auto
  show ?case
  proof (cases ps)
    case Nil
    then show ?thesis using p by (simp add: parse_ports_def split_on_plain)
  next
    case (Cons q qs)
    have "parse_ports (join '','' (map str_int (p # ps))) = parse_ports (str_int p @ CHR '','' # join '','' (map str_int ps))"
      using Cons by simp
    also have "\<dots> = p # parse_ports (join '','' (map str_int ps))"
      using p by (simp add: parse_ports_def split_on_append)
    also have "\<dots> = p # ps" using Cons.IH Cons.prems Cons by simp
    finally show ?thesis .
  qed
qed

section \<open>Discovery and overrides\<close>

lemma with_fields_mono: "with_fields m fs = Inr m' \<Longrightarrow> fst ` set m \<subseteq> fst ` set m'"
  by (induction m fs rule: with_fields.induct) (auto simp: dict_set_keys split: sum.splits)

lemma parse_meta_complete:
  "parse_meta_info fo c = Inr m \<Longrightarrow> fst ` set default_meta \<subseteq> fst ` set m"
  "parse_meta_json data = Inr m \<Longrightarrow> fst ` set default_meta \<subseteq> fst ` set m"
  unfolding parse_meta_info_def parse_meta_json_def bind_result_Inr_conv
  by (auto simp only: bind_result_Inr_conv sum.inject split: option.splits dest: with_fields_mono)

text \<open>Metadata that load have every field of the defaults.\<close>

lemma load_meta_complete: "load_meta fo d = Inr (Some m) \<Longrightarrow> fst ` set default_meta \<subseteq> fst ` set m"
  unfolding load_meta_def
  by (auto simp only: bind_result_Inr_conv sum.inject option.inject split: option.splits dest: parse_meta_complete)

lemma load_meta_some: "is_script d \<Longrightarrow> load_meta fo d \<noteq> Inr None"
  by (auto simp: load_meta_def is_script_def bind_result_Inr_conv split: option.splits)

lemma scan_step:
  assumes "is_script d" and "scan_scripts fo (d # ds) reg = Fine reg'"
  obtains m where "validate_script d = Fine ()" and "load_meta fo d = Inr (Some m)"
    and "scan_scripts fo ds (dict_set (script_id (di_path d))
          \<lparr>sc_id = script_id (di_path d), sc_path = di_path d, sc_meta = m, sc_venv = None\<rparr> reg) = Fine reg'"
  using assms load_meta_some [OF assms(1), of fo] that
  by (auto split: escape.splits sum.splits option.splits)

definition entry_of :: "(string \<Rightarrow> rat result) \<Rightarrow> dir_info \<Rightarrow> script option" where
  "entry_of fo d = (case load_meta fo d of
     Inr (Some m) \<Rightarrow> Some \<lparr>sc_id = script_id (di_path d), sc_path = di_path d, sc_meta = m, sc_venv = None\<rparr> | _ \<Rightarrow> None)"

lemma row_at_scan:
  assumes "scan_scripts fo ds reg = Fine reg'" and "distinct (map (\<lambda>d. script_id (di_path d)) ds)"
    and "d \<in> set ds" and "is_script d"
  shows "validate_script d = Fine () \<and> entry_of fo d \<noteq> None \<and> row_at (script_id (di_path d)) reg' = entry_of fo d"
  using assms
proof (induction ds arbitrary: reg)
  case Nil
  then show ?case by simp
next
  case (Cons c ds)
  have other: "row_at sid reg' = row_at sid reg0"
    if "scan_scripts fo ds reg0 = Fine reg'" "sid \<notin> set (map (\<lambda>d. script_id (di_path d)) ds)" for sid reg0 ds
    using that
  proof (induction ds arbitrary: reg0)
    case Nil
    then show ?case by simp
  next
    case (Cons c ds)
    show ?case
    proof (cases "is_script c")
      case False
      then show ?thesis using Cons by simp
    next
      case True
      from True Cons.prems(1) obtain m where "scan_scripts fo ds (dict_set (script_id (di_path c))
          \<lparr>sc_id = script_id (di_path c), sc_path = di_path c, sc_meta = m, sc_venv = None\<rparr> reg0) = Fine reg'"
        by (rule scan_step)
      from Cons.IH [OF this] Cons.prems(2) show ?thesis by (simp add: dict.get_put)
    qed
  qed
  show ?case
  proof (cases "is_script c")
    case False
    then show ?thesis using Cons by auto
  next
    case True
    from True Cons.prems(1) obtain m where m: "validate_script c = Fine ()" "load_meta fo c = Inr (Some m)"
      "scan_scripts fo ds (dict_set (script_id (di_path c))
          \<lparr>sc_id = script_id (di_path c), sc_path = di_path c, sc_meta = m, sc_venv = None\<rparr> reg) = Fine reg'"
      by (rule scan_step)
    show ?thesis
    proof (cases "d = c")
      case True
      then show ?thesis using m other [OF m(3), of "script_id (di_path c)"] Cons.prems(2) by (simp add: entry_of_def)
    next
      case False
      then show ?thesis using Cons.IH [OF m(3)] Cons.prems by simp
    qed
  qed
qed

text \<open>One unreadable \<open>meta.json\<close> empties the registry: no script is started.\<close>

definition good_dir :: "string \<Rightarrow> dir_info" where
  "good_dir n = \<lparr>di_path = [''GAMES'', n], di_has_main = True, di_main_text = Inr [], di_has_hooks = True,
     di_phooks = Some (PhooksModule (Some (PList [])) (Some (PList []))), di_has_api = True,
     di_meta_info = None, di_meta_json = Some (Inr (PDict [(''name'', PStr n)]))\<rparr>"

lemma one_bad_meta_empties_registry:
  "discover_scripts fo [good_dir ''a'', (good_dir ''b'')\<lparr>di_meta_json := Some (Inl ValueError)\<rparr>] = Fine []"
  by (simp add: discover_scripts_def is_script_def good_dir_def validate_script_def validate_hooks_def validate_phooks_def
      is_list_def load_meta_def parse_meta_json_def default_meta_def py_get_def row_at_def)

text \<open>An override changes the listed fields of the scripts it names, and nothing else.\<close>

lemma override_meta_other:
  "override_meta s ks m = Inr m' \<Longrightarrow> k \<notin> set ks \<Longrightarrow> row_at k m' = row_at k m"
  by (induction s ks m rule: override_meta.induct) (auto simp: dict.get_put split: sum.splits if_splits)

lemma map_result_Inr_fst:
  "map_result f xs = Inr ys \<Longrightarrow> (\<And>x y. f x = Inr y \<Longrightarrow> fst y = fst x) \<Longrightarrow> map fst ys = map fst xs"
  by (induction xs arbitrary: ys) (auto split: sum.splits)

lemma override_script_frame:
  assumes "override_script ov (sid, inst) = Inr e"
  shows "fst e = sid \<and> sc_id (snd e) = sc_id inst \<and> sc_path (snd e) = sc_path inst \<and>
    (\<forall>k. k \<in> set OVERRIDE_KEYS \<or> row_at k (sc_meta (snd e)) = row_at k (sc_meta inst))"
  using assms by (auto simp: override_script_def bind_result_Inr_conv split: if_splits dest: override_meta_other)

lemma overrides_keep_ids:
  "apply_overrides file reg = [] \<or> map fst (apply_overrides file reg) = map fst reg"
proof -
  have "fst y = fst x" if "override_script ov x = Inr y" for ov x y
    using override_script_frame [of ov "fst x" "snd x" y] that by simp
  then show ?thesis
    by (auto simp: apply_overrides_def bind_result_Inr_conv split: option.splits sum.splits dest!: map_result_Inr_fst)
qed

section \<open>Hooks\<close>

text \<open>Callbacks run in the order of registration; the first that raises ends the call.\<close>

lemma call_registered_hook:
  "call_hooks (register_engine_hook reg name cb) name st = bind_result (call_hooks reg name st) cb"
  "other \<noteq> name \<Longrightarrow> call_hooks (register_engine_hook reg name cb) other st = call_hooks reg other st"
  by (simp_all add: call_hooks_def register_engine_hook_def hooks_at_def dict.get_put)

end
