(* ===== verification/EngineProcs.thy ===== *)
theory EngineProcs
  imports EngineScripts
begin

text \<open>
  Supervision of the scripts' processes, \<open>engine/process_wrapper.py\<close>: starting, stopping, health
  checks and the restart policy with its backoff.  The operating system is a list of children, each
  with its exit code once it has ended and whether it has printed \<open>SHUTDOWN_COMPLETE\<close>; a
  \<open>Popen\<close> object is a position in that list.  What a call finds outside (the clock, whether a
  command can be launched, how a child ends that is told to) is its argument \<open>env\<close>.  Logs, pipes
  and drain threads are left out.
\<close>

section \<open>Processes\<close>

record child =
  ch_exit :: "int option"
  ch_marker :: bool

type_synonym handle = nat

record proc_env =
  ev_now :: rat
  ev_time :: rat
  ev_venv :: bool
  ev_spawn :: "pyval list \<Rightarrow> int result"
  ev_kill :: "handle \<Rightarrow> int"

datatype status = SStarting | SRunning | SCrashed | SStopped

record proc_info =
  pi_pid :: "int option"
  pi_process :: "handle option"
  pi_status :: status
  pi_exit :: "int option"
  pi_restarts :: nat
  pi_start :: rat
  pi_sid :: string
  pi_type :: pyval
  pi_timeout :: pyval
  pi_event :: "handle option"

definition meta_or :: "string \<Rightarrow> pyval \<Rightarrow> meta \<Rightarrow> pyval" where
  "meta_or k v m = (case row_at k m of None \<Rightarrow> v | Some x \<Rightarrow> x)"

definition new_proc_info :: "script \<Rightarrow> proc_info" where
  "new_proc_info inst = \<lparr>pi_pid = None, pi_process = None, pi_status = SStopped, pi_exit = None, pi_restarts = 0,
     pi_start = 0, pi_sid = sc_id inst, pi_type = meta_or ''server_type'' (PStr ''normal'') (sc_meta inst),
     pi_timeout = meta_or ''shutdown_timeout'' (PFloat 5) (sc_meta inst), pi_event = None\<rparr>"

text \<open>The command line: the virtual environment's interpreter when it exists, else the configured one.\<close>

definition get_python :: "proc_env \<Rightarrow> script \<Rightarrow> pyval result" where
  "get_python env inst =
     (case sc_venv inst of
        Some v \<Rightarrow> if v \<noteq> [] \<and> ev_venv env then Inr (PStr (v @ ''/bin/python'')) else meta_item ''python_path'' (sc_meta inst)
      | None \<Rightarrow> meta_item ''python_path'' (sc_meta inst))"

definition build_command :: "proc_env \<Rightarrow> script \<Rightarrow> pyval list result" where
  "build_command env inst =
     bind_result (get_python env inst) (\<lambda>python.
     bind_result (meta_item ''entry_point'' (sc_meta inst)) (\<lambda>entry.
       case entry of
         PStr e \<Rightarrow> (case meta_or ''args'' (PList []) (sc_meta inst) of
             PList args \<Rightarrow> Inr ([python, PStr (join ''/'' (sc_path inst @ [e]))] @ args)
           | _ \<Rightarrow> Inl TypeError)
       | _ \<Rightarrow> Inl TypeError))"

definition start_script :: "proc_env \<Rightarrow> script \<Rightarrow> child list \<Rightarrow> proc_info result \<times> child list" where
  "start_script env inst ps =
     (case build_command env inst of
        Inl e \<Rightarrow> (Inl e, ps)
      | Inr cmd \<Rightarrow> (case ev_spawn env cmd of
          Inl _ \<Rightarrow> (Inr ((new_proc_info inst)\<lparr>pi_status := SCrashed, pi_exit := Some (- 1)\<rparr>), ps)
        | Inr pid \<Rightarrow> (Inr ((new_proc_info inst)\<lparr>pi_pid := Some pid, pi_process := Some (length ps), pi_status := SRunning,
            pi_start := ev_now env, pi_event := Some (length ps)\<rparr>), ps @ [\<lparr>ch_exit = None, ch_marker = False\<rparr>])))"

text \<open>A child that is told to end, or awaited after it said it would, has ended afterwards.\<close>

definition exit_of :: "proc_env \<Rightarrow> handle \<Rightarrow> child list \<Rightarrow> int" where
  "exit_of env h ps = (case ch_exit (ps ! h) of Some c \<Rightarrow> c | None \<Rightarrow> ev_kill env h)"

definition end_child :: "proc_env \<Rightarrow> handle \<Rightarrow> child list \<Rightarrow> child list" where
  "end_child env h ps = ps[h := (ps ! h)\<lparr>ch_exit := Some (exit_of env h ps)\<rparr>]"

definition stop_script :: "proc_env \<Rightarrow> proc_info \<Rightarrow> child list \<Rightarrow> proc_info \<times> child list" where
  "stop_script env p ps =
     (case pi_process p of
        None \<Rightarrow> (p, ps)
      | Some h \<Rightarrow>
          if pi_status p \<noteq> SRunning \<and> pi_status p \<noteq> SStarting then (p, ps)
          else (p\<lparr>pi_status := SStopped, pi_process := None, pi_pid := None, pi_exit := Some (exit_of env h ps)\<rparr>,
                end_child env h ps))"

definition check_proc_health :: "proc_env \<Rightarrow> proc_info \<Rightarrow> child list \<Rightarrow> proc_info \<times> child list" where
  "check_proc_health env p ps =
     (if pi_status p \<noteq> SRunning then (p, ps)
      else if (case pi_event p of None \<Rightarrow> False | Some h \<Rightarrow> ch_marker (ps ! h)) then
        (p\<lparr>pi_status := SStopped, pi_exit := Some 0, pi_process := None, pi_pid := None\<rparr>,
         (case pi_process p of None \<Rightarrow> ps | Some h \<Rightarrow> end_child env h ps))
      else (case pi_process p of
          None \<Rightarrow> (p\<lparr>pi_status := SStopped\<rparr>, ps)
        | Some h \<Rightarrow> (case ch_exit (ps ! h) of
            Some ret \<Rightarrow> (p\<lparr>pi_status := SCrashed, pi_exit := Some ret, pi_process := None, pi_pid := None\<rparr>, ps)
          | None \<Rightarrow> (p, ps))))"

section \<open>Restarts\<close>

record restart_log =
  rl_count :: nat
  rl_last_start :: rat
  rl_last_restart :: rat
  rl_run :: rat

type_synonym restart_logs = "(string, restart_log) table"

definition first_log :: restart_log where
  "first_log = \<lparr>rl_count = 0, rl_last_start = 0, rl_last_restart = 0, rl_run = 999\<rparr>"

definition log_of :: "string \<Rightarrow> restart_logs \<Rightarrow> restart_log" where
  "log_of sid rl = (case row_at sid rl of None \<Rightarrow> first_log | Some l \<Rightarrow> l)"

definition backoff_delay :: "nat \<Rightarrow> rat" where
  "backoff_delay n = min (1 / 2 * 2 ^ n) 30"

text \<open>The delay before a restart that may go ahead, or minus the seconds still to wait.\<close>

definition restart_backoff :: "rat \<Rightarrow> restart_log \<Rightarrow> rat \<times> restart_log" where
  "restart_backoff now l =
     (let l1 = (if rl_run l > 10 then l\<lparr>rl_count := 0\<rparr> else l);
          delay = backoff_delay (rl_count l1);
          elapsed = now - rl_last_restart l1
      in if elapsed < delay then (- 1 * (delay - elapsed), l1)
         else (delay, l1\<lparr>rl_count := rl_count l1 + 1, rl_last_restart := now, rl_last_start := now, rl_run := 0\<rparr>))"

definition record_run :: "rat \<Rightarrow> restart_log \<Rightarrow> restart_log" where
  "record_run now l = (let d = now - rl_last_start l in if d > 0 then l\<lparr>rl_run := d\<rparr> else l)"

definition apply_restart_policy ::
  "proc_env \<Rightarrow> script \<Rightarrow> proc_info \<Rightarrow> restart_logs \<Rightarrow> child list \<Rightarrow> proc_info result \<times> restart_logs \<times> child list" where
  "apply_restart_policy env inst p rl ps =
     (case meta_item ''restart_policy'' (sc_meta inst) of
        Inl e \<Rightarrow> (Inl e, rl, ps)
      | Inr policy \<Rightarrow>
          if pi_status p = SStopped \<and> pi_exit p = Some 0 then (Inr p, delete_row (sc_id inst) rl, ps)
          else if pi_status p \<noteq> SCrashed then (Inr p, rl, ps)
          else if policy = PStr ''never'' then (Inr (p\<lparr>pi_status := SStopped\<rparr>), rl, ps)
          else if policy = PStr ''on-failure'' \<or> policy = PStr ''always'' then
            (case restart_backoff (ev_now env) (record_run (ev_now env) (log_of (sc_id inst) rl)) of
               (backoff, l) \<Rightarrow>
                 let rl1 = dict_set (sc_id inst) l rl
                 in if backoff < 0 then (Inr p, rl1, ps)
                    else (case start_script env inst ps of
                        (Inl e, ps1) \<Rightarrow> (Inl e, rl1, ps1)
                      | (Inr q, ps1) \<Rightarrow> (Inr (q\<lparr>pi_restarts := rl_count l\<rparr>), rl1, ps1)))
          else (Inr (p\<lparr>pi_status := SStopped\<rparr>), rl, ps))"

section \<open>Starting and monitoring\<close>

type_synonym running = "(string, proc_info) table"

fun start_all_enabled :: "proc_env \<Rightarrow> registry \<Rightarrow> running \<Rightarrow> child list \<Rightarrow> running result \<times> child list" where
  "start_all_enabled env [] run ps = (Inr run, ps)"
| "start_all_enabled env ((sid, inst) # reg) run ps =
     (case script_enabled inst of
        Inl e \<Rightarrow> (Inl e, ps)
      | Inr b \<Rightarrow>
          if b then (case start_script env inst ps of
              (Inl e, ps1) \<Rightarrow> (Inl e, ps1)
            | (Inr p, ps1) \<Rightarrow> start_all_enabled env reg (dict_set sid p run) ps1)
          else start_all_enabled env reg run ps)"

text \<open>Which entries \<open>monitor_scripts\<close> drops.\<close>

definition dropped :: "pyval \<Rightarrow> proc_info \<Rightarrow> bool" where
  "dropped policy p =
     (pi_status p = SStopped \<and> (policy = PStr ''never'' \<or> policy = PStr ''on-failure'' \<or> pi_exit p = Some 0))"

fun monitor_loop ::
  "proc_env \<Rightarrow> registry \<Rightarrow> running \<Rightarrow> running \<Rightarrow> restart_logs \<Rightarrow> child list \<Rightarrow> running result \<times> restart_logs \<times> child list" where
  "monitor_loop env reg [] new rl ps = (Inr new, rl, ps)"
| "monitor_loop env reg ((sid, p) # run) new rl ps =
     (case row_at sid reg of
        None \<Rightarrow> monitor_loop env reg run new rl ps
      | Some inst \<Rightarrow>
          (case check_proc_health env p ps of (p1, ps1) \<Rightarrow>
             (case apply_restart_policy env inst p1 rl ps1 of
                (Inl e, rl2, ps2) \<Rightarrow> (Inl e, rl2, ps2)
              | (Inr p2, rl2, ps2) \<Rightarrow>
                  monitor_loop env reg run
                    (if dropped (meta_or ''restart_policy'' PNone (sc_meta inst)) p2 then new else dict_set sid p2 new) rl2 ps2)))"

definition monitor_scripts :: "proc_env \<Rightarrow> registry \<Rightarrow> running \<Rightarrow> restart_logs \<Rightarrow> child list \<Rightarrow> running result \<times> restart_logs \<times> child list" where
  "monitor_scripts env reg run rl ps = monitor_loop env reg run [] rl ps"

section \<open>What the backoff comes to\<close>

text \<open>The logs the policy keeps: the two times agree, the counter is at most five, and it is zero when the
  recorded run counts as stable.\<close>

definition log_sane :: "restart_log \<Rightarrow> bool" where
  "log_sane l = (rl_last_start l = rl_last_restart l \<and> rl_count l \<le> 5 \<and> (rl_run l \<le> 10 \<or> rl_count l = 0))"

definition restart_due :: "rat \<Rightarrow> restart_log \<Rightarrow> bool" where
  "restart_due now l =
     (now - rl_last_restart l > 10 \<or> 1 / 2 * 2 ^ rl_count l \<le> now - rl_last_restart l)"

lemma log_sane_first: "log_sane first_log"
  by (simp add: log_sane_def first_log_def)

lemma small_delays:
  assumes "n \<le> 5"
  shows "backoff_delay n = 1 / 2 * 2 ^ n" and "1 / 2 \<le> backoff_delay n" and "backoff_delay n \<le> 10 \<Longrightarrow> n \<le> 4"
proof -
  have "n \<in> {0, 1, 2, 3, 4, 5}" using assms by auto
  then show "backoff_delay n = 1 / 2 * 2 ^ n" "1 / 2 \<le> backoff_delay n" "backoff_delay n \<le> 10 \<Longrightarrow> n \<le> 4"
    by (auto simp: backoff_delay_def)
qed

text \<open>A crashed script is restarted once the delay has passed, or more than ten seconds after its last
  start: the wait counts as running time, so delays above ten seconds never take effect.\<close>

lemma restart_decision:
  assumes "log_sane l" and "rl_last_restart l \<le> now"
  shows "restart_due now l \<Longrightarrow> \<exists>d>0. restart_backoff now (record_run now l) =
      (d, \<lparr>rl_count = (if now - rl_last_restart l > 10 then 1 else rl_count l + 1), rl_last_start = now, rl_last_restart = now, rl_run = 0\<rparr>)"
    and "\<not> restart_due now l \<Longrightarrow> \<exists>d<0. \<exists>l'. restart_backoff now (record_run now l) = (d, l') \<and>
      rl_count l' = rl_count l \<and> rl_last_restart l' = rl_last_restart l"
    and "log_sane (snd (restart_backoff now (record_run now l)))"
proof -
  let ?t = "rl_last_restart l" and ?c = "rl_count l"
  have s: "rl_last_start l = ?t" "?c \<le> 5" "rl_run l \<le> 10 \<or> ?c = 0" using assms(1) by (auto simp: log_sane_def)
  note d = small_delays [OF s(2)]
  have half: "1 / 2 \<le> backoff_delay 0" and zero: "backoff_delay 0 = 1 / 2" by (simp_all add: backoff_delay_def)
  consider (late) "now - ?t > 10" | (same) "now = ?t" | (early) "0 < now - ?t" "now - ?t \<le> 10" using assms(2) by linarith
  then have "(restart_due now l \<longrightarrow> (\<exists>d>0. restart_backoff now (record_run now l) =
      (d, \<lparr>rl_count = (if now - ?t > 10 then 1 else ?c + 1), rl_last_start = now, rl_last_restart = now, rl_run = 0\<rparr>))) \<and>
    (\<not> restart_due now l \<longrightarrow> (\<exists>d<0. \<exists>l'. restart_backoff now (record_run now l) = (d, l') \<and>
      rl_count l' = rl_count l \<and> rl_last_restart l' = rl_last_restart l)) \<and>
    log_sane (snd (restart_backoff now (record_run now l)))"
  proof cases
    case late
    then show ?thesis using s zero
      by (cases l) (auto simp: restart_due_def restart_backoff_def record_run_def log_sane_def)
  next
    case same
    have "\<not> restart_due now l" using same by (simp add: restart_due_def not_le)
    moreover have r: "record_run now l = l" using same s(1) by (simp add: record_run_def)
    moreover have "restart_backoff now l = (- backoff_delay ?c, l)"
    proof (cases "rl_run l > 10")
      case True
      then have "l\<lparr>rl_count := 0\<rparr> = l" using s(3) by (cases l) auto
      then show ?thesis using True same half s(3) by (simp add: restart_backoff_def)
    next
      case False
      then show ?thesis using same d(2) by (simp add: restart_backoff_def)
    qed
    ultimately show ?thesis using d(2) assms(1) by (auto intro!: exI [of _ "- backoff_delay ?c"])
  next
    case early
    have r: "record_run now l = l\<lparr>rl_run := now - ?t\<rparr>" using early s(1) by (simp add: record_run_def)
    have b: "restart_backoff now (record_run now l) =
        (if now - ?t < backoff_delay ?c then (- (backoff_delay ?c - (now - ?t)), l\<lparr>rl_run := now - ?t\<rparr>)
         else (backoff_delay ?c, \<lparr>rl_count = ?c + 1, rl_last_start = now, rl_last_restart = now, rl_run = 0\<rparr>))"
      unfolding r using early by (cases l) (simp add: restart_backoff_def)
    show ?thesis
    proof (cases "now - ?t < backoff_delay ?c")
      case True
      then have "\<not> restart_due now l" using early d(1) by (simp add: restart_due_def)
      then show ?thesis using b True early s by (auto simp: log_sane_def)
    next
      case False
      then have "?c \<le> 4" using early d(3) by linarith
      moreover have "0 < backoff_delay ?c" using d(2) by linarith
      moreover have "restart_due now l" using False d(1) by (simp add: restart_due_def)
      moreover have "restart_backoff now (record_run now l) =
          (backoff_delay ?c, \<lparr>rl_count = ?c + 1, rl_last_start = now, rl_last_restart = now, rl_run = 0\<rparr>)"
        using b False by simp
      ultimately show ?thesis using early(2) by (simp add: log_sane_def)
    qed
  qed
  then show "restart_due now l \<Longrightarrow> \<exists>d>0. restart_backoff now (record_run now l) =
      (d, \<lparr>rl_count = (if now - ?t > 10 then 1 else ?c + 1), rl_last_start = now, rl_last_restart = now, rl_run = 0\<rparr>)"
    and "\<not> restart_due now l \<Longrightarrow> \<exists>d<0. \<exists>l'. restart_backoff now (record_run now l) = (d, l') \<and>
      rl_count l' = rl_count l \<and> rl_last_restart l' = rl_last_restart l"
    and "log_sane (snd (restart_backoff now (record_run now l)))" by blast+
qed

text \<open>C4: what the restart policy does with a crashed script whose policy is \<open>on-failure\<close> or
  \<open>always\<close>.  If a restart is due (the backoff of its counter has passed since the last one, or
  more than ten seconds have) it is started and counted, the counter restarting at one after more
  than ten seconds; otherwise it stays crashed, no process is started and the counter and the
  time of the last restart are kept.  In both cases the counter stays at most five.\<close>

theorem crashed_script_restart:
  assumes "pi_status p = SCrashed" and "row_at ''restart_policy'' (sc_meta inst) = Some (PStr pol)"
    and "pol = ''on-failure'' \<or> pol = ''always''"
    and "l = log_of (sc_id inst) rl" and "log_sane l" and "rl_last_restart l \<le> ev_now env"
    and "n = (if \<not> restart_due (ev_now env) l then rl_count l else if ev_now env - rl_last_restart l > 10 then 1 else rl_count l + 1)"
  shows "\<exists>rl'. apply_restart_policy env inst p rl ps =
      (if restart_due (ev_now env) l
       then (map_sum id (\<lambda>q. q\<lparr>pi_restarts := n\<rparr>) (fst (start_script env inst ps)), rl', snd (start_script env inst ps))
       else (Inr p, rl', ps)) \<and>
    rl_count (log_of (sc_id inst) rl') = n \<and> log_sane (log_of (sc_id inst) rl') \<and>
    rl_last_restart (log_of (sc_id inst) rl') = (if restart_due (ev_now env) l then ev_now env else rl_last_restart l)"
proof -
  let ?now = "ev_now env"
  obtain d l' where b: "restart_backoff ?now (record_run ?now l) = (d, l')" by force
  note dec = restart_decision [OF assms(5,6), unfolded b]
  have pol: "PStr pol \<noteq> PStr ''never''" "PStr pol = PStr ''on-failure'' \<or> PStr pol = PStr ''always''" using assms(3) by auto
  have st: "\<not> (pi_status p = SStopped \<and> pi_exit p = Some 0)" "\<not> pi_status p \<noteq> SCrashed" using assms(1) by simp_all
  have m: "meta_item ''restart_policy'' (sc_meta inst) = Inr (PStr pol)" using assms(2) by (simp add: meta_item_def)
  have a: "apply_restart_policy env inst p rl ps = (if d < 0 then (Inr p, dict_set (sc_id inst) l' rl, ps)
      else (case start_script env inst ps of
          (Inl e, ps1) \<Rightarrow> (Inl e, dict_set (sc_id inst) l' rl, ps1)
        | (Inr q, ps1) \<Rightarrow> (Inr (q\<lparr>pi_restarts := rl_count l'\<rparr>), dict_set (sc_id inst) l' rl, ps1)))"
    unfolding apply_restart_policy_def m using st pol b assms(4) by (simp only: sum.case if_False if_True Let_def prod.case)
  have l': "log_of (sc_id inst) (dict_set (sc_id inst) l' rl) = l'" by (simp add: log_of_def)
  show ?thesis
  proof (cases "restart_due ?now l")
    case True
    then have "d > 0" "l' = \<lparr>rl_count = n, rl_last_start = ?now, rl_last_restart = ?now, rl_run = 0\<rparr>"
      using dec(1) assms(7) by auto
    then show ?thesis using a l' dec(3) True
      by (intro exI [of _ "dict_set (sc_id inst) l' rl"]) (auto split: prod.splits sum.splits)
  next
    case False
    then have "d < 0" "rl_count l' = n" "rl_last_restart l' = rl_last_restart l" using dec(2) assms(7) by auto
    then show ?thesis using a l' dec(3) False by (intro exI [of _ "dict_set (sc_id inst) l' rl"]) simp
  qed
qed

definition proc_env_example :: "rat \<Rightarrow> proc_env" where
  "proc_env_example now = \<lparr>ev_now = now, ev_time = now, ev_venv = False, ev_spawn = (\<lambda>_. Inr 4711), ev_kill = (\<lambda>_. - 15)\<rparr>"

definition crashed_example :: proc_info where
  "crashed_example = (new_proc_info (script_example ''a'' ''always'' []))\<lparr>pi_status := SCrashed, pi_exit := Some 1\<rparr>"

theorem crashed_script_restart_witness:
  "\<exists>rl'. apply_restart_policy (proc_env_example 100) (script_example ''a'' ''always'' []) crashed_example
      [(''a'', \<lparr>rl_count = 2, rl_last_start = 99, rl_last_restart = 99, rl_run = 0\<rparr>)] [] = (Inr crashed_example, rl', []) \<and>
    rl_count (log_of ''a'' rl') = 2"
proof -
  let ?l = "\<lparr>rl_count = 2, rl_last_start = 99, rl_last_restart = 99, rl_run = 0\<rparr>" and ?i = "script_example ''a'' ''always'' []"
  have "pi_status crashed_example = SCrashed" "row_at ''restart_policy'' (sc_meta ?i) = Some (PStr ''always'')"
    "''always'' = ''on-failure'' \<or> ''always'' = ''always''" "?l = log_of (sc_id ?i) [(''a'', ?l)]" "log_sane ?l"
    by code_simp+
  moreover have "rl_last_restart ?l \<le> ev_now (proc_env_example 100)" "\<not> restart_due (ev_now (proc_env_example 100)) ?l" "sc_id ?i = ''a''"
    by (simp_all add: proc_env_example_def restart_due_def script_example_def)
  ultimately show ?thesis
    using crashed_script_restart [of crashed_example ?i "''always''" ?l "[(''a'', ?l)]" "proc_env_example 100" 2 "[]"] by auto
qed

text \<open>The restarts among the checks of a script that is found crashed each time.\<close>

fun restart_times :: "restart_log \<Rightarrow> rat list \<Rightarrow> rat list" where
  "restart_times l [] = []"
| "restart_times l (t # ts) =
     (case restart_backoff t (record_run t l) of
        (d, l') \<Rightarrow> if d < 0 then restart_times l' ts else t # restart_times l' ts)"

text \<open>A script that crashes over and over is restarted at most every half second, and no check finds
  it crashed with its last restart more than ten seconds ago and leaves it: the documented delays
  of sixteen and thirty seconds are never reached.\<close>

theorem crash_loop_rate:
  assumes "log_sane l" and "sorted (rl_last_restart l # ts)"
  shows "sorted_wrt (\<lambda>a b. a + 1 / 2 \<le> b) (rl_last_restart l # restart_times l ts) \<and>
    list_all (\<lambda>t. list_ex (\<lambda>r. r \<le> t \<and> t \<le> r + 10) (rl_last_restart l # restart_times l ts)) ts"
  using assms
proof (induction ts arbitrary: l)
  case Nil
  then show ?case by simp
next
  case (Cons t ts)
  let ?r = "rl_last_restart l"
  obtain d l' where b: "restart_backoff t (record_run t l) = (d, l')" by force
  have t: "?r \<le> t" "sorted (t # ts)" using Cons.prems(2) by simp_all
  note dec = restart_decision [OF Cons.prems(1) t(1), unfolded b]
  have sane: "log_sane l'" using dec(3) by simp
  show ?case
  proof (cases "restart_due t l")
    case True
    then have d: "\<not> d < 0" "rl_last_restart l' = t" using dec(1) by auto
    have "?r + 1 / 2 \<le> t"
    proof (cases "t - ?r > 10")
      case False
      then have "1 / 2 * 2 ^ rl_count l \<le> t - ?r" using True by (simp add: restart_due_def)
      moreover have "(1 :: rat) \<le> 2 ^ rl_count l" by simp
      ultimately show ?thesis by linarith
    qed linarith
    then show ?thesis using Cons.IH [OF sane] t d b by (auto simp: list_all_iff list_ex_iff)
  next
    case False
    then have d: "d < 0" "rl_last_restart l' = ?r" using dec(2) by auto
    moreover have "t \<le> ?r + 10" using False by (simp add: restart_due_def)
    ultimately show ?thesis using Cons.IH [OF sane] Cons.prems(2) b t(1) by simp
  qed
qed

theorem crash_loop_rate_witness:
  "restart_times first_log [60, 61, 62, 65, 70, 75, 80, 85] = [60, 61, 65, 70, 80] \<and>
   sorted_wrt (\<lambda>a b. a + 1 / 2 \<le> b) (0 # restart_times first_log [60, 61, 62, 65, 70, 75, 80, 85])"
proof -
  have "sorted (rl_last_restart first_log # [60, 61, 62, 65, 70, 75, 80, 85])" by (simp add: first_log_def)
  from crash_loop_rate [OF log_sane_first this]
  have "sorted_wrt (\<lambda>a b. a + 1 / 2 \<le> b) (0 # restart_times first_log [60, 61, 62, 65, 70, 75, 80, 85])"
    by (simp add: first_log_def)
  moreover have "restart_times first_log [60, 61, 62, 65, 70, 75, 80, 85] = [60, 61, 65, 70, 80]"
    by (simp add: first_log_def record_run_def restart_backoff_def backoff_delay_def)
  ultimately show ?thesis by blast
qed

text \<open>A script that has printed the marker is stopped, not restarted, and its counter forgotten; one that
  exits with code zero without it is a crash, which \<open>on-failure\<close> restarts too.\<close>

lemma clean_shutdown_forgets:
  assumes "pi_status p = SRunning" and "pi_event p = Some h" and "ch_marker (ps ! h)"
    and "row_at ''restart_policy'' (sc_meta inst) \<noteq> None"
  shows "case check_proc_health env p ps of (p1, ps1) \<Rightarrow>
    pi_status p1 = SStopped \<and> apply_restart_policy env inst p1 rl ps1 = (Inr p1, delete_row (sc_id inst) rl, ps1)"
  using assms by (auto simp: check_proc_health_def apply_restart_policy_def meta_item_def)

lemma zero_exit_is_a_crash:
  assumes "pi_status p = SRunning" and "pi_process p = Some h" and "pi_event p = Some h" and "ps ! h = \<lparr>ch_exit = Some 0, ch_marker = False\<rparr>"
  shows "pi_status (fst (check_proc_health env p ps)) = SCrashed"
  using assms by (simp add: check_proc_health_def)

end
