(* ===== verification/EngineMain.thy ===== *)
theory EngineMain
  imports EngineProcs "HOL-Library.List_Lexorder"
begin

text \<open>
  The engine's main loop and its administration (\<open>main.py\<close>, \<open>reload_script\<close> of
  \<open>engine/watcher.py\<close>).  The table of running scripts is a dictionary that commands change in
  place and that \<open>monitor_scripts\<close> replaces by a new one.  The thread of the UDP commands was
  given the dictionary of the start: \<open>en_udp\<close> is \<open>None\<close> while the main loop still uses
  that one, and afterwards the table the thread is left with.
\<close>

section \<open>State\<close>

type_synonym watchers = "(string, rat) table"

record engine =
  en_registry :: registry
  en_running :: running
  en_udp :: "running option"
  en_log :: restart_logs
  en_children :: "child list"
  en_watch :: watchers
  en_up :: bool

text \<open>One table of running scripts with what commands change beside it.\<close>

record desk =
  dk_running :: running
  dk_children :: "child list"
  dk_watch :: watchers

section \<open>Reloading\<close>

text \<open>\<open>reload_script\<close> returns whether it reloaded; an exception inside makes it return an empty tuple,
  which its callers cannot unpack.\<close>

definition reload_script :: "proc_env \<Rightarrow> registry \<Rightarrow> string \<Rightarrow> desk \<Rightarrow> bool result \<times> desk" where
  "reload_script env reg sid d =
     (if (case row_at sid (dk_watch d) of None \<Rightarrow> False | Some t \<Rightarrow> ev_time env - t < 2) then (Inr False, d)
      else (case row_at sid reg of
          None \<Rightarrow> (Inr False, d)
        | Some inst \<Rightarrow>
            let d1 = (case row_at sid (dk_running d) of
                  None \<Rightarrow> d
                | Some p \<Rightarrow>
                    if pi_status p = SRunning \<or> pi_status p = SStarting
                    then (case stop_script env p (dk_children d) of
                        (p', ps) \<Rightarrow> d\<lparr>dk_running := dict_set sid p' (dk_running d), dk_children := ps\<rparr>)
                    else d)
            in (case start_script env inst (dk_children d1) of
                (Inl _, ps) \<Rightarrow> (Inl ValueError, d1\<lparr>dk_children := ps\<rparr>)
              | (Inr q, ps) \<Rightarrow> (Inr True,
                  d1\<lparr>dk_running := dict_set sid q (dk_running d1), dk_children := ps,
                     dk_watch := update_row sid (\<lambda>_. ev_time env) (dk_watch d1)\<rparr>))))"

fun reload_all :: "proc_env \<Rightarrow> registry \<Rightarrow> string list \<Rightarrow> desk \<Rightarrow> (string \<times> bool) list result \<times> desk" where
  "reload_all env reg [] d = (Inr [], d)"
| "reload_all env reg (sid # sids) d =
     (case reload_script env reg sid d of
        (Inl e, d1) \<Rightarrow> (Inl e, d1)
      | (Inr b, d1) \<Rightarrow> (case reload_all env reg sids d1 of
          (Inl e, d2) \<Rightarrow> (Inl e, d2)
        | (Inr rs, d2) \<Rightarrow> (Inr ((sid, b) # rs), d2)))"

section \<open>Commands\<close>

datatype reply =
    EmptyCommand
  | StatusLines "(string \<times> status option \<times> int option) list"
  | Usage string
  | UnknownScript string
  | AlreadyRunning string
  | StartedScript string "int option"
  | NotRunning string
  | StoppedScript string
  | Reloaded string
  | ReloadFailed string
  | ReloadedAll "(string \<times> bool) list"
  | Help
  | UnknownCommand string

definition status_line :: "running \<Rightarrow> string \<Rightarrow> string \<times> status option \<times> int option" where
  "status_line run sid = (case row_at sid run of None \<Rightarrow> (sid, None, None) | Some p \<Rightarrow> (sid, Some (pi_status p), pi_pid p))"

definition start_command :: "proc_env \<Rightarrow> registry \<Rightarrow> string \<Rightarrow> desk \<Rightarrow> reply result \<times> desk" where
  "start_command env reg sid d =
     (case row_at sid reg of
        None \<Rightarrow> (Inr (UnknownScript sid), d)
      | Some inst \<Rightarrow>
          if (case row_at sid (dk_running d) of None \<Rightarrow> False | Some p \<Rightarrow> pi_status p = SRunning) then (Inr (AlreadyRunning sid), d)
          else (case start_script env inst (dk_children d) of
              (Inl e, ps) \<Rightarrow> (Inl e, d\<lparr>dk_children := ps\<rparr>)
            | (Inr q, ps) \<Rightarrow> (Inr (StartedScript sid (pi_pid q)), d\<lparr>dk_running := dict_set sid q (dk_running d), dk_children := ps\<rparr>)))"

definition stop_command :: "proc_env \<Rightarrow> registry \<Rightarrow> string \<Rightarrow> desk \<Rightarrow> reply result \<times> desk" where
  "stop_command env reg sid d =
     (if row_at sid reg = None then (Inr (UnknownScript sid), d)
      else (case row_at sid (dk_running d) of
          None \<Rightarrow> (Inr (NotRunning sid), d)
        | Some p \<Rightarrow>
            if pi_status p \<noteq> SRunning \<and> pi_status p \<noteq> SStarting then (Inr (NotRunning sid), d)
            else (case stop_script env p (dk_children d) of
                (p', ps) \<Rightarrow> (Inr (StoppedScript sid), d\<lparr>dk_running := dict_set sid p' (dk_running d), dk_children := ps\<rparr>))))"

definition reload_command :: "proc_env \<Rightarrow> registry \<Rightarrow> string \<Rightarrow> desk \<Rightarrow> reply result \<times> desk" where
  "reload_command env reg sid d =
     (if row_at sid reg = None then (Inr (UnknownScript sid), d)
      else (case reload_script env reg sid d of
          (Inl e, d1) \<Rightarrow> (Inl e, d1)
        | (Inr b, d1) \<Rightarrow> (Inr (if b then Reloaded sid else ReloadFailed sid), d1)))"

definition handle_admin_command :: "proc_env \<Rightarrow> registry \<Rightarrow> string \<Rightarrow> desk \<Rightarrow> reply result \<times> desk" where
  "handle_admin_command env reg line d =
     (case str_words line of
        [] \<Rightarrow> (Inr EmptyCommand, d)
      | w # ws \<Rightarrow>
          let verb = str_lower w;
              with_id = (\<lambda>f. case ws of [] \<Rightarrow> (Inr (Usage verb), d) | sid # _ \<Rightarrow> f sid)
          in if verb = ''status'' then (Inr (StatusLines (map (status_line (dk_running d)) (sort (map fst reg)))), d)
             else if verb = ''start'' then with_id (\<lambda>sid. start_command env reg sid d)
             else if verb = ''stop'' then with_id (\<lambda>sid. stop_command env reg sid d)
             else if verb = ''reload'' then with_id (\<lambda>sid. reload_command env reg sid d)
             else if verb = ''reload-all'' then
               (case reload_all env reg (map fst (dk_running d)) d of
                  (Inl e, d1) \<Rightarrow> (Inl e, d1) | (Inr rs, d1) \<Rightarrow> (Inr (ReloadedAll rs), d1))
             else if verb = ''help'' then (Inr Help, d)
             else (Inr (UnknownCommand verb), d))"

section \<open>The loop\<close>

text \<open>A command over the dictionary of the main loop, and over the one of the UDP thread.\<close>

definition main_desk :: "engine \<Rightarrow> desk" where
  "main_desk e = \<lparr>dk_running = en_running e, dk_children = en_children e, dk_watch = en_watch e\<rparr>"

definition with_main :: "desk \<Rightarrow> engine \<Rightarrow> engine" where
  "with_main d e = e\<lparr>en_running := dk_running d, en_children := dk_children d, en_watch := dk_watch d\<rparr>"

definition udp_desk :: "engine \<Rightarrow> desk" where
  "udp_desk e = (main_desk e)\<lparr>dk_running := (case en_udp e of None \<Rightarrow> en_running e | Some run \<Rightarrow> run)\<rparr>"

definition with_udp :: "desk \<Rightarrow> engine \<Rightarrow> engine" where
  "with_udp d e = (case en_udp e of
     None \<Rightarrow> with_main d e
   | Some _ \<Rightarrow> e\<lparr>en_udp := Some (dk_running d), en_children := dk_children d, en_watch := dk_watch d\<rparr>)"

text \<open>The \<open>finally\<close> block.\<close>

fun stop_values :: "proc_env \<Rightarrow> running \<Rightarrow> child list \<Rightarrow> child list" where
  "stop_values env [] ps = ps"
| "stop_values env ((sid, p) # run) ps = stop_values env run (snd (stop_script env p ps))"

definition shut_down :: "proc_env \<Rightarrow> engine \<Rightarrow> engine" where
  "shut_down env e = e\<lparr>en_children := stop_values env (en_running e) (en_children e), en_up := False\<rparr>"

definition monitor_round :: "proc_env \<Rightarrow> engine \<Rightarrow> engine" where
  "monitor_round env e =
     (case monitor_scripts env (en_registry e) (en_running e) (en_log e) (en_children e) of
        (Inl _, rl, ps) \<Rightarrow> shut_down env (e\<lparr>en_log := rl, en_children := ps\<rparr>)
      | (Inr run, rl, ps) \<Rightarrow>
          e\<lparr>en_running := run, en_udp := (case en_udp e of None \<Rightarrow> Some (en_running e) | Some u \<Rightarrow> Some u),
            en_log := rl, en_children := ps\<rparr>)"

definition file_changed :: "proc_env \<Rightarrow> string \<Rightarrow> engine \<Rightarrow> engine" where
  "file_changed env sid e =
     (if (case row_at sid (en_watch e) of None \<Rightarrow> False | Some t \<Rightarrow> ev_time env - t < 2) then e
      else (case reload_script env (en_registry e) sid (main_desk e) of
          (Inl _, d) \<Rightarrow> shut_down env (with_main d e)
        | (Inr _, d) \<Rightarrow> with_main d e))"

definition console_line :: "proc_env \<Rightarrow> string \<Rightarrow> engine \<Rightarrow> engine" where
  "console_line env line e =
     (if line = [] then shut_down env e
      else let cmd = str_strip line in
        if cmd = ''exit'' \<or> cmd = ''quit'' then shut_down env e
        else (case handle_admin_command env (en_registry e) cmd (main_desk e) of
            (Inl _, d) \<Rightarrow> shut_down env (with_main d e)
          | (Inr _, d) \<Rightarrow> with_main d e))"

definition udp_packet :: "proc_env \<Rightarrow> string \<Rightarrow> engine \<Rightarrow> engine" where
  "udp_packet env text e =
     (let cmd = str_strip text in
      if cmd = [] then e else with_udp (snd (handle_admin_command env (en_registry e) cmd (udp_desk e))) e)"

datatype event =
    Monitor proc_env
  | FileChanged proc_env string
  | ConsoleLine proc_env string
  | UdpPacket proc_env string
  | ChildExits handle int
  | ChildSpeaks handle

text \<open>A child ends by itself or prints the marker; an ended one does neither.\<close>

definition child_exits :: "handle \<Rightarrow> int \<Rightarrow> child list \<Rightarrow> child list" where
  "child_exits h c ps = (if h < length ps \<and> ch_exit (ps ! h) = None then ps[h := (ps ! h)\<lparr>ch_exit := Some c\<rparr>] else ps)"

definition child_speaks :: "handle \<Rightarrow> child list \<Rightarrow> child list" where
  "child_speaks h ps = (if h < length ps \<and> ch_exit (ps ! h) = None then ps[h := (ps ! h)\<lparr>ch_marker := True\<rparr>] else ps)"

fun engine_step :: "event \<Rightarrow> engine \<Rightarrow> engine" where
  "engine_step (ChildExits h c) e = e\<lparr>en_children := child_exits h c (en_children e)\<rparr>"
| "engine_step (ChildSpeaks h) e = e\<lparr>en_children := child_speaks h (en_children e)\<rparr>"
| "engine_step (Monitor env) e = (if en_up e then monitor_round env e else e)"
| "engine_step (FileChanged env sid) e = (if en_up e then file_changed env sid e else e)"
| "engine_step (ConsoleLine env line) e = (if en_up e then console_line env line e else e)"
| "engine_step (UdpPacket env text) e = (if en_up e then udp_packet env text e else e)"

text \<open>The start: every enabled script is started and watched.\<close>

definition boot :: "proc_env \<Rightarrow> registry \<Rightarrow> engine result" where
  "boot env reg =
     (case start_all_enabled env reg [] [] of
        (Inl err, _) \<Rightarrow> Inl err
      | (Inr run, ps) \<Rightarrow> Inr \<lparr>en_registry = reg, en_running = run, en_udp = None, en_log = [], en_children = ps,
          en_watch = map (\<lambda>(sid, p). (sid, 0)) run, en_up = True\<rparr>)"

section \<open>No child outlives the engine\<close>

definition alive :: "child list \<Rightarrow> nat set" where
  "alive ps = {h. h < length ps \<and> ch_exit (ps ! h) = None}"

definition owns :: "proc_info \<Rightarrow> nat set" where
  "owns p = (if pi_status p = SRunning then set_option (pi_process p) else {})"

definition owned :: "running \<Rightarrow> nat set" where
  "owned run = {h. \<exists>sid p. row_at sid run = Some p \<and> h \<in> owns p}"

text \<open>Metadata a command line can be built from.\<close>

definition launchable :: "script \<Rightarrow> bool" where
  "launchable inst =
     (row_at ''restart_policy'' (sc_meta inst) \<noteq> None \<and> row_at ''python_path'' (sc_meta inst) \<noteq> None \<and>
      row_at ''enabled'' (sc_meta inst) \<noteq> None \<and>
      (case row_at ''entry_point'' (sc_meta inst) of Some (PStr _) \<Rightarrow> True | _ \<Rightarrow> False) \<and>
      (case meta_or ''args'' (PList []) (sc_meta inst) of PList _ \<Rightarrow> True | _ \<Rightarrow> False))"

lemma launchable_builds: "launchable inst \<Longrightarrow> \<exists>cmd. build_command env inst = Inr cmd"
  by (auto simp: launchable_def build_command_def get_python_def meta_item_def bind_result_def
      split: option.splits pyval.splits sum.splits)

lemma alive_end: "alive (end_child env h ps) = alive ps - {h}"
  by (cases "h < length ps") (auto simp: alive_def end_child_def nth_list_update)

lemma alive_new: "alive (ps @ [\<lparr>ch_exit = None, ch_marker = False\<rparr>]) = insert (length ps) (alive ps)"
  by (auto simp: alive_def nth_append less_Suc_eq)

lemma start_alive:
  assumes "launchable inst"
  shows "\<exists>q ps'. start_script env inst ps = (Inr q, ps') \<and> alive ps' \<subseteq> alive ps \<union> owns q"
proof -
  obtain cmd where "build_command env inst = Inr cmd" using launchable_builds [OF assms] by blast
  then show ?thesis by (cases "ev_spawn env cmd") (auto simp: start_script_def alive_new owns_def)
qed

lemma stop_alive:
  assumes "stop_script env p ps = (p', ps')"
  shows "alive ps' \<subseteq> alive ps - owns p" and "owns p' = {}"
proof -
  have "alive ps' \<subseteq> alive ps - owns p \<and> owns p' = {}"
    using assms by (auto simp: stop_script_def owns_def alive_end split: option.splits if_splits)
  then show "alive ps' \<subseteq> alive ps - owns p" "owns p' = {}" by simp_all
qed

lemma health_alive:
  assumes "check_proc_health env p ps = (p', ps')"
  shows "alive ps' \<subseteq> alive ps - owns p \<union> owns p'"
  using assms by (auto simp: check_proc_health_def owns_def alive_end split: option.splits if_splits) (auto simp: alive_def)

lemma policy_alive:
  assumes "launchable inst"
  shows "\<exists>q rl' ps'. apply_restart_policy env inst p rl ps = (Inr q, rl', ps') \<and> alive ps' \<subseteq> alive ps - owns p \<union> owns q"
proof -
  obtain policy where m: "meta_item ''restart_policy'' (sc_meta inst) = Inr policy"
    using assms by (auto simp: launchable_def meta_item_def)
  show ?thesis
  proof (cases "pi_status p = SCrashed")
    case False
    then show ?thesis using m by (auto simp: apply_restart_policy_def)
  next
    case True
    then have "owns p = {}" by (simp add: owns_def)
    moreover obtain b l where "restart_backoff (ev_now env) (record_run (ev_now env) (log_of (sc_id inst) rl)) = (b, l)" by force
    moreover obtain q ps' where "start_script env inst ps = (Inr q, ps')" "alive ps' \<subseteq> alive ps \<union> owns q"
      using start_alive [OF assms] by blast
    moreover have "owns (q\<lparr>pi_restarts := n\<rparr>) = owns q" for n by (simp add: owns_def)
    ultimately show ?thesis using m True by (auto simp: apply_restart_policy_def)
  qed
qed

lemma dropped_owns: "dropped policy p \<Longrightarrow> owns p = {}"
  by (simp add: dropped_def owns_def)

lemma owned_iff: "h \<in> owned run \<longleftrightarrow> (\<exists>sid p. row_at sid run = Some p \<and> h \<in> owns p)"
  by (simp add: owned_def)

lemma owned_set_entry: "owned (dict_set sid p run) = owns p \<union> owned (delete_row sid run)"
proof (rule set_eqI)
  show "h \<in> owned (dict_set sid p run) \<longleftrightarrow> h \<in> owns p \<union> owned (delete_row sid run)" for h
    unfolding owned_iff Un_iff dict.get_put dict.get_del by (metis option.distinct(1) option.inject)
qed

lemma owned_del: "owned run \<subseteq> owned (delete_row sid run) \<union> (case row_at sid run of None \<Rightarrow> {} | Some p \<Rightarrow> owns p)"
proof
  fix h assume "h \<in> owned run"
  then obtain k p where "row_at k run = Some p" "h \<in> owns p" unfolding owned_iff by blast
  then show "h \<in> owned (delete_row sid run) \<union> (case row_at sid run of None \<Rightarrow> {} | Some p \<Rightarrow> owns p)"
    by (cases "k = sid") (auto simp: owned_iff dict.get_del)
qed

text \<open>An entry that owns nothing may be replaced.\<close>

lemma owned_replace:
  assumes "alive ps \<subseteq> owned run" and "case row_at sid run of None \<Rightarrow> True | Some p \<Rightarrow> alive ps' \<inter> owns p \<subseteq> owns q"
    and "alive ps' \<subseteq> alive ps \<union> owns q"
  shows "alive ps' \<subseteq> owned (dict_set sid q run)"
  using assms owned_del [of run sid] unfolding owned_set_entry by (cases "row_at sid run") auto

text \<open>What holds between the steps: every live child is the process of a running entry of a registered
  script.\<close>

definition covered :: "registry \<Rightarrow> running \<Rightarrow> child list \<Rightarrow> bool" where
  "covered reg run ps = (alive ps \<subseteq> owned run \<and> keys_unique run \<and> fst ` set run \<subseteq> fst ` set reg)"

definition desk_covered :: "registry \<Rightarrow> desk \<Rightarrow> bool" where
  "desk_covered reg d = covered reg (dk_running d) (dk_children d)"

lemma launchable_at: "list_all (\<lambda>(sid, inst). launchable inst) reg \<Longrightarrow> row_at sid reg = Some inst \<Longrightarrow> launchable inst"
  by (auto simp: row_at_def list_all_iff dest: map_of_SomeD)

lemma covered_set:
  assumes "covered reg run ps" and "row_at sid reg \<noteq> None"
    and "case row_at sid run of None \<Rightarrow> True | Some p \<Rightarrow> alive ps' \<inter> owns p \<subseteq> owns q" and "alive ps' \<subseteq> alive ps \<union> owns q"
  shows "covered reg (dict_set sid q run) ps'"
  using assms owned_replace [of ps run ps' q sid] row_at_keys [of sid reg]
  by (simp add: covered_def dict_set_unique dict_set_keys)

lemma covered_start:
  assumes "covered reg run ps" and "row_at sid reg = Some inst" and "launchable inst"
    and "case row_at sid run of None \<Rightarrow> True | Some p \<Rightarrow> owns p = {}"
  shows "\<exists>q ps'. start_script env inst ps = (Inr q, ps') \<and> covered reg (dict_set sid q run) ps'"
proof -
  obtain q ps' where s: "start_script env inst ps = (Inr q, ps')" "alive ps' \<subseteq> alive ps \<union> owns q"
    using start_alive [OF assms(3)] by blast
  have "covered reg (dict_set sid q run) ps'"
    by (rule covered_set [OF assms(1) _ _ s(2)]) (use assms(2,4) in \<open>auto split: option.splits\<close>)
  then show ?thesis using s(1) by blast
qed

lemma covered_stop:
  assumes "covered reg run ps" and "row_at sid run = Some p" and "stop_script env p ps = (p', ps')"
  shows "covered reg (dict_set sid p' run) ps'"
proof (rule covered_set [OF assms(1)])
  show "row_at sid reg \<noteq> None"
    using assms(1,2) row_at_keys [of sid run] row_at_keys [of sid reg] by (auto simp: covered_def)
qed (use assms(2) stop_alive [OF assms(3)] in auto)

lemma reload_covered:
  assumes "list_all (\<lambda>(sid, inst). launchable inst) reg" and "desk_covered reg d"
  shows "case reload_script env reg sid d of (r, d') \<Rightarrow> (\<exists>b. r = Inr b) \<and> desk_covered reg d'"
proof (cases "(case row_at sid (dk_watch d) of None \<Rightarrow> False | Some t \<Rightarrow> ev_time env - t < 2) \<or> row_at sid reg = None")
  case True
  then show ?thesis using assms(2) by (auto simp: reload_script_def split: option.splits)
next
  case False
  then obtain inst where i: "row_at sid reg = Some inst" "launchable inst"
    using launchable_at [OF assms(1)] by blast
  define d1 where "d1 = (case row_at sid (dk_running d) of
                  None \<Rightarrow> d
                | Some p \<Rightarrow>
                    if pi_status p = SRunning \<or> pi_status p = SStarting
                    then (case stop_script env p (dk_children d) of
                        (p', ps) \<Rightarrow> d\<lparr>dk_running := dict_set sid p' (dk_running d), dk_children := ps\<rparr>)
                    else d)"
  have d1: "covered reg (dk_running d1) (dk_children d1) \<and>
      (case row_at sid (dk_running d1) of None \<Rightarrow> True | Some p \<Rightarrow> owns p = {})"
  proof (cases "row_at sid (dk_running d)")
    case None
    then show ?thesis using assms(2) by (simp add: d1_def desk_covered_def)
  next
    case (Some p)
    obtain p' ps where s: "stop_script env p (dk_children d) = (p', ps)" by force
    show ?thesis
      using Some assms(2) covered_stop [OF _ Some s] stop_alive(2) [OF s] s
      by (auto simp: d1_def desk_covered_def owns_def)
  qed
  obtain q ps' where "start_script env inst (dk_children d1) = (Inr q, ps')" "covered reg (dict_set sid q (dk_running d1)) ps'"
    using covered_start [OF _ i] d1 by blast
  then show ?thesis using False i by (auto simp: reload_script_def d1_def [symmetric] desk_covered_def split: option.splits)
qed

lemma reload_all_covered:
  assumes "list_all (\<lambda>(sid, inst). launchable inst) reg" and "desk_covered reg d"
  shows "case reload_all env reg sids d of (r, d') \<Rightarrow> (\<exists>b. r = Inr b) \<and> desk_covered reg d'"
  using assms(2)
proof (induction sids arbitrary: d)
  case Nil
  then show ?case by simp
next
  case (Cons sid sids)
  obtain b d1 where r: "reload_script env reg sid d = (Inr b, d1)" "desk_covered reg d1"
    using reload_covered [OF assms(1) Cons.prems, of env sid] by (auto split: prod.splits)
  show ?case using Cons.IH [OF r(2)] r(1) by (auto split: prod.splits)
qed

lemma command_covered:
  assumes "list_all (\<lambda>(sid, inst). launchable inst) reg" and "desk_covered reg d"
  shows "case handle_admin_command env reg line d of (r, d') \<Rightarrow> (\<exists>b. r = Inr b) \<and> desk_covered reg d'"
proof -
  have start: "case start_command env reg sid d of (r, d') \<Rightarrow> (\<exists>b. r = Inr b) \<and> desk_covered reg d'" for sid
  proof (cases "row_at sid reg")
    case None
    then show ?thesis using assms(2) by (simp add: start_command_def)
  next
    case (Some inst)
    show ?thesis
    proof (cases "case row_at sid (dk_running d) of None \<Rightarrow> False | Some p \<Rightarrow> pi_status p = SRunning")
      case True
      then show ?thesis using assms(2) Some by (simp add: start_command_def)
    next
      case False
      then have "case row_at sid (dk_running d) of None \<Rightarrow> True | Some p \<Rightarrow> owns p = {}"
        by (auto simp: owns_def split: option.splits)
      then obtain q ps' where "start_script env inst (dk_children d) = (Inr q, ps')" "covered reg (dict_set sid q (dk_running d)) ps'"
        using covered_start [OF _ Some launchable_at [OF assms(1) Some]] assms(2) unfolding desk_covered_def by blast
      then show ?thesis using Some False by (simp add: start_command_def desk_covered_def)
    qed
  qed
  have stop: "case stop_command env reg sid d of (r, d') \<Rightarrow> (\<exists>b. r = Inr b) \<and> desk_covered reg d'" for sid
    using assms(2) covered_stop by (auto simp: stop_command_def desk_covered_def split: option.splits prod.splits)
  have reload: "case reload_command env reg sid d of (r, d') \<Rightarrow> (\<exists>b. r = Inr b) \<and> desk_covered reg d'" for sid
    using assms(2) reload_covered [OF assms, of env sid] by (auto simp: reload_command_def split: prod.splits)
  show ?thesis
    using start stop reload reload_all_covered [OF assms, of env "map fst (dk_running d)"] assms(2)
    by (auto simp: handle_admin_command_def split: list.splits prod.splits)
qed

lemma owned_all: "keys_unique run \<Longrightarrow> owned run = (\<Union>(sid, p)\<in>set run. owns p)"
  by (force simp: owned_def row_at_def keys_unique_def dest: map_of_SomeD)

lemma stop_values_alive: "alive (stop_values env run ps) \<subseteq> alive ps - (\<Union>(sid, p)\<in>set run. owns p)"
proof (induction env run ps rule: stop_values.induct)
  case (1 env ps)
  then show ?case by simp
next
  case (2 env sid p run ps)
  obtain p' ps' where s: "stop_script env p ps = (p', ps')" by force
  show ?case using 2 stop_alive(1) [OF s] s by auto
qed

lemma monitor_loop_covered:
  assumes "list_all (\<lambda>(sid, inst). launchable inst) reg"
    and "alive ps \<subseteq> owned new \<union> (\<Union>(sid, p)\<in>set run. owns p)" and "keys_unique new" and "distinct (map fst run)"
    and "fst ` set run \<inter> fst ` set new = {}" and "fst ` set run \<union> fst ` set new \<subseteq> fst ` set reg"
  shows "\<exists>run' rl' ps'. monitor_loop env reg run new rl ps = (Inr run', rl', ps') \<and> covered reg run' ps'"
  using assms
proof (induction run arbitrary: new rl ps)
  case Nil
  then show ?case by (simp add: covered_def)
next
  case (Cons e run)
  obtain sid p where e: "e = (sid, p)" by force
  have "row_at sid reg \<noteq> None" using Cons.prems(6) e row_at_keys [of sid reg] by simp
  then obtain inst where i: "row_at sid reg = Some inst" by blast
  obtain p1 ps1 where h: "check_proc_health env p ps = (p1, ps1)" by force
  obtain p2 rl2 ps2 where a: "apply_restart_policy env inst p1 rl ps1 = (Inr p2, rl2, ps2)"
    "alive ps2 \<subseteq> alive ps1 - owns p1 \<union> owns p2" using policy_alive [OF launchable_at [OF Cons.prems(1) i]] by blast
  have al: "alive ps2 \<subseteq> alive ps - owns p \<union> owns p2" using a(2) health_alive [OF h] by blast
  let ?drop = "dropped (meta_or ''restart_policy'' PNone (sc_meta inst)) p2"
  let ?new = "if ?drop then new else dict_set sid p2 new"
  have fresh: "sid \<notin> fst ` set new" using Cons.prems(5) e by auto
  then have "delete_row sid new = new" by (rule sum_rows_absent_delete)
  then have o: "owned ?new = owned new \<union> owns p2"
    using dropped_owns [of "meta_or ''restart_policy'' PNone (sc_meta inst)" p2] owned_set_entry [of sid p2 new] by auto
  have n1: "alive ps2 \<subseteq> owned ?new \<union> (\<Union>(sid, p)\<in>set run. owns p)"
    unfolding o using al Cons.prems(2) e by auto
  have n2: "keys_unique ?new" using Cons.prems(3) dict_set_unique [of new sid p2] by simp
  have n3: "distinct (map fst run)" "fst ` set run \<inter> fst ` set ?new = {}" "fst ` set run \<union> fst ` set ?new \<subseteq> fst ` set reg"
    using Cons.prems(4-6) e by (auto simp: dict_set_keys)
  have "\<exists>run' rl' ps'. monitor_loop env reg run ?new rl2 ps2 = (Inr run', rl', ps') \<and> covered reg run' ps'"
    by (rule Cons.IH [OF Cons.prems(1) n1 n2 n3])
  then show ?case using e i h a(1) by simp
qed

lemma boot_covered:
  assumes "list_all (\<lambda>(sid, inst). launchable inst) reg" and "keys_unique run" and "alive ps \<subseteq> owned run"
    and "distinct (map fst reg)" and "fst ` set reg \<inter> fst ` set run = {}"
    and "start_all_enabled env reg run ps = (Inr run', ps')"
  shows "alive ps' \<subseteq> owned run' \<and> keys_unique run' \<and> fst ` set run' \<subseteq> fst ` set reg \<union> fst ` set run"
  using assms
proof (induction reg arbitrary: run ps)
  case Nil
  then show ?case by simp
next
  case (Cons e reg)
  obtain sid inst where e: "e = (sid, inst)" by force
  show ?case
  proof (cases "script_enabled inst = Inr True")
    case False
    then have "start_all_enabled env reg run ps = (Inr run', ps')" using Cons.prems(6) e by (auto split: sum.splits if_splits)
    from Cons.IH [OF _ Cons.prems(2,3) _ _ this] Cons.prems e show ?thesis by auto
  next
    case True
    obtain q ps1 where s: "start_script env inst ps = (Inr q, ps1)" "alive ps1 \<subseteq> alive ps \<union> owns q"
      using start_alive [of inst env ps] Cons.prems(1) e by auto
    have "sid \<notin> fst ` set run" using Cons.prems(5) e by auto
    then have "delete_row sid run = run" by (rule sum_rows_absent_delete)
    then have o: "owned (dict_set sid q run) = owned run \<union> owns q" using owned_set_entry [of sid q run] by auto
    have "start_all_enabled env reg (dict_set sid q run) ps1 = (Inr run', ps')" using Cons.prems(6) e True s(1) by simp
    from Cons.IH [OF _ dict_set_unique [OF Cons.prems(2)] _ _ _ this] o s(2) Cons.prems e
    show ?thesis by (auto simp: dict_set_keys)
  qed
qed

text \<open>What holds after every step.\<close>

definition engine_ok :: "engine \<Rightarrow> bool" where
  "engine_ok e = (list_all (\<lambda>(sid, inst). launchable inst) (en_registry e) \<and>
     (if en_up e then covered (en_registry e) (en_running e) (en_children e) else alive (en_children e) = {}))"

lemma shut_down_ok:
  assumes "list_all (\<lambda>(sid, inst). launchable inst) (en_registry e)" and "covered (en_registry e) (en_running e) (en_children e)"
  shows "engine_ok (shut_down env e)"
proof -
  have "alive (en_children e) \<subseteq> (\<Union>(sid, p)\<in>set (en_running e). owns p)"
    using assms(2) owned_all [of "en_running e"] by (simp add: covered_def)
  then show ?thesis using stop_values_alive [of env "en_running e" "en_children e"] assms(1)
    by (auto simp: engine_ok_def shut_down_def)
qed

lemma with_main_ok:
  assumes "list_all (\<lambda>(sid, inst). launchable inst) (en_registry e)" and "desk_covered (en_registry e) d" and "en_up e"
  shows "engine_ok (with_main d e)"
  using assms by (simp add: engine_ok_def with_main_def desk_covered_def)

definition not_udp :: "event \<Rightarrow> bool" where
  "not_udp ev = (case ev of UdpPacket _ _ \<Rightarrow> False | _ \<Rightarrow> True)"

lemma child_events_alive: "alive (child_exits h c ps) \<subseteq> alive ps" "alive (child_speaks h ps) \<subseteq> alive ps"
  by (auto simp: alive_def child_exits_def child_speaks_def nth_list_update split: if_splits)

lemma engine_step_ok:
  assumes "engine_ok e" and "not_udp ev"
  shows "engine_ok (engine_step ev e)"
proof -
  let ?reg = "en_registry e"
  have l: "list_all (\<lambda>(sid, inst). launchable inst) ?reg" using assms(1) by (simp add: engine_ok_def)
  have fewer: "engine_ok (e\<lparr>en_children := ps\<rparr>)" if "alive ps \<subseteq> alive (en_children e)" for ps
    using assms(1) that order_trans [OF that] subset_empty [of "alive ps"]
    by (cases "en_up e") (simp_all add: engine_ok_def covered_def)
  show ?thesis
  proof (cases "en_up e")
    case False
    then show ?thesis using assms fewer
      by (cases ev) (simp_all add: not_udp_def fewer child_events_alive)
  next
    case True
    then have c: "covered ?reg (en_running e) (en_children e)" "desk_covered ?reg (main_desk e)"
      using assms(1) by (simp_all add: engine_ok_def desk_covered_def main_desk_def)
    note cmd = command_covered [OF l c(2)] and rel = reload_covered [OF l c(2)]
    show ?thesis
    proof (cases ev)
      case (Monitor env)
      have "\<exists>run' rl' ps'. monitor_scripts env ?reg (en_running e) (en_log e) (en_children e) = (Inr run', rl', ps') \<and> covered ?reg run' ps'"
        unfolding monitor_scripts_def using c(1) owned_all [of "en_running e"]
        by (intro monitor_loop_covered [OF l]) (auto simp: covered_def keys_unique_def)
      then show ?thesis using l True Monitor by (auto simp: monitor_round_def engine_ok_def)
    next
      case (FileChanged env sid)
      then show ?thesis using True rel [of env sid] assms(1) with_main_ok [OF l _ True]
        by (auto simp: file_changed_def split: prod.splits option.splits)
    next
      case (ConsoleLine env line)
      then show ?thesis using True cmd [of env "str_strip line"] with_main_ok [OF l _ True] shut_down_ok [OF l c(1)]
        by (auto simp: console_line_def split: prod.splits)
    next
      case (UdpPacket env packet)
      then show ?thesis using assms(2) by (simp add: not_udp_def)
    next
      case (ChildExits h code)
      then show ?thesis by (simp add: fewer child_events_alive)
    next
      case (ChildSpeaks h)
      then show ?thesis by (simp add: fewer child_events_alive)
    qed
  qed
qed


definition boot_example :: engine where
  "boot_example = (case boot (proc_env_example 1) [(''a'', script_example ''a'' ''always'' []), (''b'', script_example ''b'' ''never'' [])] of
     Inr e \<Rightarrow> e | Inl _ \<Rightarrow> \<lparr>en_registry = [], en_running = [], en_udp = None, en_log = [], en_children = [], en_watch = [], en_up = False\<rparr>)"


text \<open>After the first round of the monitor the UDP thread works on a table of its own: the script it stops is
  found crashed by the monitor and restarted, and one it starts outlives the engine.\<close>

lemma udp_stop_is_undone:
  "(case row_at ''a'' (en_running (fold engine_step
      [Monitor (proc_env_example 100), UdpPacket (proc_env_example 101) ''stop a'', Monitor (proc_env_example 102)] boot_example)) of
     None \<Rightarrow> False | Some p \<Rightarrow> pi_status p = SRunning \<and> pi_process p = Some 2)"
  by code_simp

lemma udp_start_outlives_engine:
  "map ch_exit (en_children (fold engine_step
      [Monitor (proc_env_example 100), ConsoleLine (proc_env_example 101) ''stop b'', UdpPacket (proc_env_example 102) ''stop b'',
       UdpPacket (proc_env_example 103) ''start b'', ConsoleLine (proc_env_example 104) ''quit''] boot_example)) = [Some (- 15), Some (- 15), None]"
  by code_simp

end
