(* ===== verification/EngineHub.thy ===== *)
theory EngineHub
  imports PyValues
begin

text \<open>
  The event bus between scripts, \<open>PhooksHub\<close> of \<open>engine/phooks.py\<close>: registration and
  subscriptions, forwarding of events, and the removal of stale clients.  A packet is the outcome
  of decoding its JSON; script ids and events are JSON values, as the code does not check their
  types.  A Python set is a list without repetition, whose order means nothing.
\<close>

section \<open>State and packets\<close>

type_synonym addr = string

record hub =
  hb_registry :: "(pyval, addr \<times> rat) table"
  hb_subs :: "(pyval, pyval list) table"
  hb_cleanup :: rat

definition new_hub :: hub where
  "new_hub = \<lparr>hb_registry = [], hb_subs = [], hb_cleanup = 0\<rparr>"

definition STALE_CLIENT_TIMEOUT :: rat where
  "STALE_CLIENT_TIMEOUT = 120"

text \<open>What the hub sends: a forwarded event, or the answer to a ping.\<close>

datatype sent = Forward addr pyval pyval pyval | Pong addr

text \<open>\<open>s.add(x)\<close> and \<open>s.discard(x)\<close>\<close>

definition set_add :: "'a \<Rightarrow> 'a list \<Rightarrow> 'a list" where
  "set_add x s = (if x \<in> set s then s else s @ [x])"

definition subscribe :: "pyval \<Rightarrow> pyval \<Rightarrow> hub \<Rightarrow> hub" where
  "subscribe sid event h =
     h\<lparr>hb_subs := dict_set event (set_add sid (case row_at event (hb_subs h) of None \<Rightarrow> [] | Some s \<Rightarrow> s)) (hb_subs h)\<rparr>"

text \<open>The loop over the events stops at the first that is not hashable; what was added stays.\<close>

fun subscribe_all :: "pyval \<Rightarrow> pyval list \<Rightarrow> hub \<Rightarrow> hub" where
  "subscribe_all sid [] h = h"
| "subscribe_all sid (e # es) h = (case py_key e of Inl _ \<Rightarrow> h | Inr k \<Rightarrow> subscribe_all sid es (subscribe sid k h))"

definition hub_register :: "rat \<Rightarrow> addr \<Rightarrow> pyval \<Rightarrow> hub \<Rightarrow> hub" where
  "hub_register now addr msg h =
     (case bind_result (py_item ''script_id'' msg) (\<lambda>sid. bind_result (py_get ''listen_events'' (PList []) msg) (\<lambda>events.
             bind_result (py_key sid) (\<lambda>k. Inr (k, events)))) of
        Inl _ \<Rightarrow> h
      | Inr (k, events) \<Rightarrow>
          let h1 = h\<lparr>hb_registry := dict_set k (addr, now) (hb_registry h)\<rparr>
          in (case py_iter events of Inl _ \<Rightarrow> h1 | Inr es \<Rightarrow> subscribe_all k es h1))"

definition discard_everywhere :: "pyval \<Rightarrow> (pyval, pyval list) table \<Rightarrow> (pyval, pyval list) table" where
  "discard_everywhere sid subs = map (\<lambda>(e, s). (e, removeAll sid s)) subs"

definition remove_client :: "pyval \<Rightarrow> hub \<Rightarrow> hub" where
  "remove_client sid h = h\<lparr>hb_registry := delete_row sid (hb_registry h), hb_subs := discard_everywhere sid (hb_subs h)\<rparr>"

definition hub_unregister :: "pyval \<Rightarrow> hub \<Rightarrow> hub" where
  "hub_unregister msg h = (case bind_result (py_item ''script_id'' msg) py_key of Inl _ \<Rightarrow> h | Inr k \<Rightarrow> remove_client k h)"

text \<open>\<open>sid == sender\<close> for a key \<open>sid\<close>\<close>

definition is_sender :: "pyval \<Rightarrow> pyval \<Rightarrow> bool" where
  "is_sender sid sender = (py_key sender = Inr sid)"

definition forward_to :: "pyval \<Rightarrow> pyval \<Rightarrow> pyval \<Rightarrow> hub \<Rightarrow> pyval \<Rightarrow> sent list" where
  "forward_to event data sender h sid =
     (if is_sender sid sender then []
      else (case row_at sid (hb_registry h) of None \<Rightarrow> [] | Some (dest, t) \<Rightarrow> [Forward dest event data sender]))"

definition hub_emit :: "pyval \<Rightarrow> hub \<Rightarrow> sent list" where
  "hub_emit msg h =
     (case bind_result (py_item ''event'' msg) (\<lambda>event. bind_result (py_get ''data'' (PDict []) msg) (\<lambda>data.
             bind_result (py_item ''sender'' msg) (\<lambda>sender. bind_result (py_key event) (\<lambda>k. Inr (event, k, data, sender))))) of
        Inl _ \<Rightarrow> []
      | Inr (event, k, data, sender) \<Rightarrow>
          concat (map (forward_to event data sender h)
            (case row_at k (hb_subs h) of None \<Rightarrow> [] | Some s \<Rightarrow> s)))"

definition handle_packet :: "rat \<Rightarrow> addr \<Rightarrow> pyval result \<Rightarrow> hub \<Rightarrow> sent list \<times> hub" where
  "handle_packet now addr packet h =
     (case bind_result packet (\<lambda>msg. bind_result (py_get ''command'' PNone msg) (\<lambda>cmd. Inr (msg, cmd))) of
        Inl _ \<Rightarrow> ([], h)
      | Inr (msg, cmd) \<Rightarrow>
          if cmd = PStr ''REGISTER'' then ([], hub_register now addr msg h)
          else if cmd = PStr ''UNREGISTER'' then ([], hub_unregister msg h)
          else if cmd = PStr ''EMIT'' then (hub_emit msg h, h)
          else if cmd = PStr ''PING'' then ([Pong addr], h)
          else ([], h))"

section \<open>Stale clients and the loop\<close>

definition stale :: "rat \<Rightarrow> hub \<Rightarrow> pyval list" where
  "stale now h = map fst (filter (\<lambda>(sid, addr, seen). now - seen > STALE_CLIENT_TIMEOUT) (hb_registry h))"

definition cleanup_stale_clients :: "rat \<Rightarrow> hub \<Rightarrow> hub" where
  "cleanup_stale_clients now h = fold remove_client (stale now h) h"

text \<open>One round of the loop: a packet, or a second without one.\<close>

datatype hub_event = Packet rat addr "pyval result" | Quiet rat

fun hub_step :: "hub_event \<Rightarrow> hub \<Rightarrow> sent list \<times> hub" where
  "hub_step (Packet now addr packet) h = handle_packet now addr packet h"
| "hub_step (Quiet now) h =
     ([], if now - hb_cleanup h \<ge> 10 then (cleanup_stale_clients now h)\<lparr>hb_cleanup := now\<rparr> else h)"

definition hub_run :: "hub_event list \<Rightarrow> hub \<Rightarrow> hub" where
  "hub_run evs h = fold (\<lambda>ev h. snd (hub_step ev h)) evs h"

section \<open>The bus as a relation\<close>

text \<open>Who listens to what; the tables implement it.\<close>

definition listens_to :: "hub \<Rightarrow> pyval \<Rightarrow> pyval \<Rightarrow> bool" where
  "listens_to h sid k = (case row_at k (hb_subs h) of None \<Rightarrow> False | Some s \<Rightarrow> sid \<in> set s)"

definition hub_ok :: "hub \<Rightarrow> bool" where
  "hub_ok h = ((\<forall>sid k. listens_to h sid k \<longrightarrow> row_at sid (hb_registry h) \<noteq> None) \<and> keys_unique (hb_registry h))"

lemma listens_subscribe: "listens_to (subscribe sid k h) s e \<longleftrightarrow> (s = sid \<and> e = k) \<or> listens_to h s e"
  by (auto simp: listens_to_def subscribe_def dict.get_put set_add_def split: option.splits)

lemma registry_subscribe [simp]: "hb_registry (subscribe sid k h) = hb_registry h" "hb_cleanup (subscribe sid k h) = hb_cleanup h"
  by (simp_all add: subscribe_def)

lemma registry_subscribe_all [simp]: "hb_registry (subscribe_all sid es h) = hb_registry h"
  by (induction sid es h rule: subscribe_all.induct) (auto split: sum.splits)

lemma listens_subscribe_all:
  "map_result py_key es = Inr ks \<Longrightarrow> listens_to (subscribe_all sid es h) s e \<longleftrightarrow> (s = sid \<and> e \<in> set ks) \<or> listens_to h s e"
  by (induction sid es h arbitrary: ks rule: subscribe_all.induct) (auto simp: listens_subscribe split: sum.splits)

lemma listens_subscribe_some: "listens_to (subscribe_all sid es h) s e \<Longrightarrow> s = sid \<or> listens_to h s e"
  by (induction sid es h rule: subscribe_all.induct) (auto simp: listens_subscribe split: sum.splits)

lemma row_at_discard: "row_at k (discard_everywhere sid subs) = map_option (removeAll sid) (row_at k subs)"
  by (induction subs) (auto simp: discard_everywhere_def row_at_def)

lemma listens_remove: "listens_to (remove_client sid h) s e \<longleftrightarrow> s \<noteq> sid \<and> listens_to h s e"
  by (auto simp: listens_to_def remove_client_def row_at_discard split: option.splits)

lemma remove_all:
  "listens_to (fold remove_client sids h) s e \<longleftrightarrow> s \<notin> set sids \<and> listens_to h s e"
  "hb_registry (fold remove_client sids h) = fold delete_row sids (hb_registry h)"
proof -
  show "listens_to (fold remove_client sids h) s e \<longleftrightarrow> s \<notin> set sids \<and> listens_to h s e"
    by (induction sids arbitrary: h) (auto simp: listens_remove)
  show "hb_registry (fold remove_client sids h) = fold delete_row sids (hb_registry h)"
    by (induction sids arbitrary: h) (auto simp: remove_client_def)
qed

lemma keys_unique_dels: "keys_unique t \<Longrightarrow> keys_unique (fold delete_row ks t)"
  by (induction ks arbitrary: t) (auto simp: keys_unique_ops)

lemma hub_ok_remove: "hub_ok h \<Longrightarrow> hub_ok (fold remove_client sids h)"
  by (auto simp: hub_ok_def remove_all dict.get_dels keys_unique_dels)

lemma hub_ok_register:
  assumes "hub_ok h"
  shows "hub_ok (hub_register now addr msg h)"
proof -
  have r: "hub_ok (h\<lparr>hb_registry := dict_set k (addr, now) (hb_registry h)\<rparr>)" for k
    using assms by (auto simp: hub_ok_def dict.get_put dict_set_unique listens_to_def)
  have "hub_ok (subscribe_all k es (h\<lparr>hb_registry := dict_set k (addr, now) (hb_registry h)\<rparr>))" for k es
  proof -
    let ?h = "h\<lparr>hb_registry := dict_set k (addr, now) (hb_registry h)\<rparr>"
    have "row_at s (hb_registry ?h) \<noteq> None" if "listens_to (subscribe_all k es ?h) s e" for s e
      using listens_subscribe_some [OF that] r [of k] unfolding hub_ok_def by (auto simp: dict.get_put)
    then show ?thesis using r [of k] unfolding hub_ok_def by simp
  qed
  then show ?thesis using assms r by (auto simp: hub_register_def split: sum.splits)
qed

lemma hub_ok_step: "hub_ok h \<Longrightarrow> hub_ok (snd (hub_step ev h))"
proof (cases ev)
  case (Packet now addr packet)
  assume "hub_ok h"
  then show ?thesis using Packet hub_ok_register [of h] hub_ok_remove [of h "[k]" for k]
    by (auto simp: handle_packet_def hub_unregister_def split: sum.splits)
next
  case (Quiet now)
  assume "hub_ok h"
  then have "hub_ok (cleanup_stale_clients now h)" by (simp add: cleanup_stale_clients_def hub_ok_remove)
  then show ?thesis using Quiet \<open>hub_ok h\<close> by (simp add: hub_ok_def listens_to_def)
qed

lemma hub_ok_run: "hub_ok h \<Longrightarrow> hub_ok (hub_run evs h)"
  unfolding hub_run_def by (induction evs arbitrary: h) (auto simp: hub_ok_step)

lemma hub_ok_new: "hub_ok new_hub"
  by (simp add: hub_ok_def new_hub_def listens_to_def row_at_def keys_unique_def)

definition emit_of :: "pyval \<Rightarrow> pyval \<Rightarrow> pyval \<Rightarrow> pyval" where
  "emit_of event data sender = PDict [(''command'', PStr ''EMIT''), (''event'', event), (''data'', data), (''sender'', sender)]"

lemma listens_to_alt: "listens_to h sid k \<longleftrightarrow> sid \<in> set (case row_at k (hb_subs h) of None \<Rightarrow> [] | Some s \<Rightarrow> s)"
  by (simp add: listens_to_def split: option.split)

lemma forwards_iff:
  "x \<in> set (forward_to event data sender h sid) \<longleftrightarrow>
     \<not> is_sender sid sender \<and> (\<exists>dest t. row_at sid (hb_registry h) = Some (dest, t) \<and> x = Forward dest event data sender)"
  by (cases "row_at sid (hb_registry h)") (auto simp: forward_to_def)


definition register_of :: "string \<Rightarrow> string list \<Rightarrow> pyval" where
  "register_of sid events = PDict [(''command'', PStr ''REGISTER''), (''script_id'', PStr sid), (''listen_events'', PList (map PStr events))]"

definition hub_trace :: "hub_event list" where
  "hub_trace = [Packet 1 ''a:1'' (Inr (register_of ''a'' [''x'', ''y''])), Packet 2 ''b:1'' (Inr (register_of ''b'' [''x''])),
     Packet 3 ''a:2'' (Inr (register_of ''a'' []))]"


section \<open>Staleness\<close>

text \<open>Only \<open>REGISTER\<close> renews the time a client was seen.\<close>

definition registers :: "pyval \<Rightarrow> hub_event \<Rightarrow> bool" where
  "registers sid ev = (case ev of
     Packet now addr (Inr msg) \<Rightarrow> py_get ''command'' PNone msg = Inr (PStr ''REGISTER'') \<and> bind_result (py_item ''script_id'' msg) py_key = Inr sid
   | _ \<Rightarrow> False)"

lemma hub_register_registry:
  "hb_registry (hub_register now addr msg h) = hb_registry h \<or>
   (\<exists>k. bind_result (py_item ''script_id'' msg) py_key = Inr k \<and> hb_registry (hub_register now addr msg h) = dict_set k (addr, now) (hb_registry h))"
  by (auto simp: hub_register_def bind_result_def split: sum.splits)

lemma seen_unchanged:
  assumes "\<not> registers sid ev" and "row_at sid (hb_registry (snd (hub_step ev h))) = Some (addr, seen)"
  shows "row_at sid (hb_registry h) = Some (addr, seen)"
proof (cases ev)
  case (Packet now src packet)
  show ?thesis
  proof (cases "\<exists>msg. packet = Inr msg \<and> py_get ''command'' PNone msg = Inr (PStr ''REGISTER'')")
    case True
    then obtain msg where m: "packet = Inr msg" "py_get ''command'' PNone msg = Inr (PStr ''REGISTER'')" by blast
    then show ?thesis using assms Packet hub_register_registry [of now src msg h]
      by (auto simp: registers_def handle_packet_def dict.get_put)
  next
    case False
    then show ?thesis using assms(2) Packet
      by (cases packet) (auto simp: handle_packet_def hub_unregister_def remove_client_def dict.get_del bind_result_Inr_conv split: sum.splits if_splits)
  qed
next
  case (Quiet now)
  then show ?thesis using assms by (auto simp: cleanup_stale_clients_def remove_all dict.get_dels split: if_splits)
qed

lemma seen_from_registration:
  assumes "\<not> list_ex (registers sid) evs" and "row_at sid (hb_registry (hub_run evs h)) = Some (addr, seen)"
  shows "row_at sid (hb_registry h) = Some (addr, seen)"
  using assms unfolding hub_run_def
proof (induction evs arbitrary: h)
  case Nil
  then show ?case by simp
next
  case (Cons ev evs)
  have "row_at sid (hb_registry (snd (hub_step ev h))) = Some (addr, seen)"
    by (rule Cons.IH) (use Cons.prems in simp_all)
  then show ?case by (rule seen_unchanged [rotated]) (use Cons.prems in simp)
qed

text \<open>A client that registered once is dropped at the first pause more than 120 seconds later in
  which the hub cleans up, with all its subscriptions, however much it emits and pings in between.\<close>

theorem active_clients_are_dropped:
  assumes "hub_ok h" and "row_at sid (hb_registry h) = Some (addr, seen)" and "\<not> list_ex (registers sid) evs"
    and "now - seen > 120" and "now - hb_cleanup (hub_run evs h) \<ge> 10" and "h' = hub_run (evs @ [Quiet now]) h"
  shows "row_at sid (hb_registry h') = None \<and> \<not> listens_to h' sid k"
proof -
  let ?g = "hub_run evs h"
  have g: "hub_ok ?g" using assms(1) by (rule hub_ok_run)
  have h': "h' = (cleanup_stale_clients now ?g)\<lparr>hb_cleanup := now\<rparr>"
    using assms(5,6) by (simp add: hub_run_def)
  have "row_at sid (hb_registry h') = None"
  proof (cases "row_at sid (hb_registry ?g)")
    case None
    then show ?thesis by (simp add: h' cleanup_stale_clients_def remove_all dict.get_dels)
  next
    case (Some x)
    obtain a s where x: "x = (a, s)" by force
    have "row_at sid (hb_registry h) = Some (a, s)"
      by (rule seen_from_registration [OF assms(3) Some [unfolded x]])
    then have "s = seen" using assms(2) by simp
    moreover have "(sid, a, s) \<in> set (hb_registry ?g)" using Some x by (auto simp: row_at_def dest: map_of_SomeD)
    ultimately have "sid \<in> set (stale now ?g)"
      using assms(4) by (force simp: stale_def STALE_CLIENT_TIMEOUT_def)
    then show ?thesis by (simp add: h' cleanup_stale_clients_def remove_all dict.get_dels)
  qed
  moreover have "hub_ok h'" using hub_ok_run [OF assms(1)] assms(6) by simp
  ultimately show ?thesis by (auto simp: hub_ok_def)
qed

definition busy_client :: "hub_event list" where
  "busy_client = [Quiet 50, Packet 100 ''a:2'' (Inr (PDict [(''command'', PStr ''PING'')])),
     Packet 122 ''a:2'' (Inr (emit_of (PStr ''z'') PNone (PStr ''a'')))]"

theorem active_clients_are_dropped_witness:
  "row_at (PStr ''a'') (hb_registry (hub_run (busy_client @ [Quiet 124]) (hub_run hub_trace new_hub))) = None"
proof -
  let ?h = "hub_run hub_trace new_hub"
  have "hub_ok ?h" by (rule hub_ok_run [OF hub_ok_new])
  moreover have "row_at (PStr ''a'') (hb_registry ?h) = Some (''a:2'', 3)" "\<not> list_ex (registers (PStr ''a'')) busy_client"
    "(124 :: rat) - 3 > 120" "124 - hb_cleanup (hub_run busy_client ?h) \<ge> 10" by code_simp+
  ultimately have "row_at (PStr ''a'') (hb_registry (hub_run (busy_client @ [Quiet 124]) ?h)) = None \<and>
      \<not> listens_to (hub_run (busy_client @ [Quiet 124]) ?h) (PStr ''a'') (PStr ''x'')"
    by (rule active_clients_are_dropped) simp
  then show ?thesis by blast
qed

text \<open>Registering again adds subscriptions and never removes one: \<open>a\<close> listens to \<open>x\<close> after its second
  registration named no event.\<close>

lemma registering_again_keeps_subscriptions: "listens_to (hub_run hub_trace new_hub) (PStr ''a'') (PStr ''x'')"
  by code_simp

end
