(* ===== verification/DeepSession.thy ===== *)
theory DeepSession
  imports PyValues
begin

text \<open>
  The session of the DeepSky client, \<open>SCRIPTS/CLIENTS/deepsky_client/session_manager.py\<close>: a ring
  buffer of messages linked by hashes, flushed to SQLite, with checkpoints to recover from.  The
  digest, the JSON conversions and the text of a time stamp are the fields of \<open>codec\<close>; fresh
  identifiers and clock readings are arguments; \<open>sql_fault\<close> says where SQLite fails in a call.  A
  snapshot that does not parse is \<open>None\<close>.
\<close>

section \<open>Messages\<close>

record codec =
  cd_digest :: "string \<Rightarrow> string"
  cd_sorted :: "pyval list \<Rightarrow> string"
  cd_dumps :: "pyval list \<Rightarrow> string"
  cd_loads :: "string \<Rightarrow> pyval list result"
  cd_time :: "rat \<Rightarrow> string"

record entry =
  me_id :: string
  me_session :: string
  me_role :: string
  me_content :: "string option"
  me_calls :: "pyval list"
  me_results :: "pyval list"
  me_time :: rat
  me_flush :: "string option"
  me_hash :: string

definition or_empty :: "string option \<Rightarrow> string" where
  "or_empty s = (case s of None \<Rightarrow> [] | Some x \<Rightarrow> x)"

definition chain_hash :: "codec \<Rightarrow> string \<Rightarrow> string \<Rightarrow> string \<Rightarrow> pyval list \<Rightarrow> rat \<Rightarrow> string" where
  "chain_hash c prev_hash role content calls t = cd_digest c (prev_hash @ role @ content @ cd_sorted c calls @ cd_time c t)"

definition new_message ::
  "codec \<Rightarrow> string \<Rightarrow> rat \<Rightarrow> string \<Rightarrow> string \<Rightarrow> string option \<Rightarrow> pyval list option \<Rightarrow> pyval list option \<Rightarrow> string \<Rightarrow> entry" where
  "new_message c mid now session role content calls results prev_hash =
     (let cs = (case calls of None \<Rightarrow> [] | Some xs \<Rightarrow> xs); rs = (case results of None \<Rightarrow> [] | Some xs \<Rightarrow> xs)
      in \<lparr>me_id = mid, me_session = session, me_role = role, me_content = content, me_calls = cs, me_results = rs,
          me_time = now, me_flush = None, me_hash = chain_hash c prev_hash role (or_empty content) cs now\<rparr>)"

text \<open>\<open>to_dict\<close> and \<open>from_dict\<close>; the saved form is also the row of \<open>session_state\<close>.\<close>

record saved =
  sv_id :: string
  sv_session :: string
  sv_role :: string
  sv_content :: "string option"
  sv_calls :: string
  sv_results :: string
  sv_hash :: string
  sv_time :: rat
  sv_flush :: "string option"

definition to_saved :: "codec \<Rightarrow> entry \<Rightarrow> saved" where
  "to_saved c e = \<lparr>sv_id = me_id e, sv_session = me_session e, sv_role = me_role e, sv_content = me_content e,
     sv_calls = cd_dumps c (me_calls e), sv_results = cd_dumps c (me_results e), sv_hash = me_hash e,
     sv_time = me_time e, sv_flush = me_flush e\<rparr>"

definition from_saved :: "codec \<Rightarrow> saved \<Rightarrow> entry result" where
  "from_saved c d =
     bind_result (cd_loads c (sv_calls d)) (\<lambda>calls. bind_result (cd_loads c (sv_results d)) (\<lambda>results.
       Inr \<lparr>me_id = sv_id d, me_session = sv_session d, me_role = sv_role d, me_content = sv_content d,
         me_calls = calls, me_results = results, me_time = sv_time d, me_flush = sv_flush d, me_hash = sv_hash d\<rparr>))"

section \<open>Database and session\<close>

datatype checkpoint_type = LastGood | BugCheckpoint | Recovery | Startup

record checkpoint =
  cp_id :: nat
  cp_session :: string
  cp_type :: checkpoint_type
  cp_snapshot :: "saved list option"
  cp_hash :: string
  cp_count :: nat
  cp_created :: int

record session_row =
  sr_model :: "string option"
  sr_prompt :: "string option"
  sr_tokens :: nat
  sr_active :: rat
  sr_healthy :: bool
  sr_recoveries :: nat

record session_db =
  db_state :: "(string, saved) table"
  db_meta :: "(string, session_row) table"
  db_checkpoints :: "checkpoint list"

record session =
  sm_maxlen :: nat
  sm_window :: rat
  sm_id :: string
  sm_model :: "string option"
  sm_prompt :: "string option"
  sm_buffer :: "entry list"
  sm_last_hash :: string
  sm_count :: nat
  sm_tokens :: nat
  sm_healthy :: bool
  sm_error :: "string option"
  sm_recoveries :: nat
  sm_window_start :: rat

definition new_session :: "nat \<Rightarrow> rat \<Rightarrow> string \<Rightarrow> rat \<Rightarrow> session" where
  "new_session maxlen window sid now = \<lparr>sm_maxlen = maxlen, sm_window = window, sm_id = sid, sm_model = None, sm_prompt = None,
     sm_buffer = [], sm_last_hash = [], sm_count = 0, sm_tokens = 0, sm_healthy = True, sm_error = None,
     sm_recoveries = 0, sm_window_start = now\<rparr>"

definition empty_db :: session_db where
  "empty_db = \<lparr>db_state = [], db_meta = [], db_checkpoints = []\<rparr>"

text \<open>\<open>deque(maxlen=n).append\<close> drops from the left.\<close>

definition ring_append :: "nat \<Rightarrow> 'a \<Rightarrow> 'a list \<Rightarrow> 'a list" where
  "ring_append n x xs = drop (length xs + 1 - n) (xs @ [x])"

definition ROLES :: "string list" where
  "ROLES = [''system'', ''user'', ''assistant'', ''tool'']"

definition append_message ::
  "codec \<Rightarrow> string \<Rightarrow> rat \<Rightarrow> string \<Rightarrow> string option \<Rightarrow> pyval list option \<Rightarrow> pyval list option \<Rightarrow> session \<Rightarrow> string result \<times> session" where
  "append_message c mid now role content calls results s =
     (if role \<notin> set ROLES then (Inl ValueError, s)
      else let e = new_message c mid now (sm_id s) role content calls results (sm_last_hash s)
           in (Inr mid, s\<lparr>sm_buffer := ring_append (sm_maxlen s) e (sm_buffer s), sm_last_hash := me_hash e,
                 sm_count := sm_count s + 1, sm_tokens := sm_tokens s + length (or_empty content) div 4\<rparr>))"

record api_message =
  am_role :: string
  am_content :: "string option"
  am_calls :: "pyval list option"

definition to_api :: "entry \<Rightarrow> api_message" where
  "to_api e = \<lparr>am_role = me_role e, am_content = me_content e, am_calls = (if me_calls e = [] then None else Some (me_calls e))\<rparr>"

definition get_messages :: "int option \<Rightarrow> session \<Rightarrow> api_message list" where
  "get_messages count s =
     (let buf = sm_buffer s;
          recent = (case count of
             Some n \<Rightarrow> if n < 0 then buf else if nat n < length buf then drop (length buf - nat n) buf else buf
           | None \<Rightarrow> buf)
      in if count = Some 0 then []
         else map to_api (filter (\<lambda>e. me_role e \<noteq> ''system'' \<or> or_empty (me_content e) \<noteq> []) recent))"

definition get_system_prompt_context :: "session \<Rightarrow> string option" where
  "get_system_prompt_context s =
     (case filter (\<lambda>e. me_role e = ''system'' \<and> or_empty (me_content e) \<noteq> []) (sm_buffer s) of
        [] \<Rightarrow> sm_prompt s
      | e # _ \<Rightarrow> me_content e)"

section \<open>Flushing\<close>

datatype flush_reason = FrTimer | FrConnectionDrop | FrBugDetected | FrShutdown | FrManual | FrCheckpoint | FrHealingAgentSpawned

definition reason_value :: "flush_reason \<Rightarrow> string" where
  "reason_value r = (case r of FrTimer \<Rightarrow> ''timer'' | FrConnectionDrop \<Rightarrow> ''connection_drop'' | FrBugDetected \<Rightarrow> ''bug_detected''
     | FrShutdown \<Rightarrow> ''shutdown'' | FrManual \<Rightarrow> ''manual'' | FrCheckpoint \<Rightarrow> ''checkpoint''
     | FrHealingAgentSpawned \<Rightarrow> ''healing_agent_spawned'')"

text \<open>A text names a reason by its value, or by the enumeration's name in any case, which is the value in
  capitals; any other text is \<open>MANUAL\<close>.\<close>

definition to_flush_reason :: "string \<Rightarrow> flush_reason" where
  "to_flush_reason s =
     (case filter (\<lambda>r. reason_value r = s \<or> str_lower s = reason_value r)
        [FrTimer, FrConnectionDrop, FrBugDetected, FrShutdown, FrManual, FrCheckpoint, FrHealingAgentSpawned] of
        [] \<Rightarrow> FrManual | r # _ \<Rightarrow> r)"

datatype sql_fault = NoFault | ConnectFails | CommitFails

definition put_row :: "'k \<Rightarrow> 'v \<Rightarrow> ('k, 'v) table \<Rightarrow> ('k, 'v) table" where
  "put_row k v t = delete_row k t @ [(k, v)]"

definition mark_flushed :: "string \<Rightarrow> entry \<Rightarrow> entry" where
  "mark_flushed r e = (if or_empty (me_flush e) = [] then e\<lparr>me_flush := Some r\<rparr> else e)"

definition create_checkpoint :: "codec \<Rightarrow> rat \<Rightarrow> checkpoint_type \<Rightarrow> session \<Rightarrow> session_db \<Rightarrow> session_db" where
  "create_checkpoint c created ty s db =
     db\<lparr>db_checkpoints := db_checkpoints db @ [\<lparr>cp_id = length (db_checkpoints db) + 1, cp_session = sm_id s, cp_type = ty,
        cp_snapshot = Some (map (to_saved c) (sm_buffer s)), cp_hash = sm_last_hash s, cp_count = length (sm_buffer s),
        cp_created = \<lfloor>created\<rfloor>\<rparr>]\<rparr>"

text \<open>Marking happens in the buffer before the rows are committed.\<close>

definition flush_session :: "codec \<Rightarrow> sql_fault \<Rightarrow> rat \<Rightarrow> flush_reason \<Rightarrow> session \<Rightarrow> session_db \<Rightarrow> bool \<times> session \<times> session_db" where
  "flush_session c fault now reason s db =
     (let fails = \<lambda>s. (False, s\<lparr>sm_healthy := False, sm_error := Some ''sqlite''\<rparr>, db) in
      if fault = ConnectFails then fails s
      else let todo = filter (\<lambda>e. or_empty (me_flush e) = []) (sm_buffer s)
      in if todo = [] \<and> reason \<noteq> FrShutdown then (True, s, db)
         else let r = reason_value reason;
                  s1 = s\<lparr>sm_buffer := map (mark_flushed r) (sm_buffer s)\<rparr>;
                  db1 = db\<lparr>db_state := fold (\<lambda>e. put_row (me_id e) (to_saved c (mark_flushed r e))) todo (db_state db),
                     db_meta := put_row (sm_id s) \<lparr>sr_model = sm_model s, sr_prompt = sm_prompt s, sr_tokens = sm_tokens s,
                       sr_active = now, sr_healthy = sm_healthy s, sr_recoveries = sm_recoveries s\<rparr> (db_meta db)\<rparr>;
                  db2 = (if reason = FrBugDetected then create_checkpoint c now BugCheckpoint s1 db1 else db1)
              in if fault = CommitFails then fails s1 else (True, s1, db2))"

text \<open>\<open>ORDER BY created_at DESC LIMIT 1\<close>: the latest, the first of those made in the same second.\<close>

definition is_restore_point :: "checkpoint \<Rightarrow> bool" where
  "is_restore_point cp = (cp_type cp = LastGood \<or> cp_type cp = BugCheckpoint)"

fun latest :: "checkpoint list \<Rightarrow> checkpoint option" where
  "latest [] = None"
| "latest (cp # cps) = (case latest cps of None \<Rightarrow> Some cp | Some b \<Rightarrow> Some (if cp_created b > cp_created cp then b else cp))"

definition get_last_checkpoint :: "session_db \<Rightarrow> checkpoint option" where
  "get_last_checkpoint db = latest (filter is_restore_point (db_checkpoints db))"

fun newest_row :: "(string \<times> session_row) list \<Rightarrow> (string \<times> session_row) option" where
  "newest_row [] = None"
| "newest_row (x # xs) =
     (case newest_row xs of None \<Rightarrow> Some x | Some y \<Rightarrow> Some (if sr_active (snd y) > sr_active (snd x) then y else x))"

definition get_last_session_metadata :: "session_db \<Rightarrow> (string \<times> session_row) option" where
  "get_last_session_metadata db = newest_row (db_meta db)"

section \<open>Recovery\<close>

text \<open>The loop over a snapshot: it ends at a broken link; an exception leaves what was restored so far.\<close>

fun restore_loop :: "codec \<Rightarrow> saved list \<Rightarrow> session \<Rightarrow> unit result \<times> session" where
  "restore_loop c [] s = (Inr (), s)"
| "restore_loop c (d # ds) s =
     (case from_saved c d of
        Inl e \<Rightarrow> (Inl e, s)
      | Inr e \<Rightarrow>
          let computed = chain_hash c (sm_last_hash s) (me_role e) (or_empty (me_content e)) (me_calls e) (me_time e)
          in if computed \<noteq> me_hash e then (Inr (), s)
             else restore_loop c ds (s\<lparr>sm_buffer := ring_append (sm_maxlen s) e (sm_buffer s), sm_last_hash := computed,
                    sm_count := sm_count s + 1\<rparr>))"

definition find_checkpoint :: "nat option \<Rightarrow> session_db \<Rightarrow> checkpoint option" where
  "find_checkpoint cid db =
     (case cid of
        None \<Rightarrow> get_last_checkpoint db
      | Some n \<Rightarrow> if n = 0 then get_last_checkpoint db else find (\<lambda>cp. cp_id cp = n) (db_checkpoints db))"

definition restore_from_checkpoint ::
  "codec \<Rightarrow> rat \<Rightarrow> nat option \<Rightarrow> session \<Rightarrow> session_db \<Rightarrow> api_message list result \<times> session \<times> session_db" where
  "restore_from_checkpoint c now cid s db =
     (case find_checkpoint cid db of
        None \<Rightarrow> (Inr [], s, db)
      | Some cp \<Rightarrow> (case cp_snapshot cp of
          None \<Rightarrow> (Inr [], s, db)
        | Some ds \<Rightarrow>
            (case restore_loop c ds (s\<lparr>sm_buffer := [], sm_last_hash := [], sm_count := 0\<rparr>) of
               (Inl e, s1) \<Rightarrow> (Inl e, s1, db)
             | (Inr _, s1) \<Rightarrow>
                 let s2 = (if now - sm_window_start s1 > sm_window s1 * 60
                           then s1\<lparr>sm_recoveries := 1, sm_window_start := now\<rparr>
                           else s1\<lparr>sm_recoveries := sm_recoveries s1 + 1\<rparr>)
                 in (Inr (get_messages None s2), s2, create_checkpoint c now Recovery s2 db))))"

fun verify_loop :: "codec \<Rightarrow> string \<Rightarrow> nat \<Rightarrow> entry list \<Rightarrow> bool \<times> nat" where
  "verify_loop c prev n [] = (True, n)"
| "verify_loop c prev n (e # es) =
     (let computed = chain_hash c prev (me_role e) (or_empty (me_content e)) (me_calls e) (me_time e)
      in if computed \<noteq> me_hash e then (False, n) else verify_loop c computed (n + 1) es)"

definition verify_state_integrity :: "codec \<Rightarrow> session \<Rightarrow> bool \<times> nat" where
  "verify_state_integrity c s = verify_loop c [] 0 (sm_buffer s)"

definition set_session_info :: "string \<Rightarrow> string option \<Rightarrow> session \<Rightarrow> session" where
  "set_session_info model prompt s =
     s\<lparr>sm_model := Some model, sm_prompt := (if or_empty prompt \<noteq> [] then prompt else sm_prompt s)\<rparr>"

definition mark_unhealthy :: "string \<Rightarrow> session \<Rightarrow> session" where
  "mark_unhealthy e s = s\<lparr>sm_healthy := False, sm_error := Some e\<rparr>"

text \<open>The shutdown, after the flush task has ended: a checkpoint, then the last flush.\<close>

definition graceful_shutdown :: "codec \<Rightarrow> sql_fault \<Rightarrow> rat \<Rightarrow> session \<Rightarrow> session_db \<Rightarrow> session \<times> session_db" where
  "graceful_shutdown c fault now s db = snd (flush_session c fault now FrShutdown s (create_checkpoint c now LastGood s db))"

section \<open>Calls in sequence\<close>

datatype session_op =
    Append string rat string "string option" "pyval list option" "pyval list option"
  | Flush sql_fault rat flush_reason
  | Restore rat "nat option"
  | Describe string "string option"
  | BugFound string
  | Shutdown sql_fault rat

fun session_step :: "codec \<Rightarrow> session_op \<Rightarrow> session \<times> session_db \<Rightarrow> session \<times> session_db" where
  "session_step c (Append mid now role content calls results) (s, db) = (snd (append_message c mid now role content calls results s), db)"
| "session_step c (Flush fault now reason) (s, db) = snd (flush_session c fault now reason s db)"
| "session_step c (Restore now cid) (s, db) = snd (restore_from_checkpoint c now cid s db)"
| "session_step c (Describe model prompt) (s, db) = (set_session_info model prompt s, db)"
| "session_step c (BugFound e) (s, db) = (mark_unhealthy e s, db)"
| "session_step c (Shutdown fault now) (s, db) = graceful_shutdown c fault now s db"

section \<open>The hash chain\<close>

definition link :: "codec \<Rightarrow> string \<Rightarrow> entry \<Rightarrow> string" where
  "link c p e = chain_hash c p (me_role e) (or_empty (me_content e)) (me_calls e) (me_time e)"

fun chained :: "codec \<Rightarrow> string \<Rightarrow> entry list \<Rightarrow> bool" where
  "chained c p [] = True"
| "chained c p (e # es) = (me_hash e = link c p e \<and> chained c (me_hash e) es)"

definition chain_end :: "string \<Rightarrow> entry list \<Rightarrow> string" where
  "chain_end p es = (if es = [] then p else me_hash (last es))"

lemma chained_append: "chained c p (es @ fs) \<longleftrightarrow> chained c p es \<and> chained c (chain_end p es) fs"
  by (induction es arbitrary: p) (auto simp: chain_end_def)

lemma verify_step: "me_hash e = link c p e \<Longrightarrow> verify_loop c p n (e # es) = verify_loop c (me_hash e) (n + 1) es"
  by (simp add: link_def)

lemma verify_chained: "chained c p es \<Longrightarrow> verify_loop c p n es = (True, n + length es)"
proof (induction es arbitrary: p n)
  case (Cons e es)
  then have "verify_loop c p n (e # es) = verify_loop c (me_hash e) (n + 1) es" by (intro verify_step) simp
  also have "\<dots> = (True, (n + 1) + length es)"
    using Cons.prems unfolding chained.simps by (intro Cons.IH) (erule conjunct2)
  finally show ?case by simp
qed simp

lemma verify_broken: "me_hash e \<noteq> link c p e \<Longrightarrow> verify_loop c p n (e # es) = (False, n)"
  by (simp add: link_def)

text \<open>Marking and flushing do not touch the chain.\<close>

lemma mark_keeps: "me_hash (mark_flushed r e) = me_hash e" "link c p (mark_flushed r e) = link c p e" "me_id (mark_flushed r e) = me_id e"
  by (simp_all add: mark_flushed_def link_def)

lemma chained_mark: "chained c p (map (mark_flushed r) es) = chained c p es"
  by (induction es arbitrary: p) (simp_all add: mark_keeps)

lemma chain_end_mark: "chain_end p (map (mark_flushed r) es) = chain_end p es"
  by (simp add: chain_end_def last_map mark_keeps)

text \<open>The buffer is the end of a chain that starts from the empty hash; what precedes it was evicted.\<close>

definition session_ok :: "codec \<Rightarrow> session \<Rightarrow> bool" where
  "session_ok c s = (\<exists>old. chained c [] (old @ sm_buffer s) \<and> sm_last_hash s = chain_end [] (old @ sm_buffer s) \<and>
     length old + length (sm_buffer s) = sm_count s \<and> length (sm_buffer s) = min (sm_count s) (sm_maxlen s))"

lemma ring_append_split: "\<exists>us. us @ ring_append n x xs = xs @ [x]"
  unfolding ring_append_def by (metis append_take_drop_id)

lemma session_ok_push:
  assumes "session_ok c s" and "me_hash e = link c (sm_last_hash s) e"
  shows "session_ok c (s\<lparr>sm_buffer := ring_append (sm_maxlen s) e (sm_buffer s), sm_last_hash := me_hash e, sm_count := sm_count s + 1\<rparr>)"
proof -
  obtain old where old: "chained c [] (old @ sm_buffer s)" "sm_last_hash s = chain_end [] (old @ sm_buffer s)"
    "length old + length (sm_buffer s) = sm_count s" "length (sm_buffer s) = min (sm_count s) (sm_maxlen s)"
    using assms(1) by (auto simp: session_ok_def)
  obtain us where us: "us @ ring_append (sm_maxlen s) e (sm_buffer s) = sm_buffer s @ [e]"
    using ring_append_split [of "sm_maxlen s" e "sm_buffer s"] by (elim exE)
  let ?b = "ring_append (sm_maxlen s) e (sm_buffer s)"
  have eq: "(old @ us) @ ?b = (old @ sm_buffer s) @ [e]" using us by simp
  have "chained c [] ((old @ us) @ ?b)"
  proof -
    have "chained c (chain_end [] (old @ sm_buffer s)) [e]" using assms(2) old(2) by simp
    then show ?thesis unfolding eq using old(1) chained_append by blast
  qed
  moreover have "me_hash e = chain_end [] ((old @ us) @ ?b)" unfolding eq by (simp add: chain_end_def)
  moreover have "length (old @ us) + length ?b = sm_count s + 1"
    using arg_cong [OF eq, of length] old(3) by simp
  moreover have "length ?b = min (sm_count s + 1) (sm_maxlen s)" using old(3,4) by (auto simp: ring_append_def min_def)
  ultimately show ?thesis by (auto simp: session_ok_def intro!: exI [of _ "old @ us"])
qed

lemma session_ok_same:
  assumes "session_ok c s" and "sm_buffer s' = sm_buffer s" and "sm_last_hash s' = sm_last_hash s" and "sm_count s' = sm_count s"
    and "sm_maxlen s' = sm_maxlen s"
  shows "session_ok c s'"
  using assms by (simp add: session_ok_def)

lemma session_ok_mark:
  assumes "session_ok c s"
  shows "session_ok c (s\<lparr>sm_buffer := map (mark_flushed r) (sm_buffer s)\<rparr>)"
proof -
  obtain old where old: "chained c [] (old @ sm_buffer s)" "sm_last_hash s = chain_end [] (old @ sm_buffer s)"
    "length old + length (sm_buffer s) = sm_count s" "length (sm_buffer s) = min (sm_count s) (sm_maxlen s)"
    using assms by (auto simp: session_ok_def)
  have "chained c [] (old @ map (mark_flushed r) (sm_buffer s))" using old(1) by (simp add: chained_append chained_mark)
  moreover have "chain_end [] (old @ map (mark_flushed r) (sm_buffer s)) = chain_end [] (old @ sm_buffer s)"
    by (simp add: chain_end_def last_append last_map mark_keeps)
  ultimately show ?thesis using old by (auto simp: session_ok_def intro!: exI [of _ old])
qed

lemma session_ok_append: "session_ok c s \<Longrightarrow> session_ok c (snd (append_message c mid now role content calls results s))"
proof -
  assume ok: "session_ok c s"
  define e where "e = new_message c mid now (sm_id s) role content calls results (sm_last_hash s)"
  have "me_hash e = link c (sm_last_hash s) e" by (simp add: e_def new_message_def link_def)
  from session_ok_push [OF ok this] have "session_ok c (s\<lparr>sm_buffer := ring_append (sm_maxlen s) e (sm_buffer s),
      sm_last_hash := me_hash e, sm_count := sm_count s + 1\<rparr>)" .
  then have "session_ok c (s\<lparr>sm_buffer := ring_append (sm_maxlen s) e (sm_buffer s), sm_last_hash := me_hash e,
      sm_count := sm_count s + 1, sm_tokens := sm_tokens s + length (or_empty content) div 4\<rparr>)"
    by (rule session_ok_same) simp_all
  then show ?thesis using ok by (simp add: append_message_def e_def)
qed

lemma session_ok_flush: "session_ok c s \<Longrightarrow> session_ok c (fst (snd (flush_session c fault now reason s db)))"
  using session_ok_mark [of c s "reason_value reason"]
  by (auto simp: flush_session_def intro: session_ok_same)

lemma session_ok_restore_loop: "session_ok c s \<Longrightarrow> session_ok c (snd (restore_loop c ds s))"
proof (induction c ds s rule: restore_loop.induct)
  case (1 c s)
  then show ?case by simp
next
  case (2 c d ds s)
  show ?case
  proof (cases "from_saved c d")
    case (Inl x)
    then show ?thesis using 2 by simp
  next
    case (Inr e)
    show ?thesis
    proof (cases "me_hash e = link c (sm_last_hash s) e")
      case True
      then show ?thesis using 2(1) [OF Inr refl] session_ok_push [OF 2(2) True] Inr by (simp add: link_def)
    next
      case False
      then show ?thesis using 2(2) Inr by (simp add: link_def)
    qed
  qed
qed

lemma session_ok_restore:
  assumes ok: "session_ok c s"
  shows "session_ok c (fst (snd (restore_from_checkpoint c now cid s db)))"
proof (cases "find_checkpoint cid db")
  case None
  then show ?thesis using ok by (simp add: restore_from_checkpoint_def)
next
  case (Some cp)
  show ?thesis
  proof (cases "cp_snapshot cp")
    case None
    then show ?thesis using ok Some by (simp add: restore_from_checkpoint_def)
  next
    case (Some ds)
    let ?s0 = "s\<lparr>sm_buffer := [], sm_last_hash := [], sm_count := 0\<rparr>"
    obtain r s1 where loop: "restore_loop c ds ?s0 = (r, s1)" by (cases "restore_loop c ds ?s0")
    have "session_ok c ?s0" by (simp add: session_ok_def chain_end_def)
    from session_ok_restore_loop [OF this, of ds] have ok1: "session_ok c s1" by (simp add: loop)
    show ?thesis
    proof (cases r)
      case (Inl e)
      then show ?thesis using ok1 loop Some \<open>find_checkpoint cid db = _\<close> by (simp add: restore_from_checkpoint_def)
    next
      case (Inr u)
      then show ?thesis using loop Some \<open>find_checkpoint cid db = _\<close>
        by (auto simp: restore_from_checkpoint_def Let_def intro: session_ok_same [OF ok1])
    qed
  qed
qed

lemma session_ok_step: "session_ok c (fst st) \<Longrightarrow> session_ok c (fst (session_step c op st))"
proof (cases st)
  fix s db assume ok: "session_ok c (fst st)" and st: "st = (s, db)"
  show ?thesis
  proof (cases op)
    case (Describe m p)
    then show ?thesis using ok st by (auto simp: set_session_info_def intro: session_ok_same)
  next
    case (BugFound e)
    then show ?thesis using ok st by (auto simp: mark_unhealthy_def intro: session_ok_same)
  next
    case (Append mid now role content calls results)
    then show ?thesis using ok st by (simp add: session_ok_append)
  next
    case (Flush fault now reason)
    then show ?thesis using ok st by (simp add: session_ok_flush)
  next
    case (Restore now cid)
    then show ?thesis using ok st by (simp add: session_ok_restore)
  next
    case (Shutdown fault now)
    then show ?thesis using ok st by (simp add: graceful_shutdown_def session_ok_flush)
  qed
qed

definition run_session :: "codec \<Rightarrow> session_op list \<Rightarrow> session \<times> session_db \<Rightarrow> session \<times> session_db" where
  "run_session c ops st = fold (session_step c) ops st"

lemma session_ok_new: "session_ok c (new_session n window sid now)"
  by (simp add: session_ok_def new_session_def chain_end_def)

lemma session_ok_run: "session_ok c (fst st) \<Longrightarrow> session_ok c (fst (run_session c ops st))"
  unfolding run_session_def by (induction ops arbitrary: st) (simp_all add: session_ok_step)

section \<open>What a run of the session keeps\<close>

lemma restore_loop_maxlen: "sm_maxlen (snd (restore_loop c ds s)) = sm_maxlen s"
  by (induction c ds s rule: restore_loop.induct) (simp_all add: Let_def split: sum.splits)

lemma restore_loop_keeps: "restore_loop c ds s = (r, s1) \<Longrightarrow> sm_maxlen s1 = sm_maxlen s"
  using restore_loop_maxlen [of c ds s] by simp

lemma restore_maxlen: "sm_maxlen (fst (snd (restore_from_checkpoint c now cid s db))) = sm_maxlen s"
  by (auto simp: restore_from_checkpoint_def Let_def split: option.splits sum.splits prod.splits dest: restore_loop_keeps)

lemma maxlen_step: "sm_maxlen (fst (session_step c op st)) = sm_maxlen (fst st)"
proof (cases st)
  case (Pair s db)
  then show ?thesis
    by (cases op) (simp_all add: append_message_def flush_session_def restore_maxlen set_session_info_def mark_unhealthy_def
        graceful_shutdown_def Let_def)
qed

lemma maxlen_run: "sm_maxlen (fst (run_session c ops st)) = sm_maxlen (fst st)"
  unfolding run_session_def by (induction ops arbitrary: st) (simp_all add: maxlen_step)

lemma chain_end_link: "chained c p es \<Longrightarrow> es \<noteq> [] \<Longrightarrow> \<exists>q e. chain_end p es = link c q e"
proof -
  assume ch: "chained c p es" and ne: "es \<noteq> []"
  then have "chained c p (butlast es @ [last es])" by simp
  then have "me_hash (last es) = link c (chain_end p (butlast es)) (last es)" by (simp only: chained_append chained.simps)
  then show ?thesis using ne by (simp only: chain_end_def if_False) blast
qed

text \<open>Once a message was evicted, the first one that is left does not link to the empty hash.\<close>

lemma evicted_breaks:
  assumes ok: "session_ok c s" and inj: "\<forall>p e. link c p e = link c [] e \<longrightarrow> p = []" and ne: "\<forall>x. cd_digest c x \<noteq> []"
    and n: "0 < sm_maxlen s" and more: "sm_maxlen s < sm_count s"
  shows "\<exists>e es. sm_buffer s = e # es \<and> me_hash e \<noteq> link c [] e"
proof -
  obtain old where old: "chained c [] (old @ sm_buffer s)" "length old + length (sm_buffer s) = sm_count s"
    "length (sm_buffer s) = min (sm_count s) (sm_maxlen s)"
    using ok by (auto simp: session_ok_def)
  have nonempty: "old \<noteq> []" "sm_buffer s \<noteq> []" using old(2,3) n more by auto
  then obtain e es where b: "sm_buffer s = e # es" by (cases "sm_buffer s") auto
  have ch: "chained c [] old" "chained c (chain_end [] old) (e # es)"
    using old(1) unfolding b by (simp_all only: chained_append)
  obtain q f where "chain_end [] old = link c q f" using chain_end_link [OF ch(1) nonempty(1)] by blast
  then have end_ne: "chain_end [] old \<noteq> []" using ne by (simp add: link_def chain_hash_def)
  have h: "me_hash e = link c (chain_end [] old) e" using ch(2) by (simp only: chained.simps)
  have "me_hash e \<noteq> link c [] e" unfolding h using inj end_ne by blast
  then show ?thesis using b by blast
qed

lemma not_evicted_chained:
  assumes "session_ok c s" and "sm_count s \<le> sm_maxlen s"
  shows "chained c [] (sm_buffer s) \<and> sm_last_hash s = chain_end [] (sm_buffer s) \<and> length (sm_buffer s) = sm_count s"
  using assms by (auto simp: session_ok_def)

section \<open>Restoring what a shutdown saved\<close>

lemma restore_loop_chained:
  "\<forall>e\<in>set es. from_saved c (to_saved c e) = Inr e \<Longrightarrow> chained c (sm_last_hash t) es \<Longrightarrow> length (sm_buffer t) + length es \<le> sm_maxlen t \<Longrightarrow>
    restore_loop c (map (to_saved c) es) t =
      (Inr (), t\<lparr>sm_buffer := sm_buffer t @ es, sm_last_hash := chain_end (sm_last_hash t) es, sm_count := sm_count t + length es\<rparr>)"
proof (induction es arbitrary: t)
  case Nil
  then show ?case by (simp add: chain_end_def)
next
  case (Cons e es)
  let ?t = "t\<lparr>sm_buffer := sm_buffer t @ [e], sm_last_hash := me_hash e, sm_count := sm_count t + 1\<rparr>"
  have h: "me_hash e = link c (sm_last_hash t) e" using Cons.prems(2) by simp
  have ch: "chained c (me_hash e) es" using Cons.prems(2) unfolding chained.simps by (rule conjunct2)
  have "restore_loop c (map (to_saved c) (e # es)) t = restore_loop c (map (to_saved c) es) ?t"
    using h Cons.prems(1,3) by (simp add: link_def ring_append_def)
  also have "\<dots> = (Inr (), ?t\<lparr>sm_buffer := sm_buffer ?t @ es, sm_last_hash := chain_end (sm_last_hash ?t) es,
      sm_count := sm_count ?t + length es\<rparr>)"
    using ch Cons.prems(1,3) by (intro Cons.IH) simp_all
  finally show ?case by (simp add: chain_end_def)
qed

lemma restore_loop_broken:
  assumes "from_saved c (to_saved c e) = Inr e" and "me_hash e \<noteq> link c (sm_last_hash t) e"
  shows "restore_loop c (map (to_saved c) (e # es)) t = (Inr (), t)"
  using assms by (simp add: link_def)

lemma latest_newer: "\<forall>x\<in>set cps. cp_created x < cp_created cp \<Longrightarrow> latest (cps @ [cp]) = Some cp"
  by (induction cps) simp_all

lemma flush_keeps_checkpoints:
  "reason \<noteq> FrBugDetected \<Longrightarrow> db_checkpoints (snd (snd (flush_session c fault now reason s db))) = db_checkpoints db"
  by (simp add: flush_session_def Let_def)

lemma shutdown_checkpoint:
  assumes "\<forall>cp\<in>set (db_checkpoints db). cp_created cp < \<lfloor>now\<rfloor>"
  obtains cp where "get_last_checkpoint (snd (graceful_shutdown c fault now s db)) = Some cp"
    "cp_snapshot cp = Some (map (to_saved c) (sm_buffer s))"
  using assms by (auto simp: get_last_checkpoint_def graceful_shutdown_def flush_keeps_checkpoints create_checkpoint_def
      is_restore_point_def latest_newer)

lemma restore_of_snapshot:
  assumes "find_checkpoint cid db = Some cp" and "cp_snapshot cp = Some ds"
    and "restore_loop c ds (t\<lparr>sm_buffer := [], sm_last_hash := [], sm_count := 0\<rparr>) = (Inr (), t1)"
  shows "fst (restore_from_checkpoint c now cid t db) = Inr (get_messages None t1) \<and>
    sm_buffer (fst (snd (restore_from_checkpoint c now cid t db))) = sm_buffer t1 \<and>
    sm_last_hash (fst (snd (restore_from_checkpoint c now cid t db))) = sm_last_hash t1"
  using assms by (simp add: restore_from_checkpoint_def Let_def get_messages_def)


section \<open>What the session promises\<close>


definition sample_codec :: codec where
  "sample_codec = \<lparr>cd_digest = (\<lambda>x. CHR ''h'' # x), cd_sorted = (\<lambda>_. ''[]''), cd_dumps = (\<lambda>xs. if xs = [] then ''[]'' else ''''),
     cd_loads = (\<lambda>x. if x = ''[]'' then Inr [] else Inl ValueError), cd_time = (\<lambda>_. ''0'')\<rparr>"

lemma sample_codec_link: "link sample_codec p e = link sample_codec [] e \<longleftrightarrow> p = []"
  by (simp add: link_def chain_hash_def sample_codec_def)




text \<open>A flush whose commit fails loses its messages for the database.  They were marked as flushed
  before the commit, so that a later flush, with SQLite working again, finds nothing to write and
  reports success.\<close>

theorem failed_commit_is_final:
  assumes "later \<noteq> FrShutdown"
  shows "flush_session c NoFault t2 later (fst (snd (flush_session c CommitFails t1 r s db))) db =
    (True, fst (snd (flush_session c CommitFails t1 r s db)), db)"
proof -
  have "me_flush (mark_flushed (reason_value r) e) \<noteq> None \<and> or_empty (me_flush (mark_flushed (reason_value r) e)) \<noteq> []" for e
    by (cases r) (auto simp: mark_flushed_def or_empty_def reason_value_def split: option.splits)
  then show ?thesis using assms by (auto simp: flush_session_def Let_def filter_empty_conv)
qed

theorem failed_commit_is_final_witness:
  "(let s = fst (run_session sample_codec [Append ''1'' 0 ''user'' (Some ''a'') None None] (new_session 2 60 ''s'' 0, empty_db));
        s1 = fst (snd (flush_session sample_codec CommitFails 1 FrTimer s empty_db))
    in flush_session sample_codec NoFault 2 FrTimer s1 empty_db = (True, s1, empty_db) \<and> map me_id (sm_buffer s1) = [''1''])"
  using failed_commit_is_final [of FrTimer sample_codec 2 1 FrTimer
      "fst (run_session sample_codec [Append ''1'' 0 ''user'' (Some ''a'') None None] (new_session 2 60 ''s'' 0, empty_db))" empty_db]
  by (simp add: Let_def) (simp add: flush_session_def run_session_def append_message_def new_message_def new_session_def ROLES_def
      Let_def ring_append_def mark_flushed_def or_empty_def)

text \<open>A flush because of a bug makes no checkpoint when every message was flushed before.\<close>

lemma bug_flush_without_checkpoint:
  "\<forall>e\<in>set (sm_buffer s). or_empty (me_flush e) \<noteq> [] \<Longrightarrow> flush_session c NoFault now FrBugDetected s db = (True, s, db)"
  by (auto simp: flush_session_def Let_def filter_empty_conv)


end
