(* ===== verification/DeepOrders.thy ===== *)
theory DeepOrders
  imports DeepSession
begin

text \<open>
  The work orders of the DeepSky client, \<open>SCRIPTS/CLIENTS/deepsky_client/work_order_engine.py\<close>: how
  an error event is filtered, deduplicated, categorised and written down, and
  \<open>_extract_error_info\<close> of \<open>healing_agent.py\<close>, which reads the notes back.  MD5, the JSON text of the
  session's summary and the text of a time stamp are the fields of \<open>formats\<close>.  A call reads the clock
  once.
\<close>

section \<open>Text\<close>

definition ascii_upper :: "char \<Rightarrow> char" where
  "ascii_upper c = (let n = of_char c :: nat in if 97 \<le> n \<and> n \<le> 122 then char_of (n - 32) else c)"

text \<open>\<open>upper()\<close> on ASCII letters: the upper case of any other letter is not part of the texts it is compared with.\<close>

definition str_upper :: "string \<Rightarrow> string" where
  "str_upper s = map ascii_upper s"

definition has_any :: "string list \<Rightarrow> string \<Rightarrow> bool" where
  "has_any ks s = list_ex (\<lambda>k. sublist k s) ks"

definition newline :: char where
  "newline = CHR 0x0A"

text \<open>\<open>f'{n:04d}'\<close>\<close>

definition pad4 :: "nat \<Rightarrow> string" where
  "pad4 n = replicate (4 - length (str_int (int n))) (CHR ''0'') @ str_int (int n)"

section \<open>Reports\<close>

datatype error_category = CodeBug | ApiError | DataFlow | TimeoutCategory | Resource | Configuration | UnknownCategory

datatype error_severity = Critical | ErrorLevel | WarningLevel | InfoLevel

definition category_value :: "error_category \<Rightarrow> string" where
  "category_value c = (case c of CodeBug \<Rightarrow> ''code_bug'' | ApiError \<Rightarrow> ''api_error'' | DataFlow \<Rightarrow> ''data_flow''
     | TimeoutCategory \<Rightarrow> ''timeout'' | Resource \<Rightarrow> ''resource'' | Configuration \<Rightarrow> ''configuration'' | UnknownCategory \<Rightarrow> ''unknown'')"

definition severity_value :: "error_severity \<Rightarrow> int" where
  "severity_value s = (case s of Critical \<Rightarrow> 1 | ErrorLevel \<Rightarrow> 2 | WarningLevel \<Rightarrow> 3 | InfoLevel \<Rightarrow> 4)"

record report =
  er_id :: string
  er_category :: error_category
  er_severity :: error_severity
  er_summary :: string
  er_details :: string
  er_component :: string
  er_stack :: "string option"
  er_flow :: "string list"
  er_session :: "string option"
  er_time :: rat

text \<open>An event: the error with the name of its type, and what else the dictionary holds.  The values of
  the context are given by their texts.\<close>

record event =
  ev_error :: string
  ev_type :: string
  ev_component :: string
  ev_stack :: "string option"
  ev_flow :: "string list"
  ev_context :: "(string \<times> string) list"
  ev_category :: "string option"
  ev_severity :: "string option"

record formats =
  fm_md5 :: "string \<Rightarrow> string"
  fm_time :: "rat \<Rightarrow> string"
  fm_summary :: "session \<Rightarrow> string"
  fm_float :: "rat \<Rightarrow> string"

section \<open>Categories and severities\<close>

definition read_category :: "string \<Rightarrow> error_category option" where
  "read_category v = find (\<lambda>c. category_value c = v) [CodeBug, ApiError, DataFlow, TimeoutCategory, Resource, Configuration, UnknownCategory]"

definition categorize_error :: "event \<Rightarrow> error_category" where
  "categorize_error ev =
     (let s = str_lower (ev_error ev); ty = ev_type ev; tyl = str_lower ty
      in case (case ev_category ev of None \<Rightarrow> None | Some v \<Rightarrow> read_category v) of
           Some c \<Rightarrow> c
         | None \<Rightarrow>
             if has_any [''api key'', ''authentication'', ''401'', ''403'', ''rate limit'', ''429'', ''deepseek'', ''httperror'',
                         ''http error'', ''http response''] s then ApiError
             else if has_any [''apierror'', ''http'', ''request'', ''httperror''] tyl then ApiError
             else if has_any [''timeout'', ''timeouterror''] tyl then TimeoutCategory
             else if sublist ''timeout'' s then TimeoutCategory
             else if has_any [''keyerror'', ''attributeerror'', ''typeerror'', ''valueerror'', ''indexerror''] s then DataFlow
             else if has_any [''KeyError'', ''AttributeError'', ''TypeError'', ''ValueError'', ''IndexError''] ty then DataFlow
             else if has_any [''memory'', ''disk'', ''oom'', ''nomemory'', ''disk full'', ''connection refused''] s then Resource
             else if has_any [''MemoryError'', ''OSError''] ty then Resource
             else if has_any [''config'', ''configuration'', ''setting'', ''missing key'', ''invalid config''] s then Configuration
             else CodeBug)"

definition read_severity :: "string \<Rightarrow> error_severity option" where
  "read_severity v = map_of [(''CRITICAL'', Critical), (''ERROR'', ErrorLevel), (''WARNING'', WarningLevel), (''INFO'', InfoLevel)] (str_upper v)"

definition default_severity :: "error_category \<Rightarrow> error_severity" where
  "default_severity c = (case c of CodeBug \<Rightarrow> ErrorLevel | ApiError \<Rightarrow> ErrorLevel | DataFlow \<Rightarrow> ErrorLevel
     | TimeoutCategory \<Rightarrow> WarningLevel | Resource \<Rightarrow> Critical | Configuration \<Rightarrow> WarningLevel | UnknownCategory \<Rightarrow> WarningLevel)"

definition determine_severity :: "string option \<Rightarrow> error_category \<Rightarrow> error_severity" where
  "determine_severity v c =
     (case read_severity (or_empty v) of Some s \<Rightarrow> if or_empty v = [] then default_severity c else s | None \<Rightarrow> default_severity c)"

section \<open>Deduplication\<close>

definition DEDUP_WINDOW :: rat where
  "DEDUP_WINDOW = 300"

definition compute_error_hash :: "formats \<Rightarrow> string \<Rightarrow> string \<Rightarrow> string" where
  "compute_error_hash f err component = fm_md5 f (component @ '':'' @ take 100 err)"

definition is_duplicate :: "string \<Rightarrow> rat \<Rightarrow> (string, nat \<times> rat) table \<Rightarrow> bool \<times> (string, nat \<times> rat) table" where
  "is_duplicate h now recent =
     (let kept = filter (\<lambda>(_, _, t). now - t < DEDUP_WINDOW) recent
      in case row_at h kept of
           Some (n, t) \<Rightarrow> (True, dict_set h (n + 1, t) kept)
         | None \<Rightarrow> (False, dict_set h (1, now) kept))"

section \<open>The database\<close>

record work_order =
  wo_id :: nat
  wo_status :: string
  wo_priority :: int
  wo_description :: "string option"
  wo_notes :: "string option"

record noise =
  no_id :: string
  no_component :: string

record order_db =
  od_orders :: "work_order list"
  od_next :: nat
  od_noise :: "noise list"
  od_auto_mode :: bool

record order_engine =
  oe_enabled :: bool
  oe_recent :: "(string, nat \<times> rat) table"
  oe_errors :: nat
  oe_counter :: nat
  oe_session :: "(session \<times> session_db) option"

definition new_engine :: "bool \<Rightarrow> (session \<times> session_db) option \<Rightarrow> order_engine" where
  "new_engine on s = \<lparr>oe_enabled = on, oe_recent = [], oe_errors = 0, oe_counter = 0, oe_session = s\<rparr>"

text \<open>What a call meets: the time, the exception being handled, and which of its statements SQLite
  refuses: the flush, the rejection's log, the new order, the mode afterwards.  The error of the log, which
  is not caught, is \<open>RuntimeError\<close>.\<close>

record surroundings =
  su_now :: rat
  su_exception :: "string option"
  su_flush :: sql_fault
  su_log_fails :: bool
  su_order_fails :: bool
  su_mode_fails :: bool

section \<open>Writing an order\<close>

definition format_details :: "string \<Rightarrow> string \<Rightarrow> (string \<times> string) list \<Rightarrow> string" where
  "format_details err component ctx =
     join [newline] ([''Component: '' @ component, ''Error: '' @ err] @
       (if ctx = [] then [] else ''Context:'' # map (\<lambda>(k, v). ''  '' @ k @ '': '' @ v) ctx))"

definition priority_of :: "error_severity \<Rightarrow> int" where
  "priority_of s = (case s of Critical \<Rightarrow> 1 | ErrorLevel \<Rightarrow> 2 | WarningLevel \<Rightarrow> 3 | InfoLevel \<Rightarrow> 5)"

definition order_description :: "formats \<Rightarrow> report \<Rightarrow> string" where
  "order_description f r =
     ''[AUTO-HEALING] '' @ er_summary r @ newline # ''Category: '' @ category_value (er_category r) @ newline #
     ''Component: '' @ er_component r @ newline # ''Error ID: '' @ er_id r @ newline # ''Timestamp: '' @ fm_time f (er_time r)"

definition note_parts :: "report \<Rightarrow> string list" where
  "note_parts r =
     [''## Auto-Generated Error Report'', ''**Error ID:** '' @ er_id r, ''**Category:** '' @ category_value (er_category r),
      ''**Severity:** '' @ str_int (severity_value (er_severity r)), ''**Component:** '' @ er_component r,
      ''**Summary:** '' @ er_summary r, ''**Details:**'', er_details r] @
     (if or_empty (er_stack r) = [] then []
      else [newline # ''**Stack Trace:**'', ''```'', take 2000 (or_empty (er_stack r)), ''```'']) @
     (if er_flow r = [] then [] else [newline # ''**Data Flow Path:**'', join '' -> '' (er_flow r)]) @
     (case er_session r of None \<Rightarrow> [] | Some j \<Rightarrow> [newline # ''**Session State:**'', ''```json'', j, ''```''])"

definition order_notes :: "report \<Rightarrow> string" where
  "order_notes r = join [newline] (note_parts r)"

text \<open>When only the second transaction fails the order is there, but its id is lost.\<close>

definition create_work_order :: "formats \<Rightarrow> surroundings \<Rightarrow> report \<Rightarrow> order_db \<Rightarrow> int \<times> order_db" where
  "create_work_order f su r db =
     (if su_order_fails su then (- 1, db)
      else let w = \<lparr>wo_id = od_next db, wo_status = ''pending'', wo_priority = priority_of (er_severity r),
                 wo_description = Some (order_description f r), wo_notes = Some (order_notes r)\<rparr>;
               db1 = db\<lparr>od_orders := od_orders db @ [w], od_next := od_next db + 1\<rparr>
           in if su_mode_fails su then (- 1, db1) else (int (od_next db), db1\<lparr>od_auto_mode := True\<rparr>))"

definition log_rejected_event :: "surroundings \<Rightarrow> event \<Rightarrow> order_engine \<Rightarrow> order_db \<Rightarrow> unit result \<times> order_engine \<times> order_db" where
  "log_rejected_event su ev g db =
     (let eid = ''REJ-'' @ str_int (py_trunc (su_now su)) @ ''-'' @ pad4 (oe_counter g); g1 = g\<lparr>oe_counter := oe_counter g + 1\<rparr>
      in if su_log_fails su then (Inl RuntimeError, g, db)
         else (Inr (), g1, db\<lparr>od_noise := od_noise db @ [\<lparr>no_id = eid, no_component = ev_component ev\<rparr>]\<rparr>))"

section \<open>Events\<close>

definition MEANINGLESS :: "string list" where
  "MEANINGLESS = [''unknown'', ''c'', '''', ''none'', ''general'', ''default'', ''component'']"

definition context_score :: "event \<Rightarrow> nat" where
  "context_score ev =
     length (filter id [\<not> length (str_strip (ev_error ev)) < 3, str_strip (str_lower (ev_component ev)) \<notin> set MEANINGLESS,
       or_empty (ev_stack ev) \<noteq> [], ev_flow ev \<noteq> [], ev_context ev \<noteq> []])"

definition make_report :: "formats \<Rightarrow> surroundings \<Rightarrow> event \<Rightarrow> order_engine \<Rightarrow> report" where
  "make_report f su ev g =
     (let c = categorize_error ev
      in \<lparr>er_id = ''ERR-'' @ str_int (py_trunc (su_now su)) @ ''-'' @ pad4 (oe_counter g), er_category = c,
          er_severity = determine_severity (ev_severity ev) c,
          er_summary = CHR ''['' # str_upper (category_value c) @ ''] '' @ take 200 (ev_error ev),
          er_details = format_details (ev_error ev) (ev_component ev) (ev_context ev), er_component = ev_component ev,
          er_stack = (if or_empty (ev_stack ev) \<noteq> [] then ev_stack ev else su_exception su), er_flow = ev_flow ev,
          er_session = map_option (\<lambda>(s, _). fm_summary f s) (oe_session g), er_time = su_now su\<rparr>)"

definition on_error_event ::
  "formats \<Rightarrow> codec \<Rightarrow> surroundings \<Rightarrow> event \<Rightarrow> order_engine \<Rightarrow> order_db \<Rightarrow> int option result \<times> order_engine \<times> order_db" where
  "on_error_event f c su ev g db =
     (if \<not> oe_enabled g then (Inr None, g, db)
      else let g1 = g\<lparr>oe_errors := oe_errors g + 1\<rparr>
      in if context_score ev < 2 then
           (case log_rejected_event su ev g1 db of
              (Inl e, g2, db2) \<Rightarrow> (Inl e, g2, db2)
            | (Inr _, g2, db2) \<Rightarrow> (Inr None, g2, db2))
         else
           let (dup, recent) = is_duplicate (compute_error_hash f (ev_error ev) (ev_component ev)) (su_now su) (oe_recent g1);
               g2 = g1\<lparr>oe_recent := recent\<rparr>
           in if dup then (Inr None, g2, db)
              else let g3 = g2\<lparr>oe_counter := oe_counter g2 + 1\<rparr>;
                       r = make_report f su ev g3;
                       g4 = g3\<lparr>oe_session := map_option (\<lambda>(s, sdb). snd (flush_session c (su_flush su) (su_now su) FrBugDetected s sdb)) (oe_session g3)\<rparr>;
                       (i, db2) = create_work_order f su r db
                   in (Inr (Some i), g4, db2))"

definition data_flow_event :: "string list \<Rightarrow> (string \<times> string) list \<Rightarrow> event" where
  "data_flow_event path ctx =
     \<lparr>ev_error = ''Data flow anomaly detected at step: '' @ (if path = [] then ''unknown'' else last path), ev_type = ''str'',
      ev_component = ''data_flow'', ev_stack = None, ev_flow = path, ev_context = ctx, ev_category = None, ev_severity = Some ''error''\<rparr>"

definition timeout_event :: "formats \<Rightarrow> string \<Rightarrow> rat \<Rightarrow> event" where
  "timeout_event f component d =
     \<lparr>ev_error = ''Timeout in '' @ component @ '': exceeded '' @ fm_float f d @ ''s'', ev_type = ''str'', ev_component = component,
      ev_stack = None, ev_flow = [], ev_context = [(''timeout_duration'', fm_float f d)], ev_category = None,
      ev_severity = Some (if d < 10 then ''warning'' else ''error'')\<rparr>"

definition set_enabled :: "bool \<Rightarrow> order_engine \<Rightarrow> order_engine" where
  "set_enabled on g = g\<lparr>oe_enabled := on\<rparr>"

section \<open>Reading the notes back\<close>

record error_info =
  ei_category :: "string option"
  ei_component :: "string option"
  ei_summary :: "string option"
  ei_stack :: "string option"
  ei_flow :: "string option"

definition no_info :: error_info where
  "no_info = \<lparr>ei_category = None, ei_component = None, ei_summary = None, ei_stack = None, ei_flow = None\<rparr>"

text \<open>\<open>line.split(label, 1)[1].strip()\<close> of a line that starts with the label\<close>

definition after_label :: "string \<Rightarrow> string \<Rightarrow> string" where
  "after_label label line = str_strip (drop (length label) line)"

fun read_lines :: "string list \<Rightarrow> error_info \<Rightarrow> error_info" where
  "read_lines [] info = info"
| "read_lines (l # ls) info = read_lines ls
     (if prefix ''**Category:**'' l then info\<lparr>ei_category := Some (after_label ''**Category:**'' l)\<rparr>
      else if prefix ''**Component:**'' l then info\<lparr>ei_component := Some (after_label ''**Component:**'' l)\<rparr>
      else if prefix ''**Summary:**'' l then info\<lparr>ei_summary := Some (after_label ''**Summary:**'' l)\<rparr>
      else if prefix ''**Stack Trace:**'' l then
        info\<lparr>ei_stack := Some (join [newline] (takeWhile (\<lambda>sl. \<not> (prefix ''**'' sl \<or> prefix ''```'' sl)) ls))\<rparr>
      else if prefix ''**Data Flow Path:**'' l then info\<lparr>ei_flow := Some (case ls of [] \<Rightarrow> [] | x # _ \<Rightarrow> x)\<rparr>
      else info)"

definition extract_error_info :: "string \<Rightarrow> error_info" where
  "extract_error_info notes = (if notes = [] then no_info else read_lines (split_on newline notes) no_info)"


section \<open>One order per window\<close>

text \<open>A sequence of events; the outcome of each is the hash and whether an order was attempted.\<close>

definition made :: "int option result \<Rightarrow> bool" where
  "made r = (case r of Inr (Some _) \<Rightarrow> True | _ \<Rightarrow> False)"

fun run_events ::
  "formats \<Rightarrow> codec \<Rightarrow> (surroundings \<times> event) list \<Rightarrow> order_engine \<Rightarrow> order_db \<Rightarrow> (rat \<times> string \<times> bool) list \<times> order_engine \<times> order_db" where
  "run_events f c [] g db = ([], g, db)"
| "run_events f c ((su, ev) # es) g db =
     (let (r, g1, db1) = on_error_event f c su ev g db; (out, rest) = run_events f c es g1 db1
      in ((su_now su, compute_error_hash f (ev_error ev) (ev_component ev), made r) # out, rest))"

lemma row_at_filter_some: "row_at h t = Some v \<Longrightarrow> P (h, v) \<Longrightarrow> row_at h (filter P t) = Some v"
  by (induction t) (auto simp: row_at_def split: if_splits)

lemma row_at_dict_set: "row_at k' (dict_set k v d) = (if k' = k then Some v else row_at k' d)"
  by (rule dict.get_put)

text \<open>A hash that was first seen within the window is a duplicate and keeps the time it was first seen.\<close>

lemma duplicate_keeps:
  assumes "row_at h recent = Some (n, t)" and "now - t < DEDUP_WINDOW"
  shows "\<exists>m. row_at h (snd (is_duplicate k now recent)) = Some (m, t)"
proof -
  let ?kept = "filter (\<lambda>(_, _, t). now - t < DEDUP_WINDOW) recent"
  have kept: "row_at h ?kept = Some (n, t)" using assms by (intro row_at_filter_some) simp_all
  show ?thesis
  proof (cases "k = h")
    case True
    then show ?thesis using kept by (simp add: is_duplicate_def row_at_dict_set)
  next
    case False
    then show ?thesis using kept by (simp add: is_duplicate_def row_at_dict_set split: option.splits prod.splits)
  qed
qed

lemma duplicate_seen:
  assumes "row_at h recent = Some (n, t)" and "now - t < DEDUP_WINDOW"
  shows "fst (is_duplicate h now recent)"
proof -
  have "row_at h (filter (\<lambda>(_, _, t). now - t < DEDUP_WINDOW) recent) = Some (n, t)"
    using assms by (intro row_at_filter_some) simp_all
  then show ?thesis by (simp add: is_duplicate_def)
qed

lemma new_is_recorded: "\<not> fst (is_duplicate h now recent) \<Longrightarrow> row_at h (snd (is_duplicate h now recent)) = Some (1, now)"
  by (auto simp: is_duplicate_def row_at_dict_set Let_def split: option.splits)

lemma event_recent:
  "oe_recent (fst (snd (on_error_event f c su ev g db))) =
     (if oe_enabled g \<and> \<not> context_score ev < 2
      then snd (is_duplicate (compute_error_hash f (ev_error ev) (ev_component ev)) (su_now su) (oe_recent g)) else oe_recent g)"
  by (auto simp: on_error_event_def log_rejected_event_def Let_def split: prod.splits)

lemma event_enabled: "oe_enabled (fst (snd (on_error_event f c su ev g db))) = oe_enabled g"
  by (auto simp: on_error_event_def log_rejected_event_def Let_def split: prod.splits)

lemma event_attempts:
  "made (fst (on_error_event f c su ev g db)) \<longleftrightarrow>
     oe_enabled g \<and> \<not> context_score ev < 2 \<and>
     \<not> fst (is_duplicate (compute_error_hash f (ev_error ev) (ev_component ev)) (su_now su) (oe_recent g))"
  by (auto simp: made_def on_error_event_def log_rejected_event_def Let_def split: prod.splits)

lemma seen_blocks:
  assumes "row_at h (oe_recent g) = Some (n, t)" and "out = fst (run_events f c es g db)" and "j < length out"
    and "out ! j = (u, h, True)" and "\<forall>i\<le>j. fst (out ! i) \<le> u"
  shows "DEDUP_WINDOW \<le> u - t"
  using assms
proof (induction es arbitrary: g db n out j)
  case Nil
  then show ?case by simp
next
  case (Cons e es)
  obtain su ev where e: "e = (su, ev)" by (cases e)
  obtain r g1 db1 where st: "on_error_event f c su ev g db = (r, g1, db1)" by (cases "on_error_event f c su ev g db")
  let ?k = "compute_error_hash f (ev_error ev) (ev_component ev)"
  let ?out1 = "fst (run_events f c es g1 db1)"
  have out: "out = (su_now su, ?k, made r) # ?out1"
    using Cons.prems(2) by (simp add: e st split: prod.split)
  have now: "su_now su \<le> u" using Cons.prems(5) out by (auto dest: spec [of _ 0])
  show ?case
  proof (rule ccontr)
    assume "\<not> ?thesis"
    then have soon: "su_now su - t < DEDUP_WINDOW" "u - t < DEDUP_WINDOW" using now by simp_all
    obtain m where kept: "row_at h (oe_recent g1) = Some (m, t)"
      using duplicate_keeps [OF Cons.prems(1) soon(1), of ?k] Cons.prems(1) event_recent [of f c su ev g db] st
      by (auto split: if_splits)
    show False
    proof (cases j)
      case 0
      then have "su_now su = u" "?k = h" "made r" using Cons.prems(4) out by auto
      then have "\<not> fst (is_duplicate h u (oe_recent g))" using event_attempts [of f c su ev g db] st by simp
      then show False using duplicate_seen [OF Cons.prems(1) soon(2)] by simp
    next
      case (Suc j')
      have "\<forall>i\<le>j'. fst (?out1 ! i) \<le> u" using Cons.prems(5) out Suc by (metis Suc_le_mono nth_Cons_Suc)
      then have "DEDUP_WINDOW \<le> u - t"
        by (intro Cons.IH [OF kept refl, of j']) (use Cons.prems(3,4) out Suc in simp_all)
      then show False using soon by simp
    qed
  qed
qed

text \<open>C13: Deduplication leaves one order per error and window.  In any sequence of events whose times do
  not decrease, two that lead to a work order for the same hash of component and error are at least 300
  seconds apart, whatever came between, and also when the first order could not be written.\<close>

theorem one_order_per_window:
  assumes "out = fst (run_events f c es g db)" and "sorted (map fst out)"
    and "i < j" and "j < length out" and "out ! i = (t, h, True)" and "out ! j = (u, h, True)"
  shows "DEDUP_WINDOW \<le> u - t"
  using assms
proof (induction es arbitrary: g db out i j)
  case Nil
  then show ?case by simp
next
  case (Cons e es)
  obtain su ev where e: "e = (su, ev)" by (cases e)
  obtain r g1 db1 where st: "on_error_event f c su ev g db = (r, g1, db1)" by (cases "on_error_event f c su ev g db")
  let ?k = "compute_error_hash f (ev_error ev) (ev_component ev)"
  let ?out1 = "fst (run_events f c es g1 db1)"
  have out: "out = (su_now su, ?k, made r) # ?out1"
    using Cons.prems(1) by (simp add: e st split: prod.split)
  obtain j' where j: "j = Suc j'" using Cons.prems(3) by (cases j) simp_all
  show ?case
  proof (cases i)
    case (Suc i')
    show ?thesis
      by (rule Cons.IH [OF refl, of g1 db1 i' j']) (use Cons.prems(2-6) out j Suc in simp_all)
  next
    case 0
    then have "su_now su = t" "?k = h" "made r" using Cons.prems(5) out by auto
    then have "\<not> fst (is_duplicate h t (oe_recent g))" "oe_recent g1 = snd (is_duplicate h t (oe_recent g))"
      using event_attempts [of f c su ev g db] event_recent [of f c su ev g db] st by auto
    then have seen: "row_at h (oe_recent g1) = Some (1, t)" using new_is_recorded by simp
    have at: "?out1 ! j' = (u, h, True)" and len: "j' < length ?out1" and srt: "sorted (map fst ?out1)"
      using Cons.prems(2,4,6) out j by simp_all
    have "fst (?out1 ! k) \<le> u" if "k \<le> j'" for k
      using sorted_nth_mono [OF srt that] len at that by simp
    then show ?thesis by (intro seen_blocks [OF seen refl len at]) blast
  qed
qed

definition plain_formats :: formats where
  "plain_formats = \<lparr>fm_md5 = (\<lambda>s. s), fm_time = (\<lambda>_. ''T''), fm_summary = (\<lambda>_. ''{}''), fm_float = (\<lambda>_. ''1.0'')\<rparr>"

definition calm :: "rat \<Rightarrow> surroundings" where
  "calm t = \<lparr>su_now = t, su_exception = None, su_flush = NoFault, su_log_fails = False, su_order_fails = False, su_mode_fails = False\<rparr>"

definition sample_event :: event where
  "sample_event = \<lparr>ev_error = ''disk full'', ev_type = ''str'', ev_component = ''store'', ev_stack = None, ev_flow = [],
     ev_context = [], ev_category = None, ev_severity = None\<rparr>"

definition empty_orders :: order_db where
  "empty_orders = \<lparr>od_orders = [], od_next = 1, od_noise = [], od_auto_mode = False\<rparr>"

theorem one_order_per_window_witness:
  "(let out = fst (run_events plain_formats sample_codec [(calm 0, sample_event), (calm 10, sample_event), (calm 300, sample_event)]
              (new_engine True None) empty_orders)
    in map (\<lambda>(_, _, made). made) out = [True, False, True] \<and> DEDUP_WINDOW \<le> (300 - 0 :: rat))"
proof -
  let ?out = "fst (run_events plain_formats sample_codec [(calm 0, sample_event), (calm 10, sample_event), (calm 300, sample_event)]
              (new_engine True None) empty_orders)"
  have out: "?out = [(0, ''store:disk full'', True), (10, ''store:disk full'', False), (300, ''store:disk full'', True)]"
    by code_simp
  have "DEDUP_WINDOW \<le> (300 :: rat) - 0"
    by (rule one_order_per_window [where i = 0 and j = 2, OF out [symmetric]]) simp_all
  then show ?thesis by (simp only: Let_def out) simp
qed


section \<open>What the notes give back\<close>

lemma split_on_sep: "split_on d (a @ d # b) = split_on d a @ split_on d b"
proof (induction a)
  case (Cons x a)
  then show ?case by (cases "split_on d a") (auto simp: split_on_nonempty)
qed simp

lemma split_on_parts: "ps \<noteq> [] \<Longrightarrow> split_on d (join [d] ps) = concat (map (split_on d) ps)"
  by (induction "[d]" ps rule: join.induct) (simp_all add: split_on_sep)

lemma read_lines_plain:
  "\<forall>l\<in>set xs. \<not> prefix ''**'' l \<Longrightarrow> read_lines (xs @ ys) info = read_lines ys info"
  by (induction xs) (auto simp: prefix_def)

lemma str_strip_space: "str_strip (CHR '' '' # s) = str_strip s"
  by (simp add: str_strip_def strip_if_def py_space_def)

definition plain_lines :: "string \<Rightarrow> bool" where
  "plain_lines s = list_all (\<lambda>l. \<not> prefix ''**'' l) (split_on newline s)"

lemma plain_lines_skip: "plain_lines s \<Longrightarrow> read_lines (split_on newline s @ ys) info = read_lines ys info"
  by (rule read_lines_plain) (simp add: plain_lines_def list_all_iff)

text \<open>A single line with a label.\<close>

lemma split_line: "newline \<notin> set s \<Longrightarrow> newline \<notin> set l \<Longrightarrow> split_on newline (l @ s) = [l @ s]"
  by (rule split_on_plain) simp

lemma category_text: "newline \<notin> set (category_value c)" "str_strip (category_value c) = category_value c"
  by (cases c; simp add: category_value_def newline_def str_strip_def strip_if_def py_space_def)+

lemma severity_text: "newline \<notin> set (str_int (severity_value s))"
  using str_int_no_space [of newline] by (auto simp: newline_def py_space_def)

lemma read_category_line: "read_lines ((''**Category:** '' @ s) # ls) info = read_lines ls (info\<lparr>ei_category := Some (str_strip s)\<rparr>)"
  by (simp add: after_label_def str_strip_space)

lemma read_component_line: "read_lines ((''**Component:** '' @ s) # ls) info = read_lines ls (info\<lparr>ei_component := Some (str_strip s)\<rparr>)"
  by (simp add: after_label_def str_strip_space)

lemma read_summary_line: "read_lines ((''**Summary:** '' @ s) # ls) info = read_lines ls (info\<lparr>ei_summary := Some (str_strip s)\<rparr>)"
  by (simp add: after_label_def str_strip_space)

lemma read_other_line:
  "read_lines ((''**Error ID:** '' @ s) # ls) info = read_lines ls info"
  "read_lines ((''**Severity:** '' @ s) # ls) info = read_lines ls info"
  "read_lines (''**Details:**'' # ls) info = read_lines ls info"
  "read_lines (''**Session State:**'' # ls) info = read_lines ls info"
  "read_lines (''## Auto-Generated Error Report'' # ls) info = read_lines ls info"
  "read_lines ([] # ls) info = read_lines ls info"
  "read_lines (''```'' # ls) info = read_lines ls info"
  "read_lines (''```json'' # ls) info = read_lines ls info"
  by simp_all

text \<open>The fence opens right below the label of the stack trace, which ends the trace before its first line.\<close>

lemma read_stack_line: "read_lines (''**Stack Trace:**'' # ''```'' # ls) info = read_lines ls (info\<lparr>ei_stack := Some []\<rparr>)"
  by simp

lemma read_flow_line: "read_lines (''**Data Flow Path:**'' # l # ls) info = read_lines (l # ls) (info\<lparr>ei_flow := Some l\<rparr>)"
  by simp

definition head_parts :: "report \<Rightarrow> string list" where
  "head_parts r =
     [''## Auto-Generated Error Report'', ''**Error ID:** '' @ er_id r, ''**Category:** '' @ category_value (er_category r),
      ''**Severity:** '' @ str_int (severity_value (er_severity r)), ''**Component:** '' @ er_component r,
      ''**Summary:** '' @ er_summary r, ''**Details:**'', er_details r]"

definition stack_parts :: "report \<Rightarrow> string list" where
  "stack_parts r = (if or_empty (er_stack r) = [] then []
     else [newline # ''**Stack Trace:**'', ''```'', take 2000 (or_empty (er_stack r)), ''```''])"

definition flow_parts :: "report \<Rightarrow> string list" where
  "flow_parts r = (if er_flow r = [] then [] else [newline # ''**Data Flow Path:**'', join '' -> '' (er_flow r)])"

definition session_parts :: "report \<Rightarrow> string list" where
  "session_parts r = (case er_session r of None \<Rightarrow> [] | Some j \<Rightarrow> [newline # ''**Session State:**'', ''```json'', j, ''```''])"

definition lines_of :: "string list \<Rightarrow> string list" where
  "lines_of ps = concat (map (split_on newline) ps)"

lemma notes_lines: "split_on newline (order_notes r) = lines_of (head_parts r) @ lines_of (stack_parts r) @ lines_of (flow_parts r) @ lines_of (session_parts r)"
proof -
  have parts: "note_parts r = head_parts r @ stack_parts r @ flow_parts r @ session_parts r"
    by (simp only: note_parts_def head_parts_def stack_parts_def flow_parts_def session_parts_def)
  have "note_parts r \<noteq> []" by (simp only: parts head_parts_def append_Cons list.distinct not_False_eq_True)
  then have "split_on newline (order_notes r) = concat (map (split_on newline) (note_parts r))"
    unfolding order_notes_def by (rule split_on_parts)
  then show ?thesis unfolding parts lines_of_def by (simp only: map_append concat_append)
qed


lemma label_lines:
  assumes "newline \<notin> set s"
  shows "split_on newline (''**Error ID:** '' @ s) = [''**Error ID:** '' @ s]"
    "split_on newline (''**Category:** '' @ s) = [''**Category:** '' @ s]"
    "split_on newline (''**Severity:** '' @ s) = [''**Severity:** '' @ s]"
    "split_on newline (''**Component:** '' @ s) = [''**Component:** '' @ s]"
    "split_on newline (''**Summary:** '' @ s) = [''**Summary:** '' @ s]"
  by (rule split_line [OF assms], simp add: newline_def)+

lemma fixed_lines:
  "split_on newline ''## Auto-Generated Error Report'' = [''## Auto-Generated Error Report'']"
  "split_on newline ''**Details:**'' = [''**Details:**'']"
  by (rule split_on_plain, simp add: newline_def)+

lemma read_head:
  assumes "newline \<notin> set (er_id r)" and "newline \<notin> set (er_component r)" and "newline \<notin> set (er_summary r)" and "plain_lines (er_details r)"
  shows "read_lines (lines_of (head_parts r) @ ls) info = read_lines ls (info\<lparr>ei_category := Some (category_value (er_category r)),
    ei_component := Some (str_strip (er_component r)), ei_summary := Some (str_strip (er_summary r))\<rparr>)"
proof -
  have "lines_of (head_parts r) @ ls =
    ''## Auto-Generated Error Report'' # (''**Error ID:** '' @ er_id r) # (''**Category:** '' @ category_value (er_category r)) #
      (''**Severity:** '' @ str_int (severity_value (er_severity r))) # (''**Component:** '' @ er_component r) #
      (''**Summary:** '' @ er_summary r) # ''**Details:**'' # (split_on newline (er_details r) @ ls)"
    unfolding lines_of_def head_parts_def list.map label_lines [OF assms(1)] label_lines [OF assms(2)] label_lines [OF assms(3)]
      label_lines [OF category_text(1)] label_lines [OF severity_text] fixed_lines
    by simp
  then show ?thesis
    unfolding read_other_line read_category_line read_component_line read_summary_line category_text
    by (simp only: read_other_line read_category_line read_component_line read_summary_line category_text plain_lines_skip [OF assms(4)])
qed

lemma read_stack:
  assumes "plain_lines (take 2000 (or_empty (er_stack r)))"
  shows "read_lines (lines_of (stack_parts r) @ ls) info =
    read_lines ls (if or_empty (er_stack r) = [] then info else info\<lparr>ei_stack := Some []\<rparr>)"
proof (cases "or_empty (er_stack r) = []")
  case False
  then have "lines_of (stack_parts r) =
      [] # ''**Stack Trace:**'' # ''```'' # split_on newline (take 2000 (or_empty (er_stack r))) @ [''```'']"
    unfolding lines_of_def stack_parts_def
    by (simp add: split_on_plain newline_def split_on_append [of newline "[]", simplified, unfolded newline_def])
  then show ?thesis using False plain_lines_skip [OF assms]
    by (simp only: append_Cons append_Nil append_assoc read_other_line read_stack_line if_False)
qed (simp add: stack_parts_def lines_of_def)

lemma read_flow:
  assumes "newline \<notin> set (join '' -> '' (er_flow r))" and "\<not> prefix ''**'' (join '' -> '' (er_flow r))"
  shows "read_lines (lines_of (flow_parts r) @ ls) info =
    read_lines ls (if er_flow r = [] then info else info\<lparr>ei_flow := Some (join '' -> '' (er_flow r))\<rparr>)"
proof (cases "er_flow r = []")
  case False
  let ?j = "join '' -> '' (er_flow r)"
  have "lines_of (flow_parts r) = [] # ''**Data Flow Path:**'' # [?j]"
    using False assms(1) unfolding lines_of_def flow_parts_def
    by (simp add: split_on_plain newline_def)
  then have "read_lines (lines_of (flow_parts r) @ ls) info = read_lines (?j # ls) (info\<lparr>ei_flow := Some ?j\<rparr>)"
    by (simp only: append_Cons append_Nil read_other_line read_flow_line)
  also have "\<dots> = read_lines ls (info\<lparr>ei_flow := Some ?j\<rparr>)" using read_lines_plain [of "[?j]"] assms(2) by simp
  finally show ?thesis using False by simp
qed (simp add: flow_parts_def lines_of_def)

lemma read_session:
  assumes "plain_lines (or_empty (er_session r))"
  shows "read_lines (lines_of (session_parts r)) info = info"
proof (cases "er_session r")
  case (Some j)
  then have "lines_of (session_parts r) = [] # ''**Session State:**'' # ''```json'' # split_on newline j @ [''```'']"
    unfolding lines_of_def session_parts_def by (simp add: split_on_plain newline_def)
  moreover have "plain_lines j" using assms Some by (simp add: or_empty_def)
  ultimately show ?thesis using plain_lines_skip [of j "[''```'']" info]
    by (simp only: read_other_line read_lines.simps(1))
qed (simp add: session_parts_def lines_of_def)


definition sample_report :: report where
  "sample_report = \<lparr>er_id = ''ERR-7-0001'', er_category = Resource, er_severity = Critical, er_summary = ''[RESOURCE] disk full'',
     er_details = ''Component: store'' @ newline # ''Error: disk full'', er_component = ''store '', er_stack = Some ''line 3'',
     er_flow = [''read'', ''write''], er_session = None, er_time = 7\<rparr>"



end
