(* ===== verification/DeepHealing.thy ===== *)
theory DeepHealing
  imports DeepOrders
begin

text \<open>
  The healing agent of the DeepSky client, \<open>SCRIPTS/CLIENTS/deepsky_client/healing_agent.py\<close>: the
  limits on nesting and chains, the conversation with the model, the handling of one work order with its
  retries, and the polling.  The model's replies, the tools' results, the prompts, the clock and the
  faults of SQLite are functions of the number of the request or reading; \<open>hl_chats\<close> counts the requests
  to the model, \<open>hl_tick\<close> the other calls.
\<close>

section \<open>Depth and chain\<close>

definition MAX_AGENT_DEPTH :: nat where
  "MAX_AGENT_DEPTH = 2"

definition MAX_CHAIN_LENGTH :: nat where
  "MAX_CHAIN_LENGTH = 10"

definition MAX_CHAIN_DEPTH :: nat where
  "MAX_CHAIN_DEPTH = 2"

record tracker =
  tk_depth :: nat
  tk_chain :: nat
  tk_stack :: "string list"

definition new_tracker :: tracker where
  "new_tracker = \<lparr>tk_depth = 0, tk_chain = 0, tk_stack = []\<rparr>"

definition can_spawn :: "tracker \<Rightarrow> bool" where
  "can_spawn k = (\<not> tk_depth k + 1 > MAX_AGENT_DEPTH)"

definition can_chain :: "tracker \<Rightarrow> bool" where
  "can_chain k = (if tk_chain k \<ge> MAX_CHAIN_LENGTH then False else if tk_depth k \<ge> MAX_CHAIN_DEPTH then False else True)"

definition enter :: "string \<Rightarrow> tracker \<Rightarrow> bool \<times> tracker" where
  "enter sid k = (if \<not> can_spawn k then (False, k) else (True, k\<lparr>tk_depth := tk_depth k + 1, tk_stack := tk_stack k @ [sid]\<rparr>))"

definition mark_chain_step :: "tracker \<Rightarrow> bool \<times> tracker" where
  "mark_chain_step k = (if tk_chain k \<ge> MAX_CHAIN_LENGTH then (False, k) else (True, k\<lparr>tk_chain := tk_chain k + 1\<rparr>))"

definition leave :: "string \<Rightarrow> tracker \<Rightarrow> tracker" where
  "leave sid k =
     (if tk_stack k \<noteq> [] \<and> last (tk_stack k) = sid then k\<lparr>tk_stack := butlast (tk_stack k), tk_depth := tk_depth k - 1\<rparr> else k)"

definition reset_chain_count :: "tracker \<Rightarrow> tracker" where
  "reset_chain_count k = k\<lparr>tk_chain := 0\<rparr>"

section \<open>Confidence\<close>

datatype risk = DepthExceeded | ChainConstraint | ToolOverlap "string list" | DomainOverlap "string list" | ModifiesState | ConcurrentDatabase

datatype confidence = Approved | Refused "risk list"

record op_context =
  oc_tools :: "string list"
  oc_active_tools :: "string list"
  oc_domains :: "string list"
  oc_active_domains :: "string list"
  oc_modifies :: bool
  oc_database :: bool
  oc_db_sessions :: int

definition overlap :: "string list \<Rightarrow> string list \<Rightarrow> string list" where
  "overlap xs ys = remdups (filter (\<lambda>x. x \<in> set ys) xs)"

definition analyze_interference_risk :: "op_context option \<Rightarrow> risk list" where
  "analyze_interference_risk ctx =
     (case ctx of
        None \<Rightarrow> []
      | Some x \<Rightarrow>
          (let tools = overlap (oc_tools x) (oc_active_tools x); domains = overlap (oc_domains x) (oc_active_domains x)
           in (if tools \<noteq> [] then [ToolOverlap tools] else []) @ (if domains \<noteq> [] then [DomainOverlap domains] else []) @
              (if oc_modifies x then [ModifiesState] else []) @
              (if oc_database x \<and> oc_db_sessions x > 0 then [ConcurrentDatabase] else [])))"

definition validate_confidence :: "string \<Rightarrow> op_context option \<Rightarrow> tracker \<Rightarrow> confidence" where
  "validate_confidence op ctx k =
     (if op = ''spawn_sub_agent'' then
        (if \<not> can_spawn k then Refused [DepthExceeded]
         else if tk_depth k + 1 > 1 \<and> analyze_interference_risk ctx \<noteq> [] then Refused (analyze_interference_risk ctx)
         else Approved)
      else if op = ''chain_work_order'' then
        (if \<not> can_chain k then Refused [ChainConstraint]
         else if analyze_interference_risk ctx \<noteq> [] then Refused (analyze_interference_risk ctx)
         else Approved)
      else Refused [])"

section \<open>The conversation\<close>

text \<open>A call as the client reads it: the arguments are those of \<open>json.loads\<close>, empty when it fails.\<close>

record tool_call =
  tc_id :: string
  tc_name :: string
  tc_args :: "(string \<times> pyval) list"

datatype message =
    SystemMsg string
  | UserMsg string
  | AssistantMsg string
  | CallMsg "string option" "tool_call list"
  | ToolMsg string string string

datatype reply = Reply bool "string option" "string option" "tool_call list" | ReplyTimeout | ReplyRaises string

datatype tool_outcome = ToolAnswer "string option" "string option" | ToolRaises string

record healing_env =
  he_chat :: "nat \<Rightarrow> message list \<Rightarrow> reply"
  he_tool :: "nat \<Rightarrow> tool_call \<Rightarrow> tool_outcome"
  he_prompt :: "nat \<Rightarrow> work_order \<Rightarrow> string option result"
  he_error :: "py_error \<Rightarrow> string"
  he_clock :: "nat \<Rightarrow> rat"
  he_stamp :: "nat \<Rightarrow> string"
  he_flush :: "nat \<Rightarrow> sql_fault"
  he_db_fails :: "nat \<Rightarrow> bool"
  he_codec :: codec
  he_api :: bool
  he_threshold :: int

definition tool_text :: "tool_outcome \<Rightarrow> string" where
  "tool_text r = (case r of
     ToolRaises e \<Rightarrow> ''EXCEPTION: '' @ take 500 e
   | ToolAnswer res err \<Rightarrow>
       take 2000 (if or_empty err \<noteq> [] then ''ERROR: '' @ or_empty err else if or_empty res \<noteq> [] then or_empty res else ''No result''))"

text \<open>The tools of one reply in order, with the number of those that returned; a call without a name is
  passed over.\<close>

fun run_tools :: "healing_env \<Rightarrow> tool_call list \<Rightarrow> message list \<Rightarrow> nat \<Rightarrow> nat \<Rightarrow> message list \<times> nat \<times> nat" where
  "run_tools env [] ms k t = (ms, k, t)"
| "run_tools env (tc # tcs) ms k t =
     (if tc_name tc = [] then run_tools env tcs ms k t
      else let r = he_tool env t tc
           in run_tools env tcs (ms @ [ToolMsg (tc_id tc) (tc_name tc) (tool_text r)])
                (case r of ToolRaises _ \<Rightarrow> k | ToolAnswer _ _ \<Rightarrow> k + 1) (t + 1))"

definition says :: "string list \<Rightarrow> string \<Rightarrow> bool" where
  "says ks content = (content \<noteq> [] \<and> has_any ks (str_upper content))"

datatype fix_end = FixDone string | FixFailed "string option" | FixTimeout nat | FixExhausted

definition CONTINUE_TEXT :: string where
  "CONTINUE_TEXT = ''Continue. Report TASK COMPLETE when done.''"

definition TOO_MANY_TEXT :: string where
  "TOO_MANY_TEXT = ''Too many tool calls. Summarize and report TASK COMPLETE.''"

text \<open>The loop of \<open>_spawn_fix_session\<close>, the number of iterations left first.  The message with the calls
  comes after their results.\<close>

fun fix_loop :: "healing_env \<Rightarrow> nat \<Rightarrow> message list \<Rightarrow> nat \<Rightarrow> nat \<Rightarrow> nat \<Rightarrow> fix_end \<times> message list \<times> nat \<times> nat" where
  "fix_loop env 0 ms k n t = (FixExhausted, ms, n, t)"
| "fix_loop env (Suc left) ms k n t =
     (case he_chat env n ms of
        ReplyTimeout \<Rightarrow> (FixTimeout (14 - left), ms, n + 1, t)
      | ReplyRaises e \<Rightarrow> (FixFailed (Some e), ms, n + 1, t)
      | Reply success err content calls \<Rightarrow>
          if \<not> success then (FixFailed err, ms, n + 1, t)
          else let c = or_empty content in
            if calls = [] then
              (if says [''TASK COMPLETE'', ''FIX COMPLETE'', ''COMPLETED''] c then (FixDone (take 500 c), ms, n + 1, t)
               else fix_loop env left (ms @ [AssistantMsg c, UserMsg CONTINUE_TEXT]) k (n + 1) t)
            else
              let (ms1, k1, t1) = run_tools env calls ms k t;
                  ms2 = ms1 @ [CallMsg (if c = [] then None else Some c) calls];
                  ms3 = (if k1 > 50 then ms2 @ [UserMsg TOO_MANY_TEXT] else ms2)
              in fix_loop env left ms3 k1 (n + 1) t1)"

datatype sub_result = SubOk string | SubFails string

fun sub_loop :: "healing_env \<Rightarrow> nat \<Rightarrow> message list \<Rightarrow> nat \<Rightarrow> nat \<Rightarrow> nat \<Rightarrow> sub_result \<times> nat \<times> nat" where
  "sub_loop env 0 ms k n t = (SubOk ''Max iterations reached'', n, t)"
| "sub_loop env (Suc left) ms k n t =
     (case he_chat env n ms of
        ReplyTimeout \<Rightarrow> (SubFails (''Sub-agent timeout at iteration '' @ str_int (int (7 - left))), n + 1, t)
      | ReplyRaises e \<Rightarrow> (SubFails (take 500 e), n + 1, t)
      | Reply success err content calls \<Rightarrow>
          if \<not> success then (SubFails (or_empty err), n + 1, t)
          else let c = or_empty content in
            if calls = [] then
              (if says [''TASK COMPLETE'', ''FIX COMPLETE'', ''DONE''] c then (SubOk c, n + 1, t)
               else sub_loop env left (ms @ [AssistantMsg c, UserMsg CONTINUE_TEXT]) k (n + 1) t)
            else
              let (ms1, k1, t1) = run_tools env calls ms k t
              in sub_loop env left (ms1 @ [CallMsg (if c = [] then None else Some c) calls]) k1 (n + 1) t1)"

section \<open>The agent\<close>

datatype agent_status = Running | Completed | Failed | TimedOut

record agent_session =
  as_order :: nat
  as_depth :: nat
  as_status :: agent_status
  as_attempts :: int
  as_result :: "string option"
  as_error :: "string option"

record healer =
  hl_tracker :: tracker
  hl_active :: "(string, agent_session) table"
  hl_session :: "(session \<times> session_db) option"
  hl_orders :: "work_order list"
  hl_chats :: nat
  hl_tick :: nat

definition SEVERITY_KEYWORDS :: "string list" where
  "SEVERITY_KEYWORDS = [''error'', ''warn'', ''bug'', ''crash'', ''critical'', ''fail'', ''failed'', ''failure'', ''failing'',
     ''exception'', ''fatal'', ''panic'', ''corrupt'', ''missing'', ''broken'', ''regression'']"

text \<open>The log line slices the description, which fails when there is none.\<close>

definition is_error_or_warn :: "work_order \<Rightarrow> bool result" where
  "is_error_or_warn w =
     (if has_any SEVERITY_KEYWORDS (str_lower (or_empty (wo_description w)) @ '' '' @ str_lower (or_empty (wo_notes w))) then Inr True
      else if wo_description w = None then Inl TypeError else Inr False)"

definition append_notes :: "string \<Rightarrow> string \<Rightarrow> string option \<Rightarrow> string option" where
  "append_notes stamp text notes =
     Some (if or_empty notes = [] then text
           else or_empty notes @ [newline, newline] @ ''[Healing Agent '' @ stamp @ '']: '' @ text)"

definition update_order :: "nat \<Rightarrow> (work_order \<Rightarrow> work_order) \<Rightarrow> work_order list \<Rightarrow> work_order list" where
  "update_order i f = map (\<lambda>w. if wo_id w = i then f w else w)"

definition update_status :: "healing_env \<Rightarrow> nat \<Rightarrow> string \<Rightarrow> string option \<Rightarrow> healer \<Rightarrow> healer" where
  "update_status env i status text h =
     (let t = hl_tick h; h1 = h\<lparr>hl_tick := t + 1\<rparr>
      in if he_db_fails env t then h1
         else h1\<lparr>hl_orders := update_order i (\<lambda>w. w\<lparr>wo_status := status,
                wo_notes := (if or_empty text = [] then wo_notes w else append_notes (he_stamp env t) (or_empty text) (wo_notes w))\<rparr>)
                (hl_orders h)\<rparr>)"

definition escalate :: "healing_env \<Rightarrow> nat \<Rightarrow> healer \<Rightarrow> healer" where
  "escalate env i h =
     (let t = hl_tick h; h1 = h\<lparr>hl_tick := t + 1\<rparr>
      in if he_db_fails env t then h1
         else h1\<lparr>hl_orders := update_order i (\<lambda>w. w\<lparr>wo_priority := 1, wo_notes := Some (if or_empty (wo_notes w) = []
                  then ''ESCALATED: Too many recovery attempts''
                  else or_empty (wo_notes w) @ [newline, newline] @ ''**ESCALATED:** Too many recovery attempts'')\<rparr>) (hl_orders h)\<rparr>)"

definition flush_healer :: "healing_env \<Rightarrow> string \<Rightarrow> healer \<Rightarrow> healer" where
  "flush_healer env reason h =
     (case hl_session h of
        None \<Rightarrow> h
      | Some (s, db) \<Rightarrow> h\<lparr>hl_session := Some (snd (flush_session (he_codec env) (he_flush env (hl_tick h)) (he_clock env (hl_tick h))
             (to_flush_reason reason) s db)), hl_tick := hl_tick h + 1\<rparr>)"

text \<open>The order's id is passed as the checkpoint's; ids of orders begin at 1.\<close>

definition recover_session :: "healing_env \<Rightarrow> nat \<Rightarrow> healer \<Rightarrow> bool \<times> healer" where
  "recover_session env i h =
     (case hl_session h of
        None \<Rightarrow> (False, h)
      | Some (s, db) \<Rightarrow>
          let r = restore_from_checkpoint (he_codec env) (he_clock env (hl_tick h)) (Some i) s db
          in (ok (fst r), h\<lparr>hl_session := Some (snd r), hl_tick := hl_tick h + 1\<rparr>))"

definition set_active :: "string \<Rightarrow> (agent_session \<Rightarrow> agent_session) \<Rightarrow> healer \<Rightarrow> healer" where
  "set_active sid f h = h\<lparr>hl_active := update_row sid f (hl_active h)\<rparr>"

definition fix_messages :: "string \<Rightarrow> nat \<Rightarrow> message list" where
  "fix_messages prompt i = [SystemMsg prompt, UserMsg (''Please investigate and fix work order #'' @ str_int (int i) @
     ''. You have REAL tool access - use read_files, write_file, edit_text, database_query, execute_command, etc. to investigate and fix the issue. When done, say: TASK COMPLETE: <summary>'')]"

definition spawn_fix_session :: "healing_env \<Rightarrow> string \<Rightarrow> string \<Rightarrow> nat \<Rightarrow> healer \<Rightarrow> bool \<times> healer" where
  "spawn_fix_session env sid prompt i h =
     (if \<not> he_api env then (False, h)
      else let h1 = flush_healer env ''healing_agent_spawned'' h;
               (e, ms, n, t) = fix_loop env 15 (fix_messages prompt i) 0 (hl_chats h1) (hl_tick h1);
               h2 = h1\<lparr>hl_chats := n, hl_tick := t\<rparr>
           in (case e of
                 FixDone r \<Rightarrow> (True, set_active sid (\<lambda>a. a\<lparr>as_result := Some r\<rparr>) h2)
               | FixFailed err \<Rightarrow> (False, set_active sid (\<lambda>a. a\<lparr>as_error := err\<rparr>) h2)
               | FixTimeout j \<Rightarrow> (False, set_active sid (\<lambda>a. a\<lparr>as_status := TimedOut, as_error := Some (''Timeout at iteration '' @ str_int (int j))\<rparr>) h2)
               | FixExhausted \<Rightarrow> (False, set_active sid (\<lambda>a. a\<lparr>as_result := Some ''Max iterations reached without completion''\<rparr>) h2)))"

section \<open>Handling an order\<close>

datatype attempt = Finished bool | Again

definition after_exception :: "healing_env \<Rightarrow> string \<Rightarrow> nat \<Rightarrow> string \<Rightarrow> healer \<Rightarrow> attempt \<times> healer" where
  "after_exception env sid i e h =
     (let h1 = set_active sid (\<lambda>a. a\<lparr>as_status := Failed, as_error := Some e\<rparr>) h;
          h2 = (if hl_session h1 = None then h1 else snd (recover_session env i h1))
      in (Finished False, update_status env i ''pending'' (Some (''Error: '' @ take 200 e)) h2))"

text \<open>The body of the inner \<open>try\<close>; \<open>Again\<close> is the recursive call.  The number of attempts is that of this
  session object, which is new in every call.\<close>

definition attempt_fix :: "healing_env \<Rightarrow> string \<Rightarrow> work_order \<Rightarrow> healer \<Rightarrow> attempt \<times> healer" where
  "attempt_fix env sid w h =
     (case is_error_or_warn w of
        Inl e \<Rightarrow> after_exception env sid (wo_id w) (he_error env e) h
      | Inr False \<Rightarrow>
          (Finished True, update_status env (wo_id w) ''completed'' (Some ''Skipped by healing agent: not error/warn related [AUTO-SKIP]'') h)
      | Inr True \<Rightarrow>
          let h1 = update_status env (wo_id w) ''in-progress'' None h;
              h2 = h1\<lparr>hl_tick := hl_tick h1 + 1\<rparr>
          in (case he_prompt env (hl_tick h1) w of
                Inl e \<Rightarrow> after_exception env sid (wo_id w) (he_error env e) h2
              | Inr p \<Rightarrow>
                  if or_empty p = [] then
                    (Finished False, update_status env (wo_id w) ''failed'' (Some ''Failed to generate system prompt'')
                       (set_active sid (\<lambda>a. a\<lparr>as_status := Failed\<rparr>) h2))
                  else
                    let attempts = (1 :: int); h3 = set_active sid (\<lambda>a. a\<lparr>as_attempts := attempts\<rparr>) h2
                    in if attempts > he_threshold env then
                         (Finished False, set_active sid (\<lambda>a. a\<lparr>as_status := Failed\<rparr>) (escalate env (wo_id w) h3))
                       else
                         let (success, h4) = spawn_fix_session env sid (or_empty p) (wo_id w) h3
                         in if success then
                              (Finished True, update_status env (wo_id w) ''completed''
                                 (Some ''Fix applied and validated by healing agent [AUTO-HEALING]'')
                                 (set_active sid (\<lambda>a. a\<lparr>as_status := Completed, as_result := Some ''Agent completed fix successfully''\<rparr>) h4))
                            else
                              let h5 = set_active sid (\<lambda>a. a\<lparr>as_status := Failed\<rparr>) h4
                              in if hl_session h5 \<noteq> None \<and> attempts \<le> he_threshold env then (Again, snd (recover_session env (wo_id w) h5))
                                 else (Finished False, update_status env (wo_id w) ''pending'' (Some ''Healing agent failed, requeued'') h5)))"

definition session_id :: "healing_env \<Rightarrow> work_order \<Rightarrow> healer \<Rightarrow> string" where
  "session_id env w h = ''heal-'' @ str_int (int (wo_id w)) @ ''-'' @ str_int (py_trunc (he_clock env (hl_tick h)))"

text \<open>The chain check of a call that has entered its level.\<close>

definition chain_check :: "healing_env \<Rightarrow> healer \<Rightarrow> healer" where
  "chain_check env h =
     (let h1 = h\<lparr>hl_tracker := snd (mark_chain_step (hl_tracker h))\<rparr>
      in if can_chain (hl_tracker h1) then h1
         else let h2 = flush_healer env ''chain_limit_reached'' h1 in h2\<lparr>hl_tracker := reset_chain_count (hl_tracker h2)\<rparr>)"

lemma tracker_kept [simp]:
  "hl_tracker (update_status env i st tx h) = hl_tracker h" "hl_tracker (escalate env i h) = hl_tracker h"
  "hl_tracker (flush_healer env r h) = hl_tracker h" "hl_tracker (snd (recover_session env i h)) = hl_tracker h"
  "hl_tracker (set_active sid f h) = hl_tracker h"
  by (simp_all add: update_status_def escalate_def flush_healer_def recover_session_def set_active_def Let_def split: option.split prod.split)

lemma tracker_spawn [simp]: "hl_tracker (snd (spawn_fix_session env sid p i h)) = hl_tracker h"
  by (simp add: spawn_fix_session_def Let_def split: prod.split fix_end.split)

lemma tracker_exception [simp]: "hl_tracker (snd (after_exception env sid i e h)) = hl_tracker h"
  by (simp add: after_exception_def Let_def)

lemma tracker_attempt [simp]: "hl_tracker (snd (attempt_fix env sid w h)) = hl_tracker h"
proof -
  have "hl_tracker h4 = hl_tracker h3" if "spawn_fix_session env sid p i h3 = (b, h4)" for p i h3 b h4
    using tracker_spawn [of env sid p i h3] that by simp
  then show ?thesis
    by (auto simp: attempt_fix_def Let_def split: sum.split bool.split prod.split)
qed

lemma depth_chain_check [simp]: "tk_depth (hl_tracker (chain_check env h)) = tk_depth (hl_tracker h)"
  "tk_stack (hl_tracker (chain_check env h)) = tk_stack (hl_tracker h)"
  by (simp_all add: chain_check_def mark_chain_step_def reset_chain_count_def Let_def)

definition begin_session :: "healing_env \<Rightarrow> string \<Rightarrow> work_order \<Rightarrow> tracker \<Rightarrow> healer \<Rightarrow> healer" where
  "begin_session env sid w k h =
     (let h1 = chain_check env (h\<lparr>hl_tracker := k\<rparr>)
      in h1\<lparr>hl_active := dict_set sid \<lparr>as_order = wo_id w, as_depth = tk_depth (hl_tracker h1), as_status = Running, as_attempts = 0,
           as_result = None, as_error = None\<rparr> (hl_active h1)\<rparr>)"

definition end_session :: "string \<Rightarrow> healer \<Rightarrow> healer" where
  "end_session sid h = h\<lparr>hl_active := delete_row sid (hl_active h), hl_tracker := leave sid (hl_tracker h)\<rparr>"

definition read_clock :: "healer \<Rightarrow> healer" where
  "read_clock h = h\<lparr>hl_tick := hl_tick h + 1\<rparr>"

function handle_work_order :: "healing_env \<Rightarrow> work_order \<Rightarrow> healer \<Rightarrow> bool \<times> healer" where
  "handle_work_order env w h =
     (let sid = session_id env w h; (entered, k) = enter sid (hl_tracker h)
      in if \<not> entered then
           (False, update_status env (wo_id w) ''failed'' (Some ''REJECTED: Agent depth limit (2) exceeded'') (read_clock h))
         else
           let (a, h1) = attempt_fix env sid w (begin_session env sid w k (read_clock h));
               (b, h2) = (case a of Finished b \<Rightarrow> (b, h1) | Again \<Rightarrow> handle_work_order env w h1)
           in (b, end_session sid h2))"
  by pat_completeness auto
termination
proof (relation "measure (\<lambda>(env, w, h). MAX_AGENT_DEPTH - tk_depth (hl_tracker h))")
  fix env w h sid x entered k y a h1
  assume sid: "sid = session_id env w h" and x: "x = enter sid (hl_tracker h)" "(entered, k) = x" "\<not> \<not> entered"
    and y: "y = attempt_fix env sid w (begin_session env sid w k (read_clock h))" "(a, h1) = y" and a: "a = Again"
  have "k = (hl_tracker h)\<lparr>tk_depth := tk_depth (hl_tracker h) + 1, tk_stack := tk_stack (hl_tracker h) @ [sid]\<rparr>"
    "tk_depth (hl_tracker h) + 1 \<le> MAX_AGENT_DEPTH"
    using x by (auto simp: enter_def can_spawn_def split: if_splits)
  moreover have "hl_tracker h1 = hl_tracker (begin_session env sid w k (read_clock h))"
    using y tracker_attempt by (metis snd_conv)
  ultimately show "((env, w, h1), env, w, h) \<in> measure (\<lambda>(env, w, h). MAX_AGENT_DEPTH - tk_depth (hl_tracker h))"
    by (simp add: begin_session_def Let_def)
qed simp

declare handle_work_order.simps [simp del]


section \<open>Polling\<close>

definition get_last_checked :: "healing_env \<Rightarrow> healer \<Rightarrow> nat" where
  "get_last_checked env h =
     (if he_db_fails env (hl_tick h) then 0
      else foldr max (map wo_id (filter (\<lambda>w. sublist ''[auto-healing]'' (map lower_char (or_empty (wo_notes w)))) (hl_orders h))) 0)"

definition get_pending_orders :: "healing_env \<Rightarrow> nat \<Rightarrow> healer \<Rightarrow> work_order list" where
  "get_pending_orders env last_id h =
     (if he_db_fails env (hl_tick h) then []
      else take 10 (sort_key wo_priority (sort_key wo_id
             (filter (\<lambda>w. wo_id w > last_id \<and> wo_status w = ''pending'' \<and> wo_priority w \<le> 3) (hl_orders h)))))"

text \<open>One round: the orders in turn, the highest id seen first.\<close>

fun process_orders :: "healing_env \<Rightarrow> work_order list \<Rightarrow> nat \<Rightarrow> healer \<Rightarrow> nat \<times> healer" where
  "process_orders env [] last_id h = (last_id, h)"
| "process_orders env (w # ws) last_id h =
     process_orders env ws (if wo_id w > last_id then wo_id w else last_id) (snd (handle_work_order env w h))"

definition poll_cycle :: "healing_env \<Rightarrow> nat \<times> healer \<Rightarrow> nat \<times> healer" where
  "poll_cycle env st = (let (last_id, h) = st in process_orders env (get_pending_orders env last_id h) last_id (read_clock h))"

text \<open>Rounds, each after new orders have arrived.\<close>

fun poll_rounds :: "healing_env \<Rightarrow> work_order list list \<Rightarrow> nat \<times> healer \<Rightarrow> nat \<times> healer" where
  "poll_rounds env [] st = st"
| "poll_rounds env (ws # rounds) (last_id, h) = poll_rounds env rounds (poll_cycle env (last_id, h\<lparr>hl_orders := hl_orders h @ ws\<rparr>))"

section \<open>Requests to the model\<close>

lemma fix_loop_chats: "fst (snd (snd (fix_loop env left ms k n t))) \<le> n + left"
proof (induction env left ms k n t rule: fix_loop.induct)
  case (2 env left ms k n t)
  show ?case
  proof (cases "he_chat env n ms")
    case (Reply success err content calls)
    obtain ms1 k1 t1 where run: "run_tools env calls ms k t = (ms1, k1, t1)" by (cases "run_tools env calls ms k t")
    show ?thesis
      using 2(1) [OF Reply _ refl, of] 2(2) [OF Reply _ refl _ run [symmetric] refl refl refl] Reply run
      by (auto simp: Let_def)
  qed simp_all
qed simp

lemma chats_kept [simp]:
  "hl_chats (update_status env i st tx h) = hl_chats h" "hl_chats (escalate env i h) = hl_chats h"
  "hl_chats (flush_healer env r h) = hl_chats h" "hl_chats (snd (recover_session env i h)) = hl_chats h"
  "hl_chats (set_active sid f h) = hl_chats h" "hl_chats (chain_check env h) = hl_chats h"
  "hl_chats (end_session sid h) = hl_chats h" "hl_chats (read_clock h) = hl_chats h"
  by (simp_all add: update_status_def escalate_def flush_healer_def recover_session_def set_active_def chain_check_def
      end_session_def read_clock_def Let_def split: option.split prod.split)

lemma chats_begin [simp]: "hl_chats (begin_session env sid w k h) = hl_chats h"
  by (simp add: begin_session_def Let_def)

lemma chats_spawn: "hl_chats (snd (spawn_fix_session env sid p i h)) \<le> hl_chats h + 15"
proof (cases "he_api env")
  case True
  define h1 where "h1 = flush_healer env ''healing_agent_spawned'' h"
  obtain e ms n t where loop: "fix_loop env 15 (fix_messages p i) 0 (hl_chats h1) (hl_tick h1) = (e, ms, n, t)"
    by (cases "fix_loop env 15 (fix_messages p i) 0 (hl_chats h1) (hl_tick h1)")
  then have "n \<le> hl_chats h + 15"
    using fix_loop_chats [of env 15 "fix_messages p i" 0 "hl_chats h1" "hl_tick h1"] by (simp add: h1_def)
  then show ?thesis using True loop by (simp add: spawn_fix_session_def h1_def [symmetric] Let_def split: fix_end.split)
qed (simp add: spawn_fix_session_def)

lemma chats_exception [simp]: "hl_chats (snd (after_exception env sid i e h)) = hl_chats h"
  by (simp add: after_exception_def Let_def)

lemma session_set_active: "hl_session (set_active sid f h) = hl_session h"
  by (simp add: set_active_def)

text \<open>What an attempt can end in, once for all that follows.\<close>

lemma attempt_cases:
  assumes "attempt_fix env sid w h = (a, h')"
  obtains
    (Raised) e h1 where "(a, h') = after_exception env sid (wo_id w) e h1" "h1 \<in> {h, read_clock (update_status env (wo_id w) ''in-progress'' None h)}"
  | (Skipped) "a = Finished True" "h' = update_status env (wo_id w) ''completed'' (Some ''Skipped by healing agent: not error/warn related [AUTO-SKIP]'') h"
  | (NoPrompt) "a = Finished False" "h' = update_status env (wo_id w) ''failed'' (Some ''Failed to generate system prompt'')
      (set_active sid (\<lambda>a. a\<lparr>as_status := Failed\<rparr>) (read_clock (update_status env (wo_id w) ''in-progress'' None h)))"
  | (Escalated) f where "a = Finished False" "he_threshold env < 1"
      "h' = set_active sid (\<lambda>a. a\<lparr>as_status := Failed\<rparr>) (escalate env (wo_id w)
         (set_active sid f (read_clock (update_status env (wo_id w) ''in-progress'' None h))))"
  | (Spawned) f p success h4 where
      "spawn_fix_session env sid p (wo_id w) (set_active sid f (read_clock (update_status env (wo_id w) ''in-progress'' None h))) = (success, h4)"
      "(a, h') = (if success then (Finished True, update_status env (wo_id w) ''completed''
                      (Some ''Fix applied and validated by healing agent [AUTO-HEALING]'')
                      (set_active sid (\<lambda>a. a\<lparr>as_status := Completed, as_result := Some ''Agent completed fix successfully''\<rparr>) h4))
                  else if hl_session h4 \<noteq> None \<and> 1 \<le> he_threshold env
                  then (Again, snd (recover_session env (wo_id w) (set_active sid (\<lambda>a. a\<lparr>as_status := Failed\<rparr>) h4)))
                  else (Finished False, update_status env (wo_id w) ''pending'' (Some ''Healing agent failed, requeued'')
                      (set_active sid (\<lambda>a. a\<lparr>as_status := Failed\<rparr>) h4)))"
proof (cases "is_error_or_warn w")
  case (Inl e)
  then show thesis using assms by (intro Raised [of "he_error env e" h]) (simp_all add: attempt_fix_def)
next
  case (Inr b)
  let ?h2 = "read_clock (update_status env (wo_id w) ''in-progress'' None h)"
  let ?p = "he_prompt env (hl_tick (update_status env (wo_id w) ''in-progress'' None h)) w"
  show thesis
  proof (cases b)
    case False
    then show thesis using assms Inr by (intro Skipped) (simp_all add: attempt_fix_def)
  next
    case bt: True
    note here = assms [unfolded attempt_fix_def Inr, simplified, unfolded Let_def, folded read_clock_def]
    show thesis
    proof (cases ?p)
      case (Inl e)
      then show thesis using bt here by (intro Raised [of "he_error env e" ?h2]) simp_all
    next
      case (Inr p)
      show thesis
      proof (cases "or_empty p = []")
        case True
        then show thesis using bt here Inr by (intro NoPrompt) simp_all
      next
        case False
        show thesis
        proof (cases "1 > he_threshold env")
          case True
          then show thesis using bt here Inr False by (intro Escalated [of "\<lambda>a. a\<lparr>as_attempts := 1\<rparr>"]) simp_all
        next
          case le: False
          obtain success h4 where sp: "spawn_fix_session env sid (or_empty p) (wo_id w) (set_active sid (\<lambda>a. a\<lparr>as_attempts := 1\<rparr>) ?h2) = (success, h4)"
            by (cases "spawn_fix_session env sid (or_empty p) (wo_id w) (set_active sid (\<lambda>a. a\<lparr>as_attempts := 1\<rparr>) ?h2)")
          show thesis using bt here Inr False le sp
            by (intro Spawned [OF sp]) (auto simp: session_set_active split: if_splits)
        qed
      qed
    qed
  qed
qed


lemma chats_attempt: "hl_chats (snd (attempt_fix env sid w h)) \<le> hl_chats h + 15"
proof (cases "attempt_fix env sid w h")
  case (Pair a h')
  then show ?thesis
  proof (cases rule: attempt_cases)
    case (Raised e h1)
    then have "hl_chats h' = hl_chats h1" by (metis chats_exception snd_conv)
    then show ?thesis using Raised Pair by auto
  next
    case (Spawned f p success h4)
    have "hl_chats h4 \<le> hl_chats h + 15"
      using chats_spawn [of env sid p "wo_id w" "set_active sid f (read_clock (update_status env (wo_id w) ''in-progress'' None h))"] Spawned(1)
      by simp
    moreover have "hl_chats h' = hl_chats h4" using Spawned(2) by (simp split: if_splits)
    ultimately show ?thesis using Pair by simp
  qed (simp_all add: Pair)
qed

text \<open>The step of a call that may enter: what holds of its attempt and of the recursive call holds of it.\<close>

lemma enter_deeper: "enter sid k = (True, k') \<Longrightarrow>
  k' = k\<lparr>tk_depth := tk_depth k + 1, tk_stack := tk_stack k @ [sid]\<rparr> \<and> tk_depth k < MAX_AGENT_DEPTH"
  by (auto simp: enter_def can_spawn_def split: if_splits)

lemma enter_refused: "enter sid k = (False, k') \<Longrightarrow> k' = k \<and> \<not> tk_depth k < MAX_AGENT_DEPTH"
  by (auto simp: enter_def can_spawn_def split: if_splits)

lemma begin_tracker: "enter sid k = (True, k') \<Longrightarrow>
  tk_depth (hl_tracker (begin_session env sid w k' h)) = tk_depth k + 1 \<and> tk_stack (hl_tracker (begin_session env sid w k' h)) = tk_stack k @ [sid]"
  by (auto dest: enter_deeper simp: begin_session_def Let_def)

lemma retry_deeper:
  assumes "enter sid (hl_tracker h) = (True, k)" and "attempt_fix env sid w (begin_session env sid w k h') = (a, h1)"
  shows "MAX_AGENT_DEPTH - tk_depth (hl_tracker h1) < MAX_AGENT_DEPTH - tk_depth (hl_tracker h)"
proof -
  have "hl_tracker h1 = hl_tracker (begin_session env sid w k h')"
    using tracker_attempt [of env sid w "begin_session env sid w k h'"] assms(2) by simp
  then have "tk_depth (hl_tracker h1) = tk_depth (hl_tracker h) + 1" using begin_tracker [OF assms(1)] by simp
  moreover have "tk_depth (hl_tracker h) < MAX_AGENT_DEPTH" using enter_deeper [OF assms(1)] by blast
  ultimately show ?thesis by arith
qed

lemma handle_cases:
  obtains
    (Rejected) "\<not> tk_depth (hl_tracker h) < MAX_AGENT_DEPTH"
      "handle_work_order env w h = (False, update_status env (wo_id w) ''failed'' (Some ''REJECTED: Agent depth limit (2) exceeded'') (read_clock h))"
  | (Once) sid k b h1 where "sid = session_id env w h" "enter sid (hl_tracker h) = (True, k)"
      "attempt_fix env sid w (begin_session env sid w k (read_clock h)) = (Finished b, h1)"
      "handle_work_order env w h = (b, end_session sid h1)"
  | (More) sid k h1 where "sid = session_id env w h" "enter sid (hl_tracker h) = (True, k)"
      "attempt_fix env sid w (begin_session env sid w k (read_clock h)) = (Again, h1)"
      "handle_work_order env w h = (fst (handle_work_order env w h1), end_session sid (snd (handle_work_order env w h1)))"
proof -
  define sid where "sid = session_id env w h"
  obtain e k where en: "enter sid (hl_tracker h) = (e, k)" by (cases "enter sid (hl_tracker h)")
  note step = handle_work_order.simps [of env w h, folded sid_def, unfolded Let_def en, simplified]
  show thesis
  proof (cases e)
    case False
    then show thesis using en enter_refused [of sid "hl_tracker h" k] step by (intro Rejected) simp_all
  next
    case e: True
    obtain a h1 where at: "attempt_fix env sid w (begin_session env sid w k (read_clock h)) = (a, h1)"
      by (cases "attempt_fix env sid w (begin_session env sid w k (read_clock h))")
    show thesis
    proof (cases a)
      case (Finished b)
      then show thesis using en e at step by (intro Once [OF sid_def, of k b h1]) simp_all
    next
      case Again
      then show thesis using en e at step by (intro More [OF sid_def, of k h1]) (simp_all split: prod.split)
    qed
  qed
qed

text \<open>C10: Handling an order ends, with at most 30 requests to the model whatever it answers.  From nesting
  depth \<open>d\<close>, \<open>2 - d\<close> conversations of at most fifteen requests are held before the depth limit turns the
  next retry away.\<close>

theorem order_costs_bounded:
  "hl_chats (snd (handle_work_order env w h)) \<le> hl_chats h + 15 * (MAX_AGENT_DEPTH - tk_depth (hl_tracker h))"
proof (induction "MAX_AGENT_DEPTH - tk_depth (hl_tracker h)" arbitrary: h rule: less_induct)
  case less
  show ?case
  proof (cases env w h rule: handle_cases)
    case Rejected
    then show ?thesis by simp
  next
    case (Once sid k b h1)
    have "hl_chats h1 \<le> hl_chats h + 15" using chats_attempt [of env sid w "begin_session env sid w k (read_clock h)"] Once(3) by simp
    moreover have "1 \<le> MAX_AGENT_DEPTH - tk_depth (hl_tracker h)" using enter_deeper [OF Once(2)] by arith
    ultimately show ?thesis using Once(4) by simp
  next
    case (More sid k h1)
    have cost: "hl_chats h1 \<le> hl_chats h + 15" using chats_attempt [of env sid w "begin_session env sid w k (read_clock h)"] More(3) by simp
    have depth: "tk_depth (hl_tracker h1) = tk_depth (hl_tracker h) + 1"
      using tracker_attempt [of env sid w "begin_session env sid w k (read_clock h)"] More(3) begin_tracker [OF More(2)] by simp
    have room: "tk_depth (hl_tracker h) < MAX_AGENT_DEPTH" using enter_deeper [OF More(2)] by blast
    have "hl_chats (snd (handle_work_order env w h1)) \<le> hl_chats h1 + 15 * (MAX_AGENT_DEPTH - tk_depth (hl_tracker h1))"
      by (rule less) (rule retry_deeper [OF More(2,3)])
    moreover have "MAX_AGENT_DEPTH - tk_depth (hl_tracker h) = MAX_AGENT_DEPTH - tk_depth (hl_tracker h1) + 1" using depth room by arith
    ultimately show ?thesis using More(4) cost by simp
  qed
qed

text \<open>The depth tracker is balanced.  After an order was handled, on every path through attempts,
  retries, exceptions and rejections, depth and stack of sessions are what they were before.\<close>

theorem depth_is_restored:
  "(tk_depth (hl_tracker (snd (handle_work_order env w h))), tk_stack (hl_tracker (snd (handle_work_order env w h)))) =
     (tk_depth (hl_tracker h), tk_stack (hl_tracker h))"
proof (induction "MAX_AGENT_DEPTH - tk_depth (hl_tracker h)" arbitrary: h rule: less_induct)
  case less
  show ?case
  proof (cases env w h rule: handle_cases)
    case Rejected
    then show ?thesis by (simp add: read_clock_def)
  next
    case (Once sid k b h1)
    have "hl_tracker h1 = hl_tracker (begin_session env sid w k (read_clock h))"
      using tracker_attempt [of env sid w "begin_session env sid w k (read_clock h)"] Once(3) by simp
    then show ?thesis using Once(4) begin_tracker [OF Once(2), of env w "read_clock h"] by (simp add: end_session_def leave_def)
  next
    case (More sid k h1)
    have t: "hl_tracker h1 = hl_tracker (begin_session env sid w k (read_clock h))"
      using tracker_attempt [of env sid w "begin_session env sid w k (read_clock h)"] More(3) by simp
    note b = begin_tracker [OF More(2), of env w "read_clock h"]
    have "(tk_depth (hl_tracker (snd (handle_work_order env w h1))), tk_stack (hl_tracker (snd (handle_work_order env w h1)))) =
      (tk_depth (hl_tracker h1), tk_stack (hl_tracker h1))"
      by (rule less) (rule retry_deeper [OF More(2,3)])
    then show ?thesis using More(4) t b by (simp add: end_session_def leave_def)
  qed
qed

section \<open>What a handled order changes\<close>

text \<open>A relation between lists of orders that every status update keeps is kept by the handling.\<close>

lemma orders_kept [simp]:
  "hl_orders (flush_healer env r h) = hl_orders h" "hl_orders (snd (recover_session env i h)) = hl_orders h"
  "hl_orders (set_active sid f h) = hl_orders h" "hl_orders (chain_check env h) = hl_orders h"
  "hl_orders (end_session sid h) = hl_orders h" "hl_orders (read_clock h) = hl_orders h"
  "hl_orders (begin_session env sid w k h) = hl_orders h"
proof -
  show a: "hl_orders (flush_healer env r h) = hl_orders h" for env r h by (simp add: flush_healer_def split: option.split prod.split)
  show b: "hl_orders (chain_check env h) = hl_orders h" for env h by (simp add: chain_check_def Let_def a)
  show "hl_orders (begin_session env sid w k h) = hl_orders h" by (simp add: begin_session_def Let_def b)
qed (simp_all add: recover_session_def set_active_def end_session_def read_clock_def Let_def split: option.split prod.split)

lemma orders_spawn: "hl_orders (snd (spawn_fix_session env sid p i h)) = hl_orders h"
  by (simp add: spawn_fix_session_def Let_def split: prod.split fix_end.split)

lemma orders_exception: "hl_orders (snd (after_exception env sid i e h)) =
  hl_orders (update_status env i ''pending'' (Some (''Error: '' @ take 200 e)) (if hl_session h = None then set_active sid (\<lambda>a. a\<lparr>as_status := Failed, as_error := Some e\<rparr>) h
     else snd (recover_session env i (set_active sid (\<lambda>a. a\<lparr>as_status := Failed, as_error := Some e\<rparr>) h))))"
  by (simp add: after_exception_def Let_def set_active_def)

lemma attempt_orders:
  assumes upd: "\<And>st tx h. P (hl_orders h) \<Longrightarrow> P (hl_orders (update_status env (wo_id w) st tx h))"
    and esc: "\<And>h. he_threshold env < 1 \<Longrightarrow> P (hl_orders h) \<Longrightarrow> P (hl_orders (escalate env (wo_id w) h))"
    and at: "attempt_fix env sid w h = (a, h')" and P: "P (hl_orders h)"
  shows "P (hl_orders h')"
  using at
proof (cases rule: attempt_cases)
  case (Raised e h1)
  have "P (hl_orders h1)" using Raised(2) P upd by auto
  then have "P (hl_orders (snd (after_exception env sid (wo_id w) e h1)))" unfolding orders_exception by (intro upd) simp
  then show ?thesis using Raised(1) by (metis snd_conv)
next
  case (Spawned f p success h4)
  have "hl_orders h4 = hl_orders (update_status env (wo_id w) ''in-progress'' None h)"
    using orders_spawn [of env sid p "wo_id w" "set_active sid f (read_clock (update_status env (wo_id w) ''in-progress'' None h))"] Spawned(1) by simp
  then have "P (hl_orders h4)" using upd P by simp
  then show ?thesis using Spawned(2) upd by (simp split: if_splits)
qed (use upd esc P in simp_all)

lemma handle_orders:
  assumes upd: "\<And>st tx h. P (hl_orders h) \<Longrightarrow> P (hl_orders (update_status env (wo_id w) st tx h))"
    and esc: "\<And>h. he_threshold env < 1 \<Longrightarrow> P (hl_orders h) \<Longrightarrow> P (hl_orders (escalate env (wo_id w) h))"
  shows "P (hl_orders h) \<Longrightarrow> P (hl_orders (snd (handle_work_order env w h)))"
proof (induction "MAX_AGENT_DEPTH - tk_depth (hl_tracker h)" arbitrary: h rule: less_induct)
  case less
  show ?case
  proof (cases env w h rule: handle_cases)
    case Rejected
    then show ?thesis using upd less(2) by simp
  next
    case (Once sid k b h1)
    have "P (hl_orders h1)" by (rule attempt_orders [OF upd esc Once(3)]) (simp_all add: less(2))
    then show ?thesis using Once(4) by simp
  next
    case (More sid k h1)
    have "P (hl_orders h1)" by (rule attempt_orders [OF upd esc More(3)]) (simp_all add: less(2))
    then have "P (hl_orders (snd (handle_work_order env w h1)))" by (intro less(1) retry_deeper [OF More(2,3)])
    then show ?thesis using More(4) by simp
  qed
qed


lemma update_status_orders: "\<exists>f. (\<forall>w. wo_id (f w) = wo_id w \<and> wo_priority (f w) = wo_priority w) \<and>
  hl_orders (update_status env i st tx h) \<in> {hl_orders h, update_order i f (hl_orders h)}"
  by (intro exI [of _ "\<lambda>w. w\<lparr>wo_status := st, wo_notes := (if or_empty tx = [] then wo_notes w
      else append_notes (he_stamp env (hl_tick h)) (or_empty tx) (wo_notes w))\<rparr>"]) (simp add: update_status_def Let_def)

lemma update_order_ids: "(\<And>w. wo_id (f w) = wo_id w) \<Longrightarrow> map wo_id (update_order i f ws) = map wo_id ws"
  by (simp add: update_order_def)

lemma handle_ids: "map wo_id (hl_orders (snd (handle_work_order env w h))) = map wo_id (hl_orders h)"
proof (rule handle_orders [where P = "\<lambda>ws. map wo_id ws = map wo_id (hl_orders h)"])
  show "map wo_id (hl_orders (update_status env (wo_id w) st tx h')) = map wo_id (hl_orders h)"
    if "map wo_id (hl_orders h') = map wo_id (hl_orders h)" for st tx and h' :: healer
    using that by (simp add: update_status_def Let_def update_order_ids)
  show "map wo_id (hl_orders (escalate env (wo_id w) h')) = map wo_id (hl_orders h)"
    if "map wo_id (hl_orders h') = map wo_id (hl_orders h)" for h' :: healer
    using that by (simp add: escalate_def Let_def update_order_ids)
qed simp

text \<open>No order is ever escalated, for any positive threshold.  The number of recovery attempts is that
  of a session which each retry makes anew, so it is 1 at every check; the priorities in the database are
  those from before, however often the agent fails.\<close>

theorem no_order_is_escalated:
  assumes "1 \<le> he_threshold env"
  shows "map wo_priority (hl_orders (snd (handle_work_order env w h))) = map wo_priority (hl_orders h)"
proof (rule handle_orders [where P = "\<lambda>ws. map wo_priority ws = map wo_priority (hl_orders h)"])
  fix st tx and h' :: healer
  assume same: "map wo_priority (hl_orders h') = map wo_priority (hl_orders h)"
  obtain f where "\<forall>w. wo_id (f w) = wo_id w \<and> wo_priority (f w) = wo_priority w"
    "hl_orders (update_status env (wo_id w) st tx h') \<in> {hl_orders h', update_order (wo_id w) f (hl_orders h')}"
    using update_status_orders [of env "wo_id w" st tx h'] by blast
  then show "map wo_priority (hl_orders (update_status env (wo_id w) st tx h')) = map wo_priority (hl_orders h)"
    using same by (auto simp: update_order_def comp_def if_distrib cong: if_cong)
qed (use assms in simp_all)

definition failing_env :: healing_env where
  "failing_env = \<lparr>he_chat = (\<lambda>_ _. Reply False (Some ''down'') None []), he_tool = (\<lambda>_ _. ToolAnswer None None),
     he_prompt = (\<lambda>_ _. Inr (Some ''fix'')), he_error = (\<lambda>_. ''error''), he_clock = (\<lambda>n. rat_of_nat n), he_stamp = (\<lambda>_. ''now''),
     he_flush = (\<lambda>_. NoFault), he_db_fails = (\<lambda>_. False), he_codec = sample_codec, he_api = True, he_threshold = 3\<rparr>"

definition bug_order :: "nat \<Rightarrow> work_order" where
  "bug_order i = \<lparr>wo_id = i, wo_status = ''pending'', wo_priority = 2, wo_description = Some ''a bug'', wo_notes = None\<rparr>"

definition new_healer :: "(session \<times> session_db) option \<Rightarrow> work_order list \<Rightarrow> healer" where
  "new_healer s ws = \<lparr>hl_tracker = new_tracker, hl_active = [], hl_session = s, hl_orders = ws, hl_chats = 0, hl_tick = 0\<rparr>"

theorem no_order_is_escalated_witness:
  "map wo_priority (hl_orders (snd (handle_work_order failing_env (bug_order 4) (new_healer (Some (new_session 5 60 ''s'' 0, empty_db)) [bug_order 4])))) = [2]"
  by (subst no_order_is_escalated) (simp_all add: failing_env_def new_healer_def bug_order_def)

text \<open>What is at or below the highest id seen is out of the agent's reach.\<close>

lemma handle_keeps_other:
  assumes "wo_id w \<noteq> wo_id x" and "x \<in> set (hl_orders h)"
  shows "x \<in> set (hl_orders (snd (handle_work_order env w h)))"
proof (rule handle_orders [where P = "\<lambda>ws. x \<in> set ws"])
  have other: "x \<in> set (update_order (wo_id w) f ws)" if "x \<in> set ws" for f ws
    using assms(1) that by (auto simp: update_order_def image_iff intro!: bexI [of _ x])
  then show "x \<in> set (hl_orders (update_status env (wo_id w) st tx h'))" if "x \<in> set (hl_orders h')" for st tx h'
    using update_status_orders [of env "wo_id w" st tx h'] that by auto
  show "x \<in> set (hl_orders (escalate env (wo_id w) h'))" if "x \<in> set (hl_orders h')" for h'
    using other that by (simp add: escalate_def Let_def)
qed (rule assms(2))

lemma pending_above: "w \<in> set (get_pending_orders env last_id h) \<Longrightarrow> last_id < wo_id w"
  by (auto simp: get_pending_orders_def dest!: in_set_takeD split: if_splits)

lemma process_keeps:
  "\<forall>w\<in>set ws. wo_id x < wo_id w \<Longrightarrow> x \<in> set (hl_orders h) \<Longrightarrow>
     last_id \<le> fst (process_orders env ws last_id h) \<and> x \<in> set (hl_orders (snd (process_orders env ws last_id h)))"
proof (induction ws arbitrary: last_id h)
  case (Cons w ws)
  let ?h = "snd (handle_work_order env w h)"
  let ?l = "if wo_id w > last_id then wo_id w else last_id"
  have "x \<in> set (hl_orders ?h)" using Cons.prems by (intro handle_keeps_other) simp_all
  then have "?l \<le> fst (process_orders env ws ?l ?h) \<and> x \<in> set (hl_orders (snd (process_orders env ws ?l ?h)))"
    using Cons.prems(1) by (intro Cons.IH) simp_all
  then show ?case by (auto split: if_splits)
qed simp

text \<open>C11: An order the polling has passed over is never looked at again.  Once the highest id handled is at
  or above the id of an order, that order stays as it is in all further rounds, whatever arrives and
  whatever happens: one left out by the limit of ten, or one requeued as \<open>pending\<close> after a failure.\<close>

theorem passed_over_orders_stay:
  assumes "x \<in> set (hl_orders h)" and "wo_id x \<le> last_id"
  shows "x \<in> set (hl_orders (snd (poll_rounds env rounds (last_id, h))))"
  using assms
proof (induction rounds arbitrary: last_id h)
  case (Cons ws rounds)
  let ?h = "h\<lparr>hl_orders := hl_orders h @ ws\<rparr>"
  have "\<forall>w\<in>set (get_pending_orders env last_id ?h). wo_id x < wo_id w" using pending_above Cons.prems(2) by fastforce
  then have "last_id \<le> fst (poll_cycle env (last_id, ?h)) \<and> x \<in> set (hl_orders (snd (poll_cycle env (last_id, ?h))))"
    unfolding poll_cycle_def Let_def prod.case by (rule process_keeps) (simp add: Cons.prems(1))
  then have "x \<in> set (hl_orders (snd (poll_rounds env rounds (fst (poll_cycle env (last_id, ?h)), snd (poll_cycle env (last_id, ?h))))))"
    using Cons.prems(2) by (intro Cons.IH) simp_all
  then show ?case by simp
qed simp

theorem passed_over_orders_stay_witness:
  "bug_order 4 \<in> set (hl_orders (snd (poll_rounds failing_env [[bug_order 9], []] (5, new_healer None [bug_order 4]))))"
  by (rule passed_over_orders_stay) (simp_all add: new_healer_def bug_order_def)

lemma failing_spawn:
  assumes "\<forall>n ms. he_chat env n ms = Reply False err None []"
  shows "fst (spawn_fix_session env sid p i h) = False \<and> (hl_session (snd (spawn_fix_session env sid p i h)) = None \<longleftrightarrow> hl_session h = None)"
proof -
  have "fix_loop env 15 ms k n t = (FixFailed err, ms, n + 1, t)" for ms k n t
    using fix_loop.simps(2) [of env 14 ms k n t] assms by simp
  then show ?thesis by (simp add: spawn_fix_session_def Let_def flush_healer_def set_active_def split: option.split)
qed

definition runs_out :: "healing_env \<Rightarrow> work_order \<Rightarrow> bool" where
  "runs_out env w = (is_error_or_warn w = Inr True \<and> 1 \<le> he_threshold env)"

lemma sessions_kept [simp]:
  "(hl_session (update_status env i st tx h) = None) = (hl_session h = None)" "hl_session (read_clock h) = hl_session h"
  "(hl_session (snd (recover_session env i h)) = None) = (hl_session h = None)"
  "(hl_session (begin_session env sid w k h) = None) = (hl_session h = None)"
  by (simp_all add: update_status_def read_clock_def recover_session_def begin_session_def chain_check_def flush_healer_def
      Let_def split: option.split)

lemma failing_attempt:
  assumes chat: "\<forall>n ms. he_chat env n ms = Reply False err None []" and prompt: "\<forall>t. or_empty (case he_prompt env t w of Inl _ \<Rightarrow> None | Inr p \<Rightarrow> p) \<noteq> []"
    and w: "runs_out env w" and s: "hl_session h \<noteq> None"
  shows "fst (attempt_fix env sid w h) = Again \<and> hl_session (snd (attempt_fix env sid w h)) \<noteq> None"
proof -
  define h1 where "h1 = update_status env (wo_id w) ''in-progress'' None h"
  obtain p where p: "he_prompt env (hl_tick h1) w = Inr p" "or_empty p \<noteq> []"
    using prompt [rule_format, of "hl_tick h1"] by (cases "he_prompt env (hl_tick h1) w") (simp_all add: or_empty_def)
  let ?h3 = "set_active sid (\<lambda>a. a\<lparr>as_attempts := 1\<rparr>) (read_clock h1)"
  obtain b h4 where sp: "spawn_fix_session env sid (or_empty p) (wo_id w) ?h3 = (b, h4)" by (cases "spawn_fix_session env sid (or_empty p) (wo_id w) ?h3")
  have "hl_session ?h3 \<noteq> None" using s by (simp add: h1_def session_set_active del: not_None_eq)
  then have "\<not> b" "hl_session h4 \<noteq> None" using failing_spawn [OF chat, of sid "or_empty p" "wo_id w" ?h3] sp by simp_all
  then have "attempt_fix env sid w h = (Again, snd (recover_session env (wo_id w) (set_active sid (\<lambda>a. a\<lparr>as_status := Failed\<rparr>) h4)))"
    using w p sp [unfolded read_clock_def]
    by (simp add: attempt_fix_def runs_out_def h1_def [symmetric] session_set_active Let_def del: not_None_eq)
  then show ?thesis using \<open>hl_session h4 \<noteq> None\<close> by (simp add: session_set_active del: not_None_eq)
qed

text \<open>Retries of a failing order end in the depth limit, not in the queue.  While every request to the
  model fails and the database works, an order taken up with a session manager is tried at depths 1 and 2,
  turned away at depth 3 as \<open>failed\<close>, and not requeued.\<close>

theorem failing_order_is_rejected:
  assumes chat: "\<forall>n ms. he_chat env n ms = Reply False err None []" and prompt: "\<forall>t. or_empty (case he_prompt env t w of Inl _ \<Rightarrow> None | Inr p \<Rightarrow> p) \<noteq> []"
    and db: "\<forall>t. \<not> he_db_fails env t" and w: "runs_out env w" and s: "hl_session h \<noteq> None" and top: "tk_depth (hl_tracker h) = 0"
    and x: "x \<in> set (hl_orders (snd (handle_work_order env w h)))" "wo_id x = wo_id w"
  shows "wo_status x = ''failed''"
proof -
  have level: "\<exists>k h1. handle_work_order env w h = (fst (handle_work_order env w h1), end_session k (snd (handle_work_order env w h1))) \<and>
      hl_session h1 \<noteq> None \<and> tk_depth (hl_tracker h1) = tk_depth (hl_tracker h) + 1"
    if "hl_session h \<noteq> None" "tk_depth (hl_tracker h) < MAX_AGENT_DEPTH" for h
  proof (cases env w h rule: handle_cases)
    case (Once sid k b h1)
    have "hl_session (begin_session env sid w k (read_clock h)) \<noteq> None" using that(1) by (simp del: not_None_eq)
    then show ?thesis using failing_attempt [OF chat prompt w, of "begin_session env sid w k (read_clock h)" sid] Once(3) by simp
  next
    case (More sid k h1)
    have "hl_session (begin_session env sid w k (read_clock h)) \<noteq> None" using that(1) by (simp del: not_None_eq)
    then have "hl_session h1 \<noteq> None" using failing_attempt [OF chat prompt w, of "begin_session env sid w k (read_clock h)" sid] More(3) by simp
    moreover have "tk_depth (hl_tracker h1) = tk_depth (hl_tracker h) + 1"
      using tracker_attempt [of env sid w "begin_session env sid w k (read_clock h)"] More(3) begin_tracker [OF More(2)] by simp
    ultimately show ?thesis using More(4) by blast
  qed (use that in simp)
  obtain k1 h1 where one: "handle_work_order env w h = (fst (handle_work_order env w h1), end_session k1 (snd (handle_work_order env w h1)))"
    "hl_session h1 \<noteq> None" "tk_depth (hl_tracker h1) = 1"
    using level [OF s] top by (auto simp: MAX_AGENT_DEPTH_def)
  obtain k2 h2 where two: "handle_work_order env w h1 = (fst (handle_work_order env w h2), end_session k2 (snd (handle_work_order env w h2)))"
    "tk_depth (hl_tracker h2) = 2"
    using level [OF one(2)] one(3) by (auto simp: MAX_AGENT_DEPTH_def)
  have "hl_orders (snd (handle_work_order env w h2)) =
      hl_orders (update_status env (wo_id w) ''failed'' (Some ''REJECTED: Agent depth limit (2) exceeded'') (read_clock h2))"
  proof (cases env w h2 rule: handle_cases)
    case (Once sid k b h3)
    then show ?thesis using enter_deeper [OF Once(2)] two(2) by (simp add: MAX_AGENT_DEPTH_def)
  next
    case (More sid k h3)
    then show ?thesis using enter_deeper [OF More(2)] two(2) by (simp add: MAX_AGENT_DEPTH_def)
  qed simp
  then have "hl_orders (snd (handle_work_order env w h)) =
      hl_orders (update_status env (wo_id w) ''failed'' (Some ''REJECTED: Agent depth limit (2) exceeded'') (read_clock h2))"
    using one(1) two(1) by (metis orders_kept(5) snd_conv)
  then show ?thesis using x db by (auto simp: update_status_def update_order_def Let_def split: if_splits)
qed

theorem failing_order_is_rejected_witness:
  "(let h = new_healer (Some (new_session 5 60 ''s'' 0, empty_db)) [bug_order 4]
    in map wo_status (hl_orders (snd (handle_work_order failing_env (bug_order 4) h)))) = [''failed'']"
proof -
  let ?h = "new_healer (Some (new_session 5 60 ''s'' 0, empty_db)) [bug_order 4]"
  let ?ws = "hl_orders (snd (handle_work_order failing_env (bug_order 4) ?h))"
  have chat: "\<forall>n ms. he_chat failing_env n ms = Reply False (Some ''down'') None []" by (simp add: failing_env_def)
  have prompt: "\<forall>t. or_empty (case he_prompt failing_env t (bug_order 4) of Inl _ \<Rightarrow> None | Inr p \<Rightarrow> p) \<noteq> []"
    by (simp add: failing_env_def or_empty_def)
  have db: "\<forall>t. \<not> he_db_fails failing_env t" by (simp add: failing_env_def)
  have out: "runs_out failing_env (bug_order 4)" by code_simp
  have one: "map wo_id ?ws = [4]"
    by (simp add: handle_ids) (simp add: new_healer_def bug_order_def)
  then obtain x where x: "?ws = [x]" "wo_id x = 4" by auto
  have "wo_status x = ''failed''"
    by (rule failing_order_is_rejected [OF chat prompt db out, where h = ?h and x = x])
      (simp_all add: x, simp_all add: new_healer_def new_tracker_def bug_order_def)
  then show ?thesis by (simp add: Let_def x)
qed

section \<open>Generated orders and sub-agents\<close>

lemma sublist_middle: "sublist k b \<Longrightarrow> sublist k (a @ b @ d)"
  by (auto simp: sublist_def) (metis append.assoc)

lemma notes_begin: "\<exists>rest. order_notes r = ''## Auto-Generated Error Report'' @ rest"
  by (simp add: order_notes_def note_parts_def)

text \<open>Every order the engine generates is one the agent works on: its notes carry the word that the
  severity filter looks for.  It is one the agent gets to see unless its severity is \<open>INFO\<close>, whose
  priority the polling leaves out.\<close>

theorem generated_order_reaches_agent:
  assumes "create_work_order f su r db = (i, db')" and "w \<in> set (od_orders db')" and "w \<notin> set (od_orders db)"
  shows "(is_error_or_warn w, wo_priority w \<le> 3) = (Inr True, er_severity r \<noteq> InfoLevel)"
proof -
  have w: "wo_notes w = Some (order_notes r)" "wo_priority w = priority_of (er_severity r)"
    using assms by (auto simp: create_work_order_def Let_def split: if_splits)
  obtain rest where rest: "order_notes r = ''## Auto-Generated Error Report'' @ rest" using notes_begin by blast
  have "sublist ''error'' (str_lower ''## Auto-Generated Error Report'')" by code_simp
  then have "sublist ''error'' ((str_lower (or_empty (wo_description w)) @ '' '') @ str_lower ''## Auto-Generated Error Report'' @ str_lower rest)"
    by (rule sublist_middle)
  then have "sublist ''error'' (str_lower (or_empty (wo_description w)) @ '' '' @ str_lower (or_empty (wo_notes w)))"
    by (simp add: w rest or_empty_def str_lower_def)
  then have "is_error_or_warn w = Inr True" by (simp add: is_error_or_warn_def has_any_def SEVERITY_KEYWORDS_def)
  moreover have "priority_of (er_severity r) \<le> 3 \<longleftrightarrow> er_severity r \<noteq> InfoLevel"
    by (cases "er_severity r") (simp_all add: priority_of_def)
  ultimately show ?thesis by (simp add: w)
qed

theorem generated_order_reaches_agent_witness:
  "map (\<lambda>w. (is_error_or_warn w, wo_priority w \<le> 3)) (od_orders (snd (create_work_order plain_formats (calm 0) sample_report empty_orders))) =
     [(Inr True, True)]"
proof -
  obtain w where one: "od_orders (snd (create_work_order plain_formats (calm 0) sample_report empty_orders)) = [w]"
    by (simp add: create_work_order_def calm_def empty_orders_def Let_def)
  then show ?thesis
    using generated_order_reaches_agent [of plain_formats "calm 0" sample_report empty_orders
        "fst (create_work_order plain_formats (calm 0) sample_report empty_orders)"
        "snd (create_work_order plain_formats (calm 0) sample_report empty_orders)" w]
    by (simp add: empty_orders_def) (simp add: sample_report_def)
qed

definition sub_prompt :: "string \<Rightarrow> nat \<Rightarrow> string" where
  "sub_prompt task depth = ''You are a focused sub-agent for the DeepSky Self-Healing System.'' @ newline # newline #
     ''## TASK (BOUNDED)'' @ newline # task @ newline # newline # ''## CONSTRAINTS'' @ newline #
     ''- You are at depth '' @ str_int (int depth) @ ''/2'' @ newline # ''- Do NOT spawn any further sub-agents'' @ newline #
     ''- Do NOT modify any state outside your task scope'' @ newline # ''- Complete and report back as quickly as possible'' @ [newline]"

definition spawn_sub_agent :: "healing_env \<Rightarrow> string \<Rightarrow> string \<Rightarrow> op_context option \<Rightarrow> healer \<Rightarrow> (confidence \<times> sub_result) \<times> healer" where
  "spawn_sub_agent env sid task ctx h =
     (case validate_confidence ''spawn_sub_agent'' ctx (hl_tracker h) of
        Refused rs \<Rightarrow> ((Refused rs, SubFails ''refused''), h)
      | Approved \<Rightarrow>
          let (entered, k) = enter sid (hl_tracker h)
          in if \<not> entered then ((Refused [DepthExceeded], SubFails ''Max depth (2) reached''), h)
             else if \<not> he_api env then ((Refused [], SubFails ''No API client available''), h\<lparr>hl_tracker := leave sid k\<rparr>)
             else let ms = [SystemMsg (sub_prompt task (tk_depth k)), UserMsg (task @ [newline, newline] @ ''Use tools to accomplish this task. Report TASK COMPLETE when done.'')];
                      (r, n, t) = sub_loop env 8 ms 0 (hl_chats h) (hl_tick h)
                  in ((Approved, r), h\<lparr>hl_chats := n, hl_tick := t, hl_tracker := leave sid k\<rparr>))"

text \<open>A sub-agent that never says it is done is reported as a success, where the agent itself fails.\<close>

lemma unfinished_talk:
  assumes "\<forall>n ms. he_chat env n ms = Reply True None (Some ''working'') []"
  shows "fst (sub_loop env left ms k n t) = SubOk ''Max iterations reached''" "fst (fix_loop env left ms k n t) = FixExhausted"
proof -
  have no: "\<not> says [''TASK COMPLETE'', ''FIX COMPLETE'', ''DONE''] ''working''" "\<not> says [''TASK COMPLETE'', ''FIX COMPLETE'', ''COMPLETED''] ''working''"
    by code_simp+
  show "fst (sub_loop env left ms k n t) = SubOk ''Max iterations reached''"
    using assms no by (induction left arbitrary: ms n) (simp_all add: or_empty_def)
  show "fst (fix_loop env left ms k n t) = FixExhausted"
    using assms no by (induction left arbitrary: ms n) (simp_all add: or_empty_def)
qed

text \<open>The results of a reply's calls come before the message that made the calls.\<close>

lemma results_before_calls:
  assumes "he_chat env n ms = Reply True None None [tc]" and "tc_name tc \<noteq> []" and "he_tool env t tc = ToolAnswer (Some r) None"
  shows "fst (snd (fix_loop env 1 ms 0 n t)) = ms @ [ToolMsg (tc_id tc) (tc_name tc) (tool_text (ToolAnswer (Some r) None)), CallMsg None [tc]]"
  using assms by (simp add: or_empty_def)


end
