(* ===== verification/DeepApi.thy ===== *)
theory DeepApi
  imports DeepHealing
begin

text \<open>
  The DeepSky client's access to the model, \<open>SCRIPTS/CLIENTS/deepsky_client/api_client.py\<close>: retries with
  exponential backoff and the rotation of keys.  What a request gets back is a function of its number and
  the key in the session's header.
\<close>

section \<open>State\<close>

datatype api_error = NetworkError | AuthError | RateLimit | ServerError | ApiTimeout | MalformedResponse | UnknownApiError

datatype failure_kind = ConnectionFails | BadData | OtherFailure

datatype http =
    Answered "string option" "tool_call list" int
  | HttpStatus int string
  | NoAnswer
  | Breaks failure_kind string

record api_response =
  ar_success :: bool
  ar_error :: "string option"
  ar_category :: "api_error option"
  ar_content :: "string option"
  ar_calls :: "tool_call list"

record api =
  ap_keys :: "string list"
  ap_index :: nat
  ap_retries :: int
  ap_delay :: rat
  ap_timeout :: rat
  ap_budget :: int
  ap_used :: int
  ap_open :: "string option"
  ap_healthy :: bool
  ap_error :: "string option"
  ap_category :: "api_error option"
  ap_posts :: nat

definition new_api :: "string \<Rightarrow> string list \<Rightarrow> int \<Rightarrow> rat \<Rightarrow> rat \<Rightarrow> api" where
  "new_api primary backups retries delay timeout =
     \<lparr>ap_keys = (if primary = [] then [] else [primary]) @ filter (\<lambda>k. k \<noteq> [] \<and> k \<noteq> primary) backups, ap_index = 0,
      ap_retries = retries, ap_delay = delay, ap_timeout = timeout, ap_budget = 65536, ap_used = 0, ap_open = None,
      ap_healthy = True, ap_error = None, ap_category = None, ap_posts = 0\<rparr>"

definition get_current_key :: "api \<Rightarrow> string" where
  "get_current_key s = (if ap_keys s = [] then [] else ap_keys s ! (ap_index s mod length (ap_keys s)))"

text \<open>A session keeps the key with which it was opened.\<close>

definition get_session :: "api \<Rightarrow> string \<times> api" where
  "get_session s = (case ap_open s of Some k \<Rightarrow> (k, s) | None \<Rightarrow> (get_current_key s, s\<lparr>ap_open := Some (get_current_key s)\<rparr>))"

definition rotate_key :: "api \<Rightarrow> bool \<times> api" where
  "rotate_key s =
     (if length (ap_keys s) \<le> 1 then (False, s)
      else (True, s\<lparr>ap_index := (ap_index s + 1) mod length (ap_keys s), ap_open := None\<rparr>))"

definition categorize_status :: "int \<Rightarrow> api_error" where
  "categorize_status st =
     (if st = 401 \<or> st = 403 then AuthError else if st = 429 then RateLimit else if st \<ge> 500 then ServerError else UnknownApiError)"

definition categorize_failure :: "failure_kind \<Rightarrow> api_error" where
  "categorize_failure k = (case k of ConnectionFails \<Rightarrow> NetworkError | BadData \<Rightarrow> MalformedResponse | OtherFailure \<Rightarrow> UnknownApiError)"

section \<open>A request\<close>

definition failed_response :: "string option \<Rightarrow> api_error option \<Rightarrow> api_response" where
  "failed_response e c = \<lparr>ar_success = False, ar_error = e, ar_category = c, ar_content = None, ar_calls = []\<rparr>"

definition backoff :: "api \<Rightarrow> nat \<Rightarrow> rat" where
  "backoff s attempt = ap_delay s * 2 ^ attempt"

text \<open>The loop, with the attempts left and the number of this one; the delays slept are part of the
  result.  A status that no branch treats, like 400, goes on to the next attempt at once.\<close>

fun chat_loop ::
  "(nat \<Rightarrow> string \<Rightarrow> http) \<Rightarrow> (rat \<Rightarrow> string) \<Rightarrow> nat \<Rightarrow> nat \<Rightarrow> string option \<Rightarrow> api_error option \<Rightarrow> api \<Rightarrow> api_response \<times> rat list \<times> api" where
  "chat_loop net fmt 0 a e c s = (failed_response e c, [], s\<lparr>ap_healthy := False, ap_error := e, ap_category := c\<rparr>)"
| "chat_loop net fmt (Suc left) a e c s =
     (let (key, s1) = get_session s; s2 = s1\<lparr>ap_posts := ap_posts s1 + 1\<rparr>;
          again = (\<lambda>delays e c s. case chat_loop net fmt left (a + 1) e c s of (r, ds, s') \<Rightarrow> (r, delays @ ds, s'));
          delay = (if int a < ap_retries s then [backoff s a] else [])
      in case net (ap_posts s1) key of
           Answered content calls tokens \<Rightarrow>
             (\<lparr>ar_success = True, ar_error = None, ar_category = None, ar_content = content, ar_calls = calls\<rparr>, [],
              s2\<lparr>ap_used := ap_used s2 + tokens\<rparr>)
         | HttpStatus st msg \<Rightarrow>
             (let c1 = Some (categorize_status st); e1 = Some (''HTTP '' @ str_int st @ '': '' @ msg)
              in if st = 401 then
                   (case rotate_key s2 of (True, s3) \<Rightarrow> again [] e1 c1 s3 | (False, s3) \<Rightarrow> (failed_response e1 c1, [], s3))
                 else if st = 429 then again [backoff s a] e1 c1 s2
                 else if st \<ge> 500 then again delay e1 c1 s2
                 else again [] e1 c1 s2)
         | NoAnswer \<Rightarrow> again delay (Some (''Request timeout after '' @ fmt (ap_timeout s) @ ''s'')) (Some ApiTimeout) s2
         | Breaks k msg \<Rightarrow> again delay (Some (if k = ConnectionFails then ''Network error: '' @ msg else msg)) (Some (categorize_failure k)) s2)"

declare chat_loop.simps(2) [simp del]

definition chat_completion :: "(nat \<Rightarrow> string \<Rightarrow> http) \<Rightarrow> (rat \<Rightarrow> string) \<Rightarrow> api \<Rightarrow> api_response \<times> rat list \<times> api" where
  "chat_completion net fmt s = chat_loop net fmt (nat (ap_retries s + 1)) 0 None None s"

definition api_check_health :: "(nat \<Rightarrow> string \<Rightarrow> http) \<Rightarrow> (rat \<Rightarrow> string) \<Rightarrow> api \<Rightarrow> bool \<times> api" where
  "api_check_health net fmt s = (let (r, _, s1) = chat_completion net fmt s in (ar_success r, s1\<lparr>ap_healthy := ar_success r\<rparr>))"

definition get_token_budget :: "api \<Rightarrow> int" where
  "get_token_budget s = max 0 (ap_budget s - ap_used s)"

definition close_api :: "api \<Rightarrow> api" where
  "close_api s = s\<lparr>ap_open := None\<rparr>"

section \<open>Attempts and delays\<close>

text \<open>What an attempt that does not end the loop leads to.\<close>

lemma get_session_keeps [simp]:
  "ap_posts (snd (get_session s)) = ap_posts s" "ap_retries (snd (get_session s)) = ap_retries s" "ap_delay (snd (get_session s)) = ap_delay s"
  "ap_keys (snd (get_session s)) = ap_keys s" "ap_index (snd (get_session s)) = ap_index s"
  by (simp_all add: get_session_def split: option.split)

lemma rotate_key_keeps [simp]:
  "ap_posts (snd (rotate_key s)) = ap_posts s" "ap_retries (snd (rotate_key s)) = ap_retries s" "ap_delay (snd (rotate_key s)) = ap_delay s"
  "ap_keys (snd (rotate_key s)) = ap_keys s"
  by (simp_all add: rotate_key_def)

lemma chat_step:
  obtains
    (Ends) r s' where "chat_loop net fmt (Suc left) a e c s = (r, [], s')" "ap_posts s' = ap_posts s + 1"
  | (Goes) ds e' c' s' where "ap_posts s' = ap_posts s + 1" "ap_retries s' = ap_retries s" "ap_delay s' = ap_delay s"
      "ds = [] \<or> ds = [backoff s a]"
      "chat_loop net fmt (Suc left) a e c s =
         (fst (chat_loop net fmt left (a + 1) e' c' s'), ds @ fst (snd (chat_loop net fmt left (a + 1) e' c' s')),
          snd (snd (chat_loop net fmt left (a + 1) e' c' s')))"
proof -
  obtain key s1 where gs: "get_session s = (key, s1)" by (cases "get_session s")
  define s2 where "s2 = s1\<lparr>ap_posts := ap_posts s1 + 1\<rparr>"
  define delay where "delay = (if int a < ap_retries s then [backoff s a] else [])"
  define go where "go = (\<lambda>delays e c s. case chat_loop net fmt left (a + 1) e c s of (r, ds, s') \<Rightarrow> (r, delays @ ds, s'))"
  have keep: "ap_posts s2 = ap_posts s + 1" "ap_retries s2 = ap_retries s" "ap_delay s2 = ap_delay s"
    using get_session_keeps [of s] gs by (simp_all add: s2_def)
  have go: "go delays e' c' s' = (fst (chat_loop net fmt left (a + 1) e' c' s'), delays @ fst (snd (chat_loop net fmt left (a + 1) e' c' s')),
      snd (snd (chat_loop net fmt left (a + 1) e' c' s')))" for delays e' c' s'
    by (simp add: go_def split: prod.split)
  have delay: "delay = [] \<or> delay = [backoff s a]" by (simp add: delay_def)
  have step: "chat_loop net fmt (Suc left) a e c s =
    (case net (ap_posts s1) key of
       Answered content calls tokens \<Rightarrow>
         (\<lparr>ar_success = True, ar_error = None, ar_category = None, ar_content = content, ar_calls = calls\<rparr>, [],
          s2\<lparr>ap_used := ap_used s2 + tokens\<rparr>)
     | HttpStatus st msg \<Rightarrow>
         (let c1 = Some (categorize_status st); e1 = Some (''HTTP '' @ str_int st @ '': '' @ msg)
          in if st = 401 then
               (case rotate_key s2 of (True, s3) \<Rightarrow> go [] e1 c1 s3 | (False, s3) \<Rightarrow> (failed_response e1 c1, [], s3))
             else if st = 429 then go [backoff s a] e1 c1 s2
             else if st \<ge> 500 then go delay e1 c1 s2
             else go [] e1 c1 s2)
     | NoAnswer \<Rightarrow> go delay (Some (''Request timeout after '' @ fmt (ap_timeout s) @ ''s'')) (Some ApiTimeout) s2
     | Breaks k msg \<Rightarrow> go delay (Some (if k = ConnectionFails then ''Network error: '' @ msg else msg)) (Some (categorize_failure k)) s2)"
    unfolding chat_loop.simps gs Let_def prod.case s2_def delay_def go_def ..
  show thesis
  proof (cases "net (ap_posts s1) key")
    case (Answered content calls tokens)
    then have "chat_loop net fmt (Suc left) a e c s =
        (\<lparr>ar_success = True, ar_error = None, ar_category = None, ar_content = content, ar_calls = calls\<rparr>, [],
         s2\<lparr>ap_used := ap_used s2 + tokens\<rparr>)"
      using step by simp
    then show thesis by (rule Ends) (simp add: keep)
  next
    case (HttpStatus st msg)
    obtain b s3 where rk: "rotate_key s2 = (b, s3)" by (cases "rotate_key s2")
    have keep3: "ap_posts s3 = ap_posts s + 1" "ap_retries s3 = ap_retries s" "ap_delay s3 = ap_delay s"
      using rotate_key_keeps [of s2] rk keep by simp_all
    show thesis
    proof (cases "st = 401 \<and> \<not> b")
      case True
      then have "chat_loop net fmt (Suc left) a e c s =
          (failed_response (Some (''HTTP '' @ str_int st @ '': '' @ msg)) (Some (categorize_status st)), [], s3)"
        using step HttpStatus rk by (simp add: Let_def)
      then show thesis by (rule Ends) (simp add: keep3)
    next
      case False
      define s' where "s' = (if st = 401 then s3 else s2)"
      define ds where "ds = (if st = 401 then [] else if st = 429 then [backoff s a] else if st \<ge> 500 then delay else [])"
      have "chat_loop net fmt (Suc left) a e c s = go ds (Some (''HTTP '' @ str_int st @ '': '' @ msg)) (Some (categorize_status st)) s'"
        using step HttpStatus rk False by (cases "st = 401") (simp_all add: Let_def s'_def ds_def)
      moreover have "ap_posts s' = ap_posts s + 1" "ap_retries s' = ap_retries s" "ap_delay s' = ap_delay s"
        by (simp_all add: s'_def keep keep3)
      moreover have "ds = [] \<or> ds = [backoff s a]" using delay by (simp add: ds_def)
      ultimately show thesis unfolding go by (intro Goes)
    qed
  next
    case NoAnswer
    then show thesis using step unfolding go by (intro Goes [OF keep delay]) simp
  next
    case (Breaks k msg)
    then show thesis using step unfolding go by (intro Goes [OF keep delay]) simp
  qed
qed

lemma chat_loop_posts: "ap_posts (snd (snd (chat_loop net fmt left a e c s))) \<le> ap_posts s + left"
proof (induction left arbitrary: a e c s)
  case (Suc left)
  show ?case
  proof (cases net fmt left a e c s rule: chat_step)
    case (Goes ds e' c' s')
    then show ?thesis using Suc [of "a + 1" e' c' s'] by simp
  qed simp
qed simp

lemma chat_loop_delays:
  "0 \<le> ap_delay s \<Longrightarrow> sum_list (fst (snd (chat_loop net fmt left a e c s))) \<le> ap_delay s * 2 ^ a * (2 ^ left - 1)"
proof (induction left arbitrary: a e c s)
  case (Suc left)
  have "(1 :: rat) \<le> 2 ^ Suc left" by (rule one_le_power) simp
  then have pos: "0 \<le> ap_delay s * 2 ^ a * (2 ^ Suc left - 1)" using Suc.prems by (intro mult_nonneg_nonneg) simp_all
  show ?case
  proof (cases net fmt left a e c s rule: chat_step)
    case (Ends r s')
    then show ?thesis using pos by simp
  next
    case (Goes ds e' c' s')
    have "sum_list (fst (snd (chat_loop net fmt left (a + 1) e' c' s'))) \<le> ap_delay s * 2 ^ (a + 1) * (2 ^ left - 1)"
      using Suc.IH [of s' "a + 1" e' c'] Suc.prems Goes(3) by simp
    moreover have "sum_list ds \<le> ap_delay s * 2 ^ a" using Goes(4) Suc.prems by (auto simp: backoff_def)
    moreover have "ap_delay s * 2 ^ a + ap_delay s * 2 ^ (a + 1) * (2 ^ left - 1) = ap_delay s * 2 ^ a * (2 ^ Suc left - 1)"
      by (simp add: algebra_simps)
    ultimately show ?thesis using Goes(5) by simp
  qed
qed simp

text \<open>A call to the model ends after \<open>max_retries + 1\<close> requests at most, whatever the network does and
  however many keys there are.\<close>

theorem chat_posts_bounded:
  "ap_posts (snd (snd (chat_completion net fmt s))) \<le> ap_posts s + nat (ap_retries s + 1)"
  unfolding chat_completion_def by (rule chat_loop_posts)

text \<open>The delays of a call add up to at most \<open>base * (2 ^ (max_retries + 1) - 1)\<close>.\<close>

theorem backoff_total:
  assumes "0 \<le> ap_delay s" and "0 \<le> ap_retries s"
  shows "sum_list (fst (snd (chat_completion net fmt s))) \<le> ap_delay s * (2 ^ nat (ap_retries s + 1) - 1)"
  unfolding chat_completion_def using chat_loop_delays [OF assms(1), of net fmt "nat (ap_retries s + 1)" 0 None None] by simp

theorem backoff_total_witness:
  "sum_list (fst (snd (chat_completion (\<lambda>_ _. HttpStatus 429 ''slow'') (\<lambda>_. ''30.0'') (new_api ''k'' [] 2 1 30)))) \<le> (7 :: rat)"
  using backoff_total [of "new_api ''k'' [] 2 1 30" "\<lambda>_ _. HttpStatus 429 ''slow''" "\<lambda>_. ''30.0''"] by (simp add: new_api_def)

text \<open>One key that is refused: no retry, and the client stays healthy.\<close>

lemma single_key_refused:
  assumes "net (ap_posts s) (fst (get_session s)) = HttpStatus 401 msg" and "length (ap_keys s) \<le> 1" and "0 \<le> ap_retries s"
  shows "ar_category (fst (chat_completion net fmt s)) = Some AuthError \<and> ap_healthy (snd (snd (chat_completion net fmt s))) = ap_healthy s"
proof -
  obtain n where n: "nat (ap_retries s + 1) = Suc n" using assms(3) by (cases "nat (ap_retries s + 1)") auto
  obtain key s1 where gs: "get_session s = (key, s1)" by (cases "get_session s")
  have "ap_healthy s1 = ap_healthy s" "ap_keys s1 = ap_keys s" "ap_posts s1 = ap_posts s"
    using gs by (auto simp: get_session_def split: option.splits)
  then show ?thesis using assms gs n
    by (simp add: chat_completion_def chat_loop.simps rotate_key_def failed_response_def categorize_status_def Let_def)
qed

text \<open>The key of a request is the current one: a session is dropped whenever the index moves.\<close>

definition key_fits :: "api \<Rightarrow> bool" where
  "key_fits s = (case ap_open s of None \<Rightarrow> True | Some k \<Rightarrow> k = get_current_key s)"

lemma get_session_key: "key_fits s \<Longrightarrow> fst (get_session s) = get_current_key s \<and> key_fits (snd (get_session s))"
  by (auto simp: key_fits_def get_session_def get_current_key_def split: option.splits)

lemma rotate_key_fits: "key_fits s \<Longrightarrow> key_fits (snd (rotate_key s))"
  by (auto simp: key_fits_def rotate_key_def split: option.splits)

end
