(* ===== verification/RunnerFiles.thy ===== *)
theory RunnerFiles
  imports AtomicJournal DatagramTypes PyDict "HOL-Library.Sublist" "HOL-Library.List_Lexorder"
begin

text \<open>
  The stored files of the server runner, \<open>SCRIPTS/SERVERS/mc-server-runner/engine\<close>: the tables of
  \<open>database.py\<close> that hold files, their journal and its rollback, and the virtual file system of
  \<open>vfs.py\<close> over them and over a disk.  zlib and SHA-256 are the fields of \<open>packing\<close>; time stamps are
  left out.  The statements of one call are taken to succeed.
\<close>

section \<open>The database\<close>

record packing =
  pk_compress :: "byte list \<Rightarrow> byte list"
  pk_decompress :: "byte list \<Rightarrow> byte list result"
  pk_sha :: "byte list \<Rightarrow> string"

record file_row =
  nd_id :: nat
  nd_blob :: "byte list"
  nd_size :: nat
  nd_packed :: nat
  nd_mode :: string

record file_meta =
  fm_type :: string
  fm_name :: string
  fm_import :: string
  fm_validation :: string

record conversion =
  cv_path :: string
  cv_direction :: string
  cv_hash :: string
  cv_size :: nat

text \<open>The snapshot of a file before a change: its content in hexadecimal and its mode.\<close>

record snapshot =
  sn_blob :: "string option"
  sn_mode :: string

record op_row =
  or_type :: string
  or_key :: string
  or_before :: snapshot
  or_status :: string

record mod_row =
  md_id :: nat
  md_name :: string
  md_version :: string
  md_mc :: string
  md_loader :: string
  md_enabled :: bool

record backup_row =
  bk_mod :: nat
  bk_version :: string
  bk_blob :: "byte list option"
  bk_hash :: "string option"
  bk_created :: int

record server_row =
  sv_name :: string
  sv_mc :: string
  sv_kind :: string

record runner_db =
  rd_nodes :: "(string, file_row) table"
  rd_meta :: "(nat, file_meta) table"
  rd_next_node :: nat
  rd_log :: "conversion list"
  rd_ops :: "(int, op_row) table"
  rd_next_op :: int
  rd_mods :: "(string, mod_row) table"
  rd_next_mod :: nat
  rd_deps :: "(nat \<times> nat, bool) table"
  rd_backups :: "(nat, backup_row) table"
  rd_servers :: "(nat, server_row) table"

definition empty_runner :: runner_db where
  "empty_runner = \<lparr>rd_nodes = [], rd_meta = [], rd_next_node = 1, rd_log = [], rd_ops = [], rd_next_op = 1, rd_mods = [],
     rd_next_mod = 1, rd_deps = [], rd_backups = [], rd_servers = []\<rparr>"

text \<open>\<open>os.path.basename\<close>\<close>

definition basename :: "string \<Rightarrow> string" where
  "basename p = rev (takeWhile (\<lambda>c. c \<noteq> CHR ''/'') (rev p))"

definition strip_slashes :: "string \<Rightarrow> string" where
  "strip_slashes p = rev (dropWhile (\<lambda>c. c = CHR ''/'') (rev p))"

section \<open>Files in the database\<close>

definition store_file :: "packing \<Rightarrow> string \<Rightarrow> byte list \<Rightarrow> string \<Rightarrow> string \<Rightarrow> string option \<Rightarrow> runner_db \<Rightarrow> nat \<times> runner_db" where
  "store_file z path data mode ctype name db =
     (let packed = pk_compress z data;
          (i, fresh) = (case row_at path (rd_nodes db) of Some n \<Rightarrow> (nd_id n, False) | None \<Rightarrow> (rd_next_node db, True));
          file_row = \<lparr>nd_id = i, nd_blob = packed, nd_size = length data, nd_packed = length packed, nd_mode = mode\<rparr>;
          m = \<lparr>fm_type = ctype, fm_name = (case name of Some n \<Rightarrow> if n = [] then basename (strip_slashes path) else n
                                            | None \<Rightarrow> basename (strip_slashes path)),
               fm_import = pk_sha z data, fm_validation = pk_sha z packed\<rparr>
      in (i, db\<lparr>rd_nodes := dict_set path file_row (rd_nodes db), rd_meta := dict_set i m (rd_meta db),
                rd_next_node := (if fresh then rd_next_node db + 1 else rd_next_node db)\<rparr>))"

definition get_raw_file :: "string \<Rightarrow> runner_db \<Rightarrow> file_row option" where
  "get_raw_file path db = row_at path (rd_nodes db)"

text \<open>\<open>get_file\<close> unpacks the blob.\<close>

definition get_file :: "packing \<Rightarrow> string \<Rightarrow> runner_db \<Rightarrow> (byte list \<times> string) option result" where
  "get_file z path db =
     (case row_at path (rd_nodes db) of
        None \<Rightarrow> Inr None
      | Some n \<Rightarrow> bind_result (pk_decompress z (nd_blob n)) (\<lambda>data. Inr (Some (data, nd_mode n))))"

definition delete_file :: "string \<Rightarrow> runner_db \<Rightarrow> bool \<times> runner_db" where
  "delete_file path db =
     (case row_at path (rd_nodes db) of
        None \<Rightarrow> (False, db)
      | Some n \<Rightarrow> (True, db\<lparr>rd_nodes := delete_row path (rd_nodes db), rd_meta := delete_row (nd_id n) (rd_meta db)\<rparr>))"

text \<open>The prefix is a pattern of \<open>LIKE\<close>: its own \<open>%\<close> and \<open>_\<close> are wild.\<close>

definition list_files :: "string \<Rightarrow> runner_db \<Rightarrow> (string \<times> file_row) list" where
  "list_files pre db =
     sort_key fst (if pre = [] then rd_nodes db
       else filter (\<lambda>(p, n). p = pre \<or> like (strip_slashes pre @ ''/%'') p) (rd_nodes db))"

definition log_conversion :: "string \<Rightarrow> string \<Rightarrow> string \<Rightarrow> nat \<Rightarrow> runner_db \<Rightarrow> runner_db" where
  "log_conversion path direction h sz db =
     db\<lparr>rd_log := rd_log db @ [\<lparr>cv_path = path, cv_direction = direction, cv_hash = h, cv_size = sz\<rparr>]\<rparr>"

section \<open>The journal's table\<close>

text \<open>\<open>insert_operation\<close> numbers the row itself; \<open>update_operation\<close> goes by the journal's number.\<close>

definition status_text :: "op_status \<Rightarrow> string" where
  "status_text s = (case s of Pending \<Rightarrow> ''pending'' | Committed \<Rightarrow> ''committed'' | RolledBack \<Rightarrow> ''rolled_back'')"

definition apply_call :: "snapshot db_call \<Rightarrow> runner_db \<Rightarrow> runner_db" where
  "apply_call c db = (case c of
     InsertOperation op \<Rightarrow> db\<lparr>rd_ops := rd_ops db @ [(rd_next_op db, \<lparr>or_type = op_type op, or_key = op_key op,
        or_before = before_state op, or_status = ''pending''\<rparr>)], rd_next_op := rd_next_op db + 1\<rparr>
   | UpdateOperation op \<Rightarrow> db\<lparr>rd_ops := update_row (op_id op) (\<lambda>r. r\<lparr>or_status := status_text (op_status op)\<rparr>) (rd_ops db)\<rparr>)"

definition begin_atomic :: "string \<Rightarrow> string \<Rightarrow> snapshot \<Rightarrow> runner_db \<Rightarrow> int \<times> runner_db" where
  "begin_atomic ty key before db =
     (rd_next_op db, db\<lparr>rd_ops := rd_ops db @ [(rd_next_op db, \<lparr>or_type = ty, or_key = key, or_before = before, or_status = ''pending''\<rparr>)],
        rd_next_op := rd_next_op db + 1\<rparr>)"

definition commit_atomic :: "int \<Rightarrow> runner_db \<Rightarrow> bool \<times> runner_db" where
  "commit_atomic i db =
     (row_at i (rd_ops db) \<noteq> None, db\<lparr>rd_ops := update_row i (\<lambda>r. r\<lparr>or_status := ''committed''\<rparr>) (rd_ops db)\<rparr>)"

datatype undo_result = Undone | OpNotFound | AlreadyUndone | UndoFails py_error

definition undo_file :: "packing \<Rightarrow> string \<Rightarrow> snapshot \<Rightarrow> bool \<Rightarrow> runner_db \<Rightarrow> runner_db result" where
  "undo_file z path before delete_new db =
     (case sn_blob before of
        Some h \<Rightarrow> bind_result (from_hex h) (\<lambda>data. Inr (snd (store_file z path data (sn_mode before) ''application/octet-stream'' None db)))
      | None \<Rightarrow> Inr (if delete_new then snd (delete_file path db) else db))"

text \<open>The snapshots here are those of files; a \<open>mod_install\<close> disables the mod.\<close>

definition rollback_atomic :: "packing \<Rightarrow> int \<Rightarrow> runner_db \<Rightarrow> undo_result \<times> runner_db" where
  "rollback_atomic z i db =
     (case row_at i (rd_ops db) of
        None \<Rightarrow> (OpNotFound, db)
      | Some r \<Rightarrow>
          if or_status r = ''rolled_back'' then (AlreadyUndone, db)
          else
            (case (if or_type r = ''file_write'' then undo_file z (or_key r) (or_before r) True db
                   else if or_type r = ''file_delete'' then undo_file z (or_key r) (or_before r) False db
                   else if or_type r = ''mod_install'' then Inr (db\<lparr>rd_mods := update_row (or_key r) (\<lambda>m. m\<lparr>md_enabled := False\<rparr>) (rd_mods db)\<rparr>)
                   else Inr db) of
               Inl e \<Rightarrow> (UndoFails e, db)
             | Inr db1 \<Rightarrow> (Undone, db1\<lparr>rd_ops := update_row i (\<lambda>r. r\<lparr>or_status := ''rolled_back''\<rparr>) (rd_ops db1)\<rparr>)))"

section \<open>The virtual file system\<close>

definition normalize_path :: "string \<Rightarrow> string" where
  "normalize_path p =
     (let q = CHR ''/'' # dropWhile (\<lambda>c. c = CHR ''/'') p
      in if length q > 1 \<and> last q = CHR ''/'' then strip_slashes q else q)"

text \<open>The disk: what stands at a resolved path, a file or a directory.  The operating system resolves
  \<open>..\<close> in the joined path; \<open>pathlib\<close> drops empty components and \<open>.\<close>.\<close>

type_synonym host_disk = "(string list, byte list option) table"

fun walk_parts :: "string list \<Rightarrow> string list \<Rightarrow> string list" where
  "walk_parts cur [] = cur"
| "walk_parts cur (p # ps) =
     (if p = [] \<or> p = ''.'' then walk_parts cur ps else if p = ''..'' then walk_parts (butlast cur) ps else walk_parts (cur @ [p]) ps)"

definition physical :: "string list \<Rightarrow> string \<Rightarrow> string list" where
  "physical home path = walk_parts home (split_on (CHR ''/'') path)"

record run_vfs =
  rv_home :: "string list"
  rv_db :: runner_db
  rv_journal :: "snapshot journal"
  rv_disk :: host_disk

text \<open>An operation of the journal, with the calls it makes to the database.\<close>

definition journaled :: "string \<Rightarrow> string \<Rightarrow> snapshot \<Rightarrow> run_vfs \<Rightarrow> run_vfs" where
  "journaled ty path before v =
     (let (i, j1) = journal_begin ty path before [] ((rv_journal v)\<lparr>j_db := Some []\<rparr>);
          (_, j2) = journal_commit i None j1
      in v\<lparr>rv_journal := j2\<lparr>j_db := Some []\<rparr>, rv_db := fold apply_call (case j_db j2 of None \<Rightarrow> [] | Some cs \<Rightarrow> cs) (rv_db v)\<rparr>)"

definition vfs_get :: "packing \<Rightarrow> string \<Rightarrow> run_vfs \<Rightarrow> byte list option result" where
  "vfs_get z path v =
     (case get_raw_file (normalize_path path) (rv_db v) of
        None \<Rightarrow> Inr None
      | Some n \<Rightarrow> bind_result (pk_decompress z (nd_blob n)) (\<lambda>data. Inr (Some data)))"

definition before_snapshot :: "packing \<Rightarrow> bool \<Rightarrow> string \<Rightarrow> runner_db \<Rightarrow> snapshot option result" where
  "before_snapshot z atomic path db =
     (if atomic then bind_result (get_file z path db) (\<lambda>f. Inr (case f of None \<Rightarrow> None
        | Some (data, mode) \<Rightarrow> Some \<lparr>sn_blob = Some (to_hex data), sn_mode = mode\<rparr>))
      else Inr None)"

definition vfs_write :: "packing \<Rightarrow> string \<Rightarrow> byte list \<Rightarrow> string \<Rightarrow> string \<Rightarrow> string option \<Rightarrow> bool \<Rightarrow> run_vfs \<Rightarrow> unit result \<times> run_vfs" where
  "vfs_write z path data mode ctype name atomic v =
     (let p = normalize_path path
      in case before_snapshot z atomic p (rv_db v) of
           Inl e \<Rightarrow> (Inl e, v)
         | Inr before \<Rightarrow>
             let n = (case name of Some n \<Rightarrow> if n = [] then basename p else n | None \<Rightarrow> basename p);
                 db1 = snd (store_file z p data mode ctype (Some n) (rv_db v));
                 v1 = v\<lparr>rv_db := log_conversion p ''import'' (pk_sha z data) (length data) db1\<rparr>
             in (Inr (), case before of None \<Rightarrow> v1 | Some s \<Rightarrow> journaled ''file_write'' p s v1))"

definition vfs_delete :: "packing \<Rightarrow> string \<Rightarrow> bool \<Rightarrow> run_vfs \<Rightarrow> bool result \<times> run_vfs" where
  "vfs_delete z path atomic v =
     (let p = normalize_path path
      in case before_snapshot z atomic p (rv_db v) of
           Inl e \<Rightarrow> (Inl e, v)
         | Inr before \<Rightarrow>
             let (r, db1) = delete_file p (rv_db v); v1 = v\<lparr>rv_db := db1\<rparr>;
                 v2 = (case before of Some s \<Rightarrow> if r then journaled ''file_delete'' p s v1 else v1 | None \<Rightarrow> v1);
                 q = physical (rv_home v) p
             in (case row_at q (rv_disk v2) of
                   None \<Rightarrow> (Inr r, v2)
                 | Some None \<Rightarrow> (Inl OSError, v2)
                 | Some (Some _) \<Rightarrow> (Inr r, v2\<lparr>rv_disk := delete_row q (rv_disk v2)\<rparr>)))"

definition vfs_has :: "packing \<Rightarrow> string \<Rightarrow> run_vfs \<Rightarrow> bool result" where
  "vfs_has z path v =
     (let p = normalize_path path
      in bind_result (get_file z p (rv_db v)) (\<lambda>f. if f \<noteq> None then Inr True
           else bind_result (get_file z (p @ ''/.vfs_dir'') (rv_db v)) (\<lambda>d. Inr (d \<noteq> None))))"

record entry_info =
  ei_path :: string
  ei_dir :: bool
  ei_size :: nat

fun list_entries :: "string \<Rightarrow> (string \<times> file_row) list \<Rightarrow> string list \<Rightarrow> entry_info list" where
  "list_entries pre [] seen = []"
| "list_entries pre ((p, n) # fs) seen =
     (let rel = (if prefix pre p then drop (length pre) p else p)
      in if CHR ''/'' \<in> set rel then
           (let d = takeWhile (\<lambda>c. c \<noteq> CHR ''/'') rel
            in if d \<in> set seen then list_entries pre fs seen
               else \<lparr>ei_path = pre @ d, ei_dir = True, ei_size = 0\<rparr> # list_entries pre fs (d # seen))
         else \<lparr>ei_path = p, ei_dir = False, ei_size = nd_size n\<rparr> # list_entries pre fs seen)"

definition vfs_listdir :: "string \<Rightarrow> run_vfs \<Rightarrow> entry_info list" where
  "vfs_listdir path v =
     (let p = normalize_path path; pre = (if last p = CHR ''/'' then p else p @ ''/'')
      in list_entries pre (list_files pre (rv_db v)) [])"

text \<open>The directories of the path that are missing; a file in the way raises.\<close>

definition make_parents :: "string list \<Rightarrow> host_disk \<Rightarrow> host_disk result" where
  "make_parents q d =
     fold (\<lambda>k r. bind_result r (\<lambda>d. case row_at (take k q) d of
        Some (Some _) \<Rightarrow> Inl OSError | Some None \<Rightarrow> Inr d | None \<Rightarrow> Inr (dict_set (take k q) None d))) [1..<length q + 1] (Inr d)"

definition vfs_mkdir :: "packing \<Rightarrow> string \<Rightarrow> run_vfs \<Rightarrow> unit result \<times> run_vfs" where
  "vfs_mkdir z path v =
     (let p = normalize_path path
      in case make_parents (physical (rv_home v) p) (rv_disk v) of
           Inl e \<Rightarrow> (Inl e, v)
         | Inr d \<Rightarrow> (Inr (), v\<lparr>rv_disk := d,
             rv_db := snd (store_file z (p @ ''/.vfs_dir'') (map (\<lambda>c. of_char c) ''VFS_DIRECTORY'') ''755'' ''inode/directory'' None (rv_db v))\<rparr>))"

definition write_host :: "string list \<Rightarrow> byte list \<Rightarrow> host_disk \<Rightarrow> host_disk result" where
  "write_host q data d =
     bind_result (make_parents (butlast q) d) (\<lambda>d1. if row_at q d1 = Some None then Inl OSError else Inr (dict_set q (Some data) d1))"

definition vfs_extract :: "packing \<Rightarrow> string \<Rightarrow> bool \<Rightarrow> run_vfs \<Rightarrow> string list result \<times> run_vfs" where
  "vfs_extract z path validate v =
     (let p = normalize_path path; q = physical (rv_home v) p
      in case get_raw_file p (rv_db v) of
           None \<Rightarrow> (Inl VFSPathError, v)
         | Some n \<Rightarrow>
             let m = row_at (nd_id n) (rd_meta (rv_db v));
                 validation = (case m of Some x \<Rightarrow> fm_validation x | None \<Rightarrow> []);
                 import = (case m of Some x \<Rightarrow> fm_import x | None \<Rightarrow> [])
             in case make_parents (butlast q) (rv_disk v) of
                  Inl e \<Rightarrow> (Inl e, v)
                | Inr d0 \<Rightarrow>
                    let v0 = v\<lparr>rv_disk := d0\<rparr>
                    in if pk_sha z (nd_blob n) \<noteq> validation then (Inl VFSPathError, v0)
                       else (case pk_decompress z (nd_blob n) of
                               Inl e \<Rightarrow> (Inl e, v0)
                             | Inr data \<Rightarrow>
                                 (case write_host q data d0 of
                                    Inl e \<Rightarrow> (Inl VFSPathError, v0)
                                  | Inr d1 \<Rightarrow>
                                      let v1 = v0\<lparr>rv_disk := d1, rv_db := log_conversion p ''extract'' validation (nd_size n) (rv_db v)\<rparr>
                                      in if validate \<and> import \<noteq> [] \<and> pk_sha z data \<noteq> import
                                         then (Inl VFSPathError, v1\<lparr>rv_disk := delete_row q d1\<rparr>)
                                         else (Inr q, v1))))"

fun extract_files :: "packing \<Rightarrow> (string \<times> file_row) list \<Rightarrow> nat \<Rightarrow> run_vfs \<Rightarrow> nat result \<times> run_vfs" where
  "extract_files z [] k v = (Inr k, v)"
| "extract_files z ((p, n) # fs) k v =
     (case vfs_extract z p True v of
        (Inr _, v1) \<Rightarrow> extract_files z fs (k + 1) v1
      | (Inl e, v1) \<Rightarrow> if e = VFSPathError then extract_files z fs k v1 else (Inl e, v1))"

definition vfs_extract_all :: "packing \<Rightarrow> string \<Rightarrow> run_vfs \<Rightarrow> nat result \<times> run_vfs" where
  "vfs_extract_all z pre v = extract_files z (list_files (normalize_path pre) (rv_db v)) 0 v"

definition vfs_import :: "packing \<Rightarrow> (string list \<Rightarrow> string) \<Rightarrow> string list \<Rightarrow> string \<Rightarrow> string option \<Rightarrow> run_vfs \<Rightarrow> string result \<times> run_vfs" where
  "vfs_import z mode_of host ctype path v =
     (case row_at host (rv_disk v) of
        Some (Some data) \<Rightarrow>
          let name = (if host = [] then [] else last host);
              p = normalize_path (case path of Some p \<Rightarrow> p | None \<Rightarrow> CHR ''/'' # name);
              db1 = snd (store_file z p data (mode_of host) ctype (Some name) (rv_db v))
          in (Inr p, v\<lparr>rv_db := log_conversion p ''import'' (pk_sha z data) (length data) db1\<rparr>)
      | _ \<Rightarrow> (Inl VFSPathError, v))"

text \<open>\<open>commit_all\<close> reads a key that the pending operations do not have.\<close>

definition vfs_commit_all :: "run_vfs \<Rightarrow> nat result \<times> run_vfs" where
  "vfs_commit_all v = (if j_pending (rv_journal v) = [] then (Inr 0, v) else (Inl KeyError, v))"

definition vfs_rollback_all :: "run_vfs \<Rightarrow> nat \<times> run_vfs" where
  "vfs_rollback_all v =
     (let (ss, j) = rollback_all ((rv_journal v)\<lparr>j_db := Some []\<rparr>)
      in (length ss, v\<lparr>rv_journal := j\<lparr>j_db := Some []\<rparr>, rv_db := fold apply_call (case j_db j of None \<Rightarrow> [] | Some cs \<Rightarrow> cs) (rv_db v)\<rparr>))"

section \<open>Paths\<close>

lemma strip_slashes_keeps: "c \<noteq> CHR ''/'' \<Longrightarrow> \<exists>cs. strip_slashes (CHR ''/'' # xs @ c # ys) = CHR ''/'' # cs"
proof (induction ys rule: rev_induct)
  case Nil
  then show ?case by (simp add: strip_slashes_def)
next
  case (snoc y ys)
  then show ?case by (cases "y = CHR ''/''") (simp_all add: strip_slashes_def)
qed

lemma normalize_nonempty: "\<exists>cs. normalize_path p = CHR ''/'' # cs"
proof (cases "dropWhile (\<lambda>c. c = CHR ''/'') p")
  case Nil
  then show ?thesis by (simp add: normalize_path_def)
next
  case (Cons c cs)
  then have "c \<noteq> CHR ''/''" by (simp only: dropWhile_eq_Cons_conv) blast
  from strip_slashes_keeps [OF this, of "[]" cs] Cons show ?thesis by (simp add: normalize_path_def Let_def)
qed

lemma walk_under: "''..'' \<notin> set ps \<Longrightarrow> prefix home (walk_parts (home @ ns) ps)"
proof (induction ps arbitrary: ns)
  case (Cons p ps)
  then have "p \<noteq> ''..''" "''..'' \<notin> set ps" by auto
  then show ?case using Cons.IH [of ns] Cons.IH [of "ns @ [p]"] by (simp only: walk_parts.simps if_False append_assoc split: if_split) simp
qed simp

text \<open>A path without \<open>..\<close> stays below the root of the file system; one with it need not.\<close>

lemma physical_under: "''..'' \<notin> set (split_on (CHR ''/'') p) \<Longrightarrow> prefix home (physical home p)"
  using walk_under [of _ home "[]"] by (simp add: physical_def)

section \<open>Reading what was written\<close>

lemma row_at_dict: "row_at k' (dict_set k v d) = (if k' = k then Some v else row_at k' d)"
  by (rule dict.get_put)

lemma apply_call_files: "rd_nodes (apply_call c db) = rd_nodes db \<and> rd_meta (apply_call c db) = rd_meta db"
  by (cases c) (simp_all add: apply_call_def)

lemma apply_calls_files: "rd_nodes (fold apply_call cs db) = rd_nodes db \<and> rd_meta (fold apply_call cs db) = rd_meta db"
  by (induction cs arbitrary: db) (simp_all add: apply_call_files)

lemma journaled_files: "rd_nodes (rv_db (journaled ty p s v)) = rd_nodes (rv_db v)" "rd_meta (rv_db (journaled ty p s v)) = rd_meta (rv_db v)"
  "rv_disk (journaled ty p s v) = rv_disk v" "rv_home (journaled ty p s v) = rv_home v"
  by (simp_all add: journaled_def apply_calls_files split: prod.split)

definition packs :: "packing \<Rightarrow> bool" where
  "packs z = (\<forall>data. pk_decompress z (pk_compress z data) = Inr data)"

lemma store_nodes: "row_at q (rd_nodes (snd (store_file z p data mode ct nm db))) =
   (if q = p then Some \<lparr>nd_id = (case row_at p (rd_nodes db) of Some n \<Rightarrow> nd_id n | None \<Rightarrow> rd_next_node db), nd_blob = pk_compress z data,
      nd_size = length data, nd_packed = length (pk_compress z data), nd_mode = mode\<rparr> else row_at q (rd_nodes db))"
  by (simp add: store_file_def Let_def row_at_dict split: option.split)

lemma store_meta: "\<exists>nm' ct'. row_at i (rd_meta (snd (store_file z p data mode ct nm db))) =
   (if i = (case row_at p (rd_nodes db) of Some n \<Rightarrow> nd_id n | None \<Rightarrow> rd_next_node db)
    then Some \<lparr>fm_type = ct', fm_name = nm', fm_import = pk_sha z data, fm_validation = pk_sha z (pk_compress z data)\<rparr>
    else row_at i (rd_meta db))"
  by (simp add: store_file_def Let_def row_at_dict split: option.split)

lemma log_files [simp]: "rd_nodes (log_conversion p d h n db) = rd_nodes db" "rd_meta (log_conversion p d h n db) = rd_meta db"
  "rd_next_node (log_conversion p d h n db) = rd_next_node db"
  by (simp_all add: log_conversion_def)

text \<open>A write changes the file of its path and no other.\<close>

lemma write_nodes: "fst (vfs_write z p data mode ct nm a v) = Inr () \<Longrightarrow>
  row_at q (rd_nodes (rv_db (snd (vfs_write z p data mode ct nm a v)))) =
   (if q = normalize_path p then Some \<lparr>nd_id = (case row_at (normalize_path p) (rd_nodes (rv_db v)) of Some n \<Rightarrow> nd_id n | None \<Rightarrow> rd_next_node (rv_db v)),
      nd_blob = pk_compress z data, nd_size = length data, nd_packed = length (pk_compress z data), nd_mode = mode\<rparr>
    else row_at q (rd_nodes (rv_db v)))"
  by (simp add: vfs_write_def Let_def journaled_files store_nodes split: sum.splits option.splits)

lemma failed_write: "fst (vfs_write z p data mode ct nm a v) = Inl e \<Longrightarrow> snd (vfs_write z p data mode ct nm a v) = v"
  by (simp add: vfs_write_def Let_def split: sum.splits)

text \<open>Reading after writing.  After \<open>write(p, data)\<close> returns, a read of a path that normalises
  to the same one gives the data, and a read of any other path gives what it gave before.\<close>

theorem read_what_was_written:
  "packs z \<Longrightarrow> fst (vfs_write z p data mode ct nm a v) = Inr () \<Longrightarrow>
   vfs_get z q (snd (vfs_write z p data mode ct nm a v)) =
     (if normalize_path q = normalize_path p then Inr (Some data) else vfs_get z q v)"
  by (simp add: vfs_get_def get_raw_file_def write_nodes packs_def)

definition no_packing :: packing where
  "no_packing = \<lparr>pk_compress = (\<lambda>d. d), pk_decompress = Inr, pk_sha = (\<lambda>d. ''hash'' @ map (\<lambda>b. char_of (unat b)) d)\<rparr>"

definition fresh_vfs :: run_vfs where
  "fresh_vfs = \<lparr>rv_home = [''srv'', ''vfs''], rv_db = empty_runner, rv_journal = new_journal None, rv_disk = [([], None), ([''srv''], None), ([''srv'', ''vfs''], None)]\<rparr>"

theorem read_what_was_written_witness:
  "vfs_get no_packing ''//a/b'' (snd (vfs_write no_packing ''a/b/'' [1, 2] ''644'' ''text/plain'' None True fresh_vfs)) = Inr (Some [1, 2])"
proof -
  have "packs no_packing" by (simp add: packs_def no_packing_def)
  moreover have "fst (vfs_write no_packing ''a/b/'' [1, 2] ''644'' ''text/plain'' None True fresh_vfs) = Inr ()" by code_simp
  moreover have "normalize_path ''//a/b'' = normalize_path ''a/b/''" by code_simp
  ultimately show ?thesis by (simp add: read_what_was_written)
qed


section \<open>Intact files\<close>

text \<open>Every stored blob is a packed one with its two hashes, and no two files share a number.\<close>

definition file_ok :: "packing \<Rightarrow> runner_db \<Rightarrow> file_row \<Rightarrow> bool" where
  "file_ok z db n = (\<exists>data m. nd_blob n = pk_compress z data \<and> row_at (nd_id n) (rd_meta db) = Some m \<and>
     fm_import m = pk_sha z data \<and> fm_validation m = pk_sha z (nd_blob n))"

definition files_ok :: "packing \<Rightarrow> runner_db \<Rightarrow> bool" where
  "files_ok z db = ((\<forall>p n. row_at p (rd_nodes db) = Some n \<longrightarrow> file_ok z db n \<and> nd_id n < rd_next_node db) \<and>
     (\<forall>p q n n'. row_at p (rd_nodes db) = Some n \<longrightarrow> row_at q (rd_nodes db) = Some n' \<longrightarrow> nd_id n = nd_id n' \<longrightarrow> p = q))"

lemma files_ok_D:
  assumes "files_ok z db" "row_at p (rd_nodes db) = Some n"
  shows "file_ok z db n" "nd_id n < rd_next_node db" "\<And>q n'. row_at q (rd_nodes db) = Some n' \<Longrightarrow> nd_id n = nd_id n' \<Longrightarrow> p = q"
  using assms unfolding files_ok_def by blast+

lemma files_ok_cong: "rd_nodes db' = rd_nodes db \<Longrightarrow> rd_meta db' = rd_meta db \<Longrightarrow> rd_next_node db' = rd_next_node db \<Longrightarrow> files_ok z db' = files_ok z db"
  by (simp add: files_ok_def file_ok_def)

lemma store_next: "rd_next_node (snd (store_file z p data mode ct nm db)) =
    (case row_at p (rd_nodes db) of Some n \<Rightarrow> rd_next_node db | None \<Rightarrow> rd_next_node db + 1)"
  by (simp add: store_file_def Let_def split: option.split)

lemma files_ok_store:
  assumes ok: "files_ok z db"
  shows "files_ok z (snd (store_file z p data mode ct nm db))"
proof -
  let ?db = "snd (store_file z p data mode ct nm db)"
  let ?i = "case row_at p (rd_nodes db) of Some n \<Rightarrow> nd_id n | None \<Rightarrow> rd_next_node db"
  have other: "nd_id n \<noteq> ?i" if "row_at q (rd_nodes db) = Some n" "q \<noteq> p" for q n
  proof (cases "row_at p (rd_nodes db)")
    case None
    then show ?thesis using files_ok_D(2) [OF ok that(1)] by simp
  next
    case (Some m)
    then show ?thesis using files_ok_D(3) [OF ok that(1), of p m] that(2) by simp metis
  qed
  have fresh: "?i < rd_next_node ?db" using files_ok_D(2) [OF ok, of p] by (simp add: store_next split: option.split)
  have grow: "rd_next_node db \<le> rd_next_node ?db" by (simp add: store_next split: option.split)
  have one: "file_ok z ?db n \<and> nd_id n < rd_next_node ?db" if "row_at q (rd_nodes ?db) = Some n" for q n
  proof (cases "q = p")
    case True
    with that have n: "nd_id n = ?i" "nd_blob n = pk_compress z data" by (auto simp: store_nodes)
    obtain nm' ct' where "row_at ?i (rd_meta ?db) = Some \<lparr>fm_type = ct', fm_name = nm', fm_import = pk_sha z data, fm_validation = pk_sha z (pk_compress z data)\<rparr>"
      using store_meta [of ?i z p data mode ct nm db] by auto
    with n fresh show ?thesis unfolding file_ok_def by auto
  next
    case False
    with that have old: "row_at q (rd_nodes db) = Some n" by (simp add: store_nodes)
    have "row_at (nd_id n) (rd_meta ?db) = row_at (nd_id n) (rd_meta db)"
      using other [OF old False] store_meta [of "nd_id n" z p data mode ct nm db] by auto
    with files_ok_D(1,2) [OF ok old] grow show ?thesis unfolding file_ok_def by auto
  qed
  have "q = q'" if "row_at q (rd_nodes ?db) = Some n" "row_at q' (rd_nodes ?db) = Some n'" "nd_id n = nd_id n'" for q q' n n'
    using that other [of q n] other [of q' n'] files_ok_D(3) [OF ok, of q n q' n'] by (auto simp: store_nodes split: if_splits)
  with one show ?thesis unfolding files_ok_def by blast
qed

lemma files_ok_delete:
  assumes ok: "files_ok z db"
  shows "files_ok z (snd (delete_file p db))"
proof (cases "row_at p (rd_nodes db)")
  case None
  then show ?thesis using ok by (simp add: delete_file_def)
next
  case (Some m)
  then have db: "rd_nodes (snd (delete_file p db)) = delete_row p (rd_nodes db)" "rd_next_node (snd (delete_file p db)) = rd_next_node db"
    "rd_meta (snd (delete_file p db)) = delete_row (nd_id m) (rd_meta db)" by (simp_all add: delete_file_def)
  have "file_ok z (snd (delete_file p db)) n \<and> nd_id n < rd_next_node db" if "row_at q (rd_nodes db) = Some n" "q \<noteq> p" for q n
  proof -
    have "nd_id n \<noteq> nd_id m" using files_ok_D(3) [OF ok Some that(1)] that(2) by auto
    then show ?thesis using files_ok_D(1,2) [OF ok that(1)] by (simp add: file_ok_def db row_at_delete)
  qed
  then show ?thesis using ok unfolding files_ok_def db by (simp add: row_at_delete)
qed

lemma apply_call_next: "rd_next_node (fold apply_call cs db) = rd_next_node db"
proof (induction cs arbitrary: db)
  case (Cons c cs)
  have "rd_next_node (apply_call c db) = rd_next_node db" by (cases c) (simp_all add: apply_call_def)
  with Cons show ?case by simp
qed simp

lemma files_ok_calls: "files_ok z (fold apply_call cs db) = files_ok z db"
  by (rule files_ok_cong) (simp_all add: apply_calls_files apply_call_next)

lemma files_ok_log: "files_ok z (log_conversion p d h n db) = files_ok z db"
  by (rule files_ok_cong) simp_all

lemma files_ok_journaled: "files_ok z (rv_db (journaled ty p s v)) = files_ok z (rv_db v)"
  by (simp add: journaled_def files_ok_calls split: prod.split)

lemmas keeps_files = files_ok_store files_ok_delete files_ok_log files_ok_journaled files_ok_calls

lemma files_ok_write: "files_ok z (rv_db v) \<Longrightarrow> files_ok z (rv_db (snd (vfs_write z p data mode ct nm a v)))"
  by (simp add: vfs_write_def Let_def keeps_files split: sum.split option.split)

lemma files_ok_mkdir: "files_ok z (rv_db v) \<Longrightarrow> files_ok z (rv_db (snd (vfs_mkdir z p v)))"
  by (simp add: vfs_mkdir_def Let_def keeps_files split: sum.split)

lemma files_ok_import: "files_ok z (rv_db v) \<Longrightarrow> files_ok z (rv_db (snd (vfs_import z mode_of h ct p v)))"
  by (simp add: vfs_import_def Let_def keeps_files split: option.split)

lemma files_ok_extract: "files_ok z (rv_db v) \<Longrightarrow> files_ok z (rv_db (snd (vfs_extract z p b v)))"
  by (simp add: vfs_extract_def Let_def keeps_files split: sum.split option.split)

lemma files_ok_vfs_delete: "files_ok z (rv_db v) \<Longrightarrow> files_ok z (rv_db (snd (vfs_delete z p a v)))"
proof (cases "delete_file (normalize_path p) (rv_db v)")
  case (Pair r db1)
  assume "files_ok z (rv_db v)"
  then have "files_ok z db1" using files_ok_delete [of z "rv_db v" "normalize_path p"] Pair by simp
  with \<open>files_ok z (rv_db v)\<close> Pair show ?thesis
    by (simp add: vfs_delete_def Let_def files_ok_journaled split: sum.split option.split)
qed

datatype vfs_step =
    Write string "byte list" string string "string option" bool
  | Delete string bool
  | Mkdir string
  | Import "string list" string "string option"
  | Extract string bool

text \<open>One call; what it returns or raises is dropped.\<close>

definition vfs_call :: "packing \<Rightarrow> (string list \<Rightarrow> string) \<Rightarrow> vfs_step \<Rightarrow> run_vfs \<Rightarrow> run_vfs" where
  "vfs_call z mode_of s v = (case s of
     Write p data mode ct nm a \<Rightarrow> snd (vfs_write z p data mode ct nm a v)
   | Delete p a \<Rightarrow> snd (vfs_delete z p a v)
   | Mkdir p \<Rightarrow> snd (vfs_mkdir z p v)
   | Import h ct p \<Rightarrow> snd (vfs_import z mode_of h ct p v)
   | Extract p b \<Rightarrow> snd (vfs_extract z p b v))"

lemma files_ok_calls_kept: "files_ok z (rv_db v) \<Longrightarrow> files_ok z (rv_db (fold (vfs_call z mode_of) ss v))"
proof (induction ss arbitrary: v)
  case (Cons s ss)
  have "files_ok z (rv_db (vfs_call z mode_of s v))"
    using Cons.prems by (cases s) (simp_all add: vfs_call_def files_ok_write files_ok_vfs_delete files_ok_mkdir files_ok_import files_ok_extract)
  with Cons.IH show ?case by simp
qed simp

lemma files_ok_empty: "files_ok z empty_runner"
  by (simp add: files_ok_def empty_runner_def row_at_def)

section \<open>Extraction\<close>

lemma parents_Inl: "fold (\<lambda>k r. bind_result r (g k)) ks (Inl e) = Inl e"
  by (induction ks) simp_all

lemma parents_made:
  assumes "fold (\<lambda>k r. bind_result r (\<lambda>d. case row_at (take k q) d of
      Some (Some _) \<Rightarrow> Inl OSError | Some None \<Rightarrow> Inr d | None \<Rightarrow> Inr (dict_set (take k q) None d))) ks (Inr d) = Inr d'"
  shows "\<forall>k\<in>set ks. row_at (take k q) d' = Some None" and "\<forall>r x. row_at r d = Some x \<longrightarrow> row_at r d' = Some x"
proof -
  have "(\<forall>k\<in>set ks. row_at (take k q) d' = Some None) \<and> (\<forall>r x. row_at r d = Some x \<longrightarrow> row_at r d' = Some x)"
    using assms
  proof (induction ks arbitrary: d)
    case (Cons k ks)
    obtain d1 where d1: "(case row_at (take k q) d of Some (Some _) \<Rightarrow> Inl OSError | Some None \<Rightarrow> Inr d | None \<Rightarrow> Inr (dict_set (take k q) None d)) = Inr d1"
      using Cons.prems by (cases "case row_at (take k q) d of Some (Some _) \<Rightarrow> Inl OSError | Some None \<Rightarrow> Inr d | None \<Rightarrow> Inr (dict_set (take k q) None d)")
        (simp_all add: parents_Inl)
    with Cons.prems Cons.IH [of d1] have IH: "\<forall>k\<in>set ks. row_at (take k q) d' = Some None" "\<forall>r x. row_at r d1 = Some x \<longrightarrow> row_at r d' = Some x" by simp_all
    from d1 have "row_at (take k q) d1 = Some None" "\<forall>r x. row_at r d = Some x \<longrightarrow> row_at r d1 = Some x"
      by (auto simp: row_at_dict split: option.splits)
    with IH show ?case by simp
  qed simp
  then show "\<forall>k\<in>set ks. row_at (take k q) d' = Some None" "\<forall>r x. row_at r d = Some x \<longrightarrow> row_at r d' = Some x" by simp_all
qed

lemma parents_stay: "\<forall>k\<in>set ks. row_at (take k q) d = Some None \<Longrightarrow>
  fold (\<lambda>k r. bind_result r (\<lambda>d. case row_at (take k q) d of
      Some (Some _) \<Rightarrow> Inl OSError | Some None \<Rightarrow> Inr d | None \<Rightarrow> Inr (dict_set (take k q) None d))) ks (Inr d) = Inr d"
  by (induction ks) simp_all

lemma make_parents_again: "make_parents q d = Inr d' \<Longrightarrow> make_parents q d' = Inr d'"
  unfolding make_parents_def by (rule parents_stay) (rule parents_made(1))




section \<open>The journal and its table\<close>

lemma journaled_db: "j_pending (rv_journal v) = [] \<Longrightarrow>
  rv_db (journaled ty p s v) =
    (rv_db v)\<lparr>rd_ops := update_row (j_next_id (rv_journal v)) (\<lambda>r. r\<lparr>or_status := ''committed''\<rparr>)
       (rd_ops (rv_db v) @ [(rd_next_op (rv_db v), \<lparr>or_type = ty, or_key = p, or_before = s, or_status = ''pending''\<rparr>)]),
     rd_next_op := rd_next_op (rv_db v) + 1\<rparr>"
  "j_pending (rv_journal v) = [] \<Longrightarrow> j_pending (rv_journal (journaled ty p s v)) = []"
  "j_pending (rv_journal v) = [] \<Longrightarrow> j_next_id (rv_journal (journaled ty p s v)) = j_next_id (rv_journal v) + 1"
  by (simp_all add: journaled_def journal_begin_def journal_commit_def Let_def db_send_def new_operation_def op_to_dict_def apply_call_def status_text_def)

text \<open>The rows of the table are numbered below the next one.\<close>

definition ops_below :: "runner_db \<Rightarrow> bool" where
  "ops_below db = (\<forall>i. row_at i (rd_ops db) \<noteq> None \<longrightarrow> i < rd_next_op db)"

text \<open>The row of a change.  Overwriting a file adds one row with the file's old content and mode, and
  the row is \<open>committed\<close> if the number of the journal is the number of the table; a journal that was
  made anew counts from 1 again, so that with an older table the row stays \<open>pending\<close>.\<close>

theorem row_of_an_overwrite:
  "before_snapshot z a (normalize_path p) (rv_db v) = Inr (Some s) \<Longrightarrow> j_pending (rv_journal v) = [] \<Longrightarrow> ops_below (rv_db v) \<Longrightarrow>
   row_at (rd_next_op (rv_db v)) (rd_ops (rv_db (snd (vfs_write z p data mode ct nm a v)))) =
     Some \<lparr>or_type = ''file_write'', or_key = normalize_path p, or_before = s,
           or_status = (if j_next_id (rv_journal v) = rd_next_op (rv_db v) then ''committed'' else ''pending'')\<rparr>"
proof -
  assume s: "before_snapshot z a (normalize_path p) (rv_db v) = Inr (Some s)" and j: "j_pending (rv_journal v) = []" and b: "ops_below (rv_db v)"
  have ops: "rd_ops (log_conversion q d h n (snd (store_file z q data mode ct nm' db))) = rd_ops db"
    "rd_next_op (log_conversion q d h n (snd (store_file z q data mode ct nm' db))) = rd_next_op db" for q d h n nm' db
    by (simp_all add: log_conversion_def store_file_def Let_def split: option.split)
  have fresh: "row_at (rd_next_op (rv_db v)) (rd_ops (rv_db v)) = None" using b unfolding ops_below_def by fastforce
  then show ?thesis using s j fresh by (cases "j_next_id (rv_journal v) = rd_next_op (rv_db v)") (simp_all add: vfs_write_def Let_def journaled_db ops row_at_update row_at_append)
qed

text \<open>A store that had two journals: the second starts at 1 and commits the first one's row again.\<close>

definition twice_written :: run_vfs where
  "twice_written = snd (vfs_write no_packing ''/a'' [2] ''600'' ''text/plain'' None True
     (snd (vfs_write no_packing ''/a'' [1] ''644'' ''text/plain'' None True fresh_vfs)))"

definition restarted :: "run_vfs \<Rightarrow> run_vfs" where
  "restarted v = v\<lparr>rv_journal := new_journal (j_db (rv_journal v))\<rparr>"

theorem row_of_an_overwrite_witness:
  "\<exists>r. row_at 2 (rd_ops (rv_db (snd (vfs_write no_packing ''/a'' [3] ''644'' ''text/plain'' None True (restarted twice_written))))) = Some r \<and>
       or_status r = ''pending''"
proof -
  have s: "before_snapshot no_packing True (normalize_path ''/a'') (rv_db (restarted twice_written)) = Inr (Some \<lparr>sn_blob = Some ''02'', sn_mode = ''600''\<rparr>)"
    by code_simp
  have j: "j_pending (rv_journal (restarted twice_written)) = []" by code_simp
  have rows: "rd_ops (rv_db (restarted twice_written)) = [(1, \<lparr>or_type = ''file_write'', or_key = ''/a'', or_before = \<lparr>sn_blob = Some ''01'', sn_mode = ''644''\<rparr>, or_status = ''committed''\<rparr>)] \<and>
      rd_next_op (rv_db (restarted twice_written)) = 2 \<and> j_next_id (rv_journal (restarted twice_written)) = 1"
    by code_simp
  then have "ops_below (rv_db (restarted twice_written))" by (auto simp: ops_below_def row_at_def split: if_splits)
  from row_of_an_overwrite [OF s j this] rows show ?thesis by auto
qed

text \<open>Undoing a change.  \<open>rollback_atomic\<close> of the row that an overwrite left brings back the content
  and the mode that the file had, whatever was written in between, and leaves every other file.\<close>

theorem rollback_brings_back:
  "packs z \<Longrightarrow> row_at i (rd_ops db) = Some r \<Longrightarrow> or_type r = ''file_write'' \<or> or_type r = ''file_delete'' \<Longrightarrow> or_status r \<noteq> ''rolled_back'' \<Longrightarrow>
   sn_blob (or_before r) = Some (to_hex old) \<Longrightarrow>
   fst (rollback_atomic z i db) = Undone \<and>
   get_file z q (snd (rollback_atomic z i db)) = (if q = or_key r then Inr (Some (old, sn_mode (or_before r))) else get_file z q db)"
  by (auto simp: rollback_atomic_def undo_file_def from_to_hex get_file_def store_nodes packs_def)

theorem rollback_brings_back_witness:
  "get_file no_packing ''/a'' (snd (rollback_atomic no_packing 1 (rv_db twice_written))) = Inr (Some ([1], ''644''))"
proof -
  have z: "packs no_packing" by (simp add: packs_def no_packing_def)
  define r where "r = \<lparr>or_type = ''file_write'', or_key = ''/a'', or_before = \<lparr>sn_blob = Some (to_hex [1]), sn_mode = ''644''\<rparr>, or_status = ''committed''\<rparr>"
  have row: "row_at 1 (rd_ops (rv_db twice_written)) = Some r" unfolding r_def by code_simp
  show ?thesis using rollback_brings_back [OF z row, of "[1]" "''/a''"] by (simp add: r_def)
qed

text \<open>A file that is new has no snapshot, so its write leaves no row to roll back.\<close>

lemma new_files_unjournaled:
  "row_at (normalize_path p) (rd_nodes (rv_db v)) = None \<Longrightarrow>
   rd_ops (rv_db (snd (vfs_write z p data mode ct nm a v))) = rd_ops (rv_db v)"
  by (simp add: vfs_write_def before_snapshot_def get_file_def Let_def store_file_def log_conversion_def)

lemma pending_operations_block_commit: "j_pending (rv_journal v) \<noteq> [] \<Longrightarrow> vfs_commit_all v = (Inl KeyError, v)"
  by (simp add: vfs_commit_all_def)

text \<open>A path with \<open>..\<close> names a file outside the root, which \<open>delete\<close> removes from the disk.\<close>

lemma delete_outside_the_root:
  "row_at [''etc'', ''conf''] (rv_disk (snd (vfs_delete no_packing ''/../../etc/conf'' True
     (fresh_vfs\<lparr>rv_disk := [([], None), ([''etc''], None), ([''etc'', ''conf''], Some [9]), ([''srv''], None), ([''srv'', ''vfs''], None)]\<rparr>)))) = None"
  by code_simp

lemma wildcard_prefix_lists_others:
  "map fst (list_files ''/a_c'' (rv_db (snd (vfs_write no_packing ''/abc/f'' [1] ''644'' ''text/plain'' None True fresh_vfs)))) = [''/abc/f'']"
  by code_simp


end
