(* ===== verification/RunnerMods.thy ===== *)
theory RunnerMods
  imports RunnerFiles
begin

text \<open>
  The mods of the server runner: \<open>engine/mod_manager.py\<close> with the mod, dependency and backup tables
  of \<open>engine/database.py\<close>, over the file system of \<open>RunnerFiles\<close>.  A mod's row is keyed by its
  slug; the rows of a join come in the order of the index on (mod, dependency).  The recursion limit
  of the interpreter is the fuel of the circle check.
\<close>

section \<open>The registry\<close>

definition loaders :: "string list" where
  "loaders = [''fabric'', ''forge'', ''quilt'', ''neoforge'', ''vanilla'', ''bukkit'', ''paper'', ''purpur'']"

definition get_mod :: "string \<Rightarrow> runner_db \<Rightarrow> mod_row option" where
  "get_mod slug db = row_at slug (rd_mods db)"

definition create_mod :: "string \<Rightarrow> string \<Rightarrow> string \<Rightarrow> string \<Rightarrow> string \<Rightarrow> runner_db \<Rightarrow> (nat \<times> runner_db) result" where
  "create_mod name slug version mc loader db =
     (if row_at slug (rd_mods db) \<noteq> None then Inl IntegrityError
      else Inr (rd_next_mod db, db\<lparr>rd_mods := rd_mods db @ [(slug, \<lparr>md_id = rd_next_mod db, md_name = name, md_version = version,
                  md_mc = mc, md_loader = loader, md_enabled = True\<rparr>)], rd_next_mod := rd_next_mod db + 1\<rparr>))"

definition jar_path :: "string \<Rightarrow> string" where
  "jar_path slug = ''/mods/'' @ slug @ ''.jar''"

definition import_mod_file :: "packing \<Rightarrow> string \<Rightarrow> byte list \<Rightarrow> run_vfs \<Rightarrow> unit result \<times> run_vfs" where
  "import_mod_file z slug data v = vfs_write z (jar_path slug) data ''644'' ''application/java-archive'' (Some (slug @ ''.jar'')) True v"

text \<open>The content is given, or a path of the host, which is opened after the row was made.\<close>

datatype mod_source = NoFile | Given "byte list" | OnHost "string list"

definition register_mod ::
  "packing \<Rightarrow> string \<Rightarrow> string \<Rightarrow> string \<Rightarrow> string \<Rightarrow> string \<Rightarrow> mod_source \<Rightarrow> run_vfs \<Rightarrow> nat result \<times> run_vfs" where
  "register_mod z name slug version mc loader src v =
     (if loader \<notin> set loaders then (Inl ModError, v)
      else if get_mod slug (rv_db v) \<noteq> None then (Inl ModError, v)
      else case create_mod name slug version mc loader (rv_db v) of
          Inl e \<Rightarrow> (Inl e, v)
        | Inr (i, db1) \<Rightarrow>
            let v1 = v\<lparr>rv_db := db1\<rparr>;
                store = (\<lambda>data. case import_mod_file z slug data v1 of (Inl e, v2) \<Rightarrow> (Inl e, v2) | (Inr _, v2) \<Rightarrow> (Inr i, v2))
            in (case src of
                  NoFile \<Rightarrow> (Inr i, v1)
                | Given data \<Rightarrow> if data = [] then (Inr i, v1) else store data
                | OnHost p \<Rightarrow> (case row_at p (rv_disk v1) of
                                 None \<Rightarrow> (Inl FileNotFoundError, v1)
                               | Some None \<Rightarrow> (Inl OSError, v1)
                               | Some (Some data) \<Rightarrow> store data)))"

definition mods_needing :: "nat \<Rightarrow> runner_db \<Rightarrow> (string \<times> mod_row) list" where
  "mods_needing i db = filter (\<lambda>(s, m). row_at (md_id m, i) (rd_deps db) \<noteq> None) (rd_mods db)"

section \<open>Backups\<close>

definition add_backup :: "nat \<Rightarrow> string \<Rightarrow> byte list option \<Rightarrow> string option \<Rightarrow> int \<Rightarrow> runner_db \<Rightarrow> nat \<times> runner_db" where
  "add_backup i version blob h now db =
     (let k = length (rd_backups db) + 1
      in (k, db\<lparr>rd_backups := rd_backups db @ [(k, \<lparr>bk_mod = i, bk_version = version, bk_blob = blob, bk_hash = h, bk_created = now\<rparr>)]\<rparr>))"

definition backup_mod :: "packing \<Rightarrow> string \<Rightarrow> int \<Rightarrow> run_vfs \<Rightarrow> nat result \<times> run_vfs" where
  "backup_mod z slug now v =
     (case get_mod slug (rv_db v) of
        None \<Rightarrow> (Inl ModError, v)
      | Some m \<Rightarrow>
          (case vfs_get z (jar_path slug) v of
             Inl e \<Rightarrow> (Inl e, v)
           | Inr None \<Rightarrow> (let (k, db1) = add_backup (md_id m) (md_version m) None None now (rv_db v) in (Inr k, v\<lparr>rv_db := db1\<rparr>))
           | Inr (Some data) \<Rightarrow>
               (let (k, db1) = add_backup (md_id m) (md_version m) (Some (pk_compress z data)) (Some (pk_sha z data)) now (rv_db v)
                in (Inr k, v\<lparr>rv_db := db1\<rparr>))))"

text \<open>The newest row; of rows of one second, the first.\<close>

definition newest :: "(nat \<times> backup_row) list \<Rightarrow> (nat \<times> backup_row) option" where
  "newest bs = foldl (\<lambda>best b. case best of None \<Rightarrow> Some b | Some c \<Rightarrow> if bk_created (snd c) < bk_created (snd b) then Some b else Some c) None bs"

definition set_version :: "string \<Rightarrow> string \<Rightarrow> run_vfs \<Rightarrow> run_vfs" where
  "set_version slug version v = v\<lparr>rv_db := (rv_db v)\<lparr>rd_mods := update_row slug (\<lambda>m. m\<lparr>md_version := version\<rparr>) (rd_mods (rv_db v))\<rparr>\<rparr>"

definition find_backup :: "nat \<Rightarrow> nat option \<Rightarrow> runner_db \<Rightarrow> (nat \<times> backup_row) option" where
  "find_backup i k db =
     (let mine = filter (\<lambda>(k', b). bk_mod b = i) (rd_backups db)
      in case k of Some j \<Rightarrow> if j = 0 then newest mine else map_option (Pair j) (row_at j mine) | None \<Rightarrow> newest mine)"

text \<open>The backup used, and the version that was current.\<close>

definition rollback_mod :: "packing \<Rightarrow> string \<Rightarrow> nat option \<Rightarrow> run_vfs \<Rightarrow> (nat \<times> string \<times> string) result \<times> run_vfs" where
  "rollback_mod z slug k v =
     (case get_mod slug (rv_db v) of
        None \<Rightarrow> (Inl ModError, v)
      | Some m \<Rightarrow>
          (case find_backup (md_id m) k (rv_db v) of
             None \<Rightarrow> (Inl ModError, v)
           | Some (j, b) \<Rightarrow>
               let done = (\<lambda>w. (Inr (j, md_version m, bk_version b), set_version slug (bk_version b) w))
               in (case bk_blob b of
                     None \<Rightarrow> done v
                   | Some blob \<Rightarrow>
                       if blob = [] then done v
                       else (case pk_decompress z blob of
                               Inl e \<Rightarrow> (Inl e, v)
                             | Inr data \<Rightarrow>
                                 if bk_hash b \<noteq> None \<and> bk_hash b \<noteq> Some [] \<and> bk_hash b \<noteq> Some (pk_sha z data) then (Inl ModError, v)
                                 else (case vfs_write z (jar_path slug) data ''644'' ''application/octet-stream'' None True v of
                                         (Inl e, w) \<Rightarrow> (Inl e, w)
                                       | (Inr _, w) \<Rightarrow> done w)))))"

definition upgrade_mod :: "packing \<Rightarrow> string \<Rightarrow> string \<Rightarrow> byte list \<Rightarrow> int \<Rightarrow> run_vfs \<Rightarrow> (string \<times> nat) result \<times> run_vfs" where
  "upgrade_mod z slug version data now v =
     (case get_mod slug (rv_db v) of
        None \<Rightarrow> (Inl ModError, v)
      | Some m \<Rightarrow>
          (case backup_mod z slug now v of
             (Inl e, w) \<Rightarrow> (Inl e, w)
           | (Inr k, w) \<Rightarrow>
               let w1 = set_version slug version w
               in if data = [] then (Inr (md_version m, k), w1)
                  else (case vfs_write z (jar_path slug) data ''644'' ''application/octet-stream'' None True w1 of
                          (Inl e, w2) \<Rightarrow> (Inl e, w2)
                        | (Inr _, w2) \<Rightarrow> (Inr (md_version m, k), w2))))"

text \<open>\<open>unregister_mod\<close> ends in a method that \<open>Database\<close> does not have.\<close>

definition unregister_mod :: "packing \<Rightarrow> string \<Rightarrow> bool \<Rightarrow> int \<Rightarrow> run_vfs \<Rightarrow> bool result \<times> run_vfs" where
  "unregister_mod z slug backup now v =
     (case get_mod slug (rv_db v) of
        None \<Rightarrow> (Inl ModError, v)
      | Some m \<Rightarrow>
          if mods_needing (md_id m) (rv_db v) \<noteq> [] then (Inl ModError, v)
          else (case (if backup then backup_mod z slug now v else (Inr 0, v)) of
                  (Inl e, w) \<Rightarrow> (Inl e, w)
                | (Inr _, w) \<Rightarrow>
                    (case vfs_has z (jar_path slug) w of
                       Inl e \<Rightarrow> (Inl e, w)
                     | Inr False \<Rightarrow> (Inl AttributeError, w)
                     | Inr True \<Rightarrow> (case vfs_delete z (jar_path slug) True w of
                                      (Inl e, w1) \<Rightarrow> (Inl e, w1)
                                    | (Inr _, w1) \<Rightarrow> (Inl AttributeError, w1)))))"

section \<open>Dependencies\<close>

text \<open>The slugs of the mods that a mod depends on, of all or of the required ones.\<close>

definition slug_of :: "nat \<Rightarrow> runner_db \<Rightarrow> string option" where
  "slug_of i db = map_of (map (\<lambda>(s, m). (md_id m, s)) (rd_mods db)) i"

definition dep_slugs :: "bool \<Rightarrow> nat \<Rightarrow> runner_db \<Rightarrow> string list" where
  "dep_slugs all i db = List.map_filter (\<lambda>j. slug_of j db)
     (sort (map (snd \<circ> fst) (filter (\<lambda>((a, b), req). a = i \<and> (all \<or> req)) (rd_deps db))))"

fun scan_deps :: "(string \<Rightarrow> bool result) \<Rightarrow> string \<Rightarrow> string list \<Rightarrow> bool result" where
  "scan_deps f target [] = Inr False"
| "scan_deps f target (s # ss) =
     (if s = target then Inr True else bind_result (f s) (\<lambda>b. if b then Inr True else scan_deps f target ss))"

primrec would_create_circle :: "nat \<Rightarrow> runner_db \<Rightarrow> string \<Rightarrow> string \<Rightarrow> bool result" where
  "would_create_circle 0 db slug dep = Inl RecursionError"
| "would_create_circle (Suc n) db slug dep =
     (case get_mod dep db of
        None \<Rightarrow> Inr False
      | Some m \<Rightarrow> scan_deps (would_create_circle n db slug) slug (dep_slugs True (md_id m) db))"

definition add_dependency :: "nat \<Rightarrow> string \<Rightarrow> string \<Rightarrow> bool \<Rightarrow> runner_db \<Rightarrow> unit result \<times> runner_db" where
  "add_dependency limit slug dep required db =
     (case (get_mod slug db, get_mod dep db) of
        (Some m, Some d) \<Rightarrow>
          (case would_create_circle limit db slug dep of
             Inl e \<Rightarrow> (Inl e, db)
           | Inr True \<Rightarrow> (Inl ModError, db)
           | Inr False \<Rightarrow> (Inr (), if row_at (md_id m, md_id d) (rd_deps db) = None
                                   then db\<lparr>rd_deps := rd_deps db @ [((md_id m, md_id d), required)]\<rparr> else db))
      | _ \<Rightarrow> (Inl ModError, db))"

text \<open>The rows are dictionaries, and unpacking one gives its key: the next call is for \<open>'slug'\<close>.\<close>

primrec resolve :: "nat \<Rightarrow> runner_db \<Rightarrow> string \<Rightarrow> string list \<times> (string \<times> mod_row) list \<Rightarrow> (string list \<times> (string \<times> mod_row) list) result" where
  "resolve 0 db slug st = Inl ModError"
| "resolve (Suc n) db slug st =
     (if slug \<in> set (fst st) then Inr st
      else case get_mod slug db of
          None \<Rightarrow> Inr (slug # fst st, snd st)
        | Some m \<Rightarrow>
            bind_result (fold (\<lambda>_ r. bind_result r (resolve n db ''slug'')) (dep_slugs False (md_id m) db) (Inr (slug # fst st, snd st)))
              (\<lambda>(seen, out). Inr (seen, out @ [(slug, m)])))"

definition resolve_dependencies :: "string \<Rightarrow> runner_db \<Rightarrow> (string \<times> mod_row) list result" where
  "resolve_dependencies slug db = bind_result (resolve 51 db slug ([], [])) (\<lambda>(seen, out). Inr out)"

text \<open>\<open>check_dependencies\<close> of the database: the dependencies without a mod.\<close>

definition unmet_dependencies :: "string \<Rightarrow> runner_db \<Rightarrow> (nat \<times> bool) list" where
  "unmet_dependencies slug db =
     (case get_mod slug db of
        None \<Rightarrow> [(0, True)]
      | Some m \<Rightarrow> map (\<lambda>((a, b), req). (b, req)) (filter (\<lambda>((a, b), req). a = md_id m \<and> slug_of b db = None) (rd_deps db)))"

definition check_dependencies :: "string \<Rightarrow> runner_db \<Rightarrow> (nat \<times> bool) list result" where
  "check_dependencies slug db = (case get_mod slug db of None \<Rightarrow> Inl ModError | Some m \<Rightarrow> Inr (unmet_dependencies slug db))"

section \<open>Compatibility and installation\<close>

definition version_base :: "string \<Rightarrow> string list" where
  "version_base v = take 2 (split_on (CHR ''.'') v)"

definition mc_compatible :: "string \<Rightarrow> string \<Rightarrow> runner_db \<Rightarrow> bool" where
  "mc_compatible slug mc db =
     (case get_mod slug db of
        None \<Rightarrow> False
      | Some m \<Rightarrow> md_mc m = mc \<or> version_base (md_mc m) = version_base mc)"

definition loader_group :: "string \<Rightarrow> string list" where
  "loader_group l =
     (if l = ''fabric'' then [''quilt''] else if l = ''quilt'' then [''fabric'']
      else if l = ''forge'' then [''neoforge''] else if l = ''neoforge'' then [''forge'']
      else if l = ''bukkit'' then [''paper'', ''purpur''] else if l = ''paper'' then [''bukkit'', ''purpur'']
      else if l = ''purpur'' then [''bukkit'', ''paper''] else [])"

definition loader_compatible :: "string \<Rightarrow> string \<Rightarrow> bool" where
  "loader_compatible a b = (a = b \<or> b \<in> set (loader_group a))"

definition server_mods :: "server_row \<Rightarrow> string" where
  "server_mods s = ''/servers/'' @ sv_name s @ ''/mods''"

text \<open>A loader that does not fit is only logged.\<close>

definition install_mod_to_server :: "packing \<Rightarrow> string \<Rightarrow> nat \<Rightarrow> run_vfs \<Rightarrow> bool result \<times> run_vfs" where
  "install_mod_to_server z slug sid v =
     (case (get_mod slug (rv_db v), row_at sid (rd_servers (rv_db v))) of
        (Some m, Some s) \<Rightarrow>
          if \<not> mc_compatible slug (sv_mc s) (rv_db v) then (Inl ModError, v)
          else if unmet_dependencies slug (rv_db v) \<noteq> [] then (Inl ModError, v)
          else (case vfs_mkdir z (server_mods s) v of
                  (Inl e, w) \<Rightarrow> (Inl e, w)
                | (Inr _, w) \<Rightarrow>
                    (case vfs_get z (jar_path slug) w of
                       Inl e \<Rightarrow> (Inl e, w)
                     | Inr None \<Rightarrow> (Inr False, w)
                     | Inr (Some data) \<Rightarrow>
                         if data = [] then (Inr False, w)
                         else (case vfs_write z (server_mods s @ ''/'' @ slug @ ''.jar'') data ''644'' ''application/octet-stream'' None True w of
                                 (Inl e, w1) \<Rightarrow> (Inl e, w1)
                               | (Inr _, w1) \<Rightarrow> (Inr True, w1))))
      | _ \<Rightarrow> (Inl ModError, v))"

definition remove_mod_from_server :: "packing \<Rightarrow> string \<Rightarrow> nat \<Rightarrow> run_vfs \<Rightarrow> bool result \<times> run_vfs" where
  "remove_mod_from_server z slug sid v =
     (case row_at sid (rd_servers (rv_db v)) of
        None \<Rightarrow> (Inl ModError, v)
      | Some s \<Rightarrow>
          let p = server_mods s @ ''/'' @ slug @ ''.jar''
          in (case vfs_has z p v of
                Inl e \<Rightarrow> (Inl e, v)
              | Inr False \<Rightarrow> (Inr False, v)
              | Inr True \<Rightarrow> (case vfs_delete z p True v of (Inl e, w) \<Rightarrow> (Inl e, w) | (Inr _, w) \<Rightarrow> (Inr True, w))))"

definition list_server_mods :: "nat \<Rightarrow> run_vfs \<Rightarrow> (string \<times> mod_row option) list result" where
  "list_server_mods sid v =
     (case row_at sid (rd_servers (rv_db v)) of
        None \<Rightarrow> Inl ModError
      | Some s \<Rightarrow>
          Inr (map (\<lambda>e. let b = basename (ei_path e); slug = (if dropWhile (\<lambda>c. c = CHR ''.'') b = ''jar'' then b else take (length b - 4) b) in (slug, get_mod slug (rv_db v)))
            (filter (\<lambda>e. \<not> ei_dir e \<and> suffix ''.jar'' (ei_path e)) (vfs_listdir (server_mods s) v))))"

record pack_result =
  pr_installed :: "string list"
  pr_failed :: "string list"

text \<open>Only \<open>ModError\<close> is caught; what the installation returned is not looked at.\<close>

fun install_slugs :: "packing \<Rightarrow> nat \<Rightarrow> string list \<Rightarrow> pack_result \<Rightarrow> run_vfs \<Rightarrow> pack_result result \<times> run_vfs" where
  "install_slugs z sid [] r v = (Inr r, v)"
| "install_slugs z sid (s # ss) r v =
     (case install_mod_to_server z s sid v of
        (Inr _, w) \<Rightarrow> install_slugs z sid ss (r\<lparr>pr_installed := pr_installed r @ [s]\<rparr>) w
      | (Inl e, w) \<Rightarrow> if e = ModError then install_slugs z sid ss (r\<lparr>pr_failed := pr_failed r @ [s]\<rparr>) w else (Inl e, w))"

fun pack_slugs :: "runner_db \<Rightarrow> string list \<Rightarrow> string list \<Rightarrow> pack_result \<Rightarrow> (string list \<times> pack_result) result" where
  "pack_slugs db [] todo r = Inr (todo, r)"
| "pack_slugs db (s # ss) todo r =
     (case resolve_dependencies s db of
        Inl e \<Rightarrow> if e = ModError then pack_slugs db ss todo (r\<lparr>pr_failed := pr_failed r @ [s]\<rparr>) else Inl e
      | Inr ms \<Rightarrow> pack_slugs db ss (fold (\<lambda>(t, m) todo. if t \<in> set todo then todo else todo @ [t]) ms todo) r)"

definition install_modpack :: "packing \<Rightarrow> nat \<Rightarrow> string list \<Rightarrow> run_vfs \<Rightarrow> pack_result result \<times> run_vfs" where
  "install_modpack z sid slugs v =
     (case pack_slugs (rv_db v) slugs slugs \<lparr>pr_installed = [], pr_failed = []\<rparr> of
        Inl e \<Rightarrow> (Inl e, v)
      | Inr (todo, r) \<Rightarrow> install_slugs z sid todo r v)"

section \<open>The dependency graph\<close>

definition dep_rel :: "runner_db \<Rightarrow> string rel" where
  "dep_rel db = {(s, t). \<exists>m. get_mod s db = Some m \<and> t \<in> set (dep_slugs True (md_id m) db)}"

lemma dep_rel_some: "get_mod d db = Some m \<Longrightarrow> t \<in> set (dep_slugs True (md_id m) db) \<longleftrightarrow> (d, t) \<in> dep_rel db"
  by (auto simp: dep_rel_def)

lemma dep_rel_none: "get_mod d db = None \<Longrightarrow> (d, t) \<notin> dep_rel db"
  by (simp add: dep_rel_def)

lemma trancl_first: "(d, a) \<in> r\<^sup>+ \<longleftrightarrow> (\<exists>s. (d, s) \<in> r \<and> (s = a \<or> (s, a) \<in> r\<^sup>+))"
  by (blast elim: converse_tranclE intro: trancl_into_trancl2)

lemma scan_sound:
  "scan_deps f a ss = Inr b \<Longrightarrow> (\<And>s c. s \<in> set ss \<Longrightarrow> f s = Inr c \<Longrightarrow> c = R s) \<Longrightarrow> b = (\<exists>s\<in>set ss. s = a \<or> R s)"
proof (induction ss)
  case (Cons s ss)
  show ?case
  proof (cases "s = a")
    case False
    with Cons.prems(1) obtain c where c: "f s = Inr c" "(if c then Inr True else scan_deps f a ss) = Inr b"
      by (cases "f s") simp_all
    with Cons.prems(2) [of s c] Cons False show ?thesis by (cases c) auto
  qed (use Cons.prems in simp)
qed simp

text \<open>The check, when it returns, answers whether the dependency reaches the mod.\<close>

lemma circle_sound: "would_create_circle n db a d = Inr b \<Longrightarrow> b = ((d, a) \<in> (dep_rel db)\<^sup>+)"
proof (induction n arbitrary: d b)
  case (Suc n)
  show ?case
  proof (cases "get_mod d db")
    case None
    with Suc.prems show ?thesis by (simp add: trancl_first [of d a] dep_rel_none)
  next
    case (Some m)
    have "b = (\<exists>s\<in>set (dep_slugs True (md_id m) db). s = a \<or> (s, a) \<in> (dep_rel db)\<^sup>+)"
      using Suc.prems Some by (intro scan_sound [of "would_create_circle n db a"]) (simp_all add: Suc.IH)
    with Some show ?thesis by (subst trancl_first) (auto simp: dep_rel_some)
  qed
qed simp

lemma scan_total: "(\<And>s. s \<in> set ss \<Longrightarrow> s \<noteq> a \<Longrightarrow> \<exists>c. f s = Inr c) \<Longrightarrow> \<exists>b. scan_deps f a ss = Inr b"
proof (induction ss)
  case (Cons s ss)
  then obtain b where b: "scan_deps f a ss = Inr b" by auto
  show ?case
  proof (cases "s = a")
    case False
    with Cons.prems [of s] obtain c where "f s = Inr c" by auto
    with b False show ?thesis by (cases c) auto
  qed (auto intro: exI [of _ False])
qed (auto intro: exI [of _ False])

definition reach_set :: "runner_db \<Rightarrow> string \<Rightarrow> string set" where
  "reach_set db s = (dep_rel db)\<^sup>* `` {s}"

lemma slug_of_mod: "slug_of i db = Some t \<Longrightarrow> t \<in> fst ` set (rd_mods db)"
  by (force simp: slug_of_def dest!: map_of_SomeD)

lemma dep_slugs_mods: "t \<in> set (dep_slugs all i db) \<Longrightarrow> t \<in> fst ` set (rd_mods db)"
  by (auto simp: dep_slugs_def List.map_filter_def dest: slug_of_mod)

lemma reach_bound: "reach_set db s \<subseteq> insert s (fst ` set (rd_mods db))"
proof
  fix t assume "t \<in> reach_set db s"
  then have "(s, t) \<in> (dep_rel db)\<^sup>*" by (simp add: reach_set_def)
  then show "t \<in> insert s (fst ` set (rd_mods db))" by cases (auto simp: dep_rel_def dest: dep_slugs_mods)
qed

lemma reach_finite: "finite (reach_set db s)"
  by (rule finite_subset [OF reach_bound]) simp

lemma reach_shrinks:
  assumes "acyclic (dep_rel db)" "(s, t) \<in> dep_rel db"
  shows "card (reach_set db t) < card (reach_set db s)"
proof (rule psubset_card_mono [OF reach_finite])
  have "s \<notin> reach_set db t"
    using assms unfolding reach_set_def acyclic_def by (auto dest: rtrancl_into_trancl2)
  moreover have "s \<in> reach_set db s" "reach_set db t \<subseteq> reach_set db s"
    using assms(2) by (auto simp: reach_set_def dest: converse_rtrancl_into_rtrancl)
  ultimately show "reach_set db t \<subset> reach_set db s" by blast
qed

lemma circle_total:
  "acyclic (dep_rel db) \<Longrightarrow> card (reach_set db d) \<le> n \<Longrightarrow> \<exists>b. would_create_circle n db a d = Inr b"
proof (induction n arbitrary: d)
  case 0
  have "d \<in> reach_set db d" by (simp add: reach_set_def)
  with reach_finite [of db d] 0 show ?case by auto
next
  case (Suc n)
  show ?case
  proof (cases "get_mod d db")
    case (Some m)
    have "\<exists>c. would_create_circle n db a s = Inr c" if "s \<in> set (dep_slugs True (md_id m) db)" for s
      using Suc.IH [OF Suc.prems(1), of s] reach_shrinks [OF Suc.prems(1), of d s] dep_rel_some [OF Some] that Suc.prems(2) by fastforce
    then show ?thesis using Some by (auto intro: scan_total)
  qed auto
qed


text \<open>Slugs and numbers name one mod each, and no dependency names a number not given out.\<close>

definition reg_ok :: "runner_db \<Rightarrow> bool" where
  "reg_ok db = (keys_unique (rd_mods db) \<and> distinct (map (md_id \<circ> snd) (rd_mods db)) \<and>
     (\<forall>s m. row_at s (rd_mods db) = Some m \<longrightarrow> md_id m < rd_next_mod db) \<and>
     (\<forall>a b. row_at (a, b) (rd_deps db) \<noteq> None \<longrightarrow> a < rd_next_mod db \<and> b < rd_next_mod db))"

lemma reg_okD:
  assumes "reg_ok db"
  shows "keys_unique (rd_mods db)" "distinct (map (md_id \<circ> snd) (rd_mods db))"
    "row_at s (rd_mods db) = Some m \<Longrightarrow> md_id m < rd_next_mod db"
    "row_at (a, b) (rd_deps db) \<noteq> None \<Longrightarrow> a < rd_next_mod db \<and> b < rd_next_mod db"
  using assms unfolding reg_ok_def by blast+

lemma reg_okI:
  assumes "keys_unique (rd_mods db)" "distinct (map (md_id \<circ> snd) (rd_mods db))"
    "\<And>s m. row_at s (rd_mods db) = Some m \<Longrightarrow> md_id m < rd_next_mod db"
    "\<And>a b. row_at (a, b) (rd_deps db) \<noteq> None \<Longrightarrow> a < rd_next_mod db \<and> b < rd_next_mod db"
  shows "reg_ok db"
  using assms unfolding reg_ok_def by blast

lemma in_rows: "keys_unique t \<Longrightarrow> (k, r) \<in> set t \<longleftrightarrow> row_at k t = Some r"
  by (simp add: keys_unique_def row_at_def)

lemma slug_of_iff:
  assumes "reg_ok db"
  shows "slug_of j db = Some t \<longleftrightarrow> (\<exists>d. get_mod t db = Some d \<and> md_id d = j)"
proof -
  have u: "keys_unique (rd_mods db)" "distinct (map (md_id \<circ> snd) (rd_mods db))" using assms by (simp_all add: reg_ok_def)
  have "map fst (map (\<lambda>(s, m). (md_id m, s)) (rd_mods db)) = map (md_id \<circ> snd) (rd_mods db)" by auto
  with u(2) have "slug_of j db = Some t \<longleftrightarrow> (j, t) \<in> set (map (\<lambda>(s, m). (md_id m, s)) (rd_mods db))"
    unfolding slug_of_def by (metis map_of_eq_Some_iff)
  also have "\<dots> \<longleftrightarrow> (\<exists>d. (t, d) \<in> set (rd_mods db) \<and> md_id d = j)" by force
  finally show ?thesis by (simp add: in_rows [OF u(1)] get_mod_def)
qed

lemma dep_slugs_set: "t \<in> set (dep_slugs True i db) \<longleftrightarrow> (\<exists>j. row_at (i, j) (rd_deps db) \<noteq> None \<and> slug_of j db = Some t)"
proof -
  have key: "row_at (i, j) (rd_deps db) \<noteq> None \<longleftrightarrow> (\<exists>r. ((i, j), r) \<in> set (rd_deps db))" for j
    unfolding row_at_keys by force
  have mf: "t \<in> set (List.map_filter f xs) \<longleftrightarrow> (\<exists>x\<in>set xs. f x = Some t)" for f :: "nat \<Rightarrow> string option" and xs
    by (force simp: List.map_filter_def)
  have "j \<in> set (sort (map (snd \<circ> fst) (filter (\<lambda>((a, b), req). a = i \<and> (True \<or> req)) (rd_deps db)))) \<longleftrightarrow> (\<exists>r. ((i, j), r) \<in> set (rd_deps db))" for j
    by force
  then show ?thesis unfolding key dep_slugs_def mf by blast
qed

lemma dep_rel_iff:
  "reg_ok db \<Longrightarrow> (s, t) \<in> dep_rel db \<longleftrightarrow>
     (\<exists>m d. get_mod s db = Some m \<and> get_mod t db = Some d \<and> row_at (md_id m, md_id d) (rd_deps db) \<noteq> None)"
  by (auto simp: dep_rel_def dep_slugs_set slug_of_iff)

lemma mod_number: "reg_ok db \<Longrightarrow> get_mod s db = Some m \<Longrightarrow> md_id m < rd_next_mod db"
  by (simp add: reg_ok_def get_mod_def)

lemma created_mod:
  assumes ok: "reg_ok db" and c: "create_mod name slug version mc loader db = Inr (i, db')"
  shows "reg_ok db'" "dep_rel db' = dep_rel db"
proof -
  let ?m = "\<lparr>md_id = rd_next_mod db, md_name = name, md_version = version, md_mc = mc, md_loader = loader, md_enabled = True\<rparr>"
  have new: "row_at slug (rd_mods db) = None"
    and db': "db' = db\<lparr>rd_mods := rd_mods db @ [(slug, ?m)], rd_next_mod := rd_next_mod db + 1\<rparr>"
    using c by (auto simp: create_mod_def split: if_splits)
  have fresh: "rd_next_mod db \<notin> set (map (md_id \<circ> snd) (rd_mods db))"
  proof
    assume "rd_next_mod db \<in> set (map (md_id \<circ> snd) (rd_mods db))"
    then obtain s m where "row_at s (rd_mods db) = Some m" "md_id m = rd_next_mod db"
      using in_rows [OF reg_okD(1) [OF ok]] by auto
    then show False using reg_okD(3) [OF ok] by fastforce
  qed
  have mods: "row_at s (rd_mods db') = (if s = slug then Some ?m else row_at s (rd_mods db))" for s
    using new by (simp add: db' row_at_append row_at_other split: option.split)
  show ok': "reg_ok db'"
  proof (rule reg_okI)
    show "keys_unique (rd_mods db')" using reg_okD(1) [OF ok] new by (auto simp: db' keys_unique_def row_at_def map_of_eq_None_iff)
    show "distinct (map (md_id \<circ> snd) (rd_mods db'))" using reg_okD(2) [OF ok] fresh by (simp add: db')
    show "md_id m < rd_next_mod db'" if "row_at s (rd_mods db') = Some m" for s m
    proof -
      from that have "(if s = slug then Some ?m else row_at s (rd_mods db)) = Some m" by (simp only: mods)
      then show ?thesis using reg_okD(3) [OF ok, of s m] by (auto simp: db' split: if_splits)
    qed
    show "a < rd_next_mod db' \<and> b < rd_next_mod db'" if "row_at (a, b) (rd_deps db') \<noteq> None" for a b
      using that reg_okD(4) [OF ok, of a b] by (simp add: db')
  qed
  have deps: "row_at (a, b) (rd_deps db) = None" if "a = rd_next_mod db \<or> b = rd_next_mod db" for a b
    using that reg_okD(4) [OF ok, of a b] by (cases "row_at (a, b) (rd_deps db)") auto
  have same: "get_mod s db' = (if s = slug then Some ?m else get_mod s db)" "rd_deps db' = rd_deps db" "get_mod slug db = None" for s
    using mods [of s] new by (simp_all add: get_mod_def) (simp add: db')
  have "(s, t) \<in> dep_rel db' \<longleftrightarrow> (s, t) \<in> dep_rel db" for s t
  proof (cases "s = slug \<or> t = slug")
    case True
    then show ?thesis unfolding dep_rel_iff [OF ok'] dep_rel_iff [OF ok] same using same(3) deps by auto
  qed (simp add: dep_rel_iff [OF ok'] dep_rel_iff [OF ok] same)
  then show "dep_rel db' = dep_rel db" by auto
qed

lemma added_dependency:
  assumes ok: "reg_ok db" and c: "add_dependency limit slug dep req db = (r, db')" and ac: "acyclic (dep_rel db)"
  shows "reg_ok db'" "slug \<noteq> dep \<Longrightarrow> acyclic (dep_rel db')"
proof -
  have "reg_ok db' \<and> (slug \<noteq> dep \<longrightarrow> acyclic (dep_rel db'))"
  proof (cases "db' = db")
    case False
    obtain m where m1: "get_mod slug db = Some m" using c False by (cases "get_mod slug db") (simp_all add: add_dependency_def)
    obtain d where m2: "get_mod dep db = Some d" using c False m1 by (cases "get_mod dep db") (simp_all add: add_dependency_def)
    have m3: "would_create_circle limit db slug dep = Inr False"
      using c False m1 m2 by (cases "would_create_circle limit db slug dep") (simp_all add: add_dependency_def split: bool.splits)
    have m4: "row_at (md_id m, md_id d) (rd_deps db) = None"
      using c False m1 m2 m3 by (cases "row_at (md_id m, md_id d) (rd_deps db)") (simp_all add: add_dependency_def)
    then have m5: "db' = db\<lparr>rd_deps := rd_deps db @ [((md_id m, md_id d), req)]\<rparr>"
      using c m1 m2 m3 by (simp add: add_dependency_def)
    have deps: "row_at k (rd_deps db') = (if k = (md_id m, md_id d) then Some req else row_at k (rd_deps db))" for k
      using m4 by (simp add: m5 row_at_append row_at_other)
    have ok': "reg_ok db'"
    proof (rule reg_okI)
      show "a < rd_next_mod db' \<and> b < rd_next_mod db'" if "row_at (a, b) (rd_deps db') \<noteq> None" for a b
        using that deps [of "(a, b)"] reg_okD(4) [OF ok, of a b] mod_number [OF ok m1] mod_number [OF ok m2] by (auto simp: m5 split: if_splits)
    qed (use reg_okD [OF ok] in \<open>auto simp: m5\<close>)
    have same: "get_mod s db' = get_mod s db" for s by (simp add: m5 get_mod_def)
    have only: "md_id m' = md_id m \<longleftrightarrow> s = slug" if "get_mod s db = Some m'" for s m'
      using that m1 slug_of_iff [OF ok, of "md_id m" s] slug_of_iff [OF ok, of "md_id m" slug] by auto
    have only': "md_id d' = md_id d \<longleftrightarrow> t = dep" if "get_mod t db = Some d'" for t d'
      using that m2 slug_of_iff [OF ok, of "md_id d" t] slug_of_iff [OF ok, of "md_id d" dep] by auto
    have "(s, t) \<in> dep_rel db' \<longleftrightarrow> (s, t) \<in> insert (slug, dep) (dep_rel db)" for s t
    proof (cases "get_mod s db = None \<or> get_mod t db = None")
      case True
      with m1 m2 show ?thesis by (auto simp: dep_rel_iff [OF ok'] dep_rel_iff [OF ok] same)
    next
      case False
      then obtain m' d' where "get_mod s db = Some m'" "get_mod t db = Some d'" by auto
      with only only' show ?thesis by (auto simp: dep_rel_iff [OF ok'] dep_rel_iff [OF ok] same deps)
    qed
    then have "dep_rel db' = insert (slug, dep) (dep_rel db)" by auto
    moreover have "(dep, slug) \<notin> (dep_rel db)\<^sup>+" using circle_sound [OF m3] by simp
    ultimately show ?thesis using ok' ac by (auto simp: acyclic_insert rtrancl_eq_or_trancl)
  qed (use ok ac in simp)
  then show "reg_ok db'" "slug \<noteq> dep \<Longrightarrow> acyclic (dep_rel db')" by simp_all
qed


text \<open>The two calls that change what the graph is made of.\<close>

datatype reg_call =
    NewMod string string string string string
  | NewDependency string string bool

definition reg_step :: "nat \<Rightarrow> reg_call \<Rightarrow> runner_db \<Rightarrow> runner_db" where
  "reg_step limit c db = (case c of
     NewMod name slug version mc loader \<Rightarrow> (case create_mod name slug version mc loader db of Inl e \<Rightarrow> db | Inr (i, db') \<Rightarrow> db')
   | NewDependency slug dep req \<Rightarrow> snd (add_dependency limit slug dep req db))"

definition proper :: "reg_call \<Rightarrow> bool" where
  "proper c = (case c of NewDependency slug dep req \<Rightarrow> slug \<noteq> dep | NewMod a b c d e \<Rightarrow> True)"

lemma reg_step_ok:
  assumes ok: "reg_ok db" "acyclic (dep_rel db)" and p: "proper c"
  shows "reg_ok (reg_step limit c db) \<and> acyclic (dep_rel (reg_step limit c db))"
proof (cases c)
  case (NewMod a b d e f)
  show ?thesis
  proof (cases "create_mod a b d e f db")
    case (Inr x)
    then obtain i db' where x: "create_mod a b d e f db = Inr (i, db')" by (cases x) simp
    then show ?thesis using created_mod [OF ok(1) x] ok(2) NewMod by (simp add: reg_step_def)
  qed (use ok NewMod in \<open>simp add: reg_step_def\<close>)
next
  case (NewDependency slug dep req)
  obtain r db' where x: "add_dependency limit slug dep req db = (r, db')" by (cases "add_dependency limit slug dep req db")
  show ?thesis using added_dependency [OF ok(1) x ok(2)] p NewDependency x by (simp add: reg_step_def proper_def)
qed

lemma reg_steps_ok:
  "reg_ok db \<Longrightarrow> acyclic (dep_rel db) \<Longrightarrow> list_all proper cs \<Longrightarrow>
   reg_ok (fold (reg_step limit) cs db) \<and> acyclic (dep_rel (fold (reg_step limit) cs db))"
proof (induction cs arbitrary: db)
  case (Cons c cs)
  have c: "proper c" "list_all proper cs" using Cons.prems(3) by simp_all
  have "reg_ok (reg_step limit c db) \<and> acyclic (dep_rel (reg_step limit c db))"
    by (rule reg_step_ok [OF Cons.prems(1,2) c(1)])
  then show ?case using Cons.IH [of "reg_step limit c db"] c(2) by simp
qed simp

lemma empty_graph: "reg_ok empty_runner" "dep_rel empty_runner = {}"
  by (auto simp: reg_ok_def empty_runner_def keys_unique_def row_at_def dep_rel_def get_mod_def)

lemma reach_card: "card (reach_set db d) \<le> Suc (length (rd_mods db))"
proof -
  have "card (reach_set db d) \<le> card (insert d (fst ` set (rd_mods db)))"
    by (rule card_mono [OF _ reach_bound]) simp
  also have "\<dots> \<le> Suc (card (fst ` set (rd_mods db)))" by (rule card_insert_le_m1) simp_all
  also have "\<dots> \<le> Suc (length (rd_mods db))" using card_image_le [of "set (rd_mods db)" fst] card_length [of "rd_mods db"] by simp
  finally show ?thesis .
qed


definition three_mods :: "reg_call list" where
  "three_mods = [NewMod ''A'' ''a'' ''1'' ''1.20'' ''fabric'', NewMod ''B'' ''b'' ''1'' ''1.20'' ''fabric'', NewMod ''C'' ''c'' ''1'' ''1.20'' ''fabric'',
     NewDependency ''a'' ''b'' True, NewDependency ''b'' ''c'' True]"


text \<open>A mod that depends on itself sends every later check that meets it into endless recursion.\<close>

lemma self_dependency_recurses:
  assumes "get_mod dep db = Some m" "dep_slugs True (md_id m) db = dep # ss" "slug \<noteq> dep"
  shows "would_create_circle n db slug dep = Inl RecursionError"
  using assms by (induction n) simp_all

lemma self_dependency_is_accepted:
  "fst (add_dependency 1000 ''a'' ''a'' True (fold (reg_step 1000) three_mods empty_runner)) = Inr ()"
  by code_simp

lemma self_dependency_blocks_others:
  "fst (add_dependency 50 ''c'' ''a'' True (snd (add_dependency 50 ''a'' ''a'' True (fold (reg_step 50) three_mods empty_runner)))) = Inl RecursionError"
  by code_simp

section \<open>Resolution\<close>

lemma resolve_absent: "get_mod ''slug'' db = None \<Longrightarrow>
  fold (\<lambda>_ r. bind_result r (resolve (Suc n) db ''slug'')) (ts :: string list) (Inr (seen, out)) = Inr (if ts = [] \<or> ''slug'' \<in> set seen then seen else ''slug'' # seen, out)"
  by (induction ts arbitrary: seen) auto

text \<open>Resolution finds no dependency.  Unless a mod is called \<open>slug\<close>, \<open>resolve_dependencies\<close> gives
  the mod it was asked for and nothing else, whatever the mod depends on.\<close>

theorem resolution_finds_the_mod_alone:
  "get_mod ''slug'' db = None \<Longrightarrow>
   resolve_dependencies slug db = Inr (case get_mod slug db of None \<Rightarrow> [] | Some m \<Rightarrow> [(slug, m)])"
proof -
  assume none: "get_mod ''slug'' db = None"
  have "(51::nat) = Suc (Suc 49)" by simp
  then show ?thesis using resolve_absent [OF none, of 49] none
    by (simp only: resolve_dependencies_def resolve.simps(2) [of "Suc 49"]) (simp split: option.split)
qed

theorem resolution_finds_the_mod_alone_witness:
  "map (map fst) (case resolve_dependencies ''a'' (fold (reg_step 1000) three_mods empty_runner) of Inr ms \<Rightarrow> [ms] | Inl e \<Rightarrow> []) = [[''a'']]"
proof -
  have "get_mod ''slug'' (fold (reg_step 1000) three_mods empty_runner) = None" by code_simp
  moreover have "map_option (\<lambda>m. ()) (get_mod ''a'' (fold (reg_step 1000) three_mods empty_runner)) = Some ()" by code_simp
  ultimately show ?thesis by (auto simp: resolution_finds_the_mod_alone)
qed


section \<open>Backups and installation\<close>

lemma write_tables:
  "rd_mods (rv_db (snd (vfs_write z p data mode ct nm a v))) = rd_mods (rv_db v)"
  "rd_backups (rv_db (snd (vfs_write z p data mode ct nm a v))) = rd_backups (rv_db v)"
  "rd_servers (rv_db (snd (vfs_write z p data mode ct nm a v))) = rd_servers (rv_db v)"
proof -
  have c: "rd_mods (fold apply_call cs db) = rd_mods db \<and> rd_backups (fold apply_call cs db) = rd_backups db \<and> rd_servers (fold apply_call cs db) = rd_servers db" for cs db
  proof (induction cs arbitrary: db)
    case (Cons c cs)
    have "rd_mods (apply_call c db) = rd_mods db \<and> rd_backups (apply_call c db) = rd_backups db \<and> rd_servers (apply_call c db) = rd_servers db"
      by (cases c) (simp_all add: apply_call_def)
    with Cons show ?case by simp
  qed simp
  show "rd_mods (rv_db (snd (vfs_write z p data mode ct nm a v))) = rd_mods (rv_db v)"
    "rd_backups (rv_db (snd (vfs_write z p data mode ct nm a v))) = rd_backups (rv_db v)"
    "rd_servers (rv_db (snd (vfs_write z p data mode ct nm a v))) = rd_servers (rv_db v)"
    by (simp_all add: vfs_write_def Let_def journaled_def c log_conversion_def store_file_def split: sum.split option.split prod.split)
qed

lemma write_over_a_file: "vfs_get z p v = Inr (Some d) \<Longrightarrow> fst (vfs_write z p data mode ct nm a v) = Inr ()"
  by (auto simp: vfs_get_def vfs_write_def before_snapshot_def get_file_def get_raw_file_def bind_result_def Let_def split: option.splits sum.splits)

lemma read_same_nodes: "rd_nodes (rv_db w) = rd_nodes (rv_db v) \<Longrightarrow> vfs_get z p w = vfs_get z p v"
  by (simp add: vfs_get_def get_raw_file_def)

lemma newest_in: "newest bs = Some c \<Longrightarrow> c \<in> set bs"
proof (induction bs arbitrary: c rule: rev_induct)
  case (snoc b bs)
  then show ?case by (cases "newest bs") (auto simp: newest_def split: if_splits)
qed (simp add: newest_def)

lemma newest_last: "(\<And>c. c \<in> set bs \<Longrightarrow> bk_created (snd c) < bk_created (snd b)) \<Longrightarrow> newest (bs @ [b]) = Some b"
  using newest_in [of bs] by (cases "newest bs") (auto simp: newest_def)

lemma backed_up_jar:
  fixes now :: int
  assumes "get_mod slug (rv_db v) = Some m" "vfs_get z (jar_path slug) v = Inr (Some data)"
  defines "b \<equiv> \<lparr>bk_mod = md_id m, bk_version = md_version m, bk_blob = Some (pk_compress z data), bk_hash = Some (pk_sha z data), bk_created = now\<rparr>"
  shows "backup_mod z slug now v = (Inr (length (rd_backups (rv_db v)) + 1),
    v\<lparr>rv_db := (rv_db v)\<lparr>rd_backups := rd_backups (rv_db v) @ [(length (rd_backups (rv_db v)) + 1, b)]\<rparr>\<rparr>)"
  using assms by (simp add: backup_mod_def add_backup_def)

text \<open>The state that an upgrade leaves: the backup is the last row, and the jar can be read.\<close>

lemma upgraded:
  fixes now :: int
  assumes z: "packs z" and m: "get_mod slug (rv_db v) = Some m" and jar: "vfs_get z (jar_path slug) v = Inr (Some old)"
  defines "b \<equiv> \<lparr>bk_mod = md_id m, bk_version = md_version m, bk_blob = Some (pk_compress z old), bk_hash = Some (pk_sha z old), bk_created = now\<rparr>"
  shows "rd_backups (rv_db (snd (upgrade_mod z slug version data now v))) = rd_backups (rv_db v) @ [(length (rd_backups (rv_db v)) + 1, b)]"
    and "get_mod slug (rv_db (snd (upgrade_mod z slug version data now v))) = Some (m\<lparr>md_version := version\<rparr>)"
    and "\<exists>d. vfs_get z (jar_path slug) (snd (upgrade_mod z slug version data now v)) = Inr (Some d)"
proof -
  define w where "w = set_version slug version (v\<lparr>rv_db := (rv_db v)\<lparr>rd_backups := rd_backups (rv_db v) @ [(length (rd_backups (rv_db v)) + 1, b)]\<rparr>\<rparr>)"
  have w: "rd_backups (rv_db w) = rd_backups (rv_db v) @ [(length (rd_backups (rv_db v)) + 1, b)]" "get_mod slug (rv_db w) = Some (m\<lparr>md_version := version\<rparr>)"
    "rd_nodes (rv_db w) = rd_nodes (rv_db v)"
    using m by (simp_all add: w_def set_version_def get_mod_def row_at_update)
  have jar': "vfs_get z (jar_path slug) w = Inr (Some old)" using jar read_same_nodes [OF w(3)] by simp
  let ?u = "vfs_write z (jar_path slug) data ''644'' ''application/octet-stream'' None True w"
  have fine: "fst ?u = Inr ()" by (rule write_over_a_file [OF jar'])
  have u: "snd (upgrade_mod z slug version data now v) = (if data = [] then w else snd ?u)"
    using m backed_up_jar [OF m jar, of now] fine by (simp add: upgrade_mod_def Let_def w_def b_def split: prod.split sum.split)
  show "rd_backups (rv_db (snd (upgrade_mod z slug version data now v))) = rd_backups (rv_db v) @ [(length (rd_backups (rv_db v)) + 1, b)]"
    "get_mod slug (rv_db (snd (upgrade_mod z slug version data now v))) = Some (m\<lparr>md_version := version\<rparr>)"
    using w by (simp_all add: u write_tables get_mod_def)
  have "vfs_get z (jar_path slug) (snd ?u) = Inr (Some data)"
    using fine z by (simp add: vfs_get_def get_raw_file_def write_nodes packs_def)
  with jar' show "\<exists>d. vfs_get z (jar_path slug) (snd (upgrade_mod z slug version data now v)) = Inr (Some d)" by (simp add: u)
qed



definition mod_vfs :: run_vfs where
  "mod_vfs = fresh_vfs\<lparr>rv_db := fold (reg_step 1000) three_mods empty_runner\<lparr>rd_servers := [(1, \<lparr>sv_name = ''main'', sv_mc = ''1.20.4'', sv_kind = ''forge''\<rparr>)]\<rparr>\<rparr>"


text \<open>A mod cannot be removed.  \<open>unregister_mod\<close> never returns: it raises before or at its last
  call, to a method that the database does not have, and the registry keeps the mod, whose jar may
  be deleted by then.\<close>

theorem unregistering_never_succeeds:
  "\<not> ok (fst (unregister_mod z slug backup now v)) \<and> rd_mods (rv_db (snd (unregister_mod z slug backup now v))) = rd_mods (rv_db v)"
proof -
  have b: "rd_mods (rv_db (snd (backup_mod z slug now v))) = rd_mods (rv_db v)"
    by (simp add: backup_mod_def add_backup_def split: option.split sum.split)
  have d: "rd_mods (rv_db (snd (vfs_delete z p a w))) = rd_mods (rv_db w)" for p a w
  proof -
    have "rd_mods (fold apply_call cs db) = rd_mods db" for cs db
    proof (induction cs arbitrary: db)
      case (Cons c cs)
      then show ?case by (cases c) (simp_all add: apply_call_def)
    qed simp
    moreover obtain r db1 where d: "delete_file (normalize_path p) (rv_db w) = (r, db1)" by (rule prod.exhaust)
    moreover have "rd_mods db1 = rd_mods (rv_db w)" using d by (auto simp: delete_file_def split: option.splits)
    ultimately show ?thesis by (auto simp: vfs_delete_def Let_def journaled_def split: sum.split option.split prod.split)
  qed
  obtain r w where w: "(if backup then backup_mod z slug now v else (Inr 0, v)) = (r, w)" by (rule prod.exhaust)
  with b have w': "rd_mods (rv_db w) = rd_mods (rv_db v)" by (auto split: if_splits)
  obtain r' w1 where w1: "vfs_delete z (jar_path slug) True w = (r', w1)" by (rule prod.exhaust)
  with d [of "jar_path slug" True w] w' show ?thesis
    unfolding unregister_mod_def w by (simp add: w1 split: option.split sum.split bool.split)
qed

lemma removed_jar_stays_registered:
  "(let w = snd (unregister_mod no_packing ''a'' False 5 (snd (import_mod_file no_packing ''a'' [1] mod_vfs)))
    in (vfs_get no_packing ''/mods/a.jar'' w, map fst (rd_mods (rv_db w)))) = (Inr None, [''a'', ''b'', ''c''])"
  by code_simp

lemma missing_jar_counts_as_installed:
  "map pr_installed (case fst (install_modpack no_packing 1 [''c''] mod_vfs) of Inr r \<Rightarrow> [r] | Inl e \<Rightarrow> []) = [[''c'']] \<and>
   fst (install_mod_to_server no_packing ''c'' 1 mod_vfs) = Inr False"
  by code_simp

section \<open>What an installation leaves\<close>

lemma normal_path: "c \<noteq> CHR ''/'' \<Longrightarrow> last (c # cs) \<noteq> CHR ''/'' \<Longrightarrow> normalize_path (CHR ''/'' # c # cs) = CHR ''/'' # c # cs"
  by (simp add: normalize_path_def Let_def)

lemma jar_normal: "normalize_path (jar_path slug) = jar_path slug"
  by (simp add: jar_path_def normal_path)

lemma server_jar_normal: "normalize_path (server_mods s @ ''/'' @ slug @ ''.jar'') = server_mods s @ ''/'' @ slug @ ''.jar''"
  by (simp add: server_mods_def normal_path)

lemma server_dir_normal: "normalize_path (server_mods s) = server_mods s"
  by (simp add: server_mods_def normal_path)

text \<open>An installation copies the jar.  When \<open>install_mod_to_server\<close> returns true, the mod fits the
  server's game version and the file in the server's directory is the mod's jar.\<close>

theorem installation_copies_the_jar:
  "packs z \<Longrightarrow> row_at sid (rd_servers (rv_db v)) = Some s \<Longrightarrow> fst (install_mod_to_server z slug sid v) = Inr True \<Longrightarrow>
   mc_compatible slug (sv_mc s) (rv_db v) \<and>
   vfs_get z (server_mods s @ ''/'' @ slug @ ''.jar'') (snd (install_mod_to_server z slug sid v)) = vfs_get z (jar_path slug) v"
proof -
  assume z: "packs z" and s: "row_at sid (rd_servers (rv_db v)) = Some s" and i: "fst (install_mod_to_server z slug sid v) = Inr True"
  obtain m where m: "get_mod slug (rv_db v) = Some m" using i by (cases "get_mod slug (rv_db v)") (simp_all add: install_mod_to_server_def)
  have c: "mc_compatible slug (sv_mc s) (rv_db v)" "unmet_dependencies slug (rv_db v) = []"
    using i m s by (auto simp: install_mod_to_server_def split: if_splits)
  obtain r w where w: "vfs_mkdir z (server_mods s) v = (r, w)" by (rule prod.exhaust)
  have "row_at (jar_path slug) (rd_nodes (rv_db w)) = row_at (jar_path slug) (rd_nodes (rv_db v))"
  proof -
    have "jar_path slug \<noteq> server_mods s @ ''/.vfs_dir''" by (simp add: jar_path_def server_mods_def)
    then show ?thesis using w [symmetric] by (auto simp: vfs_mkdir_def Let_def server_dir_normal store_nodes split: sum.splits)
  qed
  then have jar: "vfs_get z (jar_path slug) w = vfs_get z (jar_path slug) v" by (simp add: vfs_get_def get_raw_file_def jar_normal)
  obtain data where data: "vfs_get z (jar_path slug) w = Inr (Some data)" "data \<noteq> []" "r = Inr ()"
    using i m s c w by (cases r; cases "vfs_get z (jar_path slug) w")
      (auto simp: install_mod_to_server_def split: option.splits if_splits)
  obtain r' w' where w': "vfs_write z (server_mods s @ ''/'' @ slug @ ''.jar'') data ''644'' ''application/octet-stream'' None True w = (r', w')" by (rule prod.exhaust)
  with i m s c w data have "r' = Inr ()" and snd: "snd (install_mod_to_server z slug sid v) = w'"
    by (auto simp: install_mod_to_server_def split: sum.splits)
  with write_nodes [of z "server_mods s @ ''/'' @ slug @ ''.jar''" data "''644''" "''application/octet-stream''" None True w] w' z
  have "vfs_get z (server_mods s @ ''/'' @ slug @ ''.jar'') w' = Inr (Some data)"
    by (simp add: vfs_get_def get_raw_file_def packs_def)
  with c jar data snd show ?thesis by simp
qed

theorem installation_copies_the_jar_witness:
  "vfs_get no_packing ''/servers/main/mods/c.jar'' (snd (install_mod_to_server no_packing ''c'' 1 (snd (import_mod_file no_packing ''c'' [4] mod_vfs)))) = Inr (Some [4])"
proof -
  have z: "packs no_packing" by (simp add: packs_def no_packing_def)
  define v where "v = snd (import_mod_file no_packing ''c'' [4] mod_vfs)"
  define s where "s = \<lparr>sv_name = ''main'', sv_mc = ''1.20.4'', sv_kind = ''forge''\<rparr>"
  have s: "row_at 1 (rd_servers (rv_db v)) = Some s" unfolding v_def s_def by code_simp
  have i: "fst (install_mod_to_server no_packing ''c'' 1 v) = Inr True" unfolding v_def by code_simp
  have "vfs_get no_packing (jar_path ''c'') v = Inr (Some [4])" unfolding v_def by code_simp
  moreover have "server_mods s @ ''/'' @ ''c'' @ ''.jar'' = ''/servers/main/mods/c.jar''" unfolding s_def by code_simp
  ultimately show ?thesis using installation_copies_the_jar [OF z s i] unfolding v_def by simp
qed


end
