(* ===== verification/RunnerNet.thy ===== *)
theory RunnerNet
  imports PyText PyDict "HOL-Library.Sublist"
begin

text \<open>
  The virtual network of the server runner: \<open>engine/networking.py\<close> with the tables of
  \<open>engine/database.py\<close> it uses: adapters, firewall rules, port reservations in memory and in the
  flags of the servers, and the network manager.  Random addresses, the parser of float texts and the
  clock are arguments; the adapters' columns and the configuration are dictionaries.  Rules of equal
  priority come in the order of their rows.
\<close>

section \<open>The tables\<close>

datatype cfg_value = CInt int | CStr string | CFloat rat | CNone

record fw_rule =
  fr_server :: nat
  fr_type :: string
  fr_direction :: string
  fr_protocol :: string
  fr_range :: "string option"
  fr_host :: string
  fr_port :: "int option"
  fr_priority :: int

record net_db =
  nt_servers :: "nat list"
  nt_flags :: "(nat \<times> string, string) table"
  nt_rules :: "(nat, fw_rule) table"
  nt_next :: nat
  nt_adapters :: "(nat, (string, cfg_value) table) table"

definition get_flag :: "nat \<Rightarrow> string \<Rightarrow> net_db \<Rightarrow> string option" where
  "get_flag sid key db = row_at (sid, key) (nt_flags db)"

definition set_flag :: "nat \<Rightarrow> string \<Rightarrow> string \<Rightarrow> net_db \<Rightarrow> net_db result" where
  "set_flag sid key v db =
     (if sid \<in> set (nt_servers db) then Inr (db\<lparr>nt_flags := dict_set (sid, key) v (nt_flags db)\<rparr>) else Inl IntegrityError)"

definition add_network_rule :: "fw_rule \<Rightarrow> net_db \<Rightarrow> (nat \<times> net_db) result" where
  "add_network_rule r db =
     (if fr_server r \<in> set (nt_servers db)
      then Inr (nt_next db, db\<lparr>nt_rules := nt_rules db @ [(nt_next db, r)], nt_next := nt_next db + 1\<rparr>)
      else Inl IntegrityError)"

definition list_network_rules :: "nat \<Rightarrow> net_db \<Rightarrow> (nat \<times> fw_rule) list" where
  "list_network_rules sid db = sort_key (\<lambda>(i, r). fr_priority r) (filter (\<lambda>(i, r). fr_server r = sid) (nt_rules db))"

definition remove_firewall_rule :: "nat \<Rightarrow> net_db \<Rightarrow> net_db" where
  "remove_firewall_rule i db = db\<lparr>nt_rules := delete_row i (nt_rules db)\<rparr>"

definition port_key :: "int \<Rightarrow> string" where
  "port_key p = ''port_'' @ str_int p"

text \<open>An \<open>INSERT\<close> that fails, for a missing server or a reservation that exists, returns false.\<close>

definition db_reserve_port :: "int \<Rightarrow> nat \<Rightarrow> net_db \<Rightarrow> bool \<times> net_db" where
  "db_reserve_port p sid db =
     (if sid \<notin> set (nt_servers db) \<or> row_at (sid, port_key p) (nt_flags db) \<noteq> None then (False, db)
      else (True, db\<lparr>nt_flags := nt_flags db @ [((sid, port_key p), str_int p)]\<rparr>))"

definition db_release_port :: "int \<Rightarrow> nat \<Rightarrow> net_db \<Rightarrow> net_db" where
  "db_release_port p sid db = db\<lparr>nt_flags := delete_row (sid, port_key p) (nt_flags db)\<rparr>"

definition get_all_reserved_ports :: "net_db \<Rightarrow> int list" where
  "get_all_reserved_ports db =
     map (\<lambda>(k, v). int (digits_value v)) (filter (\<lambda>(k, v). like ''port_%'' (snd k) \<and> v \<noteq> [] \<and> list_all is_digit v) (nt_flags db))"

section \<open>Adapters\<close>

definition adapter_columns :: "string list" where
  "adapter_columns = [''id'', ''server_id'', ''virtual_ip'', ''subnet'', ''mac_address'', ''upstream_dns'', ''bandwidth_limit'',
     ''packet_loss'', ''latency_ms'', ''enabled'']"

definition new_adapter_row :: "int \<Rightarrow> nat \<Rightarrow> string \<Rightarrow> string \<Rightarrow> (string, cfg_value) table" where
  "new_adapter_row i sid ip mac =
     [(''id'', CInt i), (''server_id'', CInt (int sid)), (''virtual_ip'', CStr ip), (''subnet'', CStr ''10.0.0.0/24''),
      (''mac_address'', CStr mac), (''upstream_dns'', CStr ''1.1.1.1''), (''bandwidth_limit'', CInt 0), (''packet_loss'', CFloat 0),
      (''latency_ms'', CInt 0), (''enabled'', CInt 1)]"

definition create_virtual_adapter :: "nat \<Rightarrow> string \<Rightarrow> string \<Rightarrow> net_db \<Rightarrow> net_db result" where
  "create_virtual_adapter sid ip mac db =
     (if sid \<notin> set (nt_servers db) \<or> row_at sid (nt_adapters db) \<noteq> None then Inl IntegrityError
      else Inr (db\<lparr>nt_adapters := nt_adapters db @ [(sid, new_adapter_row (int (length (nt_adapters db)) + 1) sid ip mac)]\<rparr>))"

definition adapter_safe_keys :: "string list" where
  "adapter_safe_keys = [''virtual_ip'', ''subnet'', ''mac_address'', ''upstream_dns'', ''bandwidth_limit'', ''packet_loss'', ''latency_ms'', ''enabled'']"

definition put_all :: "(string \<times> cfg_value) list \<Rightarrow> (string, cfg_value) table \<Rightarrow> (string, cfg_value) table" where
  "put_all kvs d = fold (\<lambda>(k, v). dict_set k v) kvs d"

definition update_virtual_adapter :: "nat \<Rightarrow> (string \<times> cfg_value) list \<Rightarrow> net_db \<Rightarrow> bool \<times> net_db" where
  "update_virtual_adapter sid kvs db =
     (let ups = filter (\<lambda>(k, v). k \<in> set adapter_safe_keys) kvs
      in if ups = [] then (False, db) else (True, db\<lparr>nt_adapters := update_row sid (put_all ups) (nt_adapters db)\<rparr>))"

text \<open>\<open>IPv4Address\<close> and \<open>IPv4Network(..., strict=False)\<close> of the standard library.\<close>

definition octet_ok :: "string \<Rightarrow> bool" where
  "octet_ok s = (s \<noteq> [] \<and> list_all is_digit s \<and> length s \<le> 3 \<and> (s = ''0'' \<or> hd s \<noteq> CHR ''0'') \<and> digits_value s \<le> 255)"

definition ip_value :: "string \<Rightarrow> int option" where
  "ip_value s =
     (let parts = split_on (CHR ''.'') s
      in if length parts = 4 \<and> list_all octet_ok parts then Some (foldl (\<lambda>a p. 256 * a + int (digits_value p)) 0 parts) else None)"

definition ip_ok :: "cfg_value \<Rightarrow> bool" where
  "ip_ok v = (case v of CStr s \<Rightarrow> ip_value s \<noteq> None | CInt i \<Rightarrow> 0 \<le> i \<and> i < 2 ^ 32 | CFloat x \<Rightarrow> False | CNone \<Rightarrow> False)"

definition mask_ok :: "string \<Rightarrow> bool" where
  "mask_ok s =
     (if s \<noteq> [] \<and> list_all is_digit s then digits_value s \<le> 32
      else case ip_value s of None \<Rightarrow> False
        | Some i \<Rightarrow> list_ex (\<lambda>k. i = 2 ^ 32 - 2 ^ k \<or> i = 2 ^ k - 1) [0..<33])"

definition subnet_ok :: "cfg_value \<Rightarrow> bool" where
  "subnet_ok v = (case v of
     CStr s \<Rightarrow> (case split_on (CHR ''/'') s of
                  [a] \<Rightarrow> ip_value a \<noteq> None
                | [a, m] \<Rightarrow> ip_value a \<noteq> None \<and> mask_ok m
                | _ \<Rightarrow> False)
   | CInt i \<Rightarrow> 0 \<le> i \<and> i < 2 ^ 32 | CFloat x \<Rightarrow> False | CNone \<Rightarrow> False)"

definition loss_ok :: "(string \<Rightarrow> rat option) \<Rightarrow> cfg_value \<Rightarrow> bool" where
  "loss_ok parse v =
     (case (case v of CInt i \<Rightarrow> Some (of_int i) | CFloat x \<Rightarrow> Some x | CStr s \<Rightarrow> parse s | CNone \<Rightarrow> None) of
        None \<Rightarrow> False | Some x \<Rightarrow> 0 \<le> x \<and> x \<le> 100)"

record adapter =
  ad_server :: nat
  ad_config :: "(string, cfg_value) table"

definition load_adapter :: "nat \<Rightarrow> string \<Rightarrow> string \<Rightarrow> net_db \<Rightarrow> adapter result \<times> net_db" where
  "load_adapter sid ip mac db =
     (case row_at sid (nt_adapters db) of
        Some row \<Rightarrow> (Inr \<lparr>ad_server = sid, ad_config = row\<rparr>, db)
      | None \<Rightarrow>
          (case create_virtual_adapter sid ip mac db of
             Inl e \<Rightarrow> (Inl e, db)
           | Inr db1 \<Rightarrow> (Inr \<lparr>ad_server = sid, ad_config = (case row_at sid (nt_adapters db1) of Some row \<Rightarrow> row | None \<Rightarrow> [])\<rparr>, db1)))"

definition passes :: "(cfg_value \<Rightarrow> bool) \<Rightarrow> string \<Rightarrow> (string \<times> cfg_value) list \<Rightarrow> bool" where
  "passes chk k kvs = (case map_of kvs k of None \<Rightarrow> True | Some CNone \<Rightarrow> True | Some v \<Rightarrow> chk v)"

text \<open>The keywords are distinct; \<open>updated_at\<close> is set last.\<close>

definition update_adapter :: "(string \<Rightarrow> rat option) \<Rightarrow> string \<Rightarrow> (string \<times> cfg_value) list \<Rightarrow> adapter \<Rightarrow> net_db \<Rightarrow> bool \<times> adapter \<times> net_db" where
  "update_adapter parse now kvs a db =
     (if \<not> passes ip_ok ''virtual_ip'' kvs \<or> \<not> passes subnet_ok ''subnet'' kvs \<or> \<not> passes (loss_ok parse) ''packet_loss_pct'' kvs then (False, a, db)
      else let kvs1 = kvs @ [(''updated_at'', CStr now)]
           in (True, a\<lparr>ad_config := put_all kvs1 (ad_config a)\<rparr>, snd (update_virtual_adapter (ad_server a) kvs1 db)))"

definition set_adapter_enabled :: "(string \<Rightarrow> rat option) \<Rightarrow> string \<Rightarrow> bool \<Rightarrow> adapter \<Rightarrow> net_db \<Rightarrow> bool \<times> adapter \<times> net_db" where
  "set_adapter_enabled parse now b a db = update_adapter parse now [(''enabled'', CInt (if b then 1 else 0))] a db"

section \<open>The firewall\<close>

definition port_in_range :: "int \<Rightarrow> string \<Rightarrow> bool" where
  "port_in_range p s =
     (let parts = split_on (CHR ''-'') s; start = py_int (hd parts)
      in case start of
           Inl e \<Rightarrow> False
         | Inr a \<Rightarrow> if length parts = 1 then p = a
                    else (case py_int (join ''-'' (tl parts)) of Inl e \<Rightarrow> False | Inr b \<Rightarrow> a \<le> p \<and> p \<le> b))"

definition host_matches :: "string \<Rightarrow> string \<Rightarrow> bool" where
  "host_matches pat host = (pat = ''*'' \<or> (if prefix ''*.'' pat then suffix (tl pat) host else pat = host))"

definition rule_matches :: "fw_rule \<Rightarrow> string \<Rightarrow> int \<Rightarrow> string \<Rightarrow> bool" where
  "rule_matches r host port protocol =
     ((fr_protocol r = ''any'' \<or> fr_protocol r = protocol) \<and>
      (case fr_range r of
         Some (c # cs) \<Rightarrow> port_in_range port (c # cs)
       | _ \<Rightarrow> (case fr_port r of Some q \<Rightarrow> port = q | None \<Rightarrow> True)) \<and>
      host_matches (fr_host r) host)"

fun first_match :: "(nat \<times> fw_rule) list \<Rightarrow> string \<Rightarrow> int \<Rightarrow> string \<Rightarrow> bool \<times> nat option" where
  "first_match [] host port protocol = (False, None)"
| "first_match ((i, r) # rs) host port protocol =
     (if rule_matches r host port protocol then (fr_type r = ''allow'', Some i) else first_match rs host port protocol)"

definition check_connection :: "nat \<Rightarrow> string \<Rightarrow> int \<Rightarrow> string \<Rightarrow> net_db \<Rightarrow> bool \<times> nat option" where
  "check_connection sid host port protocol db =
     first_match (sort_key (\<lambda>(i, r). fr_priority r) (list_network_rules sid db)) host port protocol"

text \<open>\<open>partition\<close> splits at the first dash; an empty end is the start.\<close>

definition rule_ports :: "fw_rule \<Rightarrow> int list" where
  "rule_ports r =
     (case fr_range r of
        Some (c # cs) \<Rightarrow>
          let a = takeWhile (\<lambda>x. x \<noteq> CHR ''-'') (c # cs); b = drop (length a + 1) (c # cs)
          in (case py_int a of
                Inl e \<Rightarrow> []
              | Inr i \<Rightarrow> if b = [] then [i] else (case py_int b of Inl e \<Rightarrow> [] | Inr j \<Rightarrow> [i..j]))
      | _ \<Rightarrow> (case fr_port r of Some q \<Rightarrow> [q] | None \<Rightarrow> []))"

definition get_allowed_ports :: "nat \<Rightarrow> net_db \<Rightarrow> int list" where
  "get_allowed_ports sid db =
     sort (remdups (concat (map (\<lambda>(i, r). if fr_type r = ''allow'' then rule_ports r else []) (list_network_rules sid db))))"

definition chain_name :: "nat \<Rightarrow> string" where
  "chain_name sid = ''MC-SERVER-'' @ str_int (int sid)"

text \<open>The words of one \<open>iptables\<close> command.\<close>

definition rule_command :: "nat \<Rightarrow> fw_rule \<Rightarrow> string list" where
  "rule_command sid r =
     [''-A'', chain_name sid] @ (if fr_direction r = ''inbound'' then [''-i'', ''eth+''] else [''-o'', ''eth+'']) @
     (if fr_protocol r \<noteq> ''any'' then [''-p'', fr_protocol r] else []) @
     (if fr_host r \<noteq> [] \<and> fr_host r \<noteq> ''*'' then [if fr_direction r = ''inbound'' then ''-s'' else ''-d'', fr_host r] else []) @
     (case fr_range r of Some (c # cs) \<Rightarrow> [''--dport'', c # cs]
      | _ \<Rightarrow> (case fr_port r of Some q \<Rightarrow> [''--dport'', str_int q] | None \<Rightarrow> [])) @
     [''-j'', if fr_type r = ''allow'' then ''ACCEPT'' else ''DROP'']"

definition generate_firewall_script :: "string \<Rightarrow> nat \<Rightarrow> net_db \<Rightarrow> string list" where
  "generate_firewall_script now sid db =
     (let rules = list_network_rules sid db
      in if rules = [] then []
         else [''#!/bin/bash'', ''# Auto-generated firewall script'', ''# Server ID: '' @ str_int (int sid), ''# Generated: '' @ now, [], ''set -e'', [],
               ''CHAIN='' @ [CHR 0x22] @ ''MC-SERVER-'' @ str_int (int sid) @ [CHR 0x22], [], ''# Create dedicated chain'',
               ''sudo iptables -N '' @ chain_name sid @ '' 2>/dev/null || true'', [], ''# Flush existing rules in chain'',
               ''sudo iptables -F '' @ chain_name sid, []]
              @ concat (map (\<lambda>(i, r). [''# Rule priority='' @ str_int (fr_priority r), ''sudo iptables '' @ join '' '' (rule_command sid r), []])
                  (sort_key (\<lambda>(i, r). fr_priority r) rules))
              @ [''# Jump from FORWARD to our chain'',
                 ''sudo iptables -C FORWARD -j '' @ chain_name sid @ '' 2>/dev/null || sudo iptables -I FORWARD -j '' @ chain_name sid, []])"

section \<open>Ports\<close>

text \<open>The reservations of the process, a class variable.\<close>

type_synonym port_table = "(int, nat) table"

definition MAX_PORT :: int where "MAX_PORT = 65535"
definition DEFAULT_SERVER_PORT :: int where "DEFAULT_SERVER_PORT = 25565"
definition DEFAULT_RCON_PORT :: int where "DEFAULT_RCON_PORT = 25575"

definition reserve_port :: "int \<Rightarrow> nat \<Rightarrow> port_table \<times> net_db \<Rightarrow> bool \<times> port_table \<times> net_db" where
  "reserve_port p sid = (\<lambda>(t, db).
     if p < 1 \<or> p > MAX_PORT then (False, t, db)
     else if row_at p t \<noteq> None \<and> row_at p t \<noteq> Some sid then (False, t, db)
     else (True, dict_set p sid t, snd (db_reserve_port p sid db)))"

definition release_port :: "int \<Rightarrow> nat \<Rightarrow> bool \<Rightarrow> port_table \<times> net_db \<Rightarrow> bool \<times> port_table \<times> net_db" where
  "release_port p sid use_db = (\<lambda>(t, db).
     case row_at p t of
       None \<Rightarrow> (True, t, if use_db then db_release_port p sid db else db)
     | Some owner \<Rightarrow>
         if owner \<noteq> sid then (False, t, db)
         else (True, delete_row p t, if use_db then db_release_port p sid db else db))"

definition check_available :: "int \<Rightarrow> port_table \<Rightarrow> bool" where
  "check_available p t = (row_at p t = None)"

function find_up :: "int \<Rightarrow> int \<Rightarrow> (int \<Rightarrow> bool) \<Rightarrow> int option" where
  "find_up p hi taken = (if p > hi then None else if \<not> taken p then Some p else find_up (p + 1) hi taken)"
  by pat_completeness auto
termination by (relation "measure (\<lambda>(p, hi, taken). nat (hi + 1 - p))") auto

declare find_up.simps [simp del]

definition port_taken :: "int list \<Rightarrow> port_table \<Rightarrow> int \<Rightarrow> bool" where
  "port_taken stored t p = (row_at p t \<noteq> None \<or> p \<in> set stored)"

definition find_free_port :: "int \<Rightarrow> net_db option \<Rightarrow> port_table \<Rightarrow> int" where
  "find_free_port preferred db t =
     (let taken = port_taken (case db of None \<Rightarrow> [] | Some d \<Rightarrow> get_all_reserved_ports d) t
      in case find_up preferred MAX_PORT taken of
           Some p \<Rightarrow> p
         | None \<Rightarrow> (case find_up 1 (preferred - 1) taken of Some p \<Rightarrow> p | None \<Rightarrow> - 1))"

definition get_server_for_port :: "int \<Rightarrow> port_table \<Rightarrow> int" where
  "get_server_for_port p t = (case row_at p t of Some s \<Rightarrow> int s | None \<Rightarrow> - 1)"

section \<open>The network manager\<close>

definition cfg_get :: "string \<Rightarrow> cfg_value \<Rightarrow> adapter \<Rightarrow> cfg_value" where
  "cfg_get k d a = (case row_at k (ad_config a) of Some v \<Rightarrow> v | None \<Rightarrow> d)"

definition cfg_true :: "cfg_value \<Rightarrow> bool" where
  "cfg_true v = (case v of CInt i \<Rightarrow> i \<noteq> 0 | CStr s \<Rightarrow> s \<noteq> [] | CFloat x \<Rightarrow> x \<noteq> 0 | CNone \<Rightarrow> False)"

definition resolve_port :: "bool \<Rightarrow> adapter \<Rightarrow> port_table \<times> net_db \<Rightarrow> int \<times> port_table \<times> net_db" where
  "resolve_port skip a = (\<lambda>(t, db).
     let p = (case cfg_get ''server_port'' CNone a of CInt i \<Rightarrow> if i \<noteq> 0 then i else DEFAULT_SERVER_PORT | _ \<Rightarrow> DEFAULT_SERVER_PORT)
     in if skip then (p, t, db)
        else case reserve_port p (ad_server a) (t, db) of
            (True, t1, db1) \<Rightarrow> (p, t1, db1)
          | (False, t1, db1) \<Rightarrow>
              let q = find_free_port p (Some db1) t1 in (if q = - 1 then DEFAULT_SERVER_PORT else q, t1, db1))"

record sandbox_config =
  sc_rules :: "(nat \<times> fw_rule) list"
  sc_allowed :: "int list"
  sc_enabled :: bool
  sc_bandwidth :: cfg_value
  sc_latency :: cfg_value
  sc_loss :: cfg_value

definition get_sandbox_config :: "adapter \<Rightarrow> net_db \<Rightarrow> sandbox_config" where
  "get_sandbox_config a db =
     \<lparr>sc_rules = list_network_rules (ad_server a) db, sc_allowed = get_allowed_ports (ad_server a) db,
      sc_enabled = cfg_true (cfg_get ''enabled'' (CInt 0) a), sc_bandwidth = cfg_get ''bandwidth_limit_kbps'' (CInt 0) a,
      sc_latency = cfg_get ''latency_ms'' (CInt 0) a, sc_loss = cfg_get ''packet_loss_pct'' (CFloat 0) a\<rparr>"

text \<open>The overrides: the port, the address bound and, when enabled, the virtual address.\<close>

definition get_server_properties_override :: "adapter \<Rightarrow> port_table \<times> net_db \<Rightarrow> (int \<times> string \<times> cfg_value option) \<times> port_table \<times> net_db" where
  "get_server_properties_override a s =
     (if \<not> cfg_true (cfg_get ''enabled'' (CInt 1) a) then ((DEFAULT_SERVER_PORT, ''0.0.0.0'', None), s)
      else case resolve_port False a s of (p, s1) \<Rightarrow> ((p, ''0.0.0.0'', Some (cfg_get ''virtual_ip'' (CStr []) a)), s1))"

definition default_rule :: "nat \<Rightarrow> int \<Rightarrow> int \<Rightarrow> fw_rule" where
  "default_rule sid p prio = \<lparr>fr_server = sid, fr_type = ''allow'', fr_direction = ''inbound'', fr_protocol = ''tcp'', fr_range = None,
     fr_host = ''*'', fr_port = Some p, fr_priority = prio\<rparr>"

definition initialize_default_rules :: "nat \<Rightarrow> net_db \<Rightarrow> net_db result" where
  "initialize_default_rules sid db =
     (let ports = map (\<lambda>(i, r). fr_port r) (list_network_rules sid db);
          add = (\<lambda>p prio db. if Some p \<in> set ports then Inr db else bind_result (add_network_rule (default_rule sid p prio) db) (\<lambda>(i, d). Inr d))
      in bind_result (add DEFAULT_SERVER_PORT 10 db) (add DEFAULT_RCON_PORT 20))"

definition generate_network_config :: "string \<Rightarrow> adapter \<Rightarrow> port_table \<times> net_db \<Rightarrow> (int \<times> string list \<times> sandbox_config) result \<times> port_table \<times> net_db" where
  "generate_network_config now a = (\<lambda>(t, db).
     case initialize_default_rules (ad_server a) db of
       Inl e \<Rightarrow> (Inl e, t, db)
     | Inr db1 \<Rightarrow>
         (case resolve_port False a (t, db1) of
            (p, t2, db2) \<Rightarrow>
              (Inr (p, generate_firewall_script now (ad_server a) db2,
                    (get_sandbox_config a db2)\<lparr>sc_enabled := cfg_true (cfg_get ''enabled'' (CInt 1) a)\<rparr>), t2, db2)))"

definition network_cleanup :: "adapter \<Rightarrow> port_table \<times> net_db \<Rightarrow> port_table \<times> net_db" where
  "network_cleanup a s =
     (case resolve_port True a s of (p, s1) \<Rightarrow> if p > 0 then snd (release_port p (ad_server a) False s1) else s1)"

section \<open>The firewall decides by the first rule\<close>

lemma first_match_find:
  "first_match rs host port protocol =
     (case find (\<lambda>(i, r). rule_matches r host port protocol) rs of None \<Rightarrow> (False, None) | Some (i, r) \<Rightarrow> (fr_type r = ''allow'', Some i))"
  by (induction rs) auto

lemma find_in: "find P xs = Some x \<Longrightarrow> x \<in> set xs \<and> P x"
  by (auto simp: find_Some_iff)

lemma find_sorted:
  assumes "find P (sort_key f xs) = Some x" "y \<in> set xs" "P y"
  shows "f x \<le> (f y :: int)"
proof -
  from assms(1) obtain i where i: "i < length (sort_key f xs)" "sort_key f xs ! i = x" "\<And>j. j < i \<Longrightarrow> \<not> P (sort_key f xs ! j)"
    by (auto simp: find_Some_iff)
  from assms(2) obtain j where j: "j < length (sort_key f xs)" "sort_key f xs ! j = y"
    by (metis in_set_conv_nth set_sort)
  with i(3) assms(3) have "i \<le> j" by (metis not_le)
  moreover have "sorted (map f (sort_key f xs))" by simp
  ultimately show ?thesis using i(2) j sorted_nth_mono [of "map f (sort_key f xs)" i j] by simp
qed

text \<open>C21: The firewall denies by default and takes the first rule.  When a connection
  is allowed, the rule reported is an \<open>allow\<close> rule of the server that matches it, and no rule of the
  server that matches it comes earlier in priority.\<close>

theorem allowed_by_the_first_rule:
  "check_connection sid host port protocol db = (True, Some i) \<Longrightarrow>
   \<exists>r. (i, r) \<in> set (nt_rules db) \<and> fr_server r = sid \<and> fr_type r = ''allow'' \<and> rule_matches r host port protocol \<and>
     (\<forall>(j, r')\<in>set (nt_rules db). fr_server r' = sid \<and> rule_matches r' host port protocol \<longrightarrow> fr_priority r \<le> fr_priority r')"
proof -
  let ?rs = "list_network_rules sid db" and ?P = "\<lambda>(i, r). rule_matches r host port protocol" and ?f = "\<lambda>(i, r). fr_priority r"
  assume "check_connection sid host port protocol db = (True, Some i)"
  then obtain r where r: "find ?P (sort_key ?f ?rs) = Some (i, r)" "fr_type r = ''allow''"
    by (auto simp: check_connection_def first_match_find split: option.splits)
  have rows: "(j, q) \<in> set ?rs \<longleftrightarrow> (j, q) \<in> set (nt_rules db) \<and> fr_server q = sid" for j q
    by (auto simp: list_network_rules_def)
  have "(i, r) \<in> set ?rs" "rule_matches r host port protocol" using find_in [OF r(1)] by simp_all
  moreover have "fr_priority r \<le> fr_priority q" if "(j, q) \<in> set ?rs" "rule_matches q host port protocol" for j q
    using find_sorted [OF r(1) that(1)] that(2) by simp
  ultimately show ?thesis using r(2) rows by blast
qed

definition two_rules :: net_db where
  "two_rules = \<lparr>nt_servers = [1], nt_flags = [], nt_rules = [(1, (default_rule 1 80 20)\<lparr>fr_type := ''deny''\<rparr>), (2, (default_rule 1 80 10)\<lparr>fr_host := ''*.org''\<rparr>)],
     nt_next = 3, nt_adapters = []\<rparr>"

theorem allowed_by_the_first_rule_witness:
  "\<exists>r. (2, r) \<in> set (nt_rules two_rules) \<and> fr_type r = ''allow'' \<and> rule_matches r ''a.org'' 80 ''tcp''"
proof -
  have "check_connection 1 ''a.org'' 80 ''tcp'' two_rules = (True, Some 2)" by code_simp
  from allowed_by_the_first_rule [OF this] show ?thesis by blast
qed

lemma no_rule_denies:
  assumes "\<And>i r. (i, r) \<in> set (nt_rules db) \<Longrightarrow> fr_server r = sid \<Longrightarrow> \<not> rule_matches r host port protocol"
  shows "check_connection sid host port protocol db = (False, None)"
proof (cases "find (\<lambda>(i, r). rule_matches r host port protocol) (sort_key (\<lambda>(i, r). fr_priority r) (list_network_rules sid db))")
  case (Some x)
  from find_in [OF this] assms show ?thesis by (auto simp: list_network_rules_def)
qed (simp add: check_connection_def first_match_find)

section \<open>Free ports\<close>

lemma find_up_some: "find_up p hi taken = Some q \<Longrightarrow> p \<le> q \<and> q \<le> hi \<and> \<not> taken q"
proof (induction p hi taken rule: find_up.induct)
  case (1 p hi taken)
  then show ?case by (subst (asm) find_up.simps) (auto split: if_splits)
qed

lemma find_up_none: "find_up p hi taken = None \<Longrightarrow> p \<le> q \<Longrightarrow> q \<le> hi \<Longrightarrow> taken q"
proof (induction p hi taken rule: find_up.induct)
  case (1 p hi taken)
  from "1.prems" have t: "taken p" "find_up (p + 1) hi taken = None" by (subst (asm) (1) find_up.simps, auto split: if_splits)+
  show ?case
  proof (cases "q = p")
    case False
    then show ?thesis using "1.IH" "1.prems" t by simp
  qed (use t in simp)
qed

lemma find_up_hit: "p \<le> hi \<Longrightarrow> \<not> taken p \<Longrightarrow> find_up p hi taken = Some p"
  by (subst find_up.simps) simp

lemma find_up_step: "p \<le> hi \<Longrightarrow> taken p \<Longrightarrow> find_up p hi taken = find_up (p + 1) hi taken"
  by (subst find_up.simps) simp

text \<open>The search for a free port.  From a valid preferred port it ends with a valid port that is
  neither reserved in memory nor in the database, or with -1, and then every valid port is taken.\<close>

theorem free_port_is_found:
  "1 \<le> preferred \<Longrightarrow> preferred \<le> MAX_PORT \<Longrightarrow> q = find_free_port preferred (Some db) t \<Longrightarrow> taken = port_taken (get_all_reserved_ports db) t \<Longrightarrow>
   (if q = - 1 then \<forall>p\<in>{1..MAX_PORT}. taken p else 1 \<le> q \<and> q \<le> MAX_PORT \<and> \<not> taken q)"
proof -
  assume pre: "1 \<le> preferred" "preferred \<le> MAX_PORT" and q: "q = find_free_port preferred (Some db) t"
    and taken: "taken = port_taken (get_all_reserved_ports db) t"
  from q have q: "q = (case find_up preferred MAX_PORT taken of Some p \<Rightarrow> p | None \<Rightarrow> (case find_up 1 (preferred - 1) taken of Some p \<Rightarrow> p | None \<Rightarrow> - 1))"
    unfolding find_free_port_def taken Let_def option.case .
  show ?thesis
  proof (cases "find_up preferred MAX_PORT taken")
    case (Some p)
    with find_up_some [OF Some] pre q show ?thesis by simp
  next
    case up: None
    show ?thesis
    proof (cases "find_up 1 (preferred - 1) taken")
      case (Some p)
      with find_up_some [OF Some] pre q up show ?thesis by simp
    next
      case None
      have "taken p" if "p \<in> {1..MAX_PORT}" for p
        using find_up_none [OF up, of p] find_up_none [OF None, of p] that by (cases "preferred \<le> p") auto
      with q up None show ?thesis by simp
    qed
  qed
qed

definition net0 :: net_db where
  "net0 = \<lparr>nt_servers = [1, 2, 3], nt_flags = [((3, ''port_25566''), ''25566'')], nt_rules = [], nt_next = 1, nt_adapters = []\<rparr>"

theorem free_port_is_found_witness:
  "\<not> port_taken (get_all_reserved_ports net0) [(25565, 1)] (find_free_port 25565 (Some net0) [(25565, 1)])"
proof -
  have p: "get_all_reserved_ports net0 = [25566]"
    by (simp add: get_all_reserved_ports_def net0_def digits_value_def is_digit_def ascii_lower_def)
  have "find_free_port 25565 (Some net0) [(25565, 1)] = 25567"
    by (simp add: find_free_port_def p find_up_step find_up_hit port_taken_def MAX_PORT_def row_at_def)
  with free_port_is_found [of 25565 25567 net0 "[(25565, 1)]" "port_taken (get_all_reserved_ports net0) [(25565, 1)]"]
  show ?thesis by (simp add: MAX_PORT_def)
qed

text \<open>A substitute port is not reserved.  When the default port belongs to another server, the manager
  looks for a free one and hands it out without reserving it, so that two further servers get the same.\<close>

theorem substitute_port_given_twice:
  "row_at DEFAULT_SERVER_PORT t = Some s \<Longrightarrow> s \<noteq> ad_server a \<Longrightarrow> s \<noteq> ad_server b \<Longrightarrow>
   cfg_get ''server_port'' CNone a = CNone \<Longrightarrow> cfg_get ''server_port'' CNone b = CNone \<Longrightarrow>
   fst (resolve_port False b (snd (resolve_port False a (t, db)))) = fst (resolve_port False a (t, db))"
  by (simp add: resolve_port_def reserve_port_def DEFAULT_SERVER_PORT_def MAX_PORT_def Let_def)

theorem substitute_port_given_twice_witness:
  "fst (resolve_port False \<lparr>ad_server = 3, ad_config = []\<rparr> (snd (resolve_port False \<lparr>ad_server = 2, ad_config = []\<rparr> ([(25565, 1)], net0)))) =
   fst (resolve_port False \<lparr>ad_server = 2, ad_config = []\<rparr> ([(25565, 1)], net0))"
  by (rule substitute_port_given_twice [of _ 1]) (simp_all add: row_at_def DEFAULT_SERVER_PORT_def cfg_get_def)

text \<open>A reservation in the database does not keep another server from the port.\<close>

lemma reserve_ignores_the_database: "fst (reserve_port 25566 2 ([], net0))"
  by (simp add: reserve_port_def MAX_PORT_def row_at_def)

section \<open>What an adapter keeps\<close>

definition adapters_ok :: "net_db \<Rightarrow> bool" where
  "adapters_ok db = (\<forall>sid row k. row_at sid (nt_adapters db) = Some row \<longrightarrow> row_at k row \<noteq> None \<longrightarrow> k \<in> set adapter_columns)"

lemma put_all_keys: "row_at k (put_all kvs d) \<noteq> None \<longleftrightarrow> k \<in> fst ` set kvs \<or> row_at k d \<noteq> None"
proof (induction kvs arbitrary: d)
  case (Cons kv kvs)
  then show ?case by (cases kv) (auto simp: put_all_def dict.get_put)
qed (simp add: put_all_def)

lemma adapters_ok_update:
  assumes "adapters_ok db"
  shows "adapters_ok (snd (update_virtual_adapter sid kvs db))"
proof -
  let ?ups = "filter (\<lambda>(k, v). k \<in> set adapter_safe_keys) kvs"
  have safe: "k \<in> set adapter_columns" if "k \<in> set adapter_safe_keys" for k
    using that by (auto simp: adapter_safe_keys_def adapter_columns_def)
  have "k \<in> set adapter_columns" if "row_at k (put_all ?ups row) \<noteq> None" "row_at s (nt_adapters db) = Some row" for k s row
    using that(1) unfolding put_all_keys using assms that(2) safe unfolding adapters_ok_def by fastforce
  then show ?thesis using assms unfolding adapters_ok_def update_virtual_adapter_def Let_def
    by (auto simp: row_at_update split: if_splits)
qed

lemma adapters_okD: "adapters_ok db \<Longrightarrow> row_at sid (nt_adapters db) = Some row \<Longrightarrow> k \<notin> set adapter_columns \<Longrightarrow> row_at k row = None"
  unfolding adapters_ok_def by (cases "row_at k row") auto

lemma new_row_keys: "row_at k (new_adapter_row i sid ip mac) \<noteq> None \<Longrightarrow> k \<in> set adapter_columns"
  by (simp add: new_adapter_row_def row_at_def adapter_columns_def split: if_splits)

lemma adapters_ok_load:
  assumes ok: "adapters_ok db" and l: "load_adapter sid ip mac db = (r, db1)"
  shows "adapters_ok db1"
proof (cases "db1 = db")
  case False
  with l have new: "row_at sid (nt_adapters db) = None"
    and db1: "nt_adapters db1 = nt_adapters db @ [(sid, new_adapter_row (int (length (nt_adapters db)) + 1) sid ip mac)]"
    by (auto simp: load_adapter_def create_virtual_adapter_def split: option.splits if_splits)
  have rows: "row_at s (nt_adapters db1) = (if s = sid then Some (new_adapter_row (int (length (nt_adapters db)) + 1) sid ip mac) else row_at s (nt_adapters db))" for s
    using new by (simp add: db1 row_at_append row_at_other)
  show ?thesis unfolding adapters_ok_def rows using ok new_row_keys unfolding adapters_ok_def by (auto split: if_splits)
qed (use ok in simp)

lemma loaded_row:
  assumes "adapters_ok db" "load_adapter sid ip mac db = (Inr a, db1)" "k \<notin> set adapter_columns"
  shows "row_at k (ad_config a) = None"
proof -
  have "row_at sid (nt_adapters db1) = Some (ad_config a) \<or> ad_config a = []"
    using assms(2) by (auto simp: load_adapter_def split: option.splits sum.splits)
  with adapters_okD [OF adapters_ok_load [OF assms(1,2)], of sid "ad_config a" k] assms(3) show ?thesis by (auto simp: row_at_def)
qed

text \<open>Two limits of the sandbox are never kept.  Whatever is set with \<open>update\<close>, an adapter that is
  loaded again shows no limit of bandwidth and no loss of packets: the keys that \<open>update\<close> is given and
  the configuration reads are not columns of the table.\<close>

theorem limits_are_lost:
  "adapters_ok db \<Longrightarrow> load_adapter sid ip mac db = (Inr a, db1) \<Longrightarrow> update_adapter parse now kvs a db1 = (r, a', db2) \<Longrightarrow>
   load_adapter sid ip' mac' db2 = (Inr b, db3) \<Longrightarrow>
   sc_bandwidth (get_sandbox_config b db3) = CInt 0 \<and> sc_loss (get_sandbox_config b db3) = CFloat 0"
proof -
  assume ok: "adapters_ok db" and l: "load_adapter sid ip mac db = (Inr a, db1)" and u: "update_adapter parse now kvs a db1 = (r, a', db2)"
    and l': "load_adapter sid ip' mac' db2 = (Inr b, db3)"
  have "adapters_ok db2" using adapters_ok_load [OF ok l] u adapters_ok_update
    by (auto simp: update_adapter_def Let_def split: if_splits)
  from loaded_row [OF this l'] show ?thesis by (simp add: get_sandbox_config_def cfg_get_def adapter_columns_def)
qed

theorem limits_are_lost_witness:
  "\<exists>a db1 b db3. load_adapter 1 ''10.0.0.7'' ''02:00'' net0 = (Inr a, db1) \<and>
     load_adapter 1 [] [] (snd (snd (update_adapter (\<lambda>_. None) ''now'' [(''bandwidth_limit_kbps'', CInt 500)] a db1))) = (Inr b, db3) \<and>
     sc_bandwidth (get_sandbox_config b db3) = CInt 0"
proof -
  define kvs where "kvs = [(''bandwidth_limit_kbps'', CInt 500)]"
  define a where "a = \<lparr>ad_server = 1, ad_config = new_adapter_row 1 1 ''10.0.0.7'' ''02:00''\<rparr>"
  define db1 where "db1 = snd (load_adapter 1 ''10.0.0.7'' ''02:00'' net0)"
  have l: "load_adapter 1 ''10.0.0.7'' ''02:00'' net0 = (Inr a, db1)"
    by (simp add: a_def db1_def load_adapter_def create_virtual_adapter_def net0_def row_at_def)
  obtain r a' db2 where u: "update_adapter (\<lambda>_. None) ''now'' kvs a db1 = (r, a', db2)" by (metis prod_cases3)
  have "ok (fst (load_adapter 1 [] [] (snd (snd (update_adapter (\<lambda>_. None) ''now'' kvs a db1)))))"
    by (simp add: a_def db1_def kvs_def update_adapter_def passes_def update_virtual_adapter_def adapter_safe_keys_def load_adapter_def
      create_virtual_adapter_def net0_def row_at_def)
  then obtain b db3 where l': "load_adapter 1 [] [] db2 = (Inr b, db3)"
    unfolding u by (cases "load_adapter 1 [] [] db2") (auto simp: ok_def split: sum.splits)
  have "adapters_ok net0" by (simp add: adapters_ok_def net0_def row_at_def)
  from limits_are_lost [OF this l u l'] l l' u show ?thesis unfolding kvs_def by auto
qed

text \<open>A range without an end is allowed by the list of ports and by no rule.\<close>

lemma open_range_differs:
  "rule_ports ((default_rule 1 0 10)\<lparr>fr_range := Some ''80-''\<rparr>) = [80] \<and>
   \<not> rule_matches ((default_rule 1 0 10)\<lparr>fr_range := Some ''80-''\<rparr>) ''h'' 80 ''tcp''"
  by code_simp

end
