(* ===== verification/RunnerServers.thy ===== *)
theory RunnerServers
  imports RunnerNet
begin

text \<open>
  The processes of the server runner, \<open>engine/runner.py\<close>: starting with the reservation of ports,
  stopping over RCON or by signal, restarting, the monitor thread, the registry of running servers.
  The operating system is the list of live processes; files, the java binary and the jar are an
  outcome of the launch.  A server's row exists and its ports do not change while it is handled.
\<close>

section \<open>Runners and their processes\<close>

record server_desc =
  sd_port :: int
  sd_rcon :: int
  sd_password :: bool

record runner =
  rn_server :: nat
  rn_pid :: "nat option"
  rn_stop :: bool
  rn_monitor :: bool

record fleet =
  fl_objs :: "(nat, runner) table"
  fl_running :: "(nat, nat) table"
  fl_net :: "port_table \<times> net_db"
  fl_alive :: "nat list"
  fl_next :: nat

definition new_fleet :: "net_db \<Rightarrow> fleet" where
  "new_fleet db = \<lparr>fl_objs = [], fl_running = [], fl_net = ([], db), fl_alive = [], fl_next = 1\<rparr>"

text \<open>\<open>ServerRunner(db, vfs, server_id)\<close>, on a number for the object.\<close>

definition new_runner :: "nat \<Rightarrow> nat \<Rightarrow> fleet \<Rightarrow> fleet" where
  "new_runner k sid f = (if row_at k (fl_objs f) \<noteq> None then f
     else f\<lparr>fl_objs := fl_objs f @ [(k, \<lparr>rn_server = sid, rn_pid = None, rn_stop = False, rn_monitor = False\<rparr>)]\<rparr>)"

definition set_runner :: "nat \<Rightarrow> runner \<Rightarrow> fleet \<Rightarrow> fleet" where
  "set_runner k r f = f\<lparr>fl_objs := dict_set k r (fl_objs f)\<rparr>"

definition is_running :: "runner \<Rightarrow> fleet \<Rightarrow> bool" where
  "is_running r f = (case rn_pid r of None \<Rightarrow> False | Some p \<Rightarrow> p \<in> set (fl_alive f))"

definition put_flag :: "nat \<Rightarrow> string \<Rightarrow> string \<Rightarrow> fleet \<Rightarrow> fleet" where
  "put_flag sid k v f = f\<lparr>fl_net := (fst (fl_net f), case set_flag sid k v (snd (fl_net f)) of Inr d \<Rightarrow> d | Inl e \<Rightarrow> snd (fl_net f))\<rparr>"

definition release_in :: "int \<Rightarrow> nat \<Rightarrow> fleet \<Rightarrow> fleet" where
  "release_in p sid f = f\<lparr>fl_net := snd (release_port p sid True (fl_net f))\<rparr>"

section \<open>Starting\<close>

datatype launch = Launched | NotFound | NoJarOrJava

text \<open>\<open>_setup_network\<close>\<close>

definition setup_network :: "server_desc \<Rightarrow> nat \<Rightarrow> fleet \<Rightarrow> bool \<times> fleet" where
  "setup_network d sid f =
     (case reserve_port (sd_port d) sid (fl_net f) of
        (False, s1) \<Rightarrow> (False, f\<lparr>fl_net := s1\<rparr>)
      | (True, s1) \<Rightarrow>
          (case reserve_port (sd_rcon d) sid s1 of
             (False, s2) \<Rightarrow> (False, f\<lparr>fl_net := snd (release_port (sd_port d) sid True s2)\<rparr>)
           | (True, s2) \<Rightarrow>
               (True, f\<lparr>fl_net := (fst s2, case initialize_default_rules sid (snd s2) of Inr db \<Rightarrow> db | Inl e \<Rightarrow> snd s2)\<rparr>)))"

text \<open>\<open>_launch_java_process\<close>; without a jar or a java binary it raises before it marks the start.\<close>

definition launch_process :: "launch \<Rightarrow> nat \<Rightarrow> fleet \<Rightarrow> nat option \<times> fleet" where
  "launch_process l sid f =
     (case l of
        NoJarOrJava \<Rightarrow> (None, f)
      | NotFound \<Rightarrow> (None, put_flag sid ''status'' ''starting'' f)
      | Launched \<Rightarrow>
          let p = fl_next f; f1 = put_flag sid ''status'' ''starting'' f;
              f2 = f1\<lparr>fl_alive := fl_alive f1 @ [p], fl_next := p + 1\<rparr>
          in (Some p, put_flag sid ''pid'' (str_int (int p)) (put_flag sid ''status'' ''running'' f2)))"

definition start_monitor :: "runner \<Rightarrow> runner" where
  "start_monitor r = r\<lparr>rn_monitor := True\<rparr>"

definition start_runner :: "(nat \<Rightarrow> server_desc) \<Rightarrow> launch \<Rightarrow> nat \<Rightarrow> runner \<Rightarrow> fleet \<Rightarrow> bool result \<times> fleet" where
  "start_runner desc l k r f =
     (let sid = rn_server r; d = desc sid
      in if is_running r f \<or> row_at sid (fl_running f) \<noteq> None then (Inl RuntimeError, f)
         else case setup_network d sid f of
             (False, f1) \<Rightarrow> (Inl RuntimeError, f1)
           | (True, f1) \<Rightarrow>
               (case launch_process l sid f1 of
                  (None, f2) \<Rightarrow> (Inl RuntimeError, release_in (sd_rcon d) sid (release_in (sd_port d) sid f2))
                | (Some p, f2) \<Rightarrow>
                    (Inr True, set_runner k (start_monitor (r\<lparr>rn_pid := Some p\<rparr>)) (f2\<lparr>fl_running := dict_set sid k (fl_running f2)\<rparr>))))"

section \<open>Stopping\<close>

text \<open>\<open>_cleanup\<close>\<close>

definition cleanup_runner :: "(nat \<Rightarrow> server_desc) \<Rightarrow> nat \<Rightarrow> runner \<Rightarrow> fleet \<Rightarrow> fleet" where
  "cleanup_runner desc k r f =
     (let sid = rn_server r; d = desc sid;
          f1 = release_in (sd_rcon d) sid (release_in (sd_port d) sid f);
          f2 = f1\<lparr>fl_running := delete_row sid (fl_running f1)\<rparr>;
          f3 = put_flag sid ''rcon_port'' [] (put_flag sid ''server_port'' [] (put_flag sid ''pid'' [] (put_flag sid ''status'' ''stopped'' f2)))
      in set_runner k (r\<lparr>rn_pid := None\<rparr>) f3)"

text \<open>How the process is asked to end: killed, or over RCON, which may fail; the packets are sent and
  nobody waits.  The fallback waits for the process and kills it after the timeout.\<close>

datatype stop_way = Force | Graceful bool

definition end_process :: "stop_way \<Rightarrow> server_desc \<Rightarrow> runner \<Rightarrow> fleet \<Rightarrow> fleet" where
  "end_process w d r f =
     (let gone = f\<lparr>fl_alive := (case rn_pid r of None \<Rightarrow> fl_alive f | Some p \<Rightarrow> removeAll p (fl_alive f))\<rparr>
      in case w of Force \<Rightarrow> gone | Graceful rcon \<Rightarrow> if sd_password d \<and> rcon then f else gone)"

definition stop_runner :: "(nat \<Rightarrow> server_desc) \<Rightarrow> stop_way \<Rightarrow> nat \<Rightarrow> runner \<Rightarrow> fleet \<Rightarrow> bool \<times> fleet" where
  "stop_runner desc w k r f =
     (if \<not> is_running r f then (False, f)
      else let r1 = r\<lparr>rn_stop := True\<rparr>
           in (True, cleanup_runner desc k r1 (end_process w (desc (rn_server r)) r1 f)))"

definition restart_runner :: "(nat \<Rightarrow> server_desc) \<Rightarrow> stop_way \<Rightarrow> launch \<Rightarrow> nat \<Rightarrow> runner \<Rightarrow> fleet \<Rightarrow> bool result \<times> fleet" where
  "restart_runner desc w l k r f =
     (let f1 = snd (stop_runner desc w k r f);
          r1 = (case row_at k (fl_objs f1) of Some x \<Rightarrow> x | None \<Rightarrow> r)\<lparr>rn_stop := False\<rparr>
      in start_runner desc l k r1 (set_runner k r1 f1))"

text \<open>One turn of \<open>_monitor_loop\<close>.\<close>

definition monitor_turn :: "(nat \<Rightarrow> server_desc) \<Rightarrow> string \<Rightarrow> nat \<Rightarrow> runner \<Rightarrow> fleet \<Rightarrow> fleet" where
  "monitor_turn desc code k r f =
     (if \<not> rn_monitor r then f
      else if rn_stop r then set_runner k (r\<lparr>rn_monitor := False\<rparr>) f
      else if is_running r f then f
      else cleanup_runner desc k (r\<lparr>rn_monitor := False\<rparr>)
             (put_flag (rn_server r) ''last_exit_code'' code (put_flag (rn_server r) ''status'' ''crashed'' f)))"

section \<open>Whole runs\<close>

datatype fleet_call =
    Create nat nat
  | Start launch nat
  | Stop stop_way nat
  | Restart stop_way launch nat
  | MonitorTurn string nat
  | ProcessExit nat

definition on_runner :: "nat \<Rightarrow> (runner \<Rightarrow> fleet \<Rightarrow> fleet) \<Rightarrow> fleet \<Rightarrow> fleet" where
  "on_runner k g f = (case row_at k (fl_objs f) of None \<Rightarrow> f | Some r \<Rightarrow> g r f)"

definition fleet_step :: "(nat \<Rightarrow> server_desc) \<Rightarrow> fleet_call \<Rightarrow> fleet \<Rightarrow> fleet" where
  "fleet_step desc c f = (case c of
     Create k sid \<Rightarrow> new_runner k sid f
   | Start l k \<Rightarrow> on_runner k (\<lambda>r f. snd (start_runner desc l k r f)) f
   | Stop w k \<Rightarrow> on_runner k (\<lambda>r f. snd (stop_runner desc w k r f)) f
   | Restart w l k \<Rightarrow> on_runner k (\<lambda>r f. snd (restart_runner desc w l k r f)) f
   | MonitorTurn code k \<Rightarrow> on_runner k (\<lambda>r f. monitor_turn desc code k r f) f
   | ProcessExit p \<Rightarrow> f\<lparr>fl_alive := removeAll p (fl_alive f)\<rparr>)"

section \<open>Registered servers hold their ports\<close>

definition held :: "(nat \<Rightarrow> server_desc) \<Rightarrow> fleet \<Rightarrow> bool" where
  "held desc f = (\<forall>sid. row_at sid (fl_running f) \<noteq> None \<longrightarrow>
     row_at (sd_port (desc sid)) (fst (fl_net f)) = Some sid \<and> row_at (sd_rcon (desc sid)) (fst (fl_net f)) = Some sid)"

lemma heldI: "(\<And>sid. row_at sid (fl_running f) \<noteq> None \<Longrightarrow>
     row_at (sd_port (desc sid)) (fst (fl_net f)) = Some sid \<and> row_at (sd_rcon (desc sid)) (fst (fl_net f)) = Some sid) \<Longrightarrow> held desc f"
  by (simp add: held_def)

lemma heldD: "held desc f \<Longrightarrow> row_at sid (fl_running f) \<noteq> None \<Longrightarrow>
     row_at (sd_port (desc sid)) (fst (fl_net f)) = Some sid \<and> row_at (sd_rcon (desc sid)) (fst (fl_net f)) = Some sid"
  by (simp add: held_def)

lemma frame_simps [simp]:
  "fst (fl_net (put_flag sid k v f)) = fst (fl_net f)" "fl_running (put_flag sid k v f) = fl_running f"
  "fl_objs (put_flag sid k v f) = fl_objs f" "fl_alive (put_flag sid k v f) = fl_alive f"
  "fl_net (set_runner k' r f) = fl_net f" "fl_running (set_runner k' r f) = fl_running f" "fl_alive (set_runner k' r f) = fl_alive f"
  "fl_running (release_in p sid f) = fl_running f" "fl_objs (release_in p sid f) = fl_objs f" "fl_alive (release_in p sid f) = fl_alive f"
  by (simp_all add: put_flag_def set_runner_def release_in_def)

text \<open>A release frees a port of the server only; a reservation takes no port of another.\<close>

lemma release_keeps: "row_at q (fst (fl_net f)) = Some s \<Longrightarrow> s \<noteq> sid \<Longrightarrow> row_at q (fst (fl_net (release_in p sid f))) = Some s"
  by (auto simp: release_in_def release_port_def row_at_delete split: prod.split option.split)

lemma reserve_keeps: "row_at q (fst s) = Some o' \<Longrightarrow> o' \<noteq> sid \<Longrightarrow> row_at q (fst (snd (reserve_port p sid s))) = Some o'"
  by (auto simp: reserve_port_def dict.get_put split: prod.split)

lemma reserve_gets: "reserve_port p sid s = (True, s') \<Longrightarrow> row_at p (fst s') = Some sid"
  by (auto simp: reserve_port_def split: prod.splits if_splits)

lemma reserve_own: "row_at q (fst s) = Some sid \<Longrightarrow> row_at q (fst (snd (reserve_port p sid s))) = Some sid"
  by (auto simp: reserve_port_def dict.get_put split: prod.split)

lemma release_own_frame: "fst (fl_net (release_in p sid f)) = (if row_at p (fst (fl_net f)) = Some sid then delete_row p (fst (fl_net f)) else fst (fl_net f))"
  by (auto simp: release_in_def release_port_def split: prod.split option.split)

lemma held_cleanup: "held desc f \<Longrightarrow> held desc (cleanup_runner desc k r f)"
  by (rule heldI) (auto simp: cleanup_runner_def Let_def row_at_delete split: if_splits intro!: release_keeps dest: heldD)

lemma held_frame: "held desc f \<Longrightarrow> fst (fl_net f') = fst (fl_net f) \<Longrightarrow> fl_running f' = fl_running f \<Longrightarrow> held desc f'"
  by (simp add: held_def)

lemma held_stop: "held desc f \<Longrightarrow> held desc (snd (stop_runner desc w k r f))"
proof -
  assume h: "held desc f"
  have "held desc (end_process w d r1 f)" for d r1
    by (rule held_frame [OF h]) (simp_all add: end_process_def Let_def split: stop_way.split)
  then show ?thesis using h by (simp add: stop_runner_def Let_def held_cleanup)
qed

lemma setup_ports:
  assumes "setup_network d sid f = (b, f1)"
  shows "fl_running f1 = fl_running f" "fl_objs f1 = fl_objs f" "fl_alive f1 = fl_alive f"
    and "s \<noteq> sid \<Longrightarrow> row_at q (fst (fl_net f)) = Some s \<Longrightarrow> row_at q (fst (fl_net f1)) = Some s"
    and "b \<Longrightarrow> row_at (sd_port d) (fst (fl_net f1)) = Some sid \<and> row_at (sd_rcon d) (fst (fl_net f1)) = Some sid"
proof -
  obtain b1 s1 where 1: "reserve_port (sd_port d) sid (fl_net f) = (b1, s1)" by (rule prod.exhaust)
  obtain b2 s2 where 2: "reserve_port (sd_rcon d) sid s1 = (b2, s2)" by (rule prod.exhaust)
  note f1 = assms [unfolded setup_network_def 1 prod.case, symmetric]
  from f1 2 show "fl_running f1 = fl_running f" "fl_objs f1 = fl_objs f" "fl_alive f1 = fl_alive f"
    by (auto split: bool.splits)
  show "row_at q (fst (fl_net f1)) = Some s" if s: "s \<noteq> sid" "row_at q (fst (fl_net f)) = Some s"
  proof -
    have k1: "row_at q (fst s1) = Some s" using reserve_keeps [OF s(2) s(1), of "sd_port d"] 1 by simp
    have k2: "row_at q (fst s2) = Some s" using reserve_keeps [OF k1 s(1), of "sd_rcon d"] 2 by simp
    have "row_at q (fst (snd (release_port (sd_port d) sid True s2))) = Some s"
      using release_keeps [of q "f\<lparr>fl_net := s2\<rparr>" s sid "sd_port d"] k2 s(1) by (simp add: release_in_def)
    with k1 k2 f1 2 show ?thesis by (auto split: bool.splits)
  qed
  show "row_at (sd_port d) (fst (fl_net f1)) = Some sid \<and> row_at (sd_rcon d) (fst (fl_net f1)) = Some sid" if b
  proof -
    from f1 2 that have b: "b1" "b2" by (auto split: bool.splits)
    have p: "row_at (sd_port d) (fst s1) = Some sid" using 1 b(1) reserve_gets by simp
    have "row_at (sd_port d) (fst s2) = Some sid" using reserve_own [OF p, of "sd_rcon d"] 2 by simp
    moreover have "row_at (sd_rcon d) (fst s2) = Some sid" using 2 b(2) reserve_gets by simp
    ultimately show ?thesis using f1 2 b by simp
  qed
qed

lemma launch_frame:
  assumes "launch_process l sid f = (p, f1)"
  shows "fst (fl_net f1) = fst (fl_net f)" "fl_running f1 = fl_running f" "fl_objs f1 = fl_objs f"
  using assms by (auto simp: launch_process_def Let_def split: launch.splits)

lemma held_start:
  assumes h: "held desc f"
  shows "held desc (snd (start_runner desc l k r f))"
proof (cases "is_running r f \<or> row_at (rn_server r) (fl_running f) \<noteq> None")
  case False
  let ?sid = "rn_server r" and ?d = "desc (rn_server r)"
  obtain b f1 where 1: "setup_network ?d ?sid f = (b, f1)" by (rule prod.exhaust)
  obtain p f2 where 2: "launch_process l ?sid f1 = (p, f2)" by (rule prod.exhaust)
  note s = setup_ports [OF 1] and f2 = launch_frame [OF 2]
  have h1: "held desc f1"
    by (rule heldI) (use s(1,4) heldD [OF h] False in \<open>metis\<close>)
  have h2: "held desc f2" by (rule held_frame [OF h1 f2(1,2)])
  have start: "snd (start_runner desc l k r f) = (if b then (case p of None \<Rightarrow> release_in (sd_rcon ?d) ?sid (release_in (sd_port ?d) ?sid f2)
      | Some q \<Rightarrow> set_runner k (start_monitor (r\<lparr>rn_pid := Some q\<rparr>)) (f2\<lparr>fl_running := dict_set ?sid k (fl_running f2)\<rparr>)) else f1)"
    using False 1 2 by (simp add: start_runner_def Let_def split: bool.split option.split)
  have running: "fl_running f2 = fl_running f" using f2(2) s(1) by simp
  have "held desc (release_in (sd_rcon ?d) ?sid (release_in (sd_port ?d) ?sid f2))"
    by (rule heldI) (use heldD [OF h2] running False in \<open>auto intro!: release_keeps\<close>)
  moreover have "held desc (set_runner k r' (f2\<lparr>fl_running := dict_set ?sid k (fl_running f2)\<rparr>))" if b for r'
    by (rule heldI) (use heldD [OF h2] s(5) that f2(1) in \<open>auto simp: dict.get_put split: if_splits\<close>)
  ultimately show ?thesis using start h1 by (simp split: option.split)
qed (use h in \<open>simp add: start_runner_def Let_def\<close>)

lemma held_step:
  assumes h: "held desc f"
  shows "held desc (fleet_step desc c f)"
proof (cases c)
  case (Restart w l k)
  have "held desc (snd (restart_runner desc w l k r f))" for r
    unfolding restart_runner_def Let_def
    by (rule held_start) (rule held_frame [OF held_stop [OF h, of w k r]], simp_all)
  then show ?thesis using h Restart by (simp add: fleet_step_def on_runner_def split: option.split)
next
  case (MonitorTurn code k)
  have "held desc (monitor_turn desc code k r f)" for r
    using h by (auto simp: monitor_turn_def intro!: held_cleanup intro: held_frame)
  then show ?thesis using h MonitorTurn by (simp add: fleet_step_def on_runner_def split: option.split)
qed (use h held_start held_stop in \<open>auto simp: fleet_step_def on_runner_def new_runner_def held_def split: option.split\<close>)

lemma held_reachable: "held desc (fold (fleet_step desc) cs (new_fleet db))"
proof -
  have "held desc (fold (fleet_step desc) cs g)" if "held desc g" for g
    using that by (induction cs arbitrary: g) (simp_all add: held_step)
  moreover have "held desc (new_fleet db)" by (simp add: held_def new_fleet_def row_at_def)
  ultimately show ?thesis .
qed


definition two_servers :: "nat \<Rightarrow> server_desc" where
  "two_servers sid = \<lparr>sd_port = int sid, sd_rcon = int sid + 10, sd_password = True\<rparr>"

definition both_started :: fleet where
  "both_started = fold (fleet_step two_servers) [Create 1 1, Create 2 2, Start Launched 1, Start Launched 2] (new_fleet net0)"

lemma both_started_running: "fl_running both_started = [(1, 1), (2, 2)]"
  by code_simp


section \<open>Stopping over RCON\<close>

text \<open>A stop over RCON does not wait.  When the packets could be sent, \<open>stop\<close> returns true and frees
  the server's port while the process is still alive; nothing refers to it any more.\<close>

theorem rcon_stop_leaves_the_process:
  "f = fold (fleet_step desc) cs (new_fleet db) \<Longrightarrow> rn_pid r = Some p \<Longrightarrow> p \<in> set (fl_alive f) \<Longrightarrow> row_at (rn_server r) (fl_running f) \<noteq> None \<Longrightarrow>
   sd_password (desc (rn_server r)) \<Longrightarrow> g = snd (stop_runner desc (Graceful True) k r f) \<Longrightarrow>
   p \<in> set (fl_alive g) \<and> check_available (sd_port (desc (rn_server r))) (fst (fl_net g)) \<and> map_option rn_pid (row_at k (fl_objs g)) = Some None"
proof -
  assume f: "f = fold (fleet_step desc) cs (new_fleet db)" and p: "rn_pid r = Some p" "p \<in> set (fl_alive f)"
    and reg: "row_at (rn_server r) (fl_running f) \<noteq> None" and pw: "sd_password (desc (rn_server r))"
    and g: "g = snd (stop_runner desc (Graceful True) k r f)"
  have own: "row_at (sd_port (desc (rn_server r))) (fst (fl_net f)) = Some (rn_server r)"
    using heldD [OF held_reachable] reg unfolding f by blast
  have "g = cleanup_runner desc k (r\<lparr>rn_stop := True\<rparr>) f"
    using p pw g by (simp add: stop_runner_def is_running_def end_process_def)
  then show ?thesis using p own by (simp add: cleanup_runner_def Let_def check_available_def release_own_frame row_at_delete) (simp add: set_runner_def)
qed

theorem rcon_stop_leaves_the_process_witness:
  "1 \<in> set (fl_alive (snd (stop_runner two_servers (Graceful True) 1 \<lparr>rn_server = 1, rn_pid = Some 1, rn_stop = False, rn_monitor = True\<rparr> both_started)))"
proof -
  have "fl_alive both_started = [1, 2]" by code_simp
  then show ?thesis
    using rcon_stop_leaves_the_process [OF both_started_def, of "\<lparr>rn_server = 1, rn_pid = Some 1, rn_stop = False, rn_monitor = True\<rparr>" 1, OF _ _ _ _ refl]
    by (simp add: both_started_running row_at_def two_servers_def)
qed

text \<open>A restart then runs a second process of the server beside the first.\<close>

lemma restart_doubles_the_process:
  "fl_alive (fleet_step two_servers (Restart (Graceful True) Launched 1) both_started) = [1, 2, 3]"
  by code_simp

text \<open>The status of a crash is overwritten by the clean-up that follows it.\<close>

lemma crash_is_reported_as_stop:
  "get_flag 1 ''status'' (snd (fl_net (fold (fleet_step two_servers) [ProcessExit 1, MonitorTurn ''1'' 1] both_started))) = Some ''stopped''"
  by code_simp

section \<open>A crash that nobody watches\<close>

definition quiet :: "fleet \<Rightarrow> runner \<Rightarrow> bool" where
  "quiet f r = (\<not> rn_monitor r \<and> (case rn_pid r of None \<Rightarrow> True | Some p \<Rightarrow> p \<notin> set (fl_alive f) \<and> p < fl_next f))"

definition unwatched :: "nat \<Rightarrow> fleet \<Rightarrow> bool" where
  "unwatched sid f = (row_at sid (fl_running f) \<noteq> None \<and> (\<forall>k r. row_at k (fl_objs f) = Some r \<longrightarrow> rn_server r = sid \<longrightarrow> quiet f r))"

lemma quiet_not_running: "quiet f r \<Longrightarrow> \<not> is_running r f"
  by (simp add: quiet_def is_running_def split: option.splits)

lemma quiet_later: "quiet f r \<Longrightarrow> fl_next f \<le> fl_next g \<Longrightarrow> (\<forall>p\<in>set (fl_alive g). p \<in> set (fl_alive f) \<or> fl_next f \<le> p) \<Longrightarrow> quiet g r"
  by (auto simp: quiet_def split: option.splits)

text \<open>What a step on another server does to the rest: its processes are new, and the objects of this
  server stay as they are.\<close>

definition apart :: "nat \<Rightarrow> fleet \<Rightarrow> fleet \<Rightarrow> bool" where
  "apart sid f g = (fl_next f \<le> fl_next g \<and> (\<forall>p\<in>set (fl_alive g). p \<in> set (fl_alive f) \<or> fl_next f \<le> p) \<and>
     (row_at sid (fl_running f) \<noteq> None \<longrightarrow> row_at sid (fl_running g) \<noteq> None) \<and>
     (\<forall>k r. row_at k (fl_objs g) = Some r \<longrightarrow> rn_server r = sid \<longrightarrow> row_at k (fl_objs f) = Some r))"

lemma apart_unwatched: "unwatched sid f \<Longrightarrow> apart sid f g \<Longrightarrow> unwatched sid g"
  unfolding unwatched_def apart_def using quiet_later by blast

lemma apart_refl [simp]: "apart sid f f"
  by (simp add: apart_def)

lemma apart_trans: "apart sid f g \<Longrightarrow> apart sid g h \<Longrightarrow> apart sid f h"
  unfolding apart_def by (auto dest: order_trans)

lemma apart_set_runner: "rn_server r \<noteq> sid \<Longrightarrow> apart sid f (set_runner k r f)"
  by (auto simp: apart_def set_runner_def dict.get_put)

lemma apart_frame:
  "fl_next g = fl_next f \<Longrightarrow> set (fl_alive g) \<subseteq> set (fl_alive f) \<Longrightarrow> fl_running g = fl_running f \<Longrightarrow> fl_objs g = fl_objs f \<Longrightarrow> apart sid f g"
  by (auto simp: apart_def)

lemma next_simps [simp]:
  "fl_next (put_flag s k v f) = fl_next f" "fl_next (release_in p s f) = fl_next f" "fl_next (set_runner k' r f) = fl_next f"
  by (simp_all add: put_flag_def release_in_def set_runner_def)

lemma apart_cleanup: "rn_server r \<noteq> sid \<Longrightarrow> apart sid f (cleanup_runner desc k r f)"
  by (auto simp: apart_def cleanup_runner_def Let_def set_runner_def dict.get_put row_at_delete)

lemma apart_stop: "rn_server r \<noteq> sid \<Longrightarrow> apart sid f (snd (stop_runner desc w k r f))"
proof -
  assume r: "rn_server r \<noteq> sid"
  have "apart sid f (end_process w d r1 f)" for d r1
    by (rule apart_frame) (auto simp: end_process_def Let_def split: stop_way.split option.split)
  then have "apart sid f (cleanup_runner desc k (r\<lparr>rn_stop := True\<rparr>) (end_process w d r1 f))" for d r1
    by (rule apart_trans) (use r apart_cleanup [of "r\<lparr>rn_stop := True\<rparr>" sid] in simp_all)
  then show ?thesis by (simp add: stop_runner_def Let_def)
qed

lemma apart_launch: "launch_process l s f = (p, f1) \<Longrightarrow> apart sid f f1"
  by (auto simp: launch_process_def Let_def apart_def split: launch.splits)

lemma apart_setup: "setup_network d s f = (b, f1) \<Longrightarrow> apart sid f f1"
  by (rule apart_frame) (auto simp: setup_network_def split: prod.splits bool.splits)

lemma apart_start:
  assumes r: "rn_server r \<noteq> sid"
  shows "apart sid f (snd (start_runner desc l k r f))"
proof -
  let ?d = "desc (rn_server r)"
  obtain b f1 where 1: "setup_network ?d (rn_server r) f = (b, f1)" by (rule prod.exhaust)
  obtain p f2 where 2: "launch_process l (rn_server r) f1 = (p, f2)" by (rule prod.exhaust)
  have a: "apart sid f f1" "apart sid f f2" using apart_setup [OF 1] apart_launch [OF 2] by (auto intro: apart_trans)
  have rel: "apart sid f2 (release_in q s (release_in q' s f2))" for q q' s
    by (rule apart_frame) simp_all
  have reg: "apart sid f2 (set_runner k r' (f2\<lparr>fl_running := dict_set (rn_server r) k (fl_running f2)\<rparr>))" if "rn_server r' = rn_server r" for r'
    using r that by (auto simp: apart_def set_runner_def dict.get_put)
  have "apart sid f (release_in q s (release_in q' s f2))" for q q' s using a(2) rel apart_trans by blast
  moreover have "apart sid f (set_runner k (start_monitor (r\<lparr>rn_pid := x\<rparr>)) (f2\<lparr>fl_running := dict_set (rn_server r) k (fl_running f2)\<rparr>))" for x
    using a(2) reg [of "start_monitor (r\<lparr>rn_pid := x\<rparr>)"] apart_trans by (auto simp: start_monitor_def)
  ultimately show ?thesis using a(1) 1 2 by (simp add: start_runner_def Let_def split: bool.split option.split)
qed

lemma stop_object:
  assumes "row_at k (fl_objs f) = Some r"
  shows "\<exists>x. row_at k (fl_objs (snd (stop_runner desc w k r f))) = Some x \<and> rn_server x = rn_server r"
  using assms by (simp add: stop_runner_def Let_def cleanup_runner_def set_runner_def)

lemma apart_restart:
  assumes r: "rn_server r \<noteq> sid" and k: "row_at k (fl_objs f) = Some r"
  shows "apart sid f (snd (restart_runner desc w l k r f))"
proof -
  let ?f1 = "snd (stop_runner desc w k r f)"
  obtain x where x: "row_at k (fl_objs ?f1) = Some x" "rn_server x = rn_server r" using stop_object [OF k] by blast
  then have "apart sid f (set_runner k (x\<lparr>rn_stop := False\<rparr>) ?f1)"
    using r by (intro apart_trans [OF apart_stop [OF r, of f desc w k]] apart_set_runner) simp
  moreover have "apart sid g (snd (start_runner desc l k (x\<lparr>rn_stop := False\<rparr>) g))" for g
    using r x(2) by (intro apart_start) simp
  ultimately show ?thesis using x(1) apart_trans by (simp add: restart_runner_def Let_def)
qed

lemma apart_monitor: "rn_server r \<noteq> sid \<Longrightarrow> apart sid f (monitor_turn desc code k r f)"
proof -
  assume r: "rn_server r \<noteq> sid"
  have "apart sid f (put_flag s a b (put_flag s' a' b' f))" for s a b s' a' b' by (rule apart_frame) simp_all
  with r show ?thesis by (auto simp: monitor_turn_def intro: apart_set_runner apart_trans [OF _ apart_cleanup])
qed

text \<open>On an object of a server with an unwatched crash nothing happens.\<close>

lemma unwatched_object:
  assumes "unwatched sid f" "row_at k (fl_objs f) = Some r" "rn_server r = sid"
  shows "stop_runner desc w k r f = (False, f)" "start_runner desc l k r f = (Inl RuntimeError, f)" "monitor_turn desc code k r f = f"
    and "unwatched sid (snd (restart_runner desc w l k r f))"
proof -
  have q: "quiet f r" "row_at sid (fl_running f) \<noteq> None" using assms by (auto simp: unwatched_def)
  show stop: "stop_runner desc w k r f = (False, f)" using quiet_not_running [OF q(1)] by (simp add: stop_runner_def)
  have start: "start_runner desc l k x g = (Inl RuntimeError, g)" if "rn_server x = sid" "row_at sid (fl_running g) \<noteq> None" for x g
    using that by (simp add: start_runner_def Let_def)
  show "start_runner desc l k r f = (Inl RuntimeError, f)" using start assms(3) q(2) by simp
  show "monitor_turn desc code k r f = f" using q(1) by (simp add: monitor_turn_def quiet_def)
  have "snd (restart_runner desc w l k r f) = set_runner k (r\<lparr>rn_stop := False\<rparr>) f"
    using assms(2,3) q(2) start by (simp add: restart_runner_def stop)
  moreover have "quiet (set_runner k' r' f) x = quiet f x" for x k' r' by (simp add: quiet_def split: option.split)
  moreover have "quiet f (r\<lparr>rn_stop := False\<rparr>)" using q(1) by (simp add: quiet_def)
  ultimately show "unwatched sid (snd (restart_runner desc w l k r f))"
    using assms(1) unfolding unwatched_def by (auto simp: set_runner_def dict.get_put split: if_splits)
qed

lemma unwatched_step:
  assumes u: "unwatched sid f"
  shows "unwatched sid (fleet_step desc c f)"
proof -
  have obj: "unwatched sid (on_runner k g f)"
    if "\<And>r. row_at k (fl_objs f) = Some r \<Longrightarrow> unwatched sid (g r f)" for k g
    using u that by (simp add: on_runner_def split: option.split)
  show ?thesis
  proof (cases c)
    case (Create k s)
    show ?thesis
    proof (cases "row_at k (fl_objs f)")
      case None
      let ?n = "\<lparr>rn_server = s, rn_pid = None, rn_stop = False, rn_monitor = False\<rparr>"
      let ?g = "f\<lparr>fl_objs := fl_objs f @ [(k, ?n)]\<rparr>"
      have rows: "row_at k' (fl_objs ?g) = (if k' = k then Some ?n else row_at k' (fl_objs f))" for k'
        using None by (simp add: row_at_append row_at_other)
      have same: "quiet ?g x = quiet f x" "fl_running ?g = fl_running f" for x by (simp_all add: quiet_def split: option.split)
      have "quiet f ?n" by (simp add: quiet_def)
      then have "unwatched sid ?g" using u unfolding unwatched_def rows same by (auto split: if_splits)
      then show ?thesis using Create None by (simp add: fleet_step_def new_runner_def)
    qed (use u Create in \<open>simp add: fleet_step_def new_runner_def\<close>)
  next
    case (Start l k)
    then show ?thesis unfolding Start fleet_step_def fleet_call.case
      by (intro obj) (metis apart_start apart_unwatched u unwatched_object(2) snd_conv)
  next
    case (Stop w k)
    then show ?thesis unfolding Stop fleet_step_def fleet_call.case
      by (intro obj) (metis apart_stop apart_unwatched u unwatched_object(1) snd_conv)
  next
    case (Restart w l k)
    then show ?thesis unfolding Restart fleet_step_def fleet_call.case
      by (intro obj) (metis apart_restart apart_unwatched u unwatched_object(4))
  next
    case (MonitorTurn code k)
    then show ?thesis unfolding MonitorTurn fleet_step_def fleet_call.case
      by (intro obj) (metis apart_monitor apart_unwatched u unwatched_object(3))
  next
    case (ProcessExit p)
    have "apart sid f (f\<lparr>fl_alive := removeAll p (fl_alive f)\<rparr>)" by (auto simp: apart_def)
    then show ?thesis using ProcessExit u apart_unwatched by (simp add: fleet_step_def)
  qed
qed

text \<open>A crash that nobody watches is final.  Once a server is registered whose runners have neither a
  live process nor a monitor, whatever is called afterwards, starting the server raises.\<close>

theorem unwatched_crash_is_final:
  "unwatched sid f \<Longrightarrow> g = fold (fleet_step desc) cs f \<Longrightarrow> row_at k (fl_objs g) = Some r \<Longrightarrow> rn_server r = sid \<Longrightarrow>
   fst (start_runner desc l k r g) = Inl RuntimeError"
proof -
  assume u: "unwatched sid f" and g: "g = fold (fleet_step desc) cs f" and r: "row_at k (fl_objs g) = Some r" "rn_server r = sid"
  have "unwatched sid (fold (fleet_step desc) cs f)" using u by (induction cs arbitrary: f) (simp_all add: unwatched_step)
  from unwatched_object(2) [OF this [folded g] r] show ?thesis by simp
qed

text \<open>The state is reached by a stop and a second start on the same object: its monitor sees the old
  request to stop and ends.\<close>

definition crashed_again :: fleet where
  "crashed_again = fold (fleet_step two_servers) [Create 1 1, Start Launched 1, Stop Force 1, MonitorTurn [] 1, Start Launched 1,
     MonitorTurn [] 1, ProcessExit 2] (new_fleet net0)"

theorem unwatched_crash_is_final_witness:
  "fst (start_runner two_servers Launched 1 \<lparr>rn_server = 1, rn_pid = Some 2, rn_stop = True, rn_monitor = False\<rparr> crashed_again) = Inl RuntimeError"
proof -
  have s: "fl_objs crashed_again = [(1, \<lparr>rn_server = 1, rn_pid = Some 2, rn_stop = True, rn_monitor = False\<rparr>)] \<and>
      fl_running crashed_again = [(1, 1)] \<and> fl_alive crashed_again = [] \<and> fl_next crashed_again = 3"
    by code_simp
  then have "unwatched 1 crashed_again" by (auto simp: unwatched_def quiet_def row_at_def split: if_splits)
  then show ?thesis using s
    by (intro unwatched_crash_is_final [where sid = 1 and f = crashed_again and cs = "[]" and g = crashed_again]) (simp_all add: row_at_def)
qed

end
