(* ===== verification/ThreadCache.thy ===== *)
theory ThreadCache
  imports Complex_Main PyDict
begin

text \<open>
  The activation cache of the FastMCP server, \<open>fastmcp_server/tools/thread_cache.py\<close>: entries with a
  time to live and the version of the graph they were computed at, eviction and counters.  A call reads
  the clock once before and, if it computes, once after the computation; the graph store answers with
  its version, or fails, which counts as version 0.
\<close>

section \<open>Entries\<close>

record 'v cache_entry =
  ce_value :: 'v
  ce_expires :: rat
  ce_version :: int
  ce_accesses :: nat

definition new_cache_entry :: "'v \<Rightarrow> rat \<Rightarrow> int \<Rightarrow> rat \<Rightarrow> 'v cache_entry" where
  "new_cache_entry v ttl version now = \<lparr>ce_value = v, ce_expires = now + ttl, ce_version = version, ce_accesses = 0\<rparr>"

definition is_expired :: "int \<Rightarrow> rat \<Rightarrow> 'v cache_entry \<Rightarrow> bool" where
  "is_expired version now e = (now > ce_expires e \<or> version > ce_version e)"

definition touch :: "rat \<Rightarrow> rat \<Rightarrow> 'v cache_entry \<Rightarrow> 'v cache_entry" where
  "touch ttl now e = e\<lparr>ce_expires := now + ttl, ce_accesses := ce_accesses e + 1\<rparr>"

section \<open>The cache\<close>

record ('k, 'v) activation_cache =
  ac_max :: nat
  ac_ttl :: rat
  ac_table :: "('k, 'v cache_entry) table"
  ac_hits :: nat
  ac_misses :: nat
  ac_evictions :: nat
  ac_expired :: nat

definition new_cache :: "nat \<Rightarrow> rat \<Rightarrow> ('k, 'v) activation_cache" where
  "new_cache max_size default_ttl =
     \<lparr>ac_max = max max_size 1, ac_ttl = max default_ttl 1, ac_table = [], ac_hits = 0, ac_misses = 0, ac_evictions = 0, ac_expired = 0\<rparr>"

definition current_graph_version :: "int result option \<Rightarrow> int" where
  "current_graph_version store = (case store of Some (Inr g) \<Rightarrow> g | _ \<Rightarrow> 0)"

definition get_entry :: "'k \<Rightarrow> int \<Rightarrow> rat \<Rightarrow> ('k, 'v) activation_cache \<Rightarrow> 'v cache_entry option \<times> ('k, 'v) activation_cache" where
  "get_entry k version now c =
     (case row_at k (ac_table c) of
        None \<Rightarrow> (None, c)
      | Some e \<Rightarrow> if is_expired version now e then (None, c\<lparr>ac_table := delete_row k (ac_table c), ac_expired := ac_expired c + 1\<rparr>)
                  else (Some e, c))"

text \<open>\<open>min\<close> takes the first key with the fewest accesses.\<close>

fun least_accessed :: "('k, 'v cache_entry) table \<Rightarrow> ('k \<times> nat) option" where
  "least_accessed [] = None"
| "least_accessed ((k, e) # t) =
     (case least_accessed t of
        None \<Rightarrow> Some (k, ce_accesses e)
      | Some (k', n) \<Rightarrow> if n < ce_accesses e then Some (k', n) else Some (k, ce_accesses e))"

definition evict_one :: "('k, 'v) activation_cache \<Rightarrow> ('k, 'v) activation_cache" where
  "evict_one c =
     (case least_accessed (ac_table c) of
        None \<Rightarrow> c
      | Some (k, n) \<Rightarrow> c\<lparr>ac_table := delete_row k (ac_table c), ac_evictions := ac_evictions c + 1\<rparr>)"

definition put_entry :: "'k \<Rightarrow> 'v \<Rightarrow> rat \<Rightarrow> int \<Rightarrow> rat \<Rightarrow> ('k, 'v) activation_cache \<Rightarrow> ('k, 'v) activation_cache" where
  "put_entry k v ttl version now c =
     (if row_at k (ac_table c) \<noteq> None then c\<lparr>ac_table := dict_set k (new_cache_entry v ttl version now) (ac_table c)\<rparr>
      else let c1 = (if length (ac_table c) \<ge> ac_max c then evict_one c else c)
           in c1\<lparr>ac_table := dict_set k (new_cache_entry v ttl version now) (ac_table c1)\<rparr>)"

definition touched :: "'k \<Rightarrow> rat \<Rightarrow> rat \<Rightarrow> ('k, 'v) activation_cache \<Rightarrow> ('k, 'v) activation_cache" where
  "touched k ttl now c = c\<lparr>ac_table := update_row k (touch ttl now) (ac_table c), ac_hits := ac_hits c + 1\<rparr>"

definition get_or_compute ::
  "'k \<Rightarrow> 'v result \<Rightarrow> rat option \<Rightarrow> int result option \<Rightarrow> rat \<Rightarrow> rat \<Rightarrow> ('k, 'v) activation_cache \<Rightarrow> 'v result \<times> ('k, 'v) activation_cache" where
  "get_or_compute k computed ttl store now later c =
     (let version = current_graph_version store; t = (case ttl of None \<Rightarrow> ac_ttl c | Some x \<Rightarrow> x)
      in case get_entry k version now c of
           (Some e, c1) \<Rightarrow> (Inr (ce_value e), touched k t now c1)
         | (None, c1) \<Rightarrow>
             let c2 = c1\<lparr>ac_misses := ac_misses c1 + 1\<rparr>
             in (case computed of Inl e \<Rightarrow> (Inl e, c2) | Inr v \<Rightarrow> (Inr v, put_entry k v t version later c2)))"

definition cache_get :: "'k \<Rightarrow> int result option \<Rightarrow> rat \<Rightarrow> ('k, 'v) activation_cache \<Rightarrow> 'v option \<times> ('k, 'v) activation_cache" where
  "cache_get k store now c =
     (case get_entry k (current_graph_version store) now c of
        (Some e, c1) \<Rightarrow> (Some (ce_value e), touched k (ac_ttl c) now c1)
      | (None, c1) \<Rightarrow> (None, c1\<lparr>ac_misses := ac_misses c1 + 1\<rparr>))"

definition cache_set :: "'k \<Rightarrow> 'v \<Rightarrow> rat option \<Rightarrow> int result option \<Rightarrow> rat \<Rightarrow> ('k, 'v) activation_cache \<Rightarrow> ('k, 'v) activation_cache" where
  "cache_set k v ttl store now c =
     put_entry k v (case ttl of None \<Rightarrow> ac_ttl c | Some x \<Rightarrow> x) (current_graph_version store) now c"

definition cache_invalidate :: "'k \<Rightarrow> ('k, 'v) activation_cache \<Rightarrow> bool \<times> ('k, 'v) activation_cache" where
  "cache_invalidate k c = (row_at k (ac_table c) \<noteq> None, c\<lparr>ac_table := delete_row k (ac_table c)\<rparr>)"

definition invalidate_all :: "('k, 'v) activation_cache \<Rightarrow> nat \<times> ('k, 'v) activation_cache" where
  "invalidate_all c = (length (ac_table c), c\<lparr>ac_table := []\<rparr>)"

definition cleanup_expired :: "int result option \<Rightarrow> rat \<Rightarrow> ('k, 'v) activation_cache \<Rightarrow> nat \<times> ('k, 'v) activation_cache" where
  "cleanup_expired store now c =
     (let old = filter (\<lambda>(k, e). is_expired (current_graph_version store) now e) (ac_table c)
      in (length old, c\<lparr>ac_table := fold delete_row (map fst old) (ac_table c), ac_expired := ac_expired c + length old\<rparr>))"

text \<open>The hit rate is rounded to four places by \<open>round\<close>, an argument.\<close>

definition hit_rate :: "(rat \<Rightarrow> rat) \<Rightarrow> ('k, 'v) activation_cache \<Rightarrow> rat" where
  "hit_rate round4 c = (let total = ac_hits c + ac_misses c in round4 (if total > 0 then of_nat (ac_hits c) / of_nat total else 0))"

section \<open>Runs\<close>

datatype ('k, 'v) cache_call =
    GetOrCompute 'k "rat option" "int" rat rat
  | Get 'k "int" rat
  | Invalidate 'k
  | InvalidateAll
  | CleanupExpired "int" rat

text \<open>\<open>F k g\<close> is what the computation for a key yields on version \<open>g\<close> of the graph.\<close>

fun cache_step :: "('k \<Rightarrow> int \<Rightarrow> 'v) \<Rightarrow> ('k, 'v) cache_call \<Rightarrow> ('k, 'v) activation_cache \<Rightarrow> ('k, 'v) activation_cache" where
  "cache_step F (GetOrCompute k ttl g now later) c = snd (get_or_compute k (Inr (F k g)) ttl (Some (Inr g)) now later c)"
| "cache_step F (Get k g now) c = snd (cache_get k (Some (Inr g)) now c)"
| "cache_step F (Invalidate k) c = snd (cache_invalidate k c)"
| "cache_step F InvalidateAll c = snd (invalidate_all c)"
| "cache_step F (CleanupExpired g now) c = snd (cleanup_expired (Some (Inr g)) now c)"

fun seen_versions :: "('k, 'v) cache_call \<Rightarrow> int list" where
  "seen_versions (GetOrCompute k ttl g now later) = [g]"
| "seen_versions (Get k g now) = [g]"
| "seen_versions (Invalidate k) = []"
| "seen_versions InvalidateAll = []"
| "seen_versions (CleanupExpired g now) = [g]"

section \<open>The cache is bounded\<close>

definition bounded_cache :: "('k, 'v) activation_cache \<Rightarrow> bool" where
  "bounded_cache c = (keys_unique (ac_table c) \<and> length (ac_table c) \<le> ac_max c \<and> 0 < ac_max c)"

text \<open>What every operation does to the table: rows are removed, changed in place, or one is put.\<close>

definition computed_by :: "('k \<Rightarrow> int \<Rightarrow> 'v) \<Rightarrow> int \<Rightarrow> ('k, 'v) activation_cache \<Rightarrow> bool" where
  "computed_by F g c = (\<forall>k e. row_at k (ac_table c) = Some e \<longrightarrow> ce_value e = F k (ce_version e) \<and> ce_version e \<le> g)"

lemma length_delete: "length (delete_row k t) \<le> length t"
  by (simp add: delete_row_def)

lemma length_delete_less: "row_at k t \<noteq> None \<Longrightarrow> length (delete_row k t) < length t"
  unfolding row_at_keys delete_row_def by (auto intro: length_filter_less)

lemma length_update [simp]: "length (update_row k f t) = length t"
  by (simp add: update_row_def)

lemma length_set: "length (dict_set k v t) = (if row_at k t = None then Suc (length t) else length t)"
  by (simp add: dict_set_def)

lemma least_in: "least_accessed t = Some (k, n) \<Longrightarrow> row_at k t \<noteq> None"
  by (induction t arbitrary: k n) (auto simp: row_at_def split: option.splits if_splits)

lemma least_none: "least_accessed t = None \<longleftrightarrow> t = []"
  by (cases t) (auto split: option.split)

lemma bounded_get_entry: "bounded_cache c \<Longrightarrow> get_entry k g now c = (r, c1) \<Longrightarrow> bounded_cache c1 \<and> ac_max c1 = ac_max c"
  using length_delete [of k "ac_table c"]
  by (auto simp: get_entry_def bounded_cache_def keys_unique_ops split: option.splits if_splits)

lemma bounded_evict: "bounded_cache c \<Longrightarrow> bounded_cache (evict_one c) \<and> ac_max (evict_one c) = ac_max c"
  using length_delete [of _ "ac_table c"]
  by (auto simp: evict_one_def bounded_cache_def keys_unique_ops split: option.split intro: order_trans)

lemma evict_makes_room: "ac_table c \<noteq> [] \<Longrightarrow> length (ac_table (evict_one c)) < length (ac_table c)"
proof (cases "least_accessed (ac_table c)")
  case (Some x)
  then show ?thesis using least_in [of "ac_table c" "fst x" "snd x"] by (cases x) (auto simp: evict_one_def intro: length_delete_less)
qed (simp add: least_none)

lemma evict_rows: "row_at k (ac_table (evict_one c)) = Some e \<Longrightarrow> row_at k (ac_table c) = Some e"
  by (auto simp: evict_one_def row_at_delete split: option.splits if_splits)

lemma bounded_put: "bounded_cache c \<Longrightarrow> bounded_cache (put_entry k v t g now c) \<and> ac_max (put_entry k v t g now c) = ac_max c"
proof -
  assume c: "bounded_cache c"
  define c1 where "c1 = (if length (ac_table c) \<ge> ac_max c then evict_one c else c)"
  have "length (ac_table c1) < ac_max c" using c evict_makes_room [of c]
    by (cases "ac_table c") (auto simp: c1_def bounded_cache_def)
  moreover have "keys_unique (ac_table c1)" "ac_max c1 = ac_max c" using c bounded_evict [OF c] by (simp_all add: c1_def bounded_cache_def)
  ultimately have "bounded_cache (c1\<lparr>ac_table := dict_set k x (ac_table c1)\<rparr>)" for x
    using c by (auto simp: bounded_cache_def length_set dict_set_unique)
  then show ?thesis using c \<open>ac_max c1 = ac_max c\<close>
    by (auto simp: put_entry_def Let_def c1_def [symmetric] bounded_cache_def length_set dict_set_unique)
qed

lemma bounded_misses: "bounded_cache c \<Longrightarrow> bounded_cache (c\<lparr>ac_misses := m\<rparr>)"
  by (simp add: bounded_cache_def)

lemma bounded_touched: "bounded_cache c \<Longrightarrow> bounded_cache (touched k t now c)"
  by (simp add: bounded_cache_def touched_def keys_unique_ops)

lemma bounded_dels: "keys_unique t \<Longrightarrow> keys_unique (fold delete_row ks t) \<and> length (fold delete_row ks t) \<le> length t"
proof (induction ks arbitrary: t)
  case (Cons k ks)
  then show ?case using Cons.IH [of "delete_row k t"] length_delete [of k t] keys_unique_ops(2) [OF Cons.prems, of k] by (auto intro: order_trans)
qed simp

lemma bounded_step: "bounded_cache c \<Longrightarrow> bounded_cache (cache_step F x c) \<and> ac_max (cache_step F x c) = ac_max c"
proof (cases x)
  case (GetOrCompute k ttl g now later)
  assume c: "bounded_cache c"
  obtain r c1 where e: "get_entry k g now c = (r, c1)" by (rule prod.exhaust)
  have c1: "bounded_cache c1" "ac_max c1 = ac_max c" using bounded_get_entry [OF c e] by simp_all
  show ?thesis using GetOrCompute e c1 bounded_touched [OF c1(1)] bounded_put [OF bounded_misses [OF c1(1)]]
    by (auto simp: get_or_compute_def current_graph_version_def touched_def split: option.split)
next
  case (Get k g now)
  assume c: "bounded_cache c"
  obtain r c1 where e: "get_entry k g now c = (r, c1)" by (rule prod.exhaust)
  have c1: "bounded_cache c1" "ac_max c1 = ac_max c" using bounded_get_entry [OF c e] by simp_all
  show ?thesis using Get e c1 bounded_touched [OF c1(1)] bounded_misses [OF c1(1)]
    by (auto simp: cache_get_def current_graph_version_def touched_def split: option.split)
next
  case (Invalidate k)
  then show "bounded_cache c \<Longrightarrow> ?thesis" using length_delete [of k "ac_table c"]
    by (auto simp: cache_invalidate_def bounded_cache_def keys_unique_ops)
next
  case (CleanupExpired g now)
  then show "bounded_cache c \<Longrightarrow> ?thesis"
    using bounded_dels [of "ac_table c" "map fst (filter (\<lambda>(k, e). is_expired g now e) (ac_table c))"]
    by (auto simp: cleanup_expired_def Let_def bounded_cache_def current_graph_version_def)
qed (simp add: invalidate_all_def bounded_cache_def keys_unique_def)

lemma bounded_new: "bounded_cache (new_cache n t)"
  by (simp add: bounded_cache_def new_cache_def keys_unique_def)

text \<open>The cache is bounded.  After any sequence of calls it has at most as many entries as it was
  made for, one if it was made for none.\<close>

theorem cache_stays_bounded:
  "length (ac_table (fold (cache_step F) xs (new_cache n t))) \<le> max n 1"
proof -
  have "bounded_cache (fold (cache_step F) xs c) \<and> ac_max (fold (cache_step F) xs c) = ac_max c" if "bounded_cache c" for c
    using that
  proof (induction xs arbitrary: c)
    case (Cons x xs)
    show ?case using Cons.IH [of "cache_step F x c"] bounded_step [OF Cons.prems, of F x] by simp
  qed simp
  from this [OF bounded_new, of n t] show ?thesis by (simp add: bounded_cache_def new_cache_def)
qed

section \<open>A cached value is the computed one\<close>

lemma computed_put: "computed_by F g c \<Longrightarrow> g' \<le> g \<Longrightarrow> computed_by F g (put_entry k (F k g') t g' now c)"
  unfolding computed_by_def put_entry_def Let_def
  by (auto simp: dict.get_put new_cache_entry_def dest: evict_rows split: if_splits)

lemma computed_mono: "computed_by F g c \<Longrightarrow> g \<le> g' \<Longrightarrow> computed_by F g' c"
  by (fastforce simp: computed_by_def)

lemma computed_get_entry: "computed_by F g c \<Longrightarrow> get_entry k g' now c = (r, c1) \<Longrightarrow> computed_by F g c1"
  by (auto simp: get_entry_def computed_by_def row_at_delete split: option.splits if_splits)

lemma computed_touched: "computed_by F g c \<Longrightarrow> computed_by F g (touched k t now c)"
  by (auto simp: computed_by_def touched_def row_at_update touch_def split: if_splits)

lemma computed_misses: "computed_by F g c \<Longrightarrow> computed_by F g (c\<lparr>ac_misses := m\<rparr>)"
  by (simp add: computed_by_def)

lemma found_is_computed:
  assumes "computed_by F g c" "get_entry k g now c = (Some e, c1)"
  shows "ce_value e = F k g"
proof -
  have "row_at k (ac_table c) = Some e" "\<not> g > ce_version e"
    using assms(2) by (auto simp: get_entry_def is_expired_def split: option.splits if_splits)
  with assms(1) show ?thesis by (force simp: computed_by_def)
qed

lemma computed_step:
  assumes c: "computed_by F g0 c" and g: "\<forall>g\<in>set (seen_versions x). g0 \<le> g" and h: "g0 \<le> h" "\<forall>g\<in>set (seen_versions x). g \<le> h"
  shows "computed_by F h (cache_step F x c)"
proof (cases x)
  case (GetOrCompute k ttl g now later)
  obtain r c1 where e: "get_entry k g now c = (r, c1)" by (rule prod.exhaust)
  have c1: "computed_by F h c1" by (rule computed_mono [OF computed_get_entry [OF c e] h(1)])
  have "computed_by F h (put_entry k (F k g) t g later (c1\<lparr>ac_misses := m\<rparr>))" for t m
    by (rule computed_put [OF computed_misses [OF c1]]) (use h(2) GetOrCompute in simp)
  then show ?thesis using GetOrCompute e computed_touched [OF c1]
    by (auto simp: get_or_compute_def current_graph_version_def split: option.split)
next
  case (Get k g now)
  obtain r c1 where e: "get_entry k g now c = (r, c1)" by (rule prod.exhaust)
  have c1: "computed_by F h c1" by (rule computed_mono [OF computed_get_entry [OF c e] h(1)])
  then show ?thesis using Get e computed_touched [OF c1] computed_misses [OF c1]
    by (auto simp: cache_get_def current_graph_version_def split: option.split)
next
  case (CleanupExpired g now)
  then show ?thesis using computed_mono [OF c h(1)]
    by (auto simp: cleanup_expired_def Let_def computed_by_def dict.get_dels current_graph_version_def split: if_splits)
next
  case (Invalidate k)
  then show ?thesis using computed_mono [OF c h(1)] by (auto simp: cache_invalidate_def computed_by_def row_at_delete split: if_splits)
next
  case InvalidateAll
  then show ?thesis by (simp add: invalidate_all_def computed_by_def row_at_def)
qed

fun never_back :: "int \<Rightarrow> int list \<Rightarrow> bool" where
  "never_back g [] = True"
| "never_back g (h # hs) = (g \<le> h \<and> never_back h hs)"

lemma computed_run:
  assumes "computed_by F g c" "never_back g (concat (map seen_versions xs))"
  shows "computed_by F (last (g # concat (map seen_versions xs))) (fold (cache_step F) xs c)"
  using assms
proof (induction xs arbitrary: g c)
  case (Cons x xs)
  show ?case
  proof (cases "seen_versions x")
    case Nil
    then show ?thesis using Cons.IH [of g "cache_step F x c"] Cons.prems computed_step [OF Cons.prems(1), of x g] by simp
  next
    case (Cons h hs)
    then have one: "hs = []" by (cases x) simp_all
    with Cons.prems Cons have gh: "g \<le> h" "never_back h (concat (map seen_versions xs))" by simp_all
    have "computed_by F h (cache_step F x c)"
      by (rule computed_step [OF Cons.prems(1)]) (use Cons one gh in simp_all)
    from Cons.IH [OF this gh(2)] Cons one show ?thesis by simp
  qed
qed simp

lemma never_back_end: "never_back g0 (hs @ [g]) \<longleftrightarrow> never_back g0 hs \<and> last (g0 # hs) \<le> g"
  by (induction hs arbitrary: g0) auto



section \<open>Eviction\<close>

text \<open>What is evicted is an entry with the fewest accesses, which need not be the least recently used.\<close>

lemma evicted_has_fewest: "least_accessed t = Some (k, n) \<Longrightarrow> \<forall>(k', e)\<in>set t. n \<le> ce_accesses e"
  by (induction t arbitrary: k n) (force split: option.splits if_splits simp: least_none)+

lemma newest_is_evicted:
  "map fst (ac_table (fold (cache_step (\<lambda>k g. k)) [GetOrCompute ''old'' None 1 0 0, Get ''old'' 1 1, GetOrCompute ''new'' None 1 50 50,
     GetOrCompute ''next'' None 1 51 51] (new_cache 2 300))) = [''old'', ''next'']"
  by (simp add: new_cache_def get_or_compute_def cache_get_def get_entry_def put_entry_def touched_def touch_def evict_one_def is_expired_def
    current_graph_version_def new_cache_entry_def row_at_def dict_set_def update_row_def delete_row_def)

text \<open>A store that fails counts as version 0, at which no entry is too old.\<close>

lemma failing_store_serves_old_entries:
  "fst (cache_get ''k'' (Some (Inl OSError)) 1 (snd (get_or_compute ''k'' (Inr 7) None (Some (Inr 5)) 0 0 (new_cache 2 300)))) = Some 7"
  by (simp add: new_cache_def get_or_compute_def cache_get_def get_entry_def put_entry_def touched_def touch_def is_expired_def
    current_graph_version_def new_cache_entry_def row_at_def dict_set_def)

end
