(* ===== verification/PyHeap.thy ===== *)
theory PyHeap
  imports Main "HOL-Library.Multiset"
begin

text \<open>
  Python's \<open>heapq\<close>, as its source has it: the sift functions move a hole through the list, the new item
  is written at the end.  Items are compared by a key; no comparison other than \<open><\<close> is made.
\<close>

section \<open>The functions\<close>

definition parent :: "nat \<Rightarrow> nat" where
  "parent i = (i - 1) div 2"

lemma parent_less: "0 < i \<Longrightarrow> parent i < i"
  by (simp add: parent_def)

lemma parent_child [simp]: "parent (2 * p + 1) = p" "parent (2 * p + 2) = p" "parent (Suc (2 * p)) = p" "parent (Suc (Suc (2 * p))) = p"
  by (simp_all add: parent_def)

lemma child_cases: "0 < i \<Longrightarrow> parent i = p \<Longrightarrow> i = 2 * p + 1 \<or> i = 2 * p + 2"
  by (auto simp: parent_def)

function sift_down :: "('a \<Rightarrow> 'k::linorder) \<Rightarrow> nat \<Rightarrow> nat \<Rightarrow> 'a \<Rightarrow> 'a list \<Rightarrow> 'a list" where
  "sift_down key start p x h =
     (if start < p \<and> key x < key (h ! parent p) then sift_down key start (parent p) x (h[p := h ! parent p]) else h[p := x])"
  by pat_completeness auto
termination by (relation "measure (\<lambda>(key, start, p, x, h). p)") (auto intro: parent_less)

declare sift_down.simps [simp del]

text \<open>The hole sinks to a leaf along the smaller children.\<close>

function sink_hole :: "('a \<Rightarrow> 'k::linorder) \<Rightarrow> nat \<Rightarrow> 'a list \<Rightarrow> nat \<times> 'a list" where
  "sink_hole key p h =
     (if 2 * p + 1 < length h then
        let c = (if 2 * p + 2 < length h \<and> \<not> key (h ! (2 * p + 1)) < key (h ! (2 * p + 2)) then 2 * p + 2 else 2 * p + 1)
        in sink_hole key c (h[p := h ! c])
      else (p, h))"
  by pat_completeness auto
termination by (relation "measure (\<lambda>(key, p, h). length h - p)") auto

declare sink_hole.simps [simp del]

definition sift_up :: "('a \<Rightarrow> 'k::linorder) \<Rightarrow> nat \<Rightarrow> 'a list \<Rightarrow> 'a list" where
  "sift_up key s h = (let x = h ! s; (p, h1) = sink_hole key s h in sift_down key s p x h1)"

definition heappush :: "('a \<Rightarrow> 'k::linorder) \<Rightarrow> 'a \<Rightarrow> 'a list \<Rightarrow> 'a list" where
  "heappush key x h = sift_down key 0 (length h) x (h @ [x])"

definition heappop :: "('a \<Rightarrow> 'k::linorder) \<Rightarrow> 'a list \<Rightarrow> ('a \<times> 'a list) option" where
  "heappop key h =
     (if h = [] then None
      else let x = last h; h1 = butlast h
           in if h1 = [] then Some (x, []) else Some (hd h1, sift_up key 0 (h1[0 := x])))"

definition heapify :: "('a \<Rightarrow> 'k::linorder) \<Rightarrow> 'a list \<Rightarrow> 'a list" where
  "heapify key h = fold (sift_up key) (rev [0..<length h div 2]) h"

section \<open>Heaps\<close>

text \<open>Parents at or above \<open>s\<close> are in order with their children; with a hole, those that do not touch it,
  and the hole's parent with its children.\<close>

definition heap_from :: "('a \<Rightarrow> 'k::linorder) \<Rightarrow> nat \<Rightarrow> 'a list \<Rightarrow> bool" where
  "heap_from key s h = (\<forall>i<length h. 0 < i \<longrightarrow> s \<le> parent i \<longrightarrow> key (h ! parent i) \<le> key (h ! i))"

definition heap_hole :: "('a \<Rightarrow> 'k::linorder) \<Rightarrow> nat \<Rightarrow> nat \<Rightarrow> 'a list \<Rightarrow> bool" where
  "heap_hole key s p h =
     ((\<forall>i<length h. 0 < i \<longrightarrow> s \<le> parent i \<longrightarrow> i \<noteq> p \<longrightarrow> parent i \<noteq> p \<longrightarrow> key (h ! parent i) \<le> key (h ! i)) \<and>
      (\<forall>i<length h. 0 < i \<longrightarrow> parent i = p \<longrightarrow> s < p \<longrightarrow> key (h ! parent p) \<le> key (h ! i)))"

text \<open>Being below \<open>s\<close> in the tree.\<close>

function under_node :: "nat \<Rightarrow> nat \<Rightarrow> bool" where
  "under_node s p = (if p \<le> s then p = s else under_node s (parent p))"
  by pat_completeness auto
termination by (relation "measure snd") (auto intro: parent_less)

declare under_node.simps [simp del]

lemma under_self [simp]: "under_node s s"
  by (subst under_node.simps) simp

lemma under_ge: "under_node s p \<Longrightarrow> s \<le> p"
  by (subst (asm) under_node.simps) (auto split: if_splits)

lemma under_parent: "under_node s p \<Longrightarrow> s < p \<Longrightarrow> under_node s (parent p)"
  by (subst (asm) under_node.simps) auto

lemma under_child: "under_node s p \<Longrightarrow> under_node s (2 * p + 1) \<and> under_node s (2 * p + 2)"
  using under_ge [of s p] by (subst (1 2) under_node.simps) simp

lemma parent_mono_other: "0 < i \<Longrightarrow> parent i \<noteq> i"
  using parent_less [of i] by auto

lemma sift_down_heap:
  assumes "heap_hole key s p h" "p < length h" "under_node s p" "\<And>i. i < length h \<Longrightarrow> 0 < i \<Longrightarrow> parent i = p \<Longrightarrow> key x \<le> key (h ! i)"
  shows "heap_from key s (sift_down key s p x h)"
  using assms
proof (induction key s p x h rule: sift_down.induct)
  case (1 key s p x h)
  note hole = "1.prems"(1) and p = "1.prems"(2,3) and x = "1.prems"(4)
  show ?case
  proof (cases "s < p \<and> key x < key (h ! parent p)")
    case True
    let ?q = "parent p" and ?h = "h[p := h ! parent p]"
    have q: "?q < p" "s \<le> ?q" "?q < length h" using True parent_less [of p] under_ge [OF under_parent [OF p(2)]] p(1) by auto
    have pair: "key (h ! parent i) \<le> key (h ! i)" if "i < length h" "0 < i" "s \<le> parent i" "i \<noteq> p" "parent i \<noteq> p" for i
      using hole that by (simp add: heap_hole_def)
    have grand: "key (h ! ?q) \<le> key (h ! i)" if "i < length h" "0 < i" "parent i = p" for i
      using hole that True by (simp add: heap_hole_def)
    have "heap_hole key s ?q ?h"
      unfolding heap_hole_def
    proof (intro conjI allI impI)
      fix i assume i: "i < length ?h" "0 < i" "s \<le> parent i" "i \<noteq> ?q" "parent i \<noteq> ?q"
      show "key (?h ! parent i) \<le> key (?h ! i)"
        using i q p(1) grand [of i] pair [of i] by (cases "parent i = p"; cases "i = p") (auto simp: nth_list_update parent_mono_other)
    next
      fix i assume i: "i < length ?h" "0 < i" "parent i = ?q" "s < ?q"
      have up: "key (h ! parent ?q) \<le> key (h ! ?q)"
        using pair [of ?q] i(4) q parent_less [of ?q] under_ge [OF under_parent [OF under_parent [OF p(2)]]] True by auto
      have "key (h ! ?q) \<le> key (h ! i)" if "i \<noteq> p" using pair [of i] i q that by auto
      then show "key (?h ! parent ?q) \<le> key (?h ! i)"
        using up i q p(1) parent_less [of ?q] by (cases "i = p") (auto simp: nth_list_update intro: order_trans)
    qed
    moreover have "key x \<le> key (?h ! i)" if "i < length ?h" "0 < i" "parent i = ?q" for i
      using True that q p(1) pair [of i] by (cases "i = p") (auto simp: nth_list_update)
    ultimately have "heap_from key s (sift_down key s ?q x ?h)"
      using "1.IH" [OF True] q under_parent [OF p(2)] True by simp
    then show ?thesis using True by (subst sift_down.simps) simp
  next
    case False
    have "heap_from key s (h[p := x])"
      unfolding heap_from_def
    proof (intro allI impI)
      fix i assume i: "i < length (h[p := x])" "0 < i" "s \<le> parent i"
      show "key (h[p := x] ! parent i) \<le> key (h[p := x] ! i)"
      proof (cases "i = p")
        case True
        then have "s < p" using i parent_less [of p] by simp
        with False True i p show ?thesis using parent_less [of p] by (simp add: nth_list_update)
      next
        case ne: False
        show ?thesis using i ne p x [of i] hole by (cases "parent i = p") (auto simp: nth_list_update heap_hole_def)
      qed
    qed
    then show ?thesis by (subst sift_down.simps) (simp only: if_not_P [OF False])
  qed
qed

lemma sink_hole_length: "length (snd (sink_hole key p h)) = length h"
proof (induction key p h rule: sink_hole.induct)
  case (1 key p h)
  then show ?case by (subst sink_hole.simps) (auto simp: Let_def)
qed

lemma sink_hole_ok:
  assumes "heap_hole key s p h" "p < length h" "under_node s p" "sink_hole key p h = (q, h1)"
  shows "heap_hole key s q h1 \<and> q < length h1 \<and> under_node s q \<and> \<not> 2 * q + 1 < length h1"
  using assms
proof (induction key p h arbitrary: q h1 rule: sink_hole.induct)
  case (1 key p h)
  note hole = "1.prems"(1) and p = "1.prems"(2,3)
  show ?case
  proof (cases "2 * p + 1 < length h")
    case True
    define c where "c = (if 2 * p + 2 < length h \<and> \<not> key (h ! (2 * p + 1)) < key (h ! (2 * p + 2)) then 2 * p + 2 else 2 * p + 1)"
    let ?h = "h[p := h ! c]"
    have c: "c < length h" "parent c = p" "0 < c" "c \<noteq> p" "p < c" using True by (auto simp: c_def)
    have least: "key (h ! c) \<le> key (h ! i)" if "i < length h" "0 < i" "parent i = p" for i
      using child_cases [OF that(2,3)] that(1) by (auto simp: c_def)
    have pair: "key (h ! parent i) \<le> key (h ! i)" if "i < length h" "0 < i" "s \<le> parent i" "i \<noteq> p" "parent i \<noteq> p" for i
      using hole that by (simp add: heap_hole_def)
    have grand: "key (h ! parent p) \<le> key (h ! c)" if "s < p" using hole c that by (simp add: heap_hole_def)
    have "heap_hole key s c ?h"
      unfolding heap_hole_def
    proof (intro conjI allI impI)
      fix i assume i: "i < length ?h" "0 < i" "s \<le> parent i" "i \<noteq> c" "parent i \<noteq> c"
      show "key (?h ! parent i) \<le> key (?h ! i)"
      proof (cases "i = p")
        case True
        then have "s < p" "parent p \<noteq> p" using i parent_less [of p] by auto
        with grand True c p i show ?thesis using parent_less [of p] by (simp add: nth_list_update)
      next
        case False
        then show ?thesis using i p least [of i] pair [of i] by (cases "parent i = p") (auto simp: nth_list_update)
      qed
    next
      fix i assume i: "i < length ?h" "0 < i" "parent i = c" "s < c"
      have "i \<noteq> p" using i c parent_less [of i] by auto
      then show "key (?h ! parent c) \<le> key (?h ! i)"
        using pair [of i] i c p under_ge [OF p(2)] by (simp add: nth_list_update)
    qed
    moreover have "under_node s c" using under_child [OF p(2)] by (simp add: c_def)
    moreover have "sink_hole key c ?h = (q, h1)" using "1.prems"(4) True by (subst (asm) sink_hole.simps) (simp add: c_def Let_def)
    ultimately show ?thesis using "1.IH" [OF True c_def] c by simp
  next
    case False
    with "1.prems"(4) have "q = p" "h1 = h" by (subst (asm) sink_hole.simps; simp)+
    with False hole p show ?thesis by simp
  qed
qed

section \<open>The items are kept\<close>

lemma mset_move: "i < length h \<Longrightarrow> j < length h \<Longrightarrow> mset (h[i := h ! j, j := x]) = mset (h[i := x])"
proof (cases "i = j")
  case False
  assume ij: "i < length h" "j < length h"
  have "mset ((h[i := x])[i := h[i := x] ! j, j := h[i := x] ! i]) = mset (h[i := x])" using ij by (intro mset_swap) simp_all
  then show ?thesis using ij False by (simp add: nth_list_update)
qed simp

lemma sift_down_mset: "p < length h \<Longrightarrow> mset (sift_down key s p x h) = mset (h[p := x])"
proof (induction key s p x h rule: sift_down.induct)
  case (1 key s p x h)
  show ?case
  proof (cases "s < p \<and> key x < key (h ! parent p)")
    case True
    then have "parent p < length h" using "1.prems" parent_less [of p] by auto
    with "1.IH" [OF True] mset_move [OF "1.prems" this, of x] True show ?thesis by (subst sift_down.simps) simp
  next
    case False
    show ?thesis by (subst sift_down.simps) (simp only: if_not_P [OF False])
  qed
qed

lemma sift_down_length [simp]: "length (sift_down key s p x h) = length h"
proof (induction key s p x h rule: sift_down.induct)
  case (1 key s p x h)
  then show ?case by (subst sift_down.simps) simp
qed

lemma sink_hole_mset: "p < length h \<Longrightarrow> sink_hole key p h = (q, h1) \<Longrightarrow> mset (h1[q := x]) = mset (h[p := x])"
proof (induction key p h arbitrary: q h1 rule: sink_hole.induct)
  case (1 key p h)
  show ?case
  proof (cases "2 * p + 1 < length h")
    case True
    define c where "c = (if 2 * p + 2 < length h \<and> \<not> key (h ! (2 * p + 1)) < key (h ! (2 * p + 2)) then 2 * p + 2 else 2 * p + 1)"
    have c: "c < length h" using True by (simp add: c_def)
    have "sink_hole key c (h[p := h ! c]) = (q, h1)" using "1.prems"(2) True by (subst (asm) sink_hole.simps) (simp add: c_def Let_def)
    from "1.IH" [OF True c_def _ this] c mset_move [OF "1.prems"(1) c, of x] show ?thesis by simp
  next
    case False
    with "1.prems"(2) show ?thesis by (subst (asm) sink_hole.simps) simp
  qed
qed

lemma sift_up_mset: "s < length h \<Longrightarrow> mset (sift_up key s h) = mset h"
proof -
  assume s: "s < length h"
  obtain p h1 where h1: "sink_hole key s h = (p, h1)" by (rule prod.exhaust)
  have "p < length h1"
    using s h1
  proof (induction key s h arbitrary: p h1 rule: sink_hole.induct)
    case (1 key s h)
    show ?case
    proof (cases "2 * s + 1 < length h")
      case True
      define c where "c = (if 2 * s + 2 < length h \<and> \<not> key (h ! (2 * s + 1)) < key (h ! (2 * s + 2)) then 2 * s + 2 else 2 * s + 1)"
      have "sink_hole key c (h[s := h ! c]) = (p, h1)" using "1.prems"(2) True by (subst (asm) sink_hole.simps) (simp add: c_def Let_def)
      from "1.IH" [OF True c_def _ this] True show ?thesis by (simp add: c_def)
    next
      case False
      from "1.prems"(2) have "h1 = h" "p = s" using False by (simp_all add: sink_hole.simps [of key s h])
      with "1.prems"(1) show ?thesis by simp
    qed
  qed
  then show ?thesis using sift_down_mset [of p h1 key s "h ! s"] sink_hole_mset [OF s h1, of "h ! s"] h1 by (simp add: sift_up_def)
qed

lemma sift_up_length [simp]: "length (sift_up key s h) = length h"
  using sink_hole_length [of key s h] by (cases "sink_hole key s h") (simp add: sift_up_def)

lemma sift_up_heap: "s < length h \<Longrightarrow> heap_from key (Suc s) h \<Longrightarrow> heap_from key s (sift_up key s h)"
proof -
  assume s: "s < length h" and h: "heap_from key (Suc s) h"
  obtain p h1 where h1: "sink_hole key s h = (p, h1)" by (rule prod.exhaust)
  have "heap_hole key s s h" using h by (auto simp: heap_hole_def heap_from_def)
  from sink_hole_ok [OF this s under_self h1]
  have ok: "heap_hole key s p h1" "p < length h1" "under_node s p" "\<not> 2 * p + 1 < length h1" by simp_all
  have "heap_from key s (sift_down key s p (h ! s) h1)"
  proof (rule sift_down_heap [OF ok(1,2,3)])
    fix i assume "i < length h1" "0 < i" "parent i = p"
    with child_cases [of i p] ok(4) show "key (h ! s) \<le> key (h1 ! i)" by auto
  qed
  then show ?thesis using h1 by (simp add: sift_up_def)
qed

section \<open>The operations\<close>

abbreviation heap :: "('a \<Rightarrow> 'k::linorder) \<Rightarrow> 'a list \<Rightarrow> bool" where
  "heap key h \<equiv> heap_from key 0 h"

lemma heap_least: "heap key h \<Longrightarrow> i < length h \<Longrightarrow> key (h ! 0) \<le> key (h ! i)"
proof (induction i rule: less_induct)
  case (less i)
  show ?case
  proof (cases "i = 0")
    case False
    with less.prems have "key (h ! parent i) \<le> key (h ! i)" by (simp add: heap_from_def)
    moreover have "key (h ! 0) \<le> key (h ! parent i)" using less False parent_less [of i] by simp
    ultimately show ?thesis by (rule order_trans [rotated])
  qed simp
qed

lemma heap_front: "heap key h \<Longrightarrow> x \<in> set h \<Longrightarrow> key (h ! 0) \<le> key x"
  by (auto simp: in_set_conv_nth intro: heap_least)

lemma heappush_items: "mset (heappush key x h) = add_mset x (mset h)"
  by (simp add: heappush_def sift_down_mset list_update_append)

lemma under_root: "under_node 0 p"
proof (induction p rule: less_induct)
  case (less p)
  then show ?case using parent_less [of p] by (subst under_node.simps) auto
qed

lemma heappush_heap: "heap key h \<Longrightarrow> heap key (heappush key x h)"
  unfolding heappush_def
proof (rule sift_down_heap)
  assume h: "heap key h"
  show "heap_hole key 0 (length h) (h @ [x])"
    unfolding heap_hole_def
  proof (intro conjI allI impI)
    fix i assume i: "i < length (h @ [x])" "0 < i" "i \<noteq> length h"
    then have "i < length h" "parent i < length h" using parent_less [of i] by auto
    then show "key ((h @ [x]) ! parent i) \<le> key ((h @ [x]) ! i)" using h i(2) by (simp add: heap_from_def nth_append)
  next
    fix i assume "i < length (h @ [x])" "0 < i" "parent i = length h"
    then have False using parent_less [of i] by simp
    then show "key ((h @ [x]) ! parent (length h)) \<le> key ((h @ [x]) ! i)" ..
  qed
  show "under_node 0 (length h)" by (rule under_root)
  fix i assume "i < length (h @ [x])" "0 < i" "parent i = length h"
  then show "key x \<le> key ((h @ [x]) ! i)" using parent_less [of i] by simp
qed simp

lemma heappop_some: "heappop key h = Some (x, h') \<Longrightarrow> mset h = add_mset x (mset h') \<and> x = h ! 0"
proof -
  assume pop: "heappop key h = Some (x, h')"
  then have h: "h \<noteq> []" by (auto simp: heappop_def)
  then obtain h1 y where y: "h = h1 @ [y]" by (metis append_butlast_last_id)
  show ?thesis
  proof (cases h1)
    case Nil
    with pop y show ?thesis by (simp add: heappop_def)
  next
    case (Cons z zs)
    with pop y have "x = z" "h' = sift_up key 0 (y # zs)" by (simp_all add: heappop_def)
    then show ?thesis using y Cons sift_up_mset [of 0 "y # zs" key] by simp
  qed
qed

lemma heappop_heap: "heap key h \<Longrightarrow> heappop key h = Some (x, h') \<Longrightarrow> heap key h'"
proof -
  assume h: "heap key h" and pop: "heappop key h = Some (x, h')"
  then obtain h1 y where y: "h = h1 @ [y]" by (metis append_butlast_last_id heappop_def option.distinct(1))
  show ?thesis
  proof (cases h1)
    case Nil
    with pop y show ?thesis by (simp add: heappop_def heap_from_def)
  next
    case (Cons z zs)
    with pop y have h': "h' = sift_up key 0 (y # zs)" by (simp add: heappop_def)
    have "heap_from key (Suc 0) (y # zs)"
      unfolding heap_from_def
    proof (intro allI impI)
      fix i assume i: "i < length (y # zs)" "0 < i" "Suc 0 \<le> parent i"
      have "parent i < i" "i < length h1" using i parent_less Cons by simp_all
      moreover have "key (h ! parent i) \<le> key (h ! i)" using h i calculation y by (simp add: heap_from_def)
      ultimately have "key (h1 ! parent i) \<le> key (h1 ! i)" using y by (simp add: nth_append)
      then show "key ((y # zs) ! parent i) \<le> key ((y # zs) ! i)" using i Cons by (cases i; cases "parent i") simp_all
    qed
    then show ?thesis unfolding h' by (intro sift_up_heap) simp_all
  qed
qed

lemma heappop_none: "heappop key h = None \<longleftrightarrow> h = []"
  by (simp add: heappop_def Let_def)

lemma heapify_steps:
  assumes "n \<le> length h" "heap_from key n h"
  shows "heap key (fold (sift_up key) (rev [0..<n]) h) \<and> mset (fold (sift_up key) (rev [0..<n]) h) = mset h"
  using assms
proof (induction n arbitrary: h)
  case (Suc n)
  have "heap_from key n (sift_up key n h)" using Suc.prems by (intro sift_up_heap) simp_all
  from Suc.IH [OF _ this] Suc.prems sift_up_mset [of n h key] show ?case by simp
qed simp

lemma heapify_ok: "heap key (heapify key h)" "mset (heapify key h) = mset h"
proof -
  have "heap_from key (length h div 2) h"
    unfolding heap_from_def
  proof (intro allI impI)
    fix i assume "i < length h" "0 < i" "length h div 2 \<le> parent i"
    then show "key (h ! parent i) \<le> key (h ! i)" by (auto simp: parent_def)
  qed
  from heapify_steps [OF _ this] show "heap key (heapify key h)" "mset (heapify key h) = mset h" by (simp_all add: heapify_def)
qed

section \<open>The interface\<close>

locale heap_queue =
  fixes valid :: "'q \<Rightarrow> bool" and items :: "'q \<Rightarrow> 'a multiset" and push :: "'a \<Rightarrow> 'q \<Rightarrow> 'q" and pop :: "'q \<Rightarrow> ('a \<times> 'q) option"
    and rank :: "'a \<Rightarrow> 'k::linorder"
  assumes push_valid: "valid q \<Longrightarrow> valid (push x q)" and push_items: "items (push x q) = add_mset x (items q)"
    and pop_valid: "valid q \<Longrightarrow> pop q = Some (x, q') \<Longrightarrow> valid q'" and pop_items: "pop q = Some (x, q') \<Longrightarrow> items q = add_mset x (items q')"
    and pop_least: "valid q \<Longrightarrow> pop q = Some (x, q') \<Longrightarrow> y \<in># items q \<Longrightarrow> rank x \<le> rank y"
begin

text \<open>What is pushed back after a pop is there again.\<close>

lemma push_back: "pop q = Some (x, q') \<Longrightarrow> items (push x q') = items q"
  by (simp add: push_items pop_items)

lemma popped_member: "pop q = Some (x, q') \<Longrightarrow> x \<in># items q"
  by (simp add: pop_items)

end

interpretation py_heap: heap_queue "heap key" mset "heappush key" "heappop key" key for key
proof
  fix q x q' y assume "heap key q" "heappop key q = Some (x, q')" "y \<in># mset q"
  then have "x = q ! 0" and y: "y \<in> set q" using heappop_some [of key q x q'] by (blast, metis set_mset_mset)
  moreover have "key (q ! 0) \<le> key y" using \<open>heap key q\<close> y by (rule heap_front)
  ultimately show "key x \<le> key y" by simp
next
  fix q x q' assume "heappop key q = Some (x, q')"
  then show "mset q = add_mset x (mset q')" by (rule heappop_some [THEN conjunct1])
next
  fix q x q' assume "heap key q" "heappop key q = Some (x, q')"
  then show "heap key q'" by (rule heappop_heap)
qed (simp_all add: heappush_heap heappush_items)

end
