(* ===== verification/ToolQueue.thy ===== *)
theory ToolQueue
  imports Complex_Main PyDict PyHeap "HOL-Library.Product_Lexorder"
begin

text \<open>
  The queue of tool calls of the FastMCP server, \<open>fastmcp_server/tools/tool_queue.py\<close>: a heap of items by
  priority and time, a semaphore per priority, expiry after five minutes.  asyncio switches between tasks
  only at an \<open>await\<close>, and the code under the lock has none: each such section is one step here, and the
  sections of different callers interleave freely.  Messages for the feedback callback are returned.
\<close>

section \<open>Priorities\<close>

datatype tool_priority = CRITICAL | HIGH | NORMAL | LOW | BACKGROUND

fun priority_value :: "tool_priority \<Rightarrow> int" where
  "priority_value CRITICAL = 1"
| "priority_value HIGH = 2"
| "priority_value NORMAL = 3"
| "priority_value LOW = 4"
| "priority_value BACKGROUND = 5"

definition MAX_QUEUE_WAIT_SECONDS :: rat where
  "MAX_QUEUE_WAIT_SECONDS = 300"

definition TOOL_PRIORITY_MAP :: "(string \<times> tool_priority) list" where
  "TOOL_PRIORITY_MAP =
  [(''process_monitor'', CRITICAL), (''process_cleanup'', CRITICAL), (''process_watchdog_status'', CRITICAL),
   (''god_watcher_admin'', CRITICAL), (''cpu_guard'', CRITICAL), (''backup_undo'', CRITICAL),
   (''sequentialthinking'', HIGH), (''thinking'', HIGH), (''read_files'', HIGH),
   (''read_big_file'', HIGH), (''write_file'', HIGH), (''write_files'', HIGH),
   (''write_big_file'', HIGH), (''edit_text'', HIGH), (''text_replace'', HIGH),
   (''execute_command'', HIGH), (''execute_commands'', HIGH), (''execute_python'', HIGH),
   (''execute_protected'', HIGH), (''find_for_me'', NORMAL), (''grep_search'', NORMAL),
   (''file_search'', NORMAL), (''search_files'', NORMAL), (''search_conversations'', NORMAL),
   (''search_messages'', NORMAL), (''fetch'', NORMAL), (''get_web_info'', NORMAL),
   (''documentation_search'', NORMAL), (''query_docs'', NORMAL), (''query_db'', NORMAL),
   (''exec_on_db'', NORMAL), (''database_query'', NORMAL), (''database_execute'', NORMAL),
   (''database_list_tables'', NORMAL), (''database_table_schema'', NORMAL), (''database_create'', NORMAL),
   (''create_work_order'', NORMAL), (''work_order_runner'', NORMAL), (''github_upload'', LOW),
   (''gpu_bridge'', LOW), (''veracrypt_admin'', LOW), (''sync_tool_registry'', LOW),
   (''reload_tool_definitions'', LOW)]"

definition get_tool_priority :: "string \<Rightarrow> tool_priority" where
  "get_tool_priority tool = (case map_of TOOL_PRIORITY_MAP tool of Some p \<Rightarrow> p | None \<Rightarrow> NORMAL)"

fun priority_capacity :: "tool_priority \<Rightarrow> nat" where
  "priority_capacity CRITICAL = 4"
| "priority_capacity HIGH = 3"
| "priority_capacity NORMAL = 2"
| "priority_capacity LOW = 1"
| "priority_capacity BACKGROUND = 1"

section \<open>Items and the manager\<close>

record 'a queue_item =
  qi_priority :: int
  qi_time :: rat
  qi_tool :: string
  qi_args :: 'a
  qi_job :: string
  qi_sequence :: nat

definition item_less :: "'a queue_item \<Rightarrow> 'a queue_item \<Rightarrow> bool" where
  "item_less x y = (if qi_priority x \<noteq> qi_priority y then qi_priority x < qi_priority y else qi_time x < qi_time y)"

text \<open>The heap compares by the key that gives the same order.\<close>

definition item_key :: "'a queue_item \<Rightarrow> int \<times> rat" where
  "item_key x = (qi_priority x, qi_time x)"

lemma item_less_key: "item_less x y \<longleftrightarrow> item_key x < item_key y"
  by (auto simp: item_less_def item_key_def)

record 'a tool_queue =
  tq_queue :: "'a queue_item list"
  tq_sequence :: nat
  tq_running :: "(string, nat) table"
  tq_total :: nat
  tq_runtimes :: "(string, rat list) table"
  tq_permits :: "tool_priority \<Rightarrow> nat option"

definition new_tool_queue :: "'a tool_queue" where
  "new_tool_queue = \<lparr>tq_queue = [], tq_sequence = 0, tq_running = [], tq_total = 0, tq_runtimes = [], tq_permits = (\<lambda>p. None)\<rparr>"

datatype queue_feedback =
    Enqueued string nat tool_priority rat
  | ExpiredItem string string rat
  | ExpiredItems nat nat
  | SlotTimeout string
  | Started string nat
  | WaitingAt string nat rat

section \<open>Operations\<close>

definition record_runtime :: "string \<Rightarrow> rat \<Rightarrow> 'a tool_queue \<Rightarrow> 'a tool_queue" where
  "record_runtime tool d s =
     (let old = (case row_at tool (tq_runtimes s) of None \<Rightarrow> [] | Some r \<Rightarrow> r); r = old @ [d]
      in s\<lparr>tq_runtimes := dict_set tool (if length r > 10 then tl r else r) (tq_runtimes s)\<rparr>)"

definition estimate_wait_time :: "string \<Rightarrow> 'a tool_queue \<Rightarrow> rat" where
  "estimate_wait_time tool s =
     (case row_at tool (tq_runtimes s) of
        None \<Rightarrow> 10 * (1 / 2)
      | Some r \<Rightarrow> (if r = [] then 10 else sum_list r / of_nat (length r)) * (1 / 2))"

definition is_stale :: "rat \<Rightarrow> 'a queue_item \<Rightarrow> bool" where
  "is_stale now i = (now - qi_time i > MAX_QUEUE_WAIT_SECONDS)"

definition expire_stale_items :: "rat \<Rightarrow> 'a tool_queue \<Rightarrow> nat \<times> queue_feedback list \<times> 'a tool_queue" where
  "expire_stale_items now s =
     (let old = filter (is_stale now) (tq_queue s)
      in (length old, map (\<lambda>i. ExpiredItem (qi_tool i) (qi_job i) (now - qi_time i)) old,
          s\<lparr>tq_queue := heapify item_key (filter (\<lambda>i. \<not> is_stale now i) (tq_queue s))\<rparr>))"

definition enqueue :: "string \<Rightarrow> 'a \<Rightarrow> string \<Rightarrow> rat \<Rightarrow> rat \<Rightarrow> 'a tool_queue \<Rightarrow> (nat \<times> rat) \<times> queue_feedback list \<times> 'a tool_queue" where
  "enqueue tool args job t0 now s =
     (let (n, fb, s1) = expire_stale_items t0 s;
          p = get_tool_priority tool;
          k = tq_sequence s1 + 1;
          item = \<lparr>qi_priority = priority_value p, qi_time = now, qi_tool = tool, qi_args = args, qi_job = job, qi_sequence = k\<rparr>;
          q = heappush item_key item (tq_queue s1);
          s2 = s1\<lparr>tq_sequence := k, tq_queue := q\<rparr>;
          w = estimate_wait_time tool s2
      in ((length q, w), fb @ [Enqueued tool (length q) p w], s2))"

text \<open>\<open>acquire_slot\<close>, section by section: expiry, a look at the front, the position of the caller's item.\<close>

definition expiry_section :: "rat \<Rightarrow> 'a tool_queue \<Rightarrow> queue_feedback list \<times> 'a tool_queue" where
  "expiry_section now s =
     (let (n, fb, s1) = expire_stale_items now s in (if n > 0 then fb @ [ExpiredItems n (length (tq_queue s1))] else fb, s1))"

datatype 'a front_answer = LetThrough | Turn "'a queue_item" | NotYet

definition front_section :: "string \<Rightarrow> string \<Rightarrow> 'a tool_queue \<Rightarrow> 'a front_answer \<times> 'a tool_queue" where
  "front_section tool job s =
     (case tq_queue s of
        [] \<Rightarrow> (LetThrough, s)
      | f # fs \<Rightarrow>
          if qi_tool f = tool \<and> qi_job f = job then
            (case heappop item_key (tq_queue s) of Some (x, q) \<Rightarrow> (Turn x, s\<lparr>tq_queue := q\<rparr>) | None \<Rightarrow> (NotYet, s))
          else (NotYet, s))"

fun position_of :: "string \<Rightarrow> string \<Rightarrow> 'a queue_item list \<Rightarrow> nat option" where
  "position_of tool job [] = None"
| "position_of tool job (i # is) =
     (if qi_tool i = tool \<and> qi_job i = job then Some 0 else map_option Suc (position_of tool job is))"

definition waiting_section :: "string \<Rightarrow> string \<Rightarrow> 'a tool_queue \<Rightarrow> queue_feedback list" where
  "waiting_section tool job s =
     (case position_of tool job (tq_queue s) of None \<Rightarrow> [] | Some i \<Rightarrow> [WaitingAt tool (i + 1) (estimate_wait_time tool s)])"

definition get_priority_semaphore :: "tool_priority \<Rightarrow> 'a tool_queue \<Rightarrow> 'a tool_queue" where
  "get_priority_semaphore p s =
     (if tq_permits s p = None then s\<lparr>tq_permits := (tq_permits s)(p := Some (priority_capacity p))\<rparr> else s)"

text \<open>Taking a permit is possible when there is one; who waits longer than 120 s is put back.\<close>

definition take_permit :: "tool_priority \<Rightarrow> 'a tool_queue \<Rightarrow> 'a tool_queue option" where
  "take_permit p s =
     (let s1 = get_priority_semaphore p s
      in case tq_permits s1 p of
           Some (Suc n) \<Rightarrow> Some (s1\<lparr>tq_permits := (tq_permits s1)(p := Some n)\<rparr>)
         | _ \<Rightarrow> None)"

definition running_of :: "string \<Rightarrow> 'a tool_queue \<Rightarrow> nat" where
  "running_of tool s = (case row_at tool (tq_running s) of None \<Rightarrow> 0 | Some n \<Rightarrow> n)"

definition start_running :: "string \<Rightarrow> 'a tool_queue \<Rightarrow> queue_feedback list \<times> 'a tool_queue" where
  "start_running tool s =
     ([Started tool (tq_total s + 1)],
      s\<lparr>tq_running := dict_set tool (running_of tool s + 1) (tq_running s), tq_total := tq_total s + 1\<rparr>)"

definition put_back :: "'a queue_item \<Rightarrow> 'a tool_queue \<Rightarrow> queue_feedback list \<times> 'a tool_queue" where
  "put_back x s =
     (let s1 = get_priority_semaphore (get_tool_priority (qi_tool x)) s
      in ([SlotTimeout (qi_tool x)], s1\<lparr>tq_queue := heappush item_key x (tq_queue s1)\<rparr>))"

definition release_slot :: "string \<Rightarrow> 'a tool_queue \<Rightarrow> 'a tool_queue" where
  "release_slot tool s =
     (let p = get_tool_priority tool
      in case tq_permits s p of None \<Rightarrow> s | Some n \<Rightarrow> s\<lparr>tq_permits := (tq_permits s)(p := Some (n + 1))\<rparr>)"

definition decrement_running :: "string \<Rightarrow> 'a tool_queue \<Rightarrow> 'a tool_queue" where
  "decrement_running tool s =
     s\<lparr>tq_running := dict_set tool (running_of tool s - 1) (tq_running s), tq_total := tq_total s - 1\<rparr>"

definition get_queue_status :: "'a tool_queue \<Rightarrow> nat \<times> nat \<times> (string, nat) table" where
  "get_queue_status s = (length (tq_queue s), tq_total s, tq_running s)"

section \<open>Callers\<close>

text \<open>
  The callers between the sections: those with a popped item that wait for a permit, those that hold one,
  those that were let through an empty queue, the decrements still to run, and the permits the latter
  group has returned without having taken them.
\<close>

record 'a queue_world =
  qw_queue :: "'a tool_queue"
  qw_popped :: "'a queue_item list"
  qw_holders :: "string list"
  qw_through :: "string list"
  qw_decrements :: "string list"
  qw_surplus :: "tool_priority \<Rightarrow> nat"

definition new_world :: "'a queue_world" where
  "new_world = \<lparr>qw_queue = new_tool_queue, qw_popped = [], qw_holders = [], qw_through = [], qw_decrements = [], qw_surplus = (\<lambda>p. 0)\<rparr>"

datatype 'a queue_event =
    Enqueue string 'a string rat rat
  | Expire rat
  | TakeTurn "'a queue_item"
  | PassThrough string
  | Permit "'a queue_item"
  | TimeOut "'a queue_item"
  | Release string
  | Decrement string
  | Runtime string rat

inductive queue_step :: "'a queue_world \<Rightarrow> 'a queue_event \<Rightarrow> 'a queue_world \<Rightarrow> bool" where
  enqueue_step: "queue_step w (Enqueue tool args job t0 now) (w\<lparr>qw_queue := snd (snd (enqueue tool args job t0 now (qw_queue w)))\<rparr>)"
| expire_step: "queue_step w (Expire now) (w\<lparr>qw_queue := snd (expiry_section now (qw_queue w))\<rparr>)"
| turn_step: "front_section tool job (qw_queue w) = (Turn x, q) \<Longrightarrow>
    queue_step w (TakeTurn x) (w\<lparr>qw_queue := q, qw_popped := x # qw_popped w\<rparr>)"
| through_step: "front_section tool job (qw_queue w) = (LetThrough, q) \<Longrightarrow>
    queue_step w (PassThrough tool) (w\<lparr>qw_queue := q, qw_through := tool # qw_through w\<rparr>)"
| permit_step: "x \<in> set (qw_popped w) \<Longrightarrow> take_permit (get_tool_priority (qi_tool x)) (qw_queue w) = Some q \<Longrightarrow>
    queue_step w (Permit x) (w\<lparr>qw_queue := snd (start_running (qi_tool x) q), qw_popped := remove1 x (qw_popped w), qw_holders := qi_tool x # qw_holders w\<rparr>)"
| timeout_step: "x \<in> set (qw_popped w) \<Longrightarrow>
    queue_step w (TimeOut x) (w\<lparr>qw_queue := snd (put_back x (qw_queue w)), qw_popped := remove1 x (qw_popped w)\<rparr>)"
| release_step: "tool \<in> set (qw_holders w) \<Longrightarrow>
    queue_step w (Release tool) (w\<lparr>qw_queue := release_slot tool (qw_queue w), qw_holders := remove1 tool (qw_holders w), qw_decrements := tool # qw_decrements w\<rparr>)"
| free_release_step: "tool \<in> set (qw_through w) \<Longrightarrow>
    queue_step w (Release tool) (w\<lparr>qw_queue := release_slot tool (qw_queue w), qw_through := remove1 tool (qw_through w), qw_decrements := tool # qw_decrements w,
      qw_surplus := (qw_surplus w)(get_tool_priority tool := qw_surplus w (get_tool_priority tool) + (if tq_permits (qw_queue w) (get_tool_priority tool) = None then 0 else 1))\<rparr>)"
| decrement_step: "tool \<in> set (qw_decrements w) \<Longrightarrow>
    queue_step w (Decrement tool) (w\<lparr>qw_queue := decrement_running tool (qw_queue w), qw_decrements := remove1 tool (qw_decrements w)\<rparr>)"
| runtime_step: "queue_step w (Runtime tool d) (w\<lparr>qw_queue := record_runtime tool d (qw_queue w)\<rparr>)"

inductive queue_run :: "'a queue_world \<Rightarrow> 'a queue_event list \<Rightarrow> 'a queue_world \<Rightarrow> bool" where
  run_nil: "queue_run w [] w"
| run_cons: "queue_step w e w1 \<Longrightarrow> queue_run w1 es w2 \<Longrightarrow> queue_run w (e # es) w2"

inductive_cases queue_run_nilE: "queue_run w [] w'"
inductive_cases queue_run_consE: "queue_run w (e # es) w'"


section \<open>The queue is a heap\<close>

abbreviation queue_of :: "'a queue_world \<Rightarrow> 'a queue_item list" where
  "queue_of w \<equiv> tq_queue (qw_queue w)"

lemma expire_queue:
  "heap item_key (tq_queue (snd (snd (expire_stale_items now s))))"
  "mset (tq_queue (snd (snd (expire_stale_items now s)))) = mset (filter (\<lambda>i. \<not> is_stale now i) (tq_queue s))"
  by (simp_all add: expire_stale_items_def heapify_ok)

lemma expiry_queue: "tq_queue (snd (expiry_section now s)) = tq_queue (snd (snd (expire_stale_items now s)))"
  by (simp add: expiry_section_def split: prod.split)

lemma semaphore_queue [simp]: "tq_queue (get_priority_semaphore p s) = tq_queue s"
  by (simp add: get_priority_semaphore_def)

lemma take_permit_queue: "take_permit p s = Some q \<Longrightarrow> tq_queue q = tq_queue s"
  by (auto simp: take_permit_def split: option.splits nat.splits)

lemma small_queues [simp]:
  "tq_queue (snd (start_running tool s)) = tq_queue s" "tq_queue (release_slot tool s) = tq_queue s"
  "tq_queue (decrement_running tool s) = tq_queue s" "tq_queue (record_runtime tool d s) = tq_queue s"
  "tq_queue (snd (put_back x s)) = heappush item_key x (tq_queue s)"
  by (simp_all add: start_running_def release_slot_def decrement_running_def record_runtime_def put_back_def split: option.split)

lemma enqueue_queue:
  "\<exists>i. qi_tool i = tool \<and> qi_job i = job \<and> qi_time i = now \<and> qi_priority i = priority_value (get_tool_priority tool) \<and>
     tq_queue (snd (snd (enqueue tool args job t0 now s))) = heappush item_key i (tq_queue (snd (snd (expire_stale_items t0 s))))"
  by (simp add: enqueue_def split: prod.split) (metis queue_item.select_convs(1-5))

lemma front_turn:
  assumes "front_section tool job s = (Turn x, q)"
  shows "heappop item_key (tq_queue s) = Some (x, tq_queue q)" "qi_tool x = tool" "qi_job x = job" "q = s\<lparr>tq_queue := tq_queue q\<rparr>"
proof -
  obtain f fs where f: "tq_queue s = f # fs" "qi_tool f = tool" "qi_job f = job"
    using assms by (auto simp: front_section_def split: list.splits if_splits)
  with assms show pop: "heappop item_key (tq_queue s) = Some (x, tq_queue q)" "q = s\<lparr>tq_queue := tq_queue q\<rparr>"
    by (auto simp: front_section_def split: option.splits)
  from heappop_some [OF pop(1)] f show "qi_tool x = tool" "qi_job x = job" by simp_all
qed

lemma front_through: "front_section tool job s = (LetThrough, q) \<Longrightarrow> q = s \<and> tq_queue s = []"
  by (auto simp: front_section_def split: list.splits if_splits option.splits)

lemma queue_step_heap: "queue_step w e w' \<Longrightarrow> heap item_key (queue_of w) \<Longrightarrow> heap item_key (queue_of w')"
proof (induction rule: queue_step.induct)
  case (enqueue_step w tool args job t0 now)
  obtain i where "tq_queue (snd (snd (enqueue tool args job t0 now (qw_queue w)))) =
      heappush item_key i (tq_queue (snd (snd (expire_stale_items t0 (qw_queue w)))))"
    using enqueue_queue [of tool job now args t0 "qw_queue w"] by blast
  then show ?case by (simp add: heappush_heap expire_queue)
next
  case (turn_step tool job w x q)
  then show ?case using heappop_heap [OF turn_step.prems front_turn(1) [OF turn_step.hyps]] by simp
next
  case (through_step tool job w q)
  then show ?case using front_through [of tool job "qw_queue w" q] by auto
qed (simp_all add: expiry_queue expire_queue take_permit_queue heappush_heap)

lemma queue_run_heap: "queue_run w es w' \<Longrightarrow> heap item_key (queue_of w) \<Longrightarrow> heap item_key (queue_of w')"
  by (induction rule: queue_run.induct) (simp_all add: queue_step_heap)

lemma new_world_heap: "heap item_key (queue_of new_world)"
  by (simp add: new_world_def new_tool_queue_def heap_from_def)

text \<open>C23: Turns go by urgency.  After any interleaving of the callers' sections, an item popped for a caller
  is the caller's, leaves the other items in the queue, and none of them is before it in priority and time.\<close>

theorem turns_are_most_urgent:
  assumes "queue_run new_world es w" "front_section tool job (qw_queue w) = (Turn x, q)"
  shows "qi_tool x = tool \<and> qi_job x = job \<and> mset (queue_of w) = add_mset x (mset (tq_queue q)) \<and> (\<forall>y\<in>set (tq_queue q). \<not> item_less y x)"
proof -
  have h: "heap item_key (queue_of w)" by (rule queue_run_heap [OF assms(1) new_world_heap])
  note pop = front_turn [OF assms(2)]
  have "item_key x \<le> item_key y" if "y \<in> set (tq_queue q)" for y
    by (rule py_heap.pop_least [OF h pop(1)]) (use that py_heap.pop_items [OF pop(1)] in simp)
  then show ?thesis using pop(2,3) py_heap.pop_items [OF pop(1)] by (simp add: item_less_key not_less)
qed


section \<open>Permits\<close>

definition holders_of :: "tool_priority \<Rightarrow> 'a queue_world \<Rightarrow> nat" where
  "holders_of p w = length (filter (\<lambda>t. get_tool_priority t = p) (qw_holders w))"

text \<open>Free and held permits add up to the capacity and what was returned without being taken.\<close>

fun balanced :: "nat option \<Rightarrow> nat \<Rightarrow> nat \<Rightarrow> nat \<Rightarrow> bool" where
  "balanced None held capacity surplus = (held = 0 \<and> surplus = 0)"
| "balanced (Some n) held capacity surplus = (n + held = capacity + surplus)"

definition permits_balanced :: "'a queue_world \<Rightarrow> bool" where
  "permits_balanced w = (\<forall>p. balanced (tq_permits (qw_queue w) p) (holders_of p w) (priority_capacity p) (qw_surplus w p))"

lemma semaphore_permits:
  "tq_permits (get_priority_semaphore p s) p' =
     (if p' = p then Some (case tq_permits s p of None \<Rightarrow> priority_capacity p | Some n \<Rightarrow> n) else tq_permits s p')"
  by (auto simp: get_priority_semaphore_def split: option.split)

lemma take_permit_some:
  "take_permit p s = Some q \<Longrightarrow>
   \<exists>n. (case tq_permits s p of None \<Rightarrow> priority_capacity p | Some m \<Rightarrow> m) = Suc n \<and> tq_permits q = (tq_permits (get_priority_semaphore p s))(p := Some n)"
  by (auto simp: take_permit_def semaphore_permits split: option.splits nat.splits)

lemma small_permits [simp]:
  "tq_permits (snd (start_running tool s)) = tq_permits s" "tq_permits (decrement_running tool s) = tq_permits s"
  "tq_permits (record_runtime tool d s) = tq_permits s"
  "tq_permits (snd (put_back x s)) = tq_permits (get_priority_semaphore (get_tool_priority (qi_tool x)) s)"
  "tq_permits (snd (snd (expire_stale_items now s))) = tq_permits s"
  by (simp_all add: start_running_def decrement_running_def record_runtime_def put_back_def expire_stale_items_def)

lemma enqueue_permits [simp]: "tq_permits (snd (snd (enqueue tool args job t0 now s))) = tq_permits s"
  using small_permits(5) [of t0 s] by (cases "expire_stale_items t0 s") (simp add: enqueue_def)

lemma expiry_permits [simp]: "tq_permits (snd (expiry_section now s)) = tq_permits s"
  using small_permits(5) [of now s] by (cases "expire_stale_items now s") (simp add: expiry_section_def)

lemma front_permits: "front_section tool job s = (a, q) \<Longrightarrow> tq_permits q = tq_permits s"
  by (auto simp: front_section_def split: list.splits if_splits option.splits)

lemma release_permits:
  "tq_permits (release_slot tool s) p =
     (if p = get_tool_priority tool then map_option Suc (tq_permits s p) else tq_permits s p)"
  by (auto simp: release_slot_def split: option.split)

lemma filter_remove1: "x \<in> set xs \<Longrightarrow> length (filter P xs) = length (filter P (remove1 x xs)) + (if P x then 1 else 0)"
  by (induction xs) auto

lemma permits_step: "queue_step w e w' \<Longrightarrow> permits_balanced w \<Longrightarrow> permits_balanced w'"
proof (induction rule: queue_step.induct)
  case (permit_step x w q)
  let ?p = "get_tool_priority (qi_tool x)"
  from take_permit_some [OF permit_step.hyps(2)] obtain n where
    n: "(case tq_permits (qw_queue w) ?p of None \<Rightarrow> priority_capacity ?p | Some m \<Rightarrow> m) = Suc n"
    and q: "tq_permits q = (tq_permits (get_priority_semaphore ?p (qw_queue w)))(?p := Some n)" by blast
  let ?w = "w\<lparr>qw_queue := snd (start_running (qi_tool x) q), qw_popped := remove1 x (qw_popped w), qw_holders := qi_tool x # qw_holders w\<rparr>"
  have "balanced (tq_permits (qw_queue ?w) p) (holders_of p ?w) (priority_capacity p) (qw_surplus ?w p)" for p
    using permit_step.prems [unfolded permits_balanced_def, THEN spec, of p] n q
    by (cases "p = ?p"; cases "tq_permits (qw_queue w) p") (simp_all add: holders_of_def semaphore_permits)
  then show ?case by (simp add: permits_balanced_def)
next
  case (turn_step tool job w x q)
  then show ?case using front_permits [OF turn_step.hyps] by (simp add: permits_balanced_def holders_of_def)
next
  case (through_step tool job w q)
  then show ?case using front_permits [OF through_step.hyps] by (simp add: permits_balanced_def holders_of_def)
next
  case (timeout_step x w)
  have "balanced (tq_permits (snd (put_back x (qw_queue w))) p) (holders_of p w) (priority_capacity p) (qw_surplus w p)" for p
    using timeout_step.prems [unfolded permits_balanced_def, THEN spec, of p]
    by (cases "p = get_tool_priority (qi_tool x)"; cases "tq_permits (qw_queue w) p") (simp_all add: semaphore_permits)
  then show ?case by (simp add: permits_balanced_def holders_of_def)
next
  case (release_step tool w)
  have "balanced (tq_permits (release_slot tool (qw_queue w)) p) (length (filter (\<lambda>t. get_tool_priority t = p) (remove1 tool (qw_holders w)))) (priority_capacity p) (qw_surplus w p)" for p
    using release_step.prems [unfolded permits_balanced_def, THEN spec, of p] filter_remove1 [OF release_step.hyps, of "\<lambda>t. get_tool_priority t = p"]
    by (cases "p = get_tool_priority tool"; cases "tq_permits (qw_queue w) p") (simp_all add: holders_of_def release_permits)
  then show ?case by (simp add: permits_balanced_def holders_of_def)
next
  case (free_release_step tool w)
  let ?p = "get_tool_priority tool"
  have "balanced (tq_permits (release_slot tool (qw_queue w)) p) (holders_of p w) (priority_capacity p)
      (((qw_surplus w)(?p := qw_surplus w ?p + (if tq_permits (qw_queue w) ?p = None then 0 else 1))) p)" for p
    using free_release_step.prems [unfolded permits_balanced_def, THEN spec, of p]
    by (cases "p = ?p"; cases "tq_permits (qw_queue w) p") (simp_all add: release_permits)
  then show ?case by (simp add: permits_balanced_def holders_of_def)
qed (simp_all add: permits_balanced_def holders_of_def)



lemma permits_run: "queue_run w es w' \<Longrightarrow> permits_balanced w \<Longrightarrow> permits_balanced w'"
  by (induction rule: queue_run.induct) (simp_all add: permits_step)

lemma new_world_balanced: "permits_balanced new_world"
  by (simp add: permits_balanced_def new_world_def new_tool_queue_def holders_of_def)

text \<open>Concurrency is capped per priority.  After any interleaving, the callers that hold a permit of a
  priority are at most its capacity, and one more for each permit returned by a caller that never took it.\<close>

theorem holders_within_capacity:
  "queue_run new_world es w \<Longrightarrow> holders_of p w \<le> priority_capacity p + qw_surplus w p"
proof -
  assume "queue_run new_world es w"
  from permits_run [OF this new_world_balanced]
  have "balanced (tq_permits (qw_queue w) p) (holders_of p w) (priority_capacity p) (qw_surplus w p)"
    by (simp add: permits_balanced_def)
  then show ?thesis by (cases "tq_permits (qw_queue w) p") simp_all
qed

text \<open>Such returns happen: who finds the queue empty goes through without a permit and releases one.\<close>

lemma only_through_gives_surplus: "queue_step w e w' \<Longrightarrow> \<forall>tool. e \<noteq> PassThrough tool \<Longrightarrow> qw_through w = [] \<Longrightarrow> qw_through w' = [] \<and> qw_surplus w' = qw_surplus w"
  by (induction rule: queue_step.induct) simp_all

lemma no_through_no_surplus:
  "queue_run w es w' \<Longrightarrow> \<forall>tool. PassThrough tool \<notin> set es \<Longrightarrow> qw_through w = [] \<Longrightarrow> qw_surplus w' = qw_surplus w"
proof (induction rule: queue_run.induct)
  case (run_cons w e w1 es w2)
  then show ?case using only_through_gives_surplus [OF run_cons.hyps(1)] by fastforce
qed simp

abbreviation github_call :: "nat \<Rightarrow> unit queue_item" where
  "github_call n \<equiv> \<lparr>qi_priority = 4, qi_time = 0, qi_tool = ''github_upload'', qi_args = (), qi_job = ''j'', qi_sequence = n\<rparr>"

lemma github_low [simp]: "get_tool_priority ''github_upload'' = LOW"
  by code_simp

definition two_uploads :: "unit queue_event list" where
  "two_uploads =
     [Enqueue ''github_upload'' () ''j'' 0 0, TakeTurn (github_call 1), Permit (github_call 1), PassThrough ''github_upload'',
      Release ''github_upload'', Enqueue ''github_upload'' () ''j'' 0 0, TakeTurn (github_call 2), Permit (github_call 2)]"

abbreviation low_permits :: "nat \<Rightarrow> tool_priority \<Rightarrow> nat option" where
  "low_permits n \<equiv> (\<lambda>p. None)(LOW := Some n)"

definition low_world :: "unit queue_item list \<Rightarrow> nat \<Rightarrow> nat \<Rightarrow> (tool_priority \<Rightarrow> nat option) \<Rightarrow> unit queue_item list \<Rightarrow> string list \<Rightarrow> string list \<Rightarrow> nat \<Rightarrow> unit queue_world" where
  "low_world q k n permits popped through pending sp =
     \<lparr>qw_queue = \<lparr>tq_queue = q, tq_sequence = k, tq_running = (if n = 0 then [] else [(''github_upload'', n)]), tq_total = n, tq_runtimes = [], tq_permits = permits\<rparr>,
      qw_popped = popped, qw_holders = replicate n ''github_upload'', qw_through = through, qw_decrements = pending, qw_surplus = (\<lambda>p. if p = LOW then sp else 0)\<rparr>"

lemma low_enqueue: "queue_step (low_world [] k n m [] [] d sp) (Enqueue ''github_upload'' () ''j'' 0 0) (low_world [github_call (Suc k)] (Suc k) n m [] [] d sp)"
  using enqueue_step [of "low_world [] k n m [] [] d sp" "''github_upload''" "()" "''j''" 0 0]
  by (simp add: enqueue_def expire_stale_items_def heapify_def heappush_def sift_down.simps [of item_key 0 0] low_world_def)

lemma low_turn: "queue_step (low_world [github_call k] k n m [] [] d sp) (TakeTurn (github_call k)) (low_world [] k n m [github_call k] [] d sp)"
  using turn_step [of "''github_upload''" "''j''" "low_world [github_call k] k n m [] [] d sp" "github_call k" "\<lparr>tq_queue = [], tq_sequence = k,
    tq_running = (if n = 0 then [] else [(''github_upload'', n)]), tq_total = n, tq_runtimes = [], tq_permits = m\<rparr>"]
  by (simp add: front_section_def heappop_def low_world_def)

lemma low_permit:
  "m = (\<lambda>p. None) \<or> m = low_permits 1 \<Longrightarrow>
   queue_step (low_world [] k n m [github_call k] [] d sp) (Permit (github_call k)) (low_world [] k (Suc n) (low_permits 0) [] [] d sp)"
  using permit_step [of "github_call k" "low_world [] k n m [github_call k] [] d sp" "\<lparr>tq_queue = [], tq_sequence = k,
    tq_running = (if n = 0 then [] else [(''github_upload'', n)]), tq_total = n, tq_runtimes = [], tq_permits = low_permits 0\<rparr>"]
  by (auto simp: take_permit_def get_priority_semaphore_def start_running_def running_of_def row_at_def dict_set_def update_row_def low_world_def)

lemma low_through: "queue_step (low_world [] k n m [] [] d sp) (PassThrough ''github_upload'') (low_world [] k n m [] [''github_upload''] d sp)"
  using through_step [of "''github_upload''" "''j''" "low_world [] k n m [] [] d sp"]
  by (simp add: front_section_def low_world_def)

lemma low_release:
  "queue_step (low_world [] k n (low_permits m) [] [''github_upload''] d sp) (Release ''github_upload'')
     (low_world [] k n (low_permits (Suc m)) [] [] (''github_upload'' # d) (Suc sp))"
  using free_release_step [of "''github_upload''" "low_world [] k n (low_permits m) [] [''github_upload''] d sp"]
  by (simp add: release_slot_def fun_upd_def low_world_def cong: if_cong)

lemma new_world_low: "new_world = low_world [] 0 0 (\<lambda>p. None) [] [] [] 0"
  by (simp add: new_world_def new_tool_queue_def low_world_def)

lemmas low_steps = queue_run.intros low_enqueue low_turn low_through low_release low_permit

lemma two_uploads_run:
  "queue_run new_world two_uploads (low_world [] (Suc (Suc 0)) (Suc (Suc 0)) (low_permits 0) [] [] [''github_upload''] (Suc 0))"
  unfolding two_uploads_def new_world_low One_nat_def numeral_2_eq_2
  by (rule low_steps | simp)+

lemma one_upload_run: "queue_run new_world [Enqueue ''github_upload'' () ''j'' 0 0] (low_world [github_call (Suc 0)] (Suc 0) 0 (\<lambda>p. None) [] [] [] 0)"
  unfolding new_world_low by (rule low_steps)+

text \<open>The cap does not hold against callers that are let through: two uploads, of which one at a time may
  run, hold a permit each after a third caller, let through the empty queue, has finished.\<close>

theorem capacity_is_exceeded:
  "\<exists>w. queue_run new_world two_uploads w \<and> holders_of LOW w = priority_capacity LOW + 1"
  by (intro exI conjI, rule two_uploads_run) (simp add: holders_of_def low_world_def)

theorem holders_within_capacity_witness:
  "holders_of LOW (low_world [] (Suc (Suc 0)) (Suc (Suc 0)) (low_permits 0) [] [] [''github_upload''] (Suc 0)) \<le> 2"
  using holders_within_capacity [OF two_uploads_run, of LOW] by (simp add: low_world_def)

theorem turns_are_most_urgent_witness:
  "mset (queue_of (low_world [github_call (Suc 0)] (Suc 0) 0 (\<lambda>p. None) [] [] [] 0)) = {#github_call (Suc 0)#}"
proof -
  let ?w = "low_world [github_call (Suc 0)] (Suc 0) 0 (\<lambda>p. None) [] [] [] 0"
  have "front_section ''github_upload'' ''j'' (qw_queue ?w) = (Turn (github_call (Suc 0)), (qw_queue ?w)\<lparr>tq_queue := []\<rparr>)"
    by (simp add: low_world_def front_section_def heappop_def)
  from turns_are_most_urgent [OF one_upload_run this] show ?thesis by simp
qed

section \<open>Items nobody waits for\<close>

text \<open>An event leaves an item alone if it neither acts for its caller nor finds it stale.\<close>

fun leaves_alone :: "'a queue_item \<Rightarrow> 'a queue_event \<Rightarrow> bool" where
  "leaves_alone x (Enqueue tool args job t0 now) = (\<not> is_stale t0 x)"
| "leaves_alone x (Expire now) = (\<not> is_stale now x)"
| "leaves_alone x (TakeTurn y) = (qi_tool y \<noteq> qi_tool x \<or> qi_job y \<noteq> qi_job x)"
| "leaves_alone x _ = True"

lemma expire_keeps: "x \<in> set (tq_queue s) \<Longrightarrow> \<not> is_stale now x \<Longrightarrow> x \<in> set (tq_queue (snd (snd (expire_stale_items now s))))"
  using expire_queue(2) [of now s, THEN arg_cong [where f = set_mset]] by simp

lemma push_keeps: "x \<in> set q \<Longrightarrow> x \<in> set (heappush key y q)"
  using heappush_items [of key y q, THEN arg_cong [where f = set_mset]] by simp

lemma alone_step:
  "queue_step w e w' \<Longrightarrow> heap item_key (queue_of w) \<Longrightarrow> x \<in> set (queue_of w) \<Longrightarrow> leaves_alone x e \<Longrightarrow>
   x \<in> set (queue_of w') \<and> (\<forall>y. e = TakeTurn y \<longrightarrow> \<not> item_less x y) \<and> (\<forall>tool. e \<noteq> PassThrough tool)"
proof (induction rule: queue_step.induct)
  case (enqueue_step w tool args job t0 now)
  then show ?case using enqueue_queue [of tool job now args t0 "qw_queue w"] expire_keeps [of x "qw_queue w" t0]
    by (auto intro: push_keeps)
next
  case (turn_step tool job w y q)
  note pop = front_turn [OF turn_step.hyps]
  from py_heap.pop_items [OF pop(1)] turn_step.prems(2) have "x = y \<or> x \<in> set (tq_queue q)" by (metis insert_iff set_mset_add_mset_insert set_mset_mset)
  moreover have "item_key y \<le> item_key x" by (rule py_heap.pop_least [OF turn_step.prems(1) pop(1)]) (use turn_step.prems(2) in simp)
  ultimately show ?case using turn_step.prems(3) by (auto simp: item_less_key)
next
  case (through_step tool job w q)
  then show ?case using front_through [of tool job "qw_queue w" q] by auto
qed (auto simp: expiry_queue take_permit_queue intro: expire_keeps push_keeps)

text \<open>C27: An abandoned item blocks the queue.  While an item is in the queue, its caller does not poll (as after
  a time-out, which puts it back) and no expiry finds it older than 300 s, nothing less urgent gets a turn, and
  nobody is let through.\<close>

theorem abandoned_item_blocks:
  assumes "queue_run new_world es w" "x \<in> set (queue_of w)" "queue_run w es' w'" "\<forall>e\<in>set es'. leaves_alone x e"
  shows "x \<in> set (queue_of w') \<and> (\<forall>y. TakeTurn y \<in> set es' \<longrightarrow> \<not> item_less x y) \<and> (\<forall>tool. PassThrough tool \<notin> set es')"
proof -
  have "heap item_key (queue_of w)" by (rule queue_run_heap [OF assms(1) new_world_heap])
  with assms(3,2,4) show ?thesis
  proof (induction rule: queue_run.induct)
    case (run_cons w e w1 es w2)
    have "x \<in> set (queue_of w1) \<and> (\<forall>y. e = TakeTurn y \<longrightarrow> \<not> item_less x y) \<and> (\<forall>tool. e \<noteq> PassThrough tool)"
      by (rule alone_step [OF run_cons.hyps(1)]) (use run_cons.prems in simp_all)
    with run_cons queue_step_heap [OF run_cons.hyps(1)] show ?case by auto
  qed simp
qed

theorem abandoned_item_blocks_witness:
  "github_call (Suc 0) \<in> set (queue_of (low_world [github_call (Suc 0)] (Suc 0) 0 (\<lambda>p. None) [] [] [] 0))"
proof -
  let ?w = "low_world [github_call (Suc 0)] (Suc 0) 0 (\<lambda>p. None) [] [] [] 0"
  have "queue_run ?w [Expire 300] ?w"
    using run_cons [OF expire_step [of ?w 300] run_nil]
    by (simp add: low_world_def expiry_section_def expire_stale_items_def is_stale_def MAX_QUEUE_WAIT_SECONDS_def heapify_def)
  from abandoned_item_blocks [OF one_upload_run _ this, of "github_call (Suc 0)"] show ?thesis
    by (simp add: low_world_def is_stale_def MAX_QUEUE_WAIT_SECONDS_def)
qed

text \<open>A caller whose item has expired is given no turn: it polls until the queue is empty.\<close>

lemma expired_caller_gets_no_turn: "position_of tool job (tq_queue s) = None \<Longrightarrow> front_section tool job s \<noteq> (Turn x, q)"
  by (auto simp: front_section_def split: list.splits if_splits option.splits)

text \<open>The reported position is the length of the queue, also for the most urgent item.\<close>

lemma position_is_the_length: "fst (fst (enqueue tool args job t0 now s)) = length (tq_queue (snd (snd (enqueue tool args job t0 now s))))"
  by (simp add: enqueue_def split: prod.split)

end
