(* ===== verification/MemoryTuning.thy ===== *)
theory MemoryTuning
  imports Complex_Main PyDict
begin

text \<open>
  The event bus \<open>fastmcp_server/tools/thread_events.py\<close> and the controller that tunes the retrieval by its
  events, \<open>thread_adaptive_controller.py\<close>.  Callbacks are values that a handler interprets; floats are
  rationals, and \<open>round(x, 4)\<close> rounds half to even.
\<close>

section \<open>The bus\<close>

definition ALL_EVENT_TYPES :: "string list" where
  "ALL_EVENT_TYPES =
     [''memory.stored'', ''memory.retrieved'', ''edge.added'', ''edge.removed'', ''memory.decayed'', ''memory.forgotten'', ''cache.hit'', ''cache.miss'',
      ''system.parameter_changed'']"

record 'd bus_event =
  be_type :: string
  be_data :: 'd
  be_time :: rat

record ('c, 'd) bus =
  bs_subscribers :: "(string, 'c list) table"
  bs_count :: nat
  bs_log :: "'d bus_event list option"

definition new_bus :: "bool \<Rightarrow> ('c, 'd) bus" where
  "new_bus with_log = \<lparr>bs_subscribers = [], bs_count = 0, bs_log = (if with_log then Some [] else None)\<rparr>"

definition subscribers_of :: "string \<Rightarrow> ('c, 'd) bus \<Rightarrow> 'c list" where
  "subscribers_of t b = (case row_at t (bs_subscribers b) of None \<Rightarrow> [] | Some cs \<Rightarrow> cs)"

definition bus_subscribe :: "('c \<Rightarrow> bool) \<Rightarrow> string \<Rightarrow> 'c \<Rightarrow> ('c, 'd) bus \<Rightarrow> ('c, 'd) bus" where
  "bus_subscribe is_callable t c b =
     (if is_callable c then b\<lparr>bs_subscribers := dict_set t (subscribers_of t b @ [c]) (bs_subscribers b)\<rparr> else b)"

definition bus_unsubscribe :: "string \<Rightarrow> 'c \<Rightarrow> ('c, 'd) bus \<Rightarrow> bool \<times> ('c, 'd) bus" where
  "bus_unsubscribe t c b =
     (if c \<in> set (subscribers_of t b) then
        let cs = remove1 c (subscribers_of t b)
        in (True, b\<lparr>bs_subscribers := if cs = [] then delete_row t (bs_subscribers b) else dict_set t cs (bs_subscribers b)\<rparr>)
      else (False, b))"

text \<open>Who is called is fixed before the first call.  An append to the log may fail silently.\<close>

definition bus_emit :: "bool \<Rightarrow> string \<Rightarrow> 'd \<Rightarrow> rat \<Rightarrow> ('c, 'd) bus \<Rightarrow> 'd bus_event \<times> 'c list \<times> ('c, 'd) bus" where
  "bus_emit log_works t d now b =
     (let e = \<lparr>be_type = t, be_data = d, be_time = now\<rparr>
      in (e, subscribers_of t b @ subscribers_of ''*'' b,
          b\<lparr>bs_count := bs_count b + 1, bs_log := map_option (\<lambda>l. if log_works then l @ [e] else l) (bs_log b)\<rparr>))"

text \<open>A callback that raises has had its effects; the next one is called all the same.\<close>

definition dispatch :: "('c \<Rightarrow> 'd bus_event \<Rightarrow> 's \<Rightarrow> unit result \<times> 's) \<Rightarrow> 'd bus_event \<Rightarrow> 'c list \<Rightarrow> 's \<Rightarrow> 's" where
  "dispatch handle e cs s = fold (\<lambda>c s. snd (handle c e s)) cs s"

definition get_subscriber_count :: "string option \<Rightarrow> ('c, 'd) bus \<Rightarrow> nat" where
  "get_subscriber_count t b =
     (case t of
        Some (c # cs) \<Rightarrow> length (subscribers_of (c # cs) b)
      | _ \<Rightarrow> sum_list (map (\<lambda>(k, cs). length cs) (bs_subscribers b)))"

definition clear_subscribers :: "('c, 'd) bus \<Rightarrow> ('c, 'd) bus" where
  "clear_subscribers b = b\<lparr>bs_subscribers := []\<rparr>"

section \<open>The controller\<close>

record retrieval_weights =
  rw_lexical :: rat
  rw_activation :: rat
  rw_vector :: rat

record tuning =
  tn_decay :: rat
  tn_depth :: nat
  tn_threshold :: rat

definition DEFAULT_RETRIEVAL_WEIGHTS :: retrieval_weights where
  "DEFAULT_RETRIEVAL_WEIGHTS = \<lparr>rw_lexical = 1 / 2, rw_activation = 3 / 10, rw_vector = 2 / 10\<rparr>"

definition DEFAULT_PARAMETERS :: tuning where
  "DEFAULT_PARAMETERS = \<lparr>tn_decay = 1 / 2, tn_depth = 3, tn_threshold = 6 / 10\<rparr>"

record controller =
  ct_window :: nat
  ct_interval :: nat
  ct_weights :: retrieval_weights
  ct_parameters :: tuning
  ct_times :: "(string, rat) table"
  ct_counts :: "(string, nat) table"
  ct_latencies :: "rat list"
  ct_total :: nat
  ct_last :: nat

definition new_controller :: "nat \<Rightarrow> nat \<Rightarrow> controller" where
  "new_controller window_size interval =
     \<lparr>ct_window = max window_size 10, ct_interval = max interval 1, ct_weights = DEFAULT_RETRIEVAL_WEIGHTS, ct_parameters = DEFAULT_PARAMETERS,
      ct_times = [], ct_counts = [], ct_latencies = [], ct_total = 0, ct_last = 0\<rparr>"

definition round4 :: "rat \<Rightarrow> rat" where
  "round4 x =
     (let y = x * 10000; f = \<lfloor>y\<rfloor>; r = y - of_int f
      in of_int (if r < 1 / 2 \<or> r = 1 / 2 \<and> even f then f else f + 1) / 10000)"

definition count_of :: "string \<Rightarrow> controller \<Rightarrow> nat" where
  "count_of t c = (case row_at t (ct_counts c) of None \<Rightarrow> 0 | Some n \<Rightarrow> n)"

definition on_cache_event :: "'d bus_event \<Rightarrow> rat \<Rightarrow> controller \<Rightarrow> controller" where
  "on_cache_event e now c =
     c\<lparr>ct_total := ct_total c + 1, ct_counts := dict_set (be_type e) (count_of (be_type e) c + 1) (ct_counts c), ct_times := dict_set (be_type e) now (ct_times c)\<rparr>"

definition on_retrieval_event :: "rat \<Rightarrow> controller \<Rightarrow> controller" where
  "on_retrieval_event latency c =
     (let c1 = c\<lparr>ct_total := ct_total c + 1\<rparr>
      in if latency > 0 then
           let l = ct_latencies c1 @ [latency]
           in c1\<lparr>ct_latencies := if length l > ct_window c1 then drop (length l - ct_window c1) l else l\<rparr>
         else c1)"

record changes =
  ch_threshold :: "(rat \<times> rat) option"
  ch_weights :: "retrieval_weights option"

definition hit_rate_of :: "controller \<Rightarrow> rat" where
  "hit_rate_of c =
     (let total = count_of ''cache.hit'' c + count_of ''cache.miss'' c
      in if total > 0 then of_nat (count_of ''cache.hit'' c) / of_nat total else 1 / 2)"

definition next_threshold :: "rat \<Rightarrow> rat \<Rightarrow> rat" where
  "next_threshold rate old =
     (if rate < 3 / 10 then max (3 / 10) (old - 5 / 100) else if rate > 8 / 10 then min (9 / 10) (old + 5 / 100) else old)"

definition next_lexical :: "rat \<Rightarrow> rat \<Rightarrow> rat" where
  "next_lexical rate old =
     (if rate < 4 / 10 then min (8 / 10) (old + 5 / 100) else if rate > 85 / 100 then max (3 / 10) (old - 5 / 100) else old)"

definition reweight :: "rat \<Rightarrow> retrieval_weights \<Rightarrow> retrieval_weights" where
  "reweight lexical w =
     (let rest = 1 - lexical; s = (if rw_activation w + rw_vector w > 0 then rw_activation w + rw_vector w else 1)
      in \<lparr>rw_lexical = round4 lexical, rw_activation = round4 (rest * (rw_activation w / s)), rw_vector = round4 (rest * (rw_vector w / s))\<rparr>)"

definition adapt :: "controller \<Rightarrow> changes \<times> controller" where
  "adapt c =
     (if ct_total c < ct_last c + ct_interval c then (\<lparr>ch_threshold = None, ch_weights = None\<rparr>, c)
      else
        let rate = hit_rate_of c;
            total = count_of ''cache.hit'' c + count_of ''cache.miss'' c;
            old = tn_threshold (ct_parameters c);
            new = next_threshold rate old;
            moved = \<bar>new - old\<bar> > 1 / 100;
            lex = rw_lexical (ct_weights c);
            lex' = next_lexical rate lex;
            shifted = total > 10 \<and> \<bar>lex' - lex\<bar> > 1 / 100;
            w = (if shifted then reweight lex' (ct_weights c) else ct_weights c)
        in (\<lparr>ch_threshold = if moved then Some (old, new) else None, ch_weights = if shifted then Some w else None\<rparr>,
            c\<lparr>ct_last := ct_total c, ct_parameters := if moved then (ct_parameters c)\<lparr>tn_threshold := round4 new\<rparr> else ct_parameters c,
              ct_weights := w, ct_counts := []\<rparr>))"


section \<open>Events arrive once, in order\<close>

lemma subscribers_after:
  "subscribers_of t (b\<lparr>bs_subscribers := dict_set t' cs (bs_subscribers b)\<rparr>) = (if t = t' then cs else subscribers_of t b)"
  "subscribers_of t (b\<lparr>bs_subscribers := delete_row t' (bs_subscribers b)\<rparr>) = (if t = t' then [] else subscribers_of t b)"
  by (simp_all add: subscribers_of_def dict.get_put row_at_delete)

lemma subscribed: "is_callable c \<Longrightarrow> subscribers_of t' (bus_subscribe is_callable t c b) = (if t' = t then subscribers_of t b @ [c] else subscribers_of t' b)"
  by (simp add: bus_subscribe_def subscribers_after)

lemma unsubscribed: "subscribers_of t' (snd (bus_unsubscribe t c b)) = (if t' = t then remove1 c (subscribers_of t b) else subscribers_of t' b)"
  by (auto simp: bus_unsubscribe_def subscribers_after remove1_idem)

text \<open>Cancelling what was just subscribed gives back the subscribers, if it is new.\<close>

lemma unsubscribe_after_subscribe:
  "is_callable c \<Longrightarrow> c \<notin> set (subscribers_of t b) \<Longrightarrow> subscribers_of t' (snd (bus_unsubscribe t c (bus_subscribe is_callable t c b))) = subscribers_of t' b"
  by (simp add: unsubscribed subscribed remove1_append)

text \<open>Who listens to everything hears an event of the type \<open>*\<close> twice.\<close>

lemma wildcard_event_comes_twice: "fst (snd (bus_emit w ''*'' d now b)) = subscribers_of ''*'' b @ subscribers_of ''*'' b"
  by (simp add: bus_emit_def)

section \<open>Rounding\<close>

lemma round4_grid: "round4 (of_int k / 10000) = of_int k / 10000"
  by (simp add: round4_def)

lemma round4_near: "\<bar>round4 x - x\<bar> \<le> 1 / 20000"
proof -
  define f where "f = \<lfloor>x * 10000\<rfloor>"
  define r where "r = x * 10000 - of_int f"
  have r: "0 \<le> r" "r < 1" by (simp_all add: r_def f_def) linarith
  have x: "x = (of_int f + r) / 10000" by (simp add: r_def)
  have "round4 x = of_int (if r < 1 / 2 \<or> r = 1 / 2 \<and> even f then f else f + 1) / 10000" by (simp add: round4_def f_def r_def)
  then show ?thesis using r by (cases "r < 1 / 2 \<or> r = 1 / 2 \<and> even f") (auto simp: x field_simps abs_le_iff)
qed

lemma round4_is_grid: "\<exists>k. round4 x = of_int k / 10000"
  unfolding round4_def Let_def by blast

lemma round4_lower: "of_int k / 10000 \<le> x \<Longrightarrow> of_int k / 10000 \<le> round4 x"
proof -
  assume x: "of_int k / 10000 \<le> x"
  obtain m where m: "round4 x = of_int m / 10000" using round4_is_grid by blast
  have "k \<le> m"
  proof (rule ccontr)
    assume "\<not> k \<le> m"
    then have "m + 1 \<le> k" by simp
    then have "(of_int m + 1 :: rat) \<le> of_int k" by (metis of_int_1 of_int_add of_int_le_iff)
    with x m round4_near [of x] show False by (simp add: abs_le_iff field_simps)
  qed
  then show ?thesis by (simp add: m divide_right_mono)
qed

lemma round4_upper: "x \<le> of_int k / 10000 \<Longrightarrow> round4 x \<le> of_int k / 10000"
proof -
  assume x: "x \<le> of_int k / 10000"
  obtain m where m: "round4 x = of_int m / 10000" using round4_is_grid by blast
  have "m \<le> k"
  proof (rule ccontr)
    assume "\<not> m \<le> k"
    then have "k + 1 \<le> m" by simp
    then have "(of_int k + 1 :: rat) \<le> of_int m" by (metis of_int_1 of_int_add of_int_le_iff)
    with x m round4_near [of x] show False by (simp add: abs_le_iff field_simps)
  qed
  then show ?thesis by (simp add: m divide_right_mono)
qed



section \<open>The parameters stay in range\<close>

definition on_grid :: "rat \<Rightarrow> bool" where
  "on_grid x \<longleftrightarrow> (\<exists>k. x = of_int k / 10000)"

definition weights_ok :: "retrieval_weights \<Rightarrow> bool" where
  "weights_ok w \<longleftrightarrow>
     on_grid (rw_lexical w) \<and> 3 / 10 \<le> rw_lexical w \<and> rw_lexical w \<le> 8 / 10 \<and> 0 \<le> rw_activation w \<and> 0 \<le> rw_vector w \<and>
     \<bar>rw_lexical w + rw_activation w + rw_vector w - 1\<bar> \<le> 1 / 10000"

definition threshold_ok :: "rat \<Rightarrow> bool" where
  "threshold_ok t \<longleftrightarrow> 3 / 10 \<le> t \<and> t \<le> 9 / 10"

definition tuned :: "controller \<Rightarrow> bool" where
  "tuned c \<longleftrightarrow> weights_ok (ct_weights c) \<and> threshold_ok (tn_threshold (ct_parameters c))"

lemma grid_step: "on_grid x \<Longrightarrow> on_grid (x + 5 / 100) \<and> on_grid (x - 5 / 100)"
proof -
  assume "on_grid x"
  then obtain k where "x = of_int k / 10000" by (auto simp: on_grid_def)
  then have "x + 5 / 100 = of_int (k + 500) / 10000" "x - 5 / 100 = of_int (k - 500) / 10000" by simp_all
  then show ?thesis unfolding on_grid_def by blast
qed

lemma grid_ends: "on_grid (8 / 10)" "on_grid (3 / 10)"
  unfolding on_grid_def by (rule exI [of _ 8000], simp) (rule exI [of _ 3000], simp)

lemma next_lexical_ok: "on_grid x \<Longrightarrow> 3 / 10 \<le> x \<Longrightarrow> x \<le> 8 / 10 \<Longrightarrow>
  on_grid (next_lexical r x) \<and> 3 / 10 \<le> next_lexical r x \<and> next_lexical r x \<le> 8 / 10"
  using grid_step [of x] grid_ends by (auto simp: next_lexical_def min_def max_def)

lemma reweight_ok:
  assumes "on_grid l" "3 / 10 \<le> l" "l \<le> 8 / 10" "weights_ok w"
  shows "weights_ok (reweight l w)"
proof -
  have w: "0 \<le> rw_activation w" "0 \<le> rw_vector w" using assms(4) by (simp_all add: weights_ok_def)
  have pos: "0 < rw_activation w + rw_vector w" using assms(4) unfolding weights_ok_def abs_le_iff by linarith
  let ?s = "rw_activation w + rw_vector w"
  let ?a = "(1 - l) * (rw_activation w / ?s)" and ?v = "(1 - l) * (rw_vector w / ?s)"
  obtain k where "l = of_int k / 10000" using assms(1) by (auto simp: on_grid_def)
  then have l: "round4 l = l" by (simp only: round4_grid)
  have "?a + ?v = (1 - l) * (?s / ?s)" by (simp only: add_divide_distrib distrib_left)
  then have sum: "?a + ?v = 1 - l" using pos by simp
  have "0 \<le> ?a" "0 \<le> ?v" using assms(3) w pos by (intro mult_nonneg_nonneg divide_nonneg_nonneg; simp)+
  then have "0 \<le> round4 ?a" "0 \<le> round4 ?v" using round4_lower [of 0] by simp_all
  moreover have "\<bar>l + round4 ?a + round4 ?v - 1\<bar> \<le> 1 / 10000"
    using round4_near [of ?a] round4_near [of ?v] sum by (simp only: abs_le_iff) linarith
  ultimately show ?thesis using pos l assms(1-3) by (simp add: reweight_def weights_ok_def)
qed

lemma next_threshold_ok: "threshold_ok t \<Longrightarrow> threshold_ok (round4 (next_threshold r t))"
proof -
  assume "threshold_ok t"
  then have "3 / 10 \<le> next_threshold r t \<and> next_threshold r t \<le> 9 / 10" by (auto simp: threshold_ok_def next_threshold_def min_def max_def)
  then show ?thesis using round4_lower [of 3000 "next_threshold r t"] round4_upper [of "next_threshold r t" 9000] by (simp add: threshold_ok_def)
qed

lemma adapt_changes:
  "ct_weights (snd (adapt c)) \<in> {ct_weights c, reweight (next_lexical (hit_rate_of c) (rw_lexical (ct_weights c))) (ct_weights c)}"
  "tn_threshold (ct_parameters (snd (adapt c))) \<in> {tn_threshold (ct_parameters c), round4 (next_threshold (hit_rate_of c) (tn_threshold (ct_parameters c)))}"
  by (simp_all add: adapt_def)

lemma adapt_tuned: "tuned c \<Longrightarrow> tuned (snd (adapt c))"
proof -
  assume "tuned c"
  then have w: "weights_ok (ct_weights c)" and t: "threshold_ok (tn_threshold (ct_parameters c))" by (simp_all add: tuned_def)
  have "weights_ok (reweight (next_lexical (hit_rate_of c) (rw_lexical (ct_weights c))) (ct_weights c))"
    using next_lexical_ok [of "rw_lexical (ct_weights c)" "hit_rate_of c"] w by (intro reweight_ok) (simp_all add: weights_ok_def)
  with w t next_threshold_ok [OF t] adapt_changes [of c] show ?thesis unfolding tuned_def by fastforce
qed

datatype control_call = CacheEvent string rat | RetrievalEvent rat | Adapt

fun control_step :: "control_call \<Rightarrow> controller \<Rightarrow> controller" where
  "control_step (CacheEvent t now) c = on_cache_event \<lparr>be_type = t, be_data = (), be_time = now\<rparr> now c"
| "control_step (RetrievalEvent ms) c = on_retrieval_event ms c"
| "control_step Adapt c = snd (adapt c)"


text \<open>The decay and the depth are never changed; the latencies kept are at most the window.\<close>

lemma decay_is_constant: "tn_decay (ct_parameters (control_step x c)) = tn_decay (ct_parameters c) \<and> tn_depth (ct_parameters (control_step x c)) = tn_depth (ct_parameters c)"
  by (cases x) (simp_all add: on_cache_event_def on_retrieval_event_def adapt_def)

lemma latencies_bounded: "length (ct_latencies c) \<le> ct_window c \<Longrightarrow> length (ct_latencies (control_step x c)) \<le> ct_window (control_step x c)"
  by (cases x) (auto simp: on_cache_event_def on_retrieval_event_def adapt_def)


end
