(* ===== verification/MemoryGraph.thy ===== *)
theory MemoryGraph
  imports Complex_Main PyText PyDict
begin

text \<open>
  The memory graph of the FastMCP server, \<open>fastmcp_server/tools/thread_memory_graph.py\<close>: nodes and typed
  edges in SQLite, counters in \<open>thread_meta\<close>, consolidation, the forgetting curve and the scores.  REAL
  columns are rationals, time stamps seconds (all are UTC ISO strings, which compare as their times),
  the JSON columns hold the lists they encode; \<open>ROUND\<close> and \<open>round\<close> are arguments.
\<close>

section \<open>Tables\<close>

definition VALID_RELATION_TYPES :: "string list" where
  "VALID_RELATION_TYPES =
     [''SHOULD_GO_TOGETHER'', ''MIGHT_GO_TOGETHER'', ''WENT_TOGETHER_BEFORE'', ''WILL_NOT_GO_TOGETHER'', ''ALMOST_ABSOLUTE_REJECTION'']"

definition MIGHT_GO_TOGETHER :: string where
  "MIGHT_GO_TOGETHER = ''MIGHT_GO_TOGETHER''"

record thought =
  th_content :: string
  th_session :: string
  th_number :: int
  th_total :: int
  th_next :: bool
  th_category :: string
  th_keywords :: "string list"
  th_embedding :: "rat list option"
  th_confidence :: rat
  th_importance :: rat
  th_critical :: bool

record memory_node =
  mn_rowid :: nat
  mn_thought :: thought
  mn_access :: nat
  mn_version :: nat
  mn_activation :: rat
  mn_rank :: rat
  mn_created :: rat
  mn_modified :: rat

record memory_edge =
  me_source :: string
  me_target :: string
  me_relation :: string
  me_weight :: rat
  me_created :: rat

record memory_graph =
  mg_nodes :: "(string, memory_node) table"
  mg_edges :: "memory_edge list"
  mg_version :: nat
  mg_node_count :: nat
  mg_edge_count :: nat

definition empty_graph :: memory_graph where
  "empty_graph = \<lparr>mg_nodes = [], mg_edges = [], mg_version = 1, mg_node_count = 0, mg_edge_count = 0\<rparr>"

section \<open>Nodes\<close>

text \<open>SQLite gives a new row the number after the largest one.\<close>

definition next_rowid :: "memory_graph \<Rightarrow> nat" where
  "next_rowid g = Suc (foldr max (map (\<lambda>(u, n). mn_rowid n) (mg_nodes g)) 0)"

definition stored_thought :: "thought \<Rightarrow> thought" where
  "stored_thought t = t\<lparr>th_embedding := (case th_embedding t of Some (x # xs) \<Rightarrow> Some (x # xs) | _ \<Rightarrow> None)\<rparr>"

definition store_node :: "rat \<Rightarrow> string \<Rightarrow> thought \<Rightarrow> memory_graph \<Rightarrow> bool \<times> memory_graph" where
  "store_node now uuid t g =
     (case row_at uuid (mg_nodes g) of
        None \<Rightarrow>
          (True, g\<lparr>mg_nodes := mg_nodes g @ [(uuid, \<lparr>mn_rowid = next_rowid g, mn_thought = stored_thought t, mn_access = 0, mn_version = 1,
                     mn_activation = 0, mn_rank = 0, mn_created = now, mn_modified = now\<rparr>)],
                   mg_node_count := mg_node_count g + 1\<rparr>)
      | Some n \<Rightarrow>
          (False, g\<lparr>mg_nodes := update_row uuid (\<lambda>n. n\<lparr>mn_thought := stored_thought t, mn_version := mn_version n + 1, mn_modified := now\<rparr>) (mg_nodes g),
                    mg_version := mg_version g + 1\<rparr>))"

text \<open>The record returned tells a new node by its access count and creation time.\<close>

definition build_node_record :: "rat \<Rightarrow> bool \<Rightarrow> nat option \<times> rat option" where
  "build_node_record now is_new = (if is_new then (Some 0, Some now) else (None, None))"

definition memory_node_at :: "string \<Rightarrow> memory_graph \<Rightarrow> memory_node option" where
  "memory_node_at uuid g = row_at uuid (mg_nodes g)"

definition increment_access_count :: "rat \<Rightarrow> string \<Rightarrow> memory_graph \<Rightarrow> memory_graph" where
  "increment_access_count now uuid g =
     g\<lparr>mg_nodes := update_row uuid (\<lambda>n. n\<lparr>mn_access := mn_access n + 1, mn_modified := now\<rparr>) (mg_nodes g)\<rparr>"

section \<open>Edges\<close>

text \<open>\<open>UNIQUE(source_id, target_id, relation_type)\<close>; the foreign keys are enforced, and a violation of
  them raises even under \<open>OR IGNORE\<close>.\<close>

definition edge_there :: "string \<Rightarrow> string \<Rightarrow> string \<Rightarrow> memory_graph \<Rightarrow> bool" where
  "edge_there s t r g = (\<exists>e\<in>set (mg_edges g). me_source e = s \<and> me_target e = t \<and> me_relation e = r)"

definition insert_edge :: "memory_edge \<Rightarrow> memory_graph \<Rightarrow> (bool \<times> memory_graph) result" where
  "insert_edge e g =
     (if edge_there (me_source e) (me_target e) (me_relation e) g then Inr (False, g)
      else if row_at (me_source e) (mg_nodes g) = None \<or> row_at (me_target e) (mg_nodes g) = None then Inl IntegrityError
      else Inr (True, g\<lparr>mg_edges := mg_edges g @ [e]\<rparr>))"

definition add_edge :: "rat \<Rightarrow> string \<Rightarrow> string \<Rightarrow> string \<Rightarrow> rat \<Rightarrow> memory_graph \<Rightarrow> bool \<times> memory_graph" where
  "add_edge now s t r w g =
     (if r \<notin> set VALID_RELATION_TYPES then (False, g)
      else case insert_edge \<lparr>me_source = s, me_target = t, me_relation = r, me_weight = w, me_created = now\<rparr> g of
             Inr (True, g1) \<Rightarrow> (True, g1\<lparr>mg_edge_count := mg_edge_count g1 + 1, mg_version := mg_version g1 + 1\<rparr>)
           | _ \<Rightarrow> (False, g))"

definition get_node_edges :: "string \<Rightarrow> string \<Rightarrow> memory_graph \<Rightarrow> memory_edge list" where
  "get_node_edges uuid direction g =
     filter (\<lambda>e. if direction = ''out'' then me_source e = uuid else if direction = ''in'' then me_target e = uuid
                 else me_source e = uuid \<or> me_target e = uuid) (mg_edges g)"

section \<open>Consolidation\<close>

definition calc_similarity :: "string \<Rightarrow> string list \<Rightarrow> string \<Rightarrow> string list \<Rightarrow> rat" where
  "calc_similarity cat1 kw1 cat2 kw2 =
     (let k1 = remdups kw1; k2 = remdups kw2; c = (if cat1 = cat2 then 1 else 0)
      in if k1 = [] \<or> k2 = [] then c * (3 / 10)
         else c * (3 / 10) + of_nat (length (filter (\<lambda>k. k \<in> set k2) k1)) / of_nat (length (remdups (k1 @ k2))) * (7 / 10))"

definition consolidation_candidates :: "string \<Rightarrow> thought \<Rightarrow> rat \<Rightarrow> memory_graph \<Rightarrow> (string \<times> rat) list" where
  "consolidation_candidates uuid src threshold g =
     filter (\<lambda>(u, s). s \<ge> threshold)
       (map (\<lambda>(u, n). (u, calc_similarity (th_category src) (th_keywords src) (th_category (mn_thought n)) (th_keywords (mn_thought n))))
         (filter (\<lambda>(u, n). u \<noteq> uuid \<and> \<not> (\<exists>e\<in>set (mg_edges g). me_source e = uuid \<and> me_target e = u)) (mg_nodes g)))"

fun insert_links :: "rat \<Rightarrow> string \<Rightarrow> (string \<times> rat) list \<Rightarrow> memory_graph \<Rightarrow> (nat \<times> memory_graph) result" where
  "insert_links now uuid [] g = Inr (0, g)"
| "insert_links now uuid ((u, s) # cs) g =
     bind_result (insert_edge \<lparr>me_source = uuid, me_target = u, me_relation = MIGHT_GO_TOGETHER, me_weight = s, me_created = now\<rparr> g)
       (\<lambda>(b, g1). bind_result (insert_links now uuid cs g1) (\<lambda>(n, g2). Inr (if b then n + 1 else n, g2)))"

definition auto_consolidate :: "rat \<Rightarrow> string \<Rightarrow> rat \<Rightarrow> nat \<Rightarrow> memory_graph \<Rightarrow> nat \<times> memory_graph" where
  "auto_consolidate now uuid threshold max_links g =
     (case row_at uuid (mg_nodes g) of
        None \<Rightarrow> (0, g)
      | Some src \<Rightarrow>
          (case insert_links now uuid (take max_links (sort_key (\<lambda>(u, s). - s) (consolidation_candidates uuid (mn_thought src) threshold g))) g of
             Inl e \<Rightarrow> (0, g)
           | Inr (n, g1) \<Rightarrow>
               if n > 0 then (n, g1\<lparr>mg_edge_count := mg_edge_count g1 + n, mg_version := mg_version g1 + n\<rparr>) else (0, g)))"

section \<open>The forgetting curve\<close>

definition decay_node :: "(rat \<Rightarrow> rat) \<Rightarrow> rat \<Rightarrow> rat \<Rightarrow> memory_node \<Rightarrow> memory_node" where
  "decay_node rnd now decay n =
     (if \<not> th_critical (mn_thought n) \<and> th_confidence (mn_thought n) > 1 / 100
      then n\<lparr>mn_thought := (mn_thought n)\<lparr>th_confidence := rnd (th_confidence (mn_thought n) * decay)\<rparr>, mn_modified := now\<rparr>
      else n)"

definition archive_node :: "rat \<Rightarrow> rat \<Rightarrow> memory_node \<Rightarrow> memory_node" where
  "archive_node now threshold n =
     (if th_confidence (mn_thought n) < threshold \<and> th_critical (mn_thought n)
      then n\<lparr>mn_thought := (mn_thought n)\<lparr>th_critical := False\<rparr>, mn_modified := now\<rparr>
      else n)"

definition count_nodes :: "(memory_node \<Rightarrow> bool) \<Rightarrow> (string, memory_node) table \<Rightarrow> nat" where
  "count_nodes P t = length (filter (\<lambda>(u, n). P n) t)"

definition map_nodes :: "(memory_node \<Rightarrow> memory_node) \<Rightarrow> (string, memory_node) table \<Rightarrow> (string, memory_node) table" where
  "map_nodes f t = map (\<lambda>(u, n). (u, f n)) t"

definition apply_forgetting_curve :: "(rat \<Rightarrow> rat) \<Rightarrow> rat \<Rightarrow> rat \<Rightarrow> rat \<Rightarrow> rat \<Rightarrow> memory_graph \<Rightarrow> (nat \<times> nat \<times> nat) \<times> memory_graph" where
  "apply_forgetting_curve rnd now decay threshold days g =
     (let decayed = count_nodes (\<lambda>n. \<not> th_critical (mn_thought n) \<and> th_confidence (mn_thought n) > 1 / 100) (mg_nodes g);
          t1 = map_nodes (decay_node rnd now decay) (mg_nodes g);
          archived = count_nodes (\<lambda>n. th_confidence (mn_thought n) < threshold \<and> th_critical (mn_thought n)) t1;
          t2 = map_nodes (archive_node now threshold) t1;
          cutoff = now - days * 86400;
          doomed = map fst (filter (\<lambda>(u, n). \<not> th_critical (mn_thought n) \<and> mn_modified n < cutoff) t2);
          k = length doomed
      in ((decayed, archived, k),
          g\<lparr>mg_nodes := filter (\<lambda>(u, n). u \<notin> set doomed) t2,
            mg_edges := filter (\<lambda>e. me_source e \<notin> set doomed \<and> me_target e \<notin> set doomed) (mg_edges g),
            mg_node_count := mg_node_count g - k, mg_edge_count := mg_edge_count g - k * 2, mg_version := mg_version g + 1\<rparr>))"

section \<open>Scores\<close>

definition days_since :: "rat \<Rightarrow> memory_node \<Rightarrow> rat" where
  "days_since now n = max 0 ((now - mn_modified n) / 86400)"

definition recency :: "rat \<Rightarrow> memory_node \<Rightarrow> rat" where
  "recency now n = max 0 (min 1 (1 - days_since now n / 90))"

definition max_access :: "(string, memory_node) table \<Rightarrow> nat" where
  "max_access t = (let m = foldr max (map (\<lambda>(u, n). mn_access n) t) 0 in if m = 0 then 1 else m)"

definition compute_page_rank_centrality :: "(rat \<Rightarrow> rat) \<Rightarrow> rat \<Rightarrow> memory_graph \<Rightarrow> memory_graph" where
  "compute_page_rank_centrality rnd now g =
     g\<lparr>mg_nodes := map_nodes (\<lambda>n. n\<lparr>mn_rank := rnd (of_nat (mn_access n) / of_nat (max_access (mg_nodes g)) * recency now n)\<rparr>) (mg_nodes g)\<rparr>"

text \<open>The logarithm and the exponential are arguments.\<close>

definition update_all_base_activations :: "(rat \<Rightarrow> rat) \<Rightarrow> (rat \<Rightarrow> rat) \<Rightarrow> (rat \<Rightarrow> rat) \<Rightarrow> rat \<Rightarrow> rat \<Rightarrow> memory_graph \<Rightarrow> memory_graph" where
  "update_all_base_activations rnd ln_of exp_of now d g =
     g\<lparr>mg_nodes := map_nodes (\<lambda>n. n\<lparr>mn_activation := rnd (ln_of (of_nat (mn_access n) + 1) * exp_of (- d * days_since now n))\<rparr>) (mg_nodes g)\<rparr>"

section \<open>Queries\<close>

text \<open>The full-text table has the nodes as its content, but nothing ever writes its index: a match finds no
  row, or raises, and the search is the one by \<open>LIKE\<close>.  \<open>dumps\<close> gives the JSON text of the keywords.\<close>

definition search_nodes :: "(string list \<Rightarrow> string) \<Rightarrow> string \<Rightarrow> nat \<Rightarrow> memory_graph \<Rightarrow> (string \<times> memory_node) list" where
  "search_nodes dumps query limit g =
     (let pat = ''%'' @ query @ ''%'';
          hits = filter (\<lambda>(u, n). like pat (th_content (mn_thought n)) \<or> like pat (th_category (mn_thought n)) \<or> like pat (dumps (th_keywords (mn_thought n)))) (mg_nodes g)
      in take limit (sort_key (\<lambda>(u, n). - th_importance (mn_thought n)) hits))"

definition list_recent_nodes :: "nat \<Rightarrow> nat \<Rightarrow> memory_graph \<Rightarrow> (string \<times> memory_node) list" where
  "list_recent_nodes limit offset g = take limit (drop offset (sort_key (\<lambda>(u, n). - mn_modified n) (mg_nodes g)))"


section \<open>Well-formed graphs\<close>

text \<open>Keys identify rows, row numbers are positive and differ, edges are between present nodes, of a valid relation, and
  no two have the same ends and relation; the counter of nodes is right.\<close>

definition edge_id :: "memory_edge \<Rightarrow> string \<times> string \<times> string" where
  "edge_id e = (me_source e, me_target e, me_relation e)"

definition graph_ok :: "memory_graph \<Rightarrow> bool" where
  "graph_ok g =
     (keys_unique (mg_nodes g) \<and> distinct (0 # map (\<lambda>(u, n). mn_rowid n) (mg_nodes g)) \<and>
      (\<forall>e\<in>set (mg_edges g). me_source e \<in> fst ` set (mg_nodes g) \<and> me_target e \<in> fst ` set (mg_nodes g) \<and> me_relation e \<in> set VALID_RELATION_TYPES) \<and>
      distinct (map edge_id (mg_edges g)) \<and> mg_node_count g = length (mg_nodes g))"

datatype graph_call =
    StoreNode rat string thought
  | IncrementAccess rat string
  | AddEdge rat string string string rat
  | AutoConsolidate rat string rat nat
  | ForgettingCurve rat rat rat rat
  | PageRank rat
  | BaseActivations rat rat

fun graph_step :: "(rat \<Rightarrow> rat) \<Rightarrow> (rat \<Rightarrow> rat) \<Rightarrow> (rat \<Rightarrow> rat) \<Rightarrow> graph_call \<Rightarrow> memory_graph \<Rightarrow> memory_graph" where
  "graph_step rnd l e (StoreNode now u t) g = snd (store_node now u t g)"
| "graph_step rnd l e (IncrementAccess now u) g = increment_access_count now u g"
| "graph_step rnd l e (AddEdge now s t r w) g = snd (add_edge now s t r w g)"
| "graph_step rnd l e (AutoConsolidate now u th k) g = snd (auto_consolidate now u th k g)"
| "graph_step rnd l e (ForgettingCurve now d th days) g = snd (apply_forgetting_curve rnd now d th days g)"
| "graph_step rnd l e (PageRank now) g = compute_page_rank_centrality rnd now g"
| "graph_step rnd l e (BaseActivations now d) g = update_all_base_activations rnd l e now d g"

text \<open>Rows changed in place keep their key and number.\<close>

lemma map_nodes_keys [simp]: "map fst (map_nodes f t) = map fst t"
  by (induction t) (auto simp: map_nodes_def)

lemma map_nodes_rowids: "(\<And>n. mn_rowid (f n) = mn_rowid n) \<Longrightarrow> map (\<lambda>(u, n). mn_rowid n) (map_nodes f t) = map (\<lambda>(u, n). mn_rowid n) t"
  by (induction t) (auto simp: map_nodes_def)

lemma update_keys [simp]: "map fst (update_row u f t) = map fst t"
  by (induction t) (auto simp: update_row_def)

lemma update_rowids: "(\<And>n. mn_rowid (f n) = mn_rowid n) \<Longrightarrow> map (\<lambda>(u, n). mn_rowid n) (update_row u f t) = map (\<lambda>(u, n). mn_rowid n) t"
  by (induction t) (auto simp: update_row_def)

lemma fst_set_map: "fst ` set t = set (map fst t)"
  by simp

lemma same_shape:
  assumes "graph_ok g" "map fst t = map fst (mg_nodes g)" "map (\<lambda>(u, n). mn_rowid n) t = map (\<lambda>(u, n). mn_rowid n) (mg_nodes g)"
  shows "graph_ok (g\<lparr>mg_nodes := t\<rparr>)"
proof -
  have "length t = length (mg_nodes g)" using assms(2) by (metis length_map)
  then show ?thesis using assms by (simp add: graph_ok_def keys_unique_def fst_set_map del: set_map)
qed

lemma rowid_fresh: "n \<in> snd ` set t \<Longrightarrow> mn_rowid n \<le> foldr max (map (\<lambda>(u, n). mn_rowid n) t) 0"
  by (induction t) (auto simp: le_max_iff_disj)

lemma store_node_ok: "graph_ok g \<Longrightarrow> graph_ok (snd (store_node now u t g))"
proof (cases "row_at u (mg_nodes g)")
  case None
  assume g: "graph_ok g"
  have "u \<notin> fst ` set (mg_nodes g)" using None by (simp add: row_at_def map_of_eq_None_iff)
  moreover have "next_rowid g \<notin> set (map (\<lambda>(u, n). mn_rowid n) (mg_nodes g))"
    using rowid_fresh [of _ "mg_nodes g"] by (force simp: next_rowid_def)
  moreover have "0 < next_rowid g" by (simp add: next_rowid_def)
  ultimately show ?thesis using g None by (auto simp: store_node_def graph_ok_def keys_unique_def)
next
  case (Some n)
  assume g: "graph_ok g"
  have "graph_ok (g\<lparr>mg_nodes := update_row u (\<lambda>n. n\<lparr>mn_thought := stored_thought t, mn_version := mn_version n + 1, mn_modified := now\<rparr>) (mg_nodes g)\<rparr>)"
    using g by (rule same_shape) (simp_all add: update_rowids)
  then show ?thesis using Some by (simp add: store_node_def graph_ok_def)
qed

lemma insert_edge_ok:
  assumes "graph_ok g" "me_relation e \<in> set VALID_RELATION_TYPES" "insert_edge e g = Inr (b, g')"
  shows "graph_ok g'" "mg_nodes g' = mg_nodes g" "mg_node_count g' = mg_node_count g"
proof -
  have "graph_ok g' \<and> mg_nodes g' = mg_nodes g \<and> mg_node_count g' = mg_node_count g"
  proof (cases "edge_there (me_source e) (me_target e) (me_relation e) g")
    case True
    with assms show ?thesis by (simp add: insert_edge_def)
  next
    case False
    then have new: "edge_id e \<notin> edge_id ` set (mg_edges g)" by (force simp: edge_there_def edge_id_def)
    from False assms(3) have "row_at (me_source e) (mg_nodes g) \<noteq> None" "row_at (me_target e) (mg_nodes g) \<noteq> None"
      and g': "g' = g\<lparr>mg_edges := mg_edges g @ [e]\<rparr>" by (auto simp: insert_edge_def split: if_splits)
    then have "me_source e \<in> fst ` set (mg_nodes g)" "me_target e \<in> fst ` set (mg_nodes g)" by (simp_all only: row_at_keys)
    with assms(1,2) new g' show ?thesis by (auto simp: graph_ok_def)
  qed
  then show "graph_ok g'" "mg_nodes g' = mg_nodes g" "mg_node_count g' = mg_node_count g" by simp_all
qed

lemma counters_ok: "graph_ok g \<Longrightarrow> graph_ok (g\<lparr>mg_edge_count := m, mg_version := v\<rparr>)"
  by (simp add: graph_ok_def)

lemma add_edge_ok: "graph_ok g \<Longrightarrow> graph_ok (snd (add_edge now s t r w g))"
  using insert_edge_ok(1) [of g "\<lparr>me_source = s, me_target = t, me_relation = r, me_weight = w, me_created = now\<rparr>"]
  by (auto simp: add_edge_def intro!: counters_ok split: sum.split bool.split)

lemma might_valid [simp]: "MIGHT_GO_TOGETHER \<in> set VALID_RELATION_TYPES"
  by (simp add: MIGHT_GO_TOGETHER_def VALID_RELATION_TYPES_def)

lemma insert_links_ok: "graph_ok g \<Longrightarrow> insert_links now u cs g = Inr (n, g') \<Longrightarrow> graph_ok g'"
proof (induction cs arbitrary: g n g')
  case (Cons c cs)
  obtain t s where c: "c = (t, s)" by (cases c)
  from Cons.prems(2) c obtain b g1 m where
    i: "insert_edge \<lparr>me_source = u, me_target = t, me_relation = MIGHT_GO_TOGETHER, me_weight = s, me_created = now\<rparr> g = Inr (b, g1)"
    and l: "insert_links now u cs g1 = Inr (m, g')"
    by (auto simp: bind_result_Inr_conv)
  from insert_edge_ok(1) [OF Cons.prems(1) _ i] have "graph_ok g1" by simp
  then show ?case using l by (rule Cons.IH)
qed simp

lemma auto_consolidate_ok: "graph_ok g \<Longrightarrow> graph_ok (snd (auto_consolidate now u th k g))"
  by (auto simp: auto_consolidate_def intro!: counters_ok intro: insert_links_ok split: option.split sum.split)



lemma map_nodes_twice: "map_nodes f (map_nodes h t) = map_nodes (\<lambda>n. f (h n)) t"
  by (induction t) (auto simp: map_nodes_def)

lemma decay_rowid [simp]: "mn_rowid (archive_node now th (decay_node rnd now d n)) = mn_rowid n"
  by (simp add: archive_node_def decay_node_def)

text \<open>The state after the curve, with the doomed keys named.\<close>

definition aged :: "(rat \<Rightarrow> rat) \<Rightarrow> rat \<Rightarrow> rat \<Rightarrow> rat \<Rightarrow> memory_node \<Rightarrow> memory_node" where
  "aged rnd now d th n = archive_node now th (decay_node rnd now d n)"

definition doomed :: "(rat \<Rightarrow> rat) \<Rightarrow> rat \<Rightarrow> rat \<Rightarrow> rat \<Rightarrow> rat \<Rightarrow> memory_graph \<Rightarrow> string list" where
  "doomed rnd now d th days g =
     map fst (filter (\<lambda>(u, n). \<not> th_critical (mn_thought n) \<and> mn_modified n < now - days * 86400) (map_nodes (aged rnd now d th) (mg_nodes g)))"

lemma forgetting_state:
  "snd (apply_forgetting_curve rnd now d th days g) =
     (let D = doomed rnd now d th days g
      in g\<lparr>mg_nodes := filter (\<lambda>(u, n). u \<notin> set D) (map_nodes (aged rnd now d th) (mg_nodes g)),
           mg_edges := filter (\<lambda>e. me_source e \<notin> set D \<and> me_target e \<notin> set D) (mg_edges g),
           mg_node_count := mg_node_count g - length D, mg_edge_count := mg_edge_count g - length D * 2, mg_version := mg_version g + 1\<rparr>)"
  by (simp add: apply_forgetting_curve_def doomed_def map_nodes_twice aged_def [abs_def] del: set_map set_filter length_map)

lemma length_filter_keys:
  "distinct (map fst t) \<Longrightarrow> length (filter (\<lambda>(u, n). u \<notin> set (map fst (filter P t))) t) = length t - length (filter P t)"
proof (induction t)
  case (Cons x t)
  obtain u n where x: "x = (u, n)" by (cases x)
  have le: "length (filter P t) \<le> length t" by simp
  have "u \<notin> set (map fst (filter P t))" using Cons.prems x by (auto intro: rev_image_eqI)
  moreover have "filter (\<lambda>(v, n). v \<notin> set (map fst (filter P (x # t)))) t = filter (\<lambda>(v, n). v \<notin> set (map fst (filter P t))) t"
    using Cons.prems x by (intro filter_cong) (auto intro: rev_image_eqI)
  ultimately show ?case using Cons x le by (simp add: Suc_diff_le)
qed simp

lemma distinct_filter_Cons: "distinct (a # map f xs) \<Longrightarrow> distinct (a # map f (filter P xs))"
  by (induction xs) auto

lemma forgetting_ok: "graph_ok g \<Longrightarrow> graph_ok (snd (apply_forgetting_curve rnd now d th days g))"
proof -
  assume g: "graph_ok g"
  let ?t = "map_nodes (aged rnd now d th) (mg_nodes g)" and ?D = "doomed rnd now d th days g"
  have g1: "graph_ok (g\<lparr>mg_nodes := ?t\<rparr>)" using g by (rule same_shape) (simp_all add: map_nodes_rowids aged_def)
  have len: "length (filter (\<lambda>(u, n). u \<notin> set ?D) ?t) = length ?t - length ?D"
    unfolding doomed_def length_map by (rule length_filter_keys) (use g in \<open>simp add: graph_ok_def keys_unique_def\<close>)
  have keys: "fst ` set (filter (\<lambda>(u, n). u \<notin> set ?D) ?t) = fst ` set ?t - set ?D" by (auto intro: rev_image_eqI)
  let ?f = "filter (\<lambda>(u, n). u \<notin> set ?D) ?t"
  have "keys_unique ?f" "distinct (0 # map (\<lambda>(u, n). mn_rowid n) ?f)" "distinct (map edge_id (filter P (mg_edges g)))"
    "mg_node_count g - length ?D = length ?f" for P
    using g1 distinct_filter_Cons [of 0 "\<lambda>(u, n). mn_rowid n" ?t]
    by (simp_all add: graph_ok_def keys_unique_def distinct_map_filter len del: distinct.simps set_filter)
  with g1 show ?thesis unfolding forgetting_state graph_ok_def by (simp add: keys del: set_filter) simp
qed

text \<open>C29: The graph stays well-formed.  After any sequence of calls keys and row numbers are unique, edges
  have a valid relation and run between present nodes, no two agree in ends and relation, and the counter
  of nodes is their number.\<close>

theorem graph_stays_wellformed: "graph_ok (fold (graph_step rnd l e) xs empty_graph)"
proof -
  have step: "graph_ok g \<Longrightarrow> graph_ok (graph_step rnd l e x g)" for x g
  proof (cases x)
    case (IncrementAccess now u)
    then show "graph_ok g \<Longrightarrow> ?thesis" by (auto simp: increment_access_count_def update_rowids intro!: same_shape)
  next
    case (PageRank now)
    then show "graph_ok g \<Longrightarrow> ?thesis" by (auto simp: compute_page_rank_centrality_def map_nodes_rowids intro!: same_shape)
  next
    case (BaseActivations now d)
    then show "graph_ok g \<Longrightarrow> ?thesis" by (auto simp: update_all_base_activations_def map_nodes_rowids intro!: same_shape)
  qed (simp_all add: store_node_ok add_edge_ok auto_consolidate_ok forgetting_ok)
  have "graph_ok (fold (graph_step rnd l e) xs g)" if "graph_ok g" for g
    using that by (induction xs arbitrary: g) (simp_all add: step)
  moreover have "graph_ok empty_graph" by (simp add: graph_ok_def empty_graph_def keys_unique_def)
  ultimately show ?thesis by blast
qed



section \<open>What is forgotten\<close>

lemma row_at_map_nodes: "row_at u (map_nodes f t) = map_option f (row_at u t)"
  by (induction t) (auto simp: map_nodes_def row_at_def)

lemma row_at_kept: "row_at u (filter (\<lambda>(u, n). u \<notin> D) t) = (if u \<in> D then None else row_at u t)"
  by (induction t) (auto simp: row_at_def)

lemma key_selected:
  "keys_unique t \<Longrightarrow> u \<in> set (map fst (filter (\<lambda>(u, n). P n) t)) \<longleftrightarrow> (\<exists>n. row_at u t = Some n \<and> P n)"
proof (induction t)
  case (Cons x t)
  obtain v m where "x = (v, m)" by (cases x)
  with Cons show ?case by (auto simp: keys_unique_def row_at_def intro: rev_image_eqI dest: map_of_SomeD)
qed (simp add: row_at_def)

text \<open>Only faded nodes are forgotten.  With a non-negative age limit the curve removes exactly the
  non-critical nodes whose confidence is at most 1/100 and that nobody touched since the limit: the
  decay itself counts as a touch, so that an old node with more confidence is kept.\<close>

theorem forgotten_iff_faded:
  assumes "graph_ok g" "0 \<le> days"
  shows "row_at u (mg_nodes (snd (apply_forgetting_curve rnd now d th days g))) = None \<longleftrightarrow>
     row_at u (mg_nodes g) = None \<or>
     (\<exists>n. row_at u (mg_nodes g) = Some n \<and> \<not> th_critical (mn_thought n) \<and> th_confidence (mn_thought n) \<le> 1 / 100 \<and> mn_modified n < now - days * 86400)"
proof -
  have late: "\<not> now < now - days * 86400" using assms(2) by simp
  have faded: "\<not> th_critical (mn_thought (aged rnd now d th n)) \<and> mn_modified (aged rnd now d th n) < now - days * 86400 \<longleftrightarrow>
      \<not> th_critical (mn_thought n) \<and> th_confidence (mn_thought n) \<le> 1 / 100 \<and> mn_modified n < now - days * 86400" for n
    using late by (auto simp: aged_def archive_node_def decay_node_def)
  have "keys_unique (map_nodes (aged rnd now d th) (mg_nodes g))" using assms(1) by (simp add: graph_ok_def keys_unique_def)
  from key_selected [OF this] have "u \<in> set (doomed rnd now d th days g) \<longleftrightarrow>
      (\<exists>n. row_at u (map_nodes (aged rnd now d th) (mg_nodes g)) = Some n \<and> \<not> th_critical (mn_thought n) \<and> mn_modified n < now - days * 86400)"
    unfolding doomed_def .
  also have "\<dots> \<longleftrightarrow> (\<exists>n. row_at u (mg_nodes g) = Some n \<and> \<not> th_critical (mn_thought (aged rnd now d th n)) \<and> mn_modified (aged rnd now d th n) < now - days * 86400)"
    by (auto simp: row_at_map_nodes)
  finally have "u \<in> set (doomed rnd now d th days g) \<longleftrightarrow>
      (\<exists>n. row_at u (mg_nodes g) = Some n \<and> \<not> th_critical (mn_thought n) \<and> th_confidence (mn_thought n) \<le> 1 / 100 \<and> mn_modified n < now - days * 86400)"
    by (simp only: faded)
  then show ?thesis
    unfolding forgetting_state by (auto simp: row_at_kept row_at_map_nodes)
qed

definition plain_thought :: "rat \<Rightarrow> thought" where
  "plain_thought c = \<lparr>th_content = ''t'', th_session = [], th_number = 1, th_total = 1, th_next = True, th_category = ''general'', th_keywords = [],
     th_embedding = None, th_confidence = c, th_importance = 1 / 2, th_critical = False\<rparr>"

theorem forgotten_iff_faded_witness:
  "row_at ''u'' (mg_nodes (snd (apply_forgetting_curve id 8000000 (19 / 20) (1 / 10) 90 (snd (store_node 0 ''u'' (plain_thought (1 / 2)) empty_graph))))) \<noteq> None"
proof -
  have "graph_ok (snd (store_node 0 ''u'' (plain_thought (1 / 2)) empty_graph))"
    by (rule store_node_ok) (simp add: graph_ok_def empty_graph_def keys_unique_def)
  from forgotten_iff_faded [OF this, of 90] show ?thesis
    by (simp add: store_node_def empty_graph_def row_at_def plain_thought_def stored_thought_def)
qed

section \<open>Scores and counters\<close>

lemma max_access_bound: "n \<in> snd ` set t \<Longrightarrow> mn_access n \<le> max_access t"
proof -
  assume n: "n \<in> snd ` set t"
  then have "mn_access n \<le> foldr max (map (\<lambda>(u, n). mn_access n) t) 0" by (induction t) (auto simp: le_max_iff_disj)
  then show ?thesis by (auto simp: max_access_def)
qed

lemma max_access_pos: "0 < max_access t"
  by (simp add: max_access_def)

text \<open>The centrality is a score.  If the rounding keeps the unit interval, every node has a rank in it
  afterwards.\<close>

theorem page_rank_in_unit_interval:
  assumes "\<And>x. 0 \<le> x \<Longrightarrow> x \<le> 1 \<Longrightarrow> 0 \<le> rnd x \<and> rnd x \<le> 1" "row_at u (mg_nodes (compute_page_rank_centrality rnd now g)) = Some n"
  shows "0 \<le> mn_rank n \<and> mn_rank n \<le> 1"
proof -
  from assms(2) obtain m where m: "row_at u (mg_nodes g) = Some m"
    and n: "n = m\<lparr>mn_rank := rnd (of_nat (mn_access m) / of_nat (max_access (mg_nodes g)) * recency now m)\<rparr>"
    by (auto simp: compute_page_rank_centrality_def row_at_map_nodes)
  have "m \<in> snd ` set (mg_nodes g)" using m by (force simp: row_at_def dest: map_of_SomeD)
  from max_access_bound [OF this] have "of_nat (mn_access m) / of_nat (max_access (mg_nodes g)) \<le> (1 :: rat)"
    using max_access_pos [of "mg_nodes g"] by (simp add: divide_le_eq_1)
  moreover have "0 \<le> recency now m" "recency now m \<le> 1" by (simp_all add: recency_def)
  ultimately have "of_nat (mn_access m) / of_nat (max_access (mg_nodes g)) * recency now m \<le> 1" by (intro mult_le_one) simp_all
  with \<open>0 \<le> recency now m\<close> assms(1) show ?thesis by (simp add: n)
qed

theorem page_rank_in_unit_interval_witness:
  "\<exists>n. row_at ''u'' (mg_nodes (compute_page_rank_centrality id 5 (snd (store_node 0 ''u'' (plain_thought 1) empty_graph)))) = Some n \<and> mn_rank n \<le> 1"
proof -
  obtain n where n: "row_at ''u'' (mg_nodes (compute_page_rank_centrality id 5 (snd (store_node 0 ''u'' (plain_thought 1) empty_graph)))) = Some n"
    by (simp add: store_node_def empty_graph_def row_at_def compute_page_rank_centrality_def map_nodes_def)
  from page_rank_in_unit_interval [of id, OF _ this] n show ?thesis by simp
qed

text \<open>The counter of edges is guessed when nodes go.\<close>

lemma edge_counter_drifts:
  "let g = fold (graph_step id id id) [StoreNode 0 ''a'' (plain_thought 0), StoreNode 0 ''b'' (plain_thought 1), StoreNode 0 ''c'' (plain_thought 1),
       AddEdge 0 ''a'' ''b'' MIGHT_GO_TOGETHER 1, AddEdge 0 ''b'' ''c'' MIGHT_GO_TOGETHER 1, ForgettingCurve 8000000 1 0 90] empty_graph
   in length (mg_edges g) = 1 \<and> mg_edge_count g = 0"
  by (simp add: store_node_def empty_graph_def row_at_def plain_thought_def stored_thought_def next_rowid_def add_edge_def insert_edge_def edge_there_def
    apply_forgetting_curve_def MIGHT_GO_TOGETHER_def VALID_RELATION_TYPES_def map_nodes_def decay_node_def archive_node_def count_nodes_def del: set_filter set_map)

text \<open>A new node does not advance the version of the graph.\<close>

lemma new_node_keeps_version: "row_at u (mg_nodes g) = None \<Longrightarrow> mg_version (snd (store_node now u t g)) = mg_version g"
  by (simp add: store_node_def)


end
