(* ===== verification/MemorySpread.thy ===== *)
theory MemorySpread
  imports MemoryGraph
begin

text \<open>
  Spreading activation, \<open>fastmcp_server/tools/thread_activation.py\<close>: the walk over the graph level by level
  and the path over a GPU bridge.  The order in which SQLite returns the rows of a UNION is an argument
  (a list with the same elements, each once), and so is the bridge, which is not part of the program.
\<close>

section \<open>The CPU path\<close>

type_synonym edge_row = "string \<times> string \<times> rat"

definition union_rows :: "string list \<Rightarrow> memory_graph \<Rightarrow> edge_row list" where
  "union_rows ids g =
     map (\<lambda>e. (me_source e, me_target e, me_weight e)) (filter (\<lambda>e. me_source e \<in> set ids) (mg_edges g)) @
     map (\<lambda>e. (me_target e, me_source e, me_weight e)) (filter (\<lambda>e. me_target e \<in> set ids) (mg_edges g))"

definition get_neighbors_with_weights :: "(edge_row list \<Rightarrow> edge_row list) \<Rightarrow> string list \<Rightarrow> memory_graph \<Rightarrow> (string \<times> rat) list" where
  "get_neighbors_with_weights ord ids g =
     (if ids = [] then []
      else filter (\<lambda>(n, w). n \<notin> set ids) (map (\<lambda>(s, t, w). (if s \<in> set ids then t else s, w)) (ord (union_rows ids g))))"

type_synonym spread_state = "(string, rat) table \<times> (string, rat) table \<times> string list"

fun visit_rows :: "rat \<Rightarrow> rat \<Rightarrow> (string \<times> rat) list \<Rightarrow> spread_state \<Rightarrow> spread_state" where
  "visit_rows cd least [] st = st"
| "visit_rows cd least ((n, w) # rows) (scores, cur, visited) =
     (if n \<in> set visited then visit_rows cd least rows (scores, cur, visited)
      else if w * cd \<ge> least then
        let s = max (case row_at n scores of None \<Rightarrow> 0 | Some x \<Rightarrow> x) (w * cd)
        in visit_rows cd least rows (dict_set n s scores, dict_set n s cur, n # visited)
      else visit_rows cd least rows (scores, cur, n # visited))"

fun spread_levels :: "(edge_row list \<Rightarrow> edge_row list) \<Rightarrow> memory_graph \<Rightarrow> string \<Rightarrow> rat \<Rightarrow> rat \<Rightarrow> nat \<Rightarrow> rat \<Rightarrow> spread_state \<Rightarrow> (string, rat) table" where
  "spread_levels ord g seed decay least 0 cd (scores, cur, visited) = scores"
| "spread_levels ord g seed decay least (Suc k) cd (scores, cur, visited) =
     (if cd * decay < least then scores
      else case visit_rows (cd * decay) least (get_neighbors_with_weights ord (map fst cur) g) (scores, cur, visited) of
             (scores1, cur1, visited1) \<Rightarrow>
               let cur2 = delete_row seed cur1
               in if cur2 = [] then scores1 else spread_levels ord g seed decay least k (cd * decay) (scores1, cur2, visited1))"

section \<open>The GPU path\<close>

text \<open>Arrays are indexed from 0 to the number of nodes, positions are the row numbers of the table; an
  index out of range raises, and every exception gives the empty result.\<close>

type_synonym gpu_bridge = "(nat \<times> nat \<times> rat) list \<Rightarrow> nat \<Rightarrow> rat list \<Rightarrow> nat \<Rightarrow> rat list option result"

definition uuid_to_idx :: "memory_graph \<Rightarrow> (string, nat) table" where
  "uuid_to_idx g = map (\<lambda>(u, n). (u, mn_rowid n)) (mg_nodes g)"

definition idx_to_uuid :: "memory_graph \<Rightarrow> (nat, string) table" where
  "idx_to_uuid g = map (\<lambda>(u, n). (mn_rowid n, u)) (mg_nodes g)"

definition gpu_adjacency :: "memory_graph \<Rightarrow> (nat \<times> nat \<times> rat) list" where
  "gpu_adjacency g =
     concat (map (\<lambda>e. case (row_at (me_source e) (uuid_to_idx g), row_at (me_target e) (uuid_to_idx g)) of
                        (Some s, Some t) \<Rightarrow> [(s, t, me_weight e)]
                      | _ \<Rightarrow> []) (mg_edges g))"

definition spread_activation_gpu :: "gpu_bridge \<Rightarrow> memory_graph \<Rightarrow> string \<Rightarrow> nat \<Rightarrow> rat \<Rightarrow> (string, rat) table" where
  "spread_activation_gpu gpu g seed steps least =
     (let k = length (mg_nodes g)
      in if k = 0 then []
         else case row_at seed (uuid_to_idx g) of
                None \<Rightarrow> []
              | Some i \<Rightarrow>
                  if i \<ge> k then []
                  else case gpu (gpu_adjacency g) k ((replicate k 0)[i := 1]) steps of
                         Inr (Some res) \<Rightarrow>
                           if length res < k then []
                           else fold (\<lambda>j d. case row_at j (idx_to_uuid g) of
                                              Some u \<Rightarrow> if res ! j \<ge> least \<and> u \<noteq> [] \<and> u \<noteq> seed then dict_set u (res ! j) d else d
                                            | None \<Rightarrow> d) [0..<k] []
                       | _ \<Rightarrow> [])"

definition GPU_ACTIVATION_THRESHOLD :: nat where
  "GPU_ACTIVATION_THRESHOLD = 100"

definition spread_activation ::
  "(edge_row list \<Rightarrow> edge_row list) \<Rightarrow> gpu_bridge option \<Rightarrow> memory_graph \<Rightarrow> string \<Rightarrow> nat \<Rightarrow> rat \<Rightarrow> rat \<Rightarrow> (string, rat) table" where
  "spread_activation ord gpu g seed steps decay least =
     (if seed = [] then []
      else case gpu of
             Some f \<Rightarrow>
               if length (mg_nodes g) \<ge> GPU_ACTIVATION_THRESHOLD then spread_activation_gpu f g seed steps least
               else spread_levels ord g seed decay least steps 1 ([], [(seed, 1)], [seed])
           | None \<Rightarrow> spread_levels ord g seed decay least steps 1 ([], [(seed, 1)], [seed]))"

record activated =
  av_node :: string
  av_score :: rat
  av_content :: string
  av_category :: string
  av_importance :: rat

definition get_top_activated ::
  "(rat \<Rightarrow> rat) \<Rightarrow> (edge_row list \<Rightarrow> edge_row list) \<Rightarrow> gpu_bridge option \<Rightarrow> memory_graph \<Rightarrow> string \<Rightarrow> nat \<Rightarrow> nat \<Rightarrow> rat \<Rightarrow> activated list" where
  "get_top_activated rnd ord gpu g seed top_k steps decay =
     map (\<lambda>(u, s). case memory_node_at u g of
            None \<Rightarrow> \<lparr>av_node = u, av_score = rnd s, av_content = [], av_category = [], av_importance = 0\<rparr>
          | Some n \<Rightarrow> \<lparr>av_node = u, av_score = rnd s, av_content = take 200 (th_content (mn_thought n)),
                      av_category = th_category (mn_thought n), av_importance = th_importance (mn_thought n)\<rparr>)
       (take top_k (sort_key (\<lambda>(u, s). - s) (spread_activation ord gpu g seed steps decay (1 / 100))))"

section \<open>Where a score comes from\<close>

definition neighbours :: "memory_graph \<Rightarrow> string \<Rightarrow> string \<Rightarrow> rat \<Rightarrow> bool" where
  "neighbours g m n w \<longleftrightarrow>
     (\<exists>e\<in>set (mg_edges g). me_weight e = w \<and> (me_source e = m \<and> me_target e = n \<or> me_source e = n \<and> me_target e = m))"

definition level_score :: "memory_graph \<Rightarrow> rat \<Rightarrow> rat \<Rightarrow> nat \<Rightarrow> string set \<Rightarrow> string \<Rightarrow> rat \<Rightarrow> bool" where
  "level_score g decay least deep M n s \<longleftrightarrow>
     least \<le> s \<and> (\<exists>d m w. 1 \<le> d \<and> d \<le> deep \<and> m \<in> M \<and> neighbours g m n w \<and> s = w * decay ^ d)"

lemma union_row: "(s, t, w) \<in> set (union_rows ids g) \<Longrightarrow> s \<in> set ids \<and> neighbours g s t w"
  by (auto simp: union_rows_def neighbours_def)

lemma rows_are_neighbours:
  assumes "set (ord (union_rows ids g)) = set (union_rows ids g)" "(n, w) \<in> set (get_neighbors_with_weights ord ids g)"
  shows "n \<notin> set ids \<and> (\<exists>m\<in>set ids. neighbours g m n w)"
proof -
  from assms(2) obtain s t where r: "(s, t, w) \<in> set (ord (union_rows ids g))" "n = (if s \<in> set ids then t else s)" "n \<notin> set ids"
    by (auto simp: get_neighbors_with_weights_def split: if_splits)
  with assms(1) union_row [of s t w ids g] show ?thesis by auto
qed

definition spread_ok :: "memory_graph \<Rightarrow> string \<Rightarrow> rat \<Rightarrow> rat \<Rightarrow> nat \<Rightarrow> spread_state \<Rightarrow> bool" where
  "spread_ok g seed decay least deep st \<longleftrightarrow>
     (case st of (scores, cur, visited) \<Rightarrow>
        seed \<in> set visited \<and> seed \<notin> fst ` set scores \<and> fst ` set scores \<subseteq> set visited \<and> fst ` set cur \<subseteq> insert seed (fst ` set scores) \<and>
        (\<forall>n s. row_at n scores = Some s \<longrightarrow> level_score g decay least deep (insert seed (fst ` set scores)) n s))"

lemma level_score_mono: "level_score g decay least deep M n s \<Longrightarrow> deep \<le> deep' \<Longrightarrow> M \<subseteq> M' \<Longrightarrow> level_score g decay least deep' M' n s"
  unfolding level_score_def by (metis le_trans subsetD)

lemma level_deeper: "level_score g decay least d M n s \<Longrightarrow> d \<le> d' \<Longrightarrow> level_score g decay least d' M n s"
  by (rule level_score_mono [OF _ _ subset_refl])

lemma spread_ok_deeper: "spread_ok g seed decay least d st \<Longrightarrow> spread_ok g seed decay least (Suc d) st"
  unfolding spread_ok_def using level_deeper [of g decay least d _ _ _ "Suc d"] by (auto split: prod.splits)

lemma visit_rows_ok:
  assumes "spread_ok g seed decay least d (scores, cur, visited)" "0 \<le> least" "1 \<le> d" "cd = decay ^ d"
    "\<forall>(n, w)\<in>set rows. \<exists>m\<in>insert seed (fst ` set scores). neighbours g m n w"
  shows "spread_ok g seed decay least d (visit_rows cd least rows (scores, cur, visited))"
  using assms
proof (induction rows arbitrary: scores cur visited)
  case (Cons r rows)
  obtain n w where r: "r = (n, w)" by (cases r)
  consider (old) "n \<in> set visited" | (weak) "n \<notin> set visited" "\<not> w * cd \<ge> least" | (new) "n \<notin> set visited" "w * cd \<ge> least" by blast
  then show ?case
  proof cases
    case old
    then show ?thesis using Cons.IH [OF Cons.prems(1-4)] Cons.prems(5) r by simp
  next
    case weak
    have "spread_ok g seed decay least d (scores, cur, n # visited)" using Cons.prems(1) by (auto simp: spread_ok_def)
    from Cons.IH [OF this Cons.prems(2-4)] show ?thesis using Cons.prems(5) weak r by simp
  next
    case new
    have ns: "n \<noteq> seed" "n \<notin> fst ` set scores" using new(1) Cons.prems(1) by (auto simp: spread_ok_def)
    then have none: "row_at n scores = None" using row_at_keys [of n scores] by simp
    let ?s = "w * cd" and ?sc = "dict_set n (w * cd) scores"
    have keys: "fst ` set ?sc = insert n (fst ` set scores)" "fst ` set (dict_set n ?s cur) = insert n (fst ` set cur)" by (simp_all add: dict_set_keys)
    from Cons.prems(5) r obtain m where m: "m \<in> insert seed (fst ` set scores)" "neighbours g m n w" by auto
    have "level_score g decay least d (insert seed (fst ` set ?sc)) n ?s"
      unfolding level_score_def keys using new(2) Cons.prems(3,4) m by blast
    moreover have "level_score g decay least d (insert seed (fst ` set ?sc)) k s" if "row_at k scores = Some s" for k s
    proof (rule level_score_mono)
      show "level_score g decay least d (insert seed (fst ` set scores)) k s" using Cons.prems(1) that by (simp add: spread_ok_def)
    qed (auto simp: keys)
    moreover have "row_at k ?sc = (if k = n then Some ?s else row_at k scores)" for k by (simp add: dict.get_put)
    ultimately have "spread_ok g seed decay least d (?sc, dict_set n ?s cur, n # visited)"
      using Cons.prems(1) ns unfolding spread_ok_def prod.case keys by (auto split: if_splits)
    from Cons.IH [OF this Cons.prems(2-4)] have "spread_ok g seed decay least d (visit_rows cd least rows (?sc, dict_set n ?s cur, n # visited))"
      using Cons.prems(5) by (fastforce simp: keys)
    moreover have "max 0 (w * cd) = w * cd" using new(2) Cons.prems(2) by simp
    ultimately show ?thesis using new r none by simp
  qed
qed simp


lemma spread_levels_ok:
  assumes "spread_ok g seed decay least d (scores, cur, visited)" "0 \<le> least" "\<And>ids. set (ord (union_rows ids g)) = set (union_rows ids g)"
    "spread_levels ord g seed decay least k (decay ^ d) (scores, cur, visited) = sc"
  shows "seed \<notin> fst ` set sc \<and> (\<forall>n s. row_at n sc = Some s \<longrightarrow> level_score g decay least (d + k) (insert seed (fst ` set sc)) n s)"
  using assms(1,4)
proof (induction k arbitrary: d scores cur visited)
  case (Suc k)
  have power: "decay ^ d * decay = decay ^ Suc d" by simp
  show ?case
  proof (cases "decay ^ d * decay < least")
    case True
    then have "sc = scores" using Suc.prems(2) by simp
    moreover from Suc.prems(1) have "seed \<notin> fst ` set scores"
      "row_at n scores = Some s \<Longrightarrow> level_score g decay least (d + Suc k) (insert seed (fst ` set scores)) n s" for n s
      by (auto simp: spread_ok_def intro: level_deeper [of g decay least d])
    ultimately show ?thesis by blast
  next
    case False
    define rows where "rows = get_neighbors_with_weights ord (map fst cur) g"
    obtain scores1 cur1 visited1 where v: "visit_rows (decay ^ d * decay) least rows (scores, cur, visited) = (scores1, cur1, visited1)"
      by (metis surj_pair)
    have "\<exists>m\<in>insert seed (fst ` set scores). neighbours g m n w" if "(n, w) \<in> set rows" for n w
    proof -
      have "\<exists>m\<in>fst ` set cur. neighbours g m n w"
        using rows_are_neighbours [of ord "map fst cur" g n w] assms(3) that by (auto simp: rows_def)
      moreover have "fst ` set cur \<subseteq> insert seed (fst ` set scores)" using Suc.prems(1) by (simp add: spread_ok_def)
      ultimately show ?thesis by blast
    qed
    moreover have "spread_ok g seed decay least (Suc d) (scores, cur, visited)"
      using Suc.prems(1) by (rule spread_ok_deeper)
    ultimately have s1: "spread_ok g seed decay least (Suc d) (scores1, cur1, visited1)"
      using visit_rows_ok [of g seed decay least "Suc d" scores cur visited "decay ^ d * decay" rows] assms(2) v power by auto
    let ?cur2 = "delete_row seed cur1"
    have s2: "spread_ok g seed decay least (Suc d) (scores1, ?cur2, visited1)"
      using s1 by (auto simp: spread_ok_def delete_row_def)
    show ?thesis
    proof (cases "?cur2 = []")
      case True
      with Suc.prems(2) False v [unfolded rows_def] have "sc = scores1" by simp
      moreover from s1 have "seed \<notin> fst ` set scores1"
        "row_at n scores1 = Some s \<Longrightarrow> level_score g decay least (d + Suc k) (insert seed (fst ` set scores1)) n s" for n s
        by (auto simp: spread_ok_def intro: level_deeper [of g decay least "Suc d"])
      ultimately show ?thesis by blast
    next
      case nonempty: False
      have "spread_levels ord g seed decay least k (decay ^ Suc d) (scores1, ?cur2, visited1) = sc"
        using Suc.prems(2) False v [unfolded rows_def] nonempty unfolding power [symmetric] by simp
      from Suc.IH [OF s2 this] show ?thesis by simp
    qed
  qed
qed (auto simp: spread_ok_def)

lemma spread_start: "spread_ok g seed decay least 0 ([], [(seed, 1)], [seed])"
  by (simp add: spread_ok_def row_at_def)

text \<open>C24: Every score is explained by the graph.  A node in the result of the walk is not the seed, has at
  least the minimal score, and its score is the weight of an edge to the seed or to another node of the
  result times the decay for a level between one and the number of steps.\<close>

theorem activation_is_explained:
  assumes "\<And>ids. set (ord (union_rows ids g)) = set (union_rows ids g)" "0 \<le> least"
    "row_at n (spread_activation ord None g seed steps decay least) = Some s"
  shows "n \<noteq> seed \<and> level_score g decay least steps (insert seed (fst ` set (spread_activation ord None g seed steps decay least))) n s"
proof -
  have e: "spread_activation ord None g seed steps decay least =
      (if seed = [] then [] else spread_levels ord g seed decay least steps (decay ^ 0) ([], [(seed, 1)], [seed]))"
    by (simp add: spread_activation_def)
  with assms(3) have "seed \<noteq> []" by (auto simp: row_at_def)
  with e have "spread_levels ord g seed decay least steps (decay ^ 0) ([], [(seed, 1)], [seed]) = spread_activation ord None g seed steps decay least"
    by simp
  from spread_levels_ok [OF spread_start assms(2,1) this] assms(3) row_at_keys [of n "spread_activation ord None g seed steps decay least"]
  show ?thesis by auto
qed

text \<open>With weights up to \<open>W\<close> and a decay in the unit interval no score exceeds \<open>W\<close> times the decay.\<close>

lemma activation_bounded:
  assumes "level_score g decay least steps M n s" "0 \<le> decay" "decay \<le> 1" "\<And>e. e \<in> set (mg_edges g) \<Longrightarrow> 0 \<le> me_weight e \<and> me_weight e \<le> W"
  shows "s \<le> W * decay"
proof -
  from assms(1) obtain d m w where d: "1 \<le> d" "neighbours g m n w" "s = w * decay ^ d" by (auto simp: level_score_def)
  from d(2) assms(4) have w: "0 \<le> w" "w \<le> W" by (auto simp: neighbours_def)
  have "decay ^ d \<le> decay ^ 1" using d(1) assms(2,3) by (intro power_decreasing) simp_all
  with w assms(2) show ?thesis unfolding d(3) by (intro mult_mono) simp_all
qed

section \<open>Which nodes are found\<close>

lemma visit_cases:
  assumes "visit_rows cd least ((m, v) # rows) (scores, cur, visited) = st"
  obtains (same) "m \<in> set visited" "visit_rows cd least rows (scores, cur, visited) = st"
  | (weak) "m \<notin> set visited" "visit_rows cd least rows (scores, cur, m # visited) = st"
  | (more) s where "m \<notin> set visited" "visit_rows cd least rows (dict_set m s scores, dict_set m s cur, m # visited) = st"
  using assms by (auto split: if_splits)

lemma visit_keeps:
  "n \<in> set visited \<Longrightarrow> visit_rows cd least rows (scores, cur, visited) = (scores1, cur1, visited1) \<Longrightarrow>
   row_at n scores1 = row_at n scores \<and> n \<in> set visited1"
proof (induction rows arbitrary: scores cur visited)
  case (Cons r rows)
  obtain m v where r: "r = (m, v)" by (cases r)
  from Cons.prems(2) [unfolded r] show ?case
  proof (cases rule: visit_cases)
    case same
    from Cons.IH [OF Cons.prems(1) same(2)] show ?thesis .
  next
    case weak
    from Cons.IH [OF _ weak(2)] Cons.prems(1) show ?thesis by simp
  next
    case (more s)
    from Cons.IH [OF _ more(2)] Cons.prems(1) more(1) show ?thesis by (auto simp: dict.get_put)
  qed
qed simp

lemma spread_keeps:
  "n \<in> set visited \<Longrightarrow> row_at n (spread_levels ord g seed decay least k cd (scores, cur, visited)) = row_at n scores"
proof (induction k arbitrary: cd scores cur visited)
  case (Suc k)
  obtain scores1 cur1 visited1 where v: "visit_rows (cd * decay) least (get_neighbors_with_weights ord (map fst cur) g) (scores, cur, visited) = (scores1, cur1, visited1)"
    by (metis surj_pair)
  from visit_keeps [OF Suc.prems v] Suc.IH [of visited1] v show ?case by simp
qed simp

lemma visit_finds:
  assumes "n \<notin> set visited" "row_at n scores = None" "(n, w) \<in> set rows" "\<forall>w. (n, w) \<in> set rows \<longrightarrow> least \<le> w * cd" "0 \<le> least"
    "visit_rows cd least rows (scores, cur, visited) = (scores1, cur1, visited1)"
  shows "n \<in> set visited1 \<and> (\<exists>w. (n, w) \<in> set rows \<and> row_at n scores1 = Some (w * cd))"
  using assms
proof (induction rows arbitrary: scores cur visited)
  case (Cons r rows)
  obtain m v where r: "r = (m, v)" by (cases r)
  show ?case
  proof (cases "m = n")
    case True
    have pos: "least \<le> v * cd" using Cons.prems(4) r True by simp
    then have "max 0 (v * cd) = v * cd" using Cons.prems(5) by simp
    with Cons.prems r True pos have "visit_rows cd least rows (dict_set n (v * cd) scores, dict_set n (v * cd) cur, n # visited) = (scores1, cur1, visited1)"
      by simp
    from visit_keeps [OF _ this, of n] r True show ?thesis by (auto simp: dict.get_put)
  next
    case False
    then have "(n, w) \<in> set rows" "\<forall>w. (n, w) \<in> set rows \<longrightarrow> least \<le> w * cd" using Cons.prems(3,4) r by auto
    note IH = Cons.IH [OF _ _ this Cons.prems(5)]
    from Cons.prems(6) [unfolded r] have "n \<in> set visited1 \<and> (\<exists>w. (n, w) \<in> set rows \<and> row_at n scores1 = Some (w * cd))"
    proof (cases rule: visit_cases)
      case same
      from IH [OF Cons.prems(1,2) same(2)] show ?thesis .
    next
      case weak
      from IH [OF _ Cons.prems(2) weak(2)] Cons.prems(1) False show ?thesis by simp
    next
      case (more s)
      from IH [OF _ _ more(2)] Cons.prems(1,2) False show ?thesis by (simp add: dict.get_put)
    qed
    then show ?thesis by auto
  qed
qed simp



lemma neighbour_row:
  assumes "neighbours g m n w" "n \<noteq> m" "set (ord (union_rows [m] g)) = set (union_rows [m] g)"
  shows "(n, w) \<in> set (get_neighbors_with_weights ord [m] g)"
proof -
  obtain e where e: "e \<in> set (mg_edges g)" "me_weight e = w" "me_source e = m \<and> me_target e = n \<or> me_source e = n \<and> me_target e = m"
    using assms(1) by (auto simp: neighbours_def)
  then have "(m, n, w) \<in> set (union_rows [m] g)" by (auto simp: union_rows_def image_iff)
  then have "(m, n, w) \<in> set (ord (union_rows [m] g))" by (simp only: assms(3))
  then have "(n, w) \<in> set (map (\<lambda>(s, t, w). (if s \<in> set [m] then t else s, w)) (ord (union_rows [m] g)))"
    by (auto intro!: rev_image_eqI)
  then show ?thesis using assms(2) by (simp add: get_neighbors_with_weights_def)
qed

text \<open>Direct neighbours are found.  With at least one step and a decay of at least the minimal score, a
  neighbour of the seed all of whose edges to it are strong enough is in the result, with the score of one
  of these edges.\<close>

theorem direct_neighbours_are_found:
  assumes "\<And>ids. set (ord (union_rows ids g)) = set (union_rows ids g)" "0 \<le> least" "seed \<noteq> []" "0 < steps" "least \<le> decay"
    "neighbours g seed n w" "n \<noteq> seed" "\<And>w. neighbours g seed n w \<Longrightarrow> least \<le> w * decay"
  shows "\<exists>w. neighbours g seed n w \<and> row_at n (spread_activation ord None g seed steps decay least) = Some (w * decay)"
proof -
  obtain k where k: "steps = Suc k" using assms(4) by (cases steps) auto
  define rows where "rows = get_neighbors_with_weights ord [seed] g"
  have rows: "(m, v) \<in> set rows \<Longrightarrow> neighbours g seed m v" for m v
    using rows_are_neighbours [of ord "[seed]" g m v] assms(1) by (simp add: rows_def)
  obtain scores cur visited where v: "visit_rows decay least rows ([], [(seed, 1)], [seed]) = (scores, cur, visited)" by (metis surj_pair)
  have row: "(n, w) \<in> set rows" unfolding rows_def using assms(6,7) by (rule neighbour_row) (rule assms(1))
  have "n \<in> set visited \<and> (\<exists>w. (n, w) \<in> set rows \<and> row_at n scores = Some (w * decay))"
  proof (rule visit_finds [OF _ _ row _ assms(2) v])
    show "n \<notin> set [seed]" "row_at n [] = None" using assms(7) by (simp_all add: row_at_def)
    show "\<forall>w. (n, w) \<in> set rows \<longrightarrow> least \<le> w * decay" using rows assms(8) by blast
  qed
  then obtain u where u: "n \<in> set visited" "neighbours g seed n u" "row_at n scores = Some (u * decay)" using rows by blast
  have "row_at n (spread_activation ord None g seed steps decay least) = row_at n scores"
    using assms(3,5) k v u(1) by (simp add: spread_activation_def rows_def spread_keeps)
  with u show ?thesis by auto
qed

definition pair_graph :: memory_graph where
  "pair_graph = empty_graph\<lparr>mg_edges := [\<lparr>me_source = ''s'', me_target = ''x'', me_relation = MIGHT_GO_TOGETHER, me_weight = 1, me_created = 0\<rparr>]\<rparr>"

lemma pair_spread: "spread_activation id None pair_graph ''s'' 3 (1 / 2) (1 / 100) = [(''x'', 1 / 2)]"
  by (simp add: pair_graph_def spread_activation_def get_neighbors_with_weights_def union_rows_def row_at_def dict_set_def delete_row_def numeral_3_eq_3)

theorem activation_is_explained_witness: "level_score pair_graph (1 / 2) (1 / 100) 3 {''s'', ''x''} ''x'' (1 / 2)"
  using activation_is_explained [of id pair_graph "1 / 100" "''x''" "''s''" 3 "1 / 2" "1 / 2"] by (simp add: pair_spread row_at_def)

theorem direct_neighbours_are_found_witness: "\<exists>w. row_at ''x'' (spread_activation id None pair_graph ''s'' 3 (1 / 2) (1 / 100)) = Some (w / 2)"
  using direct_neighbours_are_found [of id pair_graph "1 / 100" "''s''" 3 "1 / 2" "''x''" 1]
  by (auto simp: pair_graph_def neighbours_def)

section \<open>Two edges, and the bridge\<close>

text \<open>Of two edges between the same nodes the first row counts, not the stronger edge.\<close>

lemma first_edge_counts:
  "let g = empty_graph\<lparr>mg_edges := [\<lparr>me_source = ''s'', me_target = ''x'', me_relation = ''A'', me_weight = 1 / 5, me_created = 0\<rparr>,
             \<lparr>me_source = ''s'', me_target = ''x'', me_relation = ''B'', me_weight = 1, me_created = 0\<rparr>]\<rparr>
   in spread_activation id None g ''s'' 1 (1 / 2) (1 / 100) = [(''x'', 1 / 10)]"
  by (simp add: spread_activation_def get_neighbors_with_weights_def union_rows_def row_at_def dict_set_def delete_row_def)

lemma row_at_idx: "row_at u (uuid_to_idx g) = map_option mn_rowid (row_at u (mg_nodes g))"
proof -
  have "row_at u (map (\<lambda>(u, n). (u, mn_rowid n)) t) = map_option mn_rowid (row_at u t)" for t
    by (induction t) (auto simp: row_at_def)
  then show ?thesis by (simp add: uuid_to_idx_def)
qed

lemma rowids_reach:
  "distinct (0 # xs) \<Longrightarrow> length xs \<le> foldr max xs (0 :: nat)"
proof -
  assume d: "distinct (0 # xs)"
  have "set xs \<subseteq> {1..foldr max xs 0}"
  proof
    fix x assume x: "x \<in> set xs"
    moreover from x have "x \<le> foldr max xs 0" by (induction xs) (auto simp: le_max_iff_disj)
    moreover have "0 < x" using x d by (metis distinct.simps(2) gr0I)
    ultimately show "x \<in> {1..foldr max xs 0}" by simp
  qed
  from card_mono [OF _ this] d show ?thesis by (simp add: distinct_card)
qed

text \<open>The bridge gives nothing for the newest node.  Row numbers start at one, the vector of seeds at
  zero: in a graph of a hundred nodes or more a walk from the node with the largest row number is empty,
  whatever the bridge computes, and it is not repeated without the bridge.\<close>

theorem bridge_fails_for_newest:
  assumes "graph_ok g" "GPU_ACTIVATION_THRESHOLD \<le> length (mg_nodes g)" "row_at seed (mg_nodes g) = Some n"
    "\<forall>(u, m)\<in>set (mg_nodes g). mn_rowid m \<le> mn_rowid n"
  shows "spread_activation ord (Some gpu) g seed steps decay least = []"
proof -
  let ?ids = "map (\<lambda>(u, m). mn_rowid m) (mg_nodes g)"
  have "foldr max (map (\<lambda>(u, m). mn_rowid m) t) 0 \<le> k" if "\<forall>(u, m)\<in>set t. mn_rowid m \<le> k" for t :: "(string, memory_node) table" and k
    using that by (induction t) auto
  from this [OF assms(4)] have "foldr max ?ids 0 \<le> mn_rowid n" .
  moreover have "length ?ids \<le> foldr max ?ids 0" using assms(1) by (intro rowids_reach) (simp add: graph_ok_def)
  ultimately have "length (mg_nodes g) \<le> mn_rowid n" by simp
  then show ?thesis using assms(2,3) by (simp add: spread_activation_def spread_activation_gpu_def row_at_idx)
qed


definition big_graph :: "nat \<Rightarrow> memory_graph" where
  "big_graph k = empty_graph\<lparr>mg_nodes := map (\<lambda>i. (replicate i (CHR ''a''), \<lparr>mn_rowid = i, mn_thought = plain_thought 1, mn_access = 0, mn_version = 1,
     mn_activation = 0, mn_rank = 0, mn_created = 0, mn_modified = 0\<rparr>)) [1..<Suc k], mg_node_count := k\<rparr>"

lemma big_graph_ok: "graph_ok (big_graph k)"
  by (auto simp: graph_ok_def big_graph_def empty_graph_def keys_unique_def distinct_map inj_on_def comp_def dest: arg_cong [where f = length])

theorem bridge_fails_for_newest_witness: "spread_activation id (Some (\<lambda>a k v s. Inr (Some v))) (big_graph 100) (replicate 100 (CHR ''a'')) 3 (1 / 2) (1 / 100) = []"
proof -
  let ?n = "\<lparr>mn_rowid = 100, mn_thought = plain_thought 1, mn_access = 0, mn_version = 1, mn_activation = 0, mn_rank = 0, mn_created = 0, mn_modified = 0\<rparr>"
  have "(replicate 100 (CHR ''a''), ?n) \<in> set (mg_nodes (big_graph 100))" by (simp add: big_graph_def)
  moreover have "distinct (map fst (mg_nodes (big_graph 100)))" using big_graph_ok [of 100] by (simp add: graph_ok_def keys_unique_def)
  ultimately have "row_at (replicate 100 (CHR ''a'')) (mg_nodes (big_graph 100)) = Some ?n" unfolding row_at_def by (rule map_of_is_SomeI [rotated])
  from bridge_fails_for_newest [OF big_graph_ok _ this] show ?thesis
    by (simp add: big_graph_def GPU_ACTIVATION_THRESHOLD_def)
qed

end
