(* ===== verification/MemoryRetriever.thy ===== *)
theory MemoryRetriever
  imports MemorySpread "HOL-Library.Multiset"
begin

text \<open>
  Hybrid retrieval, \<open>fastmcp_server/tools/thread_retriever.py\<close>: lexical search, activation and vector
  similarity, fused by weighted reciprocal ranks.  The square root and the GPU bridge are arguments.
\<close>

section \<open>The signals\<close>

record retriever_env =
  re_dumps :: "string list \<Rightarrow> string"
  re_order :: "edge_row list \<Rightarrow> edge_row list"
  re_spread_gpu :: "gpu_bridge option"
  re_sqrt :: "rat \<Rightarrow> rat"
  re_vector_gpu :: "(rat list \<Rightarrow> rat list list \<Rightarrow> nat \<Rightarrow> (nat \<times> rat) list result) option"

definition lexical_search :: "retriever_env \<Rightarrow> string \<Rightarrow> nat \<Rightarrow> memory_graph \<Rightarrow> string list" where
  "lexical_search env query limit g = (if query = [] then [] else map fst (search_nodes (re_dumps env) query limit g))"

definition activation_search :: "retriever_env \<Rightarrow> string \<Rightarrow> nat \<Rightarrow> memory_graph \<Rightarrow> string list" where
  "activation_search env query limit g =
     (if query = [] then []
      else case search_nodes (re_dumps env) query 1 g of
             [] \<Rightarrow> []
           | (seed, n) # _ \<Rightarrow>
               map fst (take limit (sort_key (\<lambda>(u, s). - s) (spread_activation (re_order env) (re_spread_gpu env) g seed 3 (1 / 2) (1 / 100)))))"

definition GPU_VECTOR_THRESHOLD :: nat where
  "GPU_VECTOR_THRESHOLD = 50"

definition CPU_VECTOR_MAX :: nat where
  "CPU_VECTOR_MAX = 500"

definition dot :: "rat list \<Rightarrow> rat list \<Rightarrow> rat" where
  "dot a b = sum_list (map (\<lambda>(x, y). x * y) (zip a b))"

definition cosine_similarity :: "(rat \<Rightarrow> rat) \<Rightarrow> rat list \<Rightarrow> rat list \<Rightarrow> rat" where
  "cosine_similarity sqrt_of a b =
     (if a = [] \<or> b = [] \<or> length a \<noteq> length b then 0
      else let na = sqrt_of (dot a a); nb = sqrt_of (dot b b) in if na = 0 \<or> nb = 0 then 0 else dot a b / (na * nb))"

definition embedded_nodes :: "memory_graph \<Rightarrow> (string \<times> rat list) list" where
  "embedded_nodes g = concat (map (\<lambda>(u, n). case th_embedding (mn_thought n) of None \<Rightarrow> [] | Some v \<Rightarrow> [(u, v)]) (mg_nodes g))"

definition vector_search_gpu :: "(rat list \<Rightarrow> rat list list \<Rightarrow> nat \<Rightarrow> (nat \<times> rat) list result) \<Rightarrow> rat list \<Rightarrow> (string \<times> rat list) list \<Rightarrow> nat \<Rightarrow> string list result" where
  "vector_search_gpu gpu q rows limit =
     (let fit = filter (\<lambda>(u, v). length v = length q) rows
      in if fit = [] then Inr []
         else bind_result (gpu q (map snd fit) limit)
                (map_result (\<lambda>(i, s). if i < length fit then Inr (fst (fit ! i)) else Inl IndexError) \<circ> take limit))"

definition vector_search_cpu :: "(rat \<Rightarrow> rat) \<Rightarrow> rat list \<Rightarrow> (string \<times> rat list) list \<Rightarrow> nat \<Rightarrow> string list" where
  "vector_search_cpu sqrt_of q rows limit =
     map fst (take limit (sort_key (\<lambda>(u, s). - s)
       (map (\<lambda>(u, v). (u, cosine_similarity sqrt_of q v)) (filter (\<lambda>(u, v). length v = length q) (take CPU_VECTOR_MAX rows)))))"

definition vector_search :: "retriever_env \<Rightarrow> rat list option \<Rightarrow> nat \<Rightarrow> memory_graph \<Rightarrow> string list" where
  "vector_search env embedding limit g =
     (case embedding of
        None \<Rightarrow> []
      | Some q \<Rightarrow>
          let rows = embedded_nodes g
          in case re_vector_gpu env of
               Some gpu \<Rightarrow>
                 if length rows \<ge> GPU_VECTOR_THRESHOLD then
                   (case vector_search_gpu gpu q rows limit of Inr us \<Rightarrow> us | Inl e \<Rightarrow> vector_search_cpu (re_sqrt env) q rows limit)
                 else vector_search_cpu (re_sqrt env) q rows limit
             | None \<Rightarrow> vector_search_cpu (re_sqrt env) q rows limit)"

section \<open>Weights and fusion\<close>

record signal_weights =
  sw_lexical :: rat
  sw_activation :: rat
  sw_vector :: rat

definition resolve_weights :: "(rat option \<times> rat option \<times> rat option) option \<Rightarrow> signal_weights" where
  "resolve_weights given =
     (case given of
        None \<Rightarrow> \<lparr>sw_lexical = 5 / 10, sw_activation = 3 / 10, sw_vector = 2 / 10\<rparr>
      | Some (l, a, v) \<Rightarrow>
          let l' = (case l of None \<Rightarrow> 5 / 10 | Some x \<Rightarrow> x); a' = (case a of None \<Rightarrow> 3 / 10 | Some x \<Rightarrow> x); v' = (case v of None \<Rightarrow> 2 / 10 | Some x \<Rightarrow> x);
              total = l' + a' + v'
          in if total > 0 then \<lparr>sw_lexical = l' / total, sw_activation = a' / total, sw_vector = v' / total\<rparr>
             else \<lparr>sw_lexical = l', sw_activation = a', sw_vector = v'\<rparr>)"

definition RRF_K :: nat where
  "RRF_K = 60"

fun add_ranks :: "rat \<Rightarrow> nat \<Rightarrow> string list \<Rightarrow> (string, rat) table \<Rightarrow> (string, rat) table" where
  "add_ranks w rank [] all = all"
| "add_ranks w rank (u # us) all =
     add_ranks w (rank + 1) us (dict_set u ((case row_at u all of None \<Rightarrow> 0 | Some x \<Rightarrow> x) + w / of_nat (RRF_K + rank + 1)) all)"

definition add_signal :: "string list \<Rightarrow> rat \<Rightarrow> (string, rat) table \<Rightarrow> (string, rat) table" where
  "add_signal us w all = (if w \<le> 0 \<or> us = [] then all else add_ranks w 0 us all)"

definition rrf_fuse :: "string list \<Rightarrow> string list \<Rightarrow> string list \<Rightarrow> signal_weights \<Rightarrow> nat \<Rightarrow> (string \<times> rat) list" where
  "rrf_fuse lx ac vc w top_k =
     take top_k (sort_key (\<lambda>(u, s). - s) (add_signal vc (sw_vector w) (add_signal ac (sw_activation w) (add_signal lx (sw_lexical w) []))))"

record retrieved =
  rt_node :: string
  rt_thought :: thought
  rt_created :: rat
  rt_score :: rat
  rt_signals :: "signal_weights option"

definition enrich_results :: "(rat \<Rightarrow> rat) \<Rightarrow> (string \<times> rat) list \<Rightarrow> bool \<Rightarrow> signal_weights \<Rightarrow> memory_graph \<Rightarrow> retrieved list" where
  "enrich_results rnd fused details w g =
     concat (map (\<lambda>(u, s). case memory_node_at u g of
                    None \<Rightarrow> []
                  | Some n \<Rightarrow> [\<lparr>rt_node = u, rt_thought = mn_thought n, rt_created = mn_created n, rt_score = rnd s, rt_signals = (if details then Some w else None)\<rparr>]) fused)"

definition retrieve ::
  "retriever_env \<Rightarrow> (rat \<Rightarrow> rat) \<Rightarrow> string \<Rightarrow> rat list option \<Rightarrow> nat \<Rightarrow> (rat option \<times> rat option \<times> rat option) option \<Rightarrow> bool \<Rightarrow> memory_graph \<Rightarrow> retrieved list" where
  "retrieve env rnd query embedding top_k weights details g =
     (let w = resolve_weights weights;
          fused = rrf_fuse (lexical_search env query (top_k * 3) g) (activation_search env query (top_k * 3) g) (vector_search env embedding (top_k * 3) g) w top_k
      in enrich_results rnd fused details w g)"

section \<open>What the fusion computes\<close>

text \<open>The weighted sum of reciprocal ranks over the signals of positive weight.\<close>

fun reciprocal :: "nat \<Rightarrow> string list \<Rightarrow> string \<Rightarrow> rat" where
  "reciprocal rank [] u = 0"
| "reciprocal rank (v # us) u = (if v = u then 1 / of_nat (60 + rank + 1) else 0) + reciprocal (rank + 1) us u"

definition rrf_score :: "(string list \<times> rat) list \<Rightarrow> string \<Rightarrow> rat" where
  "rrf_score signals u = sum_list (map (\<lambda>(us, w). if w > 0 then w * reciprocal 0 us u else 0) signals)"

lemma reciprocal_nonneg: "0 \<le> reciprocal r us u"
  by (induction r us u rule: reciprocal.induct) auto

lemma reciprocal_pos: "u \<in> set us \<Longrightarrow> 0 < reciprocal r us u"
  by (induction r us u rule: reciprocal.induct) (auto intro: add_pos_nonneg add_nonneg_pos reciprocal_nonneg)

lemma reciprocal_absent: "u \<notin> set us \<Longrightarrow> reciprocal r us u = 0"
  by (induction r us u rule: reciprocal.induct) auto

definition value_of :: "string \<Rightarrow> (string, rat) table \<Rightarrow> rat" where
  "value_of u t = (case row_at u t of None \<Rightarrow> 0 | Some x \<Rightarrow> x)"

lemma add_ranks_value:
  "value_of u (add_ranks w r us t) = value_of u t + w * reciprocal r us u \<and> fst ` set (add_ranks w r us t) = set us \<union> fst ` set t \<and>
   (keys_unique t \<longrightarrow> keys_unique (add_ranks w r us t))"
proof (induction us arbitrary: r t)
  case (Cons v us)
  let ?t = "dict_set v (value_of v t + w / of_nat (RRF_K + r + 1)) t"
  have "value_of u ?t = value_of u t + (if v = u then w / of_nat (60 + r + 1) else 0)"
    by (simp add: value_of_def dict.get_put RRF_K_def)
  moreover have "fst ` set ?t = insert v (fst ` set t)" "keys_unique t \<longrightarrow> keys_unique ?t" by (simp_all add: dict_set_keys dict_set_unique)
  ultimately show ?case using Cons.IH [of "r + 1" ?t] by (auto simp: value_of_def [symmetric] algebra_simps)
qed simp

lemma add_signal_value:
  "value_of u (add_signal us w t) = value_of u t + (if w > 0 then w * reciprocal 0 us u else 0) \<and>
   fst ` set (add_signal us w t) = (if w > 0 then set us else {}) \<union> fst ` set t \<and> (keys_unique t \<longrightarrow> keys_unique (add_signal us w t))"
  using add_ranks_value [of u w 0 us t] by (auto simp: add_signal_def)


lemma taken_before_dropped: "sorted (map f xs) \<Longrightarrow> x \<in> set (take k xs) \<Longrightarrow> y \<in> set (drop k xs) \<Longrightarrow> f x \<le> f y"
proof -
  assume s: "sorted (map f xs)" and x: "x \<in> set (take k xs)" and y: "y \<in> set (drop k xs)"
  from s have "sorted (map f (take k xs) @ map f (drop k xs))" by (metis append_take_drop_id map_append)
  with x y show ?thesis by (auto simp: sorted_append)
qed

abbreviation fused_score :: "string list \<Rightarrow> string list \<Rightarrow> string list \<Rightarrow> signal_weights \<Rightarrow> string \<Rightarrow> rat" where
  "fused_score lx ac vc w \<equiv> rrf_score [(lx, sw_lexical w), (ac, sw_activation w), (vc, sw_vector w)]"

definition fusion_table :: "string list \<Rightarrow> string list \<Rightarrow> string list \<Rightarrow> signal_weights \<Rightarrow> (string, rat) table" where
  "fusion_table lx ac vc w = add_signal vc (sw_vector w) (add_signal ac (sw_activation w) (add_signal lx (sw_lexical w) []))"

lemma fusion_table_ok:
  "keys_unique (fusion_table lx ac vc w)" "value_of u (fusion_table lx ac vc w) = fused_score lx ac vc w u"
  "fst ` set (fusion_table lx ac vc w) = (if sw_lexical w > 0 then set lx else {}) \<union> (if sw_activation w > 0 then set ac else {}) \<union> (if sw_vector w > 0 then set vc else {})"
  using add_signal_value [of u lx "sw_lexical w" "[]"] add_signal_value [of u ac "sw_activation w" "add_signal lx (sw_lexical w) []"]
    add_signal_value [of u vc "sw_vector w" "add_signal ac (sw_activation w) (add_signal lx (sw_lexical w) [])"]
  by (auto simp: fusion_table_def rrf_score_def keys_unique_def value_of_def row_at_def)

lemma fusion_row: "(u, s) \<in> set (fusion_table lx ac vc w) \<Longrightarrow> s = fused_score lx ac vc w u"
  using fusion_table_ok(1) [of lx ac vc w] fusion_table_ok(2) [of u lx ac vc w] by (simp add: keys_unique_def value_of_def row_at_def)

lemma score_positive: "u \<in> fst ` set (fusion_table lx ac vc w) \<longleftrightarrow> 0 < fused_score lx ac vc w u"
proof -
  have part: "0 < (if 0 < v then v * reciprocal 0 us u else 0) \<longleftrightarrow> 0 < v \<and> u \<in> set us" "0 \<le> (if 0 < v then v * reciprocal 0 us u else 0)" for v us
    by (cases "u \<in> set us"; simp add: reciprocal_pos reciprocal_absent reciprocal_nonneg)+
  have sum: "0 < a + (b + c) \<longleftrightarrow> 0 < a \<or> 0 < b \<or> 0 < c" if "0 \<le> a" "0 \<le> b" "0 \<le> c" for a b c :: rat
    using that by auto
  show ?thesis unfolding fusion_table_ok rrf_score_def list.map prod.case sum_list.Cons sum_list.Nil add_0_right
    using sum [OF part(2) part(2) part(2)] by (auto simp: part(1))
qed

text \<open>C25: Fusion returns the best.  The fused list has distinct nodes in descending order, each with its
  weighted sum of reciprocal ranks, a positive number; a node that is left out has the sum zero, or the
  list is full and no entry has less than it.\<close>

theorem fusion_returns_the_best:
  "let fused = rrf_fuse lx ac vc w top_k; score = fused_score lx ac vc w
   in distinct (map fst fused) \<and> sorted_wrt (\<lambda>x y. snd y \<le> snd x) fused \<and>
      (\<forall>(u, s)\<in>set fused. s = score u \<and> 0 < s) \<and>
      (\<forall>u. u \<notin> fst ` set fused \<longrightarrow> score u = 0 \<or> length fused = top_k \<and> (\<forall>(v, s)\<in>set fused. score u \<le> s))"
proof -
  let ?T = "fusion_table lx ac vc w" and ?score = "fused_score lx ac vc w"
  define L where "L = sort_key (\<lambda>(u, s). - s) ?T"
  have f: "rrf_fuse lx ac vc w top_k = take top_k L" by (simp add: rrf_fuse_def L_def fusion_table_def)
  have set: "set L = set ?T" by (simp add: L_def)
  have srt: "sorted (map (\<lambda>(u, s). - s) L)" unfolding L_def by (rule sorted_sort_key)
  have "distinct (map fst L)"
    using fusion_table_ok(1) [of lx ac vc w] mset_eq_imp_distinct_iff [of "map fst L" "map fst ?T"] by (simp add: keys_unique_def L_def)
  then have "distinct (map fst (take top_k L))" by (simp add: take_map [symmetric])
  moreover have "sorted_wrt (\<lambda>x y. snd y \<le> snd x) (take top_k L)"
    using srt sorted_wrt_take by (auto simp: sorted_wrt_map case_prod_unfold)
  moreover have "s = ?score u \<and> 0 < s" if "(u, s) \<in> set (take top_k L)" for u s
  proof -
    have "(u, s) \<in> set ?T" using that set by (auto dest: in_set_takeD)
    then show ?thesis using fusion_row [of u s lx ac vc w] score_positive [of u lx ac vc w] by force
  qed
  moreover have "?score u = 0 \<or> length (take top_k L) = top_k \<and> (\<forall>(v, s)\<in>set (take top_k L). ?score u \<le> s)"
    if u: "u \<notin> fst ` set (take top_k L)" for u
  proof (cases "u \<in> fst ` set ?T")
    case True
    then obtain s where s: "(u, s) \<in> set L" "s = ?score u" using set fusion_row by force
    have d: "(u, s) \<in> set (drop top_k L)" using s(1) u append_take_drop_id [of top_k L] by (metis UnE fst_conv image_eqI set_append)
    then have "length (take top_k L) = top_k" by (cases "top_k \<le> length L") auto
    moreover have "s \<le> s'" if "(v, s') \<in> set (take top_k L)" for v s'
      using taken_before_dropped [OF srt that d] by simp
    ultimately show ?thesis using s(2) by auto
  next
    case False
    have "0 \<le> ?score u" by (simp add: rrf_score_def reciprocal_nonneg)
    with False score_positive [of u lx ac vc w] show ?thesis by auto
  qed
  ultimately show ?thesis unfolding f Let_def by blast
qed

theorem fusion_returns_the_best_witness:
  "rrf_fuse [''a'', ''b''] [''b''] [] (resolve_weights None) 1 = [(''b'', fused_score [''a'', ''b''] [''b''] [] (resolve_weights None) ''b'')]"
proof -
  have "map fst (rrf_fuse [''a'', ''b''] [''b''] [] (resolve_weights None) 1) = [''b'']"
    by (simp add: rrf_fuse_def add_signal_def resolve_weights_def dict_set_def row_at_def update_row_def RRF_K_def)
  then obtain s where s: "rrf_fuse [''a'', ''b''] [''b''] [] (resolve_weights None) 1 = [(''b'', s)]" by auto
  with fusion_returns_the_best [of "[''a'', ''b'']" "[''b'']" "[]" "resolve_weights None" 1] show ?thesis by simp
qed

text \<open>Normalised weights add up to one; what is retrieved is in the graph.\<close>

lemma resolved_sum:
  "(case given of None \<Rightarrow> True | Some (l, a, v) \<Rightarrow> 0 < (case l of None \<Rightarrow> 5 / 10 | Some x \<Rightarrow> x) + (case a of None \<Rightarrow> 3 / 10 | Some x \<Rightarrow> x) + (case v of None \<Rightarrow> 2 / 10 | Some x \<Rightarrow> x)) \<Longrightarrow>
   sw_lexical (resolve_weights given) + sw_activation (resolve_weights given) + sw_vector (resolve_weights given) = 1"
  by (auto simp: resolve_weights_def add_divide_distrib [symmetric] simp del: add_divide_distrib split: option.splits prod.splits)

lemma retrieved_exist: "r \<in> set (retrieve env rnd q e k ws d g) \<Longrightarrow> row_at (rt_node r) (mg_nodes g) \<noteq> None"
  by (auto simp: retrieve_def enrich_results_def memory_node_at_def split: option.splits dest: sym)


end
