(* ===== verification/TradeWorld.thy ===== *)
theory TradeWorld
  imports Complex_Main PyText PyDict
begin

text \<open>
  The state of simulated trade (\<open>AUCTIONHOUSE/EXTENSIONS/SIMULATED_TRADE\<close>): the shared registry of the
  extensions (\<open>state_registry.py\<close>), the entries of it that trade uses as the fields of one record, and the
  tables of \<open>tr_database.py\<close>.  Numbers from the configuration and REAL columns are rationals; the square
  root, the rounding and the formatting of numbers are arguments, as are fresh identifiers and times; statements succeed.
\<close>

section \<open>The registry\<close>

record 'v shared_registry =
  rg_state :: "(string, 'v) table"
  rg_owners :: "(string, string) table"

definition registry_set :: "string \<Rightarrow> 'v \<Rightarrow> string \<Rightarrow> 'v shared_registry \<Rightarrow> 'v shared_registry" where
  "registry_set k v ext r = r\<lparr>rg_state := dict_set k v (rg_state r), rg_owners := dict_set k ext (rg_owners r)\<rparr>"

definition registry_get :: "string \<Rightarrow> 'v \<Rightarrow> 'v shared_registry \<Rightarrow> 'v" where
  "registry_get k dflt r = (case row_at k (rg_state r) of None \<Rightarrow> dflt | Some v \<Rightarrow> v)"

definition registry_owner :: "string \<Rightarrow> 'v shared_registry \<Rightarrow> string option" where
  "registry_owner k r = row_at k (rg_owners r)"

definition registry_namespace :: "string \<Rightarrow> 'v shared_registry \<Rightarrow> (string, 'v) table" where
  "registry_namespace ext r = filter (\<lambda>(k, v). row_at k (rg_owners r) = Some ext) (rg_state r)"

definition registry_update :: "(string \<times> 'v) list \<Rightarrow> string \<Rightarrow> 'v shared_registry \<Rightarrow> 'v shared_registry" where
  "registry_update kvs ext r = fold (\<lambda>(k, v). registry_set k v ext) kvs r"

definition registry_clear :: "'v shared_registry \<Rightarrow> 'v shared_registry" where
  "registry_clear r = r\<lparr>rg_state := [], rg_owners := []\<rparr>"

definition registry_snapshot :: "'v shared_registry \<Rightarrow> (string, 'v) table \<times> (string, string) table" where
  "registry_snapshot r = (rg_state r, rg_owners r)"

definition restore_registry :: "(string, 'v) table \<Rightarrow> (string, string) table \<Rightarrow> 'v shared_registry \<Rightarrow> 'v shared_registry" where
  "restore_registry s ofr r = r\<lparr>rg_state := s, rg_owners := ofr\<rparr>"

section \<open>Configuration and environment\<close>

record trade_env =
  te_config :: "string \<Rightarrow> string \<Rightarrow> rat option"
  te_ints :: "string \<Rightarrow> string \<Rightarrow> int option"
  te_sqrt :: "rat \<Rightarrow> rat"
  te_str :: "rat \<Rightarrow> string"
  te_format :: "rat \<Rightarrow> string"
  te_format1 :: "rat \<Rightarrow> string"
  te_round2 :: "rat \<Rightarrow> rat"

definition trade_config :: "trade_env \<Rightarrow> string \<Rightarrow> string \<Rightarrow> rat \<Rightarrow> rat" where
  "trade_config env sec key dflt = (case te_config env sec key of None \<Rightarrow> dflt | Some x \<Rightarrow> x)"

text \<open>Entries that are whole numbers.\<close>

definition trade_config_int :: "trade_env \<Rightarrow> string \<Rightarrow> string \<Rightarrow> int \<Rightarrow> int" where
  "trade_config_int env sec key dflt = (case te_ints env sec key of None \<Rightarrow> dflt | Some x \<Rightarrow> x)"

section \<open>Tables\<close>

type_synonym goods = "(string, int) table"

record offer =
  of_initiator :: string
  of_target :: "string option"
  of_type :: string
  of_offered :: goods
  of_requested :: goods
  of_gold_requested :: rat
  of_gold_offered :: rat
  of_status :: string
  of_location :: string
  of_created :: rat

record trade =
  td_seller :: string
  td_buyer :: string
  td_type :: string
  td_offered :: goods
  td_received :: goods
  td_gold :: rat
  td_skill :: rat
  td_location :: string
  td_distance :: rat
  td_delta :: rat

record place =
  pl_area :: "string option"
  pl_x :: rat
  pl_z :: rat

record reputation =
  rp_notoriety :: int
  rp_bounty :: rat
  rp_score :: int
  rp_arrests :: nat
  rp_jail :: rat
  rp_wanted :: bool

record route =
  rt_owner :: string
  rt_from :: string
  rt_to :: string
  rt_segments :: "(rat \<times> rat) list"
  rt_distance :: rat
  rt_level :: nat
  rt_maintained :: rat
  rt_active :: bool
  rt_bandits :: rat
  rt_built :: rat
  rt_guard :: rat

record caravan =
  cv_route :: string
  cv_owner :: string
  cv_cargo :: goods
  cv_gold :: rat
  cv_guards :: nat
  cv_power :: rat
  cv_segment :: rat
  cv_total :: nat
  cv_status :: string

record incident =
  in_attacker :: string
  in_route :: string
  in_power :: rat
  in_defence :: rat
  in_outcome :: string
  in_loot_value :: rat
  in_stolen :: goods
  in_hurt :: "string list"
  in_notoriety :: int
  in_bounty :: rat

record trade_world =
  tw_inventories :: "(string, goods) table"
  tw_finances :: "(string, rat) table"
  tw_relations :: "(string, (string, rat) table) table"
  tw_skills :: "string \<Rightarrow> string \<Rightarrow> rat option"
  tw_needs :: "string \<Rightarrow> (string, rat) table"
  tw_places :: "(string, place) table"
  tw_claims :: "(string, string) table"
  tw_all_claims :: "string list"
  tw_offers :: "(string, offer) table"
  tw_trades :: "(string \<times> trade) list"
  tw_cooldowns :: "(string \<times> string, rat) table"
  tw_reputations :: "(string, reputation) table"
  tw_routes :: "(string, route) table"
  tw_caravans :: "(string, caravan) table"
  tw_open_count :: nat
  tw_route_list :: "(string \<times> string \<times> string \<times> string \<times> rat) list"
  tw_caravan_list :: "(string \<times> string) list"
  tw_incidents :: "(string \<times> incident) list"
  tw_last_bandit :: "string option"
  tw_rep_map :: "(string, reputation) table"

section \<open>Statements\<close>

definition create_pending_offer :: "string \<Rightarrow> offer \<Rightarrow> trade_world \<Rightarrow> trade_world" where
  "create_pending_offer uuid ofr w = w\<lparr>tw_offers := tw_offers w @ [(uuid, ofr\<lparr>of_status := ''open''\<rparr>)]\<rparr>"

definition set_offer_status :: "string \<Rightarrow> string \<Rightarrow> trade_world \<Rightarrow> bool \<times> trade_world" where
  "set_offer_status status uuid w =
     (case row_at uuid (tw_offers w) of
        None \<Rightarrow> (False, w)
      | Some ofr \<Rightarrow> if of_status ofr = ''open'' then (True, w\<lparr>tw_offers := update_row uuid (\<lambda>ofr. ofr\<lparr>of_status := status\<rparr>) (tw_offers w)\<rparr>) else (False, w))"

definition accept_offer :: "string \<Rightarrow> trade_world \<Rightarrow> bool \<times> trade_world" where
  "accept_offer uuid w = set_offer_status ''accepted'' uuid w"

definition decline_offer :: "string \<Rightarrow> trade_world \<Rightarrow> bool \<times> trade_world" where
  "decline_offer uuid w = set_offer_status ''declined'' uuid w"

definition get_open_offers_for_persona :: "string \<Rightarrow> trade_world \<Rightarrow> (string \<times> offer) list" where
  "get_open_offers_for_persona p w =
     sort_key (\<lambda>(u, ofr). - of_created ofr)
       (filter (\<lambda>(u, ofr). (of_target ofr = Some p \<or> of_target ofr = None) \<and> of_status ofr = ''open'' \<and> of_initiator ofr \<noteq> p) (tw_offers w))"

definition count_open_offers_by_initiator :: "string \<Rightarrow> trade_world \<Rightarrow> nat" where
  "count_open_offers_by_initiator p w = length (filter (\<lambda>(u, ofr). of_initiator ofr = p \<and> of_status ofr = ''open'') (tw_offers w))"

text \<open>The age limit is counted in seconds.\<close>

definition expire_old_offers :: "rat \<Rightarrow> rat \<Rightarrow> trade_world \<Rightarrow> nat \<times> trade_world" where
  "expire_old_offers now max_age w =
     (let old = \<lambda>ofr. of_status ofr = ''open'' \<and> of_created ofr < now - max_age
      in (length (filter (\<lambda>(u, ofr). old ofr) (tw_offers w)),
          w\<lparr>tw_offers := map (\<lambda>(u, ofr). (u, if old ofr then ofr\<lparr>of_status := ''expired''\<rparr> else ofr)) (tw_offers w)\<rparr>))"

definition record_trade :: "string \<Rightarrow> trade \<Rightarrow> trade_world \<Rightarrow> trade_world" where
  "record_trade uuid t w = w\<lparr>tw_trades := tw_trades w @ [(uuid, t)]\<rparr>"

definition get_trade_history :: "string \<Rightarrow> nat \<Rightarrow> trade_world \<Rightarrow> (string \<times> trade) list" where
  "get_trade_history p limit w = take limit (rev (filter (\<lambda>(u, t). td_seller t = p \<or> td_buyer t = p) (tw_trades w)))"

definition check_cooldown :: "string \<Rightarrow> string \<Rightarrow> trade_world \<Rightarrow> bool" where
  "check_cooldown p kind w = (case row_at (p, kind) (tw_cooldowns w) of None \<Rightarrow> False | Some n \<Rightarrow> n > 0)"

definition set_cooldown :: "string \<Rightarrow> string \<Rightarrow> rat \<Rightarrow> trade_world \<Rightarrow> trade_world" where
  "set_cooldown p kind n w =
     w\<lparr>tw_cooldowns := dict_set (p, kind) (case row_at (p, kind) (tw_cooldowns w) of None \<Rightarrow> n | Some m \<Rightarrow> max m n) (tw_cooldowns w)\<rparr>"

definition tick_cooldowns :: "trade_world \<Rightarrow> nat \<times> trade_world" where
  "tick_cooldowns w =
     (let t = map (\<lambda>(k, n). (k, if n > 0 then max 0 (n - 1) else n)) (tw_cooldowns w)
      in (length (filter (\<lambda>(k, n). n \<le> 0) t), w\<lparr>tw_cooldowns := filter (\<lambda>(k, n). \<not> n \<le> 0) t\<rparr>))"

section \<open>Goods and gold\<close>

definition inventory_of :: "string \<Rightarrow> trade_world \<Rightarrow> goods" where
  "inventory_of p w = (case row_at p (tw_inventories w) of None \<Rightarrow> [] | Some g \<Rightarrow> g)"

definition item_count :: "string \<Rightarrow> goods \<Rightarrow> int" where
  "item_count i g = (case row_at i g of None \<Rightarrow> 0 | Some n \<Rightarrow> n)"

definition gold_of :: "string \<Rightarrow> trade_world \<Rightarrow> rat" where
  "gold_of p w = (case row_at p (tw_finances w) of None \<Rightarrow> 0 | Some x \<Rightarrow> x)"

definition remove_items :: "string \<Rightarrow> string \<Rightarrow> int \<Rightarrow> trade_world \<Rightarrow> bool \<times> trade_world" where
  "remove_items p i q w =
     (let inv = inventory_of p w; cur = item_count i inv
      in if cur < q then (False, w)
         else (True, w\<lparr>tw_inventories := dict_set p (if cur - q \<le> 0 then delete_row i inv else dict_set i (cur - q) inv) (tw_inventories w)\<rparr>))"

definition add_items :: "string \<Rightarrow> string \<Rightarrow> int \<Rightarrow> trade_world \<Rightarrow> trade_world" where
  "add_items p i q w =
     (let inv = inventory_of p w
      in w\<lparr>tw_inventories := dict_set p (dict_set i (item_count i inv + q) inv) (tw_inventories w)\<rparr>)"

definition remove_gold :: "string \<Rightarrow> rat \<Rightarrow> trade_world \<Rightarrow> bool \<times> trade_world" where
  "remove_gold p x w = (if gold_of p w < x then (False, w) else (True, w\<lparr>tw_finances := dict_set p (gold_of p w - x) (tw_finances w)\<rparr>))"

definition add_gold :: "string \<Rightarrow> rat \<Rightarrow> trade_world \<Rightarrow> trade_world" where
  "add_gold p x w = w\<lparr>tw_finances := dict_set p (gold_of p w + x) (tw_finances w)\<rparr>"

text \<open>The loops that move goods go on whether or not the removal succeeds.\<close>

definition move_items :: "string \<Rightarrow> string \<Rightarrow> goods \<Rightarrow> trade_world \<Rightarrow> trade_world" where
  "move_items a b g w = fold (\<lambda>(i, q) w. add_items b i q (snd (remove_items a i q w))) g w"

definition move_gold :: "string \<Rightarrow> string \<Rightarrow> rat \<Rightarrow> trade_world \<Rightarrow> trade_world" where
  "move_gold a b x w = (if x > 0 then add_gold b x (snd (remove_gold a x w)) else w)"

definition has_goods :: "string \<Rightarrow> goods \<Rightarrow> trade_world \<Rightarrow> bool" where
  "has_goods p g w = (\<forall>(i, q)\<in>set g. \<not> item_count i (inventory_of p w) < q)"

definition short_item :: "goods \<Rightarrow> goods \<Rightarrow> string option" where
  "short_item stock g = map_option fst (List.find (\<lambda>(i, q). item_count i stock < q) g)"

definition get_routes_between_claims :: "string \<Rightarrow> string \<Rightarrow> trade_world \<Rightarrow> (string \<times> route) list" where
  "get_routes_between_claims a b w =
     filter (\<lambda>(u, r). (rt_from r = a \<and> rt_to r = b \<or> rt_from r = b \<and> rt_to r = a) \<and> rt_active r) (tw_routes w)"

section \<open>Reputation rows\<close>

definition new_reputation :: reputation where
  "new_reputation = \<lparr>rp_notoriety = 0, rp_bounty = 0, rp_score = 0, rp_arrests = 0, rp_jail = 0, rp_wanted = False\<rparr>"

definition ensure_reputation :: "string \<Rightarrow> trade_world \<Rightarrow> trade_world" where
  "ensure_reputation p w =
     (if row_at p (tw_reputations w) = None then w\<lparr>tw_reputations := tw_reputations w @ [(p, new_reputation)]\<rparr> else w)"

definition change_reputation :: "string \<Rightarrow> (reputation \<Rightarrow> reputation) \<Rightarrow> trade_world \<Rightarrow> trade_world" where
  "change_reputation p f w = w\<lparr>tw_reputations := update_row p f (tw_reputations w)\<rparr>"

definition update_notoriety :: "string \<Rightarrow> int \<Rightarrow> trade_world \<Rightarrow> trade_world" where
  "update_notoriety p d = change_reputation p
     (\<lambda>r. r\<lparr>rp_notoriety := max 0 (min 1000 (rp_notoriety r + d)), rp_wanted := rp_notoriety r + d > 50 \<or> rp_wanted r\<rparr>)"

definition update_bounty :: "string \<Rightarrow> rat \<Rightarrow> trade_world \<Rightarrow> trade_world" where
  "update_bounty p d = change_reputation p (\<lambda>r. r\<lparr>rp_bounty := max 0 (rp_bounty r + d)\<rparr>)"

definition update_reputation_score :: "string \<Rightarrow> int \<Rightarrow> trade_world \<Rightarrow> trade_world" where
  "update_reputation_score p d = change_reputation p (\<lambda>r. r\<lparr>rp_score := max (- 1000) (min 1000 (rp_score r + d))\<rparr>)"

definition set_jail_ticks :: "string \<Rightarrow> rat \<Rightarrow> trade_world \<Rightarrow> trade_world" where
  "set_jail_ticks p n = change_reputation p (\<lambda>r. r\<lparr>rp_jail := n\<rparr>)"

definition is_persona_jailed :: "string \<Rightarrow> trade_world \<Rightarrow> bool" where
  "is_persona_jailed p w = (case row_at p (tw_reputations w) of None \<Rightarrow> False | Some r \<Rightarrow> rp_jail r > 0)"


section \<open>The registry's contract\<close>

lemma registry_restored: "restore_registry s p (registry_set k v ext r) = restore_registry s p r"
  "(case registry_snapshot r of (s, p) \<Rightarrow> restore_registry s p (registry_update kvs ext r)) = r"
proof -
  have "rg_state (restore_registry s p r') = s" "rg_owners (restore_registry s p r') = p" for s p r' by (simp_all add: restore_registry_def)
  then show "restore_registry s p (registry_set k v ext r) = restore_registry s p r"
    "(case registry_snapshot r of (s, p) \<Rightarrow> restore_registry s p (registry_update kvs ext r)) = r"
    by (simp_all add: restore_registry_def registry_set_def registry_snapshot_def shared_registry.equality)
qed

section \<open>Totals\<close>

definition table_sum :: "('r \<Rightarrow> 'a::ab_group_add) \<Rightarrow> ('k, 'r) table \<Rightarrow> 'a" where
  "table_sum f t = sum_list (map (\<lambda>(k, r). f r) t)"

lemma table_sum_update:
  "keys_unique t \<Longrightarrow> row_at k t = Some r \<Longrightarrow> table_sum f (update_row k h t) = table_sum f t - f r + f (h r)"
proof (induction t)
  case (Cons x t)
  obtain k' r' where x: "x = (k', r')" by (cases x)
  show ?case
  proof (cases "k' = k")
    case True
    then have "k \<notin> fst ` set t" using Cons.prems(1) x by (simp add: keys_unique_def)
    then have "update_row k h t = t" by (rule sum_rows_absent_update)
    moreover have "r' = r" using Cons.prems(2) True x by (simp add: row_at_def)
    ultimately show ?thesis using True x by (simp add: table_sum_def update_row_def)
  next
    case False
    with Cons x show ?thesis by (simp add: table_sum_def update_row_def row_at_def keys_unique_def algebra_simps)
  qed
qed (simp add: row_at_def)

lemma table_sum_set:
  "keys_unique t \<Longrightarrow> table_sum f (dict_set k r t) = table_sum f t - (case row_at k t of None \<Rightarrow> 0 | Some r' \<Rightarrow> f r') + f r"
  by (cases "row_at k t") (simp add: dict_set_def table_sum_def, simp add: dict_set_def table_sum_update [of t k _ f "\<lambda>_. r"])

definition total_item :: "string \<Rightarrow> trade_world \<Rightarrow> int" where
  "total_item i w = table_sum (item_count i) (tw_inventories w)"

definition total_gold :: "trade_world \<Rightarrow> rat" where
  "total_gold w = table_sum id (tw_finances w)"

definition world_ok :: "trade_world \<Rightarrow> bool" where
  "world_ok w \<longleftrightarrow> keys_unique (tw_inventories w) \<and> keys_unique (tw_finances w)"

lemma count_set: "item_count i (dict_set j n g) = (if i = j then n else item_count i g)"
  by (simp add: item_count_def dict.get_put)

lemma count_delete: "item_count i (delete_row j g) = (if i = j then 0 else item_count i g)"
  by (simp add: item_count_def row_at_delete)

lemma inventory_set: "inventory_of p (w\<lparr>tw_inventories := dict_set p' g (tw_inventories w)\<rparr>) = (if p = p' then g else inventory_of p w)"
  by (simp add: inventory_of_def dict.get_put)

lemma total_set:
  "keys_unique (tw_inventories w) \<Longrightarrow>
   total_item i (w\<lparr>tw_inventories := dict_set p g (tw_inventories w)\<rparr>) = total_item i w - item_count i (inventory_of p w) + item_count i g"
  by (simp add: total_item_def table_sum_set inventory_of_def split: option.split) (simp add: item_count_def row_at_def)

lemma remove_items_count:
  "q \<le> item_count i (inventory_of p w) \<Longrightarrow>
   item_count j (inventory_of p' (snd (remove_items p i q w))) = item_count j (inventory_of p' w) - (if p' = p \<and> j = i then q else 0)"
  by (simp add: remove_items_def inventory_set count_set count_delete)

lemma add_items_count:
  "item_count j (inventory_of p' (add_items p i q w)) = item_count j (inventory_of p' w) + (if p' = p \<and> j = i then q else 0)"
  by (simp add: add_items_def inventory_set count_set)

lemma remove_items_total:
  "keys_unique (tw_inventories w) \<Longrightarrow> q \<le> item_count i (inventory_of p w) \<Longrightarrow>
   total_item j (snd (remove_items p i q w)) = total_item j w - (if j = i then q else 0)"
  by (simp add: remove_items_def total_set count_set count_delete)

lemma add_items_total:
  "keys_unique (tw_inventories w) \<Longrightarrow> total_item j (add_items p i q w) = total_item j w + (if j = i then q else 0)"
  by (simp add: add_items_def total_set count_set)

lemma goods_ops_ok: "world_ok w \<Longrightarrow> world_ok (snd (remove_items p i q w))" "world_ok w \<Longrightarrow> world_ok (add_items p i q w)"
  "world_ok w \<Longrightarrow> world_ok (snd (remove_gold p x w))" "world_ok w \<Longrightarrow> world_ok (add_gold p x w)"
  by (simp_all add: world_ok_def remove_items_def add_items_def remove_gold_def add_gold_def dict_set_unique)

text \<open>Quantities are natural numbers in a dictionary; the code does not check it.\<close>

definition goods_ok :: "goods \<Rightarrow> bool" where
  "goods_ok g \<longleftrightarrow> distinct (map fst g) \<and> (\<forall>(i, q)\<in>set g. 0 \<le> q)"

lemma short_item_none: "short_item (inventory_of p w) g = None \<longleftrightarrow> has_goods p g w"
  by (auto simp: short_item_def has_goods_def find_None_iff)

lemma count_nonneg: "goods_ok g \<Longrightarrow> 0 \<le> item_count i g"
  by (auto simp: goods_ok_def item_count_def row_at_def dest!: map_of_SomeD split: option.split)

definition solvent :: "trade_world \<Rightarrow> bool" where
  "solvent w \<longleftrightarrow> (\<forall>p. 0 \<le> gold_of p w \<and> (\<forall>i. 0 \<le> item_count i (inventory_of p w)))"

text \<open>Moving goods that are there conserves every item, and gold is not touched.\<close>

lemma move_items_ok:
  assumes "world_ok w" "has_goods a g w" "distinct (map fst g)"
  shows "world_ok (move_items a b g w) \<and> total_item j (move_items a b g w) = total_item j w \<and> tw_finances (move_items a b g w) = tw_finances w \<and>
    (\<forall>p. item_count j (inventory_of p (move_items a b g w)) =
       item_count j (inventory_of p w) + (if p = b then item_count j g else 0) - (if p = a then item_count j g else 0))"
  using assms
proof (induction g arbitrary: w)
  case (Cons x g)
  obtain i q where x: "x = (i, q)" by (cases x)
  have q: "q \<le> item_count i (inventory_of a w)" using Cons.prems(2) x by (simp add: has_goods_def)
  let ?w1 = "snd (remove_items a i q w)" and ?w2 = "add_items b i q (snd (remove_items a i q w))"
  have ok: "world_ok ?w1" "world_ok ?w2" using Cons.prems(1) by (simp_all add: goods_ops_ok)
  have count: "item_count k (inventory_of p ?w2) = item_count k (inventory_of p w) + (if p = b \<and> k = i then q else 0) - (if p = a \<and> k = i then q else 0)" for p k
    using remove_items_count [OF q, of k p] by (simp add: add_items_count)
  have "i \<notin> fst ` set g" using Cons.prems(3) x by simp
  then have out: "k \<noteq> i" if "(k, n) \<in> set g" for k n using that by force
  have "has_goods a g ?w2" unfolding has_goods_def
  proof clarify
    fix k n assume k: "(k, n) \<in> set g" and less: "item_count k (inventory_of a ?w2) < n"
    with count [of k a] out have "item_count k (inventory_of a w) < n" by auto
    with k Cons.prems(2) x show False by (auto simp: has_goods_def)
  qed
  note IH = Cons.IH [OF ok(2) this]
  have "total_item j ?w2 = total_item j w"
    using remove_items_total [of w q i a j] add_items_total [of ?w1 j b i q] Cons.prems(1) ok(1) q by (simp add: world_ok_def)
  moreover have "tw_finances ?w2 = tw_finances w" by (simp add: add_items_def remove_items_def)
  moreover have "item_count j (x # g) = (if j = i then q else item_count j g)" "j = i \<Longrightarrow> item_count j g = 0"
    using \<open>i \<notin> fst ` set g\<close> row_at_keys [of i g] by (auto simp: x item_count_def row_at_def)
  ultimately show ?case using IH Cons.prems(3) x count by (auto simp: move_items_def)
qed (simp add: move_items_def item_count_def row_at_def)

lemma gold_set: "gold_of p (w\<lparr>tw_finances := dict_set p' x (tw_finances w)\<rparr>) = (if p = p' then x else gold_of p w)"
  by (simp add: gold_of_def dict.get_put)

lemma total_gold_set: "keys_unique (tw_finances w) \<Longrightarrow> total_gold (w\<lparr>tw_finances := dict_set p x (tw_finances w)\<rparr>) = total_gold w - gold_of p w + x"
  by (simp add: total_gold_def table_sum_set gold_of_def split: option.split)

lemma add_gold_gold: "gold_of p (add_gold b x w) = gold_of p w + (if p = b then x else 0)"
  by (simp add: add_gold_def gold_set)

lemma remove_gold_gold: "x \<le> gold_of a w \<Longrightarrow> gold_of p (snd (remove_gold a x w)) = gold_of p w - (if p = a then x else 0)"
  by (simp add: remove_gold_def gold_set)

lemma add_gold_total: "world_ok w \<Longrightarrow> total_gold (add_gold b x w) = total_gold w + x"
  by (simp add: add_gold_def total_gold_set world_ok_def)

lemma remove_gold_total: "world_ok w \<Longrightarrow> x \<le> gold_of a w \<Longrightarrow> total_gold (snd (remove_gold a x w)) = total_gold w - x"
  by (simp add: remove_gold_def total_gold_set world_ok_def)

lemma gold_ops_inventories: "tw_inventories (add_gold b x w) = tw_inventories w" "tw_inventories (snd (remove_gold a x w)) = tw_inventories w"
  by (simp_all add: add_gold_def remove_gold_def)

lemma move_gold_ok:
  assumes "world_ok w" "x \<le> gold_of a w"
  shows "world_ok (move_gold a b x w) \<and> total_gold (move_gold a b x w) = total_gold w \<and> tw_inventories (move_gold a b x w) = tw_inventories w \<and>
    (\<forall>p. gold_of p (move_gold a b x w) = gold_of p w + (if p = b then max 0 x else 0) - (if p = a then max 0 x else 0))"
  using assms by (simp add: move_gold_def goods_ops_ok gold_ops_inventories add_gold_total remove_gold_total add_gold_gold remove_gold_gold)

section \<open>A plain configuration and an empty world\<close>

definition plain_env :: trade_env where
  "plain_env = \<lparr>te_config = (\<lambda>s k. None), te_ints = (\<lambda>s k. None), te_sqrt = (\<lambda>x. x), te_str = (\<lambda>x. ''''), te_format = (\<lambda>x. ''''), te_format1 = (\<lambda>x. ''''), te_round2 = (\<lambda>x. x)\<rparr>"

definition empty_world :: trade_world where
  "empty_world = \<lparr>tw_inventories = [], tw_finances = [], tw_relations = [], tw_skills = (\<lambda>p s. None), tw_needs = (\<lambda>p. []), tw_places = [],
     tw_claims = [], tw_all_claims = [], tw_offers = [], tw_trades = [], tw_cooldowns = [], tw_reputations = [], tw_routes = [],
     tw_caravans = [], tw_open_count = 0, tw_route_list = [], tw_caravan_list = [], tw_incidents = [], tw_last_bandit = None, tw_rep_map = []\<rparr>"

end
