(* ===== verification/TradeDeals.thy ===== *)
theory TradeDeals
  imports TradeWorld
begin

text \<open>
  Offers and exchanges between personas (\<open>tr_core.py\<close>, \<open>tr_barter.py\<close>): making an offer, accepting and
  declining it, judging it, and what an exchange does to goods, gold, relations and cooldowns.  A reply is the
  error text (a colon for its dash) or the identifier.  An operation that runs to its end is one step: hooks and
  logging are not modelled.
\<close>

type_synonym trade_reply = "string + string"

section \<open>Values\<close>

definition base_values :: "(string, rat) table" where
  "base_values =
     [(''minecraft:diamond'', 50), (''minecraft:iron_ingot'', 10), (''minecraft:gold_ingot'', 15), (''minecraft:emerald'', 20),
      (''minecraft:wheat'', 1), (''minecraft:wood'', 2), (''minecraft:stone'', 3), (''minecraft:apple'', 2), (''minecraft:bread'', 3),
      (''minecraft:diamond_pickaxe'', 100), (''minecraft:diamond_sword'', 120), (''minecraft:iron_pickaxe'', 40),
      (''minecraft:iron_sword'', 50), (''minecraft:elytra'', 500), (''minecraft:netherite_ingot'', 200)]"

definition base_value :: "string \<Rightarrow> rat" where
  "base_value i = (case row_at i base_values of None \<Rightarrow> 1 | Some v \<Rightarrow> v)"

definition estimate_item_value :: "goods \<Rightarrow> rat" where
  "estimate_item_value g = fold (\<lambda>(i, q) total. total + base_value i * of_int q) g 0"

definition compute_relationship_delta :: "trade_env \<Rightarrow> goods \<Rightarrow> goods \<Rightarrow> rat \<Rightarrow> rat \<Rightarrow> rat" where
  "compute_relationship_delta env offered requested gold_offered gold_requested =
     (let ov = estimate_item_value offered + gold_offered; rv = estimate_item_value requested + gold_requested;
          ratio = ov / max rv (1 / 100);
          gain = trade_config env ''trade'' ''relationship_gain_fair_trade'' 3;
          loss = trade_config env ''trade'' ''relationship_loss_unfair_trade'' 5
      in if ov \<le> 0 \<and> rv \<le> 0 then 0
         else if max ov rv \<le> 0 then 0
         else if ratio \<ge> 3 / 2 then gain
         else if ratio \<ge> 4 / 5 then gain * max (1 / 10) (1 - \<bar>1 - ratio\<bar>)
         else if ratio \<ge> 3 / 10 then - loss * (1 / 2)
         else - loss)"

definition urgency_of :: "string \<Rightarrow> string \<Rightarrow> trade_world \<Rightarrow> rat" where
  "urgency_of p i w = (case row_at i (tw_needs w p) of None \<Rightarrow> 0 | Some u \<Rightarrow> u)"

definition compute_need_urgency :: "string \<Rightarrow> goods \<Rightarrow> trade_world \<Rightarrow> rat" where
  "compute_need_urgency p g w =
     (if g = [] \<or> tw_needs w p = [] then 1
      else fold (\<lambda>(i, q) m. if urgency_of p i w > m then 1 + urgency_of p i w / 10 else m) g 1)"

definition compute_desire_to_keep :: "string \<Rightarrow> goods \<Rightarrow> trade_world \<Rightarrow> rat" where
  "compute_desire_to_keep p g w =
     (if g = [] \<or> tw_needs w p = [] then 1
      else fold (\<lambda>(i, q) m. if urgency_of p i w > 0 then 1 / 2 + urgency_of p i w / 5 else m) g (1 / 2))"

section \<open>Relations and places\<close>

definition relations_of :: "string \<Rightarrow> trade_world \<Rightarrow> (string, rat) table" where
  "relations_of p w = (case row_at p (tw_relations w) of None \<Rightarrow> [] | Some t \<Rightarrow> t)"

definition get_relationship :: "string \<Rightarrow> string \<Rightarrow> trade_world \<Rightarrow> rat" where
  "get_relationship a b w = (case row_at b (relations_of a w) of None \<Rightarrow> 0 | Some x \<Rightarrow> x)"

text \<open>Both copies are taken before either is written back.\<close>

definition apply_relationship_change :: "string \<Rightarrow> string \<Rightarrow> rat \<Rightarrow> trade_world \<Rightarrow> trade_world" where
  "apply_relationship_change a b d w =
     (let ra = dict_set b (get_relationship a b w + d) (relations_of a w);
          rb = dict_set a (get_relationship b a w + d) (relations_of b w)
      in w\<lparr>tw_relations := dict_set b rb (dict_set a ra (tw_relations w))\<rparr>)"

definition calc_distance :: "trade_env \<Rightarrow> rat \<times> rat \<Rightarrow> rat \<times> rat \<Rightarrow> rat" where
  "calc_distance env a b = te_sqrt env ((fst b - fst a) ^ 2 + (snd b - snd a) ^ 2)"

definition coordinates :: "string \<Rightarrow> trade_world \<Rightarrow> rat \<times> rat" where
  "coordinates p w = (case row_at p (tw_places w) of None \<Rightarrow> (0, 0) | Some l \<Rightarrow> (pl_x l, pl_z l))"

definition get_distance_between :: "trade_env \<Rightarrow> string \<Rightarrow> string \<Rightarrow> trade_world \<Rightarrow> rat" where
  "get_distance_between env a b w = calc_distance env (coordinates a w) (coordinates b w)"

definition distance_modifier :: "trade_env \<Rightarrow> rat \<Rightarrow> rat" where
  "distance_modifier env d = (if d \<le> 0 then 1 else 1 + d / 1000 * trade_config env ''trade'' ''distance_penalty_per_1000'' (1 / 10))"

fun claims_connected :: "string option \<Rightarrow> string option \<Rightarrow> trade_world \<Rightarrow> bool" where
  "claims_connected (Some a) (Some b) w \<longleftrightarrow> a \<noteq> '''' \<and> b \<noteq> '''' \<and> get_routes_between_claims a b w \<noteq> []"
| "claims_connected _ _ w \<longleftrightarrow> False"

definition has_route_connection :: "string \<Rightarrow> string \<Rightarrow> trade_world \<Rightarrow> bool" where
  "has_route_connection a b w = claims_connected (row_at a (tw_claims w)) (row_at b (tw_claims w)) w"

fun range_of_places :: "trade_env \<Rightarrow> bool \<Rightarrow> place option \<Rightarrow> place option \<Rightarrow> bool \<times> rat \<times> string option" where
  "range_of_places env linked (Some a) (Some b) =
     (let d = calc_distance env (pl_x a, pl_z a) (pl_x b, pl_z b)
      in if pl_area a = pl_area b then (True, 0, pl_area a)
         else if linked then (True, d, Some (''route_'' @ te_format env d))
         else if d \<le> trade_config env ''trade'' ''max_trade_distance'' 2000 then (True, d, Some (''wilderness_'' @ te_format env d))
         else (False, d, Some ''out_of_range''))"
| "range_of_places env linked _ _ = (True, 0, Some ''unknown'')"

definition check_range :: "trade_env \<Rightarrow> string \<Rightarrow> string \<Rightarrow> trade_world \<Rightarrow> bool \<times> rat \<times> string option" where
  "check_range env a b w = range_of_places env (has_route_connection a b w) (row_at a (tw_places w)) (row_at b (tw_places w))"

definition location_name :: "string option \<Rightarrow> string" where
  "location_name l = (case l of None \<Rightarrow> ''unknown'' | Some s \<Rightarrow> if s = '''' then ''unknown'' else s)"

section \<open>Making an offer\<close>

definition update_state_trade_offers :: "trade_world \<Rightarrow> trade_world" where
  "update_state_trade_offers w = w\<lparr>tw_open_count := length (filter (\<lambda>(u, ofr). of_status ofr = ''open'') (tw_offers w))\<rparr>"

definition initiate_trade ::
  "trade_env \<Rightarrow> rat \<Rightarrow> string \<Rightarrow> string \<Rightarrow> string \<Rightarrow> goods \<Rightarrow> rat \<Rightarrow> goods \<Rightarrow> rat \<Rightarrow> trade_world \<Rightarrow> trade_reply \<times> trade_world" where
  "initiate_trade env now uuid ini tgt offered gold_offered requested gold_requested w =
     (let (ok, d, loc) = check_range env ini tgt w;
          limit = trade_config env ''trade'' ''max_pending_offers_per_persona'' 5;
          existing = count_open_offers_by_initiator ini w
      in if ini = tgt then (Inl ''Cannot trade with yourself'', w)
         else if is_persona_jailed ini w then (Inl ''Initiator is in jail: cannot trade'', w)
         else if is_persona_jailed tgt w then (Inl ''Target is in jail: cannot trade'', w)
         else if check_cooldown ini ''trade'' w then (Inl ''Initiator is on trade cooldown'', w)
         else if check_cooldown tgt ''trade'' w then (Inl ''Target is on trade cooldown'', w)
         else if \<not> ok then (Inl (''Personas out of trade range (distance: '' @ te_format env d @ '')''), w)
         else if offered = [] \<and> gold_offered \<le> 0 then (Inl ''Must offer at least some items or gold'', w)
         else if requested = [] \<and> gold_requested \<le> 0 then (Inl ''Must request at least some items or gold'', w)
         else if offered = [] \<and> requested = [] \<and> gold_offered \<le> 0 \<and> gold_requested \<le> 0 then (Inl ''Empty trade offer'', w)
         else if of_nat existing \<ge> limit then (Inl (''Too many open offers ('' @ nat_digits existing @ ''/'' @ te_str env limit @ '')''), w)
         else (Inr uuid, update_state_trade_offers (create_pending_offer uuid
                \<lparr>of_initiator = ini, of_target = Some tgt, of_type = ''trade'', of_offered = offered, of_requested = requested,
                 of_gold_requested = gold_requested, of_gold_offered = gold_offered, of_status = ''open'',
                 of_location = location_name loc, of_created = now\<rparr> w)))"

definition propose_barter ::
  "trade_env \<Rightarrow> rat \<Rightarrow> string \<Rightarrow> string \<Rightarrow> string \<Rightarrow> goods \<Rightarrow> goods \<Rightarrow> trade_world \<Rightarrow> trade_reply \<times> trade_world" where
  "propose_barter env now uuid ini tgt offered requested w =
     (let (ok, d, loc) = check_range env ini tgt w
      in if ini = tgt then (Inl ''Cannot barter with yourself'', w)
         else if is_persona_jailed ini w then (Inl ''Initiator is in jail'', w)
         else if is_persona_jailed tgt w then (Inl ''Target is in jail'', w)
         else if check_cooldown ini ''barter'' w then (Inl ''Initiator is on barter cooldown'', w)
         else if check_cooldown tgt ''barter'' w then (Inl ''Target is on barter cooldown'', w)
         else if offered = [] then (Inl ''Must offer items to barter'', w)
         else if requested = [] then (Inl ''Must request items to barter'', w)
         else if \<not> ok then (Inl (''Personas out of range (distance: '' @ te_format env d @ '')''), w)
         else (Inr uuid, create_pending_offer uuid
                \<lparr>of_initiator = ini, of_target = Some tgt, of_type = ''barter'', of_offered = offered, of_requested = requested,
                 of_gold_requested = 0, of_gold_offered = 0, of_status = ''open'', of_location = location_name loc, of_created = now\<rparr> w))"

section \<open>Accepting and declining\<close>

fun for_someone_else :: "string option \<Rightarrow> string \<Rightarrow> bool" where
  "for_someone_else None p \<longleftrightarrow> False"
| "for_someone_else (Some t) p \<longleftrightarrow> t \<noteq> '''' \<and> t \<noteq> p"

definition goods_obstacle :: "offer \<Rightarrow> string \<Rightarrow> trade_world \<Rightarrow> string option" where
  "goods_obstacle ofr p w =
     (case short_item (inventory_of (of_initiator ofr) w) (of_offered ofr) of
        Some i \<Rightarrow> Some (''Initiator doesn't have enough '' @ i)
      | None \<Rightarrow> (case short_item (inventory_of p w) (of_requested ofr) of
          Some i \<Rightarrow> Some (''You don't have enough '' @ i)
        | None \<Rightarrow> None))"

definition trade_obstacle :: "offer \<Rightarrow> string \<Rightarrow> trade_world \<Rightarrow> string option" where
  "trade_obstacle ofr p w =
     (if of_status ofr \<noteq> ''open'' then Some (''Offer is '' @ of_status ofr @ '', not open'')
      else if for_someone_else (of_target ofr) p then Some ''This offer is not for you''
      else case goods_obstacle ofr p w of
          Some m \<Rightarrow> Some m
        | None \<Rightarrow>
            if gold_of (of_initiator ofr) w < of_gold_offered ofr then Some ''Initiator doesn't have enough gold''
            else if gold_of p w < of_gold_requested ofr then Some ''You don't have enough gold''
            else None)"

definition exchange_goods :: "offer \<Rightarrow> string \<Rightarrow> trade_world \<Rightarrow> trade_world" where
  "exchange_goods ofr p w = move_items p (of_initiator ofr) (of_requested ofr) (move_items (of_initiator ofr) p (of_offered ofr) w)"

definition exchange_gold :: "offer \<Rightarrow> string \<Rightarrow> trade_world \<Rightarrow> trade_world" where
  "exchange_gold ofr p w = move_gold p (of_initiator ofr) (of_gold_requested ofr) (move_gold (of_initiator ofr) p (of_gold_offered ofr) w)"

definition conclude :: "trade_env \<Rightarrow> string \<Rightarrow> string \<Rightarrow> string \<Rightarrow> trade \<Rightarrow> trade_world \<Rightarrow> trade_world" where
  "conclude env uuid trade_uuid kind t w =
     (let w1 = record_trade trade_uuid t (snd (accept_offer uuid w));
          w2 = (if td_delta t \<noteq> 0 then apply_relationship_change (td_seller t) (td_buyer t) (td_delta t) w1 else w1);
          n = trade_config env ''trade'' ''trade_cooldown_ticks'' 5
      in set_cooldown (td_buyer t) kind n (set_cooldown (td_seller t) kind n w2))"

definition execute_trade :: "trade_env \<Rightarrow> string \<Rightarrow> string \<Rightarrow> offer \<Rightarrow> string \<Rightarrow> trade_world \<Rightarrow> trade_world" where
  "execute_trade env uuid trade_uuid ofr p w =
     update_state_trade_offers (conclude env uuid trade_uuid ''trade''
       \<lparr>td_seller = of_initiator ofr, td_buyer = p, td_type = ''currency'', td_offered = of_offered ofr, td_received = of_requested ofr,
        td_gold = of_gold_requested ofr - of_gold_offered ofr, td_skill = 0, td_location = of_location ofr,
        td_distance = distance_modifier env (get_distance_between env (of_initiator ofr) p w),
        td_delta = compute_relationship_delta env (of_offered ofr) (of_requested ofr) (of_gold_offered ofr) (of_gold_requested ofr)\<rparr>
       (exchange_gold ofr p (exchange_goods ofr p w)))"

definition accept_trade :: "trade_env \<Rightarrow> string \<Rightarrow> string \<Rightarrow> string \<Rightarrow> trade_world \<Rightarrow> trade_reply \<times> trade_world" where
  "accept_trade env trade_uuid uuid p w =
     (case row_at uuid (tw_offers w) of
        None \<Rightarrow> (Inl ''Offer not found'', w)
      | Some ofr \<Rightarrow> (case trade_obstacle ofr p w of
            Some m \<Rightarrow> (Inl m, w)
          | None \<Rightarrow> (Inr trade_uuid, execute_trade env uuid trade_uuid ofr p w)))"

definition decline_trade_offer :: "string \<Rightarrow> string \<Rightarrow> trade_world \<Rightarrow> (string + unit) \<times> trade_world" where
  "decline_trade_offer uuid p w =
     (case row_at uuid (tw_offers w) of
        None \<Rightarrow> (Inl ''Offer not found'', w)
      | Some ofr \<Rightarrow>
          if for_someone_else (of_target ofr) p then (Inl ''This offer is not for you'', w)
          else let (done, w') = decline_offer uuid (snd (accept_offer uuid w))
               in if done then (Inr (), update_state_trade_offers w') else (Inl ''Failed to decline offer'', w'))"

section \<open>Barter\<close>

definition get_barter_skill :: "string \<Rightarrow> trade_world \<Rightarrow> rat" where
  "get_barter_skill p w = (case tw_skills w p ''barter'' of None \<Rightarrow> 25 | Some x \<Rightarrow> x)"

definition get_barter_offer :: "string \<Rightarrow> trade_world \<Rightarrow> offer option" where
  "get_barter_offer uuid w = (case row_at uuid (tw_offers w) of None \<Rightarrow> None | Some ofr \<Rightarrow> if of_type ofr = ''barter'' then Some ofr else None)"

text \<open>The value of goods given by \<open>a\<close> in a barter with \<open>b\<close>.\<close>

definition barter_value :: "trade_env \<Rightarrow> string \<Rightarrow> string \<Rightarrow> goods \<Rightarrow> trade_world \<Rightarrow> rat" where
  "barter_value env a b g w =
     estimate_item_value g * (1 + (get_barter_skill a w - get_barter_skill b w) * trade_config env ''trade'' ''barter_skill_impact'' (1 / 200))"

definition barter_tolerance :: "trade_env \<Rightarrow> rat" where
  "barter_tolerance env = trade_config env ''trade'' ''barter_tolerance_default'' (15 / 100)"

definition barter_obstacle :: "trade_env \<Rightarrow> offer \<Rightarrow> string \<Rightarrow> trade_world \<Rightarrow> string option" where
  "barter_obstacle env ofr p w =
     (let ov = barter_value env (of_initiator ofr) p (of_offered ofr) w; rv = barter_value env p (of_initiator ofr) (of_requested ofr) w
      in if of_status ofr \<noteq> ''open'' then Some (''Offer is '' @ of_status ofr)
         else if for_someone_else (of_target ofr) p then Some ''This barter is not for you''
         else if max ov rv \<le> 0 then Some ''Zero-value barter not allowed''
         else if \<not> \<bar>ov - rv\<bar> \<le> barter_tolerance env * max ov rv
           then Some (''Barter too unbalanced: offered='' @ te_format1 env ov @ '', requested='' @ te_format1 env rv @
                      '' (max diff '' @ te_format env (barter_tolerance env * 100) @ ''%)'')
         else goods_obstacle ofr p w)"

definition execute_barter :: "trade_env \<Rightarrow> string \<Rightarrow> string \<Rightarrow> offer \<Rightarrow> string \<Rightarrow> trade_world \<Rightarrow> trade_world" where
  "execute_barter env uuid trade_uuid ofr p w =
     conclude env uuid trade_uuid ''barter''
       \<lparr>td_seller = of_initiator ofr, td_buyer = p, td_type = ''barter'', td_offered = of_offered ofr, td_received = of_requested ofr,
        td_gold = 0, td_skill = (get_barter_skill (of_initiator ofr) w + get_barter_skill p w) / 2, td_location = of_location ofr,
        td_distance = 1, td_delta = 3\<rparr>
       (exchange_goods ofr p w)"

definition accept_barter :: "trade_env \<Rightarrow> string \<Rightarrow> string \<Rightarrow> string \<Rightarrow> trade_world \<Rightarrow> trade_reply \<times> trade_world" where
  "accept_barter env trade_uuid uuid p w =
     (case get_barter_offer uuid w of
        None \<Rightarrow> (Inl ''Offer not found'', w)
      | Some ofr \<Rightarrow> (case barter_obstacle env ofr p w of
            Some m \<Rightarrow> (Inl m, w)
          | None \<Rightarrow> (Inr trade_uuid, execute_barter env uuid trade_uuid ofr p w)))"


section \<open>Judging an offer\<close>

record offer_verdict =
  vd_accept :: bool
  vd_score :: rat
  vd_reason :: string

definition trade_fairness :: "rat \<Rightarrow> rat \<Rightarrow> rat" where
  "trade_fairness ov rv = (if ov > 0 \<and> rv > 0 then ov / max rv (1 / 100) else if ov > 0 then 2 else 0)"

definition evaluate_trade_offer :: "trade_env \<Rightarrow> offer \<Rightarrow> string \<Rightarrow> trade_world \<Rightarrow> offer_verdict" where
  "evaluate_trade_offer env ofr p w =
     (let ov = estimate_item_value (of_offered ofr) + of_gold_offered ofr;
          rv = estimate_item_value (of_requested ofr) + of_gold_requested ofr;
          score = trade_fairness ov rv * (1 + get_relationship p (of_initiator ofr) w / 200) * compute_need_urgency p (of_offered ofr) w
      in if ov \<le> 0 \<and> rv \<le> 0 then \<lparr>vd_accept = False, vd_score = 0, vd_reason = ''Empty trade''\<rparr>
         else \<lparr>vd_accept = score \<ge> 1 / 2, vd_score = te_round2 env score,
               vd_reason = if score \<ge> 4 / 5 then ''Good deal'' else if score \<ge> 1 / 2 then ''Fair enough'' else ''Bad deal''\<rparr>)"

definition evaluate_barter_offer :: "trade_env \<Rightarrow> offer \<Rightarrow> string \<Rightarrow> trade_world \<Rightarrow> offer_verdict" where
  "evaluate_barter_offer env ofr p w =
     (let ov = barter_value env p (of_initiator ofr) (of_offered ofr) w; rv = barter_value env (of_initiator ofr) p (of_requested ofr) w;
          fair = \<bar>ov - rv\<bar> \<le> barter_tolerance env * max ov rv;
          score = ov / max rv (1 / 100) * (1 + get_relationship p (of_initiator ofr) w / 200) * compute_need_urgency p (of_offered ofr) w
                  / max (compute_desire_to_keep p (of_requested ofr) w) (1 / 2)
      in if max ov rv \<le> 0 then \<lparr>vd_accept = False, vd_score = 0, vd_reason = ''Zero value items''\<rparr>
         else \<lparr>vd_accept = (fair \<and> score \<ge> 1 / 2), vd_score = te_round2 env score,
               vd_reason = if fair \<and> score \<ge> 4 / 5 then ''Good barter deal'' else if fair then ''Fair exchange'' else ''Unbalanced trade''\<rparr>)"

section \<open>Steps\<close>

inductive deal_step :: "trade_env \<Rightarrow> trade_world \<Rightarrow> trade_world \<Rightarrow> bool" for env where
  initiate: "goods_ok offered \<Longrightarrow> goods_ok requested \<Longrightarrow> row_at u (tw_offers w) = None \<Longrightarrow>
     deal_step env w (snd (initiate_trade env now u a b offered go requested gr w))"
| propose: "goods_ok offered \<Longrightarrow> goods_ok requested \<Longrightarrow> row_at u (tw_offers w) = None \<Longrightarrow>
     deal_step env w (snd (propose_barter env now u a b offered requested w))"
| accept: "deal_step env w (snd (accept_trade env t u p w))"
| accept_barter: "deal_step env w (snd (accept_barter env t u p w))"
| decline: "deal_step env w (snd (decline_trade_offer u p w))"
| expire: "deal_step env w (snd (expire_old_offers now age w))"
| tick: "deal_step env w (snd (tick_cooldowns w))"

section \<open>What an exchange does\<close>

definition offers_ok :: "trade_world \<Rightarrow> bool" where
  "offers_ok w \<longleftrightarrow> keys_unique (tw_offers w) \<and> (\<forall>(u, ofr)\<in>set (tw_offers w). goods_ok (of_offered ofr) \<and> goods_ok (of_requested ofr))"

lemma goods_obstacle_none: "goods_obstacle ofr p w = None \<longleftrightarrow> has_goods (of_initiator ofr) (of_offered ofr) w \<and> has_goods p (of_requested ofr) w"
  by (simp add: goods_obstacle_def short_item_none [symmetric] split: option.split)

lemma move_items_solvent:
  assumes "world_ok w" "has_goods a g w" "goods_ok g" "solvent w"
  shows "solvent (move_items a b g w)"
proof -
  note m = move_items_ok [OF assms(1,2), of b]
  have d: "distinct (map fst g)" using assms(3) by (simp add: goods_ok_def)
  have "item_count i g \<le> item_count i (inventory_of a w)" for i
  proof (cases "row_at i g")
    case None
    then show ?thesis using assms(4) by (simp add: solvent_def item_count_def)
  next
    case (Some q)
    then have "(i, q) \<in> set g" by (simp add: row_at_def map_of_SomeD)
    with assms(2) have "\<not> item_count i (inventory_of a w) < q" by (auto simp: has_goods_def)
    with Some show ?thesis by (simp add: item_count_def [of i g])
  qed
  then have "0 \<le> item_count i (inventory_of p (move_items a b g w))" for i p
    using m [OF d, of i] count_nonneg [OF assms(3), of i] assms(4) by (auto simp: solvent_def)
  then show ?thesis using m [OF d] assms(4) by (simp add: solvent_def gold_of_def)
qed

lemma exchange_goods_ok:
  assumes "world_ok w" "has_goods (of_initiator ofr) (of_offered ofr) w" "has_goods p (of_requested ofr) w" "goods_ok (of_offered ofr)" "goods_ok (of_requested ofr)"
  shows "world_ok (exchange_goods ofr p w) \<and> total_item j (exchange_goods ofr p w) = total_item j w \<and>
    tw_finances (exchange_goods ofr p w) = tw_finances w \<and> (solvent w \<longrightarrow> solvent (exchange_goods ofr p w)) \<and>
    (of_initiator ofr \<noteq> p \<longrightarrow>
      item_count j (inventory_of p (exchange_goods ofr p w)) = item_count j (inventory_of p w) + item_count j (of_offered ofr) - item_count j (of_requested ofr) \<and>
      item_count j (inventory_of (of_initiator ofr) (exchange_goods ofr p w)) =
        item_count j (inventory_of (of_initiator ofr) w) + item_count j (of_requested ofr) - item_count j (of_offered ofr))"
proof -
  let ?w = "move_items (of_initiator ofr) p (of_offered ofr) w"
  have d: "distinct (map fst (of_offered ofr))" "distinct (map fst (of_requested ofr))" using assms(4,5) by (simp_all add: goods_ok_def)
  note m = move_items_ok [OF assms(1,2) d(1), of p]
  have "item_count i (inventory_of p w) \<le> item_count i (inventory_of p ?w)" for i
    using m [of i] count_nonneg [OF assms(4), of i] by simp
  then have "has_goods p (of_requested ofr) ?w"
    using assms(3) unfolding has_goods_def by (smt (verit, best) case_prodD case_prodI2)
  note m' = move_items_ok [OF conjunct1 [OF m] this d(2), of "of_initiator ofr"] and s = move_items_solvent [OF conjunct1 [OF m] this assms(5)]
  show ?thesis using m' [of j] m [of j] s move_items_solvent [OF assms(1,2,4)] by (simp add: exchange_goods_def)
qed

lemma exchange_gold_ok:
  assumes "world_ok w" "of_gold_offered ofr \<le> gold_of (of_initiator ofr) w" "of_gold_requested ofr \<le> gold_of p w"
  shows "world_ok (exchange_gold ofr p w) \<and> total_gold (exchange_gold ofr p w) = total_gold w \<and>
    tw_inventories (exchange_gold ofr p w) = tw_inventories w \<and> (solvent w \<longrightarrow> solvent (exchange_gold ofr p w))"
proof -
  let ?w = "move_gold (of_initiator ofr) p (of_gold_offered ofr) w"
  note m = move_gold_ok [OF assms(1,2), of p]
  have "of_gold_requested ofr \<le> gold_of p ?w"
  proof (cases "of_initiator ofr = p")
    case False
    then have "gold_of p ?w = gold_of p w + max 0 (of_gold_offered ofr)" using m by simp
    with assms(3) show ?thesis by (simp add: max_def)
  qed (use m assms(3) in simp)
  note m' = move_gold_ok [OF conjunct1 [OF m] this, of "of_initiator ofr"]
  have "0 \<le> gold_of q (exchange_gold ofr p w)" if "solvent w" for q
    using m m' assms(2,3) that unfolding exchange_gold_def solvent_def by (simp add: max_def not_le)
  with m m' show ?thesis by (auto simp: exchange_gold_def solvent_def inventory_of_def)
qed


section \<open>What a step keeps\<close>

definition settled :: "trade_world \<Rightarrow> int" where
  "settled w = table_sum (\<lambda>ofr. if of_status ofr = ''accepted'' then 1 else 0) (tw_offers w)"

definition deal_inv :: "trade_world \<Rightarrow> bool" where
  "deal_inv w \<longleftrightarrow> world_ok w \<and> offers_ok w \<and> solvent w"

text \<open>Two worlds with the same offers, goods and gold are the same for the invariants.\<close>

lemma same_holdings:
  assumes "tw_inventories w' = tw_inventories w" "tw_finances w' = tw_finances w"
  shows "world_ok w' = world_ok w" "solvent w' = solvent w" "total_item i w' = total_item i w" "total_gold w' = total_gold w"
    "gold_of p w' = gold_of p w" "inventory_of p w' = inventory_of p w"
  using assms by (simp_all add: world_ok_def solvent_def total_item_def total_gold_def gold_of_def inventory_of_def)

lemma same_offers: "tw_offers w' = tw_offers w \<Longrightarrow> offers_ok w' = offers_ok w" "tw_offers w' = tw_offers w \<Longrightarrow> settled w' = settled w"
  by (simp_all add: offers_ok_def settled_def)

lemma update_row_all: "\<forall>(k, r)\<in>set t. Q r \<Longrightarrow> (\<And>r. Q r \<Longrightarrow> Q (f r)) \<Longrightarrow> \<forall>(k, r)\<in>set (update_row j f t). Q r"
  by (fastforce simp: update_row_def split: if_splits)

lemma set_status_ok:
  assumes "offers_ok w"
  shows "offers_ok (snd (set_offer_status s u w))"
    "row_at v (tw_offers (snd (set_offer_status s u w))) =
      (if v = u then map_option (\<lambda>ofr. if of_status ofr = ''open'' then ofr\<lparr>of_status := s\<rparr> else ofr) (row_at u (tw_offers w)) else row_at v (tw_offers w))"
    "settled (snd (set_offer_status s u w)) = settled w +
      (case row_at u (tw_offers w) of None \<Rightarrow> 0 | Some ofr \<Rightarrow> if of_status ofr = ''open'' \<and> s = ''accepted'' then 1 else 0)"
proof -
  have all: "\<forall>(k, ofr)\<in>set (update_row u (\<lambda>ofr. ofr\<lparr>of_status := s\<rparr>) (tw_offers w)). goods_ok (of_offered ofr) \<and> goods_ok (of_requested ofr)"
    using assms by (intro update_row_all) (simp_all add: offers_ok_def)
  show "offers_ok (snd (set_offer_status s u w))"
    using assms all by (simp add: set_offer_status_def offers_ok_def sql.wf_upd split: option.split)
  show "row_at v (tw_offers (snd (set_offer_status s u w))) =
      (if v = u then map_option (\<lambda>ofr. if of_status ofr = ''open'' then ofr\<lparr>of_status := s\<rparr> else ofr) (row_at u (tw_offers w)) else row_at v (tw_offers w))"
    by (simp add: set_offer_status_def row_at_update split: option.split)
  show "settled (snd (set_offer_status s u w)) = settled w +
      (case row_at u (tw_offers w) of None \<Rightarrow> 0 | Some ofr \<Rightarrow> if of_status ofr = ''open'' \<and> s = ''accepted'' then 1 else 0)"
    using assms by (simp add: set_offer_status_def settled_def offers_ok_def table_sum_update split: option.split)
qed

lemma set_status_holdings:
  "tw_inventories (snd (set_offer_status s u w)) = tw_inventories w" "tw_finances (snd (set_offer_status s u w)) = tw_finances w"
  "tw_trades (snd (set_offer_status s u w)) = tw_trades w"
  by (simp_all add: set_offer_status_def split: option.split)

lemma conclude_frame:
  "tw_inventories (conclude env u t k td w) = tw_inventories w" "tw_finances (conclude env u t k td w) = tw_finances w"
  "tw_offers (conclude env u t k td w) = tw_offers (snd (accept_offer u w))" "tw_trades (conclude env u t k td w) = tw_trades w @ [(t, td)]"
  by (simp_all add: conclude_def record_trade_def apply_relationship_change_def set_cooldown_def accept_offer_def set_status_holdings Let_def)

lemma update_state_frame:
  "tw_inventories (update_state_trade_offers w) = tw_inventories w" "tw_finances (update_state_trade_offers w) = tw_finances w"
  "tw_offers (update_state_trade_offers w) = tw_offers w" "tw_trades (update_state_trade_offers w) = tw_trades w"
  by (simp_all add: update_state_trade_offers_def)

lemma moves_frame:
  "tw_offers (move_items a b g w) = tw_offers w" "tw_trades (move_items a b g w) = tw_trades w"
  "tw_offers (move_gold a b x w) = tw_offers w" "tw_trades (move_gold a b x w) = tw_trades w"
proof -
  have "tw_offers (move_items a b g w) = tw_offers w \<and> tw_trades (move_items a b g w) = tw_trades w"
    by (induction g arbitrary: w) (auto simp: move_items_def add_items_def remove_items_def Let_def)
  then show "tw_offers (move_items a b g w) = tw_offers w" "tw_trades (move_items a b g w) = tw_trades w" by simp_all
qed (simp_all add: move_gold_def add_gold_def remove_gold_def)

lemmas deal_frame = conclude_frame update_state_frame moves_frame set_status_holdings

lemma append_offer_ok:
  assumes "offers_ok w" "row_at u (tw_offers w) = None" "goods_ok (of_offered ofr)" "goods_ok (of_requested ofr)"
    and "of_status ofr = ''open''" "tw_offers w' = tw_offers w @ [(u, ofr)]"
  shows "offers_ok w'" "settled w' = settled w"
  using assms by (auto simp: offers_ok_def settled_def table_sum_def keys_unique_def row_at_def map_of_eq_None_iff)

text \<open>What making an offer does, whichever its kind.\<close>

fun offer_made :: "string \<Rightarrow> goods \<Rightarrow> goods \<Rightarrow> trade_world \<Rightarrow> trade_reply \<times> trade_world \<Rightarrow> bool" where
  "offer_made u offered requested w (Inl m, w') \<longleftrightarrow> w' = w"
| "offer_made u offered requested w (Inr v, w') \<longleftrightarrow> v = u \<and>
     (\<exists>ofr. of_offered ofr = offered \<and> of_requested ofr = requested \<and> of_status ofr = ''open'' \<and> tw_offers w' = tw_offers w @ [(u, ofr)]) \<and>
     tw_inventories w' = tw_inventories w \<and> tw_finances w' = tw_finances w \<and> tw_trades w' = tw_trades w"

lemma initiate_made: "offer_made u offered requested w (initiate_trade env now u a b offered go requested gr w)"
proof -
  obtain ok d loc where r: "check_range env a b w = (ok, d, loc)" by (cases "check_range env a b w")
  show ?thesis by (simp add: initiate_trade_def Let_def r update_state_frame create_pending_offer_def)
qed

lemma propose_made: "offer_made u offered requested w (propose_barter env now u a b offered requested w)"
proof -
  obtain ok d loc where r: "check_range env a b w = (ok, d, loc)" by (cases "check_range env a b w")
  show ?thesis by (simp add: propose_barter_def Let_def r create_pending_offer_def)
qed


text \<open>What every step keeps: the invariant, the totals, and that there are no more trades than settled offers.\<close>

definition step_kept :: "trade_world \<Rightarrow> trade_world \<Rightarrow> bool" where
  "step_kept w w' \<longleftrightarrow> deal_inv w' \<and> (\<forall>i. total_item i w' = total_item i w) \<and> total_gold w' = total_gold w \<and>
     int (length (tw_trades w')) - settled w' \<le> int (length (tw_trades w)) - settled w"

lemma step_kept_refl: "deal_inv w \<Longrightarrow> step_kept w w"
  by (simp add: step_kept_def)

lemma step_kept_trans: "step_kept w w1 \<Longrightarrow> step_kept w1 w2 \<Longrightarrow> step_kept w w2"
  by (auto simp: step_kept_def)

lemma step_kept_holdings:
  assumes "deal_inv w" "tw_inventories w' = tw_inventories w" "tw_finances w' = tw_finances w" "offers_ok w'"
    and "int (length (tw_trades w')) - settled w' \<le> int (length (tw_trades w)) - settled w"
  shows "step_kept w w'"
  using assms by (simp add: step_kept_def deal_inv_def same_holdings [of w' w])

lemma offer_made_kept:
  assumes "offer_made u offered requested w r" "deal_inv w" "row_at u (tw_offers w) = None" "goods_ok offered" "goods_ok requested"
  shows "step_kept w (snd r)"
proof (cases r)
  case (Pair reply w')
  show ?thesis
  proof (cases reply)
    case (Inr v)
    with Pair assms(1) obtain ofr where made: "of_offered ofr = offered" "of_requested ofr = requested" "of_status ofr = ''open''"
        "tw_offers w' = tw_offers w @ [(u, ofr)]" and same: "tw_inventories w' = tw_inventories w" "tw_finances w' = tw_finances w" "tw_trades w' = tw_trades w"
      by auto
    have "offers_ok w'" "settled w' = settled w"
      using append_offer_ok [of w u ofr w'] assms(2-5) made by (simp_all add: deal_inv_def)
    with assms(2) same show ?thesis by (simp add: Pair step_kept_holdings)
  qed (use Pair assms in \<open>simp add: step_kept_refl\<close>)
qed

text \<open>An exchange closes its offer and records one trade.\<close>

lemma concluded_kept:
  assumes "deal_inv w" "row_at u (tw_offers w) = Some ofr" "of_status ofr = ''open''"
    and "world_ok w'" "solvent w'" "\<And>i. total_item i w' = total_item i w" "total_gold w' = total_gold w"
    and "tw_offers w' = tw_offers w" "tw_trades w' = tw_trades w"
  shows "step_kept w (conclude env u t k td w')"
proof -
  let ?c = "conclude env u t k td w'"
  have off: "offers_ok w'" using assms(1,8) by (simp add: deal_inv_def same_offers [of w' w])
  have "offers_ok ?c" "settled ?c = settled w + 1"
    using set_status_ok [OF off, of "''accepted''" u] same_offers [of ?c "snd (accept_offer u w')"] assms(2,3,8) same_offers [of w' w]
    by (simp_all add: accept_offer_def deal_frame)
  with assms show ?thesis by (simp add: step_kept_def deal_inv_def same_holdings [of ?c w'] deal_frame)
qed

lemma offer_goods: "offers_ok w \<Longrightarrow> row_at u (tw_offers w) = Some ofr \<Longrightarrow> goods_ok (of_offered ofr) \<and> goods_ok (of_requested ofr)"
  by (auto simp: offers_ok_def row_at_def dest!: map_of_SomeD)

lemma trade_obstacle_none:
  "trade_obstacle ofr p w = None \<longleftrightarrow> of_status ofr = ''open'' \<and> \<not> for_someone_else (of_target ofr) p \<and>
     has_goods (of_initiator ofr) (of_offered ofr) w \<and> has_goods p (of_requested ofr) w \<and>
     of_gold_offered ofr \<le> gold_of (of_initiator ofr) w \<and> of_gold_requested ofr \<le> gold_of p w"
  using goods_obstacle_none [of ofr p w] by (auto simp: trade_obstacle_def not_less split: option.splits)

lemma barter_obstacle_none:
  "barter_obstacle env ofr p w = None \<longleftrightarrow> of_status ofr = ''open'' \<and> \<not> for_someone_else (of_target ofr) p \<and>
     0 < max (barter_value env (of_initiator ofr) p (of_offered ofr) w) (barter_value env p (of_initiator ofr) (of_requested ofr) w) \<and>
     \<bar>barter_value env (of_initiator ofr) p (of_offered ofr) w - barter_value env p (of_initiator ofr) (of_requested ofr) w\<bar>
       \<le> barter_tolerance env * max (barter_value env (of_initiator ofr) p (of_offered ofr) w) (barter_value env p (of_initiator ofr) (of_requested ofr) w) \<and>
     has_goods (of_initiator ofr) (of_offered ofr) w \<and> has_goods p (of_requested ofr) w"
  by (auto simp: barter_obstacle_def Let_def not_less not_le goods_obstacle_none split: if_splits)

lemma accept_trade_kept:
  assumes "deal_inv w"
  shows "step_kept w (snd (accept_trade env t u p w))"
proof (cases "row_at u (tw_offers w)")
  case (Some ofr)
  show ?thesis
  proof (cases "trade_obstacle ofr p w")
    case None
    let ?g = "exchange_goods ofr p w" and ?x = "exchange_gold ofr p (exchange_goods ofr p w)"
    have ok: "world_ok w" "solvent w" "goods_ok (of_offered ofr)" "goods_ok (of_requested ofr)"
      using assms offer_goods Some by (auto simp: deal_inv_def)
    note free = None [unfolded trade_obstacle_none]
    have g: "world_ok ?g \<and> (\<forall>i. total_item i ?g = total_item i w) \<and> tw_finances ?g = tw_finances w \<and> solvent ?g"
      using exchange_goods_ok [OF ok(1) _ _ ok(3,4)] free ok(2) by blast
    have gold: "gold_of q ?g = gold_of q w" for q using g by (simp add: gold_of_def)
    have x: "world_ok ?x \<and> total_gold ?x = total_gold ?g \<and> tw_inventories ?x = tw_inventories ?g \<and> solvent ?x"
      using exchange_gold_ok [of ?g ofr p] g free by (simp add: gold)
    have "total_item i ?x = total_item i w" for i using g x by (simp add: total_item_def)
    moreover have "total_gold ?x = total_gold w" using g x by (simp add: total_gold_def)
    moreover have "tw_offers ?x = tw_offers w" "tw_trades ?x = tw_trades w" by (simp_all add: exchange_gold_def exchange_goods_def deal_frame)
    ultimately have kept: "step_kept w (conclude env u t k td ?x)" for k td
      using concluded_kept [OF assms Some, of ?x env t k td] free x by simp
    have "step_kept w' (update_state_trade_offers w')" if "deal_inv w'" for w'
      using that by (intro step_kept_holdings) (simp_all add: deal_frame same_offers [of "update_state_trade_offers w'" w'] deal_inv_def)
    moreover have "deal_inv (conclude env u t k td ?x)" for k td using kept by (simp add: step_kept_def)
    ultimately show ?thesis using kept by (simp add: accept_trade_def Some None execute_trade_def) (meson step_kept_trans)
  qed (simp add: accept_trade_def Some step_kept_refl assms)
qed (simp add: accept_trade_def step_kept_refl assms)

lemma accept_barter_kept:
  assumes "deal_inv w"
  shows "step_kept w (snd (accept_barter env t u p w))"
proof (cases "get_barter_offer u w")
  case (Some ofr)
  then have row: "row_at u (tw_offers w) = Some ofr" by (auto simp: get_barter_offer_def split: option.splits if_splits)
  show ?thesis
  proof (cases "barter_obstacle env ofr p w")
    case None
    let ?g = "exchange_goods ofr p w"
    have ok: "world_ok w" "solvent w" "goods_ok (of_offered ofr)" "goods_ok (of_requested ofr)"
      using assms offer_goods row by (auto simp: deal_inv_def)
    note free = None [unfolded barter_obstacle_none]
    have g: "world_ok ?g \<and> (\<forall>i. total_item i ?g = total_item i w) \<and> tw_finances ?g = tw_finances w \<and> solvent ?g"
      using exchange_goods_ok [OF ok(1) _ _ ok(3,4)] free ok(2) by blast
    moreover have "total_gold ?g = total_gold w" using g by (simp add: total_gold_def)
    moreover have "tw_offers ?g = tw_offers w" "tw_trades ?g = tw_trades w" by (simp_all add: exchange_goods_def deal_frame)
    ultimately show ?thesis
      using concluded_kept [OF assms row, of ?g env t] free by (simp add: accept_barter_def Some None execute_barter_def)
  qed (simp add: accept_barter_def Some step_kept_refl assms)
qed (simp add: accept_barter_def step_kept_refl assms)



text \<open>Declining settles the offer first, so the decline itself finds nothing open.\<close>

lemma decline_always_fails:
  "decline_trade_offer u p w =
     (case row_at u (tw_offers w) of
        None \<Rightarrow> (Inl ''Offer not found'', w)
      | Some ofr \<Rightarrow> if for_someone_else (of_target ofr) p then (Inl ''This offer is not for you'', w)
                  else (Inl ''Failed to decline offer'', snd (accept_offer u w)))"
proof (cases "row_at u (tw_offers w)")
  case (Some ofr)
  have "decline_offer u (snd (accept_offer u w)) = (False, snd (accept_offer u w))"
    by (simp add: decline_offer_def accept_offer_def set_offer_status_def Some row_at_update)
  then show ?thesis by (simp add: decline_trade_offer_def Some)
qed (simp add: decline_trade_offer_def)

lemma accept_offer_kept:
  assumes "deal_inv w"
  shows "step_kept w (snd (accept_offer u w))"
proof (rule step_kept_holdings [OF assms])
  have off: "offers_ok w" using assms by (simp add: deal_inv_def)
  show "offers_ok (snd (accept_offer u w))" using set_status_ok(1) [OF off] by (simp add: accept_offer_def)
  show "int (length (tw_trades (snd (accept_offer u w)))) - settled (snd (accept_offer u w)) \<le> int (length (tw_trades w)) - settled w"
    using set_status_ok(3) [OF off, of "''accepted''" u] by (simp add: accept_offer_def deal_frame split: option.splits)
qed (simp_all add: accept_offer_def deal_frame)

lemma map_values: "row_at u (map (\<lambda>(u, ofr). (u, f ofr)) t) = map_option f (row_at u t)"
  "keys_unique (map (\<lambda>(u, ofr). (u, f ofr)) t) = keys_unique t"
proof -
  show "row_at u (map (\<lambda>(u, ofr). (u, f ofr)) t) = map_option f (row_at u t)" by (induction t) (auto simp: row_at_def)
  have "map fst (map (\<lambda>(u, ofr). (u, f ofr)) t) = map fst t" by (induction t) auto
  then show "keys_unique (map (\<lambda>(u, ofr). (u, f ofr)) t) = keys_unique t" by (simp only: keys_unique_def)
qed

lemma expire_kept:
  assumes "deal_inv w"
  shows "step_kept w (snd (expire_old_offers now age w))"
proof -
  have "table_sum f (map (\<lambda>(u, ofr). (u, if Q ofr then ofr\<lparr>of_status := ''expired''\<rparr> else ofr)) t) = table_sum f t"
    if "f = (\<lambda>ofr. if of_status ofr = ''accepted'' then 1 else 0)" "\<And>ofr. Q ofr \<Longrightarrow> of_status ofr = ''open''"
    for f :: "offer \<Rightarrow> int" and Q and t :: "(string, offer) table"
    using that(2) by (induction t) (auto simp: table_sum_def that(1))
  then have "settled (snd (expire_old_offers now age w)) = settled w" by (simp add: settled_def expire_old_offers_def Let_def)
  moreover have "offers_ok (snd (expire_old_offers now age w))"
    using assms by (auto simp: deal_inv_def offers_ok_def expire_old_offers_def map_values Let_def)
  ultimately show ?thesis by (intro step_kept_holdings [OF assms]) (simp_all add: expire_old_offers_def Let_def)
qed

lemma deal_step_kept: "deal_step env w w' \<Longrightarrow> deal_inv w \<Longrightarrow> step_kept w w'"
proof (induction rule: deal_step.induct)
  case (decline w u p)
  then show ?case using accept_offer_kept [of w u] by (simp add: decline_always_fails step_kept_refl split: option.split)
next
  case (tick w)
  then show ?case by (intro step_kept_holdings) (simp_all add: tick_cooldowns_def Let_def deal_inv_def offers_ok_def settled_def)
next
  case (initiate offered requested u w now a b go gr)
  then show ?case using offer_made_kept [OF initiate_made] by blast
next
  case (propose offered requested u w now a b)
  then show ?case using offer_made_kept [OF propose_made] by blast
qed (simp_all add: accept_trade_kept accept_barter_kept expire_kept)

lemma deal_steps_kept: "(deal_step env)\<^sup>*\<^sup>* w w' \<Longrightarrow> deal_inv w \<Longrightarrow> step_kept w w'"
proof (induction rule: rtranclp_induct)
  case (step y z)
  then show ?case using deal_step_kept step_kept_trans by (metis step_kept_def)
qed (rule step_kept_refl)

section \<open>Closed offers\<close>

text \<open>Offers that are no longer open are as they were.\<close>

definition closed_kept :: "trade_world \<Rightarrow> trade_world \<Rightarrow> bool" where
  "closed_kept w w' \<longleftrightarrow> (\<forall>u ofr. row_at u (tw_offers w) = Some ofr \<longrightarrow> of_status ofr \<noteq> ''open'' \<longrightarrow> row_at u (tw_offers w') = Some ofr)"

lemma closed_kept_same: "tw_offers w' = tw_offers w \<Longrightarrow> closed_kept w w'"
  by (simp add: closed_kept_def)

lemma closed_kept_status: "closed_kept w (snd (set_offer_status s u w))"
  by (auto simp: closed_kept_def set_offer_status_def row_at_update split: option.split)

lemma row_at_prefix: "row_at k t = Some r \<Longrightarrow> row_at k (t @ t') = Some r"
  by (simp add: row_at_def)

lemma closed_kept_made: "offer_made u offered requested w r \<Longrightarrow> closed_kept w (snd r)"
  by (cases "(u, offered, requested, w, r)" rule: offer_made.cases) (auto simp: closed_kept_def row_at_prefix)

lemma closed_kept_offers: "tw_offers w' = tw_offers (snd (accept_offer u w)) \<Longrightarrow> closed_kept w w'"
  using closed_kept_status [of w "''accepted''" u] unfolding closed_kept_def accept_offer_def by metis

lemma accept_offer_offers: "tw_offers w' = tw_offers w \<Longrightarrow> tw_offers (snd (accept_offer u w')) = tw_offers (snd (accept_offer u w))"
  by (simp add: accept_offer_def set_offer_status_def split: option.split)

lemma deal_step_closed: "deal_step env w w' \<Longrightarrow> closed_kept w w'"
proof (induction rule: deal_step.induct)
  case (accept w t u p)
  have "tw_offers (execute_trade env u t ofr p w) = tw_offers (snd (accept_offer u w))" for ofr
    unfolding execute_trade_def deal_frame by (rule accept_offer_offers) (simp add: exchange_gold_def exchange_goods_def deal_frame)
  from closed_kept_offers [OF this] show ?case by (simp add: accept_trade_def closed_kept_same split: option.split)
next
  case (accept_barter w t u p)
  have "tw_offers (execute_barter env u t ofr p w) = tw_offers (snd (accept_offer u w))" for ofr
    unfolding execute_barter_def deal_frame by (rule accept_offer_offers) (simp add: exchange_goods_def deal_frame)
  from closed_kept_offers [OF this] show ?case by (simp add: accept_barter_def closed_kept_same split: option.split)
next
  case (decline w u p)
  show ?case using closed_kept_offers [of "snd (accept_offer u w)" u w] by (simp add: decline_always_fails closed_kept_same split: option.split)
next
  case (expire w now age)
  show ?case by (auto simp: closed_kept_def expire_old_offers_def Let_def map_values)
next
  case (tick w)
  then show ?case by (simp add: closed_kept_same tick_cooldowns_def Let_def)
next
  case (initiate offered requested u w now a b go gr)
  then show ?case using closed_kept_made [OF initiate_made] by blast
next
  case (propose offered requested u w now a b)
  then show ?case using closed_kept_made [OF propose_made] by blast
qed

lemma deal_steps_closed: "(deal_step env)\<^sup>*\<^sup>* w w' \<Longrightarrow> closed_kept w w'"
proof (induction rule: rtranclp_induct)
  case (step y z)
  then show ?case using deal_step_closed [OF step.hyps(2)] by (auto simp: closed_kept_def)
qed (simp add: closed_kept_def)



section \<open>Properties\<close>

text \<open>A small world for the witnesses: \<open>ann\<close> has bread, \<open>bob\<close> has gold.\<close>

definition bread_offer :: offer where
  "bread_offer = \<lparr>of_initiator = ''ann'', of_target = Some ''bob'', of_type = ''trade'', of_offered = [(''minecraft:bread'', 3)], of_requested = [],
     of_gold_requested = 9, of_gold_offered = 0, of_status = ''open'', of_location = ''unknown'', of_created = 0\<rparr>"

definition market :: trade_world where
  "market = empty_world\<lparr>tw_inventories := [(''ann'', [(''minecraft:bread'', 5)])], tw_finances := [(''bob'', 20)], tw_offers := [(''o1'', bread_offer)]\<rparr>"

lemmas market_simps = market_def empty_world_def plain_env_def bread_offer_def row_at_def

lemma market_inv: "deal_inv market"
proof -
  have "world_ok market" by (simp add: market_simps world_ok_def keys_unique_def)
  moreover have "offers_ok market" by (simp add: market_simps offers_ok_def keys_unique_def goods_ok_def)
  moreover have "solvent market" by (simp add: market_simps solvent_def gold_of_def inventory_of_def item_count_def)
  ultimately show ?thesis by (simp add: deal_inv_def)
qed

lemma market_trades: "fst (accept_trade plain_env ''t1'' ''o1'' ''bob'' market) = Inr ''t1''"
proof -
  have "trade_obstacle bread_offer ''bob'' market = None"
    by (simp add: trade_obstacle_none market_simps has_goods_def inventory_of_def item_count_def gold_of_def)
  then show ?thesis by (simp add: accept_trade_def) (simp add: market_simps)
qed



text \<open>C3: An offer that has left the open state never changes again, so it cannot be traded twice: whatever runs after it
  was accepted, declined or expired, accepting it, as a trade or as a barter, is refused and leaves the world as it is.\<close>

theorem closed_offers_stay_closed:
  assumes "(deal_step env)\<^sup>*\<^sup>* w w'" "row_at u (tw_offers w) = Some ofr" "of_status ofr \<noteq> ''open''"
  shows "row_at u (tw_offers w') = Some ofr \<and> accept_trade env t u p w' = (Inl (''Offer is '' @ of_status ofr @ '', not open''), w') \<and>
    accept_barter env t u p w' = (Inl (if of_type ofr = ''barter'' then ''Offer is '' @ of_status ofr else ''Offer not found''), w')"
proof -
  have "row_at u (tw_offers w') = Some ofr" using deal_steps_closed [OF assms(1)] assms(2,3) by (simp add: closed_kept_def)
  then show ?thesis
    using assms(3) by (simp add: accept_trade_def trade_obstacle_def accept_barter_def get_barter_offer_def barter_obstacle_def Let_def)
qed

theorem closed_offers_stay_closed_witness:
  "let w = market\<lparr>tw_offers := [(''o1'', bread_offer\<lparr>of_status := ''expired''\<rparr>)]\<rparr>
   in accept_trade plain_env ''t1'' ''o1'' ''bob'' (snd (tick_cooldowns w)) = (Inl ''Offer is expired, not open'', snd (tick_cooldowns w))"
proof -
  let ?w = "market\<lparr>tw_offers := [(''o1'', bread_offer\<lparr>of_status := ''expired''\<rparr>)]\<rparr>"
  have "(deal_step plain_env)\<^sup>*\<^sup>* ?w (snd (tick_cooldowns ?w))" by (rule r_into_rtranclp) (rule deal_step.tick)
  from closed_offers_stay_closed [OF this, of "''o1''" "bread_offer\<lparr>of_status := ''expired''\<rparr>"] show ?thesis by (simp add: row_at_def)
qed

text \<open>C17: Declining never succeeds: the function first marks the offer accepted, so the decline that follows finds no open
  offer and the reply is a failure.  The offer stays in the table as accepted although nothing was exchanged.\<close>

theorem declining_marks_accepted:
  assumes "row_at u (tw_offers w) = Some ofr" "of_status ofr = ''open''" "\<not> for_someone_else (of_target ofr) p"
  shows "fst (decline_trade_offer u p w) = Inl ''Failed to decline offer'' \<and>
    row_at u (tw_offers (snd (decline_trade_offer u p w))) = Some (ofr\<lparr>of_status := ''accepted''\<rparr>) \<and>
    tw_inventories (snd (decline_trade_offer u p w)) = tw_inventories w \<and> tw_finances (snd (decline_trade_offer u p w)) = tw_finances w \<and>
    tw_trades (snd (decline_trade_offer u p w)) = tw_trades w"
  using assms by (simp_all add: decline_always_fails accept_offer_def deal_frame) (simp add: set_offer_status_def row_at_update)

theorem declining_marks_accepted_witness:
  "fst (decline_trade_offer ''o1'' ''bob'' market) = Inl ''Failed to decline offer''"
proof -
  have "row_at ''o1'' (tw_offers market) = Some bread_offer" "of_status bread_offer = ''open''" "\<not> for_someone_else (of_target bread_offer) ''bob''"
    by (simp_all add: market_simps)
  from declining_marks_accepted [OF this] show ?thesis by (rule conjunct1)
qed


end
