(* ===== verification/TradeRoads.thy ===== *)
theory TradeRoads
  imports TradeWorld
begin

text \<open>
  Trade routes and caravans (\<open>tr_routes.py\<close> and the statements of \<open>tr_database.py\<close> it uses): building, upgrading and
  maintaining a road, dispatching a caravan, its progress and its arrival.  Waypoints are pairs of coordinates.
\<close>

section \<open>Statements\<close>

definition create_route :: "string \<Rightarrow> route \<Rightarrow> trade_world \<Rightarrow> trade_world" where
  "create_route u r w = w\<lparr>tw_routes := tw_routes w @ [(u, r\<lparr>rt_level := 1, rt_active := True, rt_bandits := 0, rt_guard := 5\<rparr>)]\<rparr>"

definition change_route :: "string \<Rightarrow> (route \<Rightarrow> route) \<Rightarrow> trade_world \<Rightarrow> trade_world" where
  "change_route u f w = w\<lparr>tw_routes := update_row u f (tw_routes w)\<rparr>"

definition upgrade_route :: "rat \<Rightarrow> string \<Rightarrow> trade_world \<Rightarrow> bool \<times> trade_world" where
  "upgrade_route now u w =
     (case row_at u (tw_routes w) of
        None \<Rightarrow> (False, w)
      | Some r \<Rightarrow> if rt_level r < 5 then (True, change_route u (\<lambda>r. r\<lparr>rt_level := min (rt_level r + 1) 5, rt_maintained := now\<rparr>) w) else (False, w))"

definition maintain_route :: "rat \<Rightarrow> string \<Rightarrow> trade_world \<Rightarrow> trade_world" where
  "maintain_route now u w = change_route u (\<lambda>r. r\<lparr>rt_maintained := now\<rparr>) w"

definition degrade_route :: "string \<Rightarrow> trade_world \<Rightarrow> bool \<times> trade_world" where
  "degrade_route u w =
     (case row_at u (tw_routes w) of
        None \<Rightarrow> (False, w)
      | Some r \<Rightarrow> if rt_level r > 1 then (True, change_route u (\<lambda>r. r\<lparr>rt_level := max (rt_level r - 1) 1\<rparr>) w) else (False, w))"

definition create_caravan :: "string \<Rightarrow> caravan \<Rightarrow> trade_world \<Rightarrow> trade_world" where
  "create_caravan u c w = w\<lparr>tw_caravans := tw_caravans w @ [(u, c\<lparr>cv_segment := 0, cv_status := ''traveling''\<rparr>)]\<rparr>"

definition advance :: "rat \<Rightarrow> caravan \<Rightarrow> caravan" where
  "advance speed c =
     c\<lparr>cv_segment := min (cv_segment c + speed) (of_nat (cv_total c)),
       cv_status := if cv_segment c + speed \<ge> of_nat (cv_total c) then ''arrived'' else ''traveling''\<rparr>"

definition advance_caravan :: "string \<Rightarrow> rat \<Rightarrow> trade_world \<Rightarrow> bool \<times> trade_world" where
  "advance_caravan u speed w =
     (case row_at u (tw_caravans w) of
        None \<Rightarrow> (False, w)
      | Some c \<Rightarrow> if cv_status c = ''traveling'' then (True, w\<lparr>tw_caravans := update_row u (advance speed) (tw_caravans w)\<rparr>) else (False, w))"

definition get_active_caravans_on_route :: "string \<Rightarrow> trade_world \<Rightarrow> (string \<times> caravan) list" where
  "get_active_caravans_on_route r w = filter (\<lambda>(u, c). cv_route c = r \<and> cv_status c = ''traveling'') (tw_caravans w)"

definition get_routes_for_persona :: "string \<Rightarrow> trade_world \<Rightarrow> (string \<times> route) list" where
  "get_routes_for_persona p w = sort_key (\<lambda>(u, r). - rt_built r) (filter (\<lambda>(u, r). rt_owner r = p \<and> rt_active r) (tw_routes w))"

section \<open>Roads\<close>

definition owns_claim :: "string \<Rightarrow> string \<Rightarrow> trade_world \<Rightarrow> bool" where
  "owns_claim p c w \<longleftrightarrow> row_at p (tw_claims w) = Some c \<or> row_at c (tw_claims w) = Some p"

fun calculate_route_distance :: "trade_env \<Rightarrow> (rat \<times> rat) list \<Rightarrow> rat" where
  "calculate_route_distance env (a # b # s) = te_sqrt env ((fst b - fst a) ^ 2 + (snd b - snd a) ^ 2) + calculate_route_distance env (b # s)"
| "calculate_route_distance env s = 0"

definition wood_types :: "string list" where
  "wood_types = [''minecraft:wood'', ''minecraft:oak_log'', ''minecraft:spruce_log'', ''minecraft:birch_log'', ''minecraft:jungle_log'',
                 ''minecraft:acacia_log'', ''minecraft:dark_oak_log'']"

definition stone_types :: "string list" where
  "stone_types = [''minecraft:stone'', ''minecraft:cobblestone'']"

definition stock :: "string list \<Rightarrow> string \<Rightarrow> trade_world \<Rightarrow> int" where
  "stock ts p w = sum_list (map (\<lambda>t. item_count t (inventory_of p w)) ts)"

fun consume_kinds :: "string \<Rightarrow> string list \<Rightarrow> int \<Rightarrow> trade_world \<Rightarrow> trade_world" where
  "consume_kinds p [] left w = w"
| "consume_kinds p (t # ts) left w =
     (if left \<le> 0 then w
      else let held = item_count t (inventory_of p w)
           in if held > 0 then consume_kinds p ts (left - min held left) (snd (remove_items p t (min held left) w)) else consume_kinds p ts left w)"

definition consume_construction_materials :: "string \<Rightarrow> int \<Rightarrow> int \<Rightarrow> trade_world \<Rightarrow> trade_world" where
  "consume_construction_materials p wood stone w = consume_kinds p stone_types stone (consume_kinds p wood_types wood w)"

definition wood_base :: "trade_env \<Rightarrow> int" where
  "wood_base env = trade_config_int env ''routes'' ''construction_cost_wood_base'' 64"

definition stone_base :: "trade_env \<Rightarrow> int" where
  "stone_base env = trade_config_int env ''routes'' ''construction_cost_stone_base'' 32"

definition construct_route ::
  "trade_env \<Rightarrow> rat \<Rightarrow> string \<Rightarrow> string \<Rightarrow> string \<Rightarrow> string \<Rightarrow> (rat \<times> rat) list \<Rightarrow> trade_world \<Rightarrow> (string + string) \<times> trade_world" where
  "construct_route env now u p a b segs w =
     (let d = calculate_route_distance env segs;
          wood = wood_base env * max 1 (py_trunc (d / 100)); stone = stone_base env * max 1 (py_trunc (d / 100));
          wood_available = stock [''minecraft:wood'', ''minecraft:oak_log'', ''minecraft:spruce_log''] p w;
          stone_available = stock stone_types p w
      in if \<not> owns_claim p a w then (Inl ''You don't own the source claim'', w)
         else if b \<notin> set (tw_all_claims w) then (Inl ''Destination claim doesn't exist'', w)
         else if get_routes_between_claims a b w \<noteq> [] then (Inl ''A route already exists between these claims'', w)
         else if wood_available < wood then (Inl (''Need '' @ str_int wood @ '' wood (have '' @ str_int wood_available @ '')''), w)
         else if stone_available < stone then (Inl (''Need '' @ str_int stone @ '' stone (have '' @ str_int stone_available @ '')''), w)
         else let w1 = create_route u \<lparr>rt_owner = p, rt_from = a, rt_to = b, rt_segments = segs, rt_distance = d, rt_level = 1,
                          rt_maintained = now, rt_active = True, rt_bandits = 0, rt_built = now, rt_guard = 5\<rparr>
                        (consume_construction_materials p wood stone w)
              in (Inr u, w1\<lparr>tw_route_list := tw_route_list w1 @ [(u, p, a, b, d)]\<rparr>))"

definition upgrade_road :: "trade_env \<Rightarrow> rat \<Rightarrow> string \<Rightarrow> string \<Rightarrow> trade_world \<Rightarrow> (string + nat) \<times> trade_world" where
  "upgrade_road env now u p w =
     (case row_at u (tw_routes w) of
        None \<Rightarrow> (Inl ''Route not found'', w)
      | Some r \<Rightarrow>
          let wood = wood_base env * int (rt_level r) * 2; stone = stone_base env * int (rt_level r) * 2
          in if rt_owner r \<noteq> p then (Inl ''You don't own this route'', w)
             else if int (rt_level r) \<ge> trade_config_int env ''routes'' ''max_route_level'' 5 then (Inl ''Route already at max level'', w)
             else if stock [''minecraft:wood'', ''minecraft:oak_log''] p w < wood then (Inl (''Need '' @ str_int wood @ '' wood for upgrade''), w)
             else if stock stone_types p w < stone then (Inl (''Need '' @ str_int stone @ '' stone for upgrade''), w)
             else let (done, w1) = upgrade_route now u (consume_construction_materials p wood stone w)
                  in if done then (Inr (rt_level r + 1), w1) else (Inl ''Failed to upgrade route'', w1))"

definition perform_maintenance :: "trade_env \<Rightarrow> rat \<Rightarrow> string \<Rightarrow> string \<Rightarrow> trade_world \<Rightarrow> (string + unit) \<times> trade_world" where
  "perform_maintenance env now u p w =
     (case row_at u (tw_routes w) of
        None \<Rightarrow> (Inl ''Route not found'', w)
      | Some r \<Rightarrow>
          if rt_owner r \<noteq> p then (Inl ''You don't own this route'', w)
          else if stock [''minecraft:wood'', ''minecraft:oak_log''] p w < wood_base env div 4
            then (Inl (''Need '' @ str_int (wood_base env div 4) @ '' wood for maintenance''), w)
          else (Inr (), maintain_route now u (consume_construction_materials p (wood_base env div 4) (stone_base env div 4) w)))"

section \<open>Caravans\<close>

definition load_goods :: "string \<Rightarrow> goods \<Rightarrow> trade_world \<Rightarrow> trade_world" where
  "load_goods p g w = fold (\<lambda>(i, q) w. snd (remove_items p i q w)) g w"

definition dispatch_caravan ::
  "string \<Rightarrow> string \<Rightarrow> string \<Rightarrow> goods \<Rightarrow> rat \<Rightarrow> nat \<Rightarrow> trade_world \<Rightarrow> (string + string) \<times> trade_world" where
  "dispatch_caravan u p ru cargo gold guards w =
     (case row_at ru (tw_routes w) of
        None \<Rightarrow> (Inl ''Route not found'', w)
      | Some r \<Rightarrow>
          if rt_owner r \<noteq> p then (Inl ''You don't own this route'', w)
          else case short_item (inventory_of p w) cargo of
              Some i \<Rightarrow> (Inl (''Don't have enough '' @ i @ '' in inventory''), w)
            | None \<Rightarrow>
                if gold_of p w < gold then (Inl ''Not enough gold'', w)
                else let w1 = create_caravan u \<lparr>cv_route = ru, cv_owner = p, cv_cargo = cargo, cv_gold = gold, cv_guards = guards,
                                cv_power = 5 + of_nat guards * 3, cv_segment = 0, cv_total = max 1 (length (rt_segments r)), cv_status = ''traveling''\<rparr>
                              (snd (remove_gold p gold (load_goods p cargo w)))
                     in (Inr u, w1\<lparr>tw_caravan_list := tw_caravan_list w1 @ [(u, ru)]\<rparr>))"

definition delivered :: "int \<Rightarrow> int" where
  "delivered q = max 1 (py_trunc (of_int q * (95 / 100)))"

definition unload_goods :: "string \<Rightarrow> goods \<Rightarrow> trade_world \<Rightarrow> trade_world" where
  "unload_goods p g w = fold (\<lambda>(i, q). add_items p i (delivered q)) g w"

definition set_caravan_status :: "string \<Rightarrow> string \<Rightarrow> trade_world \<Rightarrow> trade_world" where
  "set_caravan_status s u w = w\<lparr>tw_caravans := update_row u (\<lambda>c. c\<lparr>cv_status := s\<rparr>) (tw_caravans w)\<rparr>"

text \<open>The reply names the whole cargo, whatever was lost.\<close>

definition process_caravan_arrival :: "string \<Rightarrow> trade_world \<Rightarrow> (string + goods \<times> rat) \<times> trade_world" where
  "process_caravan_arrival u w =
     (case row_at u (tw_caravans w) of
        None \<Rightarrow> (Inl ''Caravan not found or not arrived'', w)
      | Some c \<Rightarrow>
          if cv_status c \<noteq> ''arrived'' then (Inl ''Caravan not found or not arrived'', w)
          else (Inr (cv_cargo c, cv_gold c),
                set_caravan_status ''completed'' u (add_gold (cv_owner c) (cv_gold c) (unload_goods (cv_owner c) (cv_cargo c) w))))"

definition caravan_speed :: "trade_env \<Rightarrow> caravan \<Rightarrow> trade_world \<Rightarrow> rat" where
  "caravan_speed env c w =
     (case row_at (cv_route c) (tw_routes w) of
        None \<Rightarrow> 1
      | Some r \<Rightarrow> of_nat (rt_level r) * trade_config env ''routes'' ''speed_per_level_bonus'' (3 / 10))"

fun has_arrived :: "caravan option \<Rightarrow> bool" where
  "has_arrived None \<longleftrightarrow> False"
| "has_arrived (Some c) \<longleftrightarrow> cv_status c = ''arrived''"

definition caravan_tick :: "trade_env \<Rightarrow> string \<times> caravan \<Rightarrow> trade_world \<Rightarrow> trade_world" where
  "caravan_tick env uc w =
     (let (moved, w1) = advance_caravan (fst uc) (caravan_speed env (snd uc) w) w
      in if moved \<and> has_arrived (row_at (fst uc) (tw_caravans w1)) then snd (process_caravan_arrival (fst uc) w1) else w1)"

definition calm_routes :: "trade_world \<Rightarrow> trade_world" where
  "calm_routes w = w\<lparr>tw_routes := map (\<lambda>(u, r). (u, if rt_active r then r\<lparr>rt_bandits := max 0 (rt_bandits r - 1 / 100)\<rparr> else r)) (tw_routes w)\<rparr>"

definition process_routes_tick :: "trade_env \<Rightarrow> trade_world \<Rightarrow> trade_world" where
  "process_routes_tick env w = calm_routes (fold (caravan_tick env) (filter (\<lambda>(u, c). cv_status c = ''traveling'') (tw_caravans w)) w)"


section \<open>Steps\<close>

text \<open>Cargo lists each item once, at least one of it; the code does not check it.\<close>

definition cargo_ok :: "goods \<Rightarrow> bool" where
  "cargo_ok g \<longleftrightarrow> distinct (map fst g) \<and> (\<forall>(i, q)\<in>set g. 1 \<le> q)"

inductive road_step :: "trade_env \<Rightarrow> trade_world \<Rightarrow> trade_world \<Rightarrow> bool" for env where
  construct: "road_step env w (snd (construct_route env now u p a b segs w))"
| upgrade: "road_step env w (snd (upgrade_road env now u p w))"
| maintain: "road_step env w (snd (perform_maintenance env now u p w))"
| dispatch: "cargo_ok cargo \<Longrightarrow> row_at u (tw_caravans w) = None \<Longrightarrow> road_step env w (snd (dispatch_caravan u p r cargo gold guards w))"
| arrive: "road_step env w (snd (process_caravan_arrival u w))"
| tick: "road_step env w (process_routes_tick env w)"

section \<open>What is in hands and on the road\<close>

definition loaded :: "(caravan \<Rightarrow> 'a::ab_group_add) \<Rightarrow> trade_world \<Rightarrow> 'a" where
  "loaded f w = table_sum (\<lambda>c. if cv_status c = ''completed'' then 0 else f c) (tw_caravans w)"

definition all_gold :: "trade_world \<Rightarrow> rat" where
  "all_gold w = total_gold w + loaded cv_gold w"

definition all_of_item :: "string \<Rightarrow> trade_world \<Rightarrow> int" where
  "all_of_item i w = total_item i w + loaded (\<lambda>c. item_count i (cv_cargo c)) w"

definition roads_inv :: "trade_world \<Rightarrow> bool" where
  "roads_inv w \<longleftrightarrow> world_ok w \<and> keys_unique (tw_caravans w) \<and> (\<forall>(u, c)\<in>set (tw_caravans w). cargo_ok (cv_cargo c))"

definition road_kept :: "trade_world \<Rightarrow> trade_world \<Rightarrow> bool" where
  "road_kept w w' \<longleftrightarrow> roads_inv w' \<and> all_gold w' = all_gold w \<and> (\<forall>i. all_of_item i w' \<le> all_of_item i w)"

lemma road_kept_refl: "roads_inv w \<Longrightarrow> road_kept w w"
  by (simp add: road_kept_def)

lemma road_kept_trans: "road_kept w w1 \<Longrightarrow> road_kept w1 w2 \<Longrightarrow> road_kept w w2"
  unfolding road_kept_def by (metis order_trans)

lemma road_kept_inv: "road_kept w w' \<Longrightarrow> roads_inv w'"
  by (simp add: road_kept_def)

text \<open>Worlds that differ only in roads and lists, or only by goods lost.\<close>

lemma road_kept_same:
  assumes "roads_inv w" "world_ok w'" "tw_finances w' = tw_finances w" "tw_caravans w' = tw_caravans w" "\<And>i. total_item i w' \<le> total_item i w"
  shows "road_kept w w'"
  using assms by (simp add: road_kept_def roads_inv_def all_gold_def all_of_item_def total_gold_def loaded_def)

lemma consume_kept:
  "world_ok w \<Longrightarrow> world_ok (consume_kinds p ts n w) \<and> tw_finances (consume_kinds p ts n w) = tw_finances w \<and> tw_caravans (consume_kinds p ts n w) = tw_caravans w \<and>
     total_item j (consume_kinds p ts n w) \<le> total_item j w"
proof (induction p ts n w rule: consume_kinds.induct)
  case (2 p t ts n w)
  let ?held = "item_count t (inventory_of p w)" and ?w = "snd (remove_items p t (min (item_count t (inventory_of p w)) n) w)"
  have "world_ok ?w" using 2(3) by (rule goods_ops_ok)
  moreover have "tw_finances ?w = tw_finances w" "tw_caravans ?w = tw_caravans w" by (simp_all add: remove_items_def Let_def)
  moreover have "total_item j ?w \<le> total_item j w" if "0 < ?held" "0 < n"
    using remove_items_total [of w "min ?held n" t p j] 2(3) that by (simp add: world_ok_def)
  ultimately show ?case using 2 by (auto simp: Let_def)
qed simp

lemma materials_kept:
  assumes "world_ok w"
  shows "world_ok (consume_construction_materials p a b w) \<and> tw_finances (consume_construction_materials p a b w) = tw_finances w \<and>
    tw_caravans (consume_construction_materials p a b w) = tw_caravans w \<and> total_item j (consume_construction_materials p a b w) \<le> total_item j w"
  using consume_kept [OF assms, of p wood_types a j]
    consume_kept [OF conjunct1 [OF consume_kept [OF assms, of p wood_types a j]], of p stone_types b j]
  unfolding consume_construction_materials_def by simp

lemma consume_frame: "tw_finances (consume_kinds p ts n w) = tw_finances w" "tw_caravans (consume_kinds p ts n w) = tw_caravans w"
  by (induction p ts n w rule: consume_kinds.induct) (simp_all add: Let_def remove_items_def)

lemma materials_frame:
  "tw_finances (consume_construction_materials p a b w) = tw_finances w" "tw_caravans (consume_construction_materials p a b w) = tw_caravans w"
  by (simp_all add: consume_construction_materials_def consume_frame)

lemma materials_road_kept:
  assumes "roads_inv w" "tw_inventories w' = tw_inventories (consume_construction_materials p a b w)" "tw_finances w' = tw_finances w"
    "tw_caravans w' = tw_caravans w"
  shows "road_kept w w'"
proof -
  have "world_ok w" using assms(1) by (simp add: roads_inv_def)
  from materials_kept [OF this, of p a b] assms show ?thesis by (intro road_kept_same) (simp_all add: world_ok_def total_item_def materials_frame)
qed

lemma load_goods_ok:
  assumes "world_ok w" "has_goods p g w" "distinct (map fst g)"
  shows "world_ok (load_goods p g w) \<and> tw_finances (load_goods p g w) = tw_finances w \<and> tw_caravans (load_goods p g w) = tw_caravans w \<and>
    total_item j (load_goods p g w) = total_item j w - item_count j g"
  using assms
proof (induction g arbitrary: w)
  case (Cons x g)
  obtain i q where x: "x = (i, q)" by (cases x)
  let ?w = "snd (remove_items p i q w)"
  have q: "q \<le> item_count i (inventory_of p w)" using Cons.prems(2) x by (simp add: has_goods_def)
  have "i \<notin> fst ` set g" using Cons.prems(3) x by simp
  then have "item_count k (inventory_of p ?w) = item_count k (inventory_of p w)" if "(k, n) \<in> set g" for k n
    using that by (subst remove_items_count [OF q]) force
  then have "has_goods p g ?w" using Cons.prems(2) by (auto simp: has_goods_def)
  then have "world_ok (load_goods p g ?w) \<and> tw_finances (load_goods p g ?w) = tw_finances ?w \<and> tw_caravans (load_goods p g ?w) = tw_caravans ?w \<and>
      total_item j (load_goods p g ?w) = total_item j ?w - item_count j g"
    using Cons.IH [of ?w] Cons.prems x by (simp add: goods_ops_ok)
  moreover have "total_item j ?w = total_item j w - (if j = i then q else 0)"
    using remove_items_total [OF _ q] Cons.prems(1) by (simp add: world_ok_def)
  moreover have "item_count j (x # g) = (if j = i then q else item_count j g)" "j = i \<Longrightarrow> item_count j g = 0"
    using \<open>i \<notin> fst ` set g\<close> row_at_keys [of i g] by (auto simp: x item_count_def row_at_def)
  ultimately show ?case by (auto simp: load_goods_def x remove_items_def Let_def)
qed (simp add: load_goods_def item_count_def row_at_def)

lemma delivered_bounds: "1 \<le> q \<Longrightarrow> delivered q \<le> q"
proof -
  assume "1 \<le> q"
  then have "0 \<le> of_int q * (95 / 100 :: rat)" "of_int q * (95 / 100 :: rat) \<le> of_int q" by simp_all
  then have "py_trunc (of_int q * (95 / 100)) \<le> q" by (simp add: py_trunc_def floor_le_iff)
  with \<open>1 \<le> q\<close> show "delivered q \<le> q" by (simp add: delivered_def)
qed

lemma unload_goods_ok:
  assumes "world_ok w" "cargo_ok g"
  shows "world_ok (unload_goods p g w) \<and> tw_finances (unload_goods p g w) = tw_finances w \<and> tw_caravans (unload_goods p g w) = tw_caravans w \<and>
    total_item j (unload_goods p g w) \<le> total_item j w + item_count j g"
  using assms
proof (induction g arbitrary: w)
  case (Cons x g)
  obtain i q where x: "x = (i, q)" by (cases x)
  let ?w = "add_items p i (delivered q) w"
  have "i \<notin> fst ` set g" "1 \<le> q" "cargo_ok g" using Cons.prems(2) x by (auto simp: cargo_ok_def)
  then have "world_ok (unload_goods p g ?w) \<and> tw_finances (unload_goods p g ?w) = tw_finances ?w \<and> tw_caravans (unload_goods p g ?w) = tw_caravans ?w \<and>
      total_item j (unload_goods p g ?w) \<le> total_item j ?w + item_count j g"
    using Cons.IH [of ?w] Cons.prems(1) by (simp add: goods_ops_ok)
  moreover have "total_item j ?w \<le> total_item j w + (if j = i then q else 0)"
    using add_items_total [of w j p i "delivered q"] Cons.prems(1) delivered_bounds [OF \<open>1 \<le> q\<close>] by (simp add: world_ok_def)
  moreover have "item_count j (x # g) = (if j = i then q else item_count j g)" "j = i \<Longrightarrow> item_count j g = 0"
    using \<open>i \<notin> fst ` set g\<close> row_at_keys [of i g] by (auto simp: x item_count_def row_at_def)
  ultimately show ?case by (auto simp: unload_goods_def x add_items_def Let_def)
qed (simp add: unload_goods_def item_count_def row_at_def)



text \<open>A caravan that is changed in place.\<close>

lemma loaded_update:
  "keys_unique (tw_caravans w) \<Longrightarrow> row_at u (tw_caravans w) = Some c \<Longrightarrow>
   loaded f (w\<lparr>tw_caravans := update_row u h (tw_caravans w)\<rparr>) =
     loaded f w - (if cv_status c = ''completed'' then 0 else f c) + (if cv_status (h c) = ''completed'' then 0 else f (h c))"
  by (simp add: loaded_def table_sum_update [where h = h])

lemma inv_update:
  "roads_inv w \<Longrightarrow> (\<And>c. cv_cargo (h c) = cv_cargo c) \<Longrightarrow> roads_inv (w\<lparr>tw_caravans := update_row u h (tw_caravans w)\<rparr>)"
  by (auto simp: roads_inv_def world_ok_def sql.wf_upd) (fastforce simp: update_row_def split: if_splits)

lemma inv_row: "roads_inv w \<Longrightarrow> row_at u (tw_caravans w) = Some c \<Longrightarrow> cargo_ok (cv_cargo c)"
  by (auto simp: roads_inv_def row_at_def dest!: map_of_SomeD)

lemma loaded_advance:
  assumes "keys_unique (tw_caravans w)" "row_at u (tw_caravans w) = Some c" "cv_status c = ''traveling''" "f (advance s c) = f c"
  shows "loaded f (w\<lparr>tw_caravans := update_row u (advance s) (tw_caravans w)\<rparr>) = loaded f w"
  unfolding loaded_update [OF assms(1,2)] using assms(3,4) by (simp add: advance_def)

lemma loaded_complete:
  assumes "keys_unique (tw_caravans w)" "row_at u (tw_caravans w) = Some c" "cv_status c = ''arrived''"
  shows "loaded f (set_caravan_status ''completed'' u w) = loaded f w - f c"
  unfolding set_caravan_status_def loaded_update [OF assms(1,2)] using assms(3) by simp

lemma advance_cargo: "cv_cargo (advance s c) = cv_cargo c" "cv_gold (advance s c) = cv_gold c"
  by (simp_all add: advance_def)

lemma advance_kept:
  assumes "roads_inv w"
  shows "road_kept w (snd (advance_caravan u s w))"
proof (cases "row_at u (tw_caravans w)")
  case (Some c)
  have u: "keys_unique (tw_caravans w)" using assms by (simp add: roads_inv_def)
  have "roads_inv (w\<lparr>tw_caravans := update_row u (advance s) (tw_caravans w)\<rparr>)" by (rule inv_update [OF assms]) (simp add: advance_def)
  then show ?thesis using assms
    by (simp add: advance_caravan_def Some road_kept_refl road_kept_def all_gold_def all_of_item_def total_gold_def total_item_def
        loaded_advance [OF u Some] advance_cargo)
qed (simp add: advance_caravan_def road_kept_refl assms)

lemma arrival_kept:
  assumes "roads_inv w"
  shows "road_kept w (snd (process_caravan_arrival u w))"
proof (cases "row_at u (tw_caravans w)")
  case (Some c)
  show ?thesis
  proof (cases "cv_status c = ''arrived''")
    case True
    let ?w1 = "unload_goods (cv_owner c) (cv_cargo c) w"
    let ?w2 = "add_gold (cv_owner c) (cv_gold c) ?w1" and ?w3 = "set_caravan_status ''completed'' u (add_gold (cv_owner c) (cv_gold c) ?w1)"
    have w: "world_ok w" "keys_unique (tw_caravans w)" using assms by (simp_all add: roads_inv_def)
    note un = unload_goods_ok [OF w(1) inv_row [OF assms Some], of "cv_owner c"]
    have same: "tw_caravans ?w2 = tw_caravans w" using un by (simp add: add_gold_def)
    have u2: "keys_unique (tw_caravans ?w2)" "row_at u (tw_caravans ?w2) = Some c" using w same Some by simp_all
    have "roads_inv ?w2" using assms un same by (simp add: roads_inv_def goods_ops_ok)
    then have "roads_inv ?w3" unfolding set_caravan_status_def by (rule inv_update) simp
    moreover have "loaded cv_gold ?w3 = loaded cv_gold w - cv_gold c"
      using loaded_complete [OF u2 True, of cv_gold] by (simp add: loaded_def same)
    moreover have "loaded (\<lambda>c. item_count i (cv_cargo c)) ?w3 = loaded (\<lambda>c. item_count i (cv_cargo c)) w - item_count i (cv_cargo c)" for i
      using loaded_complete [OF u2 True, of "\<lambda>c. item_count i (cv_cargo c)"] by (simp add: loaded_def same)
    moreover have "total_gold ?w2 = total_gold w + cv_gold c"
      using add_gold_total [OF conjunct1 [OF un]] un by (simp add: total_gold_def)
    then have "total_gold ?w3 = total_gold w + cv_gold c" by (simp add: set_caravan_status_def total_gold_def)
    moreover have "total_item i ?w3 \<le> total_item i w + item_count i (cv_cargo c)" for i
      using un [of i] by (simp add: set_caravan_status_def total_item_def gold_ops_inventories)
    ultimately have "road_kept w ?w3" by (simp add: road_kept_def all_gold_def all_of_item_def diff_le_eq)
    then show ?thesis by (simp add: process_caravan_arrival_def Some True)
  qed (simp add: process_caravan_arrival_def Some road_kept_refl assms)
qed (simp add: process_caravan_arrival_def road_kept_refl assms)

lemma tick_kept:
  assumes "roads_inv w"
  shows "road_kept w (process_routes_tick env w)"
proof -
  have one: "road_kept w' (caravan_tick env uc w')" if inv: "roads_inv w'" for uc w'
  proof -
    let ?w1 = "snd (advance_caravan (fst uc) (caravan_speed env (snd uc) w') w')"
    have "road_kept w' ?w1" by (rule advance_kept [OF inv])
    moreover have "road_kept ?w1 (snd (process_caravan_arrival (fst uc) ?w1))" by (rule arrival_kept) (rule road_kept_inv, fact)
    ultimately show ?thesis using road_kept_trans by (auto simp: caravan_tick_def split: prod.split)
  qed
  have "road_kept w' (fold (caravan_tick env) cs w')" if "roads_inv w'" for cs w'
    using that
  proof (induction cs arbitrary: w')
    case (Cons uc cs)
    then show ?case using one road_kept_inv road_kept_trans by simp blast
  qed (simp add: road_kept_refl)
  moreover have "road_kept w' (calm_routes w')" if "roads_inv w'" for w'
    using that by (intro road_kept_same) (simp_all add: calm_routes_def roads_inv_def world_ok_def total_item_def)
  ultimately show ?thesis using assms unfolding process_routes_tick_def by (blast intro: road_kept_inv road_kept_trans)
qed

lemma dispatch_kept:
  assumes "roads_inv w" "cargo_ok cargo" "row_at u (tw_caravans w) = None"
  shows "road_kept w (snd (dispatch_caravan u p r cargo gold guards w))"
proof (cases "row_at r (tw_routes w)")
  case (Some rt)
  show ?thesis
  proof (cases "rt_owner rt = p \<and> short_item (inventory_of p w) cargo = None \<and> \<not> gold_of p w < gold")
    case True
    let ?w1 = "load_goods p cargo w" and ?w2 = "snd (remove_gold p gold (load_goods p cargo w))"
    have w: "world_ok w" "has_goods p cargo w" "distinct (map fst cargo)"
      using assms True by (simp_all add: roads_inv_def short_item_none cargo_ok_def)
    note ld = load_goods_ok [OF w]
    have "gold \<le> gold_of p ?w1" using True ld by (simp add: gold_of_def)
    then have "total_gold ?w2 = total_gold w - gold" using remove_gold_total [OF conjunct1 [OF ld]] ld by (simp add: total_gold_def)
    moreover have "total_item i ?w2 = total_item i w - item_count i cargo" for i
      using ld [of i] by (simp add: total_item_def gold_ops_inventories)
    moreover have "world_ok ?w2" "tw_caravans ?w2 = tw_caravans w" using ld by (simp_all add: goods_ops_ok) (simp add: remove_gold_def)
    ultimately show ?thesis
      using assms True Some
      by (auto simp: dispatch_caravan_def create_caravan_def Let_def road_kept_def roads_inv_def all_gold_def all_of_item_def loaded_def
          table_sum_def total_gold_def total_item_def world_ok_def keys_unique_def row_at_def map_of_eq_None_iff)
  next
    case False
    then show ?thesis using Some assms(1) by (auto simp: dispatch_caravan_def road_kept_refl split: option.split)
  qed
qed (simp add: dispatch_caravan_def road_kept_refl assms)



lemma road_steps_kept: "(road_step env)\<^sup>*\<^sup>* w w' \<Longrightarrow> roads_inv w \<Longrightarrow> road_kept w w'"
proof (induction rule: rtranclp_induct)
  case (step y z)
  have kept: "road_kept w y" using step.IH step.prems by blast
  then have y: "roads_inv y" by (rule road_kept_inv)
  from step.hyps(2) have "road_kept y z"
  proof (cases rule: road_step.cases)
    case (construct now u p a b segs)
    show ?thesis unfolding construct(1)
      by (auto simp: construct_route_def Let_def create_route_def materials_frame road_kept_refl y intro!: materials_road_kept [OF y])
  next
    case (upgrade now u p)
    show ?thesis unfolding upgrade(1)
      by (auto simp: upgrade_road_def upgrade_route_def change_route_def Let_def materials_frame road_kept_refl y
          split: option.split intro!: materials_road_kept [OF y])
  next
    case (maintain now u p)
    show ?thesis unfolding maintain(1)
      by (auto simp: perform_maintenance_def maintain_route_def change_route_def Let_def materials_frame road_kept_refl y
          split: option.split intro!: materials_road_kept [OF y])
  qed (simp_all add: dispatch_kept arrival_kept tick_kept y)
  with kept show ?case by (rule road_kept_trans)
qed (rule road_kept_refl)

section \<open>Costs\<close>

lemma stock_simps: "stock [] p w = 0" "stock (t # ts) p w = item_count t (inventory_of p w) + stock ts p w"
  by (simp_all add: stock_def)

lemma stock_same: "(\<And>t. t \<in> set ts \<Longrightarrow> item_count t (inventory_of p w') = item_count t (inventory_of p w)) \<Longrightarrow> stock ts p w' = stock ts p w"
  by (induction ts) (simp_all add: stock_simps)

lemma stock_nonneg: "solvent w \<Longrightarrow> 0 \<le> stock ts p w"
  by (induction ts) (simp_all add: stock_simps solvent_def)

lemma remove_items_solvent: "solvent w \<Longrightarrow> q \<le> item_count i (inventory_of p w) \<Longrightarrow> solvent (snd (remove_items p i q w))"
  by (simp add: solvent_def remove_items_count) (simp add: remove_items_def Let_def gold_of_def)

lemma consume_exact:
  "solvent w \<Longrightarrow> distinct ts \<Longrightarrow> 0 \<le> n \<Longrightarrow> n \<le> stock ts p w \<Longrightarrow>
   stock ts p (consume_kinds p ts n w) = stock ts p w - n \<and> solvent (consume_kinds p ts n w) \<and>
   (\<forall>i. i \<notin> set ts \<longrightarrow> item_count i (inventory_of p (consume_kinds p ts n w)) = item_count i (inventory_of p w))"
proof (induction p ts n w rule: consume_kinds.induct)
  case (2 p t ts n w)
  show ?case
  proof (cases "n \<le> 0")
    case False
    let ?held = "item_count t (inventory_of p w)"
    show ?thesis
    proof (cases "0 < ?held")
      case True
      let ?w = "snd (remove_items p t (min ?held n) w)"
      have c: "item_count j (inventory_of p ?w) = item_count j (inventory_of p w) - (if j = t then min ?held n else 0)" for j
        using remove_items_count [of "min ?held n" t p w j p] by simp
      have "stock ts p ?w = stock ts p w" by (rule stock_same) (use 2(4) c in auto)
      then show ?thesis using 2(1) [OF False refl True] 2(3-6) False True c remove_items_solvent [of w "min ?held n" t p] stock_nonneg [OF 2(3), of ts p]
        by (auto simp: stock_simps Let_def min_def)
    next
      case no: False
      then have "?held = 0" using 2(3) unfolding solvent_def by (meson linorder_not_less order_antisym)
      then show ?thesis using 2(2) [OF False refl no] 2(3-6) False by (auto simp: stock_simps Let_def)
    qed
  qed (use 2 in simp)
qed (simp add: stock_simps)



section \<open>Properties\<close>

definition road_world :: trade_world where
  "road_world = empty_world\<lparr>tw_inventories := [(''ann'', [(''minecraft:wood'', 100), (''minecraft:stone'', 40)])], tw_finances := [(''ann'', 20)],
     tw_claims := [(''ann'', ''c1'')], tw_all_claims := [''c1'', ''c2'']\<rparr>"

lemmas road_world_simps = road_world_def empty_world_def

lemma road_world_ok: "roads_inv road_world" "solvent road_world"
  by (simp_all add: roads_inv_def world_ok_def keys_unique_def road_world_simps solvent_def gold_of_def inventory_of_def item_count_def row_at_def)



text \<open>
  A road that is built costs its builder exactly the wood and the stone asked for, taken over the kinds of wood and stone, nothing else
  is taken, and no stock becomes negative; a refused request changes nothing at all.
\<close>

theorem building_costs_exactly:
  assumes "construct_route env now u p a b segs w = (reply, w')" "solvent w" "0 \<le> wood_base env" "0 \<le> stone_base env"
  defines "n \<equiv> max 1 (py_trunc (calculate_route_distance env segs / 100))"
  shows "(case reply of Inl m \<Rightarrow> w' = w
     | Inr v \<Rightarrow> v = u \<and> stock wood_types p w' = stock wood_types p w - wood_base env * n \<and>
         stock stone_types p w' = stock stone_types p w - stone_base env * n \<and> solvent w' \<and>
         (\<forall>i. i \<notin> set wood_types \<union> set stone_types \<longrightarrow> item_count i (inventory_of p w') = item_count i (inventory_of p w)))"
proof (cases reply)
  case (Inr v)
  let ?w1 = "consume_kinds p wood_types (wood_base env * n) w" and ?w2 = "consume_construction_materials p (wood_base env * n) (stone_base env * n) w"
  have ok: "v = u" "wood_base env * n \<le> stock [''minecraft:wood'', ''minecraft:oak_log'', ''minecraft:spruce_log''] p w"
      "stone_base env * n \<le> stock stone_types p w" and inv: "inventory_of p w' = inventory_of p ?w2" and sol: "solvent w' = solvent ?w2"
    using assms(1) Inr
    by (auto simp: construct_route_def create_route_def Let_def n_def inventory_of_def solvent_def gold_of_def split: if_splits)
  have pos: "0 \<le> wood_base env * n" "0 \<le> stone_base env * n" using assms(3,4) by (simp_all add: n_def)
  have "stock [''minecraft:wood'', ''minecraft:oak_log'', ''minecraft:spruce_log''] p w \<le> stock wood_types p w"
    using assms(2) by (simp add: wood_types_def stock_simps solvent_def)
  with ok have wood: "wood_base env * n \<le> stock wood_types p w" by simp
  have apart: "t \<notin> set wood_types" if "t \<in> set stone_types" for t using that by (auto simp: wood_types_def stone_types_def)
  have "distinct wood_types" "distinct stone_types" by (simp_all add: wood_types_def stone_types_def)
  note c1 = consume_exact [OF assms(2) this(1) pos(1) wood] and d = this(2)
  have "stock stone_types p ?w1 = stock stone_types p w" by (rule stock_same) (use apart c1 in blast)
  then have "stone_base env * n \<le> stock stone_types p ?w1" using ok by simp
  note c2 = consume_exact [OF conjunct1 [OF conjunct2 [OF c1]] d pos(2) this]
  have "stock wood_types p ?w2 = stock wood_types p ?w1"
    unfolding consume_construction_materials_def by (rule stock_same) (use apart c2 in blast)
  moreover have "stock ts p w' = stock ts p ?w2" for ts using inv by (simp add: stock_def)
  ultimately show ?thesis
    using c1 c2 ok(1) inv sol Inr \<open>stock stone_types p ?w1 = stock stone_types p w\<close> by (simp add: consume_construction_materials_def)
qed (use assms(1) in \<open>auto simp: construct_route_def Let_def split: if_splits\<close>)

theorem building_costs_exactly_witness:
  "stock wood_types ''ann'' (snd (construct_route plain_env 0 ''r1'' ''ann'' ''c1'' ''c2'' [] road_world)) = 36"
proof -
  let ?r = "construct_route plain_env 0 ''r1'' ''ann'' ''c1'' ''c2'' [] road_world"
  have "fst ?r = Inr ''r1''"
    by (simp add: construct_route_def Let_def plain_env_def road_world_simps owns_claim_def get_routes_between_claims_def stock_def
        inventory_of_def item_count_def row_at_def wood_base_def stone_base_def trade_config_int_def stone_types_def py_trunc_def)
  then have "?r = (Inr ''r1'', snd ?r)" by (metis prod.collapse)
  from building_costs_exactly [OF this road_world_ok(2)] show ?thesis
    by (simp add: wood_base_def stone_base_def trade_config_int_def plain_env_def py_trunc_def)
      (simp add: stock_def wood_types_def road_world_simps inventory_of_def item_count_def row_at_def)
qed


end
