(* ===== verification/TradeLaw.thy ===== *)
theory TradeLaw
  imports TradeRoads
begin

text \<open>
  Crime and its consequences (\<open>tr_reputation.py\<close>, \<open>tr_banditry.py\<close>): reputation rows, bounties, decay, attacks on routes
  and arrests.  Random numbers are read from a sequence, in the order the code draws them.
\<close>

section \<open>Random numbers\<close>

type_synonym draws = "nat \<Rightarrow> rat"

definition draw :: "draws \<Rightarrow> rat \<times> draws" where
  "draw d = (d 0, \<lambda>n. d (Suc n))"

text \<open>How many of \<open>n\<close> draws fall below \<open>c\<close>.\<close>

fun count_below :: "rat \<Rightarrow> nat \<Rightarrow> draws \<Rightarrow> nat \<times> draws" where
  "count_below c 0 d = (0, d)"
| "count_below c (Suc n) d = (case count_below c n (snd (draw d)) of (k, d') \<Rightarrow> (if fst (draw d) < c then Suc k else k, d'))"

text \<open>The elements whose draw satisfies the test.\<close>

fun select_drawn :: "(rat \<Rightarrow> bool) \<Rightarrow> 'a list \<Rightarrow> draws \<Rightarrow> 'a list \<times> draws" where
  "select_drawn T [] d = ([], d)"
| "select_drawn T (x # xs) d = (case select_drawn T xs (snd (draw d)) of (ys, d') \<Rightarrow> (if T (fst (draw d)) then x # ys else ys, d'))"

section \<open>Reputation\<close>

definition get_reputation :: "string \<Rightarrow> trade_world \<Rightarrow> reputation option" where
  "get_reputation p w = row_at p (tw_reputations w)"

definition init_persona_reputation :: "string \<Rightarrow> trade_world \<Rightarrow> (string + reputation) \<times> trade_world" where
  "init_persona_reputation p w =
     (let w1 = ensure_reputation p w
      in case get_reputation p w1 of
          None \<Rightarrow> (Inl ''Reputation not found after init'', w1)
        | Some r \<Rightarrow> (Inr r, w1\<lparr>tw_rep_map := dict_set p r (tw_rep_map w1)\<rparr>))"

record standing =
  sd_score :: int
  sd_notoriety :: int
  sd_bounty :: rat
  sd_wanted :: bool
  sd_in_jail :: bool
  sd_jail :: rat
  sd_arrests :: nat

fun standing_of :: "reputation option \<Rightarrow> standing" where
  "standing_of None = \<lparr>sd_score = 0, sd_notoriety = 0, sd_bounty = 0, sd_wanted = False, sd_in_jail = False, sd_jail = 0, sd_arrests = 0\<rparr>"
| "standing_of (Some r) = \<lparr>sd_score = rp_score r, sd_notoriety = rp_notoriety r, sd_bounty = rp_bounty r, sd_wanted = rp_wanted r,
     sd_in_jail = (rp_jail r > 0), sd_jail = rp_jail r, sd_arrests = rp_arrests r\<rparr>"

definition get_persona_reputation :: "string \<Rightarrow> trade_world \<Rightarrow> standing \<times> trade_world" where
  "get_persona_reputation p w = (let w1 = ensure_reputation p w in (standing_of (get_reputation p w1), w1))"

definition crime_notoriety :: "trade_env \<Rightarrow> string \<Rightarrow> rat" where
  "crime_notoriety env c =
     (if c = ''theft'' then trade_config env ''reputation'' ''notoriety_per_theft'' 35
      else if c = ''banditry'' then trade_config env ''reputation'' ''notoriety_per_banditry_base'' 100
      else if c = ''murder'' then 200 else 50)"

definition crime_bounty :: "trade_env \<Rightarrow> string \<Rightarrow> rat" where
  "crime_bounty env c =
     (if c = ''theft'' then 2
      else if c = ''banditry'' then trade_config env ''banditry'' ''bounty_ratio'' (1 / 2) * 100
      else if c = ''murder'' then 500 else 50)"

definition apply_crime_consequences :: "trade_env \<Rightarrow> string \<Rightarrow> string \<Rightarrow> rat \<Rightarrow> trade_world \<Rightarrow> (int \<times> int \<times> rat) \<times> trade_world" where
  "apply_crime_consequences env p c severity w =
     (let n = py_trunc (crime_notoriety env c * severity); b = crime_bounty env c * severity
      in ((n, (- n) div 2, te_round2 env b),
          update_bounty p b (update_reputation_score p ((- n) div 2) (update_notoriety p n (ensure_reputation p w)))))"

definition clear_wanted :: "string \<Rightarrow> trade_world \<Rightarrow> trade_world" where
  "clear_wanted p = change_reputation p (\<lambda>r. r\<lparr>rp_wanted := False\<rparr>)"

definition notoriety_of :: "string \<Rightarrow> trade_world \<Rightarrow> int" where
  "notoriety_of p w = (case get_reputation p w of None \<Rightarrow> 0 | Some r \<Rightarrow> rp_notoriety r)"

definition clear_bounty :: "trade_env \<Rightarrow> string \<Rightarrow> trade_world \<Rightarrow> (string + rat) \<times> trade_world" where
  "clear_bounty env p w =
     (case get_reputation p w of
        None \<Rightarrow> (Inl ''No reputation record found'', w)
      | Some r \<Rightarrow>
          let cost = rp_bounty r * trade_config env ''reputation'' ''bounty_clear_multiplier'' (3 / 2)
          in if rp_bounty r \<le> 0 then (Inl ''No bounty to clear'', w)
             else if gold_of p w < cost
               then (Inl (''Need '' @ te_format env cost @ ''g to clear bounty (have '' @ te_format env (gold_of p w) @ ''g)''), w)
             else let w2 = update_bounty p (- rp_bounty r) (snd (remove_gold p cost w))
                  in (Inr cost, clear_wanted p (update_notoriety p (- notoriety_of p w2) w2)))"

definition reputation_decay :: "trade_env \<Rightarrow> reputation \<Rightarrow> reputation" where
  "reputation_decay env r =
     (let n = (if rp_notoriety r > 0
               then max 0 (py_trunc (of_int (rp_notoriety r) * (1 - trade_config env ''reputation'' ''notoriety_decay_rate'' (1 / 100)))) else rp_notoriety r);
          b = (if rp_bounty r > 0 then max 0 (rp_bounty r * (1 - trade_config env ''reputation'' ''bounty_decay_rate'' (1 / 1000))) else rp_bounty r);
          j = (if rp_jail r > 0 then max 0 (rp_jail r - 1) else rp_jail r)
      in r\<lparr>rp_notoriety := n, rp_bounty := b, rp_jail := j, rp_wanted := rp_wanted r \<and> \<not> (j \<le> 0 \<and> b \<le> 0)\<rparr>)"

definition process_reputation_tick :: "trade_env \<Rightarrow> trade_world \<Rightarrow> trade_world" where
  "process_reputation_tick env w =
     (let t = map (\<lambda>(p, r). (p, reputation_decay env r)) (tw_reputations w) in w\<lparr>tw_reputations := t, tw_rep_map := t\<rparr>)"

definition score_modifier :: "int \<Rightarrow> rat" where
  "score_modifier s =
     (if s > 0 then 1 - min (5 / 100) (of_int s / 20000) else if s < 0 then 1 + min (20 / 100) (of_int \<bar>s\<bar> / 5000) else 1)"

definition get_price_modifier :: "string \<Rightarrow> trade_world \<Rightarrow> rat" where
  "get_price_modifier p w = (case get_reputation p w of None \<Rightarrow> 1 | Some r \<Rightarrow> score_modifier (rp_score r))"

definition is_guard_hostile :: "trade_env \<Rightarrow> string \<Rightarrow> trade_world \<Rightarrow> bool" where
  "is_guard_hostile env p w =
     (case get_reputation p w of
        None \<Rightarrow> False
      | Some r \<Rightarrow> of_int (rp_score r) < trade_config env ''reputation'' ''guard_hostile_reputation'' (- 200) \<and> rp_bounty r > 0)"

section \<open>Attacks on routes\<close>

definition combat_skill :: "string \<Rightarrow> trade_world \<Rightarrow> rat" where
  "combat_skill p w = (case tw_skills w p ''combat'' of None \<Rightarrow> 10 | Some x \<Rightarrow> x)"

definition stealth_skill :: "string \<Rightarrow> trade_world \<Rightarrow> rat" where
  "stealth_skill p w = (case tw_skills w p ''stealth'' of None \<Rightarrow> 10 | Some x \<Rightarrow> x)"

definition loot_values :: "(string, rat) table" where
  "loot_values = [(''minecraft:diamond'', 50), (''minecraft:iron_ingot'', 10), (''minecraft:gold_ingot'', 15), (''minecraft:emerald'', 20),
     (''minecraft:netherite_ingot'', 200), (''minecraft:diamond_pickaxe'', 100), (''minecraft:diamond_sword'', 120)]"

definition loot_value :: "string \<Rightarrow> rat" where
  "loot_value i = (case row_at i loot_values of None \<Rightarrow> 5 | Some v \<Rightarrow> v)"

text \<open>What the attackers take, and its worth.\<close>

definition loot_cargo_item :: "rat \<Rightarrow> rat \<Rightarrow> string \<times> int \<Rightarrow> (goods \<times> rat) \<times> draws \<Rightarrow> (goods \<times> rat) \<times> draws" where
  "loot_cargo_item chance share iq s =
     (case (iq, s) of ((i, q), ((loot, worth), d)) \<Rightarrow>
        let lootable = py_trunc (of_int q * share); (destroyed, d') = count_below chance (nat lootable) d; actual = lootable - int destroyed
        in if actual > 0 then ((dict_set i (item_count i loot + actual) loot, worth + loot_value i * of_int actual), d') else ((loot, worth), d'))"

definition loot_caravan :: "rat \<Rightarrow> rat \<Rightarrow> string \<times> caravan \<Rightarrow> (goods \<times> rat) \<times> draws \<Rightarrow> (goods \<times> rat) \<times> draws" where
  "loot_caravan chance share uc s =
     (case fold (loot_cargo_item chance share) (cv_cargo (snd uc)) s of ((loot, worth), d) \<Rightarrow> ((loot, worth + cv_gold (snd uc) * share), d))"

definition punish :: "int \<Rightarrow> rat \<Rightarrow> string \<Rightarrow> trade_world \<Rightarrow> trade_world" where
  "punish n b p w = update_reputation_score p ((- n) div 2) (update_bounty p b (update_notoriety p n (ensure_reputation p w)))"

definition raise_bandits :: "string \<Rightarrow> rat \<Rightarrow> trade_world \<Rightarrow> trade_world" where
  "raise_bandits u value w =
     w\<lparr>tw_routes := update_row u (\<lambda>r. r\<lparr>rt_bandits := min 1 (rt_bandits r + min (3 / 10) (value / 1000))\<rparr>) (tw_routes w), tw_last_bandit := Some u\<rparr>"

definition attack_obstacle :: "trade_env \<Rightarrow> string \<Rightarrow> string \<Rightarrow> string list \<Rightarrow> trade_world \<Rightarrow> string option" where
  "attack_obstacle env a ru band w =
     (if is_persona_jailed a w then Some ''Attacker is in jail''
      else if combat_skill a w < trade_config env ''banditry'' ''min_combat_skill'' 20
        then Some (''Combat skill too low ('' @ te_str env (combat_skill a w) @ '' < '' @
                   te_str env (trade_config env ''banditry'' ''min_combat_skill'' 20) @ '')'')
      else case row_at ru (tw_routes w) of
          None \<Rightarrow> Some ''Route not found''
        | Some r \<Rightarrow>
            if \<not> rt_active r then Some ''Route is inactive''
            else if check_cooldown a ''banditry'' w then Some ''On banditry cooldown''
            else if of_nat (Suc (length band)) > trade_config env ''banditry'' ''max_group_size'' 10
              then Some (''Group too large (max '' @ te_str env (trade_config env ''banditry'' ''max_group_size'' 10) @ '')'')
            else case List.find (\<lambda>g. is_persona_jailed g w) band of
                Some g \<Rightarrow> Some (''Group member '' @ take 8 g @ '' is in jail'')
              | None \<Rightarrow> None)"

record attack =
  at_outcome :: string
  at_loot :: goods
  at_value :: rat
  at_notoriety :: int
  at_bounty :: rat
  at_surprise :: bool

definition attack_power :: "trade_env \<Rightarrow> rat \<Rightarrow> string \<Rightarrow> string list \<Rightarrow> route \<Rightarrow> trade_world \<Rightarrow> rat \<times> bool" where
  "attack_power env roll a band r w =
     (let skill = fold (\<lambda>g t. t + combat_skill g w) band (combat_skill a w);
          perception = 40 + (1 - rt_bandits r) * 20;
          bonus = (if stealth_skill a w + roll > perception then trade_config env ''banditry'' ''surprise_multiplier'' (13 / 10) else 1)
      in (skill * bonus, bonus > 1))"

definition defence :: "route \<Rightarrow> rat" where
  "defence r = rt_guard r * (1 + rt_bandits r * 2)"

record route_risk =
  rk_victory :: rat
  rk_surprise :: rat
  rk_score :: rat
  rk_bounty :: rat

definition get_banditry_risk :: "trade_env \<Rightarrow> string \<Rightarrow> string \<Rightarrow> trade_world \<Rightarrow> string + route_risk" where
  "get_banditry_risk env u p w =
     (case row_at u (tw_routes w) of
        None \<Rightarrow> Inl ''Route not found''
      | Some r \<Rightarrow>
          let c = combat_skill p w * (13 / 10);
              victory = min 1 (max 0 ((c - defence r) / (c + defence r + 1)));
              bounty = (case get_reputation p w of None \<Rightarrow> 0 | Some rep \<Rightarrow> rp_bounty rep)
          in Inr \<lparr>rk_victory = te_round2 env victory,
                 rk_surprise = te_round2 env (min 1 (max 0 ((stealth_skill p w - 30) / 100))),
                 rk_score = te_round2 env (min 1 (1 - victory + (if bounty > 0 then 2 / 10 else 0))), rk_bounty = bounty\<rparr>)"

definition fight :: "rat \<Rightarrow> string list \<Rightarrow> draws \<Rightarrow> (string \<times> rat \<times> string list) \<times> draws" where
  "fight ratio attackers d =
     (if ratio > 3 / 2 then ((''victory'', 1, []), d)
      else if ratio \<ge> 4 / 5 then (case select_drawn (\<lambda>x. x < 3 / 10) attackers d of (hurt, d') \<Rightarrow> ((''costly_victory'', 6 / 10, hurt), d'))
      else ((''defeat'', 0, attackers), d))"

definition capture :: "trade_env \<Rightarrow> int \<Rightarrow> string list \<Rightarrow> draws \<Rightarrow> trade_world \<Rightarrow> trade_world" where
  "capture env n attackers d w =
     fold (\<lambda>p. set_jail_ticks p (trade_config env ''banditry'' ''capture_jail_base_ticks'' 50 + of_int (n div 2)))
       (fst (select_drawn (\<lambda>x. x > trade_config env ''banditry'' ''defeat_escape_chance'' (3 / 10)) attackers d)) w"

definition plunder ::
  "trade_env \<Rightarrow> rat \<Rightarrow> draws \<Rightarrow> string \<Rightarrow> string \<Rightarrow> string \<Rightarrow> string list \<Rightarrow> route \<Rightarrow> trade_world \<Rightarrow> attack \<times> trade_world" where
  "plunder env roll d uuid a ru band r w =
     (let attackers = a # band;
          (power, surprise) = attack_power env roll a band r w;
          ((outcome, share, hurt), d1) = fight (power / max (defence r) (1 / 10)) attackers d;
          caravans = get_active_caravans_on_route ru w;
          ((loot, value), d2) = fold (loot_caravan (trade_config env ''banditry'' ''loot_destruction_chance'' (1 / 10)) share) caravans (([], 0), d1);
          n = py_trunc (max 50 (value * trade_config env ''banditry'' ''notoriety_per_value_ratio'' (1 / 10)));
          b = value * trade_config env ''banditry'' ''bounty_ratio'' (1 / 2) / of_nat (max 1 (length attackers));
          w1 = fold (punish n b) attackers w;
          w2 = (if outcome = ''defeat'' then capture env n attackers d2 w1 else w1);
          w3 = fold (\<lambda>p. set_cooldown p ''banditry'' 20) attackers (raise_bandits ru value w2)
      in (\<lparr>at_outcome = outcome, at_loot = loot, at_value = value, at_notoriety = n, at_bounty = b, at_surprise = surprise\<rparr>,
          w3\<lparr>tw_incidents := tw_incidents w3 @ [(uuid, \<lparr>in_attacker = a, in_route = ru, in_power = power, in_defence = defence r,
             in_outcome = outcome, in_loot_value = value, in_stolen = loot, in_hurt = hurt, in_notoriety = n, in_bounty = b\<rparr>)]\<rparr>))"

definition attempt_banditry ::
  "trade_env \<Rightarrow> rat \<Rightarrow> draws \<Rightarrow> string \<Rightarrow> string \<Rightarrow> string \<Rightarrow> string list \<Rightarrow> trade_world \<Rightarrow> (string + attack) \<times> trade_world" where
  "attempt_banditry env roll d uuid a ru band w =
     (case attack_obstacle env a ru band w of
        Some m \<Rightarrow> (Inl m, w)
      | None \<Rightarrow> (case row_at ru (tw_routes w) of
            None \<Rightarrow> (Inl ''Route not found'', w)
          | Some r \<Rightarrow> (case plunder env roll d uuid a ru band r w of (att, w') \<Rightarrow> (Inr att, w'))))"

section \<open>Guards\<close>

definition get_all_wanted_personas :: "trade_world \<Rightarrow> (string \<times> reputation) list" where
  "get_all_wanted_personas w = sort_key (\<lambda>(p, r). - rp_bounty r) (filter (\<lambda>(p, r). rp_wanted r \<and> rp_bounty r > 0) (tw_reputations w))"

definition arrest :: "trade_env \<Rightarrow> string \<Rightarrow> reputation \<Rightarrow> trade_world \<Rightarrow> trade_world" where
  "arrest env p r w =
     update_bounty p (- rp_bounty r)
       (set_jail_ticks p (of_int (py_trunc (of_int (rp_notoriety r) * trade_config env ''reputation'' ''jail_ticks_per_notoriety'' (1 / 2)))) w)"

definition patrol :: "trade_env \<Rightarrow> string \<times> reputation \<Rightarrow> (nat \<times> rat \<times> trade_world) \<times> draws \<Rightarrow> (nat \<times> rat \<times> trade_world) \<times> draws" where
  "patrol env pr s =
     (case (pr, s) of ((p, r), ((arrests, fines, w), d)) \<Rightarrow>
        let (x, d1) = draw d
        in if x < min (8 / 10) (of_int (rp_notoriety r) / 500)
           then let caught = ((arrests + 1, fines + rp_bounty r * trade_config env ''reputation'' ''bounty_clear_multiplier'' (3 / 2), arrest env p r w))
                in if 30 > combat_skill p w then (caught, d1)
                   else let (y, d2) = draw d1 in (if y < 6 / 10 then caught else (arrests, fines, w), d2)
           else ((arrests, fines, w), d1))"

definition process_guard_response :: "trade_env \<Rightarrow> draws \<Rightarrow> trade_world \<Rightarrow> nat \<times> rat \<times> trade_world" where
  "process_guard_response env d w = fst (fold (patrol env) (get_all_wanted_personas w) ((0, 0, w), d))"


section \<open>Rows within bounds\<close>

definition row_ok :: "reputation \<Rightarrow> bool" where
  "row_ok r \<longleftrightarrow> 0 \<le> rp_notoriety r \<and> rp_notoriety r \<le> 1000 \<and> - 1000 \<le> rp_score r \<and> rp_score r \<le> 1000 \<and> 0 \<le> rp_bounty r"

definition reputations_ok :: "trade_world \<Rightarrow> bool" where
  "reputations_ok w \<longleftrightarrow> (\<forall>(p, r)\<in>set (tw_reputations w). row_ok r)"

inductive law_step :: "trade_env \<Rightarrow> trade_world \<Rightarrow> trade_world \<Rightarrow> bool" for env where
  init: "law_step env w (snd (init_persona_reputation p w))"
| crime: "law_step env w (snd (apply_crime_consequences env p c severity w))"
| clear: "law_step env w (snd (clear_bounty env p w))"
| tick: "law_step env w (process_reputation_tick env w)"
| banditry: "law_step env w (snd (attempt_banditry env roll d u a ru band w))"
| guards: "law_step env w (snd (snd (process_guard_response env d w)))"

lemma change_ok: "reputations_ok w \<Longrightarrow> (\<And>r. row_ok r \<Longrightarrow> row_ok (f r)) \<Longrightarrow> reputations_ok (change_reputation p f w)"
  by (fastforce simp: reputations_ok_def change_reputation_def update_row_def split: if_splits)

lemma ensure_ok: "reputations_ok w \<Longrightarrow> reputations_ok (ensure_reputation p w)"
  by (auto simp: reputations_ok_def ensure_reputation_def new_reputation_def row_ok_def)

lemma updates_ok:
  assumes "reputations_ok w"
  shows "reputations_ok (update_notoriety p n w)" "reputations_ok (update_bounty p b w)" "reputations_ok (update_reputation_score p s w)"
    "reputations_ok (set_jail_ticks p j w)" "reputations_ok (clear_wanted p w)"
  unfolding update_notoriety_def update_bounty_def update_reputation_score_def set_jail_ticks_def clear_wanted_def
  by (rule change_ok [OF assms]; simp add: row_ok_def)+

lemma fold_ok: "reputations_ok w \<Longrightarrow> (\<And>x w. reputations_ok w \<Longrightarrow> reputations_ok (f x w)) \<Longrightarrow> reputations_ok (fold f xs w)"
  by (induction xs arbitrary: w) simp_all

lemma same_reputations: "tw_reputations w' = tw_reputations w \<Longrightarrow> reputations_ok w' = reputations_ok w"
  by (simp add: reputations_ok_def)

lemma capture_ok: "reputations_ok w \<Longrightarrow> reputations_ok (capture env n ps d w)"
  unfolding capture_def by (rule fold_ok) (simp_all add: updates_ok)

lemma cooldowns_frame: "tw_reputations (fold (\<lambda>p. set_cooldown p k n) ps w) = tw_reputations w"
  by (induction ps arbitrary: w) (simp_all add: set_cooldown_def)

text \<open>What an attack leaves as it was: everybody's goods and gold, and every caravan.\<close>

definition holdings :: "trade_world \<Rightarrow> (string, goods) table \<times> (string, rat) table \<times> (string, caravan) table" where
  "holdings w = (tw_inventories w, tw_finances w, tw_caravans w)"

lemma holdings_ops:
  "holdings (change_reputation p f w) = holdings w" "holdings (ensure_reputation p w) = holdings w" "holdings (set_cooldown p k n w) = holdings w"
  "holdings (raise_bandits u x w) = holdings w" "holdings (punish m b p w) = holdings w" "holdings (set_jail_ticks p j w) = holdings w"
  "holdings (w\<lparr>tw_incidents := ins\<rparr>) = holdings w"
  by (simp_all add: holdings_def change_reputation_def ensure_reputation_def set_cooldown_def raise_bandits_def punish_def update_notoriety_def
      update_bounty_def update_reputation_score_def set_jail_ticks_def)

lemma fold_holdings: "(\<And>x w. holdings (f x w) = holdings w) \<Longrightarrow> holdings (fold f xs w) = holdings w"
  by (induction xs arbitrary: w) simp_all

lemma plunder_holdings: "holdings (snd (plunder env roll d u a ru band r w)) = holdings w"
  by (simp add: plunder_def Let_def holdings_ops fold_holdings capture_def split: prod.split)

lemma frames_ok: "reputations_ok (w\<lparr>tw_incidents := ins\<rparr>) = reputations_ok w" "reputations_ok (raise_bandits u x w) = reputations_ok w"
  "reputations_ok (fold (\<lambda>p. set_cooldown p k n) ps w) = reputations_ok w"
  by (simp_all add: reputations_ok_def raise_bandits_def cooldowns_frame)

lemma plunder_ok: "reputations_ok w \<Longrightarrow> reputations_ok (snd (plunder env roll d u a ru band r w))"
proof -
  assume w: "reputations_ok w"
  have "reputations_ok (fold (punish n b) ps w)" for n b ps
    by (rule fold_ok [OF w]) (simp add: punish_def updates_ok ensure_ok)
  then show ?thesis unfolding plunder_def Let_def by (simp only: split_beta snd_conv frames_ok) (simp add: capture_ok del: fold.simps)
qed


lemma py_trunc_le: "x \<le> of_int k \<Longrightarrow> 0 \<le> k \<Longrightarrow> py_trunc x \<le> k"
proof -
  assume x: "x \<le> of_int k" and k: "0 \<le> k"
  have "floor x \<le> k" using floor_mono [OF x] by simp
  moreover have "0 \<le> floor (- x)" if "\<not> 0 \<le> x" using that by simp
  ultimately show "py_trunc x \<le> k" using k unfolding py_trunc_def by (cases "0 \<le> x") (simp_all only: if_True if_False, linarith)
qed

lemma decay_ok: "row_ok r \<Longrightarrow> 0 \<le> trade_config env ''reputation'' ''notoriety_decay_rate'' (1 / 100) \<Longrightarrow> row_ok (reputation_decay env r)"
proof -
  assume r: "row_ok r" and d: "0 \<le> trade_config env ''reputation'' ''notoriety_decay_rate'' (1 / 100)"
  let ?n = "of_int (rp_notoriety r) * (1 - trade_config env ''reputation'' ''notoriety_decay_rate'' (1 / 100))"
  have "?n \<le> of_int (rp_notoriety r)" if "rp_notoriety r > 0" using that d by (simp add: mult_le_cancel_left1)
  then have "max 0 (py_trunc ?n) \<le> 1000" if "rp_notoriety r > 0"
    using py_trunc_le [of ?n "rp_notoriety r"] that r by (simp add: row_ok_def)
  then show "row_ok (reputation_decay env r)" using r by (simp add: reputation_decay_def Let_def row_ok_def)
qed

lemma patrol_kept:
  "reputations_ok w \<Longrightarrow> reputations_ok (snd (snd (fst (patrol env pr ((n, x, w), d)))))"
  "holdings (snd (snd (fst (patrol env pr ((n, x, w), d))))) = holdings w"
proof -
  show "reputations_ok w \<Longrightarrow> reputations_ok (snd (snd (fst (patrol env pr ((n, x, w), d)))))"
    by (cases pr) (simp add: patrol_def Let_def draw_def arrest_def updates_ok)
  have "holdings (update_bounty p b w) = holdings w" for p b w by (simp add: update_bounty_def holdings_ops)
  then show "holdings (snd (snd (fst (patrol env pr ((n, x, w), d))))) = holdings w"
    by (cases pr) (simp add: patrol_def Let_def draw_def arrest_def holdings_ops)
qed

lemma patrols_holdings: "holdings (snd (snd (fst (fold (patrol env) prs ((n, x, w), d))))) = holdings w"
proof (induction prs arbitrary: n x w d)
  case (Cons pr prs)
  obtain n' x' w' d' where p: "patrol env pr ((n, x, w), d) = ((n', x', w'), d')" by (metis surj_pair)
  show ?case using patrol_kept(2) [of env pr n x w d] Cons.IH [of n' x' w' d'] by (simp add: p)
qed simp

lemma patrols_kept: "reputations_ok w \<Longrightarrow> reputations_ok (snd (snd (fst (fold (patrol env) prs ((n, x, w), d)))))"
proof (induction prs arbitrary: n x w d)
  case (Cons pr prs)
  obtain n' x' w' d' where p: "patrol env pr ((n, x, w), d) = ((n', x', w'), d')" by (metis surj_pair)
  show ?case using patrol_kept(1) [OF Cons.prems, of env pr n x d] Cons.IH [of w' n' x' d'] by (simp add: p)
qed simp

lemma law_step_ok:
  assumes "law_step env w w'" "reputations_ok w" "0 \<le> trade_config env ''reputation'' ''notoriety_decay_rate'' (1 / 100)"
  shows "reputations_ok w'"
  using assms
proof cases
  case (init p)
  show ?thesis unfolding init
    using ensure_ok [OF assms(2), of p] by (simp add: init_persona_reputation_def Let_def split: option.split) (simp add: reputations_ok_def)
next
  case (tick)
  show ?thesis unfolding tick using assms(2,3) decay_ok by (auto simp: process_reputation_tick_def reputations_ok_def Let_def)
next
  case (clear p)
  have "reputations_ok (snd (remove_gold p x w))" for x using assms(2) by (simp add: remove_gold_def reputations_ok_def)
  then show ?thesis unfolding clear using assms(2) by (simp add: clear_bounty_def Let_def updates_ok split: option.split)
next
  case (banditry roll d u a ru band)
  show ?thesis unfolding banditry using plunder_ok [OF assms(2)] assms(2)
    by (simp add: attempt_banditry_def split_beta split: option.split)
next
  case (guards d)
  show ?thesis unfolding guards process_guard_response_def using patrols_kept [OF assms(2)] by blast
qed (simp add: apply_crime_consequences_def Let_def updates_ok ensure_ok assms(2))

lemma score_modifier_bounds: "95 / 100 \<le> score_modifier s \<and> score_modifier s \<le> 120 / 100"
proof -
  have "0 \<le> min (5 / 100) (of_int s / 20000 :: rat)" if "0 < s" using that by simp
  moreover have "min (5 / 100) (of_int s / 20000 :: rat) \<le> 5 / 100" by (rule min.cobounded1)
  moreover have "0 \<le> min (20 / 100) (of_int \<bar>s\<bar> / 5000 :: rat)" by simp
  moreover have "min (20 / 100) (of_int \<bar>s\<bar> / 5000 :: rat) \<le> 20 / 100" by (rule min.cobounded1)
  ultimately show ?thesis unfolding score_modifier_def by (cases "0 < s"; cases "s < 0"; simp only: if_True if_False; linarith)
qed

section \<open>Properties\<close>

text \<open>C12: Whatever crimes, attacks, arrests, payments and ticks happen, every reputation row stays within its limits: notoriety between 0 and
  1000, score between -1000 and 1000, bounty never negative; and the price modifier is always between 0.95 and 1.2.\<close>

theorem reputations_stay_bounded:
  assumes "(law_step env)\<^sup>*\<^sup>* w w'" "reputations_ok w" "0 \<le> trade_config env ''reputation'' ''notoriety_decay_rate'' (1 / 100)"
  shows "reputations_ok w' \<and> 95 / 100 \<le> get_price_modifier p w' \<and> get_price_modifier p w' \<le> 120 / 100"
proof -
  from assms have "reputations_ok w'" by (induction rule: rtranclp_induct) (simp_all add: law_step_ok)
  then show ?thesis using score_modifier_bounds by (simp add: get_price_modifier_def split: option.split)
qed

theorem reputations_stay_bounded_witness:
  "reputations_ok (process_reputation_tick plain_env (snd (apply_crime_consequences plain_env ''ann'' ''murder'' 9 empty_world)))"
proof -
  have "(law_step plain_env)\<^sup>*\<^sup>* empty_world (process_reputation_tick plain_env (snd (apply_crime_consequences plain_env ''ann'' ''murder'' 9 empty_world)))"
    by (meson law_step.crime law_step.tick rtranclp.rtrancl_into_rtrancl rtranclp.rtrancl_refl)
  from reputations_stay_bounded [OF this] show ?thesis by (simp add: reputations_ok_def empty_world_def trade_config_def plain_env_def)
qed

text \<open>C19: Crime and punishment move nothing: an attack on a route, whatever its outcome and whatever loot it reports, leaves the goods and gold of
  everybody and every caravan as they were, and a patrol collects none of the fines it reports.\<close>

theorem crime_moves_nothing:
  "holdings (snd (attempt_banditry env roll d u a ru band w)) = holdings w \<and> holdings (snd (snd (process_guard_response env d' w))) = holdings w"
  by (simp add: attempt_banditry_def plunder_holdings process_guard_response_def patrols_holdings split_beta split: option.split)

definition robbed :: trade_world where
  "robbed = empty_world\<lparr>tw_skills := (\<lambda>p s. Some 90),
     tw_routes := [(''r1'', \<lparr>rt_owner = ''ann'', rt_from = ''c1'', rt_to = ''c2'', rt_segments = [], rt_distance = 0, rt_level = 1, rt_maintained = 0,
        rt_active = True, rt_bandits = 0, rt_built = 0, rt_guard = 5\<rparr>)],
     tw_caravans := [(''v1'', \<lparr>cv_route = ''r1'', cv_owner = ''ann'', cv_cargo = [(''minecraft:diamond'', 1)], cv_gold = 8, cv_guards = 1, cv_power = 8,
        cv_segment = 0, cv_total = 1, cv_status = ''traveling''\<rparr>)]\<rparr>"

theorem crime_moves_nothing_witness:
  "(case attempt_banditry plain_env 50 (\<lambda>n. 1 / 2) ''i1'' ''bob'' ''r1'' [] robbed of (reply, w) \<Rightarrow>
      (case reply of Inl m \<Rightarrow> False | Inr att \<Rightarrow> at_outcome att = ''victory'' \<and> at_loot att = [(''minecraft:diamond'', 1)] \<and> at_value att = 58)) \<and>
   holdings (snd (attempt_banditry plain_env 50 (\<lambda>n. 1 / 2) ''i1'' ''bob'' ''r1'' [] robbed)) = holdings robbed \<and>
   holdings (snd (snd (process_guard_response plain_env (\<lambda>n. 0) robbed))) = holdings robbed"
proof -
  note crime_moves_nothing [of plain_env 50 "\<lambda>n. 1 / 2" "''i1''" "''bob''" "''r1''" "[]" robbed "\<lambda>n. 0"]
  moreover have "attack_obstacle plain_env ''bob'' ''r1'' [] robbed = None"
    by (simp add: attack_obstacle_def is_persona_jailed_def combat_skill_def check_cooldown_def trade_config_def plain_env_def robbed_def empty_world_def row_at_def)
  moreover have "case fst (plunder plain_env 50 (\<lambda>n. 1 / 2) ''i1'' ''bob'' ''r1'' [] (snd (hd (tw_routes robbed))) robbed) of att \<Rightarrow>
      at_outcome att = ''victory'' \<and> at_loot att = [(''minecraft:diamond'', 1)] \<and> at_value att = 58"
    by (simp add: plunder_def Let_def attack_power_def stealth_skill_def combat_skill_def defence_def fight_def loot_caravan_def loot_cargo_item_def
        loot_value_def loot_values_def get_active_caravans_on_route_def trade_config_def plain_env_def robbed_def empty_world_def row_at_def draw_def dict_set_def item_count_def py_trunc_def)
  moreover have "row_at ''r1'' (tw_routes robbed) = Some (snd (hd (tw_routes robbed)))" by (simp add: robbed_def row_at_def)
  ultimately show ?thesis by (simp add: attempt_banditry_def split_beta)
qed

text \<open>
  Paying off a bounty does all of what it says or nothing: a refusal leaves the world alone, and a payment costs exactly the bounty times the
  multiplier, after which the payer has no bounty, no notoriety and is not wanted.
\<close>

theorem bounty_is_cleared:
  "(case clear_bounty env p w of
      (Inl m, w') \<Rightarrow> w' = w
    | (Inr cost, w') \<Rightarrow> (\<exists>r. get_reputation p w = Some r \<and> 0 < rp_bounty r \<and>
        cost = rp_bounty r * trade_config env ''reputation'' ''bounty_clear_multiplier'' (3 / 2) \<and>
        gold_of p w' = gold_of p w - cost \<and>
        get_reputation p w' = Some (r\<lparr>rp_bounty := 0, rp_notoriety := 0, rp_wanted := False\<rparr>)))"
proof (cases "get_reputation p w")
  case (Some r)
  let ?cost = "rp_bounty r * trade_config env ''reputation'' ''bounty_clear_multiplier'' (3 / 2)"
  show ?thesis
  proof (cases "0 < rp_bounty r \<and> ?cost \<le> gold_of p w")
    case True
    let ?w1 = "snd (remove_gold p ?cost w)"
    let ?w2 = "update_bounty p (- rp_bounty r) ?w1"
    have w2: "get_reputation p ?w2 = Some (r\<lparr>rp_bounty := 0\<rparr>)"
      using Some by (simp add: get_reputation_def update_bounty_def change_reputation_def row_at_update remove_gold_def)
    then have "get_reputation p (clear_wanted p (update_notoriety p (- notoriety_of p ?w2) ?w2)) = Some (r\<lparr>rp_bounty := 0, rp_notoriety := 0, rp_wanted := False\<rparr>)"
      by (simp add: notoriety_of_def) (simp add: get_reputation_def clear_wanted_def update_notoriety_def change_reputation_def row_at_update)
    moreover have "gold_of p (clear_wanted p (update_notoriety p n ?w2)) = gold_of p w - ?cost" for n
      using remove_gold_gold [of ?cost p w p] True by (simp add: gold_of_def clear_wanted_def update_notoriety_def update_bounty_def change_reputation_def)
    ultimately show ?thesis using Some True by (simp add: clear_bounty_def Let_def)
  next
    case False
    then show ?thesis using Some by (auto simp: clear_bounty_def Let_def)
  qed
qed (simp add: clear_bounty_def)


end
