(* ===== verification/TradeMarket.thy ===== *)
theory TradeMarket
  imports TradeWorld
begin

text \<open>
  The simulated economy (\<open>tr_economy.py\<close>, \<open>tr_world_events.py\<close>): supply and demand by region, the price of an item, the abundance of
  resources and the events that change it.  What the code draws at random is an argument: the content of an event, and
  which demands shift by how much.
\<close>

record resource =
  rs_base :: rat
  rs_current :: rat
  rs_mult :: rat
  rs_rate :: rat
  rs_event :: bool

record world_event =
  ev_type :: string
  ev_name :: string
  ev_region :: string
  ev_resources :: "string list"
  ev_severity :: rat
  ev_duration :: int
  ev_ticks :: int
  ev_multiplier :: rat
  ev_started :: rat

type_synonym levels = "(string, (string, rat) table) table"

record market_state =
  mk_supply :: levels
  mk_demand :: levels
  mk_resources :: "(string \<times> string, resource) table"
  mk_events :: "(string, world_event) table"

section \<open>Statements\<close>

definition create_world_event :: "string \<Rightarrow> world_event \<Rightarrow> market_state \<Rightarrow> market_state" where
  "create_world_event u e m = m\<lparr>mk_events := mk_events m @ [(u, e\<lparr>ev_ticks := ev_duration e\<rparr>)]\<rparr>"

definition tick_world_events :: "market_state \<Rightarrow> nat \<times> market_state" where
  "tick_world_events m =
     (let t = map (\<lambda>(u, e). (u, if ev_ticks e > 0 then e\<lparr>ev_ticks := ev_ticks e - 1\<rparr> else e)) (mk_events m)
      in (length (filter (\<lambda>(u, e). ev_ticks e \<le> 0) t), m\<lparr>mk_events := filter (\<lambda>(u, e). \<not> ev_ticks e \<le> 0) t\<rparr>))"

definition get_active_world_events :: "market_state \<Rightarrow> world_event list" where
  "get_active_world_events m = map snd (sort_key (\<lambda>(u, e). - ev_started e) (filter (\<lambda>(u, e). ev_ticks e > 0) (mk_events m)))"

definition ensure_resource_state :: "string \<Rightarrow> string \<Rightarrow> market_state \<Rightarrow> market_state" where
  "ensure_resource_state g i m =
     (if row_at (g, i) (mk_resources m) = None
      then m\<lparr>mk_resources := mk_resources m @ [((g, i), \<lparr>rs_base = 1, rs_current = 1, rs_mult = 1, rs_rate = 1 / 1000, rs_event = False\<rparr>)]\<rparr> else m)"

definition get_resource_state :: "string \<Rightarrow> string \<Rightarrow> market_state \<Rightarrow> resource option" where
  "get_resource_state g i m = row_at (g, i) (mk_resources m)"

definition change_resource :: "string \<Rightarrow> string \<Rightarrow> (resource \<Rightarrow> resource) \<Rightarrow> market_state \<Rightarrow> market_state" where
  "change_resource g i f m = m\<lparr>mk_resources := update_row (g, i) f (mk_resources m)\<rparr>"

definition set_abundance :: "rat \<Rightarrow> resource \<Rightarrow> resource" where
  "set_abundance x r = r\<lparr>rs_current := x, rs_mult := if x < 1 / 2 then 1 + (1 / 2 - x) * 2 else 1\<rparr>"

definition update_resource_abundance :: "string \<Rightarrow> string \<Rightarrow> rat \<Rightarrow> market_state \<Rightarrow> market_state" where
  "update_resource_abundance g i x = change_resource g i (set_abundance x)"

section \<open>Events\<close>

definition resources_by_region :: "(string \<times> string list) list" where
  "resources_by_region =
     [(''overworld'', [''minecraft:wood'', ''minecraft:stone'', ''minecraft:iron_ore'', ''minecraft:coal'', ''minecraft:wheat'', ''minecraft:diamond'',
         ''minecraft:redstone'', ''minecraft:gold_ore'', ''minecraft:emerald'']),
      (''nether'', [''minecraft:netherrack'', ''minecraft:nether_quartz'', ''minecraft:netherite_scrap'', ''minecraft:glowstone'',
         ''minecraft:blaze_rod'', ''minecraft:magma_cream'']),
      (''end'', [''minecraft:end_stone'', ''minecraft:chorus_fruit'', ''minecraft:purpur_block'', ''minecraft:shulker_shell'',
         ''minecraft:dragon_breath'']),
      (''deep_dark'', [''minecraft:echo_shard'', ''minecraft:disc_fragment'', ''minecraft:sculk'', ''minecraft:sculk_catalyst'']),
      (''ocean'', [''minecraft:prismarine'', ''minecraft:prismarine_crystals'', ''minecraft:sponge'', ''minecraft:nautilus_shell'',
         ''minecraft:heart_of_the_sea''])]"

record event_template =
  tp_names :: "string list"
  tp_severity :: "rat \<times> rat"
  tp_duration :: "int \<times> int"
  tp_multiplier :: "rat \<times> rat"

definition event_templates :: "(string, event_template) table" where
  "event_templates =
     [(''depletion'', \<lparr>tp_names = [''The Vein Runs Dry'', ''Fickle Earth'', ''Exhausted Bounty'', ''Depleted Stores'', ''The Land Gives No More''],
         tp_severity = (5 / 10, 9 / 10), tp_duration = (500, 2000), tp_multiplier = (15 / 10, 25 / 10)\<rparr>),
      (''shortage'', \<lparr>tp_names = [''Critical Shortage'', ''Supply Chain Broken'', ''Scarcity Hits'', ''Rationing Begins'', ''Famine's Shadow''],
         tp_severity = (3 / 10, 7 / 10), tp_duration = (200, 1000), tp_multiplier = (15 / 10, 3)\<rparr>),
      (''boom'', \<lparr>tp_names = [''Bountiful Harvest'', ''Rich Vein Discovered'', ''Surplus Abounds'', ''Golden Age of Trade'', ''Market Flood''],
         tp_severity = (3 / 10, 7 / 10), tp_duration = (300, 1500), tp_multiplier = (3 / 10, 7 / 10)\<rparr>),
      (''disaster'', \<lparr>tp_names = [''The Great Quake'', ''Fire From Below'', ''Plague of Decay'', ''Eldritch Blight'', ''The Withering''],
         tp_severity = (7 / 10, 1), tp_duration = (500, 3000), tp_multiplier = (2, 3)\<rparr>)]"

text \<open>What \<open>random\<close> may choose for an event of a kind.\<close>

fun fits_template :: "event_template option \<Rightarrow> string list option \<Rightarrow> world_event \<Rightarrow> bool" where
  "fits_template (Some t) (Some available) e \<longleftrightarrow>
     ev_name e \<in> set (tp_names t) \<and> ev_resources e \<noteq> [] \<and> length (ev_resources e) \<le> 3 \<and> distinct (ev_resources e) \<and>
     set (ev_resources e) \<subseteq> set available \<and>
     fst (tp_severity t) \<le> ev_severity e \<and> ev_severity e \<le> snd (tp_severity t) \<and>
     fst (tp_duration t) \<le> ev_duration e \<and> ev_duration e \<le> snd (tp_duration t) \<and>
     fst (tp_multiplier t) \<le> ev_multiplier e \<and> ev_multiplier e \<le> snd (tp_multiplier t)"
| "fits_template _ _ e \<longleftrightarrow> False"

definition event_possible :: "world_event \<Rightarrow> bool" where
  "event_possible e = fits_template (row_at (ev_type e) event_templates) (row_at (ev_region e) resources_by_region) e"

definition initialize_resource_states :: "market_state \<Rightarrow> market_state" where
  "initialize_resource_states m = fold (\<lambda>(g, is). fold (ensure_resource_state g) is) resources_by_region m"

definition event_abundance :: "string \<Rightarrow> rat \<Rightarrow> rat \<Rightarrow> rat" where
  "event_abundance kind severity base =
     min (base * 3)
       (if kind = ''depletion'' \<or> kind = ''disaster'' then base * (1 / 10 + (1 - severity) * (2 / 10))
        else if kind = ''shortage'' then base * (3 / 10 + (1 - severity) * (2 / 10))
        else if kind = ''boom'' then base * (2 + severity) else base)"

definition mark_event :: "trade_env \<Rightarrow> string \<Rightarrow> resource \<Rightarrow> resource" where
  "mark_event env kind r =
     r\<lparr>rs_event := True,
       rs_rate := if kind = ''depletion'' \<or> kind = ''disaster'' then trade_config env ''world_events'' ''regen_rate_depleted'' (1 / 2000) else rs_rate r\<rparr>"

definition hit_resource :: "trade_env \<Rightarrow> world_event \<Rightarrow> string \<Rightarrow> market_state \<Rightarrow> market_state" where
  "hit_resource env e i m =
     (let m1 = ensure_resource_state (ev_region e) i m;
          base = (case get_resource_state (ev_region e) i m1 of None \<Rightarrow> 1 | Some r \<Rightarrow> rs_base r)
      in change_resource (ev_region e) i (mark_event env (ev_type e))
           (update_resource_abundance (ev_region e) i (event_abundance (ev_type e) (ev_severity e) base) m1))"

definition apply_event_to_resources :: "trade_env \<Rightarrow> world_event \<Rightarrow> market_state \<Rightarrow> market_state" where
  "apply_event_to_resources env e m = fold (hit_resource env e) (ev_resources e) m"

text \<open>\<open>chosen\<close>: the events drawn in this check, with their identifiers.\<close>

definition check_and_trigger_events :: "trade_env \<Rightarrow> (string \<times> world_event) list \<Rightarrow> market_state \<Rightarrow> market_state" where
  "check_and_trigger_events env chosen m =
     (if of_nat (length (get_active_world_events m)) \<ge> trade_config env ''world_events'' ''max_active_events'' 3 then m
      else fold (\<lambda>(u, e). apply_event_to_resources env e) chosen (fold (\<lambda>(u, e). create_world_event u e) chosen m))"

definition regenerate :: "trade_env \<Rightarrow> resource \<Rightarrow> resource" where
  "regenerate env r =
     (if rs_current r < rs_base r
      then set_abundance (min (rs_base r) (rs_current r +
             (if rs_event r then trade_config env ''world_events'' ''regen_rate_depleted'' (1 / 2000)
              else trade_config env ''world_events'' ''regen_rate_normal'' (1 / 1000)))) r
      else r)"

definition process_world_events_tick :: "trade_env \<Rightarrow> market_state \<Rightarrow> market_state" where
  "process_world_events_tick env m =
     (let m1 = snd (tick_world_events m) in m1\<lparr>mk_resources := map (\<lambda>(k, r). (k, regenerate env r)) (mk_resources m1)\<rparr>)"

definition get_region_price_multiplier :: "string \<Rightarrow> string \<Rightarrow> market_state \<Rightarrow> rat" where
  "get_region_price_multiplier g i m =
     (case get_resource_state g i m of
        None \<Rightarrow> 1
      | Some r \<Rightarrow> rs_mult r * fold (\<lambda>e x. if ev_region e = g \<and> i \<in> set (ev_resources e) then x * ev_multiplier e else x) (get_active_world_events m) 1)"

definition get_resource_abundance :: "string \<Rightarrow> string \<Rightarrow> market_state \<Rightarrow> rat" where
  "get_resource_abundance g i m = (case get_resource_state g i m of None \<Rightarrow> 1 | Some r \<Rightarrow> rs_current r)"

definition is_resource_scarce :: "string \<Rightarrow> string \<Rightarrow> rat \<Rightarrow> market_state \<Rightarrow> bool" where
  "is_resource_scarce g i threshold m \<longleftrightarrow> get_resource_abundance g i m < threshold"

section \<open>Supply, demand and prices\<close>

definition initialize_economy :: "string list \<Rightarrow> market_state \<Rightarrow> market_state" where
  "initialize_economy regions m =
     (let init = \<lambda>t. fold (\<lambda>g t. if row_at g t = None then t @ [(g, [])] else t) regions t
      in m\<lparr>mk_supply := init (mk_supply m), mk_demand := init (mk_demand m)\<rparr>)"

definition level :: "string \<Rightarrow> string \<Rightarrow> levels \<Rightarrow> rat" where
  "level i g t = (case row_at g t of None \<Rightarrow> 100 | Some l \<Rightarrow> (case row_at i l of None \<Rightarrow> 100 | Some x \<Rightarrow> x))"

definition adjust_level :: "string \<Rightarrow> string \<Rightarrow> rat \<Rightarrow> levels \<Rightarrow> levels" where
  "adjust_level i g d t =
     (let l = (case row_at g t of None \<Rightarrow> [] | Some l \<Rightarrow> l) in dict_set g (dict_set i (max 0 (level i g t + d)) l) t)"

definition adjust_supply :: "string \<Rightarrow> string \<Rightarrow> rat \<Rightarrow> market_state \<Rightarrow> market_state" where
  "adjust_supply i g d m = m\<lparr>mk_supply := adjust_level i g d (mk_supply m)\<rparr>"

definition adjust_demand :: "string \<Rightarrow> string \<Rightarrow> rat \<Rightarrow> market_state \<Rightarrow> market_state" where
  "adjust_demand i g d m = m\<lparr>mk_demand := adjust_level i g d (mk_demand m)\<rparr>"

definition get_elasticity :: "trade_env \<Rightarrow> string \<Rightarrow> rat" where
  "get_elasticity env i =
     (if i \<in> set [''minecraft:wheat'', ''minecraft:wood'', ''minecraft:stone'', ''minecraft:coal'', ''minecraft:iron_ore'', ''minecraft:netherrack'',
                  ''minecraft:end_stone'', ''minecraft:bread'', ''minecraft:apple'']
      then trade_config env ''economy'' ''elasticity_commodity'' (5 / 1000)
      else if i \<in> set [''minecraft:diamond'', ''minecraft:emerald'', ''minecraft:netherite_ingot'', ''minecraft:elytra'', ''minecraft:shulker_shell'',
                  ''minecraft:heart_of_the_sea'', ''minecraft:dragon_breath'']
      then trade_config env ''economy'' ''elasticity_luxury'' (1 / 1000)
      else trade_config env ''economy'' ''elasticity_manufactured'' (2 / 1000))"

definition supply_demand_modifier :: "trade_env \<Rightarrow> rat \<Rightarrow> rat \<Rightarrow> rat \<Rightarrow> rat" where
  "supply_demand_modifier env elasticity s d =
     (let x = (if s > 0 then 1 + (d - s) * elasticity / max s 1 else trade_config env ''economy'' ''price_max_multiplier'' 3)
      in max (trade_config env ''economy'' ''price_min_multiplier'' (1 / 2)) (min (trade_config env ''economy'' ''price_max_multiplier'' 3) x))"

text \<open>A region of which only the supply was ever adjusted has no demand to look up.\<close>

definition calculate_price :: "trade_env \<Rightarrow> string \<Rightarrow> string \<Rightarrow> rat \<Rightarrow> market_state \<Rightarrow> rat result" where
  "calculate_price env i g base m =
     (if row_at g (mk_supply m) = None then Inr base
      else if row_at g (mk_demand m) = None then Inl KeyError
      else Inr (max 1 (te_round2 env
             (base * supply_demand_modifier env (get_elasticity env i) (level i g (mk_supply m)) (level i g (mk_demand m))
              * (1 / max (1 / 10) (get_resource_abundance g i m)) * get_region_price_multiplier g i m))))"

definition process_trade_economy_impact :: "trade_env \<Rightarrow> goods \<Rightarrow> goods \<Rightarrow> string \<Rightarrow> market_state \<Rightarrow> market_state" where
  "process_trade_economy_impact env offered received g m =
     (let shift = trade_config env ''economy'' ''demand_shift_per_trade'' (2 / 100)
      in fold (\<lambda>(i, q). adjust_supply i g (of_int q * shift * (8 / 10))) received
           (fold (\<lambda>(i, q) m. adjust_demand i g (of_int q * shift * (1 / 2)) (adjust_supply i g (- (of_int q) * shift) m)) offered m))"

definition process_caravan_economy_impact :: "trade_env \<Rightarrow> string \<Rightarrow> goods \<Rightarrow> bool \<Rightarrow> market_state \<Rightarrow> market_state" where
  "process_caravan_economy_impact env g cargo arrival m =
     (let shift = trade_config env ''economy'' ''demand_shift_per_trade'' (2 / 100)
      in fold (\<lambda>(i, q). adjust_supply i g (if arrival then of_int q * shift else - (of_int q) * shift)) cargo m)"

definition regrow :: "trade_env \<Rightarrow> rat \<Rightarrow> rat" where
  "regrow env x = (if x < 100 then min 100 (x + trade_config env ''economy'' ''supply_regen_per_tick'' (1 / 100) * 10) else x)"

text \<open>\<open>shift g i\<close> is the demand shift drawn for an item, if any.\<close>

definition process_economy_tick :: "trade_env \<Rightarrow> (string \<Rightarrow> string \<Rightarrow> rat option) \<Rightarrow> market_state \<Rightarrow> market_state" where
  "process_economy_tick env shift m =
     m\<lparr>mk_supply := map (\<lambda>(g, l). (g, map (\<lambda>(i, x). (i, regrow env x)) l)) (mk_supply m),
       mk_demand := map (\<lambda>(g, l). (g, map (\<lambda>(i, x). (i, case shift g i of None \<Rightarrow> x | Some d \<Rightarrow> max 0 (x + d))) l)) (mk_demand m)\<rparr>"


section \<open>Prices and supply\<close>

lemma modifier_antitone:
  assumes "0 \<le> s" "s \<le> s'" "0 \<le> d" "0 \<le> el"
  shows "supply_demand_modifier env el s' d \<le> supply_demand_modifier env el s d"
proof -
  let ?top = "trade_config env ''economy'' ''price_max_multiplier'' 3"
  have "(d - s') * el / max s' 1 \<le> (d - s) * el / max s 1" if "0 < s"
  proof (cases "d \<le> s'")
    case True
    show ?thesis
    proof (cases "d \<le> s")
      case d: True
      have "(s - d) * max s' 1 \<le> (s' - d) * max s 1"
      proof (cases "s \<le> 1")
        case le: True
        show ?thesis
        proof (cases "s' \<le> 1")
          case False
          then have "0 \<le> s'" by simp
          have "s * s' \<le> s'" using mult_right_mono [OF le \<open>0 \<le> s'\<close>] by simp
          moreover have "d \<le> d * s'" using mult_left_mono [of 1 s' d] False assms(3) by simp
          ultimately have "(s - d) * s' \<le> s' - d" unfolding left_diff_distrib by linarith
          then show ?thesis using le False by (simp add: max_def)
        qed (use le assms in \<open>simp add: max_def\<close>)
      next
        case False
        then show ?thesis using assms mult_left_mono [of s s' d] by (simp add: max_def algebra_simps)
      qed
      moreover have pos: "0 < max s 1" "0 < max s' 1" by simp_all
      ultimately have "(s - d) / max s 1 \<le> (s' - d) / max s' 1" 
        by (simp only: pos_divide_le_eq [OF pos(1)] times_divide_eq_left pos_le_divide_eq [OF pos(2)])
      then have "(s - d) / max s 1 * el \<le> (s' - d) / max s' 1 * el" by (rule mult_right_mono) fact
      then show ?thesis by (simp add: algebra_simps diff_divide_distrib)
    next
      case False
      have "(d - s') * el / max s' 1 \<le> 0" using True assms by (simp add: divide_le_0_iff mult_nonpos_nonneg)
      also have "0 \<le> (d - s) * el / max s 1" using False assms by simp
      finally show ?thesis .
    qed
  next
    case False
    have "(d - s') * el \<le> (d - s) * el" using assms by (intro mult_right_mono) simp_all
    moreover have "0 \<le> (d - s') * el" using False assms by simp
    ultimately show ?thesis using assms by (intro frac_le) simp_all
  qed
  then have "min ?top (if s' > 0 then 1 + (d - s') * el / max s' 1 else ?top) \<le> min ?top (if s > 0 then 1 + (d - s) * el / max s 1 else ?top)"
    using assms by (auto simp: min_le_iff_disj)
  then show ?thesis unfolding supply_demand_modifier_def Let_def by (rule max.mono [OF order_refl])
qed



definition factors_ok :: "trade_env \<Rightarrow> string \<Rightarrow> string \<Rightarrow> market_state \<Rightarrow> bool" where
  "factors_ok env i g m \<longleftrightarrow> 0 \<le> get_elasticity env i \<and> 0 \<le> level i g (mk_supply m) \<and> 0 \<le> level i g (mk_demand m) \<and> 0 \<le> get_region_price_multiplier g i m"

lemma adjusted_level: "level i g (adjust_level i g d t) = max 0 (level i g t + d)"
  by (simp add: adjust_level_def Let_def) (simp add: level_def dict.get_put)

lemma adjust_frame:
  "mk_demand (adjust_supply i g d m) = mk_demand m" "get_resource_abundance g' i' (adjust_supply i g d m) = get_resource_abundance g' i' m"
  "get_region_price_multiplier g' i' (adjust_supply i g d m) = get_region_price_multiplier g' i' m"
  by (simp_all add: adjust_supply_def get_resource_abundance_def get_region_price_multiplier_def get_resource_state_def get_active_world_events_def split: option.split)

section \<open>Ticks\<close>

lemma tick_resource:
  "get_resource_state g i (process_world_events_tick env m) = map_option (regenerate env) (get_resource_state g i m)"
proof -
  have "row_at k (map (\<lambda>(k, r). (k, f r)) t) = map_option f (row_at k t)" for k f and t :: "(string \<times> string, resource) table"
    by (induction t) (auto simp: row_at_def)
  then show ?thesis by (simp add: get_resource_state_def process_world_events_tick_def tick_world_events_def Let_def)
qed

lemma tick_events:
  "\<forall>(u, e)\<in>set (mk_events m). ev_ticks e \<le> int (Suc n) \<Longrightarrow> \<forall>(u, e)\<in>set (mk_events (process_world_events_tick env m)). ev_ticks e \<le> int n"
  by (auto simp: process_world_events_tick_def tick_world_events_def Let_def split: if_splits)

lemma ticks_resource:
  "get_resource_state g i m = Some r \<Longrightarrow> rs_event r \<Longrightarrow>
   \<exists>r'. get_resource_state g i ((process_world_events_tick env ^^ n) m) = Some r' \<and> rs_event r' \<and> rs_base r' = rs_base r \<and>
     (rs_base r \<le> rs_current r \<longrightarrow> r' = r)"
proof (induction n)
  case (Suc n)
  then obtain r' where "get_resource_state g i ((process_world_events_tick env ^^ n) m) = Some r'" "rs_event r'" "rs_base r' = rs_base r"
      "rs_base r \<le> rs_current r \<longrightarrow> r' = r" by blast
  then show ?case by (simp add: tick_resource) (auto simp: regenerate_def set_abundance_def)
qed simp

lemma ticks_events:
  "\<forall>(u, e)\<in>set (mk_events m). ev_ticks e \<le> int n \<Longrightarrow> get_active_world_events ((process_world_events_tick env ^^ n) m) = []"
proof (induction n arbitrary: m)
  case (Suc n)
  from Suc.IH [OF tick_events [OF Suc.prems]] show ?case by (simp only: funpow_Suc_right comp_apply)
next
  case 0
  then have none: "filter (\<lambda>(u, e). ev_ticks e > 0) (mk_events m) = []" by (auto simp: filter_empty_conv)
  show ?case unfolding funpow_0 get_active_world_events_def none by simp
qed

section \<open>Properties\<close>


definition harbour :: market_state where
  "harbour = \<lparr>mk_supply = [(''ocean'', [])], mk_demand = [(''ocean'', [])],
     mk_resources = [((''ocean'', ''minecraft:sponge''), \<lparr>rs_base = 1, rs_current = 5 / 2, rs_mult = 1, rs_rate = 1 / 1000, rs_event = True\<rparr>)],
     mk_events = [(''e1'', \<lparr>ev_type = ''boom'', ev_name = ''Market Flood'', ev_region = ''ocean'', ev_resources = [''minecraft:sponge''], ev_severity = 1 / 2,
        ev_duration = 300, ev_ticks = 3, ev_multiplier = 1 / 2, ev_started = 0\<rparr>)]\<rparr>"


text \<open>C20: World events end but their effects do not: once the events have run out there are none left, yet a resource that one of them touched is
  still marked as under an event, however many ticks pass, and one that a boom lifted to or above its base keeps that abundance for good.\<close>

theorem events_end_but_marks_stay:
  assumes "get_resource_state g i m = Some r" "rs_event r" "\<forall>(u, e)\<in>set (mk_events m). ev_ticks e \<le> int n"
  shows "get_active_world_events ((process_world_events_tick env ^^ n) m) = [] \<and>
    (\<exists>r'. get_resource_state g i ((process_world_events_tick env ^^ n) m) = Some r' \<and> rs_event r' \<and> (rs_base r \<le> rs_current r \<longrightarrow> r' = r))"
  using ticks_events [OF assms(3)] ticks_resource [OF assms(1,2)] by blast+

theorem events_end_but_marks_stay_witness:
  "get_active_world_events ((process_world_events_tick plain_env ^^ 3) harbour) = [] \<and>
   get_resource_abundance ''ocean'' ''minecraft:sponge'' ((process_world_events_tick plain_env ^^ 3) harbour) = 5 / 2"
proof -
  have ev: "\<forall>(u, e)\<in>set (mk_events harbour). ev_ticks e \<le> int 3" by (simp add: harbour_def)
  have r: "get_resource_state ''ocean'' ''minecraft:sponge'' harbour = Some \<lparr>rs_base = 1, rs_current = 5 / 2, rs_mult = 1, rs_rate = 1 / 1000, rs_event = True\<rparr>"
    by (simp add: harbour_def get_resource_state_def row_at_def)
  from events_end_but_marks_stay [OF r _ ev, of plain_env] show ?thesis by (auto simp: get_resource_abundance_def)
qed


end
