(* ===== verification/Spec2Isabelle.thy ===== *)
theory Spec2Isabelle
  imports AtomicJournal Lifecycle Crypto Base64 DatagramStore DatagramRuntime LootDrops AuctionMoney FsRollback EngineMain EngineHub DeepApi RunnerMods RunnerServers ThreadCache ToolQueue MemoryTuning MemoryRetriever TradeDeals TradeRoads TradeLaw TradeMarket
begin

text \<open>
  A verification library for the core logic of the YuniScripts ecosystem (Python, under
  \<open>src/\<close>): an engine that supervises scripts, and the services, games and servers that run as
  scripts.  This theory imports the library and says what it holds; the properties stand in the
  theories of their components.

  \<^bold>\<open>How Python is modelled.\<close>  A function that may raise is a function into a sum: \<open>Inl\<close>
  carries the exception class (\<open>py_error\<close>, or an error type of the component), \<open>Inr\<close> the
  value.  Objects with state are records that are passed and returned.  A \<open>dict\<close> or a keyed SQL
  table is an association list in insertion order (\<open>SqlTables\<close>, \<open>PyDict\<close>), whose contracts
  are the locales \<open>ledger\<close> and \<open>dictionary\<close>.  A \<open>str\<close> is a list of characters with code
  points below 256 (\<open>PyText\<close>); values of varying type are \<open>pyval\<close> (\<open>PyValues\<close>).
  Integers are unbounded, as in Python; bytes are \<open>8 word\<close>; floats, and clock readings, are
  rationals.  What the code reads from outside (the clock, random draws, fresh identifiers, replies
  of the network, digests of hashlib, the files of a directory) is an argument.  Code that runs in
  several threads or coroutines is split where it releases its lock or awaits, and the properties
  quantify over the order of the parts.

  \<^bold>\<open>Shared material.\<close>  \<open>Prelude\<close> (exceptions, results, lists), \<open>PyText\<close> (strip,
  split, join, int and UTF-8 conversions with their round trips), \<open>SqlTables\<close>, \<open>PyDict\<close>,
  \<open>PyValues\<close>.

  \<^bold>\<open>The engine\<close> (\<open>engine/\<close>, \<open>main.py\<close>).  \<open>EngineScripts\<close>: metadata, discovery,
  overrides, port conflicts, hooks and debug arguments (\<open>metadata.py\<close>, \<open>manager.py\<close>,
  \<open>hooks.py\<close>); the port check passes exactly when the ports differ.  \<open>EngineProcs\<close>: starting,
  stopping, health checks and restarts (\<open>process_wrapper.py\<close>) over a list of children; when a crashed
  script is restarted, and how often at most and at least.  \<open>EngineMain\<close>: the main loop, its
  commands and hot reloads (\<open>main.py\<close>, \<open>watcher.py\<close>), with the dictionary of running scripts that
  the UDP thread shares only until the first monitoring round; no child outlives the engine.
  \<open>EngineHub\<close>: the event bus (\<open>phooks.py\<close>); who receives an event, who is dropped.

  \<^bold>\<open>Multi-server manager\<close> (\<open>SCRIPTS/SERVICES/multi-server-manager/engine\<close>).
  \<open>PluginRegistry\<close>: plugins, their dependency order (Kahn's algorithm over the requested names,
  with the cycle error) and the instances of subsystems, whose coroutines are cut at their awaits;
  the order is proved a topological sort, an error is proved to mean a cycle or an unknown name, and
  a registry without a coroutine in flight is proved settled.  \<open>VfsDatabases\<close>: database paths and
  reference-counted connections; plain names are isolated.  \<open>Lifecycle\<close>: registering, starting,
  stopping and restarting servers over the two, with the health rounds; outcomes of every branch of
  start and shutdown, and invariants over all operations.

  \<^bold>\<open>Operation journal\<close> (\<open>SCRIPTS/SERVERS/mc-server-runner/engine/atomic.py\<close>).
  \<open>AtomicJournal\<close>: begin, commit, rollback, the context manager, atomic writes; the database
  mirrors the memory, rolling back restores the store.

  \<^bold>\<open>Signing ciphers\<close> (\<open>SCRIPTS/SERVICES/item-signing-bridge/FUNCTIONS\<close>).
  \<open>Crypto\<close>: AES-256 and the GCM object over words; decryption inverts encryption, an accepted
  tag is the tag of the ciphertext, a block is a permutation.  \<open>Base64\<close>: the round trip.

  \<^bold>\<open>Datagram engine\<close> (\<open>SCRIPTS/SERVICES/datagram-engine/engine\<close>).
  \<open>DatagramTypes\<close>, \<open>DatagramStore\<close> (INI text, creation, loading, hashing over a value for the
  directory tree) and \<open>DatagramRuntime\<close> (versions, function registry); round trips, and which
  content the hash covers.

  \<^bold>\<open>LootPower\<close> (\<open>SCRIPTS/GAMES/lootpower\<close>).  \<open>LootTables\<close>, \<open>LootPlayers\<close>,
  \<open>LootMarket\<close>, \<open>LootDrops\<close>: accounts and turns, the auction of items, crafting, mining,
  drops and adventures; conservation of items and coins, what each call does on each branch.

  \<^bold>\<open>Economy bridge and auction house\<close> (\<open>SCRIPTS/GAMES/minecraft_manager\<close>).
  \<open>EcoBridge\<close>: the wallet server and its client with retries; the ledger explains every wallet,
  fair requests never overdraw, one deduction is charged once on a connection that answers.
  \<open>AuctionState\<close> and \<open>AuctionHouse\<close>: listings, bids, purchases, expiry, bans, with the calls
  cut between their reading and their writing transaction; \<open>AuctionSafety\<close>: a closed listing
  stays closed under any interleaving, every listed unit is accounted for; \<open>AuctionMoney\<close>:
  serial bids conserve coins.

  \<^bold>\<open>In-memory file system\<close> (\<open>SCRIPTS/SERVICES/fastmcp_server/tools/virtual_fs.py\<close>).
  \<open>FsPaths\<close> (canonical paths, sandbox), \<open>FsStore\<close> (the store), \<open>FsApply\<close> (staging,
  validation, application to a disk), \<open>FsSafety\<close> (nothing outside the sandbox changes) and
  \<open>FsRollback\<close> (what a failed application restores); the last two instantiate the locale
  \<open>disk_relation\<close>.

  \<^bold>\<open>DeepSky client\<close> (\<open>SCRIPTS/CLIENTS/deepsky_client\<close>).  \<open>DeepSession\<close>: the
  hash-linked ring buffer of messages, its flushes, checkpoints and recovery; the integrity check and
  the recovery are proved right exactly until the first eviction.  \<open>DeepOrders\<close>: error events,
  their deduplication, the text of work orders and what is read back from it.  \<open>DeepHealing\<close>: the
  agent with its depth tracker, its conversations, retries and polling; the cost of an order is
  bounded, the tracker balanced, escalation proved unreachable.  The model, the tools and the prompts
  are arguments.  \<open>DeepApi\<close>: retries, backoff and key rotation.

\<^bold>\<open>Server runner\<close> (\<open>SCRIPTS/SERVERS/mc-server-runner/engine\<close>).  \<open>RunnerFiles\<close>: the files in
  the database and the virtual file system over them and a disk, with the rows of the journal
  (\<open>AtomicJournal\<close>) and their rollback; every stored file is shown to extract to what a read gives.
  \<open>RunnerMods\<close>: the registry of mods, the circle check (proved to decide reachability in a registry
  without self-dependencies, with the number of mods as fuel), backups, upgrades and installation.  \<open>RunnerNet\<close>: adapters, the firewall and
  the ports; \<open>RunnerServers\<close>: the processes of the servers, their registry and monitors, as
  interleavings of calls, with the ports of registered servers proved disjoint and two ways in which
  stopping and crashing go wrong.

\<^bold>\<open>FastMCP server\<close> (\<open>SCRIPTS/SERVICES/fastmcp_server/tools\<close>).  \<open>ThreadCache\<close>: the cache of
  activation results, proved transparent while the graph's version does not go back, and bounded.
  \<open>PyHeap\<close>: Python's \<open>heapq\<close> with its heap property, as an interface of priority queues.
  \<open>ToolQueue\<close>: the queue of tool calls on it, as interleaved sections of its callers; turns go by
  urgency, permits are accounted for, and the cap is shown to fail for callers let through.
  \<open>MemoryGraph\<close>: the nodes and edges behind that cache, consolidation and the forgetting curve, proved
  well-formed.  \<open>MemorySpread\<close>: spreading activation, every score explained by an edge and a level.
  \<open>MemoryTuning\<close>: the event bus and the controller that tunes the weights, proved to stay in range.
  \<open>MemoryRetriever\<close>: the three searches and their fusion by reciprocal ranks, proved to return the best.

\<^bold>\<open>Simulated trade\<close> (\<open>AUCTIONHOUSE/EXTENSIONS/SIMULATED_TRADE\<close>, \<open>EXTENSIONS/state_registry.py\<close>).
  \<open>TradeWorld\<close>: the shared registry, the tables and the elementary moves of goods and gold.
  \<open>TradeDeals\<close>: offers, trades and barter; over any sequence of them every item and all gold is proved
  conserved, offers close for good, and declining is shown to mark an offer accepted.  \<open>TradeRoads\<close>:
  roads and caravans; gold is conserved and goods never appear, with cargo of positive quantities.
  \<open>TradeLaw\<close>: reputation, attacks and arrests, with random numbers as a sequence; rows stay in their
  limits and attacks are shown to take nothing.  \<open>TradeMarket\<close>: supply, demand, events and prices.
  Quantities that are not negative are an assumption of the steps, since the code does not check them;
  numbers are exact where the code uses floats, and statements and commits succeed.

  \<^bold>\<open>Bounds.\<close>  Loops are structural recursions or carry a termination proof; the retry loop of the
  economy client makes three attempts (\<open>RETRY_COUNT\<close>).  CPython's limit of 4300 digits on
  conversions, float rounding and the 64-bit range of SQLite integers are left out.  Rows are
  returned in insertion order where the SQL gives none.

  \<^bold>\<open>Not modelled.\<close>  Logging and message texts; sockets, encryption in transit and LAN discovery;
  user interfaces and command lines; the supervision of the host by the FastMCP server, which
  inspects the operating system; the other simulations of the auction house's extensions (people, health,
  relationships, social life, chat), which draw random numbers in floats; the texts of prompts;
  downloads and Java processes of the server
  runner.  The manifest lists each part with its reason.
\<close>

end
